(* ===== verification/Prelude.thy ===== *)
theory Prelude
  imports Main "HOL-Library.Word" "HOL-Library.Signed_Division"
begin

text \<open>
  Shared vocabulary of the development: the C types of \<^verbatim>\<open>corelib/oec_values.h\<close>, C strings and
  byte buffers, little-endian integer encodings, decimal printing as \<^verbatim>\<open>sprintf\<close> does it, and
  the generic list lemmas the components share.

  A C \<^verbatim>\<open>char *\<close> buffer is a \<^typ>\<open>string\<close> (one \<^typ>\<open>char\<close> per byte).  A C string held in a
  variable is the list of its characters before the terminating NUL.
\<close>

unbundle bit_operations_syntax

type_synonym oe_id = "64 word"
type_synonym oe_time = "64 word"
type_synonym oe_flags = "64 word"
type_synonym oe_scalar = string

named_theorems oe_simps \<open>unfolding equations of plain accessors and updaters\<close>
named_theorems oe_inv \<open>preservation of component invariants\<close>

section \<open>Outcomes of C code\<close>

text \<open>
  A run of a C function ends normally, stops at a failed \<^verbatim>\<open>assert\<close>, or reaches behaviour the C
  standard leaves undefined (an access past the end of an allocation, use of freed memory, a NULL
  pointer followed, a union read through another member than the one stored, overflow of a signed
  integer or of the conversion to one, use of a variable that was never set).  \<open>Fuel_Spent\<close> is not an outcome of the C code: it marks a bounded loop of the model whose
  bound was too small, and the theorems about such a loop exclude it.
\<close>

datatype c_fault =
    Assert_Failed | Out_Of_Bounds | Use_After_Free | Null_Deref | Wrong_Member | Int_Overflow
  | Uninitialised | Fuel_Spent

type_synonym 'a c_result = "c_fault + 'a"

text \<open>Going on with the value of a run that ended normally.\<close>

fun c_bind :: "'a c_result \<Rightarrow> ('a \<Rightarrow> 'b c_result) \<Rightarrow> 'b c_result" where
  "c_bind (Inl e) f = Inl e"
| "c_bind (Inr x) f = f x"

section \<open>Characters and C strings\<close>

definition NUL :: char where
  "NUL = CHR 0x00"

definition is_cstring :: "string \<Rightarrow> bool" where
  "is_cstring s = (NUL \<notin> set s)"

text \<open>Reading the C string that starts at the head of a buffer; \<^const>\<open>None\<close> when no NUL ends it.\<close>

fun read_cstring :: "string \<Rightarrow> (string \<times> string) option" where
  "read_cstring [] = None"
| "read_cstring (c # cs) =
     (if c = NUL then Some ([], cs)
      else map_option (\<lambda>(s, rest). (c # s, rest)) (read_cstring cs))"

text \<open>The value of a plain (signed) \<^verbatim>\<open>char\<close>.\<close>

definition schar :: "char \<Rightarrow> int" where
  "schar c = (let n = int (of_char c) in if n < 128 then n else n - 256)"

definition isspace :: "char \<Rightarrow> bool" where
  "isspace c = (c = CHR '' '' \<or> (9 :: nat) \<le> of_char c \<and> of_char c \<le> (13 :: nat))"

text \<open>A text printed with its NUL into a block of \<open>sz\<close> bytes.\<close>

definition sprintf_into :: "nat \<Rightarrow> string \<Rightarrow> string c_result" where
  "sprintf_into sz text = (if length text < sz then Inr text else Inl Out_Of_Bounds)"

section \<open>Little-endian integers\<close>

primrec le_enc :: "nat \<Rightarrow> nat \<Rightarrow> string" where
  "le_enc 0 n = []"
| "le_enc (Suc k) n = char_of n # le_enc k (n div 256)"

primrec le_dec :: "string \<Rightarrow> nat" where
  "le_dec [] = 0"
| "le_dec (c # cs) = of_char c + 256 * le_dec cs"

text \<open>Reading a fixed-width field off the front of a buffer.\<close>

definition read_le :: "nat \<Rightarrow> string \<Rightarrow> (nat \<times> string) option" where
  "read_le k bs = (if length bs < k then None else Some (le_dec (take k bs), drop k bs))"

section \<open>Decimal printing and reading\<close>

fun dec_nat :: "nat \<Rightarrow> string" where
  "dec_nat n = (if n < 10 then [char_of (48 + n)] else dec_nat (n div 10) @ [char_of (48 + n mod 10)])"

declare dec_nat.simps [simp del]

definition dec_int :: "int \<Rightarrow> string" where
  "dec_int i = (if i < 0 then CHR ''-'' # dec_nat (nat (- i)) else dec_nat (nat i))"

definition is_digit :: "char \<Rightarrow> bool" where
  "is_digit c = (48 \<le> (of_char c :: nat) \<and> (of_char c :: nat) \<le> 57)"

definition digits_val :: "nat \<Rightarrow> string \<Rightarrow> nat" where
  "digits_val a s = foldl (\<lambda>v c. 10 * v + ((of_char c :: nat) - 48)) a s"

section \<open>Lemmas on outcomes\<close>

lemma c_bind_Inr: "c_bind m f = Inr y \<longleftrightarrow> (\<exists>x. m = Inr x \<and> f x = Inr y)"
  by (cases m) auto

lemma c_bind_InrE [elim]:
  assumes "c_bind m f = Inr y"
  obtains x where "m = Inr x" "f x = Inr y"
  using assms by (auto simp: c_bind_Inr)

lemma c_bind_cong [fundef_cong]:
  "m = m' \<Longrightarrow> (\<And>x. m' = Inr x \<Longrightarrow> f x = f' x) \<Longrightarrow> c_bind m f = c_bind m' f'"
  by (cases m') auto

section \<open>Lemmas on strings and encodings\<close>

lemma NUL_of_char [simp]: "(of_char NUL :: nat) = 0"
  by (simp add: NUL_def)


lemma char_of_of_char_mod [simp]: "of_char (char_of (n :: nat)) = n mod 256"
  by simp

lemma read_cstring_append:
  "is_cstring s \<Longrightarrow> read_cstring (s @ NUL # rest) = Some (s, rest)"
  by (induction s) (auto simp: is_cstring_def)

lemma read_cstring_cstring: "read_cstring bs = Some (s, rest) \<Longrightarrow> is_cstring s"
  by (induction bs arbitrary: s) (auto simp: is_cstring_def split: if_splits)

lemma length_le_enc [simp]: "length (le_enc k n) = k"
  by (induction k arbitrary: n) auto

lemma le_dec_enc [simp]: "le_dec (le_enc k n) = n mod 256 ^ k"
proof (induction k arbitrary: n)
  case 0
  then show ?case by simp
next
  case (Suc k)
  have "n mod 256 + 256 * (n div 256 mod 256 ^ k) = n mod (256 * 256 ^ k)"
    by (metis add.commute mod_mult2_eq)
  with Suc show ?case by simp
qed

lemma read_le_enc [simp]: "read_le k (le_enc k n @ rest) = Some (n mod 256 ^ k, rest)"
  by (simp add: read_le_def)

lemma read_le_word64 [simp]:
  "read_le 8 (le_enc 8 (unat (w :: 64 word)) @ rest) = Some (unat w, rest)"
proof -
  have "unat w < 256 ^ 8" by (rule less_le_trans [OF unsigned_less]) simp
  then show ?thesis by (simp del: power_numeral)
qed

section \<open>Lemmas on decimal notation\<close>

lemma digits_val_append: "digits_val a (s @ t) = digits_val (digits_val a s) t"
  by (simp add: digits_val_def)

lemma digits_val_dec_nat: "digits_val 0 (dec_nat n) = n"
proof (induction n rule: dec_nat.induct)
  case (1 n)
  show ?case
  proof (cases "n < 10")
    case True
    then show ?thesis by (simp add: dec_nat.simps [of n] digits_val_def)
  next
    case False
    then have "digits_val 0 (dec_nat (n div 10)) = n div 10" using 1 by simp
    with False show ?thesis
      by (simp add: dec_nat.simps [of n] digits_val_append) (simp add: digits_val_def)
  qed
qed

lemma dec_nat_digits: "c \<in> set (dec_nat n) \<Longrightarrow> is_digit c"
proof (induction n rule: dec_nat.induct)
  case (1 n)
  show ?case
  proof (cases "n < 10")
    case True
    with 1 show ?thesis by (auto simp: dec_nat.simps [of n] is_digit_def)
  next
    case False
    with 1 show ?thesis by (auto simp: dec_nat.simps [of n] is_digit_def)
  qed
qed

lemma dec_nat_not_Nil [simp]: "dec_nat n \<noteq> []"
  by (subst dec_nat.simps) simp

lemma dec_nat_inject [simp]: "dec_nat m = dec_nat n \<longleftrightarrow> m = n"
  by (metis digits_val_dec_nat)

lemma length_dec_nat: "n < 10 ^ Suc k \<Longrightarrow> length (dec_nat n) \<le> Suc k"
proof (induction k arbitrary: n)
  case 0
  then show ?case by (simp add: dec_nat.simps [of n])
next
  case (Suc k)
  show ?case
  proof (cases "n < 10")
    case True
    then show ?thesis by (simp add: dec_nat.simps [of n])
  next
    case False
    have "n div 10 < 10 ^ Suc k" using Suc.prems by simp
    then have "length (dec_nat (n div 10)) \<le> Suc k" by (rule Suc.IH)
    with False show ?thesis by (simp add: dec_nat.simps [of n])
  qed
qed

lemma is_digit_not_NUL [simp]: "is_digit c \<Longrightarrow> c \<noteq> NUL"
  by (auto simp: is_digit_def)

lemma is_cstring_simps [simp]:
  "is_cstring []"
  "is_cstring (c # s) \<longleftrightarrow> c \<noteq> NUL \<and> is_cstring s"
  "is_cstring (s @ t) \<longleftrightarrow> is_cstring s \<and> is_cstring t"
  by (auto simp: is_cstring_def)

lemma is_cstring_dec_nat [simp]: "is_cstring (dec_nat n)"
  using dec_nat_digits [of NUL n] is_digit_not_NUL [of NUL] by (auto simp: is_cstring_def)

section \<open>Lemmas on bucket arrays\<close>

lemma length_concat_update:
  "i < length xs \<Longrightarrow> length (concat (xs[i := b])) + length (xs ! i) = length (concat xs) + length b"
proof (induction xs arbitrary: i)
  case (Cons x xs)
  then show ?case by (cases i) auto
qed simp

lemma set_concat_nth: "set (concat xs) = (\<Union>j < length xs. set (xs ! j))"
  by (force simp: in_set_conv_nth [of _ xs])

lemma set_concat_update:
  assumes "i < length xs"
    and "\<And>j x. j < length xs \<Longrightarrow> x \<in> set (xs ! j) \<Longrightarrow> f x = j"
  shows "set (concat (xs[i := b])) = {x \<in> set (concat xs). f x \<noteq> i} \<union> set b"
  unfolding set_concat_nth using assms by (auto simp: nth_list_update split: if_splits)

lemma set_concat_bucket:
  assumes "f y < length xs"
    and "\<And>j x. j < length xs \<Longrightarrow> x \<in> set (xs ! j) \<Longrightarrow> f x = j"
  shows "y \<in> set (concat xs) \<longleftrightarrow> y \<in> set (xs ! f y)"
  unfolding set_concat_nth using assms by auto

lemma sorted_wrt_concat:
  assumes "\<And>b. b \<in> set bs \<Longrightarrow> sorted_wrt R b"
    and "sorted_wrt (\<lambda>b c. \<forall>x \<in> set b. \<forall>y \<in> set c. R x y) bs"
  shows "sorted_wrt R (concat bs)"
  using assms by (induction bs) (auto simp: sorted_wrt_append)

lemma option_eqI: "(\<And>w. a = Some w \<longleftrightarrow> b = Some w) \<Longrightarrow> a = b"
  by (metis option.exhaust)

end
