(* ===== verification/Values.thy ===== *)
theory Values
  imports Prelude
begin

text \<open>
  \<^verbatim>\<open>corelib/oec_values.c\<close> and \<^verbatim>\<open>corelib/arith.c\<close>: substring search, bounded concatenation,
  integer printing, the string hash behind every string-keyed table, string copying, unquoting,
  digit counting and the floor/ceiling integer arithmetic.
\<close>

section \<open>oec_values.h\<close>

definition OEC_FOREVER :: oe_time where
  "OEC_FOREVER = - 1"

definition OEC_MONTH :: oe_time where
  "OEC_MONTH = 2678400000"

definition OEC_YEAR :: oe_time where
  "OEC_YEAR = 31536000000"

definition OEC_FLAG_SET :: "oe_flags \<Rightarrow> oe_flags \<Rightarrow> oe_flags" where
  "OEC_FLAG_SET flags f = flags OR f"

definition OEC_FLAG_CLEAR :: "oe_flags \<Rightarrow> oe_flags \<Rightarrow> oe_flags" where
  "OEC_FLAG_CLEAR flags f = flags AND NOT f"

definition OEC_FLAG_ISSET :: "oe_flags \<Rightarrow> oe_flags \<Rightarrow> bool" where
  "OEC_FLAG_ISSET flags f = (flags AND f \<noteq> 0)"

section \<open>oe_memmem\<close>

text \<open>
  \<^verbatim>\<open>memchr\<close> finds the first occurrence of a character; the result is an offset into the
  haystack instead of a pointer.  After a failed comparison the search resumes
  \<^verbatim>\<open>needlelen\<close> characters further on.
\<close>

fun memchr :: "string \<Rightarrow> char \<Rightarrow> nat option" where
  "memchr [] c = None"
| "memchr (x # xs) c = (if x = c then Some 0 else map_option Suc (memchr xs c))"

lemma FLAG_ISSET_exp: "OEC_FLAG_ISSET w (2 ^ k) \<longleftrightarrow> bit w k"
  by (simp add: OEC_FLAG_ISSET_def and_exp_eq_0_iff_not_bit)

lemma FLAG_SET_exp: "k < 64 \<Longrightarrow> bit (OEC_FLAG_SET w (2 ^ k)) j \<longleftrightarrow> bit w j \<or> j = k"
  by (auto simp: OEC_FLAG_SET_def bit_simps)

lemma FLAG_CLEAR_exp: "k < 64 \<Longrightarrow> bit (OEC_FLAG_CLEAR w (2 ^ k)) j \<longleftrightarrow> bit w j \<and> j \<noteq> k"
  by (auto simp: OEC_FLAG_CLEAR_def bit_simps dest: bit_imp_le_length)

lemmas flag_exp = FLAG_ISSET_exp FLAG_SET_exp FLAG_CLEAR_exp

lemma memchr_Some: "memchr s c = Some i \<Longrightarrow> i < length s \<and> s ! i = c"
  by (induction s c arbitrary: i rule: memchr.induct) (auto split: if_splits)

function oe_memmem :: "string \<Rightarrow> string \<Rightarrow> nat option" where
  "oe_memmem haystack needle =
     (if haystack = [] \<or> needle = [] then None
      else case memchr haystack (hd needle) of
        None \<Rightarrow> None
      | Some i \<Rightarrow>
          let substr = drop i haystack in
          if length substr < length needle then None
          else if take (length needle) substr = needle then Some i
          else map_option (\<lambda>j. i + length needle + j)
                 (oe_memmem (drop (length needle) substr) needle))"
  by pat_completeness auto
termination
  by (relation "measure (\<lambda>(h, n). length h)") auto

declare oe_memmem.simps [simp del]

section \<open>oec_str_concat, oec_itoa, string copies\<close>

text \<open>
  \<^verbatim>\<open>oec_str_concat\<close> copies its argument pointers and a NULL marker into an array of nine, asserts a
  non-empty total and supports one to five arguments; more than five reach \<^verbatim>\<open>assert(false)\<close>, and
  from nine on the marker is written past the array.
\<close>

definition oec_str_concat :: "string list \<Rightarrow> string c_result" where
  "oec_str_concat args =
     (if 9 \<le> length args then Inl Out_Of_Bounds
      else if sum_list (map length args) = 0 then Inl Assert_Failed
      else if 1 \<le> length args \<and> length args \<le> 5 then Inr (concat args)
      else Inl Assert_Failed)"

definition oec_itoa :: "32 word \<Rightarrow> string" where
  "oec_itoa n = dec_int (sint n)"

text \<open>
  \<^verbatim>\<open>strncpy(dst, src, n)\<close> writes exactly \<^verbatim>\<open>n\<close> bytes: the characters of \<^verbatim>\<open>src\<close>, cut at
  \<^verbatim>\<open>n\<close>, then NUL padding.
\<close>

definition strncpy :: "nat \<Rightarrow> string \<Rightarrow> string" where
  "strncpy n src = take n src @ replicate (n - length src) NUL"

definition oec_ncpy_str :: "string \<Rightarrow> nat \<Rightarrow> string" where
  "oec_ncpy_str str len = strncpy (len + 1) str"

definition oec_cpy_str :: "string option \<Rightarrow> string option" where
  "oec_cpy_str str = map_option (\<lambda>s. oec_ncpy_str s (length s)) str"

text \<open>
  \<^verbatim>\<open>oec_unquote\<close> allocates \<^verbatim>\<open>cpylen\<close> bytes, fills them from \<^verbatim>\<open>s+1\<close> and then stores a NUL at
  index \<^verbatim>\<open>cpylen\<close>.  An allocation is the list of its bytes; a store at an index that is not
  below its size is \<^const>\<open>Out_Of_Bounds\<close>.
\<close>

definition store_byte :: "string \<Rightarrow> nat \<Rightarrow> char \<Rightarrow> string c_result" where
  "store_byte blk i c = (if i < length blk then Inr (blk[i := c]) else Inl Out_Of_Bounds)"

definition oec_unquote :: "string \<Rightarrow> nat \<Rightarrow> string option c_result" where
  "oec_unquote s len =
     (if len < 2 then Inr None
      else let cpylen = len - 2;
               d = strncpy cpylen (tl s)
           in case store_byte d cpylen NUL of
                Inl e \<Rightarrow> Inl e
              | Inr d' \<Rightarrow> Inr (Some d'))"

function oec_count_long_digits :: "int \<Rightarrow> nat" where
  "oec_count_long_digits number =
     (if number = 0 then 0 else 1 + oec_count_long_digits (number sdiv 10))"
  by pat_completeness auto
termination
  by (relation "measure (\<lambda>n. nat \<bar>n\<bar>)")
    (auto simp: signed_divide_int_def abs_mult sgn_if split: if_splits)

declare oec_count_long_digits.simps [simp del]

section \<open>The string hash\<close>

fun hash_loop :: "int \<Rightarrow> string \<Rightarrow> int \<Rightarrow> int" where
  "hash_loop h [] M = h"
| "hash_loop h (v # vs) M = hash_loop ((127 * h + schar v) smod M) vs M"

definition hash :: "string \<Rightarrow> int \<Rightarrow> int" where
  "hash v M = hash_loop 0 v M"

definition oec_hash_string_key :: "string \<Rightarrow> int" where
  "oec_hash_string_key key = hash key 99000"

section \<open>arith.c\<close>

definition Arith_max :: "int \<Rightarrow> int \<Rightarrow> int" where
  "Arith_max x y = (if x > y then x else y)"

definition Arith_min :: "int \<Rightarrow> int \<Rightarrow> int" where
  "Arith_min x y = (if x > y then y else x)"

definition Arith_div :: "int \<Rightarrow> int \<Rightarrow> int" where
  "Arith_div x y =
     (if (- 13) sdiv 5 = (- 2 :: int) \<and> (x < 0) \<noteq> (y < 0) \<and> x smod y \<noteq> 0
      then x sdiv y - 1 else x sdiv y)"

definition Arith_mod :: "int \<Rightarrow> int \<Rightarrow> int" where
  "Arith_mod x y =
     (if (- 13) sdiv 5 = (- 2 :: int) \<and> (x < 0) \<noteq> (y < 0) \<and> x smod y \<noteq> 0
      then x smod y + y else x smod y)"

definition Arith_floor :: "int \<Rightarrow> int \<Rightarrow> int" where
  "Arith_floor x y = Arith_div x y"

definition Arith_ceiling :: "int \<Rightarrow> int \<Rightarrow> int" where
  "Arith_ceiling x y = Arith_div x y + (if x smod y \<noteq> 0 then 1 else 0)"

section \<open>Properties\<close>

lemma memchr_None: "memchr s c = None \<longleftrightarrow> c \<notin> set s"
  by (induction s c rule: memchr.induct) auto

text \<open>Whatever \<^const>\<open>oe_memmem\<close> returns is an occurrence of the needle.\<close>

lemma oe_memmem_occurs:
  "oe_memmem h n = Some i \<Longrightarrow> i + length n \<le> length h \<and> take (length n) (drop i h) = n"
proof (induction h n arbitrary: i rule: oe_memmem.induct)
  case (1 h n)
  from "1.prems" have ne: "h \<noteq> []" "n \<noteq> []"
    by (auto simp: oe_memmem.simps [of h n])
  with "1.prems" obtain k where k: "memchr h (hd n) = Some k"
    by (auto simp: oe_memmem.simps [of h n] split: option.splits)
  let ?s = "drop k h"
  have eq: "oe_memmem h n =
      (if length ?s < length n then None else if take (length n) ?s = n then Some k
       else map_option (\<lambda>j. k + length n + j) (oe_memmem (drop (length n) ?s) n))"
    using ne k by (simp add: oe_memmem.simps [of h n] Let_def)
  have len: "\<not> length ?s < length n" using "1.prems" eq by auto
  have kl: "k < length h" using memchr_Some [OF k] by simp
  show ?case
  proof (cases "take (length n) ?s = n")
    case True
    then show ?thesis using "1.prems" eq len kl by simp
  next
    case False
    then obtain j where j: "oe_memmem (drop (length n) ?s) n = Some j" and i: "i = k + length n + j"
      using "1.prems" eq len by auto
    have "j + length n \<le> length (drop (length n) ?s) \<and> take (length n) (drop j (drop (length n) ?s)) = n"
      using "1.IH" [OF _ k refl _ False j] ne len by blast
    then show ?thesis using i len kl by (auto simp: algebra_simps)
  qed
qed

lemma hash_loop_bound:
  "M > 0 \<Longrightarrow> \<bar>h\<bar> < M \<Longrightarrow> \<bar>hash_loop h s M\<bar> < M"
proof (induction h s M rule: hash_loop.induct)
  case (2 h v vs M)
  have "\<bar>(127 * h + schar v) smod M\<bar> < M"
    using "2.prems" by (auto simp: signed_modulo_int_def abs_mult sgn_if)
  with 2 show ?case by simp
qed simp

lemma schar_bound: "- 128 \<le> schar c \<and> schar c \<le> 127"
  using nat_of_char_less_256 [of c] by (auto simp: schar_def Let_def simp del: nat_of_char_less_256)

lemma sdiv_nonneg: "0 \<le> a \<Longrightarrow> 0 < b \<Longrightarrow> a sdiv b = a div (b :: int)"
  by (auto simp: signed_divide_int_def sgn_if split: if_splits)

lemma trunc_div_signs:
  fixes x y :: int
  assumes "y \<noteq> 0"
  shows "x sdiv y = (if (x < 0) \<noteq> (y < 0) then - (\<bar>x\<bar> div \<bar>y\<bar>) else \<bar>x\<bar> div \<bar>y\<bar>)"
    and "x smod y = (if x < 0 then - (\<bar>x\<bar> mod \<bar>y\<bar>) else \<bar>x\<bar> mod \<bar>y\<bar>)"
  using assms
  by (auto simp: signed_divide_int_def signed_modulo_int_def sgn_if)

lemma floor_div_signs:
  fixes x y :: int
  assumes "0 < y" "0 \<le> x"
  shows "(- x) div y = (if x mod y = 0 then - (x div y) else - (x div y) - 1)"
    and "(- x) mod y = (if x mod y = 0 then 0 else y - x mod y)"
  using assms by (auto simp: zdiv_zminus1_eq_if zmod_zminus1_eq_if)

text \<open>The quotient, remainder and ceiling of \<^verbatim>\<open>arith.c\<close>, computed from C's truncating division,
  are floor division, its remainder (with the divisor's sign) and the ceiling of the quotient.\<close>

theorem Arith_floor_semantics:
  assumes "y \<noteq> 0"
  shows "Arith_div x y = x div y \<and> Arith_mod x y = x mod y \<and>
    Arith_floor x y = x div y \<and> Arith_ceiling x y = - (- x div y)"
proof -
  have m13: "(- 13) sdiv 5 = (- 2 :: int)" by (simp add: signed_divide_int_def)
  consider "0 \<le> x" "0 < y" | "0 \<le> x" "y < 0" | "x < 0" "0 < y" | "x < 0" "y < 0"
    using assms by linarith
  then have dm: "Arith_div x y = x div y \<and> Arith_mod x y = x mod y"
  proof cases
    case 1
    then show ?thesis by (simp add: Arith_div_def Arith_mod_def trunc_div_signs)
  next
    case 2
    then show ?thesis using floor_div_signs [of "- y" x]
      by (auto simp: Arith_div_def Arith_mod_def trunc_div_signs m13 div_minus_right mod_minus_right)
  next
    case 3
    then show ?thesis using floor_div_signs [of y "- x"]
      by (auto simp: Arith_div_def Arith_mod_def trunc_div_signs m13)
  next
    case 4
    then show ?thesis
      by (auto simp: Arith_div_def Arith_mod_def trunc_div_signs m13 div_minus_right mod_minus_right)
  qed
  have "x smod y = 0 \<longleftrightarrow> x mod y = 0"
    using assms by (auto simp: trunc_div_signs mod_eq_0_iff_dvd)
  with dm show ?thesis using assms
    by (auto simp: Arith_floor_def Arith_ceiling_def zdiv_zminus1_eq_if)
qed

theorem Arith_floor_semantics_witness:
  "Arith_div (- 13) 5 = - 3 \<and> Arith_mod (- 13) 5 = 2 \<and> Arith_ceiling (- 13) 5 = - 2"
  using Arith_floor_semantics [of 5 "- 13"] by simp

text \<open>The string hash stays inside its modulus, and no intermediate value of its loop leaves the
  range of a 32-bit \<^verbatim>\<open>int\<close>, whatever bytes the key holds.\<close>

theorem oec_hash_string_key_bounds:
  "\<bar>oec_hash_string_key key\<bar> < 99000 \<and> \<bar>127 * oec_hash_string_key key + schar c\<bar> < 2 ^ 31"
proof -
  have b: "\<bar>oec_hash_string_key key\<bar> < 99000"
    by (simp add: oec_hash_string_key_def hash_def hash_loop_bound)
  then show ?thesis using schar_bound [of c] by (auto simp: abs_if split: if_splits)
qed

text \<open>Every offset \<^verbatim>\<open>oe_memmem\<close> returns lies inside the haystack and is an occurrence of the
  needle.\<close>

theorem oe_memmem_sound:
  assumes "oe_memmem h n = Some i"
  shows "i + length n \<le> length h \<and> take (length n) (drop i h) = n"
  using assms by (rule oe_memmem_occurs)

theorem oe_memmem_sound_witness:
  "oe_memmem ''x=1;y'' '';y'' = Some 3 \<and> take 2 (drop 3 ''x=1;y'') = '';y''"
proof -
  have h: "oe_memmem ''x=1;y'' '';y'' = Some 3" by code_simp
  show ?thesis using h oe_memmem_sound [OF h] by simp
qed

text \<open>\<^verbatim>\<open>oe_memmem\<close> is not complete: after a false start it skips as many characters as the
  needle has, so an occurrence that begins inside the skipped part is never seen.\<close>

theorem oe_memmem_misses:
  "\<exists>h n i. oe_memmem h n = None \<and> n \<noteq> [] \<and> take (length n) (drop i h) = n"
proof (intro exI conjI)
  show "oe_memmem ''aab'' ''ab'' = None" by code_simp
  show "''ab'' \<noteq> []" by simp
  show "take (length ''ab'') (drop 1 ''aab'') = ''ab''" by simp
qed

text \<open>\<^verbatim>\<open>oec_unquote\<close> writes its terminator one byte past the block it allocated, for every
  quoted text it accepts.\<close>

theorem oec_unquote_overruns:
  assumes "2 \<le> len"
  shows "oec_unquote s len = Inl Out_Of_Bounds"
  using assms by (simp add: oec_unquote_def store_byte_def strncpy_def Let_def)

theorem oec_unquote_overruns_witness: "oec_unquote ''\"id\"'' 4 = Inl Out_Of_Bounds"
  by (rule oec_unquote_overruns) simp

lemma oec_cpy_str_terminated: "oec_cpy_str (Some s) = Some (s @ [NUL])"
  by (simp add: oec_cpy_str_def oec_ncpy_str_def strncpy_def)

lemma oec_itoa_fits: "length (oec_itoa n) < 20"
proof -
  have "sint n < 2 ^ 31 \<and> - (2 ^ 31) \<le> sint n"
    using sint_lt [of n] sint_ge [of n] by simp
  then have "\<bar>sint n\<bar> < 10 ^ Suc 9" by (simp add: abs_less_iff)
  then have "nat \<bar>sint n\<bar> < 10 ^ Suc 9" by (simp add: nat_less_iff)
  then have "length (dec_nat (nat \<bar>sint n\<bar>)) \<le> Suc 9" by (rule length_dec_nat)
  then show ?thesis by (auto simp: oec_itoa_def dec_int_def abs_if split: if_splits)
qed

lemma abs_sdiv_10: "\<bar>n sdiv 10\<bar> = \<bar>n\<bar> div (10 :: int)"
  by (simp add: trunc_div_signs)

text \<open>For a non-zero number \<^verbatim>\<open>oec_count_long_digits\<close> is the number of decimal digits of its
  absolute value.\<close>

theorem oec_count_long_digits_correct:
  assumes "n \<noteq> 0"
  shows "10 ^ (oec_count_long_digits n - 1) \<le> \<bar>n\<bar> \<and> \<bar>n\<bar> < 10 ^ oec_count_long_digits n"
  using assms
proof (induction n rule: oec_count_long_digits.induct)
  case (1 n)
  let ?q = "n sdiv 10"
  have eq: "oec_count_long_digits n = Suc (oec_count_long_digits ?q)"
    using "1.prems" by (simp add: oec_count_long_digits.simps [of n])
  show ?case
  proof (cases "?q = 0")
    case True
    then have "\<bar>n\<bar> div 10 = 0" using abs_sdiv_10 [of n] by simp
    then have "\<bar>n\<bar> < 10" by linarith
    then show ?thesis using eq True "1.prems" by (simp add: oec_count_long_digits.simps [of 0])
  next
    case False
    let ?d = "oec_count_long_digits ?q"
    have IH: "10 ^ (?d - 1) \<le> \<bar>n\<bar> div 10" "\<bar>n\<bar> div 10 < 10 ^ ?d"
      using "1.IH" [OF "1.prems" False] abs_sdiv_10 [of n] by simp_all
    have "?d = Suc (?d - 1)"
      using False by (simp add: oec_count_long_digits.simps [of ?q])
    then have "10 ^ ?d = 10 * (10 :: int) ^ (?d - 1)" by (metis power_Suc)
    moreover have "10 * 10 ^ (?d - 1) \<le> \<bar>n\<bar>" using IH(1) by linarith
    moreover have "\<bar>n\<bar> < 10 * 10 ^ ?d" using IH(2) by linarith
    ultimately show ?thesis using eq by simp
  qed
qed

theorem oec_count_long_digits_correct_witness:
  "oec_count_long_digits (- 1001) = 4 \<and> (10 :: int) ^ (4 - 1) \<le> \<bar>- 1001\<bar> \<and> \<bar>- 1001\<bar> < (10 :: int) ^ 4"
proof -
  have d: "oec_count_long_digits (- 1001) = 4" by code_simp
  show ?thesis using d oec_count_long_digits_correct [of "- 1001"] by simp
qed

end
