(* ===== verification/Hash_Set.thy ===== *)
theory Hash_Set
  imports Values
begin

text \<open>
  \<^verbatim>\<open>corelib/set.c\<close>: the hash set every other component builds on, with the hash chains kept as
  lists in link order (a new member is linked in at the head of its chain), and the identifier
  set of \<^verbatim>\<open>corelib/Oec_IdSet.c\<close>.

  The comparison and hash functions a set is created with are fields of its record, as they are
  function pointers in \<^verbatim>\<open>struct set_ts\<close>.  What the operations need from them is the locale
  \<open>hash_ops\<close>; the functional behaviour of the set operations is proved once inside it and
  interpreted for the comparison functions the program really uses.
\<close>

section \<open>Hash chains\<close>

text \<open>The chain walks of \<^verbatim>\<open>set.c\<close> and \<^verbatim>\<open>arenatable.c\<close>: stop at the first cell the test accepts.\<close>

fun chain_find :: "('b \<Rightarrow> bool) \<Rightarrow> 'b list \<Rightarrow> 'b option" where
  "chain_find P [] = None"
| "chain_find P (p # ps) = (if P p then Some p else chain_find P ps)"

fun chain_replace :: "('b \<Rightarrow> bool) \<Rightarrow> ('b \<Rightarrow> 'b) \<Rightarrow> 'b list \<Rightarrow> 'b list" where
  "chain_replace P f [] = []"
| "chain_replace P f (p # ps) = (if P p then f p # ps else p # chain_replace P f ps)"

fun chain_delete :: "('b \<Rightarrow> bool) \<Rightarrow> 'b list \<Rightarrow> 'b list" where
  "chain_delete P [] = []"
| "chain_delete P (p # ps) = (if P p then ps else p # chain_delete P ps)"

section \<open>The set record and its operations\<close>

record 'a set_T =
  set_length :: nat
  set_timestamp :: "32 word"
  set_cmp :: "'a \<Rightarrow> 'a \<Rightarrow> int"
  set_hash :: "'a \<Rightarrow> 32 word"
  set_size :: nat
  set_buckets :: "'a list list"

definition primes :: "int list" where
  "primes = [509, 509, 1021, 2053, 4093, 8191, 16381, 32771, 65521, 2147483647]"

text \<open>The loop \<^verbatim>\<open>for (i = 1; primes[i] < hint; i++)\<close>; an index past the table is out of bounds.\<close>

function primes_loop :: "nat \<Rightarrow> int \<Rightarrow> nat c_result" where
  "primes_loop i hint =
     (if i < length primes
      then (if primes ! i < hint then primes_loop (Suc i) hint else Inr i)
      else Inl Out_Of_Bounds)"
  by pat_completeness auto
termination
  by (relation "measure (\<lambda>(i, h). length primes - i)") auto

declare primes_loop.simps [simp del]

definition Set_new :: "int \<Rightarrow> ('a \<Rightarrow> 'a \<Rightarrow> int) \<Rightarrow> ('a \<Rightarrow> 32 word) \<Rightarrow> 'a set_T c_result" where
  "Set_new hint cmp hsh =
     (if hint < 0 then Inl Assert_Failed
      else case primes_loop 1 hint of
        Inl e \<Rightarrow> Inl e
      | Inr i \<Rightarrow>
          let n = nat (primes ! (i - 1)) in
          Inr \<lparr>set_length = 0, set_timestamp = 0, set_cmp = cmp, set_hash = hsh,
               set_size = n, set_buckets = replicate n []\<rparr>)"

text \<open>The defaults \<^verbatim>\<open>Set_new\<close> installs when it is given NULL functions, on pointer values.\<close>

definition cmpatom :: "64 word \<Rightarrow> 64 word \<Rightarrow> int" where
  "cmpatom x y = (if x \<noteq> y then 1 else 0)"

definition hashatom :: "64 word \<Rightarrow> 32 word" where
  "hashatom x = ucast (drop_bit 2 x)"

definition set_index :: "'a set_T \<Rightarrow> 'a \<Rightarrow> nat" where
  "set_index s x = unat (set_hash s x) mod set_size s"

definition Set_member :: "'a set_T \<Rightarrow> 'a \<Rightarrow> bool" where
  "Set_member s member =
     (chain_find (\<lambda>p. set_cmp s member p = 0) (set_buckets s ! set_index s member) \<noteq> None)"

definition set_link :: "'a set_T \<Rightarrow> 'a \<Rightarrow> 'a set_T" where
  "set_link s member =
     (let i = set_index s member in
      s\<lparr>set_buckets := (set_buckets s)[i := member # set_buckets s ! i],
        set_length := set_length s + 1\<rparr>)"

definition Set_put :: "'a set_T \<Rightarrow> 'a \<Rightarrow> 'a set_T" where
  "Set_put s member =
     (let i = set_index s member; b = set_buckets s ! i;
          s' = (case chain_find (\<lambda>p. set_cmp s member p = 0) b of
                  None \<Rightarrow> set_link s member
                | Some _ \<Rightarrow> s\<lparr>set_buckets := (set_buckets s)
                      [i := chain_replace (\<lambda>p. set_cmp s member p = 0) (\<lambda>_. member) b]\<rparr>)
      in s'\<lparr>set_timestamp := set_timestamp s + 1\<rparr>)"

definition Set_remove :: "'a set_T \<Rightarrow> 'a \<Rightarrow> 'a option \<times> 'a set_T" where
  "Set_remove s member =
     (let s1 = s\<lparr>set_timestamp := set_timestamp s + 1\<rparr>;
          i = set_index s member; b = set_buckets s ! i
      in case chain_find (\<lambda>p. set_cmp s member p = 0) b of
           None \<Rightarrow> (None, s1)
         | Some p \<Rightarrow> (Some p,
             s1\<lparr>set_buckets := (set_buckets s)[i := chain_delete (\<lambda>p. set_cmp s member p = 0) b],
                set_length := set_length s - 1\<rparr>))"

definition Set_length :: "'a set_T \<Rightarrow> nat" where
  "Set_length s = set_length s"

text \<open>\<^verbatim>\<open>Set_free\<close> clears the caller's pointer; the first component counts the cells it releases.\<close>

definition Set_free :: "'a set_T option \<Rightarrow> (nat \<times> 'a set_T option) c_result" where
  "Set_free sp =
     (case sp of
        None \<Rightarrow> Inl Assert_Failed
      | Some s \<Rightarrow> Inr (if 0 < set_length s then length (concat (set_buckets s)) else 0, None))"

text \<open>\<^verbatim>\<open>Set_map\<close>: the callback gets each member once, in array order, with the closure it threads; it
  has no access to the set, so the timestamp assertion holds.\<close>

definition Set_map :: "'a set_T \<Rightarrow> ('a \<Rightarrow> 'c \<Rightarrow> 'c) \<Rightarrow> 'c \<Rightarrow> 'c" where
  "Set_map s apply cl = foldl (\<lambda>cl m. apply m cl) cl (concat (set_buckets s))"

text \<open>The array holds the members bucket by bucket, without the end marker.\<close>

definition Set_toArray :: "'a set_T \<Rightarrow> 'a list" where
  "Set_toArray s = concat (set_buckets s)"

definition set_copy :: "'a set_T \<Rightarrow> int \<Rightarrow> 'a set_T c_result" where
  "set_copy t hint =
     (case Set_new hint (set_cmp t) (set_hash t) of
        Inl e \<Rightarrow> Inl e
      | Inr s \<Rightarrow> Inr (foldl set_link s (concat (set_buckets t))))"

definition set_size_int :: "'a set_T \<Rightarrow> int" where
  "set_size_int s = int (set_size s)"

text \<open>The binary operations; an absent operand is the C NULL.\<close>

definition Set_union :: "'a set_T option \<Rightarrow> 'a set_T option \<Rightarrow> 'a set_T c_result" where
  "Set_union s t =
     (case (s, t) of
        (None, None) \<Rightarrow> Inl Assert_Failed
      | (None, Some t) \<Rightarrow> set_copy t (set_size_int t)
      | (Some s, None) \<Rightarrow> set_copy s (set_size_int s)
      | (Some s, Some t) \<Rightarrow>
          (case set_copy s (Arith_max (set_size_int s) (set_size_int t)) of
             Inl e \<Rightarrow> Inl e
           | Inr u \<Rightarrow>
               if set_cmp s = set_cmp t \<and> set_hash s = set_hash t
               then Inr (foldl Set_put u (concat (set_buckets t)))
               else Inl Assert_Failed))"

text \<open>The loop shared by intersection, difference and symmetric difference: link every member of
  \<^verbatim>\<open>t\<close> that passes a test into the new set.\<close>

definition link_if :: "('a \<Rightarrow> bool) \<Rightarrow> 'a set_T \<Rightarrow> 'a set_T \<Rightarrow> 'a set_T" where
  "link_if P u t = foldl (\<lambda>u q. if P q then set_link u q else u) u (concat (set_buckets t))"

function Set_inter :: "'a set_T option \<Rightarrow> 'a set_T option \<Rightarrow> 'a set_T c_result" where
  "Set_inter None None = Inl Assert_Failed"
| "Set_inter None (Some t) = Set_new (set_size_int t) (set_cmp t) (set_hash t)"
| "Set_inter (Some s) None = Set_new (set_size_int s) (set_cmp s) (set_hash s)"
| "Set_inter (Some s) (Some t) =
     (if set_length s < set_length t then Set_inter (Some t) (Some s)
      else case Set_new (Arith_min (set_size_int s) (set_size_int t)) (set_cmp s) (set_hash s) of
             Inl e \<Rightarrow> Inl e
           | Inr u \<Rightarrow>
               if set_cmp s = set_cmp t \<and> set_hash s = set_hash t
               then Inr (link_if (Set_member s) u t)
               else Inl Assert_Failed)"
  by pat_completeness auto
termination
  by (relation "measure (\<lambda>(s, t). case (s, t) of
      (Some s, Some t) \<Rightarrow> set_length t - set_length s | _ \<Rightarrow> 0)") auto

definition Set_minus :: "'a set_T option \<Rightarrow> 'a set_T option \<Rightarrow> 'a set_T c_result" where
  "Set_minus t s =
     (case (t, s) of
        (None, None) \<Rightarrow> Inl Assert_Failed
      | (None, Some s) \<Rightarrow> Set_new (set_size_int s) (set_cmp s) (set_hash s)
      | (Some t, None) \<Rightarrow> set_copy t (set_size_int t)
      | (Some t, Some s) \<Rightarrow>
          (case Set_new (Arith_min (set_size_int s) (set_size_int t)) (set_cmp s) (set_hash s) of
             Inl e \<Rightarrow> Inl e
           | Inr u \<Rightarrow>
               if set_cmp s = set_cmp t \<and> set_hash s = set_hash t
               then Inr (link_if (\<lambda>q. \<not> Set_member s q) u t)
               else Inl Assert_Failed))"

definition Set_diff :: "'a set_T option \<Rightarrow> 'a set_T option \<Rightarrow> 'a set_T c_result" where
  "Set_diff s t =
     (case (s, t) of
        (None, None) \<Rightarrow> Inl Assert_Failed
      | (None, Some t) \<Rightarrow> set_copy t (set_size_int t)
      | (Some s, None) \<Rightarrow> set_copy s (set_size_int s)
      | (Some s, Some t) \<Rightarrow>
          (case Set_new (Arith_min (set_size_int s) (set_size_int t)) (set_cmp s) (set_hash s) of
             Inl e \<Rightarrow> Inl e
           | Inr u \<Rightarrow>
               if set_cmp s = set_cmp t \<and> set_hash s = set_hash t
               then Inr (link_if (\<lambda>q. \<not> Set_member t q) (link_if (\<lambda>q. \<not> Set_member s q) u t) s)
               else Inl Assert_Failed))"

section \<open>Identifier sets\<close>

text \<open>\<^verbatim>\<open>Oec_IdSet\<close> wraps a set of heap cells holding one \<^verbatim>\<open>oe_id\<close> each; a cell is its identifier.\<close>

type_synonym Oec_IdSet = "oe_id set_T"

definition itemcmp :: "oe_id \<Rightarrow> oe_id \<Rightarrow> int" where
  "itemcmp x y = (if x = y then 0 else if x < y then - 1 else 1)"

definition itemhash :: "oe_id \<Rightarrow> 32 word" where
  "itemhash x = ucast x"

definition Oec_IdSet_new :: "int \<Rightarrow> Oec_IdSet c_result" where
  "Oec_IdSet_new hint = Set_new 100 itemcmp itemhash"

definition Oec_IdSet_member :: "Oec_IdSet \<Rightarrow> oe_id \<Rightarrow> bool" where
  "Oec_IdSet_member s mid = Set_member s mid"

definition Oec_IdSet_put :: "Oec_IdSet \<Rightarrow> oe_id \<Rightarrow> Oec_IdSet" where
  "Oec_IdSet_put s mid = Set_put s mid"

definition Oec_IdSet_remove :: "Oec_IdSet \<Rightarrow> oe_id \<Rightarrow> oe_id \<times> Oec_IdSet" where
  "Oec_IdSet_remove s mid =
     (case Set_remove s mid of
        (Some _, s') \<Rightarrow> (mid, s')
      | (None, s') \<Rightarrow> (0, s'))"

text \<open>\<^verbatim>\<open>Oec_IdSet_free\<close> releases every identifier cell, then the set; the result counts the
  identifier cells and the chain cells released.\<close>

definition Oec_IdSet_free :: "Oec_IdSet option \<Rightarrow> (nat \<times> nat) c_result" where
  "Oec_IdSet_free sp =
     (case sp of
        None \<Rightarrow> Inl Assert_Failed
      | Some s \<Rightarrow>
          let array = Set_toArray s in
          case Set_free (Some s) of Inl e \<Rightarrow> Inl e | Inr (n, _) \<Rightarrow> Inr (length array, n))"

section \<open>Chain lemmas\<close>

lemma chain_find_None: "chain_find P b = None \<longleftrightarrow> (\<forall>p \<in> set b. \<not> P p)"
  by (induction b) auto

lemma chain_find_Some: "chain_find P b = Some p \<Longrightarrow> p \<in> set b \<and> P p"
  by (induction b) (auto split: if_splits)

lemma length_chain_replace [simp]: "length (chain_replace P f b) = length b"
  by (induction b) auto

lemma length_chain_delete:
  "p \<in> set b \<Longrightarrow> P p \<Longrightarrow> Suc (length (chain_delete P b)) = length b"
  by (induction b) auto

lemma set_chain_delete_subset: "set (chain_delete P b) \<subseteq> set b"
  by (induction b) auto

lemma set_chain_delete:
  "sorted_wrt (\<lambda>x y. \<not> (P x \<and> P y)) b \<Longrightarrow> set (chain_delete P b) = {p \<in> set b. \<not> P p}"
  by (induction b) auto

lemma set_chain_replace:
  "sorted_wrt (\<lambda>x y. \<not> (P x \<and> P y)) b \<Longrightarrow>
   set (chain_replace P f b) = {p \<in> set b. \<not> P p} \<union> f ` {p \<in> set b. P p}"
  by (induction b) auto

lemma sorted_wrt_chain_delete: "sorted_wrt R b \<Longrightarrow> sorted_wrt R (chain_delete P b)"
  by (induction b) (auto dest: subsetD [OF set_chain_delete_subset])

lemma chain_replace_members: "x \<in> set (chain_replace P f b) \<Longrightarrow> x \<in> set b \<or> (\<exists>p \<in> set b. P p \<and> x = f p)"
  by (induction b) (auto split: if_splits)

lemma sorted_wrt_chain_replace:
  assumes "\<And>x y. P x \<Longrightarrow> R (f x) y = R x y" and "\<And>x y. P x \<Longrightarrow> R y (f x) = R y x"
  shows "sorted_wrt R b \<Longrightarrow> sorted_wrt R (chain_replace P f b)"
proof (induction b)
  case (Cons p ps)
  show ?case
  proof (cases "P p")
    case True
    then show ?thesis using Cons.prems assms by simp
  next
    case False
    have "R p x" if "x \<in> set (chain_replace P f ps)" for x
      using chain_replace_members [OF that] Cons.prems assms(2) by auto
    then show ?thesis using False Cons by simp
  qed
qed simp

section \<open>The set invariant\<close>

definition set_ok :: "'a set_T \<Rightarrow> bool" where
  "set_ok s =
     (0 < set_size s \<and> set_size s \<le> 2147483647 \<and> length (set_buckets s) = set_size s \<and>
      set_length s = length (concat (set_buckets s)) \<and>
      (\<forall>i < set_size s. \<forall>x \<in> set (set_buckets s ! i). set_index s x = i) \<and>
      (\<forall>b \<in> set (set_buckets s). sorted_wrt (\<lambda>x y. set_cmp s x y \<noteq> 0) b))"

lemma set_okD:
  assumes "set_ok s"
  shows "0 < set_size s" "length (set_buckets s) = set_size s"
    "set_length s = length (concat (set_buckets s))"
    "\<And>i x. i < set_size s \<Longrightarrow> x \<in> set (set_buckets s ! i) \<Longrightarrow> set_index s x = i"
    "\<And>b. b \<in> set (set_buckets s) \<Longrightarrow> sorted_wrt (\<lambda>x y. set_cmp s x y \<noteq> 0) b"
    "set_size s \<le> 2147483647"
  using assms by (simp_all add: set_ok_def)

lemma set_index_less: "set_ok s \<Longrightarrow> set_index s x < set_size s"
  by (simp add: set_ok_def set_index_def)

lemma set_index_cong [simp]:
  "set_index (s\<lparr>set_buckets := b\<rparr>) = set_index s"
  "set_index (s\<lparr>set_length := n\<rparr>) = set_index s"
  "set_index (s\<lparr>set_timestamp := t\<rparr>) = set_index s"
  by (auto simp: set_index_def fun_eq_iff)

lemma Set_toArray_bucket:
  "set_ok s \<Longrightarrow> x \<in> set (Set_toArray s) \<longleftrightarrow> x \<in> set (set_buckets s ! set_index s x)"
  unfolding Set_toArray_def
  by (rule set_concat_bucket) (auto simp: set_index_less set_okD)

lemma primes_loop_ok:
  assumes "h \<le> 2147483647" and "1 \<le> i" "i < length primes"
  shows "\<exists>j. primes_loop i h = Inr j \<and> i \<le> j \<and> j < length primes"
  using assms
proof (induction i h rule: primes_loop.induct)
  case (1 i h)
  show ?case
  proof (cases "primes ! i < h")
    case True
    have "i \<noteq> 9"
    proof
      assume "i = 9"
      then show False using True "1.prems"(1) by (simp add: primes_def)
    qed
    then have "Suc i < length primes" using "1.prems"(3) by (simp add: primes_def)
    then show ?thesis using "1.IH" [OF "1.prems"(3) True "1.prems"(1)] True "1.prems"
      by (auto simp: primes_loop.simps [of i h])
  next
    case False
    then show ?thesis using "1.prems" by (simp add: primes_loop.simps [of i h])
  qed
qed

lemma primes_below_max:
  assumes "k < 9"
  shows "primes ! k \<in> set primes \<and> 0 < primes ! k \<and> primes ! k \<le> 65521"
proof -
  have len: "length primes = 10" by (simp add: primes_def)
  have "list_all (\<lambda>p. 0 < p \<and> p \<le> 65521) (take 9 primes)" by (simp add: primes_def)
  then have "\<forall>n < 9. 0 < primes ! n \<and> primes ! n \<le> 65521" by (simp add: list_all_length len)
  moreover have "primes ! k \<in> set primes" using assms len by simp
  ultimately show ?thesis using assms by blast
qed

lemma Set_new_ok:
  assumes "0 \<le> hint" "hint \<le> 2147483647"
  shows "\<exists>s. Set_new hint cmp hsh = Inr s \<and> set_ok s \<and> Set_toArray s = [] \<and>
    set_cmp s = cmp \<and> set_hash s = hsh \<and> int (set_size s) \<in> set primes \<and> set_size s \<le> 65521"
proof -
  obtain j where j: "primes_loop 1 hint = Inr j" "1 \<le> j" "j < length primes"
    using primes_loop_ok [OF assms(2), of 1] by (auto simp: primes_def)
  then have "j - 1 < 9" by (simp add: primes_def)
  note p = primes_below_max [OF this]
  have c: "concat (replicate n []) = []" for n by (induction n) auto
  show ?thesis using assms j(1) p
    by (simp add: Set_new_def set_ok_def Set_toArray_def c Let_def nat_le_iff)
qed

text \<open>Replacing one chain: the frame lemma behind every updating operation.\<close>

lemma set_ok_bucket:
  assumes ok: "set_ok s" and i: "i < set_size s"
    and b: "\<And>x. x \<in> set b \<Longrightarrow> set_index s x = i" "sorted_wrt (\<lambda>x y. set_cmp s x y \<noteq> 0) b"
    and n: "n + length (set_buckets s ! i) = set_length s + length b"
    and s': "s' = s\<lparr>set_buckets := (set_buckets s)[i := b], set_length := n, set_timestamp := ts\<rparr>"
  shows "set_ok s'"
    and "set (Set_toArray s') = {x \<in> set (Set_toArray s). set_index s x \<noteq> i} \<union> set b"
proof -
  note D = set_okD [OF ok]
  have "length (concat ((set_buckets s)[i := b])) = n"
    using length_concat_update [of i "set_buckets s" b] D(2,3) i n by simp
  moreover have "set_index s x = j" if "j < set_size s" "x \<in> set ((set_buckets s)[i := b] ! j)" for j x
    using that D(2) D(4) [of j x] b(1) [of x] i by (auto simp: nth_list_update split: if_splits)
  moreover have "sorted_wrt (\<lambda>x y. set_cmp s x y \<noteq> 0) c" if "c \<in> set ((set_buckets s)[i := b])" for c
    using that b(2) D(5) set_update_subset_insert [of "set_buckets s" i b] by blast
  ultimately show "set_ok s'" using D(1,2,6) by (simp add: s' set_ok_def)
  have "set (concat ((set_buckets s)[i := b])) =
      {x \<in> set (concat (set_buckets s)). set_index s x \<noteq> i} \<union> set b"
    using i D(2,4) by (intro set_concat_update) auto
  then show "set (Set_toArray s') = {x \<in> set (Set_toArray s). set_index s x \<noteq> i} \<union> set b"
    by (simp add: Set_toArray_def s')
qed

lemma bucket_iff:
  assumes "set_ok s" "i < set_size s"
  shows "y \<in> set (set_buckets s ! i) \<longleftrightarrow> y \<in> set (Set_toArray s) \<and> set_index s y = i"
  using Set_toArray_bucket [OF assms(1), of y] set_okD(4) [OF assms, of y] by auto

section \<open>What the comparison and hash functions must promise\<close>

locale hash_ops =
  fixes cmp :: "'a \<Rightarrow> 'a \<Rightarrow> int" and hsh :: "'a \<Rightarrow> 32 word"
  assumes cmp_refl: "cmp x x = 0"
    and cmp_sym: "cmp x y = 0 \<Longrightarrow> cmp y x = 0"
    and cmp_trans: "cmp x y = 0 \<Longrightarrow> cmp y z = 0 \<Longrightarrow> cmp x z = 0"
    and hash_cong: "cmp x y = 0 \<Longrightarrow> hsh x = hsh y"
begin

lemma cmp_left: "cmp m p = 0 \<Longrightarrow> (cmp m q = 0) = (cmp p q = 0)"
  using cmp_sym cmp_trans by blast

lemma cmp_right: "cmp m p = 0 \<Longrightarrow> (cmp q m = 0) = (cmp q p = 0)"
  using cmp_sym cmp_trans by blast

lemma chain_unique:
  "sorted_wrt (\<lambda>x y. cmp x y \<noteq> 0) b \<Longrightarrow> sorted_wrt (\<lambda>x y. \<not> (cmp m x = 0 \<and> cmp m y = 0)) b"
  by (erule sorted_wrt_mono_rel [rotated]) (use cmp_left in blast)

lemma index_eq:
  "set_hash s = hsh \<Longrightarrow> cmp x y = 0 \<Longrightarrow> set_index s x = set_index s y"
  by (simp add: set_index_def hash_cong)

lemma bucket_members:
  assumes "set_ok s" "set_hash s = hsh" "cmp x y = 0"
  shows "y \<in> set (set_buckets s ! set_index s x) \<longleftrightarrow> y \<in> set (Set_toArray s)"
  using assms by (simp add: Set_toArray_bucket index_eq)

lemma Set_member_iff:
  assumes "set_ok s" "set_cmp s = cmp" "set_hash s = hsh"
  shows "Set_member s x \<longleftrightarrow> (\<exists>y \<in> set (Set_toArray s). cmp x y = 0)"
  using assms bucket_members by (auto simp: Set_member_def chain_find_None)

lemma set_link_spec:
  assumes ok: "set_ok s" and ops: "set_cmp s = cmp" "set_hash s = hsh"
    and new: "\<And>y. y \<in> set (Set_toArray s) \<Longrightarrow> cmp x y \<noteq> 0"
  shows "set_ok (set_link s x) \<and> set (Set_toArray (set_link s x)) = insert x (set (Set_toArray s))"
proof -
  let ?i = "set_index s x" and ?b = "set_buckets s ! set_index s x"
  have i: "?i < set_size s" using ok by (rule set_index_less)
  have mem: "?b \<in> set (set_buckets s)" using i set_okD(2) [OF ok] by simp
  have ix: "set_index s y = ?i" if "y \<in> set (x # ?b)" for y
    using that set_okD(4) [OF ok i] by auto
  have "\<forall>y \<in> set ?b. cmp x y \<noteq> 0"
    using new mem set_concat_nth [of "set_buckets s"] by (auto simp: Set_toArray_def)
  then have srt: "sorted_wrt (\<lambda>x y. set_cmp s x y \<noteq> 0) (x # ?b)"
    using set_okD(5) [OF ok mem] ops by simp
  have eq: "set_link s x = s\<lparr>set_buckets := (set_buckets s)[?i := x # ?b],
      set_length := set_length s + 1, set_timestamp := set_timestamp s\<rparr>"
    by (simp add: set_link_def Let_def)
  show ?thesis
    using set_ok_bucket [OF ok i ix srt _ eq] bucket_iff [OF ok i] by auto
qed

lemma Set_put_spec:
  assumes ok: "set_ok s" and ops: "set_cmp s = cmp" "set_hash s = hsh"
  shows "set_ok (Set_put s x) \<and>
    set (Set_toArray (Set_put s x)) = insert x {y \<in> set (Set_toArray s). cmp x y \<noteq> 0}"
proof -
  let ?i = "set_index s x" and ?b = "set_buckets s ! set_index s x" and ?P = "\<lambda>p. cmp x p = 0"
  have i: "?i < set_size s" using ok by (rule set_index_less)
  have mem: "?b \<in> set (set_buckets s)" using i set_okD(2) [OF ok] by simp
  have srt: "sorted_wrt (\<lambda>x y. cmp x y \<noteq> 0) ?b" using set_okD(5) [OF ok mem] ops by simp
  note inb = bucket_iff [OF ok i]
  have same: "set_index s y = ?i" if "cmp x y = 0" for y
    using that index_eq [OF ops(2), of x y] by auto
  show ?thesis
  proof (cases "\<exists>p \<in> set ?b. ?P p")
    case False
    then have new: "\<And>y. y \<in> set (Set_toArray s) \<Longrightarrow> cmp x y \<noteq> 0"
      using bucket_members [OF ok ops(2)] by blast
    have eq: "Set_put s x = (set_link s x)\<lparr>set_timestamp := set_timestamp s + 1\<rparr>"
    proof -
      have "chain_find ?P ?b = None" using False by (simp add: chain_find_None)
      then show ?thesis using ops by (simp add: Set_put_def Let_def)
    qed
    have "set_ok (Set_put s x) = set_ok (set_link s x)" "Set_toArray (Set_put s x) = Set_toArray (set_link s x)"
      by (simp_all add: eq set_ok_def Set_toArray_def)
    then show ?thesis using set_link_spec [OF ok ops new] new by auto
  next
    case True
    then obtain q where q: "chain_find ?P ?b = Some q"
      using chain_find_None [of ?P ?b] by (cases "chain_find ?P ?b") auto
    let ?c = "chain_replace ?P (\<lambda>_. x) ?b"
    have eq: "Set_put s x = s\<lparr>set_buckets := (set_buckets s)[?i := ?c],
        set_length := set_length s, set_timestamp := set_timestamp s + 1\<rparr>"
      using q ops by (simp add: Set_put_def Let_def)
    have setc: "set ?c = insert x {y \<in> set ?b. cmp x y \<noteq> 0}"
      using set_chain_replace [OF chain_unique [OF srt], of x "\<lambda>_. x"] True by auto
    have ix: "set_index s y = ?i" if "y \<in> set ?c" for y
      using that setc inb by auto
    have "sorted_wrt (\<lambda>x y. cmp x y \<noteq> 0) ?c"
      by (rule sorted_wrt_chain_replace [OF _ _ srt]) (use cmp_left cmp_right in blast)+
    then have srtc: "sorted_wrt (\<lambda>x y. set_cmp s x y \<noteq> 0) ?c" using ops by simp
    have len: "set_length s + length ?b = set_length s + length ?c" by simp
    have st: "set (Set_toArray (Set_put s x)) = {y \<in> set (Set_toArray s). set_index s y \<noteq> ?i} \<union> set ?c"
      using set_ok_bucket(2) [OF ok i ix srtc len eq] .
    have "set (Set_toArray (Set_put s x)) = insert x {y \<in> set (Set_toArray s). cmp x y \<noteq> 0}"
      by (auto simp: st setc inb same)
    then show ?thesis using set_ok_bucket(1) [OF ok i ix srtc len eq] by blast
  qed
qed

lemma Set_remove_spec:
  assumes ok: "set_ok s" and ops: "set_cmp s = cmp" "set_hash s = hsh"
    and rm: "Set_remove s x = (r, s')"
  shows "set_ok s' \<and> set (Set_toArray s') = {y \<in> set (Set_toArray s). cmp x y \<noteq> 0}"
    and "case r of None \<Rightarrow> \<forall>y \<in> set (Set_toArray s). cmp x y \<noteq> 0
      | Some p \<Rightarrow> p \<in> set (Set_toArray s) \<and> cmp x p = 0"
proof -
  let ?i = "set_index s x" and ?b = "set_buckets s ! set_index s x" and ?P = "\<lambda>p. cmp x p = 0"
  have i: "?i < set_size s" using ok by (rule set_index_less)
  have mem: "?b \<in> set (set_buckets s)" using i set_okD(2) [OF ok] by simp
  have srt: "sorted_wrt (\<lambda>x y. cmp x y \<noteq> 0) ?b" using set_okD(5) [OF ok mem] ops by simp
  note inb = bucket_iff [OF ok i]
  have same: "set_index s y = ?i" if "cmp x y = 0" for y
    using that index_eq [OF ops(2), of x y] by auto
  have none: "\<forall>y \<in> set (Set_toArray s). cmp x y \<noteq> 0" if "chain_find ?P ?b = None"
    using that bucket_members [OF ok ops(2)] by (auto simp: chain_find_None)
  show "case r of None \<Rightarrow> \<forall>y \<in> set (Set_toArray s). cmp x y \<noteq> 0
      | Some p \<Rightarrow> p \<in> set (Set_toArray s) \<and> cmp x p = 0"
  proof (cases "chain_find ?P ?b")
    case None
    then have "r = None" using rm ops by (simp add: Set_remove_def Let_def)
    then show ?thesis using none [OF None] by simp
  next
    case (Some q)
    then have "r = Some q" using rm ops by (simp add: Set_remove_def Let_def)
    then show ?thesis using chain_find_Some [OF Some] inb by simp
  qed
  show "set_ok s' \<and> set (Set_toArray s') = {y \<in> set (Set_toArray s). cmp x y \<noteq> 0}"
  proof (cases "chain_find ?P ?b")
    case None
    then have "s' = s\<lparr>set_timestamp := set_timestamp s + 1\<rparr>"
      using rm ops by (simp add: Set_remove_def Let_def)
    then show ?thesis using ok none [OF None] by (auto simp: set_ok_def Set_toArray_def)
  next
    case (Some q)
    let ?c = "chain_delete ?P ?b"
    have q: "q \<in> set ?b" "?P q" using chain_find_Some [OF Some] by auto
    have eq: "s' = s\<lparr>set_buckets := (set_buckets s)[?i := ?c],
        set_length := set_length s - 1, set_timestamp := set_timestamp s + 1\<rparr>"
      using rm Some ops by (auto simp: Set_remove_def Let_def)
    have setc: "set ?c = {y \<in> set ?b. cmp x y \<noteq> 0}"
      by (rule set_chain_delete [OF chain_unique [OF srt]])
    have ix: "set_index s y = ?i" if "y \<in> set ?c" for y using that setc inb by auto
    have srtc: "sorted_wrt (\<lambda>x y. set_cmp s x y \<noteq> 0) ?c"
      using sorted_wrt_chain_delete [OF srt] ops by simp
    have "length ?b \<le> set_length s"
      using set_okD(2,3) [OF ok] i length_concat_update [of ?i "set_buckets s" "[]"] by simp
    then have len: "set_length s - 1 + length ?b = set_length s + length ?c"
      using length_chain_delete [of q ?b ?P] q by simp
    have st: "set (Set_toArray s') = {y \<in> set (Set_toArray s). set_index s y \<noteq> ?i} \<union> set ?c"
      using set_ok_bucket(2) [OF ok i ix srtc len eq] .
    have "set (Set_toArray s') = {y \<in> set (Set_toArray s). cmp x y \<noteq> 0}"
      by (auto simp: st setc inb same)
    then show ?thesis using set_ok_bucket(1) [OF ok i ix srtc len eq] by blast
  qed
qed

lemma members_distinct:
  assumes ok: "set_ok s" and ops: "set_cmp s = cmp" "set_hash s = hsh"
  shows "sorted_wrt (\<lambda>x y. cmp x y \<noteq> 0) (Set_toArray s)"
  unfolding Set_toArray_def
proof (rule sorted_wrt_concat)
  show "sorted_wrt (\<lambda>x y. cmp x y \<noteq> 0) b" if "b \<in> set (set_buckets s)" for b
    using set_okD(5) [OF ok that] ops by simp
  have "cmp x y \<noteq> 0" if ij: "i < j" "j < length (set_buckets s)"
    and x: "x \<in> set (set_buckets s ! i)" and y: "y \<in> set (set_buckets s ! j)" for i j x y
  proof -
    have "set_index s x = i" "set_index s y = j"
      using set_okD(2,4) [OF ok] ij x y by simp_all
    then show ?thesis using index_eq [OF ops(2)] ij(1) by force
  qed
  then show "sorted_wrt (\<lambda>b c. \<forall>x \<in> set b. \<forall>y \<in> set c. cmp x y \<noteq> 0) (set_buckets s)"
    by (simp add: sorted_wrt_iff_nth_less)
qed

lemma link_if_list_spec:
  assumes "set_ok u" "set_cmp u = cmp" "set_hash u = hsh"
    and "sorted_wrt (\<lambda>x y. cmp x y \<noteq> 0) xs"
    and "\<And>x y. x \<in> set xs \<Longrightarrow> P x \<Longrightarrow> y \<in> set (Set_toArray u) \<Longrightarrow> cmp x y \<noteq> 0"
    and "u' = foldl (\<lambda>u q. if P q then set_link u q else u) u xs"
  shows "set_ok u' \<and> set_cmp u' = cmp \<and> set_hash u' = hsh \<and>
    set (Set_toArray u') = set (Set_toArray u) \<union> {q \<in> set xs. P q}"
  using assms
proof (induction xs arbitrary: u)
  case (Cons x xs)
  show ?case
  proof (cases "P x")
    case True
    note l = set_link_spec [OF Cons.prems(1-3), of x]
    have lk: "set_ok (set_link u x)" "set (Set_toArray (set_link u x)) = insert x (set (Set_toArray u))"
      using l Cons.prems(5) True by auto
    have ops: "set_cmp (set_link u x) = cmp" "set_hash (set_link u x) = hsh"
      using Cons.prems(2,3) by (simp_all add: set_link_def Let_def)
    have sep: "cmp z y \<noteq> 0" if "z \<in> set xs" "P z" "y \<in> set (Set_toArray (set_link u x))" for y z
      using that Cons.prems(4,5) lk(2) cmp_sym by auto
    show ?thesis using Cons.IH [OF lk(1) ops _ sep] Cons.prems(4,6) lk(2) True by auto
  next
    case False
    then show ?thesis using Cons.IH [OF Cons.prems(1-3)] Cons.prems(4,5,6) by auto
  qed
qed simp

lemma link_if_spec:
  assumes "set_ok u" "set_cmp u = cmp" "set_hash u = hsh"
    and "set_ok t" "set_cmp t = cmp" "set_hash t = hsh"
    and "\<And>x y. x \<in> set (Set_toArray t) \<Longrightarrow> P x \<Longrightarrow> y \<in> set (Set_toArray u) \<Longrightarrow> cmp x y \<noteq> 0"
  shows "set_ok (link_if P u t) \<and> set_cmp (link_if P u t) = cmp \<and> set_hash (link_if P u t) = hsh \<and>
    set (Set_toArray (link_if P u t)) = set (Set_toArray u) \<union> {q \<in> set (Set_toArray t). P q}"
  by (rule link_if_list_spec [OF assms(1-3) members_distinct [OF assms(4-6)] assms(7)])
    (simp_all add: link_if_def Set_toArray_def)

lemma set_copy_spec:
  assumes "set_ok t" "set_cmp t = cmp" "set_hash t = hsh" "0 \<le> hint" "hint \<le> 2147483647"
  shows "\<exists>u. set_copy t hint = Inr u \<and> set_ok u \<and> set_cmp u = cmp \<and> set_hash u = hsh \<and>
    set (Set_toArray u) = set (Set_toArray t)"
proof -
  obtain s where s: "Set_new hint cmp hsh = Inr s" "set_ok s" "Set_toArray s = []"
    "set_cmp s = cmp" "set_hash s = hsh"
    using Set_new_ok [OF assms(4,5), of cmp hsh] by auto
  have "set_copy t hint = Inr (link_if (\<lambda>_. True) s t)"
    using s assms by (simp add: set_copy_def link_if_def)
  then show ?thesis
    using link_if_spec [OF s(2,4,5) assms(1-3), of "\<lambda>_. True"] s(3) by simp
qed

lemma Set_put_ops [simp]:
  "set_cmp (Set_put s x) = set_cmp s" "set_hash (Set_put s x) = set_hash s"
  by (simp_all add: Set_put_def set_link_def Let_def split: option.splits)

lemma Set_put_list_spec:
  assumes "set_ok u" "set_cmp u = cmp" "set_hash u = hsh"
  shows "set_ok (foldl Set_put u xs) \<and>
    (Set_member (foldl Set_put u xs) x \<longleftrightarrow> Set_member u x \<or> (\<exists>y \<in> set xs. cmp x y = 0))"
  using assms
proof (induction xs arbitrary: u)
  case (Cons y ys)
  note p = Set_put_spec [OF Cons.prems, of y]
  have ops: "set_cmp (Set_put u y) = cmp" "set_hash (Set_put u y) = hsh" using Cons.prems by auto
  have "Set_member (Set_put u y) x \<longleftrightarrow> Set_member u x \<or> cmp x y = 0"
  proof -
    have "(\<exists>z \<in> insert y {z \<in> A. cmp y z \<noteq> 0}. cmp x z = 0) \<longleftrightarrow> (\<exists>z \<in> A. cmp x z = 0) \<or> cmp x y = 0" for A
      using cmp_right [of y _ x] by blast
    then show ?thesis
      unfolding Set_member_iff [OF Cons.prems] Set_member_iff [OF conjunct1 [OF p] ops] conjunct2 [OF p] .
  qed
  then show ?case using Cons.IH [OF conjunct1 [OF p] ops] by auto
qed simp

text \<open>The sets the binary operations take: well formed, with this comparison and hash function.\<close>

definition good :: "'a set_T \<Rightarrow> bool" where
  "good s = (set_ok s \<and> set_cmp s = cmp \<and> set_hash s = hsh)"

lemma goodD: "good s \<Longrightarrow> set_ok s" "good s \<Longrightarrow> set_cmp s = cmp" "good s \<Longrightarrow> set_hash s = hsh"
  by (simp_all add: good_def)

lemma member_good: "good s \<Longrightarrow> Set_member s x \<longleftrightarrow> (\<exists>y \<in> set (Set_toArray s). cmp x y = 0)"
  by (simp add: good_def Set_member_iff)

lemma member_cong: "good s \<Longrightarrow> cmp x y = 0 \<Longrightarrow> Set_member s x = Set_member s y"
  using cmp_left by (auto simp only: member_good)

lemma member_array: "good s \<Longrightarrow> x \<in> set (Set_toArray s) \<Longrightarrow> Set_member s x"
  using cmp_refl by (auto simp only: member_good)

lemma good_size: "good s \<Longrightarrow> 0 \<le> set_size_int s \<and> set_size_int s \<le> 2147483647"
  using set_okD(6) [of s] by (simp add: good_def set_size_int_def)

lemma Set_new_good:
  "0 \<le> h \<Longrightarrow> h \<le> 2147483647 \<Longrightarrow> \<exists>u. Set_new h cmp hsh = Inr u \<and> good u \<and> Set_toArray u = []"
  using Set_new_ok [of h cmp hsh] by (auto simp: good_def)

lemma link_if_good:
  assumes "good u" "good t"
    and "\<And>x y. x \<in> set (Set_toArray t) \<Longrightarrow> P x \<Longrightarrow> y \<in> set (Set_toArray u) \<Longrightarrow> cmp x y \<noteq> 0"
    and "\<And>x y. cmp x y = 0 \<Longrightarrow> P x = P y"
  shows "good (link_if P u t) \<and>
    (Set_member (link_if P u t) x \<longleftrightarrow> Set_member u x \<or> Set_member t x \<and> P x)"
proof -
  note l = link_if_spec [OF goodD [OF assms(1)] goodD [OF assms(2)] assms(3)]
  then have g: "good (link_if P u t)" by (simp add: good_def)
  have eq: "set (Set_toArray (link_if P u t)) = set (Set_toArray u) \<union> {q \<in> set (Set_toArray t). P q}"
    using l by blast
  show ?thesis unfolding member_good [OF g] member_good [OF assms(1)] member_good [OF assms(2)] eq
    using g assms(4) by blast
qed

theorem Set_union_spec:
  assumes "good s" "good t"
  shows "\<exists>u. Set_union (Some s) (Some t) = Inr u \<and> good u \<and>
    (\<forall>x. Set_member u x \<longleftrightarrow> Set_member s x \<or> Set_member t x)"
proof -
  have "0 \<le> Arith_max (set_size_int s) (set_size_int t)"
    "Arith_max (set_size_int s) (set_size_int t) \<le> 2147483647"
    using assms [THEN good_size] by (simp_all add: Arith_max_def)
  from set_copy_spec [OF goodD [OF assms(1)] this]
  obtain u where u: "set_copy s (Arith_max (set_size_int s) (set_size_int t)) = Inr u"
    and gu: "good u" and arr: "set (Set_toArray u) = set (Set_toArray s)" by (auto simp: good_def)
  define v where "v = foldl Set_put u (concat (set_buckets t))"
  have v: "Set_union (Some s) (Some t) = Inr v"
    using u assms [THEN goodD(2)] assms [THEN goodD(3)] by (simp add: Set_union_def v_def)
  have "set_cmp (foldl Set_put w ys) = set_cmp w \<and> set_hash (foldl Set_put w ys) = set_hash w"
    for w :: "'a set_T" and ys
    by (induction ys arbitrary: w) auto
  then have gv: "good v" using Set_put_list_spec [OF goodD [OF gu]] goodD [OF gu]
    by (simp add: v_def good_def)
  have "Set_member v x \<longleftrightarrow> Set_member u x \<or> (\<exists>y \<in> set (Set_toArray t). cmp x y = 0)" for x
    using Set_put_list_spec [OF goodD [OF gu], of "Set_toArray t" x] by (simp add: v_def Set_toArray_def)
  then have "Set_member v x \<longleftrightarrow> Set_member s x \<or> Set_member t x" for x
    unfolding member_good [OF gu] member_good [OF assms(1)] member_good [OF assms(2)] arr .
  with v gv show ?thesis by blast
qed

lemma min_new:
  assumes "good s" "good t"
  obtains u where "Set_new (Arith_min (set_size_int s) (set_size_int t)) cmp hsh = Inr u"
    "good u" "Set_toArray u = []" "\<And>x. \<not> Set_member u x"
proof -
  have "0 \<le> Arith_min (set_size_int s) (set_size_int t)"
    "Arith_min (set_size_int s) (set_size_int t) \<le> 2147483647"
    using assms [THEN good_size] by (simp_all add: Arith_min_def)
  from Set_new_good [OF this] obtain u
    where "Set_new (Arith_min (set_size_int s) (set_size_int t)) cmp hsh = Inr u"
      "good u" "Set_toArray u = []" by blast
  then show ?thesis using that member_good by auto
qed

lemma link_if_new:
  assumes "good s" "good t" "good u" "Set_toArray u = []" "\<And>x. \<not> Set_member u x"
  shows "good (link_if (Set_member s) u t)"
    "Set_member (link_if (Set_member s) u t) x \<longleftrightarrow> Set_member t x \<and> Set_member s x"
    "good (link_if (\<lambda>q. \<not> Set_member s q) u t)"
    "Set_member (link_if (\<lambda>q. \<not> Set_member s q) u t) x \<longleftrightarrow> Set_member t x \<and> \<not> Set_member s x"
  using link_if_good [OF assms(3,2), of "Set_member s" x] member_cong [OF assms(1)] assms(4,5)
    link_if_good [OF assms(3,2), of "\<lambda>q. \<not> Set_member s q" x] by auto

theorem Set_inter_spec:
  assumes "good s" "good t"
  shows "\<exists>u. Set_inter (Some s) (Some t) = Inr u \<and> good u \<and>
    (\<forall>x. Set_member u x \<longleftrightarrow> Set_member s x \<and> Set_member t x)"
proof -
  have main: "\<exists>u. Set_inter (Some s) (Some t) = Inr u \<and> good u \<and>
      (\<forall>x. Set_member u x \<longleftrightarrow> Set_member s x \<and> Set_member t x)"
    if g: "good s" "good t" and le: "\<not> set_length s < set_length t" for s t
  proof -
    obtain u where u: "Set_new (Arith_min (set_size_int s) (set_size_int t)) cmp hsh = Inr u"
      and n: "good u" "Set_toArray u = []" "\<And>x. \<not> Set_member u x" using min_new [OF g] by blast
    have "Set_inter (Some s) (Some t) = Inr (link_if (Set_member s) u t)"
      using u le g [THEN goodD(2)] g [THEN goodD(3)] by simp
    then show ?thesis using link_if_new [OF g n] by auto
  qed
  show ?thesis
  proof (cases "set_length s < set_length t")
    case True
    then have "Set_inter (Some s) (Some t) = Set_inter (Some t) (Some s)" by simp
    then show ?thesis using main [OF assms(2,1)] True by (auto simp del: Set_inter.simps)
  next
    case False
    then show ?thesis by (rule main [OF assms])
  qed
qed

theorem Set_minus_spec:
  assumes "good t" "good s"
  shows "\<exists>u. Set_minus (Some t) (Some s) = Inr u \<and> good u \<and>
    (\<forall>x. Set_member u x \<longleftrightarrow> Set_member t x \<and> \<not> Set_member s x)"
proof -
  obtain u where u: "Set_new (Arith_min (set_size_int s) (set_size_int t)) cmp hsh = Inr u"
    and n: "good u" "Set_toArray u = []" "\<And>x. \<not> Set_member u x" using min_new [OF assms(2,1)] by blast
  have "Set_minus (Some t) (Some s) = Inr (link_if (\<lambda>q. \<not> Set_member s q) u t)"
    using u assms [THEN goodD(2)] assms [THEN goodD(3)] by (simp add: Set_minus_def)
  then show ?thesis using link_if_new [OF assms(2,1) n] by auto
qed

theorem Set_diff_spec:
  assumes "good s" "good t"
  shows "\<exists>u. Set_diff (Some s) (Some t) = Inr u \<and> good u \<and>
    (\<forall>x. Set_member u x \<longleftrightarrow> (Set_member s x \<noteq> Set_member t x))"
proof -
  obtain u where u: "Set_new (Arith_min (set_size_int s) (set_size_int t)) cmp hsh = Inr u"
    and n: "good u" "Set_toArray u = []" "\<And>x. \<not> Set_member u x" using min_new [OF assms] by blast
  let ?v = "link_if (\<lambda>q. \<not> Set_member s q) u t"
  note v = link_if_new(3,4) [OF assms n]
  have sep: "cmp x y \<noteq> 0" if "x \<in> set (Set_toArray s)" "y \<in> set (Set_toArray ?v)" for x y
  proof -
    have "Set_member s x" "\<not> Set_member s y"
      using member_array [OF assms(1) that(1)] member_array [OF v(1) that(2)] v(2) by auto
    then show ?thesis using member_cong [OF assms(1)] by blast
  qed
  have cong: "(\<not> Set_member t x) = (\<not> Set_member t y)" if "cmp x y = 0" for x y
    using member_cong [OF assms(2) that] by simp
  have "Set_diff (Some s) (Some t) = Inr (link_if (\<lambda>q. \<not> Set_member t q) ?v s)"
    using u assms [THEN goodD(2)] assms [THEN goodD(3)] by (simp add: Set_diff_def)
  then show ?thesis
    using link_if_good [OF v(1) assms(1), of "\<lambda>q. \<not> Set_member t q"] sep cong v(2) by auto
qed

lemma length_card:
  assumes "good s"
  shows "Set_length s = card (set (Set_toArray s))"
proof -
  have "distinct xs" if "sorted_wrt (\<lambda>x y. cmp x y \<noteq> 0) xs" for xs
    using that cmp_refl by (induction xs) auto
  then have "distinct (Set_toArray s)" using members_distinct goodD [OF assms] by blast
  then show ?thesis using set_okD(3) [OF goodD(1) [OF assms]]
    by (simp only: Set_length_def Set_toArray_def distinct_card)
qed

end

interpretation atom: hash_ops cmpatom hashatom
  by unfold_locales (auto simp: cmpatom_def split: if_splits)

interpretation idset: hash_ops itemcmp itemhash
  by unfold_locales (auto simp: itemcmp_def split: if_splits)

lemma cmpatom_0 [simp]: "cmpatom x y = 0 \<longleftrightarrow> x = y"
  by (simp add: cmpatom_def)

lemma itemcmp_0 [simp]: "itemcmp x y = 0 \<longleftrightarrow> x = y"
  by (simp add: itemcmp_def)

section \<open>The contract of an identifier registry\<close>

text \<open>
  What the callers of a registry of identifiers rely on, and what they can conclude about any
  history of registrations: an identifier is present exactly when its last event entered it.
\<close>

datatype reg_event = Enter oe_id | Leave oe_id

fun entered :: "reg_event list \<Rightarrow> oe_id \<Rightarrow> bool \<Rightarrow> bool" where
  "entered [] i b = b"
| "entered (Enter j # es) i b = entered es i (if i = j then True else b)"
| "entered (Leave j # es) i b = entered es i (if i = j then False else b)"

locale id_registry =
  fixes ok :: "'s \<Rightarrow> bool" and member :: "'s \<Rightarrow> oe_id \<Rightarrow> bool"
    and enter :: "'s \<Rightarrow> oe_id \<Rightarrow> 's" and leave :: "'s \<Rightarrow> oe_id \<Rightarrow> 's"
  assumes enter_ok: "ok s \<Longrightarrow> ok (enter s i)"
    and leave_ok: "ok s \<Longrightarrow> ok (leave s i)"
    and member_enter: "ok s \<Longrightarrow> member (enter s i) j \<longleftrightarrow> j = i \<or> member s j"
    and member_leave: "ok s \<Longrightarrow> member (leave s i) j \<longleftrightarrow> j \<noteq> i \<and> member s j"
begin

fun replay :: "'s \<Rightarrow> reg_event list \<Rightarrow> 's" where
  "replay s [] = s"
| "replay s (Enter i # es) = replay (enter s i) es"
| "replay s (Leave i # es) = replay (leave s i) es"

lemma replay_spec: "ok s \<Longrightarrow> ok (replay s es) \<and> (member (replay s es) i \<longleftrightarrow> entered es i (member s i))"
proof (induction s es rule: replay.induct)
  case (2 s j es)
  then show ?case using enter_ok member_enter by auto
next
  case (3 s j es)
  then show ?case using leave_ok member_leave by auto
qed simp

end

definition idset_ok :: "Oec_IdSet \<Rightarrow> bool" where
  "idset_ok s = (set_ok s \<and> set_cmp s = itemcmp \<and> set_hash s = itemhash)"

definition reg_apply :: "Oec_IdSet \<Rightarrow> reg_event \<Rightarrow> Oec_IdSet" where
  "reg_apply s e = (case e of Enter i \<Rightarrow> Oec_IdSet_put s i | Leave i \<Rightarrow> snd (Oec_IdSet_remove s i))"

lemma idset_good: "idset_ok s \<longleftrightarrow> idset.good s"
  by (simp add: idset_ok_def idset.good_def)

lemma idset_member: "idset_ok s \<Longrightarrow> Oec_IdSet_member s i \<longleftrightarrow> i \<in> set (Set_toArray s)"
  using idset.member_good by (simp add: idset_good Oec_IdSet_member_def)

lemma idset_free: "idset_ok s \<Longrightarrow> Oec_IdSet_free (Some s) = Inr (Set_length s, Set_length s)"
  using set_okD(3) [of s]
  by (auto simp: idset_ok_def Oec_IdSet_free_def Set_free_def Set_toArray_def Set_length_def)

lemma Set_map_toArray: "Set_map s (\<lambda>m xs. xs @ [m]) [] = Set_toArray s"
proof -
  have "foldl (\<lambda>xs m. xs @ [m]) ys zs = ys @ zs" for ys zs :: "'a list"
    by (induction zs arbitrary: ys) auto
  then show ?thesis by (simp add: Set_map_def Set_toArray_def)
qed

lemma idset_put: "idset_ok s \<Longrightarrow> idset_ok (Oec_IdSet_put s i) \<and>
   set (Set_toArray (Oec_IdSet_put s i)) = insert i (set (Set_toArray s))"
  using idset.Set_put_spec [of s i] by (auto simp: idset_ok_def Oec_IdSet_put_def)

lemma Set_remove_ops:
  "Set_remove s x = (r, s') \<Longrightarrow> set_cmp s' = set_cmp s \<and> set_hash s' = set_hash s"
  by (auto simp: Set_remove_def Let_def split: option.splits)

lemma idset_remove:
  assumes "idset_ok s" "Oec_IdSet_remove s i = (r, s')"
  shows "idset_ok s'" "set (Set_toArray s') = set (Set_toArray s) - {i}"
    "r = (if i \<in> set (Set_toArray s) then i else 0)"
proof -
  obtain q where q: "Set_remove s i = (q, s')"
    using assms(2) by (auto simp: Oec_IdSet_remove_def split: prod.splits option.splits)
  note ok = assms(1) [unfolded idset_ok_def]
  note sp = idset.Set_remove_spec [OF _ _ _ q]
  show "idset_ok s'" using ok sp(1) Set_remove_ops [OF q] by (simp add: idset_ok_def)
  show "set (Set_toArray s') = set (Set_toArray s) - {i}" using ok sp(1) by auto
  show "r = (if i \<in> set (Set_toArray s) then i else 0)"
    using ok sp(2) q assms(2) by (auto simp: Oec_IdSet_remove_def split: option.splits)
qed

interpretation idreg: id_registry idset_ok Oec_IdSet_member Oec_IdSet_put
  "\<lambda>s i. snd (Oec_IdSet_remove s i)"
proof unfold_locales
  fix s :: Oec_IdSet and i j :: oe_id
  assume ok: "idset_ok s"
  obtain r s' where rm: "Oec_IdSet_remove s i = (r, s')" by fastforce
  note R = idset_remove [OF ok rm] and P = idset_put [OF ok, of i]
  show "idset_ok (Oec_IdSet_put s i)" using P by blast
  show "idset_ok (snd (Oec_IdSet_remove s i))" using R rm by simp
  show "Oec_IdSet_member (Oec_IdSet_put s i) j = (j = i \<or> Oec_IdSet_member s j)"
    using P ok idset_member by auto
  show "Oec_IdSet_member (snd (Oec_IdSet_remove s i)) j = (j \<noteq> i \<and> Oec_IdSet_member s j)"
    using R rm ok idset_member by auto
qed

lemma replay_reg_apply: "foldl reg_apply s es = idreg.replay s es"
  by (induction s es rule: idreg.replay.induct) (auto simp: reg_apply_def)

section \<open>Properties\<close>

text \<open>C31: the four binary operations of \<^verbatim>\<open>set.c\<close> compute union, intersection, difference and
  symmetric difference.  For two well-formed sets made with the default comparison and hash
  function, each operation returns (no assertion fails, no table index is out of range) a
  well-formed set whose members are exactly the ones the operation's name promises.\<close>

theorem set_algebra:
  assumes "set_ok s" "set_cmp s = cmpatom" "set_hash s = hashatom"
    and "set_ok t" "set_cmp t = cmpatom" "set_hash t = hashatom"
  shows "\<exists>u i m d. Set_union (Some s) (Some t) = Inr u \<and> Set_inter (Some s) (Some t) = Inr i \<and>
    Set_minus (Some s) (Some t) = Inr m \<and> Set_diff (Some s) (Some t) = Inr d \<and>
    set_ok u \<and> set_ok i \<and> set_ok m \<and> set_ok d \<and>
    set (Set_toArray u) = set (Set_toArray s) \<union> set (Set_toArray t) \<and>
    set (Set_toArray i) = set (Set_toArray s) \<inter> set (Set_toArray t) \<and>
    set (Set_toArray m) = set (Set_toArray s) - set (Set_toArray t) \<and>
    set (Set_toArray d) = sym_diff (set (Set_toArray s)) (set (Set_toArray t))"
proof -
  have g: "atom.good s" "atom.good t" using assms by (simp_all add: atom.good_def)
  have arr: "set (Set_toArray v) = {x. Set_member v x}" if "atom.good v" for v
    using atom.member_good [OF that] by auto
  have ok: "set_ok v" if "atom.good v" for v using that by (simp add: atom.good_def)
  obtain u where u: "Set_union (Some s) (Some t) = Inr u" "atom.good u"
    "\<forall>x. Set_member u x = (Set_member s x \<or> Set_member t x)" using atom.Set_union_spec [OF g] by blast
  obtain i where i: "Set_inter (Some s) (Some t) = Inr i" "atom.good i"
    "\<forall>x. Set_member i x = (Set_member s x \<and> Set_member t x)" using atom.Set_inter_spec [OF g] by blast
  obtain m where m: "Set_minus (Some s) (Some t) = Inr m" "atom.good m"
    "\<forall>x. Set_member m x = (Set_member s x \<and> \<not> Set_member t x)" using atom.Set_minus_spec [OF g] by blast
  obtain d where d: "Set_diff (Some s) (Some t) = Inr d" "atom.good d"
    "\<forall>x. Set_member d x = (Set_member s x \<noteq> Set_member t x)" using atom.Set_diff_spec [OF g] by blast
  have eqs: "set (Set_toArray u) = set (Set_toArray s) \<union> set (Set_toArray t)"
    "set (Set_toArray i) = set (Set_toArray s) \<inter> set (Set_toArray t)"
    "set (Set_toArray m) = set (Set_toArray s) - set (Set_toArray t)"
    "set (Set_toArray d) = sym_diff (set (Set_toArray s)) (set (Set_toArray t))"
    using u(3) i(3) m(3) d(3) by (auto simp: arr g u(2) i(2) m(2) d(2))
  show ?thesis using u i m d eqs ok by blast
qed

definition two_atoms :: "64 word list list \<Rightarrow> 64 word set_T" where
  "two_atoms b = \<lparr>set_length = length (concat b), set_timestamp = 0, set_cmp = cmpatom,
     set_hash = hashatom, set_size = length b, set_buckets = b\<rparr>"

theorem set_algebra_witness:
  "\<exists>u i. Set_union (Some (two_atoms [[8, 16], [4]])) (Some (two_atoms [[8], [12]])) = Inr u \<and>
     Set_inter (Some (two_atoms [[8, 16], [4]])) (Some (two_atoms [[8], [12]])) = Inr i \<and>
     set (Set_toArray u) = {4, 8, 12, 16} \<and> set (Set_toArray i) = {8}"
proof -
  have "set_ok (two_atoms [[8, 16], [4]])" "set_ok (two_atoms [[8], [12]])"
    by (auto simp: set_ok_def two_atoms_def set_index_def hashatom_def less_Suc_eq)
      (simp_all flip: numeral_2_eq_2)
  then show ?thesis
    using set_algebra [of "two_atoms [[8, 16], [4]]" "two_atoms [[8], [12]]"]
    by (auto simp: two_atoms_def Set_toArray_def)
qed


text \<open>C32: an identifier set is a faithful registry.  Starting from a fresh \<^verbatim>\<open>Oec_IdSet\<close> (any hint),
  after any sequence of puts and removes the set is well formed, an identifier is a member exactly
  when the last operation on it was a put, the length is the number of members, a remove hands
  back the identifier when it was present and 0 otherwise, and freeing the set releases every
  identifier cell and every chain cell exactly once.\<close>

theorem Oec_IdSet_history:
  "\<exists>s. Oec_IdSet_new hint = Inr s \<and>
     (\<forall>es. let s' = foldl reg_apply s es in
        set_ok s' \<and> (\<forall>i. Oec_IdSet_member s' i = entered es i False) \<and>
        Set_length s' = card {i. entered es i False} \<and>
        (\<forall>i. fst (Oec_IdSet_remove s' i) = (if entered es i False then i else 0)) \<and>
        Oec_IdSet_free (Some s') = Inr (Set_length s', Set_length s'))"
proof -
  obtain s where s: "Oec_IdSet_new hint = Inr s" "idset_ok s" "Set_toArray s = []"
    using Set_new_ok [of 100 itemcmp itemhash] by (auto simp: Oec_IdSet_new_def idset_ok_def)
  have "let s' = foldl reg_apply s es in
        set_ok s' \<and> (\<forall>i. Oec_IdSet_member s' i = entered es i False) \<and>
        Set_length s' = card {i. entered es i False} \<and>
        (\<forall>i. fst (Oec_IdSet_remove s' i) = (if entered es i False then i else 0)) \<and>
        Oec_IdSet_free (Some s') = Inr (Set_length s', Set_length s')" for es
  proof -
    let ?s = "foldl reg_apply s es"
    have ok: "idset_ok ?s" and mem: "\<And>i. Oec_IdSet_member ?s i = entered es i False"
      using idreg.replay_spec [OF s(2), of es] s(3) idset_member [OF s(2)]
      by (auto simp: replay_reg_apply)
    then have arr: "set (Set_toArray ?s) = {i. entered es i False}" using idset_member [OF ok] by auto
    have "fst (Oec_IdSet_remove ?s i) = (if entered es i False then i else 0)" for i
      using idset_remove(3) [OF ok, of i] arr by (cases "Oec_IdSet_remove ?s i") auto
    then show ?thesis
      using ok mem arr idset.length_card [of ?s] idset_free [OF ok] by (simp add: Let_def idset_good idset.good_def)
  qed
  with s(1) show ?thesis by blast
qed

end
