(* ===== verification/Hash_Table.thy ===== *)
theory Hash_Table
  imports Hash_Set
begin

text \<open>
  The hash table of \<^verbatim>\<open>corelib/arenatable.c\<close>, its heap-allocated front end \<^verbatim>\<open>corelib/table.c\<close> and
  the string-keyed tables of \<^verbatim>\<open>corelib/SKeyTable.c\<close>.

  A table is read as a hash set of its bindings, compared and hashed by their keys (\<open>table_set\<close>),
  so that the chain lemmas and the invariant of the set carry over; the laws of a finite map
  (what a lookup returns after a put or a remove) follow in the locale \<open>hash_ops\<close>.
\<close>

section \<open>Tables\<close>

text \<open>\<^verbatim>\<open>table_arena\<close> records whether the table lives in an arena: bindings of such a table are
  released with the arena and never one by one.  Values are the non-NULL pointers stored.\<close>

record ('k, 'v) table_T =
  table_arena :: bool
  table_length :: nat
  table_timestamp :: "32 word"
  table_cmp :: "'k \<Rightarrow> 'k \<Rightarrow> int"
  table_hash :: "'k \<Rightarrow> 32 word"
  table_size :: nat
  table_buckets :: "('k \<times> 'v) list list"

definition ArenaTable_new ::
  "bool \<Rightarrow> int \<Rightarrow> ('k \<Rightarrow> 'k \<Rightarrow> int) \<Rightarrow> ('k \<Rightarrow> 32 word) \<Rightarrow> ('k, 'v) table_T c_result" where
  "ArenaTable_new arena hint cmp hsh =
     (if hint < 0 then Inl Assert_Failed
      else case primes_loop 1 hint of
        Inl e \<Rightarrow> Inl e
      | Inr i \<Rightarrow>
          let n = nat (primes ! (i - 1)) in
          Inr \<lparr>table_arena = arena, table_length = 0, table_timestamp = 0, table_cmp = cmp,
               table_hash = hsh, table_size = n, table_buckets = replicate n []\<rparr>)"

definition table_index :: "('k, 'v) table_T \<Rightarrow> 'k \<Rightarrow> nat" where
  "table_index t key = unat (table_hash t key) mod table_size t"

definition ArenaTable_get :: "('k, 'v) table_T \<Rightarrow> 'k \<Rightarrow> 'v option" where
  "ArenaTable_get t key =
     map_option snd (chain_find (\<lambda>p. table_cmp t key (fst p) = 0) (table_buckets t ! table_index t key))"

definition ArenaTable_put ::
  "('k, 'v) table_T \<Rightarrow> 'k \<Rightarrow> 'v \<Rightarrow> 'v option \<times> ('k, 'v) table_T" where
  "ArenaTable_put t key value =
     (let i = table_index t key; b = table_buckets t ! i;
          hit = (\<lambda>p. table_cmp t key (fst p) = 0);
          t1 = t\<lparr>table_timestamp := table_timestamp t + 1\<rparr>
      in case chain_find hit b of
           None \<Rightarrow> (None, t1\<lparr>table_buckets := (table_buckets t)[i := (key, value) # b],
                            table_length := table_length t + 1\<rparr>)
         | Some p \<Rightarrow> (Some (snd p),
             t1\<lparr>table_buckets := (table_buckets t)
                  [i := chain_replace hit (\<lambda>p. (fst p, value)) b]\<rparr>))"

definition ArenaTable_length :: "('k, 'v) table_T \<Rightarrow> nat" where
  "ArenaTable_length t = table_length t"

definition ArenaTable_remove ::
  "('k, 'v) table_T \<Rightarrow> 'k \<Rightarrow> 'v option \<times> ('k, 'v) table_T" where
  "ArenaTable_remove t key =
     (let t1 = t\<lparr>table_timestamp := table_timestamp t + 1\<rparr>;
          i = table_index t key; b = table_buckets t ! i;
          hit = (\<lambda>p. table_cmp t key (fst p) = 0)
      in case chain_find hit b of
           None \<Rightarrow> (None, t1)
         | Some p \<Rightarrow> (Some (snd p),
             t1\<lparr>table_buckets := (table_buckets t)[i := chain_delete hit b],
                table_length := table_length t - 1\<rparr>))"

text \<open>The bindings in array order; the C array interleaves keys and values and ends with a marker.\<close>

definition ArenaTable_toArray :: "('k, 'v) table_T \<Rightarrow> ('k \<times> 'v) list" where
  "ArenaTable_toArray t = concat (table_buckets t)"

text \<open>\<^verbatim>\<open>ArenaTable_map\<close>: the callback sees each binding once, in array order, with a closure that it
  threads, and may store a new value; it has no access to the table itself.\<close>

fun map_chain :: "('k \<Rightarrow> 'v \<Rightarrow> 'c \<Rightarrow> 'v \<times> 'c) \<Rightarrow> ('k \<times> 'v) list \<Rightarrow> 'c \<Rightarrow> ('k \<times> 'v) list \<times> 'c" where
  "map_chain apply [] cl = ([], cl)"
| "map_chain apply ((k, v) # ps) cl =
     (let (v', cl1) = apply k v cl; (ps', cl2) = map_chain apply ps cl1 in ((k, v') # ps', cl2))"

fun map_buckets ::
  "('k \<Rightarrow> 'v \<Rightarrow> 'c \<Rightarrow> 'v \<times> 'c) \<Rightarrow> ('k \<times> 'v) list list \<Rightarrow> 'c \<Rightarrow> ('k \<times> 'v) list list \<times> 'c" where
  "map_buckets apply [] cl = ([], cl)"
| "map_buckets apply (b # bs) cl =
     (let (b', cl1) = map_chain apply b cl; (bs', cl2) = map_buckets apply bs cl1 in (b' # bs', cl2))"

definition ArenaTable_map ::
  "('k, 'v) table_T \<Rightarrow> ('k \<Rightarrow> 'v \<Rightarrow> 'c \<Rightarrow> 'v \<times> 'c) \<Rightarrow> 'c \<Rightarrow> ('k, 'v) table_T \<times> 'c" where
  "ArenaTable_map t apply cl =
     (let (bs, cl') = map_buckets apply (table_buckets t) cl in (t\<lparr>table_buckets := bs\<rparr>, cl'))"

text \<open>How many bindings \<^verbatim>\<open>ArenaTable_free\<close> releases one by one.\<close>

definition ArenaTable_free :: "('k, 'v) table_T \<Rightarrow> nat" where
  "ArenaTable_free t =
     (if table_arena t then 0 else if table_length t > 0 then length (concat (table_buckets t)) else 0)"

section \<open>The heap-allocated front end\<close>

definition Table_new ::
  "int \<Rightarrow> ('k \<Rightarrow> 'k \<Rightarrow> int) \<Rightarrow> ('k \<Rightarrow> 32 word) \<Rightarrow> ('k, 'v) table_T c_result" where
  "Table_new hint cmp hsh = ArenaTable_new False hint cmp hsh"

definition Table_get :: "('k, 'v) table_T \<Rightarrow> 'k \<Rightarrow> 'v option" where
  "Table_get t key = ArenaTable_get t key"

definition Table_put ::
  "('k, 'v) table_T \<Rightarrow> 'k \<Rightarrow> 'v \<Rightarrow> 'v option \<times> ('k, 'v) table_T" where
  "Table_put t key value = ArenaTable_put t key value"

definition Table_length :: "('k, 'v) table_T \<Rightarrow> nat" where
  "Table_length t = ArenaTable_length t"

definition Table_remove :: "('k, 'v) table_T \<Rightarrow> 'k \<Rightarrow> 'v option \<times> ('k, 'v) table_T" where
  "Table_remove t key = ArenaTable_remove t key"

definition Table_toArray :: "('k, 'v) table_T \<Rightarrow> ('k \<times> 'v) list" where
  "Table_toArray t = ArenaTable_toArray t"

section \<open>String-keyed tables\<close>

definition stringcmp :: "string \<Rightarrow> string \<Rightarrow> int" where
  "stringcmp x y =
     (let xint = oec_hash_string_key x; yint = oec_hash_string_key y
      in if xint = yint then 0 else if xint < yint then - 1 else 1)"

definition stringhash :: "string \<Rightarrow> 32 word" where
  "stringhash x = word_of_int (oec_hash_string_key x)"

definition SKeyTable_new :: "int \<Rightarrow> (string, 'v) table_T c_result" where
  "SKeyTable_new hint = Table_new hint stringcmp stringhash"

definition SKeyTable_arena_new :: "int \<Rightarrow> (string, 'v) table_T c_result" where
  "SKeyTable_arena_new hint = ArenaTable_new True hint stringcmp stringhash"

section \<open>A table as a set of bindings\<close>

definition table_set :: "('k, 'v) table_T \<Rightarrow> ('k \<times> 'v) set_T" where
  "table_set t = \<lparr>set_length = table_length t, set_timestamp = table_timestamp t,
     set_cmp = (\<lambda>p q. table_cmp t (fst p) (fst q)), set_hash = (\<lambda>p. table_hash t (fst p)),
     set_size = table_size t, set_buckets = table_buckets t\<rparr>"

definition table_ok :: "('k, 'v) table_T \<Rightarrow> bool" where
  "table_ok t = set_ok (table_set t)"

lemma table_set_sel [simp]:
  "set_length (table_set t) = table_length t" "set_timestamp (table_set t) = table_timestamp t"
  "set_cmp (table_set t) = (\<lambda>p q. table_cmp t (fst p) (fst q))"
  "set_hash (table_set t) = (\<lambda>p. table_hash t (fst p))"
  "set_size (table_set t) = table_size t" "set_buckets (table_set t) = table_buckets t"
  by (simp_all add: table_set_def)

lemma set_index_table_set [simp]: "set_index (table_set t) (k, v) = table_index t k"
  by (simp add: set_index_def table_index_def)

lemma toArray_table_set: "Set_toArray (table_set t) = ArenaTable_toArray t"
  by (simp add: Set_toArray_def ArenaTable_toArray_def)

lemma ArenaTable_new_ok:
  assumes "0 \<le> hint" "hint \<le> 2147483647"
  shows "\<exists>t :: ('k, 'v) table_T. ArenaTable_new a hint cmp hsh = Inr t \<and> table_ok t \<and> ArenaTable_toArray t = [] \<and>
    table_cmp t = cmp \<and> table_hash t = hsh \<and> table_arena t = a"
proof -
  let ?c = "\<lambda>p q. cmp (fst p) (fst q)" and ?h = "\<lambda>p. hsh (fst p)"
  obtain s :: "('k \<times> 'v) set_T" where s: "Set_new hint ?c ?h = Inr s" "set_ok s" "Set_toArray s = []"
    using Set_new_ok [OF assms, of ?c ?h] by blast
  obtain i where i: "primes_loop 1 hint = Inr i"
    using s(1) assms by (auto simp: Set_new_def split: sum.splits if_splits)
  define t :: "('k, 'v) table_T" where "t = \<lparr>table_arena = a, table_length = 0,
    table_timestamp = 0, table_cmp = cmp, table_hash = hsh, table_size = nat (primes ! (i - 1)),
    table_buckets = replicate (nat (primes ! (i - 1))) []\<rparr>"
  have "table_set t = s" using s(1) i assms by (simp add: Set_new_def table_set_def Let_def t_def)
  then have "table_ok t" "ArenaTable_toArray t = []"
    using s(2,3) by (simp_all add: table_ok_def flip: toArray_table_set)
  then show ?thesis using assms i by (simp add: ArenaTable_new_def Let_def t_def)
qed

context hash_ops
begin

lemma bindings_hash_ops: "hash_ops (\<lambda>p q. cmp (fst p) (fst q)) (\<lambda>p. hsh (fst p))"
  by unfold_locales (auto intro: cmp_refl cmp_sym cmp_trans hash_cong)

definition tgood :: "('a, 'v) table_T \<Rightarrow> bool" where
  "tgood t = (table_ok t \<and> table_cmp t = cmp \<and> table_hash t = hsh)"

lemma tgoodD:
  assumes "tgood t"
  shows "set_ok (table_set t)" "table_cmp t = cmp" "table_hash t = hsh"
    "set_cmp (table_set t) = (\<lambda>p q. cmp (fst p) (fst q))" "set_hash (table_set t) = (\<lambda>p. hsh (fst p))"
  using assms by (simp_all add: tgood_def table_ok_def)

lemma chain_key_unique:
  assumes "sorted_wrt (\<lambda>p q. cmp (fst p) (fst q) \<noteq> 0) b"
    and "p \<in> set b" "q \<in> set b" "cmp k (fst p) = 0" "cmp k (fst q) = 0"
  shows "p = q"
  using assms by (induction b) (auto dest: cmp_left)

text \<open>The chain a key hashes to: its members, and that no two of its keys compare equal.\<close>

lemma key_chain:
  fixes t :: "('a, 'v) table_T" and k :: 'a
  assumes "tgood t"
  defines "b \<equiv> table_buckets t ! table_index t k"
  shows "table_index t k < set_size (table_set t)"
    and "sorted_wrt (\<lambda>p q. cmp (fst p) (fst q) \<noteq> 0) b"
    and "\<And>p. p \<in> set b \<longleftrightarrow> p \<in> set (ArenaTable_toArray t) \<and> table_index t (fst p) = table_index t k"
    and "\<And>k'. cmp k k' = 0 \<Longrightarrow> table_index t k' = table_index t k"
proof -
  note D = tgoodD [OF assms(1)]
  show i: "table_index t k < set_size (table_set t)"
    using set_index_less [OF D(1), of "(k, undefined)"] by simp
  show "sorted_wrt (\<lambda>p q. cmp (fst p) (fst q) \<noteq> 0) b"
    using set_okD(2,5) [OF D(1)] i D(2) by (simp add: b_def)
  show "p \<in> set b \<longleftrightarrow> p \<in> set (ArenaTable_toArray t) \<and> table_index t (fst p) = table_index t k" for p
    using bucket_iff [OF D(1) i, of p] by (cases p) (simp add: b_def toArray_table_set)
  show "table_index t k' = table_index t k" if "cmp k k' = 0" for k'
    using hash_cong [OF that] D(3) by (simp add: table_index_def)
qed

lemma get_iff:
  assumes "tgood t"
  shows "ArenaTable_get t k = Some v \<longleftrightarrow> (\<exists>k'. (k', v) \<in> set (ArenaTable_toArray t) \<and> cmp k k' = 0)"
proof -
  let ?b = "table_buckets t ! table_index t k" and ?P = "\<lambda>p. cmp k (fst p) = 0"
  note D = tgoodD [OF assms] and K = key_chain [OF assms, where k = k]
  show ?thesis
  proof (cases "chain_find ?P ?b")
    case None
    then have "\<nexists>k'. (k', v) \<in> set (ArenaTable_toArray t) \<and> cmp k k' = 0"
      using K(3,4) by (force simp: chain_find_None)
    then show ?thesis using None D(2) by (simp add: ArenaTable_get_def)
  next
    case (Some p)
    note p = chain_find_Some [OF Some]
    have "ArenaTable_get t k = Some (snd p)" using Some D(2) by (simp add: ArenaTable_get_def)
    moreover have "snd p = v" if "(k', v) \<in> set (ArenaTable_toArray t)" "cmp k k' = 0" for k'
      using chain_key_unique [OF K(2), of p "(k', v)" k] p K(3,4) that by auto
    ultimately show ?thesis using p K(3) by (metis option.inject prod.collapse)
  qed
qed

lemma put_spec:
  assumes "tgood t" and put: "ArenaTable_put t k v = (r, t')"
  shows "tgood t'" and "r = ArenaTable_get t k"
    and "\<exists>k0. cmp k k0 = 0 \<and> set (ArenaTable_toArray t') =
      insert (k0, v) {p \<in> set (ArenaTable_toArray t). cmp k (fst p) \<noteq> 0}"
proof -
  let ?i = "table_index t k" and ?b = "table_buckets t ! table_index t k"
  let ?P = "\<lambda>p. cmp k (fst p) = 0"
  note D = tgoodD [OF assms(1)] and K = key_chain [OF assms(1), where k = k]
  have ops: "table_cmp t' = cmp" "table_hash t' = hsh"
    using put D(2,3) by (auto simp: ArenaTable_put_def Let_def split: option.splits)
  have goal: "tgood t' \<and> (\<exists>k0. cmp k k0 = 0 \<and> set (ArenaTable_toArray t') =
      insert (k0, v) {p \<in> set (ArenaTable_toArray t). cmp k (fst p) \<noteq> 0})"
    if c: "set c = insert (k0, v) {p \<in> set ?b. cmp k (fst p) \<noteq> 0}" "cmp k k0 = 0"
      "sorted_wrt (\<lambda>p q. cmp (fst p) (fst q) \<noteq> 0) c" "n + length ?b = table_length t + length c"
      "t' = t\<lparr>table_buckets := (table_buckets t)[?i := c], table_length := n,
         table_timestamp := table_timestamp t + 1\<rparr>" for c n k0
  proof -
    have ix: "set_index (table_set t) p = ?i" if "p \<in> set c" for p
    proof -
      from that have "p = (k0, v) \<or> p \<in> set ?b" unfolding c(1) by blast
      then have "table_index t (fst p) = ?i" using c(2) K(3,4) by fastforce
      then show ?thesis by (cases p) simp
    qed
    have eq: "table_set t' = (table_set t)\<lparr>set_buckets := (set_buckets (table_set t))[?i := c],
        set_length := n, set_timestamp := table_timestamp t + 1\<rparr>"
      by (simp add: c(5) table_set_def)
    have srt: "sorted_wrt (\<lambda>x y. set_cmp (table_set t) x y \<noteq> 0) c" using c(3) D(4) by simp
    have len: "n + length (set_buckets (table_set t) ! ?i) = set_length (table_set t) + length c"
      using c(4) by simp
    note B = set_ok_bucket [OF D(1) K(1) ix srt len eq]
    have "set (ArenaTable_toArray t') = insert (k0, v) {p \<in> set (ArenaTable_toArray t). cmp k (fst p) \<noteq> 0}"
      using B(2) c(1) K(3,4) by (auto simp: toArray_table_set)
    then show ?thesis using B(1) ops c(2) by (auto simp: tgood_def table_ok_def)
  qed
  have "tgood t' \<and> (\<exists>k0. cmp k k0 = 0 \<and> set (ArenaTable_toArray t') =
      insert (k0, v) {p \<in> set (ArenaTable_toArray t). cmp k (fst p) \<noteq> 0})"
  proof (cases "chain_find ?P ?b")
    case None
    then have no: "\<forall>p \<in> set ?b. cmp k (fst p) \<noteq> 0" by (simp add: chain_find_None)
    show ?thesis
      by (rule goal [of "(k, v) # ?b" k "table_length t + 1"])
        (use no K(2) put None D(2) cmp_refl in \<open>auto simp: ArenaTable_put_def Let_def\<close>)
  next
    case (Some q)
    note q = chain_find_Some [OF Some]
    let ?c = "chain_replace ?P (\<lambda>p. (fst p, v)) ?b"
    have "sorted_wrt (\<lambda>p q. \<not> (?P p \<and> ?P q)) ?b"
      using K(2) by (rule sorted_wrt_mono_rel [rotated]) (use cmp_left in blast)
    from set_chain_replace [OF this, of "\<lambda>p. (fst p, v)"]
    have setc: "set ?c = insert (fst q, v) {p \<in> set ?b. cmp k (fst p) \<noteq> 0}"
      using q chain_key_unique [OF K(2) _ conjunct1 [OF q] _ conjunct2 [OF q]] by force
    have srtc: "sorted_wrt (\<lambda>p q. cmp (fst p) (fst q) \<noteq> 0) ?c"
      by (rule sorted_wrt_chain_replace [OF _ _ K(2)]) simp_all
    show ?thesis
      by (rule goal [OF setc _ srtc, of "table_length t"])
        (use q put Some D(2) in \<open>auto simp: ArenaTable_put_def Let_def\<close>)
  qed
  then show "tgood t'" and "\<exists>k0. cmp k k0 = 0 \<and> set (ArenaTable_toArray t') =
      insert (k0, v) {p \<in> set (ArenaTable_toArray t). cmp k (fst p) \<noteq> 0}" by blast+
  show "r = ArenaTable_get t k"
    using put by (auto simp: ArenaTable_put_def ArenaTable_get_def Let_def split: option.splits)
qed

lemma remove_spec:
  assumes "tgood t" and rm: "ArenaTable_remove t k = (r, t')"
  shows "tgood t'" and "r = ArenaTable_get t k"
    and "set (ArenaTable_toArray t') = {p \<in> set (ArenaTable_toArray t). cmp k (fst p) \<noteq> 0}"
proof -
  note D = tgoodD [OF assms(1)]
  show r: "r = ArenaTable_get t k"
    using rm by (auto simp: ArenaTable_remove_def ArenaTable_get_def Let_def split: option.splits)
  have ops: "table_cmp t' = cmp" "table_hash t' = hsh"
    using rm D(2,3) by (auto simp: ArenaTable_remove_def Let_def split: option.splits)
  have "\<exists>q. Set_remove (table_set t) (k, undefined) = (q, table_set t')"
    using rm by (auto simp: ArenaTable_remove_def Set_remove_def Let_def table_set_def
        set_index_def table_index_def split: option.splits)
  then obtain q where "Set_remove (table_set t) (k, undefined) = (q, table_set t')" by blast
  note S = hash_ops.Set_remove_spec(1) [OF bindings_hash_ops D(1,4,5) this]
  show "tgood t'" using S ops by (simp add: tgood_def table_ok_def)
  show "set (ArenaTable_toArray t') = {p \<in> set (ArenaTable_toArray t). cmp k (fst p) \<noteq> 0}"
    using S by (simp add: toArray_table_set)
qed

theorem get_put:
  assumes "tgood t" "ArenaTable_put t k v = (r, t')"
  shows "ArenaTable_get t' j = (if cmp j k = 0 then Some v else ArenaTable_get t j)"
proof (rule option_eqI)
  fix w
  obtain k0 where k0: "cmp k k0 = 0" and arr: "set (ArenaTable_toArray t') =
      insert (k0, v) {p \<in> set (ArenaTable_toArray t). cmp k (fst p) \<noteq> 0}"
    using put_spec(3) [OF assms] by blast
  have j: "cmp j k0 = 0 \<longleftrightarrow> cmp j k = 0" using cmp_right [OF k0] by blast
  show "ArenaTable_get t' j = Some w \<longleftrightarrow>
      (if cmp j k = 0 then Some v else ArenaTable_get t j) = Some w"
  proof (cases "cmp j k = 0")
    case True
    then have "cmp k i = 0" if "cmp j i = 0" for i using that cmp_left by blast
    with True j show ?thesis by (auto simp: get_iff [OF put_spec(1) [OF assms]] arr)
  next
    case False
    then have "cmp k i \<noteq> 0" if "cmp j i = 0" for i using that cmp_right cmp_sym by blast
    with False j show ?thesis
      by (auto simp: get_iff [OF put_spec(1) [OF assms]] get_iff [OF assms(1)] arr)
  qed
qed

theorem get_remove:
  assumes "tgood t" "ArenaTable_remove t k = (r, t')"
  shows "ArenaTable_get t' j = (if cmp j k = 0 then None else ArenaTable_get t j)"
proof (rule option_eqI)
  fix w
  show "ArenaTable_get t' j = Some w \<longleftrightarrow>
      (if cmp j k = 0 then None else ArenaTable_get t j) = Some w"
  proof (cases "cmp j k = 0")
    case True
    then have "cmp k i = 0" if "cmp j i = 0" for i using that cmp_left by blast
    with True show ?thesis
      by (auto simp: get_iff [OF remove_spec(1) [OF assms]] remove_spec(3) [OF assms])
  next
    case False
    then have "cmp k i \<noteq> 0" if "cmp j i = 0" for i using that cmp_right cmp_sym by blast
    with False show ?thesis
      by (auto simp: get_iff [OF remove_spec(1) [OF assms]] get_iff [OF assms(1)] remove_spec(3) [OF assms])
  qed
qed

end

lemma map_chain_keys: "map fst (fst (map_chain f ps cl)) = map fst ps"
  by (induction f ps cl rule: map_chain.induct) (auto split: prod.splits)

lemma map_buckets_keys: "map (map fst) (fst (map_buckets f bs cl)) = map (map fst) bs"
  by (induction f bs cl rule: map_buckets.induct) (auto split: prod.splits, metis fst_conv map_chain_keys)

lemma map_buckets_chain:
  "map_buckets f bs cl = (bs', cl') \<Longrightarrow> map_chain f (concat bs) cl = (concat bs', cl')"
proof (induction f bs cl arbitrary: bs' cl' rule: map_buckets.induct)
  case (2 f b bs cl)
  have app: "map_chain f (xs @ ys) c =
      (let (xs', c1) = map_chain f xs c; (ys', c2) = map_chain f ys c1 in (xs' @ ys', c2))" for xs ys c
    by (induction f xs c rule: map_chain.induct) (auto split: prod.splits)
  show ?case using 2 by (auto simp: app split: prod.splits)
qed simp

text \<open>The callback of \<^verbatim>\<open>ArenaTable_map\<close> may change values only: the invariant does not see them.\<close>

lemma table_ok_keys:
  assumes "table_ok t" "map (map fst) bs = map (map fst) (table_buckets t)"
  shows "table_ok (t\<lparr>table_buckets := bs\<rparr>)"
proof -
  note D = set_okD [OF assms(1) [unfolded table_ok_def]]
  have len: "length bs = length (table_buckets t)" using assms(2) by (metis length_map)
  have keys: "map fst (bs ! i) = map fst (table_buckets t ! i)" if "i < length bs" for i
    using assms(2) that len by (metis nth_map)
  have "length (concat bs) = length (concat (table_buckets t))"
    using assms(2) by (metis length_map map_concat)
  moreover have "table_index t (fst p) = i" if "i < table_size t" "p \<in> set (bs ! i)" for i p
  proof -
    have "fst p \<in> fst ` set (table_buckets t ! i)"
      using keys [of i] that D(2) len by (metis image_eqI list.set_map table_set_sel(5,6))
    then show ?thesis using D(4) [of i] that(1) by force
  qed
  moreover have "sorted_wrt (\<lambda>p q. table_cmp t (fst p) (fst q) \<noteq> 0) b" if mem: "b \<in> set bs" for b
  proof -
    obtain i where i: "i < length bs" "b = bs ! i" using mem unfolding in_set_conv_nth by blast
    have "sorted_wrt (\<lambda>k l. table_cmp t k l \<noteq> 0) (map fst (table_buckets t ! i))"
      using D(5) [of "table_buckets t ! i"] i(1) len by (simp add: sorted_wrt_map)
    then have "sorted_wrt (\<lambda>k l. table_cmp t k l \<noteq> 0) (map fst b)"
      using keys [OF i(1)] i(2) by simp
    then show ?thesis by (simp add: sorted_wrt_map)
  qed
  ultimately show ?thesis
    using D(1,2,3,6) len by (simp add: table_ok_def set_ok_def set_index_def table_index_def)
qed

section \<open>The contract of a keyed store\<close>

text \<open>
  What the users of a table rely on, with the notion of equal keys left open: after any history
  of puts and removes a lookup gives the value of the latest put on an equal key that no remove
  has undone.
\<close>

datatype ('k, 'v) table_event = Put 'k 'v | Remove 'k

fun recorded :: "('k \<Rightarrow> 'k \<Rightarrow> bool) \<Rightarrow> ('k, 'v) table_event list \<Rightarrow> 'k \<Rightarrow> 'v option \<Rightarrow> 'v option" where
  "recorded same [] k r = r"
| "recorded same (Put j v # es) k r = recorded same es k (if same k j then Some v else r)"
| "recorded same (Remove j # es) k r = recorded same es k (if same k j then None else r)"

locale keyed_store =
  fixes ok :: "'s \<Rightarrow> bool" and same :: "'k \<Rightarrow> 'k \<Rightarrow> bool" and get :: "'s \<Rightarrow> 'k \<Rightarrow> 'v option"
    and put :: "'s \<Rightarrow> 'k \<Rightarrow> 'v \<Rightarrow> 'v option \<times> 's" and remove :: "'s \<Rightarrow> 'k \<Rightarrow> 'v option \<times> 's"
  assumes put_ok: "ok s \<Longrightarrow> ok (snd (put s k v))"
    and remove_ok: "ok s \<Longrightarrow> ok (snd (remove s k))"
    and get_after_put: "ok s \<Longrightarrow> get (snd (put s k v)) j = (if same j k then Some v else get s j)"
    and get_after_remove: "ok s \<Longrightarrow> get (snd (remove s k)) j = (if same j k then None else get s j)"
    and put_returns: "ok s \<Longrightarrow> fst (put s k v) = get s k"
    and remove_returns: "ok s \<Longrightarrow> fst (remove s k) = get s k"
begin

fun step :: "'s \<Rightarrow> ('k, 'v) table_event \<Rightarrow> 's" where
  "step s (Put k v) = snd (put s k v)"
| "step s (Remove k) = snd (remove s k)"

lemma history: "ok s \<Longrightarrow> ok (foldl step s es) \<and> get (foldl step s es) k = recorded same es k (get s k)"
proof (induction es arbitrary: s)
  case (Cons e es)
  then show ?case using put_ok remove_ok get_after_put get_after_remove by (cases e) auto
qed simp

end

definition table_apply :: "('k, 'v) table_T \<Rightarrow> ('k, 'v) table_event \<Rightarrow> ('k, 'v) table_T" where
  "table_apply t e = (case e of Put k v \<Rightarrow> snd (Table_put t k v) | Remove k \<Rightarrow> snd (Table_remove t k))"

lemmas Table_defs = Table_new_def Table_get_def Table_put_def Table_remove_def Table_length_def
  Table_toArray_def

context hash_ops
begin

lemma keyed_store: "keyed_store tgood (\<lambda>j k. cmp j k = 0) Table_get Table_put Table_remove"
proof (unfold_locales, unfold Table_defs)
  fix s :: "('a, 'v) table_T" and k v j
  assume s: "tgood s"
  obtain r t where p: "ArenaTable_put s k v = (r, t)" by fastforce
  obtain q u where m: "ArenaTable_remove s k = (q, u)" by fastforce
  show "tgood (snd (ArenaTable_put s k v))" "fst (ArenaTable_put s k v) = ArenaTable_get s k"
    "ArenaTable_get (snd (ArenaTable_put s k v)) j = (if cmp j k = 0 then Some v else ArenaTable_get s j)"
    using put_spec [OF s p] get_put [OF s p, of j] p by simp_all
  show "tgood (snd (ArenaTable_remove s k))" "fst (ArenaTable_remove s k) = ArenaTable_get s k"
    "ArenaTable_get (snd (ArenaTable_remove s k)) j = (if cmp j k = 0 then None else ArenaTable_get s j)"
    using remove_spec [OF s m] get_remove [OF s m, of j] m by simp_all
qed

end

interpretation skey: hash_ops stringcmp stringhash
  by unfold_locales (auto simp: stringcmp_def stringhash_def Let_def split: if_splits)

interpretation sktab: keyed_store skey.tgood "\<lambda>j k. stringcmp j k = 0" Table_get Table_put Table_remove
  by (rule skey.keyed_store)

lemma stringcmp_0: "stringcmp x y = 0 \<longleftrightarrow> oec_hash_string_key x = oec_hash_string_key y"
  by (simp add: stringcmp_def Let_def)

lemma table_apply_step: "table_apply = sktab.step"
  by (rule ext, rule ext, rename_tac t e, case_tac e) (auto simp: table_apply_def)

section \<open>Properties\<close>

text \<open>a string-keyed table created with any hint from 0 to INT_MAX answers every lookup by
  its history: the value of the latest put on a key with the same string hash that no remove has
  undone, through any sequence of puts and removes; the binding count stays exact and both
  operations return the value the table held before.\<close>

theorem SKeyTable_history:
  assumes "0 \<le> hint" "hint \<le> 2147483647"
  shows "\<exists>t. SKeyTable_new hint = Inr t \<and>
    (\<forall>es k. let t' = foldl table_apply t es;
               r = recorded (\<lambda>j k. oec_hash_string_key j = oec_hash_string_key k) es k None in
        table_ok t' \<and> Table_get t' k = r \<and> Table_length t' = length (Table_toArray t') \<and>
        fst (Table_remove t' k) = r \<and> (\<forall>v :: 'v. fst (Table_put t' k v) = r))"
proof -
  obtain t :: "(string, 'v) table_T" where t: "SKeyTable_new hint = Inr t" "skey.tgood t" "ArenaTable_toArray t = []"
    using ArenaTable_new_ok [OF assms, where ?cmp = stringcmp and ?hsh = stringhash and ?a = False]
    by (auto simp: SKeyTable_new_def Table_new_def skey.tgood_def)
  have none: "Table_get t k = None" for k
    using skey.get_iff [OF t(2), of k] t(3) by (cases "Table_get t k") (auto simp: Table_get_def)
  have "table_ok t' \<and> Table_length t' = length (Table_toArray t')" if "skey.tgood t'" for t' :: "(string, 'v) table_T"
    using that set_okD(3) [of "table_set t'"]
    by (simp add: skey.tgood_def table_ok_def Table_length_def ArenaTable_length_def Table_toArray_def ArenaTable_toArray_def)
  moreover have "skey.tgood (foldl table_apply t es)" "Table_get (foldl table_apply t es) k =
      recorded (\<lambda>j k. oec_hash_string_key j = oec_hash_string_key k) es k None" for es k
    using sktab.history [OF t(2), of es k] none by (auto simp: table_apply_step stringcmp_0)
  ultimately show ?thesis
    using t(1) by (auto simp: Let_def sktab.put_returns sktab.remove_returns)
qed

theorem SKeyTable_history_witness:
  "\<exists>t. SKeyTable_new 50 = Inr t \<and>
     Table_get (foldl table_apply t [Put ''get'' (1 :: nat), Put ''put'' 2, Remove ''get'']) ''put'' = Some 2 \<and>
     Table_get (foldl table_apply t [Put ''get'' (1 :: nat), Put ''put'' 2, Remove ''get'']) ''get'' = None"
proof -
  have h: "oec_hash_string_key ''put'' \<noteq> oec_hash_string_key ''get''" by code_simp
  obtain t where t: "SKeyTable_new 50 = Inr t"
    "\<And>es k. Table_get (foldl table_apply t es) k =
       recorded (\<lambda>j k. oec_hash_string_key j = oec_hash_string_key k) es k (None :: nat option)"
    using SKeyTable_history [of 50, where ?'v = nat] by (auto simp: Let_def)
  show ?thesis by (rule exI [of _ t]) (simp add: t h h [symmetric] del: foldl_Cons)
qed

text \<open>string-keyed tables confuse distinct keys whose hashes collide: keys are compared by their
  hash values only, so a value stored under one key is found under another.\<close>

theorem SKeyTable_collision:
  "\<exists>t k k'. SKeyTable_new 50 = Inr t \<and> k \<noteq> k' \<and> is_cstring k \<and> is_cstring k' \<and>
     (\<forall>v :: 'v. Table_get (snd (Table_put t k v)) k' = Some v)"
proof -
  obtain t :: "(string, 'v) table_T" where t: "SKeyTable_new 50 = Inr t" "skey.tgood t"
    using ArenaTable_new_ok [where ?hint = 50 and ?cmp = stringcmp and ?hsh = stringhash and ?a = False]
    by (auto simp: SKeyTable_new_def Table_new_def skey.tgood_def)
  have "stringcmp ''gRs'' ''aA0'' = 0" by code_simp
  then have "\<forall>v. Table_get (snd (Table_put t ''aA0'' v)) ''gRs'' = Some v"
    using sktab.get_after_put [OF t(2)] by simp
  moreover have "is_cstring ''aA0''" "is_cstring ''gRs''" by code_simp+
  ultimately show ?thesis using t(1) by (intro exI [of _ t] exI [of _ "''aA0''"] exI [of _ "''gRs''"]) auto
qed

end
