(* ===== verification/Containers.thy ===== *)
theory Containers
  imports Values
begin

text \<open>
  The containers user data travels in: the arena lists of \<^verbatim>\<open>corelib/Oec_AList.c\<close>, the array and
  generic iterators of \<^verbatim>\<open>corelib/ArrayIterator.c\<close> and \<^verbatim>\<open>corelib/Iterator.c\<close>, and the data objects
  of \<^verbatim>\<open>corelib/DataObject.c\<close> and \<^verbatim>\<open>corelib/DataObjectList.c\<close>.

  An arena list is only ever built by appending a fresh cell, so it is the list of its items; a
  C array is the list of its slots, the NULL that ends it included (\<^const>\<open>None\<close>).
\<close>

section \<open>Arena lists\<close>

type_synonym 'a Oec_AList = "'a list"

text \<open>The variadic constructor stops at the first NULL argument.\<close>

fun Oec_AList_list :: "'a option list \<Rightarrow> 'a Oec_AList" where
  "Oec_AList_list [] = []"
| "Oec_AList_list (None # xs) = []"
| "Oec_AList_list (Some x # xs) = x # Oec_AList_list xs"

fun Oec_AList_append :: "'a Oec_AList \<Rightarrow> 'a Oec_AList \<Rightarrow> 'a Oec_AList" where
  "Oec_AList_append [] tail = tail"
| "Oec_AList_append (x # xs) tail = x # Oec_AList_append xs tail"

fun Oec_AList_length :: "'a Oec_AList \<Rightarrow> nat" where
  "Oec_AList_length [] = 0"
| "Oec_AList_length (x # xs) = Oec_AList_length xs + 1"

definition Oec_AList_toArray :: "'a Oec_AList \<Rightarrow> 'a option list" where
  "Oec_AList_toArray l = map Some l @ [None]"

definition array_read :: "'b list \<Rightarrow> int \<Rightarrow> 'b c_result" where
  "array_read a i = (if 0 \<le> i \<and> i < int (length a) then Inr (a ! nat i) else Inl Out_Of_Bounds)"

definition Oec_AList_get :: "'a Oec_AList \<Rightarrow> int \<Rightarrow> 'a option c_result" where
  "Oec_AList_get l pos =
     (if int (Oec_AList_length l) \<le> pos then Inr None else array_read (Oec_AList_toArray l) pos)"

fun Oec_AList_pop :: "'a Oec_AList \<Rightarrow> 'a option \<times> 'a Oec_AList" where
  "Oec_AList_pop (x # xs) = (Some x, xs)"
| "Oec_AList_pop [] = (None, [])"

section \<open>Array iterators\<close>

record 'a ArrayIterator =
  ai_pos :: int
  ai_darray :: "'a option list"

definition DONE :: int where
  "DONE = - 1"

definition ArrayIterator_new :: "'a option list \<Rightarrow> 'a ArrayIterator c_result" where
  "ArrayIterator_new darray =
     (case array_read darray 0 of
        Inl e \<Rightarrow> Inl e
      | Inr x \<Rightarrow> Inr \<lparr>ai_pos = (if x = None then DONE else 0), ai_darray = darray\<rparr>)"

definition ArrayIterator_next :: "'a ArrayIterator \<Rightarrow> ('a option \<times> 'a ArrayIterator) c_result" where
  "ArrayIterator_next it =
     (if ai_pos it = DONE then Inr (None, it)
      else case array_read (ai_darray it) (ai_pos it) of
             Inl e \<Rightarrow> Inl e
           | Inr data \<Rightarrow>
               (case array_read (ai_darray it) (ai_pos it + 1) of
                  Inl e \<Rightarrow> Inl e
                | Inr nxt \<Rightarrow>
                    Inr (data, it\<lparr>ai_pos := (if nxt = None then DONE else ai_pos it + 1)\<rparr>)))"

definition ArrayIterator_hasMore :: "'a ArrayIterator \<Rightarrow> bool" where
  "ArrayIterator_hasMore it = (ai_pos it \<noteq> DONE)"

text \<open>Releasing an iterator asserts that there is one.\<close>

definition ArrayIterator_free :: "'a ArrayIterator option \<Rightarrow> unit c_result" where
  "ArrayIterator_free itp = (case itp of None \<Rightarrow> Inl Assert_Failed | Some _ \<Rightarrow> Inr ())"

definition Oec_AList_iterator :: "'a Oec_AList \<Rightarrow> 'a ArrayIterator c_result" where
  "Oec_AList_iterator l = ArrayIterator_new (Oec_AList_toArray l)"

section \<open>Generic iterators\<close>

text \<open>
  The five function pointers and the lazily built state of \<^verbatim>\<open>struct iterator_T\<close>.  The constructor
  argument is a pointer to the container: each operation takes the container as it is at the time
  of the call (\<^verbatim>\<open>arg\<close>) and returns it, since building the state may fill the container's cache.
\<close>

record ('s, 'c, 'a) Iterator =
  it_next :: "'s \<Rightarrow> ('a option \<times> 's) c_result"
  it_hasMore :: "'s \<Rightarrow> bool"
  it_ifree :: "'s option \<Rightarrow> unit c_result"
  it_state :: "'s option"
  it_state_new :: "'c \<Rightarrow> ('s \<times> 'c) c_result"
  it_with_arena :: bool

definition Iterator_new ::
  "('s \<Rightarrow> ('a option \<times> 's) c_result) \<Rightarrow> ('s \<Rightarrow> bool) \<Rightarrow> ('s option \<Rightarrow> unit c_result) \<Rightarrow>
   ('c \<Rightarrow> ('s \<times> 'c) c_result) \<Rightarrow> bool \<Rightarrow> ('s, 'c, 'a) Iterator" where
  "Iterator_new next hasMore ifree iter_state_new with_arena =
     \<lparr>it_next = next, it_hasMore = hasMore, it_ifree = ifree, it_state = None,
      it_state_new = iter_state_new, it_with_arena = with_arena\<rparr>"

definition state_init ::
  "('s, 'c, 'a) Iterator \<Rightarrow> 'c \<Rightarrow> ('s \<times> ('s, 'c, 'a) Iterator \<times> 'c) c_result" where
  "state_init it arg =
     (case it_state it of
        Some s \<Rightarrow> Inr (s, it, arg)
      | None \<Rightarrow>
          (case it_state_new it arg of
             Inl e \<Rightarrow> Inl e
           | Inr (s, arg') \<Rightarrow> Inr (s, it\<lparr>it_state := Some s\<rparr>, arg')))"

definition Iterator_hasMore ::
  "('s, 'c, 'a) Iterator \<Rightarrow> 'c \<Rightarrow> (bool \<times> ('s, 'c, 'a) Iterator \<times> 'c) c_result" where
  "Iterator_hasMore it arg =
     (case state_init it arg of
        Inl e \<Rightarrow> Inl e
      | Inr (s, it', arg') \<Rightarrow> Inr (it_hasMore it' s, it', arg'))"

definition Iterator_next ::
  "('s, 'c, 'a) Iterator \<Rightarrow> 'c \<Rightarrow> ('a option \<times> ('s, 'c, 'a) Iterator \<times> 'c) c_result" where
  "Iterator_next it arg =
     (case state_init it arg of
        Inl e \<Rightarrow> Inl e
      | Inr (s, it', arg') \<Rightarrow>
          (case it_next it' s of
             Inl e \<Rightarrow> Inl e
           | Inr (x, s') \<Rightarrow> Inr (x, it'\<lparr>it_state := Some s'\<rparr>, arg')))"

text \<open>The containers pass themselves as constructor argument, so the argument is never NULL.\<close>

definition Iterator_free :: "('s, 'c, 'a) Iterator option \<Rightarrow> unit c_result" where
  "Iterator_free itp =
     (case itp of
        None \<Rightarrow> Inl Assert_Failed
      | Some it \<Rightarrow> if it_with_arena it then Inr () else it_ifree it (it_state it))"

section \<open>Data objects\<close>

record DataObject =
  strings :: "oe_scalar Oec_AList"
  nbytes :: nat
  bytes :: "string option"
  array_cache :: "oe_scalar option list option"
  always_cpy :: bool

definition DataObject_new :: DataObject where
  "DataObject_new = \<lparr>strings = Oec_AList_list [None], nbytes = 0, bytes = None, array_cache = None,
     always_cpy = False\<rparr>"

definition DataObject_set_always_copy :: "DataObject \<Rightarrow> bool \<Rightarrow> DataObject" where
  "DataObject_set_always_copy d hint = d\<lparr>always_cpy := hint\<rparr>"

text \<open>Copying reads exactly the announced number of bytes from the source buffer.\<close>

definition sdo_bytes_cpy :: "DataObject \<Rightarrow> string \<Rightarrow> nat \<Rightarrow> string c_result" where
  "sdo_bytes_cpy d bs len =
     (if \<not> always_cpy d then Inr bs
      else if len \<le> length bs then Inr (take len bs) else Inl Out_Of_Bounds)"

definition sdo_cpy :: "DataObject \<Rightarrow> oe_scalar option \<Rightarrow> oe_scalar option c_result" where
  "sdo_cpy d str =
     (if \<not> always_cpy d then Inr str
      else case str of None \<Rightarrow> Inl Null_Deref | Some s \<Rightarrow> Inr (Some s))"

definition DataObject_get_nattrs :: "DataObject \<Rightarrow> nat" where
  "DataObject_get_nattrs d = Oec_AList_length (strings d)"

definition DataObject_add_attr :: "DataObject \<Rightarrow> oe_scalar option \<Rightarrow> DataObject c_result" where
  "DataObject_add_attr d value =
     (let d1 = d\<lparr>array_cache := None\<rparr> in
      case sdo_cpy d1 value of
        Inl e \<Rightarrow> Inl e
      | Inr lvalue \<Rightarrow>
          Inr (d1\<lparr>strings := Oec_AList_append (strings d1) (Oec_AList_list [lvalue, None])\<rparr>))"

definition DataObject_set_nbytes :: "DataObject \<Rightarrow> nat \<Rightarrow> DataObject c_result" where
  "DataObject_set_nbytes d len =
     (if nbytes d \<noteq> 0 then Inl Assert_Failed else Inr (d\<lparr>nbytes := len\<rparr>))"

definition DataObject_get_nbytes :: "DataObject \<Rightarrow> nat" where
  "DataObject_get_nbytes d = nbytes d"

definition DataObject_set_bytes :: "DataObject \<Rightarrow> string \<Rightarrow> DataObject c_result" where
  "DataObject_set_bytes d bs =
     (if bytes d \<noteq> None then Inl Assert_Failed
      else if nbytes d = 0 then Inl Assert_Failed
      else case sdo_bytes_cpy d bs (nbytes d) of
             Inl e \<Rightarrow> Inl e
           | Inr lbytes \<Rightarrow> Inr (d\<lparr>bytes := Some lbytes\<rparr>))"

definition DataObject_get_bytes :: "DataObject \<Rightarrow> string c_result" where
  "DataObject_get_bytes d = (case bytes d of None \<Rightarrow> Inl Assert_Failed | Some b \<Rightarrow> Inr b)"

definition dotoArrayIterator :: "DataObject \<Rightarrow> (oe_scalar ArrayIterator \<times> DataObject) c_result" where
  "dotoArrayIterator d =
     (let cache = (case array_cache d of None \<Rightarrow> Oec_AList_toArray (strings d) | Some a \<Rightarrow> a) in
      case ArrayIterator_new cache of
        Inl e \<Rightarrow> Inl e
      | Inr it \<Rightarrow> Inr (it, d\<lparr>array_cache := Some cache\<rparr>))"

definition dotoArrayIterator_no_arena :: "DataObject \<Rightarrow> (oe_scalar ArrayIterator \<times> DataObject) c_result" where
  "dotoArrayIterator_no_arena d =
     (case ArrayIterator_new (Oec_AList_toArray (strings d)) of
        Inl e \<Rightarrow> Inl e
      | Inr it \<Rightarrow> Inr (it, d))"

definition DataObject_toArray :: "DataObject \<Rightarrow> oe_scalar option list" where
  "DataObject_toArray d = Oec_AList_toArray (strings d)"

definition DataObject_iterator ::
  "bool \<Rightarrow> (oe_scalar ArrayIterator, DataObject, oe_scalar) Iterator" where
  "DataObject_iterator with_arena =
     Iterator_new ArrayIterator_next ArrayIterator_hasMore ArrayIterator_free
       (if with_arena then dotoArrayIterator else dotoArrayIterator_no_arena) with_arena"

section \<open>Lists of data objects\<close>

type_synonym DataObjectList = "DataObject Oec_AList"

definition DataObjectList_new :: DataObjectList where
  "DataObjectList_new = Oec_AList_list [None]"

definition DataObjectList_length :: "DataObjectList \<Rightarrow> nat" where
  "DataObjectList_length l = Oec_AList_length l"

definition DataObjectList_add :: "DataObjectList \<Rightarrow> DataObject \<Rightarrow> DataObjectList" where
  "DataObjectList_add l d = Oec_AList_append l (Oec_AList_list [Some d, None])"

text \<open>The caller of \<^verbatim>\<open>DataObjectList_new_data_object\<close> goes on to fill the object the list now holds:
  the result is the object's position, and \<open>DataObjectList_modify\<close> is a write through it.\<close>

definition DataObjectList_new_data_object :: "DataObjectList \<Rightarrow> nat \<times> DataObjectList" where
  "DataObjectList_new_data_object l =
     (let slist = DataObject_new in (length l, DataObjectList_add l slist))"

definition DataObjectList_modify ::
  "DataObjectList \<Rightarrow> nat \<Rightarrow> (DataObject \<Rightarrow> DataObject c_result) \<Rightarrow> DataObjectList c_result" where
  "DataObjectList_modify l i f =
     (if i < length l then (case f (l ! i) of Inl e \<Rightarrow> Inl e | Inr d \<Rightarrow> Inr (l[i := d]))
      else Inl Out_Of_Bounds)"

definition toArrayIterator :: "DataObjectList \<Rightarrow> (DataObject ArrayIterator \<times> DataObjectList) c_result" where
  "toArrayIterator l =
     (case ArrayIterator_new (Oec_AList_toArray l) of Inl e \<Rightarrow> Inl e | Inr it \<Rightarrow> Inr (it, l))"

definition DataObjectList_iterator ::
  "bool \<Rightarrow> (DataObject ArrayIterator, DataObjectList, DataObject) Iterator" where
  "DataObjectList_iterator with_arena =
     Iterator_new ArrayIterator_next ArrayIterator_hasMore ArrayIterator_free toArrayIterator with_arena"

text \<open>The loop every consumer runs: \<^verbatim>\<open>while (Iterator_hasMore(it)) { x = Iterator_next(it); ... }\<close>,
  cut off after a number of rounds; the loop is over when the answer is no.\<close>

fun iterate ::
  "nat \<Rightarrow> ('s, 'c, 'a) Iterator \<Rightarrow> 'c \<Rightarrow> ('a option list \<times> ('s, 'c, 'a) Iterator \<times> 'c) option c_result" where
  "iterate 0 it arg = Inr None"
| "iterate (Suc n) it arg =
     (case Iterator_hasMore it arg of
        Inl e \<Rightarrow> Inl e
      | Inr (False, it1, arg1) \<Rightarrow> Inr (Some ([], it1, arg1))
      | Inr (True, it1, arg1) \<Rightarrow>
          (case Iterator_next it1 arg1 of
             Inl e \<Rightarrow> Inl e
           | Inr (x, it2, arg2) \<Rightarrow>
               (case iterate n it2 arg2 of
                  Inl e \<Rightarrow> Inl e
                | Inr r \<Rightarrow> Inr (map_option (\<lambda>(xs, st). (x # xs, st)) r))))"

section \<open>Lemmas\<close>

lemma Oec_AList_append_eq [simp]: "Oec_AList_append xs ys = xs @ ys"
  by (induction xs) auto

lemma Oec_AList_length_eq [simp]: "Oec_AList_length xs = length xs"
  by (induction xs) auto

lemma Oec_AList_get_spec:
  "Oec_AList_get l pos =
     (if pos < 0 then Inl Out_Of_Bounds
      else if nat pos < length l then Inr (Some (l ! nat pos)) else Inr None)"
  by (auto simp: Oec_AList_get_def array_read_def Oec_AList_toArray_def nth_append nat_less_iff)

section \<open>The data object invariant\<close>

text \<open>The cached array is the array of the present attributes, and content comes with its length.\<close>

definition dataobject_ok :: "DataObject \<Rightarrow> bool" where
  "dataobject_ok d =
     ((case array_cache d of None \<Rightarrow> True | Some a \<Rightarrow> a = Oec_AList_toArray (strings d)) \<and>
      (bytes d \<noteq> None \<longrightarrow> nbytes d \<noteq> 0))"

lemma DataObject_new_ok [oe_inv]: "dataobject_ok DataObject_new"
  by (simp add: dataobject_ok_def DataObject_new_def)

lemma DataObject_add_attr_ok [oe_inv]:
  "dataobject_ok d \<Longrightarrow> DataObject_add_attr d v = Inr d' \<Longrightarrow> dataobject_ok d'"
  by (auto simp: dataobject_ok_def DataObject_add_attr_def Let_def split: sum.splits)

lemma DataObject_set_nbytes_ok [oe_inv]:
  "dataobject_ok d \<Longrightarrow> DataObject_set_nbytes d n = Inr d' \<Longrightarrow> dataobject_ok d'"
  by (auto simp: dataobject_ok_def DataObject_set_nbytes_def split: if_splits option.splits)

lemma DataObject_set_bytes_ok [oe_inv]:
  "dataobject_ok d \<Longrightarrow> DataObject_set_bytes d b = Inr d' \<Longrightarrow> dataobject_ok d'"
  by (auto simp: dataobject_ok_def DataObject_set_bytes_def split: if_splits sum.splits option.splits)

lemma DataObject_add_attr_Some:
  "DataObject_add_attr d (Some v) =
     Inr (d\<lparr>array_cache := None, strings := strings d @ [v]\<rparr>)"
  by (simp add: DataObject_add_attr_def Let_def sdo_cpy_def)

lemma DataObject_bytes_roundtrip:
  assumes "bytes d = None" "nbytes d = 0" "n \<noteq> 0" "length b = n"
  shows "\<exists>d1 d2. DataObject_set_nbytes d n = Inr d1 \<and> DataObject_set_bytes d1 b = Inr d2 \<and>
    DataObject_get_nbytes d2 = n \<and> DataObject_get_bytes d2 = Inr b \<and> strings d2 = strings d"
  using assms by (auto simp: DataObject_set_nbytes_def DataObject_set_bytes_def sdo_bytes_cpy_def
      DataObject_get_nbytes_def DataObject_get_bytes_def)

section \<open>Iteration\<close>

definition array_iterator :: "('a ArrayIterator, 'c, 'a) Iterator \<Rightarrow> bool" where
  "array_iterator it =
     (it_next it = ArrayIterator_next \<and> it_hasMore it = ArrayIterator_hasMore \<and>
      it_ifree it = ArrayIterator_free)"

lemma array_iterator_update [simp]: "array_iterator (it\<lparr>it_state := s\<rparr>) = array_iterator it"
  by (simp add: array_iterator_def)

lemma ArrayIterator_next_at:
  assumes "p < length xs"
  shows "ArrayIterator_next \<lparr>ai_pos = int p, ai_darray = Oec_AList_toArray xs\<rparr> =
    Inr (Some (xs ! p), \<lparr>ai_pos = (if Suc p < length xs then int (Suc p) else DONE),
      ai_darray = Oec_AList_toArray xs\<rparr>)"
proof -
  have "nat (int p + 1) = Suc p" by simp
  then show ?thesis using assms
    by (auto simp: ArrayIterator_next_def array_read_def Oec_AList_toArray_def nth_append DONE_def)
qed

lemma iterate_from:
  assumes "array_iterator it" "p < length xs" "length xs - p < n"
  shows "\<exists>it'. iterate n (it\<lparr>it_state := Some \<lparr>ai_pos = int p, ai_darray = Oec_AList_toArray xs\<rparr>\<rparr>) arg =
      Inr (Some (map Some (drop p xs), it', arg)) \<and> array_iterator it' \<and>
      it_state it' = Some \<lparr>ai_pos = DONE, ai_darray = Oec_AList_toArray xs\<rparr>"
  using assms(2,3)
proof (induction n arbitrary: p)
  case (Suc n)
  note it = assms(1) [unfolded array_iterator_def]
  let ?s = "\<lambda>p. \<lparr>ai_pos = p, ai_darray = Oec_AList_toArray xs\<rparr>"
  let ?q = "if Suc p < length xs then int (Suc p) else DONE"
  have step: "iterate (Suc n) (it\<lparr>it_state := Some (?s (int p))\<rparr>) arg =
      (case iterate n (it\<lparr>it_state := Some (?s ?q)\<rparr>) arg of
         Inl e \<Rightarrow> Inl e | Inr r \<Rightarrow> Inr (map_option (\<lambda>(xs', st). (Some (xs ! p) # xs', st)) r))"
    using ArrayIterator_next_at [OF Suc.prems(1)] it
    by (simp add: Iterator_hasMore_def Iterator_next_def state_init_def ArrayIterator_hasMore_def DONE_def
        del: of_nat_Suc)
  have drop: "drop p xs = xs ! p # drop (Suc p) xs" using Suc.prems(1) by (rule Cons_nth_drop_Suc [symmetric])
  show ?case
  proof (cases "Suc p < length xs")
    case True
    then have "length xs - Suc p < n" using Suc.prems(2) by linarith
    from Suc.IH [OF True this] obtain it' where "iterate n (it\<lparr>it_state := Some (?s (int (Suc p)))\<rparr>) arg =
        Inr (Some (map Some (drop (Suc p) xs), it', arg))" "array_iterator it'"
      "it_state it' = Some (?s DONE)" by blast
    then show ?thesis unfolding step drop using True by (simp del: of_nat_Suc)
  next
    case False
    then obtain m where "n = Suc m" using Suc.prems by (cases n) auto
    with False show ?thesis unfolding step drop using assms(1) it
      by (auto simp: Iterator_hasMore_def state_init_def ArrayIterator_hasMore_def)
  qed
qed simp

lemma iterate_fresh:
  assumes "array_iterator it" "it_state it = None"
    and "it_state_new it arg = Inr (s, arg')" "ArrayIterator_new (Oec_AList_toArray xs) = Inr s"
  shows "\<exists>it'. iterate (Suc (length xs)) it arg = Inr (Some (map Some xs, it', arg')) \<and>
      it_state it' = Some \<lparr>ai_pos = DONE, ai_darray = Oec_AList_toArray xs\<rparr> \<and> array_iterator it'"
proof (cases xs)
  case Nil
  then have "s = \<lparr>ai_pos = DONE, ai_darray = Oec_AList_toArray xs\<rparr>"
    using assms(4) by (simp add: ArrayIterator_new_def array_read_def Oec_AList_toArray_def)
  then show ?thesis using assms Nil
    by (simp add: Iterator_hasMore_def state_init_def array_iterator_def ArrayIterator_hasMore_def)
next
  case (Cons y ys)
  then have s: "s = \<lparr>ai_pos = int 0, ai_darray = Oec_AList_toArray xs\<rparr>"
    using assms(4) by (simp add: ArrayIterator_new_def array_read_def Oec_AList_toArray_def)
  have "iterate (Suc (length xs)) it arg = iterate (Suc (length xs)) (it\<lparr>it_state := Some s\<rparr>) arg'"
    using assms(2,3) by (simp add: Iterator_hasMore_def state_init_def)
  then show ?thesis
    using iterate_from [OF assms(1), of 0 xs "Suc (length xs)" arg'] s Cons by auto
qed

lemma ArrayIterator_new_toArray: "\<exists>s. ArrayIterator_new (Oec_AList_toArray xs) = Inr s"
  by (simp add: ArrayIterator_new_def array_read_def Oec_AList_toArray_def)

text \<open>What iterating leaves behind: with an arena the array is cached.\<close>

definition cached :: "bool \<Rightarrow> DataObject \<Rightarrow> DataObject" where
  "cached wa d = (if wa then d\<lparr>array_cache := Some (Oec_AList_toArray (strings d))\<rparr> else d)"

lemma iterate_dataobject:
  assumes ok: "dataobject_ok d"
  shows "\<exists>it d'. iterate (Suc (DataObject_get_nattrs d)) (DataObject_iterator wa) d =
      Inr (Some (map Some (strings d), it, d')) \<and> d' = cached wa d \<and>
    dataobject_ok d' \<and> strings d' = strings d \<and> bytes d' = bytes d \<and> nbytes d' = nbytes d \<and>
    Iterator_hasMore it d' = Inr (False, it, d') \<and> Iterator_next it d' = Inr (None, it, d') \<and>
    Iterator_free (Some it) = Inr ()"
proof -
  let ?it = "DataObject_iterator wa"
  obtain s where s: "ArrayIterator_new (Oec_AList_toArray (strings d)) = Inr s"
    using ArrayIterator_new_toArray by blast
  define d' where "d' = cached wa d"
  have new: "it_state_new ?it d = Inr (s, d')"
    using s ok by (auto simp: DataObject_iterator_def Iterator_new_def dotoArrayIterator_def d'_def cached_def
        dotoArrayIterator_no_arena_def dataobject_ok_def Let_def split: option.splits)
  have it: "array_iterator ?it" "it_state ?it = None"
    by (simp_all add: array_iterator_def DataObject_iterator_def Iterator_new_def)
  from iterate_fresh [OF it new s] obtain it' where
    it': "iterate (Suc (length (strings d))) ?it d = Inr (Some (map Some (strings d), it', d'))"
      "it_state it' = Some \<lparr>ai_pos = DONE, ai_darray = Oec_AList_toArray (strings d)\<rparr>"
      "array_iterator it'" by blast
  have "dataobject_ok d'" "strings d' = strings d" "bytes d' = bytes d" "nbytes d' = nbytes d"
    using ok by (auto simp: d'_def cached_def dataobject_ok_def)
  moreover have "Iterator_hasMore it' d' = Inr (False, it', d')" "Iterator_next it' d' = Inr (None, it', d')"
    "Iterator_free (Some it') = Inr ()"
    using it'(2,3) by (auto simp: Iterator_hasMore_def Iterator_next_def Iterator_free_def state_init_def
        array_iterator_def ArrayIterator_hasMore_def ArrayIterator_next_def ArrayIterator_free_def)
  ultimately show ?thesis using it'(1) d'_def by (auto simp: DataObject_get_nattrs_def)
qed

section \<open>Properties\<close>

text \<open>iterating a data object.  For a well-formed data object the consumer loop over
  \<^verbatim>\<open>DataObject_iterator\<close>, with or without arena, ends, yields every attribute exactly once and in
  order, and never reads outside the array; afterwards the object is well formed with its
  attributes and content unchanged, \<^verbatim>\<open>Iterator_hasMore\<close> stays false, \<^verbatim>\<open>Iterator_next\<close> gives NULL, and
  the iterator can be freed.\<close>

theorem DataObject_iteration:
  assumes ok: "dataobject_ok d"
  shows "\<exists>it d'. iterate (Suc (DataObject_get_nattrs d)) (DataObject_iterator wa) d =
      Inr (Some (map Some (strings d), it, d')) \<and>
    dataobject_ok d' \<and> strings d' = strings d \<and> bytes d' = bytes d \<and> nbytes d' = nbytes d \<and>
    Iterator_hasMore it d' = Inr (False, it, d') \<and> Iterator_next it d' = Inr (None, it, d') \<and>
    Iterator_free (Some it) = Inr ()"
  using iterate_dataobject [OF ok] by blast

definition two_attrs :: DataObject where
  "two_attrs = DataObject_new\<lparr>strings := [''name'', ''ed'']\<rparr>"

theorem DataObject_iteration_witness:
  "\<exists>it d'. iterate 3 (DataObject_iterator True) two_attrs =
     Inr (Some ([Some ''name'', Some ''ed''], it, d')) \<and> Iterator_free (Some it) = Inr ()"
proof -
  have "dataobject_ok two_attrs" by (simp add: two_attrs_def dataobject_ok_def DataObject_new_def)
  from DataObject_iteration [OF this, of True] show ?thesis
    by (auto simp: two_attrs_def DataObject_get_nattrs_def DataObject_new_def numeral_3_eq_3)
qed

text \<open>freeing an iterator that was never used.  The array state of an iterator without arena is
  built by the first \<^verbatim>\<open>hasMore\<close> or \<^verbatim>\<open>next\<close>; \<^verbatim>\<open>Iterator_free\<close> releases it unconditionally, so freeing an
  iterator before its first use fails the assertion in \<^verbatim>\<open>ArrayIterator_free\<close>.\<close>

theorem Iterator_free_unused:
  "Iterator_free (Some (DataObject_iterator False)) = Inl Assert_Failed \<and>
   Iterator_free (Some (DataObjectList_iterator False)) = Inl Assert_Failed"
  by (simp add: Iterator_free_def DataObject_iterator_def DataObjectList_iterator_def Iterator_new_def
      ArrayIterator_free_def)

end
