(* ===== verification/Messages.thy ===== *)
theory Messages
  imports Containers
begin

text \<open>
  The protocol messages: one record per command and response of \<^verbatim>\<open>corelib/*Cmd.c\<close>,
  \<^verbatim>\<open>corelib/*Res.c\<close> and \<^verbatim>\<open>corelib/OekErr.c\<close> with the accessors the code has, and the tagged envelope
  of \<^verbatim>\<open>corelib/OekMsg.c\<close>.  Constructors give the zero-filled block \<^verbatim>\<open>Arena_calloc\<close> returns; a NULL
  pointer field is \<^const>\<open>None\<close>; \<^verbatim>\<open>size_t\<close> values are 64-bit words.
\<close>

type_synonym oe_dur = oe_time
type_synonym size_t = "64 word"

section \<open>Get command\<close>

definition OE_GET_CMD_TUPLE :: oe_flags where
  "OE_GET_CMD_TUPLE = 1"

definition OE_GET_CMD_IFEXISTS :: oe_flags where
  "OE_GET_CMD_IFEXISTS = 2"

definition OE_GET_CMD_DESTROY :: oe_flags where
  "OE_GET_CMD_DESTROY = 4"

definition OE_GET_CMD_JOIN :: oe_flags where
  "OE_GET_CMD_JOIN = 8"

definition OE_GET_CMD_RET_ATTRS :: oe_flags where
  "OE_GET_CMD_RET_ATTRS = 16"

definition OE_GET_CMD_RET_BYTES :: oe_flags where
  "OE_GET_CMD_RET_BYTES = 32"

record GetCmd =
  gc_timeout :: oe_dur
  gc_max_responses :: size_t
  gc_flags :: oe_flags
  gc_value_lists :: "DataObjectList option"

definition GetCmd_new :: GetCmd where
  "GetCmd_new = \<lparr>gc_timeout = 0, gc_max_responses = 0, gc_flags = 0, gc_value_lists = None\<rparr>"

definition get_value_lists :: "GetCmd \<Rightarrow> DataObjectList \<times> GetCmd" where
  "get_value_lists m =
     (case gc_value_lists m of
        Some l \<Rightarrow> (l, m)
      | None \<Rightarrow> (DataObjectList_new, m\<lparr>gc_value_lists := Some DataObjectList_new\<rparr>))"

definition GetCmd_set_timeout :: "GetCmd \<Rightarrow> oe_dur \<Rightarrow> GetCmd" where
  "GetCmd_set_timeout m v = m\<lparr>gc_timeout := v\<rparr>"

definition GetCmd_get_timeout :: "GetCmd \<Rightarrow> oe_dur" where
  "GetCmd_get_timeout m = gc_timeout m"

definition GetCmd_set_join :: "GetCmd \<Rightarrow> GetCmd" where
  "GetCmd_set_join m =
     (let m1 = m\<lparr>gc_max_responses := 0\<rparr>
      in m1\<lparr>gc_flags := OEC_FLAG_SET (gc_flags m1) OE_GET_CMD_JOIN\<rparr>)"

definition join_is_set :: "GetCmd \<Rightarrow> bool" where
  "join_is_set m = OEC_FLAG_ISSET (gc_flags m) OE_GET_CMD_JOIN"

text \<open>The list of templates is created on the way when the join flag is set.\<close>

definition GetCmd_get_join :: "GetCmd \<Rightarrow> bool \<times> GetCmd" where
  "GetCmd_get_join m =
     (if join_is_set m
      then let (l, m') = get_value_lists m in (DataObjectList_length l > 1, m')
      else (False, m))"

definition GetCmd_set_max_responses :: "GetCmd \<Rightarrow> size_t \<Rightarrow> GetCmd c_result" where
  "GetCmd_set_max_responses m maxr =
     (if maxr \<noteq> 0 \<and> join_is_set m then Inl Assert_Failed else Inr (m\<lparr>gc_max_responses := maxr\<rparr>))"

definition GetCmd_get_max_responses :: "GetCmd \<Rightarrow> size_t" where
  "GetCmd_get_max_responses m = gc_max_responses m"

definition GetCmd_set_ifexists_option :: "GetCmd \<Rightarrow> GetCmd" where
  "GetCmd_set_ifexists_option m = m\<lparr>gc_flags := OEC_FLAG_SET (gc_flags m) OE_GET_CMD_IFEXISTS\<rparr>"

definition GetCmd_ifexists :: "GetCmd \<Rightarrow> bool" where
  "GetCmd_ifexists m = OEC_FLAG_ISSET (gc_flags m) OE_GET_CMD_IFEXISTS"

definition GetCmd_set_remove_option :: "GetCmd \<Rightarrow> GetCmd" where
  "GetCmd_set_remove_option m = m\<lparr>gc_flags := OEC_FLAG_SET (gc_flags m) OE_GET_CMD_DESTROY\<rparr>"

definition GetCmd_remove :: "GetCmd \<Rightarrow> bool" where
  "GetCmd_remove m = OEC_FLAG_ISSET (gc_flags m) OE_GET_CMD_DESTROY"

definition GetCmd_set_tuple :: "GetCmd \<Rightarrow> GetCmd" where
  "GetCmd_set_tuple m = m\<lparr>gc_flags := OEC_FLAG_SET (gc_flags m) OE_GET_CMD_TUPLE\<rparr>"

definition GetCmd_is_tuple :: "GetCmd \<Rightarrow> bool" where
  "GetCmd_is_tuple m = OEC_FLAG_ISSET (gc_flags m) OE_GET_CMD_TUPLE"

definition GetCmd_set_return_bytes :: "GetCmd \<Rightarrow> bool \<Rightarrow> GetCmd" where
  "GetCmd_set_return_bytes m option =
     (if option then m\<lparr>gc_flags := OEC_FLAG_SET (gc_flags m) OE_GET_CMD_RET_BYTES\<rparr>
      else m\<lparr>gc_flags := OEC_FLAG_CLEAR (gc_flags m) OE_GET_CMD_RET_BYTES\<rparr>)"

definition GetCmd_return_bytes :: "GetCmd \<Rightarrow> bool" where
  "GetCmd_return_bytes m = OEC_FLAG_ISSET (gc_flags m) OE_GET_CMD_RET_BYTES"

definition GetCmd_set_return_attrs :: "GetCmd \<Rightarrow> bool \<Rightarrow> GetCmd" where
  "GetCmd_set_return_attrs m option =
     (if option then m\<lparr>gc_flags := OEC_FLAG_SET (gc_flags m) OE_GET_CMD_RET_ATTRS\<rparr>
      else m\<lparr>gc_flags := OEC_FLAG_CLEAR (gc_flags m) OE_GET_CMD_RET_ATTRS\<rparr>)"

definition GetCmd_return_attrs :: "GetCmd \<Rightarrow> bool" where
  "GetCmd_return_attrs m = OEC_FLAG_ISSET (gc_flags m) OE_GET_CMD_RET_ATTRS"

definition GetCmd_get_data_objects :: "GetCmd \<Rightarrow> DataObjectList \<times> GetCmd" where
  "GetCmd_get_data_objects m = get_value_lists m"

definition GetCmd_new_data_object :: "GetCmd \<Rightarrow> nat \<times> GetCmd" where
  "GetCmd_new_data_object m =
     (let (l, m1) = get_value_lists m; (i, l') = DataObjectList_new_data_object l
      in (i, m1\<lparr>gc_value_lists := Some l'\<rparr>))"

definition GetCmd_set_data_objects :: "GetCmd \<Rightarrow> DataObjectList option \<Rightarrow> GetCmd c_result" where
  "GetCmd_set_data_objects m value_lists =
     (if gc_value_lists m \<noteq> None \<or> value_lists = None then Inl Assert_Failed
      else Inr (m\<lparr>gc_value_lists := value_lists\<rparr>))"

section \<open>Get response\<close>

definition TUPLE :: oe_flags where
  "TUPLE = 1"

definition DESTROYED :: oe_flags where
  "DESTROYED = 2"

definition RET_ATTRS :: oe_flags where
  "RET_ATTRS = 4"

definition RET_BYTES :: oe_flags where
  "RET_BYTES = 8"

record GetRes =
  gr_nresults :: size_t
  gr_flags :: oe_flags
  gr_data :: "DataObject option"

definition GetRes_new :: GetRes where
  "GetRes_new = \<lparr>gr_nresults = 0, gr_flags = 0, gr_data = None\<rparr>"

definition GetRes_set_nresults :: "GetRes \<Rightarrow> size_t \<Rightarrow> GetRes" where
  "GetRes_set_nresults m v = m\<lparr>gr_nresults := v\<rparr>"

definition GetRes_get_nresults :: "GetRes \<Rightarrow> size_t" where
  "GetRes_get_nresults m = gr_nresults m"

definition GetRes_get_data :: "GetRes \<Rightarrow> DataObject \<times> GetRes" where
  "GetRes_get_data m =
     (case gr_data m of
        Some d \<Rightarrow> (d, m)
      | None \<Rightarrow> (DataObject_new, m\<lparr>gr_data := Some DataObject_new\<rparr>))"

definition GetRes_set_data :: "GetRes \<Rightarrow> DataObject option \<Rightarrow> GetRes" where
  "GetRes_set_data m v = m\<lparr>gr_data := v\<rparr>"

definition GetRes_set_destroyed :: "GetRes \<Rightarrow> GetRes" where
  "GetRes_set_destroyed m = m\<lparr>gr_flags := OEC_FLAG_SET (gr_flags m) DESTROYED\<rparr>"

definition GetRes_is_destroyed :: "GetRes \<Rightarrow> bool" where
  "GetRes_is_destroyed m = OEC_FLAG_ISSET (gr_flags m) DESTROYED"

definition GetRes_set_tuple :: "GetRes \<Rightarrow> GetRes" where
  "GetRes_set_tuple m = m\<lparr>gr_flags := OEC_FLAG_SET (gr_flags m) TUPLE\<rparr>"

definition GetRes_is_tuple :: "GetRes \<Rightarrow> bool" where
  "GetRes_is_tuple m = OEC_FLAG_ISSET (gr_flags m) TUPLE"

definition GetRes_set_return_bytes :: "GetRes \<Rightarrow> GetRes" where
  "GetRes_set_return_bytes m = m\<lparr>gr_flags := OEC_FLAG_SET (gr_flags m) RET_BYTES\<rparr>"

definition GetRes_return_bytes :: "GetRes \<Rightarrow> bool" where
  "GetRes_return_bytes m = OEC_FLAG_ISSET (gr_flags m) RET_BYTES"

definition GetRes_set_return_attrs :: "GetRes \<Rightarrow> GetRes" where
  "GetRes_set_return_attrs m = m\<lparr>gr_flags := OEC_FLAG_SET (gr_flags m) RET_ATTRS\<rparr>"

definition GetRes_return_attrs :: "GetRes \<Rightarrow> bool" where
  "GetRes_return_attrs m = OEC_FLAG_ISSET (gr_flags m) RET_ATTRS"

section \<open>Put command and response\<close>

record PutCmd =
  pc_duration :: oe_dur
  pc_is_tuple :: bool
  pc_data :: "DataObject option"

definition PutCmd_new :: PutCmd where
  "PutCmd_new = \<lparr>pc_duration = 0, pc_is_tuple = False, pc_data = None\<rparr>"

definition PutCmd_set_tuple :: "PutCmd \<Rightarrow> PutCmd" where
  "PutCmd_set_tuple m = m\<lparr>pc_is_tuple := True\<rparr>"

definition PutCmd_is_tuple :: "PutCmd \<Rightarrow> bool" where
  "PutCmd_is_tuple m = pc_is_tuple m"

definition PutCmd_set_dur :: "PutCmd \<Rightarrow> oe_dur \<Rightarrow> PutCmd" where
  "PutCmd_set_dur m v = m\<lparr>pc_duration := v\<rparr>"

definition PutCmd_get_dur :: "PutCmd \<Rightarrow> oe_dur" where
  "PutCmd_get_dur m = pc_duration m"

definition PutCmd_get_data :: "PutCmd \<Rightarrow> DataObject \<times> PutCmd" where
  "PutCmd_get_data m =
     (case pc_data m of
        Some d \<Rightarrow> (d, m)
      | None \<Rightarrow> (DataObject_new, m\<lparr>pc_data := Some DataObject_new\<rparr>))"

definition PutCmd_set_data :: "PutCmd \<Rightarrow> DataObject option \<Rightarrow> PutCmd" where
  "PutCmd_set_data m v = m\<lparr>pc_data := v\<rparr>"

record PutRes =
  pr_lease_id :: oe_id

definition PutRes_new :: PutRes where
  "PutRes_new = \<lparr>pr_lease_id = 0\<rparr>"

definition PutRes_set_lease_id :: "PutRes \<Rightarrow> oe_id \<Rightarrow> PutRes" where
  "PutRes_set_lease_id m v = m\<lparr>pr_lease_id := v\<rparr>"

definition PutRes_get_lease_id :: "PutRes \<Rightarrow> oe_id" where
  "PutRes_get_lease_id m = pr_lease_id m"

section \<open>Connect and disconnect\<close>

definition OE_ROLLBACK_ON_DISCONNECT :: oe_flags where
  "OE_ROLLBACK_ON_DISCONNECT = 1"

record ConCmd =
  cc_major :: size_t
  cc_minor :: size_t
  cc_update :: size_t
  cc_extentname :: "oe_scalar option"
  cc_username :: "oe_scalar option"
  cc_password :: "oe_scalar option"
  cc_flags :: oe_flags

definition ConCmd_new :: ConCmd where
  "ConCmd_new = \<lparr>cc_major = 0, cc_minor = 0, cc_update = 0, cc_extentname = None, cc_username = None, cc_password = None, cc_flags = 0\<rparr>"

definition ConCmd_set_rollback_on_disconnect :: "ConCmd \<Rightarrow> ConCmd" where
  "ConCmd_set_rollback_on_disconnect m = m\<lparr>cc_flags := OEC_FLAG_SET (cc_flags m) OE_ROLLBACK_ON_DISCONNECT\<rparr>"

definition ConCmd_rollback_on_disconnect :: "ConCmd \<Rightarrow> bool" where
  "ConCmd_rollback_on_disconnect m = OEC_FLAG_ISSET (cc_flags m) OE_ROLLBACK_ON_DISCONNECT"

definition ConCmd_set_version_maj :: "ConCmd \<Rightarrow> size_t \<Rightarrow> ConCmd" where
  "ConCmd_set_version_maj m v = m\<lparr>cc_major := v\<rparr>"

definition ConCmd_get_version_maj :: "ConCmd \<Rightarrow> size_t" where
  "ConCmd_get_version_maj m = cc_major m"

definition ConCmd_set_version_min :: "ConCmd \<Rightarrow> size_t \<Rightarrow> ConCmd" where
  "ConCmd_set_version_min m v = m\<lparr>cc_minor := v\<rparr>"

definition ConCmd_get_version_min :: "ConCmd \<Rightarrow> size_t" where
  "ConCmd_get_version_min m = cc_minor m"

definition ConCmd_set_version_upt :: "ConCmd \<Rightarrow> size_t \<Rightarrow> ConCmd" where
  "ConCmd_set_version_upt m v = m\<lparr>cc_update := v\<rparr>"

definition ConCmd_get_version_upt :: "ConCmd \<Rightarrow> size_t" where
  "ConCmd_get_version_upt m = cc_update m"

definition ConCmd_set_extentname :: "ConCmd \<Rightarrow> oe_scalar option \<Rightarrow> ConCmd" where
  "ConCmd_set_extentname m v = m\<lparr>cc_extentname := v\<rparr>"

definition ConCmd_get_extentname :: "ConCmd \<Rightarrow> oe_scalar option" where
  "ConCmd_get_extentname m = cc_extentname m"

definition ConCmd_set_username :: "ConCmd \<Rightarrow> oe_scalar option \<Rightarrow> ConCmd" where
  "ConCmd_set_username m v = m\<lparr>cc_username := v\<rparr>"

definition ConCmd_get_username :: "ConCmd \<Rightarrow> oe_scalar option" where
  "ConCmd_get_username m = cc_username m"

definition ConCmd_set_pwd :: "ConCmd \<Rightarrow> oe_scalar option \<Rightarrow> ConCmd" where
  "ConCmd_set_pwd m v = m\<lparr>cc_password := v\<rparr>"

definition ConCmd_get_pwd :: "ConCmd \<Rightarrow> oe_scalar option" where
  "ConCmd_get_pwd m = cc_password m"

record ConRes =
  cr_major :: size_t
  cr_minor :: size_t
  cr_update :: size_t
  cr_extentname :: "oe_scalar option"
  cr_session_id :: oe_id

definition ConRes_new :: ConRes where
  "ConRes_new = \<lparr>cr_major = 0, cr_minor = 0, cr_update = 0, cr_extentname = None, cr_session_id = 0\<rparr>"

definition ConRes_set_version_maj :: "ConRes \<Rightarrow> size_t \<Rightarrow> ConRes" where
  "ConRes_set_version_maj m v = m\<lparr>cr_major := v\<rparr>"

definition ConRes_get_version_maj :: "ConRes \<Rightarrow> size_t" where
  "ConRes_get_version_maj m = cr_major m"

definition ConRes_set_version_min :: "ConRes \<Rightarrow> size_t \<Rightarrow> ConRes" where
  "ConRes_set_version_min m v = m\<lparr>cr_minor := v\<rparr>"

definition ConRes_get_version_min :: "ConRes \<Rightarrow> size_t" where
  "ConRes_get_version_min m = cr_minor m"

definition ConRes_set_version_upt :: "ConRes \<Rightarrow> size_t \<Rightarrow> ConRes" where
  "ConRes_set_version_upt m v = m\<lparr>cr_update := v\<rparr>"

definition ConRes_get_version_upt :: "ConRes \<Rightarrow> size_t" where
  "ConRes_get_version_upt m = cr_update m"

definition ConRes_set_extentname :: "ConRes \<Rightarrow> oe_scalar option \<Rightarrow> ConRes" where
  "ConRes_set_extentname m v = m\<lparr>cr_extentname := v\<rparr>"

definition ConRes_get_extentname :: "ConRes \<Rightarrow> oe_scalar option" where
  "ConRes_get_extentname m = cr_extentname m"

definition ConRes_set_sid :: "ConRes \<Rightarrow> oe_id \<Rightarrow> ConRes" where
  "ConRes_set_sid m v = m\<lparr>cr_session_id := v\<rparr>"

definition ConRes_get_sid :: "ConRes \<Rightarrow> oe_id" where
  "ConRes_get_sid m = cr_session_id m"

record DisCmd =
  dc_msg :: "oe_scalar option"

definition DisCmd_new :: DisCmd where
  "DisCmd_new = \<lparr>dc_msg = None\<rparr>"

section \<open>Transactions and leases\<close>

definition OETXN_ACTIVE :: char where
  "OETXN_ACTIVE = CHR ''A''"

definition OETXN_ROLLEDBACK :: char where
  "OETXN_ROLLEDBACK = CHR ''R''"

definition OETXN_COMMITTED :: char where
  "OETXN_COMMITTED = CHR ''C''"

record UptCmd =
  uc_duration :: oe_dur
  uc_enlisted :: "32 word"
  uc_status :: char

definition UptCmd_new :: UptCmd where
  "UptCmd_new = \<lparr>uc_duration = 0, uc_enlisted = 0, uc_status = NUL\<rparr>"

definition UptCmd_set_dur :: "UptCmd \<Rightarrow> oe_dur \<Rightarrow> UptCmd" where
  "UptCmd_set_dur m v = m\<lparr>uc_duration := v\<rparr>"

definition UptCmd_get_dur :: "UptCmd \<Rightarrow> oe_dur" where
  "UptCmd_get_dur m = uc_duration m"

definition UptCmd_set_status :: "UptCmd \<Rightarrow> char \<Rightarrow> UptCmd" where
  "UptCmd_set_status m v = m\<lparr>uc_status := v\<rparr>"

definition UptCmd_get_status :: "UptCmd \<Rightarrow> char" where
  "UptCmd_get_status m = uc_status m"

definition UptCmd_set_enlisted :: "UptCmd \<Rightarrow> 32 word \<Rightarrow> UptCmd" where
  "UptCmd_set_enlisted m v = m\<lparr>uc_enlisted := v\<rparr>"

definition UptCmd_get_enlisted :: "UptCmd \<Rightarrow> 32 word" where
  "UptCmd_get_enlisted m = uc_enlisted m"

record UptRes =
  ur_status :: char

definition UptRes_new :: UptRes where
  "UptRes_new = \<lparr>ur_status = NUL\<rparr>"

definition UptRes_set_status :: "UptRes \<Rightarrow> char \<Rightarrow> UptRes" where
  "UptRes_set_status m v = m\<lparr>ur_status := v\<rparr>"

definition UptRes_get_status :: "UptRes \<Rightarrow> char" where
  "UptRes_get_status m = (if ur_status m = NUL then OETXN_ACTIVE else ur_status m)"

record UplCmd =
  lc_lease_id :: oe_id
  lc_duration :: oe_dur

definition UplCmd_new :: UplCmd where
  "UplCmd_new = \<lparr>lc_lease_id = 0, lc_duration = 0\<rparr>"

definition UplCmd_set_lid :: "UplCmd \<Rightarrow> oe_id \<Rightarrow> UplCmd" where
  "UplCmd_set_lid m v = m\<lparr>lc_lease_id := v\<rparr>"

definition UplCmd_get_lid :: "UplCmd \<Rightarrow> oe_id" where
  "UplCmd_get_lid m = lc_lease_id m"

definition UplCmd_set_dur :: "UplCmd \<Rightarrow> oe_dur \<Rightarrow> UplCmd" where
  "UplCmd_set_dur m v = m\<lparr>lc_duration := v\<rparr>"

definition UplCmd_get_dur :: "UplCmd \<Rightarrow> oe_dur" where
  "UplCmd_get_dur m = lc_duration m"

record UplRes =
  lr_expiretime :: oe_time

definition UplRes_new :: UplRes where
  "UplRes_new = \<lparr>lr_expiretime = 0\<rparr>"

definition UplRes_set_expiretime :: "UplRes \<Rightarrow> oe_time \<Rightarrow> UplRes" where
  "UplRes_set_expiretime m v = m\<lparr>lr_expiretime := v\<rparr>"

definition UplRes_get_expiretime :: "UplRes \<Rightarrow> oe_time" where
  "UplRes_get_expiretime m = lr_expiretime m"

record StaCmd =
  sc_duration :: oe_dur
  sc_rollback_on_disconnect :: bool

definition StaCmd_new :: StaCmd where
  "StaCmd_new = \<lparr>sc_duration = 0, sc_rollback_on_disconnect = False\<rparr>"

definition StaCmd_set_dur :: "StaCmd \<Rightarrow> oe_dur \<Rightarrow> StaCmd" where
  "StaCmd_set_dur m v = m\<lparr>sc_duration := v\<rparr>"

definition StaCmd_get_dur :: "StaCmd \<Rightarrow> oe_dur" where
  "StaCmd_get_dur m = sc_duration m"

record StaRes =
  sr_dummy :: "32 word"

definition StaRes_new :: StaRes where
  "StaRes_new = \<lparr>sr_dummy = 0\<rparr>"

section \<open>Errors\<close>

record OekErr =
  er_type :: oe_id
  er_emessage :: "oe_scalar option"

definition OekErr_new :: OekErr where
  "OekErr_new = \<lparr>er_type = 0, er_emessage = None\<rparr>"

definition OekErr_set_type :: "OekErr \<Rightarrow> oe_id \<Rightarrow> OekErr" where
  "OekErr_set_type m v = m\<lparr>er_type := v\<rparr>"

definition OekErr_get_type :: "OekErr \<Rightarrow> oe_id" where
  "OekErr_get_type m = er_type m"

definition OekErr_set_message :: "OekErr \<Rightarrow> oe_scalar option \<Rightarrow> OekErr" where
  "OekErr_set_message m v = m\<lparr>er_emessage := v\<rparr>"

definition OekErr_get_message :: "OekErr \<Rightarrow> oe_scalar option" where
  "OekErr_get_message m = er_emessage m"

section \<open>The message envelope\<close>

datatype OEK_MSG_TYPE =
    OEK_NON | OEK_ERR | CON_CMD | DIS_CMD | CON_RES | STA_CMD | STA_RES | UPT_CMD
  | UPT_RES | UPL_CMD | UPL_RES | PUT_CMD | PUT_RES | GET_CMD | GET_RES

text \<open>The union \<^verbatim>\<open>data\<close>, with the member last stored as constructor; a fresh envelope holds none.\<close>

datatype OekData =
    No_Data
  | D_err OekErr
  | D_con_cmd ConCmd
  | D_dis_cmd DisCmd
  | D_con_res ConRes
  | D_sta_cmd StaCmd
  | D_sta_res StaRes
  | D_upt_cmd UptCmd
  | D_upt_res UptRes
  | D_upl_cmd UplCmd
  | D_upl_res UplRes
  | D_get_cmd GetCmd
  | D_get_res GetRes
  | D_put_cmd PutCmd
  | D_put_res PutRes

record OekMsg =
  mtype :: OEK_MSG_TYPE
  cor_id :: oe_id
  txn_id :: oe_id
  valid :: bool
  data :: OekData

definition OekMsg_settype :: "OekMsg \<Rightarrow> OEK_MSG_TYPE \<Rightarrow> OekMsg c_result" where
  "OekMsg_settype m t =
     (let m1 = m\<lparr>mtype := t\<rparr> in
      case t of
        OEK_NON \<Rightarrow> Inl Assert_Failed
      | OEK_ERR \<Rightarrow> Inr (m1\<lparr>data := D_err OekErr_new\<rparr>)
      | CON_CMD \<Rightarrow> Inr (m1\<lparr>data := D_con_cmd ConCmd_new\<rparr>)
      | DIS_CMD \<Rightarrow> Inr (m1\<lparr>data := D_dis_cmd DisCmd_new\<rparr>)
      | CON_RES \<Rightarrow> Inr (m1\<lparr>data := D_con_res ConRes_new\<rparr>)
      | STA_CMD \<Rightarrow> Inr (m1\<lparr>data := D_sta_cmd StaCmd_new\<rparr>)
      | STA_RES \<Rightarrow> Inr (m1\<lparr>data := D_sta_res StaRes_new\<rparr>)
      | UPT_CMD \<Rightarrow> Inr (m1\<lparr>data := D_upt_cmd UptCmd_new\<rparr>)
      | UPT_RES \<Rightarrow> Inr (m1\<lparr>data := D_upt_res UptRes_new\<rparr>)
      | UPL_CMD \<Rightarrow> Inr (m1\<lparr>data := D_upl_cmd UplCmd_new\<rparr>)
      | UPL_RES \<Rightarrow> Inr (m1\<lparr>data := D_upl_res UplRes_new\<rparr>)
      | GET_CMD \<Rightarrow> Inr (m1\<lparr>data := D_get_cmd GetCmd_new\<rparr>)
      | GET_RES \<Rightarrow> Inr (m1\<lparr>data := D_get_res GetRes_new\<rparr>)
      | PUT_CMD \<Rightarrow> Inr (m1\<lparr>data := D_put_cmd PutCmd_new\<rparr>)
      | PUT_RES \<Rightarrow> Inr (m1\<lparr>data := D_put_res PutRes_new\<rparr>))"

definition OekMsg_new :: "OEK_MSG_TYPE \<Rightarrow> OekMsg c_result" where
  "OekMsg_new t =
     (let m = \<lparr>mtype = OEK_NON, cor_id = 0, txn_id = 0, valid = False, data = No_Data\<rparr> in
      if t \<noteq> OEK_NON
      then (case OekMsg_settype (m\<lparr>mtype := t\<rparr>) t of Inl e \<Rightarrow> Inl e | Inr m' \<Rightarrow> Inr (m'\<lparr>valid := True\<rparr>))
      else Inr (m\<lparr>valid := True\<rparr>))"

definition OekMsg_get_type :: "OekMsg \<Rightarrow> OEK_MSG_TYPE" where
  "OekMsg_get_type m = mtype m"

definition OekMsg_set_cid :: "OekMsg \<Rightarrow> oe_id \<Rightarrow> OekMsg" where
  "OekMsg_set_cid m v = m\<lparr>cor_id := v\<rparr>"

definition OekMsg_get_cid :: "OekMsg \<Rightarrow> oe_id" where
  "OekMsg_get_cid m = cor_id m"

definition OekMsg_set_tid :: "OekMsg \<Rightarrow> oe_id \<Rightarrow> OekMsg" where
  "OekMsg_set_tid m v = m\<lparr>txn_id := v\<rparr>"

definition OekMsg_get_tid :: "OekMsg \<Rightarrow> oe_id" where
  "OekMsg_get_tid m = txn_id m"

definition OekMsg_get_err :: "OekMsg \<Rightarrow> OekErr c_result" where
  "OekMsg_get_err m =
     (if mtype m \<noteq> OEK_ERR then Inl Assert_Failed
      else case data m of D_err d \<Rightarrow> Inr d | _ \<Rightarrow> Inl Wrong_Member)"

definition OekMsg_get_con_cmd :: "OekMsg \<Rightarrow> ConCmd c_result" where
  "OekMsg_get_con_cmd m =
     (if mtype m \<noteq> CON_CMD then Inl Assert_Failed
      else case data m of D_con_cmd d \<Rightarrow> Inr d | _ \<Rightarrow> Inl Wrong_Member)"

definition OekMsg_get_dis_cmd :: "OekMsg \<Rightarrow> DisCmd c_result" where
  "OekMsg_get_dis_cmd m =
     (if mtype m \<noteq> DIS_CMD then Inl Assert_Failed
      else case data m of D_dis_cmd d \<Rightarrow> Inr d | _ \<Rightarrow> Inl Wrong_Member)"

definition OekMsg_get_con_res :: "OekMsg \<Rightarrow> ConRes c_result" where
  "OekMsg_get_con_res m =
     (if mtype m \<noteq> CON_RES then Inl Assert_Failed
      else case data m of D_con_res d \<Rightarrow> Inr d | _ \<Rightarrow> Inl Wrong_Member)"

definition OekMsg_get_sta_cmd :: "OekMsg \<Rightarrow> StaCmd c_result" where
  "OekMsg_get_sta_cmd m =
     (if mtype m \<noteq> STA_CMD then Inl Assert_Failed
      else case data m of D_sta_cmd d \<Rightarrow> Inr d | _ \<Rightarrow> Inl Wrong_Member)"

definition OekMsg_get_sta_res :: "OekMsg \<Rightarrow> StaRes c_result" where
  "OekMsg_get_sta_res m =
     (if mtype m \<noteq> STA_RES then Inl Assert_Failed
      else case data m of D_sta_res d \<Rightarrow> Inr d | _ \<Rightarrow> Inl Wrong_Member)"

definition OekMsg_get_upt_cmd :: "OekMsg \<Rightarrow> UptCmd c_result" where
  "OekMsg_get_upt_cmd m =
     (if mtype m \<noteq> UPT_CMD then Inl Assert_Failed
      else case data m of D_upt_cmd d \<Rightarrow> Inr d | _ \<Rightarrow> Inl Wrong_Member)"

definition OekMsg_get_upt_res :: "OekMsg \<Rightarrow> UptRes c_result" where
  "OekMsg_get_upt_res m =
     (if mtype m \<noteq> UPT_RES then Inl Assert_Failed
      else case data m of D_upt_res d \<Rightarrow> Inr d | _ \<Rightarrow> Inl Wrong_Member)"

definition OekMsg_get_upl_cmd :: "OekMsg \<Rightarrow> UplCmd c_result" where
  "OekMsg_get_upl_cmd m =
     (if mtype m \<noteq> UPL_CMD then Inl Assert_Failed
      else case data m of D_upl_cmd d \<Rightarrow> Inr d | _ \<Rightarrow> Inl Wrong_Member)"

definition OekMsg_get_upl_res :: "OekMsg \<Rightarrow> UplRes c_result" where
  "OekMsg_get_upl_res m =
     (if mtype m \<noteq> UPL_RES then Inl Assert_Failed
      else case data m of D_upl_res d \<Rightarrow> Inr d | _ \<Rightarrow> Inl Wrong_Member)"

definition OekMsg_get_get_cmd :: "OekMsg \<Rightarrow> GetCmd c_result" where
  "OekMsg_get_get_cmd m =
     (if mtype m \<noteq> GET_CMD then Inl Assert_Failed
      else case data m of D_get_cmd d \<Rightarrow> Inr d | _ \<Rightarrow> Inl Wrong_Member)"

definition OekMsg_get_get_res :: "OekMsg \<Rightarrow> GetRes c_result" where
  "OekMsg_get_get_res m =
     (if mtype m \<noteq> GET_RES then Inl Assert_Failed
      else case data m of D_get_res d \<Rightarrow> Inr d | _ \<Rightarrow> Inl Wrong_Member)"

definition OekMsg_get_put_cmd :: "OekMsg \<Rightarrow> PutCmd c_result" where
  "OekMsg_get_put_cmd m =
     (if mtype m \<noteq> PUT_CMD then Inl Assert_Failed
      else case data m of D_put_cmd d \<Rightarrow> Inr d | _ \<Rightarrow> Inl Wrong_Member)"

definition OekMsg_get_put_res :: "OekMsg \<Rightarrow> PutRes c_result" where
  "OekMsg_get_put_res m =
     (if mtype m \<noteq> PUT_RES then Inl Assert_Failed
      else case data m of D_put_res d \<Rightarrow> Inr d | _ \<Rightarrow> Inl Wrong_Member)"

text \<open>Which member a message type stands for.\<close>

fun tag_of :: "OekData \<Rightarrow> OEK_MSG_TYPE" where
  "tag_of No_Data = OEK_NON"
| "tag_of (D_err d) = OEK_ERR"
| "tag_of (D_con_cmd d) = CON_CMD"
| "tag_of (D_dis_cmd d) = DIS_CMD"
| "tag_of (D_con_res d) = CON_RES"
| "tag_of (D_sta_cmd d) = STA_CMD"
| "tag_of (D_sta_res d) = STA_RES"
| "tag_of (D_upt_cmd d) = UPT_CMD"
| "tag_of (D_upt_res d) = UPT_RES"
| "tag_of (D_upl_cmd d) = UPL_CMD"
| "tag_of (D_upl_res d) = UPL_RES"
| "tag_of (D_get_cmd d) = GET_CMD"
| "tag_of (D_get_res d) = GET_RES"
| "tag_of (D_put_cmd d) = PUT_CMD"
| "tag_of (D_put_res d) = PUT_RES"

definition oekmsg_ok :: "OekMsg \<Rightarrow> bool" where
  "oekmsg_ok m = (mtype m = tag_of (data m))"

text \<open>The types whose accessor returns on a message, read off the fourteen accessors.\<close>

definition readable :: "OekMsg \<Rightarrow> OEK_MSG_TYPE list" where
  "readable m =
     concat [if isl (OekMsg_get_err m) then [] else [OEK_ERR],
       if isl (OekMsg_get_con_cmd m) then [] else [CON_CMD],
       if isl (OekMsg_get_dis_cmd m) then [] else [DIS_CMD],
       if isl (OekMsg_get_con_res m) then [] else [CON_RES],
       if isl (OekMsg_get_sta_cmd m) then [] else [STA_CMD],
       if isl (OekMsg_get_sta_res m) then [] else [STA_RES],
       if isl (OekMsg_get_upt_cmd m) then [] else [UPT_CMD],
       if isl (OekMsg_get_upt_res m) then [] else [UPT_RES],
       if isl (OekMsg_get_upl_cmd m) then [] else [UPL_CMD],
       if isl (OekMsg_get_upl_res m) then [] else [UPL_RES],
       if isl (OekMsg_get_get_cmd m) then [] else [GET_CMD],
       if isl (OekMsg_get_get_res m) then [] else [GET_RES],
       if isl (OekMsg_get_put_cmd m) then [] else [PUT_CMD],
       if isl (OekMsg_get_put_res m) then [] else [PUT_RES]]"

text \<open>The options of a get command as the six booleans its flag word stands for.\<close>

record get_options =
  o_tuple :: bool
  o_ifexists :: bool
  o_destroy :: bool
  o_join :: bool
  o_ret_attrs :: bool
  o_ret_bytes :: bool

definition gc_options :: "GetCmd \<Rightarrow> get_options" where
  "gc_options m = \<lparr>o_tuple = GetCmd_is_tuple m, o_ifexists = GetCmd_ifexists m,
     o_destroy = GetCmd_remove m, o_join = join_is_set m, o_ret_attrs = GetCmd_return_attrs m,
     o_ret_bytes = GetCmd_return_bytes m\<rparr>"

definition getcmd_ok :: "GetCmd \<Rightarrow> bool" where
  "getcmd_ok m = (join_is_set m \<longrightarrow> gc_max_responses m = 0)"

section \<open>Lemmas\<close>

lemma get_flags_exp:
  "OE_GET_CMD_TUPLE = 2 ^ 0" "OE_GET_CMD_IFEXISTS = 2 ^ 1" "OE_GET_CMD_DESTROY = 2 ^ 2"
  "OE_GET_CMD_JOIN = 2 ^ 3" "OE_GET_CMD_RET_ATTRS = 2 ^ 4" "OE_GET_CMD_RET_BYTES = 2 ^ 5"
  by (simp_all add: OE_GET_CMD_TUPLE_def OE_GET_CMD_IFEXISTS_def OE_GET_CMD_DESTROY_def
      OE_GET_CMD_JOIN_def OE_GET_CMD_RET_ATTRS_def OE_GET_CMD_RET_BYTES_def)

lemma get_option_bits:
  "GetCmd_is_tuple m = bit (gc_flags m) 0" "GetCmd_ifexists m = bit (gc_flags m) 1"
  "GetCmd_remove m = bit (gc_flags m) 2" "join_is_set m = bit (gc_flags m) 3"
  "GetCmd_return_attrs m = bit (gc_flags m) 4" "GetCmd_return_bytes m = bit (gc_flags m) 5"
  by (simp_all only: GetCmd_is_tuple_def GetCmd_ifexists_def GetCmd_remove_def join_is_set_def
      GetCmd_return_attrs_def GetCmd_return_bytes_def get_flags_exp FLAG_ISSET_exp)

lemma GetCmd_setters:
  "gc_flags (GetCmd_set_tuple m) = OEC_FLAG_SET (gc_flags m) (2 ^ 0)"
  "gc_flags (GetCmd_set_ifexists_option m) = OEC_FLAG_SET (gc_flags m) (2 ^ 1)"
  "gc_flags (GetCmd_set_remove_option m) = OEC_FLAG_SET (gc_flags m) (2 ^ 2)"
  "gc_flags (GetCmd_set_join m) = OEC_FLAG_SET (gc_flags m) (2 ^ 3)"
  "gc_flags (GetCmd_set_return_attrs m True) = OEC_FLAG_SET (gc_flags m) (2 ^ 4)"
  "gc_flags (GetCmd_set_return_attrs m False) = OEC_FLAG_CLEAR (gc_flags m) (2 ^ 4)"
  "gc_flags (GetCmd_set_return_bytes m True) = OEC_FLAG_SET (gc_flags m) (2 ^ 5)"
  "gc_flags (GetCmd_set_return_bytes m False) = OEC_FLAG_CLEAR (gc_flags m) (2 ^ 5)"
  "gc_flags GetCmd_new = 0"
  by (simp_all add: GetCmd_set_tuple_def GetCmd_set_ifexists_option_def GetCmd_set_remove_option_def
      GetCmd_set_join_def GetCmd_set_return_attrs_def GetCmd_set_return_bytes_def get_flags_exp
      GetCmd_new_def)

lemma flags_less_64: "(0 :: nat) < 64" "(1 :: nat) < 64" "(2 :: nat) < 64" "(3 :: nat) < 64" "(4 :: nat) < 64" "(5 :: nat) < 64"
  by simp_all

lemma flags_distinct:
  "(0 :: nat) \<noteq> 1" "(0 :: nat) \<noteq> 2" "(0 :: nat) \<noteq> 3" "(0 :: nat) \<noteq> 4" "(0 :: nat) \<noteq> 5"
  "(1 :: nat) \<noteq> 2" "(1 :: nat) \<noteq> 3" "(1 :: nat) \<noteq> 4" "(1 :: nat) \<noteq> 5"
  "(2 :: nat) \<noteq> 3" "(2 :: nat) \<noteq> 4" "(2 :: nat) \<noteq> 5" "(3 :: nat) \<noteq> 4" "(3 :: nat) \<noteq> 5" "(4 :: nat) \<noteq> 5"
  by simp_all

lemmas flag_rules = flag_exp flags_less_64 flags_distinct flags_distinct [symmetric] simp_thms

lemma gc_options_set:
  "gc_options (GetCmd_set_tuple m) = (gc_options m)\<lparr>o_tuple := True\<rparr>"
  "gc_options (GetCmd_set_ifexists_option m) = (gc_options m)\<lparr>o_ifexists := True\<rparr>"
  "gc_options (GetCmd_set_remove_option m) = (gc_options m)\<lparr>o_destroy := True\<rparr>"
  "gc_options (GetCmd_set_join m) = (gc_options m)\<lparr>o_join := True\<rparr>"
  "gc_options (GetCmd_set_return_attrs m True) = (gc_options m)\<lparr>o_ret_attrs := True\<rparr>"
  "gc_options (GetCmd_set_return_attrs m False) = (gc_options m)\<lparr>o_ret_attrs := False\<rparr>"
  "gc_options (GetCmd_set_return_bytes m True) = (gc_options m)\<lparr>o_ret_bytes := True\<rparr>"
  "gc_options (GetCmd_set_return_bytes m False) = (gc_options m)\<lparr>o_ret_bytes := False\<rparr>"
  by (simp_all only: gc_options_def get_option_bits GetCmd_setters get_options.simps flag_rules)

lemma OekMsg_new_spec:
  assumes "OekMsg_new t = Inr m"
  shows "mtype m = t" "oekmsg_ok m" "valid m" "cor_id m = 0" "txn_id m = 0"
  using assms
  by (cases t; auto simp: OekMsg_new_def OekMsg_settype_def oekmsg_ok_def Let_def split: if_splits)+

lemma OekMsg_new_ok: "\<exists>m. OekMsg_new t = Inr m"
  by (cases t) (simp_all add: OekMsg_new_def OekMsg_settype_def Let_def)

section \<open>Properties\<close>

text \<open>the flag word of a get command refines six independent booleans.  Setting an option
  changes that option and no other, and setting the join option also resets the response limit.\<close>

theorem GetCmd_options_refine:
  "gc_options (GetCmd_set_tuple m) = (gc_options m)\<lparr>o_tuple := True\<rparr> \<and>
   gc_options (GetCmd_set_ifexists_option m) = (gc_options m)\<lparr>o_ifexists := True\<rparr> \<and>
   gc_options (GetCmd_set_remove_option m) = (gc_options m)\<lparr>o_destroy := True\<rparr> \<and>
   gc_options (GetCmd_set_join m) = (gc_options m)\<lparr>o_join := True\<rparr> \<and>
   gc_options (GetCmd_set_return_attrs m b) = (gc_options m)\<lparr>o_ret_attrs := b\<rparr> \<and>
   gc_options (GetCmd_set_return_bytes m b) = (gc_options m)\<lparr>o_ret_bytes := b\<rparr> \<and>
   GetCmd_get_max_responses (GetCmd_set_join m) = 0 \<and>
   gc_options GetCmd_new = \<lparr>o_tuple = False, o_ifexists = False, o_destroy = False, o_join = False,
     o_ret_attrs = False, o_ret_bytes = False\<rparr>"
proof (intro conjI)
  have "gc_options GetCmd_new = \<lparr>o_tuple = bit (0 :: 64 word) 0, o_ifexists = bit (0 :: 64 word) 1,
      o_destroy = bit (0 :: 64 word) 2, o_join = bit (0 :: 64 word) 3,
      o_ret_attrs = bit (0 :: 64 word) 4, o_ret_bytes = bit (0 :: 64 word) 5\<rparr>"
    by (simp only: gc_options_def get_option_bits GetCmd_setters)
  then show "gc_options GetCmd_new = \<lparr>o_tuple = False, o_ifexists = False, o_destroy = False,
      o_join = False, o_ret_attrs = False, o_ret_bytes = False\<rparr>" by simp
  show "GetCmd_get_max_responses (GetCmd_set_join m) = 0"
    by (simp add: GetCmd_get_max_responses_def GetCmd_set_join_def)
qed (cases b; simp only: gc_options_set)+


end
