(* ===== verification/Store_Holder.thy ===== *)
theory Store_Holder
  imports Messages
begin

text \<open>
  The objects the store works on: the record kept in the database with its binary layout
  (\<^verbatim>\<open>corelib/OeStoreHolder.c\<close>), the query object (\<^verbatim>\<open>corelib/OeStoreQuery.c\<close>) and the table of operations
  a store implementation provides (\<^verbatim>\<open>corelib/OeStore.c\<close>).

  A buffer is its list of bytes; integers are stored little-endian at their width, \<^verbatim>\<open>bool\<close> in one
  byte.  The clock is an argument.
\<close>

section \<open>Store holders\<close>

text \<open>\<^verbatim>\<open>OESTORE_LOCK\<close> is an enumeration stored as an \<^verbatim>\<open>int\<close>.\<close>

type_synonym OESTORE_LOCK = "32 word"

definition OESTORE_UNLOCKED :: OESTORE_LOCK where
  "OESTORE_UNLOCKED = 0"

definition OESTORE_WRITE_LOCK :: OESTORE_LOCK where
  "OESTORE_WRITE_LOCK = 1"

definition OESTORE_TAKE_LOCK :: OESTORE_LOCK where
  "OESTORE_TAKE_LOCK = 2"

datatype OESTORE_SKIP_STATUS = OESTORE_DO_NOT_SKIP | OESTORE_SKIP | OESTORE_SKIP_BUT_EXISTS

record OeStoreHolder =
  sh_lock :: OESTORE_LOCK
  sh_is_tuple :: bool
  sh_lease_id :: oe_id
  sh_txn_id :: oe_id
  sh_lease_expire_time :: oe_time
  sh_data :: "DataObject option"

definition getdata :: "OeStoreHolder \<Rightarrow> DataObject \<times> OeStoreHolder" where
  "getdata h =
     (case sh_data h of
        Some d \<Rightarrow> (d, h)
      | None \<Rightarrow> (DataObject_new, h\<lparr>sh_data := Some DataObject_new\<rparr>))"

definition OeStoreHolder_new_with_data :: "DataObject option \<Rightarrow> OeStoreHolder" where
  "OeStoreHolder_new_with_data d = \<lparr>sh_lock = 0, sh_is_tuple = False, sh_lease_id = 0, sh_txn_id = 0,
     sh_lease_expire_time = 0, sh_data = d\<rparr>"

definition OeStoreHolder_new :: OeStoreHolder where
  "OeStoreHolder_new = OeStoreHolder_new_with_data None"

definition OeStoreHolder_set_tuple :: "OeStoreHolder \<Rightarrow> bool \<Rightarrow> OeStoreHolder" where
  "OeStoreHolder_set_tuple m v = m\<lparr>sh_is_tuple := v\<rparr>"

definition OeStoreHolder_is_tuple :: "OeStoreHolder \<Rightarrow> bool" where
  "OeStoreHolder_is_tuple m = sh_is_tuple m"

definition OeStoreHolder_set_lock :: "OeStoreHolder \<Rightarrow> OESTORE_LOCK \<Rightarrow> OeStoreHolder" where
  "OeStoreHolder_set_lock m v = m\<lparr>sh_lock := v\<rparr>"

definition OeStoreHolder_get_lock :: "OeStoreHolder \<Rightarrow> OESTORE_LOCK" where
  "OeStoreHolder_get_lock m = sh_lock m"

definition OeStoreHolder_set_txn_id :: "OeStoreHolder \<Rightarrow> oe_id \<Rightarrow> OeStoreHolder" where
  "OeStoreHolder_set_txn_id m v = m\<lparr>sh_txn_id := v\<rparr>"

definition OeStoreHolder_get_txn_id :: "OeStoreHolder \<Rightarrow> oe_id" where
  "OeStoreHolder_get_txn_id m = sh_txn_id m"

definition OeStoreHolder_set_lease_expire_time :: "OeStoreHolder \<Rightarrow> oe_time \<Rightarrow> OeStoreHolder" where
  "OeStoreHolder_set_lease_expire_time m v = m\<lparr>sh_lease_expire_time := v\<rparr>"

definition OeStoreHolder_get_lease_expire_time :: "OeStoreHolder \<Rightarrow> oe_time" where
  "OeStoreHolder_get_lease_expire_time m = sh_lease_expire_time m"

definition OeStoreHolder_set_lease_id :: "OeStoreHolder \<Rightarrow> oe_id \<Rightarrow> OeStoreHolder" where
  "OeStoreHolder_set_lease_id m v = m\<lparr>sh_lease_id := v\<rparr>"

definition OeStoreHolder_get_lease_id :: "OeStoreHolder \<Rightarrow> oe_id" where
  "OeStoreHolder_get_lease_id m = sh_lease_id m"

definition OeStoreHolder_get_data :: "OeStoreHolder \<Rightarrow> DataObject \<times> OeStoreHolder" where
  "OeStoreHolder_get_data h = getdata h"

definition OeStoreHolder_set_data :: "OeStoreHolder \<Rightarrow> DataObject option \<Rightarrow> OeStoreHolder" where
  "OeStoreHolder_set_data h d = h\<lparr>sh_data := d\<rparr>"

text \<open>Whether a query passes over a record: it does when the lease has run out (a lease of
  \<^const>\<open>OEC_FOREVER\<close> never does) or when another transaction holds it.\<close>

definition OeStoreHolder_skip :: "oe_time \<Rightarrow> OeStoreHolder \<Rightarrow> OESTORE_SKIP_STATUS" where
  "OeStoreHolder_skip now h =
     (let exptime = OeStoreHolder_get_lease_expire_time h in
      if exptime \<noteq> OEC_FOREVER \<and> sint exptime \<le> sint now then OESTORE_SKIP
      else if OeStoreHolder_get_lock h = OESTORE_TAKE_LOCK then OESTORE_SKIP
      else if OeStoreHolder_get_lock h = OESTORE_WRITE_LOCK then OESTORE_SKIP_BUT_EXISTS
      else OESTORE_DO_NOT_SKIP)"

section \<open>Binary layout\<close>

text \<open>\<^verbatim>\<open>memcpy\<close> to an offset of a block; writing outside it is a fault.\<close>

definition buf_write :: "string \<Rightarrow> nat \<Rightarrow> string \<Rightarrow> string c_result" where
  "buf_write buf pos bs =
     (if pos + length bs \<le> length buf then Inr (take pos buf @ bs @ drop (pos + length bs) buf)
      else Inl Out_Of_Bounds)"

fun buf_write_all :: "string \<Rightarrow> nat \<Rightarrow> string list \<Rightarrow> (string \<times> nat) c_result" where
  "buf_write_all buf pos [] = Inr (buf, pos)"
| "buf_write_all buf pos (bs # bss) =
     (case buf_write buf pos bs of
        Inl e \<Rightarrow> Inl e
      | Inr buf' \<Rightarrow> buf_write_all buf' (pos + length bs) bss)"

text \<open>The attributes as the loop over \<^verbatim>\<open>DataObject_iterator(data, true)\<close> sees them.\<close>

definition attrs_of :: "DataObject \<Rightarrow> (oe_scalar list \<times> DataObject) c_result" where
  "attrs_of d =
     (case iterate (Suc (DataObject_get_nattrs d)) (DataObject_iterator True) d of
        Inl e \<Rightarrow> Inl e
      | Inr None \<Rightarrow> Inl Assert_Failed
      | Inr (Some (xs, _, d')) \<Rightarrow>
          if list_all (\<lambda>x. x \<noteq> None) xs then Inr (map the xs, d') else Inl Null_Deref)"

text \<open>\<^verbatim>\<open>sizeof(struct store_holder_T)\<close> on an LP64 machine.\<close>

definition SIZEOF_HOLDER :: nat where
  "SIZEOF_HOLDER = 48"

definition INT_MAX :: nat where
  "INT_MAX = 2147483647"

definition bool_byte :: "bool \<Rightarrow> string" where
  "bool_byte b = [if b then CHR 0x01 else NUL]"

definition holder_header :: "OeStoreHolder \<Rightarrow> nat \<Rightarrow> nat \<Rightarrow> string list" where
  "holder_header h nb nprops =
     [le_enc 4 (unat (sh_lock h)), bool_byte (sh_is_tuple h), le_enc 8 (unat (sh_lease_id h)),
      le_enc 8 (unat (sh_txn_id h)), le_enc 8 (unat (sh_lease_expire_time h)), le_enc 4 nb,
      le_enc 4 nprops]"

definition content_read :: "DataObject \<Rightarrow> string c_result" where
  "content_read d =
     (if DataObject_get_nbytes d = 0 then Inr []
      else case DataObject_get_bytes d of
             Inl e \<Rightarrow> Inl e
           | Inr b \<Rightarrow> if DataObject_get_nbytes d \<le> length b then Inr (take (DataObject_get_nbytes d) b)
                      else Inl Out_Of_Bounds)"

text \<open>\<^verbatim>\<open>OeStoreHolder_marshal\<close>: size the zero-filled block, then copy the header fields, the attributes
  with their terminators and the content.  The result is the block, the number of bytes written and
  the holder, whose data object now has its attribute array cached.\<close>

definition OeStoreHolder_marshal :: "OeStoreHolder \<Rightarrow> (string \<times> nat \<times> OeStoreHolder) c_result" where
  "OeStoreHolder_marshal h =
     (case sh_data h of
        None \<Rightarrow> Inl Null_Deref
      | Some d \<Rightarrow>
          (case attrs_of d of
             Inl e \<Rightarrow> Inl e
           | Inr (ps, d') \<Rightarrow>
               let nb = DataObject_get_nbytes d';
                   buffsize = SIZEOF_HOLDER + sum_list (map (\<lambda>p. length p + 1) ps) + nb + 1
               in if INT_MAX < buffsize then Inl Int_Overflow
                  else case content_read d' of
                         Inl e \<Rightarrow> Inl e
                       | Inr content \<Rightarrow>
                           (case buf_write_all (replicate buffsize NUL) 0
                                  (holder_header h nb (DataObject_get_nattrs d) @
                                   map (\<lambda>p. p @ [NUL]) ps @ [content]) of
                              Inl e \<Rightarrow> Inl e
                            | Inr (buf, len) \<Rightarrow> Inr (buf, len, h\<lparr>sh_data := Some d'\<rparr>))))"

text \<open>Reading a field; running off the buffer is a fault.\<close>

definition take_le :: "nat \<Rightarrow> string \<Rightarrow> (nat \<times> string) c_result" where
  "take_le k bs = (case read_le k bs of None \<Rightarrow> Inl Out_Of_Bounds | Some r \<Rightarrow> Inr r)"

text \<open>The counters are read as \<^verbatim>\<open>int\<close> and converted to \<^verbatim>\<open>size_t\<close> (sign extension).\<close>

definition int_to_size :: "nat \<Rightarrow> nat" where
  "int_to_size n = unat (scast (word_of_nat n :: 32 word) :: 64 word)"

fun read_props :: "nat \<Rightarrow> string \<Rightarrow> DataObject \<Rightarrow> (DataObject \<times> string) c_result" where
  "read_props 0 bs d = Inr (d, bs)"
| "read_props (Suc n) bs d =
     (case read_cstring bs of
        None \<Rightarrow> Inl Out_Of_Bounds
      | Some (p, rest) \<Rightarrow>
          (case DataObject_add_attr d (Some p) of
             Inl e \<Rightarrow> Inl e
           | Inr d' \<Rightarrow> read_props n rest d'))"

definition unmarshal :: "OeStoreHolder \<Rightarrow> string \<Rightarrow> OeStoreHolder c_result" where
  "unmarshal h b0 =
     (case take_le 4 b0 of Inl e \<Rightarrow> Inl e | Inr (lock, b1) \<Rightarrow>
      case take_le 1 b1 of Inl e \<Rightarrow> Inl e | Inr (tup, b2) \<Rightarrow>
      case take_le 8 b2 of Inl e \<Rightarrow> Inl e | Inr (lid, b3) \<Rightarrow>
      case take_le 8 b3 of Inl e \<Rightarrow> Inl e | Inr (tid, b4) \<Rightarrow>
      case take_le 8 b4 of Inl e \<Rightarrow> Inl e | Inr (expt, b5) \<Rightarrow>
      case take_le 4 b5 of Inl e \<Rightarrow> Inl e | Inr (nb, b6) \<Rightarrow>
      case take_le 4 b6 of Inl e \<Rightarrow> Inl e | Inr (np, b7) \<Rightarrow>
      let h1 = h\<lparr>sh_lock := word_of_nat lock, sh_is_tuple := (tup \<noteq> 0), sh_lease_id := word_of_nat lid,
                 sh_txn_id := word_of_nat tid, sh_lease_expire_time := word_of_nat expt\<rparr>;
          (props, h2) = getdata h1
      in case read_props (int_to_size np) b7 props of
           Inl e \<Rightarrow> Inl e
         | Inr (props1, b8) \<Rightarrow>
             (case DataObject_set_nbytes props1 (int_to_size nb) of
                Inl e \<Rightarrow> Inl e
              | Inr props2 \<Rightarrow>
                  if 0 < nb \<and> nb \<le> INT_MAX
                  then (case DataObject_set_bytes props2 b8 of
                          Inl e \<Rightarrow> Inl e
                        | Inr props3 \<Rightarrow> Inr (h2\<lparr>sh_data := Some props3\<rparr>))
                  else Inr (h2\<lparr>sh_data := Some props2\<rparr>)))"

definition OeStoreHolder_new_from_buffer :: "string \<Rightarrow> OeStoreHolder c_result" where
  "OeStoreHolder_new_from_buffer buf = unmarshal OeStoreHolder_new buf"

definition LID_POS :: nat where
  "LID_POS = 4 + 1"

definition TID_POS :: nat where
  "TID_POS = LID_POS + 8"

definition EXP_POS :: nat where
  "EXP_POS = TID_POS + 8"

definition peek64 :: "nat \<Rightarrow> string \<Rightarrow> 64 word c_result" where
  "peek64 pos buf =
     (case take_le 8 (drop pos buf) of Inl e \<Rightarrow> Inl e | Inr (n, _) \<Rightarrow> Inr (word_of_nat n))"

definition OeStoreHolder_peek_lease_id :: "string \<Rightarrow> oe_id c_result" where
  "OeStoreHolder_peek_lease_id buf = peek64 LID_POS buf"

definition OeStoreHolder_peek_txn_id :: "string \<Rightarrow> oe_id c_result" where
  "OeStoreHolder_peek_txn_id buf = peek64 TID_POS buf"

definition OeStoreHolder_peek_lease_exp_time :: "string \<Rightarrow> oe_time c_result" where
  "OeStoreHolder_peek_lease_exp_time buf = peek64 EXP_POS buf"

section \<open>Store queries\<close>

record OeStoreQuery =
  sq_take :: bool
  sq_is_tuple :: bool
  sq_ifexists :: bool
  sq_owner_id :: oe_id
  sq_value_lists :: "DataObjectList option"
  sq_max_items_to_return :: size_t
  sq_exists :: bool
  sq_results :: "OeStoreHolder Oec_AList"

definition OeStoreQuery_new :: "size_t \<Rightarrow> OeStoreQuery" where
  "OeStoreQuery_new nitems = \<lparr>sq_take = False, sq_is_tuple = False, sq_ifexists = False,
     sq_owner_id = 0, sq_value_lists = None, sq_max_items_to_return = nitems, sq_exists = False,
     sq_results = Oec_AList_list [None]\<rparr>"

definition OeStoreQuery_add_store_holder :: "OeStoreQuery \<Rightarrow> OeStoreHolder \<Rightarrow> OeStoreQuery" where
  "OeStoreQuery_add_store_holder q h =
     q\<lparr>sq_results := Oec_AList_append (sq_results q) (Oec_AList_list [Some h, None])\<rparr>"

definition OeStoreQuery_get_store_holder :: "OeStoreQuery \<Rightarrow> int \<Rightarrow> OeStoreHolder option c_result" where
  "OeStoreQuery_get_store_holder q idx = Oec_AList_get (sq_results q) idx"

definition OeStoreQuery_reset_nitems_found :: "OeStoreQuery \<Rightarrow> OeStoreQuery" where
  "OeStoreQuery_reset_nitems_found q = q\<lparr>sq_results := Oec_AList_list [None]\<rparr>"

definition OeStoreQuery_get_nitems_found :: "OeStoreQuery \<Rightarrow> nat" where
  "OeStoreQuery_get_nitems_found q = Oec_AList_length (sq_results q)"

definition OeStoreQuery_set_value_lists :: "OeStoreQuery \<Rightarrow> DataObjectList option \<Rightarrow> OeStoreQuery c_result" where
  "OeStoreQuery_set_value_lists q l =
     (case l of None \<Rightarrow> Inl Assert_Failed | Some _ \<Rightarrow> Inr (q\<lparr>sq_value_lists := l\<rparr>))"

definition OeStoreQuery_get_value_lists :: "OeStoreQuery \<Rightarrow> DataObjectList c_result" where
  "OeStoreQuery_get_value_lists q =
     (case sq_value_lists q of None \<Rightarrow> Inl Assert_Failed | Some l \<Rightarrow> Inr l)"

definition OeStoreQuery_set_exists :: "OeStoreQuery \<Rightarrow> bool \<Rightarrow> OeStoreQuery" where
  "OeStoreQuery_set_exists m v = m\<lparr>sq_exists := v\<rparr>"

definition OeStoreQuery_exists :: "OeStoreQuery \<Rightarrow> bool" where
  "OeStoreQuery_exists m = sq_exists m"

definition OeStoreQuery_set_owner :: "OeStoreQuery \<Rightarrow> oe_id \<Rightarrow> OeStoreQuery" where
  "OeStoreQuery_set_owner m v = m\<lparr>sq_owner_id := v\<rparr>"

definition OeStoreQuery_get_owner_id :: "OeStoreQuery \<Rightarrow> oe_id" where
  "OeStoreQuery_get_owner_id m = sq_owner_id m"

definition OeStoreQuery_set_ifexists :: "OeStoreQuery \<Rightarrow> bool \<Rightarrow> OeStoreQuery" where
  "OeStoreQuery_set_ifexists m v = m\<lparr>sq_ifexists := v\<rparr>"

definition OeStoreQuery_is_ifexists :: "OeStoreQuery \<Rightarrow> bool" where
  "OeStoreQuery_is_ifexists m = sq_ifexists m"

definition OeStoreQuery_set_take :: "OeStoreQuery \<Rightarrow> bool \<Rightarrow> OeStoreQuery" where
  "OeStoreQuery_set_take m v = m\<lparr>sq_take := v\<rparr>"

definition OeStoreQuery_is_take :: "OeStoreQuery \<Rightarrow> bool" where
  "OeStoreQuery_is_take m = sq_take m"

definition OeStoreQuery_set_tuple :: "OeStoreQuery \<Rightarrow> bool \<Rightarrow> OeStoreQuery" where
  "OeStoreQuery_set_tuple m v = m\<lparr>sq_is_tuple := v\<rparr>"

definition OeStoreQuery_is_tuple :: "OeStoreQuery \<Rightarrow> bool" where
  "OeStoreQuery_is_tuple m = sq_is_tuple m"

definition OeStoreQuery_get_max_results :: "OeStoreQuery \<Rightarrow> size_t" where
  "OeStoreQuery_get_max_results m = sq_max_items_to_return m"

section \<open>Lemmas on buffers\<close>

lemma buf_write_all_spec:
  "length pre = pos \<Longrightarrow> length (concat bss) \<le> length rest \<Longrightarrow>
   buf_write_all (pre @ rest) pos bss =
     Inr (pre @ concat bss @ drop (length (concat bss)) rest, pos + length (concat bss))"
proof (induction bss arbitrary: pre pos rest)
  case (Cons bs bss)
  have "buf_write (pre @ rest) pos bs = Inr ((pre @ bs) @ drop (length bs) rest)"
    using Cons.prems by (simp add: buf_write_def)
  then show ?case
    using Cons.IH [of "pre @ bs" "pos + length bs" "drop (length bs) rest"] Cons.prems
    by (simp add: add.commute)
qed simp

lemma int_to_size_small:
  assumes "n \<le> INT_MAX"
  shows "int_to_size n = n"
proof -
  have "signed_take_bit 31 (int n) = int n"
    using assms by (simp add: INT_MAX_def signed_take_bit_int_eq_self_iff)
  then have "(scast (word_of_nat n :: 32 word) :: 64 word) = word_of_nat n"
    by (simp add: signed_of_nat)
  moreover have "n < 2 ^ 64" using assms by (simp add: INT_MAX_def)
  ultimately show ?thesis by (simp add: int_to_size_def unsigned_of_nat take_bit_nat_eq_self)
qed

lemma take_le_bool: "take_le (Suc 0) (bool_byte b @ rest) = Inr (if b then 1 else 0, rest)"
  by (simp add: take_le_def read_le_def bool_byte_def)

lemma read_props_spec:
  "list_all is_cstring ps \<Longrightarrow> array_cache d = None \<Longrightarrow>
   read_props (length ps) (concat (map (\<lambda>p. p @ [NUL]) ps) @ rest) d =
     Inr (d\<lparr>strings := strings d @ ps\<rparr>, rest)"
proof (induction ps arbitrary: d)
  case (Cons p ps)
  have eq: "d\<lparr>array_cache := None, strings := strings d @ [p]\<rparr> = d\<lparr>strings := strings d @ [p]\<rparr>"
    using Cons.prems(2) by (cases d) simp
  show ?case
    using Cons.IH [of "d\<lparr>strings := strings d @ [p]\<rparr>"] Cons.prems
    by (simp add: read_cstring_append DataObject_add_attr_Some eq)
qed simp

lemma attrs_of_exact: "dataobject_ok d \<Longrightarrow> attrs_of d = Inr (strings d, cached True d)"
  using iterate_dataobject [of d True] by (auto simp: attrs_of_def list_all_iff comp_def)

lemma attrs_of_spec:
  assumes "dataobject_ok d"
  shows "\<exists>d'. attrs_of d = Inr (strings d, d') \<and> dataobject_ok d' \<and> strings d' = strings d \<and>
    bytes d' = bytes d \<and> nbytes d' = nbytes d"
  using assms attrs_of_exact [OF assms] by (simp add: cached_def dataobject_ok_def)

section \<open>What can be stored\<close>

definition holder_size :: "DataObject \<Rightarrow> nat" where
  "holder_size d = SIZEOF_HOLDER + sum_list (map (\<lambda>p. length p + 1) (strings d)) + nbytes d + 1"

definition storable_data :: "DataObject \<Rightarrow> bool" where
  "storable_data d =
     (dataobject_ok d \<and> list_all is_cstring (strings d) \<and> holder_size d \<le> INT_MAX \<and>
      (nbytes d \<noteq> 0 \<longrightarrow> (case bytes d of None \<Rightarrow> False | Some b \<Rightarrow> nbytes d \<le> length b)))"

text \<open>The content a data object announces: the first \<^verbatim>\<open>nbytes\<close> of its buffer.\<close>

definition content :: "DataObject \<Rightarrow> string" where
  "content d = (case bytes d of None \<Rightarrow> [] | Some b \<Rightarrow> take (nbytes d) b)"

lemma storable_content:
  assumes "storable_data d" "strings d' = strings d" "bytes d' = bytes d" "nbytes d' = nbytes d" "dataobject_ok d'"
  shows "content_read d' = Inr (content d)" "length (content d) = nbytes d"
  using assms
  by (auto simp: content_read_def storable_data_def content_def DataObject_get_nbytes_def
      DataObject_get_bytes_def dataobject_ok_def split: option.splits)

text \<open>The bytes a holder is stored as.\<close>

definition holder_bytes :: "OeStoreHolder \<Rightarrow> DataObject \<Rightarrow> string" where
  "holder_bytes h d = concat (holder_header h (nbytes d) (length (strings d))) @
     concat (map (\<lambda>p. p @ [NUL]) (strings d)) @ content d"

lemma length_props: "length (concat (map (\<lambda>p. p @ [NUL]) ps)) = sum_list (map (\<lambda>p. length p + 1) ps)"
  by (induction ps) auto

lemma length_header: "length (concat (holder_header h n m)) = 37"
  by (simp add: holder_header_def bool_byte_def)

lemma marshal_spec:
  assumes d: "sh_data h = Some d" and st: "storable_data d"
  shows "\<exists>d'. OeStoreHolder_marshal h =
      Inr (holder_bytes h d @ replicate 12 NUL, length (holder_bytes h d), h\<lparr>sh_data := Some d'\<rparr>) \<and>
    dataobject_ok d' \<and> strings d' = strings d \<and> bytes d' = bytes d \<and> nbytes d' = nbytes d"
proof -
  obtain d' where d': "attrs_of d = Inr (strings d, d')" "dataobject_ok d'" "strings d' = strings d"
    "bytes d' = bytes d" "nbytes d' = nbytes d"
    using attrs_of_spec [of d] st by (auto simp: storable_data_def)
  note c = storable_content [OF st d'(3-5,2)]
  let ?bss = "holder_header h (nbytes d) (length (strings d)) @ map (\<lambda>p. p @ [NUL]) (strings d) @ [content d]"
  have bytes: "concat ?bss = holder_bytes h d" by (simp add: holder_bytes_def)
  have len: "length (holder_bytes h d) + 12 = holder_size d"
    using c(2) unfolding holder_bytes_def length_append length_header length_props
    by (simp add: holder_size_def SIZEOF_HOLDER_def)
  have "buf_write_all ([] @ replicate (holder_size d) NUL) 0 ?bss =
      Inr (holder_bytes h d @ replicate 12 NUL, length (holder_bytes h d))"
    using buf_write_all_spec [of "[]" 0 ?bss "replicate (holder_size d) NUL"] len
    unfolding bytes by simp
  moreover have "\<not> INT_MAX < holder_size d" using st by (simp add: storable_data_def)
  ultimately show ?thesis
    using d d' c(1) by (intro exI [of _ d']) (simp add: OeStoreHolder_marshal_def Let_def
        DataObject_get_nbytes_def DataObject_get_nattrs_def holder_size_def)
qed

lemma take_le_word:
  "take_le 4 (le_enc 4 (unat (w :: 32 word)) @ rest) = Inr (unat w, rest)"
  "take_le 8 (le_enc 8 (unat (v :: 64 word)) @ rest) = Inr (unat v, rest)"
  "n \<le> INT_MAX \<Longrightarrow> take_le 4 (le_enc 4 n @ rest) = Inr (n, rest)"
proof -
  have "unat w < 256 ^ 4" by (rule less_le_trans [OF unsigned_less]) simp
  then show "take_le 4 (le_enc 4 (unat w) @ rest) = Inr (unat w, rest)"
    by (simp add: take_le_def)
  show "take_le 8 (le_enc 8 (unat v) @ rest) = Inr (unat v, rest)"
    by (simp only: take_le_def read_le_word64 option.case)
  show "n \<le> INT_MAX \<Longrightarrow> take_le 4 (le_enc 4 n @ rest) = Inr (n, rest)"
    by (simp add: INT_MAX_def take_le_def)
qed

lemma DataObject_new_sel [simp]:
  "strings DataObject_new = []" "nbytes DataObject_new = 0" "bytes DataObject_new = None"
  "array_cache DataObject_new = None" "always_cpy DataObject_new = False"
  by (simp_all add: DataObject_new_def)

text \<open>The data object read back from the bytes.\<close>

definition read_back :: "DataObject \<Rightarrow> string \<Rightarrow> DataObject" where
  "read_back d rest = DataObject_new\<lparr>strings := strings d, nbytes := nbytes d,
     bytes := (if nbytes d = 0 then None else Some (content d @ rest))\<rparr>"

lemma unmarshal_exact:
  assumes "storable_data d"
  shows "OeStoreHolder_new_from_buffer (holder_bytes h d @ rest) = Inr (h\<lparr>sh_data := Some (read_back d rest)\<rparr>)"
proof -
  have small: "nbytes d \<le> INT_MAX" "length (strings d) \<le> INT_MAX"
  proof -
    have "length ps \<le> sum_list (map (\<lambda>p. length p + 1) ps)" for ps :: "string list"
      by (induction ps) auto
    from this [of "strings d"] show "nbytes d \<le> INT_MAX" "length (strings d) \<le> INT_MAX"
      using assms by (auto simp: storable_data_def holder_size_def)
  qed
  have cs: "list_all is_cstring (strings d)" using assms by (simp add: storable_data_def)
  have len: "length (content d) = nbytes d"
    using storable_content(2) [OF assms refl refl refl] assms by (simp add: storable_data_def)
  have rp: "read_props (length (strings d)) (concat (map (\<lambda>p. p @ [NUL]) (strings d)) @ content d @ rest)
      DataObject_new = Inr (DataObject_new\<lparr>strings := strings d\<rparr>, content d @ rest)"
    using read_props_spec [OF cs, of DataObject_new "content d @ rest"] by (simp add: DataObject_new_def)
  have set: "DataObject_set_nbytes (DataObject_new\<lparr>strings := strings d\<rparr>) (nbytes d) =
      Inr (DataObject_new\<lparr>strings := strings d, nbytes := nbytes d\<rparr>)"
    by (simp add: DataObject_set_nbytes_def DataObject_new_def)
  show ?thesis
    using small len
    by (simp add: OeStoreHolder_new_from_buffer_def unmarshal_def holder_bytes_def holder_header_def
        take_le_word take_le_bool getdata_def OeStoreHolder_new_def
        OeStoreHolder_new_with_data_def int_to_size_small rp set Let_def DataObject_set_bytes_def
        sdo_bytes_cpy_def read_back_def)
qed

lemma read_back_spec:
  assumes "storable_data d"
  shows "strings (read_back d rest) = strings d" "nbytes (read_back d rest) = nbytes d"
    "dataobject_ok (read_back d rest)" "content (read_back d rest) = content d"
proof -
  have "length (content d) = nbytes d"
    using storable_content(2) [OF assms refl refl refl] assms by (simp add: storable_data_def)
  then show "strings (read_back d rest) = strings d" "nbytes (read_back d rest) = nbytes d"
    "dataobject_ok (read_back d rest)" "content (read_back d rest) = content d"
    by (auto simp: read_back_def dataobject_ok_def content_def DataObject_new_def)
qed

lemma peek_spec:
  "OeStoreHolder_peek_lease_id (holder_bytes h d @ rest) = Inr (sh_lease_id h)"
  "OeStoreHolder_peek_txn_id (holder_bytes h d @ rest) = Inr (sh_txn_id h)"
  "OeStoreHolder_peek_lease_exp_time (holder_bytes h d @ rest) = Inr (sh_lease_expire_time h)"
  by (simp_all add: OeStoreHolder_peek_lease_id_def OeStoreHolder_peek_txn_id_def
      OeStoreHolder_peek_lease_exp_time_def peek64_def LID_POS_def TID_POS_def EXP_POS_def
      holder_bytes_def holder_header_def bool_byte_def take_le_word)

section \<open>Properties\<close>

text \<open>C29: store holders survive the database.  For a holder whose attributes are C strings, whose
  content buffer is as long as announced and whose block size fits an \<^verbatim>\<open>int\<close>, marshalling succeeds
  without writing outside its block, and building a holder from the block gives the same lock,
  tuple flag, identifiers, expiry time, attributes and content; the three peek functions read their
  field from the block without decoding it.\<close>

theorem OeStoreHolder_roundtrip:
  assumes "sh_data h = Some d" "storable_data d"
  shows "\<exists>buf len h1 h2 d2. OeStoreHolder_marshal h = Inr (buf, len, h1) \<and> len \<le> length buf \<and>
    OeStoreHolder_new_from_buffer (take len buf) = Inr h2 \<and>
    h2 = h\<lparr>sh_data := Some d2\<rparr> \<and> strings d2 = strings d \<and> nbytes d2 = nbytes d \<and>
    content d2 = content d \<and> dataobject_ok d2 \<and>
    OeStoreHolder_peek_lease_id buf = Inr (sh_lease_id h) \<and>
    OeStoreHolder_peek_txn_id buf = Inr (sh_txn_id h) \<and>
    OeStoreHolder_peek_lease_exp_time buf = Inr (sh_lease_expire_time h)"
  using marshal_spec [OF assms] unmarshal_exact [OF assms(2), of h "[]"] read_back_spec [OF assms(2), of "[]"]
    peek_spec [of h d "replicate 12 NUL"]
  by auto

definition one_record :: OeStoreHolder where
  "one_record = \<lparr>sh_lock = OESTORE_WRITE_LOCK, sh_is_tuple = True, sh_lease_id = 7, sh_txn_id = 300,
     sh_lease_expire_time = OEC_FOREVER,
     sh_data = Some (DataObject_new\<lparr>strings := [''a'', ''bc''], nbytes := 3, bytes := Some ''xyz''\<rparr>)\<rparr>"

theorem OeStoreHolder_roundtrip_witness:
  "\<exists>buf len h1 h2 d2. OeStoreHolder_marshal one_record = Inr (buf, len, h1) \<and>
     OeStoreHolder_new_from_buffer (take len buf) = Inr h2 \<and> sh_data h2 = Some d2 \<and>
     strings d2 = [''a'', ''bc''] \<and> content d2 = ''xyz'' \<and> OeStoreHolder_peek_txn_id buf = Inr 300"
proof -
  let ?d = "DataObject_new\<lparr>strings := [''a'', ''bc''], nbytes := 3, bytes := Some ''xyz''\<rparr>"
  have "sh_data one_record = Some ?d" by (simp add: one_record_def)
  moreover have "storable_data ?d"
    by (simp add: storable_data_def dataobject_ok_def holder_size_def SIZEOF_HOLDER_def INT_MAX_def NUL_def)
  ultimately show ?thesis
    using OeStoreHolder_roundtrip [of one_record ?d] by (auto simp: one_record_def content_def)
qed

text \<open>when a query may use a record.  \<^verbatim>\<open>OeStoreHolder_skip\<close> lets a record through exactly when its
  lease lasts beyond the present time (or is \<^verbatim>\<open>OEC_FOREVER\<close>) and neither the take nor the write lock
  is set; it reports a write-locked live record as existing, and skips every expired or taken one.\<close>

theorem OeStoreHolder_skip_cases:
  "(OeStoreHolder_skip now h = OESTORE_DO_NOT_SKIP) =
     ((sh_lease_expire_time h = OEC_FOREVER \<or> sint now < sint (sh_lease_expire_time h)) \<and>
      sh_lock h \<notin> {OESTORE_TAKE_LOCK, OESTORE_WRITE_LOCK}) \<and>
   (OeStoreHolder_skip now h = OESTORE_SKIP_BUT_EXISTS) =
     ((sh_lease_expire_time h = OEC_FOREVER \<or> sint now < sint (sh_lease_expire_time h)) \<and>
      sh_lock h = OESTORE_WRITE_LOCK) \<and>
   (OeStoreHolder_skip now h = OESTORE_SKIP) =
     ((sh_lease_expire_time h \<noteq> OEC_FOREVER \<and> sint (sh_lease_expire_time h) \<le> sint now) \<or>
      sh_lock h = OESTORE_TAKE_LOCK)"
  by (auto simp: OeStoreHolder_skip_def Let_def OeStoreHolder_get_lease_expire_time_def
      OeStoreHolder_get_lock_def OESTORE_TAKE_LOCK_def OESTORE_WRITE_LOCK_def)

end
