(* ===== verification/Bdb_Store.thy ===== *)
theory Bdb_Store
  imports Store_Holder
begin

text \<open>
  The store implementation \<^verbatim>\<open>corelib/OeBdb.c\<close> on top of Berkeley DB.

  Berkeley DB itself is not part of the repository: it is the argument \<open>B\<close> of the definitions, a
  record of the library calls the code makes, over an abstract state \<^typ>\<open>'d\<close> of the environment
  (with at most one open transaction, as every function of \<^verbatim>\<open>OeBdb.c\<close> has) and abstract cursors
  \<^typ>\<open>'c\<close>.  What the documentation of these calls promises is collected in the theory
  \<^verbatim>\<open>Bdb_Laws\<close>.

  Keys are kept at the type the code gives them (an \<^verbatim>\<open>oe_id\<close> for the primary databases and the owner
  index, a C string for the property index, an \<^verbatim>\<open>oe_time\<close> for the expiry index).  The clock is the
  argument \<open>now\<close>, one value per call.  Write events go to the list \<open>fired\<close>, oldest first.
\<close>

section \<open>The library calls\<close>

text \<open>Return codes: integers, with the codes of the library that the code tests for by name.\<close>

datatype rc = RC int | DB_LOCK_DEADLOCK | DB_NOTFOUND | DB_BUFFER_SMALL | DB_DONOTINDEX

abbreviation OK :: rc where
  "OK \<equiv> RC 0"

datatype primary = Holder_db | Txn_db

datatype index = Prop_idx | Owner_id_idx | Expire_time_idx

datatype index_key = Prop_Key string | Owner_Key oe_id | Time_Key oe_time

datatype cursor_op = DB_SET | DB_SET_RANGE | DB_NEXT_DUP | DB_PREV | Join_Next

text \<open>Reads are given the size of the caller's buffer and report the size of the record.\<close>

record ('d, 'c) bdb =
  txn_begin :: "'d \<Rightarrow> rc \<times> 'd"
  txn_commit :: "'d \<Rightarrow> rc \<times> 'd"
  txn_abort :: "'d \<Rightarrow> 'd"
  txn_deadlock :: "'d \<Rightarrow> bool"
  seq_get :: "'d \<Rightarrow> rc \<times> oe_id \<times> 'd"
  db_get :: "primary \<Rightarrow> oe_id \<Rightarrow> nat \<Rightarrow> 'd \<Rightarrow> rc \<times> string \<times> nat"
  db_put :: "primary \<Rightarrow> oe_id \<Rightarrow> string \<Rightarrow> 'd \<Rightarrow> rc \<times> 'd"
  db_del :: "primary \<Rightarrow> oe_id \<Rightarrow> 'd \<Rightarrow> rc \<times> 'd"
  cur_open :: "index \<Rightarrow> 'd \<Rightarrow> rc \<times> 'c"
  cur_get :: "'c \<Rightarrow> cursor_op \<Rightarrow> index_key \<Rightarrow> nat \<Rightarrow> 'd \<Rightarrow> rc \<times> string \<times> nat \<times> 'c"
  cur_del :: "'c \<Rightarrow> 'd \<Rightarrow> rc \<times> 'd"
  cur_close :: "'c \<Rightarrow> 'd \<Rightarrow> rc"
  db_join :: "'c list \<Rightarrow> 'd \<Rightarrow> rc \<times> 'c"

section \<open>Constants of the source\<close>

definition OES_KEY_SEP :: string where
  "OES_KEY_SEP = ''~+''"

definition OESTORE_WILDCARD :: string where
  "OESTORE_WILDCARD = ''_''"

definition OEBDB_DEFAULT_READ_BUFFER_SIZE :: nat where
  "OEBDB_DEFAULT_READ_BUFFER_SIZE = 200"

definition OESTORE_UPDATING_EXPIRED_TXN_ERR :: int where
  "OESTORE_UPDATING_EXPIRED_TXN_ERR = - 77000"

definition OESTORE_IS_NULL_ERR :: int where
  "OESTORE_IS_NULL_ERR = - 77001"

definition OESTORE_ALREADY_COMPLETE_ERR :: int where
  "OESTORE_ALREADY_COMPLETE_ERR = - 77002"

definition OESTORE_UPDATING_ROLLEDBACK_TXN_ERR :: int where
  "OESTORE_UPDATING_ROLLEDBACK_TXN_ERR = - 77003"

definition OESTORE_UPDATING_COMMITTED_TXN_ERR :: int where
  "OESTORE_UPDATING_COMMITTED_TXN_ERR = - 77004"

definition OESTORE_ENLISTED_COUNT_INCORRECT :: int where
  "OESTORE_ENLISTED_COUNT_INCORRECT = - 77005"

definition OESTORE_INACTIVE_TXN :: int where
  "OESTORE_INACTIVE_TXN = - 78006"

definition OE_STORE_PLEASE_RETRY :: int where
  "OE_STORE_PLEASE_RETRY = - 78000"

definition OE_STORE_ITEM_NOTFOUND :: int where
  "OE_STORE_ITEM_NOTFOUND = - 78001"

definition OE_STORE_MISSING_ATTRS :: int where
  "OE_STORE_MISSING_ATTRS = - 78002"

definition OE_STORE_ATTRS_NOT_PAIRED :: int where
  "OE_STORE_ATTRS_NOT_PAIRED = - 78003"

definition OESTORE_MAX_LEASE_REAP :: int where
  "OESTORE_MAX_LEASE_REAP = 10000000"

definition OESTORE_MAX_LEASE_REAP_COMMIT :: int where
  "OESTORE_MAX_LEASE_REAP_COMMIT = 100"

section \<open>The store object\<close>

text \<open>\<open>txn_live\<close> tells whether the handle of the last \<^verbatim>\<open>txn_begin\<close> may still be used: committing or
  aborting it ends its life, and using it afterwards is use of freed memory.\<close>

record 'd OeBdb =
  bdb_state :: 'd
  txn_live :: bool
  reaper_running_flag :: bool
  running_flag :: bool
  fire_write_event :: bool
  fired :: "DataObject list"
  persist_level :: int

definition set_running :: "'d OeBdb \<Rightarrow> bool \<Rightarrow> 'd OeBdb" where
  "set_running st running = st\<lparr>running_flag := running\<rparr>"

definition is_running :: "'d OeBdb \<Rightarrow> bool" where
  "is_running st = running_flag st"

text \<open>The B-tree comparison functions: the difference of two 64-bit values, returned as an \<^verbatim>\<open>int\<close>.\<close>

definition compare_oe_id :: "oe_id \<Rightarrow> oe_id \<Rightarrow> int" where
  "compare_oe_id ai bi = sint (ucast (ai - bi) :: 32 word)"

definition compare_oe_time :: "oe_time \<Rightarrow> oe_time \<Rightarrow> int" where
  "compare_oe_time ai bi = sint (ucast (ai - bi) :: 32 word)"

text \<open>Transaction handles.\<close>

definition begin_txn :: "('d, 'c) bdb \<Rightarrow> 'd OeBdb \<Rightarrow> rc \<times> 'd OeBdb" where
  "begin_txn B st =
     (let (r, d) = txn_begin B (bdb_state st)
      in (r, st\<lparr>bdb_state := d, txn_live := (r = OK)\<rparr>))"

definition commit_txn :: "('d, 'c) bdb \<Rightarrow> 'd OeBdb \<Rightarrow> (rc \<times> 'd OeBdb) c_result" where
  "commit_txn B st =
     (if txn_live st
      then let (r, d) = txn_commit B (bdb_state st) in Inr (r, st\<lparr>bdb_state := d, txn_live := False\<rparr>)
      else Inl Use_After_Free)"

definition abort_txn :: "('d, 'c) bdb \<Rightarrow> 'd OeBdb \<Rightarrow> 'd OeBdb c_result" where
  "abort_txn B st =
     (if txn_live st then Inr (st\<lparr>bdb_state := txn_abort B (bdb_state st), txn_live := False\<rparr>)
      else Inl Use_After_Free)"

definition txn_flags_deadlock :: "('d, 'c) bdb \<Rightarrow> 'd OeBdb \<Rightarrow> bool" where
  "txn_flags_deadlock B st = txn_deadlock B (bdb_state st)"

text \<open>\<open>has_txn\<close>: whether the caller passes a transaction handle or NULL.\<close>

definition handlerc :: "('d, 'c) bdb \<Rightarrow> rc \<Rightarrow> bool \<Rightarrow> 'd OeBdb \<Rightarrow> (rc \<times> 'd OeBdb) c_result" where
  "handlerc B r has_txn st =
     c_bind (if has_txn \<and> r \<noteq> OK then abort_txn B st else Inr st) (\<lambda>st1.
       Inr (case r of
              DB_LOCK_DEADLOCK \<Rightarrow> (RC OE_STORE_PLEASE_RETRY, st1)
            | DB_NOTFOUND \<Rightarrow> (RC OE_STORE_ITEM_NOTFOUND, st1)
            | _ \<Rightarrow> (r, st1)))"

text \<open>The comment above \<^verbatim>\<open>_set_reaper_running\<close> promises a result that tells whether the flag was
  changed; when the flag is already set the code compares instead of assigning, so the result is the
  value \<open>uninit\<close> an uninitialised variable happens to have.\<close>

definition set_reaper_running :: "bool \<Rightarrow> 'd OeBdb \<Rightarrow> bool \<Rightarrow> bool \<times> 'd OeBdb" where
  "set_reaper_running uninit st running =
     (if reaper_running_flag st then (uninit, st)
      else (True, st\<lparr>reaper_running_flag := running\<rparr>))"

definition is_reaper_running :: "'d OeBdb \<Rightarrow> bool" where
  "is_reaper_running st = reaper_running_flag st"

definition finish_txn :: "('d, 'c) bdb \<Rightarrow> 'd OeBdb \<Rightarrow> bool \<Rightarrow> (rc \<times> 'd OeBdb) c_result" where
  "finish_txn B st commit =
     (if commit \<and> txn_flags_deadlock B st
      then c_bind (abort_txn B st) (\<lambda>st1. Inr (DB_LOCK_DEADLOCK, st1))
      else if commit then commit_txn B st
      else c_bind (abort_txn B st) (\<lambda>st1. Inr (OK, st1)))"

section \<open>Reading records\<close>

text \<open>The read loops start with a buffer of 200 bytes and go round again with the reported size as long
  as the library finds the buffer too small; the model allows two rounds.\<close>

fun get_loop :: "nat \<Rightarrow> ('d, 'c) bdb \<Rightarrow> primary \<Rightarrow> oe_id \<Rightarrow> nat \<Rightarrow> 'd \<Rightarrow> (rc \<times> string) c_result" where
  "get_loop 0 B p k ulen d = Inl Fuel_Spent"
| "get_loop (Suc n) B p k ulen d =
     (let (r, data, size) = db_get B p k ulen d
      in if r = DB_BUFFER_SMALL then get_loop n B p k size d else Inr (r, data))"

definition bdb_get :: "('d, 'c) bdb \<Rightarrow> primary \<Rightarrow> oe_id \<Rightarrow> 'd \<Rightarrow> (rc \<times> string) c_result" where
  "bdb_get B p k d = get_loop 2 B p k OEBDB_DEFAULT_READ_BUFFER_SIZE d"

fun get_with_cursor_loop ::
  "nat \<Rightarrow> ('d, 'c) bdb \<Rightarrow> 'c \<Rightarrow> cursor_op \<Rightarrow> index_key \<Rightarrow> nat \<Rightarrow> 'd \<Rightarrow> (rc \<times> string \<times> 'c) c_result" where
  "get_with_cursor_loop 0 B c cop k ulen d = Inl Fuel_Spent"
| "get_with_cursor_loop (Suc n) B c cop k ulen d =
     (let (r, data, size, c') = cur_get B c cop k ulen d
      in if r = DB_BUFFER_SMALL then get_with_cursor_loop n B c' cop k size d else Inr (r, data, c'))"

definition get_with_cursor ::
  "('d, 'c) bdb \<Rightarrow> 'c \<Rightarrow> cursor_op \<Rightarrow> index_key \<Rightarrow> 'd \<Rightarrow> (rc \<times> string \<times> 'c) c_result" where
  "get_with_cursor B c cop k d = get_with_cursor_loop 2 B c cop k OEBDB_DEFAULT_READ_BUFFER_SIZE d"

text \<open>Closing every cursor of an array; the last failure is reported.\<close>

definition close_cursors :: "('d, 'c) bdb \<Rightarrow> 'c list \<Rightarrow> 'd \<Rightarrow> rc" where
  "close_cursors B cs d =
     foldl (\<lambda>r c. let lret = cur_close B c d in if lret \<noteq> OK then lret else r) OK cs"


section \<open>Property keys\<close>

text \<open>The key an attribute of a tuple is indexed under: its text, its position and the number of
  attributes; and the key of a pair of a map: name and value.\<close>

definition itoa :: "nat \<Rightarrow> string" where
  "itoa n = oec_itoa (word_of_nat n)"

definition tuple_key :: "oe_scalar \<Rightarrow> nat \<Rightarrow> nat \<Rightarrow> string c_result" where
  "tuple_key skey pos sz = oec_str_concat [skey, OES_KEY_SEP, itoa pos, OES_KEY_SEP, itoa sz]"

definition map_key :: "oe_scalar \<Rightarrow> oe_scalar \<Rightarrow> string c_result" where
  "map_key dkey dvalue = oec_str_concat [dkey, OES_KEY_SEP, dvalue]"

text \<open>The loops over the attributes: tuples skip the wildcard, maps go by pairs and, when indexing,
  skip a pair with the wildcard on either side.\<close>

fun tuple_keys :: "oe_scalar list \<Rightarrow> nat \<Rightarrow> nat \<Rightarrow> string list c_result" where
  "tuple_keys [] pos sz = Inr []"
| "tuple_keys (a # as) pos sz =
     (if a = OESTORE_WILDCARD then tuple_keys as (Suc pos) sz
      else c_bind (tuple_key a pos sz) (\<lambda>k. c_bind (tuple_keys as (Suc pos) sz) (\<lambda>ks. Inr (k # ks))))"

fun map_keys :: "bool \<Rightarrow> oe_scalar list \<Rightarrow> string list c_result" where
  "map_keys skip_null [] = Inr []"
| "map_keys skip_null [k] = Inl Null_Deref"
| "map_keys skip_null (k # v # as) =
     (if skip_null \<and> (k = OESTORE_WILDCARD \<or> v = OESTORE_WILDCARD) then map_keys skip_null as
      else c_bind (map_key k v) (\<lambda>p. c_bind (map_keys skip_null as) (\<lambda>ps. Inr (p # ps))))"

definition set_map_props :: "OeStoreHolder \<Rightarrow> (rc \<times> string list) c_result" where
  "set_map_props holder =
     (let (d, _) = OeStoreHolder_get_data holder; sz = DataObject_get_nattrs d
      in if sz = 0 then Inr (RC OE_STORE_MISSING_ATTRS, [])
         else if sz mod 2 \<noteq> 0 then Inr (RC OE_STORE_ATTRS_NOT_PAIRED, [])
         else c_bind (attrs_of d) (\<lambda>(as, _). c_bind (map_keys True as) (\<lambda>ks. Inr (OK, ks))))"

definition set_tuple_props :: "OeStoreHolder \<Rightarrow> (rc \<times> string list) c_result" where
  "set_tuple_props holder =
     (let (d, _) = OeStoreHolder_get_data holder; sz = DataObject_get_nattrs d
      in c_bind (attrs_of d) (\<lambda>(as, _). c_bind (tuple_keys as 0 sz) (\<lambda>ks.
           if ks = [] then Inr (RC (- 1), []) else Inr (OK, ks))))"

text \<open>The callbacks that tell Berkeley DB under which secondary keys a stored record is found.\<close>

definition set_props :: "string \<Rightarrow> (rc \<times> string list) c_result" where
  "set_props pdata =
     c_bind (OeStoreHolder_peek_txn_id pdata) (\<lambda>oid.
       if oid \<noteq> 0 then Inr (DB_DONOTINDEX, [])
       else c_bind (OeStoreHolder_new_from_buffer pdata) (\<lambda>holder.
         if OeStoreHolder_is_tuple holder then set_tuple_props holder else set_map_props holder))"

definition set_expire_time :: "string \<Rightarrow> (rc \<times> oe_time list) c_result" where
  "set_expire_time pdata =
     c_bind (OeStoreHolder_peek_txn_id pdata) (\<lambda>oid.
       if oid \<noteq> 0 then Inr (DB_DONOTINDEX, [])
       else c_bind (OeStoreHolder_peek_lease_exp_time pdata) (\<lambda>exp_time.
         if exp_time = OEC_FOREVER then Inr (DB_DONOTINDEX, []) else Inr (OK, [exp_time])))"

definition set_owner :: "string \<Rightarrow> (rc \<times> oe_id list) c_result" where
  "set_owner pdata =
     c_bind (OeStoreHolder_peek_txn_id pdata) (\<lambda>oid.
       if oid = 0 then Inr (DB_DONOTINDEX, []) else Inr (OK, [oid]))"

section \<open>Matching one template\<close>

text \<open>Positioning the cursors of an array, one per key; the array ends with NULL.\<close>

fun position_cursors ::
  "('d, 'c) bdb \<Rightarrow> string list \<Rightarrow> 'c list \<Rightarrow> 'd \<Rightarrow> (rc \<times> 'c list) c_result" where
  "position_cursors B [] cs d = Inr (OK, cs)"
| "position_cursors B (k # ks) [] d = Inl Null_Deref"
| "position_cursors B (k # ks) (c # cs) d =
     c_bind (get_with_cursor B c DB_SET (Prop_Key k) d) (\<lambda>(r, _, c').
       if r \<noteq> OK then Inr (r, c' # cs)
       else c_bind (position_cursors B ks cs d) (\<lambda>(r', cs'). Inr (r', c' # cs')))"

definition position_tuple_cursors ::
  "('d, 'c) bdb \<Rightarrow> DataObject \<Rightarrow> 'c list \<Rightarrow> 'd \<Rightarrow> (rc \<times> 'c list) c_result" where
  "position_tuple_cursors B values cs d =
     c_bind (attrs_of values) (\<lambda>(as, _). c_bind (tuple_keys as 0 (DataObject_get_nattrs values)) (\<lambda>ks.
       position_cursors B ks cs d))"

definition position_map_cursors ::
  "('d, 'c) bdb \<Rightarrow> DataObject \<Rightarrow> 'c list \<Rightarrow> 'd \<Rightarrow> (rc \<times> 'c list) c_result" where
  "position_map_cursors B values cs d =
     (let sz = DataObject_get_nattrs values
      in if sz = 0 then Inr (RC (- 1), cs)
         else if sz mod 2 \<noteq> 0 then Inr (RC (- 1), cs)
         else c_bind (attrs_of values) (\<lambda>(as, _). c_bind (map_keys False as) (\<lambda>ks.
                position_cursors B ks cs d)))"

definition calc_nkeys :: "OeStoreQuery \<Rightarrow> DataObject \<Rightarrow> nat c_result" where
  "calc_nkeys query values =
     (if OeStoreQuery_is_tuple query
      then c_bind (attrs_of values) (\<lambda>(as, _).
             Inr (DataObject_get_nattrs values - length (filter (\<lambda>a. a = OESTORE_WILDCARD) as)))
      else Inr (DataObject_get_nattrs values div 2))"

fun open_cursors :: "('d, 'c) bdb \<Rightarrow> nat \<Rightarrow> 'd \<Rightarrow> rc \<times> 'c list" where
  "open_cursors B 0 d = (OK, [])"
| "open_cursors B (Suc n) d =
     (let (r, c) = cur_open B Prop_idx d
      in if r \<noteq> OK then (r, [])
         else let (r', cs) = open_cursors B n d in (r', c # cs))"

text \<open>The loop over the join cursor: pass over what is locked or expired, mark what is taken, stop
  when the query has as many results as it may return.\<close>

fun join_loop ::
  "nat \<Rightarrow> ('d, 'c) bdb \<Rightarrow> oe_time \<Rightarrow> 'c \<Rightarrow> OeStoreQuery \<Rightarrow> 'd \<Rightarrow> (rc \<times> OeStoreQuery) c_result" where
  "join_loop 0 B now c query d = Inl Fuel_Spent"
| "join_loop (Suc n) B now c query d =
     c_bind (get_with_cursor B c Join_Next (Prop_Key []) d) (\<lambda>(r, sdata, c').
       if r \<noteq> OK then Inr (r, query)
       else c_bind (OeStoreHolder_new_from_buffer sdata) (\<lambda>rholder.
         case OeStoreHolder_skip now rholder of
           OESTORE_SKIP \<Rightarrow> join_loop n B now c' query d
         | OESTORE_SKIP_BUT_EXISTS \<Rightarrow> join_loop n B now c' (OeStoreQuery_set_exists query True) d
         | OESTORE_DO_NOT_SKIP \<Rightarrow>
             (let h = (if OeStoreQuery_is_take query
                       then OeStoreHolder_set_txn_id (OeStoreHolder_set_lock rholder OESTORE_TAKE_LOCK)
                              (OeStoreQuery_get_owner_id query)
                       else rholder);
                  q = OeStoreQuery_set_exists (OeStoreQuery_add_store_holder query h) True
              in if unat (OeStoreQuery_get_max_results q) \<le> OeStoreQuery_get_nitems_found q
                 then Inr (OK, q) else join_loop n B now c' q d)))"

definition get_one ::
  "nat \<Rightarrow> ('d, 'c) bdb \<Rightarrow> oe_time \<Rightarrow> OeStoreQuery \<Rightarrow> DataObject \<Rightarrow> 'd \<Rightarrow> (rc \<times> OeStoreQuery) c_result" where
  "get_one n B now query template d =
     c_bind (calc_nkeys query template) (\<lambda>nkeys.
       if nkeys = 0 then Inr (RC (- 1), query)
       else let (r, cs) = open_cursors B nkeys d
            in if r \<noteq> OK then Inr (r, query)
               else c_bind (if OeStoreQuery_is_tuple query then position_tuple_cursors B template cs d
                            else position_map_cursors B template cs d) (\<lambda>(r1, cs').
                      if r1 \<noteq> OK then Inr (r1, query)
                      else let (r2, jc) = db_join B cs' d
                           in if r2 \<noteq> OK then Inl Use_After_Free
                              else join_loop n B now jc query d))"

section \<open>Putting records\<close>

definition put_holder :: "('d, 'c) bdb \<Rightarrow> OeStoreHolder \<Rightarrow> 'd OeBdb \<Rightarrow> (rc \<times> 'd OeBdb) c_result" where
  "put_holder B holder st =
     (if txn_flags_deadlock B st then Inr (DB_LOCK_DEADLOCK, st)
      else c_bind (OeStoreHolder_marshal holder) (\<lambda>(buffer, buffer_len, holder').
             let (r, d) = db_put B Holder_db (OeStoreHolder_get_lease_id holder') (take buffer_len buffer)
                            (bdb_state st)
             in Inr (r, st\<lparr>bdb_state := d\<rparr>)))"

text \<open>Reading the record behind a result again and checking that it is still free.\<close>

definition recheck :: "('d, 'c) bdb \<Rightarrow> oe_time \<Rightarrow> oe_id \<Rightarrow> 'd \<Rightarrow> rc c_result" where
  "recheck B now lid d =
     c_bind (bdb_get B Holder_db lid d) (\<lambda>(r, data).
       if r = DB_NOTFOUND then Inr (RC OE_STORE_PLEASE_RETRY)
       else if r \<noteq> OK then Inr r
       else c_bind (OeStoreHolder_new_from_buffer data) (\<lambda>rholder.
         if OeStoreHolder_skip now rholder \<noteq> OESTORE_DO_NOT_SKIP then Inr (RC OE_STORE_PLEASE_RETRY)
         else Inr OK))"

fun update_locks_loop ::
  "('d, 'c) bdb \<Rightarrow> oe_time \<Rightarrow> OeStoreHolder list \<Rightarrow> 'd OeBdb \<Rightarrow> (rc \<times> 'd OeBdb) c_result" where
  "update_locks_loop B now [] st = Inr (OK, st)"
| "update_locks_loop B now (result # rs) st =
     c_bind (recheck B now (OeStoreHolder_get_lease_id result) (bdb_state st)) (\<lambda>r.
       if r \<noteq> OK then Inr (r, st)
       else c_bind (put_holder B result st) (\<lambda>(r', st').
         if r' \<noteq> OK then Inr (r', st') else update_locks_loop B now rs st'))"

definition update_locks_for_take ::
  "('d, 'c) bdb \<Rightarrow> oe_time \<Rightarrow> OeStoreQuery \<Rightarrow> 'd OeBdb \<Rightarrow> (rc \<times> 'd OeBdb) c_result" where
  "update_locks_for_take B now query st =
     (if txn_flags_deadlock B st then Inr (RC OE_STORE_PLEASE_RETRY, st)
      else update_locks_loop B now (sq_results query) st)"

fun delete_items_loop ::
  "('d, 'c) bdb \<Rightarrow> oe_time \<Rightarrow> OeStoreHolder list \<Rightarrow> 'd OeBdb \<Rightarrow> (rc \<times> 'd OeBdb) c_result" where
  "delete_items_loop B now [] st = Inr (OK, st)"
| "delete_items_loop B now (result # rs) st =
     (let lid = OeStoreHolder_get_lease_id result in
      c_bind (recheck B now lid (bdb_state st)) (\<lambda>r.
        if r \<noteq> OK then Inr (r, st)
        else let (r', d) = db_del B Holder_db lid (bdb_state st); st' = st\<lparr>bdb_state := d\<rparr>
             in if r' \<noteq> OK then Inr (r', st') else delete_items_loop B now rs st'))"

definition delete_items_for_take ::
  "('d, 'c) bdb \<Rightarrow> oe_time \<Rightarrow> OeStoreQuery \<Rightarrow> 'd OeBdb \<Rightarrow> (rc \<times> 'd OeBdb) c_result" where
  "delete_items_for_take B now query st =
     (if txn_flags_deadlock B st then Inr (RC OE_STORE_PLEASE_RETRY, st)
      else delete_items_loop B now (sq_results query) st)"


section \<open>User transactions\<close>

type_synonym OESTORE_TXN_STATUS = "32 word"

definition OESTORE_TXN_COMMITTED :: OESTORE_TXN_STATUS where
  "OESTORE_TXN_COMMITTED = 0"

definition OESTORE_TXN_ROLLED_BACK :: OESTORE_TXN_STATUS where
  "OESTORE_TXN_ROLLED_BACK = 1"

definition OESTORE_TXN_ACTIVE :: OESTORE_TXN_STATUS where
  "OESTORE_TXN_ACTIVE = 2"

record OESTORE_TXN =
  tx_status :: OESTORE_TXN_STATUS
  tx_expire_time :: oe_time
  tx_begin_time :: oe_time
  tx_end_time :: oe_time
  tx_tid :: oe_id

definition marshal_txn :: "OESTORE_TXN \<Rightarrow> string" where
  "marshal_txn x =
     le_enc 4 (unat (tx_status x)) @ le_enc 8 (unat (tx_expire_time x)) @
     le_enc 8 (unat (tx_begin_time x)) @ le_enc 8 (unat (tx_end_time x))"

text \<open>The identifier is the database key and stays as it was.\<close>

definition unmarshal_txn :: "OESTORE_TXN \<Rightarrow> string \<Rightarrow> OESTORE_TXN c_result" where
  "unmarshal_txn x buffer =
     c_bind (take_le 4 buffer) (\<lambda>(status, b1). c_bind (take_le 8 b1) (\<lambda>(expt, b2).
     c_bind (take_le 8 b2) (\<lambda>(begt, b3). c_bind (take_le 8 b3) (\<lambda>(endt, _).
       Inr (x\<lparr>tx_status := word_of_nat status, tx_expire_time := word_of_nat expt,
              tx_begin_time := word_of_nat begt, tx_end_time := word_of_nat endt\<rparr>)))))"

definition put_oetxn :: "('d, 'c) bdb \<Rightarrow> OESTORE_TXN \<Rightarrow> 'd OeBdb \<Rightarrow> rc \<times> 'd OeBdb" where
  "put_oetxn B oetxn st =
     (if txn_flags_deadlock B st then (DB_LOCK_DEADLOCK, st)
      else let (r, d) = db_put B Txn_db (tx_tid oetxn) (marshal_txn oetxn) (bdb_state st)
           in (r, st\<lparr>bdb_state := d\<rparr>))"

definition get_txn ::
  "('d, 'c) bdb \<Rightarrow> OESTORE_TXN \<Rightarrow> bool \<Rightarrow> 'd OeBdb \<Rightarrow> (rc \<times> OESTORE_TXN) c_result" where
  "get_txn B oetxn in_txn st =
     (if in_txn \<and> txn_flags_deadlock B st then Inr (DB_LOCK_DEADLOCK, oetxn)
      else c_bind (bdb_get B Txn_db (tx_tid oetxn) (bdb_state st)) (\<lambda>(r, bytes).
             if r = OK then c_bind (unmarshal_txn oetxn bytes) (\<lambda>x. Inr (r, x)) else Inr (r, oetxn)))"

definition zero_txn :: "oe_id \<Rightarrow> OESTORE_TXN" where
  "zero_txn tid = \<lparr>tx_status = 0, tx_expire_time = 0, tx_begin_time = 0, tx_end_time = 0, tx_tid = tid\<rparr>"

definition txn_is_active :: "('d, 'c) bdb \<Rightarrow> oe_id \<Rightarrow> 'd OeBdb \<Rightarrow> bool c_result" where
  "txn_is_active B tid st =
     (if tid = 0 then Inl Assert_Failed
      else c_bind (get_txn B (zero_txn tid) False st) (\<lambda>(r, oetxn).
             Inr (r = OK \<and> tx_status oetxn = OESTORE_TXN_ACTIVE)))"

text \<open>
  The loop of \<^verbatim>\<open>_finish_oetxn\<close> over the records a transaction owns: those with the delete lock are
  deleted through the cursor, those with the clear lock are rewritten without owner and lock and
  remembered, anything else stops the loop.  The result says whether the loop was left by a
  \<^verbatim>\<open>return\<close> (\<open>True\<close>), with the code, the number of records visited and the data of the cleared ones.
\<close>

fun finish_loop ::
  "nat \<Rightarrow> ('d, 'c) bdb \<Rightarrow> OESTORE_LOCK \<Rightarrow> OESTORE_LOCK \<Rightarrow> oe_id \<Rightarrow> cursor_op \<Rightarrow> 'c \<Rightarrow> int \<Rightarrow>
   DataObject list \<Rightarrow> 'd OeBdb \<Rightarrow> (bool \<times> rc \<times> int \<times> DataObject list \<times> 'c \<times> 'd OeBdb) c_result" where
  "finish_loop 0 B dlock clock tid cop c cnt unl st = Inl Fuel_Spent"
| "finish_loop (Suc n) B dlock clock tid cop c cnt unl st =
     c_bind (get_with_cursor B c cop (Owner_Key tid) (bdb_state st)) (\<lambda>(r, bytes, c').
       if r \<noteq> OK then Inr (False, r, cnt, unl, c', st)
       else c_bind (OeStoreHolder_new_from_buffer bytes) (\<lambda>rholder.
         let lock = OeStoreHolder_get_lock rholder in
         if lock = dlock
         then let (lret, d) = cur_del B c' (bdb_state st); st' = st\<lparr>bdb_state := d\<rparr>
              in if lret \<noteq> OK then Inr (True, lret, cnt + 1, unl, c', st')
                 else finish_loop n B dlock clock tid DB_NEXT_DUP c' (cnt + 1) unl st'
         else if lock = clock
         then let h = OeStoreHolder_set_lock (OeStoreHolder_set_txn_id rholder 0) OESTORE_UNLOCKED;
                  unl' = Oec_AList_append unl (Oec_AList_list [Some (fst (OeStoreHolder_get_data h)), None])
              in c_bind (OeStoreHolder_marshal h) (\<lambda>(buffer, buffer_len, h').
                   let (r', d) = db_put B Holder_db (OeStoreHolder_get_lease_id h') (take buffer_len buffer)
                                   (bdb_state st);
                       st' = st\<lparr>bdb_state := d\<rparr>
                   in if r' \<noteq> OK then Inr (True, r', cnt + 1, unl', c', st')
                      else finish_loop n B dlock clock tid DB_NEXT_DUP c' (cnt + 1) unl' st')
         else Inr (True, RC (- 1), cnt + 1, unl, c', st)))"

definition finish_oetxn ::
  "nat \<Rightarrow> ('d, 'c) bdb \<Rightarrow> oe_time \<Rightarrow> OESTORE_TXN \<Rightarrow> OESTORE_LOCK \<Rightarrow> OESTORE_LOCK \<Rightarrow> OESTORE_TXN_STATUS \<Rightarrow>
   int \<Rightarrow> 'd OeBdb \<Rightarrow> (rc \<times> OESTORE_TXN \<times> DataObject list \<times> 'd OeBdb) c_result" where
  "finish_oetxn n B now oetxn dlock clock txn_status expected st =
     (if txn_flags_deadlock B st then Inr (DB_LOCK_DEADLOCK, oetxn, [], st)
      else if tx_status oetxn \<noteq> OESTORE_TXN_ACTIVE then Inr (RC OESTORE_ALREADY_COMPLETE_ERR, oetxn, [], st)
      else if tx_tid oetxn = 0 then Inr (RC OESTORE_IS_NULL_ERR, oetxn, [], st)
      else let (r, c) = cur_open B Owner_id_idx (bdb_state st)
           in if r \<noteq> OK then Inr (r, oetxn, [], st)
              else c_bind (finish_loop n B dlock clock (tx_tid oetxn) DB_SET c 0 [] st)
                     (\<lambda>(early, r1, updated_items, unlocked, c', st').
                     if early then Inr (r1, oetxn, unlocked, st')
                     else let lret = cur_close B c' (bdb_state st')
                          in if lret = DB_LOCK_DEADLOCK then Inr (lret, oetxn, unlocked, st')
                             else if expected \<noteq> - 1 \<and> updated_items \<noteq> expected
                             then Inr (RC OESTORE_ENLISTED_COUNT_INCORRECT, oetxn, unlocked, st')
                             else let oetxn' = oetxn\<lparr>tx_end_time := now, tx_status := txn_status,
                                                     tx_expire_time := now\<rparr>
                                  in Inr (if r1 = DB_NOTFOUND then OK else r1, oetxn', unlocked, st')))"

section \<open>The store interface\<close>

text \<open>\<^verbatim>\<open>_create_id\<close> asks the sequence again until it answers.\<close>

fun create_id :: "nat \<Rightarrow> ('d, 'c) bdb \<Rightarrow> 'd OeBdb \<Rightarrow> (oe_id \<times> 'd OeBdb) c_result" where
  "create_id 0 B st = Inl Fuel_Spent"
| "create_id (Suc n) B st =
     (let (r, seqnum, d) = seq_get B (bdb_state st); st' = st\<lparr>bdb_state := d\<rparr>
      in if r \<noteq> OK then create_id n B st' else Inr (seqnum, st'))"

definition set_fire_write_event_cb :: "'d OeBdb \<Rightarrow> bool \<Rightarrow> 'd OeBdb" where
  "set_fire_write_event_cb st cb = st\<lparr>fire_write_event := cb\<rparr>"

definition fire :: "DataObject list \<Rightarrow> 'd OeBdb \<Rightarrow> 'd OeBdb" where
  "fire ds st = (if fire_write_event st then st\<lparr>fired := fired st @ ds\<rparr> else st)"

definition try_put :: "('d, 'c) bdb \<Rightarrow> OeStoreHolder \<Rightarrow> 'd OeBdb \<Rightarrow> (rc \<times> 'd OeBdb) c_result" where
  "try_put B holder st =
     (let tid = OeStoreHolder_get_txn_id holder in
      c_bind (if tid \<noteq> 0 then txn_is_active B tid st else Inr True) (\<lambda>active.
        if \<not> active then Inr (RC OESTORE_INACTIVE_TXN, st)
        else c_bind (put_holder B holder st) (\<lambda>(r, st1).
          if r \<noteq> OK then Inr (r, st1)
          else c_bind (if \<not> txn_flags_deadlock B st1 then commit_txn B st1 else Inr (DB_LOCK_DEADLOCK, st1))
                 (\<lambda>(r2, st2).
                 if r2 \<noteq> OK then Inr (r2, st2)
                 else Inr (OK, if tid = 0 then fire [fst (OeStoreHolder_get_data holder)] st2 else st2)))))"

text \<open>The transaction handle is a local variable that \<^verbatim>\<open>_handlerc\<close> gets whatever became of it.\<close>

definition api_put ::
  "nat \<Rightarrow> ('d, 'c) bdb \<Rightarrow> OeStoreHolder \<Rightarrow> 'd OeBdb \<Rightarrow> (rc \<times> OeStoreHolder \<times> 'd OeBdb) c_result" where
  "api_put n B holder st =
     c_bind (create_id n B st) (\<lambda>(lease_id, st0).
       let holder' = OeStoreHolder_set_lease_id holder lease_id;
           (r, st1) = begin_txn B st0
       in c_bind (if r = OK then try_put B holder' st1 else Inr (r, st1)) (\<lambda>(r2, st2).
            c_bind (handlerc B r2 True st2) (\<lambda>(r3, st3). Inr (r3, holder', st3))))"

text \<open>The loop over the templates of a query.  A miss ends the search when every template has to
  match.\<close>

fun templates_loop ::
  "nat \<Rightarrow> ('d, 'c) bdb \<Rightarrow> oe_time \<Rightarrow> bool \<Rightarrow> DataObject list \<Rightarrow> rc \<Rightarrow> OeStoreQuery \<Rightarrow> 'd \<Rightarrow>
   (rc \<times> OeStoreQuery) c_result" where
  "templates_loop n B now all_of [] r query d = Inr (r, query)"
| "templates_loop n B now all_of (t # ts) r query d =
     (let hits = OeStoreQuery_get_nitems_found query in
      c_bind (get_one n B now query t d) (\<lambda>(r1, query1).
        if r1 \<noteq> OK \<and> r1 \<noteq> DB_NOTFOUND then Inr (r1, query1)
        else if all_of \<and> hits = OeStoreQuery_get_nitems_found query1
        then Inr (DB_NOTFOUND, OeStoreQuery_reset_nitems_found query1)
        else templates_loop n B now all_of ts r1 query1 d))"

text \<open>How \<^verbatim>\<open>_api_get\<close> ends: giving up with a code, taking what was found, or returning it.\<close>

definition get_failed ::
  "('d, 'c) bdb \<Rightarrow> rc \<Rightarrow> OeStoreQuery \<Rightarrow> 'd OeBdb \<Rightarrow> (rc \<times> OeStoreQuery \<times> 'd OeBdb) c_result" where
  "get_failed B r query st =
     c_bind (finish_txn B st False) (\<lambda>(_, st1).
       c_bind (handlerc B r False st1) (\<lambda>(r', st'). Inr (r', query, st')))"

definition get_taken ::
  "('d, 'c) bdb \<Rightarrow> oe_time \<Rightarrow> OeStoreQuery \<Rightarrow> 'd OeBdb \<Rightarrow> (rc \<times> OeStoreQuery \<times> 'd OeBdb) c_result" where
  "get_taken B now query st =
     c_bind (if OeStoreQuery_get_owner_id query = 0 then delete_items_for_take B now query st
             else update_locks_for_take B now query st) (\<lambda>(r, st1).
       if r \<noteq> OK then get_failed B r query st1
       else c_bind (finish_txn B st1 True) (\<lambda>(lret, st2).
              c_bind (handlerc B lret False st2) (\<lambda>(r', st'). Inr (r', query, st'))))"

definition get_read ::
  "('d, 'c) bdb \<Rightarrow> rc \<Rightarrow> OeStoreQuery \<Rightarrow> 'd OeBdb \<Rightarrow> (rc \<times> OeStoreQuery \<times> 'd OeBdb) c_result" where
  "get_read B r query st =
     c_bind (finish_txn B st False) (\<lambda>(_, st1).
       if OeStoreQuery_get_nitems_found query = 0 then Inr (RC OE_STORE_ITEM_NOTFOUND, query, st1)
       else c_bind (handlerc B r False st1) (\<lambda>(r', st'). Inr (r', query, st')))"

text \<open>A miss on one of several alternatives does not count when another one was found.\<close>

definition search_code :: "bool \<Rightarrow> rc \<Rightarrow> OeStoreQuery \<Rightarrow> rc" where
  "search_code all_of r query =
     (if \<not> all_of \<and> r = DB_NOTFOUND \<and> 0 < OeStoreQuery_get_nitems_found query then OK else r)"

definition api_get ::
  "nat \<Rightarrow> ('d, 'c) bdb \<Rightarrow> oe_time \<Rightarrow> OeStoreQuery \<Rightarrow> 'd OeBdb \<Rightarrow> (rc \<times> OeStoreQuery \<times> 'd OeBdb) c_result" where
  "api_get n B now query st =
     (let tid = OeStoreQuery_get_owner_id query in
      c_bind (if OeStoreQuery_is_take query \<and> tid \<noteq> 0 then txn_is_active B tid st else Inr True) (\<lambda>active.
      if \<not> active then c_bind (handlerc B (RC OESTORE_INACTIVE_TXN) False st) (\<lambda>(r, st'). Inr (r, query, st'))
      else
        let all_of = (OeStoreQuery_get_max_results query = 0); (r0, st0) = begin_txn B st
        in if r0 \<noteq> OK then c_bind (handlerc B r0 False st0) (\<lambda>(r, st'). Inr (r, query, st'))
           else c_bind (OeStoreQuery_get_value_lists query) (\<lambda>value_lists.
                c_bind (templates_loop n B now all_of value_lists OK query (bdb_state st0)) (\<lambda>(r1, query1).
                  let r2 = search_code all_of r1 query1
                  in if r2 \<noteq> OK then get_failed B r2 query1 st0
                     else if OeStoreQuery_is_take query \<and> 0 < OeStoreQuery_get_nitems_found query1
                     then get_taken B now query1 st0
                     else get_read B r2 query1 st0))))"

definition update_lease ::
  "('d, 'c) bdb \<Rightarrow> oe_time \<Rightarrow> oe_id \<Rightarrow> oe_time \<Rightarrow> 'd OeBdb \<Rightarrow> (rc \<times> 'd OeBdb) c_result" where
  "update_lease B now lease_id expire_time st =
     (let (r0, st0) = begin_txn B st in
      if r0 \<noteq> OK then handlerc B r0 False st0
      else c_bind (bdb_get B Holder_db lease_id (bdb_state st0)) (\<lambda>(r1, bytes).
        if r1 \<noteq> OK then handlerc B r1 True st0
        else c_bind (OeStoreHolder_new_from_buffer bytes) (\<lambda>rholder.
          let holder_exptime = OeStoreHolder_get_lease_expire_time rholder in
          if holder_exptime \<noteq> OEC_FOREVER \<and> sint holder_exptime < sint now
          then c_bind (abort_txn B st0) (\<lambda>st1. Inr (RC (- 1), st1))
          else c_bind (OeStoreHolder_marshal (OeStoreHolder_set_lease_expire_time rholder expire_time))
                 (\<lambda>(buffer, buffer_len, _).
                 let (r2, d) = db_put B Holder_db lease_id (take buffer_len buffer) (bdb_state st0);
                     st1 = st0\<lparr>bdb_state := d\<rparr>
                 in if r2 \<noteq> OK then handlerc B r2 True st1
                    else if \<not> txn_flags_deadlock B st1
                    then c_bind (commit_txn B st1) (\<lambda>(r3, st2). handlerc B r3 False st2)
                    else handlerc B DB_LOCK_DEADLOCK True st1))))"

definition start_txn ::
  "nat \<Rightarrow> ('d, 'c) bdb \<Rightarrow> oe_time \<Rightarrow> oe_dur \<Rightarrow> OESTORE_TXN \<Rightarrow> 'd OeBdb \<Rightarrow>
   (rc \<times> OESTORE_TXN \<times> 'd OeBdb) c_result" where
  "start_txn n B now dur oetxn st =
     (let (r0, st0) = begin_txn B st in
      if r0 \<noteq> OK then c_bind (handlerc B r0 False st0) (\<lambda>(r, st'). Inr (r, oetxn, st'))
      else let exptime = (if dur = OEC_FOREVER then OEC_FOREVER else now + dur) in
           c_bind (create_id n B st0) (\<lambda>(tid, st1).
             let x = \<lparr>tx_status = OESTORE_TXN_ACTIVE, tx_expire_time = exptime, tx_begin_time = now,
                      tx_end_time = 0, tx_tid = tid\<rparr>;
                 (r1, st2) = put_oetxn B x st1
             in if r1 = OK
                then c_bind (commit_txn B st2) (\<lambda>(r2, st3).
                     c_bind (handlerc B r2 False st3) (\<lambda>(r, st'). Inr (r, x, st')))
                else c_bind (handlerc B r1 True st2) (\<lambda>(r, st'). Inr (r, x, st'))))"

definition update_txn ::
  "nat \<Rightarrow> ('d, 'c) bdb \<Rightarrow> oe_time \<Rightarrow> oe_id \<Rightarrow> oe_dur \<Rightarrow> OESTORE_TXN_STATUS \<Rightarrow> int \<Rightarrow> 'd OeBdb \<Rightarrow>
   (rc \<times> 'd OeBdb) c_result" where
  "update_txn n B now tid dur status expected st =
     (let (r0, st0) = begin_txn B st in
      if r0 \<noteq> OK then handlerc B r0 False st0
      else c_bind (get_txn B (zero_txn tid) True st0) (\<lambda>(r1, oetxn).
        if r1 \<noteq> OK then handlerc B r1 True st0
        else if tx_status oetxn = OESTORE_TXN_ROLLED_BACK
        then c_bind (abort_txn B st0) (\<lambda>st1.
             Inr (if status \<noteq> OESTORE_TXN_ROLLED_BACK then RC OESTORE_UPDATING_ROLLEDBACK_TXN_ERR else OK, st1))
        else if tx_status oetxn = OESTORE_TXN_COMMITTED
        then c_bind (abort_txn B st0) (\<lambda>st1.
             Inr (if status \<noteq> OESTORE_TXN_COMMITTED then RC OESTORE_UPDATING_COMMITTED_TXN_ERR else OK, st1))
        else if tx_expire_time oetxn \<noteq> OEC_FOREVER \<and> sint (tx_expire_time oetxn) < sint now
        then c_bind (abort_txn B st0) (\<lambda>st1. Inr (RC OESTORE_UPDATING_EXPIRED_TXN_ERR, st1))
        else
          let oetxn1 = (if 0 < sint dur then oetxn\<lparr>tx_expire_time := now + dur\<rparr> else oetxn) in
          c_bind (if status = OESTORE_TXN_COMMITTED
                  then finish_oetxn n B now oetxn1 OESTORE_TAKE_LOCK OESTORE_WRITE_LOCK status expected st0
                  else if status = OESTORE_TXN_ROLLED_BACK
                  then finish_oetxn n B now oetxn1 OESTORE_WRITE_LOCK OESTORE_TAKE_LOCK status (- 1) st0
                  else Inr (OK, oetxn1, [], st0)) (\<lambda>(r2, oetxn2, unlocked_items, st1).
            if r2 \<noteq> OK then handlerc B r2 True st1
            else let (r3, st2) = put_oetxn B oetxn2 st1 in
                 if r3 \<noteq> OK then handlerc B r3 True st2
                 else if txn_flags_deadlock B st2 then handlerc B DB_LOCK_DEADLOCK True st2
                 else c_bind (commit_txn B st2) (\<lambda>(r4, st3).
                      if r4 \<noteq> OK then handlerc B r4 False st3
                      else handlerc B r4 False (if unlocked_items \<noteq> [] then fire unlocked_items st3 else st3)))))"

section \<open>The lease reaper\<close>

text \<open>These reads let the library allocate the buffer.\<close>

definition DBT_MALLOC :: nat where
  "DBT_MALLOC = 4294967295"

text \<open>The loop starts at the first lease that runs out at or after the present time and walks back; a
  lease that is not over yet is passed over.  Result as for \<open>finish_loop\<close>: left by a \<^verbatim>\<open>return\<close>, the
  code of the last read, the value of \<^verbatim>\<open>ret\<close>.\<close>

fun reap_loop ::
  "nat \<Rightarrow> ('d, 'c) bdb \<Rightarrow> oe_time \<Rightarrow> cursor_op \<Rightarrow> 'c \<Rightarrow> int \<Rightarrow> 'd OeBdb \<Rightarrow>
   (bool \<times> rc \<times> int \<times> 'c \<times> 'd OeBdb) c_result" where
  "reap_loop 0 B now cop c cnt st = Inl Fuel_Spent"
| "reap_loop (Suc n) B now cop c cnt st =
     (let (lret, bytes, _, c') = cur_get B c cop (Time_Key now) DBT_MALLOC (bdb_state st) in
      if lret \<noteq> OK then Inr (False, lret, 0, c', st)
      else c_bind (OeStoreHolder_peek_txn_id bytes) (\<lambda>owner.
        if owner \<noteq> 0 then Inl Assert_Failed
        else c_bind (OeStoreHolder_peek_lease_exp_time bytes) (\<lambda>exptime.
          if sint now < sint exptime then reap_loop n B now DB_PREV c' (cnt + 1) st
          else let (llret, d) = cur_del B c' (bdb_state st); st' = st\<lparr>bdb_state := d\<rparr>
               in if llret \<noteq> OK \<and> llret \<noteq> DB_NOTFOUND then Inr (True, llret, 0, c', st')
                  else if OESTORE_MAX_LEASE_REAP \<le> cnt + 1 then Inr (False, OK, 0, c', st')
                  else if OESTORE_MAX_LEASE_REAP_COMMIT \<le> cnt + 1 then Inr (False, OK, 1, c', st')
                  else reap_loop n B now DB_PREV c' (cnt + 1) st')))"

definition reaper_off :: "'d OeBdb \<Rightarrow> 'd OeBdb" where
  "reaper_off st = snd (set_reaper_running False st False)"

definition lease_reaper ::
  "nat \<Rightarrow> bool \<Rightarrow> ('d, 'c) bdb \<Rightarrow> oe_time \<Rightarrow> 'd OeBdb \<Rightarrow> (int \<times> 'd OeBdb) c_result" where
  "lease_reaper n uninit B now st =
     (let (go, sta) = set_reaper_running uninit st True in
      if \<not> go then Inr (0, sta)
      else let (r0, st0) = begin_txn B sta in
        if r0 \<noteq> OK then Inl Use_After_Free
        else let (lret, cur) = cur_open B Expire_time_idx (bdb_state st0) in
          if lret \<noteq> OK then c_bind (abort_txn B st0) (\<lambda>st1. Inr (- 1, reaper_off st1))
          else c_bind (reap_loop n B now DB_SET_RANGE cur 0 st0) (\<lambda>(early, lret1, ret, cur', st1).
            if early \<or> (lret1 \<noteq> OK \<and> lret1 \<noteq> DB_NOTFOUND)
            then c_bind (abort_txn B st1) (\<lambda>st2. Inr (- 1, reaper_off st2))
            else if cur_close B cur' (bdb_state st1) \<noteq> OK
            then c_bind (abort_txn B st1) (\<lambda>st2. Inr (- 1, reaper_off st2))
            else c_bind (commit_txn B st1) (\<lambda>(lret2, st2).
                   if lret2 \<noteq> OK then Inl Null_Deref else Inr (ret, reaper_off st2))))"

end
