(* ===== verification/Bdb_Laws.thy ===== *)
theory Bdb_Laws
  imports Bdb_Store
begin

text \<open>
  What \<^verbatim>\<open>corelib/OeBdb.c\<close> relies on in Berkeley DB, stated over what can be observed of the environment,
  and the theorems about the store that follow from it.

  A \<open>bdb_view\<close> observes a state: the records of the two primary databases as the open transaction
  sees them, the records that were there when it began (what an abort goes back to), the order in
  which the duplicates of a secondary key are delivered, and for a cursor the key it was set on, the
  record it stands on and the records still ahead of it.
\<close>

section \<open>Observations\<close>

record ('d, 'c) bdb_view =
  v_db :: "primary \<Rightarrow> 'd \<Rightarrow> oe_id \<Rightarrow> string option"
  v_saved :: "primary \<Rightarrow> 'd \<Rightarrow> oe_id \<Rightarrow> string option"
  v_dups :: "index_key \<Rightarrow> 'd \<Rightarrow> oe_id list"
  v_at :: "'c \<Rightarrow> index_key"
  v_cur :: "'c \<Rightarrow> oe_id option"
  v_rest :: "'c \<Rightarrow> oe_id list"

text \<open>Under which secondary keys a record is found, by the callbacks the code registers.\<close>

fun indexed :: "index_key \<Rightarrow> string \<Rightarrow> bool" where
  "indexed (Prop_Key k) b = (case set_props b of Inr (r, ks) \<Rightarrow> r = OK \<and> k \<in> set ks | Inl _ \<Rightarrow> False)"
| "indexed (Owner_Key t) b = (case set_owner b of Inr (r, ts) \<Rightarrow> r = OK \<and> t \<in> set ts | Inl _ \<Rightarrow> False)"
| "indexed (Time_Key t) b = (case set_expire_time b of Inr (r, ts) \<Rightarrow> r = OK \<and> t \<in> set ts | Inl _ \<Rightarrow> False)"

definition hits :: "('d, 'c) bdb_view \<Rightarrow> index_key \<Rightarrow> 'd \<Rightarrow> oe_id set" where
  "hits V key d = {k. case v_db V Holder_db d k of None \<Rightarrow> False | Some b \<Rightarrow> indexed key b}"

text \<open>Owner identifiers on which the comparison function orders correctly.\<close>

definition owners_small :: "('d, 'c) bdb_view \<Rightarrow> 'd \<Rightarrow> bool" where
  "owners_small V d = (\<forall>t k. k \<in> hits V (Owner_Key t) d \<longrightarrow> unat t < 2 ^ 31)"

text \<open>A return code that says neither that a read succeeded nor why it found nothing.  The codes of
  Berkeley DB are the system's positive error numbers and its own ones from -30999 to -30800.\<close>

definition failure :: "rc \<Rightarrow> bool" where
  "failure r = (r \<notin> {OK, DB_NOTFOUND, DB_BUFFER_SMALL} \<and> (case r of RC i \<Rightarrow> - 31000 < i | _ \<Rightarrow> True))"

section \<open>Documented behaviour\<close>

definition same_view :: "('d, 'c) bdb_view \<Rightarrow> 'd \<Rightarrow> 'd \<Rightarrow> bool" where
  "same_view V d d' = (v_db V Holder_db d' = v_db V Holder_db d \<and> v_db V Txn_db d' = v_db V Txn_db d)"

definition same_saved :: "('d, 'c) bdb_view \<Rightarrow> 'd \<Rightarrow> 'd \<Rightarrow> bool" where
  "same_saved V d d' =
     (v_saved V Holder_db d' = v_saved V Holder_db d \<and> v_saved V Txn_db d' = v_saved V Txn_db d)"

definition back_to_saved :: "('d, 'c) bdb_view \<Rightarrow> 'd \<Rightarrow> 'd \<Rightarrow> bool" where
  "back_to_saved V d d' =
     (v_db V Holder_db d' = v_saved V Holder_db d \<and> v_db V Txn_db d' = v_saved V Txn_db d)"

text \<open>Transactions: beginning one changes nothing and remembers the state; committing makes the changes
  permanent or, when it fails, undoes them; aborting undoes them.\<close>

definition txn_laws :: "('d, 'c) bdb \<Rightarrow> ('d, 'c) bdb_view \<Rightarrow> bool" where
  "txn_laws B V =
     ((\<forall>d r d'. txn_begin B d = (r, d') \<longrightarrow>
         same_view V d d' \<and> (if r = OK then back_to_saved V d' d' else failure r)) \<and>
      (\<forall>d r d'. txn_commit B d = (r, d') \<longrightarrow>
         (if r = OK then same_view V d d' else failure r \<and> back_to_saved V d d')) \<and>
      (\<forall>d. back_to_saved V d (txn_abort B d)) \<and>
      (\<forall>d r s d'. seq_get B d = (r, s, d') \<longrightarrow> same_view V d d' \<and> same_saved V d d'))"

text \<open>A read that has a record to deliver succeeds, or reports the buffer too small together with the
  size needed, or fails.\<close>

definition delivers :: "string \<Rightarrow> nat \<Rightarrow> rc \<Rightarrow> string \<Rightarrow> nat \<Rightarrow> bool" where
  "delivers b ulen r out sz =
     (r = OK \<and> length b \<le> ulen \<and> out = b \<or>
      r = DB_BUFFER_SMALL \<and> ulen < length b \<and> sz = length b \<or> failure r)"

definition db_laws :: "('d, 'c) bdb \<Rightarrow> ('d, 'c) bdb_view \<Rightarrow> bool" where
  "db_laws B V =
     ((\<forall>p k ulen d r out sz. db_get B p k ulen d = (r, out, sz) \<longrightarrow>
         (case v_db V p d k of None \<Rightarrow> r = DB_NOTFOUND \<or> failure r | Some b \<Rightarrow> delivers b ulen r out sz)) \<and>
      (\<forall>p k b d r d'. db_put B p k b d = (r, d') \<longrightarrow> same_saved V d d' \<and>
         (if r = OK then \<forall>q. v_db V q d' = (if q = p then (v_db V q d)(k \<mapsto> b) else v_db V q d)
          else failure r)) \<and>
      (\<forall>p k d r d'. db_del B p k d = (r, d') \<longrightarrow> same_saved V d d' \<and>
         (if r = OK then \<forall>q. v_db V q d' = (if q = p then (v_db V q d)(k := None) else v_db V q d)
          else failure r \<or> r = DB_NOTFOUND \<and> v_db V p d k = None)))"

text \<open>Cursors on a secondary index deliver primary records: \<^verbatim>\<open>DB_SET\<close> the first duplicate of the key,
  \<^verbatim>\<open>DB_NEXT_DUP\<close> the next one that is still there; deleting through the cursor deletes the primary
  record it stands on.  The cursor stays where it was when a read only found the buffer too small.\<close>

definition still_there :: "('d, 'c) bdb_view \<Rightarrow> 'd \<Rightarrow> 'c \<Rightarrow> oe_id list" where
  "still_there V d c = dropWhile (\<lambda>k. k \<notin> hits V (v_at V c) d) (v_rest V c)"

definition cursor_step ::
  "('d, 'c) bdb_view \<Rightarrow> index_key \<Rightarrow> oe_id list \<Rightarrow> 'd \<Rightarrow> nat \<Rightarrow> 'c \<Rightarrow> rc \<Rightarrow> string \<Rightarrow> nat \<Rightarrow> 'c \<Rightarrow> bool" where
  "cursor_step V key ks d ulen c r out sz c' =
     (case ks of
        [] \<Rightarrow> r = DB_NOTFOUND \<or> failure r
      | k # ks' \<Rightarrow>
          (case v_db V Holder_db d k of
             None \<Rightarrow> failure r
           | Some b \<Rightarrow> delivers b ulen r out sz \<and> (r = DB_BUFFER_SMALL \<longrightarrow> c' = c) \<and>
               (r = OK \<longrightarrow> v_at V c' = key \<and> v_cur V c' = Some k \<and> v_rest V c' = ks')))"

definition index_laws :: "('d, 'c) bdb_view \<Rightarrow> 'd \<Rightarrow> bool" where
  "index_laws V d =
     ((\<forall>s. distinct (v_dups V (Prop_Key s) d) \<and> set (v_dups V (Prop_Key s) d) = hits V (Prop_Key s) d) \<and>
      (\<forall>t. owners_small V d \<and> unat t < 2 ^ 31 \<longrightarrow>
         distinct (v_dups V (Owner_Key t) d) \<and> set (v_dups V (Owner_Key t) d) = hits V (Owner_Key t) d))"

definition cursor_laws :: "('d, 'c) bdb \<Rightarrow> ('d, 'c) bdb_view \<Rightarrow> bool" where
  "cursor_laws B V =
     ((\<forall>c key ulen d r out sz c'. cur_get B c DB_SET key ulen d = (r, out, sz, c') \<longrightarrow>
         cursor_step V key (v_dups V key d) d ulen c r out sz c') \<and>
      (\<forall>c key ulen d r out sz c'. cur_get B c DB_NEXT_DUP key ulen d = (r, out, sz, c') \<longrightarrow>
         cursor_step V (v_at V c) (still_there V d c) d ulen c r out sz c') \<and>
      (\<forall>c d r d'. cur_del B c d = (r, d') \<longrightarrow> same_saved V d d' \<and> (r = DB_NOTFOUND \<longrightarrow> same_view V d d') \<and>
         (r = OK \<longrightarrow> (case v_cur V c of None \<Rightarrow> False
            | Some k \<Rightarrow> v_db V Holder_db d' = (v_db V Holder_db d)(k := None) \<and>
                v_db V Txn_db d' = v_db V Txn_db d))))"

text \<open>A join of positioned cursors delivers, once each, the records found under the keys of all of them.\<close>

definition join_laws :: "('d, 'c) bdb \<Rightarrow> ('d, 'c) bdb_view \<Rightarrow> bool" where
  "join_laws B V =
     ((\<forall>i d r c. cur_open B i d = (r, c) \<longrightarrow> r = OK \<or> failure r) \<and>
      (\<forall>cs d jc. db_join B cs d = (OK, jc) \<longrightarrow>
         distinct (v_rest V jc) \<and> set (v_rest V jc) = (\<Inter>c \<in> set cs. hits V (v_at V c) d)) \<and>
      (\<forall>c key ulen d r out sz c'. cur_get B c Join_Next key ulen d = (r, out, sz, c') \<longrightarrow>
         cursor_step V (v_at V c) (v_rest V c) d ulen c r out sz c'))"

text \<open>\<^verbatim>\<open>DB_SET_RANGE\<close> on the expiry index finds a lease that runs out at or after the given time, if the
  times are near enough for the comparison function, and \<^verbatim>\<open>DB_PREV\<close> one of the indexed leases.\<close>

definition times_near :: "('d, 'c) bdb_view \<Rightarrow> oe_time \<Rightarrow> 'd \<Rightarrow> bool" where
  "times_near V now d = (\<forall>t k. k \<in> hits V (Time_Key t) d \<longrightarrow> \<bar>sint t - sint now\<bar> < 2 ^ 31)"

definition range_laws :: "('d, 'c) bdb \<Rightarrow> ('d, 'c) bdb_view \<Rightarrow> bool" where
  "range_laws B V =
     ((\<forall>c now ulen d r out sz c'. cur_get B c DB_SET_RANGE (Time_Key now) ulen d = (r, out, sz, c') \<longrightarrow>
         times_near V now d \<longrightarrow> r = OK \<longrightarrow>
         (\<exists>t k. k \<in> hits V (Time_Key t) d \<and> sint now \<le> sint t \<and> v_cur V c' = Some k \<and>
            v_db V Holder_db d k = Some out)) \<and>
      (\<forall>c now ulen d r out sz c'. cur_get B c DB_PREV (Time_Key now) ulen d = (r, out, sz, c') \<longrightarrow>
         r = OK \<longrightarrow> (\<exists>t k. k \<in> hits V (Time_Key t) d \<and> v_cur V c' = Some k \<and>
            v_db V Holder_db d k = Some out)))"

definition bdb_laws :: "('d, 'c) bdb \<Rightarrow> ('d, 'c) bdb_view \<Rightarrow> bool" where
  "bdb_laws B V =
     (txn_laws B V \<and> db_laws B V \<and> (\<forall>d. index_laws V d) \<and> cursor_laws B V \<and> join_laws B V \<and> range_laws B V)"

lemma bdb_lawsD:
  assumes "bdb_laws B V"
  shows "txn_laws B V" "db_laws B V" "\<And>d. index_laws V d" "cursor_laws B V" "join_laws B V" "range_laws B V"
  using assms by (simp_all add: bdb_laws_def)

lemma db_lawsD:
  assumes "bdb_laws B V"
  shows "db_get B p k u d = (r, out, sz) \<Longrightarrow>
      (case v_db V p d k of None \<Rightarrow> r = DB_NOTFOUND \<or> failure r | Some b \<Rightarrow> delivers b u r out sz)"
    and "db_put B p k b d = (r, d') \<Longrightarrow> same_saved V d d'"
    and "db_put B p k b d = (OK, d') \<Longrightarrow> v_db V q d' = (if q = p then (v_db V q d)(k \<mapsto> b) else v_db V q d)"
    and "db_del B p k d = (r, d') \<Longrightarrow> same_saved V d d'"
    and "db_del B p k d = (OK, d') \<Longrightarrow> v_db V q d' = (if q = p then (v_db V q d)(k := None) else v_db V q d)"
    and "db_put B p k b d = (r, d') \<Longrightarrow> r = OK \<or> failure r"
    and "db_del B p k d = (r, d') \<Longrightarrow> v_db V p d k \<noteq> None \<Longrightarrow> r = OK \<or> failure r"
proof -
  note L = bdb_lawsD(2) [OF assms, unfolded db_laws_def]
  show "db_get B p k u d = (r, out, sz) \<Longrightarrow>
      (case v_db V p d k of None \<Rightarrow> r = DB_NOTFOUND \<or> failure r | Some b \<Rightarrow> delivers b u r out sz)"
    by (rule L [THEN conjunct1, rule_format])
  note P = L [THEN conjunct2, THEN conjunct1, rule_format]
  show "db_put B p k b d = (r, d') \<Longrightarrow> same_saved V d d'" by (rule P [THEN conjunct1])
  show "db_put B p k b d = (OK, d') \<Longrightarrow> v_db V q d' = (if q = p then (v_db V q d)(k \<mapsto> b) else v_db V q d)"
    using P [THEN conjunct2] by auto
  show "db_put B p k b d = (r, d') \<Longrightarrow> r = OK \<or> failure r" using P [THEN conjunct2] by metis
  note D = L [THEN conjunct2, THEN conjunct2, rule_format]
  show "db_del B p k d = (r, d') \<Longrightarrow> same_saved V d d'" by (rule D [THEN conjunct1])
  show "db_del B p k d = (OK, d') \<Longrightarrow> v_db V q d' = (if q = p then (v_db V q d)(k := None) else v_db V q d)"
    using D [THEN conjunct2] by auto
  show "db_del B p k d = (r, d') \<Longrightarrow> v_db V p d k \<noteq> None \<Longrightarrow> r = OK \<or> failure r"
    using D [THEN conjunct2] by metis
qed

lemma txn_lawsD:
  assumes "bdb_laws B V"
  shows "txn_begin B d = (r, d') \<Longrightarrow> same_view V d d'"
    and "txn_begin B d = (OK, d') \<Longrightarrow> back_to_saved V d' d'"
    and "txn_commit B d = (OK, d') \<Longrightarrow> same_view V d d'"
    and "txn_commit B d = (r, d') \<Longrightarrow> r \<noteq> OK \<Longrightarrow> back_to_saved V d d'"
    and "back_to_saved V d (txn_abort B d)"
    and "seq_get B d = (r, s, d') \<Longrightarrow> same_view V d d' \<and> same_saved V d d'"
    and "txn_begin B d = (r, d') \<Longrightarrow> r = OK \<or> failure r"
    and "txn_commit B d = (r, d') \<Longrightarrow> r = OK \<or> failure r"
proof -
  note L = bdb_lawsD(1) [OF assms, unfolded txn_laws_def]
  note Bg = L [THEN conjunct1, rule_format] and C = L [THEN conjunct2, THEN conjunct1, rule_format]
  show "txn_begin B d = (r, d') \<Longrightarrow> same_view V d d'" by (rule Bg [THEN conjunct1])
  show "txn_begin B d = (OK, d') \<Longrightarrow> back_to_saved V d' d'" using Bg by auto
  show "txn_commit B d = (OK, d') \<Longrightarrow> same_view V d d'" using C by auto
  show "txn_commit B d = (r, d') \<Longrightarrow> r \<noteq> OK \<Longrightarrow> back_to_saved V d d'" using C by metis
  show "back_to_saved V d (txn_abort B d)" using L by blast
  show "seq_get B d = (r, s, d') \<Longrightarrow> same_view V d d' \<and> same_saved V d d'" using L by blast
  show "txn_begin B d = (r, d') \<Longrightarrow> r = OK \<or> failure r" using Bg by metis
  show "txn_commit B d = (r, d') \<Longrightarrow> r = OK \<or> failure r" using C by metis
qed

lemma cursor_lawsD:
  assumes "bdb_laws B V"
  shows "cur_get B c DB_SET key u d = (r, out, sz, c') \<Longrightarrow>
      cursor_step V key (v_dups V key d) d u c r out sz c'"
    and "cur_get B c DB_NEXT_DUP key u d = (r, out, sz, c') \<Longrightarrow>
      cursor_step V (v_at V c) (still_there V d c) d u c r out sz c'"
    and "cur_get B c Join_Next key u d = (r, out, sz, c') \<Longrightarrow>
      cursor_step V (v_at V c) (v_rest V c) d u c r out sz c'"
    and "cur_del B c d = (r, d') \<Longrightarrow> same_saved V d d'"
    and "cur_del B c d = (OK, d') \<Longrightarrow> \<exists>k. v_cur V c = Some k \<and>
      v_db V Holder_db d' = (v_db V Holder_db d)(k := None) \<and> v_db V Txn_db d' = v_db V Txn_db d"
    and "cur_del B c d = (DB_NOTFOUND, d') \<Longrightarrow> same_view V d d'"
proof -
  note L = bdb_lawsD(4) [OF assms, unfolded cursor_laws_def]
  show "cur_get B c DB_SET key u d = (r, out, sz, c') \<Longrightarrow>
      cursor_step V key (v_dups V key d) d u c r out sz c'"
    by (rule L [THEN conjunct1, rule_format])
  show "cur_get B c DB_NEXT_DUP key u d = (r, out, sz, c') \<Longrightarrow>
      cursor_step V (v_at V c) (still_there V d c) d u c r out sz c'"
    by (rule L [THEN conjunct2, THEN conjunct1, rule_format])
  show "cur_get B c Join_Next key u d = (r, out, sz, c') \<Longrightarrow>
      cursor_step V (v_at V c) (v_rest V c) d u c r out sz c'"
    by (rule bdb_lawsD(5) [OF assms, unfolded join_laws_def, THEN conjunct2, THEN conjunct2, rule_format])
  note D = L [THEN conjunct2, THEN conjunct2, rule_format]
  show "cur_del B c d = (r, d') \<Longrightarrow> same_saved V d d'" by (rule D [THEN conjunct1])
  show "\<exists>k. v_cur V c = Some k \<and> v_db V Holder_db d' = (v_db V Holder_db d)(k := None) \<and>
      v_db V Txn_db d' = v_db V Txn_db d" if "cur_del B c d = (OK, d')"
    using D [THEN conjunct2, THEN conjunct2, rule_format, OF that refl] by (cases "v_cur V c") auto
  show "cur_del B c d = (DB_NOTFOUND, d') \<Longrightarrow> same_view V d d'"
    by (rule D [THEN conjunct2, THEN conjunct1, rule_format]) auto
qed

section \<open>Reading\<close>

lemma failure_simps [simp]: "\<not> failure OK" "\<not> failure DB_NOTFOUND" "\<not> failure DB_BUFFER_SMALL"
  by (simp_all add: failure_def)

lemma failure_codes: "failure r \<Longrightarrow> r \<noteq> RC OE_STORE_ITEM_NOTFOUND" "failure r \<Longrightarrow> r \<noteq> DB_NOTFOUND"
  by (auto simp: failure_def OE_STORE_ITEM_NOTFOUND_def)

lemma delivers_cases:
  assumes "delivers b u r out sz"
  shows "r = OK \<Longrightarrow> out = b" "r = DB_BUFFER_SMALL \<Longrightarrow> sz = length b \<and> u < length b" "r \<noteq> DB_NOTFOUND"
    "r \<noteq> RC OE_STORE_ITEM_NOTFOUND"
  using assms failure_codes [of r] by (auto simp: delivers_def OE_STORE_ITEM_NOTFOUND_def)

text \<open>The read loops end after at most two rounds with the whole record.\<close>

lemma bdb_get_spec:
  assumes "bdb_laws B V"
  shows "\<exists>r out. bdb_get B p k d = Inr (r, out) \<and> r \<noteq> DB_BUFFER_SMALL \<and>
    (r = OK \<longrightarrow> v_db V p d k = Some out) \<and> (r = DB_NOTFOUND \<longrightarrow> v_db V p d k = None) \<and>
    r \<noteq> RC OE_STORE_ITEM_NOTFOUND"
proof -
  have L: "case v_db V p d k of None \<Rightarrow> r = DB_NOTFOUND \<or> failure r | Some b \<Rightarrow> delivers b u r out sz"
    if "db_get B p k u d = (r, out, sz)" for r out sz u
    using that by (rule db_lawsD(1) [OF assms])
  let ?u = OEBDB_DEFAULT_READ_BUFFER_SIZE
  obtain r1 o1 s1 where g1: "db_get B p k ?u d = (r1, o1, s1)" by (cases "db_get B p k ?u d") auto
  obtain r2 o2 s2 where g2: "db_get B p k s1 d = (r2, o2, s2)" by (cases "db_get B p k s1 d") auto
  have un: "bdb_get B p k d =
      (if r1 = DB_BUFFER_SMALL then if r2 = DB_BUFFER_SMALL then Inl Fuel_Spent else Inr (r2, o2) else Inr (r1, o1))"
    using g1 g2 by (simp add: bdb_get_def numeral_2_eq_2)
  show ?thesis
  proof (cases "v_db V p d k")
    case None
    then have "r1 \<noteq> DB_BUFFER_SMALL" "r1 \<noteq> OK" "r1 \<noteq> RC OE_STORE_ITEM_NOTFOUND"
      using L [OF g1] failure_codes [of r1] by (auto simp: failure_def)
    then show ?thesis using None un by simp
  next
    case (Some b)
    have d1: "delivers b ?u r1 o1 s1" and d2: "delivers b s1 r2 o2 s2"
      using L [OF g1] L [OF g2] Some by simp_all
    show ?thesis using delivers_cases [OF d1] delivers_cases [OF d2] Some un
      by (cases "r1 = DB_BUFFER_SMALL") auto
  qed
qed

lemma get_with_cursor_spec:
  assumes step: "\<And>u r out sz c'. cur_get B c cop key u d = (r, out, sz, c') \<Longrightarrow>
      cursor_step V key' ks d u c r out sz c'"
  shows "\<exists>r out c'. get_with_cursor B c cop key d = Inr (r, out, c') \<and>
    r \<notin> {DB_BUFFER_SMALL, RC OE_STORE_ITEM_NOTFOUND} \<and>
    (case ks of
       [] \<Rightarrow> r \<noteq> OK
     | k # ks' \<Rightarrow> r \<noteq> DB_NOTFOUND \<and> (r = OK \<longrightarrow> v_db V Holder_db d k = Some out \<and> v_at V c' = key' \<and>
         v_cur V c' = Some k \<and> v_rest V c' = ks'))"
proof -
  let ?u = OEBDB_DEFAULT_READ_BUFFER_SIZE
  obtain r1 o1 s1 c1 where g1: "cur_get B c cop key ?u d = (r1, o1, s1, c1)"
    by (cases "cur_get B c cop key ?u d") auto
  obtain r2 o2 s2 c2 where g2: "cur_get B c cop key s1 d = (r2, o2, s2, c2)"
    by (cases "cur_get B c cop key s1 d") auto
  note S1 = step [OF g1] and S2 = step [OF g2]
  have un: "get_with_cursor B c cop key d =
      (if r1 = DB_BUFFER_SMALL then if r2 = DB_BUFFER_SMALL then Inl Fuel_Spent else Inr (r2, o2, c2)
       else Inr (r1, o1, c1))" if "r1 = DB_BUFFER_SMALL \<longrightarrow> c1 = c"
    using g1 g2 that by (auto simp: get_with_cursor_def numeral_2_eq_2)
  show ?thesis
  proof (cases ks)
    case Nil
    then have "r1 \<noteq> DB_BUFFER_SMALL" "r1 \<noteq> OK" "r1 \<noteq> RC OE_STORE_ITEM_NOTFOUND"
      using S1 failure_codes [of r1] by (auto simp: cursor_step_def failure_def)
    then show ?thesis using Nil un by simp
  next
    case (Cons k ks')
    show ?thesis
    proof (cases "v_db V Holder_db d k")
      case None
      then have "failure r1" using S1 Cons by (simp add: cursor_step_def)
      then have "r1 \<noteq> DB_BUFFER_SMALL" "r1 \<noteq> OK" "r1 \<noteq> DB_NOTFOUND" "r1 \<noteq> RC OE_STORE_ITEM_NOTFOUND"
        using failure_codes [of r1] by (auto simp: failure_def)
      then show ?thesis using un Cons by simp
    next
      case (Some b)
      have d1: "delivers b ?u r1 o1 s1" and c1: "r1 = DB_BUFFER_SMALL \<longrightarrow> c1 = c"
        and k1: "r1 = OK \<longrightarrow> v_at V c1 = key' \<and> v_cur V c1 = Some k \<and> v_rest V c1 = ks'"
        using S1 Cons Some by (simp_all add: cursor_step_def)
      have d2: "delivers b s1 r2 o2 s2"
        and k2: "r2 = OK \<longrightarrow> v_at V c2 = key' \<and> v_cur V c2 = Some k \<and> v_rest V c2 = ks'"
        using S2 Cons Some by (simp_all add: cursor_step_def)
      show ?thesis
        using un [OF c1] delivers_cases [OF d1] delivers_cases [OF d2] k1 k2 Cons Some
        by (cases "r1 = DB_BUFFER_SMALL") auto
    qed
  qed
qed

end
