(* ===== verification/Bdb_Search.thy ===== *)
theory Bdb_Search
  imports Bdb_Laws
begin

text \<open>
  Searching, reading and taking in the store of \<^verbatim>\<open>corelib/OeBdb.c\<close>, under the laws of \<^verbatim>\<open>Bdb_Laws\<close>:
  what \<^verbatim>\<open>_get_one\<close> adds to the results of a query, what a take writes, how a call ends, and from
  these what \<^verbatim>\<open>_api_get\<close> does to the store and returns.
\<close>

section \<open>Searching\<close>

text \<open>What a search does to a record it returns: a take sets the lock and the owner.\<close>

definition mark :: "OeStoreQuery \<Rightarrow> OeStoreHolder \<Rightarrow> OeStoreHolder" where
  "mark q h =
     (if OeStoreQuery_is_take q
      then OeStoreHolder_set_txn_id (OeStoreHolder_set_lock h OESTORE_TAKE_LOCK) (OeStoreQuery_get_owner_id q)
      else h)"

text \<open>The search criteria of a query, which a search leaves alone.\<close>

definition criteria ::
  "OeStoreQuery \<Rightarrow> bool \<times> bool \<times> bool \<times> oe_id \<times> DataObjectList option \<times> size_t" where
  "criteria q = (sq_take q, sq_is_tuple q, sq_ifexists q, sq_owner_id q, sq_value_lists q,
     sq_max_items_to_return q)"

text \<open>A record that is there, can be read and may be used now.\<close>

definition live :: "('d, 'c) bdb_view \<Rightarrow> oe_time \<Rightarrow> 'd \<Rightarrow> oe_id \<Rightarrow> OeStoreHolder \<Rightarrow> bool" where
  "live V now d k h =
     (\<exists>b. v_db V Holder_db d k = Some b \<and> OeStoreHolder_new_from_buffer b = Inr h \<and>
        OeStoreHolder_skip now h = OESTORE_DO_NOT_SKIP)"

lemma criteria_simps [simp]:
  "criteria (OeStoreQuery_set_exists q e) = criteria q"
  "criteria (OeStoreQuery_add_store_holder q h) = criteria q"
  "criteria (OeStoreQuery_reset_nitems_found q) = criteria q"
  by (simp_all add: criteria_def OeStoreQuery_set_exists_def OeStoreQuery_add_store_holder_def
      OeStoreQuery_reset_nitems_found_def)

lemma results_simps [simp]:
  "sq_results (OeStoreQuery_set_exists q e) = sq_results q"
  "sq_results (OeStoreQuery_add_store_holder q h) = sq_results q @ [h]"
  "sq_results (OeStoreQuery_reset_nitems_found q) = []"
  by (simp_all add: OeStoreQuery_set_exists_def OeStoreQuery_add_store_holder_def
      OeStoreQuery_reset_nitems_found_def)

lemma criteria_eq:
  assumes "criteria q' = criteria q"
  shows "mark q' = mark q" "OeStoreQuery_get_max_results q' = OeStoreQuery_get_max_results q"
    "OeStoreQuery_is_tuple q' = OeStoreQuery_is_tuple q" "OeStoreQuery_is_take q' = OeStoreQuery_is_take q"
    "OeStoreQuery_get_owner_id q' = OeStoreQuery_get_owner_id q"
proof -
  have "sq_take q' = sq_take q" "sq_owner_id q' = sq_owner_id q" "sq_is_tuple q' = sq_is_tuple q"
    "sq_max_items_to_return q' = sq_max_items_to_return q"
    using assms by (simp_all add: criteria_def)
  then show "mark q' = mark q" "OeStoreQuery_get_max_results q' = OeStoreQuery_get_max_results q"
    "OeStoreQuery_is_tuple q' = OeStoreQuery_is_tuple q" "OeStoreQuery_is_take q' = OeStoreQuery_is_take q"
    "OeStoreQuery_get_owner_id q' = OeStoreQuery_get_owner_id q"
    by (simp_all add: fun_eq_iff mark_def OeStoreQuery_is_take_def OeStoreQuery_get_owner_id_def
        OeStoreQuery_get_max_results_def OeStoreQuery_is_tuple_def)
qed

lemma join_loop_spec:
  assumes laws: "bdb_laws B V" and "join_loop n B now c q d = Inr (r, q')"
  shows "\<exists>hs. sq_results q' = sq_results q @ hs \<and> criteria q' = criteria q \<and>
    (\<forall>h \<in> set hs. \<exists>k \<in> set (v_rest V c). \<exists>h0. live V now d k h0 \<and> h = mark q h0) \<and>
    (r = OK \<longrightarrow> hs \<noteq> [] \<and> unat (OeStoreQuery_get_max_results q) \<le> length (sq_results q')) \<and>
    (r = DB_NOTFOUND \<longrightarrow> (\<forall>k \<in> set (v_rest V c). \<forall>h0. live V now d k h0 \<longrightarrow> mark q h0 \<in> set hs) \<and>
       (OeStoreQuery_get_max_results q = 0 \<longrightarrow> hs = [])) \<and>
    r \<noteq> RC OE_STORE_ITEM_NOTFOUND"
  using assms(2)
proof (induction n arbitrary: c q)
  case (Suc n)
  have "\<exists>r out c'. get_with_cursor B c Join_Next (Prop_Key []) d = Inr (r, out, c') \<and>
    r \<notin> {DB_BUFFER_SMALL, RC OE_STORE_ITEM_NOTFOUND} \<and>
    (case v_rest V c of
       [] \<Rightarrow> r \<noteq> OK
     | k # ks' \<Rightarrow> r \<noteq> DB_NOTFOUND \<and> (r = OK \<longrightarrow> v_db V Holder_db d k = Some out \<and> v_at V c' = v_at V c \<and>
         v_cur V c' = Some k \<and> v_rest V c' = ks'))"
    by (rule get_with_cursor_spec) (rule cursor_lawsD(3) [OF laws])
  then obtain r1 out c' where g: "get_with_cursor B c Join_Next (Prop_Key []) d = Inr (r1, out, c')"
    and r1: "r1 \<noteq> RC OE_STORE_ITEM_NOTFOUND" and cs: "case v_rest V c of [] \<Rightarrow> r1 \<noteq> OK
       | k # ks' \<Rightarrow> r1 \<noteq> DB_NOTFOUND \<and> (r1 = OK \<longrightarrow> v_db V Holder_db d k = Some out \<and> v_at V c' = v_at V c \<and>
           v_cur V c' = Some k \<and> v_rest V c' = ks')"
    by blast
  show ?case
  proof (cases "r1 = OK")
    case False
    then show ?thesis using Suc.prems g cs r1 by (auto split: list.splits)
  next
    case True
    then obtain k ks where rest: "v_rest V c = k # ks" "v_db V Holder_db d k = Some out" "v_rest V c' = ks"
      using cs by (auto split: list.splits)
    obtain h where h: "OeStoreHolder_new_from_buffer out = Inr h"
      using Suc.prems g True by (auto simp: c_bind_Inr)
    have uniq: "h0 = h" if "live V now d k h0" for h0
      using that rest(2) h by (simp add: live_def)
    show ?thesis
    proof (cases "OeStoreHolder_skip now h")
      case OESTORE_SKIP
      then have "join_loop n B now c' q d = Inr (r, q')" using Suc.prems g True h by simp
      note jl = this
      have "\<not> live V now d k h0" for h0 using uniq OESTORE_SKIP by (auto simp: live_def)
      then show ?thesis using Suc.IH [OF jl] rest(1,3) by auto
    next
      case OESTORE_SKIP_BUT_EXISTS
      let ?q = "OeStoreQuery_set_exists q True"
      have jl: "join_loop n B now c' ?q d = Inr (r, q')"
        using OESTORE_SKIP_BUT_EXISTS Suc.prems g True h by simp
      have eqs: "mark ?q = mark q" "sq_results ?q = sq_results q" "criteria ?q = criteria q"
        "OeStoreQuery_get_max_results ?q = OeStoreQuery_get_max_results q"
        using criteria_eq [of ?q q] by simp_all
      have "\<not> live V now d k h0" for h0 using uniq OESTORE_SKIP_BUT_EXISTS by (auto simp: live_def)
      then show ?thesis using Suc.IH [OF jl, unfolded eqs] rest(1,3) by auto
    next
      case OESTORE_DO_NOT_SKIP
      let ?q = "OeStoreQuery_set_exists (OeStoreQuery_add_store_holder q (mark q h)) True"
      have q: "mark ?q = mark q" "criteria ?q = criteria q" "sq_results ?q = sq_results q @ [mark q h]"
        "OeStoreQuery_get_max_results ?q = OeStoreQuery_get_max_results q"
        using criteria_eq [of ?q q] by simp_all
      have lv: "live V now d k h" using rest(2) h OESTORE_DO_NOT_SKIP by (simp add: live_def)
      have step: "(if unat (OeStoreQuery_get_max_results ?q) \<le> OeStoreQuery_get_nitems_found ?q
          then Inr (OK, ?q) else join_loop n B now c' ?q d) = Inr (r, q')"
        using Suc.prems g True h OESTORE_DO_NOT_SKIP by (simp add: Let_def flip: mark_def)
      show ?thesis
      proof (cases "unat (OeStoreQuery_get_max_results ?q) \<le> OeStoreQuery_get_nitems_found ?q")
        case True
        then have "r = OK" "q' = ?q" using step by simp_all
        then show ?thesis using q True lv rest(1)
          by (intro exI [of _ "[mark q h]"])
            (auto simp: OeStoreQuery_get_nitems_found_def OE_STORE_ITEM_NOTFOUND_def)
      next
        case False
        then have "join_loop n B now c' ?q d = Inr (r, q')" using step by simp
        from Suc.IH [OF this] obtain hs where
          I1: "sq_results q' = sq_results q @ mark q h # hs" and I2: "criteria q' = criteria q" and
          I3: "\<forall>h \<in> set hs. \<exists>k \<in> set ks. \<exists>h0. live V now d k h0 \<and> h = mark q h0" and
          I4: "r = OK \<longrightarrow> unat (OeStoreQuery_get_max_results q) \<le> length (sq_results q')" and
          I5: "r = DB_NOTFOUND \<longrightarrow> (\<forall>k \<in> set ks. \<forall>h0. live V now d k h0 \<longrightarrow> mark q h0 \<in> set hs)" and
          I6: "r \<noteq> RC OE_STORE_ITEM_NOTFOUND"
          unfolding q rest(3) by auto
        have "OeStoreQuery_get_max_results q \<noteq> 0" using False q(4) by auto
        show ?thesis
        proof (intro exI [of _ "mark q h # hs"] conjI)
          show "\<forall>x \<in> set (mark q h # hs). \<exists>k \<in> set (v_rest V c). \<exists>h0. live V now d k h0 \<and> x = mark q h0"
            using I3 lv rest(1) by auto
          show "r = DB_NOTFOUND \<longrightarrow>
              (\<forall>k \<in> set (v_rest V c). \<forall>h0. live V now d k h0 \<longrightarrow> mark q h0 \<in> set (mark q h # hs)) \<and>
              (OeStoreQuery_get_max_results q = 0 \<longrightarrow> mark q h # hs = [])"
            using I5 uniq rest(1) \<open>OeStoreQuery_get_max_results q \<noteq> 0\<close> by auto
        qed (use I1 I2 I4 I6 in simp_all)
      qed
    qed
  qed
qed simp

text \<open>The keys a template asks for, and that a record is found under all of them.\<close>

definition template_keys :: "OeStoreQuery \<Rightarrow> DataObject \<Rightarrow> string list c_result" where
  "template_keys q t =
     c_bind (attrs_of t) (\<lambda>(as, _).
       if OeStoreQuery_is_tuple q then tuple_keys as 0 (DataObject_get_nattrs t) else map_keys False as)"

definition matches :: "('d, 'c) bdb_view \<Rightarrow> OeStoreQuery \<Rightarrow> 'd \<Rightarrow> DataObject \<Rightarrow> oe_id \<Rightarrow> bool" where
  "matches V q d t k =
     (case template_keys q t of Inl _ \<Rightarrow> False | Inr ks \<Rightarrow> \<forall>s \<in> set ks. k \<in> hits V (Prop_Key s) d)"

text \<open>A result of a search: a live record that matches one of the templates, marked.\<close>

definition found :: "('d, 'c) bdb_view \<Rightarrow> oe_time \<Rightarrow> OeStoreQuery \<Rightarrow> 'd \<Rightarrow> DataObject list \<Rightarrow> OeStoreHolder \<Rightarrow> bool" where
  "found V now q d ts h =
     (\<exists>t \<in> set ts. \<exists>k h0. matches V q d t k \<and> live V now d k h0 \<and> h = mark q h0)"

lemma found_criteria: "criteria q' = criteria q \<Longrightarrow> found V now q' d ts h = found V now q d ts h"
  using criteria_eq [of q' q] by (simp add: found_def matches_def template_keys_def)

lemma position_cursors_spec:
  assumes laws: "bdb_laws B V"
  shows "position_cursors B ks cs d = Inr (OK, cs') \<Longrightarrow> s \<in> set ks \<Longrightarrow> \<exists>c \<in> set cs'. v_at V c = Prop_Key s"
proof (induction ks arbitrary: cs cs')
  case (Cons k ks)
  obtain c cs1 where cs: "cs = c # cs1" using Cons.prems(1) by (cases cs) auto
  obtain r out c' where g: "get_with_cursor B c DB_SET (Prop_Key k) d = Inr (r, out, c')"
    using Cons.prems(1) cs by (auto simp: c_bind_Inr)
  have r: "r = OK"
  proof (rule ccontr)
    assume "r \<noteq> OK"
    then show False using g Cons.prems(1) cs by auto
  qed
  obtain cs2 where p: "position_cursors B ks cs1 d = Inr (OK, cs2)" "cs' = c' # cs2"
    using Cons.prems(1) g r cs by (auto simp: c_bind_Inr)
  have "\<exists>r out c'. get_with_cursor B c DB_SET (Prop_Key k) d = Inr (r, out, c') \<and>
    r \<notin> {DB_BUFFER_SMALL, RC OE_STORE_ITEM_NOTFOUND} \<and>
    (case v_dups V (Prop_Key k) d of
       [] \<Rightarrow> r \<noteq> OK
     | k' # ks' \<Rightarrow> r \<noteq> DB_NOTFOUND \<and> (r = OK \<longrightarrow> v_db V Holder_db d k' = Some out \<and> v_at V c' = Prop_Key k \<and>
         v_cur V c' = Some k' \<and> v_rest V c' = ks'))"
    by (rule get_with_cursor_spec) (rule cursor_lawsD(1) [OF laws])
  then have "v_at V c' = Prop_Key k" using g r by (auto split: list.splits)
  then show ?case using Cons.IH [OF p(1)] p(2) Cons.prems(2) by auto
qed simp

lemma position_cursors_codes:
  assumes laws: "bdb_laws B V"
  shows "position_cursors B ks cs d = Inr (r, cs') \<Longrightarrow>
    r \<noteq> RC OE_STORE_ITEM_NOTFOUND \<and> (r = DB_NOTFOUND \<longrightarrow> (\<exists>s \<in> set ks. hits V (Prop_Key s) d = {}))"
proof (induction ks arbitrary: cs cs')
  case (Cons k ks)
  obtain c cs1 where cs: "cs = c # cs1" using Cons.prems by (cases cs) auto
  have "\<exists>r out c'. get_with_cursor B c DB_SET (Prop_Key k) d = Inr (r, out, c') \<and>
    r \<notin> {DB_BUFFER_SMALL, RC OE_STORE_ITEM_NOTFOUND} \<and>
    (case v_dups V (Prop_Key k) d of
       [] \<Rightarrow> r \<noteq> OK
     | k' # ks' \<Rightarrow> r \<noteq> DB_NOTFOUND \<and> (r = OK \<longrightarrow> v_db V Holder_db d k' = Some out \<and> v_at V c' = Prop_Key k \<and>
         v_cur V c' = Some k' \<and> v_rest V c' = ks'))"
    by (rule get_with_cursor_spec) (rule cursor_lawsD(1) [OF laws])
  then obtain r1 out c' where g: "get_with_cursor B c DB_SET (Prop_Key k) d = Inr (r1, out, c')"
    and r1: "r1 \<noteq> RC OE_STORE_ITEM_NOTFOUND" "r1 = DB_NOTFOUND \<Longrightarrow> v_dups V (Prop_Key k) d = []"
    by (cases "v_dups V (Prop_Key k) d") auto
  show ?case
  proof (cases "r1 = OK")
    case False
    then have "r = r1" using Cons.prems cs g by simp
    moreover have "hits V (Prop_Key k) d = set (v_dups V (Prop_Key k) d)"
      using bdb_lawsD(3) [OF laws, of d] by (simp add: index_laws_def)
    ultimately show ?thesis using r1 by auto
  next
    case True
    then obtain cs2 where "position_cursors B ks cs1 d = Inr (r, cs2)"
      using Cons.prems cs g by (auto simp: c_bind_Inr)
    from Cons.IH [OF this] show ?thesis by auto
  qed
qed (auto simp: OE_STORE_ITEM_NOTFOUND_def)

lemma open_cursors_codes:
  assumes "bdb_laws B V"
  shows "open_cursors B n d = (r, cs) \<Longrightarrow> r = OK \<or> failure r"
proof (induction n arbitrary: cs)
  case (Suc n)
  have "cur_open B Prop_idx d = (r', c) \<Longrightarrow> r' = OK \<or> failure r'" for r' c
    using bdb_lawsD(5) [OF assms] by (auto simp: join_laws_def)
  then show ?case using Suc by (force split: prod.splits if_splits)
qed simp

lemma length_open_cursors: "open_cursors B n d = (OK, cs) \<Longrightarrow> length cs = n"
  by (induction n arbitrary: cs) (auto split: prod.splits if_splits)

lemma position_cursors_at:
  assumes laws: "bdb_laws B V"
  shows "position_cursors B ks cs d = Inr (OK, cs') \<Longrightarrow> length cs = length ks \<Longrightarrow> c \<in> set cs' \<Longrightarrow>
    \<exists>s \<in> set ks. v_at V c = Prop_Key s"
proof (induction ks arbitrary: cs cs')
  case (Cons k ks)
  obtain c1 cs1 where cs: "cs = c1 # cs1" using Cons.prems(2) by (cases cs) auto
  obtain c' cs2 where p: "position_cursors B ks cs1 d = Inr (OK, cs2)" "cs' = c' # cs2"
    using Cons.prems(1) cs by (auto simp: c_bind_Inr split: if_splits)
  obtain c'' cs'' where "position_cursors B [k] [c1] d = Inr (OK, c'' # cs'')" "c'' = c'" "cs'' = []"
    using Cons.prems(1) cs p by (auto simp: c_bind_Inr split: if_splits)
  then have "v_at V c' = Prop_Key k" using position_cursors_spec [OF laws, of "[k]" "[c1]" d "[c']" k] by auto
  then show ?case using Cons.IH [OF p(1)] Cons.prems(2,3) cs p(2) by auto
qed simp

lemma length_tuple_keys:
  "tuple_keys as pos sz = Inr ks \<Longrightarrow> length ks + length (filter (\<lambda>a. a = OESTORE_WILDCARD) as) = length as"
  by (induction as arbitrary: pos ks) (auto simp: c_bind_Inr split: if_splits)

lemma length_map_keys: "map_keys False as = Inr ks \<Longrightarrow> length ks = length as div 2"
  by (induction "False" as arbitrary: ks rule: map_keys.induct) (auto simp: c_bind_Inr)

lemma template_nkeys:
  assumes "dataobject_ok t" "calc_nkeys q t = Inr nk" "template_keys q t = Inr ks"
  shows "length ks = nk"
  using assms attrs_of_spec [OF assms(1)] length_tuple_keys [of "strings t"] length_map_keys [of "strings t"]
  by (fastforce simp: calc_nkeys_def template_keys_def DataObject_get_nattrs_def split: if_splits)

text \<open>No record that matches a template may be used now.\<close>

definition none_live ::
  "('d, 'c) bdb_view \<Rightarrow> oe_time \<Rightarrow> OeStoreQuery \<Rightarrow> 'd \<Rightarrow> DataObject \<Rightarrow> bool" where
  "none_live V now q d t = (\<forall>k h0. matches V q d t k \<longrightarrow> \<not> live V now d k h0)"

lemma get_one_spec:
  assumes laws: "bdb_laws B V" and "get_one n B now q t d = Inr (r, q')"
  shows "\<exists>hs. sq_results q' = sq_results q @ hs \<and> criteria q' = criteria q \<and>
    (\<forall>h \<in> set hs. found V now q d [t] h) \<and> (r = OK \<longrightarrow> hs \<noteq> []) \<and>
    (r = DB_NOTFOUND \<longrightarrow> (hs = [] \<and> dataobject_ok t \<longrightarrow> none_live V now q d t) \<and>
       (OeStoreQuery_get_max_results q = 0 \<longrightarrow> hs = [])) \<and> r \<noteq> RC OE_STORE_ITEM_NOTFOUND"
proof -
  obtain nk where nk: "calc_nkeys q t = Inr nk" using assms(2) by (auto simp: get_one_def c_bind_Inr)
  obtain r0 cs where oc: "open_cursors B nk d = (r0, cs)" by (cases "open_cursors B nk d") auto
  let ?pos = "if OeStoreQuery_is_tuple q then position_tuple_cursors B t cs d else position_map_cursors B t cs d"
  show ?thesis
  proof (cases "nk = 0 \<or> r0 \<noteq> OK")
    case True
    then show ?thesis using assms(2) nk oc open_cursors_codes [OF laws oc] failure_codes [of r0]
      by (auto simp: get_one_def Let_def OE_STORE_ITEM_NOTFOUND_def split: if_splits)
  next
    case F1: False
    then obtain r1 cs' where ps: "?pos = Inr (r1, cs')"
      using assms(2) nk oc by (auto simp: get_one_def c_bind_Inr)
    show ?thesis
    proof (cases "r1 = OK")
      case False
      then have "r = r1" "q' = q" using assms(2) nk oc ps F1 by (auto simp: get_one_def)
      moreover have "r1 \<noteq> RC OE_STORE_ITEM_NOTFOUND \<and> (r1 = DB_NOTFOUND \<longrightarrow> none_live V now q d t)"
        using ps position_cursors_codes [OF laws, of _ cs d r1 cs']
        by (fastforce simp: position_tuple_cursors_def position_map_cursors_def c_bind_Inr Let_def none_live_def
            matches_def template_keys_def OE_STORE_ITEM_NOTFOUND_def split: if_splits)
      ultimately show ?thesis using False by simp
    next
      case True
      obtain r2 jc where jn: "db_join B cs' d = (r2, jc)" by (cases "db_join B cs' d") auto
      have "r2 = OK" and jl: "join_loop n B now jc q d = Inr (r, q')"
        using assms(2) nk oc ps F1 True jn by (auto simp: get_one_def split: if_splits)
      then have rest: "set (v_rest V jc) = (\<Inter>c \<in> set cs'. hits V (v_at V c) d)"
        using bdb_lawsD(5) [OF laws] jn by (auto simp: join_laws_def)
      obtain ks where ks: "template_keys q t = Inr ks" "position_cursors B ks cs d = Inr (OK, cs')"
        using ps True by (auto simp: template_keys_def position_tuple_cursors_def position_map_cursors_def
            c_bind_Inr Let_def split: if_splits)
      have m: "matches V q d t k" if "k \<in> set (v_rest V jc)" for k
      proof -
        have "k \<in> hits V (Prop_Key s) d" if "s \<in> set ks" for s
          using position_cursors_spec [OF laws ks(2) that] rest \<open>k \<in> set (v_rest V jc)\<close> by auto
        then show ?thesis using ks(1) by (simp add: matches_def)
      qed
      have m': "k \<in> set (v_rest V jc)" if "matches V q d t k" "dataobject_ok t" for k
      proof -
        have "length cs = length ks"
          using length_open_cursors [of B nk d cs] template_nkeys [OF that(2) nk ks(1)] oc F1 by simp
        then show ?thesis using that(1) ks(1) rest position_cursors_at [OF laws ks(2)] by (force simp: matches_def)
      qed
      obtain hs where J: "sq_results q' = sq_results q @ hs" "criteria q' = criteria q"
        "\<forall>h \<in> set hs. \<exists>k \<in> set (v_rest V jc). \<exists>h0. live V now d k h0 \<and> h = mark q h0"
        "r = OK \<longrightarrow> hs \<noteq> []" "r \<noteq> RC OE_STORE_ITEM_NOTFOUND"
        "r = DB_NOTFOUND \<longrightarrow> (\<forall>k \<in> set (v_rest V jc). \<forall>h0. live V now d k h0 \<longrightarrow> mark q h0 \<in> set hs) \<and>
           (OeStoreQuery_get_max_results q = 0 \<longrightarrow> hs = [])"
        using join_loop_spec [OF laws jl] by blast
      have "\<forall>h \<in> set hs. found V now q d [t] h" using J(3) m unfolding found_def by fastforce
      moreover have "r = DB_NOTFOUND \<Longrightarrow> hs = [] \<Longrightarrow> dataobject_ok t \<Longrightarrow> none_live V now q d t"
        using J(6) m' by (auto simp: none_live_def)
      ultimately show ?thesis using J by blast
    qed
  qed
qed

lemma templates_loop_spec:
  assumes laws: "bdb_laws B V" and "templates_loop n B now all_of ts r0 q d = Inr (r, q')"
  shows "criteria q' = criteria q \<and> (\<forall>h \<in> set (sq_results q'). h \<in> set (sq_results q) \<or> found V now q d ts h)"
  using assms(2)
proof (induction ts arbitrary: r0 q)
  case (Cons t ts)
  obtain r1 q1 where g: "get_one n B now q t d = Inr (r1, q1)"
    using Cons.prems by (auto simp: c_bind_Inr Let_def)
  obtain hs where hs: "sq_results q1 = sq_results q @ hs" "criteria q1 = criteria q"
    "\<forall>h \<in> set hs. found V now q d [t] h" using get_one_spec [OF laws g] by blast
  have up: "found V now q d [t] h \<Longrightarrow> found V now q d (t # ts) h"
    "found V now q d ts h \<Longrightarrow> found V now q d (t # ts) h" for h by (auto simp: found_def)
  have step: "(if r1 \<noteq> OK \<and> r1 \<noteq> DB_NOTFOUND then Inr (r1, q1)
      else if all_of \<and> OeStoreQuery_get_nitems_found q = OeStoreQuery_get_nitems_found q1
      then Inr (DB_NOTFOUND, OeStoreQuery_reset_nitems_found q1)
      else templates_loop n B now all_of ts r1 q1 d) = Inr (r, q')"
    using Cons.prems g by (simp add: Let_def)
  show ?case
  proof (cases "r1 \<noteq> OK \<and> r1 \<noteq> DB_NOTFOUND")
    case True
    then have "q' = q1" using step by simp
    then show ?thesis using hs up(1) by auto
  next
    case F1: False
    show ?thesis
    proof (cases "all_of \<and> OeStoreQuery_get_nitems_found q = OeStoreQuery_get_nitems_found q1")
      case True
      then have "q' = OeStoreQuery_reset_nitems_found q1" using step F1 by simp
      then show ?thesis using hs(2) by simp
    next
      case False
      then have "templates_loop n B now all_of ts r1 q1 d = Inr (r, q')"
        using step by (simp only: F1 False if_False)
      from Cons.IH [OF this] have c: "criteria q' = criteria q1"
        and f: "\<And>h. h \<in> set (sq_results q') \<Longrightarrow> h \<in> set (sq_results q1) \<or> found V now q1 d ts h" by auto
      have "h \<in> set (sq_results q) \<or> found V now q d (t # ts) h" if "h \<in> set (sq_results q')" for h
        using f [OF that] hs(1,3) up [of h] found_criteria [OF hs(2), of V now d ts h] by auto
      then show ?thesis using c hs(2) by simp
    qed
  qed
qed simp

text \<open>When the loop over the templates ends with nothing found: no alternative can be had, or one of the
  templates that all have to match cannot.\<close>

lemma none_live_criteria: "criteria q' = criteria q \<Longrightarrow> none_live V now q' d t = none_live V now q d t"
  using criteria_eq [of q' q] by (simp add: none_live_def matches_def template_keys_def)

lemma templates_loop_any:
  assumes laws: "bdb_laws B V" and "templates_loop n B now False ts r0 q d = Inr (r, q')"
    and "\<forall>t \<in> set ts. dataobject_ok t" and "r0 \<noteq> RC OE_STORE_ITEM_NOTFOUND"
  shows "r \<noteq> RC OE_STORE_ITEM_NOTFOUND \<and> (\<exists>hs. sq_results q' = sq_results q @ hs \<and>
    (r = DB_NOTFOUND \<and> hs = [] \<longrightarrow> (\<forall>t \<in> set ts. none_live V now q d t)) \<and>
    (r = OK \<and> hs = [] \<longrightarrow> ts = []))"
  using assms(2-)
proof (induction ts arbitrary: r0 q)
  case (Cons t ts)
  obtain r1 q1 where g: "get_one n B now q t d = Inr (r1, q1)"
    using Cons.prems by (auto simp: c_bind_Inr Let_def)
  obtain hs where hs: "sq_results q1 = sq_results q @ hs" "criteria q1 = criteria q" "r1 = OK \<longrightarrow> hs \<noteq> []"
    "r1 = DB_NOTFOUND \<and> hs = [] \<longrightarrow> none_live V now q d t" "r1 \<noteq> RC OE_STORE_ITEM_NOTFOUND"
    using get_one_spec [OF laws g] Cons.prems(2) by auto
  show ?case
  proof (cases "r1 = OK \<or> r1 = DB_NOTFOUND")
    case False
    then have "r = r1" "q' = q1" using Cons.prems(1) g by (auto simp: Let_def)
    then show ?thesis using hs False by auto
  next
    case True
    then have "templates_loop n B now False ts r1 q1 d = Inr (r, q')" using Cons.prems(1) g by (auto simp: Let_def)
    from Cons.IH [OF this] obtain hs' where I: "r \<noteq> RC OE_STORE_ITEM_NOTFOUND" "sq_results q' = sq_results q1 @ hs'"
      "r = DB_NOTFOUND \<and> hs' = [] \<longrightarrow> (\<forall>t \<in> set ts. none_live V now q d t)" "r = OK \<and> hs' = [] \<longrightarrow> ts = []"
      using Cons.prems(2) hs(5) by (auto simp: none_live_criteria [OF hs(2)])
    have "r = OK \<and> hs = [] \<and> hs' = [] \<Longrightarrow> False"
      using I(4) hs(3) True \<open>templates_loop n B now False ts r1 q1 d = Inr (r, q')\<close> by auto
    then show ?thesis using I hs True by auto
  qed
qed auto

lemma templates_loop_all:
  assumes laws: "bdb_laws B V" and "templates_loop n B now True ts r0 q d = Inr (r, q')"
    and "\<forall>t \<in> set ts. dataobject_ok t" and "OeStoreQuery_get_max_results q = 0"
    and "r0 = OK"
  shows "r \<noteq> RC OE_STORE_ITEM_NOTFOUND \<and> (r = DB_NOTFOUND \<longrightarrow> (\<exists>t \<in> set ts. none_live V now q d t)) \<and>
    (r = OK \<and> ts \<noteq> [] \<longrightarrow> sq_results q' \<noteq> []) \<and> (r = OK \<and> sq_results q \<noteq> [] \<longrightarrow> sq_results q' \<noteq> [])"
  using assms(2-5)
proof (induction ts arbitrary: r0 q)
  case (Cons t ts)
  obtain r1 q1 where g: "get_one n B now q t d = Inr (r1, q1)"
    using Cons.prems by (auto simp: c_bind_Inr Let_def)
  obtain hs where hs: "sq_results q1 = sq_results q @ hs" "criteria q1 = criteria q" "r1 = OK \<longrightarrow> hs \<noteq> []"
    "r1 = DB_NOTFOUND \<longrightarrow> hs = [] \<and> none_live V now q d t" "r1 \<noteq> RC OE_STORE_ITEM_NOTFOUND"
    using get_one_spec [OF laws g] Cons.prems(2,3) by auto
  show ?case
  proof (cases "r1 = OK")
    case False
    then have "r = r1 \<or> r = DB_NOTFOUND \<and> r1 = DB_NOTFOUND"
      using Cons.prems(1) g hs by (auto simp: Let_def OeStoreQuery_get_nitems_found_def split: if_splits)
    then show ?thesis using hs False by auto
  next
    case True
    then have "templates_loop n B now True ts OK q1 d = Inr (r, q')"
      using Cons.prems(1) g hs by (auto simp: Let_def OeStoreQuery_get_nitems_found_def split: if_splits)
    from Cons.IH [OF this] show ?thesis
      using Cons.prems(2,3) hs True criteria_eq(2) [OF hs(2)] by (auto simp: none_live_criteria [OF hs(2)])
  qed
qed (auto simp: OE_STORE_ITEM_NOTFOUND_def)

section \<open>Taking\<close>

lemma same_saved_trans: "same_saved V d d' \<Longrightarrow> same_saved V d' d'' \<Longrightarrow> same_saved V d d''"
  by (simp add: same_saved_def)

lemma same_saved_refl [simp]: "same_saved V d d"
  by (simp add: same_saved_def)

lemma put_holder_spec:
  assumes laws: "bdb_laws B V" and "put_holder B h st = Inr (r, st')"
  shows "same_saved V (bdb_state st) (bdb_state st') \<and> txn_live st' = txn_live st \<and>
    (r = OK \<longrightarrow> (\<exists>buf len h'. OeStoreHolder_marshal h = Inr (buf, len, h') \<and>
       v_db V Holder_db (bdb_state st') =
         (v_db V Holder_db (bdb_state st))(sh_lease_id h' \<mapsto> take len buf) \<and>
       v_db V Txn_db (bdb_state st') = v_db V Txn_db (bdb_state st)))"
proof (cases "txn_flags_deadlock B st")
  case True
  then show ?thesis using assms(2) by (auto simp: put_holder_def)
next
  case False
  then obtain buf len h' where m: "OeStoreHolder_marshal h = Inr (buf, len, h')"
    using assms(2) by (auto simp: put_holder_def c_bind_Inr)
  obtain r1 d where p: "db_put B Holder_db (sh_lease_id h') (take len buf) (bdb_state st) = (r1, d)" by fastforce
  have "r = r1" "st' = st\<lparr>bdb_state := d\<rparr>"
    using assms(2) False m p by (simp_all add: put_holder_def OeStoreHolder_get_lease_id_def)
  then show ?thesis using db_lawsD(2) [OF laws p] db_lawsD(3) [OF laws, of Holder_db "sh_lease_id h'" "take len buf" "bdb_state st" d] p m
    by auto
qed

lemma delete_items_loop_spec:
  assumes laws: "bdb_laws B V" and "delete_items_loop B now hs st = Inr (r, st')"
  shows "same_saved V (bdb_state st) (bdb_state st') \<and> txn_live st' = txn_live st \<and>
    (r = OK \<longrightarrow> v_db V Holder_db (bdb_state st') = (v_db V Holder_db (bdb_state st)) |` (- sh_lease_id ` set hs) \<and>
       v_db V Txn_db (bdb_state st') = v_db V Txn_db (bdb_state st))"
  using assms(2)
proof (induction hs arbitrary: st)
  case (Cons h hs)
  let ?k = "sh_lease_id h"
  obtain r0 where r0: "recheck B now ?k (bdb_state st) = Inr r0"
    using Cons.prems by (auto simp: c_bind_Inr Let_def OeStoreHolder_get_lease_id_def)
  obtain r1 d where dl: "db_del B Holder_db ?k (bdb_state st) = (r1, d)" by fastforce
  let ?st = "st\<lparr>bdb_state := d\<rparr>"
  have step: "(if r0 \<noteq> OK then Inr (r0, st) else if r1 \<noteq> OK then Inr (r1, ?st)
      else delete_items_loop B now hs ?st) = Inr (r, st')"
    using Cons.prems r0 dl by (simp add: Let_def OeStoreHolder_get_lease_id_def cong: if_cong)
  show ?case
  proof (cases "r0 = OK \<and> r1 = OK")
    case False
    then have "r \<noteq> OK \<and> (st' = st \<or> st' = ?st)" using step by (auto split: if_splits)
    then show ?thesis using db_lawsD(4) [OF laws dl] by auto
  next
    case True
    then have "delete_items_loop B now hs ?st = Inr (r, st')" using step by simp
    note IH = Cons.IH [OF this]
    have del: "v_db V q d = (if q = Holder_db then (v_db V q (bdb_state st))(?k := None) else v_db V q (bdb_state st))" for q
      using db_lawsD(5) [OF laws] dl True by blast
    show ?thesis
      using IH del [of Holder_db] del [of Txn_db] same_saved_trans [OF db_lawsD(4) [OF laws dl]]
      by (auto simp: restrict_map_def fun_eq_iff)
  qed
qed auto

text \<open>The bytes a holder is stored as.\<close>

definition stored :: "OeStoreHolder \<Rightarrow> string" where
  "stored h = (case OeStoreHolder_marshal h of Inr (buf, len, _) \<Rightarrow> take len buf | Inl _ \<Rightarrow> [])"

lemma marshal_lease: "OeStoreHolder_marshal h = Inr (buf, len, h') \<Longrightarrow> sh_lease_id h' = sh_lease_id h"
  by (auto simp: OeStoreHolder_marshal_def Let_def split: option.splits sum.splits prod.splits if_splits)

lemma update_locks_loop_spec:
  assumes laws: "bdb_laws B V" and "update_locks_loop B now hs st = Inr (r, st')"
  shows "same_saved V (bdb_state st) (bdb_state st') \<and> txn_live st' = txn_live st \<and>
    (r = OK \<longrightarrow> v_db V Holder_db (bdb_state st') =
         foldl (\<lambda>m h. m(sh_lease_id h \<mapsto> stored h)) (v_db V Holder_db (bdb_state st)) hs \<and>
       v_db V Txn_db (bdb_state st') = v_db V Txn_db (bdb_state st))"
  using assms(2)
proof (induction hs arbitrary: st)
  case (Cons h hs)
  obtain r0 where r0: "recheck B now (sh_lease_id h) (bdb_state st) = Inr r0"
    using Cons.prems by (auto simp: c_bind_Inr OeStoreHolder_get_lease_id_def)
  show ?case
  proof (cases "r0 = OK")
    case False
    then show ?thesis using Cons.prems r0 by (auto simp: OeStoreHolder_get_lease_id_def)
  next
    case True
    then obtain r1 st1 where p: "put_holder B h st = Inr (r1, st1)"
      using Cons.prems r0 by (auto simp: c_bind_Inr OeStoreHolder_get_lease_id_def)
    note P = put_holder_spec [OF laws p]
    have step: "(if r1 \<noteq> OK then Inr (r1, st1) else update_locks_loop B now hs st1) = Inr (r, st')"
      using Cons.prems r0 True p by (simp add: OeStoreHolder_get_lease_id_def)
    show ?thesis
    proof (cases "r1 = OK")
      case False
      then show ?thesis using step P by simp
    next
      case True
      then have "update_locks_loop B now hs st1 = Inr (r, st')" using step by simp
      note IH = Cons.IH [OF this]
      have "v_db V Holder_db (bdb_state st1) = (v_db V Holder_db (bdb_state st))(sh_lease_id h \<mapsto> stored h)"
        "v_db V Txn_db (bdb_state st1) = v_db V Txn_db (bdb_state st)"
      proof -
        obtain buf len h' where m: "OeStoreHolder_marshal h = Inr (buf, len, h')"
          and v: "v_db V Holder_db (bdb_state st1) =
            (v_db V Holder_db (bdb_state st))(sh_lease_id h' \<mapsto> take len buf)" using P True by blast
        show "v_db V Holder_db (bdb_state st1) = (v_db V Holder_db (bdb_state st))(sh_lease_id h \<mapsto> stored h)"
          using m v marshal_lease [OF m] by (simp add: stored_def)
        show "v_db V Txn_db (bdb_state st1) = v_db V Txn_db (bdb_state st)" using P True by blast
      qed
      then show ?thesis using IH P same_saved_trans by auto
    qed
  qed
qed simp

section \<open>Ending a store call\<close>

text \<open>The code the caller sees.\<close>

fun store_code :: "rc \<Rightarrow> rc" where
  "store_code DB_LOCK_DEADLOCK = RC OE_STORE_PLEASE_RETRY"
| "store_code DB_NOTFOUND = RC OE_STORE_ITEM_NOTFOUND"
| "store_code r = r"

lemma store_code_OK [simp]: "store_code r = OK \<longleftrightarrow> r = OK"
  by (cases r) (auto simp: OE_STORE_PLEASE_RETRY_def OE_STORE_ITEM_NOTFOUND_def)

lemma handlerc_no_txn [simp]: "handlerc B r False st = Inr (store_code r, st)"
  by (cases r) (simp_all add: handlerc_def)

lemma handlerc_OK [simp]: "handlerc B OK b st = Inr (OK, st)"
  by (simp add: handlerc_def)

lemma abort_txn_spec:
  "bdb_laws B V \<Longrightarrow> abort_txn B st = Inr st' \<Longrightarrow> back_to_saved V (bdb_state st) (bdb_state st')"
  using txn_lawsD(5) by (auto simp: abort_txn_def split: if_splits)

lemma commit_txn_spec:
  assumes "bdb_laws B V" "commit_txn B st = Inr (r, st')"
  shows "if r = OK then same_view V (bdb_state st) (bdb_state st') else back_to_saved V (bdb_state st) (bdb_state st')"
  using assms txn_lawsD(3,4) [OF assms(1)] by (auto simp: commit_txn_def split: if_splits prod.splits)

lemma finish_txn_spec:
  assumes "bdb_laws B V" "finish_txn B st c = Inr (r, st')"
  shows "if c \<and> r = OK then same_view V (bdb_state st) (bdb_state st') else back_to_saved V (bdb_state st) (bdb_state st')"
  using assms abort_txn_spec [OF assms(1), of st] commit_txn_spec [OF assms(1), of st r st']
  by (auto simp: finish_txn_def c_bind_Inr split: if_splits)

text \<open>After \<^verbatim>\<open>txn_begin\<close> the state looks as before, and undoing leads back to it.\<close>

lemma begin_txn_spec:
  assumes "bdb_laws B V" "begin_txn B st = (r, st')"
  shows "same_view V (bdb_state st) (bdb_state st')" "r = OK \<Longrightarrow> back_to_saved V (bdb_state st') (bdb_state st')"
  using assms txn_lawsD(1,2) [OF assms(1)] by (auto simp: begin_txn_def split: prod.splits)

lemma undone:
  assumes "same_view V d d0" "back_to_saved V d0 d0" "same_saved V d0 d1" "back_to_saved V d1 d2"
  shows "same_view V d d2"
  using assms by (simp add: same_view_def back_to_saved_def same_saved_def)

lemma found_same_view:
  assumes "same_view V d d0"
  shows "found V now q d0 ts h = found V now q d ts h"
proof -
  have eq: "v_db V Holder_db d0 = v_db V Holder_db d" using assms by (simp add: same_view_def)
  have h: "hits V key d0 = hits V key d" for key by (simp add: hits_def eq)
  have m: "matches V q d0 t k = matches V q d t k" for t k by (simp add: matches_def h split: sum.split)
  show ?thesis by (simp add: found_def live_def eq m)
qed

lemma get_failed_spec:
  assumes "bdb_laws B V" "get_failed B r q st = Inr (r', q', st')"
  shows "r' = store_code r" "q' = q" "back_to_saved V (bdb_state st) (bdb_state st')"
  using assms finish_txn_spec [OF assms(1), of st False] by (auto simp: get_failed_def c_bind_Inr)

lemma get_read_spec:
  assumes "bdb_laws B V" "get_read B OK q st = Inr (r', q', st')"
  shows "q' = q" "back_to_saved V (bdb_state st) (bdb_state st')" "r' = OK \<Longrightarrow> sq_results q \<noteq> []"
  using assms finish_txn_spec [OF assms(1), of st False]
  by (auto simp: get_read_def c_bind_Inr OeStoreQuery_get_nitems_found_def OE_STORE_ITEM_NOTFOUND_def split: if_splits)

text \<open>What a take leaves in the store: nothing of the records found, or them locked for their owner.\<close>

definition after_take ::
  "OeStoreQuery \<Rightarrow> (oe_id \<Rightarrow> string option) \<Rightarrow> oe_id \<Rightarrow> string option" where
  "after_take q m =
     (if OeStoreQuery_get_owner_id q = 0 then m |` (- sh_lease_id ` set (sq_results q))
      else foldl (\<lambda>m h. m(sh_lease_id h \<mapsto> stored h)) m (sq_results q))"

lemma get_taken_spec:
  assumes laws: "bdb_laws B V" and "get_taken B now q st = Inr (r, q', st')"
  shows "q' = q \<and> (if r = OK
    then v_db V Holder_db (bdb_state st') = after_take q (v_db V Holder_db (bdb_state st)) \<and>
      v_db V Txn_db (bdb_state st') = v_db V Txn_db (bdb_state st)
    else \<exists>d1. same_saved V (bdb_state st) d1 \<and> back_to_saved V d1 (bdb_state st'))"
proof -
  let ?run = "if OeStoreQuery_get_owner_id q = 0 then delete_items_for_take B now q st
    else update_locks_for_take B now q st"
  obtain r1 st1 where run: "?run = Inr (r1, st1)" using assms(2) by (auto simp: get_taken_def c_bind_Inr)
  have sv: "same_saved V (bdb_state st) (bdb_state st1)"
    and ok: "r1 = OK \<Longrightarrow> v_db V Holder_db (bdb_state st1) = after_take q (v_db V Holder_db (bdb_state st)) \<and>
      v_db V Txn_db (bdb_state st1) = v_db V Txn_db (bdb_state st)"
    using run delete_items_loop_spec [OF laws, of now "sq_results q" st r1 st1]
      update_locks_loop_spec [OF laws, of now "sq_results q" st r1 st1]
    by (auto simp: delete_items_for_take_def update_locks_for_take_def after_take_def
        OE_STORE_PLEASE_RETRY_def split: if_splits)
  show ?thesis
  proof (cases "r1 = OK")
    case False
    then have "get_failed B r1 q st1 = Inr (r, q', st')" using assms(2) run by (simp add: get_taken_def)
    from get_failed_spec [OF laws this] show ?thesis using sv False by auto
  next
    case True
    then obtain lret where "finish_txn B st1 True = Inr (lret, st')" "r = store_code lret" "q' = q"
      using assms(2) run by (auto simp: get_taken_def c_bind_Inr)
    then show ?thesis using finish_txn_spec [OF laws, of st1 True lret st'] ok [OF True] sv
      by (auto simp: same_view_def split: if_splits)
  qed
qed

text \<open>A take never ends with the code for nothing found once the search has found something.\<close>

lemma store_code_ITEM [simp]:
  "store_code r = RC OE_STORE_ITEM_NOTFOUND \<longleftrightarrow> r \<in> {DB_NOTFOUND, RC OE_STORE_ITEM_NOTFOUND}"
  by (cases r) (auto simp: OE_STORE_PLEASE_RETRY_def OE_STORE_ITEM_NOTFOUND_def)

definition not_a_miss :: "rc \<Rightarrow> bool" where
  "not_a_miss r = (r \<notin> {DB_NOTFOUND, RC OE_STORE_ITEM_NOTFOUND})"

lemma not_a_miss_simps [simp]:
  "not_a_miss OK" "not_a_miss DB_LOCK_DEADLOCK" "not_a_miss (RC OE_STORE_PLEASE_RETRY)" "\<not> not_a_miss DB_NOTFOUND"
  "failure r \<Longrightarrow> not_a_miss r"
  using failure_codes [of r] by (auto simp: not_a_miss_def OE_STORE_ITEM_NOTFOUND_def OE_STORE_PLEASE_RETRY_def)

lemma recheck_code:
  assumes "bdb_laws B V" "recheck B now k d = Inr r"
  shows "not_a_miss r" "r = OK \<Longrightarrow> v_db V Holder_db d k \<noteq> None"
proof -
  obtain r1 out where g: "bdb_get B Holder_db k d = Inr (r1, out)" "r1 = OK \<longrightarrow> v_db V Holder_db d k = Some out"
    "r1 \<noteq> RC OE_STORE_ITEM_NOTFOUND" using bdb_get_spec [OF assms(1)] by blast
  have "not_a_miss r1 \<or> r1 = DB_NOTFOUND" using g(3) by (simp add: not_a_miss_def)
  then show "not_a_miss r" using assms(2) g(1) by (auto simp: recheck_def c_bind_Inr split: if_splits)
  show "r = OK \<Longrightarrow> v_db V Holder_db d k \<noteq> None"
    using assms(2) g(1,2) by (auto simp: recheck_def c_bind_Inr OE_STORE_PLEASE_RETRY_def split: if_splits)
qed

lemma put_holder_code: "bdb_laws B V \<Longrightarrow> put_holder B h st = Inr (r, st') \<Longrightarrow> not_a_miss r"
  using db_lawsD(6) [of B V Holder_db _ _ "bdb_state st" _ "_"]
  by (auto simp: put_holder_def c_bind_Inr Let_def case_prod_beta split: if_splits)
    (metis not_a_miss_simps(1,5) prod.collapse)

lemma delete_items_loop_code:
  assumes "bdb_laws B V"
  shows "delete_items_loop B now hs st = Inr (r, st') \<Longrightarrow> not_a_miss r"
proof (induction hs arbitrary: st)
  case (Cons h hs)
  let ?k = "OeStoreHolder_get_lease_id h"
  obtain r0 where r0: "recheck B now ?k (bdb_state st) = Inr r0"
    using Cons.prems by (auto simp: c_bind_Inr Let_def)
  obtain r1 d where dl: "db_del B Holder_db ?k (bdb_state st) = (r1, d)" by fastforce
  show ?case using Cons recheck_code [OF assms r0] db_lawsD(7) [OF assms dl] r0 dl
    by (auto simp: Let_def split: if_splits)
qed auto

lemma update_locks_loop_code:
  assumes "bdb_laws B V"
  shows "update_locks_loop B now hs st = Inr (r, st') \<Longrightarrow> not_a_miss r"
proof (induction hs arbitrary: st)
  case (Cons h hs)
  then obtain r0 where r0: "recheck B now (OeStoreHolder_get_lease_id h) (bdb_state st) = Inr r0"
    by (auto simp: c_bind_Inr)
  show ?case using Cons recheck_code [OF assms r0] put_holder_code [OF assms] r0
    by (auto simp: c_bind_Inr split: if_splits)
qed auto

lemma finish_txn_code: "bdb_laws B V \<Longrightarrow> finish_txn B st c = Inr (r, st') \<Longrightarrow> not_a_miss r"
  using txn_lawsD(8) [of B V] by (auto simp: finish_txn_def commit_txn_def c_bind_Inr split: if_splits prod.split_asm)
    (use not_a_miss_simps in blast)

lemma get_taken_code:
  assumes laws: "bdb_laws B V" and "get_taken B now q st = Inr (r, q', st')"
  shows "r \<noteq> RC OE_STORE_ITEM_NOTFOUND"
proof -
  let ?run = "if OeStoreQuery_get_owner_id q = 0 then delete_items_for_take B now q st
    else update_locks_for_take B now q st"
  obtain r1 st1 where run: "?run = Inr (r1, st1)" using assms(2) by (auto simp: get_taken_def c_bind_Inr)
  have "not_a_miss r1"
    using run delete_items_loop_code [OF laws] update_locks_loop_code [OF laws]
    by (auto simp: delete_items_for_take_def update_locks_for_take_def split: if_splits)
  then show ?thesis using assms(2) run finish_txn_code [OF laws]
    by (fastforce simp: get_taken_def get_failed_def c_bind_Inr not_a_miss_def split: if_splits)
qed

lemma get_read_code:
  "get_read B OK q st = Inr (r, q', st') \<Longrightarrow> r = RC OE_STORE_ITEM_NOTFOUND \<Longrightarrow> sq_results q = []"
  by (auto simp: get_read_def c_bind_Inr OeStoreQuery_get_nitems_found_def OE_STORE_ITEM_NOTFOUND_def
      split: if_splits)

text \<open>What an answer of nothing found means: with a limit on the results the templates are alternatives,
  without one they all have to match.\<close>

definition nothing_there ::
  "('d, 'c) bdb_view \<Rightarrow> oe_time \<Rightarrow> OeStoreQuery \<Rightarrow> 'd \<Rightarrow> DataObject list \<Rightarrow> bool" where
  "nothing_there V now q d ts =
     (if OeStoreQuery_get_max_results q \<noteq> 0 then \<forall>t \<in> set ts. none_live V now q d t
      else ts = [] \<or> (\<exists>t \<in> set ts. none_live V now q d t))"

lemma nothing_there_same_view:
  assumes "same_view V d d0"
  shows "nothing_there V now q d0 ts = nothing_there V now q d ts"
proof -
  have eq: "v_db V Holder_db d0 = v_db V Holder_db d" using assms by (simp add: same_view_def)
  have h: "hits V key d0 = hits V key d" for key by (simp add: hits_def eq)
  have m: "matches V q d0 t k = matches V q d t k" for t k by (simp add: matches_def h split: sum.split)
  show ?thesis by (simp add: nothing_there_def none_live_def live_def eq m)
qed

lemma search_complete:
  assumes laws: "bdb_laws B V" and tl: "templates_loop n B now all_of ts OK q d = Inr (r1, q1)"
    and all_of: "all_of = (OeStoreQuery_get_max_results q = 0)"
    and ok: "\<forall>t \<in> set ts. dataobject_ok t" and new: "sq_results q = []"
    and miss: "search_code all_of r1 q1 = DB_NOTFOUND \<or> search_code all_of r1 q1 = OK \<and> sq_results q1 = []"
  shows "nothing_there V now q d ts"
proof (cases all_of)
  case True
  then show ?thesis using templates_loop_all [OF laws, of n now ts OK q d r1 q1] tl all_of ok miss
    by (auto simp: nothing_there_def search_code_def)
next
  case False
  then show ?thesis using templates_loop_any [OF laws, of n now ts OK q d r1 q1] tl all_of ok new miss
    by (auto simp: nothing_there_def search_code_def OeStoreQuery_get_nitems_found_def OE_STORE_ITEM_NOTFOUND_def
        split: if_splits)
qed

section \<open>Reading and taking\<close>

text \<open>A call either gives up before searching or searches inside a transaction of its own.\<close>

lemma api_get_run:
  assumes laws: "bdb_laws B V" and get: "api_get n B now q st = Inr (r, q', st')"
    and ts: "sq_value_lists q = Some ts"
  obtains (early) "r \<noteq> OK" "r \<noteq> RC OE_STORE_ITEM_NOTFOUND" "same_view V (bdb_state st) (bdb_state st')" "q' = q"
  | (search) r1 q1 st0 where "begin_txn B st = (OK, st0)"
      "templates_loop n B now (OeStoreQuery_get_max_results q = 0) ts OK q (bdb_state st0) = Inr (r1, q1)"
      "(let r2 = search_code (OeStoreQuery_get_max_results q = 0) r1 q1
        in if r2 \<noteq> OK then get_failed B r2 q1 st0
           else if OeStoreQuery_is_take q \<and> 0 < OeStoreQuery_get_nitems_found q1 then get_taken B now q1 st0
           else get_read B r2 q1 st0) = Inr (r, q', st')"
proof -
  let ?d = "bdb_state st" and ?tid = "OeStoreQuery_get_owner_id q"
  let ?all = "OeStoreQuery_get_max_results q = 0"
  obtain active where act: "(if OeStoreQuery_is_take q \<and> ?tid \<noteq> 0 then txn_is_active B ?tid st else Inr True) = Inr active"
    using get by (auto simp: api_get_def c_bind_Inr Let_def)
  obtain r0 st0 where bg: "begin_txn B st = (r0, st0)" by fastforce
  have r0: "r0 = OK \<or> failure r0" using bg txn_lawsD(7) [OF laws] by (auto simp: begin_txn_def split: prod.splits)
  show thesis
  proof (cases "active \<and> r0 = OK")
    case False
    then have "(r = RC OESTORE_INACTIVE_TXN \<or> failure r0 \<and> r = store_code r0) \<and> (st' = st \<or> st' = st0) \<and> q' = q"
      using get act bg r0 by (auto simp: api_get_def Let_def split: if_splits)
    moreover have "store_code r0 \<noteq> RC OE_STORE_ITEM_NOTFOUND \<and> store_code r0 \<noteq> OK" if "failure r0"
      using not_a_miss_simps(5) [OF that] that by (auto simp: not_a_miss_def)
    ultimately show thesis using early begin_txn_spec(1) [OF laws bg]
      by (auto simp: same_view_def OESTORE_INACTIVE_TXN_def OE_STORE_ITEM_NOTFOUND_def)
  next
    case True
    then obtain r1 q1 where tl: "templates_loop n B now ?all ts OK q (bdb_state st0) = Inr (r1, q1)"
      using get act bg ts by (auto simp: api_get_def Let_def OeStoreQuery_get_value_lists_def c_bind_Inr)
    show thesis
    proof (rule search)
      show "begin_txn B st = (OK, st0)" using bg True by simp
      show "templates_loop n B now ?all ts OK q (bdb_state st0) = Inr (r1, q1)" by (rule tl)
    qed (use get act bg ts tl True in
      \<open>simp add: api_get_def Let_def OeStoreQuery_get_value_lists_def cong: if_cong\<close>)
  qed
qed

lemma api_get_criteria:
  assumes laws: "bdb_laws B V" and get: "api_get n B now q st = Inr (r, q', st')" and ts: "sq_value_lists q = Some ts"
  shows "criteria q' = criteria q"
  using laws get ts
proof (cases rule: api_get_run)
  case (search r1 q1 st0)
  have "q' = q1" using search(3)
    by (auto simp: Let_def get_failed_def get_taken_def get_read_def c_bind_Inr split: if_splits)
  then show ?thesis using templates_loop_spec [OF laws search(2)] by simp
qed simp

lemma api_get_effect:
  assumes laws: "bdb_laws B V" and get: "api_get n B now q st = Inr (r, q', st')"
    and new: "sq_results q = []" and ts: "sq_value_lists q = Some ts"
  shows "(r \<noteq> OK \<or> \<not> OeStoreQuery_is_take q \<longrightarrow> same_view V (bdb_state st) (bdb_state st')) \<and>
    (r = OK \<longrightarrow> sq_results q' \<noteq> [] \<and>
       (\<forall>h \<in> set (sq_results q'). found V now q (bdb_state st) ts h) \<and>
       (OeStoreQuery_is_take q \<longrightarrow>
          v_db V Holder_db (bdb_state st') = after_take q' (v_db V Holder_db (bdb_state st)) \<and>
          v_db V Txn_db (bdb_state st') = v_db V Txn_db (bdb_state st)))"
  using laws get ts
proof (cases rule: api_get_run)
  case (search r1 q1 st0)
  let ?d' = "bdb_state st'"
  let ?r2 = "search_code (OeStoreQuery_get_max_results q = 0) r1 q1"
  note b = begin_txn_spec [OF laws search(1)]
  note undo = undone [OF b(1) b(2) [OF refl]]
  have fd: "\<forall>h \<in> set (sq_results q1). found V now q (bdb_state st) ts h"
    using templates_loop_spec [OF laws search(2)] new found_same_view [OF b(1)] by auto
  consider "?r2 \<noteq> OK" "get_failed B ?r2 q1 st0 = Inr (r, q', st')"
    | "OeStoreQuery_is_take q" "sq_results q1 \<noteq> []" "get_taken B now q1 st0 = Inr (r, q', st')"
    | "\<not> OeStoreQuery_is_take q \<or> sq_results q1 = []" "get_read B OK q1 st0 = Inr (r, q', st')"
    using search(3) by (auto simp: Let_def OeStoreQuery_get_nitems_found_def split: if_splits)
  then show ?thesis
  proof cases
    case 1
    then show ?thesis using get_failed_spec [OF laws 1(2)] undo [of "bdb_state st0" ?d'] by simp
  next
    case 2
    have v: "v_db V Holder_db (bdb_state st0) = v_db V Holder_db (bdb_state st)"
      "v_db V Txn_db (bdb_state st0) = v_db V Txn_db (bdb_state st)"
      using b(1) by (simp_all add: same_view_def)
    show ?thesis
      using get_taken_spec [OF laws 2(3)] 2(1,2) fd v undo by (cases "r = OK") auto
  next
    case 3
    then show ?thesis using get_read_spec [OF laws 3(2)] undo [of "bdb_state st0" ?d'] fd by auto
  qed
qed auto

text \<open>C1: reading and taking are sound and atomic.  Whatever \<^verbatim>\<open>_api_get\<close> returns, a call that fails or is not
  a take leaves both databases as they were; a successful one returns at least one record, and every
  record it returns matches one of the templates, was in the store and was neither expired nor locked;
  a successful take without a transaction has removed exactly the returned records, one inside a
  transaction has rewritten exactly them with its lock and owner.\<close>

theorem api_get_sound:
  assumes laws: "bdb_laws B V" and get: "api_get n B now q st = Inr (r, q', st')"
    and new: "sq_results q = []" and ts: "sq_value_lists q = Some ts"
  shows "(r \<noteq> OK \<or> \<not> OeStoreQuery_is_take q \<longrightarrow> same_view V (bdb_state st) (bdb_state st')) \<and>
    (r = OK \<longrightarrow> sq_results q' \<noteq> [] \<and>
       (\<forall>h \<in> set (sq_results q'). found V now q (bdb_state st) ts h) \<and>
       (OeStoreQuery_is_take q \<longrightarrow>
          v_db V Holder_db (bdb_state st') = after_take q' (v_db V Holder_db (bdb_state st)) \<and>
          v_db V Txn_db (bdb_state st') = v_db V Txn_db (bdb_state st)))"
  using assms by (rule api_get_effect)

lemma api_get_miss:
  assumes laws: "bdb_laws B V" and get: "api_get n B now q st = Inr (RC OE_STORE_ITEM_NOTFOUND, q', st')"
    and new: "sq_results q = []" and ts: "sq_value_lists q = Some ts" and ok: "\<forall>t \<in> set ts. dataobject_ok t"
  shows "nothing_there V now q (bdb_state st) ts"
  using laws get ts
proof (cases rule: api_get_run)
  case (search r1 q1 st0)
  let ?r2 = "search_code (OeStoreQuery_get_max_results q = 0) r1 q1"
  have r1: "r1 \<noteq> RC OE_STORE_ITEM_NOTFOUND"
    using templates_loop_any [OF laws, of n now ts OK q _ r1 q1] templates_loop_all [OF laws, of n now ts OK q _ r1 q1]
      search(2) ok by (cases "OeStoreQuery_get_max_results q = 0") (auto simp: OE_STORE_ITEM_NOTFOUND_def)
  have "?r2 = DB_NOTFOUND \<or> ?r2 = OK \<and> sq_results q1 = []"
  proof (cases "?r2 = OK")
    case True
    then show ?thesis using search(3) get_taken_code [OF laws] get_read_code
      by (fastforce simp: Let_def split: if_splits)
  next
    case False
    then have "get_failed B ?r2 q1 st0 = Inr (RC OE_STORE_ITEM_NOTFOUND, q', st')"
      using search(3) by (simp add: Let_def)
    then have "store_code ?r2 = RC OE_STORE_ITEM_NOTFOUND" using get_failed_spec(1) [OF laws] by metis
    then have "?r2 = DB_NOTFOUND \<or> ?r2 = RC OE_STORE_ITEM_NOTFOUND" by simp
    then show ?thesis using r1 False by (simp add: search_code_def split: if_splits)
  qed
  then have "nothing_there V now q (bdb_state st0) ts"
    by (rule search_complete [OF laws search(2) refl ok new])
  then show ?thesis using nothing_there_same_view [OF begin_txn_spec(1) [OF laws search(1)]] by simp
qed auto

text \<open>C3: an answer of nothing found is right.  When \<^verbatim>\<open>_api_get\<close> reports \<^verbatim>\<open>OE_STORE_ITEM_NOTFOUND\<close>, then for a
  query with a limit no template has a matching record that may be used now, and for one without a
  limit (all templates have to match) one of its templates has none.\<close>

theorem api_get_not_found:
  assumes laws: "bdb_laws B V" and get: "api_get n B now q st = Inr (RC OE_STORE_ITEM_NOTFOUND, q', st')"
    and new: "sq_results q = []" and ts: "sq_value_lists q = Some ts" and ok: "\<forall>t \<in> set ts. dataobject_ok t"
  shows "nothing_there V now q (bdb_state st) ts"
  using assms by (rule api_get_miss)

end
