(* ===== verification/Bdb_Memory.thy ===== *)
theory Bdb_Memory
  imports Bdb_Search
begin

text \<open>
  A database kept in memory that has the calls of \<^verbatim>\<open>Bdb_Store\<close> and obeys the laws of \<^verbatim>\<open>Bdb_Laws\<close>: the
  laws can hold together, and the store can be run on concrete records with it.
\<close>

record mem =
  m_holders :: "(oe_id \<times> string) list"
  m_txns :: "(oe_id \<times> string) list"
  m_saved_holders :: "(oe_id \<times> string) list"
  m_saved_txns :: "(oe_id \<times> string) list"
  m_seq :: oe_id

type_synonym mem_cursor = "index_key \<times> oe_id option \<times> oe_id list"

definition mem_empty :: mem where
  "mem_empty = \<lparr>m_holders = [], m_txns = [], m_saved_holders = [], m_saved_txns = [], m_seq = 1\<rparr>"

fun mem_records :: "primary \<Rightarrow> mem \<Rightarrow> (oe_id \<times> string) list" where
  "mem_records Holder_db d = m_holders d"
| "mem_records Txn_db d = m_txns d"

fun mem_saved :: "primary \<Rightarrow> mem \<Rightarrow> (oe_id \<times> string) list" where
  "mem_saved Holder_db d = m_saved_holders d"
| "mem_saved Txn_db d = m_saved_txns d"

fun mem_update :: "primary \<Rightarrow> (oe_id \<times> string) list \<Rightarrow> mem \<Rightarrow> mem" where
  "mem_update Holder_db xs d = d\<lparr>m_holders := xs\<rparr>"
| "mem_update Txn_db xs d = d\<lparr>m_txns := xs\<rparr>"

definition mem_begin :: "mem \<Rightarrow> mem" where
  "mem_begin d = d\<lparr>m_saved_holders := m_holders d, m_saved_txns := m_txns d\<rparr>"

definition mem_abort :: "mem \<Rightarrow> mem" where
  "mem_abort d = d\<lparr>m_holders := m_saved_holders d, m_txns := m_saved_txns d\<rparr>"

definition mem_without :: "oe_id \<Rightarrow> (oe_id \<times> string) list \<Rightarrow> (oe_id \<times> string) list" where
  "mem_without k xs = filter (\<lambda>(k', _). k' \<noteq> k) xs"

text \<open>Delivering the record of a key into a buffer of a given size.\<close>

definition mem_deliver :: "string option \<Rightarrow> rc \<Rightarrow> nat \<Rightarrow> rc \<times> string \<times> nat" where
  "mem_deliver rec missing ulen =
     (case rec of
        None \<Rightarrow> (missing, [], 0)
      | Some b \<Rightarrow> if length b \<le> ulen then (OK, b, length b) else (DB_BUFFER_SMALL, [], length b))"

definition mem_hit :: "index_key \<Rightarrow> mem \<Rightarrow> oe_id \<Rightarrow> bool" where
  "mem_hit key d k = (case map_of (m_holders d) k of None \<Rightarrow> False | Some b \<Rightarrow> indexed key b)"

definition mem_keys :: "mem \<Rightarrow> oe_id list" where
  "mem_keys d = remdups (map fst (m_holders d))"

definition mem_dups :: "index_key \<Rightarrow> mem \<Rightarrow> oe_id list" where
  "mem_dups key d = filter (mem_hit key d) (mem_keys d)"

definition mem_step :: "index_key \<Rightarrow> oe_id list \<Rightarrow> mem_cursor \<Rightarrow> nat \<Rightarrow> mem \<Rightarrow> rc \<times> string \<times> nat \<times> mem_cursor" where
  "mem_step key ks c ulen d =
     (case ks of
        [] \<Rightarrow> (DB_NOTFOUND, [], 0, c)
      | k # ks' \<Rightarrow>
          (let (r, out, sz) = mem_deliver (map_of (m_holders d) k) (RC 1) ulen
           in (r, out, sz, if r = OK then (key, Some k, ks') else c)))"

text \<open>The leases in the order of the times they run out at.\<close>

definition lease_time :: "mem \<Rightarrow> oe_id \<Rightarrow> oe_time option" where
  "lease_time d k =
     (case map_of (m_holders d) k of
        None \<Rightarrow> None
      | Some b \<Rightarrow> (case set_expire_time b of Inr (r, t # _) \<Rightarrow> if r = OK then Some t else None | _ \<Rightarrow> None))"

definition mem_leases :: "mem \<Rightarrow> oe_id list" where
  "mem_leases d =
     sort_key (\<lambda>k. sint (the (lease_time d k))) (filter (\<lambda>k. lease_time d k \<noteq> None) (mem_keys d))"

fun mem_cur_get :: "mem_cursor \<Rightarrow> cursor_op \<Rightarrow> index_key \<Rightarrow> nat \<Rightarrow> mem \<Rightarrow> rc \<times> string \<times> nat \<times> mem_cursor" where
  "mem_cur_get c DB_SET key ulen d = mem_step key (mem_dups key d) c ulen d"
| "mem_cur_get c DB_NEXT_DUP key ulen d =
     mem_step (fst c) (dropWhile (\<lambda>k. \<not> mem_hit (fst c) d k) (snd (snd c))) c ulen d"
| "mem_cur_get c Join_Next key ulen d = mem_step (fst c) (snd (snd c)) c ulen d"
| "mem_cur_get c DB_SET_RANGE key ulen d =
     (case key of
        Time_Key now \<Rightarrow>
          (let early = (\<lambda>k. sint (the (lease_time d k)) < sint now); ls = mem_leases d
           in case dropWhile early ls of
                [] \<Rightarrow> (DB_NOTFOUND, [], 0, c)
              | k # _ \<Rightarrow> mem_step key (k # rev (takeWhile early ls)) c ulen d)
      | _ \<Rightarrow> (RC 1, [], 0, c))"
| "mem_cur_get c DB_PREV key ulen d =
     mem_step key (dropWhile (\<lambda>k. lease_time d k = None) (snd (snd c))) c ulen d"

definition mem_cur_del :: "mem_cursor \<Rightarrow> mem \<Rightarrow> rc \<times> mem" where
  "mem_cur_del c d =
     (case fst (snd c) of None \<Rightarrow> (RC 1, d) | Some k \<Rightarrow> (OK, d\<lparr>m_holders := mem_without k (m_holders d)\<rparr>))"

definition mem_join :: "mem_cursor list \<Rightarrow> mem \<Rightarrow> rc \<times> mem_cursor" where
  "mem_join cs d =
     (if cs = [] then (RC 1, (Prop_Key [], None, []))
      else (OK, (Prop_Key [], None, filter (\<lambda>k. list_all (\<lambda>c. mem_hit (fst c) d k) cs) (mem_keys d))))"

definition mem_bdb :: "(mem, mem_cursor) bdb" where
  "mem_bdb = \<lparr>
     txn_begin = \<lambda>d. (OK, mem_begin d),
     txn_commit = \<lambda>d. (OK, d),
     txn_abort = mem_abort,
     txn_deadlock = \<lambda>_. False,
     seq_get = \<lambda>d. (OK, m_seq d, d\<lparr>m_seq := m_seq d + 1\<rparr>),
     db_get = \<lambda>p k ulen d. mem_deliver (map_of (mem_records p d) k) DB_NOTFOUND ulen,
     db_put = \<lambda>p k b d. (OK, mem_update p ((k, b) # mem_without k (mem_records p d)) d),
     db_del = \<lambda>p k d. (OK, mem_update p (mem_without k (mem_records p d)) d),
     cur_open = \<lambda>_ _. (OK, (Prop_Key [], None, [])),
     cur_get = mem_cur_get,
     cur_del = mem_cur_del,
     cur_close = \<lambda>_ _. OK,
     db_join = mem_join\<rparr>"

definition mem_view :: "(mem, mem_cursor) bdb_view" where
  "mem_view = \<lparr>
     v_db = \<lambda>p d. map_of (mem_records p d),
     v_saved = \<lambda>p d. map_of (mem_saved p d),
     v_dups = mem_dups,
     v_at = fst,
     v_cur = \<lambda>c. fst (snd c),
     v_rest = \<lambda>c. snd (snd c)\<rparr>"

section \<open>The laws hold\<close>

lemma map_of_without [simp]: "map_of (mem_without k xs) = (map_of xs)(k := None)"
  by (induction xs) (auto simp: mem_without_def fun_eq_iff)

lemma mem_records_update [simp]:
  "mem_records q (mem_update p xs d) = (if q = p then xs else mem_records q d)"
  by (cases q; cases p) auto

lemma mem_saved_update [simp]: "mem_saved q (mem_update p xs d) = mem_saved q d"
  by (cases q; cases p) auto

lemma mem_saved_fields [simp]:
  "m_saved_holders (mem_update p xs d) = m_saved_holders d" "m_saved_txns (mem_update p xs d) = m_saved_txns d"
  by (cases p; simp)+

lemma mem_view_simps [simp]:
  "v_db mem_view = (\<lambda>p d. map_of (mem_records p d))" "v_saved mem_view = (\<lambda>p d. map_of (mem_saved p d))"
  "v_dups mem_view = mem_dups" "v_at mem_view = fst" "v_cur mem_view = (\<lambda>c. fst (snd c))"
  "v_rest mem_view = (\<lambda>c. snd (snd c))"
  by (simp_all add: mem_view_def)

lemma mem_bdb_simps [simp]:
  "txn_begin mem_bdb d = (OK, mem_begin d)" "txn_commit mem_bdb d = (OK, d)" "txn_abort mem_bdb d = mem_abort d"
  "txn_deadlock mem_bdb d = False" "seq_get mem_bdb d = (OK, m_seq d, d\<lparr>m_seq := m_seq d + 1\<rparr>)"
  "db_get mem_bdb p k ulen d = mem_deliver (map_of (mem_records p d) k) DB_NOTFOUND ulen"
  "db_put mem_bdb p k b d = (OK, mem_update p ((k, b) # mem_without k (mem_records p d)) d)"
  "db_del mem_bdb p k d = (OK, mem_update p (mem_without k (mem_records p d)) d)"
  "cur_open mem_bdb i d = (OK, (Prop_Key [], None, []))" "cur_get mem_bdb = mem_cur_get"
  "cur_del mem_bdb = mem_cur_del" "cur_close mem_bdb c d = OK" "db_join mem_bdb = mem_join"
  by (simp_all add: mem_bdb_def)

lemma hits_mem: "hits mem_view key d = {k. mem_hit key d k}"
  by (simp add: hits_def mem_hit_def)

lemma mem_hit_key: "mem_hit key d k \<Longrightarrow> k \<in> set (mem_keys d)"
  by (force simp: mem_hit_def mem_keys_def split: option.splits dest: map_of_SomeD)

lemma set_mem_dups [simp]: "set (mem_dups key d) = hits mem_view key d"
  using mem_hit_key by (auto simp: mem_dups_def hits_mem)

lemma mem_deliver_spec:
  "mem_deliver rec missing u = (r, out, sz) \<Longrightarrow>
     (case rec of None \<Rightarrow> r = missing | Some b \<Rightarrow> delivers b u r out sz)"
  by (auto simp: mem_deliver_def delivers_def split: option.splits if_splits)

lemma mem_step_spec:
  "mem_step key ks c u d = (r, out, sz, c') \<Longrightarrow> cursor_step mem_view key ks d u c r out sz c'"
  by (auto simp: mem_step_def cursor_step_def mem_deliver_def delivers_def failure_def
      split: list.splits option.splits if_splits)

lemma lease_time_hit: "lease_time d k = Some t \<Longrightarrow> k \<in> hits mem_view (Time_Key t) d"
  by (auto simp: lease_time_def hits_def split: option.splits sum.splits prod.splits list.splits if_splits)

lemma mem_step_lease:
  assumes "mem_step key (k # ks) c u d = (OK, out, sz, c')" "lease_time d k = Some t"
  shows "k \<in> hits mem_view (Time_Key t) d \<and> fst (snd c') = Some k \<and> map_of (m_holders d) k = Some out"
  using assms lease_time_hit [OF assms(2)]
  by (auto simp: mem_step_def mem_deliver_def split: option.splits if_splits)

lemma mem_txn_laws: "txn_laws mem_bdb mem_view"
  by (auto simp: txn_laws_def same_view_def back_to_saved_def same_saved_def mem_begin_def mem_abort_def)

lemma mem_db_laws: "db_laws mem_bdb mem_view"
  by (auto simp: db_laws_def same_saved_def dest!: mem_deliver_spec split: option.splits)

lemma mem_index_laws: "index_laws mem_view d"
proof -
  have "distinct (mem_dups key d)" for key by (simp add: mem_dups_def mem_keys_def)
  then show ?thesis by (simp add: index_laws_def)
qed

lemma mem_cursor_laws: "cursor_laws mem_bdb mem_view"
  by (auto simp: cursor_laws_def still_there_def hits_mem mem_cur_del_def same_saved_def
      dest!: mem_step_spec split: option.splits)

lemma mem_join_laws: "join_laws mem_bdb mem_view"
proof -
  have "distinct (v_rest mem_view jc) \<and> set (v_rest mem_view jc) = (\<Inter>c \<in> set cs. hits mem_view (v_at mem_view c) d)"
    if "db_join mem_bdb cs d = (OK, jc)" for cs d jc
  proof -
    have "jc = (Prop_Key [], None, filter (\<lambda>k. list_all (\<lambda>c. mem_hit (fst c) d k) cs) (mem_keys d))" "cs \<noteq> []"
      using that by (auto simp: mem_join_def split: if_splits)
    moreover have "hd cs \<in> set cs" using \<open>cs \<noteq> []\<close> by simp
    moreover have "k \<in> set (mem_keys d)" if "\<forall>c \<in> set cs. mem_hit (fst c) d k" for k
      using that mem_hit_key [of "fst (hd cs)" d k] \<open>hd cs \<in> set cs\<close> by blast
    moreover have "distinct (mem_keys d)" by (simp add: mem_keys_def)
    ultimately show ?thesis by (auto simp: hits_mem list_all_iff)
  qed
  moreover have "cur_get mem_bdb c Join_Next key u d = (r, out, sz, c') \<Longrightarrow>
      cursor_step mem_view (v_at mem_view c) (v_rest mem_view c) d u c r out sz c'" for c key u d r out sz c'
    by (auto dest: mem_step_spec)
  moreover have "cur_open mem_bdb i d = (r, c) \<Longrightarrow> r = OK \<or> failure r" for i d r c by simp
  ultimately show ?thesis by (simp only: join_laws_def) blast
qed

lemma mem_range_laws: "range_laws mem_bdb mem_view"
proof -
  have "\<exists>t k. k \<in> hits mem_view (Time_Key t) d \<and> sint now \<le> sint t \<and> fst (snd c') = Some k \<and>
      map_of (m_holders d) k = Some out"
    if g: "mem_cur_get c DB_SET_RANGE (Time_Key now) u d = (OK, out, sz, c')" for c now u d out sz c'
  proof -
    let ?early = "\<lambda>k. sint (the (lease_time d k)) < sint now"
    obtain k ks where dw: "dropWhile ?early (mem_leases d) = k # ks"
      using g by (cases "dropWhile ?early (mem_leases d)") (auto simp: Let_def)
    then have "k \<in> set (mem_leases d)" by (metis list.set_intros(1) set_dropWhileD)
    then obtain t where t: "lease_time d k = Some t" by (auto simp: mem_leases_def)
    have "\<not> ?early k" using hd_dropWhile [of ?early "mem_leases d"] dw by simp
    then show ?thesis using g dw t mem_step_lease [of "Time_Key now" k "rev (takeWhile ?early (mem_leases d))" c u d out sz c' t]
      by (auto simp: Let_def)
  qed
  moreover have "\<exists>t k. k \<in> hits mem_view (Time_Key t) d \<and> fst (snd c') = Some k \<and> map_of (m_holders d) k = Some out"
    if g: "mem_cur_get c DB_PREV (Time_Key now) u d = (OK, out, sz, c')" for c now u d out sz c'
  proof -
    let ?gone = "\<lambda>k. lease_time d k = None"
    obtain k ks where dw: "dropWhile ?gone (snd (snd c)) = k # ks"
      using g by (cases "dropWhile ?gone (snd (snd c))") (auto simp: mem_step_def)
    then obtain t where t: "lease_time d k = Some t"
      using hd_dropWhile [of ?gone "snd (snd c)"] by auto
    then show ?thesis using mem_step_lease [of "Time_Key now" k ks c u d out sz c' t] g dw by auto
  qed
  ultimately show ?thesis
    unfolding range_laws_def mem_view_simps mem_bdb_simps mem_records.simps by blast
qed

lemma mem_laws: "bdb_laws mem_bdb mem_view"
  by (simp add: bdb_laws_def mem_txn_laws mem_db_laws mem_index_laws mem_cursor_laws mem_join_laws mem_range_laws)

section \<open>Sample records\<close>

text \<open>A tuple with a lease up to time 50, a template it matches, a query for it, and the bytes it is stored
  as.\<close>

definition demo_tuple :: DataObject where
  "demo_tuple = DataObject_new\<lparr>strings := [''a'', ''b'']\<rparr>"

definition demo_template :: DataObject where
  "demo_template = DataObject_new\<lparr>strings := [''a'', ''_'']\<rparr>"

definition demo_holder :: OeStoreHolder where
  "demo_holder = \<lparr>sh_lock = OESTORE_UNLOCKED, sh_is_tuple = True, sh_lease_id = 1, sh_txn_id = 0,
     sh_lease_expire_time = 50, sh_data = Some demo_tuple\<rparr>"

definition demo_store :: "(oe_id \<times> string) list \<Rightarrow> mem OeBdb" where
  "demo_store hs = \<lparr>bdb_state = mem_empty\<lparr>m_holders := hs\<rparr>, txn_live = False, reaper_running_flag = False,
     running_flag = True, fire_write_event = True, fired = [], persist_level = 0\<rparr>"

definition demo_query :: "bool \<Rightarrow> OeStoreQuery" where
  "demo_query tk = (OeStoreQuery_new 1)\<lparr>sq_take := tk, sq_is_tuple := True, sq_value_lists := Some [demo_template]\<rparr>"

definition demo_bytes :: string where
  "demo_bytes = holder_bytes demo_holder demo_tuple"

lemma demo_storable: "storable_data demo_tuple"
    by (simp add: storable_data_def dataobject_ok_def holder_size_def SIZEOF_HOLDER_def INT_MAX_def NUL_def demo_tuple_def)

lemma demo_ok: "dataobject_ok demo_tuple" "dataobject_ok demo_template" 
  by (simp_all add: demo_tuple_def demo_template_def dataobject_ok_def)

lemma demo_read: "OeStoreHolder_new_from_buffer demo_bytes = Inr demo_holder"
  using unmarshal_exact [OF demo_storable, of demo_holder "[]"]
  by (simp add: demo_bytes_def demo_holder_def demo_tuple_def read_back_def DataObject_new_def)

lemma demo_length: "length demo_bytes = 41"
  by (simp add: demo_bytes_def holder_bytes_def holder_header_def bool_byte_def demo_tuple_def content_def)

lemma demo_peek: "OeStoreHolder_peek_txn_id demo_bytes = Inr 0" "OeStoreHolder_peek_lease_exp_time demo_bytes = Inr 50"
  using peek_spec [of demo_holder demo_tuple "[]"] by (simp_all add: demo_bytes_def demo_holder_def)


lemma demo_itoa: "itoa 0 = ''0''" "itoa (Suc 0) = ''1''" "itoa (Suc (Suc 0)) = ''2''"
  by code_simp+

lemma demo_sel: "strings demo_tuple = [''a'', ''b'']" "strings demo_template = [''a'', ''_'']"
  by (simp_all add: demo_tuple_def demo_template_def)

lemmas demo_eval = Let_def DataObject_get_nattrs_def attrs_of_exact tuple_key_def oec_str_concat_def OES_KEY_SEP_def
   OESTORE_WILDCARD_def demo_itoa demo_ok demo_sel

lemma demo_props: "set_props demo_bytes = Inr (OK, [''a~+0~+2'', ''b~+1~+2''])"
  by (simp add: set_props_def demo_peek demo_read set_tuple_props_def OeStoreHolder_get_data_def getdata_def OeStoreHolder_is_tuple_def demo_holder_def demo_eval)

lemmas demo_query_eval = OeStoreQuery_get_max_results_def OeStoreQuery_set_exists_def OeStoreQuery_add_store_holder_def
  OeStoreQuery_new_def OeStoreQuery_is_take_def OeStoreQuery_get_owner_id_def OeStoreQuery_get_nitems_found_def
  OeStoreQuery_is_tuple_def OeStoreQuery_get_value_lists_def

lemmas demo_mem_eval = get_with_cursor_def numeral_2_eq_2 numeral_3_eq_3 mem_step_def mem_dups_def mem_keys_def
  mem_hit_def mem_deliver_def OEBDB_DEFAULT_READ_BUFFER_SIZE_def mem_join_def

lemma demo_skip: "OeStoreHolder_skip 5 demo_holder = OESTORE_DO_NOT_SKIP"
  by (simp add: OeStoreHolder_skip_def OeStoreHolder_get_lease_expire_time_def OeStoreHolder_get_lock_def
      demo_holder_def OEC_FOREVER_def OESTORE_UNLOCKED_def OESTORE_WRITE_LOCK_def OESTORE_TAKE_LOCK_def)

definition demo_result :: "bool \<Rightarrow> OeStoreQuery" where
  "demo_result tk = OeStoreQuery_set_exists
     (OeStoreQuery_add_store_holder (demo_query tk) (mark (demo_query tk) demo_holder)) True"

lemma demo_one:
  assumes "m_holders d = [(1, demo_bytes)]"
  shows "get_one 3 mem_bdb 5 (demo_query tk) demo_template d = Inr (OK, demo_result tk)"
  by (simp add: get_one_def calc_nkeys_def demo_eval demo_query_def demo_query_eval position_tuple_cursors_def
      demo_mem_eval demo_props demo_length demo_read demo_skip assms demo_result_def mark_def)

lemma demo_query_sel [simp]:
  "OeStoreQuery_get_owner_id (demo_query tk) = 0" "OeStoreQuery_get_max_results (demo_query tk) = 1"
  "OeStoreQuery_is_take (demo_query tk) = tk" "OeStoreQuery_get_value_lists (demo_query tk) = Inr [demo_template]"
  "sq_results (demo_query tk) = []" "sq_value_lists (demo_query tk) = Some [demo_template]"
  "sq_results (demo_result tk) = [mark (demo_query tk) demo_holder]" "OeStoreQuery_get_owner_id (demo_result tk) = 0"
  "OeStoreQuery_get_nitems_found (demo_result tk) = 1" "OeStoreQuery_is_tuple (demo_query tk)"
  "OeStoreQuery_get_nitems_found (demo_query tk) = 0"
  by (simp_all add: demo_query_def demo_result_def demo_query_eval)

lemma demo_mark: "sh_lease_id (mark q demo_holder) = 1"
  by (simp add: mark_def demo_holder_def OeStoreHolder_set_txn_id_def OeStoreHolder_set_lock_def)

lemma demo_get:
  "\<exists>q' st'. api_get 3 mem_bdb 5 (demo_query tk) (demo_store [(1, demo_bytes)]) = Inr (OK, q', st')"
  by (simp add: api_get_def Let_def begin_txn_def demo_one mem_begin_def demo_store_def mem_empty_def search_code_def
      get_taken_def delete_items_for_take_def recheck_def bdb_get_def numeral_2_eq_2 OeStoreHolder_get_lease_id_def
      demo_mark mem_deliver_def demo_length OEBDB_DEFAULT_READ_BUFFER_SIZE_def demo_read demo_skip txn_flags_deadlock_def
      finish_txn_def commit_txn_def abort_txn_def get_read_def)

lemma demo_miss:
  "\<exists>q' st'. api_get 3 mem_bdb 5 (demo_query tk) (demo_store []) = Inr (RC OE_STORE_ITEM_NOTFOUND, q', st')"
  by (simp add: api_get_def Let_def begin_txn_def get_one_def calc_nkeys_def demo_eval position_tuple_cursors_def mem_begin_def demo_store_def mem_empty_def search_code_def
      demo_mem_eval txn_flags_deadlock_def get_failed_def
      finish_txn_def commit_txn_def abort_txn_def)
theorem api_get_sound_witness:
  "\<exists>q' st'. api_get 3 mem_bdb 5 (demo_query True) (demo_store [(1, demo_bytes)]) = Inr (OK, q', st') \<and>
     sq_results q' \<noteq> [] \<and>
     v_db mem_view Holder_db (bdb_state st') =
       after_take q' (v_db mem_view Holder_db (bdb_state (demo_store [(1, demo_bytes)])))"
proof -
  obtain q' st' where g: "api_get 3 mem_bdb 5 (demo_query True) (demo_store [(1, demo_bytes)]) = Inr (OK, q', st')"
    using demo_get [of True] by blast
  show ?thesis
    using api_get_sound [OF mem_laws g demo_query_sel(5,6)] g by (intro exI [of _ q'] exI [of _ st']) simp
qed

theorem api_get_not_found_witness:
  "none_live mem_view 5 (demo_query True) (bdb_state (demo_store [])) demo_template"
proof -
  obtain q' st' where g: "api_get 3 mem_bdb 5 (demo_query True) (demo_store []) = Inr (RC OE_STORE_ITEM_NOTFOUND, q', st')"
    using demo_miss [of True] by blast
  have "\<forall>t \<in> set [demo_template]. dataobject_ok t" by (simp add: demo_ok)
  from api_get_not_found [OF mem_laws g demo_query_sel(5,6) this] show ?thesis by (simp add: nothing_there_def)
qed

end
