(* ===== verification/Bdb_Txn.thy ===== *)
theory Bdb_Txn
  imports Bdb_Memory
begin

text \<open>
  Writing, user transactions, lease renewal and the lease reaper of \<^verbatim>\<open>corelib/OeBdb.c\<close>, under the laws of
  \<^verbatim>\<open>Bdb_Laws\<close>: what each call does to the two databases and which write events it sends, that a
  call that fails leaves no trace, and the places where the code does not do what it means to.
\<close>

section \<open>Stored bytes\<close>

lemma buf_write_all_result:
  "buf_write_all buf pos bss = Inr (buf', pos') \<Longrightarrow>
     pos' = pos + length (concat bss) \<and> (pos \<le> length buf \<longrightarrow> take pos' buf' = take pos buf @ concat bss)"
proof (induction bss arbitrary: buf pos)
  case (Cons bs bss)
  then obtain b1 where w: "buf_write buf pos bs = Inr b1" and
    r: "buf_write_all b1 (pos + length bs) bss = Inr (buf', pos')"
    by (auto split: sum.splits)
  have "b1 = take pos buf @ bs @ drop (pos + length bs) buf" "pos + length bs \<le> length buf"
    using w by (auto simp: buf_write_def split: if_splits)
  then show ?case using Cons.IH [OF r] by auto
qed auto

lemma marshal_header:
  assumes "OeStoreHolder_marshal h = Inr (buf, len, h')"
  shows "\<exists>nb np rest. stored h = concat (holder_header h nb np) @ rest"
proof -
  obtain d d' ps c where m: "sh_data h = Some d" "attrs_of d = Inr (ps, d')" "content_read d' = Inr c"
    "buf_write_all (replicate (SIZEOF_HOLDER + sum_list (map (\<lambda>p. length p + 1) ps) + DataObject_get_nbytes d' + 1) NUL) 0
       (holder_header h (DataObject_get_nbytes d') (DataObject_get_nattrs d) @ map (\<lambda>p. p @ [NUL]) ps @ [c]) =
     Inr (buf, len)"
    using assms
    by (auto simp: OeStoreHolder_marshal_def Let_def split: option.splits sum.splits prod.splits if_splits)
  from buf_write_all_result [OF m(4)] have "take len buf =
      concat (holder_header h (DataObject_get_nbytes d') (DataObject_get_nattrs d)) @ concat (map (\<lambda>p. p @ [NUL]) ps @ [c])"
    by auto
  then show ?thesis using assms by (auto simp: stored_def)
qed

lemma stored_peek:
  assumes "OeStoreHolder_marshal h = Inr (buf, len, h')"
  shows "OeStoreHolder_peek_txn_id (stored h) = Inr (sh_txn_id h)"
    "OeStoreHolder_peek_lease_exp_time (stored h) = Inr (sh_lease_expire_time h)"
  using marshal_header [OF assms]
  by (auto simp: OeStoreHolder_peek_txn_id_def OeStoreHolder_peek_lease_exp_time_def peek64_def LID_POS_def
      TID_POS_def EXP_POS_def holder_header_def bool_byte_def take_le_word)

text \<open>Decoding a stored record, when it succeeds, gives the identifiers in its header.\<close>

lemma take_le_Inr: "take_le k b = Inr (n, b') \<longleftrightarrow> k \<le> length b \<and> n = le_dec (take k b) \<and> b' = drop k b"
  by (auto simp: take_le_def read_le_def)

lemma peek64_eq: "pos + 8 \<le> length b \<Longrightarrow> peek64 pos b = Inr (word_of_nat (le_dec (take 8 (drop pos b))))"
  by (simp add: peek64_def take_le_def read_le_def)

lemma case_c_bind: "(case x of Inl e \<Rightarrow> Inl e | Inr y \<Rightarrow> f y) = c_bind x f"
  by (cases x) simp_all

lemma unmarshal_steps:
  assumes "unmarshal OeStoreHolder_new b = Inr h"
  shows "\<exists>lock b1 tup b2 lid b3 tid b4 expt b5. take_le 4 b = Inr (lock, b1) \<and> take_le 1 b1 = Inr (tup, b2) \<and>
    take_le 8 b2 = Inr (lid, b3) \<and> take_le 8 b3 = Inr (tid, b4) \<and> take_le 8 b4 = Inr (expt, b5) \<and>
    sh_lease_id h = word_of_nat lid \<and> sh_txn_id h = word_of_nat tid \<and> sh_lease_expire_time h = word_of_nat expt"
proof -
  obtain lock b1 tup b2 lid b3 tid b4 expt b5 where s: "take_le 4 b = Inr (lock, b1)" "take_le 1 b1 = Inr (tup, b2)"
    "take_le 8 b2 = Inr (lid, b3)" "take_le 8 b3 = Inr (tid, b4)" "take_le 8 b4 = Inr (expt, b5)"
    using assms unfolding unmarshal_def case_c_bind
    by (simp only: c_bind_Inr split_paired_Ex prod.case) blast
  obtain props2 where "h = OeStoreHolder_new\<lparr>sh_lock := word_of_nat lock, sh_is_tuple := (tup \<noteq> 0),
      sh_lease_id := word_of_nat lid, sh_txn_id := word_of_nat tid, sh_lease_expire_time := word_of_nat expt,
      sh_data := Some props2\<rparr>"
    using assms unfolding unmarshal_def s case_c_bind c_bind.simps prod.case
    by (auto simp: c_bind_Inr getdata_def OeStoreHolder_new_def OeStoreHolder_new_with_data_def Let_def
        split_paired_Ex split: if_splits)
  then show ?thesis using s by (intro exI conjI) auto
qed

lemma new_from_buffer_header:
  assumes "OeStoreHolder_new_from_buffer b = Inr h"
  shows "OeStoreHolder_peek_lease_id b = Inr (sh_lease_id h)" "OeStoreHolder_peek_txn_id b = Inr (sh_txn_id h)"
    "OeStoreHolder_peek_lease_exp_time b = Inr (sh_lease_expire_time h)"
proof -
  obtain lid tid expt where "29 \<le> length b" "lid = le_dec (take 8 (drop 5 b))" "tid = le_dec (take 8 (drop 13 b))"
    "expt = le_dec (take 8 (drop 21 b))"
    "sh_lease_id h = word_of_nat lid" "sh_txn_id h = word_of_nat tid" "sh_lease_expire_time h = word_of_nat expt"
    using unmarshal_steps [OF assms [unfolded OeStoreHolder_new_from_buffer_def]]
    by (elim exE conjE) (simp add: take_le_Inr)
  then show "OeStoreHolder_peek_lease_id b = Inr (sh_lease_id h)" "OeStoreHolder_peek_txn_id b = Inr (sh_txn_id h)"
    "OeStoreHolder_peek_lease_exp_time b = Inr (sh_lease_expire_time h)"
    by (simp_all add: OeStoreHolder_peek_lease_id_def OeStoreHolder_peek_txn_id_def
        OeStoreHolder_peek_lease_exp_time_def LID_POS_def TID_POS_def EXP_POS_def peek64_eq)
qed

text \<open>The record found under a key carries that key.\<close>

definition keyed :: "('d, 'c) bdb_view \<Rightarrow> 'd \<Rightarrow> bool" where
  "keyed V d = (\<forall>k b h. v_db V Holder_db d k = Some b \<longrightarrow> OeStoreHolder_new_from_buffer b = Inr h \<longrightarrow>
     sh_lease_id h = k)"

lemma stored_lease:
  assumes "OeStoreHolder_marshal h = Inr (buf, len, h')" "OeStoreHolder_new_from_buffer (stored h) = Inr h2"
  shows "sh_lease_id h2 = sh_lease_id h"
proof -
  have "OeStoreHolder_peek_lease_id (stored h) = Inr (sh_lease_id h)"
    using marshal_header [OF assms(1)]
    by (auto simp: OeStoreHolder_peek_lease_id_def peek64_def LID_POS_def holder_header_def bool_byte_def take_le_word)
  then show ?thesis using new_from_buffer_header(1) [OF assms(2)] by simp
qed

section \<open>Records a transaction owns\<close>

definition owned :: "('d, 'c) bdb_view \<Rightarrow> oe_id \<Rightarrow> 'd \<Rightarrow> oe_id set" where
  "owned V tid d = hits V (Owner_Key tid) d"

lemma owned_iff:
  "k \<in> owned V tid d \<longleftrightarrow>
     (\<exists>b. v_db V Holder_db d k = Some b \<and> tid \<noteq> 0 \<and> OeStoreHolder_peek_txn_id b = Inr tid)"
  by (auto simp: owned_def hits_def set_owner_def split: option.splits sum.splits if_splits)
    (auto simp: c_bind_Inr split: if_splits sum.splits)

lemma owned_update:
  assumes "v_db V Holder_db d' = (v_db V Holder_db d)(k := x)"
    and "case x of None \<Rightarrow> True | Some b \<Rightarrow> OeStoreHolder_peek_txn_id b = Inr 0"
  shows "owned V tid d' = owned V tid d - {k}"
  using assms by (auto simp: owned_iff split: option.splits if_splits)

lemma keyed_update:
  assumes "keyed V d" "v_db V Holder_db d' = (v_db V Holder_db d)(k := x)"
    and "\<And>b h. x = Some b \<Longrightarrow> OeStoreHolder_new_from_buffer b = Inr h \<Longrightarrow> sh_lease_id h = k"
  shows "keyed V d'"
  using assms by (simp add: keyed_def)

text \<open>What ending a transaction makes of a record it owns: gone, released, or left alone.\<close>

definition release :: "OeStoreHolder \<Rightarrow> OeStoreHolder" where
  "release h = OeStoreHolder_set_lock (OeStoreHolder_set_txn_id h 0) OESTORE_UNLOCKED"

definition settle :: "OESTORE_LOCK \<Rightarrow> OESTORE_LOCK \<Rightarrow> string \<Rightarrow> string option" where
  "settle dlock clock b =
     (case OeStoreHolder_new_from_buffer b of
        Inl _ \<Rightarrow> Some b
      | Inr h \<Rightarrow> if sh_lock h = dlock then None
                 else if sh_lock h = clock then Some (stored (release h)) else Some b)"

definition settled ::
  "OESTORE_LOCK \<Rightarrow> OESTORE_LOCK \<Rightarrow> oe_id set \<Rightarrow> (oe_id \<Rightarrow> string option) \<Rightarrow> oe_id \<Rightarrow> string option" where
  "settled dlock clock ks m = (\<lambda>k. if k \<in> ks then Option.bind (m k) (settle dlock clock) else m k)"

text \<open>The data released, in the order of the keys.\<close>

definition cleared ::
  "OESTORE_LOCK \<Rightarrow> OESTORE_LOCK \<Rightarrow> (oe_id \<Rightarrow> string option) \<Rightarrow> oe_id list \<Rightarrow> DataObject list" where
  "cleared dlock clock m ks =
     concat (map (\<lambda>k. case m k of None \<Rightarrow> [] | Some b \<Rightarrow>
       (case OeStoreHolder_new_from_buffer b of
          Inl _ \<Rightarrow> []
        | Inr h \<Rightarrow> if sh_lock h \<noteq> dlock \<and> sh_lock h = clock then [fst (OeStoreHolder_get_data (release h))] else []))
       ks)"

lemma release_sel [simp]: "sh_lease_id (release h) = sh_lease_id h" "sh_txn_id (release h) = 0"
  by (simp_all add: release_def OeStoreHolder_set_lock_def OeStoreHolder_set_txn_id_def)

lemma settled_step:
  assumes "k \<notin> set ks" "m1 = m(k := settle dlock clock b)" "m k = Some b"
  shows "settled dlock clock (set ks) m1 = settled dlock clock (set (k # ks)) m"
    "cleared dlock clock m1 ks = cleared dlock clock m ks"
  using assms by (auto simp: settled_def cleared_def fun_eq_iff intro!: arg_cong [where f = concat] map_cong)

text \<open>The cursor on the records of a transaction goes through exactly them.\<close>

definition walks :: "('d, 'c) bdb \<Rightarrow> ('d, 'c) bdb_view \<Rightarrow> oe_id \<Rightarrow> cursor_op \<Rightarrow> 'c \<Rightarrow> oe_id list \<Rightarrow> 'd \<Rightarrow> bool" where
  "walks B V tid cop c ks d =
     (distinct ks \<and> set ks = owned V tid d \<and>
      (\<forall>u r out sz c'. cur_get B c cop (Owner_Key tid) u d = (r, out, sz, c') \<longrightarrow>
         cursor_step V (Owner_Key tid) ks d u c r out sz c'))"

lemma walks_next:
  assumes laws: "bdb_laws B V" and at: "v_at V c = Owner_Key tid" "v_rest V c = ks"
    and own: "distinct ks" "owned V tid d = set ks"
  shows "walks B V tid DB_NEXT_DUP c ks d"
proof -
  have "still_there V d c = ks"
    using at own(2) by (simp add: still_there_def owned_def dropWhile_eq_self_iff)
  then show ?thesis using cursor_lawsD(2) [OF laws] at own by (fastforce simp: walks_def)
qed

lemma walks_get:
  assumes "walks B V tid cop c ks d"
  shows "\<exists>r out c'. get_with_cursor B c cop (Owner_Key tid) d = Inr (r, out, c') \<and>
    r \<notin> {DB_BUFFER_SMALL, RC OE_STORE_ITEM_NOTFOUND} \<and>
    (case ks of
       [] \<Rightarrow> r \<noteq> OK
     | k # ks' \<Rightarrow> r \<noteq> DB_NOTFOUND \<and> (r = OK \<longrightarrow> v_db V Holder_db d k = Some out \<and> v_at V c' = Owner_Key tid \<and>
         v_cur V c' = Some k \<and> v_rest V c' = ks'))"
  by (rule get_with_cursor_spec) (use assms in \<open>auto simp: walks_def\<close>)

text \<open>What the loop of \<^verbatim>\<open>_finish_oetxn\<close> does when it has the records \<open>ks\<close> ahead of it.\<close>

definition finish_post ::
  "('d, 'c) bdb_view \<Rightarrow> OESTORE_LOCK \<Rightarrow> OESTORE_LOCK \<Rightarrow> oe_id list \<Rightarrow> int \<Rightarrow> DataObject list \<Rightarrow> 'd OeBdb \<Rightarrow>
   bool \<Rightarrow> rc \<Rightarrow> int \<Rightarrow> DataObject list \<Rightarrow> 'd OeBdb \<Rightarrow> bool" where
  "finish_post V dlock clock ks cnt unl st early r cnt' unl' st' =
    (\<exists>d'. st' = st\<lparr>bdb_state := d'\<rparr> \<and> same_saved V (bdb_state st) d' \<and> r \<noteq> OK \<and>
    (\<not> early \<and> r = DB_NOTFOUND \<longrightarrow> cnt' = cnt + int (length ks) \<and>
       unl' = unl @ cleared dlock clock (v_db V Holder_db (bdb_state st)) ks \<and> keyed V d' \<and>
       v_db V Holder_db d' = settled dlock clock (set ks) (v_db V Holder_db (bdb_state st)) \<and>
       v_db V Txn_db d' = v_db V Txn_db (bdb_state st)))"

lemma finish_post_step:
  assumes post: "finish_post V dlock clock ks (cnt + 1) (unl @ us) (st\<lparr>bdb_state := d1\<rparr>) early r cnt' unl' st'"
    and k: "k \<notin> set ks" "v_db V Holder_db (bdb_state st) k = Some b" "same_saved V (bdb_state st) d1"
    and up: "v_db V Holder_db d1 = (v_db V Holder_db (bdb_state st))(k := settle dlock clock b)"
      "v_db V Txn_db d1 = v_db V Txn_db (bdb_state st)"
      "us = cleared dlock clock (v_db V Holder_db (bdb_state st)) [k]"
  shows "finish_post V dlock clock (k # ks) cnt unl st early r cnt' unl' st'"
proof -
  note S = settled_step [OF k(1) up(1) k(2)]
  from post obtain d' where "st' = st\<lparr>bdb_state := d'\<rparr>" "same_saved V d1 d'" "r \<noteq> OK"
    "\<not> early \<and> r = DB_NOTFOUND \<longrightarrow> cnt' = cnt + 1 + int (length ks) \<and>
       unl' = (unl @ us) @ cleared dlock clock (v_db V Holder_db d1) ks \<and> keyed V d' \<and>
       v_db V Holder_db d' = settled dlock clock (set ks) (v_db V Holder_db d1) \<and> v_db V Txn_db d' = v_db V Txn_db d1"
    unfolding finish_post_def by auto
  then show ?thesis unfolding finish_post_def
    using S up(2,3) same_saved_trans [OF k(3)] by (intro exI [of _ d']) (auto simp: cleared_def)
qed

text \<open>One round: the code deletes the record under the cursor, or rewrites it released, and looks for the
  next one.\<close>

lemma finish_loop_round:
  assumes laws: "bdb_laws B V" and run: "finish_loop (Suc n) B dlock clock tid cop c cnt unl st = Inr (early, r, cnt', unl', c', st')"
    and g: "get_with_cursor B c cop (Owner_Key tid) (bdb_state st) = Inr (OK, out, c1)"
    and h: "OeStoreHolder_new_from_buffer out = Inr h" and k: "v_cur V c1 = Some (sh_lease_id h)"
      "v_db V Holder_db (bdb_state st) (sh_lease_id h) = Some out"
  obtains (stop) d' where "early" "r \<noteq> OK" "st' = st\<lparr>bdb_state := d'\<rparr>" "same_saved V (bdb_state st) d'"
  | (go) d1 us where "finish_loop n B dlock clock tid DB_NEXT_DUP c1 (cnt + 1) (unl @ us) (st\<lparr>bdb_state := d1\<rparr>) =
        Inr (early, r, cnt', unl', c', st')" "same_saved V (bdb_state st) d1"
      "v_db V Holder_db d1 = (v_db V Holder_db (bdb_state st))(sh_lease_id h := settle dlock clock out)"
      "v_db V Txn_db d1 = v_db V Txn_db (bdb_state st)"
      "us = cleared dlock clock (v_db V Holder_db (bdb_state st)) [sh_lease_id h]"
      "case settle dlock clock out of None \<Rightarrow> True | Some b \<Rightarrow> OeStoreHolder_peek_txn_id b = Inr 0 \<and>
         (\<forall>h2. OeStoreHolder_new_from_buffer b = Inr h2 \<longrightarrow> sh_lease_id h2 = sh_lease_id h)"
proof -
  let ?d = "bdb_state st" and ?k = "sh_lease_id h" and ?data = "fst (OeStoreHolder_get_data (release h))"
  consider (del) "sh_lock h = dlock" | (clr) "sh_lock h \<noteq> dlock" "sh_lock h = clock"
    | (bad) "sh_lock h \<noteq> dlock" "sh_lock h \<noteq> clock" by blast
  then show thesis
  proof cases
    case del
    obtain r2 d1 where dl: "cur_del B c1 ?d = (r2, d1)" by fastforce
    have step: "(if r2 \<noteq> OK then Inr (True, r2, cnt + 1, unl, c1, st\<lparr>bdb_state := d1\<rparr>)
        else finish_loop n B dlock clock tid DB_NEXT_DUP c1 (cnt + 1) unl (st\<lparr>bdb_state := d1\<rparr>)) =
        Inr (early, r, cnt', unl', c', st')"
      using run g h del dl by (simp add: OeStoreHolder_get_lock_def Let_def cong: if_cong)
    note sv = cursor_lawsD(4) [OF laws dl]
    show thesis
    proof (cases "r2 = OK")
      case True
      then show thesis using go [of "[]" d1] step sv h del k cursor_lawsD(5) [OF laws, of c1 ?d d1] dl
        by (auto simp: settle_def cleared_def)
    qed (use step stop sv in auto)
  next
    case clr
    obtain buf len h' where m: "OeStoreHolder_marshal (release h) = Inr (buf, len, h')"
      using run g h clr by (auto simp: OeStoreHolder_get_lock_def c_bind_Inr Let_def release_def)
    obtain r2 d1 where pt: "db_put B Holder_db ?k (stored (release h)) ?d = (r2, d1)" by fastforce
    have "sh_lease_id h' = ?k" "take len buf = stored (release h)"
      using marshal_lease [OF m] m by (simp_all add: stored_def)
    then have step: "(if r2 \<noteq> OK then Inr (True, r2, cnt + 1, unl @ [?data], c1, st\<lparr>bdb_state := d1\<rparr>)
        else finish_loop n B dlock clock tid DB_NEXT_DUP c1 (cnt + 1) (unl @ [?data]) (st\<lparr>bdb_state := d1\<rparr>)) =
        Inr (early, r, cnt', unl', c', st')"
      using run g h clr pt m [unfolded release_def]
      by (simp add: OeStoreHolder_get_lock_def OeStoreHolder_get_lease_id_def release_def Let_def cong: if_cong)
    note sv = db_lawsD(2) [OF laws pt]
    show thesis
    proof (cases "r2 = OK")
      case True
      then show thesis
        using go [of "[?data]" d1] step sv h clr k db_lawsD(3) [OF laws, of Holder_db ?k "stored (release h)" ?d d1] pt
          stored_peek(1) [OF m] stored_lease [OF m]
        by (auto simp: settle_def cleared_def)
    qed (use step stop sv in auto)
  next
    case bad
    then show thesis using run g h stop [of ?d] by (auto simp: OeStoreHolder_get_lock_def)
  qed
qed

lemma finish_loop_spec:
  assumes laws: "bdb_laws B V"
    and "finish_loop n B dlock clock tid cop c cnt unl st = Inr (early, r, cnt', unl', c', st')"
    and "walks B V tid cop c ks (bdb_state st)" and "keyed V (bdb_state st)"
  shows "finish_post V dlock clock ks cnt unl st early r cnt' unl' st'"
  using assms(2-)
proof (induction n arbitrary: cop c cnt unl st ks)
  case (Suc n)
  let ?d = "bdb_state st"
  obtain r1 out c1 where g: "get_with_cursor B c cop (Owner_Key tid) ?d = Inr (r1, out, c1)"
    and cs: "case ks of [] \<Rightarrow> r1 \<noteq> OK
       | k # ks' \<Rightarrow> r1 \<noteq> DB_NOTFOUND \<and> (r1 = OK \<longrightarrow> v_db V Holder_db ?d k = Some out \<and> v_at V c1 = Owner_Key tid \<and>
           v_cur V c1 = Some k \<and> v_rest V c1 = ks')"
    using walks_get [OF Suc.prems(2)] by blast
  show ?case
  proof (cases "r1 = OK")
    case False
    then have "st' = st" "\<not> early" "r = r1" "cnt' = cnt" "unl' = unl" using Suc.prems(1) g by auto
    then show ?thesis using False cs Suc.prems(3) unfolding finish_post_def
      by (intro exI [of _ ?d]) (auto simp: settled_def cleared_def split: list.splits)
  next
    case True
    then obtain k ks1 where ks: "ks = k # ks1" "v_db V Holder_db ?d k = Some out" "v_at V c1 = Owner_Key tid"
      "v_cur V c1 = Some k" "v_rest V c1 = ks1" using cs by (auto split: list.splits)
    have own: "k \<notin> set ks1" "distinct ks1" "owned V tid ?d = insert k (set ks1)"
      using Suc.prems(2) ks(1) by (auto simp: walks_def)
    obtain h where h: "OeStoreHolder_new_from_buffer out = Inr h"
      using Suc.prems(1) g True by (auto simp: c_bind_Inr)
    have lid: "sh_lease_id h = k" using Suc.prems(3) ks(2) h by (simp add: keyed_def)
    from laws Suc.prems(1) g [unfolded True] h ks(4,2) [folded lid] show ?thesis
    proof (cases rule: finish_loop_round)
      case (stop d')
      then show ?thesis by (auto simp: finish_post_def)
    next
      case (go d1 us)
      have "owned V tid d1 = set ks1"
        using owned_update [OF go(3)] go(6) own lid by (auto split: option.splits)
      then have w: "walks B V tid DB_NEXT_DUP c1 ks1 d1" by (rule walks_next [OF laws ks(3,5) own(2)])
      have "keyed V d1" using go(6) by (intro keyed_update [OF Suc.prems(3) go(3)]) (auto split: option.splits)
      then have "finish_post V dlock clock ks1 (cnt + 1) (unl @ us) (st\<lparr>bdb_state := d1\<rparr>) early r cnt' unl' st'"
        using Suc.IH [OF go(1)] w by simp
      then show ?thesis using finish_post_step own(1) ks(1,2) go(2-5) lid by metis
    qed
  qed
qed simp

lemma walks_first:
  assumes laws: "bdb_laws B V" and "owners_small V d" "unat tid < 2 ^ 31"
  shows "walks B V tid DB_SET c (v_dups V (Owner_Key tid) d) d"
  using bdb_lawsD(3) [OF laws, of d] cursor_lawsD(1) [OF laws] assms(2,3)
  by (auto simp: walks_def index_laws_def owned_def)

lemma finish_oetxn_spec:
  assumes laws: "bdb_laws B V" and inv: "keyed V (bdb_state st)" "owners_small V (bdb_state st)" "unat (tx_tid x) < 2 ^ 31"
    and run: "finish_oetxn n B now x dlock clock status expected st = Inr (r, x', unl, st')"
  shows "\<exists>d'. st' = st\<lparr>bdb_state := d'\<rparr> \<and> same_saved V (bdb_state st) d' \<and>
    (r = OK \<longrightarrow> x' = x\<lparr>tx_end_time := now, tx_status := status, tx_expire_time := now\<rparr> \<and>
       unl = cleared dlock clock (v_db V Holder_db (bdb_state st)) (v_dups V (Owner_Key (tx_tid x)) (bdb_state st)) \<and>
       v_db V Holder_db d' = settled dlock clock (owned V (tx_tid x) (bdb_state st)) (v_db V Holder_db (bdb_state st)) \<and>
       v_db V Txn_db d' = v_db V Txn_db (bdb_state st) \<and> keyed V d' \<and>
       (expected = - 1 \<or> expected = int (card (owned V (tx_tid x) (bdb_state st)))))"
proof -
  let ?d = "bdb_state st"
  let ?ks = "v_dups V (Owner_Key (tx_tid x)) ?d"
  obtain r0 c where co: "cur_open B Owner_id_idx ?d = (r0, c)" by fastforce
  show ?thesis
  proof (cases "txn_flags_deadlock B st \<or> tx_status x \<noteq> OESTORE_TXN_ACTIVE \<or> tx_tid x = 0 \<or> r0 \<noteq> OK")
    case True
    then show ?thesis using run co
      by (auto simp: finish_oetxn_def OESTORE_ALREADY_COMPLETE_ERR_def OESTORE_IS_NULL_ERR_def
          intro!: exI [of _ ?d] split: if_splits)
  next
    case False
    then obtain early r1 cnt unl1 c' st1 where
      l: "finish_loop n B dlock clock (tx_tid x) DB_SET c 0 [] st = Inr (early, r1, cnt, unl1, c', st1)"
      using run co by (auto simp: finish_oetxn_def c_bind_Inr)
    have ks: "distinct ?ks" "set ?ks = owned V (tx_tid x) ?d"
      using walks_first [OF laws inv(2,3)] by (auto simp: walks_def)
    obtain d' where d': "st1 = st\<lparr>bdb_state := d'\<rparr>" "same_saved V ?d d'" "r1 \<noteq> OK"
      "\<not> early \<and> r1 = DB_NOTFOUND \<longrightarrow> cnt = int (length ?ks) \<and> unl1 = cleared dlock clock (v_db V Holder_db ?d) ?ks \<and>
         keyed V d' \<and> v_db V Holder_db d' = settled dlock clock (set ?ks) (v_db V Holder_db ?d) \<and>
         v_db V Txn_db d' = v_db V Txn_db ?d"
      using finish_loop_spec [OF laws l walks_first [OF laws inv(2,3)] inv(1)] unfolding finish_post_def by auto
    have "st' = st1" and ok: "r = OK \<Longrightarrow> \<not> early \<and> r1 = DB_NOTFOUND \<and> unl = unl1 \<and> (expected = - 1 \<or> cnt = expected) \<and>
        x' = x\<lparr>tx_end_time := now, tx_status := status, tx_expire_time := now\<rparr>"
      using run co False l d'(3)
      by (auto simp: finish_oetxn_def Let_def OESTORE_ENLISTED_COUNT_INCORRECT_def split: if_splits)
    then show ?thesis using d' ks distinct_card [OF ks(1)] by (intro exI [of _ d']) auto
  qed
qed

section \<open>Transaction records\<close>

lemma take_le_word_end:
  "take_le 8 (le_enc 8 (unat (v :: 64 word))) = Inr (unat v, [])"
  using take_le_word(2) [of v "[]"] by simp

lemma txn_roundtrip: "unmarshal_txn y (marshal_txn x) = Inr (x\<lparr>tx_tid := tx_tid y\<rparr>)"
  by (simp add: marshal_txn_def unmarshal_txn_def take_le_word take_le_word_end)

lemma get_txn_stored:
  assumes "bdb_laws B V" "v_db V Txn_db (bdb_state st) tid = Some (marshal_txn x)" "tx_tid x = tid"
    and "get_txn B (zero_txn tid) b st = Inr (r, y)" "r = OK"
  shows "y = x"
proof -
  obtain r1 out where "bdb_get B Txn_db tid (bdb_state st) = Inr (r1, out)"
    "r1 = OK \<longrightarrow> v_db V Txn_db (bdb_state st) tid = Some out" using bdb_get_spec [OF assms(1)] by blast
  then show ?thesis using assms(2-)
    by (auto simp: get_txn_def zero_txn_def txn_roundtrip c_bind_Inr split: if_splits)
qed

section \<open>Ending a transaction\<close>

text \<open>Nothing but the database and the handle changes.\<close>

definition quiet :: "'d OeBdb \<Rightarrow> 'd OeBdb \<Rightarrow> bool" where
  "quiet st st' = (fired st' = fired st \<and> fire_write_event st' = fire_write_event st \<and>
     reaper_running_flag st' = reaper_running_flag st)"

lemma quiet_trans: "quiet st st' \<Longrightarrow> quiet st' st'' \<Longrightarrow> quiet st st''"
  by (simp add: quiet_def)

lemma quiet_simps [simp]: "quiet st st" "quiet st (st\<lparr>bdb_state := d\<rparr>)"
  by (simp_all add: quiet_def)

lemma begin_txn_quiet: "begin_txn B st = (r, st') \<Longrightarrow> quiet st st'"
  by (auto simp: begin_txn_def quiet_def split: prod.splits)

lemma abort_txn_quiet: "abort_txn B st = Inr st' \<Longrightarrow> quiet st st'"
  by (auto simp: abort_txn_def quiet_def split: if_splits)

lemma commit_txn_quiet: "commit_txn B st = Inr (r, st') \<Longrightarrow> quiet st st'"
  by (auto simp: commit_txn_def quiet_def split: if_splits prod.splits)

lemma put_oetxn_quiet: "put_oetxn B x st = (r, st') \<Longrightarrow> quiet st st'"
  by (auto simp: put_oetxn_def split: if_splits prod.splits)

lemma handlerc_quiet: "handlerc B r0 b st = Inr (r, st') \<Longrightarrow> quiet st st'"
  using abort_txn_quiet by (cases r0; cases b; fastforce simp: handlerc_def c_bind_Inr split: if_splits)

lemma quiet_sel: "quiet st st' \<Longrightarrow> fired st' = fired st \<and> fire_write_event st' = fire_write_event st"
  by (simp add: quiet_def)

lemma handlerc_fail:
  assumes "bdb_laws B V" "handlerc B r0 True st = Inr (r, st')" "r0 \<noteq> OK"
  shows "r = store_code r0" "back_to_saved V (bdb_state st) (bdb_state st')"
  using assms abort_txn_spec [OF assms(1)] by (cases r0; auto simp: handlerc_def c_bind_Inr)+

lemma same_view_transfer:
  assumes "same_view V d d0"
  shows "keyed V d0 = keyed V d" "owners_small V d0 = owners_small V d" "owned V tid d0 = owned V tid d"
proof -
  have "v_db V Holder_db d0 = v_db V Holder_db d" using assms by (simp add: same_view_def)
  moreover then have "hits V key d0 = hits V key d" for key by (simp add: hits_def)
  ultimately show "keyed V d0 = keyed V d" "owners_small V d0 = owners_small V d" "owned V tid d0 = owned V tid d"
    by (simp_all add: keyed_def owners_small_def owned_def)
qed

lemma put_oetxn_spec:
  assumes "bdb_laws B V" "put_oetxn B x st = (r, st')"
  shows "same_saved V (bdb_state st) (bdb_state st')"
    "r = OK \<Longrightarrow> v_db V Holder_db (bdb_state st') = v_db V Holder_db (bdb_state st) \<and>
       v_db V Txn_db (bdb_state st') = (v_db V Txn_db (bdb_state st))(tx_tid x \<mapsto> marshal_txn x)"
  using assms db_lawsD(2,3) [OF assms(1), of Txn_db "tx_tid x" "marshal_txn x" "bdb_state st"]
  by (auto simp: put_oetxn_def split: if_splits prod.splits)

text \<open>The last part of \<^verbatim>\<open>_update_txn\<close>: write the transaction record, commit, send the write events.\<close>

definition conclude :: "('d, 'c) bdb \<Rightarrow> OESTORE_TXN \<Rightarrow> DataObject list \<Rightarrow> 'd OeBdb \<Rightarrow> (rc \<times> 'd OeBdb) c_result" where
  "conclude B x unl st1 =
     (let (r3, st2) = put_oetxn B x st1 in
      if r3 \<noteq> OK then handlerc B r3 True st2
      else if txn_flags_deadlock B st2 then handlerc B DB_LOCK_DEADLOCK True st2
      else c_bind (commit_txn B st2) (\<lambda>(r4, st3).
           if r4 \<noteq> OK then handlerc B r4 False st3
           else handlerc B r4 False (if unl \<noteq> [] then fire unl st3 else st3)))"

lemma conclude_spec:
  assumes laws: "bdb_laws B V" and run: "conclude B x unl st = Inr (r, st')"
  shows "if r = OK then v_db V Holder_db (bdb_state st') = v_db V Holder_db (bdb_state st) \<and>
      v_db V Txn_db (bdb_state st') = (v_db V Txn_db (bdb_state st))(tx_tid x \<mapsto> marshal_txn x) \<and>
      fired st' = (if fire_write_event st then fired st @ unl else fired st)
    else \<exists>d1. same_saved V (bdb_state st) d1 \<and> back_to_saved V d1 (bdb_state st') \<and> quiet st st'"
proof -
  obtain r3 st2 where p: "put_oetxn B x st = (r3, st2)" by fastforce
  note P = put_oetxn_spec [OF laws p] and Q = put_oetxn_quiet [OF p]
  show ?thesis
  proof (cases "r3 = OK \<and> \<not> txn_flags_deadlock B st2")
    case False
    define r0 where "r0 = (if r3 \<noteq> OK then r3 else DB_LOCK_DEADLOCK)"
    have h: "handlerc B r0 True st2 = Inr (r, st')" "r0 \<noteq> OK"
      using run p False by (auto simp: conclude_def r0_def split: if_splits)
    show ?thesis using handlerc_fail [OF laws h] P(1) h(2) quiet_trans [OF Q handlerc_quiet [OF h(1)]] by auto
  next
    case True
    then obtain r4 st3 where c: "commit_txn B st2 = Inr (r4, st3)"
      using run p by (auto simp: conclude_def c_bind_Inr)
    note C = commit_txn_spec [OF laws c] and CQ = commit_txn_quiet [OF c]
    have qs: "quiet st st3" by (rule quiet_trans [OF Q CQ])
    show ?thesis
    proof (cases "r4 = OK")
      case True
      then have "st' = (if unl \<noteq> [] then fire unl st3 else st3)" "r = OK"
        using run p c \<open>r3 = OK \<and> _\<close> by (auto simp: conclude_def)
      then show ?thesis using C P(2) True \<open>r3 = OK \<and> _\<close> quiet_sel [OF qs]
        by (auto simp: fire_def same_view_def)
    next
      case False
      then have "st' = st3" "r = store_code r4" using run p c \<open>r3 = OK \<and> _\<close> by (auto simp: conclude_def)
      then show ?thesis using C P(1) False qs by auto
    qed
  qed
qed

text \<open>\<^verbatim>\<open>_update_txn\<close> on an active transaction: it gives up, leaving no trace, or runs to its end.\<close>

lemma update_txn_run:
  assumes laws: "bdb_laws B V" and act: "v_db V Txn_db (bdb_state st) tid = Some (marshal_txn x)" "tx_tid x = tid"
      "tx_status x = OESTORE_TXN_ACTIVE"
    and status: "status \<in> {OESTORE_TXN_COMMITTED, OESTORE_TXN_ROLLED_BACK}"
    and run: "update_txn n B now tid dur status expected st = Inr (r, st')"
  obtains (gives_up) "r \<noteq> OK" "same_view V (bdb_state st) (bdb_state st')" "quiet st st'"
  | (runs) st0 x1 r2 x2 unl st1 where "begin_txn B st = (OK, st0)" "tx_tid x1 = tid" "tx_status x1 = OESTORE_TXN_ACTIVE"
      "(if status = OESTORE_TXN_COMMITTED
        then finish_oetxn n B now x1 OESTORE_TAKE_LOCK OESTORE_WRITE_LOCK status expected st0
        else finish_oetxn n B now x1 OESTORE_WRITE_LOCK OESTORE_TAKE_LOCK status (- 1) st0) = Inr (r2, x2, unl, st1)"
      "(if r2 \<noteq> OK then handlerc B r2 True st1 else conclude B x2 unl st1) = Inr (r, st')"
proof -
  obtain r0 st0 where bg: "begin_txn B st = (r0, st0)" by fastforce
  note b = begin_txn_spec [OF laws bg] and bq = begin_txn_quiet [OF bg]
  have undo: "back_to_saved V (bdb_state st0) (bdb_state st') \<Longrightarrow> r0 = OK \<Longrightarrow> same_view V (bdb_state st) (bdb_state st')"
    using undone [OF b(1,2), of "bdb_state st0" "bdb_state st'"] by simp
  show thesis
  proof (cases "r0 = OK")
    case False
    then have "r = store_code r0" "st' = st0" using run bg by (auto simp: update_txn_def)
    then show thesis using gives_up b(1) bq False by simp
  next
    case ok: True
    obtain r1 y where gt: "get_txn B (zero_txn tid) True st0 = Inr (r1, y)"
      using run bg ok by (auto simp: update_txn_def c_bind_Inr)
    show thesis
    proof (cases "r1 = OK")
      case False
      then have h: "handlerc B r1 True st0 = Inr (r, st')" using run bg ok gt by (simp add: update_txn_def)
      show thesis using gives_up handlerc_fail [OF laws h False] undo ok False quiet_trans [OF bq handlerc_quiet [OF h]]
        by simp
    next
      case True
      have "v_db V Txn_db (bdb_state st0) tid = Some (marshal_txn x)" using b(1) act(1) by (simp add: same_view_def)
      from get_txn_stored [OF laws this act(2) gt True] have y: "y = x" .
      define x1 where "x1 = (if 0 < sint dur then x\<lparr>tx_expire_time := now + dur\<rparr> else x)"
      show thesis
      proof (cases "tx_expire_time x \<noteq> OEC_FOREVER \<and> sint (tx_expire_time x) < sint now")
        case True
        then have a: "abort_txn B st0 = Inr st'" "r = RC OESTORE_UPDATING_EXPIRED_TXN_ERR"
          using run bg ok gt \<open>r1 = OK\<close> y act(3)
          by (auto simp: update_txn_def c_bind_Inr OESTORE_TXN_ACTIVE_def OESTORE_TXN_COMMITTED_def
              OESTORE_TXN_ROLLED_BACK_def)
        show thesis using gives_up abort_txn_spec [OF laws a(1)] undo ok a(2) quiet_trans [OF bq abort_txn_quiet [OF a(1)]]
          by (simp add: OESTORE_UPDATING_EXPIRED_TXN_ERR_def)
      next
        case False
        let ?fin = "if status = OESTORE_TXN_COMMITTED
          then finish_oetxn n B now x1 OESTORE_TAKE_LOCK OESTORE_WRITE_LOCK status expected st0
          else finish_oetxn n B now x1 OESTORE_WRITE_LOCK OESTORE_TAKE_LOCK status (- 1) st0"
        have un: "update_txn n B now tid dur status expected st =
            c_bind ?fin (\<lambda>(r2, x2, unl, st1). if r2 \<noteq> OK then handlerc B r2 True st1 else conclude B x2 unl st1)"
          unfolding conclude_def using bg ok gt \<open>r1 = OK\<close> y act(3) False status
          by (auto simp: update_txn_def Let_def x1_def OESTORE_TXN_ACTIVE_def OESTORE_TXN_COMMITTED_def
              OESTORE_TXN_ROLLED_BACK_def)
        then obtain r2 x2 unl st1 where f: "?fin = Inr (r2, x2, unl, st1)"
          "(if r2 \<noteq> OK then handlerc B r2 True st1 else conclude B x2 unl st1) = Inr (r, st')"
          using run [unfolded un c_bind_Inr split_paired_Ex prod.case] by blast
        show thesis
          by (rule runs [OF _ _ _ f]) (use bg ok act in \<open>auto simp: x1_def\<close>)
      qed
    qed
  qed
qed

section \<open>Properties of transactions\<close>

text \<open>C2: the end of a transaction is all or nothing.  When \<^verbatim>\<open>_update_txn\<close> commits or rolls back an active
  transaction successfully, then of the records the transaction owns exactly those it took
  (respectively wrote) are gone, the others are released unlocked and unowned under their old
  identifier, no record of it remains, every other record is untouched, the transaction record says
  how it ended, and one write event is sent for each released record (if a listener is set); the
  count announced by a committing client is the number of records.  When it fails, both
  databases are as before and no event is sent.  Identifiers have to be below \<^verbatim>\<open>2^31\<close>, the range on
  which the index comparison of the store is an order.\<close>

theorem update_txn_all_or_nothing:
  assumes laws: "bdb_laws B V" and inv: "keyed V (bdb_state st)" "owners_small V (bdb_state st)" "unat tid < 2 ^ 31"
    and act: "v_db V Txn_db (bdb_state st) tid = Some (marshal_txn x)" "tx_tid x = tid" "tx_status x = OESTORE_TXN_ACTIVE"
    and status: "status \<in> {OESTORE_TXN_COMMITTED, OESTORE_TXN_ROLLED_BACK}"
    and locks: "(dlock, clock) = (if status = OESTORE_TXN_COMMITTED then (OESTORE_TAKE_LOCK, OESTORE_WRITE_LOCK)
      else (OESTORE_WRITE_LOCK, OESTORE_TAKE_LOCK))"
    and run: "update_txn n B now tid dur status expected st = Inr (r, st')"
  shows "if r = OK then
      v_db V Holder_db (bdb_state st') = settled dlock clock (owned V tid (bdb_state st)) (v_db V Holder_db (bdb_state st)) \<and>
      (\<exists>x'. tx_status x' = status \<and> tx_end_time x' = now \<and>
         v_db V Txn_db (bdb_state st') = (v_db V Txn_db (bdb_state st))(tid \<mapsto> marshal_txn x')) \<and>
      (\<exists>ks. distinct ks \<and> set ks = owned V tid (bdb_state st) \<and>
         (status = OESTORE_TXN_COMMITTED \<longrightarrow> expected = - 1 \<or> expected = int (length ks)) \<and>
         fired st' = (if fire_write_event st
           then fired st @ cleared dlock clock (v_db V Holder_db (bdb_state st)) ks else fired st))
    else same_view V (bdb_state st) (bdb_state st') \<and> fired st' = fired st"
  using laws act status run
proof (cases rule: update_txn_run)
  case gives_up
  then show ?thesis using quiet_sel [OF gives_up(3)] by simp
next
  case (runs st0 x1 r2 x2 unl st1)
  let ?ex = "if status = OESTORE_TXN_COMMITTED then expected else - 1"
  note b = begin_txn_spec [OF laws runs(1)] and T = same_view_transfer [OF begin_txn_spec(1) [OF laws runs(1)]]
  have v: "v_db V Holder_db (bdb_state st0) = v_db V Holder_db (bdb_state st)"
    "v_db V Txn_db (bdb_state st0) = v_db V Txn_db (bdb_state st)" using b(1) by (simp_all add: same_view_def)
  have fin: "finish_oetxn n B now x1 dlock clock status ?ex st0 = Inr (r2, x2, unl, st1)"
    using runs(4) locks by (simp split: if_splits)
  let ?ks = "v_dups V (Owner_Key tid) (bdb_state st0)"
  have ks: "distinct ?ks" "set ?ks = owned V tid (bdb_state st)"
    using walks_first [OF laws, of "bdb_state st0" tid] inv T by (simp_all add: walks_def)
  obtain d1 where d1: "st1 = st0\<lparr>bdb_state := d1\<rparr>" "same_saved V (bdb_state st0) d1"
    and ok: "r2 = OK \<longrightarrow> x2 = x1\<lparr>tx_end_time := now, tx_status := status, tx_expire_time := now\<rparr> \<and>
       unl = cleared dlock clock (v_db V Holder_db (bdb_state st)) ?ks \<and>
       v_db V Holder_db d1 = settled dlock clock (owned V tid (bdb_state st)) (v_db V Holder_db (bdb_state st)) \<and>
       v_db V Txn_db d1 = v_db V Txn_db (bdb_state st) \<and> (?ex = - 1 \<or> ?ex = int (card (owned V tid (bdb_state st))))"
    using finish_oetxn_spec [OF laws _ _ _ fin] inv T v runs(2) by auto
  have q: "quiet st st1" using quiet_trans [OF begin_txn_quiet [OF runs(1)]] d1(1) by simp
  note undo = undone [OF b(1) b(2) [OF refl]]
  show ?thesis
  proof (cases "r2 = OK")
    case False
    then have h: "handlerc B r2 True st1 = Inr (r, st')" using runs(5) by simp
    show ?thesis using handlerc_fail [OF laws h False] undo [of d1] d1 False
        quiet_sel [OF quiet_trans [OF q handlerc_quiet [OF h]]] by simp
  next
    case True
    then have c: "conclude B x2 unl st1 = Inr (r, st')" using runs(5) by simp
    show ?thesis
    proof (cases "r = OK")
      case True
      then show ?thesis using conclude_spec [OF laws c] ok \<open>r2 = OK\<close> d1(1) quiet_sel [OF q] runs(2) ks
          distinct_card [OF ks(1)] by (auto intro!: exI [of _ x2] exI [of _ ?ks])
    next
      case False
      then obtain d2 where "same_saved V d1 d2" "back_to_saved V d2 (bdb_state st')" "quiet st1 st'"
        using conclude_spec [OF laws c] d1(1) by auto
      then show ?thesis using False undo [of d2] same_saved_trans [OF d1(2)] quiet_sel [OF quiet_trans [OF q]] by auto
    qed
  qed
qed

end
