(* ===== verification/Bdb_Calls.thy ===== *)
theory Bdb_Calls
  imports Bdb_Txn
begin

text \<open>
  The remaining calls of the store of \<^verbatim>\<open>corelib/OeBdb.c\<close>: putting a record, starting a transaction,
  renewing a lease, and the lease reaper, with the order of the database indexes and the keys
  records are found under.
\<close>

section \<open>Putting a record\<close>

lemma create_id_spec:
  assumes "bdb_laws B V"
  shows "create_id n B st = Inr (s, st') \<Longrightarrow>
    same_view V (bdb_state st) (bdb_state st') \<and> same_saved V (bdb_state st) (bdb_state st') \<and> quiet st st' \<and>
    txn_live st' = txn_live st"
proof (induction n arbitrary: st)
  case (Suc n)
  obtain r s1 d where q: "seq_get B (bdb_state st) = (r, s1, d)" by (cases "seq_get B (bdb_state st)") auto
  show ?case
  proof (cases "r = OK")
    case True
    then show ?thesis using Suc.prems q txn_lawsD(6) [OF assms q] by auto
  next
    case False
    then have "create_id n B (st\<lparr>bdb_state := d\<rparr>) = Inr (s, st')" using Suc.prems q by simp
    from Suc.IH [OF this] show ?thesis using txn_lawsD(6) [OF assms q] same_saved_trans
      by (auto simp: same_view_def quiet_def)
  qed
qed simp

lemma put_holder_stored:
  assumes "bdb_laws B V" "put_holder B h st = Inr (OK, st')"
  shows "v_db V Holder_db (bdb_state st') = (v_db V Holder_db (bdb_state st))(sh_lease_id h \<mapsto> stored h)"
    "v_db V Txn_db (bdb_state st') = v_db V Txn_db (bdb_state st)"
  using put_holder_spec [OF assms] marshal_lease by (fastforce simp: stored_def)+

lemma put_holder_quiet: "put_holder B h st = Inr (r, st') \<Longrightarrow> quiet st st'"
  by (auto simp: put_holder_def c_bind_Inr Let_def case_prod_beta split: if_splits)

text \<open>A transaction record that says the transaction is active.\<close>

definition active_txn :: "('d, 'c) bdb_view \<Rightarrow> oe_id \<Rightarrow> 'd \<Rightarrow> bool" where
  "active_txn V tid d =
     (\<exists>b x. v_db V Txn_db d tid = Some b \<and> unmarshal_txn (zero_txn tid) b = Inr x \<and> tx_status x = OESTORE_TXN_ACTIVE)"

lemma txn_is_active_spec:
  assumes "bdb_laws B V" "txn_is_active B tid st = Inr True"
  shows "active_txn V tid (bdb_state st)"
proof -
  obtain r out where "bdb_get B Txn_db tid (bdb_state st) = Inr (r, out)"
    "r = OK \<longrightarrow> v_db V Txn_db (bdb_state st) tid = Some out" using bdb_get_spec [OF assms(1)] by blast
  then show ?thesis using assms(2)
    by (auto simp: txn_is_active_def get_txn_def active_txn_def c_bind_Inr zero_txn_def split: if_splits)
qed

lemma try_put_spec:
  assumes laws: "bdb_laws B V" and run: "try_put B h st = Inr (r, st')"
  shows "if r = OK then
      v_db V Holder_db (bdb_state st') = (v_db V Holder_db (bdb_state st))(sh_lease_id h \<mapsto> stored h) \<and>
      v_db V Txn_db (bdb_state st') = v_db V Txn_db (bdb_state st) \<and>
      (sh_txn_id h \<noteq> 0 \<longrightarrow> active_txn V (sh_txn_id h) (bdb_state st)) \<and>
      fired st' = (if sh_txn_id h = 0 \<and> fire_write_event st then fired st @ [fst (OeStoreHolder_get_data h)] else fired st)
    else \<not> txn_live st' \<or> same_saved V (bdb_state st) (bdb_state st') \<and> quiet st st'"
proof -
  obtain act where act: "(if sh_txn_id h \<noteq> 0 then txn_is_active B (sh_txn_id h) st else Inr True) = Inr act"
    using run by (auto simp: try_put_def c_bind_Inr OeStoreHolder_get_txn_id_def Let_def)
  show ?thesis
  proof (cases act)
    case False
    then show ?thesis using run act
      by (auto simp: try_put_def OeStoreHolder_get_txn_id_def OESTORE_INACTIVE_TXN_def split: if_splits)
  next
    case True
    then obtain r1 st1 where p: "put_holder B h st = Inr (r1, st1)"
      using run act by (auto simp: try_put_def c_bind_Inr OeStoreHolder_get_txn_id_def Let_def)
    note P = put_holder_spec [OF laws p] and Q = put_holder_quiet [OF p]
    have a: "sh_txn_id h \<noteq> 0 \<longrightarrow> active_txn V (sh_txn_id h) (bdb_state st)"
      using act True txn_is_active_spec [OF laws] by (simp split: if_splits)
    show ?thesis
    proof (cases "r1 = OK \<and> \<not> txn_flags_deadlock B st1")
      case False
      then have "r \<noteq> OK \<and> st' = st1"
        using run act True p by (auto simp: try_put_def OeStoreHolder_get_txn_id_def split: if_splits)
      then show ?thesis using P Q by simp
    next
      case ok: True
      then obtain r2 st2 where c: "commit_txn B st1 = Inr (r2, st2)"
        using run act True p by (auto simp: try_put_def OeStoreHolder_get_txn_id_def c_bind_Inr)
      have st': "r = r2" "st' = (if r2 = OK \<and> sh_txn_id h = 0 then fire [fst (OeStoreHolder_get_data h)] st2 else st2)"
        using run act True p ok c by (auto simp: try_put_def OeStoreHolder_get_txn_id_def split: if_splits)
      have "r2 \<noteq> OK \<Longrightarrow> \<not> txn_live st2" using c by (auto simp: commit_txn_def split: if_splits prod.splits)
      then show ?thesis
        using st' commit_txn_spec [OF laws c] put_holder_stored [OF laws, of h st st1] p ok a
          quiet_sel [OF quiet_trans [OF Q commit_txn_quiet [OF c]]]
        by (auto simp: fire_def same_view_def)
    qed
  qed
qed

lemma api_put_effect:
  assumes laws: "bdb_laws B V" and run: "api_put n B h st = Inr (r, h', st')"
  shows "(\<exists>lid. h' = OeStoreHolder_set_lease_id h lid) \<and>
    (if r = OK then
       v_db V Holder_db (bdb_state st') = (v_db V Holder_db (bdb_state st))(sh_lease_id h' \<mapsto> stored h') \<and>
       v_db V Txn_db (bdb_state st') = v_db V Txn_db (bdb_state st) \<and>
       (sh_txn_id h \<noteq> 0 \<longrightarrow> active_txn V (sh_txn_id h) (bdb_state st)) \<and>
       fired st' = (if sh_txn_id h = 0 \<and> fire_write_event st
         then fired st @ [fst (OeStoreHolder_get_data h')] else fired st)
     else same_view V (bdb_state st) (bdb_state st') \<and> fired st' = fired st)"
proof -
  obtain lid st0 where ci: "create_id n B st = Inr (lid, st0)" using run by (auto simp: api_put_def c_bind_Inr)
  obtain r1 st1 where bg: "begin_txn B st0 = (r1, st1)" by fastforce
  let ?h = "OeStoreHolder_set_lease_id h lid"
  obtain r2 st2 where tp: "(if r1 = OK then try_put B ?h st1 else Inr (r1, st1)) = Inr (r2, st2)"
    and hd: "handlerc B r2 True st2 = Inr (r, st')" "h' = ?h"
    using run ci bg by (auto simp: api_put_def c_bind_Inr Let_def)
  note C = create_id_spec [OF laws ci] and b = begin_txn_spec [OF laws bg] and bq = begin_txn_quiet [OF bg]
  have q: "quiet st st1" using C bq quiet_trans by blast
  have sv: "same_view V (bdb_state st) (bdb_state st1)" using C b(1) by (simp add: same_view_def)
  have "r1 = OK"
  proof (rule ccontr)
    assume "r1 \<noteq> OK"
    then have "r2 \<noteq> OK" "\<not> txn_live st2" using tp bg by (auto simp: begin_txn_def split: prod.splits)
    then show False using hd(1) by (simp add: handlerc_def abort_txn_def)
  qed
  then have "try_put B ?h st1 = Inr (r2, st2)" using tp by simp
  note T = try_put_spec [OF laws this]
  show ?thesis
  proof (cases "r2 = OK")
    case True
    then have "r = OK" "st' = st2" using hd(1) by simp_all
    then show ?thesis using T True hd(2) sv quiet_sel [OF q]
      by (auto simp: OeStoreHolder_set_lease_id_def same_view_def active_txn_def)
  next
    case False
    then have "txn_live st2" using hd(1) by (auto simp: handlerc_def abort_txn_def split: if_splits)
    then have "same_saved V (bdb_state st1) (bdb_state st2)" "quiet st1 st2" using T False by auto
    then show ?thesis using handlerc_fail [OF laws hd(1) False] hd(2) False undone [OF sv b(2)] \<open>r1 = OK\<close>
        quiet_sel [OF quiet_trans [OF q quiet_trans [OF _ handlerc_quiet [OF hd(1)]]]] by auto
  qed
qed

text \<open>C4: a put is all or nothing.  Whenever \<^verbatim>\<open>_api_put\<close> returns, it has given the record an identifier;
  when it reports success the record is in the store under that identifier, nothing else has
  changed, its transaction (if any) was active, and exactly one write event was sent if the record
  is not part of a transaction and a listener is set; when it reports an error, both databases are
  unchanged and no event was sent.\<close>

theorem api_put_all_or_nothing:
  assumes laws: "bdb_laws B V" and run: "api_put n B h st = Inr (r, h', st')"
  shows "(\<exists>lid. h' = OeStoreHolder_set_lease_id h lid) \<and>
    (if r = OK then
       v_db V Holder_db (bdb_state st') = (v_db V Holder_db (bdb_state st))(sh_lease_id h' \<mapsto> stored h') \<and>
       v_db V Txn_db (bdb_state st') = v_db V Txn_db (bdb_state st) \<and>
       (sh_txn_id h \<noteq> 0 \<longrightarrow> active_txn V (sh_txn_id h) (bdb_state st)) \<and>
       fired st' = (if sh_txn_id h = 0 \<and> fire_write_event st
         then fired st @ [fst (OeStoreHolder_get_data h')] else fired st)
     else same_view V (bdb_state st) (bdb_state st') \<and> fired st' = fired st)"
  using assms by (rule api_put_effect)

text \<open>a commit that fails during a put.  Berkeley DB ends the life of a transaction handle whatever
  \<^verbatim>\<open>commit\<close> returns; \<^verbatim>\<open>_api_put\<close> passes the handle to \<^verbatim>\<open>_handlerc\<close> all the same, which aborts it: the
  call uses freed memory.  So does a put whose \<^verbatim>\<open>txn_begin\<close> failed, on a handle that was never set.\<close>

theorem api_put_dead_handle:
  assumes id: "create_id n B st = Inr (lid, st0)" and bg: "begin_txn B st0 = (r1, st1)"
    and fails: "r1 \<noteq> OK \<or>
      (OeStoreHolder_get_txn_id h = 0 \<and> put_holder B (OeStoreHolder_set_lease_id h lid) st1 = Inr (OK, st2) \<and>
       \<not> txn_flags_deadlock B st2 \<and> commit_txn B st2 = Inr (r3, st3) \<and> r3 \<noteq> OK)"
  shows "api_put n B h st = Inl Use_After_Free"
proof (cases "r1 = OK")
  case False
  then have "\<not> txn_live st1" using bg by (auto simp: begin_txn_def split: prod.splits)
  then show ?thesis using id bg False by (simp add: api_put_def handlerc_def abort_txn_def)
next
  case True
  then have "\<not> txn_live st3" using fails by (auto simp: commit_txn_def split: if_splits prod.splits)
  then show ?thesis using id bg fails True
    by (simp add: api_put_def try_put_def handlerc_def abort_txn_def OeStoreHolder_get_txn_id_def
        OeStoreHolder_set_lease_id_def)
qed

section \<open>Renewing a lease\<close>

text \<open>How \<^verbatim>\<open>_update_lease\<close> ends after its write.\<close>

definition write_end :: "('d, 'c) bdb \<Rightarrow> rc \<Rightarrow> 'd OeBdb \<Rightarrow> (rc \<times> 'd OeBdb) c_result" where
  "write_end B r2 st1 =
     (if r2 \<noteq> OK then handlerc B r2 True st1
      else if \<not> txn_flags_deadlock B st1 then c_bind (commit_txn B st1) (\<lambda>(r3, st2). handlerc B r3 False st2)
      else handlerc B DB_LOCK_DEADLOCK True st1)"

lemma write_end_spec:
  assumes laws: "bdb_laws B V" and run: "write_end B r2 st = Inr (r, st')"
  shows "quiet st st' \<and> (if r = OK then r2 = OK \<and> same_view V (bdb_state st) (bdb_state st')
    else back_to_saved V (bdb_state st) (bdb_state st'))"
proof (cases "r2 = OK \<and> \<not> txn_flags_deadlock B st")
  case False
  define r0 where "r0 = (if r2 \<noteq> OK then r2 else DB_LOCK_DEADLOCK)"
  have h: "handlerc B r0 True st = Inr (r, st')" "r0 \<noteq> OK" using run False by (auto simp: write_end_def r0_def split: if_splits)
  then show ?thesis using handlerc_fail [OF laws h] handlerc_quiet [OF h(1)] by simp
next
  case True
  then obtain r3 where c: "commit_txn B st = Inr (r3, st')" "r = store_code r3"
    using run by (auto simp: write_end_def c_bind_Inr)
  then show ?thesis using commit_txn_spec [OF laws c(1)] commit_txn_quiet [OF c(1)] True by simp
qed

lemma update_lease_effect:
  assumes laws: "bdb_laws B V" and run: "update_lease B now lid expt st = Inr (r, st')"
  shows "(if r = OK then \<exists>b h. v_db V Holder_db (bdb_state st) lid = Some b \<and> OeStoreHolder_new_from_buffer b = Inr h \<and>
       (sh_lease_expire_time h = OEC_FOREVER \<or> sint now \<le> sint (sh_lease_expire_time h)) \<and>
       v_db V Holder_db (bdb_state st') = (v_db V Holder_db (bdb_state st))(lid \<mapsto> stored (h\<lparr>sh_lease_expire_time := expt\<rparr>)) \<and>
       v_db V Txn_db (bdb_state st') = v_db V Txn_db (bdb_state st)
     else same_view V (bdb_state st) (bdb_state st')) \<and> fired st' = fired st"
proof -
  obtain r0 st0 where bg: "begin_txn B st = (r0, st0)" by fastforce
  note b = begin_txn_spec [OF laws bg] and bq = begin_txn_quiet [OF bg]
  show ?thesis
  proof (cases "r0 = OK")
    case False
    then show ?thesis using run bg b(1) quiet_sel [OF bq] by (auto simp: update_lease_def)
  next
    case ok: True
    note undo = undone [OF b(1) b(2) [OF ok]]
    obtain r1 out where g: "bdb_get B Holder_db lid (bdb_state st0) = Inr (r1, out)"
      "r1 = OK \<longrightarrow> v_db V Holder_db (bdb_state st0) lid = Some out" using bdb_get_spec [OF laws] by blast
    show ?thesis
    proof (cases "r1 = OK")
      case False
      then have h: "handlerc B r1 True st0 = Inr (r, st')" using run bg ok g(1) by (simp add: update_lease_def)
      show ?thesis using handlerc_fail [OF laws h False] undo [of "bdb_state st0" "bdb_state st'"] False
          quiet_sel [OF quiet_trans [OF bq handlerc_quiet [OF h]]] by simp
    next
      case found: True
      then obtain h where h: "OeStoreHolder_new_from_buffer out = Inr h"
        using run bg ok g(1) by (auto simp: update_lease_def c_bind_Inr)
      show ?thesis
      proof (cases "sh_lease_expire_time h \<noteq> OEC_FOREVER \<and> sint (sh_lease_expire_time h) < sint now")
        case True
        then have a: "abort_txn B st0 = Inr st'" "r = RC (- 1)"
          using run bg ok g(1) found h
          by (auto simp: update_lease_def c_bind_Inr Let_def OeStoreHolder_get_lease_expire_time_def)
        show ?thesis using abort_txn_spec [OF laws a(1)] undo [of "bdb_state st0" "bdb_state st'"] a(2)
            quiet_sel [OF quiet_trans [OF bq abort_txn_quiet [OF a(1)]]] by simp
      next
        case False
        let ?h = "h\<lparr>sh_lease_expire_time := expt\<rparr>"
        obtain buf len h' where m: "OeStoreHolder_marshal ?h = Inr (buf, len, h')"
          using run bg ok g(1) found h False
          by (auto simp: update_lease_def c_bind_Inr Let_def OeStoreHolder_get_lease_expire_time_def
              OeStoreHolder_set_lease_expire_time_def split: if_splits)
        obtain r2 d1 where p: "db_put B Holder_db lid (stored ?h) (bdb_state st0) = (r2, d1)" by fastforce
        have fin: "write_end B r2 (st0\<lparr>bdb_state := d1\<rparr>) = Inr (r, st')"
          using run bg ok g(1) found h False m p
          by (auto simp: update_lease_def Let_def OeStoreHolder_get_lease_expire_time_def stored_def
              OeStoreHolder_set_lease_expire_time_def write_end_def)
        have sv: "same_saved V (bdb_state st0) d1" by (rule db_lawsD(2) [OF laws p])
        show ?thesis
          using write_end_spec [OF laws fin] sv undo [of d1 "bdb_state st'"] b(1) g(2) found h False quiet_sel [OF bq]
            db_lawsD(3) [OF laws, of Holder_db lid "stored ?h" "bdb_state st0" d1] p
          by (auto simp: same_view_def quiet_def)
      qed
    qed
  qed
qed

text \<open>renewing a lease.  A successful \<^verbatim>\<open>_update_lease\<close> found a record that had not run out before now,
  and changed nothing but the expiry time of that record; a failed one changed nothing.  No event
  is sent either way.\<close>

theorem update_lease_spec:
  assumes laws: "bdb_laws B V" and run: "update_lease B now lid expt st = Inr (r, st')"
  shows "(if r = OK then \<exists>b h. v_db V Holder_db (bdb_state st) lid = Some b \<and> OeStoreHolder_new_from_buffer b = Inr h \<and>
       (sh_lease_expire_time h = OEC_FOREVER \<or> sint now \<le> sint (sh_lease_expire_time h)) \<and>
       v_db V Holder_db (bdb_state st') = (v_db V Holder_db (bdb_state st))(lid \<mapsto> stored (h\<lparr>sh_lease_expire_time := expt\<rparr>)) \<and>
       v_db V Txn_db (bdb_state st') = v_db V Txn_db (bdb_state st)
     else same_view V (bdb_state st) (bdb_state st')) \<and> fired st' = fired st"
  using assms by (rule update_lease_effect)

end
