(* ===== verification/Bdb_Reaper.thy ===== *)
theory Bdb_Reaper
  imports Bdb_Calls
begin

text \<open>
  The lease reaper of \<^verbatim>\<open>corelib/OeBdb.c\<close>, the comparison functions of its indexes, and the keys records
  are indexed under.
\<close>

section \<open>What the reaper may delete\<close>

text \<open>A record whose lease has run out and that no transaction owns.\<close>

definition run_out :: "oe_time \<Rightarrow> string \<Rightarrow> bool" where
  "run_out now b = (OeStoreHolder_peek_txn_id b = Inr 0 \<and>
     (\<exists>t. OeStoreHolder_peek_lease_exp_time b = Inr t \<and> sint t \<le> sint now))"

definition reaped :: "('d, 'c) bdb_view \<Rightarrow> oe_time \<Rightarrow> 'd \<Rightarrow> 'd \<Rightarrow> bool" where
  "reaped V now d d' =
     (v_db V Txn_db d' = v_db V Txn_db d \<and>
      (\<forall>k. v_db V Holder_db d' k = v_db V Holder_db d k \<or>
         v_db V Holder_db d' k = None \<and> (\<exists>b. v_db V Holder_db d k = Some b \<and> run_out now b)))"

lemma reaped_refl: "same_view V d d' \<Longrightarrow> reaped V now d d'"
  by (simp add: reaped_def same_view_def)

lemma reaped_trans: "reaped V now d d' \<Longrightarrow> reaped V now d' d'' \<Longrightarrow> reaped V now d d''"
  unfolding reaped_def by (metis option.distinct(1))

lemma reaped_near:
  assumes "reaped V now d d'" "times_near V now d"
  shows "times_near V now d'"
proof -
  have "k \<in> hits V key d' \<Longrightarrow> k \<in> hits V key d" for k key
  proof -
    have "v_db V Holder_db d' k = v_db V Holder_db d k \<or> v_db V Holder_db d' k = None"
      using assms(1) by (auto simp: reaped_def)
    then show "k \<in> hits V key d' \<Longrightarrow> k \<in> hits V key d" by (auto simp: hits_def)
  qed
  then show ?thesis using assms(2) by (auto simp: times_near_def)
qed

lemma reap_get:
  assumes laws: "bdb_laws B V" and "cop \<in> {DB_SET_RANGE, DB_PREV}" "times_near V now d"
    and "cur_get B c cop (Time_Key now) u d = (OK, out, sz, c')"
  shows "\<exists>k. v_cur V c' = Some k \<and> v_db V Holder_db d k = Some out"
proof -
  note L = bdb_lawsD(6) [OF laws, unfolded range_laws_def]
  show ?thesis
    using L [THEN conjunct1, rule_format, of c now u d OK out sz c']
      L [THEN conjunct2, rule_format, of c now u d OK out sz c'] assms(2-) by auto
qed

lemma reap_loop_spec:
  assumes laws: "bdb_laws B V"
    and "reap_loop n B now cop c cnt st = Inr (early, lret, ret, c', st')"
    and "cop \<in> {DB_SET_RANGE, DB_PREV}" and "times_near V now (bdb_state st)"
  shows "\<exists>d'. st' = st\<lparr>bdb_state := d'\<rparr> \<and> same_saved V (bdb_state st) d' \<and>
    (early \<or> reaped V now (bdb_state st) d')"
  using assms(2-)
proof (induction n arbitrary: cop c cnt st)
  case (Suc n)
  let ?d = "bdb_state st"
  obtain r out sz c1 where g: "cur_get B c cop (Time_Key now) DBT_MALLOC ?d = (r, out, sz, c1)"
    by (cases "cur_get B c cop (Time_Key now) DBT_MALLOC ?d") auto
  show ?case
  proof (cases "r = OK")
    case False
    then show ?thesis using Suc.prems(1) g
      by (intro exI [of _ ?d]) (auto simp: reaped_refl same_view_def)
  next
    case True
    obtain k where k: "v_cur V c1 = Some k" "v_db V Holder_db ?d k = Some out"
      using reap_get [OF laws Suc.prems(2,3)] g True by blast
    obtain t where t: "OeStoreHolder_peek_txn_id out = Inr 0" "OeStoreHolder_peek_lease_exp_time out = Inr t"
      using Suc.prems(1) g True by (auto simp: c_bind_Inr split: if_splits)
    show ?thesis
    proof (cases "sint now < sint t")
      case later: True
      then have "reap_loop n B now DB_PREV c1 (cnt + 1) st = Inr (early, lret, ret, c', st')"
        using Suc.prems(1) g True t by simp
      from Suc.IH [OF this _ Suc.prems(3)] show ?thesis by simp
    next
      case over: False
      obtain r2 d1 where dl: "cur_del B c1 ?d = (r2, d1)" by fastforce
      note sv = cursor_lawsD(4) [OF laws dl]
      have step: "(if r2 \<noteq> OK \<and> r2 \<noteq> DB_NOTFOUND then Inr (True, r2, 0, c1, st\<lparr>bdb_state := d1\<rparr>)
          else if OESTORE_MAX_LEASE_REAP \<le> cnt + 1 then Inr (False, OK, 0, c1, st\<lparr>bdb_state := d1\<rparr>)
          else if OESTORE_MAX_LEASE_REAP_COMMIT \<le> cnt + 1 then Inr (False, OK, 1, c1, st\<lparr>bdb_state := d1\<rparr>)
          else reap_loop n B now DB_PREV c1 (cnt + 1) (st\<lparr>bdb_state := d1\<rparr>)) = Inr (early, lret, ret, c', st')"
        using Suc.prems(1) g True t over dl by (simp add: Let_def cong: if_cong)
      have rd: "reaped V now ?d d1" if "r2 = OK \<or> r2 = DB_NOTFOUND"
        using that cursor_lawsD(5,6) [OF laws, of c1 ?d d1] dl k t over
        by (auto simp: reaped_refl) (auto simp: reaped_def run_out_def)
      consider "early" "st' = st\<lparr>bdb_state := d1\<rparr>" | "r2 = OK \<or> r2 = DB_NOTFOUND" "st' = st\<lparr>bdb_state := d1\<rparr>"
        | "r2 = OK \<or> r2 = DB_NOTFOUND" "reap_loop n B now DB_PREV c1 (cnt + 1) (st\<lparr>bdb_state := d1\<rparr>) = Inr (early, lret, ret, c', st')"
        using step by (auto split: if_splits)
      then show ?thesis
      proof cases
        case 3
        from Suc.IH [OF 3(2)] reaped_near [OF rd [OF 3(1)] Suc.prems(3)]
        show ?thesis using same_saved_trans [OF sv] reaped_trans [OF rd [OF 3(1)]] by auto
      qed (use sv rd in auto)
    qed
  qed
qed simp

lemma reap_loop_ret: "reap_loop n B now cop c cnt st = Inr (early, lret, ret, c', st') \<Longrightarrow> ret \<in> {0, 1}"
  by (induction n arbitrary: cop c cnt st)
    (auto simp: c_bind_Inr Let_def split: prod.split_asm if_split_asm)

lemma reap_loop_quiet: "reap_loop n B now cop c cnt st = Inr (early, lret, ret, c', st') \<Longrightarrow> quiet st st'"
proof (induction n arbitrary: cop c cnt st)
  case (Suc n)
  then show ?case
    by (auto simp: c_bind_Inr Let_def quiet_def split: prod.split_asm if_split_asm) fastforce+
qed simp

lemma reaper_flag_simps [simp]:
  "bdb_state (reaper_off st) = bdb_state st" "fired (reaper_off st) = fired st"
  "bdb_state (snd (set_reaper_running u st b)) = bdb_state st" "fired (snd (set_reaper_running u st b)) = fired st"
  "reaper_running_flag (snd (set_reaper_running u st True))"
  "reaper_running_flag st \<Longrightarrow> reaper_running_flag (reaper_off st)"
  by (simp_all add: reaper_off_def set_reaper_running_def)

text \<open>A run of the reaper does nothing when it believes another one is under way; otherwise it works in a
  transaction and aborts or commits it.\<close>

lemma lease_reaper_cases:
  assumes run: "lease_reaper n u B now st = Inr (ret, st')"
  obtains (idle) "st' = st" "ret = 0" "reaper_running_flag st"
  | (aborted) st0 st1 st2 where "begin_txn B (snd (set_reaper_running u st True)) = (OK, st0)" "ret = - 1"
      "st1 = st0 \<or> (\<exists>c early lret ret1 c'. reap_loop n B now DB_SET_RANGE c 0 st0 = Inr (early, lret, ret1, c', st1))"
      "abort_txn B st1 = Inr st2" "st' = reaper_off st2"
  | (committed) st0 c lret c' st1 st2 where "begin_txn B (snd (set_reaper_running u st True)) = (OK, st0)"
      "reap_loop n B now DB_SET_RANGE c 0 st0 = Inr (False, lret, ret, c', st1)"
      "commit_txn B st1 = Inr (OK, st2)" "st' = reaper_off st2"
proof -
  obtain go sta where s: "set_reaper_running u st True = (go, sta)" by fastforce
  obtain r0 st0 where bg: "begin_txn B sta = (r0, st0)" by fastforce
  obtain lret cur where co: "cur_open B Expire_time_idx (bdb_state st0) = (lret, cur)" by fastforce
  show thesis
  proof (cases "go \<and> r0 = OK \<and> lret = OK")
    case False
    then show thesis using run s bg co idle aborted [of st0 st0]
      by (auto simp: lease_reaper_def set_reaper_running_def c_bind_Inr split: if_splits)
  next
    case True
    then obtain early l1 ret1 c' st1 where l: "reap_loop n B now DB_SET_RANGE cur 0 st0 = Inr (early, l1, ret1, c', st1)"
      using run s bg co by (auto simp: lease_reaper_def c_bind_Inr)
    show thesis
    proof (cases "early \<or> (l1 \<noteq> OK \<and> l1 \<noteq> DB_NOTFOUND) \<or> cur_close B c' (bdb_state st1) \<noteq> OK")
      case False
      then show thesis using run s bg co True l committed [of st0 cur l1 c' st1]
        by (auto simp: lease_reaper_def c_bind_Inr split: if_splits)
    next
      case stop: True
      then obtain st2 where "abort_txn B st1 = Inr st2" "ret = - 1" "st' = reaper_off st2"
        using run s bg co True l by (auto simp: lease_reaper_def c_bind_Inr split: if_splits)
      moreover have "\<exists>c early lret ret1 c'. reap_loop n B now DB_SET_RANGE c 0 st0 = Inr (early, lret, ret1, c', st1)"
        using l by blast
      ultimately show thesis using aborted [of st0 st1 st2] s bg True by simp
    qed
  qed
qed

section \<open>Properties of the reaper\<close>


text \<open>the reaper does nothing when every lease has run out.  \<^verbatim>\<open>_lease_reaper\<close> positions its cursor with
  \<^verbatim>\<open>DB_SET_RANGE\<close> on the first lease that runs out now or later and walks back from there; when there
  is none, the search fails and no record is deleted, however many have run out.\<close>

theorem lease_reaper_misses_expired:
  assumes laws: "bdb_laws B V" and near: "times_near V now (bdb_state st)"
    and over: "\<forall>t k. k \<in> hits V (Time_Key t) (bdb_state st) \<longrightarrow> sint t < sint now"
    and run: "lease_reaper n u B now st = Inr (ret, st')"
  shows "same_view V (bdb_state st) (bdb_state st')"
proof -
  have stay: "st1 = st0" if "begin_txn B (snd (set_reaper_running u st True)) = (OK, st0)"
    and l: "reap_loop n B now DB_SET_RANGE c 0 st0 = Inr (e, lr, re, c', st1)" for c e lr re c' st0 st1
  proof -
    note b = begin_txn_spec(1) [OF laws that(1), simplified]
    have h: "hits V key (bdb_state st0) = hits V key (bdb_state st)" for key using b by (simp add: hits_def same_view_def)
    obtain r out sz c1 where g: "cur_get B c DB_SET_RANGE (Time_Key now) DBT_MALLOC (bdb_state st0) = (r, out, sz, c1)"
      by (cases "cur_get B c DB_SET_RANGE (Time_Key now) DBT_MALLOC (bdb_state st0)") auto
    have "r \<noteq> OK"
    proof
      assume "r = OK"
      moreover have "times_near V now (bdb_state st0)" using near by (simp add: times_near_def h)
      ultimately have "\<exists>t k. k \<in> hits V (Time_Key t) (bdb_state st0) \<and> sint now \<le> sint t"
        using bdb_lawsD(6) [OF laws, unfolded range_laws_def, THEN conjunct1, rule_format, OF g] by blast
      then show False using over unfolding h by fastforce
    qed
    then show ?thesis using l g by (cases n) auto
  qed
  show ?thesis using run
  proof (cases rule: lease_reaper_cases)
    case idle
    then show ?thesis by (simp add: same_view_def)
  next
    case (aborted st0 st1 st2)
    note b = begin_txn_spec [OF laws aborted(1), simplified]
    have "st1 = st0" using aborted(3) stay [OF aborted(1)] by blast
    then show ?thesis using undone [OF b(1,2), of "bdb_state st0" "bdb_state st'"] abort_txn_spec [OF laws aborted(4)] aborted(5)
      by simp
  next
    case (committed st0 c lret c' st1 st2)
    then show ?thesis using stay [OF committed(1,2)] commit_txn_spec [OF laws committed(3)]
        begin_txn_spec(1) [OF laws committed(1), simplified] by (simp add: same_view_def)
  qed
qed

text \<open>the reaper runs once.  \<^verbatim>\<open>_set_reaper_running\<close> leaves the flag alone when it is already set, also when
  asked to clear it; so after its first run the flag stays set, and every later run whose
  uninitialised result variable happens to hold false returns at once without doing anything.\<close>

theorem lease_reaper_runs_once:
  assumes run: "lease_reaper n u B now st = Inr (ret, st')"
  shows "reaper_running_flag st' \<and> lease_reaper n2 False B2 now2 st' = Inr (0, st')"
proof -
  have "reaper_running_flag st'" using run
  proof (cases rule: lease_reaper_cases)
    case idle
    then show ?thesis by simp
  next
    case (aborted st0 st1 st2)
    have "quiet st0 st1" using aborted(3) reap_loop_quiet by auto
    then show ?thesis using begin_txn_quiet [OF aborted(1)] abort_txn_quiet [OF aborted(4)] aborted(5)
      by (simp add: quiet_def)
  next
    case (committed st0 c lret c' st1 st2)
    then show ?thesis using begin_txn_quiet [OF committed(1)] commit_txn_quiet [OF committed(3)] reap_loop_quiet [OF committed(2)]
      by (simp add: quiet_def)
  qed
  then show ?thesis by (simp add: lease_reaper_def set_reaper_running_def)
qed

section \<open>The order of the indexes\<close>

text \<open>the comparison functions of the indexes.  \<^verbatim>\<open>_compare_oe_id\<close> and \<^verbatim>\<open>_compare_oe_time\<close> return the
  difference of two 64-bit keys as an \<^verbatim>\<open>int\<close>.  For keys less than \<^verbatim>\<open>2^31\<close> apart that is the difference;
  for keys \<^verbatim>\<open>2^32\<close> apart it is 0, so that different keys count as equal, and for keys \<^verbatim>\<open>2^31\<close> apart the
  larger one counts as smaller.\<close>

theorem compare_keys:
  "(- (2 ^ 31) \<le> uint a - uint b \<and> uint a - uint b < 2 ^ 31 \<longrightarrow>
      compare_oe_id a b = uint a - uint b \<and> compare_oe_time a b = uint a - uint b) \<and>
   compare_oe_id (a + 2 ^ 32) a = 0 \<and> compare_oe_time (a + 2 ^ 32) a = 0 \<and>
   compare_oe_id (a + 2 ^ 31) a < 0 \<and> compare_oe_time (a + 2 ^ 31) a < 0"
proof -
  have eq: "compare_oe_time x y = compare_oe_id x y" for x y by (simp add: compare_oe_time_def compare_oe_id_def)
  have "compare_oe_id a b = uint a - uint b" if "- (2 ^ 31) \<le> uint a - uint b" "uint a - uint b < 2 ^ 31"
  proof -
    have "uint (a - b) = take_bit 64 (uint a - uint b)" by (simp add: uint_word_ariths take_bit_eq_mod)
    then have "(ucast (a - b) :: 32 word) = word_of_int (take_bit 64 (uint a - uint b))" by (metis ucast_eq)
    also have "... = word_of_int (uint a - uint b)" by (rule word_of_int_eq_iff [THEN iffD2]) simp
    finally have "compare_oe_id a b = sint (word_of_int (uint a - uint b) :: 32 word)"
      by (simp only: compare_oe_id_def)
    then have "compare_oe_id a b = signed_take_bit 31 (uint a - uint b)"
      by (simp only: signed_of_int) simp
    then show ?thesis using that by (simp add: signed_take_bit_int_eq_self_iff)
  qed
  then show ?thesis by (simp add: eq compare_oe_id_def)
qed

theorem compare_keys_witness:
  "compare_oe_id 5 3 = 2 \<and> compare_oe_time 5 3 = 2 \<and> compare_oe_id 4294967301 5 = 0"
  using compare_keys [of 5 3] by simp

section \<open>Property keys\<close>

lemma tilde_split:
  assumes "a @ CHR ''~'' # x = b @ CHR ''~'' # y" "CHR ''~'' \<notin> set a" "CHR ''~'' \<notin> set b"
  shows "a = b \<and> x = y"
  using assms
proof (induction a arbitrary: b)
  case Nil
  then show ?case by (cases b) auto
next
  case (Cons c a)
  then show ?case by (cases b) auto
qed

lemma map_key_eq: "map_key k v = Inr (k @ OES_KEY_SEP @ v)"
  by (simp add: map_key_def oec_str_concat_def OES_KEY_SEP_def)

lemma tuple_key_eq: "tuple_key a pos sz = Inr (a @ OES_KEY_SEP @ itoa pos @ OES_KEY_SEP @ itoa sz)"
  by (simp add: tuple_key_def oec_str_concat_def OES_KEY_SEP_def)

lemma itoa_digits:
  assumes "n < 2 ^ 31"
  shows "itoa n = dec_nat n"
proof -
  have "sint (word_of_nat n :: 32 word) = int n"
    using assms by (simp add: signed_of_nat signed_take_bit_int_eq_self_iff)
  then show ?thesis by (simp add: itoa_def oec_itoa_def dec_int_def)
qed

lemma dec_nat_no_tilde: "CHR ''~'' \<notin> set (dec_nat n)"
  using dec_nat_digits [of "CHR ''~''" n] by (auto simp: is_digit_def)

text \<open>the keys records are found under.  For names and attributes without a tilde the keys are unique: two
  pairs of a map have the same key only if they are equal, and two attributes of tuples only if text,
  position and arity agree.  With a separator inside, different pairs share a key, and a pair of a map
  can have the key of an attribute of a tuple, so that a template finds records it does not match.\<close>

theorem property_keys:
  "(CHR ''~'' \<notin> set k \<and> CHR ''~'' \<notin> set k' \<and> map_key k v = map_key k' v' \<longrightarrow> k = k' \<and> v = v') \<and>
   (CHR ''~'' \<notin> set k \<and> CHR ''~'' \<notin> set k' \<and> pos < 2 ^ 31 \<and> pos' < 2 ^ 31 \<and> sz < 2 ^ 31 \<and> sz' < 2 ^ 31 \<and>
      tuple_key k pos sz = tuple_key k' pos' sz' \<longrightarrow> k = k' \<and> pos = pos' \<and> sz = sz') \<and>
   map_key (a @ OES_KEY_SEP @ b) c = map_key a (b @ OES_KEY_SEP @ c) \<and>
   tuple_key a pos sz = map_key a (itoa pos @ OES_KEY_SEP @ itoa sz)"
proof -
  have "k = k' \<and> v = v'" if "CHR ''~'' \<notin> set k" "CHR ''~'' \<notin> set k'" "map_key k v = map_key k' v'" for v v'
    using tilde_split [of k "CHR ''+'' # v" k' "CHR ''+'' # v'"] that by (simp add: map_key_eq OES_KEY_SEP_def)
  note one = this
  have two: "k = k' \<and> pos = pos' \<and> sz = sz'"
    if "CHR ''~'' \<notin> set k" "CHR ''~'' \<notin> set k'" "pos < 2 ^ 31" "pos' < 2 ^ 31" "sz < 2 ^ 31" "sz' < 2 ^ 31"
      "tuple_key k pos sz = tuple_key k' pos' sz'"
  proof -
    have e: "k @ CHR ''~'' # CHR ''+'' # dec_nat pos @ OES_KEY_SEP @ dec_nat sz =
        k' @ CHR ''~'' # CHR ''+'' # dec_nat pos' @ OES_KEY_SEP @ dec_nat sz'"
      using that(3-) by (simp add: tuple_key_eq itoa_digits OES_KEY_SEP_def)
    note s = tilde_split [OF e that(1,2)]
    then have f: "dec_nat pos @ CHR ''~'' # CHR ''+'' # dec_nat sz = dec_nat pos' @ CHR ''~'' # CHR ''+'' # dec_nat sz'"
      by (simp add: OES_KEY_SEP_def)
    show ?thesis using tilde_split [OF f dec_nat_no_tilde dec_nat_no_tilde] s by simp
  qed
  have "map_key (a @ OES_KEY_SEP @ b) c = map_key a (b @ OES_KEY_SEP @ c)"
    "tuple_key a pos sz = map_key a (itoa pos @ OES_KEY_SEP @ itoa sz)" by (simp_all add: map_key_eq tuple_key_eq)
  then show ?thesis using one two by blast
qed

theorem property_keys_witness:
  "map_key ''a'' ''b~+c'' = map_key ''a~+b'' ''c'' \<and> map_key ''a'' ''b'' \<noteq> map_key ''ab'' ''b'' \<and>
   tuple_key ''x'' 0 1 \<noteq> tuple_key ''x'' 1 1"
  using property_keys [of "''a''" "''ab''" "''b''" "''b''" 0 0 0 0 "''a''" "''b''" "''c''"]
    property_keys [of "''x''" "''x''" "[]" "[]" 0 1 1 1 "[]" "[]" "[]"]
  by (auto simp: OES_KEY_SEP_def)

end
