(* ===== verification/Bdb_Samples.thy ===== *)
theory Bdb_Samples
  imports Bdb_Reaper
begin

text \<open>
  Runs of the store calls on the database kept in memory: the theorems about putting, transactions,
  leases and the reaper applied to concrete records.
\<close>

lemmas sample_eval = begin_txn_def mem_begin_def demo_store_def mem_empty_def finish_txn_def commit_txn_def abort_txn_def
  txn_flags_deadlock_def Let_def numeral_2_eq_2 mem_deliver_def demo_length OEBDB_DEFAULT_READ_BUFFER_SIZE_def

lemma demo_put:
  "\<exists>h' st'. api_put 1 mem_bdb demo_holder (demo_store []) = Inr (OK, h', st')"
proof -
  let ?h = "demo_holder\<lparr>sh_lease_id := 1\<rparr>"
  have "sh_data ?h = Some demo_tuple" by (simp add: demo_holder_def)
  from marshal_spec [OF this demo_storable] obtain buf len h' where
    m: "OeStoreHolder_marshal ?h = Inr (buf, len, h')" by blast
  have "sh_txn_id demo_holder = 0" by (simp add: demo_holder_def)
  then show ?thesis using m
    by (simp add: api_put_def sample_eval try_put_def put_holder_def OeStoreHolder_set_lease_id_def
        OeStoreHolder_get_txn_id_def)
qed

theorem api_put_all_or_nothing_witness:
  "\<exists>h' st'. api_put 1 mem_bdb demo_holder (demo_store []) = Inr (OK, h', st') \<and>
     v_db mem_view Holder_db (bdb_state st') = [sh_lease_id h' \<mapsto> stored h'] \<and>
     fired st' = [fst (OeStoreHolder_get_data h')]"
proof -
  obtain h' st' where p: "api_put 1 mem_bdb demo_holder (demo_store []) = Inr (OK, h', st')" using demo_put by blast
  have "sh_txn_id demo_holder = 0" by (simp add: demo_holder_def)
  then show ?thesis using api_put_all_or_nothing [OF mem_laws p] p by (auto simp: demo_store_def mem_empty_def)
qed

theorem api_put_dead_handle_witness:
  "api_put 1 (mem_bdb\<lparr>txn_begin := \<lambda>d. (RC 12, d)\<rparr>) demo_holder (demo_store []) = Inl Use_After_Free"
proof (rule api_put_dead_handle)
  let ?B = "mem_bdb\<lparr>txn_begin := \<lambda>d. (RC 12, d)\<rparr>"
  let ?st0 = "(demo_store [])\<lparr>bdb_state := mem_empty\<lparr>m_seq := 2\<rparr>\<rparr>"
  show "create_id 1 ?B (demo_store []) = Inr (1, ?st0)" by (simp add: demo_store_def mem_empty_def mem_bdb_def)
  show "begin_txn ?B ?st0 = (RC 12, ?st0\<lparr>txn_live := False\<rparr>)"
    by (simp add: begin_txn_def demo_store_def)
qed simp

lemma demo_update_lease:
  "\<exists>st'. update_lease mem_bdb 5 1 99 (demo_store [(1, demo_bytes)]) = Inr (OK, st')"
proof -
  let ?h = "demo_holder\<lparr>sh_lease_expire_time := 99\<rparr>"
  have "sh_data ?h = Some demo_tuple" by (simp add: demo_holder_def)
  from marshal_spec [OF this demo_storable] obtain buf len h' where
    m: "OeStoreHolder_marshal ?h = Inr (buf, len, h')" by blast
  have "sh_lease_expire_time demo_holder = 50" by (simp add: demo_holder_def)
  then show ?thesis using m
    by (simp add: update_lease_def sample_eval bdb_get_def demo_read OeStoreHolder_set_lease_expire_time_def
        OeStoreHolder_get_lease_expire_time_def)
qed

theorem update_lease_spec_witness:
  "\<exists>st'. update_lease mem_bdb 5 1 99 (demo_store [(1, demo_bytes)]) = Inr (OK, st') \<and>
     v_db mem_view Holder_db (bdb_state st') = [1 \<mapsto> stored (demo_holder\<lparr>sh_lease_expire_time := 99\<rparr>)]"
proof -
  obtain st' where u: "update_lease mem_bdb 5 1 99 (demo_store [(1, demo_bytes)]) = Inr (OK, st')"
    using demo_update_lease by blast
  then show ?thesis using update_lease_spec [OF mem_laws u] demo_read by (auto simp: demo_store_def mem_empty_def)
qed

section \<open>The reaper\<close>

lemma demo_expire: "set_expire_time demo_bytes = Inr (OK, [50])"
  by (simp add: set_expire_time_def demo_peek OEC_FOREVER_def)

lemma demo_time_hits: "k \<in> hits mem_view (Time_Key t) (bdb_state (demo_store [(1, demo_bytes)])) \<longleftrightarrow> k = 1 \<and> t = 50"
  by (simp add: hits_def demo_store_def mem_empty_def demo_expire)

lemma demo_lease: "m_holders d = [(1, demo_bytes)] \<Longrightarrow> mem_leases d = [1] \<and> lease_time d 1 = Some 50"
  by (simp add: mem_leases_def mem_keys_def lease_time_def demo_expire)

lemma demo_reap: "\<exists>st'. lease_reaper 3 False mem_bdb 50 (demo_store [(1, demo_bytes)]) = Inr (0, st')"
  by (simp add: lease_reaper_def set_reaper_running_def sample_eval numeral_3_eq_3 demo_lease mem_step_def demo_peek
      DBT_MALLOC_def mem_cur_del_def OESTORE_MAX_LEASE_REAP_def OESTORE_MAX_LEASE_REAP_COMMIT_def)

lemma demo_reap_late: "\<exists>st'. lease_reaper 3 False mem_bdb 60 (demo_store [(1, demo_bytes)]) = Inr (0, st')"
  by (simp add: lease_reaper_def set_reaper_running_def sample_eval numeral_3_eq_3 demo_lease)


theorem lease_reaper_misses_expired_witness:
  "\<exists>st'. lease_reaper 3 False mem_bdb 60 (demo_store [(1, demo_bytes)]) = Inr (0, st') \<and>
     v_db mem_view Holder_db (bdb_state st') = [1 \<mapsto> demo_bytes]"
proof -
  let ?st = "demo_store [(1, demo_bytes)]"
  obtain st' where r: "lease_reaper 3 False mem_bdb 60 ?st = Inr (0, st')" using demo_reap_late by blast
  have "times_near mem_view 60 (bdb_state ?st)"
    "\<forall>t k. k \<in> hits mem_view (Time_Key t) (bdb_state ?st) \<longrightarrow> sint t < sint (60 :: oe_time)"
    by (simp_all add: times_near_def demo_time_hits)
  from lease_reaper_misses_expired [OF mem_laws this r] show ?thesis
    using r by (auto simp: same_view_def demo_store_def)
qed

theorem lease_reaper_runs_once_witness:
  "\<exists>st'. lease_reaper 3 False mem_bdb 50 (demo_store [(1, demo_bytes)]) = Inr (0, st') \<and>
     lease_reaper 3 False mem_bdb 60 st' = Inr (0, st')"
  using demo_reap lease_reaper_runs_once by blast

section \<open>A transaction\<close>

text \<open>Transaction 9 has written the record.\<close>

definition demo_owned :: OeStoreHolder where
  "demo_owned = demo_holder\<lparr>sh_lock := OESTORE_WRITE_LOCK, sh_txn_id := 9\<rparr>"

definition owned_bytes :: string where
  "owned_bytes = holder_bytes demo_owned demo_tuple"

definition demo_txn :: OESTORE_TXN where
  "demo_txn = \<lparr>tx_status = OESTORE_TXN_ACTIVE, tx_expire_time = OEC_FOREVER, tx_begin_time = 1, tx_end_time = 0, tx_tid = 9\<rparr>"

definition txn_store :: "mem OeBdb" where
  "txn_store = (demo_store [(1, owned_bytes)])\<lparr>bdb_state := mem_empty\<lparr>m_holders := [(1, owned_bytes)],
     m_txns := [(9, marshal_txn demo_txn)]\<rparr>\<rparr>"

lemma owned_read: "OeStoreHolder_new_from_buffer owned_bytes = Inr demo_owned"
  using unmarshal_exact [OF demo_storable, of demo_owned "[]"]
  by (simp add: owned_bytes_def demo_owned_def demo_holder_def demo_tuple_def read_back_def DataObject_new_def)

lemma owned_length: "length owned_bytes = 41"
  by (simp add: owned_bytes_def holder_bytes_def holder_header_def bool_byte_def demo_tuple_def content_def)

lemma owned_peek: "OeStoreHolder_peek_txn_id owned_bytes = Inr 9"
  using peek_spec [of demo_owned demo_tuple "[]"] by (simp add: owned_bytes_def demo_owned_def)

lemma marshal_txn_length: "length (marshal_txn x) = 28"
  by (simp add: marshal_txn_def)

lemma demo_owners: "k \<in> hits mem_view (Owner_Key t) (bdb_state txn_store) \<longleftrightarrow> k = 1 \<and> t = 9"
  by (simp add: hits_def txn_store_def set_owner_def owned_peek)

lemma two_rounds:
  "bdb_get B p k d = get_loop (Suc (Suc 0)) B p k OEBDB_DEFAULT_READ_BUFFER_SIZE d"
  "get_with_cursor B c cop key d = get_with_cursor_loop (Suc (Suc 0)) B c cop key OEBDB_DEFAULT_READ_BUFFER_SIZE d"
  by (simp_all add: bdb_get_def get_with_cursor_def numeral_2_eq_2)

lemmas demo_txn_eval = begin_txn_def mem_begin_def demo_store_def mem_empty_def commit_txn_def txn_flags_deadlock_def
  Let_def mem_deliver_def OEBDB_DEFAULT_READ_BUFFER_SIZE_def OESTORE_TXN_ACTIVE_def OESTORE_TXN_COMMITTED_def
  OESTORE_TXN_ROLLED_BACK_def OESTORE_TAKE_LOCK_def OESTORE_WRITE_LOCK_def

lemma demo_commit:
  "\<exists>st'. update_txn 3 mem_bdb 5 9 0 OESTORE_TXN_COMMITTED 1 txn_store = Inr (OK, st')"
proof -
  have "sh_data (release demo_owned) = Some demo_tuple"
    by (simp add: release_def demo_owned_def demo_holder_def OeStoreHolder_set_lock_def OeStoreHolder_set_txn_id_def)
  from marshal_spec [OF this demo_storable] obtain buf len h' where
    m: "OeStoreHolder_marshal (release demo_owned) = Inr (buf, len, h')"
    "buf = holder_bytes (release demo_owned) demo_tuple @ replicate 12 NUL"
    "len = length (holder_bytes (release demo_owned) demo_tuple)" by blast
  have lid: "sh_lease_id h' = 1"
    using marshal_lease [OF m(1)] by (simp add: demo_owned_def demo_holder_def)
  have gone: "OeStoreHolder_peek_txn_id (take len buf) = Inr 0"
    using peek_spec(2) [of "release demo_owned" demo_tuple "[]"] m(2,3) by simp
  have lock: "sh_lock demo_owned = OESTORE_WRITE_LOCK" by (simp add: demo_owned_def)
  show ?thesis
    unfolding numeral_3_eq_3
    by (simp add: update_txn_def txn_store_def demo_txn_eval get_txn_def zero_txn_def two_rounds marshal_txn_length
        txn_roundtrip demo_txn_def finish_oetxn_def mem_step_def mem_dups_def mem_keys_def mem_hit_def set_owner_def
        owned_peek owned_length owned_read OeStoreHolder_get_lock_def lock m(1) [unfolded release_def] lid
        OeStoreHolder_get_lease_id_def gone put_oetxn_def)
qed

theorem update_txn_all_or_nothing_witness:
  "\<exists>st'. update_txn 3 mem_bdb 5 9 0 OESTORE_TXN_COMMITTED 1 txn_store = Inr (OK, st') \<and>
     v_db mem_view Holder_db (bdb_state st') = [1 \<mapsto> stored (release demo_owned)]"
proof -
  obtain st' where u: "update_txn 3 mem_bdb 5 9 0 OESTORE_TXN_COMMITTED 1 txn_store = Inr (OK, st')"
    using demo_commit by blast
  have keyed: "keyed mem_view (bdb_state txn_store)"
    by (simp add: keyed_def txn_store_def owned_read demo_owned_def demo_holder_def)
  have small: "owners_small mem_view (bdb_state txn_store)" by (simp add: owners_small_def demo_owners)
  have own: "owned mem_view 9 (bdb_state txn_store) = {1}" by (auto simp: owned_def demo_owners)
  have db: "v_db mem_view Holder_db (bdb_state txn_store) = [1 \<mapsto> owned_bytes]" by (simp add: txn_store_def)
  have "(OESTORE_TAKE_LOCK, OESTORE_WRITE_LOCK) = (if OESTORE_TXN_COMMITTED = OESTORE_TXN_COMMITTED
      then (OESTORE_TAKE_LOCK, OESTORE_WRITE_LOCK) else (OESTORE_WRITE_LOCK, OESTORE_TAKE_LOCK))" by simp
  from update_txn_all_or_nothing [OF mem_laws keyed small _ _ _ _ _ this u, of demo_txn]
  have "v_db mem_view Holder_db (bdb_state st') =
      settled OESTORE_TAKE_LOCK OESTORE_WRITE_LOCK {1} [1 \<mapsto> owned_bytes]"
    by (simp add: own db) (simp add: txn_store_def demo_txn_def)
  also have "... = [1 \<mapsto> stored (release demo_owned)]"
    by (simp add: settled_def fun_eq_iff settle_def owned_read demo_owned_def OESTORE_TAKE_LOCK_def OESTORE_WRITE_LOCK_def)
  finally show ?thesis using u by blast
qed

end
