(* ===== verification/Work_Queue.thy ===== *)
theory Work_Queue
  imports Prelude
begin

text \<open>
  The work queue of the two dispatchers (\<^verbatim>\<open>_que_push\<close> and \<^verbatim>\<open>_que_pop\<close> of \<^verbatim>\<open>Oe_Thread_Dispatcher.c\<close> and of
  \<^verbatim>\<open>Oed_Dispatcher.c\<close>): a singly linked list of heap cells with a head and a tail pointer.

  The cells live in a store \<open>q_mem\<close> from addresses to cells; \<^const>\<open>None\<close> is memory that is not
  allocated.  An item is allocated by its creator at an address \<open>p\<close> that was free before, and its
  \<^verbatim>\<open>next\<close> field is part of the cell.  Both operations run under the mutex of the queue, so each is one
  step.  Waking a waiting thread has no effect on the state.

  The theory shows that the linked list refines a first-in first-out list (\<open>queue_of\<close>), once for the
  interface \<open>fifo\<close>, which both queues are instances of.
\<close>

section \<open>Model\<close>

record 'a cell =
  cell_item :: 'a
  cell_next :: "nat option"

record 'a QUE =
  q_head :: "nat option"
  q_tail :: "nat option"
  q_mem :: "nat \<Rightarrow> 'a cell option"
  q_size :: int
  q_counter :: int

definition que_new :: "'a QUE" where
  "que_new = \<lparr>q_head = None, q_tail = None, q_mem = (\<lambda>_. None), q_size = 0, q_counter = 0\<rparr>"

definition que_push :: "'a QUE \<Rightarrow> nat \<Rightarrow> 'a \<Rightarrow> 'a QUE c_result" where
  "que_push que p item =
     (let m = (q_mem que)(p \<mapsto> \<lparr>cell_item = item, cell_next = None\<rparr>);
          que1 = que\<lparr>q_tail := Some p, q_size := q_size que + 1, q_counter := q_counter que + 1\<rparr>
      in case q_tail que of
           None \<Rightarrow> Inr (que1\<lparr>q_mem := m, q_head := Some p\<rparr>)
         | Some t \<Rightarrow>
             (case m t of
                None \<Rightarrow> Inl Use_After_Free
              | Some c \<Rightarrow> Inr (que1\<lparr>q_mem := m(t \<mapsto> c\<lparr>cell_next := Some p\<rparr>)\<rparr>)))"

text \<open>Taking the first cell off; it stays allocated until its user frees it.\<close>

definition unlink_head :: "'a QUE \<Rightarrow> nat \<Rightarrow> 'a QUE c_result" where
  "unlink_head que p =
     (case q_mem que p of
        None \<Rightarrow> Inl Use_After_Free
      | Some c \<Rightarrow>
          let que1 = que\<lparr>q_head := cell_next c\<rparr>
          in Inr (if q_head que1 = None then que1\<lparr>q_tail := None\<rparr> else que1))"

text \<open>The pop of the thread dispatcher waits while the queue is empty; \<^const>\<open>None\<close> is a thread that has
  to wait.\<close>

definition que_pop_wait :: "'a QUE \<Rightarrow> (nat \<times> 'a QUE) option c_result" where
  "que_pop_wait que =
     (case q_head que of
        None \<Rightarrow> Inr None
      | Some p \<Rightarrow> c_bind (unlink_head que p) (\<lambda>q. Inr (Some (p, q\<lparr>q_size := q_size q - 1\<rparr>))))"

text \<open>The pop of the template matcher does not wait.  It counts the size down on an empty queue too.\<close>

definition que_pop :: "'a QUE \<Rightarrow> (nat option \<times> 'a QUE) c_result" where
  "que_pop que =
     (case q_head que of
        None \<Rightarrow> Inr (None, que\<lparr>q_size := q_size que - 1\<rparr>)
      | Some p \<Rightarrow> c_bind (unlink_head que p) (\<lambda>q. Inr (Some p, q\<lparr>q_size := q_size q - 1\<rparr>)))"

definition que_item :: "'a QUE \<Rightarrow> nat \<Rightarrow> 'a c_result" where
  "que_item que p = (case q_mem que p of None \<Rightarrow> Inl Use_After_Free | Some c \<Rightarrow> Inr (cell_item c))"

definition que_free_item :: "'a QUE \<Rightarrow> nat \<Rightarrow> 'a QUE c_result" where
  "que_free_item que p =
     (case q_mem que p of None \<Rightarrow> Inl Use_After_Free | Some _ \<Rightarrow> Inr (que\<lparr>q_mem := (q_mem que)(p := None)\<rparr>))"

section \<open>The queue as a list\<close>

text \<open>\<open>linked m a ps e\<close>: following the \<^verbatim>\<open>next\<close> fields from \<open>a\<close> visits the cells \<open>ps\<close> and ends in \<open>e\<close>.\<close>

fun linked :: "(nat \<Rightarrow> 'a cell option) \<Rightarrow> nat option \<Rightarrow> nat list \<Rightarrow> nat option \<Rightarrow> bool" where
  "linked m a [] e = (a = e)"
| "linked m a (p # ps) e = (a = Some p \<and> (\<exists>c. m p = Some c \<and> linked m (cell_next c) ps e))"

definition queue_of :: "'a QUE \<Rightarrow> nat list \<Rightarrow> bool" where
  "queue_of que ps =
     (distinct ps \<and> linked (q_mem que) (q_head que) ps None \<and>
      q_tail que = (if ps = [] then None else Some (last ps)))"

definition items_at :: "'a QUE \<Rightarrow> nat list \<Rightarrow> 'a list" where
  "items_at que ps = map (\<lambda>p. cell_item (the (q_mem que p))) ps"

section \<open>Lemmas on linked cells\<close>

lemma linked_append:
  "linked m a (ps @ qs) e \<longleftrightarrow> (\<exists>b. linked m a ps b \<and> linked m b qs e)"
  by (induction ps arbitrary: a) auto

lemma linked_cong:
  "linked m a ps e \<Longrightarrow> (\<And>p. p \<in> set ps \<Longrightarrow> m' p = m p) \<Longrightarrow> linked m' a ps e"
  by (induction ps arbitrary: a) fastforce+

lemma linked_alloc: "linked m a ps e \<Longrightarrow> p \<in> set ps \<Longrightarrow> \<exists>c. m p = Some c"
  by (induction ps arbitrary: a) auto

lemma queue_of_new [simp]: "queue_of que_new []"
  by (simp add: queue_of_def que_new_def)

lemma queue_of_alloc: "queue_of que ps \<Longrightarrow> p \<in> set ps \<Longrightarrow> \<exists>c. q_mem que p = Some c"
  unfolding queue_of_def by (metis linked_alloc)

lemma items_at_simps [simp]:
  "items_at que [] = []"
  "items_at que (p # ps) = cell_item (the (q_mem que p)) # items_at que ps"
  "items_at que (ps @ qs) = items_at que ps @ items_at que qs"
  by (simp_all add: items_at_def)

lemma items_at_cong:
  "(\<And>p. p \<in> set ps \<Longrightarrow> map_option cell_item (q_mem que' p) = map_option cell_item (q_mem que p)) \<Longrightarrow>
   (\<And>p. p \<in> set ps \<Longrightarrow> q_mem que p \<noteq> None) \<Longrightarrow> items_at que' ps = items_at que ps"
  by (induction ps) (force simp: items_at_def)+

text \<open>Pushing at an address that was free.\<close>

lemma que_push_spec:
  assumes q: "queue_of que ps" and p: "q_mem que p = None"
  shows "\<exists>que'. que_push que p item = Inr que' \<and> queue_of que' (ps @ [p]) \<and>
    items_at que' (ps @ [p]) = items_at que ps @ [item] \<and> q_size que' = q_size que + 1 \<and>
    q_counter que' = q_counter que + 1 \<and>
    (\<forall>a. a \<noteq> p \<longrightarrow> map_option cell_item (q_mem que' a) = map_option cell_item (q_mem que a)) \<and>
    map_option cell_item (q_mem que' p) = Some item"
proof (cases ps rule: rev_cases)
  case Nil
  then show ?thesis using q by (simp add: que_push_def queue_of_def Let_def)
next
  case (snoc qs t)
  note un = q [unfolded queue_of_def snoc]
  have np: "p \<notin> set ps" using p queue_of_alloc [OF q, of p] by auto
  obtain c where t: "q_mem que t = Some c" and qs: "linked (q_mem que) (q_head que) qs (Some t)"
    and nx: "cell_next c = None" using un by (auto simp: linked_append)
  let ?m = "(q_mem que)(p \<mapsto> \<lparr>cell_item = item, cell_next = None\<rparr>, t \<mapsto> c\<lparr>cell_next := Some p\<rparr>)"
  have "linked ?m (q_head que) qs (Some t)"
    by (rule linked_cong [OF qs]) (use un np snoc in auto)
  then have link: "linked ?m (q_head que) (ps @ [p]) None"
    using np snoc by (auto simp: linked_append)
  have "items_at (que\<lparr>q_mem := ?m\<rparr>) ps = items_at que ps"
    by (rule items_at_cong) (use np t queue_of_alloc [OF q] in auto)
  then show ?thesis using link un np snoc t p
    by (auto simp: que_push_def queue_of_def Let_def items_at_def)
qed

text \<open>Unlinking the head.\<close>

lemma unlink_head_spec:
  assumes "queue_of que (p # ps)"
  shows "\<exists>que'. unlink_head que p = Inr que' \<and> queue_of que' ps \<and> q_mem que' = q_mem que \<and>
    q_size que' = q_size que \<and> q_counter que' = q_counter que"
  using assms by (cases ps) (auto simp: unlink_head_def queue_of_def Let_def)

lemma queue_of_head: "queue_of que ps \<Longrightarrow> q_head que = (case ps of [] \<Rightarrow> None | p # _ \<Rightarrow> Some p)"
  by (cases ps) (auto simp: queue_of_def)

lemma queue_of_unique: "queue_of que ps \<Longrightarrow> queue_of que qs \<Longrightarrow> ps = qs"
proof -
  have "linked m a ps None \<Longrightarrow> linked m a qs None \<Longrightarrow> ps = qs" for m :: "nat \<Rightarrow> 'a cell option" and a ps qs
    by (induction ps arbitrary: a qs) (case_tac qs; auto)+
  then show "queue_of que ps \<Longrightarrow> queue_of que qs \<Longrightarrow> ps = qs" by (auto simp: queue_of_def)
qed

section \<open>First in, first out\<close>

text \<open>What a consumer does with a cell it popped: read the item, free the cell.\<close>

definition consume_cell :: "nat option \<times> 'a QUE \<Rightarrow> ('a option \<times> 'a QUE) c_result" where
  "consume_cell r =
     (case r of
        (None, que) \<Rightarrow> Inr (None, que)
      | (Some p, que) \<Rightarrow> c_bind (que_item que p) (\<lambda>x. c_bind (que_free_item que p) (\<lambda>q. Inr (Some x, q))))"

definition take_item :: "'a QUE \<Rightarrow> ('a option \<times> 'a QUE) c_result" where
  "take_item que = c_bind (que_pop que) consume_cell"

text \<open>A consumer that would have to wait goes away empty-handed.\<close>

definition take_item_wait :: "'a QUE \<Rightarrow> ('a option \<times> 'a QUE) c_result" where
  "take_item_wait que =
     c_bind (que_pop_wait que) (\<lambda>r. case r of None \<Rightarrow> Inr (None, que)
       | Some (p, q) \<Rightarrow> consume_cell (Some p, q))"

text \<open>Sequences of operations, their run on a queue and on a list, and the addresses malloc may
  return (those of no queued cell).\<close>

datatype 'a qop = Push nat 'a | Pop

fun run_ops ::
  "('q \<Rightarrow> nat \<Rightarrow> 'a \<Rightarrow> 'q c_result) \<Rightarrow> ('q \<Rightarrow> ('a option \<times> 'q) c_result) \<Rightarrow> 'a qop list \<Rightarrow> 'q \<Rightarrow>
   ('a option list \<times> 'q) c_result" where
  "run_ops push pop [] q = Inr ([], q)"
| "run_ops push pop (Push p x # ops) q = c_bind (push q p x) (run_ops push pop ops)"
| "run_ops push pop (Pop # ops) q =
     c_bind (pop q) (\<lambda>(r, q'). c_bind (run_ops push pop ops q') (\<lambda>(rs, q''). Inr (r # rs, q'')))"

fun list_run :: "'a qop list \<Rightarrow> 'a list \<Rightarrow> 'a option list \<times> 'a list" where
  "list_run [] xs = ([], xs)"
| "list_run (Push p x # ops) xs = list_run ops (xs @ [x])"
| "list_run (Pop # ops) [] = (let (rs, ys) = list_run ops [] in (None # rs, ys))"
| "list_run (Pop # ops) (x # xs) = (let (rs, ys) = list_run ops xs in (Some x # rs, ys))"

fun malloc_ok :: "'a qop list \<Rightarrow> nat list \<Rightarrow> bool" where
  "malloc_ok [] ps = True"
| "malloc_ok (Push p x # ops) ps = (p \<notin> set ps \<and> malloc_ok ops (ps @ [p]))"
| "malloc_ok (Pop # ops) ps = malloc_ok ops (tl ps)"

locale fifo =
  fixes push :: "'q \<Rightarrow> nat \<Rightarrow> 'a \<Rightarrow> 'q c_result"
    and pop :: "'q \<Rightarrow> ('a option \<times> 'q) c_result"
    and holds :: "'q \<Rightarrow> nat list \<Rightarrow> 'a list \<Rightarrow> bool"
  assumes push_law: "holds q ps xs \<Longrightarrow> p \<notin> set ps \<Longrightarrow> \<exists>q'. push q p x = Inr q' \<and> holds q' (ps @ [p]) (xs @ [x])"
    and pop_empty_law: "holds q [] [] \<Longrightarrow> \<exists>q'. pop q = Inr (None, q') \<and> holds q' [] []"
    and pop_law: "holds q (p # ps) (x # xs) \<Longrightarrow> \<exists>q'. pop q = Inr (Some x, q') \<and> holds q' ps xs"
    and holds_length: "holds q ps xs \<Longrightarrow> length ps = length xs"
begin

text \<open>Every run of the queue ends normally and returns what the list returns.\<close>

lemma run_refines:
  assumes "holds q ps xs" "malloc_ok ops ps"
  shows "\<exists>q' ps'. run_ops push pop ops q = Inr (fst (list_run ops xs), q') \<and>
    holds q' ps' (snd (list_run ops xs))"
  using assms
proof (induction ops arbitrary: q ps xs)
  case Nil
  then show ?case by auto
next
  case (Cons oper ops)
  show ?case
  proof (cases oper)
    case (Push p x)
    obtain q' where "push q p x = Inr q'" "holds q' (ps @ [p]) (xs @ [x])"
      using push_law [OF Cons.prems(1)] Cons.prems(2) Push by auto
    then show ?thesis using Cons.IH Cons.prems(2) Push by simp
  next
    case Pop
    show ?thesis
    proof (cases xs)
      case Nil
      then have "ps = []" using holds_length [OF Cons.prems(1)] by simp
      then obtain q' where "pop q = Inr (None, q')" "holds q' [] []"
        using pop_empty_law Cons.prems(1) Nil by blast
      then show ?thesis using Cons.IH [of q' "[]" "[]"] Cons.prems(2) Pop Nil \<open>ps = []\<close>
        by (fastforce simp: split: prod.splits)
    next
      case (Cons x xs')
      then obtain p ps' where "ps = p # ps'" using holds_length [OF Cons.prems(1)] by (cases ps) auto
      then obtain q' where "pop q = Inr (Some x, q')" "holds q' ps' xs'"
        using pop_law Cons.prems(1) Cons by blast
      then show ?thesis using Cons.IH [of q' ps' xs'] Cons.prems(2) Pop Cons \<open>ps = p # ps'\<close>
        by (fastforce simp: split: prod.splits)
    qed
  qed
qed

end

text \<open>Both queues are such a queue.  \<open>que_holds\<close>: the cells that are allocated are the queued ones.\<close>

definition que_holds :: "'a QUE \<Rightarrow> nat list \<Rightarrow> 'a list \<Rightarrow> bool" where
  "que_holds que ps xs = (queue_of que ps \<and> items_at que ps = xs \<and> dom (q_mem que) = set ps)"

lemma que_holds_push:
  assumes "que_holds que ps xs" "p \<notin> set ps"
  shows "\<exists>que'. que_push que p x = Inr que' \<and> que_holds que' (ps @ [p]) (xs @ [x])"
proof -
  have "q_mem que p = None" using assms by (auto simp: que_holds_def)
  then obtain q' where q': "que_push que p x = Inr q'" "queue_of q' (ps @ [p])"
      "items_at q' (ps @ [p]) = items_at que ps @ [x]"
      "\<And>a. a \<noteq> p \<Longrightarrow> map_option cell_item (q_mem q' a) = map_option cell_item (q_mem que a)"
      "map_option cell_item (q_mem q' p) = Some x"
    using que_push_spec [of que ps p x] assms(1) unfolding que_holds_def by blast
  have "a \<in> dom (q_mem q') \<longleftrightarrow> a \<in> insert p (dom (q_mem que))" for a
    using q'(4) [of a] q'(5) by (cases "a = p"; cases "q_mem q' a"; cases "q_mem que a") auto
  then show ?thesis using q' assms unfolding que_holds_def by auto
qed

lemma consume_head:
  assumes "que_holds que (p # ps) (x # xs)"
  shows "\<exists>q1. unlink_head que p = Inr q1 \<and>
    (\<forall>n. \<exists>q2. consume_cell (Some p, q1\<lparr>q_size := n\<rparr>) = Inr (Some x, q2) \<and> que_holds q2 ps xs)"
proof -
  have q: "queue_of que (p # ps)" and x: "cell_item (the (q_mem que p)) = x" and xs: "items_at que ps = xs"
    and d: "dom (q_mem que) = insert p (set ps)" and np: "p \<notin> set ps"
    using assms by (auto simp: que_holds_def queue_of_def)
  obtain q1 where q1: "unlink_head que p = Inr q1" "queue_of q1 ps" "q_mem q1 = q_mem que"
    using unlink_head_spec [OF q] by blast
  obtain c where c: "q_mem que p = Some c" using queue_of_alloc [OF q, of p] by auto
  have "\<exists>q2. consume_cell (Some p, q1\<lparr>q_size := n\<rparr>) = Inr (Some x, q2) \<and> que_holds q2 ps xs" for n
  proof -
    let ?q2 = "q1\<lparr>q_size := n, q_mem := (q_mem que)(p := None)\<rparr>"
    have "queue_of ?q2 ps" using q1(2,3) np by (auto simp: queue_of_def intro: linked_cong)
    moreover have "items_at ?q2 ps = xs" using xs np by (auto simp: items_at_def)
    moreover have "dom (q_mem ?q2) = set ps" using d np by auto
    moreover have "consume_cell (Some p, q1\<lparr>q_size := n\<rparr>) = Inr (Some x, ?q2)"
      using c x q1(3) by (simp add: consume_cell_def que_item_def que_free_item_def)
    ultimately show ?thesis by (auto simp: que_holds_def)
  qed
  then show ?thesis using q1(1) by blast
qed

lemma que_holds_head: "que_holds que ps xs \<Longrightarrow> q_head que = (case ps of [] \<Rightarrow> None | p # _ \<Rightarrow> Some p)"
  by (simp add: que_holds_def queue_of_head)

lemma holds_empty:
  assumes "que_holds q [] []"
  shows "\<exists>q'. take_item q = Inr (None, q') \<and> que_holds q' [] []"
    and "\<exists>q'. take_item_wait q = Inr (None, q') \<and> que_holds q' [] []"
proof -
  have "q_head q = None" using que_holds_head [OF assms] by simp
  then show "\<exists>q'. take_item q = Inr (None, q') \<and> que_holds q' [] []"
    "\<exists>q'. take_item_wait q = Inr (None, q') \<and> que_holds q' [] []"
    using assms by (simp_all add: take_item_def que_pop_def consume_cell_def take_item_wait_def
        que_pop_wait_def que_holds_def queue_of_def)
qed

lemma holds_length: "que_holds q ps xs \<Longrightarrow> length ps = length xs"
  by (auto simp: que_holds_def items_at_def)

interpretation matcher_queue: fifo que_push take_item que_holds
proof
  fix q :: "'a QUE" and p ps x xs
  assume h: "que_holds q (p # ps) (x # xs)"
  obtain q1 where "unlink_head q p = Inr q1"
    "\<forall>n. \<exists>q2. consume_cell (Some p, q1\<lparr>q_size := n\<rparr>) = Inr (Some x, q2) \<and> que_holds q2 ps xs"
    using consume_head [OF h] by blast
  then show "\<exists>q'. take_item q = Inr (Some x, q') \<and> que_holds q' ps xs"
    using que_holds_head [OF h] by (simp add: take_item_def que_pop_def)
qed (erule (1) que_holds_push, simp_all add: holds_empty holds_length)

interpretation thread_queue: fifo que_push take_item_wait que_holds
proof
  fix q :: "'a QUE" and p ps x xs
  assume h: "que_holds q (p # ps) (x # xs)"
  obtain q1 where "unlink_head q p = Inr q1"
    "\<forall>n. \<exists>q2. consume_cell (Some p, q1\<lparr>q_size := n\<rparr>) = Inr (Some x, q2) \<and> que_holds q2 ps xs"
    using consume_head [OF h] by blast
  then show "\<exists>q'. take_item_wait q = Inr (Some x, q') \<and> que_holds q' ps xs"
    using que_holds_head [OF h] by (simp add: take_item_wait_def que_pop_wait_def)
qed (erule (1) que_holds_push, simp_all add: holds_empty holds_length)

lemma que_holds_new: "que_holds que_new [] []"
  by (simp add: que_holds_def) (simp add: que_new_def)

text \<open>C28: the work queues of both dispatchers refine a first-in first-out list.  Whatever sequence of
  pushes and pops is run from a new queue, with cells allocated at addresses that are free at the time,
  no freed memory is touched and every pop returns what the list returns (for the waiting pop of the
  thread dispatcher: nothing where it would wait), and what is left in the queue is what is left in the
  list.\<close>

theorem queues_refine_fifo:
  assumes "malloc_ok ops []"
  shows "(\<exists>que ps. run_ops que_push take_item ops que_new = Inr (fst (list_run ops []), que) \<and>
      que_holds que ps (snd (list_run ops []))) \<and>
    (\<exists>que ps. run_ops que_push take_item_wait ops que_new = Inr (fst (list_run ops []), que) \<and>
      que_holds que ps (snd (list_run ops [])))"
  using matcher_queue.run_refines [OF que_holds_new assms] thread_queue.run_refines [OF que_holds_new assms]
  by blast

theorem queues_refine_fifo_witness:
  "malloc_ok [Pop, Push 7 (1 :: int), Push 9 2, Pop, Push 7 3, Pop, Pop, Pop] [] \<and>
   (\<exists>que ps. run_ops que_push take_item [Pop, Push 7 (1 :: int), Push 9 2, Pop, Push 7 3, Pop, Pop, Pop] que_new =
      Inr ([None, Some 1, Some 2, Some 3, None], que) \<and> que_holds que ps [])"
  using queues_refine_fifo [of "[Pop, Push 7 (1 :: int), Push 9 2, Pop, Push 7 3, Pop, Pop, Pop]"] by simp

end
