(* ===== verification/Thread_Dispatcher.thy ===== *)
theory Thread_Dispatcher
  imports Work_Queue "HOL-Library.Multiset" "HOL-Library.Sublist"
begin

text \<open>
  The thread dispatcher (\<^verbatim>\<open>corelib/Oe_Thread_Dispatcher.c\<close>): a pool of worker threads that take jobs off
  a shared queue.  A job \<^typ>\<open>'j\<close> stands for a callback with its argument.

  The operations are functions on the dispatcher; \<open>do_work\<close> is one turn of a worker's loop.  The step
  relation \<open>td_step\<close> interleaves them: any thread may submit a job, ask for statistics or push a quit
  item at any time, and any worker may take its next turn.  Each step is one critical section of the
  queue's mutex or an action private to a worker.  The fields \<open>pl_submitted\<close>, \<open>pl_popped\<close>, \<open>pl_ran\<close>
  and \<open>pl_before\<close> record the history and are not part of the program.
\<close>

section \<open>The dispatcher\<close>

datatype 'j td_item = TD_PROCESS 'j | TD_TQUIT | TD_DIAG

record 'j Oe_Thread_Dispatcher =
  td_que :: "'j td_item QUE"
  td_que_running :: nat
  td_number_of_threads :: int
  td_running :: bool

definition MAX_THREADS :: int where
  "MAX_THREADS = 32"

definition Oe_Thread_Dispatcher_new :: "int \<Rightarrow> 'j Oe_Thread_Dispatcher c_result" where
  "Oe_Thread_Dispatcher_new number_of_threads =
     (if MAX_THREADS < number_of_threads then Inl Assert_Failed
      else Inr \<lparr>td_que = que_new, td_que_running = 0, td_number_of_threads = number_of_threads,
                td_running = False\<rparr>)"

definition td_push :: "'j Oe_Thread_Dispatcher \<Rightarrow> nat \<Rightarrow> 'j td_item \<Rightarrow> 'j Oe_Thread_Dispatcher c_result" where
  "td_push td p item = c_bind (que_push (td_que td) p item) (\<lambda>q. Inr (td\<lparr>td_que := q\<rparr>))"

text \<open>A job is queued for the workers, or run at once when there are none; the first component lists
  the jobs run at once.\<close>

definition Oe_Thread_Dispatcher_exec ::
  "'j Oe_Thread_Dispatcher \<Rightarrow> nat \<Rightarrow> 'j \<Rightarrow> ('j list \<times> 'j Oe_Thread_Dispatcher) c_result" where
  "Oe_Thread_Dispatcher_exec td p job =
     (if 0 < td_number_of_threads td then c_bind (td_push td p (TD_PROCESS job)) (\<lambda>td'. Inr ([], td'))
      else Inr ([job], td))"

text \<open>A worker: created, at the top of its loop, holding the item it popped, or gone.\<close>

datatype worker = Created | Idle | Holding nat | Exited

text \<open>One turn of a worker: the job it runs in it, its new state and the dispatcher; \<^const>\<open>None\<close> when it
  has to wait or is gone.\<close>

definition do_work ::
  "'j Oe_Thread_Dispatcher \<Rightarrow> worker \<Rightarrow> ('j list \<times> worker \<times> 'j Oe_Thread_Dispatcher) option c_result" where
  "do_work td w =
     (case w of
        Created \<Rightarrow> Inr (Some ([], Idle, td\<lparr>td_que_running := td_que_running td + 1\<rparr>))
      | Idle \<Rightarrow> c_bind (que_pop_wait (td_que td)) (\<lambda>r.
          case r of None \<Rightarrow> Inr None | Some (p, q) \<Rightarrow> Inr (Some ([], Holding p, td\<lparr>td_que := q\<rparr>)))
      | Holding p \<Rightarrow> c_bind (que_item (td_que td) p) (\<lambda>item.
          c_bind (que_free_item (td_que td) p) (\<lambda>q.
            let td' = td\<lparr>td_que := q\<rparr> in
            case item of
              TD_PROCESS job \<Rightarrow> Inr (Some ([job], Idle, td'))
            | TD_TQUIT \<Rightarrow> Inr (Some ([], Exited, td'))
            | TD_DIAG \<Rightarrow> Inr (Some ([], Idle, td'))))
      | Exited \<Rightarrow> Inr None)"

text \<open>Starting creates the threads and waits until all of them have counted themselves.\<close>

definition Oe_Thread_Dispatcher_start :: "'j Oe_Thread_Dispatcher \<Rightarrow> worker list" where
  "Oe_Thread_Dispatcher_start td = replicate (nat (td_number_of_threads td)) Created"

definition start_ready :: "'j Oe_Thread_Dispatcher \<Rightarrow> bool" where
  "start_ready td = (td_number_of_threads td \<le> int (td_que_running td))"

definition start_done :: "'j Oe_Thread_Dispatcher \<Rightarrow> 'j Oe_Thread_Dispatcher" where
  "start_done td = td\<lparr>td_running := True\<rparr>"

text \<open>Stopping pushes one quit item per thread and joins the threads.  \<open>stop_push\<close> is round \<open>i\<close> of its
  loop (\<^const>\<open>None\<close> after the last), \<open>stop_join\<close> what follows.\<close>

definition stop_push ::
  "'j Oe_Thread_Dispatcher \<Rightarrow> nat \<Rightarrow> nat \<Rightarrow> 'j Oe_Thread_Dispatcher option c_result" where
  "stop_push td i p =
     (if 0 < td_number_of_threads td \<and> td_running td \<and> int i < td_number_of_threads td
      then c_bind (td_push td p TD_TQUIT) (\<lambda>td'. Inr (Some td')) else Inr None)"

definition stop_join :: "'j Oe_Thread_Dispatcher \<Rightarrow> worker list \<Rightarrow> 'j Oe_Thread_Dispatcher option" where
  "stop_join td ws = (if list_all (\<lambda>w. w = Exited) ws then Some (td\<lparr>td_running := False\<rparr>) else None)"

text \<open>Statistics: one item per thread, one push per round.\<close>

definition stats_push ::
  "'j Oe_Thread_Dispatcher \<Rightarrow> nat \<Rightarrow> nat \<Rightarrow> 'j Oe_Thread_Dispatcher option c_result" where
  "stats_push td i p =
     (if 0 < td_number_of_threads td \<and> int i < td_number_of_threads td
      then c_bind (td_push td p TD_DIAG) (\<lambda>td'. Inr (Some td')) else Inr None)"

section \<open>The pool\<close>

record 'j pool =
  pl_td :: "'j Oe_Thread_Dispatcher"
  pl_workers :: "worker list"
  pl_quits :: nat
  pl_submitted :: "'j list"
  pl_popped :: "'j list"
  pl_ran :: "'j list"
  pl_before :: "'j list"

definition free_at :: "'j pool \<Rightarrow> nat \<Rightarrow> bool" where
  "free_at s p = (q_mem (td_que (pl_td s)) p = None)"

definition jobs :: "'j td_item list \<Rightarrow> 'j list" where
  "jobs items = concat (map (\<lambda>x. case x of TD_PROCESS j \<Rightarrow> [j] | _ \<Rightarrow> []) items)"

text \<open>The job a worker gets hold of when it goes from \<open>w\<close> to \<open>w'\<close>.\<close>

definition newly_held :: "'j pool \<Rightarrow> worker \<Rightarrow> worker \<Rightarrow> 'j list" where
  "newly_held s w w' =
     (case (w, w') of
        (Idle, Holding p) \<Rightarrow> (case q_mem (td_que (pl_td s)) p of None \<Rightarrow> [] | Some c \<Rightarrow> jobs [cell_item c])
      | _ \<Rightarrow> [])"

definition work_result ::
  "'j pool \<Rightarrow> worker list \<Rightarrow> worker \<Rightarrow> worker list \<Rightarrow> 'j list \<times> worker \<times> 'j Oe_Thread_Dispatcher \<Rightarrow> 'j pool" where
  "work_result s us w vs r =
     (case r of (rj, w', td') \<Rightarrow>
        s\<lparr>pl_td := td', pl_workers := us @ w' # vs, pl_ran := pl_ran s @ rj,
          pl_popped := pl_popped s @ newly_held s w w'\<rparr>)"

inductive work_step :: "'j pool \<Rightarrow> 'j pool \<Rightarrow> bool" where
  work: "pl_workers s = us @ w # vs \<Longrightarrow> do_work (pl_td s) w = Inr (Some r) \<Longrightarrow>
    work_step s (work_result s us w vs r)"

inductive td_step :: "'j pool \<Rightarrow> 'j pool \<Rightarrow> bool" where
  worker: "work_step s s' \<Longrightarrow> td_step s s'"
| submit: "free_at s p \<Longrightarrow> Oe_Thread_Dispatcher_exec (pl_td s) p job = Inr ([], td') \<Longrightarrow>
    td_step s (s\<lparr>pl_td := td', pl_submitted := pl_submitted s @ [job]\<rparr>)"
| started: "start_ready (pl_td s) \<Longrightarrow> td_step s (s\<lparr>pl_td := start_done (pl_td s)\<rparr>)"
| quit: "free_at s p \<Longrightarrow> stop_push (pl_td s) (pl_quits s) p = Inr (Some td') \<Longrightarrow>
    td_step s (s\<lparr>pl_td := td', pl_quits := pl_quits s + 1,
      pl_before := (if pl_quits s = 0 then pl_submitted s else pl_before s)\<rparr>)"
| stats: "free_at s p \<Longrightarrow> stats_push (pl_td s) i p = Inr (Some td') \<Longrightarrow> td_step s (s\<lparr>pl_td := td'\<rparr>)"

definition pool_start :: "int \<Rightarrow> 'j pool c_result" where
  "pool_start n =
     c_bind (Oe_Thread_Dispatcher_new n) (\<lambda>td.
       Inr \<lparr>pl_td = td, pl_workers = Oe_Thread_Dispatcher_start td, pl_quits = 0, pl_submitted = [],
            pl_popped = [], pl_ran = [], pl_before = []\<rparr>)"

definition pool_reachable :: "int \<Rightarrow> 'j pool \<Rightarrow> bool" where
  "pool_reachable n s = (\<exists>s0. pool_start n = Inr s0 \<and> td_step\<^sup>*\<^sup>* s0 s)"

definition all_exited :: "'j pool \<Rightarrow> bool" where
  "all_exited s = list_all (\<lambda>w. w = Exited) (pl_workers s)"

section \<open>The invariant\<close>

fun held :: "worker list \<Rightarrow> nat list" where
  "held [] = []"
| "held (Holding p # ws) = p # held ws"
| "held (_ # ws) = held ws"

definition quits :: "'j td_item list \<Rightarrow> nat" where
  "quits items = length (filter (\<lambda>x. x = TD_TQUIT) items)"

definition exits :: "worker list \<Rightarrow> nat" where
  "exits ws = length (filter (\<lambda>w. w = Exited) ws)"

definition unstarted :: "worker list \<Rightarrow> nat" where
  "unstarted ws = length (filter (\<lambda>w. w = Created) ws)"

abbreviation pl_que :: "'j pool \<Rightarrow> 'j td_item QUE" where
  "pl_que s \<equiv> td_que (pl_td s)"

abbreviation ahead :: "'j td_item list \<Rightarrow> 'j list" where
  "ahead items \<equiv> jobs (takeWhile (\<lambda>x. x \<noteq> TD_TQUIT) items)"

text \<open>\<open>ps\<close> are the queued cells.\<close>

definition pool_inv :: "nat \<Rightarrow> 'j pool \<Rightarrow> nat list \<Rightarrow> bool" where
  "pool_inv n s ps =
     (let que = pl_que s; hs = held (pl_workers s); items = items_at que ps in
      queue_of que ps \<and> distinct (ps @ hs) \<and> dom (q_mem que) = set (ps @ hs) \<and>
      length (pl_workers s) = n \<and> td_number_of_threads (pl_td s) = int n \<and> pl_quits s \<le> n \<and>
      pl_quits s = quits items + quits (items_at que hs) + exits (pl_workers s) \<and>
      pl_submitted s = pl_popped s @ jobs items \<and>
      mset (pl_popped s) = mset (pl_ran s) + mset (jobs (items_at que hs)) \<and>
      (0 < pl_quits s \<longrightarrow> prefix (pl_before s) (pl_popped s @ ahead items)) \<and>
      (0 < quits (items_at que hs) + exits (pl_workers s) \<longrightarrow> prefix (pl_before s) (pl_popped s)))"

lemmas pool_invD = pool_inv_def [unfolded Let_def, THEN iffD1]
lemmas pool_invI = pool_inv_def [unfolded Let_def, THEN iffD2]

lemma held_append [simp]: "held (us @ vs) = held us @ held vs"
  by (induction us rule: held.induct) auto

lemma exits_simps [simp]:
  "exits [] = 0" "exits (w # ws) = (if w = Exited then 1 else 0) + exits ws" "exits (us @ vs) = exits us + exits vs"
  by (simp_all add: exits_def)

lemma quits_simps [simp]:
  "quits [] = 0" "quits (x # xs) = (if x = TD_TQUIT then 1 else 0) + quits xs" "quits (xs @ ys) = quits xs + quits ys"
  by (simp_all add: quits_def)

lemma jobs_simps [simp]:
  "jobs [] = []" "jobs (TD_PROCESS j # xs) = j # jobs xs" "jobs (TD_TQUIT # xs) = jobs xs"
  "jobs (TD_DIAG # xs) = jobs xs" "jobs (xs @ ys) = jobs xs @ jobs ys"
  by (simp_all add: jobs_def)

lemma exits_le: "exits ws \<le> length ws"
  by (simp add: exits_def)

lemma all_exited_iff: "all_exited s \<longleftrightarrow> exits (pl_workers s) = length (pl_workers s)"
proof -
  have "list_all (\<lambda>w. w = Exited) ws \<longleftrightarrow> exits ws = length ws" for ws
  proof (induction ws)
    case (Cons w ws)
    then show ?case using exits_le [of ws] by auto
  qed simp
  then show ?thesis by (simp add: all_exited_def)
qed

lemma held_exited: "list_all (\<lambda>w. w = Exited) ws \<Longrightarrow> held ws = []"
  by (induction ws rule: held.induct) auto

lemma ahead_quit: "0 < quits xs \<Longrightarrow> ahead (xs @ ys) = ahead xs"
  by (induction xs) (auto split: if_splits td_item.splits simp: jobs_def)

lemma ahead_no_quit: "quits xs = 0 \<Longrightarrow> ahead (xs @ ys) = jobs xs @ ahead ys"
  by (induction xs) (auto split: if_splits td_item.splits simp: jobs_def)

lemma prefix_ahead: "prefix b (a @ ahead xs) \<Longrightarrow> prefix b (a @ ahead (xs @ ys))"
proof (cases "0 < quits xs")
  case True
  then show "prefix b (a @ ahead xs) \<Longrightarrow> ?thesis" by (simp add: ahead_quit)
next
  case False
  then show "prefix b (a @ ahead xs) \<Longrightarrow> ?thesis"
    using ahead_no_quit [of xs] ahead_no_quit [of xs "[]"] prefix_prefix [of b "a @ jobs xs" "ahead ys"]
    by simp
qed

text \<open>A push: the items held by workers stay as they are.\<close>

lemma td_push_inv:
  assumes inv: "pool_inv n s ps" and free: "free_at s p"
  obtains td' where "td_push (pl_td s) p item = Inr td'"
    "td_number_of_threads td' = td_number_of_threads (pl_td s)"
    "queue_of (td_que td') (ps @ [p])" "items_at (td_que td') ps = items_at (pl_que s) ps"
    "cell_item (the (q_mem (td_que td') p)) = item"
    "items_at (td_que td') (held (pl_workers s)) = items_at (pl_que s) (held (pl_workers s))"
    "dom (q_mem (td_que td')) = insert p (dom (q_mem (pl_que s)))"
    "p \<notin> set ps" "p \<notin> set (held (pl_workers s))"
proof -
  have i: "queue_of (pl_que s) ps" "dom (q_mem (pl_que s)) = set (ps @ held (pl_workers s))"
    using pool_invD [OF inv] by blast+
  have f: "q_mem (pl_que s) p = None" using free by (simp add: free_at_def)
  have p: "p \<notin> set ps" "p \<notin> set (held (pl_workers s))" using i(2) f by auto
  obtain q where q: "que_push (pl_que s) p item = Inr q" "queue_of q (ps @ [p])"
      "items_at q (ps @ [p]) = items_at (pl_que s) ps @ [item]"
      "\<forall>a. a \<noteq> p \<longrightarrow> map_option cell_item (q_mem q a) = map_option cell_item (q_mem (pl_que s) a)"
      "map_option cell_item (q_mem q p) = Some item"
    using que_push_spec [OF i(1) f, of item] by blast
  have "a \<in> dom (q_mem q) \<longleftrightarrow> a \<in> insert p (dom (q_mem (pl_que s)))" for a
    using q(4)[rule_format, of a] q(5)
    by (cases "a = p"; cases "q_mem q a"; cases "q_mem (pl_que s) a") auto
  then have d: "dom (q_mem q) = insert p (dom (q_mem (pl_que s)))" by blast
  have "items_at q (held (pl_workers s)) = items_at (pl_que s) (held (pl_workers s))"
  proof (rule items_at_cong)
    fix a assume a: "a \<in> set (held (pl_workers s))"
    then show "map_option cell_item (q_mem q a) = map_option cell_item (q_mem (pl_que s) a)"
      using q(4) p(2) by metis
    show "q_mem (pl_que s) a \<noteq> None" using a i(2) by auto
  qed
  then show thesis using that [of "(pl_td s)\<lparr>td_que := q\<rparr>"] q d p by (simp add: td_push_def)
qed

lemma submit_inv:
  assumes inv: "pool_inv n s ps" and free: "free_at s p"
    and ex: "Oe_Thread_Dispatcher_exec (pl_td s) p job = Inr ([], td')"
  shows "pool_inv n (s\<lparr>pl_td := td', pl_submitted := pl_submitted s @ [job]\<rparr>) (ps @ [p])"
proof -
  obtain td1 where td1: "td_push (pl_td s) p (TD_PROCESS job) = Inr td1"
    and push: "td_number_of_threads td1 = td_number_of_threads (pl_td s)"
    "queue_of (td_que td1) (ps @ [p])" "items_at (td_que td1) ps = items_at (pl_que s) ps"
    "cell_item (the (q_mem (td_que td1) p)) = TD_PROCESS job"
    "items_at (td_que td1) (held (pl_workers s)) = items_at (pl_que s) (held (pl_workers s))"
    "dom (q_mem (td_que td1)) = insert p (dom (q_mem (pl_que s)))"
    "p \<notin> set ps" "p \<notin> set (held (pl_workers s))"
    using td_push_inv [OF inv free] by metis
  have "td' = td1" using ex td1 by (auto simp: Oe_Thread_Dispatcher_exec_def split: if_splits)
  then show ?thesis
    using pool_invD [OF inv] push prefix_ahead [of "pl_before s" "pl_popped s" "items_at (pl_que s) ps"]
    by (intro pool_invI) auto
qed

lemma quit_inv:
  assumes inv: "pool_inv n s ps" and free: "free_at s p"
    and st: "stop_push (pl_td s) (pl_quits s) p = Inr (Some td')"
  shows "pool_inv n (s\<lparr>pl_td := td', pl_quits := pl_quits s + 1,
      pl_before := (if pl_quits s = 0 then pl_submitted s else pl_before s)\<rparr>) (ps @ [p])"
proof -
  note i = pool_invD [OF inv]
  obtain td1 where td1: "td_push (pl_td s) p TD_TQUIT = Inr td1"
    and push: "td_number_of_threads td1 = td_number_of_threads (pl_td s)"
    "queue_of (td_que td1) (ps @ [p])" "items_at (td_que td1) ps = items_at (pl_que s) ps"
    "cell_item (the (q_mem (td_que td1) p)) = TD_TQUIT"
    "items_at (td_que td1) (held (pl_workers s)) = items_at (pl_que s) (held (pl_workers s))"
    "dom (q_mem (td_que td1)) = insert p (dom (q_mem (pl_que s)))"
    "p \<notin> set ps" "p \<notin> set (held (pl_workers s))"
    using td_push_inv [OF inv free] by metis
  have td: "td' = td1" and lt: "pl_quits s < n"
    using st td1 i by (auto simp: stop_push_def split: if_splits)
  have "prefix (if pl_quits s = 0 then pl_submitted s else pl_before s)
      (pl_popped s @ ahead (items_at (pl_que s) ps @ [TD_TQUIT]))"
  proof (cases "pl_quits s = 0")
    case True
    then have "quits (items_at (pl_que s) ps) = 0" using i by simp
    then show ?thesis using True i ahead_no_quit [of "items_at (pl_que s) ps" "[TD_TQUIT]"] by simp
  next
    case False
    then have "prefix (pl_before s) (pl_popped s @ ahead (items_at (pl_que s) ps))" using i by blast
    then show ?thesis using False prefix_ahead by simp
  qed
  moreover have "pl_quits s = 0 \<Longrightarrow> quits (items_at (pl_que s) (held (pl_workers s))) + exits (pl_workers s) = 0"
    using i by simp
  ultimately show ?thesis using i push td lt by (intro pool_invI) auto
qed

lemma stats_inv:
  assumes inv: "pool_inv n s ps" and free: "free_at s p" and st: "stats_push (pl_td s) k p = Inr (Some td')"
  shows "pool_inv n (s\<lparr>pl_td := td'\<rparr>) (ps @ [p])"
proof -
  obtain td1 where td1: "td_push (pl_td s) p TD_DIAG = Inr td1"
    and push: "td_number_of_threads td1 = td_number_of_threads (pl_td s)"
    "queue_of (td_que td1) (ps @ [p])" "items_at (td_que td1) ps = items_at (pl_que s) ps"
    "cell_item (the (q_mem (td_que td1) p)) = TD_DIAG"
    "items_at (td_que td1) (held (pl_workers s)) = items_at (pl_que s) (held (pl_workers s))"
    "dom (q_mem (td_que td1)) = insert p (dom (q_mem (pl_que s)))"
    "p \<notin> set ps" "p \<notin> set (held (pl_workers s))"
    using td_push_inv [OF inv free] by metis
  have "td' = td1" using st td1 by (auto simp: stats_push_def split: if_splits)
  then show ?thesis
    using pool_invD [OF inv] push prefix_ahead [of "pl_before s" "pl_popped s" "items_at (pl_que s) ps"]
    by (intro pool_invI) auto
qed

text \<open>The turns of a worker.\<close>

lemma pop_inv:
  assumes inv: "pool_inv n s (p # ps)" and ws: "pl_workers s = us @ Idle # vs"
  obtains td' where "do_work (pl_td s) Idle = Inr (Some ([], Holding p, td'))"
    "pool_inv n (work_result s us Idle vs ([], Holding p, td')) ps"
proof -
  note i = pool_invD [OF inv, unfolded ws]
  obtain q where q: "unlink_head (pl_que s) p = Inr q" "queue_of q ps" "q_mem q = q_mem (pl_que s)"
    using unlink_head_spec [of "pl_que s" p ps] i by blast
  have hd: "q_head (pl_que s) = Some p" using queue_of_head [of "pl_que s" "p # ps"] i by simp
  let ?q = "q\<lparr>q_size := q_size q - 1\<rparr>" let ?td = "(pl_td s)\<lparr>td_que := ?q\<rparr>"
  obtain c where c: "q_mem (pl_que s) p = Some c" using queue_of_alloc [of "pl_que s" "p # ps" p] i by auto
  have qo: "queue_of ?q ps" using q(2) by (simp add: queue_of_def)
  have same: "items_at ?q xs = items_at (pl_que s) xs" for xs using q(3) by (simp add: items_at_def)
  have "do_work (pl_td s) Idle = Inr (Some ([], Holding p, ?td))"
    using q(1) hd by (simp add: do_work_def que_pop_wait_def)
  moreover have "pool_inv n (work_result s us Idle vs ([], Holding p, ?td)) ps"
    using i q(3) c qo same
    by (intro pool_invI) (cases "cell_item c"; auto simp: work_result_def newly_held_def)
  ultimately show thesis using that by blast
qed

lemma finish_inv:
  assumes inv: "pool_inv n s ps" and ws: "pl_workers s = us @ Holding p # vs"
  obtains rj w' td' where "do_work (pl_td s) (Holding p) = Inr (Some (rj, w', td'))"
    "pool_inv n (work_result s us (Holding p) vs (rj, w', td')) ps" "w' = Idle \<or> w' = Exited"
proof -
  note i = pool_invD [OF inv, unfolded ws]
  have "p \<in> dom (q_mem (pl_que s))" using i by simp
  then obtain c where c: "q_mem (pl_que s) p = Some c" by blast
  let ?q = "(pl_que s)\<lparr>q_mem := (q_mem (pl_que s))(p := None)\<rparr>" let ?td = "(pl_td s)\<lparr>td_que := ?q\<rparr>"
  have np: "p \<notin> set ps" "p \<notin> set (held us)" "p \<notin> set (held vs)" using i by simp_all
  have "items_at ?q xs = items_at (pl_que s) xs" if "p \<notin> set xs" for xs
    using that by (auto simp: items_at_def)
  then have same: "items_at ?q ps = items_at (pl_que s) ps"
    "items_at ?q (held us) = items_at (pl_que s) (held us)" "items_at ?q (held vs) = items_at (pl_que s) (held vs)"
    using np by simp_all
  have "queue_of (pl_que s) ps" using i by blast
  then have qo: "queue_of ?q ps" using np by (auto simp: queue_of_def intro: linked_cong)
  have "dom (q_mem (pl_que s)) = set (ps @ held us @ p # held vs)" using i by simp
  then have d: "dom (q_mem ?q) = set (ps @ held us @ held vs)" using np by auto
  note facts = i np same d c
  show thesis
  proof (cases "cell_item c")
    case (TD_PROCESS j)
    have "do_work (pl_td s) (Holding p) = Inr (Some ([j], Idle, ?td))"
      using c TD_PROCESS by (simp add: do_work_def que_item_def que_free_item_def)
    moreover have "pool_inv n (work_result s us (Holding p) vs ([j], Idle, ?td)) ps"
      using facts TD_PROCESS qo by (intro pool_invI) (simp add: work_result_def newly_held_def)
    ultimately show thesis using that by blast
  next
    case TD_TQUIT
    have "do_work (pl_td s) (Holding p) = Inr (Some ([], Exited, ?td))"
      using c TD_TQUIT by (simp add: do_work_def que_item_def que_free_item_def)
    moreover have "pool_inv n (work_result s us (Holding p) vs ([], Exited, ?td)) ps"
      using facts TD_TQUIT qo by (intro pool_invI) (simp add: work_result_def newly_held_def)
    ultimately show thesis using that by blast
  next
    case TD_DIAG
    have "do_work (pl_td s) (Holding p) = Inr (Some ([], Idle, ?td))"
      using c TD_DIAG by (simp add: do_work_def que_item_def que_free_item_def)
    moreover have "pool_inv n (work_result s us (Holding p) vs ([], Idle, ?td)) ps"
      using facts TD_DIAG qo by (intro pool_invI) (simp add: work_result_def newly_held_def)
    ultimately show thesis using that by blast
  qed
qed

lemma created_inv:
  assumes inv: "pool_inv n s ps" and ws: "pl_workers s = us @ Created # vs"
  shows "pool_inv n (work_result s us Created vs ([], Idle, (pl_td s)\<lparr>td_que_running := k\<rparr>)) ps"
  using pool_invD [OF inv, unfolded ws]
  by (intro pool_invI) (simp add: work_result_def newly_held_def)

text \<open>What is left to do: a cell counts two while queued and one while held.\<close>

definition work_left :: "nat list \<Rightarrow> 'j pool \<Rightarrow> nat" where
  "work_left ps s = 2 * length ps + length (held (pl_workers s)) + unstarted (pl_workers s)"

lemma unstarted_simps [simp]:
  "unstarted [] = 0" "unstarted (w # ws) = (if w = Created then 1 else 0) + unstarted ws"
  "unstarted (us @ vs) = unstarted us + unstarted vs"
  by (simp_all add: unstarted_def)

text \<open>Every turn of a worker of a pool with the invariant ends normally, keeps the invariant and
  leaves less to do; a worker waits only on an empty queue.\<close>

lemma do_work_inv:
  assumes inv: "pool_inv n s ps" and ws: "pl_workers s = us @ w # vs"
  shows "(\<exists>r ps'. do_work (pl_td s) w = Inr (Some r) \<and> pool_inv n (work_result s us w vs r) ps' \<and>
      work_left ps' (work_result s us w vs r) < work_left ps s) \<or>
    do_work (pl_td s) w = Inr None \<and> (w = Exited \<or> w = Idle \<and> ps = [])"
proof (cases w)
  case Created
  then show ?thesis using created_inv [OF inv ws [unfolded Created]] ws
    by (force simp: do_work_def work_left_def work_result_def)
next
  case Idle
  show ?thesis
  proof (cases ps)
    case Nil
    then have "queue_of (pl_que s) []" using pool_invD [OF inv] by blast
    then have "q_head (pl_que s) = None" by (simp add: queue_of_def)
    then show ?thesis using Idle Nil by (simp add: do_work_def que_pop_wait_def)
  next
    case (Cons p ps')
    obtain td' where "do_work (pl_td s) Idle = Inr (Some ([], Holding p, td'))"
      "pool_inv n (work_result s us Idle vs ([], Holding p, td')) ps'"
      using pop_inv [of n s p ps' us vs] inv ws Idle Cons by auto
    moreover have "work_left ps' (work_result s us Idle vs ([], Holding p, td')) < work_left ps s"
      using ws Idle Cons by (simp add: work_left_def work_result_def)
    ultimately show ?thesis using Idle by blast
  qed
next
  case (Holding p)
  obtain rj w' td' where "do_work (pl_td s) (Holding p) = Inr (Some (rj, w', td'))"
    "pool_inv n (work_result s us (Holding p) vs (rj, w', td')) ps" and w: "w' = Idle \<or> w' = Exited"
    using finish_inv [OF inv ws [unfolded Holding]] by metis
  moreover have "work_left ps (work_result s us (Holding p) vs (rj, w', td')) < work_left ps s"
    using ws Holding w by (auto simp: work_left_def work_result_def)
  ultimately show ?thesis using Holding by blast
next
  case Exited
  then show ?thesis by (simp add: do_work_def)
qed

lemma work_step_decreases:
  "work_step s s' \<Longrightarrow> pool_inv n s ps \<Longrightarrow> \<exists>ps'. pool_inv n s' ps' \<and> work_left ps' s' < work_left ps s"
proof (induction rule: work_step.induct)
  case (work s us w vs r)
  then show ?case using do_work_inv [OF work.prems work.hyps(1)] by auto
qed

lemma work_step_keeps:
  "work_step s s' \<Longrightarrow> pl_quits s' = pl_quits s \<and> pl_before s' = pl_before s \<and> pl_submitted s' = pl_submitted s"
  by (induction rule: work_step.induct) (auto simp: work_result_def)

lemma td_step_inv: "td_step s s' \<Longrightarrow> pool_inv n s ps \<Longrightarrow> \<exists>ps'. pool_inv n s' ps'"
proof (induction rule: td_step.induct)
  case (worker s s')
  then show ?case using work_step_decreases by blast
next
  case (submit s p job td')
  then show ?case by (intro exI) (rule submit_inv)
next
  case (started s)
  then show ?case by (auto simp: start_done_def pool_inv_def Let_def)
next
  case (quit s p td')
  then show ?case by (intro exI) (rule quit_inv)
next
  case (stats s p i td')
  then show ?case by (intro exI) (rule stats_inv)
qed

lemma pool_start_inv:
  assumes "pool_start (int n) = Inr s0"
  shows "pool_inv n s0 []"
proof -
  have "held (replicate k Created) = []" "exits (replicate k Created) = 0" for k
    by (induction k) auto
  then show ?thesis using assms
    by (auto simp: pool_start_def Oe_Thread_Dispatcher_new_def Oe_Thread_Dispatcher_start_def pool_inv_def
        Let_def que_new_def queue_of_def split: if_splits)
qed

lemma reachable_inv:
  assumes "pool_reachable (int n) s"
  shows "\<exists>ps. pool_inv n s ps"
proof -
  obtain s0 where s0: "pool_start (int n) = Inr s0" and run: "td_step\<^sup>*\<^sup>* s0 s"
    using assms by (auto simp: pool_reachable_def)
  show ?thesis using run
    by (induction rule: rtranclp_induct) (use pool_start_inv [OF s0] td_step_inv in blast)+
qed

section \<open>Shutting down\<close>

text \<open>Once as many quit items were pushed as there are workers, some worker can take a turn until all
  are gone.\<close>

lemma no_turn:
  assumes inv: "pool_inv n s ps" and q: "pl_quits s = n" and no: "\<not> (\<exists>s'. work_step s s')"
  shows "all_exited s"
proof -
  note i = pool_invD [OF inv]
  have w: "w = Exited \<or> w = Idle \<and> ps = []" if w: "w \<in> set (pl_workers s)" for w
  proof -
    obtain us vs where ws: "pl_workers s = us @ w # vs" using w by (auto simp: in_set_conv_decomp)
    show ?thesis using do_work_inv [OF inv ws] work_step.work [OF ws] no by blast
  qed
  have "held xs = []" if "\<forall>x\<in>set xs. x = Exited \<or> x = Idle" for xs
    using that by (induction xs rule: held.induct) auto
  then have h: "held (pl_workers s) = []" using w by blast
  show ?thesis
  proof (cases "ps = []")
    case True
    then have "exits (pl_workers s) = length (pl_workers s)" using i h q by simp
    then show ?thesis by (simp add: all_exited_iff)
  next
    case False
    then show ?thesis using w by (auto simp: all_exited_def list_all_iff)
  qed
qed

lemma shutdown_runs:
  assumes "pool_inv n s ps" "pl_quits s = n"
  shows "\<exists>s' ps'. work_step\<^sup>*\<^sup>* s s' \<and> pool_inv n s' ps' \<and> all_exited s' \<and> pl_before s' = pl_before s"
  using assms
proof (induction "work_left ps s" arbitrary: s ps rule: less_induct)
  case less
  show ?case
  proof (cases "\<exists>s'. work_step s s'")
    case True
    then obtain s1 where s1: "work_step s s1" by blast
    obtain ps1 where ps1: "pool_inv n s1 ps1" "work_left ps1 s1 < work_left ps s"
      using work_step_decreases [OF s1 less.prems(1)] by blast
    then obtain s' ps' where "work_step\<^sup>*\<^sup>* s1 s'" "pool_inv n s' ps'" "all_exited s'" "pl_before s' = pl_before s1"
      using less.hyps [OF ps1(2,1)] work_step_keeps [OF s1] less.prems(2) by auto
    then show ?thesis using s1 work_step_keeps [OF s1] by (metis converse_rtranclp_into_rtranclp)
  next
    case False
    then show ?thesis using no_turn [OF less.prems] less.prems(1) by blast
  qed
qed

lemma exited_done:
  assumes inv: "pool_inv n s ps" and e: "all_exited s"
  shows "mset (pl_popped s) = mset (pl_ran s)" and "0 < n \<Longrightarrow> prefix (pl_before s) (pl_popped s)"
proof -
  have h: "held (pl_workers s) = []" using e held_exited by (auto simp: all_exited_def)
  then show "mset (pl_popped s) = mset (pl_ran s)" using pool_invD [OF inv] by simp
  show "prefix (pl_before s) (pl_popped s)" if "0 < n"
    using that e pool_invD [OF inv] by (simp add: all_exited_iff)
qed

section \<open>Properties\<close>

text \<open>C26: in every interleaving of submitters, workers, statistics and shutdown, jobs are taken up in the
  order in which they were submitted, each is taken up once, and each is run once by the worker that took it
  up: the submitted jobs are the ones taken up followed by those still queued, and the ones taken up are the
  ones that ran and the at most one per worker that has not run yet.  No worker ever touches freed memory.\<close>

theorem jobs_run_once_in_order:
  assumes "pool_reachable (int n) s"
  shows "(\<exists>queued waiting. pl_submitted s = pl_popped s @ queued \<and>
      mset (pl_popped s) = mset (pl_ran s) + mset waiting \<and> length waiting \<le> n) \<and>
    (\<forall>w \<in> set (pl_workers s). \<not> isl (do_work (pl_td s) w))"
proof -
  obtain ps where inv: "pool_inv n s ps" using reachable_inv [OF assms] by blast
  note i = pool_invD [OF inv]
  have "length (jobs xs) \<le> length xs" for xs :: "'a td_item list"
    by (induction xs) (auto simp: jobs_def split: td_item.splits)
  then have "length (jobs (items_at (pl_que s) (held (pl_workers s)))) \<le> length (held (pl_workers s))"
    by (metis items_at_def length_map)
  moreover have "length (held ws) \<le> length ws" for ws by (induction ws rule: held.induct) auto
  ultimately have "length (jobs (items_at (pl_que s) (held (pl_workers s)))) \<le> n" using i le_trans by blast
  moreover have "\<not> isl (do_work (pl_td s) w)" if w: "w \<in> set (pl_workers s)" for w
  proof -
    obtain us vs where "pl_workers s = us @ w # vs" using w by (auto simp: in_set_conv_decomp)
    then show ?thesis using do_work_inv [OF inv] by fastforce
  qed
  ultimately show ?thesis using i by blast
qed

text \<open>C27: shutting down ends, and loses no job submitted before it.  Once a quit item was pushed for every
  worker, no run of the workers is infinite, a worker can always take a turn until all are gone, so the
  join of \<^verbatim>\<open>Oe_Thread_Dispatcher_stop\<close> returns; and when it does, every job submitted before the first quit
  item has run.\<close>

theorem stop_finishes_earlier_jobs:
  assumes "pool_reachable (int n) s" and "0 < n" and "pl_quits s = n"
  shows "(\<exists>s'. work_step\<^sup>*\<^sup>* s s' \<and> all_exited s') \<and>
    (\<forall>s'. work_step\<^sup>*\<^sup>* s s' \<and> \<not> all_exited s' \<longrightarrow> (\<exists>s''. work_step s' s'')) \<and>
    \<not> (\<exists>f. f 0 = s \<and> (\<forall>i. work_step (f i) (f (Suc i)))) \<and>
    (all_exited s \<longrightarrow> mset (pl_before s) \<subseteq># mset (pl_ran s) \<and>
      stop_join (pl_td s) (pl_workers s) = Some ((pl_td s)\<lparr>td_running := False\<rparr>))"
proof -
  obtain ps where inv: "pool_inv n s ps" using reachable_inv [OF assms(1)] by blast
  have keeps: "\<exists>ps'. pool_inv n s' ps' \<and> pl_quits s' = n" if "work_step\<^sup>*\<^sup>* s s'" for s'
    using that
  proof (induction rule: rtranclp_induct)
    case base
    then show ?case using inv assms(3) by blast
  next
    case (step y z)
    then show ?case using work_step_decreases [OF step.hyps(2)] work_step_keeps [OF step.hyps(2)] by metis
  qed
  have "\<not> (\<forall>i. work_step (f i) (f (Suc i)))" if "f 0 = s" for f
  proof
    assume f: "\<forall>i. work_step (f i) (f (Suc i))"
    have "\<exists>ps'. pool_inv n (f i) ps' \<and> work_left ps' (f i) + i \<le> work_left ps s" for i
    proof (induction i)
      case (Suc i)
      then show ?case using work_step_decreases [OF f [rule_format, of i]] by fastforce
    qed (use inv that in auto)
    from this [of "Suc (work_left ps s)"] show False by auto
  qed
  moreover have "mset (pl_before s) \<subseteq># mset (pl_ran s)" if "all_exited s"
    using exited_done [OF inv that] assms(2) by (metis mset_append mset_subset_eq_add_left prefix_def)
  moreover have "\<exists>s''. work_step s' s''" if "work_step\<^sup>*\<^sup>* s s'" "\<not> all_exited s'" for s'
    using keeps [OF that(1)] no_turn that(2) by blast
  ultimately show ?thesis using shutdown_runs [OF inv assms(3)] by (auto simp: stop_join_def all_exited_def)
qed

section \<open>A pool of one worker\<close>

text \<open>A pool of one worker, a job pushed at address 5 and the quit item at address 6.\<close>

definition one_worker :: "string pool" where
  "one_worker =
     \<lparr>pl_td = \<lparr>td_que = que_new, td_que_running = 0, td_number_of_threads = 1, td_running = False\<rparr>,
      pl_workers = [Created], pl_quits = 0, pl_submitted = [], pl_popped = [], pl_ran = [], pl_before = []\<rparr>"

definition one_job :: "string pool" where
  "one_job = one_worker\<lparr>pl_workers := [Idle], pl_submitted := [''job''],
     pl_td := \<lparr>td_que = \<lparr>q_head = Some 5, q_tail = Some 5,
         q_mem = [5 \<mapsto> \<lparr>cell_item = TD_PROCESS ''job'', cell_next = None\<rparr>], q_size = 1, q_counter = 1\<rparr>,
       td_que_running = 1, td_number_of_threads = 1, td_running = True\<rparr>\<rparr>"

definition one_stopped :: "string pool" where
  "one_stopped = one_job\<lparr>pl_quits := 1, pl_before := [''job''],
     pl_td := \<lparr>td_que = \<lparr>q_head = Some 5, q_tail = Some 6,
         q_mem = [5 \<mapsto> \<lparr>cell_item = TD_PROCESS ''job'', cell_next = Some 6\<rparr>,
                  6 \<mapsto> \<lparr>cell_item = TD_TQUIT, cell_next = None\<rparr>], q_size = 2, q_counter = 2\<rparr>,
       td_que_running = 1, td_number_of_threads = 1, td_running = True\<rparr>\<rparr>"

lemma one_stopped_reachable: "pool_reachable 1 one_stopped"
proof -
  let ?td = "\<lparr>td_que = que_new, td_que_running = 1, td_number_of_threads = 1, td_running = False\<rparr>"
  let ?s1 = "one_worker\<lparr>pl_workers := [Idle], pl_td := ?td\<rparr>"
  let ?s2 = "?s1\<lparr>pl_td := start_done ?td\<rparr>"
  have "pool_start 1 = Inr one_worker"
    by (simp add: pool_start_def Oe_Thread_Dispatcher_new_def MAX_THREADS_def Oe_Thread_Dispatcher_start_def
        one_worker_def)
  moreover have "td_step one_worker ?s1"
    using work_step.work [of one_worker "[]" Created "[]"]
    by (intro td_step.worker) (simp add: one_worker_def do_work_def work_result_def newly_held_def)
  moreover have "td_step ?s1 ?s2"
    using td_step.started [of ?s1] by (simp add: start_ready_def start_done_def)
  moreover have "td_step ?s2 one_job"
    using td_step.submit [of ?s2 5 "''job''" "pl_td one_job"]
    by (simp add: one_job_def one_worker_def start_done_def free_at_def que_new_def que_push_def td_push_def
        Oe_Thread_Dispatcher_exec_def)
  moreover have "td_step one_job one_stopped"
    using td_step.quit [of one_job 6 "pl_td one_stopped"]
    by (simp add: one_stopped_def one_job_def one_worker_def free_at_def que_push_def td_push_def
        stop_push_def fun_upd_twist [of 6 5])
  ultimately show ?thesis unfolding pool_reachable_def
    by (meson converse_rtranclp_into_rtranclp rtranclp.rtrancl_refl)
qed

theorem jobs_run_once_in_order_witness:
  "pool_reachable (int 1) one_stopped \<and>
   (\<exists>queued waiting. pl_submitted one_stopped = pl_popped one_stopped @ queued \<and>
      mset (pl_popped one_stopped) = mset (pl_ran one_stopped) + mset waiting \<and> length waiting \<le> 1)"
  using jobs_run_once_in_order [of 1 one_stopped] one_stopped_reachable by auto

theorem stop_finishes_earlier_jobs_witness:
  "pool_reachable (int 1) one_stopped \<and> pl_before one_stopped = [''job''] \<and>
   (\<exists>s'. work_step\<^sup>*\<^sup>* one_stopped s' \<and> all_exited s')"
  using stop_finishes_earlier_jobs [of 1 one_stopped] one_stopped_reachable
  by (simp add: one_stopped_def)

end
