(* ===== verification/Kernel.thy ===== *)
theory Kernel
  imports Bdb_Calls Thread_Dispatcher
begin

text \<open>
  The kernel: \<^verbatim>\<open>corelib/OEK.c\<close>, \<^verbatim>\<open>corelib/OEK_impl.c\<close>, the five commands \<^verbatim>\<open>corelib/OEK_put.c\<close>, \<^verbatim>\<open>OEK_get.c\<close>,
  \<^verbatim>\<open>OEK_sta.c\<close>, \<^verbatim>\<open>OEK_upl.c\<close> and \<^verbatim>\<open>OEK_upt.c\<close>, and the store interface \<^verbatim>\<open>corelib/OeStore.c\<close> they work on.

  A command arrives as a context with a message.  It becomes a job of the database thread dispatcher;
  the job calls the store, again as long as the store reports a deadlock and at most
  \<^verbatim>\<open>OEK_MAX_DB_DEADLOCKS\<close> times, and hands the context with its answer to the response callback.  A get that
  found nothing and has time left is registered with the template matcher instead.

  What the kernel does to the outside is the list \<open>k_out\<close> of effects, oldest first.  The clock is an
  argument: \<open>at_store i\<close> is what the store reads in attempt \<open>i\<close>, \<open>at_first\<close> and \<open>at_second\<close> are the first and
  the second time the job reads it.
\<close>

section \<open>The store interface\<close>

text \<open>The table of functions a store is called through, with the state of the implementation.\<close>

record 's OeStore =
  store_impl :: 's
  vt_set_fire_write_event_cb :: "'s \<Rightarrow> bool \<Rightarrow> 's"
  vt_lease_reaper :: "oe_time \<Rightarrow> 's \<Rightarrow> (int \<times> 's) c_result"
  vt_create_id :: "'s \<Rightarrow> (oe_id \<times> 's) c_result"
  vt_put :: "OeStoreHolder \<Rightarrow> 's \<Rightarrow> (rc \<times> OeStoreHolder \<times> 's) c_result"
  vt_get :: "oe_time \<Rightarrow> OeStoreQuery \<Rightarrow> 's \<Rightarrow> (rc \<times> OeStoreQuery \<times> 's) c_result"
  vt_start_txn :: "oe_time \<Rightarrow> oe_dur \<Rightarrow> OESTORE_TXN \<Rightarrow> 's \<Rightarrow> (rc \<times> OESTORE_TXN \<times> 's) c_result"
  vt_update_txn :: "oe_time \<Rightarrow> oe_id \<Rightarrow> oe_dur \<Rightarrow> OESTORE_TXN_STATUS \<Rightarrow> int \<Rightarrow> 's \<Rightarrow> (rc \<times> 's) c_result"
  vt_update_lease :: "oe_time \<Rightarrow> oe_id \<Rightarrow> oe_time \<Rightarrow> 's \<Rightarrow> (rc \<times> 's) c_result"

definition OeStore_set_fire_write_event_cb :: "'s OeStore \<Rightarrow> bool \<Rightarrow> 's OeStore" where
  "OeStore_set_fire_write_event_cb S cb = S\<lparr>store_impl := vt_set_fire_write_event_cb S (store_impl S) cb\<rparr>"

definition OeStore_lease_reaper :: "oe_time \<Rightarrow> 's OeStore \<Rightarrow> (int \<times> 's OeStore) c_result" where
  "OeStore_lease_reaper now S =
     c_bind (vt_lease_reaper S now (store_impl S)) (\<lambda>(r, s). Inr (r, S\<lparr>store_impl := s\<rparr>))"

definition OeStore_create_id :: "'s OeStore \<Rightarrow> (oe_id \<times> 's OeStore) c_result" where
  "OeStore_create_id S = c_bind (vt_create_id S (store_impl S)) (\<lambda>(i, s). Inr (i, S\<lparr>store_impl := s\<rparr>))"

definition OeStore_put :: "OeStoreHolder \<Rightarrow> 's OeStore \<Rightarrow> (rc \<times> OeStoreHolder \<times> 's OeStore) c_result" where
  "OeStore_put holder S =
     c_bind (vt_put S holder (store_impl S)) (\<lambda>(r, h, s). Inr (r, h, S\<lparr>store_impl := s\<rparr>))"

definition OeStore_get ::
  "oe_time \<Rightarrow> OeStoreQuery \<Rightarrow> 's OeStore \<Rightarrow> (rc \<times> OeStoreQuery \<times> 's OeStore) c_result" where
  "OeStore_get now query S =
     c_bind (vt_get S now query (store_impl S)) (\<lambda>(r, q, s). Inr (r, q, S\<lparr>store_impl := s\<rparr>))"

definition OeStore_start_txn ::
  "oe_time \<Rightarrow> oe_dur \<Rightarrow> OESTORE_TXN \<Rightarrow> 's OeStore \<Rightarrow> (rc \<times> OESTORE_TXN \<times> 's OeStore) c_result" where
  "OeStore_start_txn now dur oetxn S =
     c_bind (vt_start_txn S now dur oetxn (store_impl S)) (\<lambda>(r, x, s). Inr (r, x, S\<lparr>store_impl := s\<rparr>))"

definition OeStore_update_txn ::
  "oe_time \<Rightarrow> oe_id \<Rightarrow> oe_dur \<Rightarrow> OESTORE_TXN_STATUS \<Rightarrow> int \<Rightarrow> 's OeStore \<Rightarrow> (rc \<times> 's OeStore) c_result" where
  "OeStore_update_txn now tid dur status enlisted S =
     c_bind (vt_update_txn S now tid dur status enlisted (store_impl S)) (\<lambda>(r, s). Inr (r, S\<lparr>store_impl := s\<rparr>))"

definition OeStore_update_lease ::
  "oe_time \<Rightarrow> oe_id \<Rightarrow> oe_time \<Rightarrow> 's OeStore \<Rightarrow> (rc \<times> 's OeStore) c_result" where
  "OeStore_update_lease now lid time S =
     c_bind (vt_update_lease S now lid time (store_impl S)) (\<lambda>(r, s). Inr (r, S\<lparr>store_impl := s\<rparr>))"

text \<open>The table of the Berkeley DB implementation.  \<open>n\<close> bounds its loops, \<open>uninit\<close> is the value of its
  uninitialised flag.\<close>

definition OeBdb_new :: "nat \<Rightarrow> bool \<Rightarrow> ('d, 'c) bdb \<Rightarrow> 'd OeBdb \<Rightarrow> 'd OeBdb OeStore" where
  "OeBdb_new n uninit B impl =
     \<lparr>store_impl = impl, vt_set_fire_write_event_cb = set_fire_write_event_cb,
      vt_lease_reaper = lease_reaper n uninit B, vt_create_id = create_id n B, vt_put = api_put n B,
      vt_get = api_get n B, vt_start_txn = start_txn n B, vt_update_txn = update_txn n B,
      vt_update_lease = update_lease B\<rparr>"

section \<open>Contexts and effects\<close>

text \<open>\<open>cx_kernel\<close>: whether the field \<^verbatim>\<open>kernel\<close> is set; \<open>cx_write_response_cb\<close>: whether there is a callback.\<close>

record OEK_Context =
  cx_start_time :: oe_time
  cx_expire_time :: oe_time
  cx_cmd_msg :: "OekMsg option"
  cx_write_response_cb :: bool
  cx_res_msgs :: "OekMsg Oec_AList option"
  cx_err_msg :: "OekMsg option"
  cx_kernel :: bool

definition OEK_Context_new :: OEK_Context where
  "OEK_Context_new =
     \<lparr>cx_start_time = 0, cx_expire_time = 0, cx_cmd_msg = None, cx_write_response_cb = False,
      cx_res_msgs = None, cx_err_msg = None, cx_kernel = False\<rparr>"

datatype kernel_job =
    Geth OEK_Context | Store_holder OEK_Context | Sta_async OEK_Context | Upl_async OEK_Context
  | Upt_async OEK_Context

text \<open>A registration with the template matcher: templates, duration, whether a match consumes it, and the
  context to try again with on a match and on a timeout.\<close>

record registration =
  rg_templates :: DataObjectList
  rg_dur :: oe_time
  rg_consume :: bool
  rg_context :: OEK_Context

text \<open>\<open>Timed_Reaper\<close> schedules \<^verbatim>\<open>_lease_reaper_cb\<close> with the template matcher's timer.\<close>

datatype effect = Respond OEK_Context | Drop OEK_Context | Reg_Group registration | Timed_Reaper oe_time

record 's kernel =
  k_store :: "'s OeStore"
  k_db_dispatcher :: "kernel_job Oe_Thread_Dispatcher"
  k_out :: "effect list"

record times =
  at_store :: "nat \<Rightarrow> oe_time"
  at_first :: oe_time
  at_second :: oe_time

definition emit :: "effect \<Rightarrow> 's kernel \<Rightarrow> 's kernel" where
  "emit e k = k\<lparr>k_out := k_out k @ [e]\<rparr>"

definition cmd_of :: "OEK_Context \<Rightarrow> OekMsg c_result" where
  "cmd_of context = (case cx_cmd_msg context of None \<Rightarrow> Inl Null_Deref | Some m \<Rightarrow> Inr m)"

text \<open>Without a callback the code looks up identifiers for its log and frees the context.\<close>

definition default_write_to_client :: "OEK_Context \<Rightarrow> 's kernel \<Rightarrow> 's kernel c_result" where
  "default_write_to_client context k =
     (if cx_write_response_cb context then Inr (emit (Respond context) k)
      else case (cx_err_msg context, cx_res_msgs context) of
             (None, Some l) \<Rightarrow> c_bind (Oec_AList_get l 0) (\<lambda>_. Inr (emit (Drop context) k))
           | _ \<Rightarrow> Inr (emit (Drop context) k))"

definition send_error :: "OEK_Context \<Rightarrow> oe_id \<Rightarrow> string \<Rightarrow> 's kernel \<Rightarrow> 's kernel c_result" where
  "send_error context errid errstring k =
     c_bind (OekMsg_new OEK_ERR) (\<lambda>res_msg.
     c_bind (OekMsg_get_err res_msg) (\<lambda>err.
       let m1 = (case cx_cmd_msg context of
                   None \<Rightarrow> res_msg
                 | Some cmd_msg \<Rightarrow> OekMsg_set_tid (OekMsg_set_cid res_msg (OekMsg_get_cid cmd_msg)) (OekMsg_get_tid cmd_msg));
           err' = OekErr_set_message (OekErr_set_type err errid) (Some errstring)
       in default_write_to_client (context\<lparr>cx_err_msg := Some (m1\<lparr>data := D_err err'\<rparr>)\<rparr>) k))"

text \<open>A response envelope with the identifiers of the command.\<close>

definition new_reply :: "OEK_MSG_TYPE \<Rightarrow> oe_id \<Rightarrow> oe_id \<Rightarrow> OekMsg c_result" where
  "new_reply t corid txnid = c_bind (OekMsg_new t) (\<lambda>m. Inr (OekMsg_set_tid (OekMsg_set_cid m corid) txnid))"

definition reply_with :: "OEK_Context \<Rightarrow> OekMsg list \<Rightarrow> 's kernel \<Rightarrow> 's kernel c_result" where
  "reply_with context ms k =
     default_write_to_client (context\<lparr>cx_res_msgs := Some (Oec_AList_list (map Some ms @ [None]))\<rparr>) k"

text \<open>The retry loops: call again as long as the store asks for it, at most \<open>n\<close> times; \<open>again\<close> is what
  happens to the argument between two attempts.\<close>

definition OEK_MAX_DB_DEADLOCKS :: nat where
  "OEK_MAX_DB_DEADLOCKS = 10000"

fun db_retry ::
  "nat \<Rightarrow> nat \<Rightarrow> (nat \<Rightarrow> 'q \<Rightarrow> 's \<Rightarrow> (rc \<times> 'q \<times> 's) c_result) \<Rightarrow> ('q \<Rightarrow> 'q) \<Rightarrow> 'q \<Rightarrow> 's \<Rightarrow>
   (rc \<times> 'q \<times> 's) c_result" where
  "db_retry 0 i call again q s = Inr (RC OE_STORE_PLEASE_RETRY, q, s)"
| "db_retry (Suc n) i call again q s =
     c_bind (call i q s) (\<lambda>(r, q', s').
       if r \<noteq> RC OE_STORE_PLEASE_RETRY then Inr (r, q', s') else db_retry n (Suc i) call again (again q') s')"

section \<open>Put\<close>

definition OEK_STR_CAN_NOT_STORE :: string where
  "OEK_STR_CAN_NOT_STORE = ''can not store data''"

text \<open>The record a put command stores: its data with the lease, owner and lock it gets.\<close>

definition put_record :: "oe_time \<Rightarrow> oe_id \<Rightarrow> PutCmd \<Rightarrow> OeStoreHolder" where
  "put_record now txnid cmd =
     (let values = fst (PutCmd_get_data cmd);
          holder = OeStoreHolder_set_txn_id (OeStoreHolder_new_with_data (Some values)) txnid;
          dur = PutCmd_get_dur cmd;
          exptime = (if dur = OEC_FOREVER then OEC_FOREVER else now + dur)
      in OeStoreHolder_set_tuple
           (OeStoreHolder_set_lock (OeStoreHolder_set_lease_expire_time holder exptime)
              (if txnid = 0 then OESTORE_UNLOCKED else OESTORE_WRITE_LOCK))
           (PutCmd_is_tuple cmd))"

definition sput :: "times \<Rightarrow> OEK_Context \<Rightarrow> 's kernel \<Rightarrow> 's kernel c_result" where
  "sput T context k =
     c_bind (cmd_of context) (\<lambda>msg.
     let corid = OekMsg_get_cid msg; txnid = OekMsg_get_tid msg in
     c_bind (OekMsg_get_put_cmd msg) (\<lambda>cmd.
     let holder = put_record (at_first T) txnid cmd;
         context1 = context\<lparr>cx_cmd_msg := Some (msg\<lparr>data := D_put_cmd (snd (PutCmd_get_data cmd))\<rparr>)\<rparr>
     in c_bind (db_retry OEK_MAX_DB_DEADLOCKS 0 (\<lambda>_. OeStore_put) id holder (k_store k)) (\<lambda>(ret, holder', S).
          let k1 = k\<lparr>k_store := S\<rparr> in
          if ret \<noteq> OK then send_error context1 104 OEK_STR_CAN_NOT_STORE k1
          else c_bind (new_reply PUT_RES corid txnid) (\<lambda>res_msg.
               c_bind (OekMsg_get_put_res res_msg) (\<lambda>res.
                 let res' = PutRes_set_lease_id res (OeStoreHolder_get_lease_id holder')
                 in reply_with context1 [res_msg\<lparr>data := D_put_res res'\<rparr>] k1)))))"

section \<open>Get\<close>

definition OEK_STR_GET_FAILED :: string where
  "OEK_STR_GET_FAILED = ''get failed''"

definition no_results :: "OEK_Context \<Rightarrow> 's kernel \<Rightarrow> 's kernel c_result" where
  "no_results context k =
     c_bind (cmd_of context) (\<lambda>msg.
     c_bind (new_reply GET_RES (OekMsg_get_cid msg) (OekMsg_get_tid msg)) (\<lambda>res_msg.
     c_bind (OekMsg_get_get_res res_msg) (\<lambda>res.
     c_bind (OekMsg_get_get_cmd msg) (\<lambda>cmd.
       let res' = (if GetCmd_remove cmd then GetRes_set_destroyed res else res)
       in reply_with context [res_msg\<lparr>data := D_get_res res'\<rparr>] k))))"

text \<open>The response for one record: its data, the number of records, and the options of the command.\<close>

definition result_res :: "GetCmd \<Rightarrow> nat \<Rightarrow> OeStoreHolder \<Rightarrow> GetRes \<Rightarrow> GetRes" where
  "result_res cmd result_count result res0 =
     (let res = GetRes_set_nresults (GetRes_set_data res0 (Some (fst (OeStoreHolder_get_data result))))
                  (word_of_nat result_count);
          res1 = (if GetCmd_is_tuple cmd then GetRes_set_tuple res else res);
          res2 = (if GetCmd_remove cmd then GetRes_set_destroyed res1 else res1);
          res3 = (if GetCmd_return_attrs cmd then GetRes_set_return_attrs res2 else res2)
      in if GetCmd_return_bytes cmd then GetRes_set_return_bytes res3 else res3)"

fun result_msgs ::
  "OekMsg \<Rightarrow> GetCmd \<Rightarrow> nat \<Rightarrow> OeStoreHolder list \<Rightarrow> OekMsg Oec_AList \<Rightarrow> OekMsg Oec_AList c_result" where
  "result_msgs msg cmd result_count [] res_msgs = Inr res_msgs"
| "result_msgs msg cmd result_count (result # results) res_msgs =
     c_bind (new_reply GET_RES (OekMsg_get_cid msg) (OekMsg_get_tid msg)) (\<lambda>res_msg.
     c_bind (OekMsg_get_get_res res_msg) (\<lambda>res.
       let m = res_msg\<lparr>data := D_get_res (result_res cmd result_count result res)\<rparr>
       in result_msgs msg cmd result_count results (Oec_AList_append res_msgs (Oec_AList_list [Some m, None]))))"

definition geth_handle_result :: "OEK_Context \<Rightarrow> OeStoreQuery \<Rightarrow> 's kernel \<Rightarrow> 's kernel c_result" where
  "geth_handle_result context query k =
     c_bind (cmd_of context) (\<lambda>msg. c_bind (OekMsg_get_get_cmd msg) (\<lambda>cmd.
       let result_count = OeStoreQuery_get_nitems_found query in
       if result_count = 0 then Inl Assert_Failed
       else c_bind (result_msgs msg cmd result_count (sq_results query) (Oec_AList_list [None])) (\<lambda>res_msgs.
              default_write_to_client (context\<lparr>cx_res_msgs := Some res_msgs\<rparr>) k)))"

text \<open>The clock is read twice: to see whether there is time left, and to see how much.\<close>

definition geth_handle_no_results ::
  "times \<Rightarrow> OEK_Context \<Rightarrow> OeStoreQuery \<Rightarrow> 's kernel \<Rightarrow> 's kernel c_result" where
  "geth_handle_no_results T context query k =
     c_bind (cmd_of context) (\<lambda>msg. c_bind (OekMsg_get_get_cmd msg) (\<lambda>cmd.
       let (keylists, cmd') = GetCmd_get_data_objects cmd;
           context1 = context\<lparr>cx_cmd_msg := Some (msg\<lparr>data := D_get_cmd cmd'\<rparr>)\<rparr>
       in if sint (cx_expire_time context) \<le> sint (at_first T) then no_results context1 k
          else if OeStoreQuery_is_ifexists query \<and> \<not> OeStoreQuery_exists query then no_results context1 k
          else let dur = cx_expire_time context - at_second T
               in Inr (emit (Reg_Group \<lparr>rg_templates = keylists, rg_dur = dur, rg_consume = GetCmd_remove cmd,
                                        rg_context = context1\<rparr>) k)))"

text \<open>The query of a get command.\<close>

definition get_query :: "oe_id \<Rightarrow> GetCmd \<Rightarrow> OeStoreQuery c_result" where
  "get_query txnid cmd =
     c_bind (OeStoreQuery_set_value_lists (OeStoreQuery_new (GetCmd_get_max_responses cmd))
               (Some (fst (GetCmd_get_data_objects cmd)))) (\<lambda>q1.
       Inr (OeStoreQuery_set_owner
              (OeStoreQuery_set_tuple
                 (OeStoreQuery_set_ifexists (OeStoreQuery_set_take q1 (GetCmd_remove cmd)) (GetCmd_ifexists cmd))
                 (GetCmd_is_tuple cmd)) txnid))"

definition geth :: "times \<Rightarrow> OEK_Context \<Rightarrow> 's kernel \<Rightarrow> 's kernel c_result" where
  "geth T context k =
     (if \<not> cx_kernel context then Inl Assert_Failed
      else c_bind (cmd_of context) (\<lambda>msg. c_bind (OekMsg_get_get_cmd msg) (\<lambda>cmd.
        let context1 = context\<lparr>cx_cmd_msg := Some (msg\<lparr>data := D_get_cmd (snd (GetCmd_get_data_objects cmd))\<rparr>)\<rparr> in
        c_bind (get_query (OekMsg_get_tid msg) cmd) (\<lambda>query.
        c_bind (db_retry OEK_MAX_DB_DEADLOCKS 0 (\<lambda>i. OeStore_get (at_store T i)) OeStoreQuery_reset_nitems_found
                  query (k_store k)) (\<lambda>(ret, query', S).
          let k1 = k\<lparr>k_store := S\<rparr> in
          if ret \<noteq> OK \<and> ret \<noteq> RC OE_STORE_ITEM_NOTFOUND then send_error context1 105 OEK_STR_GET_FAILED k1
          else if ret = RC OE_STORE_ITEM_NOTFOUND \<or> OeStoreQuery_get_nitems_found query' = 0
          then geth_handle_no_results T context1 query' k1
          else geth_handle_result context1 query' k1)))))"

section \<open>Transactions and leases\<close>

definition OEK_STR_CAN_NOT_STA :: string where
  "OEK_STR_CAN_NOT_STA = ''can not start transaction''"

text \<open>The transaction of \<^verbatim>\<open>_ssta\<close> is an uninitialised local variable, \<open>uninit\<close>, until the store fills it.\<close>

definition ssta :: "times \<Rightarrow> OESTORE_TXN \<Rightarrow> OEK_Context \<Rightarrow> 's kernel \<Rightarrow> 's kernel c_result" where
  "ssta T uninit context k =
     c_bind (cmd_of context) (\<lambda>msg. c_bind (OekMsg_get_sta_cmd msg) (\<lambda>cmd.
     c_bind (db_retry OEK_MAX_DB_DEADLOCKS 0 (\<lambda>i. OeStore_start_txn (at_store T i) (StaCmd_get_dur cmd)) id
               uninit (k_store k)) (\<lambda>(ret, oetxn, S).
       let k1 = k\<lparr>k_store := S\<rparr> in
       if ret \<noteq> OK then send_error context 109 OEK_STR_CAN_NOT_STA k1
       else c_bind (new_reply STA_RES (OekMsg_get_cid msg) (tx_tid oetxn)) (\<lambda>res_msg.
            c_bind (OekMsg_get_sta_res res_msg) (\<lambda>res. reply_with context [res_msg] k1)))))"

definition OEK_STR_LEASE_NOT_FOUND :: string where
  "OEK_STR_LEASE_NOT_FOUND = ''lease not found''"

definition OEK_STR_LEASE_UPDATE_FAILED :: string where
  "OEK_STR_LEASE_UPDATE_FAILED = ''lease update failed''"

definition supl :: "times \<Rightarrow> OEK_Context \<Rightarrow> 's kernel \<Rightarrow> 's kernel c_result" where
  "supl T context k =
     c_bind (cmd_of context) (\<lambda>msg. c_bind (OekMsg_get_upl_cmd msg) (\<lambda>cmd.
     let expire_time = at_first T + UplCmd_get_dur cmd; lease_id = UplCmd_get_lid cmd in
     c_bind (db_retry OEK_MAX_DB_DEADLOCKS 0
               (\<lambda>i _ S. c_bind (OeStore_update_lease (at_store T i) lease_id expire_time S) (\<lambda>(r, S'). Inr (r, (), S')))
               id () (k_store k)) (\<lambda>(ret, _, S).
       let k1 = k\<lparr>k_store := S\<rparr> in
       if ret = RC OE_STORE_ITEM_NOTFOUND then send_error context 108 OEK_STR_LEASE_NOT_FOUND k1
       else if ret \<noteq> OK then send_error context 111 OEK_STR_LEASE_UPDATE_FAILED k1
       else c_bind (new_reply UPL_RES (OekMsg_get_cid msg) (OekMsg_get_tid msg)) (\<lambda>res_msg.
            c_bind (OekMsg_get_upl_res res_msg) (\<lambda>res.
              reply_with context [res_msg\<lparr>data := D_upl_res (UplRes_set_expiretime res expire_time)\<rparr>] k1)))))"

definition get_txn_status :: "char \<Rightarrow> OESTORE_TXN_STATUS" where
  "get_txn_status statuschar =
     (if statuschar = CHR ''C'' then OESTORE_TXN_COMMITTED
      else if statuschar = CHR ''R'' then OESTORE_TXN_ROLLED_BACK else OESTORE_TXN_ACTIVE)"

text \<open>The error a failed update of a transaction is reported with.\<close>

definition upt_error :: "rc \<Rightarrow> oe_id \<times> string" where
  "upt_error ret =
     (if ret = RC OE_STORE_ITEM_NOTFOUND then (106, ''transaction not found'')
      else if ret = RC OESTORE_ENLISTED_COUNT_INCORRECT then (107, ''incorrect txn enlisted count'')
      else if ret = RC OESTORE_UPDATING_COMMITTED_TXN_ERR
      then (107, ''trying to update txn that was already committed'')
      else if ret = RC OESTORE_UPDATING_ROLLEDBACK_TXN_ERR
      then (107, ''trying to update txn that was already rolledback'')
      else if ret = RC OESTORE_UPDATING_EXPIRED_TXN_ERR
      then (107, ''trying to update txn that has an expired txn lease'')
      else (107, ''transaction update failed''))"

definition OEK_STR_NULL_TXNID :: string where
  "OEK_STR_NULL_TXNID = ''trying to update a null txn (txnid is 0)''"

definition supt :: "times \<Rightarrow> OEK_Context \<Rightarrow> 's kernel \<Rightarrow> 's kernel c_result" where
  "supt T context k =
     c_bind (cmd_of context) (\<lambda>msg.
     let txnid = OekMsg_get_tid msg in
     c_bind (OekMsg_get_upt_cmd msg) (\<lambda>cmd.
     let status = get_txn_status (UptCmd_get_status cmd); enlisted = sint (UptCmd_get_enlisted cmd) in
     if txnid = 0 then send_error context 116 OEK_STR_NULL_TXNID k
     else c_bind (db_retry OEK_MAX_DB_DEADLOCKS 0
               (\<lambda>i _ S. c_bind (OeStore_update_txn (at_store T i) txnid (UptCmd_get_dur cmd) status enlisted S)
                  (\<lambda>(r, S'). Inr (r, (), S')))
               id () (k_store k)) (\<lambda>(ret, _, S).
       let k1 = k\<lparr>k_store := S\<rparr> in
       if ret \<noteq> OK then send_error context (fst (upt_error ret)) (snd (upt_error ret)) k1
       else c_bind (new_reply UPT_RES (OekMsg_get_cid msg) txnid) (\<lambda>res_msg.
            c_bind (OekMsg_get_upt_res res_msg) (\<lambda>res.
              let res' = UptRes_set_status res
                    (if status = OESTORE_TXN_COMMITTED then OETXN_COMMITTED
                     else if status = OESTORE_TXN_ROLLED_BACK then OETXN_ROLLEDBACK else OETXN_ACTIVE)
              in reply_with context [res_msg\<lparr>data := D_upt_res res'\<rparr>] k1)))))"

section \<open>Jobs and commands\<close>

definition run_job :: "times \<Rightarrow> OESTORE_TXN \<Rightarrow> kernel_job \<Rightarrow> 's kernel \<Rightarrow> 's kernel c_result" where
  "run_job T uninit job k =
     (case job of
        Geth c \<Rightarrow> geth T c k
      | Store_holder c \<Rightarrow> sput T c k
      | Sta_async c \<Rightarrow> if cx_kernel c then ssta T uninit c k else Inl Assert_Failed
      | Upl_async c \<Rightarrow> supl T c k
      | Upt_async c \<Rightarrow> if cx_kernel c then supt T c k else Inl Assert_Failed)"

text \<open>Giving a job to the database threads (its queue cell allocated at \<open>p\<close>), or running it when there are
  none.\<close>

definition db_exec ::
  "times \<Rightarrow> OESTORE_TXN \<Rightarrow> nat \<Rightarrow> kernel_job \<Rightarrow> 's kernel \<Rightarrow> 's kernel c_result" where
  "db_exec T uninit p job k =
     c_bind (Oe_Thread_Dispatcher_exec (k_db_dispatcher k) p job) (\<lambda>(inline, td).
       let k1 = k\<lparr>k_db_dispatcher := td\<rparr>
       in case inline of [] \<Rightarrow> Inr k1 | j # _ \<Rightarrow> run_job T uninit j k1)"

definition oek_impl_put :: "times \<Rightarrow> OESTORE_TXN \<Rightarrow> nat \<Rightarrow> 's kernel \<Rightarrow> OEK_Context \<Rightarrow> 's kernel c_result" where
  "oek_impl_put T uninit p k context =
     (if \<not> cx_kernel context then Inl Assert_Failed else db_exec T uninit p (Store_holder context) k)"

definition oek_impl_get :: "times \<Rightarrow> OESTORE_TXN \<Rightarrow> nat \<Rightarrow> 's kernel \<Rightarrow> OEK_Context \<Rightarrow> 's kernel c_result" where
  "oek_impl_get T uninit p k context =
     (if \<not> cx_kernel context then Inl Assert_Failed else db_exec T uninit p (Geth context) k)"

definition oek_impl_sta :: "times \<Rightarrow> OESTORE_TXN \<Rightarrow> nat \<Rightarrow> 's kernel \<Rightarrow> OEK_Context \<Rightarrow> 's kernel c_result" where
  "oek_impl_sta T uninit p k context = db_exec T uninit p (Sta_async context) k"

definition oek_impl_upl :: "times \<Rightarrow> OESTORE_TXN \<Rightarrow> nat \<Rightarrow> 's kernel \<Rightarrow> OEK_Context \<Rightarrow> 's kernel c_result" where
  "oek_impl_upl T uninit p k context =
     (if \<not> cx_kernel context then Inl Assert_Failed else db_exec T uninit p (Upl_async context) k)"

definition oek_impl_upt :: "times \<Rightarrow> OESTORE_TXN \<Rightarrow> nat \<Rightarrow> 's kernel \<Rightarrow> OEK_Context \<Rightarrow> 's kernel c_result" where
  "oek_impl_upt T uninit p k context = db_exec T uninit p (Upt_async (context\<lparr>cx_kernel := True\<rparr>)) k"

text \<open>A match or a timeout of a registration tries the get again.\<close>

definition async_geth :: "times \<Rightarrow> OESTORE_TXN \<Rightarrow> nat \<Rightarrow> OEK_Context \<Rightarrow> 's kernel \<Rightarrow> 's kernel c_result" where
  "async_geth T uninit p context k = db_exec T uninit p (Geth context) k"

section \<open>The kernel object\<close>

text \<open>The table of functions a kernel is called through.  Stop and statistics are optional.\<close>

record 'k OEK =
  oek_client :: 'k
  oek_put :: "'k \<Rightarrow> OEK_Context \<Rightarrow> 'k c_result"
  oek_get :: "'k \<Rightarrow> OEK_Context \<Rightarrow> 'k c_result"
  oek_sta :: "'k \<Rightarrow> OEK_Context \<Rightarrow> 'k c_result"
  oek_upt :: "'k \<Rightarrow> OEK_Context \<Rightarrow> 'k c_result"
  oek_upl :: "'k \<Rightarrow> OEK_Context \<Rightarrow> 'k c_result"
  oek_stop :: "('k \<Rightarrow> 'k) option"

definition oek_call :: "('k \<Rightarrow> OEK_Context \<Rightarrow> 'k c_result) \<Rightarrow> 'k OEK \<Rightarrow> OEK_Context \<Rightarrow> 'k OEK c_result" where
  "oek_call f K context = c_bind (f (oek_client K) context) (\<lambda>k. Inr (K\<lparr>oek_client := k\<rparr>))"

definition OEK_put :: "'k OEK \<Rightarrow> OEK_Context \<Rightarrow> 'k OEK c_result" where
  "OEK_put K context = oek_call (oek_put K) K context"

definition OEK_get :: "'k OEK \<Rightarrow> OEK_Context \<Rightarrow> 'k OEK c_result" where
  "OEK_get K context = oek_call (oek_get K) K context"

definition OEK_sta :: "'k OEK \<Rightarrow> OEK_Context \<Rightarrow> 'k OEK c_result" where
  "OEK_sta K context = oek_call (oek_sta K) K context"

definition OEK_upt :: "'k OEK \<Rightarrow> OEK_Context \<Rightarrow> 'k OEK c_result" where
  "OEK_upt K context = oek_call (oek_upt K) K context"

definition OEK_upl :: "'k OEK \<Rightarrow> OEK_Context \<Rightarrow> 'k OEK c_result" where
  "OEK_upl K context = oek_call (oek_upl K) K context"

definition OEK_stop :: "'k OEK \<Rightarrow> 'k OEK" where
  "OEK_stop K = (case oek_stop K of None \<Rightarrow> K | Some f \<Rightarrow> K\<lparr>oek_client := f (oek_client K)\<rparr>)"

definition OEK_exec :: "'k OEK \<Rightarrow> OEK_Context \<Rightarrow> 'k OEK c_result" where
  "OEK_exec K context =
     c_bind (cmd_of context) (\<lambda>cmd_msg.
       case OekMsg_get_type cmd_msg of
         GET_CMD \<Rightarrow> OEK_get K context
       | PUT_CMD \<Rightarrow> OEK_put K context
       | STA_CMD \<Rightarrow> OEK_sta K context
       | UPT_CMD \<Rightarrow> OEK_upt K context
       | UPL_CMD \<Rightarrow> OEK_upl K context
       | _ \<Rightarrow> Inl Assert_Failed)"

text \<open>The kernel over a store: its table, a store that reports its writes, and the reaper scheduled.\<close>

definition OEK_default_factory_new ::
  "times \<Rightarrow> OESTORE_TXN \<Rightarrow> nat \<Rightarrow> kernel_job Oe_Thread_Dispatcher \<Rightarrow> 's OeStore \<Rightarrow> 's kernel OEK" where
  "OEK_default_factory_new T uninit p db_dispatcher store =
     \<lparr>oek_client = \<lparr>k_store = OeStore_set_fire_write_event_cb store True, k_db_dispatcher = db_dispatcher,
        k_out = [Timed_Reaper 30000]\<rparr>,
      oek_put = oek_impl_put T uninit p, oek_get = oek_impl_get T uninit p, oek_sta = oek_impl_sta T uninit p,
      oek_upt = oek_impl_upt T uninit p, oek_upl = oek_impl_upl T uninit p, oek_stop = None\<rparr>"

definition OEK_create_id :: "'s kernel \<Rightarrow> (oe_id \<times> 's kernel) c_result" where
  "OEK_create_id k = c_bind (OeStore_create_id (k_store k)) (\<lambda>(i, S). Inr (i, k\<lparr>k_store := S\<rparr>))"

text \<open>The reaper runs as long as it reports more to do (at most \<open>n\<close> times here); then it is scheduled
  again in thirty seconds.\<close>

fun lease_reaper_cb :: "nat \<Rightarrow> (nat \<Rightarrow> oe_time) \<Rightarrow> nat \<Rightarrow> 's kernel \<Rightarrow> 's kernel c_result" where
  "lease_reaper_cb 0 clk i k = Inl Fuel_Spent"
| "lease_reaper_cb (Suc n) clk i k =
     c_bind (OeStore_lease_reaper (clk i) (k_store k)) (\<lambda>(r, S).
       let k1 = k\<lparr>k_store := S\<rparr> in
       if 0 < r then lease_reaper_cb n clk (Suc i) k1 else Inr (emit (Timed_Reaper 30000) k1))"

text \<open>Which commands a template command stands for: those of its type, if it is a command.\<close>

definition OekMsgTemplateMatcher_match :: "OekMsg \<Rightarrow> OekMsg \<Rightarrow> bool" where
  "OekMsgTemplateMatcher_match msg mtemplate =
     (if OekMsg_get_type msg \<noteq> OekMsg_get_type mtemplate then False
      else OekMsg_get_type msg \<in> {CON_CMD, GET_CMD, PUT_CMD, STA_CMD, UPT_CMD, UPL_CMD, DIS_CMD})"

end
