(* ===== verification/Kernel_Props.thy ===== *)
theory Kernel_Props
  imports Kernel Bdb_Samples
begin

text \<open>
  What the kernel commands do: every command is answered once and with its identifiers, whatever the store
  does; and, for a store that keeps the contract \<open>tuple_store\<close>, what a put and a get do to the records.
  The Berkeley DB store keeps the contract under the laws of \<^verbatim>\<open>Bdb_Laws\<close>.
\<close>

section \<open>Answers\<close>

text \<open>How a context leaves the kernel.\<close>

definition deliver :: "OEK_Context \<Rightarrow> effect" where
  "deliver c = (if cx_write_response_cb c then Respond c else Drop c)"

definition error_msg :: "OekMsg \<Rightarrow> oe_id \<Rightarrow> string \<Rightarrow> OekMsg" where
  "error_msg msg code text =
     \<lparr>mtype = OEK_ERR, cor_id = cor_id msg, txn_id = txn_id msg, valid = True,
      data = D_err \<lparr>er_type = code, er_emessage = Some text\<rparr>\<rparr>"

definition reply_msg :: "OEK_MSG_TYPE \<Rightarrow> oe_id \<Rightarrow> oe_id \<Rightarrow> OekData \<Rightarrow> OekMsg" where
  "reply_msg t corid txnid d = \<lparr>mtype = t, cor_id = corid, txn_id = txnid, valid = True, data = d\<rparr>"

lemma reply_msg_sel [simp]:
  "mtype (reply_msg t c x d) = t" "cor_id (reply_msg t c x d) = c" "txn_id (reply_msg t c x d) = x"
  "data (reply_msg t c x d) = d" "(reply_msg t c x d)\<lparr>data := d'\<rparr> = reply_msg t c x d'"
  by (simp_all add: reply_msg_def)

lemma error_msg_sel [simp]:
  "mtype (error_msg m e s) = OEK_ERR" "cor_id (error_msg m e s) = cor_id m" "txn_id (error_msg m e s) = txn_id m"
  by (simp_all add: error_msg_def)

lemmas msg_defs = OekMsg_new_def OekMsg_settype_def OekMsg_set_cid_def OekMsg_set_tid_def OekMsg_get_cid_def
  OekMsg_get_tid_def

lemma new_reply_eval:
  "new_reply PUT_RES c x = Inr (reply_msg PUT_RES c x (D_put_res PutRes_new))"
  "new_reply GET_RES c x = Inr (reply_msg GET_RES c x (D_get_res GetRes_new))"
  "new_reply STA_RES c x = Inr (reply_msg STA_RES c x (D_sta_res StaRes_new))"
  "new_reply UPL_RES c x = Inr (reply_msg UPL_RES c x (D_upl_res UplRes_new))"
  "new_reply UPT_RES c x = Inr (reply_msg UPT_RES c x (D_upt_res UptRes_new))"
  by (simp_all add: new_reply_def msg_defs reply_msg_def)

lemma get_res_eval:
  "OekMsg_get_put_res (reply_msg PUT_RES c x (D_put_res a)) = Inr a"
  "OekMsg_get_get_res (reply_msg GET_RES c x (D_get_res b)) = Inr b"
  "OekMsg_get_sta_res (reply_msg STA_RES c x (D_sta_res d)) = Inr d"
  "OekMsg_get_upl_res (reply_msg UPL_RES c x (D_upl_res e)) = Inr e"
  "OekMsg_get_upt_res (reply_msg UPT_RES c x (D_upt_res f)) = Inr f"
  by (simp_all add: OekMsg_get_put_res_def OekMsg_get_get_res_def OekMsg_get_sta_res_def
      OekMsg_get_upl_res_def OekMsg_get_upt_res_def)

lemma send_error_eval:
  assumes "cx_cmd_msg c = Some msg"
  shows "send_error c code text k = Inr (emit (deliver (c\<lparr>cx_err_msg := Some (error_msg msg code text)\<rparr>)) k)"
  using assms
  by (simp add: send_error_def msg_defs OekMsg_get_err_def default_write_to_client_def deliver_def error_msg_def
      OekErr_set_message_def OekErr_set_type_def OekErr_new_def)

lemma Oec_AList_list_Some [simp]: "Oec_AList_list (map Some ms @ [None]) = ms"
  by (induction ms) simp_all

lemma default_write_res:
  assumes "cx_res_msgs c = Some ms"
  shows "default_write_to_client c k = Inr (emit (deliver c) k)"
  using assms
  by (cases ms; auto simp: default_write_to_client_def deliver_def Oec_AList_get_def array_read_def
      Oec_AList_toArray_def split: option.splits)

lemma reply_with_eval: "reply_with c ms k = Inr (emit (deliver (c\<lparr>cx_res_msgs := Some ms\<rparr>)) k)"
  by (simp add: reply_with_def default_write_res)

lemma result_msgs_eval:
  "result_msgs msg cmd n hs acc = Inr (acc @ map (\<lambda>h. reply_msg GET_RES (cor_id msg) (txn_id msg)
     (D_get_res (result_res cmd n h GetRes_new))) hs)"
proof (induction hs arbitrary: acc)
  case (Cons h hs)
  have app: "Oec_AList_append xs ys = xs @ ys" for xs ys :: "OekMsg list" by (induction xs) auto
  show ?case by (simp add: new_reply_eval get_res_eval Cons.IH app OekMsg_get_cid_def OekMsg_get_tid_def)
qed simp

lemma emit_sel [simp]: "k_out (emit e k) = k_out k @ [e]" "k_store (emit e k) = k_store k"
  "k_db_dispatcher (emit e k) = k_db_dispatcher k"
  by (simp_all add: emit_def)

lemmas answer_evals = send_error_eval reply_with_eval new_reply_eval get_res_eval

section \<open>The commands, by what the store answered\<close>

lemma sput_run:
  assumes "cx_cmd_msg c = Some msg" "OekMsg_get_put_cmd msg = Inr cmd"
    "db_retry OEK_MAX_DB_DEADLOCKS 0 (\<lambda>_. OeStore_put) id (put_record (at_first T) (txn_id msg) cmd) (k_store k) =
      Inr (r, h, S)"
    "c1 = c\<lparr>cx_cmd_msg := Some (msg\<lparr>data := D_put_cmd (snd (PutCmd_get_data cmd))\<rparr>)\<rparr>"
  shows "sput T c k = Inr (emit (deliver (if r = OK
      then c1\<lparr>cx_res_msgs := Some [reply_msg PUT_RES (cor_id msg) (txn_id msg) (D_put_res \<lparr>pr_lease_id = sh_lease_id h\<rparr>)]\<rparr>
      else c1\<lparr>cx_err_msg := Some (error_msg msg 104 OEK_STR_CAN_NOT_STORE)\<rparr>)) (k\<lparr>k_store := S\<rparr>))"
  using assms
  by (simp add: sput_def cmd_of_def OekMsg_get_tid_def OekMsg_get_cid_def answer_evals PutRes_set_lease_id_def
      PutRes_new_def OeStoreHolder_get_lease_id_def error_msg_def)

lemma ssta_run:
  assumes "cx_cmd_msg c = Some msg" "OekMsg_get_sta_cmd msg = Inr cmd"
    "db_retry OEK_MAX_DB_DEADLOCKS 0 (\<lambda>i. OeStore_start_txn (at_store T i) (StaCmd_get_dur cmd)) id u (k_store k) =
      Inr (r, x, S)"
  shows "ssta T u c k = Inr (emit (deliver (if r = OK
      then c\<lparr>cx_res_msgs := Some [reply_msg STA_RES (cor_id msg) (tx_tid x) (D_sta_res StaRes_new)]\<rparr>
      else c\<lparr>cx_err_msg := Some (error_msg msg 109 OEK_STR_CAN_NOT_STA)\<rparr>)) (k\<lparr>k_store := S\<rparr>))"
  using assms by (simp add: ssta_def cmd_of_def OekMsg_get_cid_def answer_evals)

lemma supl_run:
  assumes "cx_cmd_msg c = Some msg" "OekMsg_get_upl_cmd msg = Inr cmd" "e = at_first T + UplCmd_get_dur cmd"
    "db_retry OEK_MAX_DB_DEADLOCKS 0
      (\<lambda>i _ S. c_bind (OeStore_update_lease (at_store T i) (UplCmd_get_lid cmd) e S) (\<lambda>(r, S'). Inr (r, (), S')))
      id () (k_store k) = Inr (r, u, S)"
  shows "supl T c k = Inr (emit (deliver (
      if r = OK then c\<lparr>cx_res_msgs := Some [reply_msg UPL_RES (cor_id msg) (txn_id msg) (D_upl_res \<lparr>lr_expiretime = e\<rparr>)]\<rparr>
      else if r = RC OE_STORE_ITEM_NOTFOUND
      then c\<lparr>cx_err_msg := Some (error_msg msg 108 OEK_STR_LEASE_NOT_FOUND)\<rparr>
      else c\<lparr>cx_err_msg := Some (error_msg msg 111 OEK_STR_LEASE_UPDATE_FAILED)\<rparr>)) (k\<lparr>k_store := S\<rparr>))"
  using assms
  by (simp add: supl_def cmd_of_def OekMsg_get_cid_def OekMsg_get_tid_def answer_evals UplRes_new_def
      UplRes_set_expiretime_def OE_STORE_ITEM_NOTFOUND_def)

definition status_char :: "OESTORE_TXN_STATUS \<Rightarrow> char" where
  "status_char s = (if s = OESTORE_TXN_COMMITTED then OETXN_COMMITTED
     else if s = OESTORE_TXN_ROLLED_BACK then OETXN_ROLLEDBACK else OETXN_ACTIVE)"

lemma supt_run:
  assumes "cx_cmd_msg c = Some msg" "OekMsg_get_upt_cmd msg = Inr cmd" "txn_id msg \<noteq> 0"
    "s = get_txn_status (UptCmd_get_status cmd)"
    "db_retry OEK_MAX_DB_DEADLOCKS 0
      (\<lambda>i _ S. c_bind (OeStore_update_txn (at_store T i) (txn_id msg) (UptCmd_get_dur cmd) s
         (sint (UptCmd_get_enlisted cmd)) S) (\<lambda>(r, S'). Inr (r, (), S'))) id () (k_store k) = Inr (r, u, S)"
  shows "supt T c k = Inr (emit (deliver (
      if r = OK then c\<lparr>cx_res_msgs := Some [reply_msg UPT_RES (cor_id msg) (txn_id msg) (D_upt_res \<lparr>ur_status = status_char s\<rparr>)]\<rparr>
      else c\<lparr>cx_err_msg := Some (error_msg msg (fst (upt_error r)) (snd (upt_error r)))\<rparr>)) (k\<lparr>k_store := S\<rparr>))"
  using assms
  by (simp add: supt_def cmd_of_def OekMsg_get_cid_def OekMsg_get_tid_def answer_evals UptRes_new_def
      UptRes_set_status_def status_char_def)

lemma supt_null:
  assumes "cx_cmd_msg c = Some msg" "OekMsg_get_upt_cmd msg = Inr cmd" "txn_id msg = 0"
  shows "supt T c k = Inr (emit (deliver (c\<lparr>cx_err_msg := Some (error_msg msg 116 OEK_STR_NULL_TXNID)\<rparr>)) k)"
  using assms by (simp add: supt_def cmd_of_def OekMsg_get_tid_def answer_evals)

text \<open>A get: the query it makes, and its four outcomes.\<close>

definition query_of :: "oe_id \<Rightarrow> GetCmd \<Rightarrow> OeStoreQuery" where
  "query_of txnid cmd = (case get_query txnid cmd of Inr q \<Rightarrow> q | Inl _ \<Rightarrow> OeStoreQuery_new 0)"

lemma get_query_eval: "get_query txnid cmd = Inr (query_of txnid cmd)"
  by (simp add: query_of_def get_query_def OeStoreQuery_set_value_lists_def OeStoreQuery_new_def)

lemma query_of_sel:
  "sq_results (query_of x cmd) = []" "sq_value_lists (query_of x cmd) = Some (fst (get_value_lists cmd))"
  "OeStoreQuery_is_take (query_of x cmd) = GetCmd_remove cmd" "sq_exists (query_of x cmd) = False"
  "OeStoreQuery_get_owner_id (query_of x cmd) = x"
  by (simp_all add: query_of_def get_query_def OeStoreQuery_set_value_lists_def OeStoreQuery_new_def
      OeStoreQuery_set_owner_def OeStoreQuery_set_tuple_def OeStoreQuery_set_ifexists_def OeStoreQuery_set_take_def
      OeStoreQuery_is_take_def OeStoreQuery_get_owner_id_def GetCmd_get_data_objects_def)

definition empty_res :: "GetCmd \<Rightarrow> GetRes" where
  "empty_res cmd = (if GetCmd_remove cmd then GetRes_set_destroyed GetRes_new else GetRes_new)"

text \<open>The command of a get after its list of templates was made.\<close>

definition listed :: "GetCmd \<Rightarrow> GetCmd" where
  "listed cmd = snd (get_value_lists cmd)"

lemma listed_simps [simp]:
  "get_value_lists (listed cmd) = (fst (get_value_lists cmd), listed cmd)" "GetCmd_remove (listed cmd) = GetCmd_remove cmd"
  by (auto simp: listed_def get_value_lists_def GetCmd_remove_def split: option.splits)

definition geth_answer ::
  "times \<Rightarrow> OEK_Context \<Rightarrow> OekMsg \<Rightarrow> GetCmd \<Rightarrow> rc \<Rightarrow> OeStoreQuery \<Rightarrow> effect" where
  "geth_answer T c1 msg cmd r q =
     (if r \<noteq> OK \<and> r \<noteq> RC OE_STORE_ITEM_NOTFOUND
      then deliver (c1\<lparr>cx_err_msg := Some (error_msg msg 105 OEK_STR_GET_FAILED)\<rparr>)
      else if r = OK \<and> sq_results q \<noteq> []
      then deliver (c1\<lparr>cx_res_msgs := Some (map (\<lambda>h. reply_msg GET_RES (cor_id msg) (txn_id msg)
             (D_get_res (result_res (listed cmd) (length (sq_results q)) h GetRes_new))) (sq_results q))\<rparr>)
      else if sint (cx_expire_time c1) \<le> sint (at_first T) \<or> OeStoreQuery_is_ifexists q \<and> \<not> OeStoreQuery_exists q
      then deliver (c1\<lparr>cx_res_msgs := Some [reply_msg GET_RES (cor_id msg) (txn_id msg) (D_get_res (empty_res cmd))]\<rparr>)
      else Reg_Group \<lparr>rg_templates = fst (get_value_lists cmd), rg_dur = cx_expire_time c1 - at_second T,
             rg_consume = GetCmd_remove cmd, rg_context = c1\<rparr>)"

lemma geth_run:
  assumes c: "cx_cmd_msg c = Some msg" "cx_kernel c" and m: "mtype msg = GET_CMD" "data msg = D_get_cmd cmd"
    and db: "db_retry OEK_MAX_DB_DEADLOCKS 0 (\<lambda>i. OeStore_get (at_store T i)) OeStoreQuery_reset_nitems_found
      (query_of (txn_id msg) cmd) (k_store k) = Inr (r, q, S)"
    and c1: "c1 = c\<lparr>cx_cmd_msg := Some (msg\<lparr>data := D_get_cmd (listed cmd)\<rparr>)\<rparr>"
  shows "geth T c k = Inr (emit (geth_answer T c1 msg cmd r q) (k\<lparr>k_store := S\<rparr>))"
proof -
  let ?m1 = "msg\<lparr>data := D_get_cmd (listed cmd)\<rparr>"
  have g: "OekMsg_get_get_cmd msg = Inr cmd" "OekMsg_get_get_cmd ?m1 = Inr (listed cmd)"
    using m by (simp_all add: OekMsg_get_get_cmd_def)
  note ev = cmd_of_def g OekMsg_get_cid_def OekMsg_get_tid_def get_query_eval GetCmd_get_data_objects_def listed_def [symmetric]
  have start: "geth T c k =
      (if r \<noteq> OK \<and> r \<noteq> RC OE_STORE_ITEM_NOTFOUND then send_error c1 105 OEK_STR_GET_FAILED (k\<lparr>k_store := S\<rparr>)
       else if r = RC OE_STORE_ITEM_NOTFOUND \<or> OeStoreQuery_get_nitems_found q = 0
       then geth_handle_no_results T c1 q (k\<lparr>k_store := S\<rparr>) else geth_handle_result c1 q (k\<lparr>k_store := S\<rparr>))"
    using c db c1 by (simp add: geth_def ev)
  have cm: "cx_cmd_msg c1 = Some ?m1" and err: "error_msg ?m1 = error_msg msg"
    using c1 by (simp_all add: error_msg_def fun_eq_iff)
  have none: "geth_handle_no_results T c1 q k1 = Inr (emit (
      if sint (cx_expire_time c1) \<le> sint (at_first T) \<or> OeStoreQuery_is_ifexists q \<and> \<not> OeStoreQuery_exists q
      then deliver (c1\<lparr>cx_res_msgs := Some [reply_msg GET_RES (cor_id msg) (txn_id msg) (D_get_res (empty_res cmd))]\<rparr>)
      else Reg_Group \<lparr>rg_templates = fst (get_value_lists cmd), rg_dur = cx_expire_time c1 - at_second T,
             rg_consume = GetCmd_remove cmd, rg_context = c1\<rparr>) k1)" for k1 :: "'a kernel"
    using cm c1 by (simp add: geth_handle_no_results_def no_results_def ev empty_res_def answer_evals Let_def)
  have some: "geth_handle_result c1 q k1 = Inr (emit (deliver (c1\<lparr>cx_res_msgs := Some (map (\<lambda>h.
      reply_msg GET_RES (cor_id msg) (txn_id msg) (D_get_res (result_res (listed cmd) (length (sq_results q)) h GetRes_new)))
      (sq_results q))\<rparr>)) k1)" if "sq_results q \<noteq> []" for k1 :: "'a kernel"
    using cm c1 that by (simp add: geth_handle_result_def ev OeStoreQuery_get_nitems_found_def result_msgs_eval
        default_write_res)
  show ?thesis unfolding start geth_answer_def
    using none some cm err by (simp add: OeStoreQuery_get_nitems_found_def send_error_eval OE_STORE_ITEM_NOTFOUND_def)
qed

section \<open>One answer for every command\<close>

fun response_type :: "OEK_MSG_TYPE \<Rightarrow> OEK_MSG_TYPE" where
  "response_type GET_CMD = GET_RES"
| "response_type PUT_CMD = PUT_RES"
| "response_type STA_CMD = STA_RES"
| "response_type UPT_CMD = UPT_RES"
| "response_type UPL_CMD = UPL_RES"
| "response_type _ = OEK_NON"

text \<open>A context that carries an answer to \<open>msg\<close>: an error with its identifiers, or responses of its type with
  its identifiers (a new transaction has its own).\<close>

definition outcome :: "OekMsg \<Rightarrow> OEK_Context \<Rightarrow> bool" where
  "outcome msg c' =
     ((\<exists>m. cx_err_msg c' = Some m \<and> cx_res_msgs c' = None \<and> mtype m = OEK_ERR \<and> cor_id m = cor_id msg \<and>
         txn_id m = txn_id msg) \<or>
      (\<exists>ms. cx_err_msg c' = None \<and> cx_res_msgs c' = Some ms \<and> ms \<noteq> [] \<and>
         (\<forall>m \<in> set ms. mtype m = response_type (mtype msg) \<and> cor_id m = cor_id msg \<and>
            (mtype msg = STA_CMD \<or> txn_id m = txn_id msg))))"

text \<open>The answer to the command \<open>msg\<close> of the context \<open>c\<close>, or a registration to wait with, which only a get that
  has time left makes.\<close>

fun answer :: "times \<Rightarrow> OEK_Context \<Rightarrow> OekMsg \<Rightarrow> effect \<Rightarrow> bool" where
  "answer T c msg (Respond c') = (cx_write_response_cb c \<and> outcome msg c')"
| "answer T c msg (Drop c') = (\<not> cx_write_response_cb c \<and> outcome msg c')"
| "answer T c msg (Reg_Group g) =
     (mtype msg = GET_CMD \<and> sint (at_first T) < sint (cx_expire_time c) \<and>
      rg_dur g = cx_expire_time c - at_second T \<and>
      (\<exists>cmd. rg_context g = c\<lparr>cx_cmd_msg := Some (msg\<lparr>data := D_get_cmd cmd\<rparr>)\<rparr>))"
| "answer T c msg (Timed_Reaper d) = False"

fun job_context :: "kernel_job \<Rightarrow> OEK_Context" where
  "job_context (Geth c) = c"
| "job_context (Store_holder c) = c"
| "job_context (Sta_async c) = c"
| "job_context (Upl_async c) = c"
| "job_context (Upt_async c) = c"

definition fresh_context :: "OEK_Context \<Rightarrow> OekMsg \<Rightarrow> bool" where
  "fresh_context c msg = (cx_cmd_msg c = Some msg \<and> cx_res_msgs c = None \<and> cx_err_msg c = None)"

lemma answer_deliver:
  assumes "outcome msg c'" "cx_write_response_cb c' = cx_write_response_cb c"
  shows "answer T c msg (deliver c')"
  using assms by (simp add: deliver_def)

lemma geth_answer_ok:
  assumes "mtype msg = GET_CMD" "cx_res_msgs c = None" "cx_err_msg c = None"
    "c1 = c\<lparr>cx_cmd_msg := Some (msg\<lparr>data := D_get_cmd cmd'\<rparr>)\<rparr>"
  shows "answer T c msg (geth_answer T c1 msg cmd r q)"
  using assms by (auto simp: geth_answer_def not_le outcome_def intro!: answer_deliver)

lemma answered_by:
  assumes "R = Inr k'" "R = Inr (emit (deliver c') (k\<lparr>k_store := S\<rparr>))" "outcome msg c'"
    "cx_write_response_cb c' = cx_write_response_cb c"
  shows "\<exists>e S. k' = emit e (k\<lparr>k_store := S\<rparr>) \<and> answer T c msg e"
  using assms answer_deliver [OF assms(3,4)] by auto

text \<open>A command accessor that returns: the message has the type and the member.\<close>

lemma cmd_accessors:
  "OekMsg_get_put_cmd m = Inr a \<Longrightarrow> mtype m = PUT_CMD" "OekMsg_get_sta_cmd m = Inr b \<Longrightarrow> mtype m = STA_CMD"
  "OekMsg_get_upl_cmd m = Inr c \<Longrightarrow> mtype m = UPL_CMD" "OekMsg_get_upt_cmd m = Inr d \<Longrightarrow> mtype m = UPT_CMD"
  "OekMsg_get_get_cmd m = Inr e \<Longrightarrow> mtype m = GET_CMD \<and> data m = D_get_cmd e"
  by (auto simp: OekMsg_get_put_cmd_def OekMsg_get_sta_cmd_def OekMsg_get_upl_cmd_def OekMsg_get_upt_cmd_def
      OekMsg_get_get_cmd_def split: if_splits OekData.splits)

lemma run_job_answers:
  assumes run: "run_job T u job k = Inr k'" and c: "fresh_context (job_context job) msg"
  shows "\<exists>e S. k' = emit e (k\<lparr>k_store := S\<rparr>) \<and> answer T (job_context job) msg e"
proof (cases job)
  case (Geth c)
  have c': "cx_cmd_msg c = Some msg" "cx_res_msgs c = None" "cx_err_msg c = None"
    using assms(2) Geth by (simp_all add: fresh_context_def)
  have kn: "cx_kernel c" and "geth T c k = Inr k'" using run Geth by (auto simp: run_job_def geth_def split: if_splits)
  then obtain cmd r q S where cmd: "OekMsg_get_get_cmd msg = Inr cmd"
    and db: "db_retry OEK_MAX_DB_DEADLOCKS 0 (\<lambda>i. OeStore_get (at_store T i)) OeStoreQuery_reset_nitems_found
      (query_of (txn_id msg) cmd) (k_store k) = Inr (r, q, S)"
    using c' by (auto simp: geth_def cmd_of_def c_bind_Inr get_query_eval OekMsg_get_tid_def Let_def)
  have m: "mtype msg = GET_CMD" "data msg = D_get_cmd cmd" using cmd_accessors(5) [OF cmd] by simp_all
  show ?thesis using run Geth geth_run [OF c'(1) kn m db refl] geth_answer_ok [OF m(1) c'(2,3) refl]
    by (auto simp: run_job_def)
next
  case (Store_holder c)
  have c': "cx_cmd_msg c = Some msg" "cx_res_msgs c = None" "cx_err_msg c = None"
    using assms(2) Store_holder by (simp_all add: fresh_context_def)
  have "sput T c k = Inr k'" using run Store_holder by (simp add: run_job_def)
  then obtain cmd r h S where cmd: "OekMsg_get_put_cmd msg = Inr cmd"
    and db: "db_retry OEK_MAX_DB_DEADLOCKS 0 (\<lambda>_. OeStore_put) id (put_record (at_first T) (txn_id msg) cmd) (k_store k) =
      Inr (r, h, S)"
    using c' by (auto simp: sput_def cmd_of_def c_bind_Inr OekMsg_get_tid_def Let_def)
  show ?thesis unfolding Store_holder job_context.simps
    by (rule answered_by [OF \<open>sput T c k = Inr k'\<close> sput_run [OF c'(1) cmd db refl]])
      (use cmd_accessors(1) [OF cmd] c' in \<open>simp_all add: outcome_def\<close>)
next
  case (Sta_async c)
  have c': "cx_cmd_msg c = Some msg" "cx_res_msgs c = None" "cx_err_msg c = None"
    using assms(2) Sta_async by (simp_all add: fresh_context_def)
  have "ssta T u c k = Inr k'" using run Sta_async by (simp add: run_job_def split: if_splits)
  then obtain cmd r x S where cmd: "OekMsg_get_sta_cmd msg = Inr cmd"
    and db: "db_retry OEK_MAX_DB_DEADLOCKS 0 (\<lambda>i. OeStore_start_txn (at_store T i) (StaCmd_get_dur cmd)) id u (k_store k) =
      Inr (r, x, S)"
    using c' by (auto simp: ssta_def cmd_of_def c_bind_Inr Let_def)
  show ?thesis unfolding Sta_async job_context.simps
    by (rule answered_by [OF \<open>ssta T u c k = Inr k'\<close> ssta_run [OF c'(1) cmd db]])
      (use cmd_accessors(2) [OF cmd] c' in \<open>simp_all add: outcome_def\<close>)
next
  case (Upl_async c)
  have c': "cx_cmd_msg c = Some msg" "cx_res_msgs c = None" "cx_err_msg c = None"
    using assms(2) Upl_async by (simp_all add: fresh_context_def)
  have "supl T c k = Inr k'" using run Upl_async by (simp add: run_job_def)
  then obtain cmd r w S where cmd: "OekMsg_get_upl_cmd msg = Inr cmd"
    and db: "db_retry OEK_MAX_DB_DEADLOCKS 0 (\<lambda>i _ S. c_bind (OeStore_update_lease (at_store T i) (UplCmd_get_lid cmd)
      (at_first T + UplCmd_get_dur cmd) S) (\<lambda>(r, S'). Inr (r, (), S'))) id () (k_store k) = Inr (r, w, S)"
    using c' by (auto simp: supl_def cmd_of_def c_bind_Inr Let_def)
  show ?thesis unfolding Upl_async job_context.simps
    by (rule answered_by [OF \<open>supl T c k = Inr k'\<close> supl_run [OF c'(1) cmd refl db]])
      (use cmd_accessors(3) [OF cmd] c' in \<open>simp_all add: outcome_def\<close>)
next
  case (Upt_async c)
  have c': "cx_cmd_msg c = Some msg" "cx_res_msgs c = None" "cx_err_msg c = None"
    using assms(2) Upt_async by (simp_all add: fresh_context_def)
  have sup: "supt T c k = Inr k'" using run Upt_async by (simp add: run_job_def split: if_splits)
  then obtain cmd where cmd: "OekMsg_get_upt_cmd msg = Inr cmd" using c' by (auto simp: supt_def cmd_of_def c_bind_Inr Let_def)
  show ?thesis
  proof (cases "txn_id msg = 0")
    case True
    have "supt T c k = Inr (emit (deliver (c\<lparr>cx_err_msg := Some (error_msg msg 116 OEK_STR_NULL_TXNID)\<rparr>)) (k\<lparr>k_store := k_store k\<rparr>))"
      using supt_null [OF c'(1) cmd True] by simp
    then show ?thesis unfolding Upt_async job_context.simps
      by (rule answered_by [OF sup]) (use c' in \<open>simp_all add: outcome_def\<close>)
  next
    case False
    then obtain r w S where db: "db_retry OEK_MAX_DB_DEADLOCKS 0 (\<lambda>i _ S. c_bind (OeStore_update_txn (at_store T i)
        (txn_id msg) (UptCmd_get_dur cmd) (get_txn_status (UptCmd_get_status cmd)) (sint (UptCmd_get_enlisted cmd)) S)
        (\<lambda>(r, S'). Inr (r, (), S'))) id () (k_store k) = Inr (r, w, S)"
      using sup c' cmd by (auto simp: supt_def cmd_of_def c_bind_Inr OekMsg_get_tid_def Let_def)
    show ?thesis unfolding Upt_async job_context.simps
      by (rule answered_by [OF sup supt_run [OF c'(1) cmd False refl db]])
        (use cmd_accessors(4) [OF cmd] c' in \<open>simp_all add: outcome_def\<close>)
  qed
qed

text \<open>Which job a command becomes.\<close>

fun job_for :: "OEK_MSG_TYPE \<Rightarrow> OEK_Context \<Rightarrow> kernel_job option" where
  "job_for GET_CMD c = Some (Geth c)"
| "job_for PUT_CMD c = Some (Store_holder c)"
| "job_for STA_CMD c = Some (Sta_async c)"
| "job_for UPL_CMD c = Some (Upl_async c)"
| "job_for UPT_CMD c = Some (Upt_async (c\<lparr>cx_kernel := True\<rparr>))"
| "job_for _ c = None"

abbreviation kernel_of ::
  "times \<Rightarrow> OESTORE_TXN \<Rightarrow> nat \<Rightarrow> 's kernel \<Rightarrow> 's kernel OEK" where
  "kernel_of T u p k \<equiv> (OEK_default_factory_new T u p (k_db_dispatcher k) (k_store k))\<lparr>oek_client := k\<rparr>"

lemma OEK_exec_run:
  assumes "OEK_exec (kernel_of T u p k) c = Inr K'" "cx_cmd_msg c = Some msg"
  obtains job k' where "job_for (mtype msg) c = Some job" "db_exec T u p job k = Inr k'" "oek_client K' = k'"
  using assms
  by (cases "mtype msg") (auto simp: OEK_exec_def cmd_of_def OekMsg_get_type_def OEK_get_def OEK_put_def OEK_sta_def
      OEK_upt_def OEK_upl_def oek_call_def OEK_default_factory_new_def oek_impl_put_def oek_impl_get_def
      oek_impl_sta_def oek_impl_upl_def oek_impl_upt_def c_bind_Inr split: if_splits)

lemma job_for_context:
  assumes "job_for t c = Some job"
  shows "\<exists>b. job_context job = c\<lparr>cx_kernel := b\<rparr>"
  using assms by (cases t) (auto intro: exI [of _ "cx_kernel c"])

lemma job_for_answer:
  assumes "job_for (mtype msg) c = Some job" "answer T (job_context job) msg e"
  shows "answer T c msg e"
  using assms by (cases "mtype msg"; cases e) auto

text \<open>C6: every command gets exactly one answer.  A context without an answer that \<^verbatim>\<open>OEK_exec\<close> accepts is,
  without database threads, handed to its callback (or freed, if it has none) exactly once before the call
  returns, with either one error message or at least one response of the type that belongs to the command, all
  with the correlation identifier of the command and, except for a new transaction, its transaction identifier;
  the only other outcome is the registration of a get that has time left.  With database threads it becomes
  exactly one queued job.  No assumption is made about the store.\<close>

theorem OEK_exec_answers_once:
  assumes run: "OEK_exec (kernel_of T u p k) c = Inr K'" and c: "fresh_context c msg"
  shows "if td_number_of_threads (k_db_dispatcher k) \<le> 0
    then \<exists>e. k_out (oek_client K') = k_out k @ [e] \<and> answer T c msg e
    else k_out (oek_client K') = k_out k \<and> k_store (oek_client K') = k_store k \<and>
      (\<exists>job. job_for (mtype msg) c = Some job \<and>
         td_push (k_db_dispatcher k) p (TD_PROCESS job) = Inr (k_db_dispatcher (oek_client K')))"
proof -
  have cm: "cx_cmd_msg c = Some msg" using c by (simp add: fresh_context_def)
  obtain job k' where job: "job_for (mtype msg) c = Some job" and ex: "db_exec T u p job k = Inr k'" "oek_client K' = k'"
    using OEK_exec_run [OF run cm] by metis
  show ?thesis
  proof (cases "td_number_of_threads (k_db_dispatcher k) \<le> 0")
    case True
    then have "run_job T u job k = Inr k'" using ex(1) by (simp add: db_exec_def Oe_Thread_Dispatcher_exec_def)
    moreover have "fresh_context (job_context job) msg" using job_for_context [OF job] c by (auto simp: fresh_context_def)
    ultimately obtain e S where "k' = emit e (k\<lparr>k_store := S\<rparr>)" "answer T (job_context job) msg e"
      using run_job_answers by metis
    then show ?thesis using True ex(2) job_for_answer [OF job] by auto
  next
    case False
    then obtain td where "td_push (k_db_dispatcher k) p (TD_PROCESS job) = Inr td" "k' = k\<lparr>k_db_dispatcher := td\<rparr>"
      using ex(1) by (auto simp: db_exec_def Oe_Thread_Dispatcher_exec_def c_bind_Inr)
    then show ?thesis using False ex(2) job by auto
  qed
qed

section \<open>The contract of a store\<close>

text \<open>
  What the kernel relies on in a store \<open>S\<close>, over what can be observed of its state: the records, the
  transaction records, the write events sent so far and whether there is a listener.  \<open>gives\<close> says that a
  record may be returned for a query at a time, \<open>misses\<close> that there is none.
\<close>

locale tuple_store =
  fixes S :: "'s OeStore"
    and recs :: "'s \<Rightarrow> oe_id \<Rightarrow> string option"
    and txns :: "'s \<Rightarrow> oe_id \<Rightarrow> string option"
    and events :: "'s \<Rightarrow> DataObject list"
    and listens :: "'s \<Rightarrow> bool"
    and gives :: "oe_time \<Rightarrow> OeStoreQuery \<Rightarrow> 's \<Rightarrow> OeStoreHolder \<Rightarrow> bool"
    and misses :: "oe_time \<Rightarrow> OeStoreQuery \<Rightarrow> 's \<Rightarrow> bool"
  assumes put_law: "vt_put S h s = Inr (r, h', s') \<Longrightarrow>
      (\<exists>lid. h' = OeStoreHolder_set_lease_id h lid) \<and> listens s' = listens s \<and> txns s' = txns s \<and>
      (if r = OK then recs s' = (recs s)(sh_lease_id h' \<mapsto> stored h') \<and>
         events s' = (if sh_txn_id h = 0 \<and> listens s then events s @ [fst (OeStoreHolder_get_data h')] else events s)
       else recs s' = recs s \<and> events s' = events s)"
    and get_law: "vt_get S now q s = Inr (r, q', s') \<Longrightarrow> sq_results q = [] \<Longrightarrow> sq_value_lists q = Some ts \<Longrightarrow>
      criteria q' = criteria q \<and> txns s' = txns s \<and>
      (if r = OK then sq_results q' \<noteq> [] \<and> (\<forall>h \<in> set (sq_results q'). gives now q s h) \<and>
         recs s' = (if OeStoreQuery_is_take q then after_take q' (recs s) else recs s)
       else recs s' = recs s \<and>
         (r = RC OE_STORE_ITEM_NOTFOUND \<and> (\<forall>t \<in> set ts. dataobject_ok t) \<longrightarrow> misses now q s))"
    and lease_law: "vt_update_lease S now lid e s = Inr (r, s') \<Longrightarrow>
      txns s' = txns s \<and> events s' = events s \<and>
      (if r = OK then \<exists>b h. recs s lid = Some b \<and> OeStoreHolder_new_from_buffer b = Inr h \<and>
         recs s' = (recs s)(lid \<mapsto> stored (h\<lparr>sh_lease_expire_time := e\<rparr>))
       else recs s' = recs s)"
    and observed: "recs s' = recs s \<Longrightarrow> criteria q' = criteria q \<Longrightarrow>
      gives now q' s' = gives now q s \<and> misses now q' s' = misses now q s"
begin

text \<open>Attempts that the store asks to repeat change nothing, so the last one counts.\<close>

lemma put_retry:
  assumes "db_retry n i (\<lambda>_. OeStore_put) id h (S\<lparr>store_impl := s\<rparr>) = Inr (r, h', S')"
  shows "\<exists>s'. S' = S\<lparr>store_impl := s'\<rparr> \<and> txns s' = txns s \<and>
    (if r = OK then (\<exists>lid. h' = OeStoreHolder_set_lease_id h lid) \<and> recs s' = (recs s)(sh_lease_id h' \<mapsto> stored h') \<and>
       events s' = (if sh_txn_id h = 0 \<and> listens s then events s @ [fst (OeStoreHolder_get_data h')] else events s)
     else recs s' = recs s \<and> events s' = events s)"
  using assms
proof (induction n arbitrary: i h s)
  case 0
  then show ?case by (auto simp: OE_STORE_PLEASE_RETRY_def)
next
  case (Suc n)
  obtain r1 h1 s1 where p: "vt_put S h s = Inr (r1, h1, s1)"
    using Suc.prems by (auto simp: OeStore_put_def c_bind_Inr)
  note law = put_law [OF p]
  have call: "OeStore_put h (S\<lparr>store_impl := s\<rparr>) = Inr (r1, h1, S\<lparr>store_impl := s1\<rparr>)"
    using p by (simp add: OeStore_put_def)
  show ?case
  proof (cases "r1 = RC OE_STORE_PLEASE_RETRY")
    case True
    then have "db_retry n (Suc i) (\<lambda>_. OeStore_put) id h1 (S\<lparr>store_impl := s1\<rparr>) = Inr (r, h', S')"
      using Suc.prems call by (simp add: id_def)
    note IH = Suc.IH [OF this]
    obtain lid where "h1 = OeStoreHolder_set_lease_id h lid" using law by blast
    then show ?thesis using IH law True
      by (auto simp: OeStoreHolder_set_lease_id_def OE_STORE_PLEASE_RETRY_def)
  next
    case False
    then have eq: "r = r1" "h' = h1" "S' = S\<lparr>store_impl := s1\<rparr>" using Suc.prems call by auto
    show ?thesis unfolding eq by (intro exI [of _ s1], cases "r1 = OK") (use law in simp_all)
  qed
qed

lemma get_retry:
  assumes "db_retry n i (\<lambda>i. OeStore_get (clk i)) OeStoreQuery_reset_nitems_found q (S\<lparr>store_impl := s\<rparr>) = Inr (r, q', S')"
    "sq_results q = []" "sq_value_lists q = Some ts"
  shows "\<exists>s' j. S' = S\<lparr>store_impl := s'\<rparr> \<and> txns s' = txns s \<and> criteria q' = criteria q \<and>
    (if r = OK then sq_results q' \<noteq> [] \<and> (\<forall>h \<in> set (sq_results q'). gives (clk j) q s h) \<and>
       recs s' = (if OeStoreQuery_is_take q then after_take q' (recs s) else recs s)
     else recs s' = recs s \<and>
       (r = RC OE_STORE_ITEM_NOTFOUND \<and> (\<forall>t \<in> set ts. dataobject_ok t) \<longrightarrow> misses (clk j) q s))"
  using assms
proof (induction n arbitrary: i q s)
  case 0
  then show ?case by (auto simp: OE_STORE_PLEASE_RETRY_def OE_STORE_ITEM_NOTFOUND_def)
next
  case (Suc n)
  obtain r1 q1 s1 where g: "vt_get S (clk i) q s = Inr (r1, q1, s1)"
    using Suc.prems(1) by (auto simp: OeStore_get_def c_bind_Inr)
  note law = get_law [OF g Suc.prems(2,3)]
  have call: "OeStore_get (clk i) q (S\<lparr>store_impl := s\<rparr>) = Inr (r1, q1, S\<lparr>store_impl := s1\<rparr>)"
    using g by (simp add: OeStore_get_def)
  show ?case
  proof (cases "r1 = RC OE_STORE_PLEASE_RETRY")
    case True
    let ?q = "OeStoreQuery_reset_nitems_found q1"
    have cr: "criteria ?q = criteria q" using law by simp
    then have v: "sq_results ?q = []" "sq_value_lists ?q = Some ts" using Suc.prems(3)
      by (simp_all add: criteria_def)
    have rec: "recs s1 = recs s" "txns s1 = txns s" using law True by (simp_all add: OE_STORE_PLEASE_RETRY_def)
    have "db_retry n (Suc i) (\<lambda>i. OeStore_get (clk i)) OeStoreQuery_reset_nitems_found ?q (S\<lparr>store_impl := s1\<rparr>) =
        Inr (r, q', S')" using Suc.prems(1) call True by simp
    note IH = Suc.IH [OF this v]
    have same: "gives now ?q s1 = gives now q s" "misses now ?q s1 = misses now q s" for now
      using observed [OF rec(1) cr] by simp_all
    show ?thesis using IH by (simp only: cr rec criteria_eq(4) [OF cr] same)
  next
    case False
    then have eq: "r = r1" "q' = q1" "S' = S\<lparr>store_impl := s1\<rparr>" using Suc.prems(1) call by auto
    show ?thesis unfolding eq by (intro exI [of _ s1] exI [of _ i]) (use law in blast)
  qed
qed

lemma lease_retry:
  assumes "db_retry n i (\<lambda>i _ S. c_bind (OeStore_update_lease (clk i) lid e S) (\<lambda>(r, S'). Inr (r, (), S'))) id ()
    (S\<lparr>store_impl := s\<rparr>) = Inr (r, w, S')"
  shows "\<exists>s'. S' = S\<lparr>store_impl := s'\<rparr> \<and> txns s' = txns s \<and> events s' = events s \<and>
    (if r = OK then \<exists>b h. recs s lid = Some b \<and> OeStoreHolder_new_from_buffer b = Inr h \<and>
       recs s' = (recs s)(lid \<mapsto> stored (h\<lparr>sh_lease_expire_time := e\<rparr>))
     else recs s' = recs s)"
  using assms
proof (induction n arbitrary: i s)
  case 0
  then show ?case by (auto simp: OE_STORE_PLEASE_RETRY_def)
next
  case (Suc n)
  obtain r1 s1 where p: "vt_update_lease S (clk i) lid e s = Inr (r1, s1)"
    using Suc.prems by (auto simp: OeStore_update_lease_def c_bind_Inr)
  note law = lease_law [OF p]
  have call: "OeStore_update_lease (clk i) lid e (S\<lparr>store_impl := s\<rparr>) = Inr (r1, S\<lparr>store_impl := s1\<rparr>)"
    using p by (simp add: OeStore_update_lease_def)
  show ?case
  proof (cases "r1 = RC OE_STORE_PLEASE_RETRY")
    case True
    then have "db_retry n (Suc i) (\<lambda>i _ S. c_bind (OeStore_update_lease (clk i) lid e S) (\<lambda>(r, S'). Inr (r, (), S')))
        id () (S\<lparr>store_impl := s1\<rparr>) = Inr (r, w, S')"
      using Suc.prems call by (simp add: id_def)
    note IH = Suc.IH [OF this]
    have same: "recs s1 = recs s" "txns s1 = txns s" "events s1 = events s"
      using law True by (simp_all add: OE_STORE_PLEASE_RETRY_def)
    show ?thesis using IH by (simp only: same)
  next
    case False
    then have eq: "r = r1" "S' = S\<lparr>store_impl := s1\<rparr>" using Suc.prems call by auto
    show ?thesis unfolding eq by (intro exI [of _ s1]) (use law in blast)
  qed
qed

end

section \<open>The Berkeley DB store keeps the contract\<close>

lemma fire_flag [simp]: "fire_write_event (fire ds st) = fire_write_event st"
  by (simp add: fire_def)

lemma try_put_flag:
  assumes run: "try_put B h st = Inr (r, st')"
  shows "fire_write_event st' = fire_write_event st"
proof -
  obtain active where act: "(if sh_txn_id h \<noteq> 0 then txn_is_active B (sh_txn_id h) st else Inr True) = Inr active"
    using run by (auto simp: try_put_def c_bind_Inr OeStoreHolder_get_txn_id_def Let_def)
  show ?thesis
  proof (cases active)
    case True
    obtain r1 st1 where p: "put_holder B h st = Inr (r1, st1)"
      using run act True by (auto simp: try_put_def c_bind_Inr OeStoreHolder_get_txn_id_def Let_def)
    have "fire_write_event st' = fire_write_event st1"
      using run act True p quiet_sel [OF commit_txn_quiet, of B st1]
      by (auto simp: try_put_def OeStoreHolder_get_txn_id_def c_bind_Inr split: if_splits)
    then show ?thesis using quiet_sel [OF put_holder_quiet [OF p]] by simp
  qed (use run act in \<open>auto simp: try_put_def OeStoreHolder_get_txn_id_def\<close>)
qed

lemma api_put_flag:
  assumes laws: "bdb_laws B V" and run: "api_put n B h st = Inr (r, h', st')"
  shows "fire_write_event st' = fire_write_event st"
proof -
  obtain lid st0 where ci: "create_id n B st = Inr (lid, st0)" using run by (auto simp: api_put_def c_bind_Inr)
  obtain r1 st1 where bg: "begin_txn B st0 = (r1, st1)" by fastforce
  obtain r2 st2 where tp: "(if r1 = OK then try_put B (OeStoreHolder_set_lease_id h lid) st1 else Inr (r1, st1)) = Inr (r2, st2)"
    and hd: "handlerc B r2 True st2 = Inr (r, st')"
    using run ci bg by (auto simp: api_put_def c_bind_Inr Let_def)
  have "fire_write_event st2 = fire_write_event st1"
    using tp try_put_flag [of B _ st1 r2 st2] by (auto split: if_splits)
  then show ?thesis using create_id_spec [OF laws ci] quiet_sel [OF begin_txn_quiet [OF bg]]
      quiet_sel [OF handlerc_quiet [OF hd]] quiet_sel by metis
qed

definition bdb_recs :: "('d, 'c) bdb_view \<Rightarrow> 'd OeBdb \<Rightarrow> oe_id \<Rightarrow> string option" where
  "bdb_recs V st = v_db V Holder_db (bdb_state st)"

definition bdb_txns :: "('d, 'c) bdb_view \<Rightarrow> 'd OeBdb \<Rightarrow> oe_id \<Rightarrow> string option" where
  "bdb_txns V st = v_db V Txn_db (bdb_state st)"

definition bdb_gives :: "('d, 'c) bdb_view \<Rightarrow> oe_time \<Rightarrow> OeStoreQuery \<Rightarrow> 'd OeBdb \<Rightarrow> OeStoreHolder \<Rightarrow> bool" where
  "bdb_gives V now q st h = (\<exists>ts. sq_value_lists q = Some ts \<and> found V now q (bdb_state st) ts h)"

definition bdb_misses :: "('d, 'c) bdb_view \<Rightarrow> oe_time \<Rightarrow> OeStoreQuery \<Rightarrow> 'd OeBdb \<Rightarrow> bool" where
  "bdb_misses V now q st = (\<exists>ts. sq_value_lists q = Some ts \<and> nothing_there V now q (bdb_state st) ts)"

lemma bdb_tuple_store:
  assumes laws: "bdb_laws B V"
  shows "tuple_store (OeBdb_new n u B st0) (bdb_recs V) (bdb_txns V) fired fire_write_event (bdb_gives V) (bdb_misses V)"
proof
  fix h s r h' s'
  assume "vt_put (OeBdb_new n u B st0) h s = Inr (r, h', s')"
  then have run: "api_put n B h s = Inr (r, h', s')" by (simp add: OeBdb_new_def)
  show "(\<exists>lid. h' = OeStoreHolder_set_lease_id h lid) \<and> fire_write_event s' = fire_write_event s \<and>
    bdb_txns V s' = bdb_txns V s \<and>
    (if r = OK then bdb_recs V s' = (bdb_recs V s)(sh_lease_id h' \<mapsto> stored h') \<and>
       fired s' = (if sh_txn_id h = 0 \<and> fire_write_event s then fired s @ [fst (OeStoreHolder_get_data h')] else fired s)
     else bdb_recs V s' = bdb_recs V s \<and> fired s' = fired s)"
    using api_put_effect [OF laws run] api_put_flag [OF laws run]
    by (cases "r = OK") (simp_all add: bdb_recs_def bdb_txns_def same_view_def)
next
  fix now q s r q' s' ts
  assume "vt_get (OeBdb_new n u B st0) now q s = Inr (r, q', s')"
    and new: "sq_results q = []" and ts: "sq_value_lists q = Some ts"
  then have run: "api_get n B now q s = Inr (r, q', s')" by (simp add: OeBdb_new_def)
  note eff = api_get_effect [OF laws run new ts] and cr = api_get_criteria [OF laws run ts]
  have "bdb_misses V now q s" if "r = RC OE_STORE_ITEM_NOTFOUND" "\<forall>t \<in> set ts. dataobject_ok t"
    using api_get_miss [OF laws run [unfolded that(1)] new ts that(2)] ts by (simp add: bdb_misses_def)
  then show "criteria q' = criteria q \<and> bdb_txns V s' = bdb_txns V s \<and>
    (if r = OK then sq_results q' \<noteq> [] \<and> (\<forall>h \<in> set (sq_results q'). bdb_gives V now q s h) \<and>
       bdb_recs V s' = (if OeStoreQuery_is_take q then after_take q' (bdb_recs V s) else bdb_recs V s)
     else bdb_recs V s' = bdb_recs V s \<and>
       (r = RC OE_STORE_ITEM_NOTFOUND \<and> (\<forall>t \<in> set ts. dataobject_ok t) \<longrightarrow> bdb_misses V now q s))"
    using eff cr ts by (cases "r = OK") (auto simp: bdb_recs_def bdb_txns_def same_view_def bdb_gives_def)
next
  fix now lid e s r s'
  assume "vt_update_lease (OeBdb_new n u B st0) now lid e s = Inr (r, s')"
  then have "update_lease B now lid e s = Inr (r, s')" by (simp add: OeBdb_new_def)
  from update_lease_effect [OF laws this]
  show "bdb_txns V s' = bdb_txns V s \<and> fired s' = fired s \<and>
    (if r = OK then \<exists>b h. bdb_recs V s lid = Some b \<and> OeStoreHolder_new_from_buffer b = Inr h \<and>
       bdb_recs V s' = (bdb_recs V s)(lid \<mapsto> stored (h\<lparr>sh_lease_expire_time := e\<rparr>))
     else bdb_recs V s' = bdb_recs V s)"
    by (cases "r = OK") (auto simp: bdb_recs_def bdb_txns_def same_view_def)
next
  fix s' s :: "'a OeBdb" and q' q now
  assume same: "bdb_recs V s' = bdb_recs V s" and cr: "criteria q' = criteria q"
  have ts: "sq_value_lists q' = sq_value_lists q" using cr by (simp add: criteria_def)
  have v: "v_db V Holder_db (bdb_state s') = v_db V Holder_db (bdb_state s)" using same by (simp add: bdb_recs_def)
  have h: "hits V key (bdb_state s') = hits V key (bdb_state s)" for key using v by (simp add: hits_def)
  have m: "matches V q' (bdb_state s') t k = matches V q (bdb_state s) t k" for t k
    using criteria_eq(3) [OF cr] h by (simp add: matches_def template_keys_def cong: sum.case_cong)
  have l: "live V now (bdb_state s') k h0 = live V now (bdb_state s) k h0" for k h0 using v by (simp add: live_def)
  have "found V now q' (bdb_state s') t h0 = found V now q (bdb_state s) t h0" for t h0
    using m l criteria_eq(1) [OF cr] by (simp add: found_def)
  moreover have "nothing_there V now q' (bdb_state s') t = nothing_there V now q (bdb_state s) t" for t
    using m l criteria_eq(2) [OF cr] by (simp add: nothing_there_def none_live_def)
  ultimately show "bdb_gives V now q' s' = bdb_gives V now q s \<and> bdb_misses V now q' s' = bdb_misses V now q s"
    using ts by (simp add: bdb_gives_def bdb_misses_def fun_eq_iff)
qed

interpretation mem_store: tuple_store "OeBdb_new n u mem_bdb st0" "bdb_recs mem_view" "bdb_txns mem_view" fired
  fire_write_event "bdb_gives mem_view" "bdb_misses mem_view" for n u st0
  by (rule bdb_tuple_store [OF mem_laws])

section \<open>Commands on the Berkeley DB store\<close>

lemma OeBdb_new_impl [simp]:
  "(OeBdb_new n u B st)\<lparr>store_impl := s\<rparr> = OeBdb_new n u B s" "store_impl (OeBdb_new n u B st) = st"
  by (simp_all add: OeBdb_new_def)

lemma put_command:
  assumes laws: "bdb_laws B V" and store: "k_store k = OeBdb_new n u B st" and c: "cx_cmd_msg c = Some msg"
    and cmd: "OekMsg_get_put_cmd msg = Inr cmd" and run: "sput T c k = Inr k'"
    and h: "h = put_record (at_first T) (txn_id msg) cmd"
    and c1: "c1 = c\<lparr>cx_cmd_msg := Some (msg\<lparr>data := D_put_cmd (snd (PutCmd_get_data cmd))\<rparr>)\<rparr>"
  shows "\<exists>e st'. k' = emit e (k\<lparr>k_store := OeBdb_new n u B st'\<rparr>) \<and> bdb_txns V st' = bdb_txns V st \<and>
    ((\<exists>lid. e = deliver (c1\<lparr>cx_res_msgs := Some [reply_msg PUT_RES (cor_id msg) (txn_id msg) (D_put_res \<lparr>pr_lease_id = lid\<rparr>)]\<rparr>) \<and>
        bdb_recs V st' = (bdb_recs V st)(lid \<mapsto> stored (OeStoreHolder_set_lease_id h lid)) \<and>
        fired st' = (if txn_id msg = 0 \<and> fire_write_event st then fired st @ [fst (PutCmd_get_data cmd)] else fired st)) \<or>
     (e = deliver (c1\<lparr>cx_err_msg := Some (error_msg msg 104 OEK_STR_CAN_NOT_STORE)\<rparr>) \<and>
        bdb_recs V st' = bdb_recs V st \<and> fired st' = fired st))"
proof -
  obtain r h' S' where db: "db_retry OEK_MAX_DB_DEADLOCKS 0 (\<lambda>_. OeStore_put) id h (k_store k) = Inr (r, h', S')"
    using run c cmd h by (auto simp: sput_def cmd_of_def c_bind_Inr OekMsg_get_tid_def Let_def)
  have store_as: "k_store k = (OeBdb_new n u B st)\<lparr>store_impl := st\<rparr>" using store by simp
  obtain st' where st': "S' = OeBdb_new n u B st'" "bdb_txns V st' = bdb_txns V st"
    and eff: "if r = OK then (\<exists>lid. h' = OeStoreHolder_set_lease_id h lid) \<and>
         bdb_recs V st' = (bdb_recs V st)(sh_lease_id h' \<mapsto> stored h') \<and>
         fired st' = (if sh_txn_id h = 0 \<and> fire_write_event st then fired st @ [fst (OeStoreHolder_get_data h')] else fired st)
       else bdb_recs V st' = bdb_recs V st \<and> fired st' = fired st"
    using tuple_store.put_retry [OF bdb_tuple_store [OF laws, of n u st] db [unfolded store_as]]
    by (auto simp only: OeBdb_new_impl)
  have k': "k' = emit (deliver (if r = OK
      then c1\<lparr>cx_res_msgs := Some [reply_msg PUT_RES (cor_id msg) (txn_id msg) (D_put_res \<lparr>pr_lease_id = sh_lease_id h'\<rparr>)]\<rparr>
      else c1\<lparr>cx_err_msg := Some (error_msg msg 104 OEK_STR_CAN_NOT_STORE)\<rparr>)) (k\<lparr>k_store := OeBdb_new n u B st'\<rparr>)"
    using sput_run [OF c cmd db [unfolded h] c1] run st'(1) by simp
  have hs: "sh_txn_id h = txn_id msg" "sh_data h = Some (fst (PutCmd_get_data cmd))"
    using h by (simp_all add: put_record_def Let_def OeStoreHolder_set_tuple_def OeStoreHolder_set_lock_def
        OeStoreHolder_set_lease_expire_time_def OeStoreHolder_set_txn_id_def OeStoreHolder_new_with_data_def)
  show ?thesis
  proof (cases "r = OK")
    case True
    then obtain lid where lid: "h' = OeStoreHolder_set_lease_id h lid" using eff by auto
    then have sel: "sh_lease_id h' = lid" "fst (OeStoreHolder_get_data h') = fst (PutCmd_get_data cmd)"
      using hs(2) by (simp_all add: OeStoreHolder_set_lease_id_def OeStoreHolder_get_data_def getdata_def)
    have "k' = emit (deliver (c1\<lparr>cx_res_msgs := Some [reply_msg PUT_RES (cor_id msg) (txn_id msg)
        (D_put_res \<lparr>pr_lease_id = lid\<rparr>)]\<rparr>)) (k\<lparr>k_store := OeBdb_new n u B st'\<rparr>)" using k' True sel(1) by simp
    moreover have "bdb_recs V st' = (bdb_recs V st)(lid \<mapsto> stored (OeStoreHolder_set_lease_id h lid))"
      "fired st' = (if txn_id msg = 0 \<and> fire_write_event st then fired st @ [fst (PutCmd_get_data cmd)] else fired st)"
      using eff True sel hs(1) lid by simp_all
    ultimately show ?thesis using st'(2) by blast
  next
    case False
    then have "k' = emit (deliver (c1\<lparr>cx_err_msg := Some (error_msg msg 104 OEK_STR_CAN_NOT_STORE)\<rparr>))
        (k\<lparr>k_store := OeBdb_new n u B st'\<rparr>)" using k' by simp
    then show ?thesis using eff st'(2) False by auto
  qed
qed

lemma get_command:
  assumes laws: "bdb_laws B V" and store: "k_store k = OeBdb_new n u B st" and c: "cx_cmd_msg c = Some msg"
    and m: "mtype msg = GET_CMD" "data msg = D_get_cmd cmd" and run: "geth T c k = Inr k'"
    and c1: "c1 = c\<lparr>cx_cmd_msg := Some (msg\<lparr>data := D_get_cmd (listed cmd)\<rparr>)\<rparr>"
    and q: "q = query_of (txn_id msg) cmd" and ts: "ts = fst (get_value_lists cmd)"
  shows "\<exists>r q' st' j. k' = emit (geth_answer T c1 msg cmd r q') (k\<lparr>k_store := OeBdb_new n u B st'\<rparr>) \<and>
    bdb_txns V st' = bdb_txns V st \<and>
    (if r = OK then sq_results q' \<noteq> [] \<and> (\<forall>h \<in> set (sq_results q'). found V (at_store T j) q (bdb_state st) ts h) \<and>
       bdb_recs V st' = (if GetCmd_remove cmd then after_take q' (bdb_recs V st) else bdb_recs V st) \<and>
       OeStoreQuery_get_owner_id q' = txn_id msg
     else bdb_recs V st' = bdb_recs V st \<and>
       (r = RC OE_STORE_ITEM_NOTFOUND \<and> (\<forall>t \<in> set ts. dataobject_ok t) \<longrightarrow>
          nothing_there V (at_store T j) q (bdb_state st) ts))"
proof -
  have kn: "cx_kernel c" using run by (auto simp: geth_def split: if_splits)
  have sel: "sq_results q = []" "sq_value_lists q = Some ts" "OeStoreQuery_is_take q = GetCmd_remove cmd"
    "OeStoreQuery_get_owner_id q = txn_id msg" using q ts by (simp_all add: query_of_sel)
  obtain r q' S' where db: "db_retry OEK_MAX_DB_DEADLOCKS 0 (\<lambda>i. OeStore_get (at_store T i))
      OeStoreQuery_reset_nitems_found q (k_store k) = Inr (r, q', S')"
    using run c kn m q by (auto simp: geth_def cmd_of_def c_bind_Inr get_query_eval OekMsg_get_tid_def
        OekMsg_get_get_cmd_def Let_def)
  have store_as: "k_store k = (OeBdb_new n u B st)\<lparr>store_impl := st\<rparr>" using store by simp
  obtain st' j where st': "S' = OeBdb_new n u B st'" "bdb_txns V st' = bdb_txns V st" "criteria q' = criteria q"
    and eff: "if r = OK then sq_results q' \<noteq> [] \<and> (\<forall>h \<in> set (sq_results q'). bdb_gives V (at_store T j) q st h) \<and>
         bdb_recs V st' = (if OeStoreQuery_is_take q then after_take q' (bdb_recs V st) else bdb_recs V st)
       else bdb_recs V st' = bdb_recs V st \<and>
         (r = RC OE_STORE_ITEM_NOTFOUND \<and> (\<forall>t \<in> set ts. dataobject_ok t) \<longrightarrow> bdb_misses V (at_store T j) q st)"
    using tuple_store.get_retry [OF bdb_tuple_store [OF laws, of n u st] db [unfolded store_as] sel(1,2)]
    by (auto simp only: OeBdb_new_impl)
  have "k' = emit (geth_answer T c1 msg cmd r q') (k\<lparr>k_store := OeBdb_new n u B st'\<rparr>)"
    using geth_run [OF c kn m db [unfolded q] c1] run st'(1) by simp
  then show ?thesis using eff st'(2) sel criteria_eq(5) [OF st'(3)]
    by (intro exI [of _ r] exI [of _ q'] exI [of _ st'] exI [of _ j]) (auto simp: bdb_gives_def bdb_misses_def OE_STORE_ITEM_NOTFOUND_def)
qed

section \<open>What was put is found\<close>

text \<open>A template matches a tuple of the same length that agrees with it wherever it has no wildcard.\<close>

definition tuple_matches :: "oe_scalar list \<Rightarrow> oe_scalar list \<Rightarrow> bool" where
  "tuple_matches ts as = list_all2 (\<lambda>t a. t = OESTORE_WILDCARD \<or> t = a) ts as"

lemma tuple_key_ok: "\<exists>k. tuple_key a pos sz = Inr k"
  by (simp add: tuple_key_def oec_str_concat_def OES_KEY_SEP_def)

lemma tuple_keys_ok: "\<exists>ks. tuple_keys as pos sz = Inr ks"
proof (induction as arbitrary: pos)
  case (Cons a as)
  then show ?case using tuple_key_ok by (fastforce simp: c_bind_Inr)
qed simp

lemma tuple_keys_subset:
  assumes "tuple_matches ts as" "tuple_keys ts pos sz = Inr tks" "tuple_keys as pos sz = Inr ks"
  shows "set tks \<subseteq> set ks"
  using assms
proof (induction ts arbitrary: as pos tks ks)
  case Nil
  then show ?case by simp
next
  case (Cons x ts)
  obtain a as' where as: "as = a # as'" "x = OESTORE_WILDCARD \<or> x = a" "tuple_matches ts as'"
    using Cons.prems(1) by (auto simp: tuple_matches_def list_all2_Cons1)
  have "\<exists>ks'. tuple_keys as' (Suc pos) sz = Inr ks' \<and> set ks' \<subseteq> set ks"
    using Cons.prems(3) as(1) by (auto simp: c_bind_Inr split: if_splits)
  then obtain ks' where ks': "tuple_keys as' (Suc pos) sz = Inr ks'" "set ks' \<subseteq> set ks" by blast
  show ?case
  proof (cases "x = OESTORE_WILDCARD")
    case True
    then show ?thesis using Cons.IH [OF as(3) _ ks'(1)] Cons.prems(2) ks'(2) by auto
  next
    case False
    then obtain k tks' where "tuple_key x pos sz = Inr k" "tuple_keys ts (Suc pos) sz = Inr tks'" "tks = k # tks'"
      using Cons.prems(2) by (auto simp: c_bind_Inr)
    then show ?thesis using Cons.IH [OF as(3) _ ks'(1)] Cons.prems(3) as False ks' by (auto simp: c_bind_Inr)
  qed
qed

lemma tuple_keys_nonempty:
  assumes "tuple_keys as pos sz = Inr ks" "\<exists>a \<in> set as. a \<noteq> OESTORE_WILDCARD"
  shows "ks \<noteq> []"
  using assms by (induction as arbitrary: pos ks) (auto simp: c_bind_Inr split: if_splits)

lemma stored_tuple:
  assumes h: "sh_data h = Some d" "sh_is_tuple h" "sh_txn_id h = 0" and d: "storable_data d"
    and ks: "tuple_keys (strings d) 0 (length (strings d)) = Inr ks" "ks \<noteq> []"
  shows "OeStoreHolder_new_from_buffer (stored h) = Inr (h\<lparr>sh_data := Some (read_back d [])\<rparr>)"
    and "set_props (stored h) = Inr (OK, ks)"
proof -
  have st: "stored h = holder_bytes h d" using marshal_spec [OF h(1) d] by (auto simp: stored_def)
  show rd: "OeStoreHolder_new_from_buffer (stored h) = Inr (h\<lparr>sh_data := Some (read_back d [])\<rparr>)"
    using unmarshal_exact [OF d, of h "[]"] st by simp
  have "OeStoreHolder_peek_txn_id (stored h) = Inr 0" using peek_spec(2) [of h d "[]"] st h(3) by simp
  then show "set_props (stored h) = Inr (OK, ks)"
    using rd h(2) ks read_back_spec(1,3) [OF d, of "[]"]
    by (simp add: set_props_def OeStoreHolder_is_tuple_def set_tuple_props_def OeStoreHolder_get_data_def getdata_def
        attrs_of_exact DataObject_get_nattrs_def)
qed

lemma skip_same:
  assumes "sh_lease_expire_time h' = sh_lease_expire_time h" "sh_lock h' = sh_lock h"
  shows "OeStoreHolder_skip now h' = OeStoreHolder_skip now h"
  using assms by (simp add: OeStoreHolder_skip_def OeStoreHolder_get_lease_expire_time_def OeStoreHolder_get_lock_def)

text \<open>A live tuple under a key contradicts a report of nothing found.\<close>

lemma tuple_not_missed:
  assumes rec: "v_db V Holder_db s lid = Some (stored h)" and h: "sh_data h = Some d" "sh_is_tuple h" "sh_txn_id h = 0"
    and d: "storable_data d" and lv: "OeStoreHolder_skip now h = OESTORE_DO_NOT_SKIP"
    and q: "OeStoreQuery_is_tuple q" "OeStoreQuery_get_max_results q \<noteq> 0"
    and t: "t \<in> set ts" "dataobject_ok t" "tuple_matches (strings t) (strings d)" "\<exists>a \<in> set (strings t). a \<noteq> OESTORE_WILDCARD"
  shows "\<not> nothing_there V now q s ts"
proof -
  obtain tks where tks: "tuple_keys (strings t) 0 (length (strings t)) = Inr tks" using tuple_keys_ok by blast
  have len: "length (strings t) = length (strings d)" using t(3) by (simp add: tuple_matches_def list_all2_lengthD)
  obtain ks where ks: "tuple_keys (strings d) 0 (length (strings d)) = Inr ks" using tuple_keys_ok by blast
  have sub: "set tks \<subseteq> set ks" using tuple_keys_subset [OF t(3)] tks ks len by simp
  then have ne: "ks \<noteq> []" using tuple_keys_nonempty [OF tks t(4)] by auto
  note st = stored_tuple [OF h d ks ne]
  have "template_keys q t = Inr tks"
    using q(1) tks t(2) by (simp add: template_keys_def attrs_of_exact DataObject_get_nattrs_def)
  moreover have "lid \<in> hits V (Prop_Key s') s" if "s' \<in> set tks" for s'
    using rec st(2) sub that by (auto simp: hits_def)
  ultimately have "matches V q s t lid" by (simp add: matches_def)
  moreover have "OeStoreHolder_skip now (h\<lparr>sh_data := Some (read_back d [])\<rparr>) = OESTORE_DO_NOT_SKIP"
    unfolding lv [symmetric] by (rule skip_same) simp_all
  then have "live V now s lid (h\<lparr>sh_data := Some (read_back d [])\<rparr>)" using rec st(1) by (simp add: live_def)
  ultimately show ?thesis using q(2) t(1) by (auto simp: nothing_there_def none_live_def)
qed

section \<open>Properties\<close>


text \<open>C8: a get command.  On the Berkeley DB store, a get that finds records answers with one response per record,
  each of which was in the store, live and matching a template when the store was searched; a take removed
  exactly them, or inside a transaction locked exactly them for it; anything else leaves every record alone,
  and a report that nothing was found, which answers empty or waits, is right.\<close>

theorem kernel_get:
  assumes "bdb_laws B V" "k_store k = OeBdb_new n u B st" "cx_cmd_msg c = Some msg" "mtype msg = GET_CMD"
    "data msg = D_get_cmd cmd" "geth T c k = Inr k'"
    and q: "q = query_of (txn_id msg) cmd" and ts: "ts = fst (get_value_lists cmd)"
  shows "\<exists>r q' st' j c1. k' = emit (geth_answer T c1 msg cmd r q') (k\<lparr>k_store := OeBdb_new n u B st'\<rparr>) \<and>
    bdb_txns V st' = bdb_txns V st \<and>
    (if r = OK then sq_results q' \<noteq> [] \<and> (\<forall>h \<in> set (sq_results q'). found V (at_store T j) q (bdb_state st) ts h) \<and>
       bdb_recs V st' = (if GetCmd_remove cmd then after_take q' (bdb_recs V st) else bdb_recs V st) \<and>
       OeStoreQuery_get_owner_id q' = txn_id msg
     else bdb_recs V st' = bdb_recs V st \<and>
       (r = RC OE_STORE_ITEM_NOTFOUND \<and> (\<forall>t \<in> set ts. dataobject_ok t) \<longrightarrow>
          nothing_there V (at_store T j) q (bdb_state st) ts))"
  using get_command [OF assms(1-6) refl q ts] by blast

text \<open>An answer without error, and an answer that carries records.\<close>

definition succeeded :: "effect \<Rightarrow> bool" where
  "succeeded e = (case e of Respond c \<Rightarrow> cx_err_msg c = None | Drop c \<Rightarrow> cx_err_msg c = None | _ \<Rightarrow> False)"

definition has_records :: "effect \<Rightarrow> bool" where
  "has_records e =
     (let rs = (\<lambda>c. case cx_res_msgs c of None \<Rightarrow> False
                  | Some ms \<Rightarrow> ms \<noteq> [] \<and> (\<forall>m \<in> set ms. \<exists>g. data m = D_get_res g \<and> gr_data g \<noteq> None))
      in case e of Respond c \<Rightarrow> rs c | Drop c \<Rightarrow> rs c | _ \<Rightarrow> False)"

lemma result_res_data: "gr_data (result_res cmd n h g) = Some (fst (OeStoreHolder_get_data h))"
  by (simp add: result_res_def Let_def GetRes_set_nresults_def GetRes_set_data_def GetRes_set_tuple_def
      GetRes_set_destroyed_def GetRes_set_return_attrs_def GetRes_set_return_bytes_def)

lemma geth_answer_records:
  assumes "cx_err_msg c = None" "r = OK" "sq_results q \<noteq> []"
  shows "has_records (geth_answer T c msg cmd r q)"
  using assms by (auto simp: geth_answer_def has_records_def deliver_def result_res_data Let_def)

lemma geth_answer_error:
  assumes "r \<noteq> OK" "r \<noteq> RC OE_STORE_ITEM_NOTFOUND"
  shows "geth_answer T c msg cmd r q = deliver (c\<lparr>cx_err_msg := Some (error_msg msg 105 OEK_STR_GET_FAILED)\<rparr>)"
  using assms by (simp add: geth_answer_def)

lemma put_then_get:
  assumes laws: "bdb_laws B V" and store: "k_store k = OeBdb_new n u B st"
    and put: "fresh_context c msg" "mtype msg = PUT_CMD" "data msg = D_put_cmd p" "txn_id msg = 0" "pc_is_tuple p"
      "pc_data p = Some d" "storable_data d" "sput T c k = Inr k1" "k_out k1 = k_out k @ [e]" "succeeded e"
    and get: "fresh_context c' msg'" "mtype msg' = GET_CMD" "data msg' = D_get_cmd g" "GetCmd_is_tuple g"
      "GetCmd_get_max_responses g \<noteq> 0" "gc_value_lists g = Some ts" "\<forall>t \<in> set ts. dataobject_ok t" "geth T' c' k1 = Inr k2"
    and lease: "\<forall>j. OeStoreHolder_skip (at_store T' j) (put_record (at_first T) 0 p) = OESTORE_DO_NOT_SKIP"
    and t: "t \<in> set ts" "tuple_matches (strings t) (strings d)" "\<exists>a \<in> set (strings t). a \<noteq> OESTORE_WILDCARD"
  shows "\<exists>e'. k_out k2 = k_out k1 @ [e'] \<and>
    (has_records e' \<or> (\<exists>c1. e' = deliver (c1\<lparr>cx_err_msg := Some (error_msg msg' 105 OEK_STR_GET_FAILED)\<rparr>)))"
proof -
  let ?h = "put_record (at_first T) 0 p"
  have cm: "cx_cmd_msg c = Some msg" "cx_cmd_msg c' = Some msg'" "cx_err_msg c' = None"
    using put(1) get(1) by (simp_all add: fresh_context_def)
  have pc: "OekMsg_get_put_cmd msg = Inr p" using put(2,3) by (simp add: OekMsg_get_put_cmd_def)
  obtain e1 st1 where k1: "k1 = emit e1 (k\<lparr>k_store := OeBdb_new n u B st1\<rparr>)"
    and eff: "(\<exists>lid. bdb_recs V st1 = (bdb_recs V st)(lid \<mapsto> stored (OeStoreHolder_set_lease_id ?h lid))) \<or>
      (\<exists>c1 m. e1 = deliver (c1\<lparr>cx_err_msg := Some m\<rparr>))"
    using put_command [OF laws store cm(1) pc put(8) refl refl] unfolding put(4) by blast
  have "e1 = e" using k1 put(9) by simp
  then have "\<not> (\<exists>c1 m. e1 = deliver (c1\<lparr>cx_err_msg := Some m\<rparr>))"
    using put(10) by (auto simp: succeeded_def deliver_def split: if_splits)
  then obtain lid where "bdb_recs V st1 = (bdb_recs V st)(lid \<mapsto> stored (OeStoreHolder_set_lease_id ?h lid))"
    using eff by blast
  then have rec: "bdb_recs V st1 lid = Some (stored (OeStoreHolder_set_lease_id ?h lid))" by simp
  let ?hl = "OeStoreHolder_set_lease_id ?h lid"
  have hl: "sh_data ?hl = Some d" "sh_is_tuple ?hl" "sh_txn_id ?hl = 0"
    using put(5,6) by (simp_all add: put_record_def Let_def OeStoreHolder_set_tuple_def OeStoreHolder_set_lock_def
        OeStoreHolder_set_lease_expire_time_def OeStoreHolder_set_txn_id_def OeStoreHolder_new_with_data_def
        PutCmd_get_data_def PutCmd_is_tuple_def OeStoreHolder_set_lease_id_def)
  have lv: "OeStoreHolder_skip (at_store T' j) ?hl = OESTORE_DO_NOT_SKIP" for j
    unfolding lease [rule_format, of j, symmetric]
    by (rule skip_same) (simp_all add: OeStoreHolder_set_lease_id_def)
  let ?q = "query_of (txn_id msg') g"
  have qs: "OeStoreQuery_is_tuple ?q" "OeStoreQuery_get_max_results ?q \<noteq> 0" "fst (get_value_lists g) = ts"
    using get(4-6) by (simp_all add: query_of_def get_query_def OeStoreQuery_set_value_lists_def OeStoreQuery_new_def
        OeStoreQuery_set_owner_def OeStoreQuery_set_tuple_def OeStoreQuery_set_ifexists_def OeStoreQuery_set_take_def
        OeStoreQuery_is_tuple_def OeStoreQuery_get_max_results_def get_value_lists_def)
  have "k_store k1 = OeBdb_new n u B st1" using k1 by simp
  from get_command [OF laws this cm(2) get(2,3,8) refl refl qs(3) [symmetric]]
  obtain r q' st2 j where k2: "k2 = emit (geth_answer T' (c'\<lparr>cx_cmd_msg := Some (msg'\<lparr>data := D_get_cmd (listed g)\<rparr>)\<rparr>) msg' g r q')
      (k1\<lparr>k_store := OeBdb_new n u B st2\<rparr>)"
    and eff2: "if r = OK then sq_results q' \<noteq> [] \<and> (\<forall>h \<in> set (sq_results q'). found V (at_store T' j) ?q (bdb_state st1) ts h) \<and>
         bdb_recs V st2 = (if GetCmd_remove g then after_take q' (bdb_recs V st1) else bdb_recs V st1) \<and>
         OeStoreQuery_get_owner_id q' = txn_id msg'
       else bdb_recs V st2 = bdb_recs V st1 \<and> (r = RC OE_STORE_ITEM_NOTFOUND \<and> (\<forall>t \<in> set ts. dataobject_ok t) \<longrightarrow>
         nothing_there V (at_store T' j) ?q (bdb_state st1) ts)" by blast
  have res: "r = OK \<longrightarrow> sq_results q' \<noteq> []"
    "r = RC OE_STORE_ITEM_NOTFOUND \<longrightarrow> nothing_there V (at_store T' j) ?q (bdb_state st1) ts"
    using eff2 get(7) by (simp_all add: OE_STORE_ITEM_NOTFOUND_def split: if_splits)
  have "\<not> nothing_there V (at_store T' j) ?q (bdb_state st1) ts"
    using tuple_not_missed [OF rec [unfolded bdb_recs_def] hl put(7) lv qs(1,2) t(1) _ t(2,3)] get(7) t(1) by blast
  then have "r \<noteq> RC OE_STORE_ITEM_NOTFOUND" using res(2) by blast
  then show ?thesis using k2 res(1) cm(3)
    by (cases "r = OK") (auto simp: geth_answer_records geth_answer_error)
qed


end
