(* ===== verification/Kernel_Samples.thy ===== *)
theory Kernel_Samples
  imports Kernel_Props
begin

text \<open>
  Two mistakes of the kernel commands, and runs of the kernel on the database kept in memory: the theorems about
  its commands applied to concrete contexts.
\<close>

section \<open>Leases and waits without end\<close>

lemma renew_command:
  assumes laws: "bdb_laws B V" and store: "k_store k = OeBdb_new n u B st" and c: "cx_cmd_msg c = Some msg"
    and cmd: "OekMsg_get_upl_cmd msg = Inr cmd" and run: "supl T c k = Inr k'" and e: "e = at_first T + UplCmd_get_dur cmd"
  obtains st' x where "k' = emit (deliver x) (k\<lparr>k_store := OeBdb_new n u B st'\<rparr>)"
    "cx_err_msg x = None \<longrightarrow> (\<exists>b h. bdb_recs V st (UplCmd_get_lid cmd) = Some b \<and> OeStoreHolder_new_from_buffer b = Inr h \<and>
       bdb_recs V st' = (bdb_recs V st)(UplCmd_get_lid cmd \<mapsto> stored (h\<lparr>sh_lease_expire_time := e\<rparr>)))"
proof -
  obtain r w S' where db: "db_retry OEK_MAX_DB_DEADLOCKS 0 (\<lambda>i _ S. c_bind (OeStore_update_lease (at_store T i)
      (UplCmd_get_lid cmd) e S) (\<lambda>(r, S'). Inr (r, (), S'))) id () (k_store k) = Inr (r, w, S')"
    using run c cmd e by (auto simp: supl_def cmd_of_def c_bind_Inr Let_def)
  have store_as: "k_store k = (OeBdb_new n u B st)\<lparr>store_impl := st\<rparr>" using store by simp
  obtain st' where st': "S' = OeBdb_new n u B st'"
    and eff: "if r = OK then \<exists>b h. bdb_recs V st (UplCmd_get_lid cmd) = Some b \<and> OeStoreHolder_new_from_buffer b = Inr h \<and>
         bdb_recs V st' = (bdb_recs V st)(UplCmd_get_lid cmd \<mapsto> stored (h\<lparr>sh_lease_expire_time := e\<rparr>))
       else bdb_recs V st' = bdb_recs V st"
    using tuple_store.lease_retry [OF bdb_tuple_store [OF laws, of n u st] db [unfolded store_as]]
    by (auto simp only: OeBdb_new_impl)
  define x where "x = (if r = OK then c\<lparr>cx_res_msgs := Some [reply_msg UPL_RES (cor_id msg) (txn_id msg) (D_upl_res \<lparr>lr_expiretime = e\<rparr>)]\<rparr>
      else if r = RC OE_STORE_ITEM_NOTFOUND
      then c\<lparr>cx_err_msg := Some (error_msg msg 108 OEK_STR_LEASE_NOT_FOUND)\<rparr>
      else c\<lparr>cx_err_msg := Some (error_msg msg 111 OEK_STR_LEASE_UPDATE_FAILED)\<rparr>)"
  have "k' = emit (deliver x) (k\<lparr>k_store := OeBdb_new n u B st'\<rparr>)"
    using supl_run [OF c cmd e db] run st' by (simp add: x_def)
  moreover have "cx_err_msg x = None \<longrightarrow> r = OK" by (auto simp: x_def split: if_splits)
  ultimately show thesis using that eff by presburger
qed

text \<open>renewing a lease for ever ends it.  \<^verbatim>\<open>_supl\<close> adds the duration to the present time even when it is
  \<^verbatim>\<open>OEC_FOREVER\<close>, unlike \<^verbatim>\<open>_sput\<close>.  So a successful renewal with that duration leaves a record whose lease ran
  out one millisecond before the renewal, and every query from then on passes over it.\<close>

theorem renew_forever_expires:
  assumes laws: "bdb_laws B V" and store: "k_store k = OeBdb_new n u B st" and c: "fresh_context c msg"
    and cmd: "mtype msg = UPL_CMD" "data msg = D_upl_cmd cmd" "UplCmd_get_dur cmd = OEC_FOREVER"
    and run: "supl T c k = Inr k'" "k_out k' = k_out k @ [e]" "succeeded e"
    and now: "at_first T \<noteq> 0" "sint (at_first T - 1) \<le> sint now"
  shows "\<exists>st' h. k_store k' = OeBdb_new n u B st' \<and>
    bdb_recs V st' (UplCmd_get_lid cmd) = Some (stored h) \<and>
    sh_lease_expire_time h = at_first T - 1 \<and> OeStoreHolder_skip now h = OESTORE_SKIP"
proof -
  have cm: "cx_cmd_msg c = Some msg" using c by (simp add: fresh_context_def)
  have acc: "OekMsg_get_upl_cmd msg = Inr cmd" using cmd(1,2) by (simp add: OekMsg_get_upl_cmd_def)
  have fe: "at_first T + UplCmd_get_dur cmd = at_first T - 1" using cmd(3) by (simp add: OEC_FOREVER_def)
  obtain st' x where k': "k' = emit (deliver x) (k\<lparr>k_store := OeBdb_new n u B st'\<rparr>)"
    and eff: "cx_err_msg x = None \<longrightarrow> (\<exists>b h. bdb_recs V st (UplCmd_get_lid cmd) = Some b \<and> OeStoreHolder_new_from_buffer b = Inr h \<and>
       bdb_recs V st' = (bdb_recs V st)(UplCmd_get_lid cmd \<mapsto> stored (h\<lparr>sh_lease_expire_time := at_first T - 1\<rparr>)))"
    using renew_command [OF laws store cm acc run(1) fe [symmetric]] by metis
  have "cx_err_msg x = None" using k' run(2,3) by (auto simp: succeeded_def deliver_def split: if_splits)
  then obtain h where "bdb_recs V st' = (bdb_recs V st)(UplCmd_get_lid cmd \<mapsto> stored (h\<lparr>sh_lease_expire_time := at_first T - 1\<rparr>))"
    using eff by blast
  then have "bdb_recs V st' (UplCmd_get_lid cmd) = Some (stored (h\<lparr>sh_lease_expire_time := at_first T - 1\<rparr>))" by simp
  moreover have "at_first T - 1 \<noteq> OEC_FOREVER" using now(1) by (simp add: OEC_FOREVER_def)
  then have "OeStoreHolder_skip now (h\<lparr>sh_lease_expire_time := at_first T - 1\<rparr>) = OESTORE_SKIP"
    using now(2) by (simp add: OeStoreHolder_skip_def OeStoreHolder_get_lease_expire_time_def)
  ultimately show ?thesis using k' by (intro exI [of _ st']) auto
qed

text \<open>a get with a deadline can wait for ever.  The code reads the clock to see that the deadline is ahead and
  again to compute how long to wait.  When the clock has passed the deadline by one millisecond in between,
  the duration it registers is the number that stands for no timeout at all.\<close>

theorem get_may_wait_forever:
  assumes c: "fresh_context c msg" and run: "geth T c k = Inr k'" "k_out k' = k_out k @ [Reg_Group g]"
    and clock: "at_second T = cx_expire_time c + 1"
  shows "sint (at_first T) < sint (cx_expire_time c) \<and> rg_dur g = OEC_FOREVER"
proof -
  have "run_job T (zero_txn 0) (Geth c) k = Inr k'" using run(1) by (simp add: run_job_def)
  then obtain e S where "k' = emit e (k\<lparr>k_store := S\<rparr>)" "answer T c msg e"
    using run_job_answers [of T "zero_txn 0" "Geth c" k k' msg] c by auto
  then show ?thesis using run(2) clock by (simp add: OEC_FOREVER_def)
qed

section \<open>A kernel in memory\<close>

definition demo_kernel :: "mem OeBdb \<Rightarrow> mem OeBdb kernel" where
  "demo_kernel st = \<lparr>k_store = OeBdb_new 3 False mem_bdb st,
     k_db_dispatcher = \<lparr>td_que = que_new, td_que_running = 0, td_number_of_threads = 0, td_running = False\<rparr>, k_out = []\<rparr>"

definition demo_times :: times where
  "demo_times = \<lparr>at_store = \<lambda>_. 5, at_first = 5, at_second = 5\<rparr>"

definition demo_msg :: "OEK_MSG_TYPE \<Rightarrow> OekData \<Rightarrow> OekMsg" where
  "demo_msg t d = \<lparr>mtype = t, cor_id = 7, txn_id = 0, valid = True, data = d\<rparr>"

definition demo_context :: "OekMsg \<Rightarrow> OEK_Context" where
  "demo_context m = OEK_Context_new\<lparr>cx_cmd_msg := Some m, cx_write_response_cb := True, cx_kernel := True, cx_expire_time := 20\<rparr>"

definition demo_put_cmd :: PutCmd where
  "demo_put_cmd = \<lparr>pc_duration = 45, pc_is_tuple = True, pc_data = Some demo_tuple\<rparr>"

definition demo_get_cmd :: "bool \<Rightarrow> GetCmd" where
  "demo_get_cmd tk = \<lparr>gc_timeout = 15, gc_max_responses = 1, gc_flags = (if tk then 5 else 1), gc_value_lists = Some [demo_template]\<rparr>"

abbreviation "demo_put_context \<equiv> demo_context (demo_msg PUT_CMD (D_put_cmd demo_put_cmd))"
abbreviation "demo_get_context tk \<equiv> demo_context (demo_msg GET_CMD (D_get_cmd (demo_get_cmd tk)))"

lemma demo_fresh: "fresh_context (demo_context m) m"
  by (simp add: fresh_context_def demo_context_def OEK_Context_new_def)

lemma db_retry_first:
  assumes "call i q s = Inr (r, q', s')" "r \<noteq> RC OE_STORE_PLEASE_RETRY" "0 < n"
  shows "db_retry n i call again q s = Inr (r, q', s')"
  using assms by (cases n) simp_all

lemma demo_put_record: "put_record 5 0 demo_put_cmd = demo_holder\<lparr>sh_lease_id := 0\<rparr>"
  by (simp add: put_record_def demo_put_cmd_def PutCmd_get_data_def PutCmd_get_dur_def PutCmd_is_tuple_def Let_def
      OeStoreHolder_set_tuple_def OeStoreHolder_set_lock_def OeStoreHolder_set_lease_expire_time_def
      OeStoreHolder_set_txn_id_def OeStoreHolder_new_with_data_def demo_holder_def OEC_FOREVER_def)

text \<open>The store after the put.\<close>

definition demo_after :: "mem OeBdb" where
  "demo_after = (demo_store [(1, demo_bytes)])\<lparr>bdb_state := mem_empty\<lparr>m_holders := [(1, demo_bytes)], m_seq := 2\<rparr>, fired := [demo_tuple]\<rparr>"

lemma demo_api_put: "\<exists>h'. api_put 3 mem_bdb (demo_holder\<lparr>sh_lease_id := 0\<rparr>) (demo_store []) = Inr (OK, h', demo_after)"
proof -
  have "sh_data demo_holder = Some demo_tuple" by (simp add: demo_holder_def)
  from marshal_spec [OF this demo_storable] obtain d' where
    m: "OeStoreHolder_marshal demo_holder = Inr (demo_bytes @ replicate 12 NUL, length demo_bytes, demo_holder\<lparr>sh_data := Some d'\<rparr>)"
    by (auto simp: demo_bytes_def)
  have h: "demo_holder\<lparr>sh_lease_id := 1\<rparr> = demo_holder" "sh_txn_id demo_holder = 0"
    "sh_lease_id demo_holder = 1" "sh_data demo_holder = Some demo_tuple"
    by (simp_all add: demo_holder_def)
  show ?thesis
    by (simp add: h m api_put_def numeral_3_eq_3 sample_eval try_put_def put_holder_def OeStoreHolder_set_lease_id_def
        OeStoreHolder_get_txn_id_def OeStoreHolder_get_lease_id_def fire_def demo_after_def mem_without_def
        OeStoreHolder_get_data_def getdata_def)
qed

lemma demo_msg_sel [simp]: "mtype (demo_msg t d) = t" "data (demo_msg t d) = d" "txn_id (demo_msg t d) = 0" "cor_id (demo_msg t d) = 7"
  by (simp_all add: demo_msg_def)

lemma demo_times_sel [simp]: "at_store demo_times i = 5" "at_first demo_times = 5" "at_second demo_times = 5"
  by (simp_all add: demo_times_def)

lemma demo_kernel_sel [simp]: "k_store (demo_kernel st) = OeBdb_new 3 False mem_bdb st" "k_out (demo_kernel st) = []"
  by (simp_all add: demo_kernel_def)

lemma demo_deadlocks: "0 < OEK_MAX_DB_DEADLOCKS"
  by (simp add: OEK_MAX_DB_DEADLOCKS_def)

lemma demo_put_accessor: "OekMsg_get_put_cmd (demo_msg PUT_CMD (D_put_cmd p)) = Inr p"
  by (simp add: OekMsg_get_put_cmd_def)

lemma demo_sput:
  "\<exists>e. sput demo_times demo_put_context (demo_kernel (demo_store [])) = Inr (emit e (demo_kernel demo_after)) \<and> succeeded e"
proof -
  let ?m = "demo_msg PUT_CMD (D_put_cmd demo_put_cmd)"
  obtain h' where "api_put 3 mem_bdb (demo_holder\<lparr>sh_lease_id := 0\<rparr>) (demo_store []) = Inr (OK, h', demo_after)"
    using demo_api_put by blast
  then have "OeStore_put (put_record (at_first demo_times) (txn_id ?m) demo_put_cmd) (k_store (demo_kernel (demo_store []))) =
      Inr (OK, h', OeBdb_new 3 False mem_bdb demo_after)"
    by (simp add: OeStore_put_def demo_put_record) (simp add: OeBdb_new_def)
  from db_retry_first [of "\<lambda>_. OeStore_put" 0, OF this _ demo_deadlocks]
  have db: "db_retry OEK_MAX_DB_DEADLOCKS 0 (\<lambda>_. OeStore_put) id (put_record (at_first demo_times) (txn_id ?m) demo_put_cmd)
      (k_store (demo_kernel (demo_store []))) = Inr (OK, h', OeBdb_new 3 False mem_bdb demo_after)"
    by (simp add: OE_STORE_PLEASE_RETRY_def)
  have cm: "cx_cmd_msg demo_put_context = Some ?m" by (simp add: demo_context_def)
  have k: "(demo_kernel (demo_store []))\<lparr>k_store := OeBdb_new 3 False mem_bdb demo_after\<rparr> = demo_kernel demo_after"
    by (simp add: demo_kernel_def)
  obtain x where "sput demo_times demo_put_context (demo_kernel (demo_store [])) = Inr (emit (Respond x) (demo_kernel demo_after))"
    and "cx_err_msg x = None"
    using sput_run [OF cm demo_put_accessor db refl]
    by (simp add: k deliver_def demo_context_def OEK_Context_new_def OEK_Context.splits)
  then show ?thesis by (intro exI [of _ "Respond x"]) (simp add: succeeded_def)
qed

lemma demo_query_of: "query_of 0 (demo_get_cmd tk) = demo_query tk"
proof -
  have "GetCmd_remove (demo_get_cmd tk) = tk" "GetCmd_ifexists (demo_get_cmd tk) = False" "GetCmd_is_tuple (demo_get_cmd tk) = True"
    by (cases tk; simp add: demo_get_cmd_def GetCmd_remove_def GetCmd_ifexists_def GetCmd_is_tuple_def OEC_FLAG_ISSET_def
        OE_GET_CMD_DESTROY_def OE_GET_CMD_IFEXISTS_def OE_GET_CMD_TUPLE_def)+
  then show ?thesis
    by (simp add: query_of_def get_query_def OeStoreQuery_set_value_lists_def OeStoreQuery_new_def
        OeStoreQuery_set_owner_def OeStoreQuery_set_tuple_def OeStoreQuery_set_ifexists_def OeStoreQuery_set_take_def
        GetCmd_get_data_objects_def get_value_lists_def demo_query_def GetCmd_get_max_responses_def demo_get_cmd_def)
qed

lemma demo_get_on:
  assumes "m_holders (bdb_state st) = [(1, demo_bytes)]"
  shows "\<exists>q' st'. api_get 3 mem_bdb 5 (demo_query tk) st = Inr (OK, q', st')"
  using assms
  by (simp add: api_get_def Let_def begin_txn_def demo_one mem_begin_def search_code_def
      get_taken_def delete_items_for_take_def recheck_def bdb_get_def numeral_2_eq_2 OeStoreHolder_get_lease_id_def
      demo_mark mem_deliver_def demo_length OEBDB_DEFAULT_READ_BUFFER_SIZE_def demo_read demo_skip txn_flags_deadlock_def
      finish_txn_def commit_txn_def abort_txn_def get_read_def)

lemma demo_geth:
  assumes st: "m_holders (bdb_state st) = [(1, demo_bytes)]" and k: "k_store k = OeBdb_new 3 False mem_bdb st"
  shows "\<exists>k'. geth demo_times (demo_get_context tk) k = Inr k'"
proof -
  let ?m = "demo_msg GET_CMD (D_get_cmd (demo_get_cmd tk))"
  obtain q' st' where "api_get 3 mem_bdb 5 (demo_query tk) st = Inr (OK, q', st')" using demo_get_on [OF st] by blast
  then have "OeStore_get (at_store demo_times 0) (query_of (txn_id ?m) (demo_get_cmd tk)) (k_store k) =
      Inr (OK, q', OeBdb_new 3 False mem_bdb st')"
    by (simp add: OeStore_get_def demo_query_of k) (simp add: OeBdb_new_def)
  from db_retry_first [of "\<lambda>i. OeStore_get (at_store demo_times i)" 0, OF this _ demo_deadlocks]
  have db: "db_retry OEK_MAX_DB_DEADLOCKS 0 (\<lambda>i. OeStore_get (at_store demo_times i)) OeStoreQuery_reset_nitems_found
      (query_of (txn_id ?m) (demo_get_cmd tk)) (k_store k) = Inr (OK, q', OeBdb_new 3 False mem_bdb st')"
    by (simp add: OE_STORE_PLEASE_RETRY_def)
  show ?thesis using geth_run [OF _ _ _ _ db refl, of "demo_get_context tk"] by (simp add: demo_context_def)
qed


theorem kernel_get_witness:
  "\<exists>k'. geth demo_times (demo_get_context True) (demo_kernel demo_after) = Inr k' \<and>
     (\<exists>st'. k_store k' = OeBdb_new 3 False mem_bdb st' \<and> bdb_txns mem_view st' = bdb_txns mem_view demo_after)"
proof -
  have st: "m_holders (bdb_state demo_after) = [(1, demo_bytes)]" by (simp add: demo_after_def)
  obtain k' where g: "geth demo_times (demo_get_context True) (demo_kernel demo_after) = Inr k'"
    using demo_geth [OF st demo_kernel_sel(1)] by blast
  have cm: "cx_cmd_msg (demo_get_context True) = Some (demo_msg GET_CMD (D_get_cmd (demo_get_cmd True)))"
    by (simp add: demo_context_def)
  from kernel_get [OF mem_laws demo_kernel_sel(1) cm demo_msg_sel(1,2) g refl refl]
  show ?thesis using g by (metis emit_sel(2) kernel.select_convs(1) kernel.surjective kernel.update_convs(1))
qed

lemma demo_get_tuple:
  "GetCmd_is_tuple (demo_get_cmd True)" "GetCmd_get_max_responses (demo_get_cmd True) \<noteq> 0"
  "gc_value_lists (demo_get_cmd True) = Some [demo_template]" "\<forall>t \<in> set [demo_template]. dataobject_ok t"
  by (simp_all add: demo_get_cmd_def GetCmd_is_tuple_def OEC_FLAG_ISSET_def OE_GET_CMD_TUPLE_def GetCmd_get_max_responses_def demo_ok)

lemma demo_matches:
  "tuple_matches (strings demo_template) (strings demo_tuple)" "\<exists>a \<in> set (strings demo_template). a \<noteq> OESTORE_WILDCARD"
  by (simp_all add: tuple_matches_def demo_sel OESTORE_WILDCARD_def)

lemma demo_unexpired: "\<forall>j. OeStoreHolder_skip (at_store demo_times j) (put_record (at_first demo_times) 0 demo_put_cmd) = OESTORE_DO_NOT_SKIP"
  using demo_skip skip_same [of "demo_holder\<lparr>sh_lease_id := 0\<rparr>" demo_holder 5] by (simp add: demo_put_record)


theorem OEK_exec_answers_once_witness:
  "\<exists>K' e. OEK_exec (kernel_of demo_times (zero_txn 0) 1 (demo_kernel (demo_store []))) demo_put_context = Inr K' \<and>
     k_out (oek_client K') = [e] \<and> answer demo_times demo_put_context (demo_msg PUT_CMD (D_put_cmd demo_put_cmd)) e"
proof -
  let ?k = "demo_kernel (demo_store [])"
  obtain k' where "sput demo_times demo_put_context ?k = Inr k'" using demo_sput by blast
  moreover have "td_number_of_threads (k_db_dispatcher ?k) \<le> 0" by (simp add: demo_kernel_def)
  moreover have "cx_cmd_msg demo_put_context = Some (demo_msg PUT_CMD (D_put_cmd demo_put_cmd))" "cx_kernel demo_put_context"
    by (simp_all add: demo_context_def)
  ultimately obtain K' where "OEK_exec (kernel_of demo_times (zero_txn 0) 1 ?k) demo_put_context = Inr K'"
    by (simp add: OEK_exec_def cmd_of_def OekMsg_get_type_def OEK_put_def oek_call_def OEK_default_factory_new_def oek_impl_put_def
        db_exec_def Oe_Thread_Dispatcher_exec_def run_job_def)
  with OEK_exec_answers_once [OF this demo_fresh] show ?thesis by (auto simp: demo_kernel_def)
qed

lemma demo_miss_query:
  "\<exists>st'. api_get 3 mem_bdb 5 (demo_query tk) (demo_store []) = Inr (RC OE_STORE_ITEM_NOTFOUND, demo_query tk, st')"
  by (simp add: api_get_def Let_def begin_txn_def get_one_def calc_nkeys_def demo_eval position_tuple_cursors_def
      mem_begin_def demo_store_def mem_empty_def search_code_def demo_mem_eval txn_flags_deadlock_def get_failed_def
      finish_txn_def commit_txn_def abort_txn_def)

lemma demo_registers:
  assumes T: "at_store T 0 = 5" "sint (at_first T) < 20"
  shows "\<exists>k' g. geth T (demo_get_context True) (demo_kernel (demo_store [])) = Inr k' \<and> k_out k' = [Reg_Group g]"
proof -
  let ?m = "demo_msg GET_CMD (D_get_cmd (demo_get_cmd True))"
  obtain st' where "api_get 3 mem_bdb 5 (demo_query True) (demo_store []) = Inr (RC OE_STORE_ITEM_NOTFOUND, demo_query True, st')"
    using demo_miss_query by blast
  then have "OeStore_get (at_store T 0) (query_of (txn_id ?m) (demo_get_cmd True)) (k_store (demo_kernel (demo_store []))) =
      Inr (RC OE_STORE_ITEM_NOTFOUND, demo_query True, OeBdb_new 3 False mem_bdb st')"
    by (simp add: OeStore_get_def demo_query_of T) (simp add: OeBdb_new_def)
  from db_retry_first [of "\<lambda>i. OeStore_get (at_store T i)" 0, OF this _ demo_deadlocks]
  have db: "db_retry OEK_MAX_DB_DEADLOCKS 0 (\<lambda>i. OeStore_get (at_store T i)) OeStoreQuery_reset_nitems_found
      (query_of (txn_id ?m) (demo_get_cmd True)) (k_store (demo_kernel (demo_store []))) =
      Inr (RC OE_STORE_ITEM_NOTFOUND, demo_query True, OeBdb_new 3 False mem_bdb st')"
    by (simp add: OE_STORE_PLEASE_RETRY_def OE_STORE_ITEM_NOTFOUND_def)
  have c: "cx_cmd_msg (demo_get_context True) = Some ?m" "cx_kernel (demo_get_context True)" "cx_expire_time (demo_get_context True) = 20"
    by (simp_all add: demo_context_def)
  have q: "\<not> OeStoreQuery_is_ifexists (demo_query True)"
    by (simp add: demo_query_def OeStoreQuery_is_ifexists_def OeStoreQuery_new_def)
  have a: "geth_answer T c1 ?m (demo_get_cmd True) (RC OE_STORE_ITEM_NOTFOUND) (demo_query True) =
      Reg_Group \<lparr>rg_templates = fst (get_value_lists (demo_get_cmd True)), rg_dur = cx_expire_time c1 - at_second T,
        rg_consume = GetCmd_remove (demo_get_cmd True), rg_context = c1\<rparr>" if "cx_expire_time c1 = 20" for c1
    using that q T by (simp add: geth_answer_def OE_STORE_ITEM_NOTFOUND_def)
  show ?thesis using geth_run [OF c(1,2) demo_msg_sel(1,2) db refl] c(3) a by simp
qed

theorem get_may_wait_forever_witness:
  "\<exists>k' g. geth (demo_times\<lparr>at_second := 21\<rparr>) (demo_get_context True) (demo_kernel (demo_store [])) = Inr k' \<and>
     k_out k' = [Reg_Group g] \<and> rg_dur g = OEC_FOREVER"
proof -
  let ?T = "demo_times\<lparr>at_second := 21\<rparr>"
  obtain k' g where r: "geth ?T (demo_get_context True) (demo_kernel (demo_store [])) = Inr k'" "k_out k' = [Reg_Group g]"
    using demo_registers [of ?T] by (auto simp: demo_times_def)
  have "cx_expire_time (demo_get_context True) = 20" by (simp add: demo_context_def)
  then show ?thesis using get_may_wait_forever [OF demo_fresh r(1)] r by simp
qed

definition demo_upl_cmd :: UplCmd where
  "demo_upl_cmd = \<lparr>lc_lease_id = 1, lc_duration = OEC_FOREVER\<rparr>"

lemma demo_renew:
  "\<exists>st'. update_lease mem_bdb 5 1 4 (demo_store [(1, demo_bytes)]) = Inr (OK, st')"
proof -
  let ?h = "demo_holder\<lparr>sh_lease_expire_time := 4\<rparr>"
  have "sh_data ?h = Some demo_tuple" by (simp add: demo_holder_def)
  from marshal_spec [OF this demo_storable] obtain buf len h' where
    m: "OeStoreHolder_marshal ?h = Inr (buf, len, h')" by blast
  have "sh_lease_expire_time demo_holder = 50" by (simp add: demo_holder_def)
  then show ?thesis using m
    by (simp add: update_lease_def sample_eval bdb_get_def demo_read OeStoreHolder_set_lease_expire_time_def
        OeStoreHolder_get_lease_expire_time_def)
qed

theorem renew_forever_expires_witness:
  "\<exists>k' e st' h. supl demo_times (demo_context (demo_msg UPL_CMD (D_upl_cmd demo_upl_cmd))) (demo_kernel (demo_store [(1, demo_bytes)])) = Inr k' \<and>
     k_out k' = [e] \<and> succeeded e \<and> k_store k' = OeBdb_new 3 False mem_bdb st' \<and>
     bdb_recs mem_view st' 1 = Some (stored h) \<and> sh_lease_expire_time h = 4 \<and> OeStoreHolder_skip 5 h = OESTORE_SKIP"
proof -
  let ?m = "demo_msg UPL_CMD (D_upl_cmd demo_upl_cmd)" and ?k = "demo_kernel (demo_store [(1, demo_bytes)])"
  have cmd: "UplCmd_get_lid demo_upl_cmd = 1" "UplCmd_get_dur demo_upl_cmd = OEC_FOREVER"
    by (simp_all add: demo_upl_cmd_def UplCmd_get_lid_def UplCmd_get_dur_def)
  obtain st' where "update_lease mem_bdb 5 1 4 (demo_store [(1, demo_bytes)]) = Inr (OK, st')"
    using demo_renew by blast
  then have "c_bind (OeStore_update_lease (at_store demo_times 0) (UplCmd_get_lid demo_upl_cmd) 4 (k_store ?k)) (\<lambda>(r, S'). Inr (r, (), S')) =
      Inr (OK, (), OeBdb_new 3 False mem_bdb st')"
    by (simp add: OeStore_update_lease_def cmd) (simp add: OeBdb_new_def)
  from db_retry_first [of "\<lambda>i _ S. c_bind (OeStore_update_lease (at_store demo_times i) (UplCmd_get_lid demo_upl_cmd) 4 S)
      (\<lambda>(r, S'). Inr (r, (), S'))" 0, OF this _ demo_deadlocks]
  have db: "db_retry OEK_MAX_DB_DEADLOCKS 0 (\<lambda>i _ S. c_bind (OeStore_update_lease (at_store demo_times i) (UplCmd_get_lid demo_upl_cmd) 4 S)
      (\<lambda>(r, S'). Inr (r, (), S'))) id () (k_store ?k) = Inr (OK, (), OeBdb_new 3 False mem_bdb st')"
    by (simp add: OE_STORE_PLEASE_RETRY_def)
  have c: "cx_cmd_msg (demo_context ?m) = Some ?m" by (simp add: demo_context_def)
  have acc: "OekMsg_get_upl_cmd ?m = Inr demo_upl_cmd" by (simp add: OekMsg_get_upl_cmd_def)
  have e4: "4 = at_first demo_times + UplCmd_get_dur demo_upl_cmd" by (simp add: cmd OEC_FOREVER_def)
  obtain k' x where r: "supl demo_times (demo_context ?m) ?k = Inr k'" "k_out k' = k_out ?k @ [Respond x]" "cx_err_msg x = None"
    using supl_run [OF c acc e4 db] by (simp add: deliver_def demo_context_def OEK_Context_new_def)
  have s: "succeeded (Respond x)" using r(3) by (simp add: succeeded_def)
  have n: "at_first demo_times \<noteq> 0" "sint (at_first demo_times - 1) \<le> sint (5 :: oe_time)" by simp_all
  from renew_forever_expires [OF mem_laws demo_kernel_sel(1) demo_fresh demo_msg_sel(1,2) cmd(2) r(1,2) s n]
  show ?thesis using r s cmd(1) by fastforce
qed

end
