(* ===== verification/Dispatcher.thy ===== *)
theory Dispatcher
  imports Hash_Table Containers Work_Queue
begin

text \<open>
  The template matcher (\<^verbatim>\<open>corelib/Oed_Dispatcher.c\<close>): clients register templates with callbacks, alone or in
  groups; an event that matches a template runs its callback and removes the registration, a timeout runs the
  timeout callback.

  Items live in the memory \<open>q_mem\<close> of the work queue, whose cells carry their \<^verbatim>\<open>next\<close> fields; sets of items
  and groups live at addresses of their own.  \<open>d_brk\<close> is the next address to allocate: addresses are not
  reused, so an access to released memory is always seen as one.  A set holds pointers with the identifiers
  they are compared by.  The text of an item is a value; who releases it is not modelled.

  A callback with its argument is a job \<^typ>\<open>'j\<close>; \<open>d_ran\<close> lists the jobs the matcher has run, oldest first.
  The calls a job makes back into the matcher are calls of their own, after it.  \<open>d_timers\<close> and \<open>d_timed\<close>
  are the timers pending in the event loop; the loop calls \<open>timeout_cb\<close>, \<open>heartbeat_cb\<close> or \<open>timed_exec_cb\<close>
  when one of them is due.
\<close>

section \<open>Items and the dispatcher\<close>

datatype ITEM_TYPE = REG | UNREG | PROCESS | TQUIT | EXECUTE | TIMEOUT | HEARTBEAT | DIAG

record 'j item_ =
  im_type :: ITEM_TYPE
  im_sid :: oe_id
  im_consume :: bool
  im_free_alloc :: bool
  im_object :: "oe_scalar list"
  im_match_handler :: "'j option"
  im_timeout_handler :: "'j option"
  im_key_idx :: nat
  im_timer_event :: bool
  im_duration :: oe_time
  im_items :: "nat option"
  im_group :: "nat option"

text \<open>An item as \<^verbatim>\<open>Mem_calloc\<close> gives it, with its type and identifier.\<close>

definition item_new :: "ITEM_TYPE \<Rightarrow> oe_id \<Rightarrow> 'j item_" where
  "item_new t sid =
     \<lparr>im_type = t, im_sid = sid, im_consume = False, im_free_alloc = False, im_object = [], im_match_handler = None,
      im_timeout_handler = None, im_key_idx = 0, im_timer_event = False, im_duration = 0, im_items = None,
      im_group = None\<rparr>"

type_synonym item_set = "(nat \<times> oe_id) set_T"

record timeval =
  tv_sec :: int
  tv_usec :: int

record 'j Oed_Dispatcher =
  d_que :: "'j item_ QUE"
  d_items :: "(oe_scalar, nat) table_T"
  d_sets :: "nat \<Rightarrow> item_set option"
  d_groups :: "nat \<Rightarrow> nat list option"
  d_brk :: nat
  d_name :: "string option"
  d_number_of_threads :: nat
  d_next_unused_id :: oe_id
  d_timers :: "(nat \<times> timeval) list"
  d_timed :: "('j \<times> timeval) list"
  d_running :: bool
  d_loopexit :: bool
  d_ran :: "'j list"

definition d_itemcmp :: "nat \<times> oe_id \<Rightarrow> nat \<times> oe_id \<Rightarrow> int" where
  "d_itemcmp x y = (let xint = snd x; yint = snd y in if xint = yint then 0 else if xint < yint then - 1 else 1)"

definition d_itemhash :: "nat \<times> oe_id \<Rightarrow> 32 word" where
  "d_itemhash x = ucast (snd x)"

definition Oed_Dispatcher_new :: "nat \<Rightarrow> string option \<Rightarrow> 'j Oed_Dispatcher c_result" where
  "Oed_Dispatcher_new number_of_threads name =
     (if 1 < number_of_threads then Inl Assert_Failed
      else c_bind (SKeyTable_new 1000) (\<lambda>items.
        Inr \<lparr>d_que = que_new, d_items = items, d_sets = (\<lambda>_. None), d_groups = (\<lambda>_. None), d_brk = 1, d_name = name,
             d_number_of_threads = number_of_threads, d_next_unused_id = 101, d_timers = [], d_timed = [],
             d_running = False, d_loopexit = False, d_ran = []\<rparr>))"

definition gen_id :: "'j Oed_Dispatcher \<Rightarrow> oe_id \<times> 'j Oed_Dispatcher" where
  "gen_id d = (d_next_unused_id d, d\<lparr>d_next_unused_id := d_next_unused_id d + 1\<rparr>)"

section \<open>Memory\<close>

definition item_at :: "'j Oed_Dispatcher \<Rightarrow> nat \<Rightarrow> 'j item_ c_result" where
  "item_at d p = que_item (d_que d) p"

definition alloc_item :: "'j Oed_Dispatcher \<Rightarrow> 'j item_ \<Rightarrow> nat \<times> 'j Oed_Dispatcher" where
  "alloc_item d item =
     (let p = d_brk d; q = d_que d
      in (p, d\<lparr>d_que := q\<lparr>q_mem := (q_mem q)(p \<mapsto> \<lparr>cell_item = item, cell_next = None\<rparr>)\<rparr>, d_brk := p + 1\<rparr>))"

definition write_item :: "'j Oed_Dispatcher \<Rightarrow> nat \<Rightarrow> ('j item_ \<Rightarrow> 'j item_) \<Rightarrow> 'j Oed_Dispatcher c_result" where
  "write_item d p f =
     (let q = d_que d in
      case q_mem q p of
        None \<Rightarrow> Inl Use_After_Free
      | Some c \<Rightarrow> Inr (d\<lparr>d_que := q\<lparr>q_mem := (q_mem q)(p \<mapsto> c\<lparr>cell_item := f (cell_item c)\<rparr>)\<rparr>\<rparr>))"

definition free_item :: "'j Oed_Dispatcher \<Rightarrow> nat \<Rightarrow> 'j Oed_Dispatcher c_result" where
  "free_item d p = c_bind (que_free_item (d_que d) p) (\<lambda>q. Inr (d\<lparr>d_que := q\<rparr>))"

definition set_at :: "'j Oed_Dispatcher \<Rightarrow> nat \<Rightarrow> item_set c_result" where
  "set_at d a = (case d_sets d a of None \<Rightarrow> Inl Use_After_Free | Some s \<Rightarrow> Inr s)"

definition group_at :: "'j Oed_Dispatcher \<Rightarrow> nat \<Rightarrow> nat list c_result" where
  "group_at d g = (case d_groups d g of None \<Rightarrow> Inl Use_After_Free | Some ps \<Rightarrow> Inr ps)"

definition run_handler :: "'j option \<Rightarrow> 'j Oed_Dispatcher \<Rightarrow> 'j Oed_Dispatcher" where
  "run_handler h d = (case h of None \<Rightarrow> d | Some j \<Rightarrow> d\<lparr>d_ran := d_ran d @ [j]\<rparr>)"

section \<open>Removing\<close>

definition timeout_del :: "nat \<Rightarrow> 'j Oed_Dispatcher \<Rightarrow> 'j Oed_Dispatcher" where
  "timeout_del p d = d\<lparr>d_timers := filter (\<lambda>t. fst t \<noteq> p) (d_timers d)\<rparr>"

text \<open>The clean-up of an empty set.  An item indexed by its first field skips it.\<close>

definition drop_empty_set :: "'j Oed_Dispatcher \<Rightarrow> nat \<Rightarrow> item_set \<Rightarrow> 'j item_ \<Rightarrow> 'j Oed_Dispatcher c_result" where
  "drop_empty_set d a s item =
     (if im_key_idx item \<noteq> 0
      then if length (im_object item) < im_key_idx item then Inl Out_Of_Bounds
      else if im_key_idx item < length (im_object item) \<and> Set_length s = 0
      then Inr (d\<lparr>d_items := snd (Table_remove (d_items d) (im_object item ! im_key_idx item)), d_sets := (d_sets d)(a := None)\<rparr>)
      else Inr d
      else Inr d)"

text \<open>\<^verbatim>\<open>_remove_item\<close> on an item without a group.\<close>

definition remove_single :: "'j Oed_Dispatcher \<Rightarrow> nat \<Rightarrow> bool \<Rightarrow> 'j Oed_Dispatcher c_result" where
  "remove_single d rmitem timeout =
     c_bind (item_at d rmitem) (\<lambda>rm.
       case im_items rm of
         None \<Rightarrow> Inr d
       | Some a \<Rightarrow>
           c_bind (set_at d a) (\<lambda>s.
             case Set_remove s (rmitem, im_sid rm) of
               (None, s') \<Rightarrow> Inr (d\<lparr>d_sets := (d_sets d)(a \<mapsto> s')\<rparr>)
             | (Some (p, _), s') \<Rightarrow>
                 let d1 = d\<lparr>d_sets := (d_sets d)(a \<mapsto> s')\<rparr> in
                 c_bind (item_at d1 p) (\<lambda>item.
                   let d2 = (if im_timer_event item then timeout_del p d1 else d1);
                       d3 = (if timeout then run_handler (im_timeout_handler item) d2 else d2)
                   in c_bind (if rmitem \<noteq> p then free_item d3 rmitem else Inr d3) (\<lambda>d4.
                      c_bind (drop_empty_set d4 a s' item) (\<lambda>d5. free_item d5 p)))))"

text \<open>Every item of a group leaves the group, and all but the first lose their callbacks.\<close>

fun remove_members :: "'j Oed_Dispatcher \<Rightarrow> nat \<Rightarrow> nat list \<Rightarrow> bool \<Rightarrow> 'j Oed_Dispatcher c_result" where
  "remove_members d i [] timeout = Inr d"
| "remove_members d i (p # ps) timeout =
     c_bind (write_item d p (\<lambda>item. let it1 = item\<lparr>im_group := None\<rparr> in
       if 0 < i then it1\<lparr>im_match_handler := None, im_timeout_handler := None\<rparr> else it1)) (\<lambda>d1.
     c_bind (remove_single d1 p timeout) (\<lambda>d2. remove_members d2 (i + 1) ps timeout))"

definition remove_group :: "'j Oed_Dispatcher \<Rightarrow> nat \<Rightarrow> bool \<Rightarrow> 'j Oed_Dispatcher c_result" where
  "remove_group d g timeout =
     c_bind (group_at d g) (\<lambda>gitems.
     c_bind (remove_members d 0 gitems timeout) (\<lambda>d1. Inr (d1\<lparr>d_groups := (d_groups d1)(g := None)\<rparr>)))"

definition remove_item :: "'j Oed_Dispatcher \<Rightarrow> nat \<Rightarrow> bool \<Rightarrow> 'j Oed_Dispatcher c_result" where
  "remove_item d rmitem timeout =
     c_bind (item_at d rmitem) (\<lambda>rm.
       case im_group rm of Some g \<Rightarrow> remove_group d g timeout | None \<Rightarrow> remove_single d rmitem timeout)"

section \<open>Adding a template\<close>

text \<open>The search for the field to index a template by: the first field without a set, or the one with the
  smallest set; \<open>best\<close> holds index, size and set of the best field so far.\<close>

datatype choice = Unused nat oe_scalar | Best "(nat \<times> nat \<times> nat) option"

fun most_unique :: "'j Oed_Dispatcher \<Rightarrow> nat \<Rightarrow> oe_scalar list \<Rightarrow> (nat \<times> nat \<times> nat) option \<Rightarrow> choice c_result" where
  "most_unique d i [] best = Inr (Best best)"
| "most_unique d i (tmpkey # rest) best =
     (if tmpkey = ''_'' then most_unique d (i + 1) rest best
      else case Table_get (d_items d) tmpkey of
             None \<Rightarrow> Inr (Unused i tmpkey)
           | Some a \<Rightarrow> c_bind (set_at d a) (\<lambda>s.
               most_unique d (i + 1) rest
                 (case best of
                    None \<Rightarrow> Some (i, Set_length s, a)
                  | Some (k, n, b) \<Rightarrow> if Set_length s < n then Some (i, Set_length s, a) else best)))"

definition link_item :: "'j Oed_Dispatcher \<Rightarrow> nat \<Rightarrow> nat \<Rightarrow> nat \<Rightarrow> 'j Oed_Dispatcher c_result" where
  "link_item d p key_idx a =
     c_bind (write_item d p (\<lambda>item. item\<lparr>im_items := Some a, im_key_idx := key_idx\<rparr>)) (\<lambda>d1.
     c_bind (item_at d1 p) (\<lambda>item.
     c_bind (set_at d1 a) (\<lambda>s. Inr (d1\<lparr>d_sets := (d_sets d1)(a \<mapsto> Set_put s (p, im_sid item))\<rparr>))))"

definition add_template :: "'j Oed_Dispatcher \<Rightarrow> nat \<Rightarrow> (int \<times> 'j Oed_Dispatcher) c_result" where
  "add_template d p =
     c_bind (item_at d p) (\<lambda>item.
     c_bind (most_unique d 0 (im_object item) None) (\<lambda>c.
       case c of
         Unused i key \<Rightarrow>
           c_bind (Set_new 10 d_itemcmp d_itemhash) (\<lambda>s.
             let a = d_brk d;
                 d1 = d\<lparr>d_sets := (d_sets d)(a \<mapsto> s), d_items := snd (Table_put (d_items d) key a), d_brk := a + 1\<rparr>
             in c_bind (link_item d1 p i a) (\<lambda>d2. Inr (0, d2)))
       | Best None \<Rightarrow> Inr (- 1, d)
       | Best (Some (i, n, a)) \<Rightarrow> c_bind (link_item d p i a) (\<lambda>d2. Inr (0, d2))))"

definition timeval_of :: "oe_time \<Rightarrow> timeval" where
  "timeval_of duration =
     (let dur = sint duration; sec = dur sdiv 1000; msec = (if sec \<noteq> 0 then dur - sec * 1000 else dur)
      in \<lparr>tv_sec = sec, tv_usec = msec * 1000\<rparr>)"

definition watch_for_timeout :: "'j Oed_Dispatcher \<Rightarrow> nat \<Rightarrow> 'j Oed_Dispatcher c_result" where
  "watch_for_timeout d p =
     c_bind (item_at d p) (\<lambda>item.
       if im_duration item = OEC_FOREVER then Inr d
       else c_bind (write_item d p (\<lambda>item. item\<lparr>im_timer_event := True\<rparr>)) (\<lambda>d1.
              Inr (d1\<lparr>d_timers := d_timers d1 @ [(p, timeval_of (im_duration item))]\<rparr>)))"

section \<open>Matching\<close>

text \<open>Some field of the event other than \<open>key_idx\<close> equals the field of the template, or that is a wildcard.\<close>

fun field_matches :: "nat \<Rightarrow> nat \<Rightarrow> oe_scalar list \<Rightarrow> oe_scalar \<Rightarrow> bool" where
  "field_matches key_idx k [] tobj = False"
| "field_matches key_idx k (iobj # rest) tobj =
     (if k = key_idx then field_matches key_idx (k + 1) rest tobj
      else if iobj = tobj then True
      else if tobj = ''_'' then True
      else field_matches key_idx (k + 1) rest tobj)"

fun fields_match :: "nat \<Rightarrow> nat \<Rightarrow> oe_scalar list \<Rightarrow> nat \<Rightarrow> oe_scalar list \<Rightarrow> bool" where
  "fields_match titem_key_idx j [] key_idx object = True"
| "fields_match titem_key_idx j (tobj # rest) key_idx object =
     (if j = titem_key_idx then fields_match titem_key_idx (j + 1) rest key_idx object
      else if field_matches key_idx 0 object tobj then fields_match titem_key_idx (j + 1) rest key_idx object
      else False)"

text \<open>\<^verbatim>\<open>_processSet\<close>: the loop over the array made of the set, which the removals do not change.\<close>

fun processSet :: "'j Oed_Dispatcher \<Rightarrow> (nat \<times> oe_id) list \<Rightarrow> oe_scalar list \<Rightarrow> nat \<Rightarrow> (bool \<times> 'j Oed_Dispatcher) c_result" where
  "processSet d [] object key_idx = Inr (False, d)"
| "processSet d ((p, sid) # array) object key_idx =
     c_bind (item_at d p) (\<lambda>titem.
       if fields_match (im_key_idx titem) 0 (im_object titem) key_idx object
       then c_bind (remove_item (run_handler (im_match_handler titem) d) p False) (\<lambda>d1.
              if im_consume titem then Inr (True, d1) else processSet d1 array object key_idx)
       else processSet d array object key_idx)"

fun process :: "'j Oed_Dispatcher \<Rightarrow> nat \<Rightarrow> oe_scalar list \<Rightarrow> oe_scalar list \<Rightarrow> 'j Oed_Dispatcher c_result" where
  "process d i [] object = Inr d"
| "process d i (key # keys) object =
     (case Table_get (d_items d) key of
        None \<Rightarrow> process d (i + 1) keys object
      | Some a \<Rightarrow>
          c_bind (set_at d a) (\<lambda>s.
          c_bind (processSet d (Set_toArray s) object i) (\<lambda>(done, d1).
            if done then Inr d1 else process d1 (i + 1) keys object)))"

section \<open>The queue\<close>

definition schedule_heartbeat :: "'j Oed_Dispatcher \<Rightarrow> 'j Oed_Dispatcher" where
  "schedule_heartbeat d =
     (let (sid, d1) = gen_id d; (p, d2) = alloc_item d1 ((item_new HEARTBEAT sid)\<lparr>im_timer_event := True\<rparr>)
      in d2\<lparr>d_timers := d_timers d2 @ [(p, \<lparr>tv_sec = 10, tv_usec = 0\<rparr>)]\<rparr>)"

text \<open>\<^verbatim>\<open>_free_items\<close> steps through keys and values by two but stops at the number of bindings, so it gets to the
  first half of the keys only.\<close>

fun free_sets :: "'j Oed_Dispatcher \<Rightarrow> oe_scalar list \<Rightarrow> 'j Oed_Dispatcher" where
  "free_sets d [] = d"
| "free_sets d (key # keys) =
     (let (titem, items) = Table_remove (d_items d) key
      in free_sets (case titem of
                      None \<Rightarrow> d\<lparr>d_items := items\<rparr>
                    | Some a \<Rightarrow> d\<lparr>d_items := items, d_sets := (d_sets d)(a := None)\<rparr>) keys)"

definition free_items :: "'j Oed_Dispatcher \<Rightarrow> 'j Oed_Dispatcher" where
  "free_items d =
     (let sz = Table_length (d_items d)
      in free_sets d (map fst (take ((sz + 1) div 2) (Table_toArray (d_items d)))))"

definition process_que_item :: "'j Oed_Dispatcher \<Rightarrow> nat option \<Rightarrow> 'j Oed_Dispatcher c_result" where
  "process_que_item d itemp =
     (case itemp of
        None \<Rightarrow> Inr d
      | Some p \<Rightarrow>
          c_bind (item_at d p) (\<lambda>item.
            case im_type item of
              REG \<Rightarrow> c_bind (add_template d p) (\<lambda>(rc, d1). watch_for_timeout d1 p)
            | UNREG \<Rightarrow> remove_item d p False
            | PROCESS \<Rightarrow> c_bind (process d 0 (im_object item) (im_object item)) (\<lambda>d1. free_item d1 p)
            | EXECUTE \<Rightarrow> free_item (run_handler (im_match_handler item) d) p
            | HEARTBEAT \<Rightarrow> c_bind (free_item (timeout_del p d) p) (\<lambda>d1. Inr (schedule_heartbeat d1))
            | DIAG \<Rightarrow> free_item d p
            | TQUIT \<Rightarrow> c_bind (free_item d p) (\<lambda>d1. Inr (free_items (d1\<lparr>d_loopexit := True\<rparr>)))
            | TIMEOUT \<Rightarrow> Inl Assert_Failed))"

definition d_que_push :: "'j Oed_Dispatcher \<Rightarrow> nat \<Rightarrow> 'j Oed_Dispatcher c_result" where
  "d_que_push d p =
     c_bind (item_at d p) (\<lambda>item. c_bind (que_push (d_que d) p item) (\<lambda>q. Inr (d\<lparr>d_que := q\<rparr>)))"

definition schedule_item :: "'j Oed_Dispatcher \<Rightarrow> nat \<Rightarrow> 'j Oed_Dispatcher c_result" where
  "schedule_item d p =
     (if 0 < d_number_of_threads d then d_que_push d p
      else c_bind (process_que_item d (Some p)) (\<lambda>d1.
             Inr (d1\<lparr>d_que := (d_que d1)\<lparr>q_counter := q_counter (d_que d1) + 1\<rparr>\<rparr>)))"

text \<open>The thread of the dispatcher takes as many items as there are wake-up bytes in the pipe.\<close>

fun process_que :: "nat \<Rightarrow> 'j Oed_Dispatcher \<Rightarrow> 'j Oed_Dispatcher c_result" where
  "process_que 0 d = Inr d"
| "process_que (Suc event_count) d =
     c_bind (que_pop (d_que d)) (\<lambda>(item, q).
     c_bind (process_que_item (d\<lparr>d_que := q\<rparr>) item) (process_que event_count))"

section \<open>Calls\<close>

definition schedule_new :: "'j Oed_Dispatcher \<Rightarrow> 'j item_ \<Rightarrow> 'j Oed_Dispatcher c_result" where
  "schedule_new d item = (let (p, d1) = alloc_item d item in schedule_item d1 p)"

definition Oed_Dispatcher_exec :: "'j Oed_Dispatcher \<Rightarrow> 'j \<Rightarrow> 'j Oed_Dispatcher c_result" where
  "Oed_Dispatcher_exec d job = schedule_new d ((item_new EXECUTE 0)\<lparr>im_match_handler := Some job\<rparr>)"

definition create_reg_item ::
  "'j Oed_Dispatcher \<Rightarrow> oe_scalar list \<Rightarrow> oe_time \<Rightarrow> bool \<Rightarrow> 'j option \<Rightarrow> 'j option \<Rightarrow> nat \<times> oe_id \<times> 'j Oed_Dispatcher" where
  "create_reg_item d templ_p dur consume match_handler timeout_handler =
     (let (sid, d1) = gen_id d;
          (p, d2) = alloc_item d1 ((item_new REG sid)\<lparr>im_duration := dur, im_consume := consume, im_object := templ_p,
                      im_match_handler := match_handler, im_timeout_handler := timeout_handler\<rparr>)
      in (p, sid, d2))"

definition Oed_Dispatcher_reg ::
  "'j Oed_Dispatcher \<Rightarrow> DataObject \<Rightarrow> oe_time \<Rightarrow> bool \<Rightarrow> 'j option \<Rightarrow> 'j option \<Rightarrow> (oe_id \<times> 'j Oed_Dispatcher) c_result" where
  "Oed_Dispatcher_reg d templ dur consume match_handler timeout_handler =
     (let (p, sid, d1) = create_reg_item d (strings templ) dur consume match_handler timeout_handler
      in c_bind (schedule_item d1 p) (\<lambda>d2. Inr (sid, d2)))"

fun create_group ::
  "'j Oed_Dispatcher \<Rightarrow> DataObjectList \<Rightarrow> oe_time \<Rightarrow> bool \<Rightarrow> 'j option \<Rightarrow> 'j option \<Rightarrow> oe_id \<Rightarrow> nat list \<Rightarrow>
   nat list \<times> oe_id \<times> 'j Oed_Dispatcher" where
  "create_group d [] dur consume m t sid items = (items, sid, d)"
| "create_group d (templ # rest) dur consume m t sid items =
     (let (p, sid', d1) = create_reg_item d (strings templ) dur consume m t
      in create_group d1 rest dur consume m t sid' (items @ [p]))"

text \<open>One round of the loop that schedules the items of a group: it reads the length of the group, which is
  released when an item scheduled before has been matched already.\<close>

definition schedule_member :: "'j Oed_Dispatcher \<Rightarrow> nat \<Rightarrow> nat list \<Rightarrow> nat \<Rightarrow> 'j Oed_Dispatcher option c_result" where
  "schedule_member d g groupitems i =
     c_bind (group_at d g) (\<lambda>ps.
       if i < length ps
       then c_bind (write_item d (groupitems ! i) (\<lambda>item. item\<lparr>im_group := Some g\<rparr>)) (\<lambda>d1.
            c_bind (schedule_item d1 (groupitems ! i)) (\<lambda>d2. Inr (Some d2)))
       else Inr None)"

fun schedule_group :: "nat \<Rightarrow> 'j Oed_Dispatcher \<Rightarrow> nat \<Rightarrow> nat list \<Rightarrow> nat \<Rightarrow> 'j Oed_Dispatcher c_result" where
  "schedule_group 0 d g groupitems i = Inl Fuel_Spent"
| "schedule_group (Suc n) d g groupitems i =
     c_bind (schedule_member d g groupitems i) (\<lambda>r.
       case r of None \<Rightarrow> Inr d | Some d1 \<Rightarrow> schedule_group n d1 g groupitems (i + 1))"

text \<open>The items of a group are made first; then the group has its address and they are scheduled.\<close>

definition make_group ::
  "'j Oed_Dispatcher \<Rightarrow> DataObjectList \<Rightarrow> oe_time \<Rightarrow> bool \<Rightarrow> 'j option \<Rightarrow> 'j option \<Rightarrow>
   nat list \<times> oe_id \<times> nat \<times> 'j Oed_Dispatcher" where
  "make_group d all dur consume m t =
     (let (ps, sid, d1) = create_group d all dur consume m t 0 []; g = d_brk d1
      in (ps, sid, g, d1\<lparr>d_groups := (d_groups d1)(g \<mapsto> ps), d_brk := g + 1\<rparr>))"

definition Oed_Dispatcher_reg_group ::
  "'j Oed_Dispatcher \<Rightarrow> DataObjectList \<Rightarrow> oe_time \<Rightarrow> bool \<Rightarrow> 'j option \<Rightarrow> 'j option \<Rightarrow> (oe_id \<times> 'j Oed_Dispatcher) c_result" where
  "Oed_Dispatcher_reg_group d all dur consume match_handler timeout_handler =
     (let (ps, sid, g, d1) = make_group d all dur consume match_handler timeout_handler
      in c_bind (schedule_group (length ps + 1) d1 g ps 0) (\<lambda>d2. Inr (sid, d2)))"

definition Oed_Dispatcher_unreg :: "'j Oed_Dispatcher \<Rightarrow> oe_id \<Rightarrow> 'j Oed_Dispatcher c_result" where
  "Oed_Dispatcher_unreg d sid = schedule_new d (item_new UNREG sid)"

definition Oed_Dispatcher_process :: "'j Oed_Dispatcher \<Rightarrow> DataObject \<Rightarrow> bool \<Rightarrow> 'j Oed_Dispatcher c_result" where
  "Oed_Dispatcher_process d props make_clone =
     (let (sid, d1) = gen_id d
      in schedule_new d1 ((item_new PROCESS sid)\<lparr>im_object := strings props, im_free_alloc := make_clone\<rparr>))"

definition Oed_Dispatcher_print_diag :: "'j Oed_Dispatcher \<Rightarrow> 'j Oed_Dispatcher c_result" where
  "Oed_Dispatcher_print_diag d = (let (sid, d1) = gen_id d in schedule_new d1 (item_new DIAG sid))"

definition Oed_Dispatcher_stats :: "'j Oed_Dispatcher \<Rightarrow> 'j Oed_Dispatcher c_result" where
  "Oed_Dispatcher_stats d = (let (sid, d1) = gen_id d in schedule_new d1 (item_new DIAG sid))"

text \<open>With a thread the call goes on to wait for it; without, the counter is left alone.\<close>

definition Oed_Dispatcher_stop :: "'j Oed_Dispatcher \<Rightarrow> 'j Oed_Dispatcher c_result" where
  "Oed_Dispatcher_stop d =
     (let (sid, d1) = gen_id d; (p, d2) = alloc_item d1 (item_new TQUIT sid)
      in if 0 < d_number_of_threads d then d_que_push d2 p else process_que_item d2 (Some p))"

text \<open>What \<^verbatim>\<open>_do_work\<close> does before it enters the event loop.\<close>

definition d_do_work :: "'j Oed_Dispatcher \<Rightarrow> 'j Oed_Dispatcher" where
  "d_do_work d = (schedule_heartbeat d)\<lparr>d_running := True\<rparr>"

text \<open>With a thread the call returns when the thread has set the flag, without one the event loop runs in the call.\<close>

definition Oed_Dispatcher_start :: "'j Oed_Dispatcher \<Rightarrow> int \<times> 'j Oed_Dispatcher" where
  "Oed_Dispatcher_start d = (0, d_do_work d)"

text \<open>The table is released; items and sets that are still in it are not.\<close>

definition Oed_Dispatcher_free :: "'j Oed_Dispatcher option \<Rightarrow> 'j Oed_Dispatcher option c_result" where
  "Oed_Dispatcher_free p = (case p of None \<Rightarrow> Inl Assert_Failed | Some d \<Rightarrow> Inr None)"

section \<open>Timers\<close>

text \<open>\<open>due p d\<close>: the event loop may call back for the item at \<open>p\<close>; its timer is then no longer pending.\<close>

definition due :: "nat \<Rightarrow> 'j Oed_Dispatcher \<Rightarrow> bool" where
  "due p d = (p \<in> fst ` set (d_timers d))"

definition timeout_cb :: "'j Oed_Dispatcher \<Rightarrow> nat \<Rightarrow> 'j Oed_Dispatcher c_result" where
  "timeout_cb d p = remove_item d p True"

definition heartbeat_cb :: "'j Oed_Dispatcher \<Rightarrow> nat \<Rightarrow> 'j Oed_Dispatcher c_result" where
  "heartbeat_cb d p = schedule_item d p"

definition Oed_Dispatcher_timed_exec :: "'j Oed_Dispatcher \<Rightarrow> 'j \<Rightarrow> oe_time \<Rightarrow> 'j Oed_Dispatcher" where
  "Oed_Dispatcher_timed_exec d job millis =
     d\<lparr>d_timed := d_timed d @ [(job, \<lparr>tv_sec = sint millis sdiv 1000, tv_usec = (sint millis smod 1000) * 1000\<rparr>)]\<rparr>"

definition timed_exec_cb :: "'j Oed_Dispatcher \<Rightarrow> 'j \<Rightarrow> 'j Oed_Dispatcher" where
  "timed_exec_cb d job = run_handler (Some job) d"

end
