(* ===== verification/Dispatcher_Props.thy ===== *)
theory Dispatcher_Props
  imports Dispatcher
begin

text \<open>
  The template matcher at work: the invariant of its index of registrations, that its operations never touch
  released memory, that a matching event runs the callback it matches, and that no callback runs twice.

  The theorems are about registrations with one template each, whose calls push one item and so are one step
  of the queue.  Groups of several templates are the subject of the last section: there the code touches
  released memory.
\<close>

section \<open>Views of the state\<close>

definition live :: "'j Oed_Dispatcher \<Rightarrow> nat \<Rightarrow> 'j item_ option" where
  "live d p = map_option cell_item (q_mem (d_que d) p)"

lemma live_upd [simp]:
  "live (d\<lparr>d_items := x1\<rparr>) = live d" "live (d\<lparr>d_sets := x2\<rparr>) = live d" "live (d\<lparr>d_groups := x3\<rparr>) = live d"
  "live (d\<lparr>d_brk := x4\<rparr>) = live d" "live (d\<lparr>d_next_unused_id := x5\<rparr>) = live d" "live (d\<lparr>d_timers := x6\<rparr>) = live d"
  "live (d\<lparr>d_ran := x7\<rparr>) = live d" "live (d\<lparr>d_timed := x8\<rparr>) = live d" "live (d\<lparr>d_running := x9\<rparr>) = live d"
  by (simp_all add: live_def fun_eq_iff)

lemma live_que [simp]: "live (d\<lparr>d_que := q\<rparr>) = (\<lambda>p. map_option cell_item (q_mem q p))"
  by (simp add: live_def fun_eq_iff)

lemma item_at_live: "item_at d p = (case live d p of None \<Rightarrow> Inl Use_After_Free | Some it \<Rightarrow> Inr it)"
  by (simp add: item_at_def que_item_def live_def split: option.splits)

lemma item_at_Some [simp]: "live d p = Some it \<Longrightarrow> item_at d p = Inr it"
  by (simp add: item_at_live)

text \<open>Everything but the items.\<close>

definition same_rest :: "'j Oed_Dispatcher \<Rightarrow> 'j Oed_Dispatcher \<Rightarrow> bool" where
  "same_rest d d' =
     (d_items d' = d_items d \<and> d_sets d' = d_sets d \<and> d_groups d' = d_groups d \<and> d_next_unused_id d' = d_next_unused_id d \<and>
      d_timers d' = d_timers d \<and> d_ran d' = d_ran d \<and> d_number_of_threads d' = d_number_of_threads d)"

lemma same_restD:
  assumes "same_rest d d'"
  shows "d_items d' = d_items d" "d_sets d' = d_sets d" "d_groups d' = d_groups d"
    "d_next_unused_id d' = d_next_unused_id d" "d_timers d' = d_timers d" "d_ran d' = d_ran d"
    "d_number_of_threads d' = d_number_of_threads d"
  using assms by (simp_all add: same_rest_def)

text \<open>The queue as a list of addresses survives changes of items in place.\<close>

lemma queue_of_write:
  assumes "queue_of q ps" "q_mem q p = Some c"
  shows "queue_of (q\<lparr>q_mem := (q_mem q)(p \<mapsto> c\<lparr>cell_item := x\<rparr>)\<rparr>) ps"
proof -
  have "linked ((q_mem q)(p \<mapsto> c\<lparr>cell_item := x\<rparr>)) a qs e" if "linked (q_mem q) a qs e" for a qs e
    using that assms(2) by (induction qs arbitrary: a) auto
  then show ?thesis using assms(1) by (simp add: queue_of_def)
qed

lemma queue_of_other:
  assumes "queue_of q ps" "p \<notin> set ps"
  shows "queue_of (q\<lparr>q_mem := (q_mem q)(p := x)\<rparr>) ps"
proof -
  have "linked ((q_mem q)(p := x)) (q_head q) ps None"
    by (rule linked_cong [of "q_mem q"]) (use assms in \<open>auto simp: queue_of_def\<close>)
  then show ?thesis using assms(1) by (simp add: queue_of_def)
qed

lemma write_item_spec:
  assumes "live d p = Some it" "queue_of (d_que d) qs"
  shows "\<exists>d'. write_item d p f = Inr d' \<and> live d' = (live d)(p \<mapsto> f it) \<and> queue_of (d_que d') qs \<and> same_rest d d' \<and>
    d_brk d' = d_brk d"
proof -
  obtain c where c: "q_mem (d_que d) p = Some c" "cell_item c = it" using assms(1) by (auto simp: live_def)
  then show ?thesis using queue_of_write [OF assms(2) c(1)]
    by (simp add: write_item_def Let_def same_rest_def fun_eq_iff live_def)
qed

lemma free_item_spec:
  assumes "live d p = Some it" "queue_of (d_que d) qs" "p \<notin> set qs"
  shows "\<exists>d'. free_item d p = Inr d' \<and> live d' = (live d)(p := None) \<and> queue_of (d_que d') qs \<and> same_rest d d' \<and>
    d_brk d' = d_brk d"
proof -
  obtain c where c: "q_mem (d_que d) p = Some c" using assms(1) by (auto simp: live_def)
  then show ?thesis using queue_of_other [OF assms(2,3), of None]
    by (simp add: free_item_def que_free_item_def same_rest_def fun_eq_iff live_def)
qed

lemma alloc_item_spec:
  assumes "alloc_item d it = (p, d')" "queue_of (d_que d) qs" "d_brk d \<notin> set qs"
  shows "p = d_brk d" "live d' = (live d)(p \<mapsto> it)" "queue_of (d_que d') qs" "same_rest d d'" "d_brk d' = d_brk d + 1"
  using assms queue_of_other [OF assms(2,3), of "Some \<lparr>cell_item = it, cell_next = None\<rparr>"]
  by (auto simp: alloc_item_def Let_def same_rest_def fun_eq_iff live_def)

text \<open>Pushing an allocated item that is not in the queue.\<close>

lemma d_que_push_spec:
  assumes "live d p = Some it" "queue_of (d_que d) qs" "p \<notin> set qs"
  shows "\<exists>d'. d_que_push d p = Inr d' \<and> live d' = live d \<and> queue_of (d_que d') (qs @ [p]) \<and> same_rest d d' \<and>
    d_brk d' = d_brk d"
proof -
  let ?q0 = "(d_que d)\<lparr>q_mem := (q_mem (d_que d))(p := None)\<rparr>"
  have q0: "queue_of ?q0 qs" by (rule queue_of_other [OF assms(2,3)])
  obtain q' where q': "que_push ?q0 p it = Inr q'" "queue_of q' (qs @ [p])"
      "\<And>a. a \<noteq> p \<Longrightarrow> map_option cell_item (q_mem q' a) = map_option cell_item (q_mem ?q0 a)"
      "map_option cell_item (q_mem q' p) = Some it"
    using que_push_spec [OF q0, of p it] by auto
  have same: "que_push (d_que d) p it = que_push ?q0 p it"
    by (cases "d_que d") (simp add: que_push_def Let_def split: option.splits)
  have "(\<lambda>a. map_option cell_item (q_mem q' a)) = live d"
  proof
    fix a
    show "map_option cell_item (q_mem q' a) = live d a"
      using q'(3) [of a] q'(4) assms(1) by (cases "a = p") (auto simp: live_def)
  qed
  then show ?thesis using q'(1,2) assms(1) same
    by (simp add: d_que_push_def same_rest_def)
qed

section \<open>The invariant\<close>

interpretation iset: hash_ops d_itemcmp d_itemhash
  by unfold_locales (auto simp: d_itemcmp_def d_itemhash_def Let_def split: if_splits)

lemma d_itemcmp_0 [simp]: "d_itemcmp x y = 0 \<longleftrightarrow> snd x = snd y"
  by (auto simp: d_itemcmp_def Let_def)

abbreviation members :: "item_set \<Rightarrow> (nat \<times> oe_id) set" where
  "members s \<equiv> set (Set_toArray s)"

text \<open>An item that is registered under the set at \<open>a\<close>.\<close>

definition indexed :: "(oe_scalar, nat) table_T \<Rightarrow> 'j item_ \<Rightarrow> nat \<Rightarrow> bool" where
  "indexed T it a =
     (im_type it = REG \<and> im_items it = Some a \<and> im_key_idx it < length (im_object it) \<and>
      im_object it ! im_key_idx it \<noteq> ''_'' \<and> Table_get T (im_object it ! im_key_idx it) = Some a)"

text \<open>The index: sets hold exactly the registered items, and every set that is not empty is in the table under
  one key (up to the hash of keys).\<close>

definition index_ok :: "(nat \<Rightarrow> 'j item_ option) \<Rightarrow> (nat \<Rightarrow> item_set option) \<Rightarrow> (oe_scalar, nat) table_T \<Rightarrow> bool" where
  "index_ok L S T =
     (skey.tgood T \<and>
      (\<forall>a s. S a = Some s \<longrightarrow> iset.good s \<and> (\<forall>p sid. (p, sid) \<in> members s \<longrightarrow>
         (\<exists>it. L p = Some it \<and> im_sid it = sid \<and> im_items it = Some a))) \<and>
      (\<forall>p it a. L p = Some it \<longrightarrow> im_items it = Some a \<longrightarrow>
         indexed T it a \<and> (\<exists>s. S a = Some s \<and> (p, im_sid it) \<in> members s)) \<and>
      (\<forall>k a. Table_get T k = Some a \<longrightarrow> S a \<noteq> None) \<and>
      (\<forall>k k' a. Table_get T k = Some a \<longrightarrow> Table_get T k' = Some a \<longrightarrow> stringcmp k k' = 0))"

definition ids_ok :: "(nat \<Rightarrow> 'j item_ option) \<Rightarrow> oe_id \<Rightarrow> bool" where
  "ids_ok L n =
     ((\<forall>p it. L p = Some it \<longrightarrow> im_type it = REG \<longrightarrow> im_sid it < n) \<and>
      (\<forall>p q it iq. L p = Some it \<longrightarrow> L q = Some iq \<longrightarrow> im_type it = REG \<longrightarrow> im_type iq = REG \<longrightarrow>
         im_sid it = im_sid iq \<longrightarrow> p = q))"

definition queue_ok :: "(nat \<Rightarrow> 'j item_ option) \<Rightarrow> nat list \<Rightarrow> (nat \<times> timeval) list \<Rightarrow> bool" where
  "queue_ok L qs tms =
     ((\<forall>p \<in> set qs. \<exists>it. L p = Some it \<and> im_items it = None \<and> im_type it \<noteq> TIMEOUT) \<and>
      (\<forall>p \<in> fst ` set tms. p \<notin> set qs \<and> (\<exists>it. L p = Some it \<and> im_timer_event it \<and> im_type it \<in> {REG, HEARTBEAT} \<and>
         (im_items it = None \<longrightarrow> (\<forall>x \<in> set (im_object it). x = ''_'')))))"

definition groups_ok :: "(nat \<Rightarrow> 'j item_ option) \<Rightarrow> (nat \<Rightarrow> nat list option) \<Rightarrow> bool" where
  "groups_ok L G = (\<forall>p it g. L p = Some it \<longrightarrow> im_group it = Some g \<longrightarrow> im_type it = REG \<and> G g = Some [p])"

definition fresh_ok :: "(nat \<Rightarrow> 'j item_ option) \<Rightarrow> (nat \<Rightarrow> item_set option) \<Rightarrow> (nat \<Rightarrow> nat list option) \<Rightarrow> nat \<Rightarrow> bool" where
  "fresh_ok L S G n = (\<forall>p. n \<le> p \<longrightarrow> L p = None \<and> S p = None \<and> G p = None)"

definition disp_inv :: "'j Oed_Dispatcher \<Rightarrow> nat list \<Rightarrow> bool" where
  "disp_inv d qs =
     (queue_of (d_que d) qs \<and> index_ok (live d) (d_sets d) (d_items d) \<and> ids_ok (live d) (d_next_unused_id d) \<and>
      queue_ok (live d) qs (d_timers d) \<and> groups_ok (live d) (d_groups d) \<and>
      fresh_ok (live d) (d_sets d) (d_groups d) (d_brk d) \<and> d_number_of_threads d = 1)"

lemma disp_invD:
  assumes "disp_inv d qs"
  shows "queue_of (d_que d) qs" "index_ok (live d) (d_sets d) (d_items d)" "ids_ok (live d) (d_next_unused_id d)"
    "queue_ok (live d) qs (d_timers d)" "groups_ok (live d) (d_groups d)"
    "fresh_ok (live d) (d_sets d) (d_groups d) (d_brk d)" "d_number_of_threads d = 1"
  using assms by (simp_all add: disp_inv_def)

lemma index_okD:
  assumes "index_ok L S T"
  shows "skey.tgood T"
    and "S a = Some s \<Longrightarrow> iset.good s"
    and "S a = Some s \<Longrightarrow> (p, sid) \<in> members s \<Longrightarrow> \<exists>it. L p = Some it \<and> im_sid it = sid \<and> im_items it = Some a"
    and "L p = Some it \<Longrightarrow> im_items it = Some a \<Longrightarrow> indexed T it a"
    and "L p = Some it \<Longrightarrow> im_items it = Some a \<Longrightarrow> \<exists>s. S a = Some s \<and> (p, im_sid it) \<in> members s"
    and "Table_get T k = Some a \<Longrightarrow> S a \<noteq> None"
    and "Table_get T k = Some a \<Longrightarrow> Table_get T k' = Some a \<Longrightarrow> stringcmp k k' = 0"
  using assms by (auto simp: index_ok_def)

section \<open>Changes of the index\<close>

lemma Table_get_cong:
  assumes "skey.tgood T" "stringcmp j k = 0"
  shows "Table_get T j = Table_get T k"
proof -
  have "Table_get T j = Some v \<longleftrightarrow> Table_get T k = Some v" for v
    unfolding Table_get_def skey.get_iff [OF assms(1)] using skey.cmp_left [OF assms(2)] skey.cmp_sym [OF assms(2)]
      skey.cmp_trans assms(2) by blast
  then show ?thesis by (metis option.exhaust)
qed

lemma Set_length_0: "iset.good s \<Longrightarrow> Set_length s = 0 \<longleftrightarrow> members s = {}"
  using set_okD(3) [of s] iset.goodD(1) [of s] by (simp add: Set_length_def Set_toArray_def)

lemma ids_unique:
  "ids_ok L n \<Longrightarrow> L p = Some it \<Longrightarrow> L q = Some iq \<Longrightarrow> im_type it = REG \<Longrightarrow> im_type iq = REG \<Longrightarrow> im_sid it = im_sid iq \<Longrightarrow> p = q"
  by (simp add: ids_ok_def)

lemma index_remove:
  assumes ok: "index_ok L S T" and ids: "ids_ok L n" and p: "L p = Some it" "im_items it = Some a" and s: "S a = Some s"
    and rm: "Set_remove s (p, im_sid it) = (r, s')"
  shows "r = Some (p, im_sid it)" "index_ok (L(p := None)) (S(a \<mapsto> s')) T" "iset.good s'"
    "members s' = members s - {(p, im_sid it)}"
proof -
  note D = index_okD [OF ok]
  have g: "iset.good s" using D(2) [OF s] .
  note sp = iset.Set_remove_spec [OF iset.goodD [OF g] rm]
  have it: "im_type it = REG" using D(4) [OF p] by (simp add: indexed_def)
  have mem: "(p, im_sid it) \<in> members s" using D(5) [OF p] s by auto
  have uniq: "x = (p, im_sid it)" if xm: "x \<in> members s" "snd x = im_sid it" for x
  proof -
    obtain q sid where x: "x = (q, sid)" by (cases x)
    obtain iq where iq: "L q = Some iq" "im_sid iq = sid" "im_items iq = Some a" using D(3) [OF s] xm(1) x by blast
    have "im_type iq = REG" using D(4) [OF iq(1,3)] by (simp add: indexed_def)
    then have "q = p" using ids_unique [OF ids iq(1) p(1) _ it] iq(2) xm(2) x by simp
    then show ?thesis using x xm(2) by simp
  qed
  show r: "r = Some (p, im_sid it)"
  proof (cases r)
    case None
    then show ?thesis using sp(2) mem by auto
  next
    case (Some x)
    then show ?thesis using sp(2) uniq [of x] by simp
  qed
  show good: "iset.good s'" using sp(1) Set_remove_ops [OF rm] g by (simp add: iset.good_def)
  have "members s' = {y \<in> members s. im_sid it \<noteq> snd y}" using sp(1) by simp
  then show mem': "members s' = members s - {(p, im_sid it)}"
    by (intro set_eqI) (use uniq in fastforce)
  have only: "q = p" if "L q = Some iq" "im_items iq = Some a" "(q, im_sid iq) \<notin> members s'" for q iq
    using D(5) [OF that(1,2)] s mem' that(3) by auto
  have old: "\<exists>iq. (L(p := None)) q = Some iq \<and> im_sid iq = sid \<and> im_items iq = Some b"
    if b: "(S(a \<mapsto> s')) b = Some u" "(q, sid) \<in> members u" for q sid b u
  proof -
    obtain u0 where u0: "S b = Some u0" "(q, sid) \<in> members u0" using b s mem' by (auto split: if_splits)
    obtain iq where iq: "L q = Some iq" "im_sid iq = sid" "im_items iq = Some b" using D(3) [OF u0] by blast
    have "q \<noteq> p"
    proof
      assume "q = p"
      then have "b = a" "sid = im_sid it" using iq p by auto
      then show False using b mem' \<open>q = p\<close> by simp
    qed
    then show ?thesis using iq by simp
  qed
  have new: "\<exists>u. (S(a \<mapsto> s')) b = Some u \<and> (q, im_sid iq) \<in> members u"
    if q: "(L(p := None)) q = Some iq" "im_items iq = Some b" for q iq b
  proof -
    have q': "L q = Some iq" "q \<noteq> p" using q(1) by (auto split: if_splits)
    obtain u where "S b = Some u" "(q, im_sid iq) \<in> members u" using D(5) [OF q'(1) q(2)] by blast
    then show ?thesis using only [OF q'(1)] q'(2) q(2) by (cases "b = a") auto
  qed
  show "index_ok (L(p := None)) (S(a \<mapsto> s')) T"
    unfolding index_ok_def
  proof (intro conjI allI impI)
    show "skey.tgood T" by (rule D(1))
    show "iset.good u" if "(S(a \<mapsto> s')) b = Some u" for b u using that good D(2) by (auto split: if_splits)
    show "indexed T iq b" if "(L(p := None)) q = Some iq" "im_items iq = Some b" for q iq b
      using that D(4) by (auto split: if_splits)
    show "(S(a \<mapsto> s')) b \<noteq> None" if "Table_get T k = Some b" for k b using that D(6) by auto
    show "stringcmp k k' = 0" if "Table_get T k = Some b" "Table_get T k' = Some b" for k k' b using D(7) [OF that] .
    show "\<exists>iq. (L(p := None)) q = Some iq \<and> im_sid iq = sid \<and> im_items iq = Some b"
      if "(S(a \<mapsto> s')) b = Some u" "(q, sid) \<in> members u" for q sid b u using old [OF that] .
    show "\<exists>u. (S(a \<mapsto> s')) b = Some u \<and> (q, im_sid iq) \<in> members u"
      if "(L(p := None)) q = Some iq" "im_items iq = Some b" for q iq b using new [OF that] .
  qed
qed

lemma index_drop:
  assumes ok: "index_ok L S T" and a: "S a = Some s" "members s = {}" "Table_get T key = Some a"
  shows "index_ok L (S(a := None)) (snd (Table_remove T key))"
proof -
  note D = index_okD [OF ok]
  let ?T = "snd (Table_remove T key)"
  have get: "Table_get ?T j = (if stringcmp j key = 0 then None else Table_get T j)" for j
    by (rule sktab.get_after_remove [OF D(1)])
  have other: "b \<noteq> a" if "L q = Some iq" "im_items iq = Some b" for q iq b
    using D(5) [OF that] a(1,2) by auto
  have keep: "Table_get ?T k = Some b" if "Table_get T k = Some b" "b \<noteq> a" for k b
    using that get Table_get_cong [OF D(1), of k key] a(3) by auto
  have "indexed ?T iq b" if "L q = Some iq" "im_items iq = Some b" for q iq b
    using D(4) [OF that] other [OF that] keep by (auto simp: indexed_def)
  moreover have "\<exists>u. (S(a := None)) b = Some u \<and> (q, im_sid iq) \<in> members u" if "L q = Some iq" "im_items iq = Some b" for q iq b
    using D(5) [OF that] other [OF that] by auto
  moreover have "(S(a := None)) b \<noteq> None" if "Table_get ?T k = Some b" for k b
    using that get [of k] D(6) [of k b] D(7) [of k a key] a(3) by (auto split: if_splits)
  moreover have "stringcmp k k' = 0" if "Table_get ?T k = Some b" "Table_get ?T k' = Some b" for k k' b
    using that get [of k] get [of k'] D(7) [of k b k'] by (auto split: if_splits)
  moreover have "skey.tgood ?T" by (rule sktab.remove_ok [OF D(1)])
  ultimately show ?thesis using D(2,3) unfolding index_ok_def by (auto split: if_splits)
qed

text \<open>Changing an item without touching what the index is about.\<close>

definition same_index :: "'j item_ \<Rightarrow> 'j item_ \<Rightarrow> bool" where
  "same_index it it' =
     (im_type it' = im_type it \<and> im_sid it' = im_sid it \<and> im_items it' = im_items it \<and>
      im_key_idx it' = im_key_idx it \<and> im_object it' = im_object it)"

lemma index_write:
  assumes "index_ok L S T" "L p = Some it" "same_index it it'"
  shows "index_ok (L(p \<mapsto> it')) S T"
  using assms unfolding index_ok_def same_index_def indexed_def by (auto split: if_splits) (metis option.inject)+

lemma ids_write: "ids_ok L n \<Longrightarrow> L p = Some it \<Longrightarrow> same_index it it' \<Longrightarrow> ids_ok (L(p \<mapsto> it')) n"
  unfolding ids_ok_def same_index_def by (auto split: if_splits)

lemma free_oks:
  "ids_ok L n \<Longrightarrow> ids_ok (L(p := None)) n" "groups_ok L G \<Longrightarrow> groups_ok (L(p := None)) G"
  "fresh_ok L S G b \<Longrightarrow> fresh_ok (L(p := None)) S G b"
  "queue_ok L qs tms \<Longrightarrow> p \<notin> set qs \<Longrightarrow> queue_ok (L(p := None)) qs (filter (\<lambda>t. fst t \<noteq> p) tms)"
  unfolding ids_ok_def groups_ok_def fresh_ok_def queue_ok_def by (auto split: if_splits)

section \<open>Removing registrations\<close>

definition handler_run :: "bool \<Rightarrow> 'j option \<Rightarrow> 'j list" where
  "handler_run b h = (case h of None \<Rightarrow> [] | Some j \<Rightarrow> if b then [j] else [])"

lemma run_handler_eq: "run_handler h d = d\<lparr>d_ran := d_ran d @ handler_run True h\<rparr>"
  by (simp add: run_handler_def handler_run_def split: option.splits)

lemma disp_inv_ran [simp]: "disp_inv (d\<lparr>d_ran := r\<rparr>) qs = disp_inv d qs"
  by (simp add: disp_inv_def)

text \<open>What removing the item at \<open>p\<close> leaves of a state.\<close>

definition removed :: "'j Oed_Dispatcher \<Rightarrow> nat \<Rightarrow> 'j list \<Rightarrow> 'j Oed_Dispatcher \<Rightarrow> bool" where
  "removed d p js d' =
     (live d' = (live d)(p := None) \<and> d_ran d' = d_ran d @ js \<and> d_next_unused_id d' = d_next_unused_id d \<and>
      set (d_timers d') \<subseteq> set (d_timers d))"

lemma drop_empty_set_spec:
  assumes ok: "index_ok L (d_sets d) (d_items d)" and s: "d_sets d a = Some s" "iset.good s" and it: "indexed (d_items d) it a"
  shows "\<exists>S T. drop_empty_set d a s it = Inr (d\<lparr>d_items := T, d_sets := S\<rparr>) \<and> index_ok L S T \<and> dom S \<subseteq> dom (d_sets d)"
proof -
  let ?key = "im_object it ! im_key_idx it"
  have k: "im_key_idx it < length (im_object it)" "Table_get (d_items d) ?key = Some a"
    using it by (simp_all add: indexed_def)
  show ?thesis
  proof (cases "im_key_idx it \<noteq> 0 \<and> Set_length s = 0")
    case True
    then have "members s = {}" using Set_length_0 [OF s(2)] by simp
    from index_drop [OF ok s(1) this k(2)]
    have "index_ok L ((d_sets d)(a := None)) (snd (Table_remove (d_items d) ?key))" .
    then show ?thesis using True k(1)
      by (intro exI [of _ "(d_sets d)(a := None)"] exI [of _ "snd (Table_remove (d_items d) ?key)"])
        (auto simp: drop_empty_set_def split: if_splits)
  next
    case False
    then have "drop_empty_set d a s it = Inr d" using k(1) by (auto simp: drop_empty_set_def)
    then show ?thesis using ok by (intro exI [of _ "d_sets d"] exI [of _ "d_items d"]) auto
  qed
qed

lemma remove_single_spec:
  assumes inv: "disp_inv d qs" and p: "live d p = Some it" "im_items it = Some a"
  shows "\<exists>d'. remove_single d p timeout = Inr d' \<and> disp_inv d' qs \<and> removed d p (handler_run timeout (im_timeout_handler it)) d' \<and>
    d_groups d' = d_groups d"
proof -
  note I = disp_invD [OF inv]
  obtain s where s: "d_sets d a = Some s" using index_okD(5) [OF I(2) p] by auto
  obtain r s' where rm: "Set_remove s (p, im_sid it) = (r, s')" by fastforce
  note R = index_remove [OF I(2,3) p s rm]
  have np: "p \<notin> set qs" using I(4) p by (auto simp: queue_ok_def)
  let ?d1 = "d\<lparr>d_sets := (d_sets d)(a \<mapsto> s')\<rparr>"
  define d2 where "d2 = (if im_timer_event it then timeout_del p ?d1 else ?d1)"
  define d3 where "d3 = (if timeout then run_handler (im_timeout_handler it) d2 else d2)"
  have tm: "fst t \<noteq> p" if "t \<in> set (d_timers d)" "\<not> im_timer_event it" for t
    using I(4) that p(1) unfolding queue_ok_def by fastforce
  have d3: "live d3 = live d" "d_sets d3 = (d_sets d)(a \<mapsto> s')" "d_items d3 = d_items d" "d_que d3 = d_que d"
      "d_groups d3 = d_groups d" "d_next_unused_id d3 = d_next_unused_id d" "d_brk d3 = d_brk d"
      "d_number_of_threads d3 = d_number_of_threads d" "d_ran d3 = d_ran d @ handler_run timeout (im_timeout_handler it)"
      "d_timers d3 = filter (\<lambda>t. fst t \<noteq> p) (d_timers d)"
    using tm by (auto simp: d3_def d2_def timeout_del_def run_handler_eq handler_run_def filter_id_conv split: option.splits)
  have i3: "index_ok ((live d)(p := None)) (d_sets d3) (d_items d3)" using R(2) d3(2,3) by simp
  have ix: "indexed (d_items d3) it a" using index_okD(4) [OF I(2) p] d3(3) by simp
  obtain S T where ST: "drop_empty_set d3 a s' it = Inr (d3\<lparr>d_items := T, d_sets := S\<rparr>)"
      "index_ok ((live d)(p := None)) S T" "dom S \<subseteq> dom (d_sets d3)"
    using drop_empty_set_spec [OF i3 _ R(3) ix] d3(2) by auto
  let ?d5 = "d3\<lparr>d_items := T, d_sets := S\<rparr>"
  obtain d' where d': "free_item ?d5 p = Inr d'" "live d' = (live ?d5)(p := None)" "queue_of (d_que d') qs"
      "same_rest ?d5 d'" "d_brk d' = d_brk ?d5"
    using free_item_spec [of ?d5 p it qs] p(1) d3(1,4) I(1) np by auto
  note SR = same_restD [OF d'(4)]
  have S_fresh: "fresh_ok ((live d)(p := None)) S (d_groups d) (d_brk d)"
    using I(6) ST(3) d3(2) p(1) s unfolding fresh_ok_def by (auto simp: subset_iff dom_def) (metis not_None_eq option.distinct(1))
  have inv': "disp_inv d' qs"
    using d' SR d3 I ST(2) S_fresh free_oks [of "live d"] np by (simp add: disp_inv_def)
  have "remove_single d p timeout = free_item ?d5 p"
    using p s rm R(1) ST(1) unfolding d3_def d2_def
    by (simp add: remove_single_def set_at_def Let_def)
  then show ?thesis using d' SR d3 inv' by (auto simp: removed_def)
qed

lemma remove_item_spec:
  assumes inv: "disp_inv d qs" and p: "live d p = Some it" "im_items it = Some a"
  shows "\<exists>d'. remove_item d p timeout = Inr d' \<and> disp_inv d' qs \<and> removed d p (handler_run timeout (im_timeout_handler it)) d'"
proof (cases "im_group it")
  case None
  then show ?thesis using remove_single_spec [OF inv p, of timeout] p by (auto simp: remove_item_def)
next
  case (Some g)
  note I = disp_invD [OF inv]
  have g: "d_groups d g = Some [p]" using I(5) p(1) Some by (simp add: groups_ok_def)
  let ?f = "\<lambda>item. let it1 = item\<lparr>im_group := None\<rparr> in
       if 0 < (0 :: nat) then it1\<lparr>im_match_handler := None, im_timeout_handler := None\<rparr> else it1"
  obtain d1 where d1: "write_item d p ?f = Inr d1" "live d1 = (live d)(p \<mapsto> ?f it)" "queue_of (d_que d1) qs"
      "same_rest d d1" "d_brk d1 = d_brk d"
    using write_item_spec [OF p(1) I(1), of ?f] by blast
  note SR = same_restD [OF d1(4)]
  have same: "same_index it (?f it)" by (simp add: same_index_def)
  have "queue_ok (live d1) qs (d_timers d1)" "groups_ok (live d1) (d_groups d1)" "fresh_ok (live d1) (d_sets d1) (d_groups d1) (d_brk d1)"
    using I(4-6) p(1) SR d1(2,5) by (auto simp: queue_ok_def groups_ok_def fresh_ok_def split: if_splits)
  then have inv1: "disp_inv d1 qs"
    using index_write [OF I(2) p(1) same] ids_write [OF I(3) p(1) same] I(7) SR d1(2,3) by (simp add: disp_inv_def)
  have p1: "live d1 p = Some (?f it)" "im_items (?f it) = Some a" using d1(2) p(2) by simp_all
  obtain d2 where d2: "remove_single d1 p timeout = Inr d2" "disp_inv d2 qs"
      "removed d1 p (handler_run timeout (im_timeout_handler it)) d2"
    using remove_single_spec [OF inv1 p1, of timeout] by auto
  let ?d' = "d2\<lparr>d_groups := (d_groups d2)(g := None)\<rparr>"
  have L2: "live d2 = (live d)(p := None)" using d2(3) d1(2) by (simp add: removed_def)
  have "groups_ok (live d2) ((d_groups d2)(g := None))"
  proof -
    have "h \<noteq> g" if q: "live d2 q = Some iq" "im_group iq = Some h" for q iq h
    proof
      assume "h = g"
      then have "d_groups d g = Some [q]" using I(5) q L2 by (auto simp: groups_ok_def split: if_splits)
      then have "q = p" using g by simp
      then show False using q(1) L2 by simp
    qed
    then show ?thesis using disp_invD(5) [OF d2(2)] by (auto simp: groups_ok_def)
  qed
  moreover have "fresh_ok (live d2) (d_sets d2) ((d_groups d2)(g := None)) (d_brk d2)"
    using disp_invD(6) [OF d2(2)] by (auto simp: fresh_ok_def)
  ultimately have inv': "disp_inv ?d' qs" using disp_invD [OF d2(2)] by (simp add: disp_inv_def)
  have "remove_item d p timeout = Inr ?d'"
    using p Some g d1(1) d2(1) by (simp add: remove_item_def remove_group_def group_at_def)
  then show ?thesis using inv' d2(3) L2 SR by (auto simp: removed_def)
qed

section \<open>Matching\<close>

lemma field_matches_iff:
  "field_matches ki n xs t \<longleftrightarrow> (\<exists>k < length xs. n + k \<noteq> ki \<and> (xs ! k = t \<or> t = ''_''))"
proof (induction xs arbitrary: n)
  case (Cons x xs)
  have "(\<exists>k < length (x # xs). n + k \<noteq> ki \<and> ((x # xs) ! k = t \<or> t = ''_'')) \<longleftrightarrow>
      n \<noteq> ki \<and> (x = t \<or> t = ''_'') \<or> (\<exists>k < length xs. Suc n + k \<noteq> ki \<and> (xs ! k = t \<or> t = ''_''))"
    by (auto simp: Ex_less_Suc2)
  then show ?case using Cons [of "n + 1"] by auto
qed simp

lemma fields_match_iff:
  "fields_match tk n ts ki obj \<longleftrightarrow> (\<forall>j < length ts. n + j \<noteq> tk \<longrightarrow> field_matches ki 0 obj (ts ! j))"
proof (induction ts arbitrary: n)
  case (Cons x ts)
  then show ?case using Cons [of "n + 1"] by (auto simp: All_less_Suc2)
qed simp

abbreviation hit :: "'j item_ \<Rightarrow> oe_scalar list \<Rightarrow> nat \<Rightarrow> bool" where
  "hit it obj i \<equiv> fields_match (im_key_idx it) 0 (im_object it) i obj"

text \<open>An event that has what a template asks for: every field of the template that is no wildcard finds an
  equal field of its own, and every wildcard some other field.\<close>

definition wanted :: "oe_scalar list \<Rightarrow> oe_scalar list \<Rightarrow> bool" where
  "wanted ts obj = (\<exists>f. inj_on f {..<length ts} \<and> (\<forall>j < length ts. f j < length obj \<and> (ts ! j = ''_'' \<or> obj ! f j = ts ! j)))"

lemma wanted_positional:
  assumes "list_all2 (\<lambda>t a. t = ''_'' \<or> t = a) ts obj"
  shows "wanted ts obj"
  unfolding wanted_def using assms by (intro exI [of _ id]) (auto simp: list_all2_conv_all_nth)

lemma wanted_hit:
  assumes "wanted (im_object it) obj" "indexed T it a"
  shows "\<exists>k < length obj. obj ! k = im_object it ! im_key_idx it \<and> hit it obj k"
proof -
  let ?ts = "im_object it" and ?tk = "im_key_idx it"
  obtain f where f: "inj_on f {..<length ?ts}" "\<And>j. j < length ?ts \<Longrightarrow> f j < length obj \<and> (?ts ! j = ''_'' \<or> obj ! f j = ?ts ! j)"
    using assms(1) by (auto simp: wanted_def)
  have tk: "?tk < length ?ts" "?ts ! ?tk \<noteq> ''_''" using assms(2) by (simp_all add: indexed_def)
  have "field_matches (f ?tk) 0 obj (?ts ! j)" if "j < length ?ts" "j \<noteq> ?tk" for j
  proof -
    have "f j \<noteq> f ?tk" using f(1) that tk(1) by (auto dest: inj_onD)
    then show ?thesis using f(2) [OF that(1)] by (auto simp: field_matches_iff)
  qed
  then show ?thesis using f(2) [OF tk(1)] tk(2) by (intro exI [of _ "f ?tk"]) (auto simp: fields_match_iff)
qed

text \<open>A run of the matcher that removed the items \<open>rs\<close> one after the other and ran their callbacks.\<close>

definition fired_items :: "'j Oed_Dispatcher \<Rightarrow> (nat \<times> 'j item_) list \<Rightarrow> 'j Oed_Dispatcher \<Rightarrow> bool" where
  "fired_items d rs d' =
     (live d' = (\<lambda>p. if p \<in> fst ` set rs then None else live d p) \<and> distinct (map fst rs) \<and>
      (\<forall>(p, it) \<in> set rs. live d p = Some it \<and> im_items it \<noteq> None) \<and>
      d_ran d' = d_ran d @ concat (map (\<lambda>(p, it). handler_run True (im_match_handler it)) rs) \<and>
      d_next_unused_id d' = d_next_unused_id d \<and> set (d_timers d') \<subseteq> set (d_timers d))"

lemma fired_items_Nil: "fired_items d [] d"
  by (simp add: fired_items_def)

lemma fired_items_append:
  assumes "fired_items d rs d1" "fired_items d1 ss d2"
  shows "fired_items d (rs @ ss) d2"
proof -
  have new: "p \<notin> fst ` set rs \<and> live d p = Some it \<and> im_items it \<noteq> None" if "(p, it) \<in> set ss" for p it
  proof -
    have "live d1 p = Some it" "im_items it \<noteq> None" using assms(2) that by (auto simp: fired_items_def)
    then show ?thesis using assms(1) by (auto simp: fired_items_def split: if_splits)
  qed
  then have "fst ` set rs \<inter> fst ` set ss = {}" by force
  then show ?thesis using assms new unfolding fired_items_def by (auto simp: fun_eq_iff)
qed

lemma removed_fired:
  assumes "removed (run_handler (im_match_handler it) d) p [] d'" "live d p = Some it" "im_items it \<noteq> None"
  shows "fired_items d [(p, it)] d'"
  using assms by (auto simp: removed_def fired_items_def run_handler_eq fun_eq_iff)

lemma processSet_spec:
  assumes "disp_inv d qs" "\<forall>(p, sid) \<in> set xs. \<exists>it a. live d p = Some it \<and> im_items it = Some a" "distinct (map fst xs)"
  shows "\<exists>consumed d' rs. processSet d xs obj i = Inr (consumed, d') \<and> disp_inv d' qs \<and> fired_items d rs d' \<and>
    fst ` set rs \<subseteq> fst ` set xs \<and> (\<forall>(p, it) \<in> set rs. hit it obj i) \<and>
    (if consumed then \<exists>(p, it) \<in> set rs. im_consume it
     else \<forall>(p, sid) \<in> set xs. \<forall>it. live d p = Some it \<longrightarrow> hit it obj i \<longrightarrow> (p, it) \<in> set rs)"
  using assms
proof (induction xs arbitrary: d)
  case Nil
  then show ?case using fired_items_Nil [of d] by (intro exI [of _ False] exI [of _ d] exI [of _ "[]"]) simp
next
  case (Cons x xs)
  obtain p sid where x: "x = (p, sid)" by (cases x)
  obtain it a where it: "live d p = Some it" "im_items it = Some a" using Cons.prems(2) x by auto
  show ?case
  proof (cases "hit it obj i")
    case False
    obtain consumed d' rs where r: "processSet d xs obj i = Inr (consumed, d')" "disp_inv d' qs" "fired_items d rs d'"
        "fst ` set rs \<subseteq> fst ` set xs" "\<forall>(p, it) \<in> set rs. hit it obj i"
        "if consumed then \<exists>(p, it) \<in> set rs. im_consume it
         else \<forall>(p, sid) \<in> set xs. \<forall>it. live d p = Some it \<longrightarrow> hit it obj i \<longrightarrow> (p, it) \<in> set rs"
      using Cons.IH [OF Cons.prems(1)] Cons.prems(2,3) by auto
    have "processSet d (x # xs) obj i = Inr (consumed, d')" using r(1) x it False by simp
    then show ?thesis using r(2-6) x it False
      by (intro exI [of _ consumed] exI [of _ d'] exI [of _ rs]) (auto split: if_splits)
  next
    case True
    have inv1: "disp_inv (run_handler (im_match_handler it) d) qs" using Cons.prems(1) by (simp add: run_handler_eq)
    have it1: "live (run_handler (im_match_handler it) d) p = Some it" using it(1) by (simp add: run_handler_eq)
    obtain d1 where d1: "remove_item (run_handler (im_match_handler it) d) p False = Inr d1" "disp_inv d1 qs"
        "removed (run_handler (im_match_handler it) d) p [] d1"
      using remove_item_spec [OF inv1 it1 it(2), of False] by (auto simp: handler_run_def split: option.splits)
    have f1: "fired_items d [(p, it)] d1" using removed_fired [OF d1(3) it(1)] it(2) by simp
    show ?thesis
    proof (cases "im_consume it")
      case cons: True
      have "processSet d (x # xs) obj i = Inr (True, d1)" using x it True d1(1) cons by simp
      then show ?thesis using d1(2) f1 cons True x
        by (intro exI [of _ True] exI [of _ d1] exI [of _ "[(p, it)]"]) auto
    next
      case nc: False
      have L1: "live d1 q = live d q" if "q \<noteq> p" for q using f1 that by (simp add: fired_items_def)
      have np: "p \<notin> fst ` set xs" using Cons.prems(3) x by auto
      have pre: "\<forall>(q, s) \<in> set xs. \<exists>it a. live d1 q = Some it \<and> im_items it = Some a"
        using Cons.prems(2) L1 np by force
      obtain consumed d' rs where r: "processSet d1 xs obj i = Inr (consumed, d')" "disp_inv d' qs" "fired_items d1 rs d'"
          "fst ` set rs \<subseteq> fst ` set xs" "\<forall>(p, it) \<in> set rs. hit it obj i"
          "if consumed then \<exists>(p, it) \<in> set rs. im_consume it
           else \<forall>(p, sid) \<in> set xs. \<forall>it. live d1 p = Some it \<longrightarrow> hit it obj i \<longrightarrow> (p, it) \<in> set rs"
        using Cons.IH [OF d1(2) pre] Cons.prems(3) by auto
      have "processSet d (x # xs) obj i = Inr (consumed, d')" using x it True d1(1) nc r(1) by simp
      moreover have "fired_items d ((p, it) # rs) d'" using fired_items_append [OF f1 r(3)] by simp
      moreover have "if consumed then \<exists>(p, it) \<in> set ((p, it) # rs). im_consume it
          else \<forall>(q, sid) \<in> set (x # xs). \<forall>iq. live d q = Some iq \<longrightarrow> hit iq obj i \<longrightarrow> (q, iq) \<in> set ((p, it) # rs)"
        using r(6) x it(1) np L1 by (force split: if_splits)
      moreover have "fst ` set ((p, it) # rs) \<subseteq> fst ` set (x # xs)" "\<forall>(q, iq) \<in> set ((p, it) # rs). hit iq obj i"
        using r(4,5) x True by auto
      ultimately show ?thesis using r(2) by blast
    qed
  qed
qed

lemma sorted_wrt_distinct_fst:
  assumes "sorted_wrt (\<lambda>x y. d_itemcmp x y \<noteq> 0) xs" "\<And>x y. x \<in> set xs \<Longrightarrow> y \<in> set xs \<Longrightarrow> fst x = fst y \<Longrightarrow> snd x = snd y"
  shows "distinct (map fst xs)"
  using assms
proof (induction xs)
  case (Cons x xs)
  have "fst x \<noteq> fst y" if "y \<in> set xs" for y
    using Cons.prems(1) Cons.prems(2) [of x y] that by auto
  then have "fst x \<notin> fst ` set xs" by blast
  then show ?case using Cons.IH Cons.prems by simp
qed simp

lemma array_registered:
  assumes "disp_inv d qs" "d_sets d a = Some s"
  shows "\<forall>(p, sid) \<in> members s. \<exists>it b. live d p = Some it \<and> im_items it = Some b" "distinct (map fst (Set_toArray s))"
proof -
  note I = disp_invD [OF assms(1)] and D = index_okD [OF disp_invD(2) [OF assms(1)]]
  show "\<forall>(p, sid) \<in> members s. \<exists>it b. live d p = Some it \<and> im_items it = Some b" using D(3) [OF assms(2)] by fast
  have "sorted_wrt (\<lambda>x y. d_itemcmp x y \<noteq> 0) (Set_toArray s)"
    using iset.members_distinct [OF iset.goodD [OF D(2) [OF assms(2)]]] .
  moreover have "snd x = snd y" if xy: "x \<in> members s" "y \<in> members s" "fst x = fst y" for x y
  proof -
    obtain ix where ix: "live d (fst x) = Some ix" "im_sid ix = snd x" using D(3) [OF assms(2), of "fst x" "snd x"] xy(1) by auto
    obtain iy where "live d (fst y) = Some iy" "im_sid iy = snd y" using D(3) [OF assms(2), of "fst y" "snd y"] xy(2) by auto
    then show ?thesis using ix xy(3) by simp
  qed
  ultimately show "distinct (map fst (Set_toArray s))" by (rule sorted_wrt_distinct_fst)
qed

lemma process_spec:
  assumes "disp_inv d qs"
  shows "\<exists>d' rs. process d i keys obj = Inr d' \<and> disp_inv d' qs \<and> fired_items d rs d' \<and>
    (\<forall>(q, iq) \<in> set rs. \<exists>k < length keys. hit iq obj (i + k)) \<and>
    ((\<exists>(q, iq) \<in> set rs. im_consume iq) \<or>
     (\<forall>p it k. live d p = Some it \<longrightarrow> im_items it \<noteq> None \<longrightarrow> k < length keys \<longrightarrow>
        keys ! k = im_object it ! im_key_idx it \<longrightarrow> hit it obj (i + k) \<longrightarrow> (p, it) \<in> set rs))"
  using assms
proof (induction keys arbitrary: d i)
  case Nil
  then show ?case using fired_items_Nil [of d] by (intro exI [of _ d] exI [of _ "[]"]) simp
next
  case (Cons key keys)
  note D = index_okD [OF disp_invD(2) [OF Cons.prems]]
  show ?case
  proof (cases "Table_get (d_items d) key")
    case None
    obtain d' rs where r: "process d (i + 1) keys obj = Inr d'" "disp_inv d' qs" "fired_items d rs d'"
      "\<forall>(q, iq) \<in> set rs. \<exists>k < length keys. hit iq obj (i + 1 + k)"
      "(\<exists>(q, iq) \<in> set rs. im_consume iq) \<or>
       (\<forall>p it k. live d p = Some it \<longrightarrow> im_items it \<noteq> None \<longrightarrow> k < length keys \<longrightarrow>
        keys ! k = im_object it ! im_key_idx it \<longrightarrow> hit it obj (i + 1 + k) \<longrightarrow> (p, it) \<in> set rs)"
      using Cons.IH [OF Cons.prems, of "i + 1"] by blast
    have "key \<noteq> im_object it ! im_key_idx it" if "live d p = Some it" "im_items it = Some b" for p it b
      using D(4) [OF that] None by (auto simp: indexed_def)
    then have "(\<exists>(q, iq) \<in> set rs. im_consume iq) \<or>
       (\<forall>p it k. live d p = Some it \<longrightarrow> im_items it \<noteq> None \<longrightarrow> k < length (key # keys) \<longrightarrow>
        (key # keys) ! k = im_object it ! im_key_idx it \<longrightarrow> hit it obj (i + k) \<longrightarrow> (p, it) \<in> set rs)"
      using r(5) by (force simp: nth_Cons split: nat.splits)
    moreover have "\<forall>(q, iq) \<in> set rs. \<exists>k < length (key # keys). hit iq obj (i + k)" using r(4) by fastforce
    moreover have "process d i (key # keys) obj = Inr d'" using None r(1) by simp
    ultimately show ?thesis using r(2,3) by blast
  next
    case (Some a)
    obtain s where s: "d_sets d a = Some s" using D(6) [OF Some] by auto
    note A = array_registered [OF Cons.prems s]
    obtain consumed d1 rs where r: "processSet d (Set_toArray s) obj i = Inr (consumed, d1)" "disp_inv d1 qs"
        "fired_items d rs d1" "\<forall>(p, it) \<in> set rs. hit it obj i"
        "if consumed then \<exists>(p, it) \<in> set rs. im_consume it
         else \<forall>(p, sid) \<in> members s. \<forall>it. live d p = Some it \<longrightarrow> hit it obj i \<longrightarrow> (p, it) \<in> set rs"
      using processSet_spec [OF Cons.prems A, of obj i] by blast
    have hits: "\<forall>(q, iq) \<in> set rs. \<exists>k < length (key # keys). hit iq obj (i + k)" using r(4) by fastforce
    show ?thesis
    proof (cases consumed)
      case True
      then have "process d i (key # keys) obj = Inr d1" using Some s r(1) by (simp add: set_at_def)
      then show ?thesis using True r(2,3,5) hits by auto
    next
      case False
      have run: "process d i (key # keys) obj = process d1 (i + 1) keys obj"
        using Some s r(1) False by (simp add: set_at_def)
      obtain d' ss where q: "process d1 (i + 1) keys obj = Inr d'" "disp_inv d' qs" "fired_items d1 ss d'"
        "\<forall>(q, iq) \<in> set ss. \<exists>k < length keys. hit iq obj (i + 1 + k)"
        "(\<exists>(q, iq) \<in> set ss. im_consume iq) \<or>
         (\<forall>p it k. live d1 p = Some it \<longrightarrow> im_items it \<noteq> None \<longrightarrow> k < length keys \<longrightarrow>
          keys ! k = im_object it ! im_key_idx it \<longrightarrow> hit it obj (i + 1 + k) \<longrightarrow> (p, it) \<in> set ss)"
        using Cons.IH [OF r(2), of "i + 1"] by blast
      have first: "(p, it) \<in> set rs" if p: "live d p = Some it" "im_items it = Some b" "key = im_object it ! im_key_idx it" "hit it obj i" for p it b
      proof -
        have "b = a" using D(4) [OF p(1,2)] p(3) Some by (simp add: indexed_def)
        then have "(p, im_sid it) \<in> members s" using D(5) [OF p(1,2)] s by simp
        then show ?thesis using r(5) False p(1,4) by auto
      qed
      have stays: "live d1 p = Some it \<or> (p, it) \<in> set rs" if "live d p = Some it" for p it
        using r(3) that by (force simp: fired_items_def)
      have later: "(p, it) \<in> set (rs @ ss)" if p: "live d p = Some it" "im_items it \<noteq> None" "k < length (key # keys)"
          "(key # keys) ! k = im_object it ! im_key_idx it" "hit it obj (i + k)" and nc: "\<not> (\<exists>(q, iq) \<in> set ss. im_consume iq)" for p it k
      proof (cases k)
        case 0
        then show ?thesis using first [OF p(1)] p(2,4,5) by auto
      next
        case (Suc m)
        then show ?thesis using stays [OF p(1)] q(5) nc p(2-5) by fastforce
      qed
      have "(\<exists>(q, iq) \<in> set (rs @ ss). im_consume iq) \<or>
         (\<forall>p it k. live d p = Some it \<longrightarrow> im_items it \<noteq> None \<longrightarrow> k < length (key # keys) \<longrightarrow>
          (key # keys) ! k = im_object it ! im_key_idx it \<longrightarrow> hit it obj (i + k) \<longrightarrow> (p, it) \<in> set (rs @ ss))"
      proof (cases "\<exists>(q, iq) \<in> set ss. im_consume iq")
        case True
        then show ?thesis by (intro disjI1) auto
      next
        case nc: False
        then show ?thesis using later [OF _ _ _ _ _ nc] by blast
      qed
      moreover have "\<forall>(q, iq) \<in> set (rs @ ss). \<exists>k < length (key # keys). hit iq obj (i + k)"
        using hits q(4) by fastforce
      moreover have "process d i (key # keys) obj = Inr d'" using run q(1) by (rule trans)
      ultimately show ?thesis using q(2) fired_items_append [OF r(3) q(3)] by blast
    qed
  qed
qed

section \<open>Adding registrations\<close>

lemma most_unique_spec:
  assumes "index_ok L (d_sets d) (d_items d)"
  shows "\<exists>c. most_unique d i ts best = Inr c \<and>
    (case c of
       Unused k key \<Rightarrow> \<exists>m < length ts. k = i + m \<and> key = ts ! m \<and> key \<noteq> ''_'' \<and> Table_get (d_items d) key = None
     | Best None \<Rightarrow> best = None \<and> (\<forall>x \<in> set ts. x = ''_'')
     | Best (Some (k, n, b)) \<Rightarrow> best = Some (k, n, b) \<or>
         (\<exists>m < length ts. k = i + m \<and> ts ! m \<noteq> ''_'' \<and> Table_get (d_items d) (ts ! m) = Some b))"
proof (induction ts arbitrary: i best)
  case Nil
  then show ?case by (cases best) auto
next
  case (Cons x ts)
  have shift: "(\<exists>m < length ts. k = Suc i + m \<and> P (ts ! m)) \<Longrightarrow> (\<exists>m < length (x # ts). k = i + m \<and> P ((x # ts) ! m))" for k P
    by force
  show ?case
  proof (cases "x = ''_''")
    case True
    obtain c where c: "most_unique d (i + 1) ts best = Inr c"
        "case c of
           Unused k key \<Rightarrow> \<exists>m < length ts. k = i + 1 + m \<and> key = ts ! m \<and> key \<noteq> ''_'' \<and> Table_get (d_items d) key = None
         | Best None \<Rightarrow> best = None \<and> (\<forall>x \<in> set ts. x = ''_'')
         | Best (Some (k, n, b)) \<Rightarrow> best = Some (k, n, b) \<or>
             (\<exists>m < length ts. k = i + 1 + m \<and> ts ! m \<noteq> ''_'' \<and> Table_get (d_items d) (ts ! m) = Some b)"
      using Cons.IH [of "i + 1" best] by blast
    then show ?thesis using True by (intro exI [of _ c]) (force split: choice.splits option.splits)
  next
    case False
    show ?thesis
    proof (cases "Table_get (d_items d) x")
      case None
      then show ?thesis using False by (intro exI [of _ "Unused i x"]) auto
    next
      case (Some a)
      obtain s where s: "d_sets d a = Some s" using index_okD(6) [OF assms Some] by auto
      let ?b = "case best of None \<Rightarrow> Some (i, Set_length s, a)
                  | Some (k, n, b) \<Rightarrow> if Set_length s < n then Some (i, Set_length s, a) else best"
      have b: "?b = best \<and> best \<noteq> None \<or> ?b = Some (i, Set_length s, a)" by (auto split: option.splits)
      obtain c where c: "most_unique d (i + 1) ts ?b = Inr c"
          "case c of
             Unused k key \<Rightarrow> \<exists>m < length ts. k = i + 1 + m \<and> key = ts ! m \<and> key \<noteq> ''_'' \<and> Table_get (d_items d) key = None
           | Best None \<Rightarrow> ?b = None \<and> (\<forall>x \<in> set ts. x = ''_'')
           | Best (Some (k, n, b)) \<Rightarrow> ?b = Some (k, n, b) \<or>
               (\<exists>m < length ts. k = i + 1 + m \<and> ts ! m \<noteq> ''_'' \<and> Table_get (d_items d) (ts ! m) = Some b)"
        using Cons.IH [of "i + 1" ?b] by blast
      have run: "most_unique d i (x # ts) best = Inr c" using False Some s c(1) by (simp add: set_at_def)
      define bb where "bb = ?b"
      have bb: "bb = best \<and> best \<noteq> None \<or> bb = Some (i, Set_length s, a)" using b by (simp add: bb_def)
      note cc = c(2) [folded bb_def]
      show ?thesis
      proof (cases c)
        case (Unused k key)
        then show ?thesis using run cc by (intro exI [of _ c]) force
      next
        case (Best o')
        show ?thesis
        proof (cases o')
          case None
          then show ?thesis using bb cc Best by auto
        next
          case o: (Some y)
          obtain k n e where y: "y = (k, n, e)" by (cases y)
          have "best = Some (k, n, e) \<or> (\<exists>m < length (x # ts). k = i + m \<and> (x # ts) ! m \<noteq> ''_'' \<and> Table_get (d_items d) ((x # ts) ! m) = Some e)"
            using cc Best o y bb False Some shift [of k "\<lambda>z. z \<noteq> ''_'' \<and> Table_get (d_items d) z = Some e"] by auto
          then show ?thesis using run Best o y by simp
        qed
      qed
    qed
  qed
qed

lemma index_add:
  assumes ok: "index_ok L S T" and ids: "ids_ok L n" and p: "L p = Some it" "im_items it = None" "im_type it = REG"
    and k: "k < length (im_object it)" "im_object it ! k \<noteq> ''_''" "Table_get T (im_object it ! k) = Some a" and s: "S a = Some s"
  shows "index_ok (L(p \<mapsto> it\<lparr>im_items := Some a, im_key_idx := k\<rparr>)) (S(a \<mapsto> Set_put s (p, im_sid it))) T"
proof -
  note D = index_okD [OF ok]
  let ?it = "it\<lparr>im_items := Some a, im_key_idx := k\<rparr>" and ?s = "Set_put s (p, im_sid it)"
  have other: "sid \<noteq> im_sid it \<and> q \<noteq> p" if q: "(q, sid) \<in> members s" for q sid
  proof -
    obtain iq where iq: "L q = Some iq" "im_sid iq = sid" "im_items iq = Some a" using D(3) [OF s q] by blast
    have "im_type iq = REG" using D(4) [OF iq(1,3)] by (simp add: indexed_def)
    moreover have "q \<noteq> p"
    proof
      assume "q = p"
      then have "iq = it" using iq(1) p(1) by simp
      then show False using iq(3) p(2) by simp
    qed
    ultimately show ?thesis using ids_unique [OF ids iq(1) p(1) _ p(3)] iq(2) by blast
  qed
  note sp = iset.Set_put_spec [OF iset.goodD [OF D(2) [OF s]], of "(p, im_sid it)"]
  have good: "iset.good ?s" using sp iset.goodD [OF D(2) [OF s]] by (simp add: iset.good_def iset.Set_put_ops)
  have "members ?s = insert (p, im_sid it) {y \<in> members s. im_sid it \<noteq> snd y}" using sp by simp
  moreover have "im_sid it \<noteq> snd y" if "y \<in> members s" for y using other [of "fst y" "snd y"] that by auto
  then have "{y \<in> members s. im_sid it \<noteq> snd y} = members s" by blast
  ultimately have mem: "members ?s = insert (p, im_sid it) (members s)" by simp
  have np: "q \<noteq> p" if "S b = Some u" "(q, sid) \<in> members u" for q sid b u
    using D(3) [OF that] p(1,2) by auto
  have ix: "indexed T ?it a" using p(3) k by (simp add: indexed_def)
  show ?thesis unfolding index_ok_def
  proof (intro conjI allI impI)
    show "skey.tgood T" by (rule D(1))
    show "iset.good u" if "(S(a \<mapsto> ?s)) b = Some u" for b u using that good D(2) by (auto split: if_splits)
    show "\<exists>iq. (L(p \<mapsto> ?it)) q = Some iq \<and> im_sid iq = sid \<and> im_items iq = Some b"
      if u: "(S(a \<mapsto> ?s)) b = Some u" "(q, sid) \<in> members u" for q sid b u
    proof (cases "q = p")
      case True
      have ba: "b = a" using u np [of b u q sid] True by (cases "b = a") auto
      then have "sid = im_sid it" using u mem np [OF s, of q sid] True by auto
      then show ?thesis using True ba by simp
    next
      case False
      then obtain u0 where "S b = Some u0" "(q, sid) \<in> members u0" using u mem s by (cases "b = a") auto
      from D(3) [OF this] show ?thesis using False by simp
    qed
    show "indexed T iq b" if "(L(p \<mapsto> ?it)) q = Some iq" "im_items iq = Some b" for q iq b
      using that ix D(4) by (auto split: if_splits)
    show "\<exists>u. (S(a \<mapsto> ?s)) b = Some u \<and> (q, im_sid iq) \<in> members u"
      if q: "(L(p \<mapsto> ?it)) q = Some iq" "im_items iq = Some b" for q iq b
    proof (cases "q = p")
      case True
      then show ?thesis using q mem by auto
    next
      case False
      then have "L q = Some iq" using q(1) by simp
      from D(5) [OF this q(2)] show ?thesis using mem s by (cases "b = a") auto
    qed
    show "(S(a \<mapsto> ?s)) b \<noteq> None" if "Table_get T j = Some b" for j b using D(6) [OF that] by simp
    show "stringcmp j j' = 0" if "Table_get T j = Some b" "Table_get T j' = Some b" for j j' b using D(7) [OF that] .
  qed
qed

lemma index_new:
  assumes ok: "index_ok L S T" and a: "S a = None" "iset.good s" "members s = {}" and key: "Table_get T key = None"
  shows "index_ok L (S(a \<mapsto> s)) (snd (Table_put T key a))"
proof -
  note D = index_okD [OF ok]
  let ?T = "snd (Table_put T key a)"
  have get: "Table_get ?T j = (if stringcmp j key = 0 then Some a else Table_get T j)" for j
    by (rule sktab.get_after_put [OF D(1)])
  have keep: "Table_get ?T j = Some b" if "Table_get T j = Some b" for j b
    using that get Table_get_cong [OF D(1), of j key] key by auto
  have na: "Table_get T j \<noteq> Some a" for j using D(6) [of j a] a(1) by auto
  have "indexed ?T iq b" if "L q = Some iq" "im_items iq = Some b" for q iq b
    using D(4) [OF that] keep by (auto simp: indexed_def)
  moreover have "\<exists>u. (S(a \<mapsto> s)) b = Some u \<and> (q, im_sid iq) \<in> members u" if "L q = Some iq" "im_items iq = Some b" for q iq b
    using D(5) [OF that] a(1) by auto
  moreover have "(S(a \<mapsto> s)) b \<noteq> None" if "Table_get ?T k = Some b" for k b
    using that get [of k] D(6) [of k b] by (auto split: if_splits)
  moreover have "stringcmp k k' = 0" if k: "Table_get ?T k = Some b" "Table_get ?T k' = Some b" for k k' b
  proof (cases "b = a")
    case True
    then show ?thesis using k get [of k] get [of k'] na skey.cmp_left skey.cmp_sym by (metis (no_types))
  next
    case False
    then show ?thesis using k get [of k] get [of k'] D(7) [of k b k'] by (auto split: if_splits)
  qed
  moreover have "skey.tgood ?T" by (rule sktab.put_ok [OF D(1)])
  ultimately show ?thesis using D(2,3) a(2,3) unfolding index_ok_def by (auto split: if_splits)
qed

text \<open>What registering leaves of an item: everything but the links to the index and to the timer.\<close>

definition same_reg :: "'j item_ \<Rightarrow> 'j item_ \<Rightarrow> bool" where
  "same_reg it it' =
     (im_type it' = im_type it \<and> im_sid it' = im_sid it \<and> im_object it' = im_object it \<and> im_consume it' = im_consume it \<and>
      im_match_handler it' = im_match_handler it \<and> im_timeout_handler it' = im_timeout_handler it \<and>
      im_duration it' = im_duration it \<and> im_group it' = im_group it)"

definition kept_rest :: "'j Oed_Dispatcher \<Rightarrow> 'j Oed_Dispatcher \<Rightarrow> bool" where
  "kept_rest d d' = (d_groups d' = d_groups d \<and> d_next_unused_id d' = d_next_unused_id d \<and> d_ran d' = d_ran d)"

lemma oks_write:
  assumes "L p = Some it" "same_reg it it'" "p \<notin> set qs"
  shows "ids_ok L n \<Longrightarrow> ids_ok (L(p \<mapsto> it')) n" "groups_ok L G \<Longrightarrow> groups_ok (L(p \<mapsto> it')) G"
    "fresh_ok L S G b \<Longrightarrow> fresh_ok (L(p \<mapsto> it')) S G b"
    "queue_ok L qs tms \<Longrightarrow> p \<notin> fst ` set tms \<or>
       im_timer_event it' \<and> im_type it = REG \<and> (im_items it' = None \<longrightarrow> (\<forall>x \<in> set (im_object it). x = ''_'')) \<Longrightarrow> queue_ok (L(p \<mapsto> it')) qs tms"
  using assms unfolding ids_ok_def groups_ok_def fresh_ok_def queue_ok_def same_reg_def
  by (auto split: if_splits)

lemma link_item_spec:
  assumes inv: "disp_inv d qs" and p: "live d p = Some it" "im_items it = None" "im_type it = REG" "p \<notin> set qs" "p \<notin> fst ` set (d_timers d)"
    and k: "k < length (im_object it)" "im_object it ! k \<noteq> ''_''" "Table_get (d_items d) (im_object it ! k) = Some a"
  shows "\<exists>d' it'. link_item d p k a = Inr d' \<and> disp_inv d' qs \<and> live d' = (live d)(p \<mapsto> it') \<and> same_reg it it' \<and>
    im_items it' \<noteq> None \<and> kept_rest d d' \<and> d_timers d' = d_timers d"
proof -
  note I = disp_invD [OF inv]
  let ?f = "\<lambda>item. item\<lparr>im_items := Some a, im_key_idx := k\<rparr>"
  obtain s where s: "d_sets d a = Some s" using index_okD(6) [OF I(2) k(3)] by auto
  obtain d1 where d1: "write_item d p ?f = Inr d1" "live d1 = (live d)(p \<mapsto> ?f it)" "queue_of (d_que d1) qs"
      "same_rest d d1" "d_brk d1 = d_brk d"
    using write_item_spec [OF p(1) I(1), of ?f] by blast
  note SR = same_restD [OF d1(4)]
  let ?d' = "d1\<lparr>d_sets := (d_sets d)(a \<mapsto> Set_put s (p, im_sid it))\<rparr>"
  have run: "link_item d p k a = Inr ?d'" using d1 SR s by (simp add: link_item_def set_at_def)
  have sr: "same_reg it (?f it)" by (simp add: same_reg_def)
  have "fresh_ok (live d) ((d_sets d)(a \<mapsto> Set_put s (p, im_sid it))) (d_groups d) (d_brk d)"
    using I(6) s by (auto simp: fresh_ok_def)
  then have "disp_inv ?d' qs"
    using I d1(2,3,5) SR index_add [OF I(2,3) p(1-3) k s] oks_write [where L = "live d", OF p(1) sr p(4)] p(5) by (simp add: disp_inv_def)
  then show ?thesis using run d1(2) SR sr by (intro exI [of _ ?d'] exI [of _ "?f it"]) (simp add: kept_rest_def)
qed

lemma add_template_spec:
  assumes inv: "disp_inv d qs" and p: "live d p = Some it" "im_items it = None" "im_type it = REG" "p \<notin> set qs" "p \<notin> fst ` set (d_timers d)"
  shows "\<exists>rc d' it'. add_template d p = Inr (rc, d') \<and> disp_inv d' qs \<and> live d' = (live d)(p \<mapsto> it') \<and> same_reg it it' \<and>
    (im_items it' = None \<longleftrightarrow> (\<forall>x \<in> set (im_object it). x = ''_'')) \<and> kept_rest d d' \<and> d_timers d' = d_timers d"
proof -
  note I = disp_invD [OF inv]
  obtain c where c: "most_unique d 0 (im_object it) None = Inr c"
    and cs: "case c of
       Unused k key \<Rightarrow> \<exists>m < length (im_object it). k = 0 + m \<and> key = im_object it ! m \<and> key \<noteq> ''_'' \<and> Table_get (d_items d) key = None
     | Best None \<Rightarrow> None = (None :: (nat \<times> nat \<times> nat) option) \<and> (\<forall>x \<in> set (im_object it). x = ''_'')
     | Best (Some (k, n, b)) \<Rightarrow> None = Some (k, n, b) \<or>
         (\<exists>m < length (im_object it). k = 0 + m \<and> im_object it ! m \<noteq> ''_'' \<and> Table_get (d_items d) (im_object it ! m) = Some b)"
    using most_unique_spec [OF I(2), of 0 "im_object it" None] by blast
  show ?thesis
  proof (cases c)
    case (Unused k key)
    then have k: "k < length (im_object it)" "im_object it ! k \<noteq> ''_''" "key = im_object it ! k" "Table_get (d_items d) key = None"
      using cs by auto
    obtain s where s: "Set_new 10 d_itemcmp d_itemhash = Inr s" "iset.good s" "Set_toArray s = []"
      using iset.Set_new_good [of 10] by auto
    let ?a = "d_brk d"
    let ?d1 = "d\<lparr>d_sets := (d_sets d)(?a \<mapsto> s), d_items := snd (Table_put (d_items d) key ?a), d_brk := ?a + 1\<rparr>"
    have na: "d_sets d ?a = None" using I(6) by (simp add: fresh_ok_def)
    have "index_ok (live d) ((d_sets d)(?a \<mapsto> s)) (snd (Table_put (d_items d) key ?a))"
      using index_new [OF I(2) na s(2) _ k(4)] s(3) by simp
    moreover have "fresh_ok (live d) ((d_sets d)(?a \<mapsto> s)) (d_groups d) (?a + 1)" using I(6) by (auto simp: fresh_ok_def)
    ultimately have inv1: "disp_inv ?d1 qs" using I by (simp add: disp_inv_def)
    have get: "Table_get (d_items ?d1) (im_object it ! k) = Some ?a"
      using sktab.get_after_put [OF index_okD(1) [OF I(2)]] k(3) by (simp add: skey.cmp_refl)
    obtain d' it' where d': "link_item ?d1 p k ?a = Inr d'" "disp_inv d' qs" "live d' = (live ?d1)(p \<mapsto> it')" "same_reg it it'"
        "im_items it' \<noteq> None" "kept_rest ?d1 d'" "d_timers d' = d_timers ?d1"
      using link_item_spec [OF inv1 _ p(2,3,4) _ k(1,2) get] p(1,5) by auto
    have run: "add_template d p = Inr (0, d')" using p(1) c Unused s(1) d'(1) by (simp add: add_template_def Let_def)
    have "\<not> (\<forall>x \<in> set (im_object it). x = ''_'')" using k(1,2) by auto
    then show ?thesis using run d'(2-7)
      by (intro exI [of _ 0] exI [of _ d'] exI [of _ it']) (auto simp: kept_rest_def)
  next
    case (Best b)
    show ?thesis
    proof (cases b)
      case None
      have "add_template d p = Inr (- 1, d)" using p(1) c Best None by (simp add: add_template_def)
      moreover have "live d = (live d)(p \<mapsto> it)" using p(1) by (simp add: fun_eq_iff)
      moreover have "same_reg it it" "kept_rest d d" by (simp_all add: same_reg_def kept_rest_def)
      moreover have "\<forall>x \<in> set (im_object it). x = ''_''" using cs Best None by simp
      ultimately show ?thesis using inv p(2) by (intro exI [of _ "- 1"] exI [of _ d] exI [of _ it]) simp
    next
      case (Some y)
      obtain k n a where y: "y = (k, n, a)" by (cases y)
      have k: "k < length (im_object it)" "im_object it ! k \<noteq> ''_''" "Table_get (d_items d) (im_object it ! k) = Some a"
        using cs Best Some y by auto
      obtain d' it' where d': "link_item d p k a = Inr d'" "disp_inv d' qs" "live d' = (live d)(p \<mapsto> it')" "same_reg it it'"
          "im_items it' \<noteq> None" "kept_rest d d'" "d_timers d' = d_timers d"
        using link_item_spec [OF inv p k] by auto
      have run: "add_template d p = Inr (0, d')" using p(1) c Best Some y d'(1) by (simp add: add_template_def)
      have "\<not> (\<forall>x \<in> set (im_object it). x = ''_'')" using k(1,2) by auto
      then show ?thesis using run d'(2-7) by (intro exI [of _ 0] exI [of _ d'] exI [of _ it']) auto
    qed
  qed
qed

lemma reg_item_spec:
  assumes inv: "disp_inv d qs" and p: "live d p = Some it" "im_items it = None" "im_type it = REG" "p \<notin> set qs" "p \<notin> fst ` set (d_timers d)"
  shows "\<exists>d' it'. process_que_item d (Some p) = Inr d' \<and> disp_inv d' qs \<and> live d' = (live d)(p \<mapsto> it') \<and> same_reg it it' \<and>
    (im_items it' = None \<longleftrightarrow> (\<forall>x \<in> set (im_object it). x = ''_'')) \<and> kept_rest d d' \<and>
    d_timers d' = d_timers d @ (if im_duration it = OEC_FOREVER then [] else [(p, timeval_of (im_duration it))])"
proof -
  obtain rc d1 i1 where d1: "add_template d p = Inr (rc, d1)" "disp_inv d1 qs" "live d1 = (live d)(p \<mapsto> i1)" "same_reg it i1"
      "im_items i1 = None \<longleftrightarrow> (\<forall>x \<in> set (im_object it). x = ''_'')" "kept_rest d d1" "d_timers d1 = d_timers d"
    using add_template_spec [OF inv p] by (elim exE conjE) (rule that)
  have run: "process_que_item d (Some p) = watch_for_timeout d1 p"
    using p(1,3) d1(1) by (simp add: process_que_item_def)
  have l1: "live d1 p = Some i1" using d1(3) by simp
  have dur: "im_duration i1 = im_duration it" using d1(4) by (simp add: same_reg_def)
  show ?thesis
  proof (cases "im_duration it = OEC_FOREVER")
    case True
    then show ?thesis using run l1 dur d1 by (intro exI [of _ d1] exI [of _ i1]) (simp add: watch_for_timeout_def)
  next
    case False
    note I = disp_invD [OF d1(2)]
    let ?f = "\<lambda>item. item\<lparr>im_timer_event := True\<rparr>"
    obtain d2 where d2: "write_item d1 p ?f = Inr d2" "live d2 = (live d1)(p \<mapsto> ?f i1)" "queue_of (d_que d2) qs"
        "same_rest d1 d2" "d_brk d2 = d_brk d1"
      using write_item_spec [OF l1 I(1), of ?f] by blast
    note SR = same_restD [OF d2(4)]
    let ?t = "timeval_of (im_duration it)"
    let ?d' = "d2\<lparr>d_timers := d_timers d2 @ [(p, ?t)]\<rparr>"
    have sr: "same_reg i1 (?f i1)" "same_index i1 (?f i1)" by (simp_all add: same_reg_def same_index_def)
    have reg: "im_type i1 = REG" using d1(4) p(3) by (simp add: same_reg_def)
    have "queue_ok ((live d1)(p \<mapsto> ?f i1)) qs (d_timers d1 @ [(p, ?t)])"
      using oks_write(4) [where L = "live d1", OF l1 sr(1) p(4) I(4)] reg p(4) d1(4,5) by (auto simp: queue_ok_def same_reg_def)
    then have inv': "disp_inv ?d' qs"
      using I d2(2,3,5) SR oks_write(1-3) [where L = "live d1", OF l1 sr(1) p(4)] index_write [OF I(2) l1 sr(2)] by (simp add: disp_inv_def)
    have "watch_for_timeout d1 p = Inr ?d'" using l1 dur False d2(1) by (simp add: watch_for_timeout_def)
    then show ?thesis using run inv' d2(2) d1(3-7) SR False
      by (intro exI [of _ ?d'] exI [of _ "?f i1"]) (simp add: same_reg_def kept_rest_def)
  qed
qed

end
