(* ===== verification/Dispatcher_Runs.thy ===== *)
theory Dispatcher_Runs
  imports Dispatcher_Props
begin

text \<open>
  Runs of the template matcher: any interleaving of the calls of its clients, the turns of its thread and the
  timers of its event loop.  The invariant of \<open>Dispatcher_Props\<close> holds in every state of a run, so no step ever
  touches released memory; every callback runs at most once, and until it does its item is there.

  The calls are those with one template per registration, before the matcher is stopped, and while its
  identifiers have not wrapped around.
\<close>

section \<open>Steps\<close>

definition ids_left :: "'j Oed_Dispatcher \<Rightarrow> bool" where
  "ids_left d = (d_next_unused_id d \<noteq> - 1)"

text \<open>\<open>js\<close> are the callbacks handed in so far; a registration hands in one for a match and a timeout.\<close>

inductive d_step :: "'j Oed_Dispatcher \<times> 'j list \<Rightarrow> 'j Oed_Dispatcher \<times> 'j list \<Rightarrow> bool" where
  step_reg: "ids_left d \<Longrightarrow> j \<notin> set js \<Longrightarrow> Oed_Dispatcher_reg d templ dur consume (Some j) (Some j) = Inr (sid, d') \<Longrightarrow>
    d_step (d, js) (d', js @ [j])"
| step_reg_group: "ids_left d \<Longrightarrow> j \<notin> set js \<Longrightarrow> Oed_Dispatcher_reg_group d [templ] dur consume (Some j) (Some j) = Inr (sid, d') \<Longrightarrow>
    d_step (d, js) (d', js @ [j])"
| step_exec: "j \<notin> set js \<Longrightarrow> Oed_Dispatcher_exec d j = Inr d' \<Longrightarrow> d_step (d, js) (d', js @ [j])"
| step_event: "ids_left d \<Longrightarrow> Oed_Dispatcher_process d props clone = Inr d' \<Longrightarrow> d_step (d, js) (d', js)"
| step_unreg: "Oed_Dispatcher_unreg d sid = Inr d' \<Longrightarrow> d_step (d, js) (d', js)"
| step_stats: "ids_left d \<Longrightarrow> Oed_Dispatcher_stats d = Inr d' \<Longrightarrow> d_step (d, js) (d', js)"
| step_start: "ids_left d \<Longrightarrow> d_step (d, js) (d_do_work d, js)"
| step_work: "ids_left d \<Longrightarrow> process_que 1 d = Inr d' \<Longrightarrow> d_step (d, js) (d', js)"
| step_timeout: "due p d \<Longrightarrow> item_at d p = Inr it \<Longrightarrow> im_type it = REG \<Longrightarrow> timeout_cb (timeout_del p d) p = Inr d' \<Longrightarrow>
    d_step (d, js) (d', js)"
| step_heartbeat: "due p d \<Longrightarrow> item_at d p = Inr it \<Longrightarrow> im_type it = HEARTBEAT \<Longrightarrow> heartbeat_cb (timeout_del p d) p = Inr d' \<Longrightarrow>
    d_step (d, js) (d', js)"

definition matcher_run :: "'j Oed_Dispatcher \<Rightarrow> 'j list \<Rightarrow> bool" where
  "matcher_run d js = (\<exists>d0 name. Oed_Dispatcher_new 1 name = Inr d0 \<and> d_step\<^sup>*\<^sup>* (d0, []) (d, js))"

section \<open>Allocating and queueing\<close>

lemma word_step: "(n :: 64 word) \<noteq> - 1 \<Longrightarrow> n < n + 1 \<and> (x < n \<longrightarrow> x < n + 1)"
proof -
  assume "n \<noteq> - 1"
  then have "1 + n \<noteq> 0" by (metis add.commute add_eq_0_iff)
  from unatSuc [OF this] show ?thesis by (simp add: word_less_nat_alt add.commute)
qed

definition new_sid :: "'j Oed_Dispatcher \<Rightarrow> 'j item_ \<Rightarrow> bool" where
  "new_sid d it = (im_type it = REG \<longrightarrow> im_sid it < d_next_unused_id d \<and>
     (\<forall>q iq. live d q = Some iq \<longrightarrow> im_type iq = REG \<longrightarrow> im_sid iq \<noteq> im_sid it))"

lemma gen_id_spec:
  assumes "disp_inv d qs" "ids_left d" "gen_id d = (sid, d1)"
  shows "disp_inv d1 qs" "live d1 = live d" "d_ran d1 = d_ran d" "d_timers d1 = d_timers d" "d_groups d1 = d_groups d"
    "im_type it = REG \<Longrightarrow> im_sid it = sid \<Longrightarrow> new_sid d1 it"
proof -
  note I = disp_invD [OF assms(1)] and w = word_step [OF assms(2) [unfolded ids_left_def]]
  have d1: "d1 = d\<lparr>d_next_unused_id := d_next_unused_id d + 1\<rparr>" "sid = d_next_unused_id d"
    using assms(3) by (auto simp: gen_id_def)
  have "ids_ok (live d) (d_next_unused_id d + 1)" using I(3) w by (auto simp: ids_ok_def)
  then show "disp_inv d1 qs" using I d1 by (simp add: disp_inv_def)
  show "live d1 = live d" "d_ran d1 = d_ran d" "d_timers d1 = d_timers d" "d_groups d1 = d_groups d" using d1 by simp_all
  show "im_type it = REG \<Longrightarrow> im_sid it = sid \<Longrightarrow> new_sid d1 it"
    using I(3) d1 w by (auto simp: new_sid_def ids_ok_def) (metis order_less_irrefl)
qed

lemma alloc_inv:
  assumes inv: "disp_inv d qs" and a: "alloc_item d it = (p, d1)" and it: "im_items it = None" "im_group it = None" "new_sid d it"
  shows "disp_inv d1 qs" "live d1 = (live d)(p \<mapsto> it)" "live d p = None" "p \<notin> set qs" "p \<notin> fst ` set (d_timers d1)"
    "same_rest d d1" "p = d_brk d" "d_brk d1 = d_brk d + 1"
proof -
  note I = disp_invD [OF inv]
  have np: "live d (d_brk d) = None" using I(6) by (simp add: fresh_ok_def)
  then have nq: "d_brk d \<notin> set qs" "d_brk d \<notin> fst ` set (d_timers d)" using I(4) by (auto simp: queue_ok_def)
  note A = alloc_item_spec [OF a I(1) nq(1)]
  note SR = same_restD [OF A(4)]
  show "live d1 = (live d)(p \<mapsto> it)" "p = d_brk d" "d_brk d1 = d_brk d + 1" "same_rest d d1" using A by simp_all
  show l: "live d p = None" "p \<notin> set qs" "p \<notin> fst ` set (d_timers d1)" using np nq A(1) SR by simp_all
  have "index_ok ((live d)(p \<mapsto> it)) (d_sets d) (d_items d)"
    using I(2) l(1) it(1) unfolding index_ok_def by (auto split: if_splits) (metis option.distinct(1))+
  moreover have "ids_ok ((live d)(p \<mapsto> it)) (d_next_unused_id d)"
    using I(3) it(3) unfolding ids_ok_def new_sid_def by (auto split: if_splits) blast
  moreover have "queue_ok ((live d)(p \<mapsto> it)) qs (d_timers d)"
    using I(4) l(2,3) SR unfolding queue_ok_def by (auto split: if_splits)
  moreover have "groups_ok ((live d)(p \<mapsto> it)) (d_groups d)" using I(5) it(2) by (auto simp: groups_ok_def split: if_splits)
  moreover have "fresh_ok ((live d)(p \<mapsto> it)) (d_sets d) (d_groups d) (d_brk d + 1)" using I(6) A(1) by (auto simp: fresh_ok_def)
  ultimately show "disp_inv d1 qs" using A SR I(7) by (simp add: disp_inv_def)
qed

lemma push_inv:
  assumes inv: "disp_inv d qs" and p: "live d p = Some it" "p \<notin> set qs" "p \<notin> fst ` set (d_timers d)" "im_items it = None" "im_type it \<noteq> TIMEOUT"
  shows "\<exists>d'. schedule_item d p = Inr d' \<and> disp_inv d' (qs @ [p]) \<and> live d' = live d \<and> same_rest d d'"
proof -
  note I = disp_invD [OF inv]
  obtain d' where d': "d_que_push d p = Inr d'" "live d' = live d" "queue_of (d_que d') (qs @ [p])" "same_rest d d'" "d_brk d' = d_brk d"
    using d_que_push_spec [OF p(1) I(1) p(2)] by blast
  note SR = same_restD [OF d'(4)]
  have "queue_ok (live d) (qs @ [p]) (d_timers d)" using I(4) p unfolding queue_ok_def by auto
  then have "disp_inv d' (qs @ [p])" using I d' SR by (simp add: disp_inv_def)
  then show ?thesis using d'(1,2,4) I(7) by (simp add: schedule_item_def)
qed

lemma schedule_new_spec:
  assumes inv: "disp_inv d qs" and it: "im_items it = None" "im_group it = None" "new_sid d it" "im_type it \<noteq> TIMEOUT"
  shows "\<exists>d' p. schedule_new d it = Inr d' \<and> disp_inv d' (qs @ [p]) \<and> live d p = None \<and> live d' = (live d)(p \<mapsto> it) \<and> d_ran d' = d_ran d \<and>
    d_next_unused_id d' = d_next_unused_id d"
proof -
  obtain p d1 where a: "alloc_item d it = (p, d1)" by fastforce
  note A = alloc_inv [OF inv a it(1-3)]
  have l: "live d1 p = Some it" using A(2) by simp
  obtain d' where "schedule_item d1 p = Inr d'" "disp_inv d' (qs @ [p])" "live d' = live d1" "same_rest d1 d'"
    using push_inv [OF A(1) l A(4,5) it(1,4)] by blast
  then show ?thesis using a A(2,3,6) by (auto simp: schedule_new_def same_rest_def)
qed

text \<open>Taking the first item off the queue.\<close>

lemma pop_head_inv:
  assumes inv: "disp_inv d (p # qs)"
  shows "\<exists>q. que_pop (d_que d) = Inr (Some p, q) \<and> disp_inv (d\<lparr>d_que := q\<rparr>) qs \<and> live (d\<lparr>d_que := q\<rparr>) = live d \<and>
    p \<notin> set qs \<and> p \<notin> fst ` set (d_timers d) \<and> (\<exists>it. live d p = Some it \<and> im_items it = None)"
proof -
  note I = disp_invD [OF inv]
  obtain q where q: "unlink_head (d_que d) p = Inr q" "queue_of q qs" "q_mem q = q_mem (d_que d)"
    using unlink_head_spec [OF I(1)] by blast
  let ?q = "q\<lparr>q_size := q_size q - 1\<rparr>"
  have pop: "que_pop (d_que d) = Inr (Some p, ?q)" using queue_of_head [OF I(1)] q(1) by (simp add: que_pop_def)
  have np: "p \<notin> set qs" using I(1) by (simp add: queue_of_def)
  have l: "live (d\<lparr>d_que := ?q\<rparr>) = live d" using q(3) by (simp add: live_def fun_eq_iff)
  have "queue_ok (live d) qs (d_timers d)" using I(4) by (auto simp: queue_ok_def)
  moreover have "queue_of ?q qs" using q(2) by (simp add: queue_of_def)
  ultimately have "disp_inv (d\<lparr>d_que := ?q\<rparr>) qs"
    unfolding disp_inv_def l using I(2-7) by simp
  then show ?thesis using pop np l I(4) by (auto simp: queue_ok_def)
qed

lemma pop_empty:
  assumes inv: "disp_inv d []"
  shows "\<exists>q. que_pop (d_que d) = Inr (None, q) \<and> disp_inv (d\<lparr>d_que := q\<rparr>) [] \<and> live (d\<lparr>d_que := q\<rparr>) = live d"
proof -
  note I = disp_invD [OF inv]
  let ?q = "(d_que d)\<lparr>q_size := q_size (d_que d) - 1\<rparr>"
  have pop: "que_pop (d_que d) = Inr (None, ?q)" using queue_of_head [OF I(1)] by (simp add: que_pop_def)
  have l: "live (d\<lparr>d_que := ?q\<rparr>) = live d" by (simp add: live_def fun_eq_iff)
  have "queue_of ?q []" using I(1) by (simp add: queue_of_def)
  then have "disp_inv (d\<lparr>d_que := ?q\<rparr>) []" unfolding disp_inv_def l using I(2-7) by simp
  then show ?thesis using pop l by blast
qed

section \<open>Accounting for callbacks\<close>

text \<open>The callbacks an item of each type has; no other types come up in a run.\<close>

definition handlers_ok :: "'j item_ \<Rightarrow> bool" where
  "handlers_ok it =
     (case im_type it of
        REG \<Rightarrow> im_match_handler it \<noteq> None \<and> im_timeout_handler it = im_match_handler it
      | EXECUTE \<Rightarrow> im_match_handler it \<noteq> None
      | TQUIT \<Rightarrow> False
      | TIMEOUT \<Rightarrow> False
      | _ \<Rightarrow> im_match_handler it = None)"

text \<open>\<open>H\<close> are the callbacks held by live items, \<open>rn\<close> those that have run, \<open>js\<close> those handed in.\<close>

definition accounted :: "(nat \<Rightarrow> 'j option) \<Rightarrow> 'j list \<Rightarrow> 'j list \<Rightarrow> bool" where
  "accounted H rn js =
     (inj_on H (dom H) \<and> distinct rn \<and> Map.ran H \<inter> set rn = {} \<and> Map.ran H \<union> set rn = set js)"

definition held_jobs :: "(nat \<Rightarrow> 'j item_ option) \<Rightarrow> nat \<Rightarrow> 'j option" where
  "held_jobs L p = Option.bind (L p) im_match_handler"

lemma held_jobs_upd:
  "held_jobs (L(p \<mapsto> it)) = (held_jobs L)(p := im_match_handler it)" "held_jobs (L(p := None)) = (held_jobs L)(p := None)"
  by (simp_all add: held_jobs_def fun_eq_iff)

definition jobs_ok :: "(nat \<Rightarrow> 'j item_ option) \<Rightarrow> 'j list \<Rightarrow> 'j list \<Rightarrow> bool" where
  "jobs_ok L rn js = ((\<forall>p it. L p = Some it \<longrightarrow> handlers_ok it) \<and> accounted (held_jobs L) rn js)"

lemma accounted_new:
  assumes "accounted H rn js" "H p = None" "j \<notin> set js"
  shows "accounted (H(p \<mapsto> j)) rn (js @ [j])"
proof -
  have "j \<notin> Map.ran H" using assms(1,3) by (auto simp: accounted_def)
  then have "inj_on (H(p \<mapsto> j)) (insert p (dom H))"
    using assms(1,2) by (auto simp: accounted_def inj_on_def ran_def)
  then show ?thesis using assms by (auto simp: accounted_def ran_map_upd)
qed

lemma accounted_leave:
  assumes "accounted H rn js"
  shows "accounted (H(p := None)) (rn @ handler_run True (H p)) js"
proof (cases "H p")
  case None
  then have "H(p := None) = H" by auto
  then show ?thesis using assms None by (simp add: handler_run_def)
next
  case (Some j)
  have inj: "inj_on H (dom H)" using assms by (simp add: accounted_def)
  have r: "Map.ran (H(p := None)) = Map.ran H - {j}"
  proof (intro set_eqI iffI)
    fix x
    assume "x \<in> Map.ran (H(p := None))"
    then obtain q where "q \<noteq> p" "H q = Some x" by (auto simp: ran_def split: if_splits)
    moreover have "x \<noteq> j" using calculation inj_onD [OF inj, of q p] Some by auto
    ultimately show "x \<in> Map.ran H - {j}" by (auto simp: ran_def)
  next
    fix x
    assume "x \<in> Map.ran H - {j}"
    then obtain q where q: "H q = Some x" "x \<noteq> j" by (auto simp: ran_def)
    then have "q \<noteq> p" using Some by auto
    then show "x \<in> Map.ran (H(p := None))" using q(1) by (auto simp: ran_def)
  qed
  have j: "j \<in> Map.ran H" using Some by (auto simp: ran_def)
  have "inj_on (H(p := None)) (dom (H(p := None)))" using inj by (auto simp: inj_on_def split: if_splits)
  then show ?thesis using assms r j Some unfolding accounted_def by (auto simp: handler_run_def)
qed

lemma jobs_plain:
  assumes "jobs_ok L rn js" "L p = None" "handlers_ok it" "im_match_handler it = None"
  shows "jobs_ok (L(p \<mapsto> it)) rn js"
proof -
  have "(held_jobs L)(p := None) = held_jobs L" using assms(2) by (auto simp: held_jobs_def)
  then show ?thesis using assms by (auto simp: jobs_ok_def held_jobs_upd)
qed

lemma jobs_new:
  assumes "jobs_ok L rn js" "L p = None" "handlers_ok it" "im_match_handler it = Some j" "j \<notin> set js"
  shows "jobs_ok (L(p \<mapsto> it)) rn (js @ [j])"
  using assms accounted_new [of "held_jobs L" rn js p j] by (auto simp: jobs_ok_def held_jobs_upd held_jobs_def)

lemma jobs_write:
  assumes "jobs_ok L rn js" "L p = Some it" "same_reg it it'"
  shows "jobs_ok (L(p \<mapsto> it')) rn js"
proof -
  have h: "im_match_handler it' = im_match_handler it" "handlers_ok it' = handlers_ok it"
    using assms(3) by (simp_all add: same_reg_def handlers_ok_def split: ITEM_TYPE.splits)
  then have "(held_jobs L)(p := im_match_handler it') = held_jobs L" using assms(2) by (auto simp: held_jobs_def)
  then show ?thesis using assms h by (auto simp: jobs_ok_def held_jobs_upd)
qed

text \<open>An item leaves, and its callback, if it has one, is run.\<close>

lemma jobs_leave:
  assumes "jobs_ok L rn js" "L p = Some it"
  shows "jobs_ok (L(p := None)) (rn @ handler_run True (im_match_handler it)) js"
  using assms accounted_leave [of "held_jobs L" rn js p]
  by (auto simp: jobs_ok_def held_jobs_upd held_jobs_def split: if_splits)

lemma jobs_fired:
  assumes "jobs_ok (live d) (d_ran d) js" "fired_items d rs d'"
  shows "jobs_ok (live d') (d_ran d') js"
proof -
  have "jobs_ok (\<lambda>p. if p \<in> fst ` set rs then None else L p) (rn @ concat (map (\<lambda>(p, it). handler_run True (im_match_handler it)) rs)) js"
    if "jobs_ok L rn js" "\<forall>(p, it) \<in> set rs. L p = Some it" "distinct (map fst rs)" for L and rn :: "'a list"
    using that
  proof (induction rs arbitrary: L rn)
    case (Cons x rs)
    obtain p it where x: "x = (p, it)" by (cases x)
    have p: "L p = Some it" "p \<notin> fst ` set rs" using Cons.prems x by auto
    have "\<forall>(q, iq) \<in> set rs. (L(p := None)) q = Some iq" using Cons.prems(2) p(2) by force
    from Cons.IH [OF jobs_leave [OF Cons.prems(1) p(1)] this] Cons.prems(3)
    have "jobs_ok (\<lambda>q. if q \<in> fst ` set rs then None else (L(p := None)) q)
        ((rn @ handler_run True (im_match_handler it)) @ concat (map (\<lambda>(p, it). handler_run True (im_match_handler it)) rs)) js"
      by simp
    moreover have "(\<lambda>q. if q \<in> fst ` set rs then None else (L(p := None)) q) = (\<lambda>q. if q \<in> fst ` set (x # rs) then None else L q)"
      using x by (auto simp: fun_eq_iff)
    ultimately show ?case using x by simp
  qed simp
  from this [OF assms(1)] show ?thesis using assms(2) by (auto simp: fired_items_def)
qed

section \<open>Steps keep the invariant\<close>

text \<open>Every registration is in the queue or in the index, unless its template has nothing but wildcards.\<close>

definition all_wild :: "'j item_ \<Rightarrow> bool" where
  "all_wild it = (\<forall>x \<in> set (im_object it). x = ''_'')"

definition placed :: "(nat \<Rightarrow> 'j item_ option) \<Rightarrow> nat list \<Rightarrow> bool" where
  "placed L qs = (\<forall>q it. L q = Some it \<longrightarrow> im_type it = REG \<longrightarrow> q \<in> set qs \<or> im_items it \<noteq> None \<or> all_wild it)"

text \<open>A turn for the item at \<open>p\<close>: items with callbacks stay what they are, and the one at \<open>p\<close> gets its place.\<close>

definition onward :: "(nat \<Rightarrow> 'j item_ option) \<Rightarrow> nat \<Rightarrow> (nat \<Rightarrow> 'j item_ option) \<Rightarrow> bool" where
  "onward L p L' = (\<forall>q it'. L' q = Some it' \<longrightarrow> im_match_handler it' \<noteq> None \<longrightarrow>
     (\<exists>it. L q = Some it \<and> im_type it' = im_type it \<and> im_object it' = im_object it \<and>
        im_match_handler it' = im_match_handler it \<and> (im_items it \<noteq> None \<longrightarrow> im_items it' \<noteq> None)) \<and>
     (q = p \<longrightarrow> im_type it' = REG \<longrightarrow> im_items it' \<noteq> None \<or> all_wild it'))"

lemma placed_new: "placed L qs \<Longrightarrow> placed (L(p \<mapsto> it)) (qs @ [p])"
  by (auto simp: placed_def)

lemma placed_plain: "placed L qs \<Longrightarrow> im_type it \<noteq> REG \<Longrightarrow> placed (L(p \<mapsto> it)) qs"
  by (auto simp: placed_def)

lemma placed_less: "placed L qs \<Longrightarrow> placed (L(p := None)) qs"
  by (auto simp: placed_def)

lemma placed_same:
  assumes "placed L qs" "L p = Some it" "im_type it' = im_type it" "im_object it' = im_object it" "im_items it' = im_items it"
  shows "placed (L(p \<mapsto> it')) qs"
  using assms unfolding placed_def all_wild_def by auto

lemma placed_onward:
  assumes "placed L (p # qs)" "onward L p L'" "\<forall>q it. L' q = Some it \<longrightarrow> handlers_ok it"
  shows "placed L' qs"
  unfolding placed_def
proof (intro allI impI)
  fix q it'
  assume l: "L' q = Some it'" and r: "im_type it' = REG"
  have "handlers_ok it'" using assms(3) l by blast
  then have "im_match_handler it' \<noteq> None" using r by (auto simp: handlers_ok_def)
  then obtain it where it: "L q = Some it" "im_type it' = im_type it" "im_object it' = im_object it"
      "im_items it \<noteq> None \<longrightarrow> im_items it' \<noteq> None" "q = p \<longrightarrow> im_items it' \<noteq> None \<or> all_wild it'"
    using assms(2) l r unfolding onward_def by metis
  have "q \<in> set (p # qs) \<or> im_items it \<noteq> None \<or> all_wild it" using assms(1) it(1,2) r unfolding placed_def by metis
  then show "q \<in> set qs \<or> im_items it' \<noteq> None \<or> all_wild it'" using it(3-5) by (auto simp: all_wild_def)
qed

text \<open>The item at \<open>p\<close> is gone and so may be others; new items have no callbacks.\<close>

lemma onward_leave:
  assumes "\<forall>q it'. L' q = Some it' \<longrightarrow> im_match_handler it' \<noteq> None \<longrightarrow> q \<noteq> p \<and> L q = Some it'"
  shows "onward L p L'"
  using assms unfolding onward_def by blast

lemma onward_write:
  assumes "L p = Some it" "same_reg it it'" "im_items it = None" "im_items it' = None \<longleftrightarrow> (\<forall>x \<in> set (im_object it). x = ''_'')"
  shows "onward L p (L(p \<mapsto> it'))"
  using assms unfolding onward_def all_wild_def same_reg_def by auto

text \<open>The items that hold one of the callbacks \<open>js\<close> were there before, with the same template.\<close>

definition stay :: "'j list \<Rightarrow> (nat \<Rightarrow> 'j item_ option) \<Rightarrow> (nat \<Rightarrow> 'j item_ option) \<Rightarrow> bool" where
  "stay js L L' = (\<forall>q it' j. L' q = Some it' \<longrightarrow> im_match_handler it' = Some j \<longrightarrow> j \<in> set js \<longrightarrow>
     (\<exists>it. L q = Some it \<and> im_type it' = im_type it \<and> im_object it' = im_object it \<and> im_match_handler it = Some j))"

lemma stay_refl [simp]: "stay js L L"
  by (simp add: stay_def)

lemma stay_trans: "stay js L L1 \<Longrightarrow> stay js L1 L2 \<Longrightarrow> stay js L L2"
  unfolding stay_def by metis

lemma stay_less: "stay js L (L(p := None))"
  by (auto simp: stay_def)

lemma stay_new: "\<forall>j. im_match_handler it = Some j \<longrightarrow> j \<notin> set js \<Longrightarrow> stay js L (L(p \<mapsto> it))"
  by (auto simp: stay_def)

lemma stay_write:
  "L p = Some it \<Longrightarrow> im_type it' = im_type it \<Longrightarrow> im_object it' = im_object it \<Longrightarrow> im_match_handler it' = im_match_handler it \<Longrightarrow>
   stay js L (L(p \<mapsto> it'))"
  by (auto simp: stay_def)

lemma stay_onward: "onward L p L' \<Longrightarrow> stay js L L'"
  unfolding onward_def stay_def by (metis option.distinct(1))

definition run_inv :: "'j Oed_Dispatcher \<Rightarrow> 'j list \<Rightarrow> bool" where
  "run_inv d js = ((\<exists>qs. disp_inv d qs \<and> placed (live d) qs) \<and> jobs_ok (live d) (d_ran d) js)"

lemma new_sid_other: "im_type it \<noteq> REG \<Longrightarrow> new_sid d it"
  by (simp add: new_sid_def)

lemma item_new_sel [simp]:
  "im_type (item_new t sid) = t" "im_sid (item_new t sid) = sid" "im_items (item_new t sid) = None"
  "im_group (item_new t sid) = None" "im_match_handler (item_new t sid) = None" "im_timer_event (item_new t sid) = False"
  "im_object (item_new t sid) = []"
  by (simp_all add: item_new_def)

text \<open>A new item without a callback, or with a new one.\<close>

lemma schedule_plain:
  assumes "run_inv d js" "im_items it = None" "im_group it = None" "im_type it \<noteq> REG" "handlers_ok it" "im_match_handler it = None"
  shows "\<exists>d'. schedule_new d it = Inr d' \<and> run_inv d' js \<and> stay js (live d) (live d')"
proof -
  obtain qs where inv: "disp_inv d qs" and pl: "placed (live d) qs" and j: "jobs_ok (live d) (d_ran d) js"
    using assms(1) by (auto simp: run_inv_def)
  have "im_type it \<noteq> TIMEOUT" using assms(5) by (auto simp: handlers_ok_def)
  then obtain d' p where d': "schedule_new d it = Inr d'" "disp_inv d' (qs @ [p])" "live d p = None" "live d' = (live d)(p \<mapsto> it)"
      "d_ran d' = d_ran d"
    using schedule_new_spec [OF inv assms(2,3) new_sid_other [OF assms(4)]] by blast
  then show ?thesis using jobs_plain [OF j d'(3) assms(5,6)] placed_new [OF pl, of p it] stay_new [of it js "live d" p] assms(6) by (auto simp: run_inv_def)
qed

lemma schedule_job:
  assumes "run_inv d js" "im_items it = None" "im_group it = None" "new_sid d it" "handlers_ok it" "im_match_handler it = Some j" "j \<notin> set js"
  shows "\<exists>d'. schedule_new d it = Inr d' \<and> run_inv d' (js @ [j]) \<and> stay js (live d) (live d')"
proof -
  obtain qs where inv: "disp_inv d qs" and pl: "placed (live d) qs" and jo: "jobs_ok (live d) (d_ran d) js"
    using assms(1) by (auto simp: run_inv_def)
  have "im_type it \<noteq> TIMEOUT" using assms(5) by (auto simp: handlers_ok_def)
  then obtain d' p where d': "schedule_new d it = Inr d'" "disp_inv d' (qs @ [p])" "live d p = None" "live d' = (live d)(p \<mapsto> it)"
      "d_ran d' = d_ran d"
    using schedule_new_spec [OF inv assms(2,3,4)] by blast
  then show ?thesis using jobs_new [OF jo d'(3) assms(5,6,7)] placed_new [OF pl, of p it] stay_new [of it js "live d" p] assms(6,7) by (auto simp: run_inv_def)
qed

lemma run_gen_id:
  assumes "run_inv d js" "ids_left d"
  shows "run_inv (snd (gen_id d)) js" "live (snd (gen_id d)) = live d" "im_type it = REG \<Longrightarrow> im_sid it = fst (gen_id d) \<Longrightarrow> new_sid (snd (gen_id d)) it"
proof -
  obtain qs where inv: "disp_inv d qs" and pl: "placed (live d) qs" and j: "jobs_ok (live d) (d_ran d) js"
    using assms(1) by (auto simp: run_inv_def)
  obtain sid d1 where g: "gen_id d = (sid, d1)" by fastforce
  note G = gen_id_spec [OF inv assms(2) g]
  show "run_inv (snd (gen_id d)) js" "live (snd (gen_id d)) = live d" using G(1-3) pl j g by (auto simp: run_inv_def)
  show "im_type it = REG \<Longrightarrow> im_sid it = fst (gen_id d) \<Longrightarrow> new_sid (snd (gen_id d)) it" using G(6) g by simp
qed

lemma exec_ok: "run_inv d js \<Longrightarrow> j \<notin> set js \<Longrightarrow> \<exists>d'. Oed_Dispatcher_exec d j = Inr d' \<and> run_inv d' (js @ [j]) \<and> stay js (live d) (live d')"
  unfolding Oed_Dispatcher_exec_def by (rule schedule_job) (simp_all add: new_sid_other handlers_ok_def)

lemma unreg_ok: "run_inv d js \<Longrightarrow> \<exists>d'. Oed_Dispatcher_unreg d sid = Inr d' \<and> run_inv d' js \<and> stay js (live d) (live d')"
  unfolding Oed_Dispatcher_unreg_def by (rule schedule_plain) (simp_all add: handlers_ok_def)

lemma stats_ok: "run_inv d js \<Longrightarrow> ids_left d \<Longrightarrow> \<exists>d'. Oed_Dispatcher_stats d = Inr d' \<and> run_inv d' js \<and> stay js (live d) (live d')"
  unfolding Oed_Dispatcher_stats_def Let_def case_prod_beta
  by (subst run_gen_id(2) [symmetric], assumption+, rule schedule_plain [OF run_gen_id(1)]) (simp_all add: handlers_ok_def)

lemma event_ok: "run_inv d js \<Longrightarrow> ids_left d \<Longrightarrow> \<exists>d'. Oed_Dispatcher_process d props c = Inr d' \<and> run_inv d' js \<and> stay js (live d) (live d')"
  unfolding Oed_Dispatcher_process_def Let_def case_prod_beta
  by (subst run_gen_id(2) [symmetric], assumption+, rule schedule_plain [OF run_gen_id(1)]) (simp_all add: handlers_ok_def)

text \<open>The item of a registration.\<close>

definition reg_item :: "oe_id \<Rightarrow> oe_scalar list \<Rightarrow> oe_time \<Rightarrow> bool \<Rightarrow> 'j \<Rightarrow> 'j item_" where
  "reg_item sid ts dur consume j =
     (item_new REG sid)\<lparr>im_duration := dur, im_consume := consume, im_object := ts, im_match_handler := Some j,
       im_timeout_handler := Some j\<rparr>"

lemma reg_item_sel [simp]:
  "im_type (reg_item sid ts dur c j) = REG" "im_sid (reg_item sid ts dur c j) = sid" "im_items (reg_item sid ts dur c j) = None"
  "im_group (reg_item sid ts dur c j) = None" "im_match_handler (reg_item sid ts dur c j) = Some j"
  "im_object (reg_item sid ts dur c j) = ts" "im_consume (reg_item sid ts dur c j) = c" "im_duration (reg_item sid ts dur c j) = dur"
  "im_timeout_handler (reg_item sid ts dur c j) = Some j" "handlers_ok (reg_item sid ts dur c j)"
  by (simp_all add: reg_item_def handlers_ok_def)

lemma reg_ok:
  assumes "run_inv d js" "ids_left d" "j \<notin> set js"
  shows "\<exists>sid d'. Oed_Dispatcher_reg d templ dur c (Some j) (Some j) = Inr (sid, d') \<and> run_inv d' (js @ [j]) \<and> stay js (live d) (live d')"
proof -
  let ?d1 = "snd (gen_id d)" and ?it = "reg_item (fst (gen_id d)) (strings templ) dur c j"
  note G = run_gen_id [OF assms(1,2)]
  obtain d' where "schedule_new ?d1 ?it = Inr d'" "run_inv d' (js @ [j])" "stay js (live d) (live d')"
    using schedule_job [OF G(1) _ _ G(3), of ?it j] assms(3) G(2) by auto
  then show ?thesis
    by (simp add: Oed_Dispatcher_reg_def create_reg_item_def schedule_new_def Let_def case_prod_beta reg_item_def)
qed

lemma reg_group_spec:
  assumes inv: "disp_inv d qs" and ids: "ids_left d"
  shows "\<exists>sid d' p g. Oed_Dispatcher_reg_group d [templ] dur c (Some j) (Some j) = Inr (sid, d') \<and> disp_inv d' (qs @ [p]) \<and>
    live d p = None \<and> live d' = (live d)(p \<mapsto> (reg_item sid (strings templ) dur c j)\<lparr>im_group := Some g\<rparr>) \<and> d_ran d' = d_ran d \<and>
    d_next_unused_id d' = d_next_unused_id d + 1"
proof -
  obtain sid d1 where g: "gen_id d = (sid, d1)" by fastforce
  note G = gen_id_spec [OF inv ids g]
  let ?it = "reg_item sid (strings templ) dur c j"
  obtain p d2 where a: "alloc_item d1 ?it = (p, d2)" by fastforce
  note A = alloc_inv [OF G(1) a _ _ G(6), simplified]
  note I = disp_invD [OF A(1)] and SR = same_restD [OF A(6)]
  let ?g = "d_brk d2"
  let ?d3 = "d2\<lparr>d_groups := (d_groups d2)(?g \<mapsto> [p]), d_brk := ?g + 1\<rparr>"
  have make: "make_group d [templ] dur c (Some j) (Some j) = ([p], sid, ?g, ?d3)"
    using g a by (simp add: make_group_def create_reg_item_def reg_item_def Let_def)
  have l3: "live ?d3 p = Some ?it" using A(2) by simp
  have gn: "d_groups d2 ?g = None" using I(6) by (simp add: fresh_ok_def)
  have q3: "queue_of (d_que ?d3) qs" using I(1) by simp
  obtain d4 where d4: "write_item ?d3 p (\<lambda>item. item\<lparr>im_group := Some ?g\<rparr>) = Inr d4"
      "live d4 = (live ?d3)(p \<mapsto> ?it\<lparr>im_group := Some ?g\<rparr>)" "queue_of (d_que d4) qs" "same_rest ?d3 d4" "d_brk d4 = d_brk ?d3"
    using write_item_spec [OF l3 q3, of "\<lambda>item. item\<lparr>im_group := Some ?g\<rparr>"] by blast
  note SR4 = same_restD [OF d4(4)]
  have l2: "live d2 p = Some ?it" using A(2) by simp
  have si: "same_index ?it (?it\<lparr>im_group := Some ?g\<rparr>)" by (simp add: same_index_def)
  have "groups_ok ((live d2)(p \<mapsto> ?it\<lparr>im_group := Some ?g\<rparr>)) ((d_groups d2)(?g \<mapsto> [p]))"
    using I(5) gn by (auto simp: groups_ok_def split: if_splits)
  moreover have "fresh_ok ((live d2)(p \<mapsto> ?it\<lparr>im_group := Some ?g\<rparr>)) (d_sets d2) ((d_groups d2)(?g \<mapsto> [p])) (?g + 1)"
    using I(6) A(7,8) by (auto simp: fresh_ok_def)
  moreover have "queue_ok ((live d2)(p \<mapsto> ?it\<lparr>im_group := Some ?g\<rparr>)) qs (d_timers d2)"
    using I(4) A(4,5) by (auto simp: queue_ok_def split: if_splits)
  ultimately have inv4: "disp_inv d4 qs"
    using d4 SR4 I index_write [OF I(2) l2 si] ids_write [OF I(3) l2 si] by (simp add: disp_inv_def)
  have l4: "live d4 p = Some (?it\<lparr>im_group := Some ?g\<rparr>)" using d4(2) by simp
  obtain d5 where d5: "schedule_item d4 p = Inr d5" "disp_inv d5 (qs @ [p])" "live d5 = live d4" "same_rest d4 d5"
    using push_inv [OF inv4 l4 A(4)] A(5) SR4 by auto
  have g5: "d_groups d5 ?g = Some [p]" using d5(4) SR4 by (simp add: same_rest_def)
  have "Oed_Dispatcher_reg_group d [templ] dur c (Some j) (Some j) = Inr (sid, d5)"
    using make d4(1) d5(1) g5 by (simp add: Oed_Dispatcher_reg_group_def numeral_2_eq_2 schedule_member_def group_at_def)
  moreover have "live d5 = (live d)(p \<mapsto> ?it\<lparr>im_group := Some ?g\<rparr>)" using d5(3) d4(2) A(2) G(2) by auto
  moreover have "d_ran d5 = d_ran d" using d5(4) SR4 SR G(3) by (simp add: same_rest_def)
  moreover have "live d p = None" using A(3) G(2) by simp
  moreover have "d_next_unused_id d5 = d_next_unused_id d + 1" using d5(4) SR4 SR g by (auto simp: same_rest_def gen_id_def)
  ultimately show ?thesis using d5(2) by blast
qed

lemma reg_group_ok:
  assumes "run_inv d js" "ids_left d" "j \<notin> set js"
  shows "\<exists>sid d'. Oed_Dispatcher_reg_group d [templ] dur c (Some j) (Some j) = Inr (sid, d') \<and> run_inv d' (js @ [j]) \<and> stay js (live d) (live d')"
proof -
  obtain qs where inv: "disp_inv d qs" and pl: "placed (live d) qs" and jo: "jobs_ok (live d) (d_ran d) js"
    using assms(1) by (auto simp: run_inv_def)
  obtain sid d' p g where r: "Oed_Dispatcher_reg_group d [templ] dur c (Some j) (Some j) = Inr (sid, d')" "disp_inv d' (qs @ [p])"
    "live d p = None" "live d' = (live d)(p \<mapsto> (reg_item sid (strings templ) dur c j)\<lparr>im_group := Some g\<rparr>)" "d_ran d' = d_ran d"
    using reg_group_spec [OF inv assms(2)] by blast
  have "handlers_ok ((reg_item sid (strings templ) dur c j)\<lparr>im_group := Some g\<rparr>)" by (simp add: handlers_ok_def)
  from jobs_new [OF jo r(3) this _ assms(3)] show ?thesis using r placed_new [OF pl, of p] assms(3)
    by (auto simp: run_inv_def intro!: stay_new)
qed

text \<open>The heartbeat: an item that is in no queue and has a timer.\<close>

lemma timeout_del_spec:
  assumes "disp_inv d qs"
  shows "disp_inv (timeout_del p d) qs" "live (timeout_del p d) = live d" "d_ran (timeout_del p d) = d_ran d" "p \<notin> fst ` set (d_timers (timeout_del p d))"
  using assms unfolding disp_inv_def timeout_del_def by (auto simp: queue_ok_def)

text \<open>What a turn of the thread leaves alone: items that are in the queue, and all but one new identifier.\<close>

definition kept :: "'j Oed_Dispatcher \<Rightarrow> nat list \<Rightarrow> 'j Oed_Dispatcher \<Rightarrow> bool" where
  "kept d qs d' =
     ((\<forall>q \<in> set qs. live d' q = live d q) \<and> d_next_unused_id d' \<in> {d_next_unused_id d, d_next_unused_id d + 1})"

lemma schedule_heartbeat_spec:
  assumes inv: "disp_inv d qs" and j: "jobs_ok (live d) (d_ran d) js" and ids: "ids_left d"
  shows "disp_inv (schedule_heartbeat d) qs" "jobs_ok (live (schedule_heartbeat d)) (d_ran (schedule_heartbeat d)) js"
    "kept d qs (schedule_heartbeat d)" "placed (live d) qs \<Longrightarrow> placed (live (schedule_heartbeat d)) qs"
    "live (schedule_heartbeat d) q = Some it \<Longrightarrow> im_match_handler it \<noteq> None \<Longrightarrow> live d q = Some it"
proof -
  obtain sid d1 where g: "gen_id d = (sid, d1)" by fastforce
  note G = gen_id_spec [OF inv ids g]
  let ?it = "(item_new HEARTBEAT sid)\<lparr>im_timer_event := True\<rparr>"
  obtain p d2 where a: "alloc_item d1 ?it = (p, d2)" by fastforce
  note A = alloc_inv [OF G(1) a, simplified, OF new_sid_other, simplified]
  note I = disp_invD [OF A(1)] and SR = same_restD [OF A(6)]
  let ?d3 = "d2\<lparr>d_timers := d_timers d2 @ [(p, \<lparr>tv_sec = 10, tv_usec = 0\<rparr>)]\<rparr>"
  have eq: "schedule_heartbeat d = ?d3" using g a by (simp add: schedule_heartbeat_def)
  have "queue_ok (live d2) qs (d_timers ?d3)" using I(4) A(2,4) by (auto simp: queue_ok_def)
  then show "disp_inv (schedule_heartbeat d) qs" using I eq by (simp add: disp_inv_def)
  have n: "live d p = None" using A(3) G(2) by simp
  then have "jobs_ok ((live d)(p \<mapsto> ?it)) (d_ran d) js" by (intro jobs_plain [OF j]) (simp_all add: handlers_ok_def)
  then show "jobs_ok (live (schedule_heartbeat d)) (d_ran (schedule_heartbeat d)) js" using A(2) SR G eq by simp
  have l3: "live (schedule_heartbeat d) = (live d)(p \<mapsto> ?it)" using A(2) G(2) eq by simp
  then show "placed (live d) qs \<Longrightarrow> placed (live (schedule_heartbeat d)) qs" by (simp add: placed_plain)
  show "live (schedule_heartbeat d) q = Some it \<Longrightarrow> im_match_handler it \<noteq> None \<Longrightarrow> live d q = Some it"
    using l3 by (auto split: if_splits)
  have "d_next_unused_id ?d3 = d_next_unused_id d + 1" using SR g by (auto simp: gen_id_def)
  then show "kept d qs (schedule_heartbeat d)" using A(2,4) G(2) eq by (auto simp: kept_def)
qed

lemma schedule_heartbeat_ok:
  assumes "run_inv d js" "ids_left d"
  shows "run_inv (schedule_heartbeat d) js" "stay js (live d) (live (schedule_heartbeat d))"
proof -
  obtain qs where inv: "disp_inv d qs" and pl: "placed (live d) qs" and j: "jobs_ok (live d) (d_ran d) js"
    using assms(1) by (auto simp: run_inv_def)
  note S = schedule_heartbeat_spec [OF inv j assms(2)]
  show "run_inv (schedule_heartbeat d) js" using S(1,2,4) pl by (auto simp: run_inv_def)
  show "stay js (live d) (live (schedule_heartbeat d))" unfolding stay_def using S(5) by blast
qed

lemma free_ok:
  assumes inv: "disp_inv d qs" and p: "live d p = Some it" "p \<notin> set qs" "p \<notin> fst ` set (d_timers d)" "im_items it = None"
  shows "\<exists>d'. free_item d p = Inr d' \<and> disp_inv d' qs \<and> live d' = (live d)(p := None) \<and> same_rest d d'"
proof -
  note I = disp_invD [OF inv]
  obtain d' where d': "free_item d p = Inr d'" "live d' = (live d)(p := None)" "queue_of (d_que d') qs" "same_rest d d'" "d_brk d' = d_brk d"
    using free_item_spec [OF p(1) I(1) p(2)] by blast
  note SR = same_restD [OF d'(4)]
  have "index_ok ((live d)(p := None)) (d_sets d) (d_items d)"
    using I(2) p(1,4) unfolding index_ok_def by (auto split: if_splits) (metis option.distinct(1) option.inject)
  moreover have "filter (\<lambda>t. fst t \<noteq> p) (d_timers d) = d_timers d" using p(3) by (auto simp: filter_id_conv)
  then have "queue_ok ((live d)(p := None)) qs (d_timers d)" using free_oks(4) [OF I(4) p(2)] by simp
  ultimately have "disp_inv d' qs" using I d' SR free_oks(1-3) [where L = "live d"] by (simp add: disp_inv_def)
  then show ?thesis using d' by blast
qed

text \<open>One item taken off the queue.\<close>

lemma process_item_ok:
  assumes inv: "disp_inv d qs" and j: "jobs_ok (live d) (d_ran d) js" and ids: "ids_left d"
    and p: "live d p = Some it" "p \<notin> set qs" "p \<notin> fst ` set (d_timers d)" "im_items it = None"
  shows "\<exists>d'. process_que_item d (Some p) = Inr d' \<and> disp_inv d' qs \<and> jobs_ok (live d') (d_ran d') js \<and> kept d qs d' \<and>
    onward (live d) p (live d')"
proof -
  have h: "handlers_ok it" using j p(1) by (simp add: jobs_ok_def)
  have leave: "\<exists>d'. free_item d1 p = Inr d' \<and> disp_inv d' qs \<and> jobs_ok (live d') (d_ran d') js \<and> kept d1 qs d' \<and>
      d_next_unused_id d' = d_next_unused_id d1 \<and> live d' = (live d1)(p := None)"
    if d1: "disp_inv d1 qs" "live d1 p = Some it" "p \<notin> fst ` set (d_timers d1)"
      "jobs_ok ((live d1)(p := None)) (d_ran d1) js" for d1
  proof -
    from free_ok [OF d1(1,2) p(2) d1(3) p(4)] show ?thesis using d1(4) p(2) by (auto simp: kept_def same_rest_def)
  qed
  have gone: "onward (live d) p ((live d)(p := None))" by (rule onward_leave) (auto split: if_splits)
  have plain: "\<exists>d'. free_item d p = Inr d' \<and> disp_inv d' qs \<and> jobs_ok (live d') (d_ran d') js \<and> kept d qs d' \<and> onward (live d) p (live d')"
    if "im_match_handler it = None"
    using leave [OF inv p(1,3)] jobs_leave [OF j p(1)] that gone by (auto simp: handler_run_def)
  show ?thesis
  proof (cases "im_type it")
    case REG
    obtain d' it' where d': "process_que_item d (Some p) = Inr d'" "disp_inv d' qs" "live d' = (live d)(p \<mapsto> it')" "same_reg it it'" "kept_rest d d'"
        "im_items it' = None \<longleftrightarrow> (\<forall>x \<in> set (im_object it). x = ''_'')"
      using reg_item_spec [OF inv p(1,4) REG p(2,3)] by (elim exE conjE) (rule that)
    then show ?thesis using jobs_write [OF j p(1) d'(4)] p(2) onward_write [where L = "live d", OF p(1) d'(4) p(4) d'(6)]
      by (auto simp: kept_rest_def kept_def)
  next
    case UNREG
    have "im_group it = None" using disp_invD(5) [OF inv] p(1) UNREG by (cases "im_group it") (auto simp: groups_ok_def)
    then have "process_que_item d (Some p) = Inr d"
      using p(1,4) UNREG by (simp add: process_que_item_def remove_item_def remove_single_def)
    moreover have "onward (live d) p (live d)" using p(1) h UNREG by (auto simp: onward_def handlers_ok_def)
    ultimately show ?thesis using inv j by (auto simp: kept_def)
  next
    case PROCESS
    obtain d1 rs where d1: "process d 0 (im_object it) (im_object it) = Inr d1" "disp_inv d1 qs" "fired_items d rs d1"
      using process_spec [OF inv, of 0 "im_object it" "im_object it"] by blast
    have nR: "q \<notin> fst ` set rs" if "live d q = Some iq" "im_items iq = None" for q iq
      using d1(3) that by (force simp: fired_items_def)
    have l1: "live d1 p = Some it" using d1(3) nR [OF p(1,4)] p(1) by (simp add: fired_items_def)
    have "im_match_handler it = None" using h PROCESS by (simp add: handlers_ok_def)
    then have "jobs_ok ((live d1)(p := None)) (d_ran d1) js"
      using jobs_leave [OF jobs_fired [OF j d1(3)] l1] by (simp add: handler_run_def)
    moreover have "p \<notin> fst ` set (d_timers d1)" using d1(3) p(3) by (auto simp: fired_items_def)
    ultimately obtain d' where d': "free_item d1 p = Inr d'" "disp_inv d' qs" "jobs_ok (live d') (d_ran d') js" "kept d1 qs d'"
        "live d' = (live d1)(p := None)"
      using leave [OF d1(2) l1] by auto
    have on: "onward (live d) p (live d')"
      by (rule onward_leave) (use d'(5) d1(3) in \<open>auto simp: fired_items_def split: if_splits\<close>)
    have "live d1 q = live d q" if qq: "q \<in> set qs" for q
    proof -
      obtain iq where "live d q = Some iq" "im_items iq = None" using disp_invD(4) [OF inv] qq by (auto simp: queue_ok_def)
      then show ?thesis using nR [of q iq] d1(3) by (simp add: fired_items_def)
    qed
    then have "kept d qs d'" using d'(4) d1(3) by (simp add: kept_def fired_items_def)
    then show ?thesis using p(1) PROCESS d1(1) d' on by (simp add: process_que_item_def)
  next
    case EXECUTE
    let ?d1 = "run_handler (im_match_handler it) d"
    have e: "disp_inv ?d1 qs" "live ?d1 = live d" "d_timers ?d1 = d_timers d" "d_ran ?d1 = d_ran d @ handler_run True (im_match_handler it)"
        "d_next_unused_id ?d1 = d_next_unused_id d"
      using inv by (simp_all add: run_handler_eq)
    then have "\<exists>d'. free_item ?d1 p = Inr d' \<and> disp_inv d' qs \<and> jobs_ok (live d') (d_ran d') js \<and> kept ?d1 qs d' \<and>
        onward (live d) p (live d')"
      using leave [OF e(1)] p(1,3) jobs_leave [OF j p(1)] gone by auto
    then show ?thesis using p(1) EXECUTE e(2,5) by (simp add: process_que_item_def kept_def)
  next
    case HEARTBEAT
    note TD = timeout_del_spec [OF inv, of p]
    have n: "im_match_handler it = None" using h HEARTBEAT by (simp add: handlers_ok_def)
    have "jobs_ok ((live (timeout_del p d))(p := None)) (d_ran (timeout_del p d)) js"
      using TD(2,3) jobs_leave [OF j p(1)] n by (simp add: handler_run_def)
    then obtain d1 where d1: "free_item (timeout_del p d) p = Inr d1" "disp_inv d1 qs" "jobs_ok (live d1) (d_ran d1) js"
        "kept (timeout_del p d) qs d1" "d_next_unused_id d1 = d_next_unused_id (timeout_del p d)"
        "live d1 = (live (timeout_del p d))(p := None)"
      using leave [OF TD(1)] TD(2,4) p(1) by auto
    have il: "ids_left d1" using ids d1(5) by (simp add: ids_left_def timeout_del_def)
    note SH = schedule_heartbeat_spec [OF d1(2,3) il]
    have "kept d qs (schedule_heartbeat d1)" using SH(3) d1(4,5) TD(2) by (simp add: kept_def timeout_del_def)
    moreover have "onward (live d) p (live (schedule_heartbeat d1))"
    proof (rule onward_leave, intro allI impI)
      fix q it'
      assume "live (schedule_heartbeat d1) q = Some it'" "im_match_handler it' \<noteq> None"
      then have "live d1 q = Some it'" by (rule SH(5))
      then show "q \<noteq> p \<and> live d q = Some it'" using d1(6) TD(2) by (auto split: if_splits)
    qed
    ultimately show ?thesis using p(1) HEARTBEAT d1(1) SH(1,2) by (simp add: process_que_item_def)
  next
    case DIAG
    then have "im_match_handler it = None" using h by (simp add: handlers_ok_def)
    from plain [OF this] show ?thesis using p(1) DIAG by (auto simp: process_que_item_def)
  qed (use h in \<open>simp_all add: handlers_ok_def\<close>)
qed

lemma turn_spec:
  assumes inv: "disp_inv d (p # qs)" and j: "jobs_ok (live d) (d_ran d) js" and ids: "ids_left d"
  shows "\<exists>d'. process_que 1 d = Inr d' \<and> disp_inv d' qs \<and> jobs_ok (live d') (d_ran d') js \<and> kept d qs d' \<and>
    onward (live d) p (live d')"
proof -
  obtain q it where q: "que_pop (d_que d) = Inr (Some p, q)" "disp_inv (d\<lparr>d_que := q\<rparr>) qs" "live (d\<lparr>d_que := q\<rparr>) = live d"
      "p \<notin> set qs" "p \<notin> fst ` set (d_timers d)" "live d p = Some it" "im_items it = None"
    using pop_head_inv [OF inv] by blast
  have "\<exists>d'. process_que_item (d\<lparr>d_que := q\<rparr>) (Some p) = Inr d' \<and> disp_inv d' qs \<and> jobs_ok (live d') (d_ran d') js \<and>
      kept (d\<lparr>d_que := q\<rparr>) qs d' \<and> onward (live (d\<lparr>d_que := q\<rparr>)) p (live d')"
    by (rule process_item_ok [OF q(2) _ _ _ q(4) _ q(7)]) (use q(3,5,6) j ids in \<open>simp_all add: ids_left_def del: live_que\<close>)
  then show ?thesis using q(1,3) unfolding kept_def by (auto simp del: live_que)
qed

lemma work_ok:
  assumes "run_inv d js" "ids_left d"
  shows "\<exists>d'. process_que 1 d = Inr d' \<and> run_inv d' js \<and> stay js (live d) (live d')"
proof -
  obtain qs where inv: "disp_inv d qs" and pl: "placed (live d) qs" and j: "jobs_ok (live d) (d_ran d) js"
    using assms(1) by (auto simp: run_inv_def)
  show ?thesis
  proof (cases qs)
    case Nil
    obtain q where q: "que_pop (d_que d) = Inr (None, q)" "disp_inv (d\<lparr>d_que := q\<rparr>) []" "live (d\<lparr>d_que := q\<rparr>) = live d"
      using pop_empty inv Nil by blast
    then show ?thesis using j pl Nil unfolding run_inv_def by (auto simp: process_que_item_def simp del: live_que)
  next
    case (Cons p ps)
    then obtain d' where d': "process_que 1 d = Inr d'" "disp_inv d' ps" "jobs_ok (live d') (d_ran d') js" "onward (live d) p (live d')"
      using turn_spec [of d p ps js] inv j assms(2) by blast
    have "placed (live d') ps" using placed_onward [OF _ d'(4)] pl Cons d'(3) by (auto simp: jobs_ok_def)
    then show ?thesis using d' stay_onward [OF d'(4)] by (auto simp: run_inv_def)
  qed
qed

lemma timeout_ok:
  assumes "run_inv d js" "item_at d p = Inr it" "im_type it = REG"
  shows "\<exists>d'. timeout_cb (timeout_del p d) p = Inr d' \<and> run_inv d' js \<and> stay js (live d) (live d') \<and>
    (if im_items it = None then live d' = (live d)(p := live d' p) \<and> live d' p \<noteq> None \<and> d_ran d' = d_ran d
     else live d' = (live d)(p := None) \<and> d_ran d' = d_ran d @ handler_run True (im_match_handler it))"
proof -
  obtain qs where inv: "disp_inv d qs" and pl: "placed (live d) qs" and j: "jobs_ok (live d) (d_ran d) js"
    using assms(1) by (auto simp: run_inv_def)
  note TD = timeout_del_spec [OF inv, of p]
  have l: "live d p = Some it" using assms(2) by (auto simp: item_at_live split: option.splits)
  have h: "handlers_ok it" using j l by (simp add: jobs_ok_def)
  then have th: "im_timeout_handler it = im_match_handler it" using assms(3) by (simp add: handlers_ok_def)
  show ?thesis
  proof (cases "im_items it")
    case None
    note I = disp_invD [OF TD(1)]
    show ?thesis
    proof (cases "im_group it")
      case None': None
      have "timeout_cb (timeout_del p d) p = Inr (timeout_del p d)"
        using l TD(2) None None' by (simp add: timeout_cb_def remove_item_def remove_single_def)
      then show ?thesis using TD(1-3) pl j l None by (auto simp: run_inv_def)
    next
      case (Some g)
      let ?d0 = "timeout_del p d"
      have g: "d_groups ?d0 g = Some [p]" using I(5) l TD(2) Some by (simp add: groups_ok_def)
      have l0: "live ?d0 p = Some it" using l TD(2) by simp
      let ?f = "\<lambda>item. let it1 = item\<lparr>im_group := None\<rparr> in
         if 0 < (0 :: nat) then it1\<lparr>im_match_handler := None, im_timeout_handler := None\<rparr> else it1"
      obtain d1 where d1: "write_item ?d0 p ?f = Inr d1" "live d1 = (live ?d0)(p \<mapsto> ?f it)" "queue_of (d_que d1) qs"
          "same_rest ?d0 d1" "d_brk d1 = d_brk ?d0"
        using write_item_spec [OF l0 I(1), of ?f] by blast
      note SR = same_restD [OF d1(4)]
      let ?d' = "d1\<lparr>d_groups := (d_groups d1)(g := None)\<rparr>"
      have si: "same_index it (?f it)" by (simp add: same_index_def)
      have "groups_ok (live d1) ((d_groups d1)(g := None))"
      proof -
        have "h \<noteq> g" if q: "live d1 q = Some iq" "im_group iq = Some h" for q iq h
        proof
          assume "h = g"
          then have "q \<noteq> p" "live ?d0 q = Some iq" using q d1(2) by (auto split: if_splits)
          then have "d_groups ?d0 g = Some [q]" using I(5) q(2) \<open>h = g\<close> by (simp add: groups_ok_def)
          then show False using g \<open>q \<noteq> p\<close> by simp
        qed
        then show ?thesis using I(5) d1(2) SR(3) by (auto simp: groups_ok_def split: if_splits)
      qed
      moreover have "queue_ok (live d1) qs (d_timers d1)" "fresh_ok (live d1) (d_sets d1) ((d_groups d1)(g := None)) (d_brk d1)"
        using I(4,6) d1(2,5) SR l0 by (auto simp: queue_ok_def fresh_ok_def split: if_splits)
      ultimately have "disp_inv ?d' qs"
        using I d1 SR index_write [OF I(2) l0 si] ids_write [OF I(3) l0 si] by (simp add: disp_inv_def)
      moreover have "timeout_cb ?d0 p = Inr ?d'"
        using l0 Some g d1(1,2) None
        by (simp add: timeout_cb_def remove_item_def remove_group_def group_at_def remove_single_def)
      moreover have "jobs_ok ((live d)(p \<mapsto> ?f it)) (d_ran d) js"
      proof -
        have "held_jobs ((live d)(p \<mapsto> ?f it)) = held_jobs (live d)" using l by (auto simp: held_jobs_def fun_eq_iff)
        moreover have "handlers_ok (?f it)" using h assms(3) by (simp add: handlers_ok_def)
        ultimately show ?thesis using j by (auto simp: jobs_ok_def split: if_splits)
      qed
      moreover have "placed ((live d)(p \<mapsto> ?f it)) qs" by (rule placed_same [OF pl l]) simp_all
      moreover have "stay js (live d) ((live d)(p \<mapsto> ?f it))" by (rule stay_write [where L = "live d", OF l]) simp_all
      ultimately show ?thesis using d1(2) SR(6) TD(2,3) None by (auto simp: run_inv_def)
    qed
  next
    case (Some a)
    obtain d' where d': "remove_item (timeout_del p d) p True = Inr d'" "disp_inv d' qs"
        "removed (timeout_del p d) p (handler_run True (im_timeout_handler it)) d'"
      using remove_item_spec [OF TD(1), of p it a True] l TD(2) Some by auto
    then show ?thesis using jobs_leave [OF j l] placed_less [OF pl, of p] stay_less [of js "live d" p] TD(2,3) th Some by (auto simp: run_inv_def removed_def timeout_cb_def)
  qed
qed

lemma heartbeat_ok:
  assumes "run_inv d js" "due p d" "item_at d p = Inr it" "im_type it = HEARTBEAT"
  shows "\<exists>d'. heartbeat_cb (timeout_del p d) p = Inr d' \<and> run_inv d' js \<and> stay js (live d) (live d')"
proof -
  obtain qs where inv: "disp_inv d qs" and pl: "placed (live d) qs" and j: "jobs_ok (live d) (d_ran d) js"
    using assms(1) by (auto simp: run_inv_def)
  note TD = timeout_del_spec [OF inv, of p] and I = disp_invD [OF inv]
  have l: "live d p = Some it" using assms(3) by (auto simp: item_at_live split: option.splits)
  have nq: "p \<notin> set qs" using I(4) assms(2) by (auto simp: queue_ok_def due_def)
  have "im_items it = None"
    using index_okD(4) [OF I(2) l] assms(4) by (cases "im_items it") (auto simp: indexed_def)
  then obtain d' where "schedule_item (timeout_del p d) p = Inr d'" "disp_inv d' (qs @ [p])" "live d' = live (timeout_del p d)" "same_rest (timeout_del p d) d'"
    using push_inv [OF TD(1) _ nq TD(4)] l TD(2) assms(4) by auto
  moreover have "placed (live d) (qs @ [p])" using pl by (auto simp: placed_def)
  ultimately show ?thesis using j TD(2,3) by (auto simp: heartbeat_cb_def run_inv_def same_rest_def)
qed

section \<open>Runs\<close>

lemma new_inv:
  assumes "Oed_Dispatcher_new 1 name = Inr d"
  shows "run_inv d []"
proof -
  obtain T where T: "SKeyTable_new 1000 = Inr T" "d_items d = T" "d_que d = que_new" "d_sets d = (\<lambda>_. None)" "d_groups d = (\<lambda>_. None)"
      "d_timers d = []" "d_ran d = []" "d_number_of_threads d = 1"
    using assms by (auto simp: Oed_Dispatcher_new_def c_bind_Inr)
  have l: "live d = (\<lambda>_. None)" using T(3) by (simp add: live_def fun_eq_iff que_new_def)
  obtain t :: "(string, nat) table_T" where t: "SKeyTable_new 1000 = Inr t" "skey.tgood t" "ArenaTable_toArray t = []"
    using ArenaTable_new_ok [where ?hint = 1000 and ?cmp = stringcmp and ?hsh = stringhash and ?a = False]
    by (auto simp: SKeyTable_new_def Table_new_def skey.tgood_def)
  then have g: "skey.tgood T" "ArenaTable_toArray T = []" using T(1) by simp_all
  then have none: "Table_get T k = None" for k
    using skey.get_iff [OF g(1), of k] by (cases "Table_get T k") (auto simp: Table_get_def)
  have "disp_inv d []"
    using T l g(1) none by (auto simp: disp_inv_def index_ok_def ids_ok_def queue_ok_def groups_ok_def fresh_ok_def)
  moreover have "jobs_ok (live d) (d_ran d) []"
  proof -
    have "held_jobs (live d) = Map.empty" using l by (simp add: held_jobs_def fun_eq_iff)
    then show ?thesis using l T(7) by (simp add: jobs_ok_def accounted_def)
  qed
  moreover have "placed (live d) []" using l by (simp add: placed_def)
  ultimately show ?thesis by (auto simp: run_inv_def)
qed

lemma step_inv:
  assumes "d_step (d, js) (d', js')" "run_inv d js"
  shows "run_inv d' js' \<and> set js \<subseteq> set js' \<and> stay js (live d) (live d')"
  using assms
proof (cases rule: d_step.cases)
  case (step_reg j templ dur consume sid)
  then show ?thesis using reg_ok [OF assms(2), of j templ dur consume] by auto
next
  case (step_reg_group j templ dur consume sid)
  then show ?thesis using reg_group_ok [OF assms(2), of j templ dur consume] by auto
next
  case (step_exec j)
  then show ?thesis using exec_ok [OF assms(2), of j] by auto
next
  case (step_event props clone)
  then show ?thesis using event_ok [OF assms(2), of props clone] by auto
next
  case (step_unreg sid)
  then show ?thesis using unreg_ok [OF assms(2), of sid] by auto
next
  case step_stats
  then show ?thesis using stats_ok [OF assms(2)] by auto
next
  case step_start
  then have "run_inv (schedule_heartbeat d) js" "stay js (live d) (live (schedule_heartbeat d))"
    using schedule_heartbeat_ok [OF assms(2)] by simp_all
  then show ?thesis using step_start by (simp add: d_do_work_def run_inv_def disp_inv_def)
next
  case step_work
  then show ?thesis using work_ok [OF assms(2)] by auto
next
  case (step_timeout p it)
  then show ?thesis using timeout_ok [OF assms(2), of p it] by auto
next
  case (step_heartbeat p it)
  then show ?thesis using heartbeat_ok [OF assms(2), of p it] by auto
qed

lemma steps_keep:
  assumes "d_step\<^sup>*\<^sup>* x y" "run_inv (fst x) (snd x)"
  shows "run_inv (fst y) (snd y) \<and> set (snd x) \<subseteq> set (snd y) \<and> stay (snd x) (live (fst x)) (live (fst y))"
  using assms
proof (induction rule: rtranclp_induct)
  case (step y z)
  have IH: "run_inv (fst y) (snd y)" "set (snd x) \<subseteq> set (snd y)" "stay (snd x) (live (fst x)) (live (fst y))"
    using step by blast+
  have s: "run_inv (fst z) (snd z)" "set (snd y) \<subseteq> set (snd z)" "stay (snd y) (live (fst y)) (live (fst z))"
    using step_inv [of "fst y" "snd y" "fst z" "snd z"] step.hyps(2) IH(1) by simp_all
  have "stay (snd x) (live (fst y)) (live (fst z))" using s(3) IH(2) unfolding stay_def by blast
  then show ?case using s IH stay_trans by blast
qed simp

lemma matcher_run_inv: "matcher_run d js \<Longrightarrow> run_inv d js"
  using steps_keep new_inv by (force simp: matcher_run_def)


section \<open>Waking a registration\<close>

lemma c_bind_assoc: "c_bind (c_bind x f) g = c_bind x (\<lambda>y. c_bind (f y) g)"
  by (cases x) simp_all

lemma process_que_add:
  fixes d :: "'j Oed_Dispatcher"
  shows "process_que (m + n) d = c_bind (process_que m d) (process_que n)"
proof (induction m arbitrary: d)
  case (Suc m)
  then have "process_que (m + n) = (\<lambda>d :: 'j Oed_Dispatcher. c_bind (process_que m d) (process_que n))" by (simp add: fun_eq_iff)
  then show ?case by (cases "que_pop (d_que d)") (auto simp: c_bind_assoc split: prod.splits)
qed simp

lemma ids_left_unat: "ids_left d \<longleftrightarrow> unat (d_next_unused_id d) < 2 ^ 64 - 1"
proof -
  have "unat (x :: 64 word) < 2 ^ 64" for x by (rule less_le_trans [OF unsigned_less]) simp
  then have "unat (x :: 64 word) \<le> 2 ^ 64 - 1" for x by (metis Suc_pred' less_Suc_eq_le zero_less_numeral zero_less_power)
  moreover have "unat (- 1 :: 64 word) = 2 ^ 64 - 1" by (simp add: unsigned_minus_1_eq_mask mask_eq_exp_minus_1)
  ultimately show ?thesis unfolding ids_left_def by (metis le_neq_implies_less less_irrefl word_unat_eq_iff)
qed

lemma turns_spec:
  assumes "disp_inv d (ps @ qs)" "placed (live d) (ps @ qs)" "jobs_ok (live d) (d_ran d) js"
    "unat (d_next_unused_id d) + length ps < 2 ^ 64"
  shows "\<exists>d'. process_que (length ps) d = Inr d' \<and> disp_inv d' qs \<and> placed (live d') qs \<and> jobs_ok (live d') (d_ran d') js \<and>
    (\<forall>q \<in> set qs. live d' q = live d q) \<and> stay js (live d) (live d') \<and>
    unat (d_next_unused_id d') \<le> unat (d_next_unused_id d) + length ps"
  using assms
proof (induction ps arbitrary: d)
  case Nil
  then show ?case by simp
next
  case (Cons p ps)
  have il: "ids_left d" using Cons.prems(4) by (simp add: ids_left_unat)
  obtain d1 where d1: "process_que 1 d = Inr d1" "disp_inv d1 (ps @ qs)" "jobs_ok (live d1) (d_ran d1) js" "kept d (ps @ qs) d1"
      "onward (live d) p (live d1)"
    using turn_spec [of d p "ps @ qs" js] Cons.prems(1,3) il by auto
  have "1 + d_next_unused_id d \<noteq> 0" using il unfolding ids_left_def by (metis add.commute add_eq_0_iff)
  from unatSuc [OF this] have n1: "unat (d_next_unused_id d1) \<le> unat (d_next_unused_id d) + 1"
    using d1(4) by (auto simp: kept_def add.commute)
  then have n: "unat (d_next_unused_id d1) + length ps < 2 ^ 64" using Cons.prems(4) by simp
  have "placed (live d1) (ps @ qs)" using placed_onward [OF _ d1(5)] Cons.prems(2) d1(3) by (auto simp: jobs_ok_def)
  from Cons.IH [OF d1(2) this d1(3) n] obtain d' where d': "process_que (length ps) d1 = Inr d'" "disp_inv d' qs" "placed (live d') qs"
      "jobs_ok (live d') (d_ran d') js" "\<forall>q \<in> set qs. live d' q = live d1 q" "stay js (live d1) (live d')"
      "unat (d_next_unused_id d') \<le> unat (d_next_unused_id d1) + length ps"
    by blast
  have "process_que (1 + length ps) d = Inr d'" unfolding process_que_add using d1(1) d'(1) by simp
  then show ?case using d'(2-7) n1 d1(4) stay_trans [OF stay_onward [OF d1(5)] d'(6)] by (auto simp: kept_def)
qed

text \<open>The turn that takes an event off the queue.\<close>

lemma event_turn:
  assumes inv: "disp_inv d [e]" and e: "live d e = Some ev" "im_type ev = PROCESS" and j: "jobs_ok (live d) (d_ran d) js"
    and p: "live d p = Some it" "im_items it = Some a" "im_match_handler it = Some j" "wanted (im_object it) (im_object ev)"
  shows "\<exists>d'. process_que 1 d = Inr d' \<and> (j \<in> set (d_ran d') \<or>
    (\<exists>q iq k. live d q = Some iq \<and> im_consume iq \<and> im_match_handler iq = Some k \<and> k \<in> set (d_ran d') - set (d_ran d)))"
proof -
  obtain q where q: "que_pop (d_que d) = Inr (Some e, q)" "disp_inv (d\<lparr>d_que := q\<rparr>) []" "live (d\<lparr>d_que := q\<rparr>) = live d"
      "e \<notin> fst ` set (d_timers d)" and ei: "im_items ev = None"
    using pop_head_inv [OF inv] e(1) by auto
  let ?d = "d\<lparr>d_que := q\<rparr>" and ?obj = "im_object ev"
  obtain d1 rs where d1: "process ?d 0 ?obj ?obj = Inr d1" "disp_inv d1 []" "fired_items ?d rs d1"
    "(\<exists>(q, iq) \<in> set rs. im_consume iq) \<or>
     (\<forall>p it k. live ?d p = Some it \<longrightarrow> im_items it \<noteq> None \<longrightarrow> k < length ?obj \<longrightarrow>
        ?obj ! k = im_object it ! im_key_idx it \<longrightarrow> hit it ?obj (0 + k) \<longrightarrow> (p, it) \<in> set rs)"
    using process_spec [OF q(2), of 0 ?obj ?obj] by blast
  have reg: "live d r = Some ir \<and> im_items ir \<noteq> None" if "(r, ir) \<in> set rs" for r ir
    using d1(3) that q(3) unfolding fired_items_def by (auto simp del: live_que)
  then have "e \<notin> fst ` set rs" using e(1) ei by force
  then have le: "live d1 e = Some ev" using d1(3) e(1) q(3) unfolding fired_items_def by (simp del: live_que)
  have "e \<notin> fst ` set (d_timers d1)" using d1(3) q(4) by (auto simp: fired_items_def)
  then obtain d' where d': "free_item d1 e = Inr d'" "same_rest d1 d'" using free_ok [OF d1(2) le _ _ ei] by auto
  have run: "process_que 1 d = Inr d'" using q(1,3) e d1(1) d'(1) by (simp add: process_que_item_def del: live_que)
  have ran: "d_ran d' = d_ran d @ concat (map (\<lambda>(p, it). handler_run True (im_match_handler it)) rs)"
    using d1(3) d'(2) by (simp add: fired_items_def same_rest_def)
  have fired: "k \<in> set (d_ran d')" if "(r, ir) \<in> set rs" "im_match_handler ir = Some k" for r ir k
    using that ran by (force simp: handler_run_def)
  from d1(4) show ?thesis
  proof
    assume "\<exists>(q, iq) \<in> set rs. im_consume iq"
    then obtain r ir where r: "(r, ir) \<in> set rs" "im_consume ir" by auto
    note lr = reg [OF r(1)]
    have "im_type ir = REG" using index_okD(4) [OF disp_invD(2) [OF inv], of r ir] lr by (auto simp: indexed_def)
    moreover have "handlers_ok ir" using j lr unfolding jobs_ok_def by blast
    ultimately obtain k where k: "im_match_handler ir = Some k" by (auto simp: handlers_ok_def)
    have "held_jobs (live d) r = Some k" using lr k by (simp add: held_jobs_def)
    then have "k \<in> Map.ran (held_jobs (live d))" by (auto simp: ran_def)
    then have "k \<notin> set (d_ran d)" using j by (auto simp: jobs_ok_def accounted_def)
    then show ?thesis using run fired [OF r(1) k] lr r(2) k by blast
  next
    assume all: "\<forall>p it k. live ?d p = Some it \<longrightarrow> im_items it \<noteq> None \<longrightarrow> k < length ?obj \<longrightarrow>
        ?obj ! k = im_object it ! im_key_idx it \<longrightarrow> hit it ?obj (0 + k) \<longrightarrow> (p, it) \<in> set rs"
    have "indexed (d_items d) it a" using index_okD(4) [OF disp_invD(2) [OF inv] p(1,2)] .
    from wanted_hit [OF p(4) this] have "(p, it) \<in> set rs" using all p(1,2) q(3) by (auto simp del: live_que)
    then show ?thesis using run fired p(3) by blast
  qed
qed

text \<open>An event is posted behind what is in the queue.\<close>

lemma event_posted:
  assumes R: "run_inv d js" and qs: "queue_of (d_que d) qs" and il: "ids_left d"
  obtains d1 e ev where "Oed_Dispatcher_process d props clone = Inr d1" "disp_inv d1 (qs @ [e])" "placed (live d1) (qs @ [e])"
    "jobs_ok (live d1) (d_ran d1) js" "live d e = None" "live d1 = (live d)(e \<mapsto> ev)" "im_type ev = PROCESS" "im_object ev = strings props"
    "d_next_unused_id d1 = d_next_unused_id d + 1"
proof -
  obtain inv: "disp_inv d qs" and pl: "placed (live d) qs" and jo: "jobs_ok (live d) (d_ran d) js"
    using R queue_of_unique [OF qs] by (auto simp: run_inv_def disp_inv_def)
  obtain sid d' where ge: "gen_id d = (sid, d')" by fastforce
  note G = gen_id_spec [OF inv il ge]
  let ?ev = "(item_new PROCESS sid)\<lparr>im_object := strings props, im_free_alloc := clone\<rparr>"
  obtain d1 e where e: "Oed_Dispatcher_process d props clone = Inr d1" "disp_inv d1 (qs @ [e])" "live d' e = None"
      "live d1 = (live d')(e \<mapsto> ?ev)" "d_ran d1 = d_ran d'" "d_next_unused_id d1 = d_next_unused_id d'"
    using schedule_new_spec [OF G(1), of ?ev] ge by (auto simp: Oed_Dispatcher_process_def new_sid_def)
  have l1: "live d1 = (live d)(e \<mapsto> ?ev)" "live d e = None" using e(3,4) G(2) by simp_all
  have j1: "jobs_ok (live d1) (d_ran d1) js"
    using jobs_plain [OF jo l1(2), of ?ev] l1(1) e(5) G(3) by (simp add: handlers_ok_def)
  have p1: "placed (live d1) (qs @ [e])" unfolding l1(1) by (rule placed_new [OF pl])
  show thesis using that [OF e(1,2) p1 j1 l1(2,1)] e(6) ge by (auto simp: gen_id_def)
qed

text \<open>The queue is worked off up to an event: then a callback whose template the event matches has run, or the event
  has gone to a registration that consumes events.\<close>

lemma event_wakes:
  assumes R: "run_inv d js" and qs: "queue_of (d_que d) qs" and ids: "unat (d_next_unused_id d) + length qs + 2 < 2 ^ 64"
    and j: "j \<in> set js" and t: "\<And>p it. live d p = Some it \<Longrightarrow> im_match_handler it = Some j \<Longrightarrow> im_type it = REG \<and> im_object it = ts"
    and m: "wanted ts (strings props)" "\<exists>x \<in> set ts. x \<noteq> ''_''"
    and ev: "Oed_Dispatcher_process d props clone = Inr d1"
  shows "\<exists>d2 d3. process_que (length qs) d1 = Inr d2 \<and> process_que 1 d2 = Inr d3 \<and>
    (j \<in> set (d_ran d3) \<or>
     (\<exists>q iq k. item_at d2 q = Inr iq \<and> im_consume iq \<and> im_match_handler iq = Some k \<and> k \<in> set (d_ran d3) - set (d_ran d2)))"
proof -
  have il: "ids_left d" using ids by (simp add: ids_left_unat)
  obtain e item where e: "disp_inv d1 (qs @ [e])" "placed (live d1) (qs @ [e])" "jobs_ok (live d1) (d_ran d1) js"
      "live d1 = (live d)(e \<mapsto> item)" "im_type item = PROCESS" "im_object item = strings props" "d_next_unused_id d1 = d_next_unused_id d + 1"
    using event_posted [OF R qs il, of props clone] ev by (metis Inr_inject)
  have n1: "unat (d_next_unused_id d1) + length qs + 1 < 2 ^ 64"
    using ids e(7) unat_plus_if' [of "d_next_unused_id d" 1] by simp
  then have n2: "unat (d_next_unused_id d1) + length qs < 2 ^ 64" by simp
  obtain d2 where d2: "process_que (length qs) d1 = Inr d2" "disp_inv d2 [e]" "placed (live d2) [e]" "jobs_ok (live d2) (d_ran d2) js"
      "live d2 e = Some item" "stay js (live d1) (live d2)"
      "unat (d_next_unused_id d2) \<le> unat (d_next_unused_id d1) + length qs"
    using turns_spec [OF e(1,2,3) n2] e(4) by auto
  show ?thesis
  proof (cases "j \<in> set (d_ran d2)")
    case True
    have "ids_left d2" using d2(7) n1 by (simp add: ids_left_unat)
    then obtain d3 where d3: "process_que 1 d2 = Inr d3" "jobs_ok (live d3) (d_ran d3) js" "onward (live d2) e (live d3)"
      using turn_spec [OF d2(2,4)] by blast
    have "held_jobs (live d3) q \<noteq> Some j" for q
    proof
      assume "held_jobs (live d3) q = Some j"
      then obtain it' where "live d3 q = Some it'" "im_match_handler it' = Some j" by (auto simp: held_jobs_def bind_eq_Some_conv)
      then obtain it where "live d2 q = Some it" "im_match_handler it = Some j" using d3(3) unfolding onward_def by (metis option.distinct(1))
      then have "held_jobs (live d2) q = Some j" by (simp add: held_jobs_def)
      then have "j \<in> Map.ran (held_jobs (live d2))" by (auto simp: ran_def)
      then show False using True d2(4) by (auto simp: jobs_ok_def accounted_def)
    qed
    then have "j \<in> set (d_ran d3)" using d3(2) j unfolding jobs_ok_def accounted_def ran_def by blast
    then show ?thesis using d2(1) d3(1) by blast
  next
    case False
    then have "j \<in> Map.ran (held_jobs (live d2))" using d2(4) j by (auto simp: jobs_ok_def accounted_def)
    then obtain p it where p: "live d2 p = Some it" "im_match_handler it = Some j" by (auto simp: ran_def held_jobs_def bind_eq_Some_conv)
    obtain it1 where it1: "live d1 p = Some it1" "im_type it = im_type it1" "im_object it = im_object it1" "im_match_handler it1 = Some j"
      using d2(6) p j unfolding stay_def by blast
    have pe: "p \<noteq> e"
    proof
      assume "p = e"
      then have "im_match_handler item = Some j" using p d2(5) by simp
      moreover have "handlers_ok item" using d2(4,5) unfolding jobs_ok_def by blast
      ultimately show False using e(5) by (simp add: handlers_ok_def)
    qed
    then have "live d p = Some it1" using it1(1) e(4) by simp
    then have ty: "im_type it = REG" "im_object it = ts" using t it1 by auto
    moreover note pe
    ultimately obtain a where a: "im_items it = Some a" using d2(3) p(1) m(2) unfolding placed_def all_wild_def by (metis empty_iff empty_set not_None_eq set_ConsD)
    have w: "wanted (im_object it) (im_object item)" using m(1) ty(2) e(6) by simp
    obtain d3 where "process_que 1 d2 = Inr d3" "j \<in> set (d_ran d3) \<or>
      (\<exists>q iq k. live d2 q = Some iq \<and> im_consume iq \<and> im_match_handler iq = Some k \<and> k \<in> set (d_ran d3) - set (d_ran d2))"
      using event_turn [OF d2(2,5) e(5) d2(4) p(1) a p(2) w] by auto
    then show ?thesis using d2(1) by (metis item_at_Some)
  qed
qed

text \<open>A registration that comes after the event was worked off: it is there, and it waits.\<close>

lemma registration_late:
  assumes R: "run_inv d js" and qs: "queue_of (d_que d) qs" and ids: "unat (d_next_unused_id d) + length qs + 4 < 2 ^ 64" and new: "j \<notin> set js"
  shows "\<exists>d1 d2 sid d3 d4. Oed_Dispatcher_process d props clone = Inr d1 \<and> process_que (length qs + 1) d1 = Inr d2 \<and>
    Oed_Dispatcher_reg_group d2 [templ] dur consume (Some j) (Some j) = Inr (sid, d3) \<and> process_que 1 d3 = Inr d4 \<and>
    queue_of (d_que d4) [] \<and> j \<notin> set (d_ran d4) \<and> (\<exists>p it. item_at d4 p = Inr it \<and> im_match_handler it = Some j)"
proof -
  have il: "ids_left d" using ids by (simp add: ids_left_unat)
  obtain d1 e where e: "Oed_Dispatcher_process d props clone = Inr d1" "disp_inv d1 (qs @ [e])" "placed (live d1) (qs @ [e])"
      "jobs_ok (live d1) (d_ran d1) js" "d_next_unused_id d1 = d_next_unused_id d + 1"
    using event_posted [OF R qs il, of props clone] by metis
  have n1: "unat (d_next_unused_id d1) + length (qs @ [e]) + 2 < 2 ^ 64"
    using ids e(5) unat_plus_if' [of "d_next_unused_id d" 1] by simp
  obtain d2 where d2: "process_que (length qs + 1) d1 = Inr d2" "disp_inv d2 []" "placed (live d2) []" "jobs_ok (live d2) (d_ran d2) js"
      "unat (d_next_unused_id d2) + 2 < 2 ^ 64"
    using turns_spec [of d1 "qs @ [e]" "[]" js] e(2-4) n1 by auto
  have il2: "ids_left d2" using d2(5) by (simp add: ids_left_unat)
  obtain sid d3 p g where d3: "Oed_Dispatcher_reg_group d2 [templ] dur consume (Some j) (Some j) = Inr (sid, d3)" "disp_inv d3 [p]"
      "live d2 p = None" "live d3 = (live d2)(p \<mapsto> (reg_item sid (strings templ) dur consume j)\<lparr>im_group := Some g\<rparr>)" "d_ran d3 = d_ran d2"
      "d_next_unused_id d3 = d_next_unused_id d2 + 1"
    using reg_group_spec [OF d2(2) il2, of templ dur consume j] by auto
  let ?it = "(reg_item sid (strings templ) dur consume j)\<lparr>im_group := Some g\<rparr>"
  obtain q where q: "que_pop (d_que d3) = Inr (Some p, q)" "disp_inv (d3\<lparr>d_que := q\<rparr>) []" "live (d3\<lparr>d_que := q\<rparr>) = live d3"
      "p \<notin> fst ` set (d_timers d3)"
    using pop_head_inv [OF d3(2)] by auto
  obtain d4 it' where d4: "process_que_item (d3\<lparr>d_que := q\<rparr>) (Some p) = Inr d4" "disp_inv d4 []" "live d4 = (live d3)(p \<mapsto> it')"
      "same_reg ?it it'" "d_ran d4 = d_ran d3"
    using reg_item_spec [OF q(2), of p ?it] q(3,4) d3(4) by (auto simp: kept_rest_def simp del: live_que)
  have "process_que 1 d3 = Inr d4" using q(1) d4(1) by simp
  moreover have "queue_of (d_que d4) []" using d4(2) by (simp add: disp_inv_def)
  moreover have "j \<notin> set (d_ran d4)" using d2(4) new d4(5) d3(5) by (auto simp: jobs_ok_def accounted_def)
  moreover have "item_at d4 p = Inr it'" "im_match_handler it' = Some j" using d4(3,4) by (simp_all add: same_reg_def)
  ultimately show ?thesis using e(1) d2(1) d3(1) by blast
qed

lemma registration_woken:
  assumes run: "matcher_run d js" and new: "j \<notin> set js" and il: "ids_left d"
    and reg: "Oed_Dispatcher_reg_group d [templ] dur consume (Some j) (Some j) = Inr (sid, d1)"
    and later: "d_step\<^sup>*\<^sup>* (d1, js @ [j]) (d2, js2)" and qs: "queue_of (d_que d2) qs"
    and ids: "unat (d_next_unused_id d2) + length qs + 2 < 2 ^ 64"
    and ev: "Oed_Dispatcher_process d2 props clone = Inr d3"
    and m: "wanted (strings templ) (strings props)" "\<exists>x \<in> set (strings templ). x \<noteq> ''_''"
  shows "\<exists>d4 d5. process_que (length qs) d3 = Inr d4 \<and> process_que 1 d4 = Inr d5 \<and>
    (j \<in> set (d_ran d5) \<or>
     (\<exists>q iq k. item_at d4 q = Inr iq \<and> im_consume iq \<and> im_match_handler iq = Some k \<and> k \<in> set (d_ran d5) - set (d_ran d4)))"
proof -
  note R = matcher_run_inv [OF run]
  obtain qs0 where inv: "disp_inv d qs0" and jo: "jobs_ok (live d) (d_ran d) js" using R by (auto simp: run_inv_def)
  obtain p g where r: "live d1 = (live d)(p \<mapsto> (reg_item sid (strings templ) dur consume j)\<lparr>im_group := Some g\<rparr>)"
    using reg_group_spec [OF inv il, of templ dur consume j] reg by auto
  have R1: "run_inv d1 (js @ [j])" using reg_group_ok [OF R il new, of templ dur consume] reg by auto
  have fresh: "held_jobs (live d) q \<noteq> Some j" for q
    using jo new unfolding jobs_ok_def accounted_def ran_def by blast
  have t1: "im_type it = REG \<and> im_object it = strings templ" if "live d1 q = Some it" "im_match_handler it = Some j" for q it
    using that r fresh [of q] by (auto simp: held_jobs_def split: if_splits)
  have S: "run_inv d2 js2" "set (js @ [j]) \<subseteq> set js2" "stay (js @ [j]) (live d1) (live d2)"
    using steps_keep [OF later] R1 by simp_all
  have "im_type it = REG \<and> im_object it = strings templ" if "live d2 q = Some it" "im_match_handler it = Some j" for q it
    using S(3) that t1 unfolding stay_def by (metis in_set_conv_decomp)
  then show ?thesis using event_wakes [OF S(1) qs ids _ _ m ev, of j] S(2) by auto
qed

text \<open>C22: an event wakes a registration it matches.  A template is registered with callback \<open>j\<close>; after any further steps of the
  matcher and its clients an event is posted that has what the template asks for, and \<open>qs\<close> is what is in the
  queue then.  When the matcher's thread has worked off the queue and the event, without ever touching released
  memory, the callback has run, or the event has gone to another registration that consumes events, and that callback
  has run instead.\<close>

theorem event_wakes_registration:
  assumes run: "matcher_run d js" and new: "j \<notin> set js" and il: "ids_left d"
    and reg: "Oed_Dispatcher_reg_group d [templ] dur consume (Some j) (Some j) = Inr (sid, d1)"
    and later: "d_step\<^sup>*\<^sup>* (d1, js @ [j]) (d2, js2)" and qs: "queue_of (d_que d2) qs"
    and ids: "unat (d_next_unused_id d2) + length qs + 2 < 2 ^ 64"
    and ev: "Oed_Dispatcher_process d2 props clone = Inr d3"
    and m: "wanted (strings templ) (strings props)" "\<exists>x \<in> set (strings templ). x \<noteq> ''_''"
  shows "\<exists>d4 d5. process_que (length qs) d3 = Inr d4 \<and> process_que 1 d4 = Inr d5 \<and>
    (j \<in> set (d_ran d5) \<or>
     (\<exists>q iq k. item_at d4 q = Inr iq \<and> im_consume iq \<and> im_match_handler iq = Some k \<and> k \<in> set (d_ran d5) - set (d_ran d4)))"
  by (rule registration_woken [OF assms])

section \<open>Timeouts and withdrawals\<close>

text \<open>what a timeout does.  When the timer of a registration is due, its callback runs and its item is released,
  unless the template has nothing but wildcards: such a template is never entered in the index, and its timeout
  does not run the callback either.\<close>

theorem timeout_cases:
  assumes run: "matcher_run d js" and p: "due p d" "item_at d p = Inr it" "im_type it = REG"
  shows "\<exists>j d'. im_match_handler it = Some j \<and> timeout_cb (timeout_del p d) p = Inr d' \<and>
    (if \<forall>x \<in> set (im_object it). x = ''_'' then d_ran d' = d_ran d \<and> item_at d' p \<noteq> Inl Use_After_Free
     else d_ran d' = d_ran d @ [j] \<and> item_at d' p = Inl Use_After_Free)"
proof -
  note R = matcher_run_inv [OF run]
  obtain qs where inv: "disp_inv d qs" and jo: "jobs_ok (live d) (d_ran d) js" using R by (auto simp: run_inv_def)
  note I = disp_invD [OF inv]
  have l: "live d p = Some it" using p(2) by (auto simp: item_at_live split: option.splits)
  have "handlers_ok it" using jo l by (simp add: jobs_ok_def)
  then obtain j where j: "im_match_handler it = Some j" using p(3) by (auto simp: handlers_ok_def)
  have w: "im_items it = None \<longleftrightarrow> (\<forall>x \<in> set (im_object it). x = ''_'')"
  proof
    assume "im_items it = None"
    then show "\<forall>x \<in> set (im_object it). x = ''_''" using I(4) p(1) l by (auto simp: queue_ok_def due_def)
  next
    assume w: "\<forall>x \<in> set (im_object it). x = ''_''"
    show "im_items it = None"
    proof (rule ccontr)
      assume "im_items it \<noteq> None"
      then obtain a where "indexed (d_items d) it a" using index_okD(4) [OF I(2) l] by auto
      then have "im_object it ! im_key_idx it \<in> set (im_object it)" "im_object it ! im_key_idx it \<noteq> ''_''"
        by (simp_all add: indexed_def)
      then show False using w by blast
    qed
  qed
  obtain d' where d': "timeout_cb (timeout_del p d) p = Inr d'"
      "if im_items it = None then live d' = (live d)(p := live d' p) \<and> live d' p \<noteq> None \<and> d_ran d' = d_ran d
       else live d' = (live d)(p := None) \<and> d_ran d' = d_ran d @ handler_run True (im_match_handler it)"
    using timeout_ok [OF R p(2,3)] by blast
  show ?thesis
  proof (cases "\<forall>x \<in> set (im_object it). x = ''_''")
    case True
    then have "d_ran d' = d_ran d" "live d' p \<noteq> None" using d'(2) w by simp_all
    then show ?thesis using True j d'(1) by (intro exI [of _ j] exI [of _ d']) (auto simp: item_at_live)
  next
    case False
    then have "d_ran d' = d_ran d @ [j]" "live d' p = None" using d'(2) w j by (simp_all add: handler_run_def)
    then show ?thesis using False j d'(1) by (intro exI [of _ j] exI [of _ d']) (auto simp: item_at_live)
  qed
qed

text \<open>withdrawing a registration has no effect.  The item that \<^verbatim>\<open>Oed_Dispatcher_unreg\<close> queues has no set, so when
  its turn comes nothing is removed: every item, every set, the index and the timers are as before.\<close>

theorem unreg_does_nothing:
  assumes run: "matcher_run d js" and h: "queue_of (d_que d) (p # qs)" "item_at d p = Inr it" "im_type it = UNREG"
  shows "\<exists>d'. process_que 1 d = Inr d' \<and> item_at d' = item_at d \<and> d_sets d' = d_sets d \<and> d_items d' = d_items d \<and>
    d_timers d' = d_timers d \<and> d_ran d' = d_ran d"
proof -
  have inv: "disp_inv d (p # qs)"
    using matcher_run_inv [OF run] queue_of_unique [OF h(1)] by (auto simp: run_inv_def disp_inv_def)
  obtain q where q: "que_pop (d_que d) = Inr (Some p, q)" "live (d\<lparr>d_que := q\<rparr>) = live d" "im_items it = None"
    using pop_head_inv [OF inv] h(2) by (auto simp: item_at_live)
  let ?d = "d\<lparr>d_que := q\<rparr>"
  have it: "item_at ?d = item_at d" using q(2) by (simp add: item_at_live fun_eq_iff del: live_que)
  have l: "live d p = Some it" using h(2) by (auto simp: item_at_live split: option.splits)
  have "im_group it = None" using disp_invD(5) [OF inv] l h(3) by (cases "im_group it") (auto simp: groups_ok_def)
  then have "process_que_item ?d (Some p) = Inr ?d"
    using q(3) h(2,3) it by (simp add: process_que_item_def remove_item_def remove_single_def)
  then show ?thesis using q(1) it by simp
qed

section \<open>Witnesses\<close>

lemma new_matcher:
  obtains d :: "'j Oed_Dispatcher" where "Oed_Dispatcher_new 1 None = Inr d" "matcher_run d []" "d_next_unused_id d = 101"
    "queue_of (d_que d) []"
proof -
  obtain t :: "(string, nat) table_T" where t: "SKeyTable_new 1000 = Inr t"
    using ArenaTable_new_ok [where ?hint = 1000 and ?cmp = stringcmp and ?hsh = stringhash and ?a = False]
    by (auto simp: SKeyTable_new_def Table_new_def)
  obtain d :: "'j Oed_Dispatcher" where d: "Oed_Dispatcher_new 1 None = Inr d" "d_next_unused_id d = 101" "d_que d = que_new"
    using t by (simp add: Oed_Dispatcher_new_def)
  then show thesis using that [of d] by (auto simp: matcher_run_def)
qed


definition demo_wish :: DataObject where
  "demo_wish = DataObject_new\<lparr>strings := [''job'', ''_'']\<rparr>"

definition demo_offer :: DataObject where
  "demo_offer = DataObject_new\<lparr>strings := [''job'', ''print'']\<rparr>"

text \<open>A matcher with one registration that has been taken off the queue.\<close>

lemma demo_registered:
  assumes "matcher_run d []" "d_next_unused_id d = 101" "queue_of (d_que d) []"
  obtains d1 d2 sid p it where "Oed_Dispatcher_reg_group d [templ] 1000 True (Some ''wake'') (Some ''wake'') = Inr (sid, d1)"
    "process_que 1 d1 = Inr d2" "matcher_run d2 [''wake'']" "due p d2" "item_at d2 p = Inr it" "im_type it = REG"
    "im_object it = strings templ"
proof -
  have inv: "disp_inv d []" using matcher_run_inv [OF assms(1)] queue_of_unique [OF assms(3)] by (auto simp: run_inv_def disp_inv_def)
  have il: "ids_left d" using assms(2) by (simp add: ids_left_def)
  obtain sid d1 p g where r: "Oed_Dispatcher_reg_group d [templ] 1000 True (Some ''wake'') (Some ''wake'') = Inr (sid, d1)" "disp_inv d1 [p]"
      "live d1 = (live d)(p \<mapsto> (reg_item sid (strings templ) 1000 True ''wake'')\<lparr>im_group := Some g\<rparr>)" "d_next_unused_id d1 = 102"
    using reg_group_spec [OF inv il, of templ 1000 True "''wake''"] assms(2) by auto
  let ?it = "(reg_item sid (strings templ) 1000 True ''wake'')\<lparr>im_group := Some g\<rparr>"
  obtain q where q: "que_pop (d_que d1) = Inr (Some p, q)" "disp_inv (d1\<lparr>d_que := q\<rparr>) []" "live (d1\<lparr>d_que := q\<rparr>) = live d1"
      "p \<notin> fst ` set (d_timers d1)"
    using pop_head_inv [OF r(2)] by auto
  obtain d2 it' where d2: "process_que_item (d1\<lparr>d_que := q\<rparr>) (Some p) = Inr d2" "live d2 = (live d1)(p \<mapsto> it')" "same_reg ?it it'"
      "d_timers d2 = d_timers d1 @ [(p, timeval_of 1000)]"
    using reg_item_spec [OF q(2), of p ?it] q(3,4) r(3) by (auto simp: OEC_FOREVER_def simp del: live_que)
  have run2: "process_que 1 d1 = Inr d2" using q(1) d2(1) by simp
  have "d_step (d, []) (d1, [''wake''])" using step_reg_group [OF il, of "''wake''" "[]"] r(1) by simp
  moreover have "d_step (d1, [''wake'']) (d2, [''wake''])" using step_work [OF _ run2] r(4) by (simp add: ids_left_def)
  ultimately have "matcher_run d2 [''wake'']" using assms(1) unfolding matcher_run_def by (meson rtranclp.rtrancl_into_rtrancl)
  moreover have "due p d2" "item_at d2 p = Inr it'" "im_type it' = REG" "im_object it' = strings templ"
    using d2(2-4) by (simp_all add: due_def same_reg_def)
  ultimately show thesis using that [OF r(1) run2] by blast
qed

theorem event_wakes_registration_witness:
  "\<exists>d d1 d2 d3 d4 :: string Oed_Dispatcher. \<exists>sid.
     Oed_Dispatcher_new 1 None = Inr d \<and>
     Oed_Dispatcher_reg_group d [demo_wish] 1000 True (Some ''wake'') (Some ''wake'') = Inr (sid, d1) \<and>
     Oed_Dispatcher_process d1 demo_offer True = Inr d2 \<and> process_que 1 d2 = Inr d3 \<and> process_que 1 d3 = Inr d4 \<and>
     (''wake'' \<in> set (d_ran d4) \<or> (\<exists>q iq k. item_at d3 q = Inr iq \<and> im_consume iq \<and> im_match_handler iq = Some k \<and>
        k \<in> set (d_ran d4) - set (d_ran d3)))"
proof -
  obtain d :: "string Oed_Dispatcher" where d: "Oed_Dispatcher_new 1 None = Inr d" "matcher_run d []" "d_next_unused_id d = 101"
      "queue_of (d_que d) []"
    using new_matcher by blast
  have il: "ids_left d" using d(3) by (simp add: ids_left_def)
  have inv: "disp_inv d []" using matcher_run_inv [OF d(2)] queue_of_unique [OF d(4)] by (auto simp: run_inv_def disp_inv_def)
  obtain sid d1 where r: "Oed_Dispatcher_reg_group d [demo_wish] 1000 True (Some ''wake'') (Some ''wake'') = Inr (sid, d1)" "run_inv d1 [''wake'']"
      "d_next_unused_id d1 = 102"
    using reg_group_ok [OF matcher_run_inv [OF d(2)] il, of "''wake''" demo_wish 1000 True]
      reg_group_spec [OF inv il, of demo_wish 1000 True "''wake''"] d(3)
    by auto
  obtain d2 where e: "Oed_Dispatcher_process d1 demo_offer True = Inr d2"
    using event_ok [OF r(2)] r(3) by (auto simp: ids_left_def)
  have w: "wanted (strings demo_wish) (strings demo_offer)" "\<exists>x \<in> set (strings demo_wish). x \<noteq> ''_''"
    by (auto simp: demo_wish_def demo_offer_def intro!: wanted_positional)
  obtain p where "disp_inv d1 [p]" using reg_group_spec [OF inv il, of demo_wish 1000 True "''wake''"] r(1) by auto
  then have q1: "queue_of (d_que d1) [p]" by (simp add: disp_inv_def)
  have n1: "unat (d_next_unused_id d1) + length [p] + 2 < 2 ^ 64" using r(3) by simp
  show ?thesis using event_wakes_registration [OF d(2) _ il r(1) _ q1 n1 e w] d(1) r(1) e by fastforce
qed

theorem timeout_cases_witness:
  "\<exists>d d' :: string Oed_Dispatcher. \<exists>p. due p d \<and> timeout_cb (timeout_del p d) p = Inr d' \<and> d_ran d' = d_ran d @ [''wake'']"
proof -
  obtain d :: "string Oed_Dispatcher" where d: "matcher_run d []" "d_next_unused_id d = 101" "queue_of (d_que d) []"
    using new_matcher by blast
  obtain d2 p it where r: "matcher_run d2 [''wake'']" "due p d2" "item_at d2 p = Inr it" "im_type it = REG" "im_object it = strings demo_wish"
    using demo_registered [OF d] by blast
  obtain j d' where t: "im_match_handler it = Some j" "timeout_cb (timeout_del p d2) p = Inr d'" "d_ran d' = d_ran d2 @ [j]"
    using timeout_cases [OF r(1-4)] r(5) by (auto simp: demo_wish_def)
  have "jobs_ok (live d2) (d_ran d2) [''wake'']" using matcher_run_inv [OF r(1)] by (simp add: run_inv_def)
  moreover have "held_jobs (live d2) p = Some j" using r(3) t(1) by (auto simp: held_jobs_def item_at_live split: option.splits)
  ultimately have "j = ''wake''" by (auto simp: jobs_ok_def accounted_def ran_def)
  then show ?thesis using r(2) t by blast
qed

theorem unreg_does_nothing_witness:
  "\<exists>d d1 d2 :: string Oed_Dispatcher. Oed_Dispatcher_new 1 None = Inr d \<and> Oed_Dispatcher_unreg d 101 = Inr d1 \<and>
     process_que 1 d1 = Inr d2 \<and> d_items d2 = d_items d1"
proof -
  obtain d :: "string Oed_Dispatcher" where d: "Oed_Dispatcher_new 1 None = Inr d" "matcher_run d []" "d_next_unused_id d = 101"
      "queue_of (d_que d) []"
    using new_matcher by blast
  have inv: "disp_inv d []" using matcher_run_inv [OF d(2)] queue_of_unique [OF d(4)] by (auto simp: run_inv_def disp_inv_def)
  obtain d1 p where u: "Oed_Dispatcher_unreg d 101 = Inr d1" "disp_inv d1 [p]" "live d1 = (live d)(p \<mapsto> item_new UNREG 101)"
    using schedule_new_spec [OF inv, of "item_new UNREG 101"] by (auto simp: Oed_Dispatcher_unreg_def new_sid_def)
  have "matcher_run d1 []" using d(2) step_unreg [OF u(1)] unfolding matcher_run_def by (meson rtranclp.rtrancl_into_rtrancl)
  moreover have "queue_of (d_que d1) [p]" using u(2) by (simp add: disp_inv_def)
  ultimately obtain d2 where "process_que 1 d1 = Inr d2" "d_items d2 = d_items d1"
    using unreg_does_nothing [of d1 "[]" p "[]" "item_new UNREG 101"] u(3) by auto
  then show ?thesis using d(1) u(1) by blast
qed

end
