(* ===== verification/Wakeup.thy ===== *)
theory Wakeup
  imports Kernel_Samples Dispatcher_Runs
begin

text \<open>
  The kernel and the template matcher together.  A get that finds nothing registers its templates with the
  matcher (\<^verbatim>\<open>_geth_handle_no_results\<close>, \<^verbatim>\<open>corelib/OEK_get.c\<close>); a put that succeeds posts its record there
  (\<^verbatim>\<open>_fire_write_event\<close>, \<^verbatim>\<open>corelib/OEK_impl.c\<close>); a match runs the get again.

  The callbacks of the matcher are contexts with their addresses: two gets never share a context.
\<close>

type_synonym waiting = "nat \<times> OEK_Context"

section \<open>The calls between kernel and matcher\<close>

definition fire_write_event_cb :: "'j Oed_Dispatcher \<Rightarrow> DataObject \<Rightarrow> 'j Oed_Dispatcher c_result" where
  "fire_write_event_cb matcher props = Oed_Dispatcher_process matcher props True"

fun post_events :: "DataObject list \<Rightarrow> 'j Oed_Dispatcher \<Rightarrow> 'j Oed_Dispatcher c_result" where
  "post_events [] d = Inr d"
| "post_events (props # rest) d = c_bind (fire_write_event_cb d props) (post_events rest)"

text \<open>The write events the store sent between two states of a kernel.\<close>

definition new_events :: "'d OeBdb kernel \<Rightarrow> 'd OeBdb kernel \<Rightarrow> DataObject list" where
  "new_events k k' = drop (length (fired (store_impl (k_store k)))) (fired (store_impl (k_store k')))"

definition register_get :: "nat \<Rightarrow> registration \<Rightarrow> waiting Oed_Dispatcher \<Rightarrow> (oe_id \<times> waiting Oed_Dispatcher) c_result" where
  "register_get w g d =
     Oed_Dispatcher_reg_group d (rg_templates g) (rg_dur g) (rg_consume g) (Some (w, rg_context g)) (Some (w, rg_context g))"

section \<open>A get that waits and a put that succeeds\<close>

text \<open>A get for tuples with the one template \<open>t\<close> that found nothing and wants to wait.\<close>

definition waits :: "times \<Rightarrow> OEK_Context \<Rightarrow> DataObject \<Rightarrow> 's kernel \<Rightarrow> 's kernel \<Rightarrow> registration \<Rightarrow> bool" where
  "waits T c t k k' rg =
     (\<exists>msg g. fresh_context c msg \<and> mtype msg = GET_CMD \<and> data msg = D_get_cmd g \<and> GetCmd_is_tuple g \<and>
        GetCmd_get_max_responses g \<noteq> 0 \<and> gc_value_lists g = Some [t] \<and> dataobject_ok t \<and>
        geth T c k = Inr k' \<and> k_out k' = k_out k @ [Reg_Group rg])"

text \<open>A successful put of the tuple \<open>x\<close> outside a transaction; \<open>h\<close> is the record made of it.\<close>

definition puts :: "times \<Rightarrow> OEK_Context \<Rightarrow> DataObject \<Rightarrow> OeStoreHolder \<Rightarrow> 's kernel \<Rightarrow> 's kernel \<Rightarrow> bool" where
  "puts T c x h k k' =
     (\<exists>msg p e. fresh_context c msg \<and> mtype msg = PUT_CMD \<and> data msg = D_put_cmd p \<and> txn_id msg = 0 \<and> pc_is_tuple p \<and>
        pc_data p = Some x \<and> storable_data x \<and> h = put_record (at_first T) 0 p \<and>
        sput T c k = Inr k' \<and> k_out k' = k_out k @ [e] \<and> succeeded e)"

text \<open>An answer with records, or the error of a store that failed.\<close>

definition finds :: "times \<Rightarrow> OEK_Context \<Rightarrow> 's kernel \<Rightarrow> bool" where
  "finds T c k = (\<forall>k'. geth T c k = Inr k' \<longrightarrow> (\<exists>e. k_out k' = k_out k @ [e] \<and>
     (has_records e \<or> (\<exists>c1 m. e = deliver (c1\<lparr>cx_err_msg := Some m\<rparr>)))))"

lemma waits_registers:
  assumes laws: "bdb_laws B V" and store: "k_store k = OeBdb_new n u B st" and w: "waits T c t k k' rg"
  obtains msg g where "fresh_context (rg_context rg) msg" "mtype msg = GET_CMD" "data msg = D_get_cmd g" "GetCmd_is_tuple g"
    "GetCmd_get_max_responses g \<noteq> 0" "gc_value_lists g = Some [t]" "dataobject_ok t" "rg_templates rg = [t]"
proof -
  obtain msg g where g: "fresh_context c msg" "mtype msg = GET_CMD" "data msg = D_get_cmd g" "GetCmd_is_tuple g"
      "GetCmd_get_max_responses g \<noteq> 0" "gc_value_lists g = Some [t]" "dataobject_ok t" "geth T c k = Inr k'"
      "k_out k' = k_out k @ [Reg_Group rg]"
    using w unfolding waits_def by blast
  have cm: "cx_cmd_msg c = Some msg" using g(1) by (simp add: fresh_context_def)
  let ?c1 = "c\<lparr>cx_cmd_msg := Some (msg\<lparr>data := D_get_cmd (listed g)\<rparr>)\<rparr>"
  obtain r q' st' where "k' = emit (geth_answer T ?c1 msg g r q') (k\<lparr>k_store := OeBdb_new n u B st'\<rparr>)"
    using get_command [OF laws store cm g(2,3,8) refl refl refl] by blast
  then have "geth_answer T ?c1 msg g r q' = Reg_Group rg" using g(9) by simp
  then have rg: "rg_templates rg = fst (get_value_lists g)" "rg_context rg = ?c1"
    by (auto simp: geth_answer_def deliver_def split: if_splits)
  have "get_value_lists g = ([t], g)" using g(6) by (simp add: get_value_lists_def)
  then have "listed g = g" "fst (get_value_lists g) = [t]" by (simp_all add: listed_def)
  then show thesis using that [of "msg\<lparr>data := D_get_cmd g\<rparr>" g] g rg by (simp add: fresh_context_def)
qed

lemma put_found_again:
  assumes laws: "bdb_laws B V" and store: "k_store k0 = OeBdb_new n u B st0" "k_store k = OeBdb_new n u B st"
    and w: "waits T0 c0 t k0 k0' rg" and p: "puts T c x h k k'"
    and lease: "\<forall>j. OeStoreHolder_skip (at_store T' j) h = OESTORE_DO_NOT_SKIP"
    and m: "tuple_matches (strings t) (strings x)" "\<exists>a \<in> set (strings t). a \<noteq> OESTORE_WILDCARD"
  shows "finds T' (rg_context rg) k'"
proof -
  obtain msg' g where g: "fresh_context (rg_context rg) msg'" "mtype msg' = GET_CMD" "data msg' = D_get_cmd g" "GetCmd_is_tuple g"
      "GetCmd_get_max_responses g \<noteq> 0" "gc_value_lists g = Some [t]" "dataobject_ok t"
    using waits_registers [OF laws store(1) w] by metis
  obtain msg q e where q: "fresh_context c msg" "mtype msg = PUT_CMD" "data msg = D_put_cmd q" "txn_id msg = 0" "pc_is_tuple q"
      "pc_data q = Some x" "storable_data x" "sput T c k = Inr k'" "k_out k' = k_out k @ [e]" "succeeded e" "h = put_record (at_first T) 0 q"
    using p unfolding puts_def by blast
  show ?thesis unfolding finds_def
    using put_then_get [OF laws store(2) q(1-10) g(1-6) _ _ lease [unfolded q(11)] _ m] g(7) by fastforce
qed

lemma put_posts:
  assumes laws: "bdb_laws B V" and store: "k_store k = OeBdb_new n u B st" "fire_write_event st" and p: "puts T c x h k k'"
  shows "new_events k k' = [x]"
proof -
  obtain msg q e where q: "cx_cmd_msg c = Some msg" "OekMsg_get_put_cmd msg = Inr q" "txn_id msg = 0"
      "pc_data q = Some x" "sput T c k = Inr k'" "k_out k' = k_out k @ [e]" "succeeded e"
    using p unfolding puts_def by (auto simp: fresh_context_def OekMsg_get_put_cmd_def)
  obtain e1 st' where k': "k' = emit e1 (k\<lparr>k_store := OeBdb_new n u B st'\<rparr>)"
    and eff: "fired st' = fired st @ [fst (PutCmd_get_data q)] \<or> (\<exists>c1 m. e1 = deliver (c1\<lparr>cx_err_msg := Some m\<rparr>))"
    using put_command [OF laws store(1) q(1,2,5) refl refl] q(3) store(2) by auto
  have "e1 = e" using k' q(6) by simp
  then have "\<not> (\<exists>c1 m. e1 = deliver (c1\<lparr>cx_err_msg := Some m\<rparr>))"
    using q(7) by (auto simp: succeeded_def deliver_def split: if_splits)
  then show ?thesis using eff k' store(1) q(4) by (simp add: new_events_def OeBdb_new_def PutCmd_get_data_def)
qed

lemma matches_wanted: "tuple_matches ts as \<Longrightarrow> wanted ts as"
  unfolding tuple_matches_def OESTORE_WILDCARD_def by (rule wanted_positional)

section \<open>The put wakes the get\<close>


text \<open>C23: a wake-up can be lost.  The search of the store and the registration with the matcher are two steps.  When a put
  of a matching tuple succeeds in between, and the matcher works off the event before the registration arrives,
  then the get is registered and the queue is empty, but the get has not been called again, although called again it would
  find the record.\<close>

theorem wakeup_lost:
  assumes laws: "bdb_laws B V" and store: "k_store k0 = OeBdb_new n u B st0" "k_store k = OeBdb_new n u B st" "fire_write_event st"
    and get: "waits T0 c0 t k0 k0' rg" and put: "puts T c x h k k1"
    and matcher: "matcher_run d js" "(w, rg_context rg) \<notin> set js" "queue_of (d_que d) qs" "unat (d_next_unused_id d) + length qs + 4 < 2 ^ 64"
    and m: "tuple_matches (strings t) (strings x)" "\<exists>a \<in> set (strings t). a \<noteq> OESTORE_WILDCARD"
  shows "\<exists>d1 d2 sid d3 d4. post_events (new_events k k1) d = Inr d1 \<and> process_que (length qs + 1) d1 = Inr d2 \<and>
    register_get w rg d2 = Inr (sid, d3) \<and> process_que 1 d3 = Inr d4 \<and>
    queue_of (d_que d4) [] \<and> (w, rg_context rg) \<notin> set (d_ran d4) \<and>
    (\<exists>p it. item_at d4 p = Inr it \<and> im_match_handler it = Some (w, rg_context rg)) \<and>
    (\<forall>T'. (\<forall>j. OeStoreHolder_skip (at_store T' j) h = OESTORE_DO_NOT_SKIP) \<longrightarrow> finds T' (rg_context rg) k1)"
proof -
  let ?j = "(w, rg_context rg)"
  have ev: "new_events k k1 = [x]" by (rule put_posts [OF laws store(2,3) put])
  have tt: "rg_templates rg = [t]" using waits_registers [OF laws store(1) get] by metis
  obtain d1 d2 sid d3 d4 where r: "Oed_Dispatcher_process d x True = Inr d1" "process_que (length qs + 1) d1 = Inr d2"
      "register_get w rg d2 = Inr (sid, d3)" "process_que 1 d3 = Inr d4" "queue_of (d_que d4) []" "?j \<notin> set (d_ran d4)"
      "\<exists>p it. item_at d4 p = Inr it \<and> im_match_handler it = Some ?j"
    using registration_late [OF matcher_run_inv [OF matcher(1)] matcher(3,4,2), of x True t "rg_dur rg" "rg_consume rg"] tt
    unfolding register_get_def by metis
  have "post_events (new_events k k1) d = Inr d1" using ev r(1) by (simp add: fire_write_event_cb_def)
  moreover have "\<forall>T'. (\<forall>j. OeStoreHolder_skip (at_store T' j) h = OESTORE_DO_NOT_SKIP) \<longrightarrow> finds T' (rg_context rg) k1"
    using put_found_again [OF laws store(1,2) get put _ m] by blast
  ultimately show ?thesis using r(2-7) by blast
qed

section \<open>Witnesses\<close>

lemma demo_waits: "\<exists>k' rg. waits demo_times (demo_get_context True) demo_template (demo_kernel (demo_store [])) k' rg"
proof -
  have "at_store demo_times 0 = 5" "sint (at_first demo_times) < 20" by simp_all
  then obtain k' rg where "geth demo_times (demo_get_context True) (demo_kernel (demo_store [])) = Inr k'" "k_out k' = [Reg_Group rg]"
    using demo_registers by blast
  then show ?thesis unfolding waits_def using demo_fresh demo_msg_sel(1,2) demo_get_tuple by fastforce
qed

lemma demo_puts:
  "\<exists>k'. puts demo_times demo_put_context demo_tuple (put_record 5 0 demo_put_cmd) (demo_kernel (demo_store [])) k'"
proof -
  obtain e where "sput demo_times demo_put_context (demo_kernel (demo_store [])) = Inr (emit e (demo_kernel demo_after))" "succeeded e"
    using demo_sput by blast
  moreover have "pc_is_tuple demo_put_cmd" "pc_data demo_put_cmd = Some demo_tuple" by (simp_all add: demo_put_cmd_def)
  ultimately show ?thesis unfolding puts_def using demo_fresh demo_msg_sel demo_storable demo_times_sel(2)
    by (intro exI [of _ "emit e (demo_kernel demo_after)"] exI [of _ "demo_msg PUT_CMD (D_put_cmd demo_put_cmd)"] exI [of _ demo_put_cmd] exI [of _ e])
      (simp add: demo_kernel_def)
qed

lemma demo_listens: "fire_write_event (demo_store [])"
  by (simp add: demo_store_def)


theorem wakeup_lost_witness:
  "\<exists>rg k1 d d1 d2 d3 d4 sid.
     Oed_Dispatcher_new 1 None = Inr d \<and> post_events (new_events (demo_kernel (demo_store [])) k1) d = Inr d1 \<and>
     process_que 1 d1 = Inr d2 \<and> register_get 1 rg d2 = Inr (sid, d3) \<and> process_que 1 d3 = Inr d4 \<and>
     queue_of (d_que d4) [] \<and> (1, rg_context rg) \<notin> set (d_ran d4) \<and> finds demo_times (rg_context rg) k1"
proof -
  obtain k0' rg where w: "waits demo_times (demo_get_context True) demo_template (demo_kernel (demo_store [])) k0' rg"
    using demo_waits by blast
  obtain k1 where p: "puts demo_times demo_put_context demo_tuple (put_record 5 0 demo_put_cmd) (demo_kernel (demo_store [])) k1"
    using demo_puts by blast
  obtain d :: "waiting Oed_Dispatcher" where d: "Oed_Dispatcher_new 1 None = Inr d" "matcher_run d []" "d_next_unused_id d = 101"
      "queue_of (d_que d) []"
    using new_matcher by blast
  have n: "unat (d_next_unused_id d) + length ([] :: nat list) + 4 < 2 ^ 64" using d(3) by simp
  have "(1, rg_context rg) \<notin> set []" by simp
  from wakeup_lost [OF mem_laws demo_kernel_sel(1) demo_kernel_sel(1) demo_listens w p d(2) this d(4) n demo_matches]
  show ?thesis using d(1) demo_unexpired by fastforce
qed

end
