(* ===== verification/Jcl_Parser.thy ===== *)
theory Jcl_Parser
  imports Values "HOL-Library.Monad_Syntax"
begin

text \<open>
  The command language JCL: the tree of a batch of statements (\<^verbatim>\<open>corelib/oejcl_parser.h\<close>, \<^verbatim>\<open>oejcl_parser.c\<close>), its
  scanner (\<^verbatim>\<open>oejcl_parser.l\<close>) and its grammar (\<^verbatim>\<open>oejcl_parser.y\<close>).

  The scanner and the parser are generated from the last two files.  The scanner takes the longest match and, among
  equally long ones, the first rule; the grammar needs one token of lookahead, and there is a function for each of
  its nonterminals (or a group of them) that reads it off the front of the tokens and builds the tree its actions build.

  The text of a token is what \<^verbatim>\<open>oec_unquote\<close> leaves between the quotes; that it writes its terminator one byte past
  its block is a theorem of \<open>Values\<close>, and here that byte is taken to be free.
\<close>

section \<open>Trees\<close>

text \<open>The codes of tokens and tree nodes; \<open>NONE\<close> is the code 0.\<close>

datatype jcl_code =
    NONE | STRING | NUMBER | NAME
  | CONNECT | DIS | DOT | VER | EXTENTNAME | USERNAME | PASSWORD | SESSION_ID | UNSET
  | CMD | ERROR | MSG | RESPONSE
  | TIMEOUT | DURATION | CORRELATION_ID | TXN_ID | LEASE_ID | NRESULTS
  | START_BRACE | END_BRACE | END_STMT
  | CONS | CAR | CDR
  | WRITE | READ | TAKE | TXN | COMMIT | CANCEL | CANCELLEASE | NENLISTED
  | START_PARAN | END_PARAN | START_BRACKET | END_BRACKET | PAIR_SEP | MAP | LIST | STMT
  | ASSIGN | CONCAT

text \<open>The three structures that begin with a node type.  Numbers of the language are \<^verbatim>\<open>int\<close>s, which a
  \<^verbatim>\<open>double\<close> holds exactly.\<close>

datatype oejcl_ast =
    Ast jcl_code "oejcl_ast option" "oejcl_ast option"
  | Numval int
  | Strval string

fun nodetype :: "oejcl_ast \<Rightarrow> jcl_code" where
  "nodetype (Ast c l r) = c"
| "nodetype (Numval n) = NUMBER"
| "nodetype (Strval s) = STRING"

definition new_oejcl_ast :: "jcl_code \<Rightarrow> oejcl_ast option \<Rightarrow> oejcl_ast option \<Rightarrow> oejcl_ast" where
  "new_oejcl_ast c l r = Ast c l r"

definition new_oejcl_num :: "int \<Rightarrow> oejcl_ast" where
  "new_oejcl_num d = Numval d"

definition new_oejcl_num_ast :: "jcl_code \<Rightarrow> int \<Rightarrow> oejcl_ast" where
  "new_oejcl_num_ast c d = new_oejcl_ast c (Some (new_oejcl_num d)) None"

definition new_oejcl_str :: "string \<Rightarrow> oejcl_ast" where
  "new_oejcl_str s = Strval s"

definition new_oejcl_str_ast :: "jcl_code \<Rightarrow> string \<Rightarrow> oejcl_ast" where
  "new_oejcl_str_ast c s = new_oejcl_ast c (Some (new_oejcl_str s)) None"

text \<open>The assignment \<^verbatim>\<open>a->r = r\<close> of the grammar's actions, on a node they have just made.\<close>

fun set_r :: "oejcl_ast \<Rightarrow> oejcl_ast option \<Rightarrow> oejcl_ast" where
  "set_r (Ast c l _) r = Ast c l r"
| "set_r a r = a"

section \<open>Scanner\<close>

datatype jcl_token = Tk jcl_code | Str string | Num int | Nam string

definition keyword_rules :: "(string \<times> jcl_code) list" where
  "keyword_rules =
     [(''cons'', CONS), (''car'', CAR), (''cdr'', CDR), (''dis'', DIS), (''connect'', CONNECT), (''write'', WRITE),
      (''read'', READ), (''take'', TAKE), (''commit'', COMMIT), (''cancel'', CANCEL), (''response'', RESPONSE),
      (''error'', ERROR), (''extentname'', EXTENTNAME), (''msg'', MSG), (''cmd'', CMD), (''txn'', TXN),
      (''username'', USERNAME), (''password'', PASSWORD), (''dur'', DURATION), (''timeout'', TIMEOUT),
      (''cid'', CORRELATION_ID), (''tid'', TXN_ID), (''lid'', LEASE_ID), (''sid'', SESSION_ID),
      (''nresults'', NRESULTS), (''enlisted'', NENLISTED)]"

definition word_token :: "string \<Rightarrow> jcl_token" where
  "word_token w = (case map_of keyword_rules w of Some k \<Rightarrow> Tk k | None \<Rightarrow> Nam w)"

fun punct :: "char \<Rightarrow> jcl_code option" where
  "punct c =
     (if c = CHR ''('' then Some START_PARAN else if c = CHR '')'' then Some END_PARAN
      else if c = CHR ''['' then Some START_BRACKET else if c = CHR '']'' then Some END_BRACKET
      else if c = CHR ''{'' then Some START_BRACE else if c = CHR ''}'' then Some END_BRACE
      else if c = CHR '':'' then Some PAIR_SEP else if c = CHR '';'' then Some END_STMT
      else if c = CHR ''+'' then Some CONCAT else if c = CHR ''='' then Some ASSIGN
      else if c = CHR ''.'' then Some DOT else None)"

declare punct.simps [simp del]

definition name_start :: "char \<Rightarrow> bool" where
  "name_start c = (let n = (of_char c :: nat) in 65 \<le> n \<and> n \<le> 90 \<or> 97 \<le> n \<and> n \<le> 122 \<or> c = CHR ''_'' \<or> c = CHR ''$'')"

definition name_char :: "char \<Rightarrow> bool" where
  "name_char c = (name_start c \<or> is_digit c)"

definition white :: "char \<Rightarrow> bool" where
  "white c = (c = CHR '' '' \<or> of_char c = (10 :: nat) \<or> of_char c = (9 :: nat))"

text \<open>What follows an opening quote, up to the closing one: a backslash takes the next character with it, which may
  not be the end of a line.\<close>

fun string_end :: "string \<Rightarrow> (string \<times> string) option" where
  "string_end [] = None"
| "string_end (c # cs) =
     (if c = CHR 0x22 then Some ([], cs)
      else if c = CHR 0x5C
      then (case cs of
              [] \<Rightarrow> None
            | d # ds \<Rightarrow> if of_char d = (10 :: nat) then None else map_option (\<lambda>(b, rest). (c # d # b, rest)) (string_end ds))
      else map_option (\<lambda>(b, rest). (c # b, rest)) (string_end cs))"

text \<open>\<^verbatim>\<open>atoi\<close>: the low 32 bits of what \<^verbatim>\<open>strtol\<close> reads, which stops at the largest and the smallest \<^verbatim>\<open>long\<close>.\<close>

definition atoi :: "int \<Rightarrow> int" where
  "atoi n = sint (word_of_int (max (- (2 ^ 63)) (min (2 ^ 63 - 1) n)) :: 32 word)"

definition push_token :: "jcl_token \<Rightarrow> bool \<times> jcl_token list \<Rightarrow> bool \<times> jcl_token list" where
  "push_token t r = (fst r, t # snd r)"

lemma string_end_shorter: "string_end s = Some (b, rest) \<Longrightarrow> length rest < length s"
  by (induction s arbitrary: b rule: string_end.induct) (auto split: if_splits list.splits intro: less_SucI)

lemma length_dropWhile_Suc: "length (dropWhile P xs) < Suc (length xs)"
  by (rule le_imp_less_Suc) (rule length_dropWhile_le)

text \<open>The tokens of a text, and whether a character was met that begins none: that is an error of the parse, but the
  scanner goes on behind it.\<close>

function yylex :: "string \<Rightarrow> bool \<times> jcl_token list" where
  "yylex [] = (False, [])"
| "yylex (c # cs) =
     (if c = CHR 0x22
      then (case string_end cs of
              Some (body, rest) \<Rightarrow> push_token (Str body) (yylex rest)
            | None \<Rightarrow> (True, snd (yylex cs)))
      else if is_digit c
      then push_token (Num (atoi (int (digits_val 0 (c # takeWhile is_digit cs))))) (yylex (dropWhile is_digit cs))
      else if c = CHR ''-'' \<and> cs \<noteq> [] \<and> is_digit (hd cs)
      then push_token (Num (atoi (- int (digits_val 0 (takeWhile is_digit cs))))) (yylex (dropWhile is_digit cs))
      else if name_start c
      then push_token (word_token (c # takeWhile name_char cs)) (yylex (dropWhile name_char cs))
      else if c = CHR ''/'' \<and> cs \<noteq> [] \<and> hd cs = CHR ''/''
      then yylex (dropWhile (\<lambda>d. of_char d \<noteq> (10 :: nat)) cs)
      else if white c then yylex cs
      else case punct c of
             Some k \<Rightarrow> push_token (Tk k) (yylex cs)
           | None \<Rightarrow> (True, snd (yylex cs)))"
  by pat_completeness auto
termination
  by (relation "measure length") (auto simp: length_dropWhile_Suc dest!: string_end_shorter)

declare yylex.simps(2) [simp del]

section \<open>Parser\<close>

type_synonym 'a parsed = "('a \<times> jcl_token list) option"

text \<open>The next token is \<open>k\<close>.\<close>

fun starts :: "jcl_code \<Rightarrow> jcl_token list \<Rightarrow> bool" where
  "starts k (Tk c # rest) = (c = k)"
| "starts k _ = False"

definition expect :: "jcl_code \<Rightarrow> jcl_token list \<Rightarrow> jcl_token list option" where
  "expect k toks = (if starts k toks then Some (tl toks) else None)"

fun expect_num :: "jcl_token list \<Rightarrow> int parsed" where
  "expect_num (Num n # rest) = Some (n, rest)"
| "expect_num _ = None"

fun expect_str :: "jcl_token list \<Rightarrow> string parsed" where
  "expect_str (Str s # rest) = Some (s, rest)"
| "expect_str _ = None"

definition number_args :: "jcl_code list" where
  "number_args = [CORRELATION_ID, TXN_ID, LEASE_ID, SESSION_ID, DURATION, NRESULTS, NENLISTED, TIMEOUT]"

definition string_args :: "jcl_code list" where
  "string_args = [MSG, EXTENTNAME, USERNAME, PASSWORD]"

definition cmdnames :: "jcl_code list" where
  "cmdnames = [CONNECT, DIS, READ, TAKE, WRITE, TXN, COMMIT, CANCEL]"

fun cmdname :: "jcl_token list \<Rightarrow> jcl_code parsed" where
  "cmdname (Tk c # rest) = (if c \<in> set cmdnames then Some (c, rest) else None)"
| "cmdname _ = None"

definition vernum :: "jcl_token list \<Rightarrow> oejcl_ast parsed" where
  "vernum toks = do {
     (n1, r1) \<leftarrow> expect_num toks;
     r2 \<leftarrow> expect DOT r1;
     (n2, r3) \<leftarrow> expect_num r2;
     r4 \<leftarrow> expect DOT r3;
     (n3, r5) \<leftarrow> expect_num r4;
     Some (new_oejcl_ast VER None None, r5)
   }"

text \<open>One named argument: \<^verbatim>\<open>cid\<close>, \<^verbatim>\<open>tid\<close>, \<^verbatim>\<open>msg\<close>, \<^verbatim>\<open>cmd\<close> and so on in the grammar.\<close>

definition p_named :: "jcl_code \<Rightarrow> jcl_token list \<Rightarrow> oejcl_ast parsed" where
  "p_named k toks = do {
     r1 \<leftarrow> expect k toks;
     r2 \<leftarrow> expect ASSIGN r1;
     (if k \<in> set number_args then do { (n, r) \<leftarrow> expect_num r2; Some (new_oejcl_num_ast k n, r) }
      else if k \<in> set string_args then do { (s, r) \<leftarrow> expect_str r2; Some (new_oejcl_str_ast k s, r) }
      else if k = CMD then do { (c, r) \<leftarrow> cmdname r2; Some (new_oejcl_ast CMD (Some (new_oejcl_ast c None None)) None, r) }
      else if k = VER then vernum r2
      else None)
   }"

text \<open>The argument lists are left recursive: each new argument is linked in front of the earlier ones.  Every argument takes
  a token, so the number of tokens bounds them.\<close>

fun p_args :: "jcl_code list \<Rightarrow> oejcl_ast option \<Rightarrow> nat \<Rightarrow> jcl_token list \<Rightarrow> oejcl_ast option parsed" where
  "p_args ks acc 0 toks = Some (acc, toks)"
| "p_args ks acc (Suc n) toks =
     (case find (\<lambda>k. starts k toks) ks of
        None \<Rightarrow> Some (acc, toks)
      | Some k \<Rightarrow> do { (a, more) \<leftarrow> p_named k toks; p_args ks (Some (set_r a acc)) n more })"

definition args :: "jcl_code list \<Rightarrow> jcl_token list \<Rightarrow> oejcl_ast option parsed" where
  "args ks toks = p_args ks None (length toks) toks"

definition errorargs :: "jcl_code list" where
  "errorargs = [CMD, CORRELATION_ID, MSG]"

definition responseargs :: "jcl_code list" where
  "responseargs = [CMD, LEASE_ID, CORRELATION_ID, TXN_ID, SESSION_ID, NRESULTS]"

definition txnargs :: "jcl_code list" where
  "txnargs = [TIMEOUT, CORRELATION_ID, TXN_ID]"

definition cmdargs :: "jcl_code list" where
  "cmdargs = [CORRELATION_ID]"

definition writeargs :: "jcl_code list" where
  "writeargs = [CORRELATION_ID, TXN_ID, DURATION]"

definition readargs :: "jcl_code list" where
  "readargs = [CORRELATION_ID, TXN_ID, TIMEOUT]"

definition connectargs :: "jcl_code list" where
  "connectargs = [CORRELATION_ID, VER, EXTENTNAME, USERNAME, PASSWORD]"

text \<open>One string, \<^verbatim>\<open>string\<close> in the grammar.\<close>

fun p_string :: "jcl_token list \<Rightarrow> oejcl_ast parsed" where
  "p_string (Str s # rest) =
     (if starts CONCAT rest
      then do { (s2, more) \<leftarrow> expect_str (tl rest); Some (new_oejcl_str_ast STRING (s @ s2), more) }
      else Some (new_oejcl_str_ast STRING s, rest))"
| "p_string (Nam s # rest) = Some (new_oejcl_str_ast NAME s, rest)"
| "p_string _ = None"

fun starts_string :: "jcl_token list \<Rightarrow> bool" where
  "starts_string (Str s # rest) = True"
| "starts_string (Nam s # rest) = True"
| "starts_string _ = False"

fun p_list :: "nat \<Rightarrow> jcl_token list \<Rightarrow> oejcl_ast parsed" where
  "p_list 0 toks = None"
| "p_list (Suc n) toks = do {
     (a, rest) \<leftarrow> p_string toks;
     if starts_string rest then do { (b, more) \<leftarrow> p_list n rest; Some (set_r a (Some b), more) }
     else Some (a, rest)
   }"

fun p_map :: "nat \<Rightarrow> jcl_token list \<Rightarrow> oejcl_ast parsed" where
  "p_map 0 toks = None"
| "p_map (Suc n) toks = do {
     (a, r1) \<leftarrow> p_string toks;
     r2 \<leftarrow> expect PAIR_SEP r1;
     (b, rest) \<leftarrow> p_string r2;
     if starts_string rest then do { (m, more) \<leftarrow> p_map n rest; Some (set_r a (Some (set_r b (Some m))), more) }
     else Some (set_r a (Some b), rest)
   }"

text \<open>A string before a colon begins a map, any other a list.\<close>

definition p_items :: "jcl_token list \<Rightarrow> oejcl_ast parsed" where
  "p_items toks = do {
     (a, rest) \<leftarrow> p_string toks;
     if starts PAIR_SEP rest
     then do { (m, more) \<leftarrow> p_map (length toks) toks; Some (new_oejcl_ast MAP (Some m) None, more) }
     else do { (l, more) \<leftarrow> p_list (length toks) toks; Some (new_oejcl_ast LIST (Some l) None, more) }
   }"

definition p_data :: "jcl_token list \<Rightarrow> oejcl_ast parsed" where
  "p_data toks = do {
     r1 \<leftarrow> expect START_BRACKET toks;
     if starts END_BRACKET r1 then Some (new_oejcl_ast NONE None None, tl r1)
     else do { (a, r2) \<leftarrow> p_items r1; r3 \<leftarrow> expect END_BRACKET r2; Some (a, r3) }
   }"

section \<open>Commands\<close>

text \<open>Arguments, then data, up to the closing parenthesis.\<close>

definition p_call :: "jcl_code \<Rightarrow> jcl_code list \<Rightarrow> jcl_token list \<Rightarrow> oejcl_ast parsed" where
  "p_call c ks toks = do {
     (l, r1) \<leftarrow> args ks toks;
     (d, r2) \<leftarrow> p_data r1;
     r3 \<leftarrow> expect END_PARAN r2;
     Some (new_oejcl_ast c l (Some d), r3)
   }"

text \<open>Arguments alone.\<close>

definition p_plain :: "jcl_code \<Rightarrow> jcl_code list \<Rightarrow> jcl_token list \<Rightarrow> oejcl_ast parsed" where
  "p_plain c ks toks = do { (l, r1) \<leftarrow> args ks toks; r2 \<leftarrow> expect END_PARAN r1; Some (new_oejcl_ast c l None, r2) }"

definition p_dis :: "jcl_token list \<Rightarrow> oejcl_ast parsed" where
  "p_dis toks = do { r1 \<leftarrow> expect END_PARAN toks; Some (new_oejcl_ast DIS None None, r1) }"

definition p_commit :: "jcl_token list \<Rightarrow> oejcl_ast parsed" where
  "p_commit toks = do {
     (a3, r3) \<leftarrow> args cmdargs toks;
     (a4, r4) \<leftarrow> p_named TXN_ID r3;
     (a5, r5) \<leftarrow> p_named NENLISTED r4;
     r6 \<leftarrow> expect END_PARAN r5;
     Some (new_oejcl_ast COMMIT (Some (set_r a5 (Some (set_r a4 a3)))) None, r6)
   }"

definition p_cancel :: "jcl_token list \<Rightarrow> oejcl_ast parsed" where
  "p_cancel toks = do {
     (a3, r3) \<leftarrow> args cmdargs toks;
     (c, k) \<leftarrow> Some (if starts LEASE_ID r3 then (CANCELLEASE, LEASE_ID) else (CANCEL, TXN_ID));
     (a4, r4) \<leftarrow> p_named k r3;
     r5 \<leftarrow> expect END_PARAN r4;
     Some (new_oejcl_ast c (Some (set_r a4 a3)) None, r5)
   }"

text \<open>A response may have data.\<close>

definition p_response :: "jcl_token list \<Rightarrow> oejcl_ast parsed" where
  "p_response toks = do {
     (l, r1) \<leftarrow> args responseargs toks;
     if starts END_PARAN r1 then Some (new_oejcl_ast RESPONSE l None, tl r1)
     else do { (d, r2) \<leftarrow> p_data r1; r3 \<leftarrow> expect END_PARAN r2; Some (new_oejcl_ast RESPONSE l (Some d), r3) }
   }"

text \<open>The commands but for \<^verbatim>\<open>txn\<close>, which may begin a block.\<close>

definition p_command :: "jcl_token list \<Rightarrow> oejcl_ast parsed" where
  "p_command toks = do {
     r \<leftarrow> expect START_PARAN (tl toks);
     if starts CONNECT toks then p_plain CONNECT connectargs r
     else if starts DIS toks then p_dis r
     else if starts READ toks then p_call READ readargs r
     else if starts TAKE toks then p_call TAKE readargs r
     else if starts WRITE toks then p_call WRITE writeargs r
     else if starts COMMIT toks then p_commit r
     else if starts CANCEL toks then p_cancel r
     else None
   }"

section \<open>Statements\<close>

text \<open>The beginning of a statement: all of it but the semicolon, or, for a block, up to its opening brace.  A block may be
  assigned to a variable.\<close>

datatype jcl_head = Whole oejcl_ast | Block "oejcl_ast option" "string option"

definition assign_ast :: "string option \<Rightarrow> oejcl_ast \<Rightarrow> oejcl_ast" where
  "assign_ast name a =
     (case name of None \<Rightarrow> a | Some x \<Rightarrow> new_oejcl_ast ASSIGN (Some (new_oejcl_str_ast NAME x)) (Some a))"

definition p_txn :: "string option \<Rightarrow> jcl_token list \<Rightarrow> jcl_head parsed" where
  "p_txn name toks = do {
     (l, r1) \<leftarrow> args txnargs toks;
     r2 \<leftarrow> expect END_PARAN r1;
     if starts START_BRACE r2 then Some (Block l name, tl r2)
     else Some (Whole (assign_ast name (new_oejcl_ast TXN l None)), r2)
   }"

definition whole :: "oejcl_ast parsed \<Rightarrow> jcl_head parsed" where
  "whole p = map_option (\<lambda>(a, rest). (Whole a, rest)) p"

text \<open>The right-hand side of an assignment to \<open>x\<close>.\<close>

definition p_assign :: "string \<Rightarrow> jcl_token list \<Rightarrow> jcl_head parsed" where
  "p_assign x toks =
     (if starts TXN toks then do { r \<leftarrow> expect START_PARAN (tl toks); p_txn (Some x) r }
      else whole (map_option (\<lambda>(a, rest). (assign_ast (Some x) a, rest))
        (if starts_string toks then p_string toks
         else if starts START_BRACKET toks then p_data toks
         else case expect_num toks of
                Some (n, rest) \<Rightarrow> Some (new_oejcl_num_ast NUMBER n, rest)
              | None \<Rightarrow> p_command toks)))"

fun p_stmt :: "jcl_token list \<Rightarrow> jcl_head parsed" where
  "p_stmt (Nam x # rest) = do { r \<leftarrow> expect ASSIGN rest; p_assign x r }"
| "p_stmt toks =
     (if starts TXN toks then do { r \<leftarrow> expect START_PARAN (tl toks); p_txn None r }
      else if starts RESPONSE toks then do { r \<leftarrow> expect START_PARAN (tl toks); whole (p_response r) }
      else if starts ERROR toks then do { r \<leftarrow> expect START_PARAN (tl toks); whole (p_plain ERROR errorargs r) }
      else whole (p_command toks))"

definition stmt_codes :: "jcl_code list" where
  "stmt_codes = [CONNECT, DIS, READ, TAKE, WRITE, TXN, COMMIT, CANCEL, RESPONSE, ERROR]"

fun starts_stmt :: "jcl_token list \<Rightarrow> bool" where
  "starts_stmt (Nam x # rest) = True"
| "starts_stmt (Tk c # rest) = (c \<in> set stmt_codes)"
| "starts_stmt _ = False"

text \<open>\<open>stmts n\<close> reads statements for as long as one can begin; every statement and every block takes a token, so the number
  of tokens is a bound \<open>n\<close> that is never reached.\<close>

fun stmts :: "nat \<Rightarrow> jcl_token list \<Rightarrow> oejcl_ast parsed" where
  "stmts 0 toks = None"
| "stmts (Suc n) toks = do {
     (h, r1) \<leftarrow> p_stmt toks;
     (a, r2) \<leftarrow> (case h of
         Whole a \<Rightarrow> Some (a, r1)
       | Block l name \<Rightarrow> do {
           (inner, q1) \<leftarrow> stmts n r1;
           q2 \<leftarrow> expect END_BRACE q1;
           Some (assign_ast name (new_oejcl_ast TXN l (Some inner)), q2)
         });
     r3 \<leftarrow> expect END_STMT r2;
     let s = new_oejcl_ast STMT (Some a) None;
     if starts_stmt r3 then do { (b, r4) \<leftarrow> stmts n r3; Some (set_r s (Some b), r4) }
     else Some (s, r3)
   }"

text \<open>\<^verbatim>\<open>oejcl_parse\<close>: \<^const>\<open>None\<close> stands for the return code \<^verbatim>\<open>-1\<close>.\<close>

definition oejcl_parse :: "string \<Rightarrow> oejcl_ast option" where
  "oejcl_parse buf =
     (let (iserr, toks) = yylex buf
      in case stmts (length toks) toks of Some (a, []) \<Rightarrow> if iserr then None else Some a | _ \<Rightarrow> None)"

end
