(* ===== verification/Jcl_Encoder.thy ===== *)
theory Jcl_Encoder
  imports Messages
begin

text \<open>
  The encoder of the command language (\<^verbatim>\<open>corelib/OeJclEncoder.c\<close>): one statement of JCL per message.

  Each text is printed into a block of the arena whose size the code computes from the length of its format; a text that does
  not fit is \<^const>\<open>Out_Of_Bounds\<close>.  \<^verbatim>\<open>%lld\<close> and \<^verbatim>\<open>%ld\<close> print identifiers and sizes as signed numbers; an \<^verbatim>\<open>int\<close> given for
  \<^verbatim>\<open>%ld\<close> is printed as that \<^verbatim>\<open>int\<close>.  A result \<^const>\<open>None\<close> is the NULL the code returns.
\<close>

definition lld :: "64 word \<Rightarrow> string" where
  "lld w = dec_int (sint w)"

text \<open>A 64-bit value after its assignment to an \<^verbatim>\<open>int\<close>.\<close>

definition as_int :: "64 word \<Rightarrow> int" where
  "as_int w = sint (ucast w :: 32 word)"

section \<open>Data\<close>

text \<open>\<^verbatim>\<open>oec_str_concat\<close> of two, the second of which may be NULL.\<close>

definition concat_with :: "string \<Rightarrow> string option \<Rightarrow> string c_result" where
  "concat_with s t = (case t of None \<Rightarrow> Inl Null_Deref | Some u \<Rightarrow> oec_str_concat [s, u])"

text \<open>A string in quotes behind what there is already, separated by a space.\<close>

definition add_quoted :: "string option \<Rightarrow> string \<Rightarrow> string c_result" where
  "add_quoted str x =
     (case str of
        None \<Rightarrow> oec_str_concat [''\"'', x, ''\"'']
      | Some s \<Rightarrow> c_bind (oec_str_concat [s, '' '']) (\<lambda>s1. oec_str_concat [s1, ''\"'', x, ''\"'']))"

fun tuple_loop :: "string option \<Rightarrow> oe_scalar list \<Rightarrow> string option c_result" where
  "tuple_loop str [] = Inr str"
| "tuple_loop str (x # xs) = c_bind (add_quoted str x) (\<lambda>s. tuple_loop (Some s) xs)"

definition serialize_tuple :: "DataObject \<Rightarrow> string option c_result" where
  "serialize_tuple dobj = tuple_loop None (strings dobj)"

fun map_loop :: "string option \<Rightarrow> oe_scalar list \<Rightarrow> string option c_result" where
  "map_loop str [] = Inr str"
| "map_loop str [k] = c_bind (add_quoted str k) (\<lambda>_. Inr None)"
| "map_loop str (k # v # xs) =
     c_bind (add_quoted str k) (\<lambda>s.
     c_bind (oec_str_concat [s, '': '']) (\<lambda>s1.
     c_bind (oec_str_concat [s1, ''\"'', v, ''\"'']) (\<lambda>s2. map_loop (Some s2) xs)))"

definition serialize_map :: "DataObject \<Rightarrow> string option c_result" where
  "serialize_map dobj = map_loop None (strings dobj)"

section \<open>Commands\<close>

definition CON_MSG_TEMPLATE :: string where
  "CON_MSG_TEMPLATE = ''connect(cid=%lld extentname=\"%s\" username=\"%s\" password=\"%s\");''"

definition con_cmd_serialize :: "OekMsg \<Rightarrow> string option c_result" where
  "con_cmd_serialize msg =
     c_bind (OekMsg_get_con_cmd msg) (\<lambda>cmd.
       case (ConCmd_get_extentname cmd, ConCmd_get_username cmd, ConCmd_get_pwd cmd) of
         (Some extentname, Some username, Some password) \<Rightarrow>
           c_bind (sprintf_into (length CON_MSG_TEMPLATE + 20 + length extentname + length username + length password)
             (''connect(cid='' @ lld (OekMsg_get_cid msg) @ '' extentname=\"'' @ extentname @ ''\" username=\"'' @ username @
              ''\" password=\"'' @ password @ ''\");'')) (\<lambda>s. Inr (Some s))
       | _ \<Rightarrow> Inr None)"

definition dis_cmd_serialize :: "OekMsg \<Rightarrow> string option c_result" where
  "dis_cmd_serialize msg = Inr (Some ''dis();'')"

definition PUT_MSG_TEMPLATE_PRE :: string where
  "PUT_MSG_TEMPLATE_PRE = ''write(cid=%lld tid=%lld dur=%ld [''"

definition put_cmd_serialize :: "OekMsg \<Rightarrow> string option c_result" where
  "put_cmd_serialize msg =
     c_bind (OekMsg_get_put_cmd msg) (\<lambda>cmd.
       let dur = as_int (PutCmd_get_dur cmd) in
       c_bind (sprintf_into (length PUT_MSG_TEMPLATE_PRE + 60)
         (''write(cid='' @ lld (OekMsg_get_cid msg) @ '' tid='' @ lld (OekMsg_get_tid msg) @ '' dur='' @ dec_int dur @ '' ['')) (\<lambda>msg_text.
       c_bind (if PutCmd_is_tuple cmd then serialize_tuple (fst (PutCmd_get_data cmd))
               else serialize_map (fst (PutCmd_get_data cmd))) (\<lambda>d.
       c_bind (concat_with msg_text d) (\<lambda>s.
       c_bind (oec_str_concat [s, '']);'']) (\<lambda>s'. Inr (Some s'))))))"

definition GET_CMD_TEMPLATE_PRE :: string where
  "GET_CMD_TEMPLATE_PRE = ''%s(timeout=%lld cid=%lld tid=%lld [''"

definition get_cmd_serialize :: "OekMsg \<Rightarrow> string option c_result" where
  "get_cmd_serialize msg =
     c_bind (OekMsg_get_get_cmd msg) (\<lambda>cmd.
       c_bind (sprintf_into (length GET_CMD_TEMPLATE_PRE + 45)
         ((if GetCmd_remove cmd then ''take'' else ''read'') @ ''(timeout='' @ lld (GetCmd_get_timeout cmd) @ '' cid='' @
          lld (OekMsg_get_cid msg) @ '' tid='' @ lld (OekMsg_get_tid msg) @ '' ['')) (\<lambda>msg_text.
       case fst (GetCmd_get_data_objects cmd) of
         [] \<Rightarrow> Inl Null_Deref
       | dobj # _ \<Rightarrow>
           c_bind (if GetCmd_is_tuple cmd then serialize_tuple dobj else serialize_map dobj) (\<lambda>d.
           c_bind (concat_with msg_text d) (\<lambda>s.
           c_bind (oec_str_concat [s, '']);'']) (\<lambda>s'. Inr (Some s'))))))"

definition STA_MSG_TEMPLATE :: string where
  "STA_MSG_TEMPLATE = ''txn(cid=%lld timeout=%ld);''"

definition sta_cmd_serialize :: "OekMsg \<Rightarrow> string option c_result" where
  "sta_cmd_serialize msg =
     c_bind (OekMsg_get_sta_cmd msg) (\<lambda>cmd.
       c_bind (sprintf_into (length STA_MSG_TEMPLATE + 40)
         (''txn(cid='' @ lld (OekMsg_get_cid msg) @ '' timeout='' @ dec_int (as_int (StaCmd_get_dur cmd)) @ '');'')) (\<lambda>s. Inr (Some s)))"

definition COMMIT_MSG_TEMPLATE :: string where
  "COMMIT_MSG_TEMPLATE = ''commit(cid=%lld tid=%lld enlisted=%ld);''"

definition commit_cmd_serialize :: "OekMsg \<Rightarrow> string option c_result" where
  "commit_cmd_serialize msg =
     c_bind (OekMsg_get_upt_cmd msg) (\<lambda>cmd.
       c_bind (sprintf_into (length COMMIT_MSG_TEMPLATE + 60)
         (''commit(cid='' @ lld (OekMsg_get_cid msg) @ '' tid='' @ lld (OekMsg_get_tid msg) @ '' enlisted='' @
          dec_int (sint (UptCmd_get_enlisted cmd)) @ '');'')) (\<lambda>s. Inr (Some s)))"

definition UPL_CMD_TEMPLATE :: string where
  "UPL_CMD_TEMPLATE = ''cancel(cid=%lld lid=%ld);''"

definition upl_cmd_serialize :: "OekMsg \<Rightarrow> string option c_result" where
  "upl_cmd_serialize msg =
     c_bind (OekMsg_get_upl_cmd msg) (\<lambda>cmd.
       c_bind (sprintf_into (length UPL_CMD_TEMPLATE + 40)
         (''cancel(cid='' @ lld (OekMsg_get_cid msg) @ '' lid='' @ dec_int (as_int (UplCmd_get_lid cmd)) @ '');'')) (\<lambda>s. Inr (Some s)))"

definition RB_MSG_TEMPLATE :: string where
  "RB_MSG_TEMPLATE = ''cancel(cid=%lld tid=%lld);''"

definition rollback_cmd_serialize :: "OekMsg \<Rightarrow> string option c_result" where
  "rollback_cmd_serialize msg =
     c_bind (OekMsg_get_upt_cmd msg) (\<lambda>cmd.
       c_bind (sprintf_into (length RB_MSG_TEMPLATE + 40)
         (''cancel(cid='' @ lld (OekMsg_get_cid msg) @ '' tid='' @ lld (OekMsg_get_tid msg) @ '');'')) (\<lambda>s. Inr (Some s)))"

section \<open>Responses\<close>

definition CON_RES_TEMPLATE :: string where
  "CON_RES_TEMPLATE = ''response(cmd=connect cid=%lld sid=%lld);''"

definition con_res_serialize :: "OekMsg \<Rightarrow> string option c_result" where
  "con_res_serialize msg =
     c_bind (OekMsg_get_con_res msg) (\<lambda>res.
       c_bind (sprintf_into (length CON_RES_TEMPLATE + 40)
         (''response(cmd=connect cid='' @ lld (OekMsg_get_cid msg) @ '' sid='' @ lld (ConRes_get_sid res) @ '');'')) (\<lambda>s. Inr (Some s)))"

definition PUT_RES_TEMPLATE :: string where
  "PUT_RES_TEMPLATE = ''response(cmd=write cid=%lld lid=%lld);''"

definition put_res_serialize :: "OekMsg \<Rightarrow> string option c_result" where
  "put_res_serialize msg =
     c_bind (OekMsg_get_put_res msg) (\<lambda>res.
       c_bind (sprintf_into (length PUT_RES_TEMPLATE + 20)
         (''response(cmd=write cid='' @ lld (OekMsg_get_cid msg) @ '' lid='' @ dec_int (as_int (PutRes_get_lease_id res)) @ '');''))
       (\<lambda>s. Inr (Some s)))"

definition STA_RES_TEMPLATE :: string where
  "STA_RES_TEMPLATE = ''response(cmd=txn cid=%lld tid=%lld);''"

definition sta_res_serialize :: "OekMsg \<Rightarrow> string option c_result" where
  "sta_res_serialize msg =
     c_bind (sprintf_into (length STA_RES_TEMPLATE + 20)
       (''response(cmd=txn cid='' @ lld (OekMsg_get_cid msg) @ '' tid='' @ lld (OekMsg_get_tid msg) @ '');'')) (\<lambda>s. Inr (Some s))"

definition OEK_ERR_TEMPLATE :: string where
  "OEK_ERR_TEMPLATE = ''error(cid=%lld msg=\"%s\");''"

definition err_serialize :: "OekMsg \<Rightarrow> string option c_result" where
  "err_serialize msg =
     c_bind (OekMsg_get_err msg) (\<lambda>err.
       let emsg = (case OekErr_get_message err of None \<Rightarrow> [] | Some e \<Rightarrow> e) in
       c_bind (sprintf_into (length OEK_ERR_TEMPLATE + 40 + length emsg)
         (''error(cid='' @ lld (OekMsg_get_cid msg) @ '' msg=\"'' @ emsg @ ''\");'')) (\<lambda>s. Inr (Some s)))"

definition GET_RES_TEMPLATE_PRE :: string where
  "GET_RES_TEMPLATE_PRE = ''response(cmd=%s cid=%lld nresults=%ld [''"

definition get_res_serialize :: "OekMsg \<Rightarrow> string option c_result" where
  "get_res_serialize msg =
     c_bind (OekMsg_get_get_res msg) (\<lambda>res.
       c_bind (sprintf_into (length GET_RES_TEMPLATE_PRE + 70)
         (''response(cmd='' @ (if GetRes_is_destroyed res then ''take'' else ''read'') @ '' cid='' @ lld (OekMsg_get_cid msg) @
          '' nresults='' @ lld (GetRes_get_nresults res) @ '' ['')) (\<lambda>msg_text.
       c_bind (if GetRes_is_tuple res then serialize_tuple (fst (GetRes_get_data res))
               else serialize_map (fst (GetRes_get_data res))) (\<lambda>d.
       c_bind (oec_str_concat [msg_text, case d of None \<Rightarrow> [] | Some u \<Rightarrow> u]) (\<lambda>s.
       c_bind (oec_str_concat [s, '']);'']) (\<lambda>s'. Inr (Some s'))))))"

definition COMMIT_RES_TEMPLATE :: string where
  "COMMIT_RES_TEMPLATE = ''response(cmd=commit cid=%lld);''"

definition commit_res_serialize :: "OekMsg \<Rightarrow> string option c_result" where
  "commit_res_serialize msg =
     c_bind (OekMsg_get_upt_res msg) (\<lambda>res.
       c_bind (sprintf_into (length COMMIT_RES_TEMPLATE + 20)
         (''response(cmd=commit cid='' @ lld (OekMsg_get_cid msg) @ '');'')) (\<lambda>s. Inr (Some s)))"

definition CANCEL_RES_TEMPLATE :: string where
  "CANCEL_RES_TEMPLATE = ''response(cmd=cancel cid=%lld);''"

definition cancel_res_serialize :: "OekMsg \<Rightarrow> string option c_result" where
  "cancel_res_serialize msg =
     c_bind (OekMsg_get_upt_res msg) (\<lambda>res.
       c_bind (sprintf_into (length CANCEL_RES_TEMPLATE + 20)
         (''response(cmd=cancel cid='' @ lld (OekMsg_get_cid msg) @ '');'')) (\<lambda>s. Inr (Some s)))"

definition UPL_RES_TEMPLATE :: string where
  "UPL_RES_TEMPLATE = ''response(cmd=cancel cid=%lld);''"

definition upl_res_serialize :: "OekMsg \<Rightarrow> string option c_result" where
  "upl_res_serialize msg =
     c_bind (OekMsg_get_upl_res msg) (\<lambda>res.
       c_bind (sprintf_into (length UPL_RES_TEMPLATE + 20)
         (''response(cmd=cancel cid='' @ lld (OekMsg_get_cid msg) @ '');'')) (\<lambda>s. Inr (Some s)))"

section \<open>Any message\<close>

definition OeJclEncoder_msg_serialize :: "OekMsg \<Rightarrow> string option c_result" where
  "OeJclEncoder_msg_serialize msg =
     (case OekMsg_get_type msg of
        CON_CMD \<Rightarrow> con_cmd_serialize msg
      | DIS_CMD \<Rightarrow> dis_cmd_serialize msg
      | PUT_CMD \<Rightarrow> put_cmd_serialize msg
      | GET_CMD \<Rightarrow> get_cmd_serialize msg
      | STA_CMD \<Rightarrow> sta_cmd_serialize msg
      | UPT_CMD \<Rightarrow> c_bind (OekMsg_get_upt_cmd msg) (\<lambda>uptcmd.
          if UptCmd_get_status uptcmd = OETXN_COMMITTED then commit_cmd_serialize msg else rollback_cmd_serialize msg)
      | CON_RES \<Rightarrow> con_res_serialize msg
      | PUT_RES \<Rightarrow> put_res_serialize msg
      | GET_RES \<Rightarrow> get_res_serialize msg
      | UPT_RES \<Rightarrow> c_bind (OekMsg_get_upt_res msg) (\<lambda>uptres.
          if UptRes_get_status uptres = OETXN_COMMITTED then commit_res_serialize msg else cancel_res_serialize msg)
      | STA_RES \<Rightarrow> sta_res_serialize msg
      | OEK_ERR \<Rightarrow> err_serialize msg
      | UPL_CMD \<Rightarrow> upl_cmd_serialize msg
      | UPL_RES \<Rightarrow> upl_res_serialize msg
      | OEK_NON \<Rightarrow> Inl Assert_Failed)"

end
