(* ===== verification/Jcl_Decoder.thy ===== *)
theory Jcl_Decoder
  imports Messages Hash_Table Jcl_Parser
begin

text \<open>
  The decoder of the command language (\<^verbatim>\<open>corelib/OeJclDecoder.c\<close>): it walks the tree of a batch of statements and makes
  one message per statement.  Variables are kept in a string-keyed table; a variable that is first used in the data of a read
  or take stands for a wildcard and gets its value from the response.

  Following a pointer of a node that is no such pointer is \<^const>\<open>Wrong_Member\<close>, following NULL \<^const>\<open>Null_Deref\<close>, and the
  conversion of a negative number to an unsigned type \<^const>\<open>Int_Overflow\<close>.  A message \<^const>\<open>None\<close> is the NULL the code returns.
\<close>

record OeJclDecoder =
  jd_resolve_from_results :: bool
  jd_next_node :: "oejcl_ast option"
  jd_prev_node :: "oejcl_ast option"
  jd_symbols :: "(string, oejcl_ast) table_T"
  jd_result :: "OekMsg option"

definition OeJclDecoder_new :: "string \<Rightarrow> OeJclDecoder option c_result" where
  "OeJclDecoder_new jcl =
     (case oejcl_parse jcl of
        None \<Rightarrow> Inr None
      | Some a \<Rightarrow> c_bind (SKeyTable_new 100) (\<lambda>symbols.
          Inr (Some \<lparr>jd_resolve_from_results = False, jd_next_node = Some a, jd_prev_node = None, jd_symbols = symbols,
                     jd_result = None\<rparr>)))"

section \<open>Nodes\<close>

fun ast_l :: "oejcl_ast \<Rightarrow> oejcl_ast option c_result" where
  "ast_l (Ast c l r) = Inr l"
| "ast_l a = Inl Wrong_Member"

fun ast_r :: "oejcl_ast \<Rightarrow> oejcl_ast option c_result" where
  "ast_r (Ast c l r) = Inr r"
| "ast_r a = Inl Wrong_Member"

text \<open>The number below an argument: \<^verbatim>\<open>assert(nval->nodetype == NUMBER)\<close>, then \<^verbatim>\<open>nval->number\<close>.\<close>

fun number_at :: "oejcl_ast option \<Rightarrow> int c_result" where
  "number_at None = Inl Null_Deref"
| "number_at (Some (Numval n)) = Inr n"
| "number_at (Some a) = (if nodetype a = NUMBER then Inl Wrong_Member else Inl Assert_Failed)"

text \<open>The text below an argument: \<^verbatim>\<open>assert(str->nodetype == STRING)\<close>, then \<^verbatim>\<open>str->str\<close>.\<close>

fun text_at :: "oejcl_ast option \<Rightarrow> string c_result" where
  "text_at None = Inl Null_Deref"
| "text_at (Some (Strval s)) = Inr s"
| "text_at (Some a) = (if nodetype a = STRING then Inl Wrong_Member else Inl Assert_Failed)"

text \<open>\<^verbatim>\<open>str->str\<close> without a test.\<close>

fun text_of :: "oejcl_ast option \<Rightarrow> string c_result" where
  "text_of None = Inl Null_Deref"
| "text_of (Some (Strval s)) = Inr s"
| "text_of (Some a) = Inl Wrong_Member"

definition to_oe_id :: "int \<Rightarrow> oe_id c_result" where
  "to_oe_id n = (if n < 0 then Inl Int_Overflow else Inr (word_of_int n))"

definition id_at :: "oejcl_ast option \<Rightarrow> oe_id c_result" where
  "id_at l = c_bind (number_at l) to_oe_id"

definition cid_at :: "oejcl_ast option \<Rightarrow> OekMsg \<Rightarrow> OekMsg c_result" where
  "cid_at l msg = c_bind (id_at l) (\<lambda>i. Inr (OekMsg_set_cid msg i))"

definition tid_at :: "oejcl_ast option \<Rightarrow> OekMsg \<Rightarrow> OekMsg c_result" where
  "tid_at l msg = c_bind (id_at l) (\<lambda>i. Inr (OekMsg_set_tid msg i))"

text \<open>The message of a finished walk over the arguments, with its member.\<close>

definition with_data :: "('c \<Rightarrow> OekData) \<Rightarrow> (OekMsg \<times> 'c) option \<Rightarrow> OekMsg option" where
  "with_data D r = map_option (\<lambda>(msg, c). msg\<lparr>data := D c\<rparr>) r"

text \<open>A message made without touching the decoder.\<close>

definition with_decoder :: "OeJclDecoder \<Rightarrow> OekMsg option c_result \<Rightarrow> (OekMsg option \<times> OeJclDecoder) c_result" where
  "with_decoder d r = c_bind r (\<lambda>msg. Inr (msg, d))"

section \<open>Commands without data\<close>

definition gen_msg_from_dis_stmt :: "oejcl_ast \<Rightarrow> OekMsg option c_result" where
  "gen_msg_from_dis_stmt ast = c_bind (OekMsg_new DIS_CMD) (\<lambda>msg. c_bind (OekMsg_get_dis_cmd msg) (\<lambda>cmd. Inr (Some msg)))"

fun connect_args :: "oejcl_ast option \<Rightarrow> OekMsg \<Rightarrow> ConCmd \<Rightarrow> (OekMsg \<times> ConCmd) option c_result" where
  "connect_args None msg cmd = Inr (Some (msg, cmd))"
| "connect_args (Some (Ast k l r)) msg cmd =
     (if k = CORRELATION_ID then c_bind (cid_at l msg) (\<lambda>m. connect_args r m cmd)
      else if k = EXTENTNAME then c_bind (text_at l) (\<lambda>s. connect_args r msg (ConCmd_set_extentname cmd (Some s)))
      else if k = USERNAME then c_bind (text_at l) (\<lambda>s. connect_args r msg (ConCmd_set_username cmd (Some s)))
      else if k = PASSWORD then c_bind (text_at l) (\<lambda>s. connect_args r msg (ConCmd_set_pwd cmd (Some s)))
      else Inr None)"
| "connect_args (Some a) msg cmd = Inl Wrong_Member"

definition gen_msg_from_connect_stmt :: "oejcl_ast \<Rightarrow> OekMsg option c_result" where
  "gen_msg_from_connect_stmt ast =
     c_bind (OekMsg_new CON_CMD) (\<lambda>msg. c_bind (OekMsg_get_con_cmd msg) (\<lambda>cmd.
     c_bind (ast_l ast) (\<lambda>l. c_bind (connect_args l msg cmd) (\<lambda>r. Inr (with_data D_con_cmd r)))))"

fun upl_args :: "oejcl_ast option \<Rightarrow> OekMsg \<Rightarrow> UplCmd \<Rightarrow> (OekMsg \<times> UplCmd) option c_result" where
  "upl_args None msg cmd = Inr (Some (msg, cmd))"
| "upl_args (Some (Ast k l r)) msg cmd =
     (if k = CORRELATION_ID then c_bind (cid_at l msg) (\<lambda>m. upl_args r m cmd)
      else if k = LEASE_ID then c_bind (id_at l) (\<lambda>i. upl_args r msg (UplCmd_set_lid cmd i))
      else Inr None)"
| "upl_args (Some a) msg cmd = Inl Wrong_Member"

definition gen_msg_from_upl_stmt :: "oejcl_ast \<Rightarrow> OekMsg option c_result" where
  "gen_msg_from_upl_stmt ast =
     c_bind (OekMsg_new UPL_CMD) (\<lambda>msg. c_bind (OekMsg_get_upl_cmd msg) (\<lambda>cmd.
     c_bind (ast_l ast) (\<lambda>l. c_bind (upl_args l msg cmd) (\<lambda>r. Inr (with_data D_upl_cmd r)))))"

fun txn_args :: "oejcl_ast option \<Rightarrow> OekMsg \<Rightarrow> StaCmd \<Rightarrow> (OekMsg \<times> StaCmd) option c_result" where
  "txn_args None msg cmd = Inr (Some (msg, cmd))"
| "txn_args (Some (Ast k l r)) msg cmd =
     (if k = CORRELATION_ID then c_bind (cid_at l msg) (\<lambda>m. txn_args r m cmd)
      else if k = TIMEOUT then c_bind (number_at l) (\<lambda>n. txn_args r msg (StaCmd_set_dur cmd (word_of_int n)))
      else Inr None)"
| "txn_args (Some a) msg cmd = Inl Wrong_Member"

definition gen_msg_from_txn_stmt :: "oejcl_ast \<Rightarrow> OekMsg option c_result" where
  "gen_msg_from_txn_stmt ast =
     c_bind (OekMsg_new STA_CMD) (\<lambda>msg. c_bind (OekMsg_get_sta_cmd msg) (\<lambda>cmd.
     c_bind (ast_l ast) (\<lambda>l. c_bind (txn_args l msg cmd) (\<lambda>r. Inr (with_data D_sta_cmd r)))))"

fun upt_args :: "oejcl_ast option \<Rightarrow> OekMsg \<Rightarrow> UptCmd \<Rightarrow> (OekMsg \<times> UptCmd) option c_result" where
  "upt_args None msg cmd = Inr (Some (msg, cmd))"
| "upt_args (Some (Ast k l r)) msg cmd =
     (if k = CORRELATION_ID then c_bind (cid_at l msg) (\<lambda>m. upt_args r m cmd)
      else if k = NENLISTED then c_bind (number_at l) (\<lambda>n. upt_args r msg (UptCmd_set_enlisted cmd (word_of_int n)))
      else if k = TXN_ID then c_bind (tid_at l msg) (\<lambda>m. upt_args r m cmd)
      else Inr None)"
| "upt_args (Some a) msg cmd = Inl Wrong_Member"

definition gen_msg_from_upt_stmt :: "oejcl_ast \<Rightarrow> char \<Rightarrow> OekMsg option c_result" where
  "gen_msg_from_upt_stmt ast status =
     c_bind (OekMsg_new UPT_CMD) (\<lambda>msg. c_bind (OekMsg_get_upt_cmd msg) (\<lambda>cmd.
     c_bind (ast_l ast) (\<lambda>l. c_bind (upt_args l msg (UptCmd_set_status cmd status)) (\<lambda>r. Inr (with_data D_upt_cmd r)))))"

section \<open>Data\<close>

text \<open>The fields of a list or map, from the node \<open>ast\<close> on.\<close>

fun data_loop :: "OeJclDecoder \<Rightarrow> oejcl_ast option \<Rightarrow> DataObject \<Rightarrow> (DataObject option \<times> OeJclDecoder) c_result" where
  "data_loop d None dat = Inr (Some dat, d)"
| "data_loop d (Some (Ast k l r)) dat =
     (if k = STRING then c_bind (text_of l) (\<lambda>s. c_bind (DataObject_add_attr dat (Some s)) (data_loop d r))
      else if k = NAME
      then c_bind (text_of l) (\<lambda>s.
             case Table_get (jd_symbols d) s of
               None \<Rightarrow>
                 let d1 = d\<lparr>jd_resolve_from_results := True,
                             jd_symbols := snd (Table_put (jd_symbols d) s (new_oejcl_ast UNSET None None))\<rparr>
                 in c_bind (DataObject_add_attr dat (Some ''_'')) (data_loop d1 r)
             | Some vast \<Rightarrow>
                 if nodetype vast = UNSET then Inr (None, d)
                 else c_bind (ast_l vast) (\<lambda>rl. c_bind (text_of rl) (\<lambda>rstr.
                      c_bind (DataObject_add_attr dat (Some rstr)) (data_loop d r))))
      else Inl Assert_Failed)"
| "data_loop d (Some (Numval n)) dat = Inl Assert_Failed"
| "data_loop d (Some (Strval s)) dat = Inl Wrong_Member"

definition get_data_object :: "OeJclDecoder \<Rightarrow> oejcl_ast \<Rightarrow> (DataObject option \<times> OeJclDecoder) c_result" where
  "get_data_object d ast =
     c_bind (ast_l ast) (\<lambda>l. case l of None \<Rightarrow> Inr (None, d) | Some a \<Rightarrow> data_loop d (Some a) DataObject_new)"

text \<open>A list made with a NULL object is empty.\<close>

definition get_data_object_list :: "OeJclDecoder \<Rightarrow> oejcl_ast \<Rightarrow> (DataObjectList \<times> OeJclDecoder) c_result" where
  "get_data_object_list d ast =
     c_bind (get_data_object d ast) (\<lambda>(dat, d1).
       Inr (case dat of None \<Rightarrow> DataObjectList_new | Some x \<Rightarrow> DataObjectList_add DataObjectList_new x, d1))"

definition set_put_data :: "OeJclDecoder \<Rightarrow> PutCmd \<Rightarrow> oejcl_ast \<Rightarrow> (PutCmd \<times> OeJclDecoder) c_result" where
  "set_put_data d cmd ast =
     (if nodetype ast = LIST
      then c_bind (get_data_object d ast) (\<lambda>(dat, d1). Inr (PutCmd_set_tuple (PutCmd_set_data cmd dat), d1))
      else if nodetype ast = MAP
      then c_bind (get_data_object d ast) (\<lambda>(dat, d1). Inr (PutCmd_set_data cmd dat, d1))
      else Inl Assert_Failed)"

definition set_get_res_data :: "OeJclDecoder \<Rightarrow> GetRes \<Rightarrow> oejcl_ast option \<Rightarrow> (GetRes \<times> OeJclDecoder) c_result" where
  "set_get_res_data d res asto =
     (case asto of
        None \<Rightarrow> Inr (res, d)
      | Some ast \<Rightarrow> c_bind (ast_l ast) (\<lambda>l.
          if l = None then Inr (res, d)
          else c_bind (get_data_object d ast) (\<lambda>(dat, d1).
                 let res1 = GetRes_set_data res dat in
                 if nodetype ast = LIST then Inr (GetRes_set_tuple res1, d1)
                 else if nodetype ast = MAP then Inr (res1, d1)
                 else Inl Assert_Failed)))"

definition set_get_data :: "OeJclDecoder \<Rightarrow> GetCmd \<Rightarrow> oejcl_ast option \<Rightarrow> (GetCmd \<times> OeJclDecoder) c_result" where
  "set_get_data d cmd asto =
     (case asto of
        None \<Rightarrow> Inl Assert_Failed
      | Some ast \<Rightarrow>
          if nodetype ast = LIST
          then c_bind (get_data_object_list d ast) (\<lambda>(l, d1).
               c_bind (GetCmd_set_data_objects cmd (Some l)) (\<lambda>c. Inr (GetCmd_set_tuple c, d1)))
          else if nodetype ast = MAP
          then c_bind (get_data_object_list d ast) (\<lambda>(l, d1).
               c_bind (GetCmd_set_data_objects cmd (Some l)) (\<lambda>c. Inr (c, d1)))
          else Inl Assert_Failed)"

section \<open>Commands with data\<close>

fun read_args :: "oejcl_ast option \<Rightarrow> OekMsg \<Rightarrow> GetCmd \<Rightarrow> (OekMsg \<times> GetCmd) option c_result" where
  "read_args None msg cmd = Inr (Some (msg, cmd))"
| "read_args (Some (Ast k l r)) msg cmd =
     (if k = TXN_ID then c_bind (tid_at l msg) (\<lambda>m. read_args r m cmd)
      else if k = CORRELATION_ID then c_bind (cid_at l msg) (\<lambda>m. read_args r m cmd)
      else if k = TIMEOUT then c_bind (number_at l) (\<lambda>n. read_args r msg (GetCmd_set_timeout cmd (word_of_int n)))
      else Inr None)"
| "read_args (Some a) msg cmd = Inl Wrong_Member"

definition gen_msg_from_read_stmt :: "OeJclDecoder \<Rightarrow> oejcl_ast \<Rightarrow> (OekMsg option \<times> OeJclDecoder) c_result" where
  "gen_msg_from_read_stmt d ast =
     c_bind (OekMsg_new GET_CMD) (\<lambda>msg. c_bind (OekMsg_get_get_cmd msg) (\<lambda>cmd0.
     let cmd1 = (if nodetype ast = TAKE then GetCmd_set_remove_option cmd0 else cmd0) in
     c_bind (GetCmd_set_max_responses cmd1 1) (\<lambda>cmd2.
     let cmd3 = GetCmd_set_return_bytes (GetCmd_set_return_attrs cmd2 True) True in
     c_bind (ast_r ast) (\<lambda>r. c_bind (set_get_data d cmd3 r) (\<lambda>(cmd, d1).
     c_bind (ast_l ast) (\<lambda>l. c_bind (read_args l msg cmd) (\<lambda>res. Inr (with_data D_get_cmd res, d1))))))))"

fun write_args :: "oejcl_ast option \<Rightarrow> OekMsg \<Rightarrow> PutCmd \<Rightarrow> (OekMsg \<times> PutCmd) option c_result" where
  "write_args None msg cmd = Inr (Some (msg, cmd))"
| "write_args (Some (Ast k l r)) msg cmd =
     (if k = TXN_ID then c_bind (tid_at l msg) (\<lambda>m. write_args r m cmd)
      else if k = CORRELATION_ID then c_bind (cid_at l msg) (\<lambda>m. write_args r m cmd)
      else if k = DURATION then c_bind (number_at l) (\<lambda>n. write_args r msg (PutCmd_set_dur cmd (word_of_int n)))
      else Inr None)"
| "write_args (Some a) msg cmd = Inl Wrong_Member"

definition gen_msg_from_write_stmt :: "OeJclDecoder \<Rightarrow> oejcl_ast \<Rightarrow> (OekMsg option \<times> OeJclDecoder) c_result" where
  "gen_msg_from_write_stmt d ast =
     c_bind (OekMsg_new PUT_CMD) (\<lambda>msg. c_bind (OekMsg_get_put_cmd msg) (\<lambda>cmd0.
     c_bind (ast_r ast) (\<lambda>r.
     c_bind (case r of None \<Rightarrow> Inr (cmd0, d) | Some a \<Rightarrow> set_put_data d cmd0 a) (\<lambda>(cmd, d1).
     c_bind (ast_l ast) (\<lambda>l. c_bind (write_args l msg cmd) (\<lambda>res. Inr (with_data D_put_cmd res, d1)))))))"

section \<open>Responses\<close>

fun write_response_args :: "oejcl_ast option \<Rightarrow> OekMsg \<Rightarrow> PutRes \<Rightarrow> (OekMsg \<times> PutRes) option c_result" where
  "write_response_args None msg res = Inr (Some (msg, res))"
| "write_response_args (Some (Ast k l r)) msg res =
     (if k = CORRELATION_ID then c_bind (cid_at l msg) (\<lambda>m. write_response_args r m res)
      else if k = LEASE_ID then c_bind (id_at l) (\<lambda>i. write_response_args r msg (PutRes_set_lease_id res i))
      else if k = CMD then write_response_args r msg res
      else Inr None)"
| "write_response_args (Some a) msg res = Inl Wrong_Member"

definition gen_msg_from_write_response_stmt :: "oejcl_ast \<Rightarrow> OekMsg option c_result" where
  "gen_msg_from_write_response_stmt ast =
     c_bind (OekMsg_new PUT_RES) (\<lambda>msg. c_bind (OekMsg_get_put_res msg) (\<lambda>res.
     c_bind (ast_l ast) (\<lambda>l. c_bind (write_response_args l msg res) (\<lambda>r. Inr (with_data D_put_res r)))))"

fun read_response_args :: "oejcl_ast option \<Rightarrow> OekMsg \<Rightarrow> GetRes \<Rightarrow> (OekMsg \<times> GetRes) option c_result" where
  "read_response_args None msg res = Inr (Some (msg, res))"
| "read_response_args (Some (Ast k l r)) msg res =
     (if k = CORRELATION_ID then c_bind (cid_at l msg) (\<lambda>m. read_response_args r m res)
      else if k = NRESULTS then c_bind (id_at l) (\<lambda>n. read_response_args r msg (GetRes_set_nresults res n))
      else if k = CMD
      then (case l of
              None \<Rightarrow> Inl Null_Deref
            | Some c \<Rightarrow> read_response_args r msg (if nodetype c = TAKE then GetRes_set_destroyed res else res))
      else Inr None)"
| "read_response_args (Some a) msg res = Inl Wrong_Member"

definition gen_msg_from_read_response_stmt :: "OeJclDecoder \<Rightarrow> oejcl_ast \<Rightarrow> (OekMsg option \<times> OeJclDecoder) c_result" where
  "gen_msg_from_read_response_stmt d ast =
     c_bind (OekMsg_new GET_RES) (\<lambda>msg. c_bind (OekMsg_get_get_res msg) (\<lambda>res0.
     c_bind (ast_r ast) (\<lambda>r. c_bind (set_get_res_data d res0 r) (\<lambda>(res, d1).
     c_bind (ast_l ast) (\<lambda>l. c_bind (read_response_args l msg res) (\<lambda>x. Inr (with_data D_get_res x, d1)))))))"

fun txn_response_args :: "oejcl_ast option \<Rightarrow> OekMsg \<Rightarrow> OekMsg option c_result" where
  "txn_response_args None msg = Inr (Some msg)"
| "txn_response_args (Some (Ast k l r)) msg =
     (if k = CORRELATION_ID then c_bind (cid_at l msg) (txn_response_args r)
      else if k = TXN_ID then c_bind (tid_at l msg) (txn_response_args r)
      else if k = CMD then txn_response_args r msg
      else Inr None)"
| "txn_response_args (Some a) msg = Inl Wrong_Member"

definition gen_msg_from_txn_response_stmt :: "oejcl_ast \<Rightarrow> OekMsg option c_result" where
  "gen_msg_from_txn_response_stmt ast =
     c_bind (OekMsg_new STA_RES) (\<lambda>msg. c_bind (OekMsg_get_sta_res msg) (\<lambda>res.
     c_bind (ast_l ast) (\<lambda>l. txn_response_args l msg)))"

text \<open>The responses to a commit and to a cancel differ in the status they set before the same walk.\<close>

fun upt_response_args :: "oejcl_ast option \<Rightarrow> OekMsg \<Rightarrow> OekMsg option c_result" where
  "upt_response_args None msg = Inr (Some msg)"
| "upt_response_args (Some (Ast k l r)) msg =
     (if k = CORRELATION_ID then c_bind (cid_at l msg) (upt_response_args r)
      else if k = CMD then upt_response_args r msg
      else Inr None)"
| "upt_response_args (Some a) msg = Inl Wrong_Member"

definition upt_response_args_of :: "UptRes \<Rightarrow> OekMsg \<Rightarrow> oejcl_ast option \<Rightarrow> OekMsg option c_result" where
  "upt_response_args_of res msg l = upt_response_args l (msg\<lparr>data := D_upt_res res\<rparr>)"

definition gen_msg_from_commit_response_stmt :: "oejcl_ast \<Rightarrow> OekMsg option c_result" where
  "gen_msg_from_commit_response_stmt ast =
     c_bind (OekMsg_new UPT_RES) (\<lambda>msg. c_bind (OekMsg_get_upt_res msg) (\<lambda>res.
     c_bind (ast_l ast) (upt_response_args_of (UptRes_set_status res OETXN_COMMITTED) msg)))"

definition gen_msg_from_cancel_response_stmt :: "oejcl_ast \<Rightarrow> OekMsg option c_result" where
  "gen_msg_from_cancel_response_stmt ast =
     c_bind (OekMsg_new UPT_RES) (\<lambda>msg. c_bind (OekMsg_get_upt_res msg) (\<lambda>res.
     c_bind (ast_l ast) (upt_response_args_of (UptRes_set_status res OETXN_ROLLEDBACK) msg)))"

fun connect_response_args :: "oejcl_ast option \<Rightarrow> OekMsg \<Rightarrow> ConRes \<Rightarrow> (OekMsg \<times> ConRes) option c_result" where
  "connect_response_args None msg res = Inr (Some (msg, res))"
| "connect_response_args (Some (Ast k l r)) msg res =
     (if k = CORRELATION_ID then c_bind (cid_at l msg) (\<lambda>m. connect_response_args r m res)
      else if k = SESSION_ID then c_bind (id_at l) (\<lambda>i. connect_response_args r msg (ConRes_set_sid res i))
      else if k = CMD then connect_response_args r msg res
      else Inr None)"
| "connect_response_args (Some a) msg res = Inl Wrong_Member"

definition gen_msg_from_connect_response_stmt :: "oejcl_ast \<Rightarrow> OekMsg option c_result" where
  "gen_msg_from_connect_response_stmt ast =
     c_bind (OekMsg_new CON_RES) (\<lambda>msg. c_bind (OekMsg_get_con_res msg) (\<lambda>res.
     c_bind (ast_l ast) (\<lambda>l. c_bind (connect_response_args l msg res) (\<lambda>r. Inr (with_data D_con_res r)))))"

fun error_args :: "oejcl_ast option \<Rightarrow> OekMsg \<Rightarrow> OekErr \<Rightarrow> (OekMsg \<times> OekErr) option c_result" where
  "error_args None msg err = Inr (Some (msg, err))"
| "error_args (Some (Ast k l r)) msg err =
     (if k = CORRELATION_ID then c_bind (cid_at l msg) (\<lambda>m. error_args r m err)
      else if k = MSG then c_bind (text_at l) (\<lambda>s. error_args r msg (OekErr_set_message err (Some s)))
      else if k = CMD then error_args r msg err
      else Inr None)"
| "error_args (Some a) msg err = Inl Wrong_Member"

definition gen_msg_from_error_stmt :: "oejcl_ast \<Rightarrow> OekMsg option c_result" where
  "gen_msg_from_error_stmt ast =
     c_bind (OekMsg_new OEK_ERR) (\<lambda>msg. c_bind (OekMsg_get_err msg) (\<lambda>err.
     c_bind (ast_l ast) (\<lambda>l. c_bind (error_args l msg err) (\<lambda>r. Inr (with_data D_err r)))))"

fun get_res_type :: "oejcl_ast option \<Rightarrow> jcl_code c_result" where
  "get_res_type None = Inl Null_Deref"
| "get_res_type (Some (Ast k l r)) =
     (if k = CMD then (case l of None \<Rightarrow> Inl Null_Deref | Some c \<Rightarrow> Inr (nodetype c))
      else if r \<noteq> None then get_res_type r
      else Inl Assert_Failed)"
| "get_res_type (Some a) = Inl Wrong_Member"

definition gen_msg_from_response_stmt :: "OeJclDecoder \<Rightarrow> oejcl_ast \<Rightarrow> (OekMsg option \<times> OeJclDecoder) c_result" where
  "gen_msg_from_response_stmt d ast =
     c_bind (ast_l ast) (\<lambda>l. c_bind (get_res_type l) (\<lambda>t.
       if t = CONNECT then with_decoder d (gen_msg_from_connect_response_stmt ast)
       else if t = WRITE then with_decoder d (gen_msg_from_write_response_stmt ast)
       else if t = READ then gen_msg_from_read_response_stmt d ast
       else if t = TAKE then gen_msg_from_read_response_stmt d ast
       else if t = TXN then with_decoder d (gen_msg_from_txn_response_stmt ast)
       else if t = COMMIT then with_decoder d (gen_msg_from_commit_response_stmt ast)
       else if t = CANCEL then with_decoder d (gen_msg_from_cancel_response_stmt ast)
       else Inl Assert_Failed))"

section \<open>Variables\<close>

text \<open>The strings of a result, one per node of the data of the statement before.\<close>

fun resolve_list :: "oe_scalar list \<Rightarrow> oejcl_ast option \<Rightarrow> OeJclDecoder \<Rightarrow> OeJclDecoder c_result" where
  "resolve_list [] asto d = Inr d"
| "resolve_list (result_str # others) (Some (Ast k l r)) d =
     c_bind (if k = STRING then Inr d
             else if k = NAME
             then c_bind (text_of l) (\<lambda>s.
                    case Table_get (jd_symbols d) s of
                      None \<Rightarrow> Inl Assert_Failed
                    | Some vast \<Rightarrow>
                        Inr (d\<lparr>jd_symbols := snd (Table_put (jd_symbols d) s (new_oejcl_str_ast STRING result_str))\<rparr>))
             else Inl Assert_Failed) (\<lambda>d1. if r = None then Inr d1 else resolve_list others r d1)"
| "resolve_list (result_str # others) asto d = Inl Wrong_Member"

definition set_variables_from_get_list_result :: "OeJclDecoder \<Rightarrow> OekMsg \<Rightarrow> oejcl_ast \<Rightarrow> OeJclDecoder c_result" where
  "set_variables_from_get_list_result d result ast =
     c_bind (ast_l ast) (\<lambda>l.
       if l = None then Inr d
       else c_bind (OekMsg_get_get_res result) (\<lambda>res. resolve_list (strings (fst (GetRes_get_data res))) l d))"

text \<open>\<^verbatim>\<open>strncmp(key, dkey, strlen(key)) == 0\<close> asks whether \<open>key\<close> is a prefix of \<open>dkey\<close>.\<close>

fun map_value :: "oe_scalar list \<Rightarrow> oe_scalar \<Rightarrow> oe_scalar option" where
  "map_value (dkey # dvalue # others) key =
     (if take (length key) dkey = key then Some dvalue else map_value others key)"
| "map_value _ key = None"

definition get_value_from_map_dataobject :: "DataObject \<Rightarrow> oe_scalar \<Rightarrow> oe_scalar option" where
  "get_value_from_map_dataobject dobj key = map_value (strings dobj) key"

fun resolve_map :: "DataObject \<Rightarrow> oejcl_ast option \<Rightarrow> OeJclDecoder \<Rightarrow> OeJclDecoder c_result" where
  "resolve_map dobj (Some (Ast k l (Some (Ast vk vl r)))) d =
     c_bind (if vk = STRING then Inr d
             else if vk = NAME
             then c_bind (text_of vl) (\<lambda>valstr.
                    case Table_get (jd_symbols d) valstr of
                      None \<Rightarrow> Inl Assert_Failed
                    | Some vast \<Rightarrow> c_bind (text_of l) (\<lambda>keystr.
                        case get_value_from_map_dataobject dobj keystr of
                          None \<Rightarrow> Inr d
                        | Some v \<Rightarrow>
                            Inr (d\<lparr>jd_symbols := snd (Table_put (jd_symbols d) valstr (new_oejcl_str_ast STRING v))\<rparr>)))
             else Inl Assert_Failed) (resolve_map dobj r)"
| "resolve_map dobj None d = Inr d"
| "resolve_map dobj (Some (Ast k l None)) d = Inr d"
| "resolve_map dobj asto d = Inl Wrong_Member"

definition set_variables_from_get_map_result :: "OeJclDecoder \<Rightarrow> OekMsg \<Rightarrow> oejcl_ast \<Rightarrow> OeJclDecoder c_result" where
  "set_variables_from_get_map_result d result ast =
     c_bind (ast_l ast) (\<lambda>l.
     c_bind (OekMsg_get_get_res result) (\<lambda>res. resolve_map (fst (GetRes_get_data res)) l d))"

definition set_variables_from_get_result :: "OeJclDecoder \<Rightarrow> OekMsg \<Rightarrow> oejcl_ast option \<Rightarrow> OeJclDecoder c_result" where
  "set_variables_from_get_result d result asto =
     (if OekMsg_get_type result \<noteq> GET_RES then Inl Assert_Failed
      else case asto of
             None \<Rightarrow> Inl Null_Deref
           | Some ast \<Rightarrow>
               if nodetype ast = LIST then set_variables_from_get_list_result d result ast
               else if nodetype ast = MAP then set_variables_from_get_map_result d result ast
               else Inl Assert_Failed)"

definition set_variables_from_result :: "OeJclDecoder \<Rightarrow> OekMsg \<Rightarrow> oejcl_ast option \<Rightarrow> OeJclDecoder c_result" where
  "set_variables_from_result d result asto =
     (case asto of
        None \<Rightarrow> Inl Null_Deref
      | Some ast \<Rightarrow>
          if nodetype ast \<in> {READ, TAKE}
          then c_bind (ast_r ast) (set_variables_from_get_result d result)
          else Inr d)"

text \<open>The grammar gives every assignment a right-hand side.\<close>

definition set_variables_from_assign :: "OeJclDecoder \<Rightarrow> oejcl_ast \<Rightarrow> OeJclDecoder c_result" where
  "set_variables_from_assign d current =
     (if nodetype current \<noteq> ASSIGN then Inl Assert_Failed
      else c_bind (ast_l current) (\<lambda>lo.
             case lo of
               None \<Rightarrow> Inl Null_Deref
             | Some name \<Rightarrow>
                 if nodetype name \<noteq> NAME then Inl Assert_Failed
                 else c_bind (ast_l name) (\<lambda>nl. c_bind (text_of nl) (\<lambda>nstr. c_bind (ast_r current) (\<lambda>ro.
                        case ro of
                          None \<Rightarrow> Inl Null_Deref
                        | Some v \<Rightarrow> Inr (d\<lparr>jd_symbols := snd (Table_put (jd_symbols d) nstr v)\<rparr>))))))"

section \<open>The messages of a batch\<close>

definition msg_create :: "OeJclDecoder \<Rightarrow> oejcl_ast \<Rightarrow> (OekMsg option \<times> OeJclDecoder) c_result" where
  "msg_create d ast =
     (let k = nodetype ast in
      if k = READ then gen_msg_from_read_stmt d ast
      else if k = TAKE then gen_msg_from_read_stmt d ast
      else if k = WRITE then gen_msg_from_write_stmt d ast
      else if k = TXN then with_decoder d (gen_msg_from_txn_stmt ast)
      else if k = DIS then with_decoder d (gen_msg_from_dis_stmt ast)
      else if k = CONNECT then with_decoder d (gen_msg_from_connect_stmt ast)
      else if k = COMMIT then with_decoder d (gen_msg_from_upt_stmt ast OETXN_COMMITTED)
      else if k = CANCEL then with_decoder d (gen_msg_from_upt_stmt ast OETXN_ROLLEDBACK)
      else if k = CANCELLEASE then with_decoder d (gen_msg_from_upl_stmt ast)
      else if k = RESPONSE then gen_msg_from_response_stmt d ast
      else if k = ERROR then with_decoder d (gen_msg_from_error_stmt ast)
      else Inl Assert_Failed)"

text \<open>The values a result gives to the variables of the statement it answers, before the next statement is looked at.\<close>

definition resolve_result :: "OeJclDecoder \<Rightarrow> OekMsg option \<Rightarrow> OeJclDecoder c_result" where
  "resolve_result d result_of_prev_cmd =
     (case result_of_prev_cmd of
        None \<Rightarrow> Inr d
      | Some result \<Rightarrow>
          if jd_resolve_from_results d
          then (case jd_prev_node d of
                  None \<Rightarrow> Inl Null_Deref
                | Some prev \<Rightarrow> c_bind (ast_l prev) (set_variables_from_result d result))
          else Inr d)"

text \<open>\<^verbatim>\<open>OeJclDecoder_next_cmd\<close> with the node it is at as a parameter of the recursion: assignments are carried out on the way to
  the next command.\<close>

fun next_cmd_at :: "oejcl_ast option \<Rightarrow> OeJclDecoder \<Rightarrow> OekMsg option \<Rightarrow> (OekMsg option \<times> OeJclDecoder) c_result" where
  "next_cmd_at None d result_of_prev_cmd = Inr (None, d\<lparr>jd_result := result_of_prev_cmd\<rparr>)"
| "next_cmd_at (Some (Ast k l r)) d result_of_prev_cmd =
     (case l of
        None \<Rightarrow> Inl Assert_Failed
      | Some stmt \<Rightarrow>
          c_bind (resolve_result (d\<lparr>jd_result := result_of_prev_cmd\<rparr>) result_of_prev_cmd) (\<lambda>d1.
            let d2 = d1\<lparr>jd_prev_node := Some (Ast k l r), jd_next_node := r\<rparr> in
            if nodetype stmt = ASSIGN
            then c_bind (set_variables_from_assign d2 stmt) (\<lambda>d3. next_cmd_at r d3 None)
            else msg_create d2 stmt))"
| "next_cmd_at (Some a) d result_of_prev_cmd = Inl Wrong_Member"

definition OeJclDecoder_next_cmd :: "OeJclDecoder \<Rightarrow> OekMsg option \<Rightarrow> (OekMsg option \<times> OeJclDecoder) c_result" where
  "OeJclDecoder_next_cmd d result_of_prev_cmd = next_cmd_at (jd_next_node d) d result_of_prev_cmd"

end
