(* ===== verification/Jcl_Scan.thy ===== *)
theory Jcl_Scan
  imports Jcl_Parser
begin

text \<open>
  What the scanner makes of the pieces a JCL text is put together from: words and punctuation by evaluation, numbers as they
  are printed and strings in quotes by the rules below.  Together they compute the tokens of a text in which only the numbers
  and strings are unknown.
\<close>

named_theorems lex_simps \<open>the tokens of the pieces of a text\<close>

lemmas char_classes = name_char_def name_start_def is_digit_def white_def punct.simps Let_def

lemma takeWhile_stop: "\<forall>c \<in> set w. P c \<Longrightarrow> \<not> P d \<Longrightarrow> takeWhile P (w @ d # s) = w"
  by (induction w) auto

lemma dropWhile_stop: "\<forall>c \<in> set w. P c \<Longrightarrow> \<not> P d \<Longrightarrow> dropWhile P (w @ d # s) = d # s"
  by (induction w) auto

lemma atoi_small: "- (2 ^ 31) \<le> n \<Longrightarrow> n < 2 ^ 31 \<Longrightarrow> atoi n = n"
  by (simp add: atoi_def min_def max_def sint_sbintrunc' signed_take_bit_int_eq_self)

lemma takeWhile_dec_nat: "\<not> is_digit d \<Longrightarrow> takeWhile is_digit (dec_nat n @ d # s) = dec_nat n"
  by (simp add: takeWhile_stop dec_nat_digits)

lemma dropWhile_dec_nat: "\<not> is_digit d \<Longrightarrow> dropWhile is_digit (dec_nat n @ d # s) = d # s"
  by (simp add: dropWhile_stop dec_nat_digits)

lemma yylex_dec_nat:
  assumes "\<not> is_digit d"
  shows "yylex (dec_nat n @ d # s) = push_token (Num (atoi (int n))) (yylex (d # s))"
proof -
  obtain c cs where c: "dec_nat n = c # cs" by (cases "dec_nat n") auto
  have g: "is_digit c" "\<forall>x \<in> set cs. is_digit x" using dec_nat_digits [of _ n] by (auto simp: c)
  have "c \<noteq> CHR 0x22" using g(1) by (auto simp: is_digit_def)
  moreover have "digits_val 0 (c # cs) = n" using digits_val_dec_nat [of n] by (simp add: c)
  ultimately show ?thesis
    using g assms by (simp add: c yylex.simps(2) takeWhile_stop dropWhile_stop)
qed

lemma yylex_minus:
  assumes "\<not> is_digit d"
  shows "yylex (CHR ''-'' # dec_nat n @ d # s) = push_token (Num (atoi (- int n))) (yylex (d # s))"
proof -
  have "is_digit (hd (dec_nat n @ d # s))" using dec_nat_digits [of "hd (dec_nat n)" n] by simp
  moreover have "\<not> is_digit (CHR ''-'')" by (simp add: is_digit_def)
  ultimately show ?thesis
    using assms by (simp add: yylex.simps(2) takeWhile_dec_nat dropWhile_dec_nat digits_val_dec_nat)
qed

text \<open>Numbers that an \<^verbatim>\<open>int\<close> holds come back unchanged.\<close>

definition int_range :: "int \<Rightarrow> bool" where
  "int_range n = (- (2 ^ 31) \<le> n \<and> n < 2 ^ 31)"

lemma yylex_number [lex_simps]:
  "int_range n \<Longrightarrow> \<not> is_digit d \<Longrightarrow> yylex (dec_int n @ d # s) = push_token (Num n) (yylex (d # s))"
  by (auto simp: int_range_def dec_int_def yylex_dec_nat yylex_minus atoi_small)

text \<open>A text that needs no escapes between quotes.\<close>

definition plain_text :: "string \<Rightarrow> bool" where
  "plain_text s = (CHR 0x22 \<notin> set s \<and> CHR 0x5C \<notin> set s)"

lemma string_end_plain: "plain_text s \<Longrightarrow> string_end (s @ CHR 0x22 # rest) = Some (s, rest)"
  by (induction s) (auto simp: plain_text_def)

lemma yylex_quoted [lex_simps]:
  "plain_text x \<Longrightarrow> yylex (CHR 0x22 # x @ CHR 0x22 # s) = push_token (Str x) (yylex s)"
  by (simp add: yylex.simps(2) string_end_plain)

lemmas lex_text = lex_simps yylex.simps char_classes string_end_plain word_token_def keyword_rules_def push_token_def

end
