(* ===== verification/Jcl_Roundtrip.thy ===== *)
theory Jcl_Roundtrip
  imports Jcl_Encoder Jcl_Decoder Jcl_Scan
begin

text \<open>
  What the encoder prints the decoder reads back.  \<open>carried\<close> describes the messages that JCL can carry at all: numbers that an
  \<^verbatim>\<open>int\<close> holds, texts without quotes and backslashes, and no member that the command has no argument for.
\<close>

section \<open>Lists and maps of strings\<close>

text \<open>The text of a list, the text of a map and their trees.\<close>

definition quoted :: "string \<Rightarrow> string" where
  "quoted x = ''\"'' @ x @ ''\"''"

fun tuple_text :: "string list \<Rightarrow> string" where
  "tuple_text [] = []"
| "tuple_text [x] = quoted x"
| "tuple_text (x # xs) = quoted x @ '' '' @ tuple_text xs"

fun map_text :: "string list \<Rightarrow> string" where
  "map_text [k, v] = quoted k @ '': '' @ quoted v"
| "map_text (k # v # xs) = quoted k @ '': '' @ quoted v @ '' '' @ map_text xs"
| "map_text _ = []"

fun map_tokens :: "string list \<Rightarrow> jcl_token list" where
  "map_tokens (k # v # xs) = Str k # Tk PAIR_SEP # Str v # map_tokens xs"
| "map_tokens _ = []"

fun chain :: "string list \<Rightarrow> oejcl_ast option" where
  "chain [] = None"
| "chain (x # xs) = Some (Ast STRING (Some (Strval x)) (chain xs))"

lemma tuple_text_Cons: "xs \<noteq> [] \<Longrightarrow> tuple_text (x # xs) = quoted x @ '' '' @ tuple_text xs"
  by (cases xs) auto

lemma map_text_Cons: "xs \<noteq> [] \<Longrightarrow> map_text (k # v # xs) = quoted k @ '': '' @ quoted v @ '' '' @ map_text xs"
  by (cases xs) auto

lemma concat_quoted: "oec_str_concat [''\"'', x, ''\"''] = Inr (quoted x)"
  by (simp add: oec_str_concat_def quoted_def)

lemma tuple_loop_Some:
  "tuple_loop (Some s) xs = Inr (Some (if xs = [] then s else s @ '' '' @ tuple_text xs))"
  by (induction xs arbitrary: s)
    (auto simp: add_quoted_def oec_str_concat_def quoted_def tuple_text_Cons)

lemma serialize_tuple_text:
  "serialize_tuple dobj = Inr (if strings dobj = [] then None else Some (tuple_text (strings dobj)))"
  by (cases "strings dobj")
    (auto simp: serialize_tuple_def add_quoted_def concat_quoted tuple_loop_Some tuple_text_Cons)

lemma map_loop_Some:
  "even (length xs) \<Longrightarrow> map_loop (Some s) xs = Inr (Some (if xs = [] then s else s @ '' '' @ map_text xs))"
  by (induction xs arbitrary: s rule: map_text.induct)
    (auto simp: add_quoted_def oec_str_concat_def quoted_def)

lemma serialize_map_text:
  assumes "even (length (strings dobj))"
  shows "serialize_map dobj = Inr (if strings dobj = [] then None else Some (map_text (strings dobj)))"
  using assms
  by (cases "strings dobj" rule: map_text.cases)
    (auto simp: serialize_map_def add_quoted_def concat_quoted map_loop_Some map_text_Cons oec_str_concat_def quoted_def)

section \<open>Scanning and parsing data\<close>

lemma yylex_tuple [lex_simps]:
  "list_all plain_text xs \<Longrightarrow> xs \<noteq> [] \<Longrightarrow>
   yylex (tuple_text xs @ rest) = (fst (yylex rest), map Str xs @ snd (yylex rest))"
  by (induction xs rule: tuple_text.induct) (auto simp: quoted_def lex_text)

lemma yylex_map [lex_simps]:
  "list_all plain_text xs \<Longrightarrow> xs \<noteq> [] \<Longrightarrow> even (length xs) \<Longrightarrow>
   yylex (map_text xs @ rest) = (fst (yylex rest), map_tokens xs @ snd (yylex rest))"
  by (induction xs rule: map_text.induct) (auto simp: quoted_def lex_text)

lemmas ast_defs = new_oejcl_ast_def new_oejcl_num_def new_oejcl_num_ast_def new_oejcl_str_def new_oejcl_str_ast_def

lemma p_list_strings:
  "xs \<noteq> [] \<Longrightarrow> length xs \<le> n \<Longrightarrow> p_list n (map Str xs @ Tk END_BRACKET # rest) = Some (the (chain xs), Tk END_BRACKET # rest)"
proof (induction xs arbitrary: n)
  case (Cons x xs)
  then obtain m where "n = Suc m" by (cases n) auto
  then show ?case using Cons by (cases xs) (auto simp: ast_defs)
qed simp

lemma p_map_pairs:
  "xs \<noteq> [] \<Longrightarrow> even (length xs) \<Longrightarrow> length xs \<le> n \<Longrightarrow>
   p_map n (map_tokens xs @ Tk END_BRACKET # rest) = Some (the (chain xs), Tk END_BRACKET # rest)"
proof (induction xs arbitrary: n rule: map_tokens.induct)
  case (1 k v xs)
  then obtain m where n: "n = Suc m" by (cases n) auto
  show ?case
  proof (cases xs rule: map_tokens.cases)
    case (1 k' v' ys)
    then have "p_map m (map_tokens xs @ Tk END_BRACKET # rest) = Some (the (chain xs), Tk END_BRACKET # rest)"
      using "1.IH" [of m] "1.prems" n by simp
    then show ?thesis using 1 n by (simp add: ast_defs expect_def)
  qed (use "1.prems" n in \<open>auto simp: ast_defs expect_def\<close>)
qed auto

text \<open>The data in brackets, as a list or as a map.\<close>

definition data_text :: "bool \<Rightarrow> string list \<Rightarrow> string" where
  "data_text tuple xs = (if tuple then tuple_text xs else map_text xs)"

definition data_tokens :: "bool \<Rightarrow> string list \<Rightarrow> jcl_token list" where
  "data_tokens tuple xs = (if tuple then map Str xs else map_tokens xs)"

definition printable :: "bool \<Rightarrow> string list \<Rightarrow> bool" where
  "printable tuple xs = (xs \<noteq> [] \<and> list_all plain_text xs \<and> (tuple \<or> even (length xs)))"

lemma yylex_data [lex_simps]:
  "printable tuple xs \<Longrightarrow>
   yylex (data_text tuple xs @ rest) = (fst (yylex rest), data_tokens tuple xs @ snd (yylex rest))"
  by (auto simp: printable_def data_text_def data_tokens_def yylex_tuple yylex_map)

lemma length_map_tokens: "even (length xs) \<Longrightarrow> length xs \<le> length (map_tokens xs)"
  by (induction xs rule: map_tokens.induct) auto

lemma p_data_printable:
  assumes "printable tuple xs"
  shows "p_data (Tk START_BRACKET # data_tokens tuple xs @ Tk END_BRACKET # rest) =
    Some (Ast (if tuple then LIST else MAP) (chain xs) None, rest)"
proof (cases tuple)
  case True
  then obtain x ys where xs: "xs = x # ys" using assms by (cases xs) (auto simp: printable_def)
  have "\<not> starts PAIR_SEP (map Str ys @ Tk END_BRACKET # rest)" "\<not> starts CONCAT (map Str ys @ Tk END_BRACKET # rest)"
    by (cases ys; simp)+
  then show ?thesis
    using True p_list_strings [of xs "length (map Str xs @ Tk END_BRACKET # rest)" rest] xs
    by (simp add: p_data_def p_items_def data_tokens_def expect_def ast_defs)
next
  case False
  then obtain k v ys where xs: "xs = k # v # ys" using assms
    by (cases xs rule: map_tokens.cases) (auto simp: printable_def)
  have "p_map (length (map_tokens xs @ Tk END_BRACKET # rest)) (map_tokens xs @ Tk END_BRACKET # rest) =
      Some (the (chain xs), Tk END_BRACKET # rest)"
    using False assms length_map_tokens [of xs] by (intro p_map_pairs) (auto simp: printable_def)
  then show ?thesis
    using False xs by (simp add: p_data_def p_items_def data_tokens_def expect_def ast_defs)
qed

section \<open>Decoding data\<close>

definition object_of :: "string list \<Rightarrow> DataObject" where
  "object_of xs = \<lparr>strings = xs, nbytes = 0, bytes = None, array_cache = None, always_cpy = False\<rparr>"

lemma add_attr_object: "DataObject_add_attr (object_of ys) (Some x) = Inr (object_of (ys @ [x]))"
  by (simp add: DataObject_add_attr_def object_of_def sdo_cpy_def)

lemma data_loop_chain: "data_loop d (chain xs) (object_of ys) = Inr (Some (object_of (ys @ xs)), d)"
  by (induction xs arbitrary: ys) (auto simp: add_attr_object)

lemma get_data_object_chain:
  assumes "xs \<noteq> []"
  shows "get_data_object d (Ast k (chain xs) r) = Inr (Some (object_of xs), d)"
proof -
  have "DataObject_new = object_of []" by (simp add: DataObject_new_def object_of_def)
  moreover obtain a where "chain xs = Some a" using assms by (cases xs) auto
  ultimately show ?thesis using data_loop_chain [of d xs "[]"] by (simp add: get_data_object_def)
qed

section \<open>Messages of the language\<close>

datatype jcl_msg =
    Connect oe_id string string string
  | Disconnect
  | Write oe_id oe_id "64 word" bool "string list"
  | Get bool "64 word" oe_id oe_id bool "string list"
  | Start oe_id "64 word"
  | Commit_Txn oe_id oe_id "32 word"
  | Cancel_Txn oe_id oe_id
  | Cancel_Lease oe_id oe_id
  | Failed oe_id string
  | Connected oe_id oe_id
  | Written oe_id oe_id
  | Got bool oe_id "64 word" bool "string list"
  | Got_Nothing bool oe_id "64 word"
  | Started oe_id oe_id
  | Committed oe_id
  | Cancelled oe_id

definition envelope :: "OEK_MSG_TYPE \<Rightarrow> oe_id \<Rightarrow> oe_id \<Rightarrow> OekData \<Rightarrow> OekMsg" where
  "envelope t cid tid d = \<lparr>mtype = t, cor_id = cid, txn_id = tid, valid = True, data = d\<rparr>"

definition get_flags :: "bool \<Rightarrow> bool \<Rightarrow> oe_flags" where
  "get_flags remove tuple = (if remove then (if tuple then 53 else 52) else if tuple then 49 else 48)"

definition res_flags :: "bool \<Rightarrow> bool \<Rightarrow> oe_flags" where
  "res_flags destroyed tuple = (if destroyed then (if tuple then 3 else 2) else if tuple then 1 else 0)"

fun message :: "jcl_msg \<Rightarrow> OekMsg" where
  "message (Connect cid ext user pwd) = envelope CON_CMD cid 0 (D_con_cmd
     (ConCmd_new\<lparr>cc_extentname := Some ext, cc_username := Some user, cc_password := Some pwd\<rparr>))"
| "message Disconnect = envelope DIS_CMD 0 0 (D_dis_cmd DisCmd_new)"
| "message (Write cid tid dur tuple xs) = envelope PUT_CMD cid tid (D_put_cmd
     \<lparr>pc_duration = dur, pc_is_tuple = tuple, pc_data = Some (object_of xs)\<rparr>)"
| "message (Get remove timeout cid tid tuple xs) = envelope GET_CMD cid tid (D_get_cmd
     \<lparr>gc_timeout = timeout, gc_max_responses = 1, gc_flags = get_flags remove tuple, gc_value_lists = Some [object_of xs]\<rparr>)"
| "message (Start cid timeout) = envelope STA_CMD cid 0 (D_sta_cmd (StaCmd_new\<lparr>sc_duration := timeout\<rparr>))"
| "message (Commit_Txn cid tid n) = envelope UPT_CMD cid tid (D_upt_cmd
     (UptCmd_new\<lparr>uc_enlisted := n, uc_status := OETXN_COMMITTED\<rparr>))"
| "message (Cancel_Txn cid tid) = envelope UPT_CMD cid tid (D_upt_cmd (UptCmd_new\<lparr>uc_status := OETXN_ROLLEDBACK\<rparr>))"
| "message (Cancel_Lease cid lid) = envelope UPL_CMD cid 0 (D_upl_cmd (UplCmd_new\<lparr>lc_lease_id := lid\<rparr>))"
| "message (Failed cid text) = envelope OEK_ERR cid 0 (D_err (OekErr_new\<lparr>er_emessage := Some text\<rparr>))"
| "message (Connected cid sid) = envelope CON_RES cid 0 (D_con_res (ConRes_new\<lparr>cr_session_id := sid\<rparr>))"
| "message (Written cid lid) = envelope PUT_RES cid 0 (D_put_res \<lparr>pr_lease_id = lid\<rparr>)"
| "message (Got destroyed cid n tuple xs) = envelope GET_RES cid 0 (D_get_res
     \<lparr>gr_nresults = n, gr_flags = res_flags destroyed tuple, gr_data = Some (object_of xs)\<rparr>)"
| "message (Got_Nothing destroyed cid n) = envelope GET_RES cid 0 (D_get_res
     \<lparr>gr_nresults = n, gr_flags = res_flags destroyed False, gr_data = None\<rparr>)"
| "message (Started cid tid) = envelope STA_RES cid tid (D_sta_res StaRes_new)"
| "message (Committed cid) = envelope UPT_RES cid 0 (D_upt_res \<lparr>ur_status = OETXN_COMMITTED\<rparr>)"
| "message (Cancelled cid) = envelope UPT_RES cid 0 (D_upt_res \<lparr>ur_status = OETXN_ROLLEDBACK\<rparr>)"

text \<open>An identifier or size that an \<^verbatim>\<open>int\<close> holds, and a duration or timeout.\<close>

definition small_id :: "64 word \<Rightarrow> bool" where
  "small_id w = (uint w < 2 ^ 31)"

definition small_dur :: "64 word \<Rightarrow> bool" where
  "small_dur w = int_range (sint w)"

fun printable_msg :: "jcl_msg \<Rightarrow> bool" where
  "printable_msg (Connect cid ext user pwd) = (small_id cid \<and> plain_text ext \<and> plain_text user \<and> plain_text pwd)"
| "printable_msg Disconnect = True"
| "printable_msg (Write cid tid dur tuple xs) = (small_id cid \<and> small_id tid \<and> small_dur dur \<and> printable tuple xs)"
| "printable_msg (Get remove timeout cid tid tuple xs) =
     (small_dur timeout \<and> small_id cid \<and> small_id tid \<and> printable tuple xs)"
| "printable_msg (Start cid timeout) = (small_id cid \<and> small_dur timeout)"
| "printable_msg (Commit_Txn cid tid n) = (small_id cid \<and> small_id tid)"
| "printable_msg (Cancel_Txn cid tid) = (small_id cid \<and> small_id tid)"
| "printable_msg (Cancel_Lease cid lid) = (small_id cid \<and> small_id lid)"
| "printable_msg (Failed cid text) = (small_id cid \<and> plain_text text)"
| "printable_msg (Connected cid sid) = (small_id cid \<and> small_id sid)"
| "printable_msg (Written cid lid) = (small_id cid \<and> small_id lid)"
| "printable_msg (Got destroyed cid n tuple xs) = (small_id cid \<and> small_id n \<and> printable tuple xs)"
| "printable_msg (Got_Nothing destroyed cid n) = (small_id cid \<and> small_id n)"
| "printable_msg (Started cid tid) = (small_id cid \<and> small_id tid)"
| "printable_msg (Committed cid) = small_id cid"
| "printable_msg (Cancelled cid) = small_id cid"

text \<open>The text of each.\<close>

fun jcl_text :: "jcl_msg \<Rightarrow> string" where
  "jcl_text (Connect cid ext user pwd) = ''connect(cid='' @ lld cid @ '' extentname=\"'' @ ext @ ''\" username=\"'' @ user @
     ''\" password=\"'' @ pwd @ ''\");''"
| "jcl_text Disconnect = ''dis();''"
| "jcl_text (Write cid tid dur tuple xs) =
     ''write(cid='' @ lld cid @ '' tid='' @ lld tid @ '' dur='' @ lld dur @ '' ['' @ data_text tuple xs @ '']);''"
| "jcl_text (Get remove timeout cid tid tuple xs) = (if remove then ''take'' else ''read'') @ ''(timeout='' @ lld timeout @
     '' cid='' @ lld cid @ '' tid='' @ lld tid @ '' ['' @ data_text tuple xs @ '']);''"
| "jcl_text (Start cid timeout) = ''txn(cid='' @ lld cid @ '' timeout='' @ lld timeout @ '');''"
| "jcl_text (Commit_Txn cid tid n) =
     ''commit(cid='' @ lld cid @ '' tid='' @ lld tid @ '' enlisted='' @ dec_int (sint n) @ '');''"
| "jcl_text (Cancel_Txn cid tid) = ''cancel(cid='' @ lld cid @ '' tid='' @ lld tid @ '');''"
| "jcl_text (Cancel_Lease cid lid) = ''cancel(cid='' @ lld cid @ '' lid='' @ lld lid @ '');''"
| "jcl_text (Failed cid text) = ''error(cid='' @ lld cid @ '' msg=\"'' @ text @ ''\");''"
| "jcl_text (Connected cid sid) = ''response(cmd=connect cid='' @ lld cid @ '' sid='' @ lld sid @ '');''"
| "jcl_text (Written cid lid) = ''response(cmd=write cid='' @ lld cid @ '' lid='' @ lld lid @ '');''"
| "jcl_text (Got destroyed cid n tuple xs) = ''response(cmd='' @ (if destroyed then ''take'' else ''read'') @ '' cid='' @
     lld cid @ '' nresults='' @ lld n @ '' ['' @ data_text tuple xs @ '']);''"
| "jcl_text (Got_Nothing destroyed cid n) = ''response(cmd='' @ (if destroyed then ''take'' else ''read'') @ '' cid='' @
     lld cid @ '' nresults='' @ lld n @ '' []);''"
| "jcl_text (Started cid tid) = ''response(cmd=txn cid='' @ lld cid @ '' tid='' @ lld tid @ '');''"
| "jcl_text (Committed cid) = ''response(cmd=commit cid='' @ lld cid @ '');''"
| "jcl_text (Cancelled cid) = ''response(cmd=cancel cid='' @ lld cid @ '');''"

section \<open>Numbers\<close>

lemma small_id_sint:
  assumes "small_id w"
  shows "sint w = uint w" and "int_range (uint w)"
proof -
  have u: "uint w < 2 ^ 31" using assms by (simp add: small_id_def)
  have "- (2 ^ 63) \<le> uint w" by (rule order_trans [OF _ uint_ge_0]) simp
  moreover have "uint w < 2 ^ 63" using u by simp
  ultimately show "sint w = uint w" by (simp add: sint_uint signed_take_bit_int_eq_self)
  have "- (2 ^ 31) \<le> uint w" by (rule order_trans [OF _ uint_ge_0]) simp
  then show "int_range (uint w)" using u by (simp add: int_range_def)
qed

lemma lld_small: "small_id w \<Longrightarrow> lld w = dec_int (uint w)"
  by (simp add: lld_def small_id_sint)

lemma as_int_signed: "as_int w = signed_take_bit 31 (sint w)"
  by (simp add: as_int_def sint_uint unsigned_ucast_eq signed_take_bit_eq_iff_take_bit_eq take_bit_signed_take_bit)

lemma as_int_small_dur: "small_dur w \<Longrightarrow> dec_int (as_int w) = lld w"
  by (simp add: as_int_signed lld_def small_dur_def int_range_def signed_take_bit_int_eq_self)

lemma as_int_small_id: "small_id w \<Longrightarrow> dec_int (as_int w) = lld w"
  by (rule as_int_small_dur) (simp add: small_dur_def small_id_sint)

lemma length_dec_int: "int_range n \<Longrightarrow> length (dec_int n) \<le> 11"
proof -
  assume a: "int_range n"
  then have "nat \<bar>n\<bar> < 10 ^ Suc 9" by (auto simp: int_range_def)
  then have "length (dec_nat (nat \<bar>n\<bar>)) \<le> Suc 9" by (rule length_dec_nat)
  then show ?thesis by (auto simp: dec_int_def abs_if split: if_splits)
qed

lemma length_lld_id: "small_id w \<Longrightarrow> length (lld w) \<le> 11"
  by (simp add: lld_small small_id_sint length_dec_int)

lemma length_lld_dur: "small_dur w \<Longrightarrow> length (lld w) \<le> 11"
  by (simp add: lld_def small_dur_def length_dec_int)

section \<open>Printing\<close>

lemmas encoder_defs =
  sprintf_into_def concat_with_def CON_MSG_TEMPLATE_def con_cmd_serialize_def dis_cmd_serialize_def
  PUT_MSG_TEMPLATE_PRE_def put_cmd_serialize_def GET_CMD_TEMPLATE_PRE_def get_cmd_serialize_def STA_MSG_TEMPLATE_def
  sta_cmd_serialize_def COMMIT_MSG_TEMPLATE_def commit_cmd_serialize_def UPL_CMD_TEMPLATE_def upl_cmd_serialize_def
  RB_MSG_TEMPLATE_def rollback_cmd_serialize_def CON_RES_TEMPLATE_def con_res_serialize_def PUT_RES_TEMPLATE_def
  put_res_serialize_def STA_RES_TEMPLATE_def sta_res_serialize_def OEK_ERR_TEMPLATE_def err_serialize_def
  GET_RES_TEMPLATE_PRE_def get_res_serialize_def COMMIT_RES_TEMPLATE_def commit_res_serialize_def CANCEL_RES_TEMPLATE_def
  cancel_res_serialize_def UPL_RES_TEMPLATE_def upl_res_serialize_def OeJclEncoder_msg_serialize_def

lemmas get_defs =
  OekMsg_get_type_def OekMsg_get_cid_def OekMsg_get_tid_def OekMsg_get_err_def OekMsg_get_con_cmd_def OekMsg_get_con_res_def
  OekMsg_get_sta_cmd_def OekMsg_get_upt_cmd_def OekMsg_get_upt_res_def OekMsg_get_upl_cmd_def OekMsg_get_get_cmd_def
  OekMsg_get_get_res_def OekMsg_get_put_cmd_def OekMsg_get_put_res_def ConCmd_get_extentname_def ConCmd_get_username_def
  ConCmd_get_pwd_def PutCmd_get_dur_def PutCmd_is_tuple_def PutCmd_get_data_def GetCmd_remove_def GetCmd_get_timeout_def
  GetCmd_get_data_objects_def get_value_lists_def GetCmd_is_tuple_def StaCmd_get_dur_def UptCmd_get_enlisted_def
  UplCmd_get_lid_def ConRes_get_sid_def PutRes_get_lease_id_def OekErr_get_message_def GetRes_is_destroyed_def
  GetRes_get_nresults_def GetRes_is_tuple_def GetRes_get_data_def UptCmd_get_status_def UptRes_get_status_def

lemma serialize_data:
  "printable True xs \<Longrightarrow> serialize_tuple (object_of xs) = Inr (Some (data_text True xs))"
  "printable False xs \<Longrightarrow> serialize_map (object_of xs) = Inr (Some (data_text False xs))"
  by (auto simp: serialize_tuple_text serialize_map_text printable_def object_of_def data_text_def)

lemma get_flags_set:
  "OEC_FLAG_ISSET (get_flags remove tuple) OE_GET_CMD_DESTROY = remove"
  "OEC_FLAG_ISSET (get_flags remove tuple) OE_GET_CMD_TUPLE = tuple"
  by (auto simp: get_flags_def OEC_FLAG_ISSET_def OE_GET_CMD_DESTROY_def OE_GET_CMD_TUPLE_def)

lemma res_flags_set:
  "OEC_FLAG_ISSET (res_flags remove tuple) DESTROYED = remove"
  "OEC_FLAG_ISSET (res_flags remove tuple) TUPLE = tuple"
  by (auto simp: res_flags_def OEC_FLAG_ISSET_def DESTROYED_def TUPLE_def)

lemmas print_simps = encoder_defs get_defs envelope_def oec_str_concat_def as_int_small_dur as_int_small_id
  get_flags_set res_flags_set

lemma encodes:
  assumes "printable_msg j"
  shows "OeJclEncoder_msg_serialize (message j) = Inr (Some (jcl_text j))"
proof (cases j)
  case (Connect cid ext user pwd)
  then show ?thesis using assms length_lld_id [of cid] by (simp add: print_simps)
next
  case (Write cid tid dur tuple xs)
  then show ?thesis
    using assms length_lld_id [of cid] length_lld_id [of tid] length_lld_dur [of dur]
    by (cases tuple) (simp_all add: print_simps serialize_data)
next
  case (Get remove timeout cid tid tuple xs)
  then show ?thesis
    using assms length_lld_id [of cid] length_lld_id [of tid] length_lld_dur [of timeout]
    by (cases tuple) (simp_all add: print_simps serialize_data)
next
  case (Got destroyed cid n tuple xs)
  then show ?thesis
    using assms length_lld_id [of cid] length_lld_id [of n]
    by (cases tuple) (simp_all add: print_simps serialize_data)
next
  case (Got_Nothing destroyed cid n)
  then show ?thesis
    using assms length_lld_id [of cid] length_lld_id [of n]
    by (simp add: print_simps serialize_map_text DataObject_new_def)
next
  case (Commit_Txn cid tid n)
  have "length (dec_int (sint n)) < 20" using oec_itoa_fits [of n] by (simp add: oec_itoa_def)
  then show ?thesis
    using assms Commit_Txn length_lld_id [of cid] length_lld_id [of tid] by (simp add: print_simps)
next
  case (Start cid timeout)
  then show ?thesis using assms length_lld_id [of cid] length_lld_dur [of timeout] by (simp add: print_simps)
next
  case (Cancel_Txn cid tid)
  then show ?thesis
    using assms length_lld_id [of cid] length_lld_id [of tid]
    by (simp add: print_simps OETXN_ROLLEDBACK_def OETXN_COMMITTED_def)
next
  case (Cancel_Lease cid lid)
  then show ?thesis using assms length_lld_id [of cid] length_lld_id [of lid] by (simp add: print_simps)
next
  case (Failed cid emsg)
  then show ?thesis using assms length_lld_id [of cid] by (simp add: print_simps OekErr_new_def)
next
  case (Connected cid sid)
  then show ?thesis using assms length_lld_id [of cid] length_lld_id [of sid] by (simp add: print_simps)
next
  case (Written cid lid)
  then show ?thesis using assms length_lld_id [of cid] length_lld_id [of lid] by (simp add: print_simps)
next
  case (Started cid tid)
  then show ?thesis using assms length_lld_id [of cid] length_lld_id [of tid] by (simp add: print_simps)
next
  case (Committed cid)
  then show ?thesis using assms length_lld_id [of cid] by (simp add: print_simps OETXN_COMMITTED_def NUL_def)
next
  case (Cancelled cid)
  then show ?thesis
    using assms length_lld_id [of cid] by (simp add: print_simps OETXN_ROLLEDBACK_def OETXN_COMMITTED_def NUL_def)
qed (simp add: print_simps)

section \<open>Parsing\<close>

lemmas parser_defs = oejcl_parse_def starts.simps expect_def args_def find.simps
  number_args_def string_args_def cmdnames_def p_named_def p_call_def p_plain_def p_dis_def
  p_commit_def p_cancel_def p_response_def p_command_def p_txn_def whole_def assign_ast_def stmt_codes_def
  errorargs_def responseargs_def txnargs_def cmdargs_def writeargs_def readargs_def connectargs_def

lemma numbers [lex_simps]:
  "small_id w \<Longrightarrow> \<not> is_digit d \<Longrightarrow> yylex (lld w @ d # s) = push_token (Num (uint w)) (yylex (d # s))"
  "small_dur v \<Longrightarrow> \<not> is_digit d \<Longrightarrow> yylex (lld v @ d # s) = push_token (Num (sint v)) (yylex (d # s))"
  by (simp_all add: lld_small small_id_sint yylex_number) (simp add: lld_def small_dur_def yylex_number)

lemma p_data_empty: "p_data (Tk START_BRACKET # Tk END_BRACKET # rest) = Some (Ast NONE None None, rest)"
  by (simp add: p_data_def expect_def ast_defs)

definition num_arg :: "jcl_code \<Rightarrow> int \<Rightarrow> oejcl_ast option \<Rightarrow> oejcl_ast option" where
  "num_arg k n r = Some (Ast k (Some (Numval n)) r)"

definition str_arg :: "jcl_code \<Rightarrow> string \<Rightarrow> oejcl_ast option \<Rightarrow> oejcl_ast option" where
  "str_arg k s r = Some (Ast k (Some (Strval s)) r)"

definition cmd_arg :: "jcl_code \<Rightarrow> oejcl_ast option" where
  "cmd_arg c = Some (Ast CMD (Some (Ast c None None)) None)"

definition data_ast :: "bool \<Rightarrow> string list \<Rightarrow> oejcl_ast option" where
  "data_ast tuple xs = Some (Ast (if tuple then LIST else MAP) (chain xs) None)"

lemmas tree_defs = num_arg_def str_arg_def cmd_arg_def data_ast_def

text \<open>The tree of each text: arguments are linked from the last to the first.\<close>

fun tree :: "jcl_msg \<Rightarrow> oejcl_ast" where
  "tree (Connect cid ext user pwd) = Ast CONNECT
     (str_arg PASSWORD pwd (str_arg USERNAME user (str_arg EXTENTNAME ext (num_arg CORRELATION_ID (uint cid) None)))) None"
| "tree Disconnect = Ast DIS None None"
| "tree (Write cid tid dur tuple xs) = Ast WRITE
     (num_arg DURATION (sint dur) (num_arg TXN_ID (uint tid) (num_arg CORRELATION_ID (uint cid) None))) (data_ast tuple xs)"
| "tree (Get remove timeout cid tid tuple xs) = Ast (if remove then TAKE else READ)
     (num_arg TXN_ID (uint tid) (num_arg CORRELATION_ID (uint cid) (num_arg TIMEOUT (sint timeout) None))) (data_ast tuple xs)"
| "tree (Start cid timeout) = Ast TXN (num_arg TIMEOUT (sint timeout) (num_arg CORRELATION_ID (uint cid) None)) None"
| "tree (Commit_Txn cid tid n) = Ast COMMIT
     (num_arg NENLISTED (sint n) (num_arg TXN_ID (uint tid) (num_arg CORRELATION_ID (uint cid) None))) None"
| "tree (Cancel_Txn cid tid) = Ast CANCEL (num_arg TXN_ID (uint tid) (num_arg CORRELATION_ID (uint cid) None)) None"
| "tree (Cancel_Lease cid lid) = Ast CANCELLEASE (num_arg LEASE_ID (uint lid) (num_arg CORRELATION_ID (uint cid) None)) None"
| "tree (Failed cid emsg) = Ast ERROR (str_arg MSG emsg (num_arg CORRELATION_ID (uint cid) None)) None"
| "tree (Connected cid sid) = Ast RESPONSE
     (num_arg SESSION_ID (uint sid) (num_arg CORRELATION_ID (uint cid) (cmd_arg CONNECT))) None"
| "tree (Written cid lid) = Ast RESPONSE
     (num_arg LEASE_ID (uint lid) (num_arg CORRELATION_ID (uint cid) (cmd_arg WRITE))) None"
| "tree (Got destroyed cid n tuple xs) = Ast RESPONSE (num_arg NRESULTS (uint n)
     (num_arg CORRELATION_ID (uint cid) (cmd_arg (if destroyed then TAKE else READ)))) (data_ast tuple xs)"
| "tree (Got_Nothing destroyed cid n) = Ast RESPONSE (num_arg NRESULTS (uint n)
     (num_arg CORRELATION_ID (uint cid) (cmd_arg (if destroyed then TAKE else READ)))) (Some (Ast NONE None None))"
| "tree (Started cid tid) = Ast RESPONSE
     (num_arg TXN_ID (uint tid) (num_arg CORRELATION_ID (uint cid) (cmd_arg TXN))) None"
| "tree (Committed cid) = Ast RESPONSE (num_arg CORRELATION_ID (uint cid) (cmd_arg COMMIT)) None"
| "tree (Cancelled cid) = Ast RESPONSE (num_arg CORRELATION_ID (uint cid) (cmd_arg CANCEL)) None"

lemmas parse_simps = lex_simps lex_text parser_defs tree_defs ast_defs p_data_printable p_data_empty

lemma enlisted_number [lex_simps]:
  "\<not> is_digit d \<Longrightarrow> yylex (dec_int (sint (n :: 32 word)) @ d # s) = push_token (Num (sint n)) (yylex (d # s))"
  using sint_lt [of n] sint_ge [of n] by (intro yylex_number) (simp_all add: int_range_def)

text \<open>What follows the text, such as the end of a line, has no tokens.\<close>

lemma parses:
  assumes "printable_msg j" "yylex rest = (False, [])"
  shows "oejcl_parse (jcl_text j @ rest) = Some (Ast STMT (Some (tree j)) None)"
proof (cases j)
  case (Get remove timeout cid tid tuple xs)
  then show ?thesis using assms by (cases remove) (simp_all add: parse_simps)
next
  case (Got destroyed cid n tuple xs)
  then show ?thesis using assms by (cases destroyed) (simp_all add: parse_simps)
next
  case (Got_Nothing destroyed cid n)
  then show ?thesis using assms by (cases destroyed) (simp_all add: parse_simps)
qed (use assms in \<open>simp_all add: parse_simps enlisted_number\<close>)

section \<open>Decoding\<close>

lemmas decoder_defs = msg_create_def with_decoder_def with_data_def gen_msg_from_dis_stmt_def gen_msg_from_connect_stmt_def
  gen_msg_from_upl_stmt_def gen_msg_from_txn_stmt_def gen_msg_from_upt_stmt_def gen_msg_from_read_stmt_def
  gen_msg_from_write_stmt_def gen_msg_from_write_response_stmt_def gen_msg_from_read_response_stmt_def
  gen_msg_from_txn_response_stmt_def gen_msg_from_commit_response_stmt_def gen_msg_from_cancel_response_stmt_def
  gen_msg_from_connect_response_stmt_def gen_msg_from_error_stmt_def gen_msg_from_response_stmt_def upt_response_args_of_def
  cid_at_def tid_at_def id_at_def to_oe_id_def set_put_data_def set_get_res_data_def set_get_data_def get_data_object_list_def

lemmas set_defs = OekMsg_new_def OekMsg_settype_def OekMsg_set_cid_def OekMsg_set_tid_def OekMsg_get_dis_cmd_def
  OekMsg_get_sta_res_def ConCmd_set_extentname_def ConCmd_set_username_def ConCmd_set_pwd_def UplCmd_set_lid_def
  StaCmd_set_dur_def UptCmd_set_enlisted_def UptCmd_set_status_def PutCmd_set_tuple_def PutCmd_set_data_def PutCmd_set_dur_def
  GetCmd_set_remove_option_def GetCmd_set_max_responses_def GetCmd_set_return_bytes_def GetCmd_set_return_attrs_def
  GetCmd_set_data_objects_def GetCmd_set_tuple_def GetCmd_set_timeout_def join_is_set_def PutRes_set_lease_id_def
  GetRes_set_nresults_def GetRes_set_data_def GetRes_set_destroyed_def GetRes_set_tuple_def UptRes_set_status_def
  ConRes_set_sid_def OekErr_set_message_def OEC_FLAG_SET_def OEC_FLAG_ISSET_def OE_GET_CMD_TUPLE_def OE_GET_CMD_DESTROY_def
  OE_GET_CMD_JOIN_def OE_GET_CMD_RET_ATTRS_def OE_GET_CMD_RET_BYTES_def DESTROYED_def TUPLE_def
  ConCmd_new_def UplCmd_new_def StaCmd_new_def UptCmd_new_def PutCmd_new_def GetCmd_new_def PutRes_new_def GetRes_new_def
  UptRes_new_def ConRes_new_def OekErr_new_def

lemma chain_None [simp]: "chain xs = None \<longleftrightarrow> xs = []"
  by (cases xs) auto

lemma msg_created:
  assumes "printable_msg j"
  shows "msg_create d (tree j) = Inr (Some (message j), d)"
proof (cases j)
  case (Write cid tid dur tuple xs)
  then show ?thesis using assms
    by (cases tuple) (simp_all add: decoder_defs set_defs get_defs tree_defs envelope_def printable_def get_data_object_chain)
next
  case (Get remove timeout cid tid tuple xs)
  then show ?thesis using assms
    by (cases tuple; cases remove)
      (simp_all add: decoder_defs set_defs get_defs tree_defs envelope_def printable_def get_data_object_chain get_flags_def
         DataObjectList_add_def DataObjectList_new_def)
next
  case (Got destroyed cid n tuple xs)
  then show ?thesis using assms
    by (cases tuple; cases destroyed)
      (simp_all add: decoder_defs set_defs get_defs tree_defs envelope_def printable_def get_data_object_chain res_flags_def)
next
  case (Got_Nothing destroyed cid n)
  then show ?thesis using assms
    by (cases destroyed) (simp_all add: decoder_defs set_defs get_defs tree_defs envelope_def res_flags_def)
qed (simp_all add: decoder_defs set_defs get_defs tree_defs envelope_def)

text \<open>The first command of a batch, as \<^verbatim>\<open>OeJclNet_read_msg\<close> asks for it.\<close>

definition first_cmd :: "string \<Rightarrow> OekMsg option c_result" where
  "first_cmd input =
     c_bind (OeJclDecoder_new input) (\<lambda>decoder.
       case decoder of
         None \<Rightarrow> Inr None
       | Some d \<Rightarrow> c_bind (OeJclDecoder_next_cmd d None) (\<lambda>(msg, d'). Inr msg))"

lemma symbols_made: "\<exists>t :: (string, oejcl_ast) table_T. SKeyTable_new 100 = Inr t"
  using ArenaTable_new_ok [where ?hint = 100 and ?cmp = stringcmp and ?hsh = stringhash and ?a = False]
  by (auto simp: SKeyTable_new_def Table_new_def)

lemma tree_no_assign: "nodetype (tree j) \<noteq> ASSIGN"
  by (cases j) auto

lemma first_cmd_message:
  assumes "printable_msg j" "yylex rest = (False, [])"
  shows "first_cmd (jcl_text j @ rest) = Inr (Some (message j))"
proof -
  obtain t :: "(string, oejcl_ast) table_T" where "SKeyTable_new 100 = Inr t" using symbols_made by blast
  then show ?thesis
    by (simp add: first_cmd_def OeJclDecoder_new_def parses [OF assms] OeJclDecoder_next_cmd_def resolve_result_def
        msg_created [OF assms(1)] tree_no_assign Let_def)
qed

end
