(* ===== verification/Net_Conn.thy ===== *)
theory Net_Conn
  imports Values
begin

text \<open>
  Connections: the table of functions of \<^verbatim>\<open>corelib/OeNetConn.c\<close> and its implementation on libevent,
  \<^verbatim>\<open>corelib/OeLibeventConnFactory.c\<close>.

  libevent is not part of the sources.  A value of \<open>'e\<close> is the state of a \<^verbatim>\<open>bufferevent\<close>, and the calls that the code makes
  on it are the fields of a record; what the code relies on is \<open>buffers\<close>, which says that they read and write two byte
  queues.  A function of the table is given the buffer event that the code fetches from the connection.
\<close>

section \<open>libevent\<close>

record 'e libevent =
  evbuffer_get_length :: "'e \<Rightarrow> nat"
  evbuffer_copyout :: "'e \<Rightarrow> nat \<Rightarrow> string"
  bufferevent_read :: "'e \<Rightarrow> nat \<Rightarrow> string \<times> 'e"
  bufferevent_write :: "'e \<Rightarrow> string \<Rightarrow> int \<times> 'e"

text \<open>The bytes received and not read yet, and the bytes handed over for sending.\<close>

definition buffers :: "'e libevent \<Rightarrow> ('e \<Rightarrow> string) \<Rightarrow> ('e \<Rightarrow> string) \<Rightarrow> bool" where
  "buffers ev received sent =
     (\<forall>e n s. evbuffer_get_length ev e = length (received e) \<and>
        evbuffer_copyout ev e n = take n (received e) \<and>
        fst (bufferevent_read ev e n) = take n (received e) \<and>
        received (snd (bufferevent_read ev e n)) = drop n (received e) \<and>
        sent (snd (bufferevent_read ev e n)) = sent e \<and>
        fst (bufferevent_write ev e s) = 0 \<and>
        sent (snd (bufferevent_write ev e s)) = sent e @ s \<and>
        received (snd (bufferevent_write ev e s)) = received e)"

section \<open>The table of functions\<close>

record 'e OeNetConn =
  get_pos_fun :: "'e \<Rightarrow> string \<Rightarrow> int c_result"
  available_fun :: "'e \<Rightarrow> nat"
  read_fun :: "'e \<Rightarrow> nat \<Rightarrow> string \<times> 'e"
  write_fun :: "'e \<Rightarrow> string \<Rightarrow> int \<times> 'e"
  peek_fun :: "'e \<Rightarrow> int \<Rightarrow> int \<Rightarrow> string c_result"
  conn_obj :: 'e
  timeout :: "nat option"

definition OeNetConn_get_pos :: "'e OeNetConn \<Rightarrow> string \<Rightarrow> int c_result" where
  "OeNetConn_get_pos conn needle = get_pos_fun conn (conn_obj conn) needle"

definition OeNetConn_available :: "'e OeNetConn \<Rightarrow> nat" where
  "OeNetConn_available conn = available_fun conn (conn_obj conn)"

definition OeNetConn_read :: "'e OeNetConn \<Rightarrow> nat \<Rightarrow> string \<times> 'e OeNetConn" where
  "OeNetConn_read conn sz = (let (s, e) = read_fun conn (conn_obj conn) sz in (s, conn\<lparr>conn_obj := e\<rparr>))"

definition OeNetConn_write :: "'e OeNetConn \<Rightarrow> string \<Rightarrow> int \<times> 'e OeNetConn" where
  "OeNetConn_write conn buffer = (let (rc, e) = write_fun conn (conn_obj conn) buffer in (rc, conn\<lparr>conn_obj := e\<rparr>))"

definition OeNetConn_peek :: "'e OeNetConn \<Rightarrow> int \<Rightarrow> int \<Rightarrow> string c_result" where
  "OeNetConn_peek conn pos len = peek_fun conn (conn_obj conn) pos len"

definition OeNetConn_clear_timeout :: "'e OeNetConn \<Rightarrow> 'e OeNetConn" where
  "OeNetConn_clear_timeout conn = conn\<lparr>timeout := None\<rparr>"

definition oenetconn_set_conn_obj :: "'e OeNetConn \<Rightarrow> 'e \<Rightarrow> 'e OeNetConn" where
  "oenetconn_set_conn_obj conn e = conn\<lparr>conn_obj := e\<rparr>"

definition oenetconn_set_timeout :: "'e OeNetConn \<Rightarrow> nat \<Rightarrow> 'e OeNetConn" where
  "oenetconn_set_timeout conn t = conn\<lparr>timeout := Some t\<rparr>"

definition oenetconn_get_timeout :: "'e OeNetConn \<Rightarrow> nat option" where
  "oenetconn_get_timeout conn = timeout conn"

section \<open>The implementation on libevent\<close>

text \<open>
  \<^verbatim>\<open>_peek\<close> copies out the first \<^verbatim>\<open>pos + len\<close> bytes into an array on the stack, whose bytes are \<open>stack\<close> before, and
  returns the last \<^verbatim>\<open>len\<close> of them.  A negative length becomes a size no block has.
\<close>

definition peek_bytes :: "'e libevent \<Rightarrow> (nat \<Rightarrow> char) \<Rightarrow> 'e \<Rightarrow> int \<Rightarrow> int \<Rightarrow> string c_result" where
  "peek_bytes ev stack e pos len0 =
     (if len0 < 0 \<or> pos < 0 then Inl Out_Of_Bounds
      else let len = (if len0 = 0 then evbuffer_get_length ev e else nat len0);
               tsz = nat pos + len;
               copied = evbuffer_copyout ev e tsz;
               tmp = copied @ map stack [length copied ..< tsz]
           in Inr (take len (drop (nat pos) tmp)))"

definition get_pos :: "'e libevent \<Rightarrow> (nat \<Rightarrow> char) \<Rightarrow> 'e \<Rightarrow> string \<Rightarrow> int c_result" where
  "get_pos ev stack e needle =
     c_bind (peek_bytes ev stack e 0 0) (\<lambda>tmp.
       let blen = evbuffer_get_length ev e in
       Inr (case oe_memmem (take blen tmp) needle of None \<Rightarrow> - 1 | Some i \<Rightarrow> int i))"

definition available :: "'e libevent \<Rightarrow> 'e \<Rightarrow> nat" where
  "available ev e = evbuffer_get_length ev e"

definition conn_read :: "'e libevent \<Rightarrow> 'e \<Rightarrow> nat \<Rightarrow> string \<times> 'e" where
  "conn_read ev e sz = bufferevent_read ev e sz"

definition conn_write :: "'e libevent \<Rightarrow> 'e \<Rightarrow> string \<Rightarrow> int \<times> 'e" where
  "conn_write ev e buffer = bufferevent_write ev e buffer"

definition OeLibeventConnFactory_create :: "'e libevent \<Rightarrow> (nat \<Rightarrow> char) \<Rightarrow> 'e \<Rightarrow> 'e OeNetConn" where
  "OeLibeventConnFactory_create ev stack e =
     \<lparr>get_pos_fun = get_pos ev stack, available_fun = available ev, read_fun = conn_read ev,
      write_fun = conn_write ev, peek_fun = peek_bytes ev stack, conn_obj = e, timeout = None\<rparr>"

section \<open>What a connection does\<close>

lemmas conn_defs = OeNetConn_get_pos_def OeNetConn_available_def OeNetConn_read_def OeNetConn_write_def OeNetConn_peek_def
  OeLibeventConnFactory_create_def get_pos_def available_def conn_read_def conn_write_def peek_bytes_def

text \<open>A connection of the factory, whatever has happened to it since: its buffer event, and a pending timeout.\<close>

definition made_by :: "'e libevent \<Rightarrow> (nat \<Rightarrow> char) \<Rightarrow> 'e OeNetConn \<Rightarrow> bool" where
  "made_by ev stack conn =
     (get_pos_fun conn = get_pos ev stack \<and> available_fun conn = available ev \<and> read_fun conn = conn_read ev \<and>
      write_fun conn = conn_write ev \<and> peek_fun conn = peek_bytes ev stack)"

lemma made_by_create: "made_by ev stack (OeLibeventConnFactory_create ev stack e)"
  by (auto simp: made_by_def OeLibeventConnFactory_create_def)

lemma made_by_set: "made_by ev stack conn \<Longrightarrow> made_by ev stack (conn\<lparr>conn_obj := e\<rparr>)"
  by (simp add: made_by_def)

lemma buffersD:
  assumes "buffers ev received sent"
  shows "evbuffer_get_length ev e = length (received e)"
    "evbuffer_copyout ev e n = take n (received e)"
    "fst (bufferevent_read ev e n) = take n (received e)"
    "received (snd (bufferevent_read ev e n)) = drop n (received e)"
    "sent (snd (bufferevent_read ev e n)) = sent e"
    "fst (bufferevent_write ev e s) = 0"
    "sent (snd (bufferevent_write ev e s)) = sent e @ s"
    "received (snd (bufferevent_write ev e s)) = received e"
  using assms by (simp_all add: buffers_def)

lemma get_pos_buffers:
  assumes "buffers ev received sent" "made_by ev stack conn"
  shows "OeNetConn_get_pos conn needle =
    Inr (case oe_memmem (received (conn_obj conn)) needle of None \<Rightarrow> - 1 | Some i \<Rightarrow> int i)"
  using assms by (simp add: conn_defs made_by_def buffersD Let_def)

lemma available_buffers:
  "buffers ev received sent \<Longrightarrow> made_by ev stack conn \<Longrightarrow> OeNetConn_available conn = length (received (conn_obj conn))"
  by (simp add: conn_defs made_by_def buffersD)

lemma read_buffers:
  assumes "buffers ev received sent" "made_by ev stack conn"
  obtains conn' where "OeNetConn_read conn n = (take n (received (conn_obj conn)), conn')" "made_by ev stack conn'"
    "received (conn_obj conn') = drop n (received (conn_obj conn))" "sent (conn_obj conn') = sent (conn_obj conn)"
proof -
  let ?r = "bufferevent_read ev (conn_obj conn) n"
  have "OeNetConn_read conn n = (fst ?r, conn\<lparr>conn_obj := snd ?r\<rparr>)"
    by (simp add: conn_defs made_by_def [THEN iffD1, OF assms(2)] split_beta)
  then show ?thesis
    using that [of "conn\<lparr>conn_obj := snd ?r\<rparr>"] assms by (simp add: buffersD made_by_set)
qed

lemma write_buffers:
  assumes "buffers ev received sent" "made_by ev stack conn"
  obtains conn' where "OeNetConn_write conn s = (0, conn')" "made_by ev stack conn'"
    "sent (conn_obj conn') = sent (conn_obj conn) @ s" "received (conn_obj conn') = received (conn_obj conn)"
proof -
  let ?w = "bufferevent_write ev (conn_obj conn) s"
  have "OeNetConn_write conn s = (fst ?w, conn\<lparr>conn_obj := snd ?w\<rparr>)"
    by (simp add: conn_defs made_by_def [THEN iffD1, OF assms(2)] split_beta)
  then show ?thesis
    using that [of "conn\<lparr>conn_obj := snd ?w\<rparr>"] assms by (simp add: buffersD made_by_set)
qed

text \<open>Two byte queues are such a buffer event.\<close>

definition queue_events :: "(string \<times> string) libevent" where
  "queue_events = \<lparr>evbuffer_get_length = (\<lambda>e. length (fst e)), evbuffer_copyout = (\<lambda>e n. take n (fst e)),
     bufferevent_read = (\<lambda>e n. (take n (fst e), (drop n (fst e), snd e))),
     bufferevent_write = (\<lambda>e s. (0, (fst e, snd e @ s)))\<rparr>"

lemma queue_buffers: "buffers queue_events fst snd"
  by (simp add: buffers_def queue_events_def)

end
