(* ===== verification/Session.thy ===== *)
theory Session
  imports Hash_Set Net_Conn
begin

text \<open>
  Sessions (\<^verbatim>\<open>corelib/OeSession.c\<close>, \<^verbatim>\<open>OeSession.h\<close>) and the identifiers that a network gives them (\<^verbatim>\<open>corelib/OeNet.c\<close>).

  A session belongs to one connection.  The type \<open>'k\<close> is what the server keeps for the whole session (its kernel), \<open>'c\<close> what
  it keeps between partial reads (the context of the next command) and \<open>'s\<close> the subject that has logged in.
\<close>

section \<open>Identifiers of sessions\<close>

record 'g OeNet =
  net_name :: "oe_scalar option"
  net_create_id :: "('g \<Rightarrow> oe_id \<times> 'g) option"
  net_create_id_arg :: 'g
  net_lastid :: oe_id
  net_sessions :: Oec_IdSet

definition OeNet_new :: "'g \<Rightarrow> 'g OeNet c_result" where
  "OeNet_new arg =
     c_bind (Oec_IdSet_new 100) (\<lambda>sessions.
       Inr \<lparr>net_name = None, net_create_id = None, net_create_id_arg = arg, net_lastid = 0, net_sessions = sessions\<rparr>)"

definition OeNet_set_idgen :: "'g OeNet \<Rightarrow> ('g \<Rightarrow> oe_id \<times> 'g) option \<Rightarrow> 'g \<Rightarrow> 'g OeNet c_result" where
  "OeNet_set_idgen net idfun arg =
     (if net_create_id net \<noteq> None then Inl Assert_Failed
      else Inr (net\<lparr>net_create_id := idfun, net_create_id_arg := arg\<rparr>))"

definition OeNet_create_id :: "'g OeNet \<Rightarrow> oe_id \<times> 'g OeNet" where
  "OeNet_create_id net =
     (case net_create_id net of
        Some f \<Rightarrow> let (i, g) = f (net_create_id_arg net) in (i, net\<lparr>net_create_id_arg := g\<rparr>)
      | None \<Rightarrow> (net_lastid net + 1, net\<lparr>net_lastid := net_lastid net + 1\<rparr>))"

definition OeNet_get_sessions :: "'g OeNet \<Rightarrow> Oec_IdSet" where
  "OeNet_get_sessions net = net_sessions net"

definition OeNet_set_name :: "'g OeNet \<Rightarrow> oe_scalar \<Rightarrow> 'g OeNet" where
  "OeNet_set_name net name = net\<lparr>net_name := Some name\<rparr>"

definition OeNet_get_name :: "'g OeNet \<Rightarrow> oe_scalar option" where
  "OeNet_get_name net = net_name net"

section \<open>Sessions\<close>

definition OENET_CLIENT_CLOSING :: oe_flags where
  "OENET_CLIENT_CLOSING = 2"

definition OENET_CLIENT_CONNECTED :: oe_flags where
  "OENET_CLIENT_CONNECTED = 4"

record ('e, 'k, 'c, 's) OeSession =
  s_sid :: oe_id
  s_start_time :: oe_time
  s_conn :: "'e OeNetConn"
  s_state :: oe_flags
  s_sess_context :: "'k option"
  s_appl_context :: "'c option"
  s_subject :: "'s option"
  s_rb_on_dis :: bool
  s_outstanding_task_count :: "32 word"
  s_pending_txns :: "64 word set_T option"

definition oesession_new :: "'e OeNetConn \<Rightarrow> oe_time \<Rightarrow> ('e, 'k, 'c, 's) OeSession" where
  "oesession_new conn now =
     \<lparr>s_sid = 0, s_start_time = now, s_conn = conn, s_state = 0, s_sess_context = None, s_appl_context = None,
      s_subject = None, s_rb_on_dis = False, s_outstanding_task_count = 0, s_pending_txns = None\<rparr>"

definition OeSession_get_conn :: "('e, 'k, 'c, 's) OeSession \<Rightarrow> 'e OeNetConn" where
  "OeSession_get_conn s = s_conn s"

definition OeSession_get_starttime :: "('e, 'k, 'c, 's) OeSession \<Rightarrow> oe_time" where
  "OeSession_get_starttime s = s_start_time s"

definition OeSession_state_is_set :: "('e, 'k, 'c, 's) OeSession \<Rightarrow> oe_flags \<Rightarrow> bool" where
  "OeSession_state_is_set s flag = OEC_FLAG_ISSET (s_state s) flag"

definition OeSession_state_clear :: "('e, 'k, 'c, 's) OeSession \<Rightarrow> oe_flags \<Rightarrow> ('e, 'k, 'c, 's) OeSession" where
  "OeSession_state_clear s flag = s\<lparr>s_state := OEC_FLAG_CLEAR (s_state s) flag\<rparr>"

definition OeSession_state_set :: "('e, 'k, 'c, 's) OeSession \<Rightarrow> oe_flags \<Rightarrow> ('e, 'k, 'c, 's) OeSession" where
  "OeSession_state_set s flag = s\<lparr>s_state := OEC_FLAG_SET (s_state s) flag\<rparr>"

definition OeSession_set_appl_context :: "('e, 'k, 'c, 's) OeSession \<Rightarrow> 'c option \<Rightarrow> ('e, 'k, 'c, 's) OeSession" where
  "OeSession_set_appl_context s c = s\<lparr>s_appl_context := c\<rparr>"

definition OeSession_get_appl_context :: "('e, 'k, 'c, 's) OeSession \<Rightarrow> 'c option" where
  "OeSession_get_appl_context s = s_appl_context s"

definition OeSession_set_sess_context :: "('e, 'k, 'c, 's) OeSession \<Rightarrow> 'k option \<Rightarrow> ('e, 'k, 'c, 's) OeSession" where
  "OeSession_set_sess_context s k = s\<lparr>s_sess_context := k\<rparr>"

definition OeSession_get_sess_context :: "('e, 'k, 'c, 's) OeSession \<Rightarrow> 'k option" where
  "OeSession_get_sess_context s = s_sess_context s"

definition OeSession_set_subject :: "('e, 'k, 'c, 's) OeSession \<Rightarrow> 's option \<Rightarrow> ('e, 'k, 'c, 's) OeSession" where
  "OeSession_set_subject s subject = s\<lparr>s_subject := subject\<rparr>"

definition OeSession_get_subject :: "('e, 'k, 'c, 's) OeSession \<Rightarrow> 's option" where
  "OeSession_get_subject s = s_subject s"

definition OeSession_set_id :: "('e, 'k, 'c, 's) OeSession \<Rightarrow> oe_id \<Rightarrow> ('e, 'k, 'c, 's) OeSession" where
  "OeSession_set_id s sid = s\<lparr>s_sid := sid\<rparr>"

definition OeSession_get_id :: "('e, 'k, 'c, 's) OeSession \<Rightarrow> oe_id" where
  "OeSession_get_id s = s_sid s"

definition OeSession_set_rb_on_disconnect :: "('e, 'k, 'c, 's) OeSession \<Rightarrow> ('e, 'k, 'c, 's) OeSession" where
  "OeSession_set_rb_on_disconnect s = s\<lparr>s_rb_on_dis := True\<rparr>"

definition OeSession_rb_on_disconnect :: "('e, 'k, 'c, 's) OeSession \<Rightarrow> bool" where
  "OeSession_rb_on_disconnect s = s_rb_on_dis s"

text \<open>The count is an \<^verbatim>\<open>int\<close>: stepping past its ends is undefined.\<close>

definition OeSession_incr_task_count :: "('e, 'k, 'c, 's) OeSession \<Rightarrow> (32 word \<times> ('e, 'k, 'c, 's) OeSession) c_result" where
  "OeSession_incr_task_count s =
     (if sint (s_outstanding_task_count s) = 2 ^ 31 - 1 then Inl Int_Overflow
      else let n = s_outstanding_task_count s + 1 in Inr (n, s\<lparr>s_outstanding_task_count := n\<rparr>))"

definition OeSession_decr_task_count :: "('e, 'k, 'c, 's) OeSession \<Rightarrow> (32 word \<times> ('e, 'k, 'c, 's) OeSession) c_result" where
  "OeSession_decr_task_count s =
     (if sint (s_outstanding_task_count s) = - (2 ^ 31) then Inl Int_Overflow
      else let n = s_outstanding_task_count s - 1 in Inr (n, s\<lparr>s_outstanding_task_count := n\<rparr>))"

definition OeSession_get_task_count :: "('e, 'k, 'c, 's) OeSession \<Rightarrow> 32 word" where
  "OeSession_get_task_count s = s_outstanding_task_count s"

text \<open>A transaction identifier is stored as a pointer value, and 0 is NULL.\<close>

definition OeSession_save_tid :: "('e, 'k, 'c, 's) OeSession \<Rightarrow> oe_id \<Rightarrow> ('e, 'k, 'c, 's) OeSession c_result" where
  "OeSession_save_tid s tid =
     c_bind (case s_pending_txns s of None \<Rightarrow> Set_new 1 cmpatom hashatom | Some t \<Rightarrow> Inr t) (\<lambda>txns.
       if tid = 0 then Inl Assert_Failed else Inr (s\<lparr>s_pending_txns := Some (Set_put txns tid)\<rparr>))"

definition OeSession_clear_tid :: "('e, 'k, 'c, 's) OeSession \<Rightarrow> oe_id \<Rightarrow> (oe_id \<times> ('e, 'k, 'c, 's) OeSession) c_result" where
  "OeSession_clear_tid s tid =
     (case s_pending_txns s of
        None \<Rightarrow> Inr (0, s)
      | Some txns \<Rightarrow>
          if tid = 0 then Inl Assert_Failed
          else let (r, txns') = Set_remove txns tid
               in Inr (case r of None \<Rightarrow> 0 | Some x \<Rightarrow> x, s\<lparr>s_pending_txns := Some txns'\<rparr>))"

definition OeSession_get_tids :: "('e, 'k, 'c, 's) OeSession \<Rightarrow> 64 word set_T option" where
  "OeSession_get_tids s = s_pending_txns s"

section \<open>Flags and pending transactions\<close>

lemma state_flags:
  "OeSession_state_is_set (OeSession_state_set s OENET_CLIENT_CONNECTED) OENET_CLIENT_CONNECTED"
  "OeSession_state_is_set (OeSession_state_set s OENET_CLIENT_CLOSING) OENET_CLIENT_CLOSING"
  "OeSession_state_is_set (OeSession_state_set s OENET_CLIENT_CLOSING) OENET_CLIENT_CONNECTED =
     OeSession_state_is_set s OENET_CLIENT_CONNECTED"
  "\<not> OeSession_state_is_set (OeSession_state_clear s OENET_CLIENT_CONNECTED) OENET_CLIENT_CONNECTED"
  using FLAG_ISSET_exp [of _ 2] FLAG_ISSET_exp [of _ 1] FLAG_SET_exp [of 2] FLAG_SET_exp [of 1] FLAG_CLEAR_exp [of 2]
  by (simp_all add: OeSession_state_is_set_def OeSession_state_set_def OeSession_state_clear_def
      OENET_CLIENT_CONNECTED_def OENET_CLIENT_CLOSING_def)

text \<open>Away from its ends the count steps like a number.\<close>

lemma sint_incr: "sint (n :: 32 word) \<noteq> 2 ^ 31 - 1 \<Longrightarrow> sint (n + 1) = sint n + 1"
  using sint_range_size [of n] by (simp add: sint_word_ariths word_size signed_take_bit_int_eq_self_iff)

lemma sint_decr: "sint (n :: 32 word) \<noteq> - (2 ^ 31) \<Longrightarrow> sint (n - 1) = sint n - 1"
  using sint_range_size [of n] by (simp add: sint_word_ariths word_size signed_take_bit_int_eq_self_iff)

definition tids :: "('e, 'k, 'c, 's) OeSession \<Rightarrow> oe_id set" where
  "tids s = (case s_pending_txns s of None \<Rightarrow> {} | Some t \<Rightarrow> set (Set_toArray t))"

definition txns_ok :: "('e, 'k, 'c, 's) OeSession \<Rightarrow> bool" where
  "txns_ok s = (case s_pending_txns s of None \<Rightarrow> True | Some t \<Rightarrow> atom.good t \<and> 0 \<notin> set (Set_toArray t))"

lemma save_tid_ok:
  assumes "txns_ok s" "tid \<noteq> 0"
  shows "\<exists>s'. OeSession_save_tid s tid = Inr s' \<and> txns_ok s' \<and> tids s' = insert tid (tids s) \<and>
    s' = s\<lparr>s_pending_txns := s_pending_txns s'\<rparr>"
proof -
  obtain t where t: "(case s_pending_txns s of None \<Rightarrow> Set_new 1 cmpatom hashatom | Some t \<Rightarrow> Inr t) = Inr t"
      "atom.good t" "set (Set_toArray t) = tids s" "0 \<notin> tids s"
    using assms(1) atom.Set_new_good [of 1] by (cases "s_pending_txns s") (auto simp: txns_ok_def tids_def)
  note p = atom.Set_put_spec [OF atom.goodD [OF t(2)], of tid]
  have "atom.good (Set_put t tid)" using p t(2) by (auto simp: atom.good_def)
  moreover have "set (Set_toArray (Set_put t tid)) = insert tid (tids s)" using p t(3) by auto
  ultimately show ?thesis using t(1,4) assms(2) by (simp add: OeSession_save_tid_def txns_ok_def tids_def)
qed

lemma clear_tid_ok:
  assumes "txns_ok s" "tid \<noteq> 0"
  shows "\<exists>r s'. OeSession_clear_tid s tid = Inr (r, s') \<and> txns_ok s' \<and> tids s' = tids s - {tid} \<and>
    r = (if tid \<in> tids s then tid else 0) \<and> s' = s\<lparr>s_pending_txns := s_pending_txns s'\<rparr>"
proof (cases "s_pending_txns s")
  case None
  then show ?thesis using assms by (simp add: OeSession_clear_tid_def tids_def)
next
  case (Some t)
  have g: "atom.good t" "0 \<notin> set (Set_toArray t)" using assms(1) Some by (simp_all add: txns_ok_def)
  obtain r t' where rm: "Set_remove t tid = (r, t')" by (cases "Set_remove t tid")
  note q = atom.Set_remove_spec [OF atom.goodD [OF g(1)] rm] and o = Set_remove_ops [OF rm]
  have arr: "set (Set_toArray t') = set (Set_toArray t) - {tid}" using q(1) by auto
  have "atom.good t'" using q(1) o g(1) by (auto simp: atom.good_def)
  moreover have "(case r of None \<Rightarrow> 0 | Some x \<Rightarrow> x) = (if tid \<in> set (Set_toArray t) then tid else 0)"
    using q(2) by (auto split: option.splits)
  ultimately show ?thesis
    using Some rm arr g assms(2) by (auto simp: OeSession_clear_tid_def txns_ok_def tids_def)
qed

end
