(* ===== verification/Jcl_Net.thy ===== *)
theory Jcl_Net
  imports Jcl_Roundtrip Session
begin

text \<open>
  Messages of the command language on a connection (\<^verbatim>\<open>corelib/OeJclNet.c\<close>): each text is followed by an empty line, and a
  reader waits until it has seen one.  A client looks for the correlation identifier of a response before it reads it.
\<close>

definition MSG_END_BYTES :: string where
  "MSG_END_BYTES = [CHR 0x0A, CHR 0x0A]"

text \<open>The result code, the message, and the session: 0 is \<^emph>\<open>nothing yet\<close>, 1 a message and \<open>-1\<close> a text that cannot be parsed.\<close>

definition OeJclNet_read_msg ::
  "('e, 'k, 'c, 's) OeSession \<Rightarrow> (int \<times> OekMsg option \<times> ('e, 'k, 'c, 's) OeSession) c_result" where
  "OeJclNet_read_msg client =
     (let conn = OeSession_get_conn client in
      if OeNetConn_available conn = 0 then Inr (0, None, client)
      else c_bind (OeNetConn_get_pos conn MSG_END_BYTES) (\<lambda>pos.
        if pos < 0 then Inr (0, None, client)
        else let (input, conn') = OeNetConn_read conn (nat pos + 2); client' = client\<lparr>s_conn := conn'\<rparr>
             in c_bind (first_cmd (takeWhile (\<lambda>c. c \<noteq> NUL) input)) (\<lambda>msg.
                  Inr (if msg = None then - 1 else 1, msg, client'))))"

definition OeJclNet_write_msg ::
  "('e, 'k, 'c, 's) OeSession \<Rightarrow> OekMsg \<Rightarrow> (int \<times> ('e, 'k, 'c, 's) OeSession) c_result" where
  "OeJclNet_write_msg client msg =
     c_bind (OeJclEncoder_msg_serialize msg) (\<lambda>buff.
       case buff of
         None \<Rightarrow> Inr (- 1, client)
       | Some b \<Rightarrow>
           let (rc1, conn1) = OeNetConn_write (OeSession_get_conn client) b in
           if rc1 \<noteq> 0 then Inl Assert_Failed
           else let (rc2, conn2) = OeNetConn_write conn1 MSG_END_BYTES in
                if rc2 \<noteq> 0 then Inl Assert_Failed else Inr (rc2, client\<lparr>s_conn := conn2\<rparr>))"

text \<open>\<^verbatim>\<open>atol\<close>: blanks, a sign and digits, and the nearest \<^verbatim>\<open>long\<close>.\<close>

definition atol :: "string \<Rightarrow> 64 word" where
  "atol s =
     (let t = dropWhile isspace s;
          neg = (t \<noteq> [] \<and> hd t = CHR ''-'');
          u = (if t \<noteq> [] \<and> (hd t = CHR ''-'' \<or> hd t = CHR ''+'') then tl t else t);
          n = int (digits_val 0 (takeWhile is_digit u))
      in word_of_int (max (- (2 ^ 63)) (min (2 ^ 63 - 1) (if neg then - n else n))))"

definition CID_TAG :: string where
  "CID_TAG = ''cid=''"

definition OeJclNet_peek_cid :: "('e, 'k, 'c, 's) OeSession \<Rightarrow> (int \<times> oe_id option) c_result" where
  "OeJclNet_peek_cid client =
     (let conn = OeSession_get_conn client; avail = int (OeNetConn_available conn) in
      c_bind (OeNetConn_get_pos conn CID_TAG) (\<lambda>pos.
        if pos < 0
        then Inr (if OeSession_state_is_set client OENET_CLIENT_CONNECTED then (0, None) else (1, Some 1))
        else let lpos = pos + 4; llen0 = lpos + 8; llen = (if llen0 < avail then llen0 else avail - lpos - 1)
             in c_bind (OeNetConn_peek conn lpos llen) (\<lambda>peekdata.
                  Inr (1, Some (atol (takeWhile (\<lambda>c. c \<noteq> NUL) peekdata))))))"

section \<open>The end of a message\<close>

text \<open>A text that fits on one line: an empty line inside it would end the message.\<close>

definition framed :: "string \<Rightarrow> bool" where
  "framed s = (CHR 0x0A \<notin> set s \<and> is_cstring s)"

lemma memchr_append: "c \<notin> set t \<Longrightarrow> memchr (t @ c # s) c = Some (length t)"
  by (induction t) auto

lemma find_end: "CHR 0x0A \<notin> set t \<Longrightarrow> oe_memmem (t @ MSG_END_BYTES @ rest) MSG_END_BYTES = Some (length t)"
  unfolding oe_memmem.simps [of "t @ MSG_END_BYTES @ rest"] by (simp add: MSG_END_BYTES_def memchr_append)

lemma find_no_end:
  assumes "CHR 0x0A \<notin> set t" "n < length (t @ MSG_END_BYTES)"
  shows "oe_memmem (take n (t @ MSG_END_BYTES)) MSG_END_BYTES = None"
proof (cases "n \<le> length t")
  case True
  then have "CHR 0x0A \<notin> set (take n t)" using assms(1) by (auto dest: in_set_takeD)
  then have "memchr (take n t) (CHR 0x0A) = None" by (simp add: memchr_None)
  then have "oe_memmem (take n t) MSG_END_BYTES = None"
    unfolding oe_memmem.simps [of "take n t"] by (simp add: MSG_END_BYTES_def)
  then show ?thesis using True by simp
next
  case False
  then have "n = Suc (length t)" using assms(2) by (simp add: MSG_END_BYTES_def)
  then have e: "take n (t @ MSG_END_BYTES) = t @ [CHR 0x0A]" by (simp add: MSG_END_BYTES_def)
  show ?thesis
    unfolding e oe_memmem.simps [of "t @ [CHR 0x0A]"] using assms(1) by (simp add: MSG_END_BYTES_def memchr_append)
qed

lemma yylex_end: "yylex MSG_END_BYTES = (False, [])"
  by (simp add: MSG_END_BYTES_def lex_text)

lemma framed_simps [simp]:
  "framed []" "framed (c # s) \<longleftrightarrow> c \<noteq> CHR 0x0A \<and> c \<noteq> NUL \<and> framed s" "framed (s @ t) \<longleftrightarrow> framed s \<and> framed t"
  by (auto simp: framed_def is_cstring_def)

lemma framed_dec_int [simp]: "framed (dec_int n)"
  using dec_nat_digits [of "CHR 0x0A"] is_cstring_dec_nat
  by (auto simp: framed_def dec_int_def is_cstring_def NUL_def is_digit_def)

lemma framed_lld [simp]: "framed (lld w)"
  by (simp add: lld_def)

section \<open>Round trip\<close>

abbreviation on_conn :: "('e \<Rightarrow> string) \<Rightarrow> ('e, 'k, 'c, 's) OeSession \<Rightarrow> string" where
  "on_conn f client \<equiv> f (conn_obj (s_conn client))"

lemma write_msg_sends:
  assumes ev: "buffers ev received sent" "made_by ev stack (s_conn a)" and j: "printable_msg j"
  shows "\<exists>a'. OeJclNet_write_msg a (message j) = Inr (0, a') \<and> made_by ev stack (s_conn a') \<and>
    on_conn sent a' = on_conn sent a @ jcl_text j @ MSG_END_BYTES \<and> on_conn received a' = on_conn received a"
proof -
  obtain c1 where c1: "OeNetConn_write (s_conn a) (jcl_text j) = (0, c1)" "made_by ev stack c1"
      "sent (conn_obj c1) = on_conn sent a @ jcl_text j" "received (conn_obj c1) = on_conn received a"
    by (rule write_buffers [OF ev])
  obtain c2 where c2: "OeNetConn_write c1 MSG_END_BYTES = (0, c2)" "made_by ev stack c2"
      "sent (conn_obj c2) = sent (conn_obj c1) @ MSG_END_BYTES" "received (conn_obj c2) = received (conn_obj c1)"
    by (rule write_buffers [OF ev(1) c1(2)])
  show ?thesis using c1 c2 by (simp add: OeJclNet_write_msg_def encodes [OF j] OeSession_get_conn_def)
qed

lemma read_msg_gets:
  assumes ev: "buffers ev received sent" "made_by ev stack (s_conn b)"
    and j: "printable_msg j" "framed (jcl_text j)" and r: "on_conn received b = jcl_text j @ MSG_END_BYTES @ rest"
  shows "\<exists>b'. OeJclNet_read_msg b = Inr (1, Some (message j), b') \<and> made_by ev stack (s_conn b') \<and>
    on_conn received b' = rest \<and> on_conn sent b' = on_conn sent b \<and> b' = b\<lparr>s_conn := s_conn b'\<rparr>"
proof -
  let ?n = "length (jcl_text j) + 2"
  obtain c where c: "OeNetConn_read (s_conn b) ?n = (take ?n (on_conn received b), c)" "made_by ev stack c"
      "received (conn_obj c) = drop ?n (on_conn received b)" "sent (conn_obj c) = on_conn sent b"
    by (rule read_buffers [OF ev])
  have "OeNetConn_get_pos (s_conn b) MSG_END_BYTES = Inr (int (length (jcl_text j)))"
    using j(2) by (simp add: get_pos_buffers [OF ev] r find_end framed_def)
  moreover have "OeNetConn_available (s_conn b) \<noteq> 0"
    by (simp add: available_buffers [OF ev] r MSG_END_BYTES_def)
  moreover have "take ?n (on_conn received b) = jcl_text j @ MSG_END_BYTES" "drop ?n (on_conn received b) = rest"
    by (simp_all add: r MSG_END_BYTES_def)
  moreover have "takeWhile (\<lambda>c. c \<noteq> NUL) (jcl_text j @ MSG_END_BYTES) = jcl_text j @ MSG_END_BYTES"
    using j(2) by (auto simp: framed_def is_cstring_def MSG_END_BYTES_def NUL_def takeWhile_eq_all_conv)
  ultimately show ?thesis
    using c by (simp add: OeJclNet_read_msg_def OeSession_get_conn_def first_cmd_message [OF j(1) yylex_end]
        del: takeWhile_eq_all_conv takeWhile_append)
qed

lemma read_msg_waits:
  assumes ev: "buffers ev received sent" "made_by ev stack (s_conn b)"
    and j: "framed (jcl_text j)" and n: "n < length (jcl_text j @ MSG_END_BYTES)"
    and r: "on_conn received b = take n (jcl_text j @ MSG_END_BYTES)"
  shows "OeJclNet_read_msg b = Inr (0, None, b)"
  using find_no_end [OF _ n] j
  by (auto simp: OeJclNet_read_msg_def OeSession_get_conn_def get_pos_buffers [OF ev] r framed_def Let_def)

text \<open>C10: a message that JCL can carry (numbers an \<^verbatim>\<open>int\<close> holds, texts without quotes, backslashes and line ends, data that is
  not empty) arrives as it was sent: writing it puts a text on the connection from which the reader gets exactly this message,
  leaving the bytes behind it; and as long as only a part of the text has arrived, the reader takes nothing.\<close>

theorem jcl_roundtrip:
  assumes "buffers ev received sent" "made_by ev stack (s_conn a)" "printable_msg j" "framed (jcl_text j)"
  shows "\<exists>a' w. OeJclNet_write_msg a (message j) = Inr (0, a') \<and> on_conn sent a' = on_conn sent a @ w \<and>
    (\<forall>b rest. made_by ev stack (s_conn b) \<longrightarrow> on_conn received b = w @ rest \<longrightarrow>
       (\<exists>b'. OeJclNet_read_msg b = Inr (1, Some (message j), b') \<and> on_conn received b' = rest)) \<and>
    (\<forall>b n. made_by ev stack (s_conn b) \<longrightarrow> n < length w \<longrightarrow> on_conn received b = take n w \<longrightarrow>
       OeJclNet_read_msg b = Inr (0, None, b))"
proof -
  obtain a' where a': "OeJclNet_write_msg a (message j) = Inr (0, a')"
      "on_conn sent a' = on_conn sent a @ jcl_text j @ MSG_END_BYTES"
    using write_msg_sends [OF assms(1-3)] by blast
  have "\<exists>b'. OeJclNet_read_msg b = Inr (1, Some (message j), b') \<and> on_conn received b' = rest"
    if "made_by ev stack (s_conn b)" "on_conn received b = (jcl_text j @ MSG_END_BYTES) @ rest" for b rest
    using read_msg_gets [OF assms(1) that(1) assms(3,4)] that(2) by fastforce
  then show ?thesis
    using a' read_msg_waits [OF assms(1) _ assms(4)]
    by (intro exI [of _ a'] exI [of _ "jcl_text j @ MSG_END_BYTES"]) blast
qed

text \<open>A session on two byte queues.\<close>

definition queue_session :: "string \<Rightarrow> (string \<times> string, nat, nat, nat) OeSession" where
  "queue_session input = oesession_new (OeLibeventConnFactory_create queue_events (\<lambda>_. NUL) (input, [])) 0"

lemma queue_session_made: "made_by queue_events (\<lambda>_. NUL) (s_conn (queue_session input))"
  by (simp add: queue_session_def oesession_new_def made_by_create)

lemma queue_session_bufs [simp]:
  "on_conn fst (queue_session input) = input" "on_conn snd (queue_session input) = []"
  by (simp_all add: queue_session_def oesession_new_def OeLibeventConnFactory_create_def)

lemma queue_session_state: "\<not> OeSession_state_is_set (queue_session input) flag"
  by (simp add: OeSession_state_is_set_def OEC_FLAG_ISSET_def queue_session_def oesession_new_def)

theorem jcl_roundtrip_witness:
  "\<exists>a' b' w. OeJclNet_write_msg (queue_session []) (message (Write 7 0 30 True [''job'', ''1''])) = Inr (0, a') \<and>
     on_conn snd a' = w \<and> OeJclNet_read_msg (queue_session w) =
       Inr (1, Some (message (Write 7 0 30 True [''job'', ''1''])), b') \<and> on_conn fst b' = []"
proof -
  have j: "printable_msg (Write 7 0 30 True [''job'', ''1''])"
    by (simp add: small_id_def small_dur_def int_range_def printable_def plain_text_def)
  have f: "framed (jcl_text (Write 7 0 30 True [''job'', ''1'']))"
    by (simp add: data_text_def quoted_def NUL_def)
  obtain a' w where a': "OeJclNet_write_msg (queue_session []) (message (Write 7 0 30 True [''job'', ''1''])) = Inr (0, a')"
      "on_conn snd a' = on_conn snd (queue_session []) @ w"
      and r: "\<And>b rest. made_by queue_events (\<lambda>_. NUL) (s_conn b) \<Longrightarrow> on_conn fst b = w @ rest \<Longrightarrow>
        (\<exists>b'. OeJclNet_read_msg (b :: (string \<times> string, nat, nat, nat) OeSession) =
           Inr (1, Some (message (Write 7 0 30 True [''job'', ''1''])), b') \<and> on_conn fst b' = rest)"
    using jcl_roundtrip [OF queue_buffers queue_session_made j f, of "[]"] by blast
  show ?thesis using a' r [OF queue_session_made, of w "[]"] by auto
qed

section \<open>Correlation identifiers\<close>

lemma atol_number:
  assumes "small_id w" "\<not> is_digit c"
  shows "atol (takeWhile (\<lambda>c. c \<noteq> NUL) (lld w @ c # z)) = w"
proof -
  have l: "lld w = dec_nat (unat w)" by (simp add: lld_small [OF assms(1)] dec_int_def)
  obtain x xs where x: "dec_nat (unat w) = x # xs" by (cases "dec_nat (unat w)") auto
  have d: "is_digit x" "\<forall>y \<in> set xs. is_digit y" using dec_nat_digits [of _ "unat w"] by (auto simp: x)
  have nn: "\<forall>y \<in> set (x # xs). y \<noteq> NUL" using d by (auto simp: is_digit_def)
  obtain t where t: "takeWhile (\<lambda>c. c \<noteq> NUL) (lld w @ c # z) = x # xs @ t" "t = [] \<or> hd t = c"
    using nn by (cases "c = NUL") (auto simp: l x takeWhile_append)
  have "takeWhile is_digit (x # xs @ t) = x # xs"
    using d t(2) assms(2) by (cases t) (auto simp: takeWhile_append takeWhile_eq_all_conv)
  moreover have "\<not> isspace x" "x \<noteq> CHR ''-''" "x \<noteq> CHR ''+''" using d(1) by (auto simp: isspace_def is_digit_def)
  moreover have "digits_val 0 (x # xs) = unat w" using digits_val_dec_nat [of "unat w"] by (simp add: x)
  moreover have "uint w < 2 ^ 63 - 1" using assms(1) by (simp add: small_id_def)
  moreover have "- (2 ^ 63) \<le> uint w" by (rule order_trans [OF _ uint_ge_0]) simp
  ultimately show ?thesis unfolding t(1) by (simp add: atol_def Let_def)
qed

text \<open>The length that is asked for depends on where the number is; it always covers the number and the character behind it.\<close>

definition peek_len :: "int \<Rightarrow> int \<Rightarrow> int" where
  "peek_len lpos avail = (if lpos + 8 < avail then lpos + 8 else avail - lpos - 1)"

lemma peek_number:
  assumes ev: "buffers ev received sent" "made_by ev stack (s_conn b)"
    and r: "on_conn received b = pre @ lld w @ c # tail" and pre: "4 \<le> length pre"
    and w: "small_id w" "\<not> is_digit c" "tail \<noteq> []"
  shows "c_bind (OeNetConn_peek (s_conn b) (int (length pre)) (peek_len (int (length pre)) (int (length (on_conn received b)))))
    (\<lambda>peekdata. Inr (1, Some (atol (takeWhile (\<lambda>c. c \<noteq> NUL) peekdata)))) = Inr (1, Some w)"
proof -
  let ?R = "on_conn received b" and ?lpos = "length pre"
  define llen where "llen = peek_len (int ?lpos) (int (length ?R))"
  have len: "length (lld w) \<le> 11" by (rule length_lld_id [OF w(1)])
  have drop: "drop ?lpos ?R = lld w @ c # tail" by (simp add: r)
  have ll: "Suc (length (lld w)) \<le> nat llen" "0 < llen"
    using len w(3) pre by (auto simp: llen_def peek_len_def r neq_Nil_conv split: if_splits)
  define junk where "junk = map stack [length (take (?lpos + nat llen) ?R) ..< ?lpos + nat llen]"
  have "OeNetConn_peek (s_conn b) (int ?lpos) llen = Inr (take (nat llen) (drop ?lpos (take (?lpos + nat llen) ?R @ junk)))"
    using ev(2) ll(2)
    by (simp add: OeNetConn_peek_def made_by_def peek_bytes_def buffersD [OF ev(1)] Let_def junk_def nat_add_distrib
        del: drop_append take_append length_take drop_map)
  also have "drop ?lpos (take (?lpos + nat llen) ?R @ junk) = take (nat llen) (drop ?lpos ?R) @ junk"
    by (simp add: r drop_take)
  also have "take (nat llen) (take (nat llen) (drop ?lpos ?R) @ junk) =
      lld w @ c # take (nat llen - Suc (length (lld w))) (take (nat llen - Suc (length (lld w))) tail @ junk)"
    using ll(1) by (simp add: drop take_append take_Cons' min_def)
  finally obtain z where z: "OeNetConn_peek (s_conn b) (int ?lpos) llen = Inr (lld w @ c # z)" by blast
  then show ?thesis unfolding llen_def [symmetric] by (simp add: z atol_number [OF w(1,2)] del: takeWhile_append)
qed

lemma peek_text:
  assumes ev: "buffers ev received sent" "made_by ev stack (s_conn b)"
    and r: "on_conn received b = pre @ CID_TAG @ lld w @ c # tail"
    and m: "oe_memmem (pre @ CID_TAG @ lld w @ c # tail) CID_TAG = Some (length pre)"
    and w: "small_id w" "\<not> is_digit c" "tail \<noteq> []"
  shows "OeJclNet_peek_cid b = Inr (1, Some w)"
proof -
  have r4: "on_conn received b = (pre @ CID_TAG) @ lld w @ c # tail" "length (pre @ CID_TAG) = length pre + 4"
    using r by (simp_all add: CID_TAG_def)
  have "OeNetConn_get_pos (s_conn b) CID_TAG = Inr (int (length pre))" by (simp add: get_pos_buffers [OF ev] r m)
  then have "OeJclNet_peek_cid b = c_bind (OeNetConn_peek (s_conn b) (int (length (pre @ CID_TAG)))
      (peek_len (int (length (pre @ CID_TAG))) (int (length (on_conn received b)))))
      (\<lambda>peekdata. Inr (1, Some (atol (takeWhile (\<lambda>c. c \<noteq> NUL) peekdata))))"
    unfolding r4(2) by (simp add: OeJclNet_peek_cid_def OeSession_get_conn_def available_buffers [OF ev] peek_len_def Let_def)
  also have "\<dots> = Inr (1, Some w)" by (rule peek_number [OF ev r4(1) _ w]) (simp only: r4(2) le_add2)
  finally show ?thesis .
qed

text \<open>The responses a client waits for.\<close>

fun response_to :: "jcl_msg \<Rightarrow> oe_id option" where
  "response_to (Failed cid emsg) = Some cid"
| "response_to (Connected cid sid) = Some cid"
| "response_to (Written cid lid) = Some cid"
| "response_to (Got destroyed cid n tuple xs) = Some cid"
| "response_to (Got_Nothing destroyed cid n) = Some cid"
| "response_to (Started cid tid) = Some cid"
| "response_to (Committed cid) = Some cid"
| "response_to (Cancelled cid) = Some cid"
| "response_to _ = None"

fun cid_prefix :: "jcl_msg \<Rightarrow> string" where
  "cid_prefix (Failed cid emsg) = ''error(''"
| "cid_prefix (Connected cid sid) = ''response(cmd=connect ''"
| "cid_prefix (Written cid lid) = ''response(cmd=write ''"
| "cid_prefix (Got destroyed cid n tuple xs) = (if destroyed then ''response(cmd=take '' else ''response(cmd=read '')"
| "cid_prefix (Got_Nothing destroyed cid n) = (if destroyed then ''response(cmd=take '' else ''response(cmd=read '')"
| "cid_prefix (Started cid tid) = ''response(cmd=txn ''"
| "cid_prefix (Committed cid) = ''response(cmd=commit ''"
| "cid_prefix (Cancelled cid) = ''response(cmd=cancel ''"
| "cid_prefix _ = []"

lemma text_prefix:
  "response_to j = Some cid \<Longrightarrow> \<exists>c tail. jcl_text j = cid_prefix j @ CID_TAG @ lld cid @ c # tail \<and> \<not> is_digit c"
  by (cases j) (auto simp: CID_TAG_def is_digit_def)

definition prefixes :: "string list" where
  "prefixes = [''error('', ''response(cmd=write '', ''response(cmd=take '', ''response(cmd=read '', ''response(cmd=txn '',
     ''response(cmd=commit '', ''response(cmd=cancel '']"

lemma cid_prefixes: "response_to j = Some cid \<Longrightarrow> \<forall>sid. j \<noteq> Connected cid sid \<Longrightarrow> cid_prefix j \<in> set prefixes"
  by (cases j) (auto simp: prefixes_def)

lemma memmem_prefixes: "list_all (\<lambda>p. oe_memmem (p @ CID_TAG @ rest) CID_TAG = Some (length p)) prefixes"
  by (simp add: prefixes_def CID_TAG_def oe_memmem.simps [of "c # s" "''cid=''" for c s])

lemma no_letter: "CHR ''c'' \<notin> set (lld w)"
  using dec_nat_digits [of "CHR ''c''"] by (auto simp: lld_def dec_int_def is_digit_def)

text \<open>The search steps over the identifier of the response to a connect: it begins inside the four characters that are
  skipped after the \<^verbatim>\<open>c\<close> in the middle of \<^verbatim>\<open>connect\<close>.\<close>

lemma connect_hides_cid:
  assumes "CHR ''c'' \<notin> set rest"
  shows "oe_memmem (''response(cmd=connect cid='' @ rest) CID_TAG = None"
proof -
  have "memchr (CHR ''i'' # CHR ''d'' # CHR ''='' # rest) (CHR ''c'') = None" using assms by (simp add: memchr_None)
  then show ?thesis by (simp add: CID_TAG_def oe_memmem.simps [of "c # s" "''cid=''" for c s])
qed

lemma peek_of_response:
  assumes ev: "buffers ev received sent" "made_by ev stack (s_conn b)"
    and j: "response_to j = Some cid" "printable_msg j" "\<forall>sid. j \<noteq> Connected cid sid"
    and r: "on_conn received b = take m (jcl_text j @ MSG_END_BYTES) @ rest"
    and m: "length (cid_prefix j @ CID_TAG @ lld cid) + 2 \<le> m"
  shows "OeJclNet_peek_cid b = Inr (1, Some cid)"
proof -
  let ?p = "cid_prefix j @ CID_TAG @ lld cid"
  obtain c tail where t: "jcl_text j = cid_prefix j @ CID_TAG @ lld cid @ c # tail" "\<not> is_digit c"
    using text_prefix [OF j(1)] by blast
  have small: "small_id cid" using j by (cases j) auto
  obtain k where k: "m = Suc (Suc (length ?p + k))" using le_Suc_ex [OF m] by auto
  have e: "on_conn received b = cid_prefix j @ CID_TAG @ lld cid @ c # take (Suc k) (tail @ MSG_END_BYTES) @ rest"
    by (simp add: r t(1) k)
  have "oe_memmem (cid_prefix j @ CID_TAG @ s) CID_TAG = Some (length (cid_prefix j))" for s
    using memmem_prefixes [of s] cid_prefixes [OF j(1,3)] by (auto simp: list_all_iff)
  then show ?thesis
    using t(2) small by (intro peek_text [OF ev e]) (auto simp: MSG_END_BYTES_def take_Cons')
qed

lemma response_length:
  assumes "response_to j = Some cid"
  shows "length (cid_prefix j @ CID_TAG @ lld cid) + 2 \<le> length (jcl_text j @ MSG_END_BYTES)"
  using text_prefix [OF assms] by (auto simp: MSG_END_BYTES_def)

text \<open>a client finds the correlation identifier of every response in front of its input.  For all but the response to a
  connect it is the one in the text, whatever follows; the tag of that one is missed, and while the session is not connected the
  answer is the identifier 1 that the client gives its connect command, after that there is no answer.\<close>

theorem jcl_peek_cid:
  assumes ev: "buffers ev received sent" "made_by ev stack (s_conn b)"
    and j: "response_to j = Some cid" "printable_msg j"
    and r: "on_conn received b = jcl_text j @ MSG_END_BYTES @ rest"
  shows "if \<exists>sid. j = Connected cid sid
    then rest = [] \<longrightarrow> OeJclNet_peek_cid b =
      Inr (if OeSession_state_is_set b OENET_CLIENT_CONNECTED then (0, None) else (1, Some 1))
    else OeJclNet_peek_cid b = Inr (1, Some cid)"
proof (cases "\<exists>sid. j = Connected cid sid")
  case True
  then obtain sid where sid: "j = Connected cid sid" by blast
  have "oe_memmem (on_conn received b) CID_TAG = None" if "rest = []"
    using connect_hides_cid [of "lld cid @ '' sid='' @ lld sid @ '');'' @ MSG_END_BYTES"] no_letter that
    by (simp add: r sid MSG_END_BYTES_def)
  then show ?thesis
    using sid by (auto simp: OeJclNet_peek_cid_def OeSession_get_conn_def get_pos_buffers [OF ev] Let_def)
next
  case False
  then show ?thesis
    using peek_of_response [OF ev j _ _ response_length [OF j(1)], of rest] r by simp
qed

theorem jcl_peek_cid_witness:
  "OeJclNet_peek_cid (queue_session (jcl_text (Written 42 5) @ MSG_END_BYTES)) = Inr (1, Some 42) \<and>
   OeJclNet_peek_cid (queue_session (jcl_text (Connected 42 5) @ MSG_END_BYTES)) = Inr (1, Some 1)"
proof -
  have p: "printable_msg (Written 42 5)" "printable_msg (Connected 42 5)" by (simp_all add: small_id_def)
  have "OeJclNet_peek_cid (queue_session (jcl_text (Written 42 5) @ MSG_END_BYTES)) = Inr (1, Some 42)"
    using jcl_peek_cid [OF queue_buffers queue_session_made _ p(1), of 42 "jcl_text (Written 42 5) @ MSG_END_BYTES" "[]"]
    by simp
  moreover have "OeJclNet_peek_cid (queue_session (jcl_text (Connected 42 5) @ MSG_END_BYTES)) = Inr (1, Some 1)"
    using jcl_peek_cid [OF queue_buffers queue_session_made _ p(2), of 42 "jcl_text (Connected 42 5) @ MSG_END_BYTES" "[]"]
    by (simp add: queue_session_state)
  ultimately show ?thesis by blast
qed

end
