(* ===== verification/Jcl_Props.thy ===== *)
theory Jcl_Props
  imports Jcl_Roundtrip
begin

text \<open>
  Limits of the command language: the bounds of the parser's loops are never reached, the encoder's blocks are too small for
  long identifiers, and some messages arrive as others.
\<close>

section \<open>Every step of the parser takes a token\<close>

lemma expect_shorter: "expect k toks = Some r \<Longrightarrow> length r < length toks"
  by (cases toks) (auto simp: expect_def split: if_splits)

lemma expect_num_shorter: "expect_num toks = Some (n, r) \<Longrightarrow> length r < length toks"
  by (cases toks rule: expect_num.cases) auto

lemma expect_str_shorter: "expect_str toks = Some (n, r) \<Longrightarrow> length r < length toks"
  by (cases toks rule: expect_str.cases) auto

lemma cmdname_shorter: "cmdname toks = Some (n, r) \<Longrightarrow> length r < length toks"
  by (cases toks rule: cmdname.cases) (auto split: if_splits)

lemmas token_shorter = expect_shorter expect_num_shorter expect_str_shorter cmdname_shorter

lemma vernum_shorter: "vernum toks = Some (a, r) \<Longrightarrow> length r < length toks"
  by (auto simp: vernum_def bind_eq_Some_conv dest!: token_shorter)

lemma p_named_shorter: "p_named k toks = Some (a, r) \<Longrightarrow> length r < length toks"
  by (auto simp: p_named_def bind_eq_Some_conv split: if_splits dest!: token_shorter vernum_shorter)

lemma p_args_shorter: "p_args ks acc n toks = Some (a, r) \<Longrightarrow> length r \<le> length toks"
  by (induction ks acc n toks rule: p_args.induct)
    (fastforce simp: bind_eq_Some_conv split: option.splits dest: p_named_shorter)+

lemma args_shorter: "args ks toks = Some (a, r) \<Longrightarrow> length r \<le> length toks"
  by (auto simp: args_def dest: p_args_shorter)

lemma p_string_shorter: "p_string toks = Some (a, r) \<Longrightarrow> length r < length toks"
  by (induction toks rule: p_string.induct)
    (auto simp: bind_eq_Some_conv split: if_splits dest!: expect_str_shorter)

lemma p_list_shorter: "p_list n toks = Some (a, r) \<Longrightarrow> length r < length toks"
  by (induction n toks arbitrary: a rule: p_list.induct)
    (fastforce simp: bind_eq_Some_conv split: if_splits dest: p_string_shorter)+

lemma p_map_shorter: "p_map n toks = Some (a, r) \<Longrightarrow> length r < length toks"
  by (induction n toks arbitrary: a rule: p_map.induct)
    (fastforce simp: bind_eq_Some_conv split: if_splits dest: p_string_shorter expect_shorter)+

lemma p_items_shorter: "p_items toks = Some (a, r) \<Longrightarrow> length r < length toks"
  by (auto simp: p_items_def bind_eq_Some_conv split: if_splits dest: p_list_shorter p_map_shorter)

lemma starts_iff: "starts k toks \<longleftrightarrow> (\<exists>rest. toks = Tk k # rest)"
  by (cases "(k, toks)" rule: starts.cases) auto

lemma p_data_shorter: "p_data toks = Some (a, r) \<Longrightarrow> length r < length toks"
  by (auto simp: p_data_def bind_eq_Some_conv split: if_splits dest!: expect_shorter p_items_shorter)

lemmas args_parts = args_shorter p_named_shorter p_data_shorter expect_shorter

lemma call_shorter:
  "p_call c ks toks = Some (a, r) \<Longrightarrow> length r < length toks"
  "p_plain c ks toks = Some (a, r) \<Longrightarrow> length r < length toks"
  "p_dis toks = Some (a, r) \<Longrightarrow> length r < length toks"
  "p_commit toks = Some (a, r) \<Longrightarrow> length r < length toks"
  "p_cancel toks = Some (a, r) \<Longrightarrow> length r < length toks"
  "p_response toks = Some (a, r) \<Longrightarrow> length r < length toks"
  by (auto simp: p_call_def p_plain_def p_dis_def p_commit_def p_cancel_def p_response_def bind_eq_Some_conv
      starts_iff split: if_splits dest!: args_parts)

lemma p_command_shorter: "p_command toks = Some (a, r) \<Longrightarrow> length r < length toks"
  by (auto simp: p_command_def bind_eq_Some_conv split: if_splits dest!: call_shorter expect_shorter)

lemma p_txn_shorter: "p_txn name toks = Some (h, r) \<Longrightarrow> length r < length toks"
  by (auto simp: p_txn_def bind_eq_Some_conv split: if_splits dest!: args_shorter expect_shorter)

lemma p_assign_shorter: "p_assign x toks = Some (h, r) \<Longrightarrow> length r < length toks"
  by (auto simp: p_assign_def whole_def bind_eq_Some_conv split: if_splits option.splits
      dest!: p_txn_shorter expect_shorter p_string_shorter p_data_shorter expect_num_shorter p_command_shorter)

lemma p_stmt_shorter: "p_stmt toks = Some (h, r) \<Longrightarrow> length r < length toks"
  by (cases toks rule: p_stmt.cases)
    (auto simp: whole_def bind_eq_Some_conv split: if_splits
      dest!: p_txn_shorter expect_shorter p_assign_shorter p_command_shorter call_shorter)

lemma stmts_shorter: "stmts n toks = Some (a, r) \<Longrightarrow> length r < length toks"
proof (induction n arbitrary: toks a r)
  case (Suc n)
  obtain h r1 b r2 r3 where h: "p_stmt toks = Some (h, r1)" and e: "expect END_STMT r2 = Some r3"
      and b: "(case h of Whole a \<Rightarrow> Some (a, r1)
       | Block l name \<Rightarrow> do {
           (inner, q1) \<leftarrow> stmts n r1;
           q2 \<leftarrow> expect END_BRACE q1;
           Some (assign_ast name (new_oejcl_ast TXN l (Some inner)), q2)
         }) = Some (b, r2)"
      and rest: "r = r3 \<or> (\<exists>c. stmts n r3 = Some (c, r))"
    using Suc.prems by (fastforce simp: bind_eq_Some_conv Let_def split: if_splits)
  have "length r2 \<le> length r1"
    using b Suc.IH [of r1] by (fastforce simp: bind_eq_Some_conv split: jcl_head.splits dest: expect_shorter)
  moreover have "length r \<le> length r3" using rest Suc.IH [of r3] by fastforce
  ultimately show ?case using p_stmt_shorter [OF h] expect_shorter [OF e] by simp
qed simp

lemma stmts_fuel: "length toks \<le> n \<Longrightarrow> length toks \<le> m \<Longrightarrow> stmts n toks = stmts m toks"
proof (induction n arbitrary: toks m)
  case 0
  have "p_stmt [] = None" by (simp add: whole_def p_command_def expect_def)
  then show ?case using 0 by (cases m) simp_all
next
  case (Suc n)
  show ?case
  proof (cases m)
    case 0
    then have "p_stmt toks = None" using Suc.prems by (simp add: whole_def p_command_def expect_def)
    then show ?thesis using 0 by simp
  next
    case m: (Suc k)
    have eq: "stmts n r = stmts k r" if "length r < length toks" for r
      using that Suc.prems m by (intro Suc.IH) auto
    define blk where "blk = (\<lambda>j h r1. case h of Whole a \<Rightarrow> Some (a, r1)
       | Block l name \<Rightarrow> do {
           (inner, q1) \<leftarrow> stmts j r1;
           q2 \<leftarrow> expect END_BRACE q1;
           Some (assign_ast name (new_oejcl_ast TXN l (Some inner)), q2)
         })"
    have blk_eq: "blk n h r1 = blk k h r1" if "length r1 < length toks" for h r1
      by (simp add: blk_def eq [OF that] split: jcl_head.splits)
    have blk_len: "length r2 \<le> length r1" if "blk k h r1 = Some (a, r2)" for h r1 a r2
      using that by (fastforce simp: blk_def bind_eq_Some_conv split: jcl_head.splits dest: expect_shorter stmts_shorter)
    have step: "stmts (Suc j) toks = p_stmt toks \<bind> (\<lambda>(h, r1). blk j h r1 \<bind> (\<lambda>(a, r2). expect END_STMT r2 \<bind>
        (\<lambda>r3. let s = new_oejcl_ast STMT (Some a) None in
          if starts_stmt r3 then stmts j r3 \<bind> (\<lambda>(b, r4). Some (set_r s (Some b), r4)) else Some (s, r3))))" for j
      by (simp add: blk_def)
    show ?thesis
    proof (cases "p_stmt toks")
      case (Some hr)
      then obtain h r1 where h: "p_stmt toks = Some (h, r1)" by (cases hr) auto
      note r1 = p_stmt_shorter [OF h]
      show ?thesis
      proof (cases "blk k h r1")
        case (Some ar)
        then obtain a r2 where b: "blk k h r1 = Some (a, r2)" by (cases ar) auto
        have "stmts n r3 = stmts k r3" if "expect END_STMT r2 = Some r3" for r3
          using expect_shorter [OF that] blk_len [OF b] r1 by (intro eq) simp
        then show ?thesis
          unfolding m step by (cases "expect END_STMT r2") (simp_all add: h b blk_eq [OF r1] Let_def)
      qed (simp add: m step h blk_eq [OF r1] del: stmts.simps)
    qed (simp add: m)
  qed
qed

lemma p_args_fuel: "length toks \<le> n \<Longrightarrow> length toks \<le> m \<Longrightarrow> p_args ks acc n toks = p_args ks acc m toks"
proof (induction n arbitrary: acc toks m)
  case 0
  then have "find (\<lambda>k. starts k toks) ks = None" by (simp add: find_None_iff)
  then show ?case using 0 by (cases m) simp_all
next
  case (Suc n)
  show ?case
  proof (cases m)
    case 0
    then have "find (\<lambda>k. starts k toks) ks = None" using Suc.prems by (simp add: find_None_iff)
    then show ?thesis using 0 Suc.prems by simp
  next
    case m: (Suc k)
    have "p_args ks b n r = p_args ks b k r" if "p_named c toks = Some (a, r)" for a b c r
      using p_named_shorter [OF that] Suc.prems m by (intro Suc.IH) auto
    then show ?thesis using m by (fastforce split: option.splits intro: Option.bind_cong)
  qed
qed

lemma p_list_fuel: "length toks \<le> n \<Longrightarrow> length toks \<le> m \<Longrightarrow> p_list n toks = p_list m toks"
proof (induction n arbitrary: toks m)
  case 0
  then show ?case by (cases m) simp_all
next
  case (Suc n)
  show ?case
  proof (cases m)
    case m: (Suc k)
    have "p_list n r = p_list k r" if "p_string toks = Some (a, r)" for a r
      using p_string_shorter [OF that] Suc.prems m by (intro Suc.IH) auto
    then show ?thesis using m by (cases "p_string toks") auto
  qed (use Suc.prems in simp)
qed

lemma p_map_fuel: "length toks \<le> n \<Longrightarrow> length toks \<le> m \<Longrightarrow> p_map n toks = p_map m toks"
proof (induction n arbitrary: toks m)
  case 0
  then show ?case by (cases m) simp_all
next
  case (Suc n)
  show ?case
  proof (cases m)
    case m: (Suc k)
    have "p_map n r = p_map k r"
      if "p_string toks = Some (a, r1)" "expect PAIR_SEP r1 = Some r2" "p_string r2 = Some (b, r)" for a b r1 r2 r
      using p_string_shorter [OF that(1)] expect_shorter [OF that(2)] p_string_shorter [OF that(3)] Suc.prems m
      by (intro Suc.IH) auto
    then show ?thesis using m by (fastforce intro!: Option.bind_cong)
  qed (use Suc.prems in simp)
qed



section \<open>The blocks of the encoder\<close>

lemma get_cmd_overruns:
  assumes "OekMsg_get_get_cmd msg = Inr cmd"
    and "55 \<le> length (lld (gc_timeout cmd)) + length (lld (cor_id msg)) + length (lld (txn_id msg))"
  shows "get_cmd_serialize msg = Inl Out_Of_Bounds"
  using assms by (simp add: get_cmd_serialize_def sprintf_into_def GET_CMD_TEMPLATE_PRE_def GetCmd_get_timeout_def
      OekMsg_get_cid_def OekMsg_get_tid_def)



section \<open>Messages that arrive as others\<close>

lemma encodes_decodes:
  "printable_msg j \<Longrightarrow> \<exists>t. OeJclEncoder_msg_serialize (message j) = Inr (Some t) \<and> first_cmd t = Inr (Some (message j))"
  using encodes [of j] first_cmd_message [of j "[]"] by simp

lemma sent_as:
  assumes "printable_msg j" "OeJclEncoder_msg_serialize m = OeJclEncoder_msg_serialize (message j)"
  shows "\<exists>t. OeJclEncoder_msg_serialize m = Inr (Some t) \<and> first_cmd t = Inr (Some (message j))"
  using assms encodes_decodes by simp

text \<open>three messages arrive as others.  The answer to the renewal of a lease arrives as the answer to a rollback; an update of a
  transaction that is to stay active arrives as its rollback; and the renewal of a lease arrives as its cancellation, its new
  duration lost.\<close>

theorem jcl_mistaken_messages:
  assumes "small_id cid" "small_id tid" "small_id (lc_lease_id l)" "uc_status c = OETXN_ACTIVE"
  shows "(\<exists>t. OeJclEncoder_msg_serialize (envelope UPL_RES cid tid (D_upl_res r)) = Inr (Some t) \<and>
       first_cmd t = Inr (Some (message (Cancelled cid)))) \<and>
     (\<exists>t. OeJclEncoder_msg_serialize (envelope UPT_CMD cid tid (D_upt_cmd c)) = Inr (Some t) \<and>
       first_cmd t = Inr (Some (message (Cancel_Txn cid tid)))) \<and>
     (\<exists>t. OeJclEncoder_msg_serialize (envelope UPL_CMD cid tid (D_upl_cmd l)) = Inr (Some t) \<and>
       first_cmd t = Inr (Some (message (Cancel_Lease cid (lc_lease_id l)))))"
proof (intro conjI sent_as)
  show "OeJclEncoder_msg_serialize (envelope UPL_RES cid tid (D_upl_res r)) = OeJclEncoder_msg_serialize (message (Cancelled cid))"
    by (simp add: print_simps OekMsg_get_upl_res_def OETXN_ROLLEDBACK_def OETXN_COMMITTED_def NUL_def)
  show "OeJclEncoder_msg_serialize (envelope UPT_CMD cid tid (D_upt_cmd c)) =
      OeJclEncoder_msg_serialize (message (Cancel_Txn cid tid))"
    using assms(4) by (simp add: print_simps OETXN_ACTIVE_def OETXN_ROLLEDBACK_def OETXN_COMMITTED_def NUL_def)
  show "OeJclEncoder_msg_serialize (envelope UPL_CMD cid tid (D_upl_cmd l)) =
      OeJclEncoder_msg_serialize (message (Cancel_Lease cid (lc_lease_id l)))"
    by (simp add: encoder_defs get_defs envelope_def)
qed (use assms in simp_all)

theorem jcl_mistaken_messages_witness:
  "\<exists>t. OeJclEncoder_msg_serialize (envelope UPL_CMD 3 0 (D_upl_cmd \<lparr>lc_lease_id = 9, lc_duration = 60000\<rparr>)) = Inr (Some t) \<and>
     first_cmd t = Inr (Some (message (Cancel_Lease 3 9)))"
  using jcl_mistaken_messages [of 3 0 "\<lparr>lc_lease_id = 9, lc_duration = 60000\<rparr>" "UptCmd_new\<lparr>uc_status := OETXN_ACTIVE\<rparr>"]
  by (simp add: small_id_def)

end
