(* ===== verification/Security.thy ===== *)
theory Security
  imports Hash_Table Kernel
begin

text \<open>
  Who may do what (\<^verbatim>\<open>corelib/Subject.c\<close>, \<^verbatim>\<open>Privilege.c\<close>, \<^verbatim>\<open>LoginModule.c\<close>, \<^verbatim>\<open>SecurityContext.c\<close>, \<^verbatim>\<open>BaseLoginModule.c\<close>,
  \<^verbatim>\<open>BuiltInLoginModule.c\<close>).

  A login module and a privilege are functions together with a pointer to the module they belong to.  Accounts and templates can be
  added at any time, so the state \<open>'w\<close> behind those pointers is an argument of the functions.
\<close>

section \<open>Subjects and privileges\<close>

datatype AUTH = ALLOW | DENY | DONTCARE

record 'w Privilege =
  allow_func :: "'w \<Rightarrow> OekMsg \<Rightarrow> AUTH"

definition Privilege_new :: "('w \<Rightarrow> OekMsg \<Rightarrow> AUTH) \<Rightarrow> 'w Privilege" where
  "Privilege_new f = \<lparr>allow_func = f\<rparr>"

definition Privilege_allow :: "'w \<Rightarrow> 'w Privilege \<Rightarrow> OekMsg \<Rightarrow> AUTH" where
  "Privilege_allow w p msg = allow_func p w msg"

definition SUBJECT_AUTHENTICATED :: oe_flags where
  "SUBJECT_AUTHENTICATED = 1"

definition SUBJECT_HAS_NEWS :: oe_flags where
  "SUBJECT_HAS_NEWS = 2"

record 'w Subject =
  sb_username :: "oe_scalar option"
  sb_extentname :: "oe_scalar option"
  sb_pwd :: "oe_scalar option"
  sb_privileges :: "'w Privilege Oec_AList"
  sb_news :: "string Oec_AList"
  sb_status :: oe_flags

definition Subject_new :: "'w Subject" where
  "Subject_new = \<lparr>sb_username = None, sb_extentname = None, sb_pwd = None, sb_privileges = [], sb_news = [], sb_status = 0\<rparr>"

definition Subject_status_is_set :: "'w Subject \<Rightarrow> oe_flags \<Rightarrow> bool" where
  "Subject_status_is_set s flag = OEC_FLAG_ISSET (sb_status s) flag"

definition Subject_status_clear :: "'w Subject \<Rightarrow> oe_flags \<Rightarrow> 'w Subject" where
  "Subject_status_clear s flag = s\<lparr>sb_status := OEC_FLAG_CLEAR (sb_status s) flag\<rparr>"

definition Subject_status_set :: "'w Subject \<Rightarrow> oe_flags \<Rightarrow> 'w Subject" where
  "Subject_status_set s flag = s\<lparr>sb_status := OEC_FLAG_SET (sb_status s) flag\<rparr>"

definition Subject_is_authenticated :: "'w Subject \<Rightarrow> bool" where
  "Subject_is_authenticated s = OEC_FLAG_ISSET (sb_status s) SUBJECT_AUTHENTICATED"

definition Subject_has_news :: "'w Subject \<Rightarrow> bool" where
  "Subject_has_news s = OEC_FLAG_ISSET (sb_status s) SUBJECT_HAS_NEWS"

definition Subject_set_extentname :: "'w Subject \<Rightarrow> oe_scalar option \<Rightarrow> 'w Subject" where
  "Subject_set_extentname s v = s\<lparr>sb_extentname := v\<rparr>"

definition Subject_get_extentname :: "'w Subject \<Rightarrow> oe_scalar option" where
  "Subject_get_extentname s = sb_extentname s"

definition Subject_set_username :: "'w Subject \<Rightarrow> oe_scalar option \<Rightarrow> 'w Subject" where
  "Subject_set_username s v = s\<lparr>sb_username := v\<rparr>"

definition Subject_get_username :: "'w Subject \<Rightarrow> oe_scalar option" where
  "Subject_get_username s = sb_username s"

definition Subject_set_pwd :: "'w Subject \<Rightarrow> oe_scalar option \<Rightarrow> 'w Subject" where
  "Subject_set_pwd s v = s\<lparr>sb_pwd := v\<rparr>"

definition Subject_get_pwd :: "'w Subject \<Rightarrow> oe_scalar option" where
  "Subject_get_pwd s = sb_pwd s"

definition Subject_get_privileges :: "'w Subject \<Rightarrow> 'w Privilege list" where
  "Subject_get_privileges s = sb_privileges s"

definition Subject_add_privilege :: "'w Subject \<Rightarrow> 'w Privilege \<Rightarrow> 'w Subject" where
  "Subject_add_privilege s p = s\<lparr>sb_privileges := Oec_AList_append (sb_privileges s) (Oec_AList_list [Some p, None])\<rparr>"

definition Subject_get_news :: "'w Subject \<Rightarrow> string list" where
  "Subject_get_news s = sb_news s"

definition Subject_add_news :: "'w Subject \<Rightarrow> string \<Rightarrow> 'w Subject" where
  "Subject_add_news s txt = s\<lparr>sb_news := Oec_AList_append (sb_news s) (Oec_AList_list [Some txt, None])\<rparr>"

section \<open>Login modules and the security context\<close>

record 'w LoginModule =
  login_func :: "'w \<Rightarrow> 'w Subject \<Rightarrow> 'w Subject c_result"

definition LoginModule_new :: "('w \<Rightarrow> 'w Subject \<Rightarrow> 'w Subject c_result) \<Rightarrow> 'w LoginModule" where
  "LoginModule_new f = \<lparr>login_func = f\<rparr>"

definition LoginModule_login :: "'w \<Rightarrow> 'w LoginModule \<Rightarrow> 'w Subject \<Rightarrow> 'w Subject c_result" where
  "LoginModule_login w m s = login_func m w s"

record 'w SecurityContext =
  sc_modules :: "'w LoginModule Oec_AList"

definition SecurityContext_new :: "'w SecurityContext" where
  "SecurityContext_new = \<lparr>sc_modules = []\<rparr>"

definition SecurityContext_add_module :: "'w SecurityContext \<Rightarrow> 'w LoginModule \<Rightarrow> 'w SecurityContext" where
  "SecurityContext_add_module ctx m = ctx\<lparr>sc_modules := Oec_AList_append (sc_modules ctx) (Oec_AList_list [Some m, None])\<rparr>"

fun login_loop :: "'w \<Rightarrow> 'w LoginModule list \<Rightarrow> 'w Subject \<Rightarrow> 'w Subject c_result" where
  "login_loop w [] s = Inr s"
| "login_loop w (m # ms) s = c_bind (LoginModule_login w m s) (login_loop w ms)"

definition SecurityContext_login :: "'w \<Rightarrow> 'w SecurityContext \<Rightarrow> 'w Subject \<Rightarrow> 'w Subject c_result" where
  "SecurityContext_login w ctx s = login_loop w (sc_modules ctx) s"

fun authorize_loop :: "'w \<Rightarrow> 'w Privilege list \<Rightarrow> OekMsg \<Rightarrow> AUTH \<Rightarrow> AUTH" where
  "authorize_loop w [] msg auth = auth"
| "authorize_loop w (p # ps) msg auth =
     (let a = Privilege_allow w p msg in if a = DONTCARE then authorize_loop w ps msg a else a)"

definition SecurityContext_authorize :: "'w \<Rightarrow> 'w SecurityContext \<Rightarrow> 'w Subject \<Rightarrow> OekMsg \<Rightarrow> AUTH" where
  "SecurityContext_authorize w ctx s msg =
     (let auth = authorize_loop w (Subject_get_privileges s) msg ALLOW in if auth = DONTCARE then DENY else auth)"

section \<open>Groups of templates\<close>

definition MAX_GROUPS :: nat where
  "MAX_GROUPS = 10"

record grpinfo =
  gi_groupname :: oe_scalar
  gi_templates :: "OekMsg Oec_AList"

record extinfo =
  ei_extentname :: oe_scalar
  ei_groups :: "(string, grpinfo) table_T"

record BaseLoginModule =
  bl_extents :: "(string, extinfo) table_T"

definition BaseLoginModule_new :: "BaseLoginModule c_result" where
  "BaseLoginModule_new = c_bind (SKeyTable_arena_new 100) (\<lambda>t. Inr \<lparr>bl_extents = t\<rparr>)"

definition grp_allow :: "grpinfo option \<Rightarrow> OekMsg \<Rightarrow> AUTH" where
  "grp_allow ginfo msg =
     (case ginfo of
        None \<Rightarrow> DONTCARE
      | Some g \<Rightarrow> if \<exists>t \<in> set (gi_templates g). OekMsgTemplateMatcher_match msg t then ALLOW else DONTCARE)"

text \<open>\<^verbatim>\<open>_get_grpinfo\<close> without and with allocation.  Entries are never removed or replaced, so the group found at the login is
  the group found later.\<close>

definition get_grpinfo :: "BaseLoginModule \<Rightarrow> oe_scalar \<Rightarrow> oe_scalar \<Rightarrow> grpinfo option" where
  "get_grpinfo b extentname groupname =
     (case ArenaTable_get (bl_extents b) extentname of
        None \<Rightarrow> None
      | Some einfo \<Rightarrow> ArenaTable_get (ei_groups einfo) groupname)"

definition alloc_extinfo :: "BaseLoginModule \<Rightarrow> oe_scalar \<Rightarrow> (extinfo \<times> BaseLoginModule) c_result" where
  "alloc_extinfo b extentname =
     (case ArenaTable_get (bl_extents b) extentname of
        Some einfo \<Rightarrow> Inr (einfo, b)
      | None \<Rightarrow> c_bind (SKeyTable_arena_new 100) (\<lambda>groups.
          let einfo = \<lparr>ei_extentname = extentname, ei_groups = groups\<rparr>
          in Inr (einfo, b\<lparr>bl_extents := snd (ArenaTable_put (bl_extents b) extentname einfo)\<rparr>)))"

text \<open>What is written through the pointer to a group is put back under the same names.\<close>

definition put_grpinfo :: "BaseLoginModule \<Rightarrow> oe_scalar \<Rightarrow> extinfo \<Rightarrow> oe_scalar \<Rightarrow> grpinfo \<Rightarrow> BaseLoginModule" where
  "put_grpinfo b extentname einfo groupname ginfo =
     b\<lparr>bl_extents := snd (ArenaTable_put (bl_extents b) extentname
        (einfo\<lparr>ei_groups := snd (ArenaTable_put (ei_groups einfo) groupname ginfo)\<rparr>))\<rparr>"

definition BaseLoginModule_add_privilege ::
  "BaseLoginModule \<Rightarrow> oe_scalar \<Rightarrow> oe_scalar \<Rightarrow> OekMsg \<Rightarrow> BaseLoginModule c_result" where
  "BaseLoginModule_add_privilege b extentname groupname mtemplate =
     c_bind (alloc_extinfo b extentname) (\<lambda>(einfo, b1).
       let ginfo = (case ArenaTable_get (ei_groups einfo) groupname of
                      Some g \<Rightarrow> g
                    | None \<Rightarrow> \<lparr>gi_groupname = groupname, gi_templates = Oec_AList_list [None]\<rparr>)
       in Inr (put_grpinfo b1 extentname einfo groupname
            (ginfo\<lparr>gi_templates := Oec_AList_append (gi_templates ginfo) (Oec_AList_list [Some mtemplate, None])\<rparr>)))"

text \<open>The privileges of the groups in a list, which ends with a NULL or after the tenth: \<open>base\<close> fetches the module from the
  state.\<close>

fun assign_loop :: "('w \<Rightarrow> BaseLoginModule) \<Rightarrow> 'w \<Rightarrow> oe_scalar \<Rightarrow> oe_scalar list \<Rightarrow> 'w Subject \<Rightarrow> 'w Subject" where
  "assign_loop base w extentname [] s = s"
| "assign_loop base w extentname (gname # gs) s =
     assign_loop base w extentname gs
       (if get_grpinfo (base w) extentname gname \<noteq> None \<and> Subject_is_authenticated s
        then Subject_add_privilege s (Privilege_new (\<lambda>w' msg. grp_allow (get_grpinfo (base w') extentname gname) msg))
        else s)"

definition BaseLoginModule_assign_privs ::
  "('w \<Rightarrow> BaseLoginModule) \<Rightarrow> 'w \<Rightarrow> 'w Subject \<Rightarrow> oe_scalar list \<Rightarrow> 'w Subject c_result" where
  "BaseLoginModule_assign_privs base w s grouplst =
     (case (Subject_get_username s, Subject_get_extentname s) of
        (Some username, Some extentname) \<Rightarrow>
          if \<not> Subject_is_authenticated s then Inr s
          else Inr (assign_loop base w extentname (take MAX_GROUPS grouplst) s)
      | _ \<Rightarrow> Inl Assert_Failed)"

section \<open>Accounts\<close>

record userinfo =
  ui_username :: "oe_scalar option"
  ui_pwd :: "oe_scalar option"
  ui_grpname :: "oe_scalar list"

record BuiltInLoginModule =
  bi_users :: "(string, userinfo) table_T"
  bi_basemod :: BaseLoginModule

definition BuiltInLoginModule_new :: "BuiltInLoginModule c_result" where
  "BuiltInLoginModule_new =
     c_bind (SKeyTable_arena_new 10000) (\<lambda>users. c_bind BaseLoginModule_new (\<lambda>b. Inr \<lparr>bi_users = users, bi_basemod = b\<rparr>))"

definition delimiters :: string where
  "delimiters = '' .,;:!-''"

text \<open>The tokens that repeated calls of \<^verbatim>\<open>strtok_r\<close> return.\<close>

function strtok :: "string \<Rightarrow> string list" where
  "strtok s =
     (let t = dropWhile (\<lambda>c. c \<in> set delimiters) s in
      if t = [] then [] else takeWhile (\<lambda>c. c \<notin> set delimiters) t # strtok (dropWhile (\<lambda>c. c \<notin> set delimiters) t))"
  by pat_completeness auto
termination
proof (relation "measure length")
  fix s t
  assume t: "t = dropWhile (\<lambda>c. c \<in> set delimiters) s" "t \<noteq> []"
  have "hd t \<notin> set delimiters" using hd_dropWhile [of "\<lambda>c. c \<in> set delimiters" s] t by simp
  then have "dropWhile (\<lambda>c. c \<notin> set delimiters) t = dropWhile (\<lambda>c. c \<notin> set delimiters) (tl t)"
    using t(2) by (cases t) simp_all
  also have "length \<dots> < length t"
    using t(2) length_dropWhile_le [of "\<lambda>c. c \<notin> set delimiters" "tl t"] by (cases t) auto
  also have "length t \<le> length s" by (simp add: t(1) length_dropWhile_le)
  finally show "(dropWhile (\<lambda>c. c \<notin> set delimiters) t, s) \<in> measure length" by simp
qed simp

declare strtok.simps [simp del]

definition BuiltInLoginModule_add_account ::
  "BuiltInLoginModule \<Rightarrow> oe_scalar \<Rightarrow> oe_scalar \<Rightarrow> oe_scalar option \<Rightarrow> BuiltInLoginModule" where
  "BuiltInLoginModule_add_account m grouplst username pwd =
     (let uinfo = \<lparr>ui_username = Some username, ui_pwd = pwd, ui_grpname = take MAX_GROUPS (strtok grouplst)\<rparr>
      in m\<lparr>bi_users := snd (ArenaTable_put (bi_users m) username uinfo)\<rparr>)"

definition BuiltInLoginModule_add_privilege ::
  "BuiltInLoginModule \<Rightarrow> oe_scalar \<Rightarrow> oe_scalar \<Rightarrow> OekMsg \<Rightarrow> BuiltInLoginModule c_result" where
  "BuiltInLoginModule_add_privilege m extentname groupname mtemplate =
     c_bind (BaseLoginModule_add_privilege (bi_basemod m) extentname groupname mtemplate) (\<lambda>b. Inr (m\<lparr>bi_basemod := b\<rparr>))"

text \<open>\<^verbatim>\<open>strncmp(pwd, trymepwd, strlen(pwd)) == 0\<close> asks whether the password of the account is a prefix of the one given.\<close>

definition builtin_login :: "BuiltInLoginModule \<Rightarrow> BuiltInLoginModule Subject \<Rightarrow> BuiltInLoginModule Subject c_result" where
  "builtin_login m s =
     (case Subject_get_username s of
        None \<Rightarrow> Inr s
      | Some username \<Rightarrow>
          (case ArenaTable_get (bi_users m) username of
             None \<Rightarrow> Inr s
           | Some uinfo \<Rightarrow>
               if Subject_is_authenticated s then Inr s
               else case Subject_get_pwd s of
                      None \<Rightarrow> Inr s
                    | Some trymepwd \<Rightarrow>
                        (case ui_pwd uinfo of
                           None \<Rightarrow> Inl Null_Deref
                         | Some pwd \<Rightarrow>
                             if take (length pwd) trymepwd \<noteq> pwd then Inr s
                             else BaseLoginModule_assign_privs bi_basemod m (Subject_status_set s SUBJECT_AUTHENTICATED)
                                    (ui_grpname uinfo))))"

definition BuiltInLoginModule_new_module :: "BuiltInLoginModule LoginModule" where
  "BuiltInLoginModule_new_module = LoginModule_new builtin_login"

section \<open>Properties\<close>

lemma authenticated_set [simp]: "Subject_is_authenticated (Subject_status_set s SUBJECT_AUTHENTICATED)"
  using FLAG_SET_exp [of 0 "sb_status s" 0] FLAG_ISSET_exp [of _ 0]
  by (simp add: Subject_is_authenticated_def Subject_status_set_def SUBJECT_AUTHENTICATED_def)

lemma authenticated_add [simp]: "Subject_is_authenticated (Subject_add_privilege s p) = Subject_is_authenticated s"
  by (simp add: Subject_is_authenticated_def Subject_add_privilege_def)

text \<open>The first privilege that has an opinion decides; without privileges the answer is the one before the loop.\<close>

lemma authorize_loop_find:
  "ps \<noteq> [] \<Longrightarrow> authorize_loop w ps msg auth =
     (case find (\<lambda>a. a \<noteq> DONTCARE) (map (\<lambda>p. Privilege_allow w p msg) ps) of None \<Rightarrow> DONTCARE | Some a \<Rightarrow> a)"
proof (induction ps arbitrary: auth)
  case (Cons p ps)
  then show ?case by (cases ps) (auto simp: Let_def)
qed simp

lemma find_ALLOW:
  "\<forall>a \<in> set as. a \<noteq> DENY \<Longrightarrow>
   (case find (\<lambda>a. a \<noteq> DONTCARE) as of None \<Rightarrow> DONTCARE | Some a \<Rightarrow> a) = (if ALLOW \<in> set as then ALLOW else DONTCARE)"
  by (induction as) (auto split: option.splits, (metis AUTH.exhaust)+)

lemma authorize_allowing:
  assumes "\<forall>p \<in> set (sb_privileges s). Privilege_allow w p msg \<noteq> DENY"
  shows "SecurityContext_authorize w ctx s msg =
    (if sb_privileges s = [] \<or> (\<exists>p \<in> set (sb_privileges s). Privilege_allow w p msg = ALLOW) then ALLOW else DENY)"
proof (cases "sb_privileges s = []")
  case False
  have "ALLOW \<in> (\<lambda>p. Privilege_allow w p msg) ` set (sb_privileges s) \<longleftrightarrow>
      (\<exists>p \<in> set (sb_privileges s). Privilege_allow w p msg = ALLOW)" by force
  then show ?thesis
    using False assms find_ALLOW [of "map (\<lambda>p. Privilege_allow w p msg) (sb_privileges s)"]
    by (simp add: SecurityContext_authorize_def Subject_get_privileges_def authorize_loop_find Let_def)
qed (simp add: SecurityContext_authorize_def Subject_get_privileges_def)

text \<open>The privilege of a group.\<close>

definition group_privilege :: "('w \<Rightarrow> BaseLoginModule) \<Rightarrow> oe_scalar \<Rightarrow> oe_scalar \<Rightarrow> 'w Privilege" where
  "group_privilege base e g = Privilege_new (\<lambda>w msg. grp_allow (get_grpinfo (base w) e g) msg)"

lemma assign_loop_privileges:
  "Subject_is_authenticated s \<Longrightarrow> assign_loop base w e gs s =
     s\<lparr>sb_privileges := sb_privileges s @ map (group_privilege base e) (filter (\<lambda>g. get_grpinfo (base w) e g \<noteq> None) gs)\<rparr>"
  by (induction gs arbitrary: s) (auto simp: Subject_add_privilege_def group_privilege_def Subject_is_authenticated_def)

lemma group_privilege_allow:
  "Privilege_allow w (group_privilege base e g) msg = grp_allow (get_grpinfo (base w) e g) msg"
  by (simp add: group_privilege_def Privilege_allow_def Privilege_new_def)

lemma grp_allow_not_DENY: "grp_allow g msg \<noteq> DENY"
  by (auto simp: grp_allow_def split: option.splits)

text \<open>The context of a server whose only login module is the built-in one.\<close>

definition builtin_context :: "BuiltInLoginModule SecurityContext" where
  "builtin_context = SecurityContext_add_module SecurityContext_new BuiltInLoginModule_new_module"


text \<open>A subject that has named itself and has not been let in yet.\<close>

definition guest :: "oe_scalar \<Rightarrow> oe_scalar \<Rightarrow> oe_scalar \<Rightarrow> 'w Subject" where
  "guest u p e = Subject_set_extentname (Subject_set_pwd (Subject_set_username Subject_new (Some u)) (Some p)) (Some e)"

lemma guest_fields [simp]:
  "sb_username (guest u p e) = Some u" "sb_extentname (guest u p e) = Some e" "sb_pwd (guest u p e) = Some p"
  "sb_privileges (guest u p e) = []" "\<not> Subject_is_authenticated (guest u p e)"
  by (simp_all add: guest_def Subject_set_extentname_def Subject_set_pwd_def Subject_set_username_def Subject_new_def
      Subject_is_authenticated_def OEC_FLAG_ISSET_def)

lemma new_skey_table: "\<exists>t :: (string, 'v) table_T. SKeyTable_arena_new 10000 = Inr t \<and> skey.tgood t \<and> ArenaTable_toArray t = []"
  using ArenaTable_new_ok [where ?hint = 10000 and ?cmp = stringcmp and ?hsh = stringhash and ?a = True]
  by (auto simp: SKeyTable_arena_new_def skey.tgood_def)


end
