(* ===== verification/Oep_Server.thy ===== *)
theory Oep_Server
  imports Session Security Kernel
begin

text \<open>
  The server side of the protocols (\<^verbatim>\<open>corelib/OepServer.c\<close>) and the closing of connections
  (\<^verbatim>\<open>corelib/OeLibevent2Factory.c\<close>), for one session.

  The functions that read and write messages are those of the protocol the server is configured with.  A command that is let
  through goes to the kernel of the session; that, the messages sent, the request to close the connection and the release of the
  session are the list \<open>sv_out\<close> of effects, oldest first.  The set of pending transactions stays in the session after it has been
  released, which is \<open>sv_txns_freed\<close>; using it then is \<^const>\<open>Use_After_Free\<close>.  \<open>'k\<close> is a kernel and \<open>'w\<close> the state of the login
  modules.
\<close>

section \<open>Servers and effects\<close>

type_synonym ('e, 'k, 'w) srv_session = "('e, 'k, OEK_Context, 'w Subject) OeSession"

record ('e, 'k, 'w) OepServer =
  os_kernels :: "(string, 'k) table_T"
  os_security_context :: "'w SecurityContext option"
  os_read_fun :: "('e, 'k, 'w) srv_session \<Rightarrow> (int \<times> OekMsg option \<times> ('e, 'k, 'w) srv_session) c_result"
  os_write_fun :: "('e, 'k, 'w) srv_session \<Rightarrow> OekMsg \<Rightarrow> (int \<times> ('e, 'k, 'w) srv_session) c_result"

datatype 'k serve = Sent OekMsg | Command 'k OEK_Context | Close | Released

record ('e, 'k, 'w) serving =
  sv_session :: "('e, 'k, 'w) srv_session"
  sv_txns_freed :: bool
  sv_sessions :: Oec_IdSet
  sv_out :: "'k serve list"

text \<open>\<^verbatim>\<open>OepServer_new\<close>, followed by \<^verbatim>\<open>OepServer_configure\<close> with the functions of the protocol.\<close>

definition OepServer_new ::
  "(('e, 'k, 'w) srv_session \<Rightarrow> (int \<times> OekMsg option \<times> ('e, 'k, 'w) srv_session) c_result) \<Rightarrow>
   (('e, 'k, 'w) srv_session \<Rightarrow> OekMsg \<Rightarrow> (int \<times> ('e, 'k, 'w) srv_session) c_result) \<Rightarrow> ('e, 'k, 'w) OepServer c_result" where
  "OepServer_new read_msg write_msg =
     c_bind (SKeyTable_new 100) (\<lambda>kernels.
       Inr \<lparr>os_kernels = kernels, os_security_context = None, os_read_fun = read_msg, os_write_fun = write_msg\<rparr>)"

definition OepServer_add_kernel :: "('e, 'k, 'w) OepServer \<Rightarrow> oe_scalar \<Rightarrow> 'k \<Rightarrow> ('e, 'k, 'w) OepServer" where
  "OepServer_add_kernel srv extentname krn =
     srv\<lparr>os_kernels := snd (Table_put (os_kernels srv) extentname krn)\<rparr>"

definition OepServer_add_login_module :: "('e, 'k, 'w) OepServer \<Rightarrow> 'w LoginModule \<Rightarrow> ('e, 'k, 'w) OepServer" where
  "OepServer_add_login_module srv m =
     (let ctx = (case os_security_context srv of None \<Rightarrow> SecurityContext_new | Some c \<Rightarrow> c)
      in srv\<lparr>os_security_context := Some (SecurityContext_add_module ctx m)\<rparr>)"

definition get_kernel :: "('e, 'k, 'w) OepServer \<Rightarrow> oe_scalar \<Rightarrow> 'k option" where
  "get_kernel srv extentname = Table_get (os_kernels srv) extentname"

definition log_effect :: "'k serve \<Rightarrow> ('e, 'k, 'w) serving \<Rightarrow> ('e, 'k, 'w) serving" where
  "log_effect x st = st\<lparr>sv_out := sv_out st @ [x]\<rparr>"

definition with_session ::
  "(('e, 'k, 'w) srv_session \<Rightarrow> ('e, 'k, 'w) srv_session) \<Rightarrow> ('e, 'k, 'w) serving \<Rightarrow> ('e, 'k, 'w) serving" where
  "with_session f st = st\<lparr>sv_session := f (sv_session st)\<rparr>"

definition srv_write :: "('e, 'k, 'w) OepServer \<Rightarrow> OekMsg \<Rightarrow> ('e, 'k, 'w) serving \<Rightarrow> ('e, 'k, 'w) serving c_result" where
  "srv_write srv msg st =
     c_bind (os_write_fun srv (sv_session st) msg) (\<lambda>(rc, s). Inr (log_effect (Sent msg) (st\<lparr>sv_session := s\<rparr>)))"

section \<open>Opening and closing a connection\<close>

text \<open>\<^verbatim>\<open>_listen_for_bytes\<close> with \<^verbatim>\<open>_watch_for_timeout\<close>: the session of a new connection, whose client has to connect before \<open>timer\<close>,
  if any, runs out.\<close>

definition listen_for_bytes ::
  "'g OeNet \<Rightarrow> 'e OeNetConn \<Rightarrow> 'e \<Rightarrow> nat option \<Rightarrow> oe_time \<Rightarrow> ('e, 'k, 'w) serving \<times> 'g OeNet" where
  "listen_for_bytes net new_conn buf_ev timer now =
     (let session = oesession_new new_conn now;
          (sid, net1) = OeNet_create_id net;
          session1 = OeSession_set_id session sid;
          idset = Oec_IdSet_put (OeNet_get_sessions net1) (OeSession_get_id session1);
          conn = (case timer of None \<Rightarrow> s_conn session1 | Some t \<Rightarrow> oenetconn_set_timeout (s_conn session1) t);
          session2 = session1\<lparr>s_conn := oenetconn_set_conn_obj conn buf_ev\<rparr>
      in (\<lparr>sv_session = session2, sv_txns_freed = False, sv_sessions = idset, sv_out = []\<rparr>, net1\<lparr>net_sessions := idset\<rparr>))"

text \<open>\<^verbatim>\<open>_orderly_cleanup_conn\<close>, which \<^verbatim>\<open>OeNet_cleanup_conn\<close> calls: the connection closes when everything is written.\<close>

definition OeNet_cleanup_conn :: "('e, 'k, 'w) serving \<Rightarrow> ('e, 'k, 'w) serving" where
  "OeNet_cleanup_conn st = log_effect Close (with_session (\<lambda>s. OeSession_state_set s OENET_CLIENT_CLOSING) st)"

section \<open>Errors and connecting\<close>

definition OEP_SERVER_CONN_TIMEOUT :: string where
  "OEP_SERVER_CONN_TIMEOUT = ''connection timed out''"

definition OEP_SERVER_ALREADY_CONNECTED :: string where
  "OEP_SERVER_ALREADY_CONNECTED = ''already connected''"

definition OEP_SERVER_ACCESS_DENIED :: string where
  "OEP_SERVER_ACCESS_DENIED = ''access denied''"

definition OEP_ERR_NOT_CONNECTED :: string where
  "OEP_ERR_NOT_CONNECTED = ''not connected''"

definition OEP_ERR_NOT_LOGGED_IN :: string where
  "OEP_ERR_NOT_LOGGED_IN = ''not logged in''"

definition OEP_ERR_CAN_NOT_PARSE :: string where
  "OEP_ERR_CAN_NOT_PARSE = ''can not parse msg''"

definition err_message :: "oe_id \<Rightarrow> oe_id \<Rightarrow> string \<Rightarrow> OekMsg c_result" where
  "err_message cid t emsg =
     c_bind (OekMsg_new OEK_ERR) (\<lambda>m0. let m = OekMsg_set_cid m0 cid in
     c_bind (OekMsg_get_err m) (\<lambda>err. Inr (m\<lparr>data := D_err (OekErr_set_message (OekErr_set_type err t) (Some emsg))\<rparr>)))"

definition srv_con_timeout_cb :: "('e, 'k, 'w) OepServer \<Rightarrow> ('e, 'k, 'w) serving \<Rightarrow> ('e, 'k, 'w) serving c_result" where
  "srv_con_timeout_cb srv st =
     (let st1 = with_session (\<lambda>s. s\<lparr>s_conn := OeNetConn_clear_timeout (s_conn s)\<rparr>) st in
      if OeSession_state_is_set (sv_session st1) OENET_CLIENT_CONNECTED then Inr st1
      else c_bind (err_message 0 0 OEP_SERVER_CONN_TIMEOUT) (\<lambda>msg.
           c_bind (srv_write srv msg st1) (\<lambda>st2. Inr (OeNet_cleanup_conn st2))))"

definition srv_send_err :: "('e, 'k, 'w) OepServer \<Rightarrow> string \<Rightarrow> oe_id \<Rightarrow> ('e, 'k, 'w) serving \<Rightarrow> ('e, 'k, 'w) serving c_result" where
  "srv_send_err srv emsg cid st = c_bind (err_message cid 1 emsg) (\<lambda>msg. srv_write srv msg st)"

text \<open>A refusal of \<^verbatim>\<open>_con_handler\<close> or \<^verbatim>\<open>_invoke_msg_handler\<close>: the result 0 makes the caller close the connection.\<close>

definition refuse ::
  "('e, 'k, 'w) OepServer \<Rightarrow> string \<Rightarrow> OekMsg \<Rightarrow> ('e, 'k, 'w) serving \<Rightarrow> (bool \<times> ('e, 'k, 'w) serving) c_result" where
  "refuse srv emsg msg st = c_bind (srv_send_err srv emsg (OekMsg_get_cid msg) st) (\<lambda>st'. Inr (False, st'))"

definition con_response :: "oe_id \<Rightarrow> oe_scalar \<Rightarrow> oe_id \<Rightarrow> OekMsg c_result" where
  "con_response cid extentname sid =
     c_bind (OekMsg_new CON_RES) (\<lambda>m0. let m = OekMsg_set_cid m0 cid in
     c_bind (OekMsg_get_con_res m) (\<lambda>res.
       Inr (m\<lparr>data := D_con_res (ConRes_set_version_upt (ConRes_set_version_min (ConRes_set_version_maj
              (ConRes_set_sid (ConRes_set_extentname res (Some extentname)) sid) 0) 5) 4)\<rparr>)))"

text \<open>The subject after the login, if the server asks for one; \<^const>\<open>None\<close> if it was not let in.\<close>

definition srv_login ::
  "('e, 'k, 'w) OepServer \<Rightarrow> 'w \<Rightarrow> 'w Subject \<Rightarrow> (bool \<times> 'w Subject) c_result" where
  "srv_login srv w s =
     (case os_security_context srv of
        None \<Rightarrow> Inr (True, s)
      | Some ctx \<Rightarrow> c_bind (SecurityContext_login w ctx s) (\<lambda>s'. Inr (Subject_is_authenticated s', s')))"

definition con_subject :: "ConCmd \<Rightarrow> oe_scalar \<Rightarrow> 'w Subject" where
  "con_subject cmd extentname =
     Subject_set_extentname (Subject_set_pwd (Subject_set_username Subject_new (ConCmd_get_username cmd)) (ConCmd_get_pwd cmd))
       (Some extentname)"

definition con_handler ::
  "('e, 'k, 'w) OepServer \<Rightarrow> 'w \<Rightarrow> OekMsg \<Rightarrow> ('e, 'k, 'w) serving \<Rightarrow> (bool \<times> ('e, 'k, 'w) serving) c_result" where
  "con_handler srv w msg st =
     (if OeSession_state_is_set (sv_session st) OENET_CLIENT_CONNECTED then refuse srv OEP_SERVER_ALREADY_CONNECTED msg st
      else c_bind (OekMsg_get_con_cmd msg) (\<lambda>cmd.
        case ConCmd_get_extentname cmd of
          None \<Rightarrow> refuse srv OEP_SERVER_ACCESS_DENIED msg st
        | Some extentname \<Rightarrow>
            c_bind (srv_login srv w (con_subject cmd extentname)) (\<lambda>(ok, subject).
              let st1 = with_session (\<lambda>s. OeSession_set_subject s (Some subject)) st in
              if \<not> ok then refuse srv OEP_SERVER_ACCESS_DENIED msg st1
              else case get_kernel srv extentname of
                     None \<Rightarrow> refuse srv OEP_SERVER_ACCESS_DENIED msg st1
                   | Some krn \<Rightarrow>
                       let st2 = with_session (\<lambda>s.
                             let s' = OeSession_state_set (OeSession_set_sess_context s (Some krn)) OENET_CLIENT_CONNECTED
                             in if ConCmd_rollback_on_disconnect cmd then OeSession_set_rb_on_disconnect s' else s') st1
                       in c_bind (con_response (OekMsg_get_cid msg) extentname (OeSession_get_id (sv_session st2))) (\<lambda>resmsg.
                          c_bind (srv_write srv resmsg st2) (\<lambda>st3. Inr (True, st3))))))"

text \<open>\<^verbatim>\<open>!OENET_CLIENT_CONNECTED\<close> is 0: no flag is cleared.\<close>

definition dis_handler :: "('e, 'k, 'w) serving \<Rightarrow> ('e, 'k, 'w) serving" where
  "dis_handler st = OeNet_cleanup_conn (with_session (\<lambda>s. OeSession_state_clear s 0) st)"

section \<open>Pending transactions\<close>

definition rollback_context :: "oe_id \<Rightarrow> OEK_Context c_result" where
  "rollback_context tid =
     c_bind (OekMsg_new UPT_CMD) (\<lambda>m0. let m = OekMsg_set_tid m0 tid in
     c_bind (OekMsg_get_upt_cmd m) (\<lambda>cmd.
       Inr (OEK_Context_new\<lparr>cx_kernel := True,
              cx_cmd_msg := Some (m\<lparr>data := D_upt_cmd (UptCmd_set_status cmd OETXN_ROLLEDBACK)\<rparr>)\<rparr>)))"

fun rollback_loop :: "'k option \<Rightarrow> oe_id list \<Rightarrow> ('e, 'k, 'w) serving \<Rightarrow> ('e, 'k, 'w) serving c_result" where
  "rollback_loop krn [] st = Inr st"
| "rollback_loop krn (tid # ts) st =
     (case krn of
        None \<Rightarrow> Inl Null_Deref
      | Some k \<Rightarrow> c_bind (rollback_context tid) (\<lambda>ctx. rollback_loop krn ts (log_effect (Command k ctx) st)))"

definition rollback_transactions :: "('e, 'k, 'w) serving \<Rightarrow> ('e, 'k, 'w) serving c_result" where
  "rollback_transactions st =
     (if \<not> OeSession_rb_on_disconnect (sv_session st) then Inr st
      else case OeSession_get_tids (sv_session st) of
             None \<Rightarrow> Inr st
           | Some txns \<Rightarrow>
               if sv_txns_freed st then Inl Use_After_Free
               else c_bind (rollback_loop (OeSession_get_sess_context (sv_session st)) (Set_toArray txns) st) (\<lambda>st'.
                    Inr (st'\<lparr>sv_txns_freed := True\<rparr>)))"

definition update_pending_txns :: "OEK_Context \<Rightarrow> ('e, 'k, 'w) serving \<Rightarrow> ('e, 'k, 'w) serving c_result" where
  "update_pending_txns ctx st =
     (case cx_res_msgs ctx of
        None \<Rightarrow> Inr st
      | Some [] \<Rightarrow> Inl Null_Deref
      | Some (resmsg # _) \<Rightarrow>
          if OekMsg_get_type resmsg = STA_RES
          then if sv_txns_freed st then Inl Use_After_Free
               else c_bind (OeSession_save_tid (sv_session st) (OekMsg_get_tid resmsg)) (\<lambda>s. Inr (st\<lparr>sv_session := s\<rparr>))
          else if OekMsg_get_type resmsg = UPT_RES
          then c_bind (OekMsg_get_upt_res resmsg) (\<lambda>res.
                 if UptRes_get_status res = OETXN_ACTIVE then Inr st
                 else if sv_txns_freed st then Inl Use_After_Free
                 else c_bind (OeSession_clear_tid (sv_session st) (OekMsg_get_tid resmsg)) (\<lambda>(r, s). Inr (st\<lparr>sv_session := s\<rparr>)))
          else Inr st)"

section \<open>Answers of the kernel\<close>

fun write_all :: "('e, 'k, 'w) OepServer \<Rightarrow> OekMsg list \<Rightarrow> ('e, 'k, 'w) serving \<Rightarrow> ('e, 'k, 'w) serving c_result" where
  "write_all srv [] st = Inr st"
| "write_all srv (m # ms) st = c_bind (srv_write srv m st) (write_all srv ms)"

definition write_to_client_cb ::
  "('e, 'k, 'w) OepServer \<Rightarrow> OEK_Context \<Rightarrow> ('e, 'k, 'w) serving \<Rightarrow> ('e, 'k, 'w) serving c_result" where
  "write_to_client_cb srv ctx st =
     c_bind (update_pending_txns ctx st) (\<lambda>st1.
     c_bind (OeSession_decr_task_count (sv_session st1)) (\<lambda>(tasks, s).
       let st2 = st1\<lparr>sv_session := s\<rparr>;
           client_disconnected = (\<not> OeSession_state_is_set s OENET_CLIENT_CONNECTED)
       in if tasks = 0 \<and> client_disconnected
          then c_bind (rollback_transactions st2) (\<lambda>st3. Inr (OeNet_cleanup_conn st3))
          else if client_disconnected then Inr st2
          else case cx_err_msg ctx of
                 Some err \<Rightarrow> c_bind (srv_write srv err st2) (\<lambda>st3. Inr (OeNet_cleanup_conn st3))
               | None \<Rightarrow> write_all srv (case cx_res_msgs ctx of None \<Rightarrow> [] | Some ms \<Rightarrow> ms) st2))"

section \<open>Commands\<close>

text \<open>The tests before a command is looked at: \<^const>\<open>None\<close> lets it through, otherwise the text of the refusal.\<close>

definition access_check :: "('e, 'k, 'w) OepServer \<Rightarrow> 'w \<Rightarrow> OekMsg \<Rightarrow> ('e, 'k, 'w) srv_session \<Rightarrow> string option" where
  "access_check srv w msg s =
     (if OekMsg_get_type msg = CON_CMD then None
      else case os_security_context srv of
             None \<Rightarrow> None
           | Some ctx \<Rightarrow>
               (case OeSession_get_subject s of
                  None \<Rightarrow> Some OEP_ERR_NOT_LOGGED_IN
                | Some subject \<Rightarrow>
                    if \<not> Subject_is_authenticated subject then Some OEP_ERR_NOT_LOGGED_IN
                    else if SecurityContext_authorize w ctx subject msg \<noteq> ALLOW then Some OEP_SERVER_ACCESS_DENIED
                    else None))"

text \<open>A command for the kernel counts as a task of the session until it is answered.\<close>

definition submit :: "'k \<Rightarrow> OEK_Context \<Rightarrow> ('e, 'k, 'w) serving \<Rightarrow> (bool \<times> ('e, 'k, 'w) serving) c_result" where
  "submit krn ctx st =
     c_bind (OeSession_incr_task_count (sv_session st)) (\<lambda>(n, s).
       Inr (True, log_effect (Command krn ctx) (st\<lparr>sv_session := s\<rparr>)))"

definition invoke_msg_handler ::
  "('e, 'k, 'w) OepServer \<Rightarrow> 'w \<Rightarrow> oe_time \<Rightarrow> OekMsg \<Rightarrow> OEK_Context \<Rightarrow> ('e, 'k, 'w) serving \<Rightarrow>
   (bool \<times> ('e, 'k, 'w) serving) c_result" where
  "invoke_msg_handler srv w now msg ctx0 st =
     (let mtype = OekMsg_get_type msg; ctx1 = ctx0\<lparr>cx_write_response_cb := True, cx_cmd_msg := Some msg\<rparr> in
      case access_check srv w msg (sv_session st) of
        Some emsg \<Rightarrow> refuse srv emsg msg st
      | None \<Rightarrow>
          if mtype = CON_CMD then con_handler srv w msg st
          else case OeSession_get_sess_context (sv_session st) of
                 None \<Rightarrow> refuse srv OEP_ERR_NOT_LOGGED_IN msg st
               | Some krn \<Rightarrow>
                   let ctx = ctx1\<lparr>cx_kernel := True\<rparr> in
                   if mtype = DIS_CMD then Inr (True, dis_handler st)
                   else if mtype = GET_CMD
                   then c_bind (OekMsg_get_get_cmd msg) (\<lambda>cmd.
                          submit krn (ctx\<lparr>cx_expire_time := now + GetCmd_get_timeout cmd\<rparr>) st)
                   else if mtype \<in> {PUT_CMD, STA_CMD, UPT_CMD, UPL_CMD} then submit krn ctx st
                   else Inl Assert_Failed)"

section \<open>Reading\<close>

definition srv_cleanup :: "('e, 'k, 'w) serving \<Rightarrow> ('e, 'k, 'w) serving c_result" where
  "srv_cleanup st =
     (if OeSession_get_task_count (sv_session st) = 0 then rollback_transactions st else Inr st)"

definition create_context :: "oe_time \<Rightarrow> OEK_Context" where
  "create_context now = OEK_Context_new\<lparr>cx_start_time := now\<rparr>"

text \<open>One message: the result tells whether there may be another one to read.  What \<^verbatim>\<open>read_fun\<close> leaves in \<^verbatim>\<open>msg\<close> after a partial
  read is what was there before.\<close>

definition on_message ::
  "('e, 'k, 'w) OepServer \<Rightarrow> 'w \<Rightarrow> oe_time \<Rightarrow> ('e, 'k, 'w) serving \<Rightarrow> (bool \<times> ('e, 'k, 'w) serving) c_result" where
  "on_message srv w now st =
     (let ctx = (case OeSession_get_appl_context (sv_session st) of None \<Rightarrow> create_context now | Some c \<Rightarrow> c);
          st0 = with_session (\<lambda>s. OeSession_set_appl_context s (Some ctx)) st
      in c_bind (os_read_fun srv (sv_session st0)) (\<lambda>(rc, mo, s1).
           let st1 = st0\<lparr>sv_session := s1\<rparr> in
           if rc < 0
           then c_bind (srv_send_err srv OEP_ERR_CAN_NOT_PARSE 0 st1) (\<lambda>st2. Inr (False, OeNet_cleanup_conn st2))
           else case mo of
                  None \<Rightarrow> Inr (False, st1)
                | Some msg \<Rightarrow>
                    let st2 = with_session (\<lambda>s. OeSession_set_appl_context s None) st1 in
                    if \<not> OeSession_state_is_set (sv_session st2) OENET_CLIENT_CONNECTED \<and> OekMsg_get_type msg \<noteq> CON_CMD
                    then c_bind (srv_send_err srv OEP_ERR_NOT_CONNECTED (OekMsg_get_cid msg) st2) (\<lambda>st3.
                           Inr (False, OeNet_cleanup_conn st3))
                    else c_bind (invoke_msg_handler srv w now msg ctx st2) (\<lambda>(ok, st3).
                           if ok then Inr (0 < OeNetConn_available (OeSession_get_conn (sv_session st3)), st3)
                           else Inr (False, OeNet_cleanup_conn st3))))"

text \<open>\<^verbatim>\<open>_buffered_on_read\<close> calls itself for the next message; \<open>n\<close> bounds the messages.\<close>

fun buffered_on_read ::
  "nat \<Rightarrow> ('e, 'k, 'w) OepServer \<Rightarrow> 'w \<Rightarrow> oe_time \<Rightarrow> ('e, 'k, 'w) serving \<Rightarrow> ('e, 'k, 'w) serving c_result" where
  "buffered_on_read 0 srv w now st = Inl Fuel_Spent"
| "buffered_on_read (Suc n) srv w now st =
     (if OeSession_state_is_set (sv_session st) OENET_CLIENT_CLOSING then srv_cleanup st
      else c_bind (on_message srv w now st) (\<lambda>(again, st'). if again then buffered_on_read n srv w now st' else Inr st'))"

section \<open>The end of a session\<close>

text \<open>\<^verbatim>\<open>_cleanup_conn\<close>, called when the peer has closed or everything is written: the session is released once no command is
  outstanding, after its read callback has seen the end.\<close>

definition cleanup_conn ::
  "('e, 'k, 'w) OepServer \<Rightarrow> 'w \<Rightarrow> oe_time \<Rightarrow> ('e, 'k, 'w) serving \<Rightarrow> ('e, 'k, 'w) serving c_result" where
  "cleanup_conn srv w now st =
     (let st1 = with_session (\<lambda>s.
            let s' = OeSession_state_set (OeSession_state_clear s OENET_CLIENT_CONNECTED) OENET_CLIENT_CLOSING
            in s'\<lparr>s_conn := OeNetConn_clear_timeout (s_conn s')\<rparr>) st
      in if OeSession_get_task_count (sv_session st1) \<noteq> 0 then Inr st1
         else let st2 = st1\<lparr>sv_sessions := snd (Oec_IdSet_remove (sv_sessions st1) (OeSession_get_id (sv_session st1)))\<rparr>
              in c_bind (buffered_on_read 1 srv w now st2) (\<lambda>st3. Inr (log_effect Released st3)))"

end
