(* ===== verification/Doubles.thy ===== *)
theory Doubles
  imports Complex_Main "HOL-Library.Log_Nat" Values
begin

text \<open>
  The floating-point numbers of \<^verbatim>\<open>corelib/cJSON.c\<close>: C's \<^verbatim>\<open>double\<close> in the IEEE format with 53 bits, round to nearest even, as
  the rational number it stands for.  A value that is not finite is \<^const>\<open>None\<close>; every operation used here keeps it so.
  \<^verbatim>\<open>pow(10.0, k)\<close> is taken to be correctly rounded, and \<^verbatim>\<open>sprintf\<close> to print the nearest decimal.
\<close>

type_synonym double = "rat option"

definition scaled :: "int \<Rightarrow> int \<Rightarrow> rat" where
  "scaled b k = (if 0 \<le> k then of_int b ^ nat k else 1 / of_int b ^ nat (- k))"

definition nearest_even :: "rat \<Rightarrow> int" where
  "nearest_even x =
     (let f = \<lfloor>x\<rfloor>; r = x - of_int f
      in if r < 1 / 2 \<or> r = 1 / 2 \<and> even f then f else f + 1)"

text \<open>The exponent of the leading bit.\<close>

definition leading :: "rat \<Rightarrow> int" where
  "leading x =
     (let (n, d) = quotient_of \<bar>x\<bar>; e = bitlen n - bitlen d
      in if scaled 2 e \<le> \<bar>x\<bar> then e else e - 1)"

definition rounded :: "rat \<Rightarrow> rat" where
  "rounded x =
     (if x = 0 then 0
      else let q = scaled 2 (max (leading x - 52) (- 1074)) in of_int (nearest_even (x / q)) * q)"

definition finite_double :: "rat \<Rightarrow> double" where
  "finite_double x = (let r = rounded x in if \<bar>r\<bar> < 2 ^ 1024 then Some r else None)"

fun d_mult :: "double \<Rightarrow> double \<Rightarrow> double" where
  "d_mult (Some x) (Some y) = finite_double (x * y)"
| "d_mult x y = None"

fun d_add :: "double \<Rightarrow> double \<Rightarrow> double" where
  "d_add (Some x) (Some y) = finite_double (x + y)"
| "d_add x y = None"

definition pow10 :: "int \<Rightarrow> double" where
  "pow10 k = finite_double (scaled 10 k)"

definition DBL_EPSILON :: rat where
  "DBL_EPSILON = 1 / 2 ^ 52"

text \<open>\<^verbatim>\<open>(int) d\<close> drops the fraction; what does not fit is undefined.\<close>

definition int_fits :: "int \<Rightarrow> bool" where
  "int_fits i = (- (2 ^ 31) \<le> i \<and> i < 2 ^ 31)"

definition to_int :: "double \<Rightarrow> int c_result" where
  "to_int d =
     (case d of
        None \<Rightarrow> Inl Int_Overflow
      | Some x \<Rightarrow> let i = (if 0 \<le> x then \<lfloor>x\<rfloor> else \<lceil>x\<rceil>) in if int_fits i then Inr i else Inl Int_Overflow)"

section \<open>Printing\<close>

definition digits6 :: "int \<Rightarrow> string" where
  "digits6 n = (let s = dec_nat (nat n) in replicate (6 - length s) (CHR ''0'') @ s)"

definition sign_text :: "rat \<Rightarrow> string" where
  "sign_text x = (if x < 0 then ''-'' else [])"

text \<open>\<^verbatim>\<open>%.0f\<close>, \<^verbatim>\<open>%f\<close> and \<^verbatim>\<open>%e\<close>.\<close>

definition print_0f :: "rat \<Rightarrow> string" where
  "print_0f x = sign_text x @ dec_nat (nat (nearest_even \<bar>x\<bar>))"

definition print_f :: "rat \<Rightarrow> string" where
  "print_f x =
     (let m = nearest_even (\<bar>x\<bar> * 10 ^ 6)
      in sign_text x @ dec_nat (nat (m div 10 ^ 6)) @ ''.'' @ digits6 (m mod 10 ^ 6))"

definition leading10 :: "rat \<Rightarrow> int" where
  "leading10 x = (if x = 0 then 0 else last (filter (\<lambda>e. scaled 10 e \<le> \<bar>x\<bar>) [-400..400]))"

definition print_e :: "rat \<Rightarrow> string" where
  "print_e x =
     (let e0 = leading10 x; m0 = nearest_even (\<bar>x\<bar> / scaled 10 e0 * 10 ^ 6);
          (m, e) = (if m0 = 10 ^ 7 then (10 ^ 6, e0 + 1) else (m0, e0))
      in sign_text x @ dec_nat (nat (m div 10 ^ 6)) @ ''.'' @ digits6 (m mod 10 ^ 6) @ ''e'' @
         (if e < 0 then ''-'' else ''+'') @ (if \<bar>e\<bar> < 10 then ''0'' else []) @ dec_nat (nat \<bar>e\<bar>))"

section \<open>Integers\<close>

lemma nearest_even_of_int [simp]: "nearest_even (of_int i) = i"
  by (simp add: nearest_even_def)

lemma scaled_pow: "0 \<le> k \<Longrightarrow> scaled b k = of_int (b ^ nat k)"
  by (simp add: scaled_def)

lemma leading_int:
  assumes "\<bar>i\<bar> < 2 ^ 53"
  shows "leading (of_int i) \<le> 52"
proof -
  have q: "quotient_of \<bar>of_int i\<bar> = (\<bar>i\<bar>, 1)" by (simp flip: of_int_abs)
  let ?e = "bitlen \<bar>i\<bar> - 1"
  have b: "bitlen \<bar>i\<bar> \<le> 53" using bitlen_le_iff_power [of "\<bar>i\<bar>" 53] assms by simp
  then show ?thesis by (simp add: leading_def q bitlen_def floorlog_def Let_def)
qed

text \<open>An integer of at most 53 bits is a \<^verbatim>\<open>double\<close>.\<close>

lemma rounded_int:
  assumes "\<bar>i\<bar> < 2 ^ 53"
  shows "rounded (of_int i) = of_int i"
proof (cases "i = 0")
  case False
  define k where "k = max (leading (of_int i) - 52) (- 1074)"
  have k: "k \<le> 0" using leading_int [OF assms] by (simp add: k_def)
  have q: "scaled 2 k = 1 / of_int (2 ^ nat (- k))" using k by (auto simp: scaled_def)
  have "of_int i / scaled 2 k = of_int (i * 2 ^ nat (- k))" by (simp add: q)
  then have "nearest_even (of_int i / scaled 2 k) = i * 2 ^ nat (- k)" by (metis nearest_even_of_int)
  then show ?thesis using False by (simp add: rounded_def q flip: k_def)
qed (simp add: rounded_def)

lemma finite_int: "\<bar>i\<bar> < 2 ^ 53 \<Longrightarrow> finite_double (of_int i) = Some (of_int i)"
proof -
  assume i: "\<bar>i\<bar> < 2 ^ 53"
  then have "\<bar>of_int i :: rat\<bar> < of_int (2 ^ 53)" unfolding of_int_abs [symmetric] of_int_less_iff .
  also have "of_int (2 ^ 53) \<le> (2 :: rat) ^ 1024" by simp
  finally show ?thesis by (simp add: finite_double_def rounded_int [OF i])
qed

lemma d_add_int: "\<bar>i + j\<bar> < 2 ^ 53 \<Longrightarrow> d_add (Some (of_int i)) (Some (of_int j)) = Some (of_int (i + j))"
  using finite_int [of "i + j"] by simp

lemma d_mult_int: "\<bar>i * j\<bar> < 2 ^ 53 \<Longrightarrow> d_mult (Some (of_int i)) (Some (of_int j)) = Some (of_int (i * j))"
  using finite_int [of "i * j"] by simp

lemma pow10_0 [simp]: "pow10 0 = Some 1"
  using finite_int [of 1] by (simp add: pow10_def scaled_def)

lemma to_int_of_int [simp]: "to_int (Some (of_int i)) = (if int_fits i then Inr i else Inl Int_Overflow)"
  by (simp add: to_int_def)

end
