(* ===== verification/Cjson.thy ===== *)
theory Cjson
  imports Doubles
begin

text \<open>
  The JSON library the repository carries (\<^verbatim>\<open>corelib/cJSON.c\<close>), as far as the JSON protocol uses it.

  A pointer into a text is the rest of its block from there on, the terminating NUL and whatever follows it included; reading
  past the block is \<^const>\<open>Out_Of_Bounds\<close>.  A parser returns \<^const>\<open>None\<close> for the NULL of the code.  The texts of items are C strings,
  so an escaped NUL cuts them.  The recursion of the parser is bounded by fuel; \<open>Cjson_Props\<close> shows that it is never spent.
  Memory is not exhausted, and texts are shorter than \<^verbatim>\<open>INT_MAX\<close>.
\<close>

section \<open>Items\<close>

text \<open>The members of an object and the items of an array are the chain of \<^verbatim>\<open>child\<close>.  A number has its \<^verbatim>\<open>valueint\<close> and its
  \<^verbatim>\<open>valuedouble\<close>.\<close>

datatype cJSON =
    cJSON_False | cJSON_True | cJSON_NULL
  | cJSON_Number int rat
  | cJSON_String string
  | cJSON_Array "cJSON list"
  | cJSON_Object "(string \<times> cJSON) list"

fun valuestring :: "cJSON \<Rightarrow> string option" where
  "valuestring (cJSON_String s) = Some s"
| "valuestring v = None"

definition tolower :: "char \<Rightarrow> nat" where
  "tolower c = (let n = of_char c in if 65 \<le> n \<and> n \<le> (90 :: nat) then n + 32 else n)"

text \<open>On two C strings: the loop ends at the first difference, or at the NUL of both.\<close>

fun cJSON_strcasecmp :: "string \<Rightarrow> string \<Rightarrow> int" where
  "cJSON_strcasecmp [] [] = 0"
| "cJSON_strcasecmp [] (d # ds) = - int (tolower d)"
| "cJSON_strcasecmp (c # cs) [] = int (tolower c)"
| "cJSON_strcasecmp (c # cs) (d # ds) =
     (if tolower c = tolower d then cJSON_strcasecmp cs ds else int (tolower c) - int (tolower d))"

fun cJSON_GetArraySize :: "cJSON \<Rightarrow> nat" where
  "cJSON_GetArraySize (cJSON_Array xs) = length xs"
| "cJSON_GetArraySize (cJSON_Object ms) = length ms"
| "cJSON_GetArraySize v = 0"

text \<open>The items of an array have no names, and a comparison with NULL is not 0.\<close>

fun cJSON_GetObjectItem :: "cJSON \<Rightarrow> string \<Rightarrow> cJSON option" where
  "cJSON_GetObjectItem (cJSON_Object ms) name = map_option snd (find (\<lambda>(k, v). cJSON_strcasecmp k name = 0) ms)"
| "cJSON_GetObjectItem v name = None"

definition cJSON_CreateNumber :: "double \<Rightarrow> cJSON c_result" where
  "cJSON_CreateNumber num = c_bind (to_int num) (\<lambda>i. Inr (cJSON_Number i (the num)))"

text \<open>\<^verbatim>\<open>cJSON_strdup(NULL)\<close> takes the length of a NULL string.\<close>

definition cJSON_CreateString :: "string option \<Rightarrow> cJSON c_result" where
  "cJSON_CreateString s = (case s of None \<Rightarrow> Inl Null_Deref | Some t \<Rightarrow> Inr (cJSON_String t))"

text \<open>Items are only added to what was created as an array or an object.\<close>

fun cJSON_AddItemToArray :: "cJSON \<Rightarrow> cJSON \<Rightarrow> cJSON" where
  "cJSON_AddItemToArray (cJSON_Array xs) item = cJSON_Array (xs @ [item])"
| "cJSON_AddItemToArray v item = v"

fun cJSON_AddItemToObject :: "cJSON \<Rightarrow> string \<Rightarrow> cJSON \<Rightarrow> cJSON" where
  "cJSON_AddItemToObject (cJSON_Object ms) name item = cJSON_Object (ms @ [(name, item)])"
| "cJSON_AddItemToObject v name item = v"

section \<open>Parser\<close>

type_synonym 'a json_parsed = "('a \<times> string) option c_result"

definition char_at :: "string \<Rightarrow> char c_result" where
  "char_at s = (case s of [] \<Rightarrow> Inl Out_Of_Bounds | c # _ \<Rightarrow> Inr c)"

fun skip :: "string \<Rightarrow> string c_result" where
  "skip [] = Inl Out_Of_Bounds"
| "skip (c # s) = (if of_char c \<le> (32 :: nat) then skip s else Inr (c # s))"

text \<open>\<^verbatim>\<open>value = skip(parse(...)); if (!value) return 0;\<close> and then the rest.\<close>

definition then_skip :: "'a json_parsed \<Rightarrow> ('a \<Rightarrow> string \<Rightarrow> 'b json_parsed) \<Rightarrow> 'b json_parsed" where
  "then_skip p f = c_bind p (\<lambda>r. case r of None \<Rightarrow> Inr None | Some (v, s) \<Rightarrow> c_bind (skip s) (f v))"

text \<open>\<^verbatim>\<open>!strncmp(value, word, strlen(word))\<close>.\<close>

fun begins :: "string \<Rightarrow> string \<Rightarrow> bool c_result" where
  "begins s [] = Inr True"
| "begins [] (k # ks) = Inl Out_Of_Bounds"
| "begins (c # s) (k # ks) = (if c = k then begins s ks else Inr False)"

subsection \<open>Numbers\<close>

text \<open>\<^verbatim>\<open>n=(n*10.0)+(*num++ -'0')\<close>.\<close>

definition next_digit :: "double \<Rightarrow> char \<Rightarrow> double" where
  "next_digit n c = d_add (d_mult n (Some 10)) (Some (of_int (schar c - 48)))"

fun digits_loop :: "double \<Rightarrow> string \<Rightarrow> (double \<times> string) c_result" where
  "digits_loop n [] = Inl Out_Of_Bounds"
| "digits_loop n (c # s) = (if is_digit c then digits_loop (next_digit n c) s else Inr (n, c # s))"

text \<open>The digits behind a point; the first character is taken for one without a look at it.\<close>

fun fraction_loop :: "double \<Rightarrow> int \<Rightarrow> string \<Rightarrow> (double \<times> int \<times> string) c_result" where
  "fraction_loop n scale [] = Inl Out_Of_Bounds"
| "fraction_loop n scale (c # s) =
     (if is_digit c then fraction_loop (next_digit n c) (scale - 1) s else Inr (n, scale, c # s))"

fun exponent_loop :: "int \<Rightarrow> string \<Rightarrow> (int \<times> string) c_result" where
  "exponent_loop k [] = Inl Out_Of_Bounds"
| "exponent_loop k (c # s) =
     (if is_digit c
      then if int_fits (k * 10 + (schar c - 48)) then exponent_loop (k * 10 + (schar c - 48)) s else Inl Int_Overflow
      else Inr (k, c # s))"

definition parse_sign :: "string \<Rightarrow> (int \<times> string) c_result" where
  "parse_sign s = c_bind (char_at s) (\<lambda>c. Inr (if c = CHR ''-'' then (- 1, tl s) else (1, s)))"

definition parse_zero :: "string \<Rightarrow> string c_result" where
  "parse_zero s = c_bind (char_at s) (\<lambda>c. Inr (if c = CHR ''0'' then tl s else s))"

definition parse_whole :: "string \<Rightarrow> (double \<times> string) c_result" where
  "parse_whole s =
     c_bind (char_at s) (\<lambda>c.
       if is_digit c \<and> c \<noteq> CHR ''0'' then digits_loop (next_digit (Some 0) c) (tl s) else Inr (Some 0, s))"

definition parse_fraction :: "double \<Rightarrow> string \<Rightarrow> (double \<times> int \<times> string) c_result" where
  "parse_fraction n s =
     c_bind (char_at s) (\<lambda>c.
       if c = CHR ''.''
       then c_bind (char_at (tl s)) (\<lambda>d. fraction_loop (next_digit n d) (- 1) (tl (tl s)))
       else Inr (n, 0, s))"

definition parse_exponent :: "string \<Rightarrow> (int \<times> string) c_result" where
  "parse_exponent s =
     c_bind (char_at s) (\<lambda>c.
       if c = CHR ''e'' \<or> c = CHR ''E''
       then c_bind (char_at (tl s)) (\<lambda>d.
              let (sgn, s1) = (if d = CHR ''+'' then (1, tl (tl s)) else if d = CHR ''-'' then (- 1, tl (tl s)) else (1, tl s))
              in c_bind (exponent_loop 0 s1) (\<lambda>(k, s2). Inr (sgn * k, s2)))
       else Inr (0, s))"

definition parse_number :: "string \<Rightarrow> cJSON json_parsed" where
  "parse_number s =
     c_bind (parse_sign s) (\<lambda>(sign, s1).
     c_bind (parse_zero s1) (\<lambda>s2.
     c_bind (parse_whole s2) (\<lambda>(n, s3).
     c_bind (parse_fraction n s3) (\<lambda>(n', scale, s4).
     c_bind (parse_exponent s4) (\<lambda>(subscale, s5).
     let d = d_mult (d_mult (Some (of_int sign)) n') (pow10 (scale + subscale))
     in c_bind (to_int d) (\<lambda>i. Inr (Some (cJSON_Number i (the d), s5))))))))"

subsection \<open>Strings\<close>

definition is_quote :: "char \<Rightarrow> bool" where
  "is_quote c = (c = CHR 0x22)"

definition is_backslash :: "char \<Rightarrow> bool" where
  "is_backslash c = (c = CHR 0x5C)"

text \<open>\<^verbatim>\<open>*ptr!='\"' && (unsigned char)*ptr>31\<close> does not hold.\<close>

definition string_stop :: "char \<Rightarrow> bool" where
  "string_stop c = (is_quote c \<or> of_char c \<le> (31 :: nat))"

text \<open>The first pass counts, an escape as one.\<close>

fun string_len :: "string \<Rightarrow> nat c_result" where
  "string_len [] = Inl Out_Of_Bounds"
| "string_len [c] = (if string_stop c then Inr 0 else Inl Out_Of_Bounds)"
| "string_len (c # d # s) =
     (if string_stop c then Inr 0
      else c_bind (if is_backslash c then string_len s else string_len (d # s)) (\<lambda>n. Inr (Suc n)))"

text \<open>\<^verbatim>\<open>sscanf(p, "%4x", &uc)\<close>, where \<^verbatim>\<open>uc\<close> keeps its value when there is no number.\<close>

definition hex_digit :: "char \<Rightarrow> nat option" where
  "hex_digit c =
     (let n = of_char c in
      if 48 \<le> n \<and> n \<le> (57 :: nat) then Some (n - 48)
      else if 65 \<le> n \<and> n \<le> 70 then Some (n - 55)
      else if 97 \<le> n \<and> n \<le> 102 then Some (n - 87) else None)"

definition scan_hex4 :: "string \<Rightarrow> 32 word option \<Rightarrow> 32 word option c_result" where
  "scan_hex4 s uc =
     (if NUL \<notin> set s then Inl Out_Of_Bounds
      else let t = take 4 (takeWhile (\<lambda>c. c \<noteq> NUL) (dropWhile isspace s));
               neg = (take 1 t = ''-'');
               u = (if take 1 t = ''-'' \<or> take 1 t = ''+'' then tl t else t);
               v = (if take 2 u = ''0x'' \<or> take 2 u = ''0X'' then drop 2 u else u);
               ds = takeWhile (\<lambda>c. hex_digit c \<noteq> None) v;
               n = foldl (\<lambda>a c. 16 * a + the (hex_digit c)) 0 ds
           in Inr (if ds = [] then uc else Some (if neg then - word_of_nat n else word_of_nat n)))"

text \<open>The bytes of \<^verbatim>\<open>uc\<close> in UTF-8, one to three of them.\<close>

definition low_byte :: "32 word \<Rightarrow> char" where
  "low_byte w = char_of (unat w mod 256)"

definition utf8 :: "32 word \<Rightarrow> string" where
  "utf8 uc =
     (let tail = (\<lambda>w. low_byte ((w OR 0x80) AND 0xBF)) in
      if uc < 0x80 then [low_byte uc]
      else if uc < 0x800 then [low_byte (drop_bit 6 uc OR 0xC0), tail uc]
      else [low_byte (drop_bit 6 (drop_bit 6 uc) OR 0xE0), tail (drop_bit 6 uc), tail uc])"

definition unescaped :: "char \<Rightarrow> char" where
  "unescaped c =
     (if c = CHR ''b'' then CHR 0x08 else if c = CHR ''f'' then CHR 0x0C else if c = CHR ''n'' then CHR 0x0A
      else if c = CHR ''r'' then CHR 0x0D else if c = CHR ''t'' then CHR 0x09 else c)"

text \<open>The second pass copies into a block of \<open>cap\<close> bytes, of which \<open>out\<close> are written.\<close>

definition put_bytes :: "nat \<Rightarrow> string \<Rightarrow> string \<Rightarrow> string c_result" where
  "put_bytes cap out bs = (if length out + length bs \<le> cap then Inr (out @ bs) else Inl Out_Of_Bounds)"

function copy_string :: "nat \<Rightarrow> 32 word option \<Rightarrow> string \<Rightarrow> string \<Rightarrow> (string \<times> string) c_result" where
  "copy_string cap uc out [] = Inl Out_Of_Bounds"
| "copy_string cap uc out (c # s) =
     (if string_stop c
      then c_bind (put_bytes cap out [NUL]) (\<lambda>_. Inr (out, if is_quote c then s else c # s))
      else if \<not> is_backslash c then c_bind (put_bytes cap out [c]) (\<lambda>out1. copy_string cap uc out1 s)
      else case s of
             [] \<Rightarrow> Inl Out_Of_Bounds
           | e # s1 \<Rightarrow>
               if e = CHR ''u''
               then c_bind (scan_hex4 s1 uc) (\<lambda>uc1.
                      case uc1 of
                        None \<Rightarrow> Inl Uninitialised
                      | Some w \<Rightarrow> c_bind (put_bytes cap out (utf8 w)) (\<lambda>out1. copy_string cap uc1 out1 (drop 4 s1)))
               else c_bind (put_bytes cap out [unescaped e]) (\<lambda>out1. copy_string cap uc out1 s1))"
  by pat_completeness auto
termination
  by (relation "measure (\<lambda>(cap, uc, out, s). length s)") auto

definition parse_string :: "string \<Rightarrow> string json_parsed" where
  "parse_string s =
     c_bind (char_at s) (\<lambda>c.
       if \<not> is_quote c then Inr None
       else c_bind (string_len (tl s)) (\<lambda>len.
            c_bind (copy_string (len + 1) None [] (tl s)) (\<lambda>(out, rest).
              Inr (Some (takeWhile (\<lambda>c. c \<noteq> NUL) out, rest)))))"

subsection \<open>Values\<close>

text \<open>A member of an object: its name, a colon and its value, parsed by \<open>pv\<close>.\<close>

definition parse_member :: "(string \<Rightarrow> cJSON json_parsed) \<Rightarrow> string \<Rightarrow> (string \<times> cJSON) json_parsed" where
  "parse_member pv s =
     c_bind (skip s) (\<lambda>s1.
     then_skip (parse_string s1) (\<lambda>name s2.
       c_bind (char_at s2) (\<lambda>c.
         if c \<noteq> CHR '':'' then Inr None
         else c_bind (skip (tl s2)) (\<lambda>s3.
              c_bind (pv s3) (\<lambda>r. Inr (map_option (\<lambda>(v, s4). ((name, v), s4)) r))))))"

text \<open>The loops over what follows a comma; \<open>pv\<close> parses a value.\<close>

primrec array_loop :: "(string \<Rightarrow> cJSON json_parsed) \<Rightarrow> nat \<Rightarrow> cJSON list \<Rightarrow> string \<Rightarrow> cJSON json_parsed" where
  "array_loop pv 0 vs s = Inl Fuel_Spent"
| "array_loop pv (Suc n) vs s =
     c_bind (char_at s) (\<lambda>c.
       if c = CHR '','' then c_bind (skip (tl s)) (\<lambda>s1. then_skip (pv s1) (\<lambda>v. array_loop pv n (vs @ [v])))
       else if c = CHR '']'' then Inr (Some (cJSON_Array vs, tl s))
       else Inr None)"

definition parse_array :: "(string \<Rightarrow> cJSON json_parsed) \<Rightarrow> nat \<Rightarrow> string \<Rightarrow> cJSON json_parsed" where
  "parse_array pv n s =
     c_bind (skip (tl s)) (\<lambda>s1. c_bind (char_at s1) (\<lambda>c.
       if c = CHR '']'' then Inr (Some (cJSON_Array [], tl s1))
       else c_bind (skip s1) (\<lambda>s2. then_skip (pv s2) (\<lambda>v. array_loop pv n [v]))))"

primrec object_loop :: "(string \<Rightarrow> cJSON json_parsed) \<Rightarrow> nat \<Rightarrow> (string \<times> cJSON) list \<Rightarrow> string \<Rightarrow> cJSON json_parsed" where
  "object_loop pv 0 ms s = Inl Fuel_Spent"
| "object_loop pv (Suc n) ms s =
     c_bind (char_at s) (\<lambda>c.
       if c = CHR '','' then then_skip (parse_member pv (tl s)) (\<lambda>m. object_loop pv n (ms @ [m]))
       else if c = CHR ''}'' then Inr (Some (cJSON_Object ms, tl s))
       else Inr None)"

definition parse_object :: "(string \<Rightarrow> cJSON json_parsed) \<Rightarrow> nat \<Rightarrow> string \<Rightarrow> cJSON json_parsed" where
  "parse_object pv n s =
     c_bind (skip (tl s)) (\<lambda>s1. c_bind (char_at s1) (\<lambda>c.
       if c = CHR ''}'' then Inr (Some (cJSON_Object [], tl s1))
       else then_skip (parse_member pv s1) (\<lambda>m. object_loop pv n [m])))"

primrec parse_value :: "nat \<Rightarrow> string \<Rightarrow> cJSON json_parsed" where
  "parse_value 0 s = Inl Fuel_Spent"
| "parse_value (Suc n) s =
     c_bind (begins s ''null'') (\<lambda>b. if b then Inr (Some (cJSON_NULL, drop 4 s)) else
     c_bind (begins s ''false'') (\<lambda>b. if b then Inr (Some (cJSON_False, drop 5 s)) else
     c_bind (begins s ''true'') (\<lambda>b. if b then Inr (Some (cJSON_True, drop 4 s)) else
     c_bind (char_at s) (\<lambda>c.
       if is_quote c then c_bind (parse_string s) (\<lambda>r. Inr (map_option (\<lambda>(t, rest). (cJSON_String t, rest)) r))
       else if c = CHR ''-'' \<or> is_digit c then parse_number s
       else if c = CHR ''['' then parse_array (parse_value n) n s
       else if c = CHR ''{'' then parse_object (parse_value n) n s
       else Inr None))))"

definition cJSON_Parse :: "string \<Rightarrow> cJSON option c_result" where
  "cJSON_Parse block =
     c_bind (skip block) (\<lambda>s. c_bind (parse_value (Suc (length s)) s) (\<lambda>r. Inr (map_option fst r)))"

section \<open>Printer\<close>

definition print_number :: "int \<Rightarrow> rat \<Rightarrow> string c_result" where
  "print_number i d =
     (if \<bar>rounded (of_int i - d)\<bar> \<le> DBL_EPSILON \<and> d \<le> 2 ^ 31 - 1 \<and> d \<ge> - (2 ^ 31) then sprintf_into 21 (dec_int i)
      else if \<bar>rounded (of_int \<lfloor>d\<rfloor> - d)\<bar> \<le> DBL_EPSILON then sprintf_into 64 (print_0f d)
      else if \<bar>d\<bar> < 1 / 10 ^ 6 \<or> \<bar>d\<bar> > 10 ^ 9 then sprintf_into 64 (print_e d)
      else sprintf_into 64 (print_f d))"

definition plain_char :: "char \<Rightarrow> bool" where
  "plain_char c = (of_char c > (31 :: nat) \<and> \<not> is_quote c \<and> \<not> is_backslash c)"

text \<open>A control character without an escape is dropped.\<close>

definition escaped :: "char \<Rightarrow> string" where
  "escaped c =
     (if plain_char c then [c]
      else if is_backslash c then [CHR 0x5C, CHR 0x5C] else if is_quote c then [CHR 0x5C, CHR 0x22]
      else if c = CHR 0x08 then [CHR 0x5C, CHR ''b''] else if c = CHR 0x0C then [CHR 0x5C, CHR ''f'']
      else if c = CHR 0x0A then [CHR 0x5C, CHR ''n''] else if c = CHR 0x0D then [CHR 0x5C, CHR ''r'']
      else if c = CHR 0x09 then [CHR 0x5C, CHR ''t''] else [])"

definition escaped_len :: "string \<Rightarrow> nat" where
  "escaped_len s = sum_list (map (\<lambda>c. if of_char c < (32 :: nat) \<or> is_quote c \<or> is_backslash c then 2 else 1) s)"

definition quote_text :: "string \<Rightarrow> string" where
  "quote_text s = CHR 0x22 # concat (map escaped s) @ [CHR 0x22]"

definition print_string_ptr :: "string option \<Rightarrow> string c_result" where
  "print_string_ptr str =
     (case str of None \<Rightarrow> Inr [] | Some s \<Rightarrow> sprintf_into (escaped_len s + 3) (quote_text s))"

definition print_string :: "string \<Rightarrow> string c_result" where
  "print_string s = print_string_ptr (Some s)"

fun joined :: "string \<Rightarrow> string list \<Rightarrow> string" where
  "joined sep [] = []"
| "joined sep [x] = x"
| "joined sep (x # y # xs) = x @ sep @ joined sep (y # xs)"

definition tabs :: "nat \<Rightarrow> string" where
  "tabs n = replicate n (CHR 0x09)"

definition array_text :: "bool \<Rightarrow> string list \<Rightarrow> string" where
  "array_text fmt entries = ''['' @ joined (if fmt then '', '' else '','') entries @ '']''"

definition array_len :: "bool \<Rightarrow> string list \<Rightarrow> nat" where
  "array_len fmt entries = 5 + sum_list (map (\<lambda>e. length e + 2 + (if fmt then 1 else 0)) entries)"

fun members_text :: "nat \<Rightarrow> bool \<Rightarrow> (string \<times> string) list \<Rightarrow> string" where
  "members_text depth fmt [] = []"
| "members_text depth fmt ((k, e) # es) =
     (if fmt then tabs depth else []) @ k @ '':'' @ (if fmt then [CHR 0x09] else []) @ e @
     (if es \<noteq> [] then '','' else []) @ (if fmt then [CHR 0x0A] else []) @ members_text depth fmt es"

text \<open>\<open>depth\<close> is the one after its increment.\<close>

definition object_text :: "nat \<Rightarrow> bool \<Rightarrow> (string \<times> string) list \<Rightarrow> string" where
  "object_text depth fmt es =
     ''{'' @ (if fmt then [CHR 0x0A] else []) @ members_text depth fmt es @ (if fmt then tabs (depth - 1) else []) @ ''}''"

definition object_len :: "nat \<Rightarrow> bool \<Rightarrow> (string \<times> string) list \<Rightarrow> nat" where
  "object_len depth fmt es =
     7 + (if fmt then depth else 0) + sum_list (map (\<lambda>(k, e). length e + length k + 2 + (if fmt then 2 + depth else 0)) es)"

fun print_value :: "cJSON \<Rightarrow> nat \<Rightarrow> bool \<Rightarrow> string c_result"
  and print_items :: "cJSON list \<Rightarrow> nat \<Rightarrow> bool \<Rightarrow> string list c_result"
  and print_members :: "(string \<times> cJSON) list \<Rightarrow> nat \<Rightarrow> bool \<Rightarrow> (string \<times> string) list c_result" where
  "print_value cJSON_NULL depth fmt = Inr ''null''"
| "print_value cJSON_False depth fmt = Inr ''false''"
| "print_value cJSON_True depth fmt = Inr ''true''"
| "print_value (cJSON_Number i d) depth fmt = print_number i d"
| "print_value (cJSON_String s) depth fmt = print_string s"
| "print_value (cJSON_Array xs) depth fmt =
     c_bind (print_items xs (depth + 1) fmt) (\<lambda>es. sprintf_into (array_len fmt es) (array_text fmt es))"
| "print_value (cJSON_Object ms) depth fmt =
     c_bind (print_members ms (depth + 1) fmt) (\<lambda>es.
       sprintf_into (object_len (depth + 1) fmt es) (object_text (depth + 1) fmt es))"
| "print_items [] depth fmt = Inr []"
| "print_items (x # xs) depth fmt =
     c_bind (print_value x depth fmt) (\<lambda>e. c_bind (print_items xs depth fmt) (\<lambda>es. Inr (e # es)))"
| "print_members [] depth fmt = Inr []"
| "print_members ((k, x) # ms) depth fmt =
     c_bind (print_string_ptr (Some k)) (\<lambda>n. c_bind (print_value x depth fmt) (\<lambda>e.
     c_bind (print_members ms depth fmt) (\<lambda>es. Inr ((n, e) # es))))"

definition cJSON_Print :: "cJSON \<Rightarrow> string c_result" where
  "cJSON_Print item = print_value item 0 True"

definition cJSON_PrintUnformatted :: "cJSON \<Rightarrow> string c_result" where
  "cJSON_PrintUnformatted item = print_value item 0 False"

end
