(* ===== verification/Base64.thy ===== *)
theory Base64
  imports Values
begin

text \<open>
  Base 64 (\<^verbatim>\<open>corelib/modp_b64.c\<close> with the tables of \<^verbatim>\<open>modp_b64_data.h\<close>), which carries the bytes of a record in the JSON
  protocol.  The encoder turns three bytes into four characters; the decoder of a little-endian machine looks four characters
  up in four tables whose entries are already shifted to where their bits belong, and joins them with three \<^verbatim>\<open>or\<close>s.

  The tables have one line for each regularity of the listed constants; all 256 entries of each were compared.
\<close>

definition CHARPAD :: char where
  "CHARPAD = CHR ''=''"

definition BADCHAR :: "32 word" where
  "BADCHAR = 0x01FFFFFF"

definition alphabet :: string where
  "alphabet = ''ABCDEFGHIJKLMNOPQRSTUVWXYZabcdefghijklmnopqrstuvwxyz0123456789+/''"

definition e0 :: string where
  "e0 = concat (map (replicate 4) alphabet)"

definition e1 :: string where
  "e1 = alphabet @ alphabet @ alphabet @ alphabet"

definition e2 :: string where
  "e2 = alphabet @ alphabet @ alphabet @ alphabet"

definition alphabet_pos :: "char \<Rightarrow> 32 word option" where
  "alphabet_pos c = map_option word_of_nat (map_of (zip alphabet [0..<64]) c)"

definition d0 :: "char \<Rightarrow> 32 word" where
  "d0 c = (case alphabet_pos c of None \<Rightarrow> BADCHAR | Some i \<Rightarrow> push_bit 2 i)"

definition d1 :: "char \<Rightarrow> 32 word" where
  "d1 c = (case alphabet_pos c of None \<Rightarrow> BADCHAR | Some i \<Rightarrow> push_bit 12 (i AND 0xF) OR drop_bit 4 i)"

definition d2 :: "char \<Rightarrow> 32 word" where
  "d2 c = (case alphabet_pos c of None \<Rightarrow> BADCHAR | Some i \<Rightarrow> push_bit 22 (i AND 3) OR push_bit 8 (drop_bit 2 i))"

definition d3 :: "char \<Rightarrow> 32 word" where
  "d3 c = (case alphabet_pos c of None \<Rightarrow> BADCHAR | Some i \<Rightarrow> push_bit 16 i)"

section \<open>Encoder\<close>

definition octet :: "char \<Rightarrow> 32 word" where
  "octet c = word_of_nat (of_char c)"

fun modp_b64_encode :: "string \<Rightarrow> string" where
  "modp_b64_encode (s1 # s2 # s3 # s) =
     (let t1 = octet s1; t2 = octet s2; t3 = octet s3 in
      e0 ! unat t1 #
      e1 ! unat (push_bit 4 (t1 AND 0x03) OR (drop_bit 4 t2 AND 0x0F)) #
      e1 ! unat (push_bit 2 (t2 AND 0x0F) OR (drop_bit 6 t3 AND 0x03)) #
      e2 ! unat t3 # modp_b64_encode s)"
| "modp_b64_encode [] = []"
| "modp_b64_encode [s1] =
     (let t1 = octet s1 in [e0 ! unat t1, e1 ! unat (push_bit 4 (t1 AND 0x03)), CHARPAD, CHARPAD])"
| "modp_b64_encode [s1, s2] =
     (let t1 = octet s1; t2 = octet s2 in
      [e0 ! unat t1, e1 ! unat (push_bit 4 (t1 AND 0x03) OR (drop_bit 4 t2 AND 0x0F)), e2 ! unat (push_bit 2 (t2 AND 0x0F)), CHARPAD])"

definition modp_b64_encode_len :: "nat \<Rightarrow> nat" where
  "modp_b64_encode_len n = (n + 2) div 3 * 4 + 1"

section \<open>Decoder\<close>

text \<open>\<^verbatim>\<open>((uint8_t*)(&x))[k]\<close>.\<close>

definition byte_at :: "nat \<Rightarrow> 32 word \<Rightarrow> char" where
  "byte_at k x = char_of (unat (take_bit 8 (drop_bit (8 * k) x)))"

text \<open>The chunks of four, and the last one, which has four, three or two characters.  \<^const>\<open>None\<close> is the error.\<close>

fun decode_chunks :: "string \<Rightarrow> string option" where
  "decode_chunks (y1 # y2 # y3 # y4 # src) =
     (let x = d0 y1 OR d1 y2 OR d2 y3 OR d3 y4 in
      if x \<ge> BADCHAR then None
      else map_option (\<lambda>out. byte_at 0 x # byte_at 1 x # byte_at 2 x # out) (decode_chunks src))"
| "decode_chunks [] = Some []"
| "decode_chunks [y1] = Some []"
| "decode_chunks [y1, y2] = (let x = d0 y1 OR d1 y2 in if x \<ge> BADCHAR then None else Some [byte_at 0 x])"
| "decode_chunks [y1, y2, y3] =
     (let x = d0 y1 OR d1 y2 OR d2 y3 in if x \<ge> BADCHAR then None else Some [byte_at 0 x, byte_at 1 x])"

text \<open>At most two padding characters are taken off.\<close>

definition unpadded :: "string \<Rightarrow> string" where
  "unpadded src =
     (if last src = CHARPAD
      then let src1 = butlast src in if last src1 = CHARPAD then butlast src1 else src1
      else src)"

text \<open>The number of bytes, or \<open>-1\<close>, and the bytes.\<close>

definition modp_b64_decode :: "string \<Rightarrow> int \<times> string" where
  "modp_b64_decode src =
     (if src = [] then (0, [])
      else if length src < 4 \<or> length src mod 4 \<noteq> 0 then (- 1, [])
      else case decode_chunks (unpadded src) of None \<Rightarrow> (- 1, []) | Some out \<Rightarrow> (int (length out), out))"

definition modp_b64_decode_len :: "nat \<Rightarrow> nat" where
  "modp_b64_decode_len n = n div 4 * 3 + 2"

section \<open>Tables\<close>

lemma less_64: "n < 64 \<Longrightarrow> n \<in> set [0..<64]" for n :: nat
  by simp

lemma alphabet_pos_nth:
  assumes "i < 64"
  shows "alphabet_pos (alphabet ! i) = Some (word_of_nat i)"
proof -
  have "list_all (\<lambda>i. map_of (zip alphabet [0..<64]) (alphabet ! i) = Some i) [0..<64]" by code_simp
  then show ?thesis using assms by (simp add: list_all_iff alphabet_pos_def)
qed

lemma alphabet_not_pad: "i < 64 \<Longrightarrow> alphabet ! i \<noteq> CHARPAD"
proof -
  have "list_all (\<lambda>i. alphabet ! i \<noteq> CHARPAD) [0..<64]" by code_simp
  then show "i < 64 \<Longrightarrow> alphabet ! i \<noteq> CHARPAD" by (simp add: list_all_iff)
qed

lemma table_e0: "i < 256 \<Longrightarrow> e0 ! i = alphabet ! (i div 4)"
proof -
  have "list_all (\<lambda>i. e0 ! i = alphabet ! (i div 4)) [0..<256]" by code_simp
  then show "i < 256 \<Longrightarrow> e0 ! i = alphabet ! (i div 4)" by (simp add: list_all_iff)
qed

lemma table_e1: "i < 256 \<Longrightarrow> e1 ! i = alphabet ! (i mod 64) \<and> e2 ! i = alphabet ! (i mod 64)"
proof -
  have "list_all (\<lambda>i. e1 ! i = alphabet ! (i mod 64) \<and> e2 ! i = alphabet ! (i mod 64)) [0..<256]" by code_simp
  then show "i < 256 \<Longrightarrow> e1 ! i = alphabet ! (i mod 64) \<and> e2 ! i = alphabet ! (i mod 64)" by (simp add: list_all_iff)
qed

section \<open>Bits\<close>

text \<open>A word of at most \<open>k\<close> bits.\<close>

definition narrow :: "nat \<Rightarrow> 32 word \<Rightarrow> bool" where
  "narrow k w = (take_bit k w = w)"

lemma narrow_bit: "narrow k w \<Longrightarrow> bit w n \<longleftrightarrow> n < k \<and> bit w n"
  unfolding narrow_def by (metis bit_take_bit_iff)

lemma narrow_less: "k < 32 \<Longrightarrow> narrow k w \<Longrightarrow> unat w < 2 ^ k"
  unfolding narrow_def by (metis take_bit_nat_less_exp unsigned_take_bit_eq)

lemma unat_octet: "unat (octet c) = of_char c"
proof -
  have "of_char c < (2 :: nat) ^ 32" by (rule less_trans [OF nat_of_char_less_256]) simp
  then show ?thesis by (simp only: octet_def unsigned_of_nat take_bit_nat_eq_self len_of_numeral_defs) (simp add: take_bit_nat_eq_self)
qed

lemma narrow_octet: "narrow 8 (octet c)"
  unfolding narrow_def using nat_of_char_less_256 [of c]
  by (simp add: word_unat_eq_iff unsigned_take_bit_eq unat_octet take_bit_nat_eq_self del: nat_of_char_less_256)

lemma octet_char: "char_of (unat (octet c)) = c"
  by (simp add: unat_octet)

lemma narrowI: "(\<And>n. bit w n \<Longrightarrow> n < k) \<Longrightarrow> narrow k w"
  unfolding narrow_def by (rule bit_word_eqI) (auto simp: bit_simps)

lemma bit_masks:
  "bit (3 :: 32 word) n \<longleftrightarrow> n < 2" "bit (0xF :: 32 word) n \<longleftrightarrow> n < 4" "bit (0x3F :: 32 word) n \<longleftrightarrow> n < 6"
proof -
  have m: "(3 :: 32 word) = mask 2" "(0xF :: 32 word) = mask 4" "(0x3F :: 32 word) = mask 6" by (simp_all add: mask_eq_exp_minus_1)
  show "bit (3 :: 32 word) n \<longleftrightarrow> n < 2" "bit (0xF :: 32 word) n \<longleftrightarrow> n < 4" "bit (0x3F :: 32 word) n \<longleftrightarrow> n < 6"
    unfolding m by (auto simp: bit_simps)
qed

lemma possible_32: "possible_bit TYPE(32 word) n \<longleftrightarrow> n < 32"
  by simp

lemmas bit_rules = bit_or_iff bit_and_iff bit_push_bit_iff bit_drop_bit_eq comp_apply bit_masks possible_32

lemma pos_e0:
  assumes "narrow 8 t"
  shows "alphabet_pos (e0 ! unat t) = Some (drop_bit 2 t)" "e0 ! unat t \<noteq> CHARPAD"
proof -
  have "unat t < 256" using narrow_less [OF _ assms] by simp
  moreover have "word_of_nat (unat t div 4) = drop_bit 2 t"
    by (simp add: drop_bit_eq_div word_arith_nat_div)
  ultimately show "alphabet_pos (e0 ! unat t) = Some (drop_bit 2 t)" "e0 ! unat t \<noteq> CHARPAD"
    by (simp_all only: table_e0) (simp_all add: alphabet_pos_nth alphabet_not_pad)
qed

lemma pos_e1:
  assumes "narrow 6 t"
  shows "alphabet_pos (e1 ! unat t) = Some t" "e1 ! unat t \<noteq> CHARPAD" "alphabet_pos (e2 ! unat t) = Some t" "e2 ! unat t \<noteq> CHARPAD"
proof -
  have "unat t < 64" using narrow_less [OF _ assms] by simp
  then show "alphabet_pos (e1 ! unat t) = Some t" "e1 ! unat t \<noteq> CHARPAD" "alphabet_pos (e2 ! unat t) = Some t"
      "e2 ! unat t \<noteq> CHARPAD"
    by (simp_all add: table_e1 alphabet_pos_nth alphabet_not_pad)
qed

lemma pos_e2:
  assumes "narrow 8 t"
  shows "alphabet_pos (e2 ! unat t) = Some (t AND 0x3F)" "e2 ! unat t \<noteq> CHARPAD"
proof -
  have "unat t < 256" using narrow_less [OF _ assms] by simp
  moreover have "word_of_nat (unat t mod 64) = (t AND 0x3F)"
  proof -
    have "(0x3F :: 32 word) = mask 6" by (simp add: mask_eq_exp_minus_1)
    then have "t AND 0x3F = take_bit 6 t" by (simp only: take_bit_eq_mask)
    then show ?thesis by (simp add: take_bit_eq_mod word_arith_nat_mod)
  qed
  ultimately show "alphabet_pos (e2 ! unat t) = Some (t AND 0x3F)" "e2 ! unat t \<noteq> CHARPAD"
    by (simp_all only: table_e1) (simp_all add: alphabet_pos_nth alphabet_not_pad)
qed

text \<open>The four sextets of three octets, as the encoder computes them, have six bits each.\<close>

lemma narrow_sextets:
  assumes "narrow 8 t1" "narrow 8 t2"
  shows "narrow 6 (push_bit 4 (t1 AND 0x03) OR (drop_bit 4 t2 AND 0x0F))"
    "narrow 6 (push_bit 2 (t1 AND 0x0F) OR (drop_bit 6 t2 AND 0x03))"
    "narrow 6 (push_bit 4 (t1 AND 0x03))" "narrow 6 (push_bit 2 (t1 AND 0x0F))"
  by (rule narrowI; simp only: bit_rules; arith)+

lemma below_BADCHAR:
  assumes "narrow 24 x"
  shows "\<not> x \<ge> BADCHAR"
  using narrow_less [OF _ assms] by (simp add: BADCHAR_def word_le_nat_alt)

lemma byte_at_octet:
  assumes "narrow 8 t" "\<And>n. n < 8 \<Longrightarrow> bit x (8 * k + n) = bit t n"
  shows "byte_at k x = char_of (unat t)"
proof -
  have "take_bit 8 (drop_bit (8 * k) x) = t"
    using assms(2) narrow_bit [OF assms(1)] by (intro bit_word_eqI) (auto simp: bit_simps add.commute)
  then show ?thesis by (simp add: byte_at_def)
qed

section \<open>Round trip\<close>

lemma numeral_16: "(16 :: nat) + n = 8 * 2 + n"
  by simp

lemma quad_bits:
  assumes t: "narrow 8 t1" "narrow 8 t2" "narrow 8 t3"
  defines "x \<equiv> d0 (e0 ! unat t1) OR d1 (e1 ! unat (push_bit 4 (t1 AND 0x03) OR (drop_bit 4 t2 AND 0x0F))) OR
      d2 (e1 ! unat (push_bit 2 (t2 AND 0x0F) OR (drop_bit 6 t3 AND 0x03))) OR d3 (e2 ! unat t3)"
  shows "narrow 24 x" "n < 8 \<Longrightarrow> bit x n = bit t1 n" "n < 8 \<Longrightarrow> bit x (8 + n) = bit t2 n" "n < 8 \<Longrightarrow> bit x (16 + n) = bit t3 n"
proof -
  have x: "x = push_bit 2 (drop_bit 2 t1) OR
      (push_bit 12 ((push_bit 4 (t1 AND 0x03) OR (drop_bit 4 t2 AND 0x0F)) AND 0xF) OR
       drop_bit 4 (push_bit 4 (t1 AND 0x03) OR (drop_bit 4 t2 AND 0x0F))) OR
      (push_bit 22 ((push_bit 2 (t2 AND 0x0F) OR (drop_bit 6 t3 AND 0x03)) AND 3) OR
       push_bit 8 (drop_bit 2 (push_bit 2 (t2 AND 0x0F) OR (drop_bit 6 t3 AND 0x03)))) OR push_bit 16 (t3 AND 0x3F)"
    unfolding x_def d0_def d1_def d2_def d3_def
    by (simp only: pos_e0 [OF t(1)] pos_e1 [OF narrow_sextets(1) [OF t(1,2)]] pos_e1 [OF narrow_sextets(2) [OF t(2,3)]]
        pos_e2 [OF t(3)] option.case)
  have b: "bit t1 n \<Longrightarrow> n < 8" "bit t2 n \<Longrightarrow> n < 8" "bit t3 n \<Longrightarrow> n < 8" for n
    using t narrow_bit by blast+
  show "narrow 24 x"
    by (rule narrowI) (unfold x bit_rules, use b in fastforce)
  have n: "n < 8 \<Longrightarrow> n = 0 \<or> n = 1 \<or> n = 2 \<or> n = 3 \<or> n = 4 \<or> n = 5 \<or> n = 6 \<or> n = 7" by arith
  show "n < 8 \<Longrightarrow> bit x n = bit t1 n"
    by (drule n, unfold x bit_rules, elim disjE; simp)
  have h: "\<not> bit t1 k" if "8 \<le> k" for k
    using b(1) that by (meson not_le)
  show "n < 8 \<Longrightarrow> bit x (8 + n) = bit t2 n"
    by (drule n, unfold x bit_rules, elim disjE; simp add: h)
  show "n < 8 \<Longrightarrow> bit x (16 + n) = bit t3 n"
    by (drule n, unfold x bit_rules, elim disjE; simp add: h)
qed

lemma pair_bits:
  assumes t: "narrow 8 t1"
  defines "x \<equiv> d0 (e0 ! unat t1) OR d1 (e1 ! unat (push_bit 4 (t1 AND 0x03)))"
  shows "narrow 24 x" "n < 8 \<Longrightarrow> bit x n = bit t1 n"
proof -
  have x: "x = push_bit 2 (drop_bit 2 t1) OR (push_bit 12 (push_bit 4 (t1 AND 0x03) AND 0xF) OR drop_bit 4 (push_bit 4 (t1 AND 0x03)))"
    unfolding x_def d0_def d1_def by (simp only: pos_e0 [OF t] pos_e1 [OF narrow_sextets(3) [OF t t]] option.case)
  have b: "bit t1 n \<Longrightarrow> n < 8" for n using t narrow_bit by blast
  show "narrow 24 x" by (rule narrowI) (unfold x bit_rules, use b in fastforce)
  have n: "n < 8 \<Longrightarrow> n = 0 \<or> n = 1 \<or> n = 2 \<or> n = 3 \<or> n = 4 \<or> n = 5 \<or> n = 6 \<or> n = 7" by arith
  show "n < 8 \<Longrightarrow> bit x n = bit t1 n" by (drule n, unfold x bit_rules, elim disjE; simp)
qed

lemma triple_bits:
  assumes t: "narrow 8 t1" "narrow 8 t2"
  defines "x \<equiv> d0 (e0 ! unat t1) OR d1 (e1 ! unat (push_bit 4 (t1 AND 0x03) OR (drop_bit 4 t2 AND 0x0F))) OR
      d2 (e2 ! unat (push_bit 2 (t2 AND 0x0F)))"
  shows "narrow 24 x" "n < 8 \<Longrightarrow> bit x n = bit t1 n" "n < 8 \<Longrightarrow> bit x (8 + n) = bit t2 n"
proof -
  have x: "x = push_bit 2 (drop_bit 2 t1) OR
      (push_bit 12 ((push_bit 4 (t1 AND 0x03) OR (drop_bit 4 t2 AND 0x0F)) AND 0xF) OR
       drop_bit 4 (push_bit 4 (t1 AND 0x03) OR (drop_bit 4 t2 AND 0x0F))) OR
      (push_bit 22 (push_bit 2 (t2 AND 0x0F) AND 3) OR push_bit 8 (drop_bit 2 (push_bit 2 (t2 AND 0x0F))))"
    unfolding x_def d0_def d1_def d2_def
    by (simp only: pos_e0 [OF t(1)] pos_e1 [OF narrow_sextets(1) [OF t(1,2)]] pos_e1 [OF narrow_sextets(4) [OF t(2,2)]] option.case)
  have b: "bit t1 n \<Longrightarrow> n < 8" "bit t2 n \<Longrightarrow> n < 8" for n using t narrow_bit by blast+
  show "narrow 24 x" by (rule narrowI) (unfold x bit_rules, use b in fastforce)
  have n: "n < 8 \<Longrightarrow> n = 0 \<or> n = 1 \<or> n = 2 \<or> n = 3 \<or> n = 4 \<or> n = 5 \<or> n = 6 \<or> n = 7" by arith
  show "n < 8 \<Longrightarrow> bit x n = bit t1 n" by (drule n, unfold x bit_rules, elim disjE; simp)
  have h: "\<not> bit t1 k" if "8 \<le> k" for k
    using b(1) that by (meson not_le)
  show "n < 8 \<Longrightarrow> bit x (8 + n) = bit t2 n" by (drule n, unfold x bit_rules, elim disjE; simp add: h)
qed

text \<open>The text without its padding.\<close>

fun padding :: "string \<Rightarrow> string" where
  "padding (s1 # s2 # s3 # s) = padding s"
| "padding [] = []"
| "padding [s1] = [CHARPAD, CHARPAD]"
| "padding [s1, s2] = [CHARPAD]"

lemma byte_at_octets:
  assumes "\<And>n. n < 8 \<Longrightarrow> bit x (8 * k + n) = bit (octet c) n"
  shows "byte_at k x = c"
  using byte_at_octet [OF narrow_octet assms] by (simp add: octet_char)

lemma decode_quad:
  "decode_chunks (e0 ! unat (octet s1) # e1 ! unat (push_bit 4 (octet s1 AND 0x03) OR (drop_bit 4 (octet s2) AND 0x0F)) #
     e1 ! unat (push_bit 2 (octet s2 AND 0x0F) OR (drop_bit 6 (octet s3) AND 0x03)) # e2 ! unat (octet s3) # src) =
   map_option (\<lambda>out. s1 # s2 # s3 # out) (decode_chunks src)"
proof -
  note q = quad_bits [OF narrow_octet [of s1] narrow_octet [of s2] narrow_octet [of s3]]
  note y = byte_at_octets [of _ 0 s1, unfolded mult_0_right add_0, OF q(2)]
    byte_at_octets [of _ 1 s2, unfolded mult_1_right, OF q(3)]
    byte_at_octets [of _ 2 s3, OF q(4) [unfolded numeral_16]]
  show ?thesis by (simp only: decode_chunks.simps Let_def y below_BADCHAR [OF q(1)] if_False)
qed

lemma decode_triple:
  "decode_chunks [e0 ! unat (octet s1), e1 ! unat (push_bit 4 (octet s1 AND 0x03) OR (drop_bit 4 (octet s2) AND 0x0F)),
     e2 ! unat (push_bit 2 (octet s2 AND 0x0F))] = Some [s1, s2]"
proof -
  note q = triple_bits [OF narrow_octet [of s1] narrow_octet [of s2]]
  note y = byte_at_octets [of _ 0 s1, unfolded mult_0_right add_0, OF q(2)]
    byte_at_octets [of _ 1 s2, unfolded mult_1_right, OF q(3)]
  show ?thesis by (simp only: decode_chunks.simps Let_def y below_BADCHAR [OF q(1)] if_False)
qed

lemma decode_pair: "decode_chunks [e0 ! unat (octet s1), e1 ! unat (push_bit 4 (octet s1 AND 0x03))] = Some [s1]"
proof -
  note q = pair_bits [OF narrow_octet [of s1]]
  note y = byte_at_octets [of _ 0 s1, unfolded mult_0_right add_0, OF q(2)]
  show ?thesis by (simp only: decode_chunks.simps Let_def y below_BADCHAR [OF q(1)] if_False)
qed

lemmas not_pad = pos_e2(2) [OF narrow_octet] pos_e1(2,4) [OF narrow_sextets(1) [OF narrow_octet narrow_octet]]
  pos_e1(2,4) [OF narrow_sextets(3) [OF narrow_octet narrow_octet]] pos_e1(2,4) [OF narrow_sextets(4) [OF narrow_octet narrow_octet]]

text \<open>What an encoding is made of: a part that decodes to the input, and the padding.\<close>

definition encoding :: "string \<Rightarrow> string \<Rightarrow> string \<Rightarrow> bool" where
  "encoding s b text = (text = b @ padding s \<and> decode_chunks b = Some s \<and> length text mod 4 = 0 \<and>
     (s = [] \<longleftrightarrow> b = []) \<and> (b \<noteq> [] \<longrightarrow> last b \<noteq> CHARPAD))"

lemma encoding_quad:
  assumes "encoding s b t" "\<And>src. decode_chunks (y1 # y2 # y3 # y4 # src) = map_option (\<lambda>out. s1 # s2 # s3 # out) (decode_chunks src)"
    "y4 \<noteq> CHARPAD"
  shows "encoding (s1 # s2 # s3 # s) (y1 # y2 # y3 # y4 # b) (y1 # y2 # y3 # y4 # t)"
  using assms unfolding encoding_def by (auto split: if_splits simp del: decode_chunks.simps(1))

lemma encode_body: "\<exists>b. encoding s b (modp_b64_encode s)"
proof (induction s rule: modp_b64_encode.induct)
  case (1 s1 s2 s3 s)
  then obtain b where "encoding s b (modp_b64_encode s)" by blast
  from encoding_quad [OF this decode_quad not_pad(1)] show ?case
    by (auto simp only: modp_b64_encode.simps Let_def)
next
  case 2
  show ?case by (simp add: encoding_def)
next
  case (3 s1)
  have "encoding [s1] [y1, y2] [y1, y2, CHARPAD, CHARPAD]" if "decode_chunks [y1, y2] = Some [s1]" "y2 \<noteq> CHARPAD" for y1 y2
    using that by (simp add: encoding_def)
  from this [OF decode_pair not_pad(4)] show ?case by (auto simp only: modp_b64_encode.simps Let_def)
next
  case (4 s1 s2)
  have "encoding [s1, s2] [y1, y2, y3] [y1, y2, y3, CHARPAD]" if "decode_chunks [y1, y2, y3] = Some [s1, s2]" "y3 \<noteq> CHARPAD" for y1 y2 y3
    using that by (simp add: encoding_def)
  from this [OF decode_triple not_pad(7)] show ?case by (auto simp only: modp_b64_encode.simps Let_def)
qed

lemma unpadded_encoding:
  assumes "encoding s b t" "s \<noteq> []"
  shows "unpadded t = b"
proof -
  have "padding s = [] \<or> padding s = [CHARPAD] \<or> padding s = [CHARPAD, CHARPAD]"
    by (induction s rule: padding.induct) auto
  then show ?thesis
    using assms by (auto simp: unpadded_def encoding_def butlast_append last_append Let_def)
qed

text \<open>The bytes that come out are the bytes that went in.\<close>

lemma b64_roundtrip: "modp_b64_decode (modp_b64_encode s) = (int (length s), s)"
proof (cases "s = []")
  case False
  obtain b where b: "encoding s b (modp_b64_encode s)" using encode_body by blast
  have "modp_b64_encode s \<noteq> []" "length (modp_b64_encode s) mod 4 = 0" using b False by (auto simp: encoding_def)
  moreover from this have "\<not> length (modp_b64_encode s) < 4" by (metis length_0_conv mod_less)
  moreover have "decode_chunks (unpadded (modp_b64_encode s)) = Some s"
    using b unpadded_encoding [OF b False] by (simp add: encoding_def)
  ultimately show ?thesis by (simp add: modp_b64_decode_def)
qed (simp add: modp_b64_decode_def)

lemma length_b64_encode: "length (modp_b64_encode s) + 1 = modp_b64_encode_len (length s)"
proof (induction s rule: modp_b64_encode.induct)
  case (1 s1 s2 s3 s)
  have "(5 + length s) div 3 = Suc ((2 + length s) div 3)" using div_add_self2 [of 3 "2 + length s"] by simp
  with 1 show ?case by (simp add: modp_b64_encode_len_def Let_def)
qed (simp_all add: modp_b64_encode_len_def Let_def)

lemma length_decode_chunks: "decode_chunks src = Some out \<Longrightarrow> 4 * length out \<le> 3 * length src"
  by (induction src arbitrary: out rule: decode_chunks.induct) (auto simp: Let_def split: if_splits)

lemma length_unpadded: "length (unpadded src) \<le> length src"
  by (simp add: unpadded_def Let_def)

lemma length_b64_decode: "length (snd (modp_b64_decode src)) \<le> modp_b64_decode_len (length src)"
proof (cases "decode_chunks (unpadded src)")
  case (Some out)
  then have "4 * length out \<le> 3 * length src" using length_decode_chunks [OF Some] length_unpadded [of src] by linarith
  then show ?thesis using Some by (auto simp: modp_b64_decode_def modp_b64_decode_len_def)
qed (simp add: modp_b64_decode_def)

lemma pos_in_alphabet: "alphabet_pos c = Some i \<Longrightarrow> c \<in> set alphabet"
  by (auto simp: alphabet_pos_def dest!: map_of_SomeD set_zip_leftD)

lemmas encoded_chars = pos_in_alphabet [OF pos_e0(1) [OF narrow_octet]] pos_in_alphabet [OF pos_e2(1) [OF narrow_octet]]
  pos_in_alphabet [OF pos_e1(1) [OF narrow_sextets(1) [OF narrow_octet narrow_octet]]]
  pos_in_alphabet [OF pos_e1(1) [OF narrow_sextets(2) [OF narrow_octet narrow_octet]]]
  pos_in_alphabet [OF pos_e1(1) [OF narrow_sextets(3) [OF narrow_octet narrow_octet]]]
  pos_in_alphabet [OF pos_e1(3) [OF narrow_sextets(4) [OF narrow_octet narrow_octet]]]

lemma b64_alphabet: "set (modp_b64_encode s) \<subseteq> insert CHARPAD (set alphabet)"
  by (induction s rule: modp_b64_encode.induct)
    (simp_all only: modp_b64_encode.simps Let_def list.set insert_subset insert_iff encoded_chars empty_subsetI simp_thms)

end
