(* ===== verification/Json_Create.thy ===== *)
theory Json_Create
  imports Messages Cjson Base64
begin

text \<open>
  From a JSON text to a message (\<^verbatim>\<open>corelib/json_msg_factory.c\<close>, the functions \<^verbatim>\<open>..._create\<close>).

  A function ends with the message, or with the negative code of the first member that does not have the type it should have.
  A number of the text is an \<^verbatim>\<open>int\<close>, which an identifier, a size or a duration takes over with its sign.
\<close>

section \<open>The names of the members\<close>

definition OEJSON_CID :: string where "OEJSON_CID = ''cid''"
definition OEJSON_TID :: string where "OEJSON_TID = ''tid''"
definition OEJSON_TYPE :: string where "OEJSON_TYPE = ''t''"
definition OEJSON_NAME :: string where "OEJSON_NAME = ''n''"
definition OEJSON_COMMAND :: string where "OEJSON_COMMAND = ''cmd''"
definition OEJSON_RESPONSE :: string where "OEJSON_RESPONSE = ''res''"
definition OEJSON_ERROR :: string where "OEJSON_ERROR = ''err''"
definition OEJSON_MESSAGE :: string where "OEJSON_MESSAGE = ''msg''"
definition OEJSON_DIS :: string where "OEJSON_DIS = ''disconnect''"
definition OEJSON_CON :: string where "OEJSON_CON = ''connect''"
definition OEJSON_PUT :: string where "OEJSON_PUT = ''put''"
definition OEJSON_GET :: string where "OEJSON_GET = ''get''"
definition OEJSON_UPT :: string where "OEJSON_UPT = ''utxn''"
definition OEJSON_UPL :: string where "OEJSON_UPL = ''ulease''"
definition OEJSON_STA :: string where "OEJSON_STA = ''start''"
definition OEJSON_SID :: string where "OEJSON_SID = ''sid''"
definition OEJSON_EXTENTNAME :: string where "OEJSON_EXTENTNAME = ''extentname''"
definition OEJSON_USERNAME :: string where "OEJSON_USERNAME = ''username''"
definition OEJSON_PASSWORD :: string where "OEJSON_PASSWORD = ''password''"
definition OEJSON_VERSION :: string where "OEJSON_VERSION = ''version''"
definition OEJSON_MAJ :: string where "OEJSON_MAJ = ''maj''"
definition OEJSON_MIN :: string where "OEJSON_MIN = ''min''"
definition OEJSON_SEQ :: string where "OEJSON_SEQ = ''seq''"
definition OEJSON_DUR :: string where "OEJSON_DUR = ''dur''"
definition OEJSON_BYTES :: string where "OEJSON_BYTES = ''bytes''"
definition OEJSON_VALUES :: string where "OEJSON_VALUES = ''values''"
definition OEJSON_TEMPLATES :: string where "OEJSON_TEMPLATES = ''templates''"
definition OEJSON_TIMEOUT :: string where "OEJSON_TIMEOUT = ''timeout''"
definition OEJSON_MAXRESULTS :: string where "OEJSON_MAXRESULTS = ''c''"
definition OEJSON_ISJOIN :: string where "OEJSON_ISJOIN = ''join''"
definition OEJSON_IFEXISTS :: string where "OEJSON_IFEXISTS = ''ife''"
definition OEJSON_REMOVE :: string where "OEJSON_REMOVE = ''rm''"
definition OEJSON_RETURN_ATTRS :: string where "OEJSON_RETURN_ATTRS = ''rattrs''"
definition OEJSON_RETURN_BYTES :: string where "OEJSON_RETURN_BYTES = ''rbytes''"
definition OEJSON_RETURN_IS_DESTROYED :: string where "OEJSON_RETURN_IS_DESTROYED = ''rm''"
definition OEJSON_LID :: string where "OEJSON_LID = ''lid''"
definition OEJSON_STATUS :: string where "OEJSON_STATUS = ''s''"
definition OEJSON_ENLISTED :: string where "OEJSON_ENLISTED = ''c''"
definition OEJSON_EID :: string where "OEJSON_EID = ''eid''"
definition OEJSON_NRESULTS :: string where "OEJSON_NRESULTS = ''c''"
definition OEJSON_EXPTIME :: string where "OEJSON_EXPTIME = ''exp''"
definition RB_ON_DISCONNECT :: string where "RB_ON_DISCONNECT = ''rbOnDisconnect''"

lemmas oejson_names = OEJSON_CID_def OEJSON_TID_def OEJSON_TYPE_def OEJSON_NAME_def OEJSON_COMMAND_def OEJSON_RESPONSE_def
  OEJSON_ERROR_def OEJSON_MESSAGE_def OEJSON_DIS_def OEJSON_CON_def OEJSON_PUT_def OEJSON_GET_def OEJSON_UPT_def OEJSON_UPL_def
  OEJSON_STA_def OEJSON_SID_def OEJSON_EXTENTNAME_def OEJSON_USERNAME_def OEJSON_PASSWORD_def OEJSON_VERSION_def OEJSON_MAJ_def
  OEJSON_MIN_def OEJSON_SEQ_def OEJSON_DUR_def OEJSON_BYTES_def OEJSON_VALUES_def OEJSON_TEMPLATES_def OEJSON_TIMEOUT_def
  OEJSON_MAXRESULTS_def OEJSON_ISJOIN_def OEJSON_IFEXISTS_def OEJSON_REMOVE_def OEJSON_RETURN_ATTRS_def OEJSON_RETURN_BYTES_def
  OEJSON_RETURN_IS_DESTROYED_def OEJSON_LID_def OEJSON_STATUS_def OEJSON_ENLISTED_def OEJSON_EID_def OEJSON_NRESULTS_def
  OEJSON_EXPTIME_def RB_ON_DISCONNECT_def

section \<open>Members\<close>

type_synonym 'a made = "(int + 'a) c_result"

definition m_bind :: "'a made \<Rightarrow> ('a \<Rightarrow> 'b made) \<Rightarrow> 'b made" where
  "m_bind m f = c_bind m (\<lambda>r. case r of Inl code \<Rightarrow> Inr (Inl code) | Inr x \<Rightarrow> f x)"

definition made_ok :: "'a \<Rightarrow> 'a made" where
  "made_ok x = Inr (Inr x)"

definition refused :: "int \<Rightarrow> 'a made" where
  "refused code = Inr (Inl code)"

definition checked :: "'a c_result \<Rightarrow> 'a made" where
  "checked r = c_bind r made_ok"

text \<open>The pattern of the code for a member that has to be a number, if it is there, one that has to be a string, and one that
  counts if it is \<^verbatim>\<open>true\<close>.\<close>

definition number_member :: "cJSON \<Rightarrow> string \<Rightarrow> int \<Rightarrow> (int \<Rightarrow> 'a \<Rightarrow> 'a) \<Rightarrow> 'a \<Rightarrow> 'a made" where
  "number_member json name code f x =
     (case cJSON_GetObjectItem json name of
        None \<Rightarrow> made_ok x
      | Some (cJSON_Number i d) \<Rightarrow> made_ok (f i x)
      | Some v \<Rightarrow> refused code)"

definition string_member :: "cJSON \<Rightarrow> string \<Rightarrow> int \<Rightarrow> (string \<Rightarrow> 'a \<Rightarrow> 'a) \<Rightarrow> 'a \<Rightarrow> 'a made" where
  "string_member json name code f x =
     (case cJSON_GetObjectItem json name of
        None \<Rightarrow> made_ok x
      | Some (cJSON_String s) \<Rightarrow> made_ok (f s x)
      | Some v \<Rightarrow> refused code)"

definition true_member :: "cJSON \<Rightarrow> string \<Rightarrow> ('a \<Rightarrow> 'a) \<Rightarrow> 'a \<Rightarrow> 'a" where
  "true_member json name f x = (if cJSON_GetObjectItem json name = Some cJSON_True then f x else x)"

definition cid_member :: "cJSON \<Rightarrow> int \<Rightarrow> OekMsg \<Rightarrow> OekMsg made" where
  "cid_member json code = number_member json OEJSON_CID code (\<lambda>i msg. OekMsg_set_cid msg (word_of_int i))"

definition tid_member :: "cJSON \<Rightarrow> int \<Rightarrow> OekMsg \<Rightarrow> OekMsg made" where
  "tid_member json code = number_member json OEJSON_TID code (\<lambda>i msg. OekMsg_set_tid msg (word_of_int i))"

section \<open>Data\<close>

text \<open>A string or a number as an attribute.\<close>

definition add_value :: "cJSON \<Rightarrow> DataObject \<Rightarrow> DataObject made" where
  "add_value v d =
     (case v of
        cJSON_String s \<Rightarrow> checked (DataObject_add_attr d (Some s))
      | cJSON_Number i x \<Rightarrow> checked (DataObject_add_attr d (Some (oec_itoa (word_of_int i))))
      | _ \<Rightarrow> refused (- 20))"

fun add_items :: "cJSON list \<Rightarrow> DataObject \<Rightarrow> DataObject made" where
  "add_items [] d = made_ok d"
| "add_items (v # vs) d = m_bind (add_value v d) (add_items vs)"

fun add_members :: "(string \<times> cJSON) list \<Rightarrow> DataObject \<Rightarrow> DataObject made" where
  "add_members [] d = made_ok d"
| "add_members ((k, v) # ms) d =
     m_bind (checked (DataObject_add_attr d (Some k))) (\<lambda>d1. m_bind (add_value v d1) (add_members ms))"

section \<open>Commands\<close>

definition con_command_create :: "OekMsg \<Rightarrow> cJSON \<Rightarrow> OekMsg made" where
  "con_command_create msg0 json =
     m_bind (cid_member json (- 1) msg0) (\<lambda>msg.
     m_bind (checked (OekMsg_get_con_cmd msg)) (\<lambda>cmd.
     m_bind (case cJSON_GetObjectItem json OEJSON_VERSION of
               None \<Rightarrow> made_ok cmd
             | Some version \<Rightarrow>
                 m_bind (number_member version OEJSON_MAJ (- 2) (\<lambda>i c. ConCmd_set_version_maj c (word_of_int i)) cmd) (\<lambda>cmd.
                 m_bind (number_member version OEJSON_MIN (- 3) (\<lambda>i c. ConCmd_set_version_min c (word_of_int i)) cmd)
                   (number_member version OEJSON_SEQ (- 4) (\<lambda>i c. ConCmd_set_version_upt c (word_of_int i))))) (\<lambda>cmd.
     m_bind (string_member json OEJSON_EXTENTNAME (- 5) (\<lambda>s c. ConCmd_set_extentname c (Some s)) cmd) (\<lambda>cmd.
     m_bind (string_member json OEJSON_USERNAME (- 6) (\<lambda>s c. ConCmd_set_username c (Some s)) cmd) (\<lambda>cmd.
     m_bind (string_member json OEJSON_PASSWORD (- 7) (\<lambda>s c. ConCmd_set_pwd c (Some s)) cmd) (\<lambda>cmd.
     let cmd = (if cJSON_GetObjectItem json RB_ON_DISCONNECT \<noteq> None then ConCmd_set_rollback_on_disconnect cmd else cmd)
     in made_ok (msg\<lparr>data := D_con_cmd cmd\<rparr>)))))))"

text \<open>The bytes of a put: decoded into a block of the arena, and taken over if there are any.\<close>

definition put_bytes_create :: "cJSON \<Rightarrow> DataObject \<Rightarrow> DataObject made" where
  "put_bytes_create json d =
     (case cJSON_GetObjectItem json OEJSON_BYTES of
        None \<Rightarrow> made_ok d
      | Some (cJSON_String s) \<Rightarrow>
          let (rlen, bs) = modp_b64_decode s in
          if length bs > modp_b64_decode_len (length s) then Inl Out_Of_Bounds
          else if rlen \<le> 0 then refused (- 13)
          else checked (c_bind (DataObject_set_nbytes d (nat rlen)) (\<lambda>d1. DataObject_set_bytes d1 bs))
      | Some v \<Rightarrow> refused (- 11))"

definition put_command_create :: "OekMsg \<Rightarrow> cJSON \<Rightarrow> OekMsg made" where
  "put_command_create msg0 json =
     m_bind (checked (OekMsg_get_put_cmd msg0)) (\<lambda>cmd0.
     let (d0, cmd) = PutCmd_get_data cmd0; d = DataObject_set_always_copy d0 True in
     m_bind (cid_member json (- 8) msg0) (\<lambda>msg.
     m_bind (tid_member json (- 9) msg) (\<lambda>msg.
     m_bind (number_member json OEJSON_DUR (- 10) (\<lambda>i c. PutCmd_set_dur c (word_of_int i)) cmd) (\<lambda>cmd.
     m_bind (put_bytes_create json d) (\<lambda>d.
     m_bind (case cJSON_GetObjectItem json OEJSON_VALUES of
               None \<Rightarrow> made_ok (cmd, d)
             | Some (cJSON_Array vs) \<Rightarrow> m_bind (add_items vs d) (\<lambda>d. made_ok (PutCmd_set_tuple cmd, d))
             | Some (cJSON_Object ms) \<Rightarrow> m_bind (add_members ms d) (\<lambda>d. made_ok (cmd, d))
             | Some v \<Rightarrow> refused (- 14)) (\<lambda>(cmd, d).
     made_ok (msg\<lparr>data := D_put_cmd (PutCmd_set_data cmd (Some d))\<rparr>)))))))"

text \<open>One template: a new object of the command's list, filled in place.\<close>

definition add_json_template :: "cJSON \<Rightarrow> GetCmd \<Rightarrow> GetCmd made" where
  "add_json_template jtemplate cmd0 =
     (let (i, cmd) = GetCmd_new_data_object cmd0; l = fst (get_value_lists cmd);
          templt = DataObject_set_always_copy (l ! i) True;
          fill = (\<lambda>c r. m_bind r (\<lambda>d. made_ok (c\<lparr>gc_value_lists := Some (l[i := d])\<rparr>)))
      in case jtemplate of
           cJSON_Array vs \<Rightarrow> if vs = [] then refused (- 192) else fill (GetCmd_set_tuple cmd) (add_items vs templt)
         | cJSON_Object ms \<Rightarrow> fill cmd (add_members ms templt)
         | _ \<Rightarrow> refused (- 192))"

fun add_templates :: "cJSON list \<Rightarrow> GetCmd \<Rightarrow> GetCmd made" where
  "add_templates [] cmd = made_ok cmd"
| "add_templates (t # ts) cmd = m_bind (add_json_template t cmd) (add_templates ts)"

definition get_command_create :: "OekMsg \<Rightarrow> cJSON \<Rightarrow> OekMsg made" where
  "get_command_create msg0 json =
     m_bind (checked (OekMsg_get_get_cmd msg0)) (\<lambda>cmd.
     m_bind (cid_member json (- 15) msg0) (\<lambda>msg.
     m_bind (tid_member json (- 16) msg) (\<lambda>msg.
     m_bind (number_member json OEJSON_TIMEOUT (- 17) (\<lambda>i c. GetCmd_set_timeout c (word_of_int i)) cmd) (\<lambda>cmd.
     m_bind (case cJSON_GetObjectItem json OEJSON_MAXRESULTS of
               None \<Rightarrow> checked (GetCmd_set_max_responses cmd 1)
             | Some (cJSON_Number i x) \<Rightarrow> checked (GetCmd_set_max_responses cmd (word_of_int i))
             | Some v \<Rightarrow> refused (- 18)) (\<lambda>cmd.
     m_bind (case cJSON_GetObjectItem json OEJSON_TEMPLATES of
               None \<Rightarrow> made_ok cmd
             | Some (cJSON_Array ts) \<Rightarrow> if ts = [] then refused (- 191) else add_templates ts cmd
             | Some v \<Rightarrow> refused (- 19)) (\<lambda>cmd.
     let cmd = true_member json OEJSON_ISJOIN GetCmd_set_join cmd;
         cmd = true_member json OEJSON_IFEXISTS GetCmd_set_ifexists_option cmd;
         cmd = true_member json OEJSON_REMOVE GetCmd_set_remove_option cmd;
         cmd = true_member json OEJSON_RETURN_ATTRS (\<lambda>c. GetCmd_set_return_attrs c True) cmd;
         cmd = true_member json OEJSON_RETURN_BYTES (\<lambda>c. GetCmd_set_return_bytes c True) cmd
     in made_ok (msg\<lparr>data := D_get_cmd cmd\<rparr>)))))))"

definition sta_command_create :: "OekMsg \<Rightarrow> cJSON \<Rightarrow> OekMsg made" where
  "sta_command_create msg0 json =
     m_bind (checked (OekMsg_get_sta_cmd msg0)) (\<lambda>cmd.
     m_bind (cid_member json (- 21) msg0) (\<lambda>msg.
     m_bind (number_member json OEJSON_DUR (- 22) (\<lambda>i c. StaCmd_set_dur c (word_of_int i)) cmd) (\<lambda>cmd.
     made_ok (msg\<lparr>data := D_sta_cmd cmd\<rparr>))))"

definition upl_command_create :: "OekMsg \<Rightarrow> cJSON \<Rightarrow> OekMsg made" where
  "upl_command_create msg0 json =
     m_bind (checked (OekMsg_get_upl_cmd msg0)) (\<lambda>cmd.
     m_bind (cid_member json (- 23) msg0) (\<lambda>msg.
     m_bind (number_member json OEJSON_DUR (- 24) (\<lambda>i c. UplCmd_set_dur c (word_of_int i)) cmd) (\<lambda>cmd.
     m_bind (number_member json OEJSON_LID (- 25) (\<lambda>i c. UplCmd_set_lid c (word_of_int i)) cmd) (\<lambda>cmd.
     made_ok (msg\<lparr>data := D_upl_cmd cmd\<rparr>)))))"

text \<open>The first character of a C string.\<close>

definition first_char :: "string \<Rightarrow> char" where
  "first_char s = (case s of [] \<Rightarrow> NUL | c # _ \<Rightarrow> c)"

definition upt_command_create :: "OekMsg \<Rightarrow> cJSON \<Rightarrow> OekMsg made" where
  "upt_command_create msg0 json =
     m_bind (checked (OekMsg_get_upt_cmd msg0)) (\<lambda>cmd.
     m_bind (cid_member json (- 27) msg0) (\<lambda>msg.
     m_bind (tid_member json (- 28) msg) (\<lambda>msg.
     m_bind (number_member json OEJSON_DUR (- 29) (\<lambda>i c. UptCmd_set_dur c (word_of_int i)) cmd) (\<lambda>cmd.
     m_bind (string_member json OEJSON_STATUS (- 30) (\<lambda>s c. UptCmd_set_status c (first_char s)) cmd) (\<lambda>cmd.
     m_bind (number_member json OEJSON_ENLISTED (- 31) (\<lambda>i c. UptCmd_set_enlisted c (word_of_int i)) cmd) (\<lambda>cmd.
     made_ok (msg\<lparr>data := D_upt_cmd cmd\<rparr>)))))))"

definition dis_command_create :: "OekMsg \<Rightarrow> cJSON \<Rightarrow> OekMsg made" where
  "dis_command_create msg json = m_bind (checked (OekMsg_get_dis_cmd msg)) (\<lambda>cmd. made_ok msg)"

section \<open>Errors and responses\<close>

definition error_create :: "cJSON \<Rightarrow> OekMsg made" where
  "error_create json =
     m_bind (checked (OekMsg_new OEK_ERR)) (\<lambda>msg.
     m_bind (checked (OekMsg_get_err msg)) (\<lambda>err.
     m_bind (string_member json OEJSON_MESSAGE (- 32) (\<lambda>s e. OekErr_set_message e (Some s)) err) (\<lambda>err.
     m_bind (number_member json OEJSON_EID (- 33) (\<lambda>i e. OekErr_set_type e (word_of_int i)) err) (\<lambda>err.
     made_ok (msg\<lparr>data := D_err err\<rparr>)))))"

definition con_response_create :: "OekMsg \<Rightarrow> cJSON \<Rightarrow> OekMsg made" where
  "con_response_create msg0 json =
     m_bind (cid_member json (- 34) msg0) (\<lambda>msg.
     m_bind (checked (OekMsg_get_con_res msg)) (\<lambda>res.
     m_bind (case cJSON_GetObjectItem json OEJSON_VERSION of
               None \<Rightarrow> made_ok res
             | Some (cJSON_Object ms) \<Rightarrow>
                 let version = cJSON_Object ms in
                 m_bind (number_member version OEJSON_MAJ (- 36) (\<lambda>i r. ConRes_set_version_maj r (word_of_int i)) res) (\<lambda>res.
                 m_bind (number_member version OEJSON_MIN (- 37) (\<lambda>i r. ConRes_set_version_min r (word_of_int i)) res)
                   (number_member version OEJSON_SEQ (- 38) (\<lambda>i r. ConRes_set_version_upt r (word_of_int i))))
             | Some v \<Rightarrow> refused (- 35)) (\<lambda>res.
     m_bind (string_member json OEJSON_EXTENTNAME (- 39) (\<lambda>s r. ConRes_set_extentname r (Some s)) res) (\<lambda>res.
     m_bind (number_member json OEJSON_SID (- 40) (\<lambda>i r. ConRes_set_sid r (word_of_int i)) res) (\<lambda>res.
     made_ok (msg\<lparr>data := D_con_res res\<rparr>))))))"

definition put_response_create :: "OekMsg \<Rightarrow> cJSON \<Rightarrow> OekMsg made" where
  "put_response_create msg0 json =
     m_bind (checked (OekMsg_get_put_res msg0)) (\<lambda>res.
     m_bind (number_member json OEJSON_LID (- 42) (\<lambda>i r. PutRes_set_lease_id r (word_of_int i)) res) (\<lambda>res.
     m_bind (cid_member json (- 43) msg0) (\<lambda>msg.
     made_ok (msg\<lparr>data := D_put_res res\<rparr>))))"

text \<open>A tuple of a response has only strings.\<close>

fun add_strings :: "cJSON list \<Rightarrow> DataObject \<Rightarrow> DataObject made" where
  "add_strings [] d = made_ok d"
| "add_strings (v # vs) d =
     (case v of
        cJSON_String s \<Rightarrow> m_bind (checked (DataObject_add_attr d (Some s))) (add_strings vs)
      | _ \<Rightarrow> refused (- 47))"

definition get_response_create :: "OekMsg \<Rightarrow> cJSON \<Rightarrow> OekMsg made" where
  "get_response_create msg0 json =
     m_bind (checked (OekMsg_get_get_res msg0)) (\<lambda>res0.
     let (d0, res) = GetRes_get_data res0; d = DataObject_set_always_copy d0 True in
     m_bind (cid_member json (- 44) msg0) (\<lambda>msg.
     m_bind (number_member json OEJSON_NRESULTS (- 45) (\<lambda>i r. GetRes_set_nresults r (word_of_int i)) res) (\<lambda>res.
     let res = true_member json OEJSON_RETURN_BYTES GetRes_set_destroyed res in
     m_bind (case cJSON_GetObjectItem json OEJSON_VALUES of
               None \<Rightarrow> made_ok (res, d)
             | Some (cJSON_Array vs) \<Rightarrow> m_bind (add_strings vs d) (\<lambda>d. made_ok (GetRes_set_tuple res, d))
             | Some (cJSON_Object ms) \<Rightarrow> m_bind (add_members ms d) (\<lambda>d. made_ok (res, d))
             | Some v \<Rightarrow> refused (- 46)) (\<lambda>(res, d).
     m_bind (case cJSON_GetObjectItem json OEJSON_BYTES of
               None \<Rightarrow> made_ok d
             | Some (cJSON_String s) \<Rightarrow>
                 checked (c_bind (DataObject_set_nbytes d (length s)) (\<lambda>d1. DataObject_set_bytes d1 s))
             | Some v \<Rightarrow> refused (- 48)) (\<lambda>d.
     made_ok (msg\<lparr>data := D_get_res (GetRes_set_data res (Some d))\<rparr>))))))"

definition sta_response_create :: "OekMsg \<Rightarrow> cJSON \<Rightarrow> OekMsg made" where
  "sta_response_create msg0 json =
     m_bind (checked (OekMsg_get_sta_res msg0)) (\<lambda>res.
     m_bind (tid_member json (- 49) msg0) (cid_member json (- 50)))"

definition upl_response_create :: "OekMsg \<Rightarrow> cJSON \<Rightarrow> OekMsg made" where
  "upl_response_create msg0 json =
     m_bind (checked (OekMsg_get_upl_res msg0)) (\<lambda>res.
     m_bind (cid_member json (- 52) msg0) (\<lambda>msg.
     m_bind (number_member json OEJSON_EXPTIME (- 53) (\<lambda>i r. UplRes_set_expiretime r (word_of_int i)) res) (\<lambda>res.
     made_ok (msg\<lparr>data := D_upl_res res\<rparr>))))"

definition upt_response_create :: "OekMsg \<Rightarrow> cJSON \<Rightarrow> OekMsg made" where
  "upt_response_create msg0 json =
     m_bind (checked (OekMsg_get_upt_res msg0)) (\<lambda>res.
     m_bind (cid_member json (- 54) msg0) (\<lambda>msg.
     m_bind (string_member json OEJSON_STATUS (- 56) (\<lambda>s r. UptRes_set_status r (first_char s)) res) (\<lambda>res.
     made_ok (msg\<lparr>data := D_upt_res res\<rparr>))))"

section \<open>Any message\<close>

definition new_from :: "OEK_MSG_TYPE \<Rightarrow> (OekMsg \<Rightarrow> cJSON \<Rightarrow> OekMsg made) \<Rightarrow> cJSON \<Rightarrow> OekMsg made" where
  "new_from t create json = m_bind (checked (OekMsg_new t)) (\<lambda>msg. create msg json)"

definition command_create :: "cJSON \<Rightarrow> OekMsg made" where
  "command_create json =
     (case cJSON_GetObjectItem json OEJSON_NAME of
        None \<Rightarrow> refused (- 74)
      | Some node \<Rightarrow>
          case valuestring node of
            None \<Rightarrow> refused (- 75)
          | Some name \<Rightarrow>
              if name = OEJSON_CON then new_from CON_CMD con_command_create json
              else if name = OEJSON_PUT then new_from PUT_CMD put_command_create json
              else if name = OEJSON_GET then new_from GET_CMD get_command_create json
              else if name = OEJSON_STA then new_from STA_CMD sta_command_create json
              else if name = OEJSON_UPL then new_from UPL_CMD upl_command_create json
              else if name = OEJSON_UPT then new_from UPT_CMD upt_command_create json
              else if name = OEJSON_DIS then new_from DIS_CMD dis_command_create json
              else refused (- 76))"

definition response_create :: "cJSON \<Rightarrow> OekMsg made" where
  "response_create json =
     (case cJSON_GetObjectItem json OEJSON_NAME of
        None \<Rightarrow> refused (- 77)
      | Some node \<Rightarrow>
          case valuestring node of
            None \<Rightarrow> refused (- 78)
          | Some name \<Rightarrow>
              if name = OEJSON_CON then new_from CON_RES con_response_create json
              else if name = OEJSON_PUT then new_from PUT_RES put_response_create json
              else if name = OEJSON_GET then new_from GET_RES get_response_create json
              else if name = OEJSON_STA then new_from STA_RES sta_response_create json
              else if name = OEJSON_UPL then new_from UPL_RES upl_response_create json
              else if name = OEJSON_UPT then new_from UPT_RES upt_response_create json
              else refused (- 79))"

text \<open>The block holds the text and its NUL.\<close>

definition json_msg_create :: "string \<Rightarrow> OekMsg made" where
  "json_msg_create str =
     c_bind (cJSON_Parse str) (\<lambda>r.
       case r of
         None \<Rightarrow> refused (- 84)
       | Some json \<Rightarrow>
           case cJSON_GetObjectItem json OEJSON_TYPE of
             None \<Rightarrow> refused (- 80)
           | Some typenode \<Rightarrow>
               case valuestring typenode of
                 None \<Rightarrow> refused (- 81)
               | Some t \<Rightarrow>
                   if t = OEJSON_COMMAND then command_create json
                   else if t = OEJSON_RESPONSE then response_create json
                   else if t = OEJSON_ERROR then error_create json
                   else refused (- 82))"

end
