(* ===== verification/Json_Serialize.thy ===== *)
theory Json_Serialize
  imports Json_Create
begin

text \<open>
  From a message to a JSON text (\<^verbatim>\<open>corelib/json_msg_factory.c\<close>, the functions \<^verbatim>\<open>..._serialize\<close>): an object is built member by
  member and printed.  A number goes through a \<^verbatim>\<open>double\<close> and an \<^verbatim>\<open>int\<close> on its way; a string that is NULL is followed.  The result is
  the return code and the text.
\<close>

definition add_string :: "string \<Rightarrow> string option \<Rightarrow> cJSON \<Rightarrow> cJSON c_result" where
  "add_string name s obj = c_bind (cJSON_CreateString s) (\<lambda>v. Inr (cJSON_AddItemToObject obj name v))"

definition add_number :: "string \<Rightarrow> int \<Rightarrow> cJSON \<Rightarrow> cJSON c_result" where
  "add_number name n obj =
     c_bind (cJSON_CreateNumber (finite_double (of_int n))) (\<lambda>v. Inr (cJSON_AddItemToObject obj name v))"

definition add_nonzero :: "string \<Rightarrow> int \<Rightarrow> cJSON \<Rightarrow> cJSON c_result" where
  "add_nonzero name n obj = (if n \<noteq> 0 then add_number name n obj else Inr obj)"

definition add_true :: "bool \<Rightarrow> string \<Rightarrow> cJSON \<Rightarrow> cJSON" where
  "add_true b name obj = (if b then cJSON_AddItemToObject obj name cJSON_True else obj)"

definition new_object :: "string \<Rightarrow> string \<Rightarrow> cJSON" where
  "new_object t n =
     cJSON_AddItemToObject (cJSON_AddItemToObject (cJSON_Object []) OEJSON_TYPE (cJSON_String t)) OEJSON_NAME (cJSON_String n)"

text \<open>An \<^verbatim>\<open>oe_id\<close> or a \<^verbatim>\<open>size_t\<close> is unsigned, an \<^verbatim>\<open>oe_dur\<close> or an \<^verbatim>\<open>oe_time\<close> signed.\<close>

definition add_cid :: "OekMsg \<Rightarrow> cJSON \<Rightarrow> cJSON c_result" where
  "add_cid msg = add_nonzero OEJSON_CID (uint (OekMsg_get_cid msg))"

definition add_tid :: "OekMsg \<Rightarrow> cJSON \<Rightarrow> cJSON c_result" where
  "add_tid msg = add_nonzero OEJSON_TID (uint (OekMsg_get_tid msg))"

definition get_json_string :: "cJSON \<Rightarrow> (int \<times> string) c_result" where
  "get_json_string json = c_bind (cJSON_Print json) (\<lambda>str. Inr (0, str))"

definition version_object :: "size_t \<Rightarrow> size_t \<Rightarrow> size_t \<Rightarrow> cJSON c_result" where
  "version_object maj mnr seq =
     c_bind (add_number OEJSON_MAJ (uint maj) (cJSON_Object [])) (\<lambda>ver.
     c_bind (add_number OEJSON_MIN (uint mnr) ver) (\<lambda>ver. add_number OEJSON_SEQ (uint seq) ver))"

section \<open>Data\<close>

fun tuple_values :: "oe_scalar list \<Rightarrow> cJSON \<Rightarrow> cJSON c_result" where
  "tuple_values [] values = Inr values"
| "tuple_values (k # ks) values =
     c_bind (cJSON_CreateString (Some k)) (\<lambda>v. tuple_values ks (cJSON_AddItemToArray values v))"

text \<open>A key without a value: the iterator has no more and gives NULL.\<close>

fun map_values :: "oe_scalar list \<Rightarrow> cJSON \<Rightarrow> cJSON c_result" where
  "map_values [] values = Inr values"
| "map_values [k] values = c_bind (cJSON_CreateString None) (\<lambda>v. Inr (cJSON_AddItemToObject values k v))"
| "map_values (k # x # ks) values =
     c_bind (cJSON_CreateString (Some x)) (\<lambda>v. map_values ks (cJSON_AddItemToObject values k v))"

definition values_object :: "bool \<Rightarrow> DataObject \<Rightarrow> cJSON c_result" where
  "values_object tuple d =
     (if tuple then tuple_values (strings d) (cJSON_Array []) else map_values (strings d) (cJSON_Object []))"

text \<open>The bytes in base 64, in a block of the arena; \<^verbatim>\<open>int nbytes\<close> and the size of the block are \<^verbatim>\<open>int\<close>s.\<close>

definition add_bytes :: "DataObject \<Rightarrow> cJSON \<Rightarrow> cJSON c_result" where
  "add_bytes d obj =
     (if DataObject_get_nbytes d = 0 then Inr obj
      else if \<not> int_fits (int (modp_b64_encode_len (DataObject_get_nbytes d))) then Inl Int_Overflow
      else c_bind (DataObject_get_bytes d) (\<lambda>bs.
           if length bs < DataObject_get_nbytes d then Inl Out_Of_Bounds
           else c_bind (sprintf_into (modp_b64_encode_len (DataObject_get_nbytes d))
                  (modp_b64_encode (take (DataObject_get_nbytes d) bs))) (\<lambda>text.
                add_string OEJSON_BYTES (Some text) obj)))"

section \<open>Commands\<close>

definition con_command_serialize :: "OekMsg \<Rightarrow> (int \<times> string) c_result" where
  "con_command_serialize msg =
     c_bind (OekMsg_get_con_cmd msg) (\<lambda>cmd.
     let json = new_object OEJSON_COMMAND OEJSON_CON;
         json = add_true (ConCmd_rollback_on_disconnect cmd) RB_ON_DISCONNECT json in
     c_bind (add_string OEJSON_EXTENTNAME (ConCmd_get_extentname cmd) json) (\<lambda>json.
     c_bind (add_string OEJSON_USERNAME (ConCmd_get_username cmd) json) (\<lambda>json.
     c_bind (add_string OEJSON_PASSWORD (ConCmd_get_pwd cmd) json) (\<lambda>json.
     c_bind (version_object (ConCmd_get_version_maj cmd) (ConCmd_get_version_min cmd) (ConCmd_get_version_upt cmd)) (\<lambda>ver.
     c_bind (add_cid msg (cJSON_AddItemToObject json OEJSON_VERSION ver)) get_json_string)))))"

definition put_command_serialize :: "OekMsg \<Rightarrow> (int \<times> string) c_result" where
  "put_command_serialize msg =
     c_bind (OekMsg_get_put_cmd msg) (\<lambda>cmd0.
     let (d, cmd) = PutCmd_get_data cmd0 in
     c_bind (add_cid msg (new_object OEJSON_COMMAND OEJSON_PUT)) (\<lambda>json.
     c_bind (add_tid msg json) (\<lambda>json.
     c_bind (add_nonzero OEJSON_DUR (sint (PutCmd_get_dur cmd)) json) (\<lambda>json.
     c_bind (add_bytes d json) (\<lambda>json.
     c_bind (values_object (PutCmd_is_tuple cmd) d) (\<lambda>values.
     get_json_string (cJSON_AddItemToObject json OEJSON_VALUES values)))))))"

fun template_objects :: "bool \<Rightarrow> DataObjectList \<Rightarrow> cJSON \<Rightarrow> cJSON c_result" where
  "template_objects tuple [] jtemplates = Inr jtemplates"
| "template_objects tuple (t # ts) jtemplates =
     c_bind (values_object tuple t) (\<lambda>v. template_objects tuple ts (cJSON_AddItemToArray jtemplates v))"

text \<open>\<^verbatim>\<open>int timeout\<close> and \<^verbatim>\<open>int maxresults\<close> take the low 32 bits.\<close>

definition low_int :: "64 word \<Rightarrow> int" where
  "low_int w = sint (ucast w :: 32 word)"

definition get_command_serialize :: "OekMsg \<Rightarrow> (int \<times> string) c_result" where
  "get_command_serialize msg =
     c_bind (OekMsg_get_get_cmd msg) (\<lambda>cmd0.
     let (templates, cmd) = GetCmd_get_data_objects cmd0 in
     c_bind (add_cid msg (new_object OEJSON_COMMAND OEJSON_GET)) (\<lambda>json.
     c_bind (add_tid msg json) (\<lambda>json.
     c_bind (add_nonzero OEJSON_TIMEOUT (low_int (GetCmd_get_timeout cmd)) json) (\<lambda>json.
     c_bind (add_nonzero OEJSON_MAXRESULTS (low_int (GetCmd_get_max_responses cmd)) json) (\<lambda>json.
     let json = add_true (GetCmd_remove cmd) OEJSON_REMOVE json;
         json = add_true (GetCmd_ifexists cmd) OEJSON_IFEXISTS json;
         json = add_true (GetCmd_return_attrs cmd) OEJSON_RETURN_ATTRS json;
         json = add_true (GetCmd_return_bytes cmd) OEJSON_RETURN_BYTES json;
         json = add_true (fst (GetCmd_get_join cmd)) OEJSON_ISJOIN json in
     c_bind (template_objects (GetCmd_is_tuple cmd) templates (cJSON_Array [])) (\<lambda>jtemplates.
     get_json_string (cJSON_AddItemToObject json OEJSON_TEMPLATES jtemplates)))))))"

definition sta_command_serialize :: "OekMsg \<Rightarrow> (int \<times> string) c_result" where
  "sta_command_serialize msg =
     c_bind (OekMsg_get_sta_cmd msg) (\<lambda>cmd.
     c_bind (add_cid msg (new_object OEJSON_COMMAND OEJSON_STA)) (\<lambda>json.
     c_bind (add_nonzero OEJSON_DUR (sint (StaCmd_get_dur cmd)) json) get_json_string))"

definition upl_command_serialize :: "OekMsg \<Rightarrow> (int \<times> string) c_result" where
  "upl_command_serialize msg =
     c_bind (OekMsg_get_upl_cmd msg) (\<lambda>cmd.
     c_bind (add_cid msg (new_object OEJSON_COMMAND OEJSON_UPL)) (\<lambda>json.
     c_bind (add_nonzero OEJSON_DUR (sint (UplCmd_get_dur cmd)) json) (\<lambda>json.
     c_bind (add_nonzero OEJSON_LID (uint (UplCmd_get_lid cmd)) json) get_json_string)))"

text \<open>A status that is not 0 is a string of one character.\<close>

definition add_status :: "char \<Rightarrow> cJSON \<Rightarrow> cJSON c_result" where
  "add_status status obj = (if status \<noteq> NUL then add_string OEJSON_STATUS (Some [status]) obj else Inr obj)"

definition upt_command_serialize :: "OekMsg \<Rightarrow> (int \<times> string) c_result" where
  "upt_command_serialize msg =
     c_bind (OekMsg_get_upt_cmd msg) (\<lambda>cmd.
     c_bind (add_cid msg (new_object OEJSON_COMMAND OEJSON_UPT)) (\<lambda>json.
     c_bind (add_tid msg json) (\<lambda>json.
     c_bind (add_nonzero OEJSON_DUR (sint (UptCmd_get_dur cmd)) json) (\<lambda>json.
     c_bind (add_number OEJSON_ENLISTED (sint (UptCmd_get_enlisted cmd)) json) (\<lambda>json.
     c_bind (add_status (UptCmd_get_status cmd) json) get_json_string)))))"

definition dis_command_serialize :: "OekMsg \<Rightarrow> (int \<times> string) c_result" where
  "dis_command_serialize msg =
     c_bind (OekMsg_get_dis_cmd msg) (\<lambda>cmd. get_json_string (new_object OEJSON_COMMAND OEJSON_DIS))"

section \<open>Responses and errors\<close>

definition con_response_serialize :: "OekMsg \<Rightarrow> (int \<times> string) c_result" where
  "con_response_serialize msg =
     c_bind (OekMsg_get_con_res msg) (\<lambda>res.
     c_bind (add_number OEJSON_SID (uint (ConRes_get_sid res)) (new_object OEJSON_RESPONSE OEJSON_CON)) (\<lambda>json.
     c_bind (version_object (ConRes_get_version_maj res) (ConRes_get_version_min res) (ConRes_get_version_upt res)) (\<lambda>ver.
     c_bind (add_cid msg (cJSON_AddItemToObject json OEJSON_VERSION ver)) get_json_string)))"

definition put_response_serialize :: "OekMsg \<Rightarrow> (int \<times> string) c_result" where
  "put_response_serialize msg =
     c_bind (OekMsg_get_put_res msg) (\<lambda>res.
     c_bind (add_number OEJSON_LID (uint (PutRes_get_lease_id res)) (new_object OEJSON_RESPONSE OEJSON_PUT)) (\<lambda>json.
     c_bind (add_cid msg json) get_json_string))"

definition get_response_serialize :: "OekMsg \<Rightarrow> (int \<times> string) c_result" where
  "get_response_serialize msg =
     c_bind (OekMsg_get_get_res msg) (\<lambda>res0.
     let (d, res) = GetRes_get_data res0 in
     c_bind (add_cid msg (new_object OEJSON_RESPONSE OEJSON_GET)) (\<lambda>json.
     c_bind (add_tid msg json) (\<lambda>json.
     let json = add_true (GetRes_is_destroyed res) OEJSON_RETURN_IS_DESTROYED json in
     c_bind (add_number OEJSON_NRESULTS (uint (GetRes_get_nresults res)) json) (\<lambda>json.
     c_bind (if GetRes_return_bytes res then add_bytes d json else Inr json) (\<lambda>json.
     c_bind (if GetRes_return_attrs res \<and> DataObject_get_nattrs d \<noteq> 0
             then c_bind (values_object (GetRes_is_tuple res) d) (\<lambda>values.
                    Inr (cJSON_AddItemToObject json OEJSON_VALUES values))
             else Inr json) get_json_string)))))"

definition sta_response_serialize :: "OekMsg \<Rightarrow> (int \<times> string) c_result" where
  "sta_response_serialize msg =
     c_bind (OekMsg_get_sta_res msg) (\<lambda>res.
     c_bind (add_cid msg (new_object OEJSON_RESPONSE OEJSON_STA)) (\<lambda>json.
     c_bind (add_tid msg json) (\<lambda>json.
     c_bind (get_json_string json) (\<lambda>(rc, str). Inr (if OekMsg_get_tid msg = 0 then - 1 else 0, str)))))"

definition upl_response_serialize :: "OekMsg \<Rightarrow> (int \<times> string) c_result" where
  "upl_response_serialize msg =
     c_bind (OekMsg_get_upl_res msg) (\<lambda>res.
     c_bind (add_cid msg (new_object OEJSON_RESPONSE OEJSON_UPL)) (\<lambda>json.
     c_bind (add_nonzero OEJSON_EXPTIME (sint (UplRes_get_expiretime res)) json) get_json_string))"

definition upt_response_serialize :: "OekMsg \<Rightarrow> (int \<times> string) c_result" where
  "upt_response_serialize msg =
     c_bind (OekMsg_get_upt_res msg) (\<lambda>res.
     c_bind (add_cid msg (new_object OEJSON_RESPONSE OEJSON_UPT)) (\<lambda>json.
     c_bind (add_status (UptRes_get_status res) json) get_json_string))"

definition json_err_serialize :: "OekMsg \<Rightarrow> (int \<times> string) c_result" where
  "json_err_serialize msg =
     c_bind (OekMsg_get_err msg) (\<lambda>err.
     c_bind (add_cid msg (cJSON_AddItemToObject (cJSON_Object []) OEJSON_TYPE (cJSON_String OEJSON_ERROR))) (\<lambda>json.
     c_bind (add_nonzero OEJSON_EID (uint (OekErr_get_type err)) json) (\<lambda>json.
     c_bind (if OekErr_get_message err \<noteq> None then add_string OEJSON_MESSAGE (OekErr_get_message err) json else Inr json)
       get_json_string)))"

definition json_msg_serialize :: "OekMsg \<Rightarrow> (int \<times> string) c_result" where
  "json_msg_serialize msg =
     (case OekMsg_get_type msg of
        CON_CMD \<Rightarrow> con_command_serialize msg
      | CON_RES \<Rightarrow> con_response_serialize msg
      | PUT_CMD \<Rightarrow> put_command_serialize msg
      | PUT_RES \<Rightarrow> put_response_serialize msg
      | GET_CMD \<Rightarrow> get_command_serialize msg
      | GET_RES \<Rightarrow> get_response_serialize msg
      | STA_CMD \<Rightarrow> sta_command_serialize msg
      | STA_RES \<Rightarrow> sta_response_serialize msg
      | UPL_CMD \<Rightarrow> upl_command_serialize msg
      | UPL_RES \<Rightarrow> upl_response_serialize msg
      | UPT_CMD \<Rightarrow> upt_command_serialize msg
      | UPT_RES \<Rightarrow> upt_response_serialize msg
      | DIS_CMD \<Rightarrow> dis_command_serialize msg
      | OEK_ERR \<Rightarrow> json_err_serialize msg
      | OEK_NON \<Rightarrow> Inl Assert_Failed)"

end
