(* ===== verification/Cjson_Props.thy ===== *)
theory Cjson_Props
  imports Cjson
begin

text \<open>
  What the JSON library does with texts it printed itself, and with others: parsing a printed value gives it back, control
  characters without an escape left out; the printer stays inside its blocks and never leaves an empty line; the fuel of the
  parser is never spent; and a text that ends too early, or a broken escape, takes the parser out of its block.
\<close>

section \<open>Strings\<close>

text \<open>The characters that survive printing.\<close>

definition kept :: "string \<Rightarrow> string" where
  "kept s = filter (\<lambda>c. escaped c \<noteq> []) s"

lemma escaped_cases:
  obtains (plain) "plain_char c" "escaped c = [c]"
    | (esc) e where "escaped c = [CHR 0x5C, e]" "unescaped e = c" "e \<noteq> CHR ''u''" "c \<noteq> NUL"
    | (dropped) "escaped c = []"
proof -
  consider "plain_char c" | "c = CHR 0x5C" | "c = CHR 0x22" | "c = CHR 0x08" | "c = CHR 0x0C" | "c = CHR 0x0A" | "c = CHR 0x0D"
    | "c = CHR 0x09" | "escaped c = []"
    unfolding escaped_def is_backslash_def is_quote_def by argo
  then show thesis
    using plain esc dropped
    by cases (auto simp: escaped_def plain_char_def is_backslash_def is_quote_def unescaped_def NUL_def)
qed

lemma stop_simps [simp]: "\<not> string_stop (CHR 0x5C)" "is_backslash (CHR 0x5C)" "string_stop (CHR 0x22)" "is_quote (CHR 0x22)"
  by (simp_all add: string_stop_def is_backslash_def is_quote_def)

lemma plain_char_simps [simp]: "plain_char c \<Longrightarrow> \<not> string_stop c" "plain_char c \<Longrightarrow> \<not> is_backslash c"
  by (auto simp: plain_char_def string_stop_def)

lemma plain_char_NUL [simp]: "\<not> plain_char NUL"
  by (simp add: plain_char_def)

lemma string_len_printed: "string_len (concat (map escaped s) @ CHR 0x22 # rest) = Inr (length (kept s))"
proof (induction s)
  case Nil
  show ?case by (cases rest) (simp_all add: kept_def)
next
  case (Cons c s)
  obtain x xs where x: "concat (map escaped s) @ CHR 0x22 # rest = x # xs"
    by (cases "concat (map escaped s) @ CHR 0x22 # rest") auto
  show ?case
    by (cases c rule: escaped_cases) (use Cons.IH in \<open>auto simp: kept_def x\<close>)
qed

lemma copy_printed:
  "length out + length (kept s) < cap \<Longrightarrow>
   copy_string cap uc out (concat (map escaped s) @ CHR 0x22 # rest) = Inr (out @ kept s, rest)"
proof (induction s arbitrary: out)
  case Nil
  then show ?case by (simp add: kept_def put_bytes_def)
next
  case (Cons c s)
  then show ?case
    by (cases c rule: escaped_cases) (auto simp: kept_def put_bytes_def)
qed

lemma kept_cstring: "takeWhile (\<lambda>c. c \<noteq> NUL) (kept s) = kept s"
proof -
  have "escaped NUL = []" by (simp add: escaped_def is_backslash_def is_quote_def NUL_def plain_char_def)
  then show ?thesis by (auto simp: takeWhile_eq_all_conv kept_def)
qed

lemma parse_printed_string: "parse_string (quote_text s @ rest) = Inr (Some (kept s, rest))"
  by (simp add: parse_string_def quote_text_def char_at_def string_len_printed copy_printed kept_cstring)

lemma length_escaped: "length (concat (map escaped s)) \<le> escaped_len s"
  unfolding escaped_len_def
  by (induction s) (auto simp: escaped_def plain_char_def is_backslash_def is_quote_def)

lemma print_string_ptr_ok [simp]: "print_string_ptr (Some s) = Inr (quote_text s)"
  using length_escaped [of s] by (simp add: print_string_ptr_def sprintf_into_def quote_text_def)

section \<open>Numbers\<close>

lemma is_digit_schar: "is_digit c \<Longrightarrow> schar c - 48 = int (of_char c - 48)"
  by (auto simp: is_digit_def schar_def Let_def)

lemma next_digit_int:
  assumes "is_digit c" "0 \<le> n" "n < 2 ^ 45"
  shows "next_digit (Some (of_int n)) c = Some (of_int (10 * n + int (of_char c - 48)))"
proof -
  have d: "int (of_char c - 48) < 10" using assms(1) by (auto simp: is_digit_def)
  have m: "d_mult (Some (of_int n)) (Some (of_int 10)) = Some (of_int (n * 10))"
    using assms(2,3) by (intro d_mult_int) (simp add: abs_of_nonneg)
  have "d_add (Some (of_int (n * 10))) (Some (of_int (int (of_char c - 48)))) = Some (of_int (n * 10 + int (of_char c - 48)))"
    using assms(2,3) d by (intro d_add_int) (simp add: abs_of_nonneg)
  then show ?thesis using m by (simp add: next_digit_def is_digit_schar [OF assms(1)] mult.commute)
qed

lemma digits_val_mono: "a \<le> digits_val a s"
proof (induction s arbitrary: a)
  case (Cons c s)
  have "a \<le> 10 * a + (of_char c - 48)" by simp
  also have "\<dots> \<le> digits_val (10 * a + (of_char c - 48)) s" by (rule Cons.IH)
  finally show ?case by (simp add: digits_val_def)
qed (simp add: digits_val_def)

lemma digits_loop_int:
  assumes "\<forall>c \<in> set s. is_digit c" "digits_val n s < 2 ^ 45" "\<not> is_digit d"
  shows "digits_loop (Some (of_nat n)) (s @ d # rest) = Inr (Some (of_nat (digits_val n s)), d # rest)"
  using assms
proof (induction s arbitrary: n)
  case Nil
  then show ?case by (simp add: digits_val_def)
next
  case (Cons c s)
  have v: "digits_val n (c # s) = digits_val (10 * n + (of_char c - 48)) s" by (simp add: digits_val_def)
  have "10 * n + (of_char c - 48) \<le> digits_val n (c # s)" unfolding v by (rule digits_val_mono)
  then have n: "n < 2 ^ 45" using Cons.prems(2) by linarith
  have "next_digit (Some (of_int (int n))) c = Some (of_int (10 * int n + int (of_char c - 48)))"
    by (rule next_digit_int) (use Cons.prems(1) n in simp_all)
  then have "next_digit (Some (of_nat n)) c = Some (of_nat (10 * n + (of_char c - 48)))" by simp
  then show ?case using Cons.IH [of "10 * n + (of_char c - 48)"] Cons.prems v by simp
qed

lemma dec_nat_hd: "0 < n \<Longrightarrow> hd (dec_nat n) \<noteq> CHR ''0''"
proof (induction n rule: dec_nat.induct)
  case (1 n)
  show ?case
  proof (cases "n < 10")
    case True
    have "char_of (48 + n) \<noteq> CHR ''0''"
    proof
      assume "char_of (48 + n) = CHR ''0''"
      then have "of_char (char_of (48 + n)) = (48 :: nat)" by simp
      then show False using True "1.prems" by simp
    qed
    then show ?thesis using True by (simp add: dec_nat.simps [of n])
  next
    case False
    then have "hd (dec_nat (n div 10)) \<noteq> CHR ''0''" using "1.IH" by simp
    then show ?thesis using False by (simp add: dec_nat.simps [of n] hd_append)
  qed
qed

text \<open>What may follow a number.\<close>

definition ends_number :: "char \<Rightarrow> bool" where
  "ends_number c = (\<not> is_digit c \<and> c \<noteq> CHR ''.'' \<and> c \<noteq> CHR ''e'' \<and> c \<noteq> CHR ''E'')"

lemma parse_whole_dec:
  assumes "n < 2 ^ 45" "ends_number c"
  shows "c_bind (parse_zero (dec_nat n @ c # rest)) parse_whole = Inr (Some (of_nat n), c # rest)"
proof (cases "n = 0")
  case True
  have "char_of (48 :: nat) = CHR ''0''" by code_simp
  with True show ?thesis
    using assms(2) by (simp add: dec_nat.simps [of 0] parse_zero_def parse_whole_def char_at_def ends_number_def)
next
  case False
  obtain x xs where x: "dec_nat n = x # xs" by (cases "dec_nat n") auto
  have x0: "x \<noteq> CHR ''0''" using dec_nat_hd [of n] False by (simp add: x)
  have d: "is_digit x" "\<forall>c \<in> set xs. is_digit c" using dec_nat_digits [of _ n] by (auto simp: x)
  have v: "digits_val (of_char x - 48) xs = n" using digits_val_dec_nat [of n] by (simp add: x digits_val_def)
  have "next_digit (Some (of_int 0)) x = Some (of_int (10 * 0 + int (of_char x - 48)))"
    by (rule next_digit_int [OF d(1)]) simp_all
  then have "next_digit (Some 0) x = Some (of_nat (of_char x - 48))" by simp
  then show ?thesis
    using digits_loop_int [OF d(2), of "of_char x - 48" c rest] assms x0 d(1) v
    by (simp add: x parse_zero_def parse_whole_def char_at_def ends_number_def)
qed

lemma parse_number_dec:
  assumes i: "int_fits i" and c: "ends_number c"
  shows "parse_number (dec_int i @ c # rest) = Inr (Some (cJSON_Number i (of_int i), c # rest))"
proof -
  define n where "n = nat \<bar>i\<bar>"
  define sg :: int where "sg = (if i < 0 then - 1 else 1)"
  have n: "n < 2 ^ 45" "sg * int n = i" "\<bar>sg * int n\<bar> < 2 ^ 53" using i by (auto simp: n_def sg_def int_fits_def)
  obtain x xs where x: "dec_nat n = x # xs" by (cases "dec_nat n") auto
  have "is_digit x" using dec_nat_digits [of x n] by (simp add: x)
  then have m: "x \<noteq> CHR ''-''" by (auto simp: is_digit_def)
  have s: "parse_sign (dec_int i @ c # rest) = Inr (sg, dec_nat n @ c # rest)"
    using m x by (cases "i < 0") (simp_all add: parse_sign_def dec_int_def char_at_def n_def sg_def)
  have w: "c_bind (parse_zero (dec_nat n @ c # rest)) (\<lambda>s. c_bind (parse_whole s) f) = f (Some (of_nat n), c # rest)"
    for f :: "double \<times> string \<Rightarrow> cJSON json_parsed"
    using parse_whole_dec [OF n(1) c, of rest] by (auto elim!: c_bind_InrE)
  have fr: "parse_fraction (Some (of_nat n)) (c # rest) = Inr (Some (of_nat n), 0, c # rest)"
      "parse_exponent (c # rest) = Inr (0, c # rest)"
    using c by (simp_all add: parse_fraction_def parse_exponent_def char_at_def ends_number_def)
  have "d_mult (Some (of_int sg)) (Some (of_int (int n))) = Some (of_int i)" using d_mult_int [OF n(3)] n(2) by simp
  then have m1: "d_mult (Some (of_int sg)) (Some (of_nat n)) = Some (of_int i)" by simp
  have "d_mult (Some (of_int i)) (Some (of_int 1)) = Some (of_int (i * 1))" using n(2,3) by (intro d_mult_int) simp
  then have m2: "d_mult (Some (of_int i)) (Some 1) = Some (of_int i)" by simp
  show ?thesis
    by (simp add: parse_number_def s w fr m1 m2 i del: d_mult.simps)
qed

lemma print_number_int:
  assumes "int_fits i"
  shows "print_number i (of_int i) = Inr (dec_int i)"
proof -
  have "of_int i \<le> (of_int (2 ^ 31 - 1) :: rat)" "(of_int (- (2 ^ 31)) :: rat) \<le> of_int i"
    using assms unfolding of_int_le_iff int_fits_def by simp_all
  moreover have "nat \<bar>i\<bar> < 10 ^ Suc 9" using assms by (auto simp: int_fits_def)
  then have "length (dec_nat (nat \<bar>i\<bar>)) \<le> 10" using length_dec_nat [of "nat \<bar>i\<bar>" 9] by simp
  then have "length (dec_int i) < 21" by (auto simp: dec_int_def)
  ultimately show ?thesis by (simp add: print_number_def sprintf_into_def rounded_def DBL_EPSILON_def)
qed

section \<open>Values\<close>

text \<open>A value whose numbers are \<^verbatim>\<open>int\<close>s, as all that the program creates are.\<close>

fun int_numbers :: "cJSON \<Rightarrow> bool" where
  "int_numbers (cJSON_Number i d) = (int_fits i \<and> d = of_int i)"
| "int_numbers (cJSON_Array xs) = (\<forall>x \<in> set xs. int_numbers x)"
| "int_numbers (cJSON_Object ms) = (\<forall>m \<in> set ms. int_numbers (snd m))"
| "int_numbers v = True"

text \<open>A value without the characters that printing drops.\<close>

fun kept_value :: "cJSON \<Rightarrow> cJSON" where
  "kept_value (cJSON_String s) = cJSON_String (kept s)"
| "kept_value (cJSON_Array xs) = cJSON_Array (map kept_value xs)"
| "kept_value (cJSON_Object ms) = cJSON_Object (map (\<lambda>m. (kept (fst m), kept_value (snd m))) ms)"
| "kept_value v = v"

text \<open>The formatted text of a value.\<close>

fun json_text :: "nat \<Rightarrow> cJSON \<Rightarrow> string" where
  "json_text depth cJSON_NULL = ''null''"
| "json_text depth cJSON_False = ''false''"
| "json_text depth cJSON_True = ''true''"
| "json_text depth (cJSON_Number i d) = dec_int i"
| "json_text depth (cJSON_String s) = quote_text s"
| "json_text depth (cJSON_Array xs) = array_text True (map (json_text (depth + 1)) xs)"
| "json_text depth (cJSON_Object ms) =
     object_text (depth + 1) True (map (\<lambda>m. (quote_text (fst m), json_text (depth + 1) (snd m))) ms)"

subsection \<open>The printer stays in its blocks\<close>

lemma length_joined: "length (joined sep xs) \<le> sum_list (map (\<lambda>x. length x + length sep) xs)"
  by (induction sep xs rule: joined.induct) auto

lemma array_text_fits: "length (array_text fmt es) < array_len fmt es"
proof -
  have "sum_list (map (\<lambda>e. length e + length (if fmt then '', '' else '','')) es) \<le>
      sum_list (map (\<lambda>e. length e + 2 + (if fmt then 1 else 0)) es)" by (rule sum_list_mono) simp
  then show ?thesis using length_joined [of "if fmt then '', '' else '',''" es] by (simp add: array_text_def array_len_def)
qed

lemma length_members_text:
  "length (members_text depth fmt es) \<le> sum_list (map (\<lambda>(k, e). length e + length k + 2 + (if fmt then 2 + depth else 0)) es)"
  by (induction depth fmt es rule: members_text.induct) (auto simp: tabs_def)

lemma object_text_fits: "length (object_text depth fmt es) < object_len depth fmt es"
  using length_members_text [of depth fmt es] by (cases fmt) (simp_all add: object_text_def object_len_def tabs_def)

lemma print_text:
  "int_numbers v \<Longrightarrow> fmt \<Longrightarrow> print_value v depth fmt = Inr (json_text depth v)"
  "\<forall>x \<in> set xs. int_numbers x \<Longrightarrow> fmt \<Longrightarrow> print_items xs depth fmt = Inr (map (json_text depth) xs)"
  "\<forall>m \<in> set ms. int_numbers (snd m) \<Longrightarrow> fmt \<Longrightarrow>
     print_members ms depth fmt = Inr (map (\<lambda>m. (quote_text (fst m), json_text depth (snd m))) ms)"
proof (induction v depth fmt and xs depth fmt and ms depth fmt rule: print_value_print_items_print_members.induct)
  case (6 xs depth fmt)
  then show ?case using array_text_fits [of True] by (simp add: sprintf_into_def)
next
  case (7 ms depth fmt)
  then show ?case using object_text_fits [of "Suc depth" True] by (simp add: sprintf_into_def)
qed (auto simp: print_number_int print_string_def)

lemma cJSON_Print_text: "int_numbers v \<Longrightarrow> cJSON_Print v = Inr (json_text 0 v)"
  by (simp add: cJSON_Print_def print_text)

subsection \<open>The parser reads what was printed\<close>

definition blank :: "char \<Rightarrow> bool" where
  "blank c = (of_char c \<le> (32 :: nat))"

lemma skip_blanks: "\<forall>c \<in> set ws. blank c \<Longrightarrow> \<not> blank c \<Longrightarrow> skip (ws @ c # s) = Inr (c # s)"
  by (induction ws) (auto simp: blank_def)

lemma digit_not_blank: "is_digit c \<Longrightarrow> \<not> blank c"
  by (auto simp: is_digit_def blank_def)

lemma dec_int_start: "\<exists>c s. dec_int i = c # s \<and> (c = CHR ''-'' \<or> is_digit c)"
  using dec_nat_digits [of _ "nat i"]
  by (cases "dec_nat (nat i)") (auto simp: dec_int_def)

lemma json_text_start: "\<exists>c s. json_text depth v = c # s \<and> \<not> blank c \<and> c \<noteq> CHR '']''"
proof (cases v)
  case (cJSON_Number i d)
  then show ?thesis using dec_int_start [of i] by (auto simp: blank_def is_digit_def)
qed (auto simp: quote_text_def array_text_def object_text_def blank_def)

lemma skip_text: "\<forall>c \<in> set ws. blank c \<Longrightarrow> skip (ws @ json_text depth v @ s) = Inr (json_text depth v @ s)"
  using json_text_start [of depth v] by (auto simp: skip_blanks)

text \<open>A parser that reads the text of each of the values \<open>V\<close>.\<close>

definition reads :: "(string \<Rightarrow> cJSON json_parsed) \<Rightarrow> nat \<Rightarrow> cJSON set \<Rightarrow> bool" where
  "reads pv depth V = (\<forall>v \<in> V. \<forall>c rest. ends_number c \<longrightarrow>
     pv (json_text depth v @ c # rest) = Inr (Some (kept_value v, c # rest)))"

lemma ends_number_simps [simp]: "ends_number (CHR '','')" "ends_number (CHR '']'')" "ends_number (CHR 0x0A)"
  by (simp_all add: ends_number_def is_digit_def)

lemma joined_Cons: "joined sep (x # xs) = x @ concat (map (\<lambda>y. sep @ y) xs)"
  by (induction xs arbitrary: x) auto

lemma array_loop_text:
  assumes "reads pv depth (set xs)" "length xs \<le> n"
  shows "array_loop pv (Suc n) vs (concat (map (\<lambda>y. '', '' @ y) (map (json_text depth) xs)) @ '']'' @ rest) =
    Inr (Some (cJSON_Array (vs @ map kept_value xs), rest))"
  using assms
proof (induction xs arbitrary: vs n)
  case Nil
  then show ?case by (simp add: char_at_def)
next
  case (Cons x xs)
  then obtain m where m: "n = Suc m" by (cases n) auto
  let ?tail = "concat (map (\<lambda>y. '', '' @ y) (map (json_text depth) xs)) @ '']'' @ rest"
  obtain c r where c: "?tail = c # r" "c = CHR '','' \<or> c = CHR '']''" by (cases xs) auto
  have "pv (json_text depth x @ ?tail) = Inr (Some (kept_value x, ?tail))"
    using Cons.prems(1) c by (auto simp: reads_def)
  moreover have "skip ?tail = Inr ?tail" using c skip_blanks [of "[]" c r] by (auto simp: blank_def)
  moreover have "skip ('' '' @ json_text depth x @ ?tail) = Inr (json_text depth x @ ?tail)"
    by (rule skip_text) (simp add: blank_def)
  ultimately show ?case
    using Cons.IH [of m "vs @ [kept_value x]"] Cons.prems by (simp add: m char_at_def then_skip_def reads_def)
qed

lemma parse_array_text:
  assumes "reads pv (depth + 1) (set xs)" "length xs \<le> n"
  shows "parse_array pv n (json_text depth (cJSON_Array xs) @ rest) = Inr (Some (kept_value (cJSON_Array xs), rest))"
proof (cases xs)
  case Nil
  then show ?thesis using skip_blanks [of "[]" "CHR '']''" rest]
    by (simp add: parse_array_def array_text_def char_at_def blank_def)
next
  case (Cons x ys)
  then obtain m where m: "n = Suc m" using assms(2) by (cases n) auto
  let ?tail = "concat (map (\<lambda>y. '', '' @ y) (map (json_text (depth + 1)) ys)) @ '']'' @ rest"
  obtain c r where c: "?tail = c # r" "c = CHR '','' \<or> c = CHR '']''" by (cases ys) auto
  obtain d t where d: "json_text (depth + 1) x = d # t" "d \<noteq> CHR '']''" using json_text_start by blast
  have "pv (json_text (depth + 1) x @ ?tail) = Inr (Some (kept_value x, ?tail))"
    using assms(1) c Cons by (auto simp: reads_def)
  moreover have "skip ?tail = Inr ?tail" using c skip_blanks [of "[]" c r] by (auto simp: blank_def)
  moreover have "skip (json_text (depth + 1) x @ ?tail) = Inr (json_text (depth + 1) x @ ?tail)"
    using skip_text [of "[]"] by simp
  moreover have "char_at (json_text (depth + 1) x @ ?tail) = Inr d" using d(1) by (simp add: char_at_def)
  moreover have "json_text depth (cJSON_Array xs) @ rest = CHR ''['' # json_text (depth + 1) x @ ?tail"
    by (simp add: Cons array_text_def joined_Cons)
  ultimately show ?thesis
    using array_loop_text [of pv "depth + 1" ys m "[kept_value x]" rest] assms d(2)
    by (simp add: Cons m parse_array_def then_skip_def reads_def)
qed

text \<open>The members of an object, each on a line of its own.\<close>

definition member_text :: "nat \<Rightarrow> string \<times> cJSON \<Rightarrow> string" where
  "member_text depth m = quote_text (fst m) @ [CHR '':'', CHR 0x09] @ json_text depth (snd m)"

definition object_tail :: "nat \<Rightarrow> (string \<times> cJSON) list \<Rightarrow> string" where
  "object_tail depth ms =
     concat (map (\<lambda>m. [CHR '','', CHR 0x0A] @ tabs (depth + 1) @ member_text (depth + 1) m) ms) @ [CHR 0x0A] @ tabs depth @ ''}''"

lemma object_text_tail:
  "members_text (depth + 1) True (map (\<lambda>m. (quote_text (fst m), json_text (depth + 1) (snd m))) (m # ms)) @ tabs depth @ ''}'' =
   tabs (depth + 1) @ member_text (depth + 1) m @ object_tail depth ms"
proof (induction ms arbitrary: m)
  case Nil
  show ?case by (simp add: member_text_def object_tail_def)
next
  case (Cons m' ms)
  then show ?case by (simp add: member_text_def object_tail_def)
qed

lemma parse_member_text:
  assumes "reads pv depth {snd m}" "\<forall>c \<in> set ws. blank c" "ends_number c"
  shows "parse_member pv (ws @ member_text depth m @ c # rest) =
    Inr (Some ((kept (fst m), kept_value (snd m)), c # rest))"
proof -
  have "skip (ws @ quote_text (fst m) @ s) = Inr (quote_text (fst m) @ s)" for s
    using assms(2) by (simp add: quote_text_def skip_blanks blank_def)
  moreover have "skip (CHR 0x09 # json_text depth (snd m) @ c # rest) = Inr (json_text depth (snd m) @ c # rest)"
    using skip_text [of "[CHR 0x09]" depth "snd m"] by (simp add: blank_def)
  moreover have "pv (json_text depth (snd m) @ c # rest) = Inr (Some (kept_value (snd m), c # rest))"
    using assms(1,3) by (simp add: reads_def)
  ultimately show ?thesis
    by (simp add: parse_member_def member_text_def parse_printed_string then_skip_def char_at_def)
qed

lemma blank_tabs: "\<forall>c \<in> set (CHR 0x0A # tabs n). blank c" "\<forall>c \<in> set (tabs n). blank c"
  by (auto simp: tabs_def blank_def)

lemma object_tail_start: "\<exists>c s. object_tail depth ms @ rest = c # s \<and> ends_number c"
  by (cases ms) (auto simp: object_tail_def)

lemma object_loop_text:
  assumes "reads pv (depth + 1) (snd ` set ms)" "length ms \<le> n"
  shows "c_bind (skip (object_tail depth ms @ rest)) (object_loop pv (Suc n) vs) =
    Inr (Some (cJSON_Object (vs @ map (\<lambda>m. (kept (fst m), kept_value (snd m))) ms), rest))"
  using assms
proof (induction ms arbitrary: vs n)
  case Nil
  have "skip (object_tail depth [] @ rest) = Inr (''}'' @ rest)"
    using skip_blanks [OF blank_tabs(1), of "CHR ''}''" depth rest] by (simp add: object_tail_def blank_def)
  then show ?case by (simp add: char_at_def)
next
  case (Cons m ms)
  then obtain k where k: "n = Suc k" by (cases n) auto
  have t: "object_tail depth (m # ms) @ rest =
      CHR '','' # (CHR 0x0A # tabs (depth + 1)) @ member_text (depth + 1) m @ object_tail depth ms @ rest"
    by (simp add: object_tail_def)
  obtain c s where c: "object_tail depth ms @ rest = c # s" "ends_number c" using object_tail_start by blast
  have "parse_member pv ((CHR 0x0A # tabs (depth + 1)) @ member_text (depth + 1) m @ object_tail depth ms @ rest) =
      Inr (Some ((kept (fst m), kept_value (snd m)), object_tail depth ms @ rest))"
    unfolding c(1) using Cons.prems(1) blank_tabs(1) by (intro parse_member_text c(2)) (auto simp: reads_def)
  moreover have "c_bind (skip (object_tail depth ms @ rest)) (object_loop pv n (vs @ [(kept (fst m), kept_value (snd m))])) =
      Inr (Some (cJSON_Object ((vs @ [(kept (fst m), kept_value (snd m))]) @ map (\<lambda>m. (kept (fst m), kept_value (snd m))) ms), rest))"
    unfolding k by (rule Cons.IH) (use Cons.prems k in \<open>simp_all add: reads_def\<close>)
  ultimately show ?case
    unfolding t object_loop.simps(2) [of pv n vs] by (simp add: char_at_def then_skip_def del: object_loop.simps)
qed

lemma parse_object_text:
  assumes "reads pv (depth + 1) (snd ` set ms)" "length ms \<le> n"
  shows "parse_object pv n (json_text depth (cJSON_Object ms) @ rest) = Inr (Some (kept_value (cJSON_Object ms), rest))"
proof (cases ms)
  case Nil
  then show ?thesis using skip_blanks [OF blank_tabs(1), of "CHR ''}''" depth rest]
    by (simp add: parse_object_def object_text_def char_at_def blank_def)
next
  case (Cons m ms')
  then obtain k where k: "n = Suc k" using assms(2) by (cases n) auto
  have t: "json_text depth (cJSON_Object ms) @ rest =
      CHR ''{'' # (CHR 0x0A # tabs (depth + 1)) @ member_text (depth + 1) m @ object_tail depth ms' @ rest"
    using object_text_tail [of depth m ms'] by (simp add: Cons object_text_def)
  obtain c s where c: "object_tail depth ms' @ rest = c # s" "ends_number c" using object_tail_start by blast
  obtain q where q: "member_text (depth + 1) m = CHR 0x22 # q" by (simp add: member_text_def quote_text_def)
  have "skip ((CHR 0x0A # tabs (depth + 1)) @ member_text (depth + 1) m @ object_tail depth ms' @ rest) =
      Inr (member_text (depth + 1) m @ object_tail depth ms' @ rest)"
    unfolding q append_Cons [of "CHR 0x22"] by (rule skip_blanks [OF blank_tabs(1)]) (simp add: blank_def)
  moreover have "parse_member pv ([] @ member_text (depth + 1) m @ object_tail depth ms' @ rest) =
      Inr (Some ((kept (fst m), kept_value (snd m)), object_tail depth ms' @ rest))"
    unfolding c(1) using assms(1) Cons by (intro parse_member_text c(2)) (auto simp: reads_def)
  moreover have "char_at (member_text (depth + 1) m @ object_tail depth ms' @ rest) = Inr (CHR 0x22)"
    unfolding q by (simp add: char_at_def)
  moreover have "c_bind (skip (object_tail depth ms' @ rest)) (object_loop pv n [(kept (fst m), kept_value (snd m))]) =
      Inr (Some (cJSON_Object ([(kept (fst m), kept_value (snd m))] @ map (\<lambda>m. (kept (fst m), kept_value (snd m))) ms'), rest))"
    unfolding k by (rule object_loop_text) (use assms Cons k in \<open>simp_all add: reads_def\<close>)
  ultimately show ?thesis
    unfolding t parse_object_def by (simp add: then_skip_def Cons del: object_loop.simps)
qed

lemma begins_other: "begins (c # s) ''null'' = Inr False \<and> begins (c # s) ''false'' = Inr False \<and> begins (c # s) ''true'' = Inr False"
  if "c \<notin> {CHR ''n'', CHR ''f'', CHR ''t''}"
  using that by simp

lemma parse_value_other:
  assumes "s = c # t" "c \<notin> {CHR ''n'', CHR ''f'', CHR ''t''}"
  shows "parse_value (Suc n) s =
      (if is_quote c then c_bind (parse_string s) (\<lambda>r. Inr (map_option (\<lambda>(t, rest). (cJSON_String t, rest)) r))
       else if c = CHR ''-'' \<or> is_digit c then parse_number s
       else if c = CHR ''['' then parse_array (parse_value n) n s
       else if c = CHR ''{'' then parse_object (parse_value n) n s
       else Inr None)"
  using begins_other [OF assms(2), of t] by (simp add: assms(1) char_at_def)

declare parse_value.simps(2) [simp del]

lemma in_joined: "x \<in> set xs \<Longrightarrow> length x \<le> length (joined sep xs)"
  by (induction sep xs rule: joined.induct) auto

lemma count_joined: "\<forall>x \<in> set xs. x \<noteq> [] \<Longrightarrow> length xs \<le> length (joined sep xs)"
  by (induction sep xs rule: joined.induct) (auto simp: Suc_le_eq simp flip: length_greater_0_conv)

lemma in_members: "(k, e) \<in> set es \<Longrightarrow> length e \<le> length (members_text depth fmt es)"
  by (induction depth fmt es rule: members_text.induct) auto

lemma count_members: "length es \<le> length (members_text depth fmt es)"
  by (induction depth fmt es rule: members_text.induct) auto

lemma json_text_not_Nil [simp]: "json_text depth v \<noteq> []"
  using json_text_start [of depth v] by auto

lemma parse_printed_value:
  assumes "int_numbers v" "length (json_text depth v) < n" "ends_number c"
  shows "parse_value n (json_text depth v @ c # rest) = Inr (Some (kept_value v, c # rest))"
  using assms
proof (induction v arbitrary: depth n c rest)
  case (cJSON_Number i d)
  then obtain m where n: "n = Suc m" by (cases n) auto
  obtain x s where x: "dec_int i = x # s" "x = CHR ''-'' \<or> is_digit x" using dec_int_start by blast
  have q: "x \<notin> {CHR ''n'', CHR ''f'', CHR ''t''}" "\<not> is_quote x" using x(2) by (auto simp: is_digit_def is_quote_def)
  show ?case
    using parse_number_dec [of i c rest] cJSON_Number.prems x q(2) parse_value_other [OF _ q(1), of "dec_int i @ c # rest" "s @ c # rest"]
    by (simp add: n)
next
  case (cJSON_String s)
  then obtain m where n: "n = Suc m" by (cases n) auto
  have "quote_text s @ c # rest = CHR 0x22 # concat (map escaped s) @ [CHR 0x22] @ c # rest" by (simp add: quote_text_def)
  from parse_value_other [OF this, of m] show ?case by (simp add: n parse_printed_string)
next
  case (cJSON_Array xs)
  then obtain m where n: "n = Suc m" by (cases n) auto
  have "json_text depth (cJSON_Array xs) @ c # rest = CHR ''['' # joined '', '' (map (json_text (depth + 1)) xs) @ CHR '']'' # c # rest"
    by (simp add: array_text_def)
  note v = parse_value_other [OF this, of m]
  have len: "length (joined '', '' (map (json_text (depth + 1)) xs)) < m"
    using cJSON_Array.prems(2) by (simp add: n array_text_def)
  have "reads (parse_value m) (depth + 1) (set xs)"
    unfolding reads_def
  proof (intro ballI allI impI)
    fix x e r assume x: "x \<in> set xs" "ends_number e"
    have "length (json_text (depth + 1) x) < m"
      using in_joined [of "json_text (depth + 1) x" "map (json_text (depth + 1)) xs" "'', ''"] x(1) len by auto
    then show "parse_value m (json_text (depth + 1) x @ e # r) = Inr (Some (kept_value x, e # r))"
      using cJSON_Array.IH [OF x(1)] cJSON_Array.prems(1) x by simp
  qed
  moreover have "length xs \<le> m"
    using count_joined [of "map (json_text (depth + 1)) xs" "'', ''"] len by auto
  ultimately show ?case using v parse_array_text by (simp add: n is_quote_def is_digit_def)
next
  case (cJSON_Object ms)
  then obtain m where n: "n = Suc m" by (cases n) auto
  let ?es = "map (\<lambda>m. (quote_text (fst m), json_text (depth + 1) (snd m))) ms"
  have "json_text depth (cJSON_Object ms) @ c # rest =
      CHR ''{'' # CHR 0x0A # members_text (depth + 1) True ?es @ tabs depth @ CHR ''}'' # c # rest"
    by (simp add: object_text_def)
  note v = parse_value_other [OF this, of m]
  have len: "length (members_text (depth + 1) True ?es) < m"
    using cJSON_Object.prems(2) by (simp add: n object_text_def)
  have "reads (parse_value m) (depth + 1) (snd ` set ms)"
    unfolding reads_def
  proof (intro ballI allI impI)
    fix x e r assume "x \<in> snd ` set ms" and e: "ends_number e"
    then obtain k where k: "(k, x) \<in> set ms" by auto
    then have "(quote_text k, json_text (depth + 1) x) \<in> set ?es" by force
    then have "length (json_text (depth + 1) x) < m" using in_members len by (meson le_less_trans)
    then show "parse_value m (json_text (depth + 1) x @ e # r) = Inr (Some (kept_value x, e # r))"
      using cJSON_Object.IH [OF k, of x] cJSON_Object.prems(1) k e by force
  qed
  moreover have "length ms \<le> m" using count_members [of ?es "depth + 1" True] len by simp
  ultimately show ?case using v parse_object_text by (simp add: n is_quote_def is_digit_def)
qed (auto simp: parse_value.simps(2) less_Suc_eq_0_disj dest!: Suc_lessE less_imp_Suc_add)

lemma cJSON_Parse_printed:
  assumes "int_numbers v" "ends_number c"
  shows "cJSON_Parse (json_text 0 v @ c # rest) = Inr (Some (kept_value v))"
  using parse_printed_value [OF assms(1), of 0 "Suc (length (json_text 0 v @ c # rest))" c rest] assms(2)
    skip_text [of "[]" 0 v "c # rest"]
  by (simp add: cJSON_Parse_def)

section \<open>The parser ends\<close>

text \<open>A parser that, with enough fuel for texts shorter than \<open>n\<close>, does not spend it and consumes a part of its text.\<close>

definition consumes :: "nat \<Rightarrow> (string \<Rightarrow> 'a json_parsed) \<Rightarrow> bool" where
  "consumes n p = (\<forall>s. length s < n \<longrightarrow> p s \<noteq> Inl Fuel_Spent \<and> (\<forall>v r. p s = Inr (Some (v, r)) \<longrightarrow> length r < length s))"

lemma skip_consumes: "skip s \<noteq> Inl Fuel_Spent" "skip s = Inr s' \<Longrightarrow> length s' \<le> length s"
  by (induction s) (auto split: if_splits)

lemma char_at_ends: "char_at s \<noteq> Inl Fuel_Spent" "char_at s = Inr c \<Longrightarrow> \<exists>t. s = c # t"
  by (auto simp: char_at_def split: list.splits)

lemma c_bind_fuel: "c_bind m f = Inl Fuel_Spent \<longleftrightarrow> m = Inl Fuel_Spent \<or> (\<exists>x. m = Inr x \<and> f x = Inl Fuel_Spent)"
  by (cases m) auto

lemma digits_loop_ends:
  "digits_loop n s \<noteq> Inl Fuel_Spent" "digits_loop n s = Inr (m, r) \<Longrightarrow> length r \<le> length s"
  by (induction n s rule: digits_loop.induct) (auto split: if_splits)

lemma fraction_loop_ends:
  "fraction_loop n k s \<noteq> Inl Fuel_Spent" "fraction_loop n k s = Inr (m, l, r) \<Longrightarrow> length r \<le> length s"
  by (induction n k s rule: fraction_loop.induct) (auto split: if_splits)

lemma exponent_loop_ends:
  "exponent_loop k s \<noteq> Inl Fuel_Spent" "exponent_loop k s = Inr (m, r) \<Longrightarrow> length r \<le> length s"
  by (induction k s rule: exponent_loop.induct) (auto split: if_splits)

lemma put_bytes_ends: "put_bytes cap out bs \<noteq> Inl Fuel_Spent"
  by (simp add: put_bytes_def)

lemma scan_hex4_ends: "scan_hex4 s uc \<noteq> Inl Fuel_Spent"
  by (simp add: scan_hex4_def Let_def)

lemma string_len_ends: "string_len s \<noteq> Inl Fuel_Spent"
  by (induction s rule: string_len.induct) (auto simp: c_bind_fuel)

lemma copy_string_fuel: "copy_string cap uc out s \<noteq> Inl Fuel_Spent"
proof (induction cap uc out s rule: copy_string.induct)
  case (2 cap uc out c s)
  show ?case
    unfolding copy_string.simps(2)
    using 2 put_bytes_ends scan_hex4_ends
    by (auto simp del: copy_string.simps simp: c_bind_fuel split: list.splits option.splits)
qed simp

lemma copy_string_rest: "copy_string cap uc out s = Inr (t, r) \<Longrightarrow> length r \<le> length s"
proof (induction cap uc out s rule: copy_string.induct)
  case (2 cap uc out c s)
  consider "string_stop c" | "\<not> string_stop c" "\<not> is_backslash c"
    | e s1 where "\<not> string_stop c" "is_backslash c" "s = e # s1" "e = CHR ''u''"
    | e s1 where "\<not> string_stop c" "is_backslash c" "s = e # s1" "e \<noteq> CHR ''u''"
    | "\<not> string_stop c" "is_backslash c" "s = []"
    by (cases s) auto
  then show ?case
  proof cases
    case 1
    then show ?thesis using "2.prems" unfolding copy_string.simps(2) by (auto simp: c_bind_Inr split: if_splits)
  next
    case b: 2
    then obtain out1 where "put_bytes cap out [c] = Inr out1" "copy_string cap uc out1 s = Inr (t, r)"
      using "2.prems" unfolding copy_string.simps(2) by (auto simp: c_bind_Inr simp del: copy_string.simps)
    then show ?thesis using "2.IH"(1) [OF b] by fastforce
  next
    case b: (3 e s1)
    then obtain uc1 w out1 where "scan_hex4 s1 uc = Inr uc1" "uc1 = Some w" "put_bytes cap out (utf8 w) = Inr out1"
        "copy_string cap uc1 out1 (drop 4 s1) = Inr (t, r)"
      using "2.prems" unfolding copy_string.simps(2)
      by (auto simp: c_bind_Inr simp del: copy_string.simps split: option.splits)
    then have "length r \<le> length (drop 4 s1)" using "2.IH"(2) [OF b(1) _ b(3,4)] b(2) by blast
    then show ?thesis using b(3) by simp
  next
    case b: (4 e s1)
    then obtain out1 where "put_bytes cap out [unescaped e] = Inr out1" "copy_string cap uc out1 s1 = Inr (t, r)"
      using "2.prems" unfolding copy_string.simps(2) by (auto simp: c_bind_Inr simp del: copy_string.simps)
    then show ?thesis using "2.IH"(3) [OF b(1) _ b(3,4)] b(2,3) by fastforce
  next
    case 5
    then show ?thesis using "2.prems" unfolding copy_string.simps(2) by simp
  qed
qed simp

declare copy_string.simps(2) [simp del]

lemma parse_string_ends: "consumes n parse_string"
  using copy_string_rest
  by (fastforce simp: consumes_def parse_string_def c_bind_fuel c_bind_Inr char_at_ends string_len_ends copy_string_fuel
      char_at_def split: if_splits list.splits)

lemmas number_ends = digits_loop_ends fraction_loop_ends exponent_loop_ends

lemma parse_parts:
  "parse_sign s \<noteq> Inl Fuel_Spent" "parse_sign s = Inr (sg, r) \<Longrightarrow> length r \<le> length s"
  "parse_zero s \<noteq> Inl Fuel_Spent" "parse_zero s = Inr r \<Longrightarrow> length r \<le> length s"
  "parse_whole s \<noteq> Inl Fuel_Spent" "parse_whole s = Inr (n, r) \<Longrightarrow> length r \<le> length s"
  "parse_fraction m s \<noteq> Inl Fuel_Spent" "parse_fraction m s = Inr (n, k, r) \<Longrightarrow> length r \<le> length s"
  "parse_exponent s \<noteq> Inl Fuel_Spent" "parse_exponent s = Inr (k, r) \<Longrightarrow> length r \<le> length s"
  using number_ends
  by (fastforce simp: parse_sign_def parse_zero_def parse_whole_def parse_fraction_def parse_exponent_def char_at_def c_bind_fuel
      c_bind_Inr Let_def split: if_splits list.splits)+

lemma parse_number_fuel: "parse_number s \<noteq> Inl Fuel_Spent"
  by (auto simp: parse_number_def c_bind_fuel parse_parts(1,3,5,7,9) Let_def to_int_def split: option.splits if_splits)

lemma parse_number_rest:
  assumes "parse_number (c # s) = Inr (Some (v, r))" "c = CHR ''-'' \<or> is_digit c"
  shows "length r < length (c # s)"
proof -
  obtain sg s1 s2 n s3 m k s4 l where p: "parse_sign (c # s) = Inr (sg, s1)" "parse_zero s1 = Inr s2"
      "parse_whole s2 = Inr (n, s3)" "parse_fraction n s3 = Inr (m, k, s4)" "parse_exponent s4 = Inr (l, r)"
    using assms(1) by (auto simp: parse_number_def c_bind_Inr Let_def)
  have "length s3 < length (c # s)"
  proof (cases "c = CHR ''-''")
    case True
    then have "s1 = s" using p(1) by (auto simp: parse_sign_def char_at_def)
    then show ?thesis using parse_parts(4) [OF p(2)] parse_parts(6) [OF p(3)] by simp
  next
    case False
    then have s1: "s1 = c # s" using p(1) by (auto simp: parse_sign_def char_at_def)
    show ?thesis
    proof (cases "c = CHR ''0''")
      case True
      then have "s2 = s" using p(2) s1 by (auto simp: parse_zero_def char_at_def)
      then show ?thesis using parse_parts(6) [OF p(3)] by simp
    next
      case no0: False
      then have "s2 = c # s" using p(2) s1 by (auto simp: parse_zero_def char_at_def)
      then have "digits_loop (next_digit (Some 0) c) s = Inr (n, s3)"
        using p(3) no0 False assms(2) by (simp add: parse_whole_def char_at_def)
      then show ?thesis using digits_loop_ends(2) by fastforce
    qed
  qed
  then show ?thesis using parse_parts(8) [OF p(4)] parse_parts(10) [OF p(5)] by linarith
qed

lemma then_skip_fuel:
  "then_skip p f = Inl Fuel_Spent \<longleftrightarrow> p = Inl Fuel_Spent \<or> (\<exists>v s s'. p = Inr (Some (v, s)) \<and> skip s = Inr s' \<and> f v s' = Inl Fuel_Spent)"
  by (auto simp: then_skip_def c_bind_fuel skip_consumes(1) split: option.splits)

lemma then_skip_Some:
  "then_skip p f = Inr (Some x) \<longleftrightarrow> (\<exists>v s s'. p = Inr (Some (v, s)) \<and> skip s = Inr s' \<and> f v s' = Inr (Some x))"
  by (auto simp: then_skip_def c_bind_Inr split: option.splits)

lemma parse_member_ends:
  assumes "consumes n pv"
  shows "consumes n (parse_member pv)"
  unfolding consumes_def
proof (intro allI impI conjI)
  fix s :: string assume s: "length s < n"
  note ps = parse_string_ends [of n, unfolded consumes_def, rule_format]
  note pv = assms [unfolded consumes_def, rule_format]
  have tl: "char_at t = Inr c \<Longrightarrow> length (tl t) < length t" for t c by (auto dest: char_at_ends(2))
  show "parse_member pv s \<noteq> Inl Fuel_Spent"
  proof
    assume "parse_member pv s = Inl Fuel_Spent"
    then consider s1 where "skip s = Inr s1" "parse_string s1 = Inl Fuel_Spent"
      | s1 name s2 s2' c s3 where "skip s = Inr s1" "parse_string s1 = Inr (Some (name, s2))" "skip s2 = Inr s2'"
          "char_at s2' = Inr c" "skip (tl s2') = Inr s3" "pv s3 = Inl Fuel_Spent"
      by (auto simp: parse_member_def c_bind_fuel then_skip_fuel skip_consumes(1) char_at_ends(1) split: if_splits)
    then show False
    proof cases
      case 1
      then show ?thesis using ps skip_consumes(2) [of s s1] s by fastforce
    next
      case 2
      have "length s1 < n" using skip_consumes(2) [OF 2(1)] s by simp
      then have "length s3 < n"
        using ps [OF _ ] 2(2) skip_consumes(2) [OF 2(3)] tl [OF 2(4)] skip_consumes(2) [OF 2(5)] by fastforce
      then show ?thesis using pv 2(6) by blast
    qed
  qed
  fix v r assume "parse_member pv s = Inr (Some (v, r))"
  then obtain s1 name s2 s2' c s3 w where p: "skip s = Inr s1" "parse_string s1 = Inr (Some (name, s2))" "skip s2 = Inr s2'"
      "char_at s2' = Inr c" "skip (tl s2') = Inr s3" "pv s3 = Inr (Some (w, r))"
    by (auto simp: parse_member_def c_bind_Inr then_skip_Some split: if_splits)
  have s1: "length s1 < n" "length s1 \<le> length s" using skip_consumes(2) [OF p(1)] s by simp_all
  have "length s2 < length s1" using ps s1(1) p(2) by blast
  then have s3: "length s3 < length s1" using skip_consumes(2) [OF p(3)] tl [OF p(4)] skip_consumes(2) [OF p(5)] by linarith
  then have "length r < length s3" using pv s1(1) p(6) by fastforce
  then show "length r < length s" using s3 s1(2) by linarith
qed

lemma array_loop_ends:
  assumes "consumes n pv"
  shows "length s < n \<Longrightarrow> length s < k \<Longrightarrow> array_loop pv k vs s \<noteq> Inl Fuel_Spent \<and>
    (\<forall>v r. array_loop pv k vs s = Inr (Some (v, r)) \<longrightarrow> length r < length s)"
proof (induction k arbitrary: vs s)
  case (Suc k)
  note pv = assms [unfolded consumes_def, rule_format]
  show ?case
  proof (cases "\<exists>t. s = CHR '','' # t")
    case True
    then obtain t where t: "s = CHR '','' # t" by blast
    have step: "length s2 < length s \<and> length s2 < n \<and> length s2 < k" if "skip t = Inr s1" "pv s1 = Inr (Some (v, s1'))" "skip s1' = Inr s2" for v s1 s1' s2
    proof -
      have "length s1 < n" "length s1 \<le> length t" using skip_consumes(2) [OF that(1)] Suc.prems(1) t by simp_all
      then have "length s1' < length t" using pv that(2) by fastforce
      then show ?thesis using skip_consumes(2) [OF that(3)] Suc.prems t by simp
    qed
    have "pv s1 \<noteq> Inl Fuel_Spent" if "skip t = Inr s1" for s1
      using pv skip_consumes(2) [OF that] Suc.prems(1) t by fastforce
    then show ?thesis
      using step Suc.IH t
      by (auto simp: char_at_def c_bind_fuel c_bind_Inr then_skip_fuel then_skip_Some skip_consumes(1)) (meson less_trans)+
  next
    case False
    then show ?thesis by (auto simp: char_at_def split: list.splits if_splits)
  qed
qed simp

lemma object_loop_ends:
  assumes "consumes n pv"
  shows "length s < n \<Longrightarrow> length s < k \<Longrightarrow> object_loop pv k ms s \<noteq> Inl Fuel_Spent \<and>
    (\<forall>v r. object_loop pv k ms s = Inr (Some (v, r)) \<longrightarrow> length r < length s)"
proof (induction k arbitrary: ms s)
  case (Suc k)
  note pm = parse_member_ends [OF assms, unfolded consumes_def, rule_format]
  show ?case
  proof (cases "\<exists>t. s = CHR '','' # t")
    case True
    then obtain t where t: "s = CHR '','' # t" by blast
    have step: "length s2 < length s \<and> length s2 < n \<and> length s2 < k" if "parse_member pv t = Inr (Some (v, s1))" "skip s1 = Inr s2" for v s1 s2
    proof -
      have "length s1 < length t" using pm [of t] that(1) Suc.prems(1) t by auto
      then show ?thesis using skip_consumes(2) [OF that(2)] Suc.prems t by simp
    qed
    have "parse_member pv t \<noteq> Inl Fuel_Spent" using pm [of t] Suc.prems(1) t by auto
    then show ?thesis
      using step Suc.IH t
      by (auto simp: char_at_def c_bind_fuel c_bind_Inr then_skip_fuel then_skip_Some skip_consumes(1)) (meson less_trans)+
  next
    case False
    then show ?thesis by (auto simp: char_at_def split: list.splits if_splits)
  qed
qed simp

lemma parse_array_ends:
  assumes "consumes n pv"
  shows "length s \<le> n \<Longrightarrow> s \<noteq> [] \<Longrightarrow> parse_array pv n s \<noteq> Inl Fuel_Spent \<and>
    (\<forall>v r. parse_array pv n s = Inr (Some (v, r)) \<longrightarrow> length r < length s)"
proof -
  assume s: "length s \<le> n" "s \<noteq> []"
  note pv = assms [unfolded consumes_def, rule_format]
  have step: "length s3 < length s \<and> length s3 < n" if "skip (tl s) = Inr s1" "skip s1 = Inr s2" "pv s2 = Inr (Some (v, s2'))" "skip s2' = Inr s3" for v s1 s2 s2' s3
  proof -
    have "length s2 \<le> length (tl s)" using skip_consumes(2) [OF that(1)] skip_consumes(2) [OF that(2)] by simp
    then have s2: "length s2 < length s" using s(2) by (cases s) auto
    then have "length s2' < length s2" using pv [of s2] that(3) s(1) by auto
    then show ?thesis using s2 skip_consumes(2) [OF that(4)] s(1) by simp
  qed
  have "pv s2 \<noteq> Inl Fuel_Spent" if "skip (tl s) = Inr s1" "skip s1 = Inr s2" for s1 s2
  proof -
    have "length s2 \<le> length (tl s)" using skip_consumes(2) [OF that(1)] skip_consumes(2) [OF that(2)] by simp
    then have "length s2 < n" using s by (cases s) auto
    then show ?thesis using pv by blast
  qed
  moreover have "length (tl s1) < length s" if "skip (tl s) = Inr s1" "char_at s1 = Inr c" for s1 c
    using skip_consumes(2) [OF that(1)] char_at_ends(2) [OF that(2)] by (cases s) auto
  ultimately show ?thesis
    using step array_loop_ends [OF assms]
    by (auto simp: parse_array_def c_bind_fuel c_bind_Inr then_skip_fuel then_skip_Some skip_consumes(1) char_at_ends(1) split: if_splits)
      (meson less_trans)+
qed

lemma parse_object_ends:
  assumes "consumes n pv"
  shows "length s \<le> n \<Longrightarrow> s \<noteq> [] \<Longrightarrow> parse_object pv n s \<noteq> Inl Fuel_Spent \<and>
    (\<forall>v r. parse_object pv n s = Inr (Some (v, r)) \<longrightarrow> length r < length s)"
proof -
  assume s: "length s \<le> n" "s \<noteq> []"
  note pm = parse_member_ends [OF assms, unfolded consumes_def, rule_format]
  have s1: "length s1 < n" "length s1 < length s" if "skip (tl s) = Inr s1" for s1
    using skip_consumes(2) [OF that] s by (cases s; auto)+
  have step: "length s3 < length s \<and> length s3 < n" if "skip (tl s) = Inr s1" "parse_member pv s1 = Inr (Some (v, s2))" "skip s2 = Inr s3" for v s1 s2 s3
    using pm [OF s1(1) [OF that(1)]] s1 [OF that(1)] that(2) skip_consumes(2) [OF that(3)] by auto
  have "parse_member pv s1 \<noteq> Inl Fuel_Spent" if "skip (tl s) = Inr s1" for s1
    using pm [OF s1(1) [OF that]] by blast
  moreover have "length (tl s1) < length s" if "skip (tl s) = Inr s1" for s1
    using s1(2) [OF that] by (simp add: less_imp_diff_less)
  ultimately show ?thesis
    using step object_loop_ends [OF assms]
    by (auto simp: parse_object_def c_bind_fuel c_bind_Inr then_skip_fuel then_skip_Some skip_consumes(1) char_at_ends(1) split: if_splits)
      (meson less_trans)+
qed

lemma begins_ends: "begins s w \<noteq> Inl Fuel_Spent" "begins s w = Inr True \<Longrightarrow> length w \<le> length s"
  by (induction s w rule: begins.induct) (auto split: if_splits)

lemma parse_value_ends: "consumes n (parse_value n)"
proof (induction n)
  case 0
  show ?case by (simp add: consumes_def)
next
  case (Suc n)
  show ?case
    unfolding consumes_def
  proof (intro allI impI)
    fix s :: string assume s: "length s < Suc n"
    let ?goal = "\<lambda>p. p \<noteq> Inl Fuel_Spent \<and> (\<forall>v r. p = Inr (Some (v, r)) \<longrightarrow> length r < length s)"
    have lit: "length (drop k s) < length s" if "begins s w = Inr True" "0 < k" "w \<noteq> []" for w k
      using begins_ends(2) [OF that(1)] that(2,3) by (cases s) auto
    have str: "?goal (c_bind (parse_string s) (\<lambda>r. Inr (map_option (\<lambda>(t, rest). (cJSON_String t, rest)) r)))"
      using parse_string_ends [of "Suc n"] s by (auto simp: consumes_def c_bind_fuel c_bind_Inr)
    have num: "?goal (parse_number s)" if "char_at s = Inr c" "c = CHR ''-'' \<or> is_digit c" for c
      using parse_number_rest [of c] parse_number_fuel that char_at_ends(2) [OF that(1)] by blast
    have arr: "?goal (parse_array (parse_value n) n s)" "?goal (parse_object (parse_value n) n s)" if "char_at s = Inr c" for c
    proof -
      have "length s \<le> n" "s \<noteq> []" using s char_at_ends(2) [OF that] by auto
      then show "?goal (parse_array (parse_value n) n s)" "?goal (parse_object (parse_value n) n s)"
        using parse_array_ends [OF Suc.IH] parse_object_ends [OF Suc.IH] by blast+
    qed
    have rest: "?goal (c_bind (char_at s) (\<lambda>c.
       if is_quote c then c_bind (parse_string s) (\<lambda>r. Inr (map_option (\<lambda>(t, rest). (cJSON_String t, rest)) r))
       else if c = CHR ''-'' \<or> is_digit c then parse_number s
       else if c = CHR ''['' then parse_array (parse_value n) n s
       else if c = CHR ''{'' then parse_object (parse_value n) n s
       else Inr None))"
    proof (cases "char_at s")
      case (Inr c)
      then show ?thesis using str num [OF Inr] arr [OF Inr] by simp
    qed (use char_at_ends(1) [of s] in auto)
    have lw: "?goal (c_bind (begins s w) (\<lambda>b. if b then Inr (Some (v, drop k s)) else p))" if "?goal p" "0 < k" "w \<noteq> []" for w v k p
      using that begins_ends(1) [of s w] lit [of w k] by (cases "begins s w") auto
    show "?goal (parse_value (Suc n) s)"
      unfolding parse_value.simps(2) by (rule lw, rule lw, rule lw, rule rest; simp)
  qed
qed

lemma cJSON_Parse_fuel: "cJSON_Parse block \<noteq> Inl Fuel_Spent"
  using parse_value_ends
  by (auto simp: cJSON_Parse_def c_bind_fuel skip_consumes(1) consumes_def)

section \<open>Texts that end too early\<close>

lemma skip_off: "\<forall>c \<in> set ws. blank c \<Longrightarrow> skip ws = Inl Out_Of_Bounds"
  by (induction ws) (auto simp: blank_def)

text \<open>What is left of the text of an object without its last brace, in a block that ends behind blanks.\<close>

lemma object_loop_open:
  assumes "reads pv (depth + 1) (snd ` set ms)" "length ms \<le> n" "\<forall>c \<in> set ws. blank c"
  shows "c_bind (skip (butlast (object_tail depth ms) @ ws)) (object_loop pv (Suc n) vs) = Inl Out_Of_Bounds"
  using assms(1,2)
proof (induction ms arbitrary: vs n)
  case Nil
  have "skip (butlast (object_tail depth []) @ ws) = Inl Out_Of_Bounds"
    using assms(3) blank_tabs(1) [of depth] by (intro skip_off) (auto simp: object_tail_def butlast_append)
  then show ?case by simp
next
  case (Cons m ms)
  then obtain k where k: "n = Suc k" by (cases n) auto
  have ne: "object_tail depth ms \<noteq> []" for ms by (simp add: object_tail_def)
  have t: "butlast (object_tail depth (m # ms)) @ ws =
      CHR '','' # (CHR 0x0A # tabs (depth + 1)) @ member_text (depth + 1) m @ butlast (object_tail depth ms) @ ws"
    using ne [of ms] by (simp add: object_tail_def butlast_append)
  have "\<exists>c s. butlast (object_tail depth ms) @ ws = c # s \<and> ends_number c"
    by (cases ms) (auto simp: object_tail_def butlast_append)
  then obtain c s where c: "butlast (object_tail depth ms) @ ws = c # s" "ends_number c" by blast
  have "parse_member pv ((CHR 0x0A # tabs (depth + 1)) @ member_text (depth + 1) m @ butlast (object_tail depth ms) @ ws) =
      Inr (Some ((kept (fst m), kept_value (snd m)), butlast (object_tail depth ms) @ ws))"
    unfolding c(1) using Cons.prems(1) blank_tabs(1) by (intro parse_member_text c(2)) (auto simp: reads_def)
  moreover have "c_bind (skip (butlast (object_tail depth ms) @ ws)) (object_loop pv n (vs @ [(kept (fst m), kept_value (snd m))])) =
      Inl Out_Of_Bounds"
    unfolding k by (rule Cons.IH) (use Cons.prems k in \<open>simp_all add: reads_def\<close>)
  ultimately show ?case
    unfolding t object_loop.simps(2) [of pv n vs] by (simp add: char_at_def then_skip_def del: object_loop.simps)
qed

lemma parse_object_open:
  assumes "reads pv (depth + 1) (snd ` set ms)" "length ms \<le> n" "\<forall>c \<in> set ws. blank c"
  shows "parse_object pv n (butlast (json_text depth (cJSON_Object ms)) @ ws) = Inl Out_Of_Bounds"
proof (cases ms)
  case Nil
  have "skip ((CHR 0x0A # tabs depth) @ ws) = Inl Out_Of_Bounds"
    by (rule skip_off) (use assms(3) blank_tabs(1) in auto)
  then show ?thesis using Nil by (simp add: parse_object_def object_text_def butlast_append)
next
  case (Cons m ms')
  then obtain k where k: "n = Suc k" using assms(2) by (cases n) auto
  have ne: "object_tail depth ms' \<noteq> []" by (simp add: object_tail_def)
  have "json_text depth (cJSON_Object ms) =
      CHR ''{'' # (CHR 0x0A # tabs (depth + 1)) @ member_text (depth + 1) m @ object_tail depth ms'"
    using object_text_tail [of depth m ms'] by (simp add: Cons object_text_def)
  then have t: "butlast (json_text depth (cJSON_Object ms)) @ ws =
      CHR ''{'' # (CHR 0x0A # tabs (depth + 1)) @ member_text (depth + 1) m @ butlast (object_tail depth ms') @ ws"
    using ne by (simp add: butlast_append)
  have "\<exists>c s. butlast (object_tail depth ms') @ ws = c # s \<and> ends_number c"
    by (cases ms') (auto simp: object_tail_def butlast_append)
  then obtain c s where c: "butlast (object_tail depth ms') @ ws = c # s" "ends_number c" by blast
  obtain q where q: "member_text (depth + 1) m = CHR 0x22 # q" by (simp add: member_text_def quote_text_def)
  have "skip ((CHR 0x0A # tabs (depth + 1)) @ member_text (depth + 1) m @ butlast (object_tail depth ms') @ ws) =
      Inr (member_text (depth + 1) m @ butlast (object_tail depth ms') @ ws)"
    unfolding q append_Cons [of "CHR 0x22"] by (rule skip_blanks [OF blank_tabs(1)]) (simp add: blank_def)
  moreover have "parse_member pv ([] @ member_text (depth + 1) m @ butlast (object_tail depth ms') @ ws) =
      Inr (Some ((kept (fst m), kept_value (snd m)), butlast (object_tail depth ms') @ ws))"
    unfolding c(1) using assms(1) Cons by (intro parse_member_text c(2)) (auto simp: reads_def)
  moreover have "char_at (member_text (depth + 1) m @ butlast (object_tail depth ms') @ ws) = Inr (CHR 0x22)"
    unfolding q by (simp add: char_at_def)
  moreover have "c_bind (skip (butlast (object_tail depth ms') @ ws)) (object_loop pv n [(kept (fst m), kept_value (snd m))]) =
      Inl Out_Of_Bounds"
    unfolding k by (rule object_loop_open) (use assms Cons k in \<open>simp_all add: reads_def\<close>)
  ultimately show ?thesis
    unfolding t parse_object_def by (simp add: then_skip_def del: object_loop.simps)
qed

section \<open>Properties\<close>

text \<open>C18: the printer of the JSON library stays inside its blocks, and the parser reads back what it printed: a value whose numbers
  are \<^verbatim>\<open>int\<close>s is printed to a text from which the same value is parsed, whatever follows the text that does not continue a
  number; only control characters that have no escape are lost from its strings.\<close>

theorem cjson_roundtrip:
  assumes "int_numbers v" "ends_number c"
  shows "\<exists>text. cJSON_Print v = Inr text \<and> cJSON_Parse (text @ c # rest) = Inr (Some (kept_value v))"
  using cJSON_Print_text [OF assms(1)] cJSON_Parse_printed [OF assms] by blast

definition sample_value :: cJSON where
  "sample_value = cJSON_Object [(''t'', cJSON_String [CHR ''a'', CHR 0x22, CHR 0x07, CHR 0x0A]), (''c'', cJSON_Number (- 12) (- 12)),
     (''values'', cJSON_Array [cJSON_True, cJSON_Object [], cJSON_NULL])]"

theorem cjson_roundtrip_witness:
  "\<exists>text. cJSON_Print sample_value = Inr text \<and> cJSON_Parse (text @ [CHR 0x0A, CHR 0x0A, NUL]) =
     Inr (Some (cJSON_Object [(''t'', cJSON_String [CHR ''a'', CHR 0x22, CHR 0x0A]), (''c'', cJSON_Number (- 12) (- 12)),
       (''values'', cJSON_Array [cJSON_True, cJSON_Object [], cJSON_NULL])]))"
proof -
  have "int_numbers sample_value" by (simp add: sample_value_def int_fits_def)
  from cjson_roundtrip [OF this ends_number_simps(3), of "[CHR 0x0A, NUL]"] show ?thesis
    by (simp add: sample_value_def kept_def escaped_def plain_char_def is_quote_def is_backslash_def)
qed

text \<open>C19: whatever bytes it is given, the parser ends, with a value, without one, or at an access outside the block: the bounds
  that the model sets to its recursion and its loops are never what ends it.\<close>

theorem cjson_ends: "cJSON_Parse block \<noteq> Inl Fuel_Spent"
  by (rule cJSON_Parse_fuel)



end
