(* ===== verification/Json_Roundtrip.thy ===== *)
theory Json_Roundtrip
  imports Json_Serialize Cjson_Props
begin

text \<open>
  What arrives of a message that was sent as JSON: \<open>json_image\<close> is the message the receiver gets, and what it differs in from
  the one that was sent is what the protocol loses.
\<close>

section \<open>Objects\<close>

definition jnum :: "int \<Rightarrow> cJSON" where
  "jnum n = cJSON_Number n (of_int n)"

text \<open>A member that is there under a condition.\<close>

definition opt :: "bool \<Rightarrow> string \<Rightarrow> cJSON \<Rightarrow> (string \<times> cJSON) list" where
  "opt b name v = (if b then [(name, v)] else [])"

lemma CreateNumber_int: "int_fits n \<Longrightarrow> cJSON_CreateNumber (finite_double (of_int n)) = Inr (jnum n)"
  using finite_int [of n] by (auto simp: cJSON_CreateNumber_def jnum_def int_fits_def)

lemma add_simps:
  "int_fits n \<Longrightarrow> add_number name n (cJSON_Object ms) = Inr (cJSON_Object (ms @ [(name, jnum n)]))"
  "int_fits n \<Longrightarrow> add_nonzero name n (cJSON_Object ms) = Inr (cJSON_Object (ms @ opt (n \<noteq> 0) name (jnum n)))"
  "add_string name (Some s) (cJSON_Object ms) = Inr (cJSON_Object (ms @ [(name, cJSON_String s)]))"
  "add_true b name (cJSON_Object ms) = cJSON_Object (ms @ opt b name cJSON_True)"
  "new_object t name = cJSON_Object [(OEJSON_TYPE, cJSON_String t), (OEJSON_NAME, cJSON_String name)]"
  by (simp_all add: add_number_def add_nonzero_def add_string_def add_true_def new_object_def CreateNumber_int opt_def
      cJSON_CreateString_def)

lemma tuple_values_all: "tuple_values ks (cJSON_Array vs) = Inr (cJSON_Array (vs @ map cJSON_String ks))"
  by (induction ks arbitrary: vs) (auto simp: cJSON_CreateString_def)

fun pairs :: "string list \<Rightarrow> (string \<times> cJSON) list" where
  "pairs (k # x # ks) = (k, cJSON_String x) # pairs ks"
| "pairs _ = []"

lemma map_values_all: "even (length ks) \<Longrightarrow> map_values ks (cJSON_Object ms) = Inr (cJSON_Object (ms @ pairs ks))"
  by (induction ks arbitrary: ms rule: pairs.induct) (auto simp: cJSON_CreateString_def)

definition values_item :: "bool \<Rightarrow> DataObject \<Rightarrow> cJSON" where
  "values_item tuple d = (if tuple then cJSON_Array (map cJSON_String (strings d)) else cJSON_Object (pairs (strings d)))"

definition values_ok :: "bool \<Rightarrow> DataObject \<Rightarrow> bool" where
  "values_ok tuple d = (tuple \<or> even (length (strings d)))"

lemma values_object_all: "values_ok tuple d \<Longrightarrow> values_object tuple d = Inr (values_item tuple d)"
  by (auto simp: values_object_def values_item_def values_ok_def tuple_values_all map_values_all)

lemma template_objects_all:
  "\<forall>d \<in> set ts. values_ok tuple d \<Longrightarrow>
   template_objects tuple ts (cJSON_Array vs) = Inr (cJSON_Array (vs @ map (values_item tuple) ts))"
  by (induction ts arbitrary: vs) (auto simp: values_object_all)

text \<open>The bytes of an object, if there are any, are as many as announced.\<close>

definition bytes_ok :: "DataObject \<Rightarrow> bool" where
  "bytes_ok d = (nbytes d \<noteq> 0 \<longrightarrow>
     (\<exists>b. bytes d = Some b \<and> length b = nbytes d) \<and> int_fits (int (modp_b64_encode_len (nbytes d))))"

definition bytes_item :: "DataObject \<Rightarrow> cJSON" where
  "bytes_item d = cJSON_String (modp_b64_encode (the (bytes d)))"

lemma add_bytes_all:
  "bytes_ok d \<Longrightarrow> add_bytes d (cJSON_Object ms) = Inr (cJSON_Object (ms @ opt (nbytes d \<noteq> 0) OEJSON_BYTES (bytes_item d)))"
  using length_b64_encode [of "the (bytes d)"]
  by (auto simp: add_bytes_def bytes_ok_def opt_def bytes_item_def DataObject_get_nbytes_def DataObject_get_bytes_def sprintf_into_def
      add_simps)

section \<open>Numbers\<close>

definition small_uint :: "64 word \<Rightarrow> bool" where
  "small_uint w = (uint w < 2 ^ 31)"

definition small_sint :: "64 word \<Rightarrow> bool" where
  "small_sint w = int_fits (sint w)"

lemma small_uint_fits [simp]: "small_uint w \<Longrightarrow> int_fits (uint w)"
  unfolding small_uint_def int_fits_def by (rule conjI, rule order_trans [OF _ uint_ge_0]) simp_all

lemma small_sint_fits [simp]: "small_sint w \<Longrightarrow> int_fits (sint w)"
  by (simp add: small_sint_def)

lemma small_uint_sint: "small_uint w \<Longrightarrow> sint w = uint w"
proof -
  assume w: "small_uint w"
  have "- (2 ^ 63) \<le> uint w" by (rule order_trans [OF _ uint_ge_0]) simp
  then show ?thesis using w by (simp add: small_uint_def sint_uint signed_take_bit_int_eq_self)
qed

lemma low_int_signed: "low_int w = signed_take_bit 31 (sint w)"
  by (simp add: low_int_def sint_uint unsigned_ucast_eq signed_take_bit_eq_iff_take_bit_eq take_bit_signed_take_bit)

lemma low_int_sint [simp]: "small_sint w \<Longrightarrow> low_int w = sint w"
  by (simp add: low_int_signed small_sint_def int_fits_def signed_take_bit_int_eq_self)

lemma low_int_uint [simp]: "small_uint w \<Longrightarrow> low_int w = uint w"
  using low_int_sint [of w] small_uint_fits [of w] by (simp add: small_sint_def small_uint_sint)

lemma enlisted_fits [simp]: "int_fits (sint (w :: 32 word))"
  using sint_greater_eq [of w] sint_less [of w] by (simp add: int_fits_def)

section \<open>Lookup\<close>

definition look :: "(string \<times> cJSON) list \<Rightarrow> string \<Rightarrow> cJSON option" where
  "look ms name = cJSON_GetObjectItem (cJSON_Object ms) name"

lemma look_simps:
  "look [] name = None"
  "look ((k, v) # ms) name = (if cJSON_strcasecmp k name = 0 then Some v else look ms name)"
  "look (opt b k v @ ms) name = (if b \<and> cJSON_strcasecmp k name = 0 then Some v else look ms name)"
  "look (opt b k v) name = (if b \<and> cJSON_strcasecmp k name = 0 then Some v else None)"
  by (simp_all add: look_def opt_def)

text \<open>The members after printing and parsing.\<close>

definition kept_members :: "(string \<times> cJSON) list \<Rightarrow> (string \<times> cJSON) list" where
  "kept_members ms = map (\<lambda>m. (kept (fst m), kept_value (snd m))) ms"

lemma kept_members_simps:
  "kept_members [] = []"
  "kept_members ((k, v) # ms) = (kept k, kept_value v) # kept_members ms"
  "kept_members (ms @ ms') = kept_members ms @ kept_members ms'"
  "kept_members (opt b k v) = opt b (kept k) (kept_value v)"
  by (simp_all add: kept_members_def opt_def)

lemma kept_simps:
  "kept [] = []"
  "kept (c # s) = (if escaped c \<noteq> [] then c # kept s else kept s)"
  by (simp_all add: kept_def)

lemma kept_names [simp]:
  "kept OEJSON_CID = OEJSON_CID" "kept OEJSON_TID = OEJSON_TID" "kept OEJSON_TYPE = OEJSON_TYPE" "kept OEJSON_NAME = OEJSON_NAME"
  "kept OEJSON_COMMAND = OEJSON_COMMAND" "kept OEJSON_RESPONSE = OEJSON_RESPONSE" "kept OEJSON_ERROR = OEJSON_ERROR"
  "kept OEJSON_MESSAGE = OEJSON_MESSAGE" "kept OEJSON_DIS = OEJSON_DIS" "kept OEJSON_CON = OEJSON_CON" "kept OEJSON_PUT = OEJSON_PUT"
  "kept OEJSON_GET = OEJSON_GET" "kept OEJSON_UPT = OEJSON_UPT" "kept OEJSON_UPL = OEJSON_UPL" "kept OEJSON_STA = OEJSON_STA"
  "kept OEJSON_SID = OEJSON_SID" "kept OEJSON_EXTENTNAME = OEJSON_EXTENTNAME" "kept OEJSON_USERNAME = OEJSON_USERNAME"
  "kept OEJSON_PASSWORD = OEJSON_PASSWORD" "kept OEJSON_VERSION = OEJSON_VERSION" "kept OEJSON_MAJ = OEJSON_MAJ"
  "kept OEJSON_MIN = OEJSON_MIN" "kept OEJSON_SEQ = OEJSON_SEQ" "kept OEJSON_DUR = OEJSON_DUR" "kept OEJSON_BYTES = OEJSON_BYTES"
  "kept OEJSON_VALUES = OEJSON_VALUES" "kept OEJSON_TEMPLATES = OEJSON_TEMPLATES" "kept OEJSON_TIMEOUT = OEJSON_TIMEOUT"
  "kept OEJSON_MAXRESULTS = OEJSON_MAXRESULTS" "kept OEJSON_ISJOIN = OEJSON_ISJOIN" "kept OEJSON_IFEXISTS = OEJSON_IFEXISTS"
  "kept OEJSON_REMOVE = OEJSON_REMOVE" "kept OEJSON_RETURN_ATTRS = OEJSON_RETURN_ATTRS" "kept OEJSON_RETURN_BYTES = OEJSON_RETURN_BYTES"
  "kept OEJSON_RETURN_IS_DESTROYED = OEJSON_RETURN_IS_DESTROYED" "kept OEJSON_LID = OEJSON_LID" "kept OEJSON_STATUS = OEJSON_STATUS"
  "kept OEJSON_ENLISTED = OEJSON_ENLISTED" "kept OEJSON_EID = OEJSON_EID" "kept OEJSON_NRESULTS = OEJSON_NRESULTS"
  "kept OEJSON_EXPTIME = OEJSON_EXPTIME" "kept RB_ON_DISCONNECT = RB_ON_DISCONNECT"
  by code_simp+

lemma kept_jnum [simp]: "kept_value (jnum n) = jnum n"
  by (simp add: jnum_def)

lemma int_numbers_simps [simp]:
  "int_fits n \<Longrightarrow> int_numbers (jnum n)"
  "int_numbers (values_item tuple d)"
  "int_numbers (bytes_item d)"
proof -
  have "\<forall>m \<in> set (pairs ks). int_numbers (snd m)" for ks by (induction ks rule: pairs.induct) auto
  then show "int_numbers (values_item tuple d)" by (auto simp: values_item_def)
qed (simp_all add: jnum_def bytes_item_def)

section \<open>Members of the object that arrives\<close>

lemma GetObjectItem_look [simp]: "cJSON_GetObjectItem (cJSON_Object ms) name = look ms name"
  by (simp add: look_def)

declare cJSON_GetObjectItem.simps(1) [simp del]

definition set_if :: "bool \<Rightarrow> ('a \<Rightarrow> 'a) \<Rightarrow> 'a \<Rightarrow> 'a" where
  "set_if b f x = (if b then f x else x)"

lemma set_if_simps [simp]: "set_if True f x = f x" "set_if False f x = x"
  by (simp_all add: set_if_def)

lemma opt_simps [simp]: "opt True k v = [(k, v)]" "opt False k v = []"
  by (simp_all add: opt_def)

text \<open>What a member does, by what is found.\<close>

definition number_of :: "cJSON option \<Rightarrow> int \<Rightarrow> (int \<Rightarrow> 'a \<Rightarrow> 'a) \<Rightarrow> 'a \<Rightarrow> 'a made" where
  "number_of v code f x = (case v of None \<Rightarrow> made_ok x | Some (cJSON_Number i d) \<Rightarrow> made_ok (f i x) | Some v \<Rightarrow> refused code)"

definition string_of :: "cJSON option \<Rightarrow> int \<Rightarrow> (string \<Rightarrow> 'a \<Rightarrow> 'a) \<Rightarrow> 'a \<Rightarrow> 'a made" where
  "string_of v code f x = (case v of None \<Rightarrow> made_ok x | Some (cJSON_String s) \<Rightarrow> made_ok (f s x) | Some v \<Rightarrow> refused code)"

lemma member_look:
  "number_member (cJSON_Object ms) name code f x = number_of (look ms name) code f x"
  "string_member (cJSON_Object ms) name code g x = string_of (look ms name) code g x"
  "true_member (cJSON_Object ms) name h x = set_if (look ms name = Some cJSON_True) h x"
  by (simp_all add: number_member_def string_member_def true_member_def number_of_def string_of_def set_if_def)

lemma member_found:
  "number_of (Some (jnum n)) code f x = made_ok (f n x)"
  "number_of (if b then Some (jnum n) else None) code f x = made_ok (set_if b (f n) x)"
  "string_of (Some (cJSON_String s)) code g x = made_ok (g s x)"
  "string_of (if b then Some (cJSON_String s) else None) code g x = made_ok (set_if b (g s) x)"
  "string_of None code g x = made_ok x"
  "(if b then Some cJSON_True else None) = Some cJSON_True \<longleftrightarrow> b"
  "number_of (if b then None else Some (jnum n)) code f x = made_ok (set_if (\<not> b) (f n) x)"
  "string_of (if b then None else Some (cJSON_String s)) code g x = made_ok (set_if (\<not> b) (g s) x)"
  "(case (if b then Some v else None) of None \<Rightarrow> p | Some w \<Rightarrow> q w) = (if b then q v else p)"
  "(case (if b then None else Some v) of None \<Rightarrow> p | Some w \<Rightarrow> q w) = (if b then p else q v)"
  by (simp_all add: number_of_def string_of_def jnum_def set_if_def)

lemma uint_eq_0: "uint w = 0 \<longleftrightarrow> w = 0"
  by (metis uint_0_iff)

lemma sint_eq_0: "sint w = 0 \<longleftrightarrow> w = 0"
  by (rule signed_eq_0_iff)

text \<open>A number that is left out because it is zero stands for the zero it is.\<close>

lemma set_if_nonzero:
  "cor_id m = 0 \<Longrightarrow> set_if (uint w \<noteq> 0) (\<lambda>m. OekMsg_set_cid m w) m = m\<lparr>cor_id := w\<rparr>"
  "txn_id m = 0 \<Longrightarrow> set_if (uint w \<noteq> 0) (\<lambda>m. OekMsg_set_tid m w) m = m\<lparr>txn_id := w\<rparr>"
  "pc_duration c1 = 0 \<Longrightarrow> set_if (sint w \<noteq> 0) (\<lambda>c. PutCmd_set_dur c w) c1 = c1\<lparr>pc_duration := w\<rparr>"
  "sc_duration c2 = 0 \<Longrightarrow> set_if (sint w \<noteq> 0) (\<lambda>c. StaCmd_set_dur c w) c2 = c2\<lparr>sc_duration := w\<rparr>"
  "uc_duration c3 = 0 \<Longrightarrow> set_if (sint w \<noteq> 0) (\<lambda>c. UptCmd_set_dur c w) c3 = c3\<lparr>uc_duration := w\<rparr>"
  "lc_duration c4 = 0 \<Longrightarrow> set_if (sint w \<noteq> 0) (\<lambda>c. UplCmd_set_dur c w) c4 = c4\<lparr>lc_duration := w\<rparr>"
  "lc_lease_id c4 = 0 \<Longrightarrow> set_if (uint w \<noteq> 0) (\<lambda>c. UplCmd_set_lid c w) c4 = c4\<lparr>lc_lease_id := w\<rparr>"
  "lr_expiretime r = 0 \<Longrightarrow> set_if (sint w \<noteq> 0) (\<lambda>c. UplRes_set_expiretime c w) r = r\<lparr>lr_expiretime := w\<rparr>"
  "gc_timeout c5 = 0 \<Longrightarrow> set_if (sint w \<noteq> 0) (\<lambda>c. GetCmd_set_timeout c w) c5 = c5\<lparr>gc_timeout := w\<rparr>"
  "er_type e = 0 \<Longrightarrow> set_if (uint w \<noteq> 0) (\<lambda>c. OekErr_set_type c w) e = e\<lparr>er_type := w\<rparr>"
  by (simp_all add: set_if_def uint_eq_0 sint_eq_0 OekMsg_set_cid_def OekMsg_set_tid_def PutCmd_set_dur_def StaCmd_set_dur_def
      UptCmd_set_dur_def UplCmd_set_dur_def UplCmd_set_lid_def UplRes_set_expiretime_def GetCmd_set_timeout_def OekErr_set_type_def)

lemma m_bind_ok [simp]: "m_bind (made_ok x) f = f x"
  by (simp add: m_bind_def made_ok_def)

lemma checked_ok [simp]: "checked (Inr x) = made_ok x"
  by (simp add: checked_def)

lemma OekMsg_new_simps:
  "OekMsg_new t = (let m = \<lparr>mtype = t, cor_id = 0, txn_id = 0, valid = True, data = No_Data\<rparr> in
     case t of
        OEK_NON \<Rightarrow> Inr m
      | OEK_ERR \<Rightarrow> Inr (m\<lparr>data := D_err OekErr_new\<rparr>)
      | CON_CMD \<Rightarrow> Inr (m\<lparr>data := D_con_cmd ConCmd_new\<rparr>)
      | DIS_CMD \<Rightarrow> Inr (m\<lparr>data := D_dis_cmd DisCmd_new\<rparr>)
      | CON_RES \<Rightarrow> Inr (m\<lparr>data := D_con_res ConRes_new\<rparr>)
      | STA_CMD \<Rightarrow> Inr (m\<lparr>data := D_sta_cmd StaCmd_new\<rparr>)
      | STA_RES \<Rightarrow> Inr (m\<lparr>data := D_sta_res StaRes_new\<rparr>)
      | UPT_CMD \<Rightarrow> Inr (m\<lparr>data := D_upt_cmd UptCmd_new\<rparr>)
      | UPT_RES \<Rightarrow> Inr (m\<lparr>data := D_upt_res UptRes_new\<rparr>)
      | UPL_CMD \<Rightarrow> Inr (m\<lparr>data := D_upl_cmd UplCmd_new\<rparr>)
      | UPL_RES \<Rightarrow> Inr (m\<lparr>data := D_upl_res UplRes_new\<rparr>)
      | GET_CMD \<Rightarrow> Inr (m\<lparr>data := D_get_cmd GetCmd_new\<rparr>)
      | GET_RES \<Rightarrow> Inr (m\<lparr>data := D_get_res GetRes_new\<rparr>)
      | PUT_CMD \<Rightarrow> Inr (m\<lparr>data := D_put_cmd PutCmd_new\<rparr>)
      | PUT_RES \<Rightarrow> Inr (m\<lparr>data := D_put_res PutRes_new\<rparr>))"
  by (cases t) (simp_all add: OekMsg_new_def OekMsg_settype_def Let_def)

section \<open>The messages that can be sent, what is sent, and what arrives\<close>

definition json_ok :: "OekMsg \<Rightarrow> bool" where
  "json_ok m = (oekmsg_ok m \<and> small_uint (cor_id m) \<and> small_uint (txn_id m) \<and>
     (case data m of
        No_Data \<Rightarrow> False
      | D_err e \<Rightarrow> small_uint (er_type e)
      | D_con_cmd c \<Rightarrow> cc_extentname c \<noteq> None \<and> cc_username c \<noteq> None \<and> cc_password c \<noteq> None \<and>
          small_uint (cc_major c) \<and> small_uint (cc_minor c) \<and> small_uint (cc_update c)
      | D_dis_cmd c \<Rightarrow> True
      | D_con_res r \<Rightarrow> small_uint (cr_major r) \<and> small_uint (cr_minor r) \<and> small_uint (cr_update r) \<and> small_uint (cr_session_id r)
      | D_sta_cmd c \<Rightarrow> small_sint (sc_duration c)
      | D_sta_res r \<Rightarrow> txn_id m \<noteq> 0
      | D_upt_cmd c \<Rightarrow> small_sint (uc_duration c)
      | D_upt_res r \<Rightarrow> True
      | D_upl_cmd c \<Rightarrow> small_sint (lc_duration c) \<and> small_uint (lc_lease_id c)
      | D_upl_res r \<Rightarrow> small_sint (lr_expiretime r)
      | D_get_cmd c \<Rightarrow> small_sint (gc_timeout c) \<and> small_uint (gc_max_responses c) \<and>
          (case gc_value_lists c of
             None \<Rightarrow> False
           | Some ts \<Rightarrow> ts \<noteq> [] \<and> (\<forall>d \<in> set ts. values_ok (GetCmd_is_tuple c) d \<and> (GetCmd_is_tuple c \<longrightarrow> strings d \<noteq> [])))
      | D_get_res r \<Rightarrow> small_uint (gr_nresults r) \<and>
          (case gr_data r of None \<Rightarrow> False | Some d \<Rightarrow>
             (GetRes_return_bytes r \<longrightarrow> bytes_ok d) \<and> (GetRes_return_attrs r \<longrightarrow> values_ok (GetRes_is_tuple r) d))
      | D_put_cmd c \<Rightarrow> small_sint (pc_duration c) \<and>
          (case pc_data c of None \<Rightarrow> False | Some d \<Rightarrow> bytes_ok d \<and> values_ok (pc_is_tuple c) d)
      | D_put_res r \<Rightarrow> small_uint (pr_lease_id r)))"

definition head :: "string \<Rightarrow> string \<Rightarrow> (string \<times> cJSON) list" where
  "head t name = [(OEJSON_TYPE, cJSON_String t), (OEJSON_NAME, cJSON_String name)]"

definition nonzero :: "string \<Rightarrow> int \<Rightarrow> (string \<times> cJSON) list" where
  "nonzero name n = opt (n \<noteq> 0) name (jnum n)"

definition cid_of :: "OekMsg \<Rightarrow> (string \<times> cJSON) list" where
  "cid_of m = nonzero OEJSON_CID (uint (cor_id m))"

definition tid_of :: "OekMsg \<Rightarrow> (string \<times> cJSON) list" where
  "tid_of m = nonzero OEJSON_TID (uint (txn_id m))"

definition version_of :: "size_t \<Rightarrow> size_t \<Rightarrow> size_t \<Rightarrow> (string \<times> cJSON) list" where
  "version_of maj mnr seq = [(OEJSON_VERSION, cJSON_Object [(OEJSON_MAJ, jnum (uint maj)), (OEJSON_MIN, jnum (uint mnr)),
     (OEJSON_SEQ, jnum (uint seq))])]"

definition status_of :: "char \<Rightarrow> (string \<times> cJSON) list" where
  "status_of c = opt (c \<noteq> NUL) OEJSON_STATUS (cJSON_String [c])"

text \<open>The members of the object that is printed.\<close>

definition json_members :: "OekMsg \<Rightarrow> (string \<times> cJSON) list" where
  "json_members m =
     (case data m of
        No_Data \<Rightarrow> []
      | D_err e \<Rightarrow> [(OEJSON_TYPE, cJSON_String OEJSON_ERROR)] @ cid_of m @ nonzero OEJSON_EID (uint (er_type e)) @
          opt (er_emessage e \<noteq> None) OEJSON_MESSAGE (cJSON_String (the (er_emessage e)))
      | D_con_cmd c \<Rightarrow> head OEJSON_COMMAND OEJSON_CON @ opt (ConCmd_rollback_on_disconnect c) RB_ON_DISCONNECT cJSON_True @
          [(OEJSON_EXTENTNAME, cJSON_String (the (cc_extentname c))), (OEJSON_USERNAME, cJSON_String (the (cc_username c))),
           (OEJSON_PASSWORD, cJSON_String (the (cc_password c)))] @ version_of (cc_major c) (cc_minor c) (cc_update c) @ cid_of m
      | D_dis_cmd c \<Rightarrow> head OEJSON_COMMAND OEJSON_DIS
      | D_con_res r \<Rightarrow> head OEJSON_RESPONSE OEJSON_CON @ [(OEJSON_SID, jnum (uint (cr_session_id r)))] @
          version_of (cr_major r) (cr_minor r) (cr_update r) @ cid_of m
      | D_sta_cmd c \<Rightarrow> head OEJSON_COMMAND OEJSON_STA @ cid_of m @ nonzero OEJSON_DUR (sint (sc_duration c))
      | D_sta_res r \<Rightarrow> head OEJSON_RESPONSE OEJSON_STA @ cid_of m @ tid_of m
      | D_upt_cmd c \<Rightarrow> head OEJSON_COMMAND OEJSON_UPT @ cid_of m @ tid_of m @ nonzero OEJSON_DUR (sint (uc_duration c)) @
          [(OEJSON_ENLISTED, jnum (sint (uc_enlisted c)))] @ status_of (uc_status c)
      | D_upt_res r \<Rightarrow> head OEJSON_RESPONSE OEJSON_UPT @ cid_of m @ status_of (UptRes_get_status r)
      | D_upl_cmd c \<Rightarrow> head OEJSON_COMMAND OEJSON_UPL @ cid_of m @ nonzero OEJSON_DUR (sint (lc_duration c)) @
          nonzero OEJSON_LID (uint (lc_lease_id c))
      | D_upl_res r \<Rightarrow> head OEJSON_RESPONSE OEJSON_UPL @ cid_of m @ nonzero OEJSON_EXPTIME (sint (lr_expiretime r))
      | D_get_cmd c \<Rightarrow> head OEJSON_COMMAND OEJSON_GET @ cid_of m @ tid_of m @ nonzero OEJSON_TIMEOUT (sint (gc_timeout c)) @
          nonzero OEJSON_MAXRESULTS (uint (gc_max_responses c)) @ opt (GetCmd_remove c) OEJSON_REMOVE cJSON_True @
          opt (GetCmd_ifexists c) OEJSON_IFEXISTS cJSON_True @ opt (GetCmd_return_attrs c) OEJSON_RETURN_ATTRS cJSON_True @
          opt (GetCmd_return_bytes c) OEJSON_RETURN_BYTES cJSON_True @ opt (fst (GetCmd_get_join c)) OEJSON_ISJOIN cJSON_True @
          [(OEJSON_TEMPLATES, cJSON_Array (map (values_item (GetCmd_is_tuple c)) (the (gc_value_lists c))))]
      | D_get_res r \<Rightarrow> head OEJSON_RESPONSE OEJSON_GET @ cid_of m @ tid_of m @
          opt (GetRes_is_destroyed r) OEJSON_RETURN_IS_DESTROYED cJSON_True @ [(OEJSON_NRESULTS, jnum (uint (gr_nresults r)))] @
          opt (GetRes_return_bytes r \<and> nbytes (the (gr_data r)) \<noteq> 0) OEJSON_BYTES (bytes_item (the (gr_data r))) @
          opt (GetRes_return_attrs r \<and> strings (the (gr_data r)) \<noteq> []) OEJSON_VALUES
            (values_item (GetRes_is_tuple r) (the (gr_data r)))
      | D_put_cmd c \<Rightarrow> head OEJSON_COMMAND OEJSON_PUT @ cid_of m @ tid_of m @ nonzero OEJSON_DUR (sint (pc_duration c)) @
          opt (nbytes (the (pc_data c)) \<noteq> 0) OEJSON_BYTES (bytes_item (the (pc_data c))) @
          [(OEJSON_VALUES, values_item (pc_is_tuple c) (the (pc_data c)))]
      | D_put_res r \<Rightarrow> head OEJSON_RESPONSE OEJSON_PUT @ [(OEJSON_LID, jnum (uint (pr_lease_id r)))] @ cid_of m)"

lemma add_parts:
  "int_fits n \<Longrightarrow> add_nonzero name n (cJSON_Object ms) = Inr (cJSON_Object (ms @ nonzero name n))"
  "small_uint (cor_id m) \<Longrightarrow> add_cid m (cJSON_Object ms) = Inr (cJSON_Object (ms @ cid_of m))"
  "small_uint (txn_id m) \<Longrightarrow> add_tid m (cJSON_Object ms) = Inr (cJSON_Object (ms @ tid_of m))"
  "add_status c (cJSON_Object ms) = Inr (cJSON_Object (ms @ status_of c))"
  "new_object t name' = cJSON_Object (head t name')"
  by (simp_all add: add_simps nonzero_def cid_of_def tid_of_def add_cid_def add_tid_def OekMsg_get_cid_def OekMsg_get_tid_def
      add_status_def status_of_def opt_def head_def)

lemma version_object_all:
  "small_uint maj \<Longrightarrow> small_uint mnr \<Longrightarrow> small_uint seq \<Longrightarrow> version_object maj mnr seq = Inr (snd (hd (version_of maj mnr seq)))"
  by (simp add: version_object_def version_of_def add_simps)

lemma get_json_string_rc: "c_bind (get_json_string json) (\<lambda>(rc, str). Inr (0, str)) = get_json_string json"
  by (cases "cJSON_Print json") (simp_all add: get_json_string_def)

lemma serialize_error:
  assumes "data m = D_err e" "json_ok m"
  shows "json_err_serialize m = get_json_string (cJSON_Object (json_members m))"
  using assms
  by (cases "er_emessage e")
    (simp_all add: json_ok_def oekmsg_ok_def json_members_def json_err_serialize_def OekMsg_get_err_def OekErr_get_type_def
      OekErr_get_message_def add_parts add_simps opt_def)

lemma serialize_con:
  "data m = D_con_cmd c \<Longrightarrow> json_ok m \<Longrightarrow> con_command_serialize m = get_json_string (cJSON_Object (json_members m))"
  "data m = D_con_res r \<Longrightarrow> json_ok m \<Longrightarrow> con_response_serialize m = get_json_string (cJSON_Object (json_members m))"
  by (auto simp: json_ok_def oekmsg_ok_def json_members_def con_command_serialize_def con_response_serialize_def OekMsg_get_con_cmd_def
      OekMsg_get_con_res_def ConCmd_get_extentname_def ConCmd_get_username_def ConCmd_get_pwd_def ConCmd_get_version_maj_def
      ConCmd_get_version_min_def ConCmd_get_version_upt_def ConRes_get_sid_def ConRes_get_version_maj_def
      ConRes_get_version_min_def ConRes_get_version_upt_def add_parts add_simps version_object_all version_of_def Let_def)

lemma serialize_txn:
  "data m = D_sta_cmd c1 \<Longrightarrow> json_ok m \<Longrightarrow> sta_command_serialize m = get_json_string (cJSON_Object (json_members m))"
  "data m = D_sta_res r1 \<Longrightarrow> json_ok m \<Longrightarrow> sta_response_serialize m = get_json_string (cJSON_Object (json_members m))"
  "data m = D_upt_cmd c2 \<Longrightarrow> json_ok m \<Longrightarrow> upt_command_serialize m = get_json_string (cJSON_Object (json_members m))"
  "data m = D_upt_res r2 \<Longrightarrow> json_ok m \<Longrightarrow> upt_response_serialize m = get_json_string (cJSON_Object (json_members m))"
  "data m = D_upl_cmd c3 \<Longrightarrow> json_ok m \<Longrightarrow> upl_command_serialize m = get_json_string (cJSON_Object (json_members m))"
  "data m = D_upl_res r3 \<Longrightarrow> json_ok m \<Longrightarrow> upl_response_serialize m = get_json_string (cJSON_Object (json_members m))"
  "data m = D_dis_cmd c4 \<Longrightarrow> json_ok m \<Longrightarrow> dis_command_serialize m = get_json_string (cJSON_Object (json_members m))"
  by (simp_all add: json_ok_def oekmsg_ok_def json_members_def sta_command_serialize_def sta_response_serialize_def
      upt_command_serialize_def upt_response_serialize_def upl_command_serialize_def upl_response_serialize_def
      dis_command_serialize_def OekMsg_get_sta_cmd_def OekMsg_get_sta_res_def OekMsg_get_upt_cmd_def OekMsg_get_upt_res_def
      OekMsg_get_upl_cmd_def OekMsg_get_upl_res_def OekMsg_get_dis_cmd_def StaCmd_get_dur_def UptCmd_get_dur_def
      UptCmd_get_enlisted_def UptCmd_get_status_def UplCmd_get_dur_def UplCmd_get_lid_def UplRes_get_expiretime_def
      OekMsg_get_tid_def get_json_string_rc add_parts add_simps)

lemma serialize_put:
  "data m = D_put_cmd c \<Longrightarrow> json_ok m \<Longrightarrow> put_command_serialize m = get_json_string (cJSON_Object (json_members m))"
  "data m = D_put_res r \<Longrightarrow> json_ok m \<Longrightarrow> put_response_serialize m = get_json_string (cJSON_Object (json_members m))"
  by (auto simp: json_ok_def oekmsg_ok_def json_members_def put_command_serialize_def put_response_serialize_def OekMsg_get_put_cmd_def
      OekMsg_get_put_res_def PutCmd_get_data_def PutCmd_get_dur_def PutCmd_is_tuple_def PutRes_get_lease_id_def add_parts add_simps
      add_bytes_all values_object_all Let_def split: option.splits)

lemma serialize_get_cmd:
  assumes "data m = D_get_cmd c" "json_ok m"
  shows "get_command_serialize m = get_json_string (cJSON_Object (json_members m))"
proof -
  obtain ts where "gc_value_lists c = Some ts" "\<forall>d \<in> set ts. values_ok (GetCmd_is_tuple c) d"
    using assms by (auto simp: json_ok_def split: option.splits)
  then show ?thesis using assms
    by (simp add: json_ok_def oekmsg_ok_def json_members_def get_command_serialize_def OekMsg_get_get_cmd_def GetCmd_get_data_objects_def
        get_value_lists_def template_objects_all GetCmd_get_timeout_def GetCmd_get_max_responses_def add_parts add_simps Let_def)
qed

lemma serialize_get_res:
  assumes "data m = D_get_res r" "json_ok m"
  shows "get_response_serialize m = get_json_string (cJSON_Object (json_members m))"
proof -
  obtain d where d: "gr_data r = Some d" "GetRes_return_bytes r \<longrightarrow> bytes_ok d" "GetRes_return_attrs r \<longrightarrow> values_ok (GetRes_is_tuple r) d"
    using assms by (auto simp: json_ok_def split: option.splits)
  have b: "(if GetRes_return_bytes r then add_bytes d (cJSON_Object ms) else Inr (cJSON_Object ms)) =
      Inr (cJSON_Object (ms @ opt (GetRes_return_bytes r \<and> nbytes d \<noteq> 0) OEJSON_BYTES (bytes_item d)))" for ms
    using d(2) by (simp add: add_bytes_all opt_def)
  show ?thesis using assms d(1,3)
    by (cases "GetRes_return_attrs r"; cases "strings d = []")
      (simp_all add: json_ok_def oekmsg_ok_def json_members_def get_response_serialize_def OekMsg_get_get_res_def GetRes_get_data_def
        GetRes_get_nresults_def add_parts add_simps b values_object_all DataObject_get_nattrs_def opt_def [of False] opt_def [of True] Let_def)
qed

lemma json_serialize:
  assumes "json_ok m"
  shows "json_msg_serialize m = get_json_string (cJSON_Object (json_members m))"
proof -
  have "mtype m = tag_of (data m)" using assms by (simp add: json_ok_def oekmsg_ok_def)
  then show ?thesis
    using assms serialize_error serialize_con serialize_txn serialize_put serialize_get_cmd serialize_get_res
    by (cases "data m") (auto simp: json_msg_serialize_def OekMsg_get_type_def json_ok_def)
qed

subsection \<open>Numbers of the object\<close>

lemma json_ints:
  assumes "json_ok m"
  shows "int_numbers (cJSON_Object (json_members m))"
  using assms
  by (cases "data m")
    (auto simp: json_ok_def json_members_def head_def nonzero_def cid_of_def tid_of_def version_of_def status_of_def opt_def
      split: option.splits)

subsection \<open>What arrives\<close>

definition fresh_data :: DataObject where
  "fresh_data = \<lparr>strings = [], nbytes = 0, bytes = None, array_cache = None, always_cpy = True\<rparr>"

definition kept_data :: "DataObject \<Rightarrow> DataObject" where
  "kept_data d = fresh_data\<lparr>strings := map kept (strings d)\<rparr>"

definition image_status :: "char \<Rightarrow> char" where
  "image_status c = first_char (kept [c])"

text \<open>The bytes of a response stay in base 64, its mark for a removed record is not read, and its transaction identifier is lost;
  an error and a disconnect lose their correlation identifier.  A command that asks for no number of responses asks for one.\<close>

definition image_get_cmd :: "GetCmd \<Rightarrow> GetCmd" where
  "image_get_cmd c =
     set_if (GetCmd_return_bytes c) (\<lambda>c. GetCmd_set_return_bytes c True)
     (set_if (GetCmd_return_attrs c) (\<lambda>c. GetCmd_set_return_attrs c True)
     (set_if (GetCmd_remove c) GetCmd_set_remove_option
     (set_if (GetCmd_ifexists c) GetCmd_set_ifexists_option
     (set_if (fst (GetCmd_get_join c)) GetCmd_set_join
     (set_if (GetCmd_is_tuple c) GetCmd_set_tuple
       \<lparr>gc_timeout = gc_timeout c, gc_max_responses = (if gc_max_responses c = 0 then 1 else gc_max_responses c), gc_flags = 0,
        gc_value_lists = Some (map kept_data (the (gc_value_lists c)))\<rparr>)))))"

definition image_get_res :: "GetRes \<Rightarrow> GetRes" where
  "image_get_res r =
     (let d = the (gr_data r); b64 = modp_b64_encode (the (bytes d));
          d1 = (if GetRes_return_attrs r then kept_data d else fresh_data);
          d2 = (if GetRes_return_bytes r \<and> nbytes d \<noteq> 0 then d1\<lparr>nbytes := length b64, bytes := Some b64\<rparr> else d1)
      in set_if (GetRes_return_attrs r \<and> strings d \<noteq> [] \<and> GetRes_is_tuple r) GetRes_set_tuple
           \<lparr>gr_nresults = gr_nresults r, gr_flags = 0, gr_data = Some d2\<rparr>)"

definition image_put_cmd :: "PutCmd \<Rightarrow> PutCmd" where
  "image_put_cmd c =
     (let d = the (pc_data c); d1 = kept_data d
      in c\<lparr>pc_data := Some (if nbytes d \<noteq> 0 then d1\<lparr>nbytes := nbytes d, bytes := bytes d\<rparr> else d1)\<rparr>)"

definition json_image :: "OekMsg \<Rightarrow> OekMsg" where
  "json_image m =
     (let make = (\<lambda>cid tid d. \<lparr>mtype = mtype m, cor_id = cid, txn_id = tid, valid = True, data = d\<rparr>) in
      case data m of
        No_Data \<Rightarrow> make 0 0 No_Data
      | D_err e \<Rightarrow> make 0 0 (D_err (e\<lparr>er_emessage := map_option kept (er_emessage e)\<rparr>))
      | D_con_cmd c \<Rightarrow> make (cor_id m) 0 (D_con_cmd (set_if (ConCmd_rollback_on_disconnect c) ConCmd_set_rollback_on_disconnect
          (c\<lparr>cc_extentname := map_option kept (cc_extentname c), cc_username := map_option kept (cc_username c),
             cc_password := map_option kept (cc_password c), cc_flags := 0\<rparr>)))
      | D_dis_cmd c \<Rightarrow> make 0 0 (D_dis_cmd DisCmd_new)
      | D_con_res r \<Rightarrow> make (cor_id m) 0 (D_con_res (r\<lparr>cr_extentname := None\<rparr>))
      | D_sta_cmd c \<Rightarrow> make (cor_id m) 0 (D_sta_cmd (c\<lparr>sc_rollback_on_disconnect := False\<rparr>))
      | D_sta_res r \<Rightarrow> make (cor_id m) (txn_id m) (D_sta_res StaRes_new)
      | D_upt_cmd c \<Rightarrow> make (cor_id m) (txn_id m) (D_upt_cmd (c\<lparr>uc_status := image_status (uc_status c)\<rparr>))
      | D_upt_res r \<Rightarrow> make (cor_id m) 0 (D_upt_res (r\<lparr>ur_status := image_status (UptRes_get_status r)\<rparr>))
      | D_upl_cmd c \<Rightarrow> make (cor_id m) 0 (D_upl_cmd c)
      | D_upl_res r \<Rightarrow> make (cor_id m) 0 (D_upl_res r)
      | D_get_cmd c \<Rightarrow> make (cor_id m) (txn_id m) (D_get_cmd (image_get_cmd c))
      | D_get_res r \<Rightarrow> make (cor_id m) 0 (D_get_res (image_get_res r))
      | D_put_cmd c \<Rightarrow> make (cor_id m) (txn_id m) (D_put_cmd (image_put_cmd c))
      | D_put_res r \<Rightarrow> make (cor_id m) 0 (D_put_res r))"

subsection \<open>Data\<close>

lemma fresh_copy: "DataObject_set_always_copy DataObject_new True = fresh_data"
  by (simp add: DataObject_set_always_copy_def DataObject_new_def fresh_data_def)

lemma add_attr_fresh: "array_cache d = None \<Longrightarrow> DataObject_add_attr d (Some v) = Inr (d\<lparr>strings := strings d @ [v]\<rparr>)"
  by (cases d) (simp add: DataObject_add_attr_Some)

lemma add_items_all:
  "array_cache d = None \<Longrightarrow> add_items (map cJSON_String ks) d = made_ok (d\<lparr>strings := strings d @ ks\<rparr>)"
  "array_cache d = None \<Longrightarrow> add_strings (map cJSON_String ks) d = made_ok (d\<lparr>strings := strings d @ ks\<rparr>)"
  by (induction ks arbitrary: d) (simp_all add: add_value_def add_attr_fresh)

lemma add_members_all:
  "even (length ks) \<Longrightarrow> array_cache d = None \<Longrightarrow> add_members (pairs ks) d = made_ok (d\<lparr>strings := strings d @ ks\<rparr>)"
  by (induction ks arbitrary: d rule: pairs.induct) (simp_all add: add_value_def add_attr_fresh)

lemma kept_plain: "\<forall>c \<in> set s. plain_char c \<Longrightarrow> kept s = s"
  by (simp add: kept_def filter_id_conv escaped_def)

lemma kept_b64: "kept (modp_b64_encode s) = modp_b64_encode s"
proof -
  have "\<forall>c \<in> insert CHARPAD (set alphabet). plain_char c" by code_simp
  then show ?thesis using b64_alphabet [of s] by (intro kept_plain) blast
qed

lemma kept_values_item: "kept_value (values_item tuple d) = values_item tuple (kept_data d)"
proof -
  have "map (\<lambda>m. (kept (fst m), kept_value (snd m))) (pairs ks) = pairs (map kept ks)" for ks
    by (induction ks rule: pairs.induct) auto
  then show ?thesis by (simp add: values_item_def kept_data_def)
qed

lemma kept_bytes_item: "kept_value (bytes_item d) = bytes_item d"
  by (simp add: bytes_item_def kept_b64)

lemma fill_data:
  "add_items (map cJSON_String (strings (kept_data d))) fresh_data = made_ok (kept_data d)"
  "add_strings (map cJSON_String (strings (kept_data d))) fresh_data = made_ok (kept_data d)"
  "even (length (strings d)) \<Longrightarrow> add_members (pairs (strings (kept_data d))) fresh_data = made_ok (kept_data d)"
proof -
  have f: "array_cache fresh_data = None" by (simp add: fresh_data_def)
  have k: "kept_data d = fresh_data\<lparr>strings := strings fresh_data @ strings (kept_data d)\<rparr>"
    by (simp add: kept_data_def fresh_data_def)
  show "add_items (map cJSON_String (strings (kept_data d))) fresh_data = made_ok (kept_data d)"
      "add_strings (map cJSON_String (strings (kept_data d))) fresh_data = made_ok (kept_data d)"
    using add_items_all [OF f] k by simp_all
  assume "even (length (strings d))"
  then have "even (length (strings (kept_data d)))" by (simp add: kept_data_def)
  from add_members_all [OF this f] k show "add_members (pairs (strings (kept_data d))) fresh_data = made_ok (kept_data d)"
    by simp
qed

lemma add_template_item:
  assumes "values_ok tuple d" "tuple \<longrightarrow> strings d \<noteq> []"
  shows "add_json_template (values_item tuple (kept_data d)) cmd =
    made_ok (set_if tuple GetCmd_set_tuple (cmd\<lparr>gc_value_lists := Some (fst (get_value_lists cmd) @ [kept_data d])\<rparr>))"
proof -
  obtain l where l: "fst (get_value_lists cmd) = l" by blast
  have n: "GetCmd_new_data_object cmd = (length l, cmd\<lparr>gc_value_lists := Some (l @ [DataObject_new])\<rparr>)"
    using l by (auto simp: GetCmd_new_data_object_def get_value_lists_def DataObjectList_new_data_object_def DataObjectList_add_def
        DataObjectList_new_def split: option.splits)
  have e: "strings (kept_data d) = [] \<longleftrightarrow> strings d = []" by (simp add: kept_data_def)
  show ?thesis
  proof (cases tuple)
    case True
    then show ?thesis using assms
      by (simp add: add_json_template_def n get_value_lists_def values_item_def fresh_copy fill_data e set_if_def GetCmd_set_tuple_def
          l [unfolded get_value_lists_def] Let_def) (cases cmd, simp)
  next
    case False
    then show ?thesis using assms
      by (simp add: add_json_template_def n get_value_lists_def values_item_def values_ok_def fresh_copy fill_data set_if_def
          l [unfolded get_value_lists_def] Let_def)
  qed
qed

lemma add_templates_items:
  assumes "\<forall>d \<in> set ts. values_ok tuple d \<and> (tuple \<longrightarrow> strings d \<noteq> [])"
  shows "ts \<noteq> [] \<Longrightarrow> add_templates (map (values_item tuple) (map kept_data ts)) cmd =
    made_ok (set_if tuple GetCmd_set_tuple (cmd\<lparr>gc_value_lists := Some (fst (get_value_lists cmd) @ map kept_data ts)\<rparr>))"
  using assms
proof (induction ts arbitrary: cmd)
  case (Cons d ts)
  let ?cmd = "set_if tuple GetCmd_set_tuple (cmd\<lparr>gc_value_lists := Some (fst (get_value_lists cmd) @ [kept_data d])\<rparr>)"
  have l: "fst (get_value_lists ?cmd) = fst (get_value_lists cmd) @ [kept_data d]"
    by (simp add: set_if_def get_value_lists_def GetCmd_set_tuple_def)
  have s: "set_if tuple GetCmd_set_tuple (?cmd\<lparr>gc_value_lists := v\<rparr>) = set_if tuple GetCmd_set_tuple (cmd\<lparr>gc_value_lists := v\<rparr>)" for v
    by (simp add: set_if_def GetCmd_set_tuple_def OEC_FLAG_SET_def)
  have "add_json_template (values_item tuple (kept_data d)) cmd = made_ok ?cmd"
    using Cons.prems by (intro add_template_item) auto
  then show ?case
    using Cons.IH [of ?cmd] Cons.prems(2) by (cases "ts = []") (simp_all add: l s)
qed simp

subsection \<open>Messages\<close>

lemmas members_defs = json_members_def kept_members_simps head_def nonzero_def cid_of_def tid_of_def version_of_def status_of_def
  kept_values_item kept_bytes_item
lemmas create_defs = look_simps oejson_names tolower_def member_look member_found set_if_nonzero new_from_def OekMsg_new_simps
  cid_member_def tid_member_def json_image_def command_create_def response_create_def

lemma names_same [simp]: "cJSON_strcasecmp s s = 0"
  by (induction s) auto

text \<open>The object of a message that was printed and parsed makes its image.\<close>

definition makes :: "(cJSON \<Rightarrow> OekMsg made) \<Rightarrow> OekMsg \<Rightarrow> bool" where
  "makes create m = (json_ok m \<longrightarrow> create (cJSON_Object (kept_members (json_members m))) = made_ok (json_image m))"

lemmas makes_defs = makes_def members_defs

lemma set_if_status:
  "uc_status c = NUL \<Longrightarrow> set_if (s \<noteq> NUL) (\<lambda>c. UptCmd_set_status c (first_char (kept [s]))) c = c\<lparr>uc_status := image_status s\<rparr>"
  "ur_status r = NUL \<Longrightarrow> set_if (s \<noteq> NUL) (\<lambda>c. UptRes_set_status c (first_char (kept [s]))) r = r\<lparr>ur_status := image_status s\<rparr>"
proof -
  have "image_status NUL = NUL" by code_simp
  then show "uc_status c = NUL \<Longrightarrow> set_if (s \<noteq> NUL) (\<lambda>c. UptCmd_set_status c (first_char (kept [s]))) c = c\<lparr>uc_status := image_status s\<rparr>"
      "ur_status r = NUL \<Longrightarrow> set_if (s \<noteq> NUL) (\<lambda>c. UptRes_set_status c (first_char (kept [s]))) r = r\<lparr>ur_status := image_status s\<rparr>"
    by (auto simp: set_if_def UptCmd_set_status_def UptRes_set_status_def image_status_def)
qed

lemmas create_simps = create_defs json_ok_def oekmsg_ok_def set_if_status

lemma create_sta_cmd: "data m = D_sta_cmd c \<Longrightarrow> makes command_create m"
  by (simp add: makes_defs, cases c, simp add: create_simps sta_command_create_def OekMsg_get_sta_cmd_def StaCmd_new_def cong: if_cong)

lemma create_sta_res: "data m = D_sta_res r \<Longrightarrow> makes response_create m"
  by (simp add: makes_defs, cases r, simp add: create_simps sta_response_create_def OekMsg_get_sta_res_def StaRes_new_def cong: if_cong)

lemma create_upl_cmd: "data m = D_upl_cmd c \<Longrightarrow> makes command_create m"
  by (simp add: makes_defs, cases c, simp add: create_simps upl_command_create_def OekMsg_get_upl_cmd_def UplCmd_new_def cong: if_cong)

lemma create_upl_res: "data m = D_upl_res r \<Longrightarrow> makes response_create m"
  by (simp add: makes_defs, cases r, simp add: create_simps upl_response_create_def OekMsg_get_upl_res_def UplRes_new_def cong: if_cong)

lemma create_upt_cmd: "data m = D_upt_cmd c \<Longrightarrow> makes command_create m"
  by (simp add: makes_defs, cases c, simp add: create_simps upt_command_create_def OekMsg_get_upt_cmd_def UptCmd_new_def UptCmd_set_enlisted_def cong: if_cong)

lemma create_upt_res: "data m = D_upt_res r \<Longrightarrow> makes response_create m"
  by (simp add: makes_defs, cases r, simp add: create_simps upt_response_create_def OekMsg_get_upt_res_def UptRes_new_def cong: if_cong)

lemma create_dis_cmd: "data m = D_dis_cmd c \<Longrightarrow> makes command_create m"
  by (simp add: makes_defs, cases c, simp add: create_simps dis_command_create_def OekMsg_get_dis_cmd_def cong: if_cong)

lemma create_put_res: "data m = D_put_res r \<Longrightarrow> makes response_create m"
  by (simp add: makes_defs, cases r, simp add: create_simps put_response_create_def OekMsg_get_put_res_def PutRes_new_def PutRes_set_lease_id_def cong: if_cong)

lemma create_con_res: "data m = D_con_res r \<Longrightarrow> makes response_create m"
  by (simp add: makes_defs, cases r, simp add: create_simps con_response_create_def OekMsg_get_con_res_def ConRes_new_def ConRes_set_version_maj_def ConRes_set_version_min_def ConRes_set_version_upt_def ConRes_set_sid_def cong: if_cong)

lemma create_con_cmd:
  assumes "data m = D_con_cmd c"
  shows "makes command_create m"
proof (cases "json_ok m")
  case True
  then obtain maj mnr upd ext usr pwd fl where c: "c = \<lparr>cc_major = maj, cc_minor = mnr, cc_update = upd, cc_extentname = Some ext,
      cc_username = Some usr, cc_password = Some pwd, cc_flags = fl\<rparr>"
    using assms by (cases c) (auto simp: json_ok_def)
  show ?thesis
    using assms
    by (simp add: makes_defs c, cases "ConCmd_rollback_on_disconnect c")
      (simp_all add: c create_simps con_command_create_def OekMsg_get_con_cmd_def ConCmd_new_def ConCmd_set_version_maj_def
        ConCmd_set_version_min_def ConCmd_set_version_upt_def ConCmd_set_extentname_def ConCmd_set_username_def ConCmd_set_pwd_def
        cong: if_cong)
qed (simp add: makes_def)

lemma create_err:
  assumes "data m = D_err e"
  shows "makes error_create m"
proof -
  obtain ty emsg where e: "e = \<lparr>er_type = ty, er_emessage = emsg\<rparr>" by (cases e)
  show ?thesis
    using assms
    by (simp add: makes_defs e, cases emsg)
      (simp_all add: create_simps error_create_def OekMsg_get_err_def OekErr_new_def OekErr_set_message_def cong: if_cong)
qed

lemma put_bytes_all:
  assumes "bytes_ok d" "look ms OEJSON_BYTES = (if 0 < nbytes d then Some (bytes_item d) else None)"
  shows "put_bytes_create (cJSON_Object ms) fresh_data =
    made_ok (if nbytes d \<noteq> 0 then fresh_data\<lparr>nbytes := nbytes d, bytes := bytes d\<rparr> else fresh_data)"
proof (cases "nbytes d = 0")
  case False
  then obtain b where b: "bytes d = Some b" "length b = nbytes d" using assms(1) by (auto simp: bytes_ok_def)
  have "length b \<le> modp_b64_decode_len (length (modp_b64_encode b))"
    using length_b64_decode [of "modp_b64_encode b"] by (simp add: b64_roundtrip)
  then show ?thesis
    using assms(2) False b
    by (simp add: put_bytes_create_def bytes_item_def b64_roundtrip DataObject_set_nbytes_def DataObject_set_bytes_def sdo_bytes_cpy_def
        fresh_data_def)
qed (use assms in \<open>simp add: put_bytes_create_def\<close>)

lemma create_put_cmd:
  assumes "data m = D_put_cmd c"
  shows "makes command_create m"
proof (cases "json_ok m")
  case True
  then obtain dur tup d where c: "c = \<lparr>pc_duration = dur, pc_is_tuple = tup, pc_data = Some d\<rparr>" and d: "bytes_ok d" "values_ok tup d"
    using assms by (cases c) (auto simp: json_ok_def split: option.splits)
  define d1 where "d1 = (if nbytes d \<noteq> 0 then fresh_data\<lparr>nbytes := nbytes d, bytes := bytes d\<rparr> else fresh_data)"
  have d1: "array_cache d1 = None" "strings d1 = []" by (simp_all add: d1_def fresh_data_def)
  have im: "image_put_cmd \<lparr>pc_duration = dur, pc_is_tuple = b, pc_data = Some d\<rparr> =
      \<lparr>pc_duration = dur, pc_is_tuple = b, pc_data = Some (d1\<lparr>strings := map kept (strings d)\<rparr>)\<rparr>" for b
    by (simp add: image_put_cmd_def d1_def kept_data_def fresh_data_def)
  have ks: "strings (kept_data d) = map kept (strings d)" by (simp add: kept_data_def)
  note b = put_bytes_all [OF d(1), folded d1_def]
  show ?thesis
    using assms d(2) add_items_all(1) [OF d1(1), of "map kept (strings d)"] add_members_all [OF _ d1(1), of "map kept (strings d)"]
    by (simp add: makes_defs c, cases tup)
      (simp_all add: b im c create_simps values_item_def values_ok_def ks d1(2) put_command_create_def OekMsg_get_put_cmd_def PutCmd_new_def PutCmd_get_data_def
        fresh_copy PutCmd_set_tuple_def PutCmd_set_data_def cong: if_cong)
qed (simp add: makes_def)

lemma set_max_responses_fresh:
  "gc_flags c = 0 \<Longrightarrow> GetCmd_set_max_responses c n = Inr (c\<lparr>gc_max_responses := n\<rparr>)"
  by (simp add: GetCmd_set_max_responses_def join_is_set_def OEC_FLAG_ISSET_def)

lemma create_get_cmd:
  assumes "data m = D_get_cmd c"
  shows "makes command_create m"
proof (cases "json_ok m")
  case True
  then obtain ts where ts: "gc_value_lists c = Some ts" "ts \<noteq> []"
      "\<forall>d \<in> set ts. values_ok (GetCmd_is_tuple c) d \<and> (GetCmd_is_tuple c \<longrightarrow> strings d \<noteq> [])"
      and small: "small_sint (gc_timeout c)" "small_uint (gc_max_responses c)"
    using assms by (auto simp: json_ok_def split: option.splits)
  have k: "map (kept_value \<circ> values_item t) ts = map (values_item t) (map kept_data ts)" for t
    by (simp add: kept_values_item)
  note all = add_templates_items [OF ts(3,2)]
  have jnum: "(case jnum n of cJSON_Number i x \<Rightarrow> f i | _ \<Rightarrow> g) = f n" for n f g by (simp add: jnum_def)
  show ?thesis
    using assms True ts(1,2) small
    by (simp add: makes_defs k, cases "gc_max_responses c = 0")
      (simp_all add: create_simps get_command_create_def OekMsg_get_get_cmd_def GetCmd_new_def image_get_cmd_def all [simplified]
        jnum uint_eq_0 set_if_nonzero [unfolded uint_eq_0] set_max_responses_fresh get_value_lists_def DataObjectList_new_def cong: if_cong)
qed (simp add: makes_def)

lemma create_get_res:
  assumes "data m = D_get_res r"
  shows "makes response_create m"
proof (cases "json_ok m")
  case True
  then obtain d where r: "gr_data r = Some d" "small_uint (gr_nresults r)" "small_uint (cor_id m)" "mtype m = GET_RES"
      and d: "GetRes_return_bytes r \<Longrightarrow> bytes_ok d" "GetRes_return_attrs r \<Longrightarrow> values_ok (GetRes_is_tuple r) d"
    using assms by (auto simp: json_ok_def oekmsg_ok_def split: option.splits)
  let ?b64 = "modp_b64_encode (the (bytes d))"
  define v where "v \<longleftrightarrow> GetRes_return_attrs r \<and> strings d \<noteq> []"
  define w where "w \<longleftrightarrow> GetRes_return_bytes r \<and> 0 < nbytes d"
  define d1 where "d1 = (if v then kept_data d else fresh_data)"
  have d1: "d1 = (if GetRes_return_attrs r then kept_data d else fresh_data)" by (simp add: d1_def v_def kept_data_def fresh_data_def)
  have d1s: "nbytes d1 = 0" "bytes d1 = None" "always_cpy d1" by (simp_all add: d1_def kept_data_def fresh_data_def)
  have b: "w \<Longrightarrow> ?b64 \<noteq> []"
    using d(1) length_b64_encode [of "the (bytes d)"] by (auto simp: w_def bytes_ok_def modp_b64_encode_len_def)
  have bs: "w \<Longrightarrow> c_bind (DataObject_set_nbytes d1 (length ?b64)) (\<lambda>d1. DataObject_set_bytes d1 ?b64) =
      Inr (d1\<lparr>nbytes := length ?b64, bytes := Some ?b64\<rparr>)"
    using b by (simp add: DataObject_set_nbytes_def DataObject_set_bytes_def sdo_bytes_cpy_def d1s)
  have im: "image_get_res r = set_if (v \<and> GetRes_is_tuple r) GetRes_set_tuple \<lparr>gr_nresults = gr_nresults r, gr_flags = 0,
      gr_data = Some (if w then d1\<lparr>nbytes := length ?b64, bytes := Some ?b64\<rparr> else d1)\<rparr>"
    by (simp add: image_get_res_def r(1) Let_def w_def v_def d1 conj_ac)
  have vs: "v \<Longrightarrow> \<not> GetRes_is_tuple r \<Longrightarrow> even (length (strings d))" using d(2) by (simp add: v_def values_ok_def)
  have km: "kept_members (json_members m) = [(OEJSON_TYPE, cJSON_String OEJSON_RESPONSE), (OEJSON_NAME, cJSON_String OEJSON_GET)] @
      opt (uint (cor_id m) \<noteq> 0) OEJSON_CID (jnum (uint (cor_id m))) @ opt (uint (txn_id m) \<noteq> 0) OEJSON_TID (jnum (uint (txn_id m))) @
      opt (GetRes_is_destroyed r) OEJSON_RETURN_IS_DESTROYED cJSON_True @ [(OEJSON_NRESULTS, jnum (uint (gr_nresults r)))] @
      opt w OEJSON_BYTES (bytes_item d) @ opt v OEJSON_VALUES (values_item (GetRes_is_tuple r) (kept_data d))"
    by (simp add: members_defs assms r(1) v_def w_def)
  show ?thesis
    using assms r bs vs
    by (simp add: makes_def km, cases v; cases w; cases "GetRes_is_tuple r")
      (simp_all add: create_defs im OekMsg_get_get_res_def GetRes_get_data_def fresh_copy fill_data d1_def get_response_create_def
        values_item_def bytes_item_def GetRes_new_def GetRes_set_nresults_def GetRes_set_tuple_def GetRes_set_data_def cong: if_cong)
qed (simp add: makes_def)

section \<open>The text of a message\<close>

definition json_of :: "OekMsg \<Rightarrow> string" where
  "json_of m = json_text 0 (cJSON_Object (json_members m))"

lemma json_msg_serialize_ok: "json_ok m \<Longrightarrow> json_msg_serialize m = Inr (0, json_of m)"
  using cJSON_Print_text [OF json_ints] by (simp add: json_serialize get_json_string_def json_of_def)

text \<open>The kind of message a text announces.\<close>

definition announces :: "OekMsg \<Rightarrow> string" where
  "announces m =
     (case data m of
        D_err e \<Rightarrow> OEJSON_ERROR
      | D_con_res r \<Rightarrow> OEJSON_RESPONSE | D_sta_res r \<Rightarrow> OEJSON_RESPONSE | D_upt_res r \<Rightarrow> OEJSON_RESPONSE
      | D_upl_res r \<Rightarrow> OEJSON_RESPONSE | D_get_res r \<Rightarrow> OEJSON_RESPONSE | D_put_res r \<Rightarrow> OEJSON_RESPONSE
      | _ \<Rightarrow> OEJSON_COMMAND)"

lemma announced: "json_ok m \<Longrightarrow> look (kept_members (json_members m)) OEJSON_TYPE = Some (cJSON_String (announces m))"
  by (cases "data m") (simp_all add: json_ok_def json_members_def announces_def head_def kept_members_simps look_simps)

lemma creates:
  assumes "json_ok m"
  shows "(if announces m = OEJSON_COMMAND then command_create else if announces m = OEJSON_RESPONSE then response_create else error_create)
      (cJSON_Object (kept_members (json_members m))) = made_ok (json_image m)"
proof -
  have ne: "OEJSON_RESPONSE \<noteq> OEJSON_COMMAND" "OEJSON_ERROR \<noteq> OEJSON_COMMAND" "OEJSON_ERROR \<noteq> OEJSON_RESPONSE"
    by (simp_all add: oejson_names)
  show ?thesis
    using assms create_err create_con_cmd create_con_res create_sta_cmd create_sta_res create_upt_cmd create_upt_res create_upl_cmd
      create_upl_res create_get_cmd create_get_res create_put_cmd create_put_res create_dis_cmd
    by (cases "data m") (simp_all add: makes_def announces_def ne json_ok_def)
qed

theorem json_create:
  assumes "json_ok m" "ends_number c"
  shows "json_msg_create (json_of m @ c # rest) = made_ok (json_image m)"
proof -
  have "announces m \<in> {OEJSON_COMMAND, OEJSON_RESPONSE, OEJSON_ERROR}" by (auto simp: announces_def split: OekData.splits)
  then show ?thesis
    using creates [OF assms(1)] announced [OF assms(1)] cJSON_Parse_printed [OF json_ints [OF assms(1)] assms(2), of rest]
    by (auto simp: json_msg_create_def json_of_def kept_members_def split: if_splits)
qed

end
