(* ===== verification/Json_Net.thy ===== *)
theory Json_Net
  imports Json_Roundtrip Jcl_Net
begin

text \<open>
  Messages in JSON on a connection (\<^verbatim>\<open>corelib/JsonNet.c\<close>): as for the command language, each text is followed by an empty line
  and a reader waits until it has seen one.  A text that is printed has line ends, but no empty line.
\<close>

definition JsonNet_read_msg ::
  "('e, 'k, 'c, 's) OeSession \<Rightarrow> (int \<times> OekMsg option \<times> ('e, 'k, 'c, 's) OeSession) c_result" where
  "JsonNet_read_msg client =
     (let conn = OeSession_get_conn client in
      if OeNetConn_available conn = 0 then Inr (0, None, client)
      else c_bind (OeNetConn_get_pos conn MSG_END_BYTES) (\<lambda>pos.
        if pos < 0 then Inr (0, None, client)
        else let (input, conn') = OeNetConn_read conn (nat pos + 2); client' = client\<lparr>s_conn := conn'\<rparr>
             in c_bind (json_msg_create (input @ [NUL])) (\<lambda>r.
                  case r of
                    Inl code \<Rightarrow> Inr (- 1, None, client')
                  | Inr msg \<Rightarrow> Inr (1, Some msg, client'))))"

definition json_CID_TAG :: string where
  "json_CID_TAG = [CHR ''c'', CHR ''i'', CHR ''d'', CHR 0x22, CHR '':'']"

text \<open>After the tag one character is skipped: the tab that the printer puts there.\<close>

definition JsonNet_peek_cid :: "('e, 'k, 'c, 's) OeSession \<Rightarrow> (int \<times> oe_id option) c_result" where
  "JsonNet_peek_cid client =
     (let conn = OeSession_get_conn client; avail = int (OeNetConn_available conn) in
      c_bind (OeNetConn_get_pos conn json_CID_TAG) (\<lambda>pos.
        if pos < 0
        then Inr (if OeSession_state_is_set client OENET_CLIENT_CONNECTED then (0, None) else (1, Some 1))
        else let lpos = pos + 6; llen0 = lpos + 8; llen = (if llen0 < avail then llen0 else avail - lpos - 1)
             in c_bind (OeNetConn_peek conn lpos llen) (\<lambda>peekdata.
                  Inr (1, Some (atol (takeWhile (\<lambda>c. c \<noteq> NUL) peekdata))))))"

definition JsonNet_write_msg ::
  "('e, 'k, 'c, 's) OeSession \<Rightarrow> OekMsg \<Rightarrow> (int \<times> ('e, 'k, 'c, 's) OeSession) c_result" where
  "JsonNet_write_msg client msg =
     c_bind (json_msg_serialize msg) (\<lambda>(rc, buff).
       if rc \<noteq> 0 then Inl Assert_Failed
       else c_bind (oec_str_concat [buff, MSG_END_BYTES]) (\<lambda>buff.
            let (rc, conn) = OeNetConn_write (OeSession_get_conn client) buff in
            if rc \<noteq> 0 then Inl Assert_Failed else Inr (rc, client\<lparr>s_conn := conn\<rparr>)))"

section \<open>The end of a text\<close>

text \<open>A text without an empty line, and without a line end as its last character.\<close>

fun solid :: "string \<Rightarrow> bool" where
  "solid [] = True"
| "solid [c] = (c \<noteq> CHR 0x0A)"
| "solid (c # d # s) = ((c = CHR 0x0A \<longrightarrow> d \<noteq> CHR 0x0A) \<and> solid (d # s))"

lemma solid_line: "CHR 0x0A \<notin> set s \<Longrightarrow> solid s"
  by (induction s rule: solid.induct) auto

lemma solid_append: "solid s \<Longrightarrow> solid t \<Longrightarrow> solid (s @ t)"
proof (induction s rule: solid.induct)
  case (2 c)
  then show ?case by (cases t) auto
qed auto

lemma solid_break: "solid (c # s) \<Longrightarrow> c \<noteq> CHR 0x0A \<Longrightarrow> solid (CHR 0x0A # c # s)"
  by simp

lemma solid_Cons: "c \<noteq> CHR 0x0A \<Longrightarrow> solid s \<Longrightarrow> solid (c # s)"
  by (cases s) auto

lemma solid_tl: "solid (c # s) \<Longrightarrow> solid s"
  by (cases s) auto

lemma solid_find:
  "solid t \<Longrightarrow> oe_memmem (t @ MSG_END_BYTES @ rest) MSG_END_BYTES = Some (length t)"
proof (induction "length t" arbitrary: t rule: less_induct)
  case less
  show ?case
  proof (cases "CHR 0x0A \<in> set t")
    case True
    then obtain u v where t: "t = u @ CHR 0x0A # v" "CHR 0x0A \<notin> set u" by (metis split_list_first)
    have "solid (CHR 0x0A # v)" using less.prems unfolding t(1) by (induction u) (auto dest: solid_tl)
    then obtain d w where v: "v = d # w" "d \<noteq> CHR 0x0A" "solid w" by (cases v) (auto dest: solid_tl)
    have "oe_memmem (w @ MSG_END_BYTES @ rest) MSG_END_BYTES = Some (length w)"
      using less.hyps [of w] v by (simp add: t(1))
    then show ?thesis
      unfolding oe_memmem.simps [of "t @ MSG_END_BYTES @ rest"]
      using v(2) by (simp add: t v(1) memchr_append MSG_END_BYTES_def)
  qed (rule find_end)
qed

lemma solid_no_find:
  "solid t \<Longrightarrow> n < length (t @ MSG_END_BYTES) \<Longrightarrow> oe_memmem (take n (t @ MSG_END_BYTES)) MSG_END_BYTES = None"
proof (induction "length t" arbitrary: t n rule: less_induct)
  case less
  show ?case
  proof (cases "CHR 0x0A \<in> set t")
    case True
    then obtain u v where t: "t = u @ CHR 0x0A # v" "CHR 0x0A \<notin> set u" by (metis split_list_first)
    have "solid (CHR 0x0A # v)" using less.prems(1) unfolding t(1) by (induction u) (auto dest: solid_tl)
    then obtain d w where v: "v = d # w" "d \<noteq> CHR 0x0A" "solid w" by (cases v) (auto dest: solid_tl)
    show ?thesis
    proof (cases "n \<le> length u + 1")
      case True
      then have "n < length (u @ MSG_END_BYTES)" by (simp add: MSG_END_BYTES_def)
      moreover have "take n (t @ MSG_END_BYTES) = take n (u @ MSG_END_BYTES)"
        using True by (simp add: t(1) v(1) MSG_END_BYTES_def take_Cons')
      ultimately show ?thesis using find_no_end [OF t(2)] by simp
    next
      case False
      then obtain k where n: "n = length u + 2 + k" by (metis add_2_eq_Suc' le_Suc_ex not_less_eq_eq Suc_eq_plus1)
      have e: "take n (t @ MSG_END_BYTES) = u @ CHR 0x0A # d # take k (w @ MSG_END_BYTES)"
        by (simp add: t(1) v(1) n)
      have "oe_memmem (take k (w @ MSG_END_BYTES)) MSG_END_BYTES = None"
        using less.hyps [of w k] less.prems(2) v(3) by (simp add: t(1) v(1) n)
      then show ?thesis
        unfolding e oe_memmem.simps [of "u @ CHR 0x0A # d # take k (w @ MSG_END_BYTES)"]
        using v(2) t(2) by (simp add: memchr_append MSG_END_BYTES_def)
    qed
  qed (rule find_no_end, use less.prems in simp_all)
qed

section \<open>Printed texts\<close>

lemma escaped_line: "CHR 0x0A \<notin> set (escaped c)"
  by (auto simp: escaped_def plain_char_def is_backslash_def is_quote_def)

lemma quote_line: "CHR 0x0A \<notin> set (quote_text s)"
  using escaped_line by (auto simp: quote_text_def)

lemma dec_line: "CHR 0x0A \<notin> set (dec_int i)"
  using framed_dec_int [of i] by (simp add: framed_def)

lemma solid_joined: "\<forall>x \<in> set xs. solid x \<Longrightarrow> solid (joined '', '' xs)"
  by (induction "'', ''" xs rule: joined.induct) (auto intro!: solid_append solid_Cons)

lemma solid_tabs: "solid s \<Longrightarrow> solid (tabs n @ s)"
  using solid_line [of "tabs n"] by (simp add: solid_append tabs_def)

text \<open>The lines of an object, behind a line end, up to a last line that is not empty.\<close>

lemma solid_members:
  assumes "\<forall>(k, e) \<in> set es. CHR 0x0A \<notin> set k \<and> k \<noteq> [] \<and> solid e" "solid s" "s \<noteq> []" "hd s \<noteq> CHR 0x0A"
  shows "solid (CHR 0x0A # members_text depth True es @ s)"
  using assms(1)
proof (induction es)
  case Nil
  then show ?case using assms(2-4) by (cases s) auto
next
  case (Cons m es)
  obtain k e where m: "m = (k, e)" by (cases m)
  let ?rest = "CHR 0x0A # members_text depth True es @ s"
  let ?line = "tabs depth @ k @ CHR '':'' # CHR 0x09 # e @ (if es \<noteq> [] then '','' else [])"
  have "solid ?line"
    using Cons.prems m solid_line [of k] by (auto intro!: solid_append solid_Cons solid_tabs)
  then have "solid (?line @ ?rest)"
    using Cons.IH Cons.prems by (intro solid_append [of ?line]) auto
  moreover have "?line @ ?rest \<noteq> []" "hd (?line @ ?rest) \<noteq> CHR 0x0A"
    using Cons.prems m by (cases k; simp add: tabs_def; cases depth; auto)+
  ultimately have "solid (CHR 0x0A # ?line @ ?rest)" by (cases "?line @ ?rest") auto
  then show ?case by (simp add: m)
qed

lemma solid_text: "solid (json_text depth v)"
proof (induction v arbitrary: depth)
  case (cJSON_Array xs)
  then show ?case by (auto simp: array_text_def intro!: solid_append solid_joined solid_Cons)
next
  case (cJSON_Object ms)
  have "solid (CHR 0x0A # members_text (depth + 1) True (map (\<lambda>m. (quote_text (fst m), json_text (depth + 1) (snd m))) ms) @ tabs depth @ ''}'')"
    using cJSON_Object quote_line
    by (intro solid_members solid_tabs) (auto simp: quote_text_def tabs_def hd_append split: prod.splits)
  then show ?case by (simp add: object_text_def solid_Cons)
qed (simp_all add: solid_line dec_line quote_line)

section \<open>Round trip\<close>

lemma solid_json: "solid (json_of m)"
  unfolding json_of_def by (rule solid_text)

lemma ends_line: "ends_number (CHR 0x0A)"
  by (simp add: ends_number_def is_digit_def)

lemma json_read_gets:
  assumes ev: "buffers ev received sent" "made_by ev stack (s_conn b)"
    and m: "json_ok m" and r: "on_conn received b = json_of m @ MSG_END_BYTES @ rest"
  shows "\<exists>b'. JsonNet_read_msg b = Inr (1, Some (json_image m), b') \<and> on_conn received b' = rest"
proof -
  let ?n = "length (json_of m) + 2"
  obtain c where c: "OeNetConn_read (s_conn b) ?n = (take ?n (on_conn received b), c)" "made_by ev stack c"
      "received (conn_obj c) = drop ?n (on_conn received b)" "sent (conn_obj c) = on_conn sent b"
    by (rule read_buffers [OF ev])
  have "OeNetConn_get_pos (s_conn b) MSG_END_BYTES = Inr (int (length (json_of m)))"
    by (simp add: get_pos_buffers [OF ev] r solid_find solid_json)
  moreover have "OeNetConn_available (s_conn b) \<noteq> 0"
    by (simp add: available_buffers [OF ev] r MSG_END_BYTES_def)
  moreover have "take ?n (on_conn received b) = json_of m @ MSG_END_BYTES" "drop ?n (on_conn received b) = rest"
    by (simp_all add: r MSG_END_BYTES_def)
  moreover have "json_msg_create ((json_of m @ MSG_END_BYTES) @ [NUL]) = made_ok (json_image m)"
    using json_create [OF m ends_line] by (simp add: MSG_END_BYTES_def)
  ultimately show ?thesis
    using c by (simp add: JsonNet_read_msg_def OeSession_get_conn_def made_ok_def)
qed

lemma json_read_waits:
  assumes ev: "buffers ev received sent" "made_by ev stack (s_conn b)"
    and n: "n < length (json_of m @ MSG_END_BYTES)" and r: "on_conn received b = take n (json_of m @ MSG_END_BYTES)"
  shows "JsonNet_read_msg b = Inr (0, None, b)"
  using solid_no_find [OF solid_json n]
  by (auto simp: JsonNet_read_msg_def OeSession_get_conn_def get_pos_buffers [OF ev] r Let_def)

text \<open>C11: a message whose numbers an \<^verbatim>\<open>int\<close> holds, and that has the data its kind needs, is written as one text on the connection,
  and from that text the reader gets its image, leaving the bytes behind it; as long as only a part of the text has arrived, the
  reader takes nothing.  The image is the message up to what the protocol loses: the control characters of a text that have no
  escape, the correlation identifier of an error and of a disconnect, the mark of a removed record and the transaction of a
  response to a get, whose bytes stay in base 64, the extent name of a response to a connect and the option of a transaction.\<close>

theorem json_roundtrip:
  assumes "buffers ev received sent" "made_by ev stack (s_conn a)" "json_ok m"
  shows "\<exists>a' w. JsonNet_write_msg a m = Inr (0, a') \<and> on_conn sent a' = on_conn sent a @ w \<and>
    (\<forall>b rest. made_by ev stack (s_conn b) \<longrightarrow> on_conn received b = w @ rest \<longrightarrow>
       (\<exists>b'. JsonNet_read_msg b = Inr (1, Some (json_image m), b') \<and> on_conn received b' = rest)) \<and>
    (\<forall>b n. made_by ev stack (s_conn b) \<longrightarrow> n < length w \<longrightarrow> on_conn received b = take n w \<longrightarrow>
       JsonNet_read_msg b = Inr (0, None, b))"
proof -
  let ?w = "json_of m @ MSG_END_BYTES"
  obtain c where c: "OeNetConn_write (s_conn a) ?w = (0, c)" "made_by ev stack c"
      "sent (conn_obj c) = on_conn sent a @ ?w" "received (conn_obj c) = on_conn received a"
    by (rule write_buffers [OF assms(1,2)])
  have "JsonNet_write_msg a m = Inr (0, a\<lparr>s_conn := c\<rparr>)"
    using c(1)
    by (simp add: JsonNet_write_msg_def json_msg_serialize_ok [OF assms(3)] oec_str_concat_def MSG_END_BYTES_def OeSession_get_conn_def)
  moreover have "\<exists>b'. JsonNet_read_msg b = Inr (1, Some (json_image m), b') \<and> on_conn received b' = rest"
    if "made_by ev stack (s_conn b)" "on_conn received b = ?w @ rest" for b rest
    using json_read_gets [OF assms(1) that(1) assms(3)] that(2) by simp
  ultimately show ?thesis
    using c(3) json_read_waits [OF assms(1)] by (intro exI [of _ "a\<lparr>s_conn := c\<rparr>"] exI [of _ ?w]) auto
qed

definition sample_put :: OekMsg where
  "sample_put = \<lparr>mtype = PUT_CMD, cor_id = 7, txn_id = 0, valid = True, data = D_put_cmd \<lparr>pc_duration = 30, pc_is_tuple = True,
     pc_data = Some \<lparr>strings = [[CHR ''a'', CHR 0x0A, CHR 0x22], ''1''], nbytes = 3, bytes = Some ''xyz'', array_cache = None,
       always_cpy = True\<rparr>\<rparr>\<rparr>"

lemma sample_put_ok: "json_ok sample_put" "json_image sample_put = sample_put"
  by (simp_all add: sample_put_def json_ok_def oekmsg_ok_def small_uint_def small_sint_def int_fits_def bytes_ok_def values_ok_def
      modp_b64_encode_len_def json_image_def image_put_cmd_def kept_data_def fresh_data_def kept_def escaped_def plain_char_def
      is_quote_def is_backslash_def)

theorem json_roundtrip_witness:
  "\<exists>a' b' w. JsonNet_write_msg (queue_session []) sample_put = Inr (0, a') \<and> on_conn snd a' = w \<and>
     JsonNet_read_msg (queue_session w) = Inr (1, Some sample_put, b') \<and> on_conn fst b' = []"
proof -
  obtain a' w where a': "JsonNet_write_msg (queue_session []) sample_put = Inr (0, a')"
      "on_conn snd a' = on_conn snd (queue_session []) @ w"
      and r: "\<And>b rest. made_by queue_events (\<lambda>_. NUL) (s_conn b) \<Longrightarrow> on_conn fst b = w @ rest \<Longrightarrow>
        (\<exists>b'. JsonNet_read_msg (b :: (string \<times> string, nat, nat, nat) OeSession) =
           Inr (1, Some (json_image sample_put), b') \<and> on_conn fst b' = rest)"
    using json_roundtrip [OF queue_buffers queue_session_made sample_put_ok(1), of "[]"] by blast
  show ?thesis using a' r [OF queue_session_made, of w "[]"] by (auto simp: sample_put_ok(2))
qed

section \<open>Correlation identifiers\<close>

text \<open>The members in front of the correlation identifier of a response or an error.\<close>

definition before_cid :: "OekMsg \<Rightarrow> (string \<times> cJSON) list option" where
  "before_cid m =
     (case data m of
        D_err e \<Rightarrow> Some [(OEJSON_TYPE, cJSON_String OEJSON_ERROR)]
      | D_con_res r \<Rightarrow> Some (head OEJSON_RESPONSE OEJSON_CON @ [(OEJSON_SID, jnum (uint (cr_session_id r)))] @
          version_of (cr_major r) (cr_minor r) (cr_update r))
      | D_put_res r \<Rightarrow> Some (head OEJSON_RESPONSE OEJSON_PUT @ [(OEJSON_LID, jnum (uint (pr_lease_id r)))])
      | D_get_res r \<Rightarrow> Some (head OEJSON_RESPONSE OEJSON_GET)
      | D_sta_res r \<Rightarrow> Some (head OEJSON_RESPONSE OEJSON_STA)
      | D_upl_res r \<Rightarrow> Some (head OEJSON_RESPONSE OEJSON_UPL)
      | D_upt_res r \<Rightarrow> Some (head OEJSON_RESPONSE OEJSON_UPT)
      | _ \<Rightarrow> None)"

definition lines :: "(string \<times> cJSON) list \<Rightarrow> string" where
  "lines ms = concat (map (\<lambda>(k, v). CHR 0x09 # quote_text k @ CHR '':'' # CHR 0x09 # json_text 1 v @ [CHR '','', CHR 0x0A]) ms)"

lemma members_text_split:
  "members_text 1 True (map (\<lambda>m. (quote_text (fst m), json_text 1 (snd m))) (ms @ (k, v) # ns)) =
   lines ms @ CHR 0x09 # quote_text k @ CHR '':'' # CHR 0x09 # json_text 1 v @ (if ns \<noteq> [] then '','' else []) @
   CHR 0x0A # members_text 1 True (map (\<lambda>m. (quote_text (fst m), json_text 1 (snd m))) ns)"
  by (induction ms) (auto simp: lines_def tabs_def)

definition text_before :: "(string \<times> cJSON) list \<Rightarrow> string" where
  "text_before ms = CHR ''{'' # CHR 0x0A # lines ms @ [CHR 0x09, CHR 0x22]"

lemma before_cid_members:
  "before_cid m = Some ms \<Longrightarrow> cor_id m \<noteq> 0 \<Longrightarrow> \<exists>ns. json_members m = ms @ (OEJSON_CID, jnum (uint (cor_id m))) # ns"
  by (cases "data m") (auto simp: before_cid_def json_members_def cid_of_def nonzero_def opt_def uint_eq_0)

lemma quote_name: "\<forall>c \<in> set s. plain_char c \<Longrightarrow> quote_text s = CHR 0x22 # s @ [CHR 0x22]"
  by (induction s) (simp_all add: quote_text_def escaped_def)

lemma cid_in_text:
  assumes "before_cid m = Some ms" "cor_id m \<noteq> 0"
  shows "\<exists>c tail. json_of m = text_before ms @ json_CID_TAG @ CHR 0x09 # dec_int (uint (cor_id m)) @ c # tail \<and>
    \<not> is_digit c \<and> tail \<noteq> []"
proof -
  obtain ns where ns: "json_members m = ms @ (OEJSON_CID, jnum (uint (cor_id m))) # ns" using before_cid_members [OF assms] by blast
  have "quote_text OEJSON_CID = CHR 0x22 # ''cid'' @ [CHR 0x22]"
    unfolding OEJSON_CID_def by (rule quote_name) (simp add: plain_char_def is_quote_def is_backslash_def)
  then have "json_of m = text_before ms @ json_CID_TAG @ CHR 0x09 # dec_int (uint (cor_id m)) @ (if ns \<noteq> [] then '','' else []) @
      CHR 0x0A # members_text 1 True (map (\<lambda>m. (quote_text (fst m), json_text 1 (snd m))) ns) @ ''}''"
    using members_text_split [of ms OEJSON_CID "jnum (uint (cor_id m))" ns]
    by (simp add: json_of_def ns object_text_def text_before_def json_CID_TAG_def jnum_def tabs_def)
  then show ?thesis by (cases "ns = []") (auto simp: is_digit_def)
qed

lemma no_c_number: "CHR ''c'' \<notin> set (dec_int n)"
  using dec_nat_digits [of "CHR ''c''"] by (auto simp: dec_int_def is_digit_def)

lemma find_tag: "CHR ''c'' \<notin> set t \<Longrightarrow> oe_memmem (t @ json_CID_TAG @ rest) json_CID_TAG = Some (length t)"
  unfolding oe_memmem.simps [of "t @ json_CID_TAG @ rest"] by (simp add: json_CID_TAG_def memchr_append)

lemma quote_plain:
  "quote_text OEJSON_TYPE = CHR 0x22 # OEJSON_TYPE @ [CHR 0x22]" "quote_text OEJSON_NAME = CHR 0x22 # OEJSON_NAME @ [CHR 0x22]"
  "quote_text OEJSON_RESPONSE = CHR 0x22 # OEJSON_RESPONSE @ [CHR 0x22]" "quote_text OEJSON_ERROR = CHR 0x22 # OEJSON_ERROR @ [CHR 0x22]"
  "quote_text OEJSON_CON = CHR 0x22 # OEJSON_CON @ [CHR 0x22]" "quote_text OEJSON_PUT = CHR 0x22 # OEJSON_PUT @ [CHR 0x22]"
  "quote_text OEJSON_GET = CHR 0x22 # OEJSON_GET @ [CHR 0x22]" "quote_text OEJSON_STA = CHR 0x22 # OEJSON_STA @ [CHR 0x22]"
  "quote_text OEJSON_UPL = CHR 0x22 # OEJSON_UPL @ [CHR 0x22]" "quote_text OEJSON_UPT = CHR 0x22 # OEJSON_UPT @ [CHR 0x22]"
  "quote_text OEJSON_SID = CHR 0x22 # OEJSON_SID @ [CHR 0x22]" "quote_text OEJSON_LID = CHR 0x22 # OEJSON_LID @ [CHR 0x22]"
  "quote_text OEJSON_VERSION = CHR 0x22 # OEJSON_VERSION @ [CHR 0x22]" "quote_text OEJSON_MAJ = CHR 0x22 # OEJSON_MAJ @ [CHR 0x22]"
  "quote_text OEJSON_MIN = CHR 0x22 # OEJSON_MIN @ [CHR 0x22]" "quote_text OEJSON_SEQ = CHR 0x22 # OEJSON_SEQ @ [CHR 0x22]"
  by (rule quote_name, simp add: oejson_names plain_char_def is_quote_def is_backslash_def)+

lemma find_cid:
  assumes "before_cid m = Some ms"
  shows "oe_memmem (text_before ms @ json_CID_TAG @ rest) json_CID_TAG = Some (length (text_before ms))"
proof (cases "\<exists>r. data m = D_con_res r")
  case False
  then have "CHR ''c'' \<notin> set (text_before ms)"
    using assms no_c_number
    by (auto simp: before_cid_def head_def text_before_def lines_def jnum_def quote_plain split: OekData.splits)
      (auto simp: oejson_names)
  then show ?thesis by (rule find_tag)
next
  case True
  then obtain r where r: "data m = D_con_res r" by blast
  define u where "u = [CHR ''{'', CHR 0x0A, CHR 0x09, CHR 0x22, CHR ''t'', CHR 0x22, CHR '':'', CHR 0x09, CHR 0x22, CHR ''r'', CHR ''e'',
    CHR ''s'', CHR 0x22, CHR '','', CHR 0x0A, CHR 0x09, CHR 0x22, CHR ''n'', CHR 0x22, CHR '':'', CHR 0x09, CHR 0x22]"
  define v where "v = lines ((OEJSON_SID, jnum (uint (cr_session_id r))) # version_of (cr_major r) (cr_minor r) (cr_update r)) @
    [CHR 0x09, CHR 0x22]"
  have ms: "ms = head OEJSON_RESPONSE OEJSON_CON @ (OEJSON_SID, jnum (uint (cr_session_id r))) #
      version_of (cr_major r) (cr_minor r) (cr_update r)"
    using assms r by (simp add: before_cid_def)
  have l: "lines ((k, x) # ks) = CHR 0x09 # quote_text k @ CHR '':'' # CHR 0x09 # json_text 1 x @ CHR '','' # CHR 0x0A # lines ks" for k x ks
    by (simp add: lines_def)
  have v: "text_before ms = u @ ''conne'' @ [CHR ''c'', CHR ''t'', CHR 0x22, CHR '','', CHR 0x0A] @ v"
    unfolding ms v_def u_def text_before_def head_def by (simp add: l quote_plain) (simp add: oejson_names)
  have nc: "CHR ''c'' \<notin> set v"
    using no_c_number
    by (simp add: v_def lines_def jnum_def version_of_def object_text_def tabs_def quote_plain) (simp add: oejson_names)
  have "oe_memmem (CHR ''c'' # CHR ''t'' # CHR 0x22 # CHR '','' # CHR 0x0A # v @ json_CID_TAG @ rest) json_CID_TAG = Some (5 + length v)"
    unfolding oe_memmem.simps [of "CHR ''c'' # s" for s] using find_tag [OF nc] by (simp add: json_CID_TAG_def)
  moreover have "CHR ''c'' \<notin> set u" by (simp add: u_def)
  ultimately show ?thesis
    unfolding v oe_memmem.simps [of "(u @ s) @ t" for s t] by (simp add: json_CID_TAG_def memchr_append)
qed

text \<open>A client finds the correlation identifier of every response and every error in front of its input, if it has one: no text
  of the message comes before it, and the name of a connect, in which the search skips characters, does not hide it.\<close>

theorem json_peek_cid:
  assumes ev: "buffers ev received sent" "made_by ev stack (s_conn b)"
    and m: "json_ok m" "before_cid m \<noteq> None" "cor_id m \<noteq> 0"
    and r: "on_conn received b = json_of m @ MSG_END_BYTES @ rest"
  shows "JsonNet_peek_cid b = Inr (1, Some (cor_id m))"
proof -
  obtain ms where ms: "before_cid m = Some ms" using m(2) by blast
  obtain c tail where t: "json_of m = text_before ms @ json_CID_TAG @ CHR 0x09 # dec_int (uint (cor_id m)) @ c # tail" "\<not> is_digit c"
      "tail \<noteq> []"
    using cid_in_text [OF ms m(3)] by blast
  let ?pre = "text_before ms @ json_CID_TAG @ [CHR 0x09]"
  have small: "small_id (cor_id m)" using m(1) by (simp add: json_ok_def small_uint_def small_id_def)
  have r6: "on_conn received b = ?pre @ lld (cor_id m) @ c # tail @ MSG_END_BYTES @ rest" by (simp add: r t(1) lld_small [OF small])
  have len: "length ?pre = length (text_before ms) + 6" by (simp add: json_CID_TAG_def)
  have "OeNetConn_get_pos (s_conn b) json_CID_TAG = Inr (int (length (text_before ms)))"
    using find_cid [OF ms] by (simp add: get_pos_buffers [OF ev] r6)
  then have "JsonNet_peek_cid b = c_bind (OeNetConn_peek (s_conn b) (int (length ?pre))
      (peek_len (int (length ?pre)) (int (length (on_conn received b)))))
      (\<lambda>peekdata. Inr (1, Some (atol (takeWhile (\<lambda>c. c \<noteq> NUL) peekdata))))"
    unfolding len by (simp add: JsonNet_peek_cid_def OeSession_get_conn_def available_buffers [OF ev] peek_len_def Let_def)
  also have "\<dots> = Inr (1, Some (cor_id m))"
    by (rule peek_number [OF ev r6 _ small t(2)]) (use len t(3) in simp_all)
  finally show ?thesis .
qed

definition sample_connected :: OekMsg where
  "sample_connected = \<lparr>mtype = CON_RES, cor_id = 42, txn_id = 0, valid = True, data = D_con_res \<lparr>cr_major = 0, cr_minor = 1,
     cr_update = 2, cr_extentname = None, cr_session_id = 5\<rparr>\<rparr>"

theorem json_peek_cid_witness:
  "JsonNet_peek_cid (queue_session (json_of sample_connected @ MSG_END_BYTES)) = Inr (1, Some 42)"
proof -
  have "json_ok sample_connected" "before_cid sample_connected \<noteq> None" "cor_id sample_connected \<noteq> 0"
    by (simp_all add: sample_connected_def json_ok_def oekmsg_ok_def small_uint_def before_cid_def)
  from json_peek_cid [OF queue_buffers queue_session_made this, of "json_of sample_connected @ MSG_END_BYTES" "[]"]
  show ?thesis by (simp add: sample_connected_def)
qed

end
