(* ===== verification/Server_Steps.thy ===== *)
theory Server_Steps
  imports Oep_Server Json_Net
begin

text \<open>
  What the server of \<^verbatim>\<open>corelib/OepServer.c\<close> needs of a protocol, and what each of its operations keeps and adds.

  A server may use several protocols; \<open>protocol\<close> is what it relies on, and the functions of JCL are an instance.
\<close>

section \<open>The protocol\<close>

locale protocol =
  fixes read_msg :: "('e, 'k, 'w) srv_session \<Rightarrow> (int \<times> OekMsg option \<times> ('e, 'k, 'w) srv_session) c_result"
    and write_msg :: "('e, 'k, 'w) srv_session \<Rightarrow> OekMsg \<Rightarrow> (int \<times> ('e, 'k, 'w) srv_session) c_result"
  assumes read_keeps: "read_msg s = Inr (rc, mo, s') \<Longrightarrow> s' = s\<lparr>s_conn := s_conn s'\<rparr>"
    and write_keeps: "write_msg s msg = Inr (rc, s') \<Longrightarrow> s' = s\<lparr>s_conn := s_conn s'\<rparr>"

definition speaks ::
  "('e, 'k, 'w) OepServer \<Rightarrow> (('e, 'k, 'w) srv_session \<Rightarrow> (int \<times> OekMsg option \<times> ('e, 'k, 'w) srv_session) c_result) \<Rightarrow>
   (('e, 'k, 'w) srv_session \<Rightarrow> OekMsg \<Rightarrow> (int \<times> ('e, 'k, 'w) srv_session) c_result) \<Rightarrow> bool" where
  "speaks srv read_msg write_msg = (os_read_fun srv = read_msg \<and> os_write_fun srv = write_msg)"

section \<open>What a step keeps and adds\<close>

text \<open>A command that came from the client is answered through its callback; a rollback of the server's own has none.\<close>

fun for_client :: "'k serve \<Rightarrow> OEK_Context option" where
  "for_client (Command k ctx) = (if cx_write_response_cb ctx then Some ctx else None)"
| "for_client _ = None"

definition asked :: "'k serve list \<Rightarrow> OEK_Context list" where
  "asked es = List.map_filter for_client es"

lemma asked_simps [simp]:
  "asked [] = []" "asked (es @ fs) = asked es @ asked fs"
  "asked (Sent m # es) = asked es" "asked (Close # es) = asked es" "asked (Released # es) = asked es"
  "asked (Command k ctx # es) = (if cx_write_response_cb ctx then ctx # asked es else asked es)"
  by (simp_all add: asked_def map_filter_simps) (simp add: List.map_filter_def)

text \<open>A session once connected stays with its kernel and subject; \<open>admitted\<close> says what that is worth.\<close>

definition keeps :: "('e, 'k, 'w) srv_session \<Rightarrow> ('e, 'k, 'w) srv_session \<Rightarrow> bool" where
  "keeps s s' =
     (OeSession_state_is_set s OENET_CLIENT_CONNECTED \<longrightarrow>
        OeSession_state_is_set s' OENET_CLIENT_CONNECTED \<and> s_subject s' = s_subject s \<and> s_sess_context s' = s_sess_context s)"

definition admitted :: "('e, 'k, 'w) OepServer \<Rightarrow> ('e, 'k, 'w) srv_session \<Rightarrow> bool" where
  "admitted srv s =
     (OeSession_state_is_set s OENET_CLIENT_CONNECTED \<longrightarrow>
        (\<exists>extentname k. get_kernel srv extentname = Some k \<and> s_sess_context s = Some k) \<and>
        (os_security_context srv \<noteq> None \<longrightarrow> (\<exists>subject. s_subject s = Some subject \<and> Subject_is_authenticated subject)))"

definition entitled ::
  "('e, 'k, 'w) OepServer \<Rightarrow> 'w \<Rightarrow> ('e, 'k, 'w) srv_session \<Rightarrow> 'k serve \<Rightarrow> bool" where
  "entitled srv w s e =
     (case e of
        Command k ctx \<Rightarrow>
          cx_write_response_cb ctx \<longrightarrow>
          OeSession_state_is_set s OENET_CLIENT_CONNECTED \<and> s_sess_context s = Some k \<and>
          (\<exists>msg. cx_cmd_msg ctx = Some msg \<and> OekMsg_get_type msg \<in> {GET_CMD, PUT_CMD, STA_CMD, UPT_CMD, UPL_CMD} \<and>
             (\<forall>c. os_security_context srv = Some c \<longrightarrow>
                (\<exists>subject. s_subject s = Some subject \<and> Subject_is_authenticated subject \<and>
                   SecurityContext_authorize w c subject msg = ALLOW)))
      | _ \<Rightarrow> True)"

text \<open>A step of the server: effects are added, those added are entitled, and the tasks grow with the commands.\<close>

definition advances ::
  "('e, 'k, 'w) OepServer \<Rightarrow> 'w \<Rightarrow> ('e, 'k, 'w) serving \<Rightarrow> ('e, 'k, 'w) serving \<Rightarrow> bool" where
  "advances srv w st st' =
     (\<exists>new. sv_out st' = sv_out st @ new \<and> Released \<notin> set new \<and> sv_sessions st' = sv_sessions st \<and>
        (\<forall>e \<in> set new. entitled srv w (sv_session st') e) \<and>
        sint (s_outstanding_task_count (sv_session st')) =
          sint (s_outstanding_task_count (sv_session st)) + int (length (asked new)) \<and>
        keeps (sv_session st) (sv_session st') \<and> s_sid (sv_session st') = s_sid (sv_session st) \<and>
        (admitted srv (sv_session st) \<longrightarrow> admitted srv (sv_session st')))"

lemma entitled_keeps: "entitled srv w s e \<Longrightarrow> keeps s s' \<Longrightarrow> entitled srv w s' e"
  by (cases e) (auto simp: entitled_def keeps_def)

lemma entitled_plain [simp]:
  "entitled srv w s (Sent m)" "entitled srv w s Close" "entitled srv w s Released"
  "\<not> cx_write_response_cb ctx \<Longrightarrow> entitled srv w s (Command k ctx)"
  by (simp_all add: entitled_def)

lemma keeps_trans: "keeps s s' \<Longrightarrow> keeps s' s'' \<Longrightarrow> keeps s s''"
  by (auto simp: keeps_def)

lemma advances_refl [simp]: "advances srv w st st"
  by (simp add: advances_def keeps_def)

lemma advances_trans:
  assumes "advances srv w st st'" "advances srv w st' st''"
  shows "advances srv w st st''"
proof -
  obtain new where n: "sv_out st' = sv_out st @ new" "Released \<notin> set new" "sv_sessions st' = sv_sessions st" "\<forall>e \<in> set new. entitled srv w (sv_session st') e"
      "sint (s_outstanding_task_count (sv_session st')) =
        sint (s_outstanding_task_count (sv_session st)) + int (length (asked new))"
      "keeps (sv_session st) (sv_session st')" "s_sid (sv_session st') = s_sid (sv_session st)"
      "admitted srv (sv_session st) \<longrightarrow> admitted srv (sv_session st')"
    using assms(1) unfolding advances_def by blast
  obtain new' where m: "sv_out st'' = sv_out st' @ new'" "Released \<notin> set new'" "sv_sessions st'' = sv_sessions st'"
      "\<forall>e \<in> set new'. entitled srv w (sv_session st'') e"
      "sint (s_outstanding_task_count (sv_session st'')) =
        sint (s_outstanding_task_count (sv_session st')) + int (length (asked new'))"
      "keeps (sv_session st') (sv_session st'')" "s_sid (sv_session st'') = s_sid (sv_session st')"
      "admitted srv (sv_session st') \<longrightarrow> admitted srv (sv_session st'')"
    using assms(2) unfolding advances_def by blast
  show ?thesis
    unfolding advances_def
    using n m entitled_keeps [OF _ m(6)] keeps_trans [OF n(6) m(6)] by (intro exI [of _ "new @ new'"]) auto
qed

text \<open>Steps that leave alone what \<^const>\<open>advances\<close> looks at, and only send or close.\<close>

definition undisturbed :: "('e, 'k, 'w) serving \<Rightarrow> ('e, 'k, 'w) serving \<Rightarrow> bool" where
  "undisturbed st st' =
     (\<exists>new. sv_out st' = sv_out st @ new \<and> (\<forall>e \<in> set new. for_client e = None \<and> e \<noteq> Released) \<and>
        sv_sessions st' = sv_sessions st \<and>
        s_subject (sv_session st') = s_subject (sv_session st) \<and>
        s_sess_context (sv_session st') = s_sess_context (sv_session st) \<and>
        s_outstanding_task_count (sv_session st') = s_outstanding_task_count (sv_session st) \<and>
        s_sid (sv_session st') = s_sid (sv_session st) \<and>
        OeSession_state_is_set (sv_session st') OENET_CLIENT_CONNECTED =
          OeSession_state_is_set (sv_session st) OENET_CLIENT_CONNECTED)"

lemma asked_quiet: "\<forall>e \<in> set es. for_client e = None \<and> e \<noteq> Released \<Longrightarrow> asked es = []"
  by (induction es) (auto simp: asked_def map_filter_simps)

lemma entitled_quiet: "for_client e = None \<Longrightarrow> entitled srv w s e"
  by (cases e) (simp_all split: if_splits)

lemma quiet_advances: "undisturbed st st' \<Longrightarrow> advances srv w st st'"
  unfolding undisturbed_def advances_def keeps_def admitted_def
  by (elim exE conjE, rule exI, intro conjI) (force simp: asked_quiet entitled_quiet)+

lemma undisturbed_refl [simp]: "undisturbed st st"
  by (simp add: undisturbed_def)

lemma undisturbed_trans: "undisturbed st st' \<Longrightarrow> undisturbed st' st'' \<Longrightarrow> undisturbed st st''"
  unfolding undisturbed_def by (elim exE conjE, rule exI [of _ "_ @ _"]) auto

lemma quiet_cleanup: "undisturbed st (OeNet_cleanup_conn st)"
  by (auto simp: undisturbed_def OeNet_cleanup_conn_def log_effect_def with_session_def state_flags)
    (simp_all add: OeSession_state_set_def)

section \<open>Rollbacks\<close>

text \<open>The command that the server gives a kernel for a transaction of a client that has gone.\<close>

definition rollback_of :: "oe_id \<Rightarrow> OEK_Context" where
  "rollback_of tid = OEK_Context_new\<lparr>cx_kernel := True, cx_cmd_msg := Some (message (Cancel_Txn 0 tid))\<rparr>"

lemma rollback_context_of: "rollback_context tid = Inr (rollback_of tid)"
  by (simp add: rollback_context_def rollback_of_def OekMsg_new_def OekMsg_settype_def OekMsg_set_tid_def
      OekMsg_get_upt_cmd_def OekMsg_get_type_def UptCmd_set_status_def envelope_def Let_def)

lemma rollback_of_cb [simp]: "\<not> cx_write_response_cb (rollback_of tid)"
  by (simp add: rollback_of_def OEK_Context_new_def)

lemma rollback_loop_out:
  "rollback_loop (Some k) ts st = Inr (st\<lparr>sv_out := sv_out st @ map (\<lambda>t. Command k (rollback_of t)) ts\<rparr>)"
  by (induction ts arbitrary: st) (simp_all add: rollback_context_of log_effect_def)

lemma asked_rollbacks [simp]: "asked (map (\<lambda>t. Command k (rollback_of t)) ts) = []"
  by (induction ts) simp_all

lemma rollback_transactions_out:
  assumes "rollback_transactions st = Inr st'"
  shows "\<exists>k ts b. st' = st\<lparr>sv_txns_freed := b, sv_out := sv_out st @ map (\<lambda>t. Command k (rollback_of t)) ts\<rparr>"
proof (cases "\<not> OeSession_rb_on_disconnect (sv_session st) \<or> OeSession_get_tids (sv_session st) = None")
  case True
  then have "st' = st" using assms by (auto simp: rollback_transactions_def split: if_splits)
  then show ?thesis by (intro exI [of _ undefined] exI [of _ "[]"] exI [of _ "sv_txns_freed st"]) simp
next
  case False
  then obtain txns where t: "OeSession_rb_on_disconnect (sv_session st)" "OeSession_get_tids (sv_session st) = Some txns"
      "\<not> sv_txns_freed st"
    using assms by (auto simp: rollback_transactions_def split: if_splits)
  show ?thesis
  proof (cases "OeSession_get_sess_context (sv_session st)")
    case None
    then have "Set_toArray txns = [] \<and> st' = st\<lparr>sv_txns_freed := True\<rparr>"
      using assms t by (cases "Set_toArray txns") (auto simp: rollback_transactions_def)
    then show ?thesis by (intro exI [of _ undefined] exI [of _ "[]"] exI [of _ True]) simp
  next
    case (Some k)
    then show ?thesis
      using assms t by (intro exI [of _ k] exI [of _ "Set_toArray txns"] exI [of _ True])
        (auto simp: rollback_transactions_def rollback_loop_out)
  qed
qed

lemma rollback_quiet: "rollback_transactions st = Inr st' \<Longrightarrow> undisturbed st st'"
  using rollback_transactions_out [of st st'] by (auto simp: undisturbed_def)

lemma srv_cleanup_quiet: "srv_cleanup st = Inr st' \<Longrightarrow> undisturbed st st'"
  using rollback_quiet by (auto simp: srv_cleanup_def split: if_splits)

definition with_tasks :: "32 word \<Rightarrow> ('e, 'k, 'w) serving \<Rightarrow> ('e, 'k, 'w) serving" where
  "with_tasks n = with_session (\<lambda>s. s\<lparr>s_outstanding_task_count := n\<rparr>)"

lemma update_pending_quiet: "update_pending_txns ctx st = Inr st' \<Longrightarrow> undisturbed st st'"
  by (auto simp: update_pending_txns_def undisturbed_def OeSession_save_tid_def OeSession_clear_tid_def c_bind_Inr Let_def
      OeSession_state_is_set_def split: option.splits list.splits if_splits prod.splits)

section \<open>Steps of the server\<close>

context protocol
begin

lemma srv_write_quiet:
  assumes "speaks srv read_msg write_msg" "srv_write srv msg st = Inr st'"
  shows "undisturbed st st'"
proof -
  obtain rc s where w: "write_msg (sv_session st) msg = Inr (rc, s)" "st' = log_effect (Sent msg) (st\<lparr>sv_session := s\<rparr>)"
    using assms by (auto simp: srv_write_def speaks_def c_bind_Inr)
  have "s = (sv_session st)\<lparr>s_conn := s_conn s\<rparr>" by (rule write_keeps [OF w(1)])
  then obtain c where "s = (sv_session st)\<lparr>s_conn := c\<rparr>" by blast
  then show ?thesis using w(2) by (simp add: undisturbed_def log_effect_def OeSession_state_is_set_def)
qed

lemma send_err_quiet:
  assumes "speaks srv read_msg write_msg" "srv_send_err srv emsg cid st = Inr st'"
  shows "undisturbed st st'"
  using assms(2) srv_write_quiet [OF assms(1)] by (auto simp: srv_send_err_def c_bind_Inr)

lemma refuse_quiet:
  assumes "speaks srv read_msg write_msg" "refuse srv emsg msg st = Inr (ok, st')"
  shows "undisturbed st st'" "\<not> ok"
  using assms(2) send_err_quiet [OF assms(1)] by (auto simp: refuse_def c_bind_Inr)

lemma con_timeout_quiet:
  assumes "speaks srv read_msg write_msg" "srv_con_timeout_cb srv st = Inr st'"
  shows "undisturbed st st'"
proof -
  define st1 where "st1 = with_session (\<lambda>s. s\<lparr>s_conn := OeNetConn_clear_timeout (s_conn s)\<rparr>) st"
  have q: "undisturbed st st1" by (simp add: st1_def undisturbed_def with_session_def OeSession_state_is_set_def)
  have "st' = st1 \<or> (\<exists>msg st2. srv_write srv msg st1 = Inr st2 \<and> st' = OeNet_cleanup_conn st2)"
    using assms(2) unfolding srv_con_timeout_cb_def st1_def [symmetric] Let_def
    by (auto simp: c_bind_Inr split: if_splits)
  then have "undisturbed st1 st'"
    using srv_write_quiet [OF assms(1)] quiet_cleanup undisturbed_trans undisturbed_refl by metis
  with q show ?thesis by (rule undisturbed_trans)
qed

text \<open>A session that was not connected becomes so with a kernel, and after a login if the server asks for one.\<close>

lemma con_handler_advances:
  assumes sp: "speaks srv read_msg write_msg" and h: "con_handler srv w msg st = Inr (ok, st')"
  shows "advances srv w st st'"
proof (cases "OeSession_state_is_set (sv_session st) OENET_CLIENT_CONNECTED")
  case True
  then have "refuse srv OEP_SERVER_ALREADY_CONNECTED msg st = Inr (ok, st')" using h by (simp add: con_handler_def)
  then show ?thesis by (rule quiet_advances [OF refuse_quiet(1) [OF sp]])
next
  case nc: False
  have set_subject: "advances srv w st (with_session (\<lambda>s. OeSession_set_subject s x) st)" for x
    using nc by (simp add: advances_def keeps_def admitted_def with_session_def OeSession_set_subject_def OeSession_state_is_set_def)
  obtain cmd where cmd: "OekMsg_get_con_cmd msg = Inr cmd" using h nc by (auto simp: con_handler_def c_bind_Inr)
  show ?thesis
  proof (cases "ConCmd_get_extentname cmd")
    case None
    then have "refuse srv OEP_SERVER_ACCESS_DENIED msg st = Inr (ok, st')" using h nc cmd by (simp add: con_handler_def)
    then show ?thesis by (rule quiet_advances [OF refuse_quiet(1) [OF sp]])
  next
    case (Some extentname)
    obtain ok1 subject where l: "srv_login srv w (con_subject cmd extentname) = Inr (ok1, subject)"
      using h nc cmd Some by (auto simp: con_handler_def c_bind_Inr)
    let ?st1 = "with_session (\<lambda>s. OeSession_set_subject s (Some subject)) st"
    show ?thesis
    proof (cases "ok1 \<and> get_kernel srv extentname \<noteq> None")
      case False
      then have "refuse srv OEP_SERVER_ACCESS_DENIED msg ?st1 = Inr (ok, st')"
        using h nc cmd Some l by (auto simp: con_handler_def Let_def split: if_splits)
      then show ?thesis by (rule advances_trans [OF set_subject quiet_advances [OF refuse_quiet(1) [OF sp]]])
    next
      case True
      then obtain k where k: "get_kernel srv extentname = Some k" and ok1: ok1 by auto
      let ?st2 = "with_session (\<lambda>s.
                             let s' = OeSession_state_set (OeSession_set_sess_context s (Some k)) OENET_CLIENT_CONNECTED
                             in if ConCmd_rollback_on_disconnect cmd then OeSession_set_rb_on_disconnect s' else s') ?st1"
      have q: "undisturbed ?st2 st'"
        using h nc cmd Some l k ok1 srv_write_quiet [OF sp] by (auto simp: con_handler_def Let_def c_bind_Inr)
      have auth: "os_security_context srv \<noteq> None \<longrightarrow> Subject_is_authenticated subject"
        using l ok1 by (auto simp: srv_login_def c_bind_Inr split: option.splits)
      have "OeSession_state_is_set (sv_session ?st2) OENET_CLIENT_CONNECTED"
        using state_flags(1) [of "OeSession_set_sess_context (sv_session ?st1) (Some k)"]
        by (simp add: with_session_def Let_def OeSession_set_rb_on_disconnect_def OeSession_state_is_set_def)
      then have "advances srv w st ?st2"
        using nc k auth
        by (auto simp: advances_def keeps_def admitted_def with_session_def Let_def OeSession_set_rb_on_disconnect_def
            OeSession_state_set_def OeSession_set_sess_context_def OeSession_set_subject_def)
      then show ?thesis by (rule advances_trans [OF _ quiet_advances [OF q]])
    qed
  qed
qed

text \<open>What \<^const>\<open>access_check\<close> and the test for a kernel establish before a command is submitted.\<close>

lemma submit_advances:
  assumes "submit k ctx st = Inr (ok, st')" "cx_write_response_cb ctx" "entitled srv w (sv_session st) (Command k ctx)"
  shows "advances srv w st st'"
proof -
  let ?n = "s_outstanding_task_count (sv_session st)"
  have st': "st' = log_effect (Command k ctx) (st\<lparr>sv_session := (sv_session st)\<lparr>s_outstanding_task_count := ?n + 1\<rparr>\<rparr>)"
    and "sint ?n \<noteq> 2 ^ 31 - 1"
    using assms(1) by (auto simp: submit_def OeSession_incr_task_count_def Let_def split: if_splits)
  then have "sint (?n + 1) = sint ?n + 1" by (intro sint_incr) simp
  then show ?thesis
    using st' assms(2,3)
    by (auto simp: advances_def log_effect_def keeps_def admitted_def entitled_def OeSession_state_is_set_def)
qed

lemma access_check_None:
  assumes "access_check srv w msg s = None" "OekMsg_get_type msg \<noteq> CON_CMD" "os_security_context srv = Some c"
  shows "\<exists>subject. s_subject s = Some subject \<and> Subject_is_authenticated subject \<and>
    SecurityContext_authorize w c subject msg = ALLOW"
  using assms by (auto simp: access_check_def OeSession_get_subject_def split: option.splits if_splits)

lemma invoke_advances:
  assumes sp: "speaks srv read_msg write_msg" and h: "invoke_msg_handler srv w now msg ctx0 st = Inr (ok, st')"
    and con: "OekMsg_get_type msg = CON_CMD \<or> OeSession_state_is_set (sv_session st) OENET_CLIENT_CONNECTED"
  shows "advances srv w st st'"
proof (cases "access_check srv w msg (sv_session st)")
  case (Some emsg)
  then have "refuse srv emsg msg st = Inr (ok, st')" using h by (simp add: invoke_msg_handler_def Let_def)
  then show ?thesis by (rule quiet_advances [OF refuse_quiet(1) [OF sp]])
next
  case acc: None
  show ?thesis
  proof (cases "OekMsg_get_type msg = CON_CMD")
    case True
    then have "con_handler srv w msg st = Inr (ok, st')" using h acc by (simp add: invoke_msg_handler_def Let_def)
    then show ?thesis by (rule con_handler_advances [OF sp])
  next
    case nc: False
    show ?thesis
    proof (cases "OeSession_get_sess_context (sv_session st)")
      case None
      then have "refuse srv OEP_ERR_NOT_LOGGED_IN msg st = Inr (ok, st')"
        using h acc nc by (simp add: invoke_msg_handler_def Let_def)
      then show ?thesis by (rule quiet_advances [OF refuse_quiet(1) [OF sp]])
    next
      case (Some k)
      show ?thesis
      proof (cases "OekMsg_get_type msg = DIS_CMD")
        case True
        have "undisturbed st (with_session (\<lambda>s. OeSession_state_clear s 0) st)"
          by (simp add: undisturbed_def with_session_def OeSession_state_clear_def OeSession_state_is_set_def OEC_FLAG_CLEAR_def)
        then have "undisturbed st (dis_handler st)" unfolding dis_handler_def by (rule undisturbed_trans [OF _ quiet_cleanup])
        moreover have "st' = dis_handler st" using h acc nc Some True by (simp add: invoke_msg_handler_def Let_def)
        ultimately show ?thesis by (simp add: quiet_advances)
      next
        case nd: False
        obtain t where s: "submit k (ctx0\<lparr>cx_write_response_cb := True, cx_cmd_msg := Some msg, cx_kernel := True, cx_expire_time := t\<rparr>)
            st = Inr (ok, st')" and ty: "OekMsg_get_type msg \<in> {GET_CMD, PUT_CMD, STA_CMD, UPT_CMD, UPL_CMD}"
        proof (cases "OekMsg_get_type msg = GET_CMD")
          case True
          then show ?thesis using h acc nc Some nd that by (auto simp: invoke_msg_handler_def Let_def c_bind_Inr)
        next
          case False
          then have "submit k (ctx0\<lparr>cx_write_response_cb := True, cx_cmd_msg := Some msg, cx_kernel := True,
              cx_expire_time := cx_expire_time ctx0\<rparr>) st = Inr (ok, st')"
              "OekMsg_get_type msg \<in> {GET_CMD, PUT_CMD, STA_CMD, UPT_CMD, UPL_CMD}"
            using h acc nc Some nd by (auto simp: invoke_msg_handler_def Let_def split: if_splits)
          then show ?thesis by (rule that)
        qed
        show ?thesis
          by (rule submit_advances [OF s])
            (use ty con nc Some access_check_None [OF acc nc] in
              \<open>simp_all add: entitled_def OeSession_get_sess_context_def\<close>)
      qed
    qed
  qed
qed

lemma on_message_advances:
  assumes sp: "speaks srv read_msg write_msg" and h: "on_message srv w now st = Inr (again, st')"
  shows "advances srv w st st'"
proof -
  define ctx where "ctx = (case OeSession_get_appl_context (sv_session st) of None \<Rightarrow> create_context now | Some c \<Rightarrow> c)"
  define st0 where "st0 = with_session (\<lambda>s. OeSession_set_appl_context s (Some ctx)) st"
  obtain rc mo s1 where r: "read_msg (sv_session st0) = Inr (rc, mo, s1)"
    using h sp by (auto simp: on_message_def speaks_def ctx_def st0_def Let_def c_bind_Inr)
  define st1 where "st1 = st0\<lparr>sv_session := s1\<rparr>"
  obtain c where "s1 = (sv_session st0)\<lparr>s_conn := c\<rparr>" using read_keeps [OF r] by blast
  then have q1: "undisturbed st st1"
    by (simp add: undisturbed_def st1_def st0_def with_session_def OeSession_set_appl_context_def OeSession_state_is_set_def)
  have q2: "undisturbed st1 (with_session (\<lambda>s. OeSession_set_appl_context s None) st1)"
    by (simp add: undisturbed_def with_session_def OeSession_set_appl_context_def OeSession_state_is_set_def)
  note h' = h [unfolded on_message_def Let_def, folded ctx_def, folded st0_def,
      unfolded sp [unfolded speaks_def, THEN conjunct1] r c_bind.simps prod.case, folded st1_def]
  note err = undisturbed_trans [OF q1 undisturbed_trans [OF send_err_quiet [OF sp] quiet_cleanup]]
    undisturbed_trans [OF q1 undisturbed_trans [OF q2 undisturbed_trans [OF send_err_quiet [OF sp] quiet_cleanup]]]
  show ?thesis
  proof (cases "rc < 0")
    case True
    then show ?thesis using h' by (auto simp: c_bind_Inr intro: quiet_advances err)
  next
    case rc: False
    show ?thesis
    proof (cases mo)
      case None
      then show ?thesis using h' rc quiet_advances [OF q1] by simp
    next
      case (Some msg)
      define st2 where "st2 = with_session (\<lambda>s. OeSession_set_appl_context s None) st1"
      note h2 = h' [unfolded Some option.case, folded st2_def]
      have q: "undisturbed st st2" unfolding st2_def by (rule undisturbed_trans [OF q1 q2])
      show ?thesis
      proof (cases "OekMsg_get_type msg = CON_CMD \<or> OeSession_state_is_set (sv_session st2) OENET_CLIENT_CONNECTED")
        case False
        then show ?thesis using h2 rc by (auto simp: c_bind_Inr intro: quiet_advances err(2) [folded st2_def])
      next
        case True
        then have "c_bind (invoke_msg_handler srv w now msg ctx st2) (\<lambda>(ok, st3).
            if ok then Inr (0 < OeNetConn_available (OeSession_get_conn (sv_session st3)), st3)
            else Inr (False, OeNet_cleanup_conn st3)) = Inr (again, st')"
          using h2 rc by auto
        then obtain ok st3 where i: "invoke_msg_handler srv w now msg ctx st2 = Inr (ok, st3)"
            "st' = (if ok then st3 else OeNet_cleanup_conn st3)"
          by (cases "invoke_msg_handler srv w now msg ctx st2") (auto split: if_splits)
        have "advances srv w st st3"
          by (rule advances_trans [OF quiet_advances [OF q] invoke_advances [OF sp i(1) True]])
        then show ?thesis by (auto simp: i(2) intro: advances_trans [OF _ quiet_advances [OF quiet_cleanup]])
      qed
    qed
  qed
qed

lemma buffered_on_read_advances:
  assumes "speaks srv read_msg write_msg"
  shows "buffered_on_read n srv w now st = Inr st' \<Longrightarrow> advances srv w st st'"
proof (induction n arbitrary: st)
  case (Suc n)
  show ?case
  proof (cases "OeSession_state_is_set (sv_session st) OENET_CLIENT_CLOSING")
    case True
    then show ?thesis using Suc.prems by (simp add: quiet_advances [OF srv_cleanup_quiet])
  next
    case False
    then obtain again st1 where s: "on_message srv w now st = Inr (again, st1)"
        "(if again then buffered_on_read n srv w now st1 else Inr st1) = Inr st'"
      using Suc.prems by (auto simp: c_bind_Inr)
    have "advances srv w st st1" by (rule on_message_advances [OF assms s(1)])
    moreover have "advances srv w st1 st'" using s(2) Suc.IH by (cases again) simp_all
    ultimately show ?thesis by (rule advances_trans)
  qed
qed simp

text \<open>An answer takes one task away, and nothing else that a command relies on.\<close>

lemma write_all_quiet:
  assumes "speaks srv read_msg write_msg"
  shows "write_all srv ms st = Inr st' \<Longrightarrow> undisturbed st st'"
  by (induction ms arbitrary: st) (auto simp: c_bind_Inr intro: undisturbed_trans srv_write_quiet [OF assms])

lemma write_to_client_step:
  assumes sp: "speaks srv read_msg write_msg" and h: "write_to_client_cb srv ctx st = Inr st'"
  shows "\<exists>st1 n. undisturbed st st1 \<and> sint n = sint (s_outstanding_task_count (sv_session st)) - 1 \<and>
    undisturbed (with_tasks n st1) st'"
proof -
  obtain st1 where u: "update_pending_txns ctx st = Inr st1" using h by (auto simp: write_to_client_cb_def c_bind_Inr)
  note q = update_pending_quiet [OF u]
  define m where "m = s_outstanding_task_count (sv_session st1)"
  have m: "m = s_outstanding_task_count (sv_session st)" using q by (auto simp: m_def undisturbed_def)
  have ne: "sint m \<noteq> - (2 ^ 31)" using h u by (auto simp: write_to_client_cb_def OeSession_decr_task_count_def m_def)
  define st2 where "st2 = with_tasks (m - 1) st1"
  have d: "OeSession_decr_task_count (sv_session st1) = Inr (m - 1, sv_session st2)" "st1\<lparr>sv_session := sv_session st2\<rparr> = st2"
    using ne by (simp_all add: OeSession_decr_task_count_def m_def st2_def with_tasks_def with_session_def Let_def)
  note h' = h [unfolded write_to_client_cb_def u c_bind.simps d(1) prod.case Let_def d(2)]
  have "undisturbed st2 st'"
  proof (cases "OeSession_state_is_set (sv_session st2) OENET_CLIENT_CONNECTED")
    case False
    then show ?thesis
      using h' by (auto simp: c_bind_Inr split: if_splits intro: undisturbed_trans [OF rollback_quiet quiet_cleanup])
  next
    case True
    then show ?thesis
      using h' by (auto simp: c_bind_Inr split: option.splits
          intro: undisturbed_trans [OF srv_write_quiet [OF sp] quiet_cleanup] write_all_quiet [OF sp])
  qed
  then show ?thesis using q sint_decr [OF ne] unfolding st2_def m by blast
qed

end

text \<open>The session is released only when no task is left.\<close>

lemma cleanup_conn_step:
  assumes h: "cleanup_conn srv w now st = Inr st'"
  defines "st1 \<equiv> with_session (\<lambda>s.
            let s' = OeSession_state_set (OeSession_state_clear s OENET_CLIENT_CONNECTED) OENET_CLIENT_CLOSING
            in s'\<lparr>s_conn := OeNetConn_clear_timeout (s_conn s')\<rparr>) st"
  shows "if s_outstanding_task_count (sv_session st) = 0
    then \<exists>st3. undisturbed (st1\<lparr>sv_sessions := snd (Oec_IdSet_remove (sv_sessions st) (s_sid (sv_session st)))\<rparr>) st3 \<and>
           st' = log_effect Released st3
    else st' = st1"
proof -
  have n: "OeSession_get_task_count (sv_session st1) = s_outstanding_task_count (sv_session st)"
      "OeSession_get_id (sv_session st1) = s_sid (sv_session st)" "sv_sessions st1 = sv_sessions st"
    by (simp_all add: st1_def with_session_def Let_def OeSession_get_task_count_def OeSession_get_id_def
        OeSession_state_set_def OeSession_state_clear_def)
  have "OeSession_state_is_set (sv_session st1) OENET_CLIENT_CLOSING"
    using state_flags(2) by (simp add: st1_def with_session_def Let_def OeSession_state_is_set_def)
  then show ?thesis
    using h unfolding cleanup_conn_def st1_def [symmetric]
    by (auto simp: Let_def n c_bind_Inr split: if_splits intro: srv_cleanup_quiet)
qed

section \<open>JCL\<close>

lemma jcl_read_keeps: "OeJclNet_read_msg s = Inr (rc, mo, s') \<Longrightarrow> s' = s\<lparr>s_conn := s_conn s'\<rparr>"
  by (auto simp: OeJclNet_read_msg_def Let_def c_bind_Inr split: if_splits prod.splits)

lemma jcl_write_keeps: "OeJclNet_write_msg s msg = Inr (rc, s') \<Longrightarrow> s' = s\<lparr>s_conn := s_conn s'\<rparr>"
  by (auto simp: OeJclNet_write_msg_def Let_def c_bind_Inr split_beta split: if_splits option.splits)

interpretation jcl: protocol OeJclNet_read_msg OeJclNet_write_msg
  by unfold_locales (auto dest: jcl_read_keeps jcl_write_keeps)

lemma json_read_keeps: "JsonNet_read_msg s = Inr (rc, mo, s') \<Longrightarrow> s' = s\<lparr>s_conn := s_conn s'\<rparr>"
  by (auto simp: JsonNet_read_msg_def Let_def c_bind_Inr split: if_splits prod.splits) (auto split: sum.split_asm)

lemma json_write_keeps: "JsonNet_write_msg s msg = Inr (rc, s') \<Longrightarrow> s' = s\<lparr>s_conn := s_conn s'\<rparr>"
  by (auto simp: JsonNet_write_msg_def Let_def c_bind_Inr split_beta split: if_splits)

interpretation json: protocol JsonNet_read_msg JsonNet_write_msg
  by unfold_locales (auto dest: json_read_keeps json_write_keeps)

text \<open>A server for one of the protocols that the program has.\<close>

definition native :: "('e, 'k, 'w) OepServer \<Rightarrow> bool" where
  "native srv = (speaks srv OeJclNet_read_msg OeJclNet_write_msg \<or> speaks srv JsonNet_read_msg JsonNet_write_msg)"

end
