(* ===== verification/Server_Props.thy ===== *)
theory Server_Props
  imports Server_Steps "HOL-Library.Multiset"
begin

text \<open>
  The server of \<^verbatim>\<open>corelib/OepServer.c\<close> speaking JCL: the commands that it lets through, the life of a session, batches of
  commands, and what becomes of the transactions of a client that goes away.
\<close>

section \<open>The life of a session\<close>

text \<open>
  What can happen to a session, with the commands of the client that the kernel has not answered yet: bytes arrive and are read,
  the kernel answers a command, the time to connect runs out, the connection ends.  libevent calls nothing for a connection that
  has been released; the kernel does not know.
\<close>

inductive serves ::
  "('e, 'k, 'w) OepServer \<Rightarrow> ('e, 'k, 'w) serving \<times> OEK_Context multiset \<Rightarrow> ('e, 'k, 'w) serving \<times> OEK_Context multiset \<Rightarrow> bool"
  for srv where
  Receives: "Released \<notin> set (sv_out st) \<Longrightarrow> serves srv (st, p) (with_session (\<lambda>s. s\<lparr>s_conn := conn\<rparr>) st, p)"
| Reads: "Released \<notin> set (sv_out st) \<Longrightarrow> buffered_on_read n srv w now st = Inr st' \<Longrightarrow>
    serves srv (st, p) (st', p + mset (asked (drop (length (sv_out st)) (sv_out st'))))"
| Answers: "c \<in># p \<Longrightarrow> write_to_client_cb srv (c\<lparr>cx_res_msgs := r, cx_err_msg := e\<rparr>) st = Inr st' \<Longrightarrow>
    serves srv (st, p) (st', p - {#c#})"
| Times_Out: "Released \<notin> set (sv_out st) \<Longrightarrow> srv_con_timeout_cb srv st = Inr st' \<Longrightarrow> serves srv (st, p) (st', p)"
| Closes: "Released \<notin> set (sv_out st) \<Longrightarrow> cleanup_conn srv w now st = Inr st' \<Longrightarrow> serves srv (st, p) (st', p)"

definition session_inv :: "('e, 'k, 'w) OepServer \<Rightarrow> oe_id \<Rightarrow> ('e, 'k, 'w) serving \<times> OEK_Context multiset \<Rightarrow> bool" where
  "session_inv srv sid = (\<lambda>(st, p).
     sint (s_outstanding_task_count (sv_session st)) = int (size p) \<and> (Released \<in> set (sv_out st) \<longrightarrow> p = {#}) \<and>
     admitted srv (sv_session st) \<and> s_sid (sv_session st) = sid \<and> idset_ok (sv_sessions st) \<and>
     Oec_IdSet_member (sv_sessions st) sid = (Released \<notin> set (sv_out st)) \<and> count_list (sv_out st) Released \<le> 1)"

lemma count_Released_append [simp]:
  "Released \<notin> set new \<Longrightarrow> count_list (es @ new) Released = count_list es Released"
  by (simp add: count_list_0_iff)

lemma advances_inv:
  assumes "session_inv srv sid (st, p)" "advances srv w st st'" "Released \<notin> set (sv_out st)"
  shows "session_inv srv sid (st', p + mset (asked (drop (length (sv_out st)) (sv_out st'))))"
  using assms by (auto simp: session_inv_def advances_def)

lemma quiet_inv:
  assumes "session_inv srv sid (st, p)" "undisturbed st st'"
  shows "session_inv srv sid (st', p)"
proof -
  obtain new where n: "sv_out st' = sv_out st @ new" "\<forall>e \<in> set new. for_client e = None \<and> e \<noteq> Released"
      "sv_sessions st' = sv_sessions st" "s_subject (sv_session st') = s_subject (sv_session st)"
      "s_sess_context (sv_session st') = s_sess_context (sv_session st)"
      "s_outstanding_task_count (sv_session st') = s_outstanding_task_count (sv_session st)"
      "s_sid (sv_session st') = s_sid (sv_session st)"
      "OeSession_state_is_set (sv_session st') OENET_CLIENT_CONNECTED =
          OeSession_state_is_set (sv_session st) OENET_CLIENT_CONNECTED"
    using assms(2) unfolding undisturbed_def by blast
  have "Released \<notin> set new" using n(2) by blast
  then show ?thesis using assms(1) n by (simp add: session_inv_def admitted_def)
qed

lemma cleanup_inv:
  assumes i: "session_inv srv sid (st, p)" and r: "Released \<notin> set (sv_out st)" and h: "cleanup_conn srv w now st = Inr st'"
  shows "session_inv srv sid (st', p)"
proof -
  let ?st1 = "with_session (\<lambda>s.
            let s' = OeSession_state_set (OeSession_state_clear s OENET_CLIENT_CONNECTED) OENET_CLIENT_CLOSING
            in s'\<lparr>s_conn := OeNetConn_clear_timeout (s_conn s')\<rparr>) st"
  let ?st2 = "?st1\<lparr>sv_sessions := snd (Oec_IdSet_remove (sv_sessions st) (s_sid (sv_session st)))\<rparr>"
  have nc: "\<not> OeSession_state_is_set (sv_session ?st1) OENET_CLIENT_CONNECTED"
    using state_flags(3,4) [of "OeSession_state_clear (sv_session st) OENET_CLIENT_CONNECTED"] state_flags(4) [of "sv_session st"]
    by (simp add: with_session_def Let_def OeSession_state_is_set_def)
  have f: "s_outstanding_task_count (sv_session ?st1) = s_outstanding_task_count (sv_session st)"
      "s_sid (sv_session ?st1) = s_sid (sv_session st)" "sv_out ?st1 = sv_out st" "sv_sessions ?st1 = sv_sessions st"
    by (simp_all add: with_session_def Let_def OeSession_state_set_def OeSession_state_clear_def)
  show ?thesis
  proof (cases "s_outstanding_task_count (sv_session st) = 0")
    case False
    then have "st' = ?st1" using cleanup_conn_step [OF h] by simp
    then show ?thesis using i nc f by (simp add: session_inv_def admitted_def)
  next
    case True
    then obtain st3 where st3: "undisturbed ?st2 st3" "st' = log_effect Released st3" using cleanup_conn_step [OF h] by auto
    have ok: "idset_ok (sv_sessions st)" "s_sid (sv_session st) = sid" using i by (simp_all add: session_inv_def)
    have "idset_ok (sv_sessions ?st2)" "\<not> Oec_IdSet_member (sv_sessions ?st2) sid"
      using idreg.leave_ok [OF ok(1)] idreg.member_leave [OF ok(1)] ok(2) by simp_all
    moreover have "p = {#}" using i True by (simp add: session_inv_def)
    moreover have "count_list (sv_out st) Released = 0" using r by (simp add: count_list_0_iff)
    moreover obtain new where "sv_out st3 = sv_out ?st2 @ new" "Released \<notin> set new" "sv_sessions st3 = sv_sessions ?st2"
        "s_sid (sv_session st3) = s_sid (sv_session ?st2)"
        "s_outstanding_task_count (sv_session st3) = s_outstanding_task_count (sv_session ?st2)"
        "\<not> OeSession_state_is_set (sv_session st3) OENET_CLIENT_CONNECTED"
      using st3(1) nc unfolding undisturbed_def by auto
    ultimately show ?thesis
      using i f True st3(2) by (simp add: session_inv_def admitted_def log_effect_def)
  qed
qed

context protocol
begin

lemma answer_inv:
  assumes i: "session_inv srv sid (st, p)" and c: "c \<in># p" and sp: "speaks srv read_msg write_msg"
    and h: "write_to_client_cb srv ctx st = Inr st'"
  shows "session_inv srv sid (st', p - {#c#})"
proof -
  obtain st1 n where s: "undisturbed st st1" "sint n = sint (s_outstanding_task_count (sv_session st)) - 1"
      "undisturbed (with_tasks n st1) st'"
    using write_to_client_step [OF sp h] by blast
  have "size p = Suc (size (p - {#c#}))" using c by (metis insert_DiffM size_add_mset)
  then have n: "sint n = int (size (p - {#c#}))" using s(2) i by (simp add: session_inv_def)
  have "session_inv srv sid (with_tasks n st1, p - {#c#})"
    using quiet_inv [OF i s(1)] n c
    by (auto simp: session_inv_def with_tasks_def with_session_def admitted_def OeSession_state_is_set_def)
  then show ?thesis using s(3) by (rule quiet_inv)
qed

lemma serves_inv:
  assumes "serves srv x y" "speaks srv read_msg write_msg" "session_inv srv sid x"
  shows "session_inv srv sid y"
  using assms
proof (cases rule: serves.cases)
  case (Receives st p conn)
  have "undisturbed st (with_session (\<lambda>s. s\<lparr>s_conn := conn\<rparr>) st)"
    by (simp add: undisturbed_def with_session_def OeSession_state_is_set_def)
  then show ?thesis using Receives assms(3) by (auto intro: quiet_inv)
next
  case (Reads st n w now st' p)
  then show ?thesis using advances_inv [OF _ buffered_on_read_advances [OF assms(2)]] assms(3) by blast
next
  case (Answers c p r e st st')
  then show ?thesis using answer_inv [OF _ _ assms(2)] assms(3) by blast
next
  case (Times_Out st st' p)
  then show ?thesis using quiet_inv [OF _ con_timeout_quiet [OF assms(2)]] assms(3) by blast
next
  case (Closes st w now st' p)
  then show ?thesis using assms(3) by (auto intro: cleanup_inv)
qed

lemma session_reaches:
  assumes "(serves srv)\<^sup>*\<^sup>* x y" "speaks srv read_msg write_msg" "session_inv srv sid x"
  shows "session_inv srv sid y"
  using assms by (induction rule: rtranclp_induct) (auto intro: serves_inv)

end

text \<open>The session that the network opens for a connection.\<close>

lemma fresh_inv:
  assumes "idset_ok (OeNet_get_sessions net)"
  shows "\<exists>sid. session_inv srv sid (fst (listen_for_bytes net conn buf_ev timer now), {#})"
proof -
  obtain sid net1 where c: "OeNet_create_id net = (sid, net1)" by fastforce
  have "OeNet_get_sessions net1 = OeNet_get_sessions net"
    using c by (auto simp: OeNet_create_id_def OeNet_get_sessions_def split: option.splits prod.splits)
  then have "idset_ok (Oec_IdSet_put (OeNet_get_sessions net1) sid)" "Oec_IdSet_member (Oec_IdSet_put (OeNet_get_sessions net1) sid) sid"
    using assms idreg.enter_ok idreg.member_enter by auto
  then show ?thesis
    using c by (intro exI [of _ sid]) (simp add: session_inv_def listen_for_bytes_def Let_def admitted_def OeSession_state_is_set_def OEC_FLAG_ISSET_def
        OeSession_set_id_def oesession_new_def OeSession_get_id_def)
qed

section \<open>A batch of commands\<close>

fun is_command :: "jcl_msg \<Rightarrow> bool" where
  "is_command (Write cid tid dur tuple xs) = True"
| "is_command (Get remove dur cid tid tuple xs) = True"
| "is_command (Start cid dur) = True"
| "is_command (Commit_Txn cid tid n) = True"
| "is_command (Cancel_Txn cid tid) = True"
| "is_command (Cancel_Lease cid lid) = True"
| "is_command _ = False"

text \<open>The context with which the kernel gets a command.\<close>

definition command_context :: "oe_time \<Rightarrow> OekMsg \<Rightarrow> OEK_Context" where
  "command_context now msg = (create_context now)\<lparr>cx_write_response_cb := True, cx_cmd_msg := Some msg, cx_kernel := True,
     cx_expire_time := (case data msg of D_get_cmd cmd \<Rightarrow> now + GetCmd_get_timeout cmd | _ \<Rightarrow> 0)\<rparr>"

lemma invoke_command:
  assumes "is_command j" "os_security_context srv = None" "s_sess_context (sv_session st) = Some k"
  shows "invoke_msg_handler srv w now (message j) (create_context now) st = submit k (command_context now (message j)) st"
  using assms
  by (cases j) (simp_all add: invoke_msg_handler_def Let_def access_check_def OeSession_get_sess_context_def envelope_def
      OekMsg_get_type_def OekMsg_get_get_cmd_def command_context_def create_context_def OEK_Context_new_def)

lemma is_command_not_con: "is_command j \<Longrightarrow> OekMsg_get_type (message j) \<noteq> CON_CMD"
  by (cases j) (simp_all add: OekMsg_get_type_def envelope_def)

text \<open>A message of the client that has arrived is handled in a context of its own.\<close>

lemma on_message_gets:
  assumes sp: "speaks srv OeJclNet_read_msg OeJclNet_write_msg"
    and ev: "buffers ev received sent" "made_by ev stack (s_conn (sv_session st))"
    and con: "OeSession_state_is_set (sv_session st) OENET_CLIENT_CONNECTED \<or> OekMsg_get_type (message j) = CON_CMD"
      "s_appl_context (sv_session st) = None"
    and j: "printable_msg j" "framed (jcl_text j)"
    and r: "on_conn received (sv_session st) = jcl_text j @ MSG_END_BYTES @ rest"
  shows "\<exists>c. made_by ev stack c \<and> received (conn_obj c) = rest \<and> sent (conn_obj c) = on_conn sent (sv_session st) \<and>
    on_message srv w now st =
      c_bind (invoke_msg_handler srv w now (message j) (create_context now) (st\<lparr>sv_session := (sv_session st)\<lparr>s_conn := c\<rparr>\<rparr>))
        (\<lambda>(ok, st3). if ok then Inr (0 < OeNetConn_available (OeSession_get_conn (sv_session st3)), st3)
                      else Inr (False, OeNet_cleanup_conn st3))"
proof -
  define s0 where "s0 = (sv_session st)\<lparr>s_appl_context := Some (create_context now)\<rparr>"
  have "made_by ev stack (s_conn s0)" "on_conn received s0 = jcl_text j @ MSG_END_BYTES @ rest" using ev r by (simp_all add: s0_def)
  from read_msg_gets [OF ev(1) this(1) j this(2)] obtain s1 where s1:
      "OeJclNet_read_msg s0 = Inr (1, Some (message j), s1)" "made_by ev stack (s_conn s1)" "on_conn received s1 = rest"
      "on_conn sent s1 = on_conn sent s0" "s1 = s0\<lparr>s_conn := s_conn s1\<rparr>"
    by blast
  define c where "c = s_conn s1"
  define st2 where "st2 = st\<lparr>sv_session := (sv_session st)\<lparr>s_conn := c\<rparr>\<rparr>"
  have "s1 = s0\<lparr>s_conn := c\<rparr>" using s1(5) by (simp add: c_def)
  then have "with_session (\<lambda>s. OeSession_set_appl_context s None) (st\<lparr>sv_session := s1\<rparr>) = st2"
    using con(2) by (simp add: s0_def st2_def with_session_def OeSession_set_appl_context_def)
  moreover have "with_session (\<lambda>s. OeSession_set_appl_context s (Some (create_context now))) st = st\<lparr>sv_session := s0\<rparr>"
    by (simp add: with_session_def OeSession_set_appl_context_def s0_def)
  moreover have "OeSession_state_is_set (sv_session st2) OENET_CLIENT_CONNECTED \<or> OekMsg_get_type (message j) = CON_CMD"
    using con(1) by (simp add: st2_def OeSession_state_is_set_def)
  ultimately have "on_message srv w now st = c_bind (invoke_msg_handler srv w now (message j) (create_context now) st2)
        (\<lambda>(ok, st3). if ok then Inr (0 < OeNetConn_available (OeSession_get_conn (sv_session st3)), st3)
                      else Inr (False, OeNet_cleanup_conn st3))"
    using sp s1(1) con(2) by (auto simp: on_message_def speaks_def OeSession_get_appl_context_def)
  then show ?thesis using s1(2-4) unfolding st2_def by (auto simp: c_def s0_def)
qed

lemma on_message_command:
  assumes sp: "speaks srv OeJclNet_read_msg OeJclNet_write_msg"
    and ev: "buffers ev received sent" "made_by ev stack (s_conn (sv_session st))"
    and con: "os_security_context srv = None" "OeSession_state_is_set (sv_session st) OENET_CLIENT_CONNECTED"
      "s_sess_context (sv_session st) = Some k" "s_appl_context (sv_session st) = None"
    and j: "is_command j" "printable_msg j" "framed (jcl_text j)"
    and r: "on_conn received (sv_session st) = jcl_text j @ MSG_END_BYTES @ rest"
    and n: "sint (s_outstanding_task_count (sv_session st)) \<noteq> 2 ^ 31 - 1"
  shows "\<exists>c. on_message srv w now st = Inr (rest \<noteq> [],
      st\<lparr>sv_session := (sv_session st)\<lparr>s_conn := c, s_outstanding_task_count := s_outstanding_task_count (sv_session st) + 1\<rparr>,
         sv_out := sv_out st @ [Command k (command_context now (message j))]\<rparr>) \<and>
    made_by ev stack c \<and> received (conn_obj c) = rest \<and> sent (conn_obj c) = on_conn sent (sv_session st)"
proof -
  let ?n = "s_outstanding_task_count (sv_session st)"
  obtain c where c: "made_by ev stack c" "received (conn_obj c) = rest" "sent (conn_obj c) = on_conn sent (sv_session st)"
      "on_message srv w now st =
        c_bind (invoke_msg_handler srv w now (message j) (create_context now) (st\<lparr>sv_session := (sv_session st)\<lparr>s_conn := c\<rparr>\<rparr>))
          (\<lambda>(ok, st3). if ok then Inr (0 < OeNetConn_available (OeSession_get_conn (sv_session st3)), st3)
                        else Inr (False, OeNet_cleanup_conn st3))"
    using on_message_gets [OF sp ev disjI1 [OF con(2)] con(4) j(2,3) r] by blast
  have "submit k (command_context now (message j)) (st\<lparr>sv_session := (sv_session st)\<lparr>s_conn := c\<rparr>\<rparr>) = Inr (True,
      st\<lparr>sv_session := (sv_session st)\<lparr>s_conn := c, s_outstanding_task_count := ?n + 1\<rparr>,
         sv_out := sv_out st @ [Command k (command_context now (message j))]\<rparr>)"
    using n by (simp add: submit_def OeSession_incr_task_count_def Let_def log_effect_def)
  moreover have "0 < OeNetConn_available c \<longleftrightarrow> rest \<noteq> []" using available_buffers [OF ev(1) c(1)] c(2) by simp
  ultimately show ?thesis using c con by (auto simp: invoke_command [OF j(1) con(1)] OeSession_get_conn_def)
qed

lemma on_message_waits:
  assumes sp: "speaks srv OeJclNet_read_msg OeJclNet_write_msg"
    and ev: "buffers ev received sent" "made_by ev stack (s_conn (sv_session st))"
    and j: "framed (jcl_text j)" "m < length (jcl_text j @ MSG_END_BYTES)"
    and r: "on_conn received (sv_session st) = take m (jcl_text j @ MSG_END_BYTES)"
  shows "\<exists>ctx. on_message srv w now st = Inr (False, with_session (\<lambda>s. s\<lparr>s_appl_context := Some ctx\<rparr>) st)"
proof -
  define ctx where "ctx = (case OeSession_get_appl_context (sv_session st) of None \<Rightarrow> create_context now | Some c \<Rightarrow> c)"
  define s0 where "s0 = (sv_session st)\<lparr>s_appl_context := Some ctx\<rparr>"
  have "made_by ev stack (s_conn s0)" "on_conn received s0 = take m (jcl_text j @ MSG_END_BYTES)"
    using ev r by (simp_all add: s0_def)
  from read_msg_waits [OF ev(1) this(1) j this(2)] have "OeJclNet_read_msg s0 = Inr (0, None, s0)" .
  moreover have "with_session (\<lambda>s. OeSession_set_appl_context s (Some ctx)) st = st\<lparr>sv_session := s0\<rparr>"
    by (simp add: with_session_def OeSession_set_appl_context_def s0_def)
  ultimately have "on_message srv w now st = Inr (False, st\<lparr>sv_session := s0\<rparr>)"
    using sp unfolding on_message_def ctx_def [symmetric] Let_def by (simp add: speaks_def)
  then show ?thesis by (auto simp: with_session_def s0_def)
qed

definition batch :: "jcl_msg list \<Rightarrow> string" where
  "batch js = concat (map (\<lambda>j. jcl_text j @ MSG_END_BYTES) js)"

lemma batch_Cons: "batch (j # js) @ part = jcl_text j @ MSG_END_BYTES @ batch js @ part"
  by (simp add: batch_def)

lemma batch_empty: "batch js @ part = [] \<Longrightarrow> js = []"
  by (cases js) (simp_all add: batch_def MSG_END_BYTES_def)

text \<open>C14: the commands of a connected client that arrive together, followed by a part of the next one, all go to the kernel of the
  session in the order in which they were sent, each as a task of the session and, for a read or take, with the time until which
  it waits; the part that is not complete stays on the connection.  One step of the reader more than there are commands is
  enough.\<close>

theorem server_batch:
  assumes sp: "speaks srv OeJclNet_read_msg OeJclNet_write_msg"
    and ev: "buffers ev received sent" "made_by ev stack (s_conn (sv_session st))"
    and con: "os_security_context srv = None" "OeSession_state_is_set (sv_session st) OENET_CLIENT_CONNECTED"
      "\<not> OeSession_state_is_set (sv_session st) OENET_CLIENT_CLOSING"
      "s_sess_context (sv_session st) = Some k" "s_appl_context (sv_session st) = None"
    and js: "\<forall>j \<in> set js. is_command j \<and> printable_msg j \<and> framed (jcl_text j)"
    and part: "framed (jcl_text j0)" "m < length (jcl_text j0 @ MSG_END_BYTES)"
    and r: "on_conn received (sv_session st) = batch js @ take m (jcl_text j0 @ MSG_END_BYTES)"
    and count: "sint (s_outstanding_task_count (sv_session st)) + int (length js) < 2 ^ 31" and n: "length js < n"
  shows "\<exists>st'. buffered_on_read n srv w now st = Inr st' \<and>
    sv_out st' = sv_out st @ map (\<lambda>j. Command k (command_context now (message j))) js \<and>
    sint (s_outstanding_task_count (sv_session st')) = sint (s_outstanding_task_count (sv_session st)) + int (length js) \<and>
    on_conn received (sv_session st') = take m (jcl_text j0 @ MSG_END_BYTES)"
  using ev(2) con js r count n
proof (induction js arbitrary: st n)
  case Nil
  obtain n' where n': "n = Suc n'" using Nil.prems(10) by (cases n) auto
  obtain ctx where "on_message srv w now st = Inr (False, with_session (\<lambda>s. s\<lparr>s_appl_context := Some ctx\<rparr>) st)"
    using on_message_waits [OF sp ev(1) Nil.prems(1) part] Nil.prems(8) by (auto simp: batch_def)
  then show ?case using n' Nil.prems by (simp add: with_session_def batch_def)
next
  case (Cons j js)
  obtain n' where n': "n = Suc n'" "length js < n'" using Cons.prems(10) by (cases n) auto
  let ?rest = "batch js @ take m (jcl_text j0 @ MSG_END_BYTES)"
  let ?c = "s_outstanding_task_count (sv_session st)"
  have j: "is_command j" "printable_msg j" "framed (jcl_text j)" using Cons.prems(7) by auto
  have ne: "sint ?c \<noteq> 2 ^ 31 - 1" using Cons.prems(9) by simp
  have r: "on_conn received (sv_session st) = jcl_text j @ MSG_END_BYTES @ ?rest"
    using Cons.prems(8) batch_Cons by simp
  obtain c where c: "on_message srv w now st = Inr (?rest \<noteq> [],
        st\<lparr>sv_session := (sv_session st)\<lparr>s_conn := c, s_outstanding_task_count := ?c + 1\<rparr>,
           sv_out := sv_out st @ [Command k (command_context now (message j))]\<rparr>)"
      "made_by ev stack c" "received (conn_obj c) = ?rest"
    using on_message_command [OF sp ev(1) Cons.prems(1) Cons.prems(2) Cons.prems(3) Cons.prems(5) Cons.prems(6) j r ne] by blast
  let ?st = "st\<lparr>sv_session := (sv_session st)\<lparr>s_conn := c, s_outstanding_task_count := ?c + 1\<rparr>,
           sv_out := sv_out st @ [Command k (command_context now (message j))]\<rparr>"
  show ?case
  proof (cases "?rest = []")
    case True
    then show ?thesis using c n' Cons.prems(4) batch_empty [OF True] sint_incr [OF ne] by simp
  next
    case False
    have "\<exists>st'. buffered_on_read n' srv w now ?st = Inr st' \<and>
        sv_out st' = sv_out ?st @ map (\<lambda>j. Command k (command_context now (message j))) js \<and>
        sint (s_outstanding_task_count (sv_session st')) = sint (s_outstanding_task_count (sv_session ?st)) + int (length js) \<and>
        on_conn received (sv_session st') = take m (jcl_text j0 @ MSG_END_BYTES)"
      using c Cons.prems sint_incr [OF ne] n' by (intro Cons.IH) (simp_all add: OeSession_state_is_set_def)
    then show ?thesis using c(1) False n'(1) Cons.prems(4) sint_incr [OF ne] by auto
  qed
qed

text \<open>a connected client of a server without login modules stops the whole server with one message: any response or error message
  that it sends is read like a command and runs into the assertion of the message handler.\<close>

theorem response_aborts_server:
  assumes sp: "speaks srv OeJclNet_read_msg OeJclNet_write_msg"
    and ev: "buffers ev received sent" "made_by ev stack (s_conn (sv_session st))"
    and con: "os_security_context srv = None" "OeSession_state_is_set (sv_session st) OENET_CLIENT_CONNECTED"
      "\<not> OeSession_state_is_set (sv_session st) OENET_CLIENT_CLOSING"
      "s_sess_context (sv_session st) = Some k" "s_appl_context (sv_session st) = None"
    and j: "\<not> is_command j" "OekMsg_get_type (message j) \<notin> {CON_CMD, DIS_CMD}" "printable_msg j" "framed (jcl_text j)"
    and r: "on_conn received (sv_session st) = jcl_text j @ MSG_END_BYTES @ rest"
  shows "buffered_on_read (Suc n) srv w now st = Inl Assert_Failed"
proof -
  obtain c where c: "on_message srv w now st =
      c_bind (invoke_msg_handler srv w now (message j) (create_context now) (st\<lparr>sv_session := (sv_session st)\<lparr>s_conn := c\<rparr>\<rparr>))
        (\<lambda>(ok, st3). if ok then Inr (0 < OeNetConn_available (OeSession_get_conn (sv_session st3)), st3)
                      else Inr (False, OeNet_cleanup_conn st3))"
    using on_message_gets [OF sp ev disjI1 [OF con(2)] con(5) j(3,4) r] by blast
  have "invoke_msg_handler srv w now (message j) ctx (st\<lparr>sv_session := (sv_session st)\<lparr>s_conn := c\<rparr>\<rparr>) = Inl Assert_Failed" for ctx
    using con(1,4) j(1,2)
    by (cases j) (simp_all add: invoke_msg_handler_def access_check_def OeSession_get_sess_context_def envelope_def OekMsg_get_type_def)
  then show ?thesis using c con(3) by simp
qed

section \<open>Connecting\<close>

lemma new_server_kernel:
  fixes k :: 'k
  shows "\<exists>srv. OepServer_new read_msg write_msg = Inr srv \<and> speaks srv read_msg write_msg \<and> os_security_context srv = None \<and>
     get_kernel (OepServer_add_kernel srv extentname k) extentname = Some k"
proof -
  obtain t :: "(string, 'k) table_T" where t: "SKeyTable_new 100 = Inr t" "skey.tgood t"
    using ArenaTable_new_ok [of 100, where ?cmp = stringcmp and ?hsh = stringhash and ?a = False]
    by (auto simp: SKeyTable_new_def Table_new_def skey.tgood_def)
  have "Table_get (snd (Table_put t extentname k)) extentname = Some k"
    using sktab.get_after_put [OF t(2), of extentname k extentname] by (simp add: stringcmp_0)
  then show ?thesis
    using t(1) by (simp add: OepServer_new_def speaks_def get_kernel_def OepServer_add_kernel_def)
qed

lemma con_response_text:
  assumes "small_id cid" "small_id sid"
  shows "\<exists>resmsg. con_response cid extentname sid = Inr resmsg \<and> OekMsg_get_type resmsg = CON_RES \<and> OekMsg_get_cid resmsg = cid \<and>
    OeJclEncoder_msg_serialize resmsg = Inr (Some (jcl_text (Connected cid sid)))"
  using assms length_lld_id [of cid] length_lld_id [of sid]
  by (simp add: con_response_def OekMsg_new_def OekMsg_settype_def OekMsg_set_cid_def OekMsg_get_con_res_def print_simps Let_def
      ConRes_set_extentname_def ConRes_set_sid_def ConRes_set_version_maj_def ConRes_set_version_min_def ConRes_set_version_upt_def)

lemma jcl_write:
  assumes ev: "buffers ev received sent" "made_by ev stack (s_conn s)"
    and w: "OeJclEncoder_msg_serialize msg = Inr (Some b)"
  shows "\<exists>c. OeJclNet_write_msg s msg = Inr (0, s\<lparr>s_conn := c\<rparr>) \<and> made_by ev stack c \<and>
    sent (conn_obj c) = on_conn sent s @ b @ MSG_END_BYTES \<and> received (conn_obj c) = on_conn received s"
proof -
  obtain c1 where c1: "OeNetConn_write (s_conn s) b = (0, c1)" "made_by ev stack c1"
      "sent (conn_obj c1) = on_conn sent s @ b" "received (conn_obj c1) = on_conn received s"
    by (rule write_buffers [OF ev])
  obtain c2 where c2: "OeNetConn_write c1 MSG_END_BYTES = (0, c2)" "made_by ev stack c2"
      "sent (conn_obj c2) = sent (conn_obj c1) @ MSG_END_BYTES" "received (conn_obj c2) = received (conn_obj c1)"
    by (rule write_buffers [OF ev(1) c1(2)])
  show ?thesis using c1 c2 w by (intro exI [of _ c2]) (simp add: OeJclNet_write_msg_def OeSession_get_conn_def)
qed

text \<open>A client that is not asked for a login connects.\<close>

lemma on_message_connect:
  assumes sp: "speaks srv OeJclNet_read_msg OeJclNet_write_msg"
    and ev: "buffers ev received sent" "made_by ev stack (s_conn (sv_session st))"
    and con: "os_security_context srv = None" "\<not> OeSession_state_is_set (sv_session st) OENET_CLIENT_CONNECTED"
      "get_kernel srv extentname = Some k" "s_appl_context (sv_session st) = None"
    and j: "printable_msg (Connect cid extentname user pwd)" "framed (jcl_text (Connect cid extentname user pwd))"
      "small_id (s_sid (sv_session st))"
    and r: "on_conn received (sv_session st) = jcl_text (Connect cid extentname user pwd) @ MSG_END_BYTES @ rest"
  shows "\<exists>c subject resmsg. on_message srv w now st = Inr (rest \<noteq> [],
      st\<lparr>sv_session := OeSession_state_set ((sv_session st)\<lparr>s_conn := c, s_subject := Some subject, s_sess_context := Some k\<rparr>)
           OENET_CLIENT_CONNECTED,
         sv_out := sv_out st @ [Sent resmsg]\<rparr>) \<and>
    OekMsg_get_type resmsg = CON_RES \<and> OekMsg_get_cid resmsg = cid \<and>
    made_by ev stack c \<and> received (conn_obj c) = rest \<and>
    sent (conn_obj c) = on_conn sent (sv_session st) @ jcl_text (Connected cid (s_sid (sv_session st))) @ MSG_END_BYTES"
proof -
  let ?j = "Connect cid extentname user pwd" and ?s = "sv_session st"
  have ty: "OekMsg_get_type (message ?j) = CON_CMD" by (simp add: OekMsg_get_type_def envelope_def)
  obtain c1 where c1: "made_by ev stack c1" "received (conn_obj c1) = rest" "sent (conn_obj c1) = on_conn sent ?s"
      "on_message srv w now st =
        c_bind (invoke_msg_handler srv w now (message ?j) (create_context now) (st\<lparr>sv_session := ?s\<lparr>s_conn := c1\<rparr>\<rparr>))
          (\<lambda>(ok, st3). if ok then Inr (0 < OeNetConn_available (OeSession_get_conn (sv_session st3)), st3)
                        else Inr (False, OeNet_cleanup_conn st3))"
    using on_message_gets [OF sp ev disjI2 [OF ty] con(4) j(1,2) r] by blast
  obtain cmd where cmd: "OekMsg_get_con_cmd (message ?j) = Inr cmd" "ConCmd_get_extentname cmd = Some extentname"
      "\<not> ConCmd_rollback_on_disconnect cmd"
    by (simp add: envelope_def OekMsg_get_con_cmd_def OekMsg_get_type_def ConCmd_new_def ConCmd_get_extentname_def
        ConCmd_rollback_on_disconnect_def OEC_FLAG_ISSET_def)
  let ?subject = "con_subject cmd extentname"
  define s3 where "s3 = OeSession_state_set (?s\<lparr>s_conn := c1, s_subject := Some ?subject, s_sess_context := Some k\<rparr>)
    OENET_CLIENT_CONNECTED"
  have s3: "made_by ev stack (s_conn s3)" "on_conn received s3 = rest" "on_conn sent s3 = on_conn sent ?s" "OeSession_get_id s3 = s_sid ?s"
    using c1 by (simp_all add: s3_def OeSession_state_set_def OeSession_get_id_def)
  obtain resmsg where res: "con_response cid extentname (s_sid ?s) = Inr resmsg" "OekMsg_get_type resmsg = CON_RES"
      "OekMsg_get_cid resmsg = cid" "OeJclEncoder_msg_serialize resmsg = Inr (Some (jcl_text (Connected cid (s_sid ?s))))"
    using con_response_text [of cid "s_sid ?s" extentname] j by auto
  obtain c where c: "OeJclNet_write_msg s3 resmsg = Inr (0, s3\<lparr>s_conn := c\<rparr>)" "made_by ev stack c" "received (conn_obj c) = rest"
      "sent (conn_obj c) = on_conn sent ?s @ jcl_text (Connected cid (s_sid ?s)) @ MSG_END_BYTES"
    using jcl_write [OF ev(1) s3(1) res(4)] s3 by auto
  let ?st = "st\<lparr>sv_session := s3\<lparr>s_conn := c\<rparr>, sv_out := sv_out st @ [Sent resmsg]\<rparr>"
  have "con_handler srv w (message ?j) (st\<lparr>sv_session := ?s\<lparr>s_conn := c1\<rparr>\<rparr>) = Inr (True, ?st)"
    using con cmd sp c(1) res(1) s3(4)
    by (simp add: con_handler_def OeSession_state_is_set_def srv_login_def with_session_def OeSession_state_set_def s3_def
        OeSession_set_sess_context_def OeSession_set_subject_def srv_write_def speaks_def log_effect_def envelope_def OekMsg_get_cid_def)
  then have "invoke_msg_handler srv w now (message ?j) (create_context now) (st\<lparr>sv_session := ?s\<lparr>s_conn := c1\<rparr>\<rparr>) = Inr (True, ?st)"
    using ty by (simp add: invoke_msg_handler_def access_check_def)
  then have "on_message srv w now st = Inr (rest \<noteq> [], ?st)"
    using c1(4) available_buffers [OF ev(1) c(2)] c(3) by (simp add: OeSession_get_conn_def)
  moreover have "s3\<lparr>s_conn := c\<rparr> = OeSession_state_set (?s\<lparr>s_conn := c, s_subject := Some ?subject, s_sess_context := Some k\<rparr>)
      OENET_CLIENT_CONNECTED"
    by (simp add: s3_def OeSession_state_set_def)
  ultimately show ?thesis using c(2-4) res(2,3) by (intro exI [of _ c] exI [of _ ?subject] exI [of _ resmsg] conjI) simp_all
qed

section \<open>What the kernel is asked\<close>

lemma native_reaches:
  "(serves srv)\<^sup>*\<^sup>* x y \<Longrightarrow> native srv \<Longrightarrow> session_inv srv sid x \<Longrightarrow> session_inv srv sid y"
  unfolding native_def by (blast intro: jcl.session_reaches json.session_reaches)

lemma native_advances: "native srv \<Longrightarrow> buffered_on_read n srv w now st = Inr st' \<Longrightarrow> advances srv w st st'"
  unfolding native_def by (blast intro: jcl.buffered_on_read_advances json.buffered_on_read_advances)

text \<open>C12: whichever of its protocols a server speaks, and whatever has happened to a session since its connection was accepted, a command that the server gives a kernel on behalf of
  the client is one of the five commands a kernel knows, the session is connected, the kernel is the one it connected to and one
  that the server was given, and if the server has a security context, the client has logged in and the context allows it this
  message.\<close>

theorem server_guards:
  assumes sp: "native srv" and net: "idset_ok (OeNet_get_sessions net)"
    and st: "(serves srv)\<^sup>*\<^sup>* (fst (listen_for_bytes net conn buf_ev timer t0), {#}) (st, p)"
    and r: "buffered_on_read n srv w now st = Inr st'"
  shows "\<exists>new. sv_out st' = sv_out st @ new \<and>
    (\<forall>k ctx. Command k ctx \<in> set new \<longrightarrow> cx_write_response_cb ctx \<longrightarrow>
       OeSession_state_is_set (sv_session st') OENET_CLIENT_CONNECTED \<and>
       s_sess_context (sv_session st') = Some k \<and> (\<exists>extentname. get_kernel srv extentname = Some k) \<and>
       (\<exists>msg. cx_cmd_msg ctx = Some msg \<and> OekMsg_get_type msg \<in> {GET_CMD, PUT_CMD, STA_CMD, UPT_CMD, UPL_CMD} \<and>
          (\<forall>c. os_security_context srv = Some c \<longrightarrow>
             (\<exists>subject. s_subject (sv_session st') = Some subject \<and> Subject_is_authenticated subject \<and>
                SecurityContext_authorize w c subject msg = ALLOW))))"
proof -
  obtain sid where "session_inv srv sid (st, p)" using native_reaches [OF st sp] fresh_inv [OF net, of srv conn buf_ev timer t0] by blast
  then have "admitted srv (sv_session st)" by (simp add: session_inv_def)
  then obtain new where n: "sv_out st' = sv_out st @ new" "\<forall>e \<in> set new. entitled srv w (sv_session st') e"
      and a: "admitted srv (sv_session st')"
    using native_advances [OF sp r] unfolding advances_def by blast
  show ?thesis
  proof (intro exI [of _ new] conjI allI impI)
    fix k ctx assume c: "Command k ctx \<in> set new" "cx_write_response_cb ctx"
    then have e: "entitled srv w (sv_session st') (Command k ctx)" using n(2) by blast
    then show con: "OeSession_state_is_set (sv_session st') OENET_CLIENT_CONNECTED" "s_sess_context (sv_session st') = Some k"
      "\<exists>msg. cx_cmd_msg ctx = Some msg \<and> OekMsg_get_type msg \<in> {GET_CMD, PUT_CMD, STA_CMD, UPT_CMD, UPL_CMD} \<and>
          (\<forall>c. os_security_context srv = Some c \<longrightarrow>
             (\<exists>subject. s_subject (sv_session st') = Some subject \<and> Subject_is_authenticated subject \<and>
                SecurityContext_authorize w c subject msg = ALLOW))"
      using c(2) unfolding entitled_def by simp_all
    show "\<exists>extentname. get_kernel srv extentname = Some k" using a con by (auto simp: admitted_def)
  qed (rule n(1))
qed

text \<open>C13: in either protocol, through everything that can happen to a session, the count of its tasks is the number of commands that the kernel has not
  answered; as long as there is one the session is not released, so the kernel never answers a session that is gone; it is
  released at most once, and listed among the sessions of the network exactly until then.\<close>

theorem session_lifetime:
  assumes sp: "native srv" and net: "idset_ok (OeNet_get_sessions net)"
    and st: "(serves srv)\<^sup>*\<^sup>* (fst (listen_for_bytes net conn buf_ev timer t0), {#}) (st, p)"
  shows "sint (s_outstanding_task_count (sv_session st)) = int (size p) \<and>
    (p \<noteq> {#} \<longrightarrow> Released \<notin> set (sv_out st)) \<and>
    count_list (sv_out st) Released \<le> 1 \<and>
    (Oec_IdSet_member (sv_sessions st) (s_sid (sv_session st)) \<longleftrightarrow> Released \<notin> set (sv_out st))"
proof -
  obtain sid where "session_inv srv sid (st, p)"
    using native_reaches [OF st sp] fresh_inv [OF net, of srv conn buf_ev timer t0] by blast
  then show ?thesis by (auto simp: session_inv_def)
qed

section \<open>A session that has connected\<close>

text \<open>A client connects and sends a command; for the sample, both ends of the connection are byte queues.\<close>

abbreviation sample_conn :: "string \<Rightarrow> (string \<times> string) OeNetConn" where
  "sample_conn input \<equiv> OeLibeventConnFactory_create queue_events (\<lambda>_. NUL) (input, [])"

definition sample_job :: jcl_msg where
  "sample_job = Write 8 0 30 True [''job'', ''1'']"

definition sample_hello :: jcl_msg where
  "sample_hello = Connect 1 ''orders'' ''ann'' ''pw''"

lemma sample_msgs:
  "printable_msg sample_job" "framed (jcl_text sample_job)" "is_command sample_job" "printable_msg sample_hello" "framed (jcl_text sample_hello)"
  by (simp_all add: sample_job_def sample_hello_def plain_text_def printable_def small_id_def small_dur_def int_range_def
      data_text_def quoted_def NUL_def)

definition ready_session :: "nat \<Rightarrow> ((string \<times> string), nat, nat) serving \<Rightarrow> bool" where
  "ready_session k st =
     (s_conn (sv_session st) = sample_conn (batch [sample_job]) \<and>
      OeSession_state_is_set (sv_session st) OENET_CLIENT_CONNECTED \<and>
      \<not> OeSession_state_is_set (sv_session st) OENET_CLIENT_CLOSING \<and>
      s_sess_context (sv_session st) = Some k \<and> s_appl_context (sv_session st) = None \<and>
      s_outstanding_task_count (sv_session st) = 0 \<and> asked (sv_out st) = [] \<and> Released \<notin> set (sv_out st))"

lemma sample_run:
  "\<exists>srv (net :: unit OeNet) st. speaks srv OeJclNet_read_msg OeJclNet_write_msg \<and> os_security_context srv = None \<and>
     idset_ok (OeNet_get_sessions net) \<and>
     (serves srv)\<^sup>*\<^sup>* (fst (listen_for_bytes net (sample_conn []) ([], []) None 0), {#}) (st, {#}) \<and> ready_session 7 st"
proof -
  obtain srv0 :: "(string \<times> string, nat, nat) OepServer"
    where srv0: "OepServer_new OeJclNet_read_msg OeJclNet_write_msg = Inr srv0" "speaks srv0 OeJclNet_read_msg OeJclNet_write_msg"
      "os_security_context srv0 = None" "get_kernel (OepServer_add_kernel srv0 ''orders'' 7) ''orders'' = Some 7"
    using new_server_kernel [of OeJclNet_read_msg OeJclNet_write_msg "''orders''" 7] by blast
  define srv where "srv = OepServer_add_kernel srv0 ''orders'' 7"
  have srv: "speaks srv OeJclNet_read_msg OeJclNet_write_msg" "os_security_context srv = None" "get_kernel srv ''orders'' = Some 7"
    using srv0 by (simp_all add: srv_def speaks_def OepServer_add_kernel_def)
  obtain ids where ids: "Oec_IdSet_new 100 = Inr ids" "idset_ok ids"
    using Set_new_ok [of 100 itemcmp itemhash] by (auto simp: Oec_IdSet_new_def idset_ok_def)
  then obtain net :: "unit OeNet" where net: "OeNet_new () = Inr net" "idset_ok (OeNet_get_sessions net)" "net_lastid net = 0"
      "net_create_id net = None"
    by (simp add: OeNet_new_def OeNet_get_sessions_def)
  define st0 :: "(string \<times> string, nat, nat) serving" where "st0 = fst (listen_for_bytes net (sample_conn []) ([], []) None 0)"
  define st1 where "st1 = with_session (\<lambda>s. s\<lparr>s_conn := sample_conn (batch [sample_hello])\<rparr>) st0"
  have f: "s_state (sv_session st1) = 0" "s_appl_context (sv_session st1) = None" "s_sid (sv_session st1) = 1" "sv_out st1 = []"
      "sv_out st0 = []" "s_outstanding_task_count (sv_session st1) = 0"
    using net by (simp_all add: st1_def st0_def with_session_def listen_for_bytes_def oesession_new_def OeNet_create_id_def
        OeSession_set_id_def Let_def)
  have m: "made_by queue_events (\<lambda>_. NUL) (s_conn (sv_session st1))"
      "on_conn fst (sv_session st1) = jcl_text sample_hello @ MSG_END_BYTES @ []"
    by (simp add: st1_def with_session_def made_by_create)
      (simp add: st1_def with_session_def batch_def OeLibeventConnFactory_create_def)
  obtain c subject resmsg where r: "on_message srv 0 0 st1 = Inr ([] \<noteq> ([] :: string),
      st1\<lparr>sv_session := OeSession_state_set ((sv_session st1)\<lparr>s_conn := c, s_subject := Some subject, s_sess_context := Some 7\<rparr>)
           OENET_CLIENT_CONNECTED, sv_out := sv_out st1 @ [Sent resmsg]\<rparr>)"
    using on_message_connect [OF srv(1) queue_buffers m(1) srv(2) _ srv(3) f(2) sample_msgs(4,5) [unfolded sample_hello_def] _
        m(2) [unfolded sample_hello_def], of 0 0] f
    by (auto simp: OeSession_state_is_set_def OEC_FLAG_ISSET_def small_id_def)
  define st2 where "st2 = st1\<lparr>sv_session := OeSession_state_set ((sv_session st1)\<lparr>s_conn := c, s_subject := Some subject,
      s_sess_context := Some 7\<rparr>) OENET_CLIENT_CONNECTED, sv_out := sv_out st1 @ [Sent resmsg]\<rparr>"
  have b: "buffered_on_read 1 srv 0 0 st1 = Inr st2"
    using r f by (simp add: OeSession_state_is_set_def OEC_FLAG_ISSET_def st2_def)
  define st3 where "st3 = with_session (\<lambda>s. s\<lparr>s_conn := sample_conn (batch [sample_job])\<rparr>) st2"
  have 1: "serves srv (st0, {#}) (st1, {#})" unfolding st1_def using f by (intro serves.Receives) simp
  have 2: "serves srv (st1, {#}) (st2, {#})"
    using serves.Reads [OF _ b, of "{#}"] f by (simp add: st2_def)
  have 3: "serves srv (st2, {#}) (st3, {#})"
    unfolding st3_def using f by (intro serves.Receives) (simp add: st2_def)
  have "(serves srv)\<^sup>*\<^sup>* (st0, {#}) (st3, {#})"
    using 1 2 3 by (simp add: converse_rtranclp_into_rtranclp)
  moreover have "ready_session 7 st3"
    using f by (simp add: ready_session_def st3_def st2_def with_session_def OeSession_state_set_def OeSession_state_is_set_def
        OEC_FLAG_ISSET_def OEC_FLAG_SET_def OENET_CLIENT_CONNECTED_def OENET_CLIENT_CLOSING_def)
  ultimately show ?thesis using srv net(2) unfolding st0_def by blast
qed

lemma ready_reads:
  assumes "speaks srv OeJclNet_read_msg OeJclNet_write_msg" "os_security_context srv = None" "ready_session k st"
  shows "\<exists>st'. buffered_on_read 1 srv w 0 st = Inr st' \<and>
    sv_out st' = sv_out st @ [Command k (command_context 0 (message sample_job))]"
proof -
  have m: "made_by queue_events (\<lambda>_. NUL) (s_conn (sv_session st))"
      "on_conn fst (sv_session st) = jcl_text sample_job @ MSG_END_BYTES @ []"
    using assms(3) by (simp add: ready_session_def made_by_create)
      (use assms(3) in \<open>simp add: ready_session_def batch_def OeLibeventConnFactory_create_def\<close>)
  show ?thesis
    using on_message_command [OF assms(1) queue_buffers m(1) assms(2) _ _ _ sample_msgs(3,1,2) m(2), of k w 0] assms(3)
    by (auto simp: ready_session_def)
qed

theorem server_guards_witness:
  "\<exists>srv st st'. ready_session 7 st \<and> buffered_on_read 1 srv 0 0 st = Inr st' \<and>
     Command 7 (command_context 0 (message sample_job)) \<in> set (sv_out st') \<and>
     s_sess_context (sv_session st') = Some 7 \<and> (\<exists>extentname. get_kernel srv extentname = Some 7)"
proof -
  obtain srv and net :: "unit OeNet" and st where s: "speaks srv OeJclNet_read_msg OeJclNet_write_msg" "os_security_context srv = None"
      "idset_ok (OeNet_get_sessions net)"
      "(serves srv)\<^sup>*\<^sup>* (fst (listen_for_bytes net (sample_conn []) ([], []) None 0), {#}) (st, {#})" "ready_session 7 st"
    using sample_run by blast
  obtain st' where st': "buffered_on_read 1 srv 0 0 st = Inr st'"
      "sv_out st' = sv_out st @ [Command 7 (command_context 0 (message sample_job))]"
    using ready_reads [OF s(1,2,5)] by blast
  have "cx_write_response_cb (command_context 0 (message sample_job))" by (simp add: command_context_def)
  moreover have "native srv" using s(1) by (simp add: native_def)
  ultimately show ?thesis using server_guards [OF _ s(3,4) st'(1)] s(5) st' by fastforce
qed

theorem session_lifetime_witness:
  "\<exists>srv (net :: unit OeNet) st p. (serves srv)\<^sup>*\<^sup>* (fst (listen_for_bytes net (sample_conn []) ([], []) None 0), {#}) (st, p) \<and>
     size p = 1 \<and> sint (s_outstanding_task_count (sv_session (st :: (string \<times> string, nat, nat) serving))) = 1 \<and> Released \<notin> set (sv_out st) \<and>
     Oec_IdSet_member (sv_sessions st) (s_sid (sv_session st))"
proof -
  obtain srv and net :: "unit OeNet" and st where s: "speaks srv OeJclNet_read_msg OeJclNet_write_msg" "os_security_context srv = None"
      "idset_ok (OeNet_get_sessions net)"
      "(serves srv)\<^sup>*\<^sup>* (fst (listen_for_bytes net (sample_conn []) ([], []) None 0), {#}) (st, {#})" "ready_session 7 st"
    using sample_run by blast
  obtain st' where st': "buffered_on_read 1 srv 0 0 st = Inr st'"
      "sv_out st' = sv_out st @ [Command 7 (command_context 0 (message sample_job))]"
    using ready_reads [OF s(1,2,5)] by blast
  let ?p = "{#command_context 0 (message sample_job)#}"
  have "serves srv (st, {#}) (st', ?p)"
    using serves.Reads [OF _ st'(1), of "{#}"] s(5) st'(2) by (simp add: ready_session_def command_context_def)
  then have r: "(serves srv)\<^sup>*\<^sup>* (fst (listen_for_bytes net (sample_conn []) ([], []) None 0), {#}) (st', ?p)"
    using s(4) by (rule_tac rtranclp.rtrancl_into_rtrancl)
  have "native srv" using s(1) by (simp add: native_def)
  from session_lifetime [OF this s(3) r] r show ?thesis by (intro exI [of _ srv] exI [of _ net] exI [of _ st'] exI [of _ ?p]) simp
qed

theorem server_batch_witness:
  "\<exists>srv st st'. ready_session 7 st \<and> buffered_on_read 2 srv 0 0 st = Inr st' \<and>
     sv_out st' = sv_out st @ [Command 7 (command_context 0 (message sample_job))] \<and>
     sint (s_outstanding_task_count (sv_session st')) = 1"
proof -
  obtain srv :: "(string \<times> string, nat, nat) OepServer" and st where s: "speaks srv OeJclNet_read_msg OeJclNet_write_msg" "os_security_context srv = None" "ready_session 7 st"
    using sample_run by blast
  have m: "made_by queue_events (\<lambda>_. NUL) (s_conn (sv_session st))" using s(3) by (simp add: ready_session_def made_by_create)
  have r: "on_conn fst (sv_session st) = batch [sample_job] @ take 0 (jcl_text sample_job @ MSG_END_BYTES)"
    using s(3) by (simp add: ready_session_def OeLibeventConnFactory_create_def)
  show ?thesis
    using server_batch [OF s(1) queue_buffers m s(2) _ _ _ _ _ sample_msgs(2) _ r, of 7 2 0 0] s(3) sample_msgs
    by (auto simp: ready_session_def MSG_END_BYTES_def)
qed

section \<open>Clients that go away\<close>

lemma tids_list:
  assumes "txns_ok s" "s_pending_txns s = Some t"
  shows "distinct (Set_toArray t) \<and> set (Set_toArray t) = tids s"
proof -
  have g: "atom.good t" using assms by (simp add: txns_ok_def)
  have "distinct xs" if "sorted_wrt (\<noteq>) xs" for xs :: "oe_id list" using that by (induction xs) auto
  then show ?thesis using atom.members_distinct [OF atom.goodD [OF g]] assms(2) by (simp add: tids_def)
qed

lemma cleanup_idle:
  assumes "s_outstanding_task_count (sv_session st) = 0"
  shows "cleanup_conn srv w now st =
    c_bind (rollback_transactions ((with_session (\<lambda>s.
            let s' = OeSession_state_set (OeSession_state_clear s OENET_CLIENT_CONNECTED) OENET_CLIENT_CLOSING
            in s'\<lparr>s_conn := OeNetConn_clear_timeout (s_conn s')\<rparr>) st)
        \<lparr>sv_sessions := snd (Oec_IdSet_remove (sv_sessions st) (s_sid (sv_session st)))\<rparr>))
      (\<lambda>st3. Inr (log_effect Released st3))"
proof -
  have "OEC_FLAG_ISSET (OEC_FLAG_SET x OENET_CLIENT_CLOSING) OENET_CLIENT_CLOSING" for x
    using state_flags(2) [of "s\<lparr>s_state := x\<rparr>" for s] by (simp add: OeSession_state_is_set_def OeSession_state_set_def)
  then show ?thesis
    using assms by (simp add: cleanup_conn_def with_session_def Let_def OeSession_get_task_count_def OeSession_get_id_def
        OeSession_state_set_def OeSession_state_clear_def OeSession_state_is_set_def srv_cleanup_def)
qed


text \<open>C24: when the client goes away while its last command is still being answered, the answer rolls back the pending transactions and
  releases their set, but the session keeps the pointer: the end of the connection uses the set again after its release.\<close>

theorem rollback_after_free:
  assumes "s_outstanding_task_count (sv_session st) = 1" "\<not> OeSession_state_is_set (sv_session st) OENET_CLIENT_CONNECTED"
    "s_rb_on_dis (sv_session st)" "s_pending_txns (sv_session st) = Some t" "\<not> sv_txns_freed st"
    "s_sess_context (sv_session st) = Some k" "cx_res_msgs ctx = None"
  shows "\<exists>st'. write_to_client_cb srv ctx st = Inr st' \<and>
    sv_out st' = sv_out st @ map (\<lambda>t. Command k (rollback_of t)) (Set_toArray t) @ [Close] \<and>
    cleanup_conn srv w now st' = Inl Use_After_Free"
proof -
  have "update_pending_txns ctx st = Inr st" using assms(7) by (simp add: update_pending_txns_def)
  moreover have "OeSession_decr_task_count (sv_session st) = Inr (0, (sv_session st)\<lparr>s_outstanding_task_count := 0\<rparr>)"
    using assms(1) by (simp add: OeSession_decr_task_count_def Let_def)
  moreover have "rollback_transactions (st\<lparr>sv_session := (sv_session st)\<lparr>s_outstanding_task_count := 0\<rparr>\<rparr>) =
      Inr (st\<lparr>sv_session := (sv_session st)\<lparr>s_outstanding_task_count := 0\<rparr>,
        sv_txns_freed := True, sv_out := sv_out st @ map (\<lambda>t. Command k (rollback_of t)) (Set_toArray t)\<rparr>)"
    using assms by (simp add: rollback_transactions_def OeSession_rb_on_disconnect_def OeSession_get_tids_def
        OeSession_get_sess_context_def rollback_loop_out)
  ultimately have "write_to_client_cb srv ctx st = Inr (OeNet_cleanup_conn
      (st\<lparr>sv_session := (sv_session st)\<lparr>s_outstanding_task_count := 0\<rparr>,
        sv_txns_freed := True, sv_out := sv_out st @ map (\<lambda>t. Command k (rollback_of t)) (Set_toArray t)\<rparr>))"
    using assms(2) by (simp add: write_to_client_cb_def OeSession_state_is_set_def)
  moreover have "cleanup_conn srv w now (OeNet_cleanup_conn
      (st\<lparr>sv_session := (sv_session st)\<lparr>s_outstanding_task_count := 0\<rparr>, sv_txns_freed := True, sv_out := es\<rparr>)) =
      Inl Use_After_Free" for es
    using assms(3,4) by (subst cleanup_idle)
      (simp_all add: OeNet_cleanup_conn_def with_session_def log_effect_def OeSession_state_set_def OeSession_state_clear_def Let_def
        rollback_transactions_def OeSession_rb_on_disconnect_def OeSession_get_tids_def)
  moreover have "sv_out (OeNet_cleanup_conn x) = sv_out x @ [Close]" for x :: "('a, 'b, 'c) serving"
    by (simp add: OeNet_cleanup_conn_def with_session_def log_effect_def)
  ultimately show ?thesis by simp
qed

text \<open>A client that has begun transaction 5 and wants its transactions rolled back when it goes away.\<close>

definition leaving_client :: "(string \<times> string, nat, nat) srv_session" where
  "leaving_client = (oesession_new (sample_conn []) 0)\<lparr>s_sess_context := Some 7, s_rb_on_dis := True\<rparr>"

lemma leaving_session:
  "\<exists>s. OeSession_save_tid leaving_client 5 = Inr s \<and> txns_ok s \<and> tids s = {5} \<and> s_sess_context s = Some 7 \<and> s_rb_on_dis s \<and>
     s_outstanding_task_count s = 0 \<and> s_state s = 0"
proof -
  have "txns_ok leaving_client" "tids leaving_client = {}"
    by (simp_all add: leaving_client_def oesession_new_def txns_ok_def tids_def)
  then obtain s where s: "OeSession_save_tid leaving_client 5 = Inr s" "txns_ok s" "tids s = {5}"
      "s = leaving_client\<lparr>s_pending_txns := s_pending_txns s\<rparr>"
    using save_tid_ok [of leaving_client 5] by auto
  then obtain x where "s = leaving_client\<lparr>s_pending_txns := x\<rparr>" by blast
  then show ?thesis using s(1-3) by (simp add: leaving_client_def oesession_new_def)
qed

definition leaving :: "(string \<times> string, nat, nat) srv_session \<Rightarrow> Oec_IdSet \<Rightarrow> (string \<times> string, nat, nat) serving" where
  "leaving s ids = \<lparr>sv_session = s, sv_txns_freed = False, sv_sessions = ids, sv_out = []\<rparr>"

lemma new_ids: "\<exists>ids. Oec_IdSet_new 100 = Inr ids \<and> idset_ok ids"
  using Set_new_ok [of 100 itemcmp itemhash] by (auto simp: Oec_IdSet_new_def idset_ok_def)

lemma distinct_single: "distinct ts \<Longrightarrow> set ts = {x} \<Longrightarrow> ts = [x]"
  by (cases ts; cases "tl ts") auto


theorem rollback_after_free_witness:
  "\<exists>s ids srv st'. OeSession_save_tid leaving_client 5 = Inr s \<and> Oec_IdSet_new 100 = Inr ids \<and>
     OepServer_new OeJclNet_read_msg OeJclNet_write_msg = Inr srv \<and>
     write_to_client_cb srv OEK_Context_new (leaving (s\<lparr>s_outstanding_task_count := 1\<rparr>) ids) = Inr st' \<and>
     Command 7 (rollback_of 5) \<in> set (sv_out st') \<and> cleanup_conn srv 0 0 st' = Inl Use_After_Free"
proof -
  obtain s where s: "OeSession_save_tid leaving_client 5 = Inr s" "txns_ok s" "tids s = {5}" "s_sess_context s = Some 7" "s_rb_on_dis s"
      "s_state s = 0"
    using leaving_session by blast
  then obtain t where t: "s_pending_txns s = Some t" "5 \<in> set (Set_toArray t)" by (auto simp: tids_def split: option.splits)
  obtain ids where ids: "Oec_IdSet_new 100 = Inr ids" using new_ids by blast
  obtain srv :: "(string \<times> string, nat, nat) OepServer" where srv: "OepServer_new OeJclNet_read_msg OeJclNet_write_msg = Inr srv"
    using new_server_kernel [of OeJclNet_read_msg OeJclNet_write_msg "[]" 7] by blast
  let ?st = "leaving (s\<lparr>s_outstanding_task_count := 1\<rparr>) ids"
  obtain st' where "write_to_client_cb srv OEK_Context_new ?st = Inr st'"
      "sv_out st' = map (\<lambda>t. Command 7 (rollback_of t)) (Set_toArray t) @ [Close]"
      "cleanup_conn srv 0 0 st' = Inl Use_After_Free"
    using rollback_after_free [of ?st t 7 OEK_Context_new srv 0 0] s t
    by (auto simp: leaving_def OeSession_state_is_set_def OEC_FLAG_ISSET_def OEK_Context_new_def)
  then show ?thesis using s(1) ids srv t(2) by (intro exI [of _ s] exI [of _ ids] exI [of _ srv] exI [of _ st']) auto
qed

theorem response_aborts_server_witness:
  "\<exists>srv st. s_sess_context (sv_session st) = Some (7 :: nat) \<and>
     s_conn (sv_session st) = sample_conn (jcl_text (Committed 3) @ MSG_END_BYTES) \<and>
     OepServer_new OeJclNet_read_msg OeJclNet_write_msg = Inr srv \<and>
     buffered_on_read 1 srv (0 :: nat) 0 st = Inl Assert_Failed"
proof -
  obtain srv :: "(string \<times> string, nat, nat) OepServer" where srv: "OepServer_new OeJclNet_read_msg OeJclNet_write_msg = Inr srv"
      "speaks srv OeJclNet_read_msg OeJclNet_write_msg" "os_security_context srv = None"
    using new_server_kernel [of OeJclNet_read_msg OeJclNet_write_msg "[]" 7] by blast
  obtain st where st: "ready_session 7 st" using sample_run by blast
  define st1 where "st1 = with_session (\<lambda>s. s\<lparr>s_conn := sample_conn (jcl_text (Committed 3) @ MSG_END_BYTES)\<rparr>) st"
  have f: "OeSession_state_is_set (sv_session st1) OENET_CLIENT_CONNECTED" "\<not> OeSession_state_is_set (sv_session st1) OENET_CLIENT_CLOSING"
      "s_sess_context (sv_session st1) = Some 7" "s_appl_context (sv_session st1) = None"
    using st by (simp_all add: st1_def with_session_def ready_session_def OeSession_state_is_set_def)
  have m: "made_by queue_events (\<lambda>_. NUL) (s_conn (sv_session st1))" by (simp add: st1_def with_session_def made_by_create)
  have "on_conn fst (sv_session st1) = jcl_text (Committed 3) @ MSG_END_BYTES @ []"
    by (simp add: st1_def with_session_def OeLibeventConnFactory_create_def)
  note a = response_aborts_server [OF srv(2) queue_buffers m srv(3) f _ _ _ _ this]
  have "buffered_on_read (Suc 0) srv 0 0 st1 = Inl Assert_Failed"
    by (rule a) (simp_all add: envelope_def OekMsg_get_type_def small_id_def NUL_def)
  then show ?thesis using srv(1) f(3)
    by (intro exI [of _ srv] exI [of _ st1]) (simp add: st1_def with_session_def)
qed

end
