(* ===== verification/Jcl_Frames.thy ===== *)
theory Jcl_Frames
  imports Jcl_Net
begin

text \<open>
  The framing of JCL messages: the reader of \<^verbatim>\<open>corelib/OeJclNet.c\<close> against a reference that splits a stream of bytes at its
  first empty line.  In general \<^verbatim>\<open>oe_memmem\<close> of \<^verbatim>\<open>corelib/oec_values.c\<close> misses occurrences; for the end of a message it does not.
\<close>

fun split_frame :: "string \<Rightarrow> (string \<times> string) option" where
  "split_frame (c # d # s) =
     (if c = CHR 0x0A \<and> d = CHR 0x0A then Some ([c, d], s) else map_option (\<lambda>(f, r). (c # f, r)) (split_frame (d # s)))"
| "split_frame _ = None"

lemma split_frame_skip:
  "c \<noteq> CHR 0x0A \<Longrightarrow> split_frame (c # s) = map_option (\<lambda>(f, r). (c # f, r)) (split_frame s)"
  by (cases s) simp_all

lemma split_frame_append:
  "CHR 0x0A \<notin> set t \<Longrightarrow> split_frame (t @ s) = map_option (\<lambda>(f, r). (t @ f, r)) (split_frame s)"
  by (induction t) (auto simp: split_frame_skip map_option.compositionality comp_def case_prod_unfold option.map_ident)

lemma split_frame_Some: "split_frame s = Some (f, r) \<Longrightarrow> s = f @ r \<and> 2 \<le> length f"
  by (induction s arbitrary: f rule: split_frame.induct) (auto split: if_splits)

lemma memchr_split: "memchr s c = Some i \<Longrightarrow> \<exists>t s'. s = t @ c # s' \<and> c \<notin> set t \<and> i = length t"
proof (induction s arbitrary: i)
  case (Cons x s)
  show ?case
  proof (cases "x = c")
    case True
    then show ?thesis using Cons.prems by (intro exI [of _ "[]"] exI [of _ s]) simp
  next
    case False
    then obtain k where "memchr s c = Some k" "i = Suc k" using Cons.prems by auto
    with Cons.IH obtain t s' where "s = t @ c # s'" "c \<notin> set t" "k = length t" by blast
    then show ?thesis using False \<open>i = Suc k\<close> by (intro exI [of _ "x # t"] exI [of _ s']) simp
  qed
qed simp

lemma memmem_split: "oe_memmem s MSG_END_BYTES = map_option (\<lambda>(f, r). length f - 2) (split_frame s)"
proof (induction "length s" arbitrary: s rule: less_induct)
  case less
  show ?case
  proof (cases "memchr s (CHR 0x0A)")
    case None
    then have "CHR 0x0A \<notin> set s" by (simp add: memchr_None)
    then have "split_frame s = None" using split_frame_append [of s "[]"] by simp
    then show ?thesis using None unfolding oe_memmem.simps [of s] by (simp add: MSG_END_BYTES_def)
  next
    case (Some i)
    then obtain t s' where s: "s = t @ CHR 0x0A # s'" "CHR 0x0A \<notin> set t" "i = length t" using memchr_split by blast
    have sf: "split_frame s = map_option (\<lambda>(f, r). (t @ f, r)) (split_frame (CHR 0x0A # s'))"
      unfolding s(1) by (rule split_frame_append [OF s(2)])
    have mm: "oe_memmem s MSG_END_BYTES =
        (case s' of [] \<Rightarrow> None | c # u \<Rightarrow> if c = CHR 0x0A then Some i else map_option (\<lambda>j. i + 2 + j) (oe_memmem u MSG_END_BYTES))"
      using Some unfolding s(1,3)
      by (subst oe_memmem.simps, cases s') (simp_all add: MSG_END_BYTES_def)
    show ?thesis
    proof (cases s')
      case Nil
      then show ?thesis by (simp add: mm sf)
    next
      case (Cons c u)
      have "length u < length s" by (simp add: s(1) Cons)
      then have IH: "oe_memmem u MSG_END_BYTES = map_option (\<lambda>(f, r). length f - 2) (split_frame u)" by (rule less.hyps)
      show ?thesis
      proof (cases "c = CHR 0x0A")
        case True
        then show ?thesis by (simp add: mm sf Cons s(3))
      next
        case False
        then show ?thesis
          using split_frame_Some [of u] by (cases "split_frame u") (auto simp: mm sf Cons s(3) IH split_frame_skip)
      qed
    qed
  qed
qed

text \<open>C38: the reader of a connection is the reference that splits what has arrived at the first empty line: without one it takes
  nothing, otherwise it takes exactly the bytes up to and with the empty line, leaves the rest, and the message is what the
  parser makes of them.\<close>

theorem jcl_frames:
  assumes ev: "buffers ev received sent" "made_by ev stack (s_conn b)"
  shows "case split_frame (on_conn received b) of
      None \<Rightarrow> OeJclNet_read_msg b = Inr (0, None, b)
    | Some (f, rest) \<Rightarrow>
        \<exists>c. made_by ev stack c \<and> received (conn_obj c) = rest \<and> sent (conn_obj c) = on_conn sent b \<and>
          OeJclNet_read_msg b = c_bind (first_cmd (takeWhile (\<lambda>c. c \<noteq> NUL) f)) (\<lambda>msg.
            Inr (if msg = None then - 1 else 1, msg, b\<lparr>s_conn := c\<rparr>))"
proof (cases "split_frame (on_conn received b)")
  case None
  then have "oe_memmem (on_conn received b) MSG_END_BYTES = None" by (simp add: memmem_split)
  then show ?thesis using None by (simp add: OeJclNet_read_msg_def OeSession_get_conn_def get_pos_buffers [OF ev] Let_def)
next
  case (Some p)
  then obtain f rest where f: "split_frame (on_conn received b) = Some (f, rest)" by (cases p) auto
  have r: "on_conn received b = f @ rest" "2 \<le> length f" using split_frame_Some [OF f] by simp_all
  obtain n where n: "length f = n + 2" using r(2) by (metis le_add_diff_inverse2)
  then have m: "oe_memmem (on_conn received b) MSG_END_BYTES = Some n" using f by (simp add: memmem_split)
  obtain c where c: "OeNetConn_read (s_conn b) (length f) = (take (length f) (on_conn received b), c)" "made_by ev stack c"
      "received (conn_obj c) = drop (length f) (on_conn received b)" "sent (conn_obj c) = on_conn sent b"
    by (rule read_buffers [OF ev])
  have "OeNetConn_available (s_conn b) \<noteq> 0" using r by (auto simp: available_buffers [OF ev])
  then have "OeJclNet_read_msg b = c_bind (first_cmd (takeWhile (\<lambda>c. c \<noteq> NUL) f)) (\<lambda>msg.
      Inr (if msg = None then - 1 else 1, msg, b\<lparr>s_conn := c\<rparr>))"
    using c(1) r(1) m n by (simp add: OeJclNet_read_msg_def OeSession_get_conn_def get_pos_buffers [OF ev] Let_def)
  then show ?thesis using f c r(1) by auto
qed

theorem jcl_frames_witness:
  "OeJclNet_read_msg (queue_session ''dis();'') = Inr (0, None, queue_session ''dis();'')"
  using jcl_frames [OF queue_buffers queue_session_made, of "''dis();''"] by simp

end
