(* ===== verification/Futures.thy ===== *)
theory Futures
  imports Values
begin

text \<open>
  Futures (\<^verbatim>\<open>corelib/Oec_Future.c\<close>) and latches (\<^verbatim>\<open>corelib/Oec_CountdownLatch.c\<close>).

  A future that has been released is \<^const>\<open>None\<close>, and using it is \<^const>\<open>Use_After_Free\<close>.  What a mutex protects is one step.  A wait is
  split at its waits on the condition: \<open>get_check\<close> is the test of the loop, \<open>get_woken\<close> what follows a wake-up at the time \<open>now\<close>.
\<close>

section \<open>Futures\<close>

record 'v Oec_Future =
  fu_arena :: bool
  fu_oeid :: oe_id
  fu_value :: "'v option"
  fu_done :: bool
  fu_is_error :: bool
  fu_freed :: bool
  fu_alloc :: bool

definition with_future :: "'v Oec_Future option \<Rightarrow> ('v Oec_Future \<Rightarrow> 'a c_result) \<Rightarrow> 'a c_result" where
  "with_future f g = (case f of None \<Rightarrow> Inl Use_After_Free | Some x \<Rightarrow> g x)"

definition Oec_Future_new :: "'v Oec_Future option" where
  "Oec_Future_new =
     Some \<lparr>fu_arena = False, fu_oeid = 0, fu_value = None, fu_done = False, fu_is_error = False, fu_freed = False, fu_alloc = False\<rparr>"

definition Oec_Future_free :: "'v Oec_Future option \<Rightarrow> (int \<times> 'v Oec_Future option) c_result" where
  "Oec_Future_free f = with_future f (\<lambda>x.
     let doit = fu_done x; rc = (if doit then 0 else 1); x' = x\<lparr>fu_freed := True\<rparr>
     in Inr (rc, if doit then None else Some x'))"

definition Oec_Future_is_done :: "'v Oec_Future option \<Rightarrow> bool c_result" where
  "Oec_Future_is_done f = with_future f (\<lambda>x. Inr (fu_done x))"

definition future_set :: "'v Oec_Future option \<Rightarrow> 'v option \<Rightarrow> oe_id \<Rightarrow> bool \<Rightarrow> 'v Oec_Future option c_result" where
  "future_set f v oeid is_error = with_future f (\<lambda>x.
     if fu_done x then Inl Assert_Failed
     else if fu_freed x then c_bind (Oec_Future_free (Some x)) (\<lambda>(rc, f'). Inr f')
     else Inr (Some ((if v \<noteq> None then x\<lparr>fu_value := v, fu_is_error := is_error\<rparr> else x\<lparr>fu_oeid := oeid\<rparr>)\<lparr>fu_done := True\<rparr>)))"

definition Oec_Future_setid :: "'v Oec_Future option \<Rightarrow> oe_id \<Rightarrow> 'v Oec_Future option c_result" where
  "Oec_Future_setid f oeid = future_set f None oeid False"

definition Oec_Future_set :: "'v Oec_Future option \<Rightarrow> 'v option \<Rightarrow> 'v Oec_Future option c_result" where
  "Oec_Future_set f v = future_set f v 0 False"

definition Oec_Future_seterror :: "'v Oec_Future option \<Rightarrow> 'v option \<Rightarrow> 'v Oec_Future option c_result" where
  "Oec_Future_seterror f v = with_future f (\<lambda>x. future_set (Some (x\<lparr>fu_done := False\<rparr>)) v 0 True)"

definition Oec_Future_is_error :: "'v Oec_Future option \<Rightarrow> bool c_result" where
  "Oec_Future_is_error f = with_future f (\<lambda>x. Inr (fu_is_error x))"

definition Oec_Future_alloc :: "'v Oec_Future option \<Rightarrow> 'v Oec_Future option c_result" where
  "Oec_Future_alloc f = with_future f (\<lambda>x. Inr (Some (x\<lparr>fu_alloc := True\<rparr>)))"

definition Oec_Future_set_arena :: "'v Oec_Future option \<Rightarrow> bool \<Rightarrow> 'v Oec_Future option c_result" where
  "Oec_Future_set_arena f arena = with_future f (\<lambda>x. Inr (Some (x\<lparr>fu_arena := arena\<rparr>)))"

section \<open>Waiting\<close>

text \<open>The time at which a wait gives up, and the absolute time handed to \<^verbatim>\<open>pthread_cond_timedwait\<close>: \<^verbatim>\<open>tv_nsec\<close> gets microseconds.\<close>

definition stop_time :: "oe_time \<Rightarrow> oe_time \<Rightarrow> oe_time \<Rightarrow> oe_time c_result" where
  "stop_time forever tmo starttime =
     (let t = sint (if tmo = OEC_FOREVER then forever else tmo); s = sint starttime in
      if - (2 ^ 63) \<le> s + t \<and> s + t < 2 ^ 63 then Inr (word_of_int (s + t)) else Inl Int_Overflow)"

definition wait_spec :: "int \<Rightarrow> int \<Rightarrow> int \<Rightarrow> int \<times> int" where
  "wait_spec tmo tv_sec tv_usec =
     (let nsecs = (tmo smod 1000) * 1000 + tv_usec in (tmo sdiv 1000 + tv_sec + nsecs sdiv 1000000, nsecs smod 1000000))"

lemma sdiv_smod_pos: "0 \<le> k \<Longrightarrow> 0 < l \<Longrightarrow> k sdiv l = k div l \<and> k smod l = k mod (l :: int)"
  by (cases "k = 0") (simp_all add: signed_divide_int_def signed_modulo_int_def)

lemma micros_as_nanos:
  fixes a b m q s u :: int
  assumes "b * 1000 + u = 1000000 * q + m" "0 \<le> m" "m < 1000000"
  shows "(a + s + q) * 1000000000 + m \<le> (s * 1000000 + u + (1000 * a + b) * 1000) * 1000 \<and>
    (s * 1000000 + u + (1000 * a + b) * 1000) * 1000 < (a + s + q) * 1000000000 + m + 1000000000"
  using assms by (simp add: algebra_simps)

lemma wait_spec_early:
  assumes "wait_spec tmo tv_sec tv_usec = (s, n)" "0 \<le> tv_usec" "0 \<le> tmo"
  shows "s * 1000000000 + n \<le> (tv_sec * 1000000 + tv_usec + tmo * 1000) * 1000 \<and>
    (tv_sec * 1000000 + tv_usec + tmo * 1000) * 1000 < s * 1000000000 + n + 1000000000"
proof -
  have "wait_spec tmo tv_sec tv_usec =
    (let nsecs = (tmo mod 1000) * 1000 + tv_usec in (tmo div 1000 + tv_sec + nsecs div 1000000, nsecs mod 1000000))"
    using assms by (simp add: wait_spec_def Let_def sdiv_smod_pos)
  then have s: "s = tmo div 1000 + tv_sec + ((tmo mod 1000) * 1000 + tv_usec) div 1000000"
    and n: "n = ((tmo mod 1000) * 1000 + tv_usec) mod 1000000"
    using assms(1) by (simp_all add: Let_def)
  show ?thesis
    using micros_as_nanos [of "tmo mod 1000" tv_usec "((tmo mod 1000) * 1000 + tv_usec) div 1000000"
        "((tmo mod 1000) * 1000 + tv_usec) mod 1000000" "tmo div 1000" tv_sec]
    unfolding s n by (simp only: mult_div_mod_eq pos_mod_bound pos_mod_sign)
qed

datatype 'a waiting = Wait_More | Returns 'a

definition get_check :: "'v Oec_Future option \<Rightarrow> 'v option waiting c_result" where
  "get_check f = with_future f (\<lambda>x. Inr (if fu_done x then Returns (fu_value x) else Wait_More))"

definition get_woken :: "oe_time \<Rightarrow> oe_time \<Rightarrow> 'v Oec_Future option \<Rightarrow> 'v option waiting c_result" where
  "get_woken stoptime now f =
     (if sint stoptime \<le> sint now then with_future f (\<lambda>x. Inr (Returns (fu_value x))) else get_check f)"

definition getid_check :: "'v Oec_Future option \<Rightarrow> oe_id waiting c_result" where
  "getid_check f = with_future f (\<lambda>x. Inr (if fu_done x then Returns (fu_oeid x) else Wait_More))"

definition getid_woken :: "oe_time \<Rightarrow> oe_time \<Rightarrow> 'v Oec_Future option \<Rightarrow> oe_id waiting c_result" where
  "getid_woken stoptime now f =
     (if sint stoptime \<le> sint now then with_future f (\<lambda>x. Inr (Returns (fu_oeid x))) else getid_check f)"

section \<open>Latches\<close>

record Oec_CountdownLatch =
  la_count :: "32 word"
  la_max_count :: "32 word"

definition Oec_CountdownLatch_new :: Oec_CountdownLatch where
  "Oec_CountdownLatch_new = \<lparr>la_count = 0, la_max_count = 0\<rparr>"

definition plus_int :: "32 word \<Rightarrow> int \<Rightarrow> 32 word c_result" where
  "plus_int n v = (if - (2 ^ 31) \<le> sint n + v \<and> sint n + v < 2 ^ 31 then Inr (n + word_of_int v) else Inl Int_Overflow)"

definition latch_update :: "Oec_CountdownLatch \<Rightarrow> int \<Rightarrow> (32 word \<times> Oec_CountdownLatch) c_result" where
  "latch_update l v =
     c_bind (plus_int (la_count l) v) (\<lambda>n.
     c_bind (if 0 < v then plus_int (la_max_count l) v else Inr (la_max_count l)) (\<lambda>m.
       Inr (n, \<lparr>la_count = n, la_max_count = m\<rparr>)))"

definition Oec_CountdownLatch_get_hi_water_mark :: "Oec_CountdownLatch \<Rightarrow> 32 word" where
  "Oec_CountdownLatch_get_hi_water_mark l = la_max_count l"

definition Oec_CountdownLatch_increment :: "Oec_CountdownLatch \<Rightarrow> (32 word \<times> Oec_CountdownLatch) c_result" where
  "Oec_CountdownLatch_increment l = latch_update l 1"

definition Oec_CountdownLatch_decrement :: "Oec_CountdownLatch \<Rightarrow> (32 word \<times> Oec_CountdownLatch) c_result" where
  "Oec_CountdownLatch_decrement l = latch_update l (- 1)"

text \<open>The result of a wait for the latch that ends with this count, and what \<^verbatim>\<open>Oec_CountdownLatch_free\<close> makes of it: the result
  1 means success, but the function takes everything other than 0 for a failure.\<close>

definition latch_got :: "Oec_CountdownLatch \<Rightarrow> int" where
  "latch_got l = (if la_count l = 0 then 1 else - 1)"

definition latch_check :: "Oec_CountdownLatch \<Rightarrow> int waiting" where
  "latch_check l = (if la_count l = 0 then Returns (latch_got l) else Wait_More)"

definition latch_woken :: "oe_time \<Rightarrow> oe_time \<Rightarrow> Oec_CountdownLatch \<Rightarrow> int waiting" where
  "latch_woken stoptime now l = (if sint stoptime \<le> sint now then Returns (latch_got l) else latch_check l)"

definition Oec_CountdownLatch_free :: "Oec_CountdownLatch \<Rightarrow> int \<times> Oec_CountdownLatch option" where
  "Oec_CountdownLatch_free l = (let rc = latch_got l in if rc \<noteq> 0 then (rc, Some l) else (0, None))"

lemma latch_never_freed: "\<exists>rc. Oec_CountdownLatch_free l = (rc, Some l) \<and> rc \<noteq> 0"
  by (simp add: Oec_CountdownLatch_free_def latch_got_def)

section \<open>The two roles\<close>

text \<open>
  The server sets the value once; the client waits for it as often as it likes and frees the future once, when it does not wait.
  \<open>ro_early\<close> tells that the free came before the set.
\<close>

record 'v roles =
  ro_future :: "'v Oec_Future option"
  ro_set :: "'v option option"
  ro_waits :: "oe_time option"
  ro_got :: "'v option list"
  ro_freed :: bool
  ro_early :: bool

fun returned :: "oe_time \<Rightarrow> 'v option waiting \<Rightarrow> 'v roles \<Rightarrow> 'v roles" where
  "returned stop Wait_More r = r\<lparr>ro_waits := Some stop\<rparr>"
| "returned stop (Returns v) r = r\<lparr>ro_waits := None, ro_got := ro_got r @ [v]\<rparr>"

inductive future_step :: "'v roles \<Rightarrow> 'v roles \<Rightarrow> bool" where
  Sets: "ro_set r = None \<Longrightarrow> Oec_Future_set (ro_future r) v = Inr f \<or> Oec_Future_seterror (ro_future r) v = Inr f \<Longrightarrow>
    future_step r (r\<lparr>ro_future := f, ro_set := Some v\<rparr>)"
| Gets: "\<not> ro_freed r \<Longrightarrow> ro_waits r = None \<Longrightarrow> get_check (ro_future r) = Inr a \<Longrightarrow> future_step r (returned stop a r)"
| Wakes: "ro_waits r = Some stop \<Longrightarrow> get_woken stop now (ro_future r) = Inr a \<Longrightarrow> future_step r (returned stop a r)"
| Frees: "\<not> ro_freed r \<Longrightarrow> ro_waits r = None \<Longrightarrow> Oec_Future_free (ro_future r) = Inr (rc, f) \<Longrightarrow>
    future_step r (r\<lparr>ro_future := f, ro_freed := True, ro_early := (ro_set r = None)\<rparr>)"

definition fresh_roles :: "'v roles" where
  "fresh_roles = \<lparr>ro_future = Oec_Future_new, ro_set = None, ro_waits = None, ro_got = [], ro_freed = False, ro_early = False\<rparr>"

definition roles_inv :: "'v roles \<Rightarrow> bool" where
  "roles_inv r =
     ((case ro_future r of
         None \<Rightarrow> ro_freed r \<and> \<not> ro_early r \<and> ro_set r \<noteq> None
       | Some x \<Rightarrow> fu_freed x = ro_freed r \<and> (ro_freed r \<longrightarrow> ro_early r) \<and>
           fu_done x = (ro_set r \<noteq> None \<and> \<not> ro_freed r) \<and>
           fu_value x = (if ro_freed r then None else case ro_set r of None \<Rightarrow> None | Some v \<Rightarrow> v)) \<and>
      (ro_freed r \<longrightarrow> ro_waits r = None) \<and> (\<forall>v \<in> set (ro_got r). v = None \<or> ro_set r = Some v))"

lemma fresh_roles_inv: "roles_inv fresh_roles"
  by (simp add: fresh_roles_def roles_inv_def Oec_Future_new_def)

lemmas future_defs = with_future_def Oec_Future_set_def Oec_Future_seterror_def future_set_def Oec_Future_free_def get_check_def
  get_woken_def

lemma future_step_inv: "future_step r s \<Longrightarrow> roles_inv r \<Longrightarrow> roles_inv s"
proof (induction rule: future_step.induct)
  case (Sets r v f)
  then show ?case
    by (cases "ro_future r") (auto simp: roles_inv_def future_defs Let_def split: if_splits)
next
  case (Gets r a stop)
  then show ?case by (cases a; cases "ro_future r") (auto simp: roles_inv_def future_defs split: if_splits option.splits)
next
  case (Wakes r stop now a)
  then show ?case by (cases a; cases "ro_future r") (auto simp: roles_inv_def future_defs split: if_splits option.splits)
next
  case (Frees r rc f)
  then show ?case by (cases "ro_future r") (auto simp: roles_inv_def future_defs Let_def split: if_splits)
qed

lemma roles_reach: "future_step\<^sup>*\<^sup>* fresh_roles r \<Longrightarrow> roles_inv r"
  by (induction rule: rtranclp_induct) (auto intro: future_step_inv fresh_roles_inv)

text \<open>C40: as long as server and client keep to their roles, nobody uses a released future: the server can set the value, the client can
  wait and free; every result of a wait is the value that was set, or nothing if the time ran out; and once both have
  finished, the future has been released exactly if the value was set first.  So a future that is freed too early is never
  released.\<close>

theorem future_roles:
  assumes "future_step\<^sup>*\<^sup>* fresh_roles r"
  shows "(ro_set r = None \<longrightarrow> (\<exists>f. Oec_Future_set (ro_future r) v = Inr f)) \<and>
    (\<not> ro_freed r \<longrightarrow> (\<exists>rc f. Oec_Future_free (ro_future r) = Inr (rc, f)) \<and> (\<exists>a. get_check (ro_future r) = Inr a)) \<and>
    (\<forall>stop now. ro_waits r = Some stop \<longrightarrow> (\<exists>a. get_woken stop now (ro_future r) = Inr a)) \<and>
    (\<forall>v \<in> set (ro_got r). v = None \<or> ro_set r = Some v) \<and>
    (\<not> ro_freed r \<longrightarrow> ro_set r = Some v \<longrightarrow> get_check (ro_future r) = Inr (Returns v)) \<and>
    (ro_freed r \<longrightarrow> ro_set r \<noteq> None \<longrightarrow> (ro_future r = None \<longleftrightarrow> \<not> ro_early r))"
  using roles_reach [OF assms]
  by (cases "ro_future r") (auto simp: roles_inv_def future_defs Let_def split: option.splits)

theorem future_roles_witness:
  "\<exists>r :: nat roles. future_step\<^sup>*\<^sup>* fresh_roles r \<and> ro_freed r \<and> ro_set r = Some (Some 7) \<and> ro_future r \<noteq> None"
proof -
  let ?f = "(the Oec_Future_new)\<lparr>fu_freed := True\<rparr> :: nat Oec_Future"
  let ?r1 = "fresh_roles\<lparr>ro_future := Some ?f, ro_freed := True, ro_early := True\<rparr> :: nat roles"
  let ?r2 = "?r1\<lparr>ro_set := Some (Some 7)\<rparr>"
  have "future_step fresh_roles ?r1"
    using future_step.Frees [of "fresh_roles :: nat roles" 1 "Some ?f"]
    by (simp add: fresh_roles_def future_defs Oec_Future_new_def)
  moreover have "future_step ?r1 ?r2"
    using future_step.Sets [of ?r1 "Some 7" "Some ?f"] by (simp add: fresh_roles_def future_defs Oec_Future_new_def)
  ultimately have r: "future_step\<^sup>*\<^sup>* fresh_roles ?r2" by (simp add: converse_rtranclp_into_rtranclp)
  then show ?thesis using future_roles [OF r, of "Some 7"] by (intro exI [of _ ?r2]) simp
qed

end
