(* ===== verification/Oep_Utils.thy ===== *)
theory Oep_Utils
  imports Jcl_Net
begin

text \<open>
  Addresses of servers (\<^verbatim>\<open>corelib/oep_utils.c\<close>): \<^verbatim>\<open>protocol://host:port/extent\<close>.

  A specification is the text without its terminating zero.  A pointer behind that zero is \<^const>\<open>Out_Of_Bounds\<close>.
\<close>

definition strip_proto_from_spec :: "string \<Rightarrow> string option c_result" where
  "strip_proto_from_spec spec =
     (case memchr spec CHR '':'' of
        None \<Rightarrow> Inr None
      | Some i \<Rightarrow> if i + 3 \<le> length spec then Inr (Some (drop (i + 3) spec)) else Inl Out_Of_Bounds)"

text \<open>\<^verbatim>\<open>strncpy\<close> of \<open>n\<close> bytes into a zeroed block of \<open>n + 1\<close>, read as a string.\<close>

definition copy_prefix :: "nat \<Rightarrow> string \<Rightarrow> string" where
  "copy_prefix n s = takeWhile (\<lambda>c. c \<noteq> NUL) (take n s)"

definition oepu_get_extentname_from_spec :: "string \<Rightarrow> oe_scalar option c_result" where
  "oepu_get_extentname_from_spec spec =
     c_bind (strip_proto_from_spec spec) (\<lambda>hs.
       case hs of
         None \<Rightarrow> Inr None
       | Some hostspec \<Rightarrow>
           (case memchr hostspec CHR ''/'' of
              None \<Rightarrow> Inr None
            | Some len \<Rightarrow> Inr (Some (copy_prefix len (drop (len + 1) hostspec)))))"

definition oepu_get_hostname_from_spec :: "string \<Rightarrow> string option c_result" where
  "oepu_get_hostname_from_spec spec =
     c_bind (strip_proto_from_spec spec) (\<lambda>hs.
       case hs of
         None \<Rightarrow> Inr None
       | Some hostspec \<Rightarrow>
           (case memchr hostspec CHR '':'' of
              None \<Rightarrow> Inr None
            | Some len \<Rightarrow> Inr (Some (copy_prefix len hostspec))))"

text \<open>\<^verbatim>\<open>atoi\<close> is \<^verbatim>\<open>atol\<close> cut to an \<^verbatim>\<open>int\<close>.\<close>

definition atoi_text :: "string \<Rightarrow> 32 word" where
  "atoi_text s = ucast (atol s)"

definition oepu_get_port_from_spec :: "string \<Rightarrow> int c_result" where
  "oepu_get_port_from_spec spec =
     c_bind (strip_proto_from_spec spec) (\<lambda>hs.
       case hs of
         None \<Rightarrow> Inr (- 1)
       | Some hostspec \<Rightarrow>
           (case memchr hostspec CHR '':'' of
              None \<Rightarrow> Inr (- 1)
            | Some i \<Rightarrow> let port = sint (atoi_text (drop (i + 1) hostspec)) in Inr (if port \<le> 0 then - 1 else port)))"

section \<open>What is read back\<close>

definition spec_text :: "string \<Rightarrow> string \<Rightarrow> nat \<Rightarrow> string \<Rightarrow> string" where
  "spec_text proto host port ext = proto @ ''://'' @ host @ '':'' @ dec_nat port @ ''/'' @ ext"

lemma strip_spec:
  assumes "CHR '':'' \<notin> set proto"
  shows "strip_proto_from_spec (spec_text proto host port ext) = Inr (Some (host @ '':'' @ dec_nat port @ ''/'' @ ext))"
  using assms memchr_append [of "CHR '':''" proto] by (simp add: strip_proto_from_spec_def spec_text_def)

lemma copy_prefix_all: "is_cstring s \<Longrightarrow> copy_prefix n s = take n s"
  by (auto simp: copy_prefix_def is_cstring_def takeWhile_eq_all_conv dest: in_set_takeD)

lemma small_port:
  assumes "n < 2 ^ 31"
  shows "small_id (word_of_nat n)" "lld (word_of_nat n :: 64 word) = dec_nat n"
    "sint (ucast (word_of_nat n :: 64 word) :: 32 word) = int n"
proof -
  have u: "uint (word_of_nat n :: 64 word) = int n" using assms by (simp add: unsigned_of_nat take_bit_nat_eq_self)
  then show s: "small_id (word_of_nat n)" using assms by (simp add: small_id_def)
  show "lld (word_of_nat n :: 64 word) = dec_nat n" by (simp add: lld_small [OF s] u dec_int_def)
  show "sint (ucast (word_of_nat n :: 64 word) :: 32 word) = int n"
    using assms by (simp add: sint_uint unsigned_ucast_eq u take_bit_int_eq_self signed_take_bit_int_eq_self)
qed

text \<open>the parts of an address are read back as they were written: the host, the port, and the extent, of which at most as many
  characters are kept as \<open>host:port\<close> has.\<close>

theorem spec_parts:
  assumes "CHR '':'' \<notin> set proto" "CHR '':'' \<notin> set host" "CHR ''/'' \<notin> set host" "0 < port" "port < 2 ^ 31"
    and cs: "is_cstring host" "is_cstring ext"
  shows "oepu_get_hostname_from_spec (spec_text proto host port ext) = Inr (Some host) \<and>
    oepu_get_port_from_spec (spec_text proto host port ext) = Inr (int port) \<and>
    oepu_get_extentname_from_spec (spec_text proto host port ext) =
      Inr (Some (take (length host + 1 + length (dec_nat port)) ext))"
proof -
  let ?h = "host @ '':'' @ dec_nat port @ ''/'' @ ext"
  have c: "memchr ?h CHR '':'' = Some (length host)" using assms(2) memchr_append by simp
  have "CHR ''/'' \<notin> set (host @ '':'' @ dec_nat port)"
    using assms(3) dec_nat_digits [of "CHR ''/''" port] by (auto simp: is_digit_def)
  then have s: "memchr ?h CHR ''/'' = Some (length host + 1 + length (dec_nat port))"
    using memchr_append [of "CHR ''/''" "host @ '':'' @ dec_nat port" ext] by simp
  have "atol (takeWhile (\<lambda>c. c \<noteq> NUL) (dec_nat port @ CHR ''/'' # ext)) = word_of_nat port"
    using atol_number [OF small_port(1) [OF assms(5)], of "CHR ''/''" ext] small_port(2) [OF assms(5)]
    by (simp add: is_digit_def)
  moreover have "takeWhile (\<lambda>c. c \<noteq> NUL) (dec_nat port @ CHR ''/'' # ext) = dec_nat port @ CHR ''/'' # ext"
    using cs(2) is_cstring_dec_nat [of port] by (auto simp: takeWhile_eq_all_conv is_cstring_def NUL_def)
  ultimately have "sint (atoi_text (dec_nat port @ CHR ''/'' # ext)) = int port"
    using small_port(3) [OF assms(5)] by (simp add: atoi_text_def)
  moreover have "copy_prefix (length host) ?h = host"
    using cs(1) by (auto simp: copy_prefix_def takeWhile_eq_all_conv is_cstring_def)
  ultimately show ?thesis
    using assms(4) cs c s copy_prefix_all [of "drop (length host + 1 + length (dec_nat port) + 1) ?h"]
    by (simp add: oepu_get_hostname_from_spec_def oepu_get_port_from_spec_def oepu_get_extentname_from_spec_def
        strip_spec [OF assms(1)] copy_prefix_all Let_def)
qed

theorem spec_parts_witness:
  "oepu_get_port_from_spec (spec_text ''oejcl'' ''h'' 7 ''orders'') = Inr 7 \<and>
   oepu_get_extentname_from_spec (spec_text ''oejcl'' ''h'' 7 ''orders'') = Inr (Some ''ord'')"
proof -
  have "dec_nat 7 = ''7''" by code_simp
  then show ?thesis using spec_parts [of "''oejcl''" "''h''" 7 "''orders''"] by (simp add: is_cstring_def NUL_def)
qed

end
