(* ===== verification/Oep_Client.thy ===== *)
theory Oep_Client
  imports Oep_Server Oep_Utils
begin

text \<open>
  The client side of the protocols (\<^verbatim>\<open>corelib/OepClient.c\<close>).

  A client keeps the contexts of its commands in a table, by correlation identifier, until all responses have arrived.  A call of
  the callback of a context is an entry of \<open>oc_answers\<close>, with the context as it is then, oldest first.  \<open>oc_pending\<close> is
  \<^const>\<open>None\<close> once the table has been released, and \<open>oc_session\<close> is \<^const>\<open>None\<close> before the client connects and after its
  session has been released.  \<open>oc_sessions\<close> is the set of sessions of the network.
\<close>

section \<open>Clients\<close>

record ACContext =
  ac_context :: OEK_Context
  ac_sid :: oe_id

record ('e, 'k, 'w) OepClient =
  oc_subject :: "'w Subject"
  oc_spec :: string
  oc_session :: "('e, 'k, 'w) srv_session option"
  oc_pending :: "(oe_id, ACContext) table_T option"
  oc_sessions :: Oec_IdSet
  oc_peek_cid_fun :: "('e, 'k, 'w) srv_session \<Rightarrow> (int \<times> oe_id option) c_result"
  oc_read_fun :: "('e, 'k, 'w) srv_session \<Rightarrow> (int \<times> OekMsg option \<times> ('e, 'k, 'w) srv_session) c_result"
  oc_write_fun :: "('e, 'k, 'w) srv_session \<Rightarrow> OekMsg \<Rightarrow> (int \<times> ('e, 'k, 'w) srv_session) c_result"
  oc_answers :: "OEK_Context list"

definition cidcmp :: "oe_id \<Rightarrow> oe_id \<Rightarrow> int" where
  "cidcmp x y = (if x = y then 0 else if x < y then - 1 else 1)"

definition cidhash :: "oe_id \<Rightarrow> 32 word" where
  "cidhash x = ucast x"

definition client_session :: "('e, 'k, 'w) OepClient \<Rightarrow> ('e, 'k, 'w) srv_session c_result" where
  "client_session cl = (case oc_session cl of None \<Rightarrow> Inl Null_Deref | Some s \<Rightarrow> Inr s)"

definition client_pending :: "('e, 'k, 'w) OepClient \<Rightarrow> (oe_id, ACContext) table_T c_result" where
  "client_pending cl = (case oc_pending cl of None \<Rightarrow> Inl Use_After_Free | Some t \<Rightarrow> Inr t)"

definition write_response :: "OEK_Context \<Rightarrow> ('e, 'k, 'w) OepClient \<Rightarrow> ('e, 'k, 'w) OepClient c_result" where
  "write_response ctx cl =
     (if cx_write_response_cb ctx then Inr (cl\<lparr>oc_answers := oc_answers cl @ [ctx]\<rparr>) else Inl Null_Deref)"

text \<open>\<^verbatim>\<open>OepClient_new\<close>, followed by \<^verbatim>\<open>OepClient_configure\<close> with the functions of the protocol.\<close>

definition OepClient_new ::
  "oe_scalar option \<Rightarrow> oe_scalar option \<Rightarrow> string \<Rightarrow> Oec_IdSet \<Rightarrow> (('e, 'k, 'w) srv_session \<Rightarrow> (int \<times> oe_id option) c_result) \<Rightarrow>
   (('e, 'k, 'w) srv_session \<Rightarrow> (int \<times> OekMsg option \<times> ('e, 'k, 'w) srv_session) c_result) \<Rightarrow>
   (('e, 'k, 'w) srv_session \<Rightarrow> OekMsg \<Rightarrow> (int \<times> ('e, 'k, 'w) srv_session) c_result) \<Rightarrow> ('e, 'k, 'w) OepClient c_result" where
  "OepClient_new username pwd spec sessions peek_cid read_msg write_msg =
     c_bind (Table_new 100 cidcmp cidhash) (\<lambda>pending.
       Inr \<lparr>oc_subject = Subject_set_pwd (Subject_set_username Subject_new username) pwd, oc_spec = spec, oc_session = None,
            oc_pending = Some pending, oc_sessions = sessions, oc_peek_cid_fun = peek_cid, oc_read_fun = read_msg,
            oc_write_fun = write_msg, oc_answers = []\<rparr>)"

section \<open>Contexts that wait\<close>

definition restore_context :: "oe_id \<Rightarrow> ('e, 'k, 'w) OepClient \<Rightarrow> (ACContext \<times> ('e, 'k, 'w) OepClient) c_result" where
  "restore_context cid cl =
     c_bind (client_pending cl) (\<lambda>t.
       let (pc, t') = Table_remove t cid in
       case pc of None \<Rightarrow> Inl Assert_Failed | Some c \<Rightarrow> Inr (c, cl\<lparr>oc_pending := Some t'\<rparr>))"

definition save_context :: "oe_id \<Rightarrow> ACContext \<Rightarrow> ('e, 'k, 'w) OepClient \<Rightarrow> ('e, 'k, 'w) OepClient c_result" where
  "save_context cid pc cl =
     c_bind (client_pending cl) (\<lambda>t.
       if cid = 0 then Inl Assert_Failed else Inr (cl\<lparr>oc_pending := Some (snd (Table_put t cid pc))\<rparr>))"

definition OEP_STR_CON_CLOSED :: string where
  "OEP_STR_CON_CLOSED = ''connection to server closed''"

definition OEP_CLIENT_PARSE_ERROR :: string where
  "OEP_CLIENT_PARSE_ERROR = ''can not parse response''"

text \<open>The error message that the client makes itself, and the context with it.\<close>

definition client_error :: "oe_id \<Rightarrow> string \<Rightarrow> OEK_Context \<Rightarrow> OEK_Context c_result" where
  "client_error t emsg ctx = c_bind (err_message 0 t emsg) (\<lambda>m. Inr (ctx\<lparr>cx_err_msg := Some m\<rparr>))"

definition send_con_closed :: "OEK_Context \<Rightarrow> ('e, 'k, 'w) OepClient \<Rightarrow> ('e, 'k, 'w) OepClient c_result" where
  "send_con_closed ctx cl = c_bind (client_error 1 OEP_STR_CON_CLOSED ctx) (\<lambda>c. write_response c cl)"

text \<open>The array has a key and a value of each binding; the loop stops at the number of bindings.\<close>

fun close_loop :: "oe_id list \<Rightarrow> ('e, 'k, 'w) OepClient \<Rightarrow> ('e, 'k, 'w) OepClient c_result" where
  "close_loop [] cl = Inr cl"
| "close_loop (key # keys) cl =
     c_bind (client_pending cl) (\<lambda>t.
       let (pc, t') = Table_remove t key in
       case pc of
         None \<Rightarrow> Inl Null_Deref
       | Some c \<Rightarrow> c_bind (send_con_closed (ac_context c) (cl\<lparr>oc_pending := Some t'\<rparr>)) (close_loop keys))"

definition client_cleanup :: "('e, 'k, 'w) OepClient \<Rightarrow> ('e, 'k, 'w) OepClient c_result" where
  "client_cleanup cl =
     c_bind (client_pending cl) (\<lambda>t.
     c_bind (close_loop (take ((Table_length t + 1) div 2) (map fst (Table_toArray t))) cl) (\<lambda>cl'.
       Inr (cl'\<lparr>oc_pending := None\<rparr>)))"

section \<open>Responses\<close>

definition append_res_msg :: "OEK_Context \<Rightarrow> OekMsg \<Rightarrow> OEK_Context" where
  "append_res_msg ctx msg =
     ctx\<lparr>cx_res_msgs := Some (case cx_res_msgs ctx of
        None \<Rightarrow> Oec_AList_list [Some msg, None]
      | Some ms \<Rightarrow> Oec_AList_append ms (Oec_AList_list [Some msg, None]))\<rparr>"

text \<open>What a complete response does to the context that waits for it.\<close>

definition take_response ::
  "oe_id \<Rightarrow> ACContext \<Rightarrow> OekMsg \<Rightarrow> ('e, 'k, 'w) OepClient \<Rightarrow> ('e, 'k, 'w) OepClient c_result" where
  "take_response cid pc msg cl =
     (let ctx = ac_context pc; t = OekMsg_get_type msg in
      if \<not> cx_write_response_cb ctx then Inr cl
      else if t = OEK_ERR then write_response (ctx\<lparr>cx_err_msg := Some msg\<rparr>) cl
      else if t = GET_RES
      then let ctx' = append_res_msg ctx msg in
           c_bind (OekMsg_get_get_res msg) (\<lambda>res.
             if of_nat (Oec_AList_length (the (cx_res_msgs ctx'))) < GetRes_get_nresults res
             then save_context cid (pc\<lparr>ac_context := ctx'\<rparr>) cl else write_response ctx' cl)
      else write_response (append_res_msg ctx msg) cl)"

text \<open>One message: the result tells whether there may be another one to read.\<close>

definition on_response :: "('e, 'k, 'w) OepClient \<Rightarrow> (bool \<times> ('e, 'k, 'w) OepClient) c_result" where
  "on_response cl =
     c_bind (client_session cl) (\<lambda>session.
     c_bind (oc_peek_cid_fun cl session) (\<lambda>(rc, c).
       if rc \<le> 0 then Inr (False, cl)
       else case c of
         None \<Rightarrow> Inl Null_Deref
       | Some cid \<Rightarrow>
           c_bind (restore_context cid cl) (\<lambda>(pc, cl1).
           c_bind (oc_read_fun cl1 session) (\<lambda>(rc, mo, session').
             let cl2 = cl1\<lparr>oc_session := Some session'\<rparr> in
             if rc < 0
             then c_bind (client_error 0 OEP_CLIENT_PARSE_ERROR (ac_context pc)) (\<lambda>ctx.
                  c_bind (write_response ctx cl2) (\<lambda>cl3. Inr (False, cl3)))
             else if rc = 0 then c_bind (save_context cid pc cl2) (\<lambda>cl3. Inr (False, cl3))
             else case mo of
               None \<Rightarrow> Inl Null_Deref
             | Some msg \<Rightarrow>
                 c_bind (take_response cid pc msg cl2) (\<lambda>cl3.
                   Inr (0 < OeNetConn_available (OeSession_get_conn session'), cl3))))))"

text \<open>\<^verbatim>\<open>_buffered_on_read\<close> calls itself for the next message; \<open>n\<close> bounds the messages.\<close>

fun client_on_read :: "nat \<Rightarrow> ('e, 'k, 'w) OepClient \<Rightarrow> ('e, 'k, 'w) OepClient c_result" where
  "client_on_read 0 cl = Inl Fuel_Spent"
| "client_on_read (Suc n) cl =
     c_bind (client_session cl) (\<lambda>session.
       if OeSession_state_is_set session OENET_CLIENT_CLOSING then client_cleanup cl
       else c_bind (on_response cl) (\<lambda>(again, cl'). if again then client_on_read n cl' else Inr cl'))"

section \<open>Commands\<close>

definition create_ac_context :: "OEK_Context \<Rightarrow> ('e, 'k, 'w) OepClient \<Rightarrow> ACContext c_result" where
  "create_ac_context ctx cl =
     c_bind (client_session cl) (\<lambda>session. Inr \<lparr>ac_context = ctx, ac_sid = OeSession_get_id session\<rparr>)"

text \<open>On a connection that is gone the table and the callback see the same context, which now has the error.\<close>

definition write_to_server_cb :: "ACContext \<Rightarrow> ('e, 'k, 'w) OepClient \<Rightarrow> ('e, 'k, 'w) OepClient c_result" where
  "write_to_server_cb pc cl =
     (case cx_cmd_msg (ac_context pc) of
        None \<Rightarrow> Inl Null_Deref
      | Some cmd \<Rightarrow>
          let cid = OekMsg_get_cid cmd in
          c_bind (save_context cid pc cl) (\<lambda>cl1.
            if Oec_IdSet_member (oc_sessions cl1) (ac_sid pc)
            then c_bind (client_session cl1) (\<lambda>session.
                 c_bind (OeSession_decr_task_count session) (\<lambda>(tasks, session1).
                 c_bind (oc_write_fun cl1 session1 cmd) (\<lambda>(rc, session2). Inr (cl1\<lparr>oc_session := Some session2\<rparr>))))
            else c_bind (client_error 1 OEP_STR_CON_CLOSED (ac_context pc)) (\<lambda>ctx.
                 c_bind (save_context cid (pc\<lparr>ac_context := ctx\<rparr>) cl1) (write_response ctx))))"

text \<open>\<^verbatim>\<open>OepClient_send\<close>, once the dispatcher has run the callback.\<close>

definition OepClient_send :: "OEK_Context \<Rightarrow> ('e, 'k, 'w) OepClient \<Rightarrow> ('e, 'k, 'w) OepClient c_result" where
  "OepClient_send ctx cl = c_bind (create_ac_context ctx cl) (\<lambda>pc. write_to_server_cb pc cl)"

section \<open>Connecting\<close>

definition connect_message :: "oe_scalar option \<Rightarrow> 'w Subject \<Rightarrow> OekMsg c_result" where
  "connect_message extentname subject =
     c_bind (OekMsg_new CON_CMD) (\<lambda>m0. let m = OekMsg_set_cid m0 1 in
     c_bind (OekMsg_get_con_cmd m) (\<lambda>cmd.
       Inr (m\<lparr>data := D_con_cmd (ConCmd_set_rollback_on_disconnect (ConCmd_set_version_upt (ConCmd_set_version_min
              (ConCmd_set_version_maj (ConCmd_set_pwd (ConCmd_set_username (ConCmd_set_extentname cmd
                (Some (case extentname of None \<Rightarrow> ''default'' | Some e \<Rightarrow> e)))
                (Subject_get_username subject)) (Subject_get_pwd subject)) 0) 5) 4))\<rparr>)))"

text \<open>
  \<^verbatim>\<open>OepClient_connect\<close> until it waits for the response.  \<open>dial\<close> is \<^verbatim>\<open>OeNet_connect\<close>, and \<open>new_session\<close> what
  \<^verbatim>\<open>OeNet_listen_for_bytes\<close> returns for a connection, with the sessions of the network after it; the result is \<^const>\<open>None\<close> if the
  address cannot be used.
\<close>

definition connect_begin ::
  "(string \<Rightarrow> int \<Rightarrow> 'e option) \<Rightarrow> ('e \<Rightarrow> ('e, 'k, 'w) srv_session \<times> Oec_IdSet) \<Rightarrow> ('e, 'k, 'w) OepClient \<Rightarrow>
   ('e, 'k, 'w) OepClient option c_result" where
  "connect_begin dial new_session cl =
     c_bind (oepu_get_hostname_from_spec (oc_spec cl)) (\<lambda>host.
       case host of
         None \<Rightarrow> Inr None
       | Some hostname \<Rightarrow>
           c_bind (oepu_get_extentname_from_spec (oc_spec cl)) (\<lambda>extentname.
           c_bind (oepu_get_port_from_spec (oc_spec cl)) (\<lambda>port.
             if port \<le> 0 then Inr None
             else case dial hostname port of
               None \<Rightarrow> Inl Assert_Failed
             | Some conctx \<Rightarrow>
                 c_bind (connect_message extentname (oc_subject cl)) (\<lambda>cmdmsg.
                   let (session, sessions) = new_session conctx;
                       cl1 = cl\<lparr>oc_session := Some (OeSession_set_id session 1), oc_sessions := sessions\<rparr>;
                       ctx = OEK_Context_new\<lparr>cx_kernel := True, cx_write_response_cb := True, cx_cmd_msg := Some cmdmsg\<rparr>
                   in c_bind (OepClient_send ctx cl1) (\<lambda>cl2. Inr (Some cl2))))))"

text \<open>What \<^verbatim>\<open>OepClient_connect\<close> does with the context that its callback hands over: the result code, and the flag of the session.\<close>

definition connect_end :: "OEK_Context \<Rightarrow> ('e, 'k, 'w) OepClient \<Rightarrow> (int \<times> ('e, 'k, 'w) OepClient) c_result" where
  "connect_end ctx cl =
     c_bind (case cx_err_msg ctx of
               Some m \<Rightarrow> Inr (Some m)
             | None \<Rightarrow> Oec_AList_get (case cx_res_msgs ctx of None \<Rightarrow> [] | Some ms \<Rightarrow> ms) 0) (\<lambda>res.
       case res of
         None \<Rightarrow> Inl Assert_Failed
       | Some resmsg \<Rightarrow>
           if OekMsg_get_type resmsg = CON_RES
           then c_bind (client_session cl) (\<lambda>session.
                  Inr (0, cl\<lparr>oc_session := Some (OeSession_state_set session OENET_CLIENT_CONNECTED)\<rparr>))
           else if OekMsg_get_type resmsg = OEK_ERR then Inr (- 1, cl)
           else Inl Assert_Failed)"

section \<open>The end of a session\<close>

text \<open>\<^verbatim>\<open>_cleanup_conn\<close> of \<^verbatim>\<open>corelib/OeLibevent2Factory.c\<close> with the read handler of the client.\<close>

definition client_cleanup_conn :: "('e, 'k, 'w) OepClient \<Rightarrow> ('e, 'k, 'w) OepClient c_result" where
  "client_cleanup_conn cl =
     c_bind (client_session cl) (\<lambda>s0.
       let s1 = OeSession_state_set (OeSession_state_clear s0 OENET_CLIENT_CONNECTED) OENET_CLIENT_CLOSING;
           session = s1\<lparr>s_conn := OeNetConn_clear_timeout (s_conn s1)\<rparr>;
           cl1 = cl\<lparr>oc_session := Some session\<rparr>
       in if OeSession_get_task_count session \<noteq> 0 then Inr cl1
          else let cl2 = cl1\<lparr>oc_sessions := snd (Oec_IdSet_remove (oc_sessions cl1) (OeSession_get_id session))\<rparr>
               in c_bind (client_on_read 1 cl2) (\<lambda>cl3. Inr (cl3\<lparr>oc_session := None\<rparr>)))"

definition OepClient_kfree :: "('e, 'k, 'w) OepClient \<Rightarrow> ('e, 'k, 'w) OepClient" where
  "OepClient_kfree cl = cl\<lparr>oc_session := None\<rparr>"

end
