(* ===== verification/Client_Steps.thy ===== *)
theory Client_Steps
  imports Oep_Client Server_Props
begin

text \<open>
  What the client of \<^verbatim>\<open>corelib/OepClient.c\<close> promises: an abstract client that keeps a finite map from correlation identifiers to
  contexts and hands every response to the context that waits for it, and that the code implements it on the bytes of a
  connection.
\<close>

section \<open>Contexts by identifier\<close>

interpretation cidkey: hash_ops cidcmp cidhash
  by unfold_locales (auto simp: cidcmp_def split: if_splits)

interpretation cidtab: keyed_store cidkey.tgood "\<lambda>j k. cidcmp j k = 0" Table_get Table_put Table_remove
  by (rule cidkey.keyed_store)

lemma cidcmp_0 [simp]: "cidcmp x y = 0 \<longleftrightarrow> x = y"
  by (simp add: cidcmp_def)

definition client_ok :: "('e, 'k, 'w) OepClient \<Rightarrow> bool" where
  "client_ok cl = (\<exists>t. oc_pending cl = Some t \<and> cidkey.tgood t \<and> Table_get t 0 = None)"

definition waiting :: "('e, 'k, 'w) OepClient \<Rightarrow> oe_id \<Rightarrow> ACContext option" where
  "waiting cl cid = (case oc_pending cl of None \<Rightarrow> None | Some t \<Rightarrow> Table_get t cid)"

lemma client_updates [simp]:
  "waiting (cl\<lparr>oc_session := s\<rparr>) = waiting cl" "waiting (cl\<lparr>oc_answers := a\<rparr>) = waiting cl"
  "client_ok (cl\<lparr>oc_session := s\<rparr>) = client_ok cl" "client_ok (cl\<lparr>oc_answers := a\<rparr>) = client_ok cl"
  by (simp_all add: waiting_def client_ok_def fun_eq_iff)

lemma waiting_0: "client_ok cl \<Longrightarrow> waiting cl 0 = None"
  by (auto simp: client_ok_def waiting_def)

lemma restore_waiting:
  assumes "client_ok cl" "waiting cl cid = Some pc"
  obtains cl' where "restore_context cid cl = Inr (pc, cl')" "client_ok cl'" "waiting cl' = (waiting cl)(cid := None)"
    "cl' = cl\<lparr>oc_pending := oc_pending cl'\<rparr>"
proof -
  obtain t where t: "oc_pending cl = Some t" "cidkey.tgood t" "Table_get t 0 = None" using assms(1) by (auto simp: client_ok_def)
  obtain q t' where r: "Table_remove t cid = (q, t')" by fastforce
  have q: "q = Some pc" using cidtab.remove_returns [OF t(2), of cid] r assms(2) t(1) by (simp add: waiting_def)
  have g: "Table_get t' j = (if j = cid then None else Table_get t j)" for j
    using cidtab.get_after_remove [OF t(2), of cid j] r by simp
  have "cidkey.tgood t'" using cidtab.remove_ok [OF t(2), of cid] r by simp
  then show ?thesis
    using that [of "cl\<lparr>oc_pending := Some t'\<rparr>"] t r q g
    by (auto simp: restore_context_def client_pending_def client_ok_def waiting_def fun_eq_iff)
qed

lemma restore_unknown:
  assumes "client_ok cl" "waiting cl cid = None"
  shows "restore_context cid cl = Inl Assert_Failed"
proof -
  obtain t where t: "oc_pending cl = Some t" "cidkey.tgood t" using assms(1) by (auto simp: client_ok_def)
  then have "fst (Table_remove t cid) = None" using cidtab.remove_returns [OF t(2), of cid] assms(2) by (simp add: waiting_def)
  then show ?thesis using t by (simp add: restore_context_def client_pending_def split_beta)
qed

lemma save_waiting:
  assumes "client_ok cl" "cid \<noteq> 0"
  obtains cl' where "save_context cid pc cl = Inr cl'" "client_ok cl'" "waiting cl' = (waiting cl)(cid := Some pc)"
    "cl' = cl\<lparr>oc_pending := oc_pending cl'\<rparr>"
proof -
  obtain t where t: "oc_pending cl = Some t" "cidkey.tgood t" "Table_get t 0 = None" using assms(1) by (auto simp: client_ok_def)
  have "Table_get (snd (Table_put t cid pc)) j = (if j = cid then Some pc else Table_get t j)" for j
    using cidtab.get_after_put [OF t(2), of cid pc j] by simp
  moreover have "cidkey.tgood (snd (Table_put t cid pc))" using cidtab.put_ok [OF t(2)] by simp
  ultimately show ?thesis
    using that [of "cl\<lparr>oc_pending := Some (snd (Table_put t cid pc))\<rparr>"] t assms(2)
    by (auto simp: save_context_def client_pending_def client_ok_def waiting_def fun_eq_iff)
qed

section \<open>The abstract client\<close>

definition got :: "OEK_Context \<Rightarrow> OekMsg list" where
  "got ctx = (case cx_res_msgs ctx of None \<Rightarrow> [] | Some ms \<Rightarrow> ms)"

definition with_response :: "OekMsg \<Rightarrow> OEK_Context \<Rightarrow> OEK_Context" where
  "with_response msg ctx =
     (if mtype msg = OEK_ERR then ctx\<lparr>cx_err_msg := Some msg\<rparr> else ctx\<lparr>cx_res_msgs := Some (got ctx @ [msg])\<rparr>)"

text \<open>The number of responses that a response announces.\<close>

definition announced :: "OekMsg \<Rightarrow> 64 word" where
  "announced msg = (case data msg of D_get_res r \<Rightarrow> gr_nresults r | _ \<Rightarrow> 0)"

definition deliver ::
  "oe_id \<Rightarrow> OekMsg \<Rightarrow> (oe_id \<rightharpoonup> ACContext) \<times> OEK_Context list \<Rightarrow> ((oe_id \<rightharpoonup> ACContext) \<times> OEK_Context list) option" where
  "deliver cid msg = (\<lambda>(P, A).
     case P cid of
       None \<Rightarrow> None
     | Some pc \<Rightarrow>
         let ctx = with_response msg (ac_context pc) in
         if \<not> cx_write_response_cb ctx then Some (P(cid := None), A)
         else if mtype msg = GET_RES \<and> of_nat (length (got ctx)) < announced msg
         then Some (P(cid \<mapsto> pc\<lparr>ac_context := ctx\<rparr>), A)
         else Some (P(cid := None), A @ [ctx]))"

fun deliver_all ::
  "jcl_msg list \<Rightarrow> (oe_id \<rightharpoonup> ACContext) \<times> OEK_Context list \<Rightarrow> ((oe_id \<rightharpoonup> ACContext) \<times> OEK_Context list) option" where
  "deliver_all [] x = Some x"
| "deliver_all (j # js) x = Option.bind (deliver (cor_id (message j)) (message j) x) (deliver_all js)"

lemma AList_simps [simp]: "Oec_AList_append xs ys = xs @ ys" "Oec_AList_length xs = length xs"
  by (induction xs) simp_all

lemma append_res_msg_got: "append_res_msg ctx msg = ctx\<lparr>cx_res_msgs := Some (got ctx @ [msg])\<rparr>"
  by (simp add: append_res_msg_def got_def split: option.splits)

definition abstract :: "('e, 'k, 'w) OepClient \<Rightarrow> (oe_id \<rightharpoonup> ACContext) \<times> OEK_Context list" where
  "abstract cl = (waiting cl, oc_answers cl)"

text \<open>The parts of a client that responses do not change.\<close>

definition same_client :: "('e, 'k, 'w) OepClient \<Rightarrow> ('e, 'k, 'w) OepClient \<Rightarrow> bool" where
  "same_client cl cl' = (cl' = cl\<lparr>oc_pending := oc_pending cl', oc_session := oc_session cl', oc_answers := oc_answers cl'\<rparr>)"

lemma same_client_simps [simp]:
  "same_client cl cl" "same_client cl (cl\<lparr>oc_session := s\<rparr>)" "same_client cl (cl\<lparr>oc_answers := a\<rparr>)"
  "same_client cl (cl\<lparr>oc_pending := p\<rparr>)"
  by (simp_all add: same_client_def)

lemma same_client_trans: "same_client a b \<Longrightarrow> same_client b c \<Longrightarrow> same_client a c"
  by (cases a; cases b; cases c) (simp add: same_client_def)

lemma take_response_delivers:
  assumes ok: "client_ok cl" and w: "P cid = Some pc" "waiting cl = P(cid := None)" and cid: "cid \<noteq> 0"
    and t: "mtype msg = GET_RES \<Longrightarrow> \<exists>r. data msg = D_get_res r"
  shows "\<exists>cl'. take_response cid pc msg cl = Inr cl' \<and> client_ok cl' \<and>
    deliver cid msg (P, oc_answers cl) = Some (abstract cl') \<and> oc_session cl' = oc_session cl \<and> same_client cl cl'"
proof -
  let ?ctx = "with_response msg (ac_context pc)"
  obtain cl' where s: "save_context cid (pc\<lparr>ac_context := ?ctx\<rparr>) cl = Inr cl'" "client_ok cl'"
      "waiting cl' = (waiting cl)(cid := Some (pc\<lparr>ac_context := ?ctx\<rparr>))" "cl' = cl\<lparr>oc_pending := oc_pending cl'\<rparr>"
    using save_waiting [OF ok cid] by blast
  have k: "oc_session cl' = oc_session cl" "oc_answers cl' = oc_answers cl" "same_client cl cl'"
    by (subst s(4), simp)+
  consider (silent) "\<not> cx_write_response_cb (ac_context pc)" | (err) "cx_write_response_cb (ac_context pc)" "mtype msg = OEK_ERR"
    | (get) r where "cx_write_response_cb (ac_context pc)" "mtype msg = GET_RES" "data msg = D_get_res r"
    | (other) "cx_write_response_cb (ac_context pc)" "mtype msg \<noteq> OEK_ERR" "mtype msg \<noteq> GET_RES"
    using t by blast
  then show ?thesis
  proof cases
    case get
    then have ctx: "?ctx = append_res_msg (ac_context pc) msg" "OekMsg_get_get_res msg = Inr r" "announced msg = gr_nresults r"
      by (simp_all add: with_response_def append_res_msg_got OekMsg_get_get_res_def announced_def)
    show ?thesis
      using get(1,2) ctx(2,3) s k ok w
      by (auto simp: take_response_def deliver_def Let_def OekMsg_get_type_def ctx(1) [symmetric] write_response_def abstract_def
          GetRes_get_nresults_def)
         (auto simp: with_response_def got_def)
  qed (use ok w in \<open>auto simp: take_response_def deliver_def Let_def OekMsg_get_type_def with_response_def append_res_msg_got
      write_response_def abstract_def\<close>)
qed

section \<open>Responses on a connection\<close>

definition speaks_jcl :: "('e, 'k, 'w) OepClient \<Rightarrow> bool" where
  "speaks_jcl cl =
     (oc_peek_cid_fun cl = OeJclNet_peek_cid \<and> oc_read_fun cl = OeJclNet_read_msg \<and> oc_write_fun cl = OeJclNet_write_msg)"

lemma speaks_same: "same_client cl cl' \<Longrightarrow> speaks_jcl cl \<Longrightarrow> speaks_jcl cl'"
  by (cases cl; cases cl') (simp add: same_client_def speaks_jcl_def)

text \<open>A response other than that to a connect, which JCL can carry.\<close>

definition is_response :: "jcl_msg \<Rightarrow> bool" where
  "is_response j =
     ((\<exists>cid. response_to j = Some cid \<and> (\<forall>sid. j \<noteq> Connected cid sid)) \<and> printable_msg j \<and> framed (jcl_text j))"

lemma is_responseE:
  assumes "is_response j"
  obtains "response_to j = Some (cor_id (message j))" "\<forall>cid sid. j \<noteq> Connected cid sid" "printable_msg j" "framed (jcl_text j)"
    "mtype (message j) = GET_RES \<Longrightarrow> \<exists>r. data (message j) = D_get_res r"
  using assms by (cases j) (auto simp: is_response_def envelope_def)

lemma peek_response:
  assumes "buffers ev received sent" "made_by ev stack (s_conn s)" "is_response j"
    "on_conn received s = jcl_text j @ MSG_END_BYTES @ rest"
  shows "OeJclNet_peek_cid s = Inr (1, Some (cor_id (message j)))"
  using assms(3)
proof (rule is_responseE)
  assume "response_to j = Some (cor_id (message j))" "\<forall>cid sid. j \<noteq> Connected cid sid" "printable_msg j"
  then show ?thesis using peek_of_response [OF assms(1,2) _ _ _ _ response_length] assms(4) by simp
qed

text \<open>A client whose session is open, with these bytes to read.\<close>

definition reading ::
  "'e libevent \<Rightarrow> (nat \<Rightarrow> char) \<Rightarrow> ('e \<Rightarrow> string) \<Rightarrow> ('e, 'k, 'w) OepClient \<Rightarrow> string \<Rightarrow> bool" where
  "reading ev stack received cl input =
     (\<exists>s. oc_session cl = Some s \<and> made_by ev stack (s_conn s) \<and> OeSession_state_is_set s OENET_CLIENT_CONNECTED \<and>
        \<not> OeSession_state_is_set s OENET_CLIENT_CLOSING \<and> on_conn received s = input)"

lemma on_response_delivers:
  assumes ev: "buffers ev received sent" and cl: "speaks_jcl cl" "client_ok cl" "reading ev stack received cl input"
    and j: "is_response j" and input: "input = jcl_text j @ MSG_END_BYTES @ rest"
    and d: "deliver (cor_id (message j)) (message j) (abstract cl) = Some x"
  shows "\<exists>cl'. on_response cl = Inr (rest \<noteq> [], cl') \<and> client_ok cl' \<and> abstract cl' = x \<and> same_client cl cl' \<and>
    reading ev stack received cl' rest"
proof -
  let ?cid = "cor_id (message j)"
  obtain s where s: "oc_session cl = Some s" "made_by ev stack (s_conn s)" "OeSession_state_is_set s OENET_CLIENT_CONNECTED"
      "\<not> OeSession_state_is_set s OENET_CLIENT_CLOSING" "on_conn received s = input"
    using cl(3) by (auto simp: reading_def)
  have r: "on_conn received s = jcl_text j @ MSG_END_BYTES @ rest" using s(5) input by simp
  have get: "mtype (message j) = GET_RES \<Longrightarrow> \<exists>r. data (message j) = D_get_res r" and pf: "printable_msg j" "framed (jcl_text j)"
    using j by (auto elim: is_responseE)
  obtain pc where pc: "waiting cl ?cid = Some pc" using d by (cases "waiting cl ?cid") (auto simp: deliver_def abstract_def)
  have cid: "?cid \<noteq> 0" using pc waiting_0 [OF cl(2)] by auto
  obtain cl1 where cl1: "restore_context ?cid cl = Inr (pc, cl1)" "client_ok cl1" "waiting cl1 = (waiting cl)(?cid := None)"
      "cl1 = cl\<lparr>oc_pending := oc_pending cl1\<rparr>"
    using restore_waiting [OF cl(2) pc] by blast
  obtain s' where s': "OeJclNet_read_msg s = Inr (1, Some (message j), s')" "made_by ev stack (s_conn s')"
      "on_conn received s' = rest" "s' = s\<lparr>s_conn := s_conn s'\<rparr>"
    using read_msg_gets [OF ev s(2) pf r] by blast
  let ?cl2 = "cl1\<lparr>oc_session := Some s'\<rparr>"
  have fs: "oc_read_fun cl1 = OeJclNet_read_msg" "oc_answers cl1 = oc_answers cl" "same_client cl cl1"
    using cl(1) by (subst cl1(4), simp add: speaks_jcl_def)+
  obtain cl3 where cl3: "take_response ?cid pc (message j) ?cl2 = Inr cl3" "client_ok cl3"
      "deliver ?cid (message j) (waiting cl, oc_answers ?cl2) = Some (abstract cl3)" "oc_session cl3 = Some s'"
      "same_client ?cl2 cl3"
    using take_response_delivers [of ?cl2 "waiting cl" ?cid pc "message j"] cl1(2,3) pc cid get by auto
  have "same_client cl cl3" using fs(3) cl3(5) same_client_simps(2) [of cl1 "Some s'"] same_client_trans by metis
  moreover have "OeSession_state_is_set s' f = OeSession_state_is_set s f" for f
    by (subst s'(4)) (simp add: OeSession_state_is_set_def)
  ultimately show ?thesis
    using cl(1) s cl1(1) s' fs cl3 d peek_response [OF ev s(2) j r] available_buffers [OF ev s'(2)]
    by (auto simp: on_response_def client_session_def speaks_jcl_def OeSession_get_conn_def abstract_def reading_def)
qed

lemma on_response_unknown:
  assumes ev: "buffers ev received sent" and cl: "speaks_jcl cl" "client_ok cl" "reading ev stack received cl input"
    and j: "is_response j" and input: "input = jcl_text j @ MSG_END_BYTES @ rest"
    and d: "deliver (cor_id (message j)) (message j) (abstract cl) = None"
  shows "on_response cl = Inl Assert_Failed"
proof -
  obtain s where s: "oc_session cl = Some s" "made_by ev stack (s_conn s)" "on_conn received s = input"
    using cl(3) by (auto simp: reading_def)
  have "waiting cl (cor_id (message j)) = None"
    using d by (auto simp: deliver_def abstract_def Let_def split: option.splits if_splits)
  then show ?thesis
    using cl(1) s peek_response [OF ev s(2) j] restore_unknown [OF cl(2)] input
    by (simp add: on_response_def client_session_def speaks_jcl_def)
qed

section \<open>Commands on a connection\<close>

lemma write_text_sends:
  assumes ev: "buffers ev received sent" "made_by ev stack (s_conn a)" and t: "OeJclEncoder_msg_serialize msg = Inr (Some t)"
  shows "\<exists>a'. OeJclNet_write_msg a msg = Inr (0, a') \<and> made_by ev stack (s_conn a') \<and>
    on_conn sent a' = on_conn sent a @ t @ MSG_END_BYTES \<and> on_conn received a' = on_conn received a \<and>
    a' = a\<lparr>s_conn := s_conn a'\<rparr>"
proof -
  obtain c1 where c1: "OeNetConn_write (s_conn a) t = (0, c1)" "made_by ev stack c1"
      "sent (conn_obj c1) = on_conn sent a @ t" "received (conn_obj c1) = on_conn received a"
    by (rule write_buffers [OF ev])
  obtain c2 where c2: "OeNetConn_write c1 MSG_END_BYTES = (0, c2)" "made_by ev stack c2"
      "sent (conn_obj c2) = sent (conn_obj c1) @ MSG_END_BYTES" "received (conn_obj c2) = received (conn_obj c1)"
    by (rule write_buffers [OF ev(1) c1(2)])
  show ?thesis using c1 c2 by (simp add: OeJclNet_write_msg_def t OeSession_get_conn_def)
qed

lemma OepClient_send_writes:
  assumes ev: "buffers ev received sent" and cl: "speaks_jcl cl" "client_ok cl" "oc_session cl = Some s"
    and s: "made_by ev stack (s_conn s)" "Oec_IdSet_member (oc_sessions cl) (s_sid s)"
      "sint (s_outstanding_task_count s) \<noteq> - (2 ^ 31)"
    and c: "cx_cmd_msg ctx = Some cmd" "OekMsg_get_cid cmd \<noteq> 0" "OeJclEncoder_msg_serialize cmd = Inr (Some t)"
  shows "\<exists>cl' s'. OepClient_send ctx cl = Inr cl' \<and> client_ok cl' \<and> same_client cl cl' \<and>
    waiting cl' = (waiting cl)(OekMsg_get_cid cmd \<mapsto> \<lparr>ac_context = ctx, ac_sid = s_sid s\<rparr>) \<and> oc_answers cl' = oc_answers cl \<and>
    oc_session cl' = Some s' \<and> made_by ev stack (s_conn s') \<and> s_state s' = s_state s \<and>
    on_conn sent s' = on_conn sent s @ t @ MSG_END_BYTES \<and> on_conn received s' = on_conn received s"
proof -
  let ?cid = "OekMsg_get_cid cmd" and ?pc = "\<lparr>ac_context = ctx, ac_sid = s_sid s\<rparr>"
  let ?s1 = "s\<lparr>s_outstanding_task_count := s_outstanding_task_count s - 1\<rparr>"
  obtain cl1 where cl1: "save_context ?cid ?pc cl = Inr cl1" "client_ok cl1" "waiting cl1 = (waiting cl)(?cid := Some ?pc)"
      "cl1 = cl\<lparr>oc_pending := oc_pending cl1\<rparr>"
    using save_waiting [OF cl(2) c(2)] by blast
  have k: "oc_session cl1 = Some s" "oc_sessions cl1 = oc_sessions cl" "oc_answers cl1 = oc_answers cl"
      "oc_write_fun cl1 = OeJclNet_write_msg" "same_client cl cl1"
    using cl(1,3) by (subst cl1(4), simp add: speaks_jcl_def)+
  obtain s' where s': "OeJclNet_write_msg ?s1 cmd = Inr (0, s')" "made_by ev stack (s_conn s')"
      "on_conn sent s' = on_conn sent s @ t @ MSG_END_BYTES" "on_conn received s' = on_conn received s"
      "s' = ?s1\<lparr>s_conn := s_conn s'\<rparr>"
    using write_text_sends [OF ev, of stack ?s1 cmd t] s(1) c(3) by auto
  have "OepClient_send ctx cl = Inr (cl1\<lparr>oc_session := Some s'\<rparr>)"
    using cl(3) s(2,3) c(1) cl1(1) k s'(1)
    by (simp add: OepClient_send_def create_ac_context_def client_session_def write_to_server_cb_def OeSession_get_id_def Let_def
        OeSession_decr_task_count_def)
  moreover have "s_state s' = s_state s" by (subst s'(5)) simp
  moreover have "same_client cl (cl1\<lparr>oc_session := Some s'\<rparr>)"
    using k(5) same_client_simps(2) same_client_trans by blast
  ultimately show ?thesis using cl1(2,3) k(3) s'(2-4) by simp
qed

end
