(* ===== verification/Client_Props.thy ===== *)
theory Client_Props
  imports Client_Steps
begin

text \<open>
  Properties of the client: its reader refines the abstract client, what goes wrong when a response is split inside its
  identifier, and what happens to the commands that wait when the connection is lost.
\<close>

section \<open>Responses that are not complete\<close>

text \<open>The beginning of a response whose identifier has not arrived at all, or has arrived together with two more characters and is
  waited for.\<close>

definition incomplete :: "(oe_id \<rightharpoonup> ACContext) \<Rightarrow> string \<Rightarrow> bool" where
  "incomplete P part =
     (oe_memmem part CID_TAG = None \<or>
      (\<exists>j m. is_response j \<and> part = take m (jcl_text j @ MSG_END_BYTES) \<and> m < length (jcl_text j @ MSG_END_BYTES) \<and>
         length (cid_prefix j @ CID_TAG @ lld (cor_id (message j))) + 2 \<le> m \<and> P (cor_id (message j)) \<noteq> None))"

lemma on_response_incomplete:
  assumes ev: "buffers ev received sent" and cl: "speaks_jcl cl" "client_ok cl" "reading ev stack received cl part"
    and p: "incomplete (waiting cl) part"
  shows "\<exists>cl'. on_response cl = Inr (False, cl') \<and> client_ok cl' \<and> abstract cl' = abstract cl \<and> same_client cl cl' \<and>
    reading ev stack received cl' part"
proof -
  obtain s where s: "oc_session cl = Some s" "made_by ev stack (s_conn s)" "OeSession_state_is_set s OENET_CLIENT_CONNECTED"
      "\<not> OeSession_state_is_set s OENET_CLIENT_CLOSING" "on_conn received s = part"
    using cl(3) by (auto simp: reading_def)
  show ?thesis
  proof (cases "oe_memmem part CID_TAG")
    case None
    then have "OeJclNet_peek_cid s = Inr (0, None)"
      using s(3,5) by (simp add: OeJclNet_peek_cid_def OeSession_get_conn_def get_pos_buffers [OF ev s(2)])
    then show ?thesis using s(1) cl by (simp add: on_response_def client_session_def speaks_jcl_def)
  next
    case (Some i)
    then obtain j m where j: "is_response j" "part = take m (jcl_text j @ MSG_END_BYTES)" "m < length (jcl_text j @ MSG_END_BYTES)"
        "length (cid_prefix j @ CID_TAG @ lld (cor_id (message j))) + 2 \<le> m" "waiting cl (cor_id (message j)) \<noteq> None"
      using p by (auto simp: incomplete_def)
    let ?cid = "cor_id (message j)"
    obtain pc where pc: "waiting cl ?cid = Some pc" using j(5) by blast
    have cid: "?cid \<noteq> 0" using pc waiting_0 [OF cl(2)] by auto
    have pk: "OeJclNet_peek_cid s = Inr (1, Some ?cid)"
      using j(1) by (rule is_responseE) (use peek_of_response [OF ev s(2) _ _ _ _ j(4), of "[]"] s(5) j(2) in simp)
    have rd: "OeJclNet_read_msg s = Inr (0, None, s)"
      using j(1) by (rule is_responseE) (use read_msg_waits [OF ev s(2) _ j(3)] s(5) j(2) in simp)
    obtain cl1 where cl1: "restore_context ?cid cl = Inr (pc, cl1)" "client_ok cl1" "waiting cl1 = (waiting cl)(?cid := None)"
        "cl1 = cl\<lparr>oc_pending := oc_pending cl1\<rparr>"
      using restore_waiting [OF cl(2) pc] by blast
    have c1: "oc_read_fun cl1 = OeJclNet_read_msg" "oc_answers cl1 = oc_answers cl" "same_client cl cl1"
      using cl(1) by (subst cl1(4), simp add: speaks_jcl_def)+
    obtain cl2 where cl2: "save_context ?cid pc (cl1\<lparr>oc_session := Some s\<rparr>) = Inr cl2" "client_ok cl2"
        "waiting cl2 = (waiting cl1)(?cid := Some pc)"
        "cl2 = cl1\<lparr>oc_session := Some s, oc_pending := oc_pending cl2\<rparr>"
      using save_waiting [of "cl1\<lparr>oc_session := Some s\<rparr>" ?cid pc] cl1(2) cid by auto
    have "same_client cl cl2" "oc_answers cl2 = oc_answers cl" "oc_session cl2 = Some s"
      using c1(2) cl1(4) by (subst cl2(4), cases cl, cases cl1, simp add: same_client_def)+
    moreover have "waiting cl2 = waiting cl" using cl2(3) cl1(3) pc by (auto simp: fun_eq_iff)
    ultimately show ?thesis
      using s cl(1) pk rd cl1(1) c1(1) cl2(1,2)
      by (auto simp: on_response_def client_session_def speaks_jcl_def abstract_def reading_def)
  qed
qed

section \<open>Refinement\<close>

lemma client_on_read_open:
  "reading ev stack received cl input \<Longrightarrow>
   client_on_read (Suc n) cl = c_bind (on_response cl) (\<lambda>(again, cl'). if again then client_on_read n cl' else Inr cl')"
  by (auto simp: reading_def client_session_def)

lemma client_on_read_batch:
  assumes ev: "buffers ev received sent" and cl: "speaks_jcl cl" "client_ok cl" "reading ev stack received cl (batch js @ part)"
    and js: "\<forall>j \<in> set js. is_response j" and n: "length js < n"
    and part: "\<And>P A. deliver_all js (waiting cl, oc_answers cl) = Some (P, A) \<Longrightarrow> incomplete P part"
  shows "case deliver_all js (waiting cl, oc_answers cl) of
      None \<Rightarrow> client_on_read n cl = Inl Assert_Failed
    | Some (P, A) \<Rightarrow> \<exists>cl'. client_on_read n cl = Inr cl' \<and> client_ok cl' \<and> waiting cl' = P \<and> oc_answers cl' = A \<and>
        reading ev stack received cl' part"
  using cl js n part
proof (induction js arbitrary: cl n)
  case Nil
  obtain n' where n': "n = Suc n'" using Nil.prems(5) by (cases n) auto
  have r: "reading ev stack received cl part" using Nil.prems(3) by (simp add: batch_def)
  obtain cl' where "on_response cl = Inr (False, cl')" "client_ok cl'" "abstract cl' = abstract cl"
      "reading ev stack received cl' part"
    using on_response_incomplete [OF ev Nil.prems(1,2) r] Nil.prems(6) by fastforce
  then show ?case using n' client_on_read_open [OF r] by (simp add: abstract_def)
next
  case (Cons j js)
  obtain n' where n': "n = Suc n'" "length js < n'" using Cons.prems(5) by (cases n) auto
  have j: "is_response j" using Cons.prems(4) by simp
  note opened = client_on_read_open [OF Cons.prems(3)]
  have input: "batch (j # js) @ part = jcl_text j @ MSG_END_BYTES @ batch js @ part" by (rule batch_Cons)
  show ?case
  proof (cases "deliver (cor_id (message j)) (message j) (abstract cl)")
    case None
    then show ?thesis
      using on_response_unknown [OF ev Cons.prems(1,2,3) j input] opened n' by (simp add: abstract_def)
  next
    case (Some x)
    then obtain cl' where cl': "on_response cl = Inr (batch js @ part \<noteq> [], cl')" "client_ok cl'" "abstract cl' = x"
        "same_client cl cl'" "reading ev stack received cl' (batch js @ part)"
      using on_response_delivers [OF ev Cons.prems(1,2,3) j input] by blast
    have x: "deliver_all (j # js) (waiting cl, oc_answers cl) = deliver_all js (waiting cl', oc_answers cl')"
      using Some cl'(3) by (simp add: abstract_def)
    show ?thesis
    proof (cases "batch js @ part = []")
      case True
      then have "js = []" "part = []" using batch_empty by auto
      then show ?thesis using cl' x opened n' True by (auto simp: abstract_def)
    next
      case False
      then have r: "client_on_read n cl = client_on_read n' cl'" using opened n' cl'(1) by simp
      have js: "\<forall>j \<in> set js. is_response j" using Cons.prems(4) by simp
      have p: "\<And>P A. deliver_all js (waiting cl', oc_answers cl') = Some (P, A) \<Longrightarrow> incomplete P part"
        using Cons.prems(6) x by simp
      show ?thesis
        unfolding r x by (rule Cons.IH [OF speaks_same [OF cl'(4) Cons.prems(1)] cl'(2,5) js n'(2) p])
    qed
  qed
qed

text \<open>C35: a connected client does with the responses that arrive together, in any order and followed by the beginning of another one,
  what the abstract client does with the messages: each goes to the context that waits for its identifier, a context is handed
  to its callback when an error or the announced number of results has arrived, and the program stops at the first response
  that nothing waits for.  One step of the reader more than there are responses is enough.\<close>

theorem client_batch:
  assumes ev: "buffers ev received sent" and cl: "speaks_jcl cl" "client_ok cl" "reading ev stack received cl (batch js @ part)"
    and js: "\<forall>j \<in> set js. is_response j" and n: "length js < n"
    and part: "\<And>P A. deliver_all js (waiting cl, oc_answers cl) = Some (P, A) \<Longrightarrow> incomplete P part"
  shows "case deliver_all js (waiting cl, oc_answers cl) of
      None \<Rightarrow> client_on_read n cl = Inl Assert_Failed
    | Some (P, A) \<Rightarrow> \<exists>cl'. client_on_read n cl = Inr cl' \<and> client_ok cl' \<and> waiting cl' = P \<and> oc_answers cl' = A \<and>
        reading ev stack received cl' part"
  by (rule client_on_read_batch [OF assms])

section \<open>Split responses\<close>

lemma dec_nat_snoc: "10 \<le> m \<Longrightarrow> dec_nat m = dec_nat (m div 10) @ [char_of (48 + m mod 10)]"
  by (simp add: dec_nat.simps [of m])

lemma length_dec_nat_8: "m < 10 ^ 8 \<Longrightarrow> length (dec_nat m) \<le> 8"
  using length_dec_nat [of m 7] by simp

lemma atol_dec_nat:
  assumes "q < 2 ^ 31"
  shows "atol (dec_nat q) = word_of_nat q"
proof -
  have "takeWhile (\<lambda>c. c \<noteq> NUL) (dec_nat q @ [NUL]) = dec_nat q"
    using is_cstring_dec_nat [of q] by (auto simp: takeWhile_eq_all_conv is_cstring_def takeWhile_append)
  then show ?thesis
    using atol_number [OF small_port(1) [OF assms], of NUL "[]"] by (simp add: small_port(2) [OF assms] is_digit_def NUL_def)
qed

lemma peek_split:
  assumes ev: "buffers ev received sent" "made_by ev stack (s_conn s)"
    and j: "response_to j = Some cid" "\<forall>sid. j \<noteq> Connected cid sid" and m: "10 \<le> m" "m < 10 ^ 8"
    and r: "on_conn received s = cid_prefix j @ CID_TAG @ dec_nat m"
  shows "OeJclNet_peek_cid s = Inr (1, Some (word_of_nat (m div 10)))"
proof -
  let ?l = "length (cid_prefix j) + 4" and ?q = "dec_nat (m div 10)"
  have q: "m div 10 < 2 ^ 31" using m(2) by simp
  have L: "length (dec_nat m) = Suc (length ?q)" "length ?q \<le> 7" "0 < length ?q"
    using dec_nat_snoc [OF m(1)] length_dec_nat_8 [OF m(2)] by simp_all
  have "oe_memmem (cid_prefix j @ CID_TAG @ dec_nat m) CID_TAG = Some (length (cid_prefix j))"
    using memmem_prefixes [of "dec_nat m"] cid_prefixes [OF j] by (auto simp: list_all_iff)
  then have pos: "OeNetConn_get_pos (s_conn s) CID_TAG = Inr (int (length (cid_prefix j)))"
    by (simp add: get_pos_buffers [OF ev] r)
  have av: "OeNetConn_available (s_conn s) = ?l + Suc (length ?q)"
    by (simp add: available_buffers [OF ev] r CID_TAG_def L(1))
  have "take (length ?q) (drop ?l (take (?l + length ?q) (on_conn received s))) = ?q"
    using dec_nat_snoc [OF m(1)] by (simp add: r CID_TAG_def drop_take)
  then have "OeNetConn_peek (s_conn s) (int ?l) (int (length ?q)) = Inr ?q"
    using ev(2) L(1,3)
    by (simp add: OeNetConn_peek_def made_by_def peek_bytes_def buffersD [OF ev(1)] Let_def nat_add_distrib r CID_TAG_def)
  moreover have "atol (takeWhile (\<lambda>c. c \<noteq> NUL) ?q) = word_of_nat (m div 10)"
  proof -
    have "takeWhile (\<lambda>c. c \<noteq> NUL) ?q = ?q" using is_cstring_dec_nat [of "m div 10"] by (intro takeWhile_eq_all_conv [THEN iffD2]) (auto simp: is_cstring_def)
    then show ?thesis by (simp only: atol_dec_nat [OF q])
  qed
  ultimately show ?thesis
    using L(2) by (simp add: OeJclNet_peek_cid_def OeSession_get_conn_def pos av Let_def)
qed

text \<open>C37: if the bytes that have arrived end inside the identifier of a response, two or more of its digits being there, the client
  takes the number without its last digit for the identifier, and stops unless a command with that identifier waits.  This
  can happen with the first part of any response whose identifier has two to eight digits.\<close>

theorem client_split:
  assumes "buffers ev received sent" "speaks_jcl cl" "client_ok cl" "is_response j"
    and m: "m = unat (cor_id (message j)) div 10 ^ i" "10 \<le> m" "m < 10 ^ 8"
    and r: "reading ev stack received cl part" "part = cid_prefix j @ CID_TAG @ dec_nat m"
    and w: "waiting cl (word_of_nat (m div 10)) = None"
  shows "(\<exists>rest. jcl_text j = part @ rest) \<and> client_on_read (Suc n) cl = Inl Assert_Failed"
proof
  obtain s where s: "oc_session cl = Some s" "made_by ev stack (s_conn s)" "on_conn received s = part"
    using r(1) by (auto simp: reading_def)
  have j: "response_to j = Some (cor_id (message j))" "\<forall>sid. j \<noteq> Connected (cor_id (message j)) sid" "printable_msg j"
    using assms(4) by (auto elim: is_responseE)
  have "OeJclNet_peek_cid s = Inr (1, Some (word_of_nat (m div 10)))"
    using peek_split [OF assms(1) s(2) j(1,2) m(2,3)] s(3) r(2) by simp
  then have "on_response cl = Inl Assert_Failed"
    using assms(2) s(1) restore_unknown [OF assms(3) w] by (simp add: on_response_def client_session_def speaks_jcl_def)
  then show "client_on_read (Suc n) cl = Inl Assert_Failed" using client_on_read_open [OF r(1)] by simp
  have small: "small_id (cor_id (message j))" using j by (cases j) auto
  have "\<exists>t. dec_nat n = dec_nat (n div 10 ^ i) @ t" if "10 \<le> n div 10 ^ i" for n
    using that
  proof (induction i arbitrary: n)
    case (Suc i)
    have "10 \<le> n" using Suc.prems by (meson div_le_dividend le_trans)
    then show ?case using Suc.IH [of "n div 10"] Suc.prems dec_nat_snoc [of n] by (auto simp: div_mult2_eq)
  qed simp
  then obtain t where t: "dec_nat (unat (cor_id (message j))) = dec_nat m @ t" using m by blast
  obtain c tail where "jcl_text j = cid_prefix j @ CID_TAG @ lld (cor_id (message j)) @ c # tail" using text_prefix [OF j(1)] by blast
  then show "\<exists>rest. jcl_text j = part @ rest" using t r(2) by (simp add: lld_small [OF small] dec_int_def)
qed

section \<open>Lost connections\<close>

text \<open>
  A client with its network: commands are sent, responses are read as long as the connection is there, and \<^verbatim>\<open>_cleanup_conn\<close> runs
  when it is lost.
\<close>

definition closing :: "('e, 'k, 'w) OepClient \<Rightarrow> bool" where
  "closing cl = (\<exists>s. oc_session cl = Some s \<and> OeSession_state_is_set s OENET_CLIENT_CLOSING)"

inductive client_step :: "('e, 'k, 'w) OepClient \<Rightarrow> ('e, 'k, 'w) OepClient \<Rightarrow> bool" where
  Sends: "OepClient_send ctx cl = Inr cl' \<Longrightarrow> client_step cl cl'"
| Reads: "\<not> closing cl \<Longrightarrow> client_on_read n cl = Inr cl' \<Longrightarrow> client_step cl cl'"
| Loses: "client_cleanup_conn cl = Inr cl' \<Longrightarrow> client_step cl cl'"

text \<open>Nothing of a session but its connection, or its connection and a task less.\<close>

definition on_session :: "(('e, 'k, 'w) srv_session \<Rightarrow> ('e, 'k, 'w) srv_session \<Rightarrow> bool) \<Rightarrow>
    ('e, 'k, 'w) OepClient \<Rightarrow> ('e, 'k, 'w) OepClient \<Rightarrow> bool" where
  "on_session R cl cl' = (same_client cl cl' \<and> (\<exists>s s'. oc_session cl = Some s \<and> oc_session cl' = Some s' \<and> R s s'))"

definition conn_only :: "('e, 'k, 'w) srv_session \<Rightarrow> ('e, 'k, 'w) srv_session \<Rightarrow> bool" where
  "conn_only s s' = (s' = s\<lparr>s_conn := s_conn s'\<rparr>)"

lemma conn_only_trans: "conn_only a b \<Longrightarrow> conn_only b c \<Longrightarrow> conn_only a c"
  unfolding conn_only_def by (cases a; cases b; cases c) simp

lemma conn_onlyD: "conn_only s s' \<Longrightarrow> s_state s' = s_state s \<and> s_sid s' = s_sid s \<and>
    s_outstanding_task_count s' = s_outstanding_task_count s"
  unfolding conn_only_def by (cases s; cases s') simp

lemma on_session_trans: "on_session conn_only a b \<Longrightarrow> on_session conn_only b c \<Longrightarrow> on_session conn_only a c"
  by (auto simp: on_session_def intro: same_client_trans conn_only_trans)

lemma context_keeps:
  "restore_context cid cl = Inr (pc, cl') \<Longrightarrow> \<exists>p. cl' = cl\<lparr>oc_pending := p\<rparr>"
  "save_context cid pc cl = Inr cl' \<Longrightarrow> \<exists>p. cl' = cl\<lparr>oc_pending := p\<rparr>"
  "write_response ctx cl = Inr cl' \<Longrightarrow> \<exists>a. cl' = cl\<lparr>oc_answers := a\<rparr>"
  by (auto simp: restore_context_def save_context_def write_response_def client_pending_def split: option.splits prod.splits if_splits)

lemma take_response_keeps:
  "take_response cid pc msg cl = Inr cl' \<Longrightarrow> \<exists>p a. cl' = cl\<lparr>oc_pending := p, oc_answers := a\<rparr>"
  by (cases cl) (auto simp: take_response_def Let_def c_bind_Inr split: if_splits dest!: context_keeps)

lemma on_response_keeps:
  assumes sp: "speaks_jcl cl" and r: "on_response cl = Inr (again, cl')"
  shows "on_session conn_only cl cl'"
proof -
  obtain s where s: "oc_session cl = Some s"
    using r by (cases "oc_session cl") (auto simp: on_response_def client_session_def)
  obtain rc c where p: "oc_peek_cid_fun cl s = Inr (rc, c)"
    using r s by (auto simp: on_response_def client_session_def c_bind_Inr)
  show ?thesis
  proof (cases "rc \<le> 0 \<or> c = None")
    case True
    then have "cl' = cl" using r s p by (auto simp: on_response_def client_session_def split: if_splits)
    then show ?thesis using s by (simp add: on_session_def conn_only_def)
  next
    case False
    then obtain cid where c: "0 < rc" "c = Some cid" by auto
    obtain pc cl1 where cl1: "restore_context cid cl = Inr (pc, cl1)"
      using r s p c by (auto simp: on_response_def client_session_def c_bind_Inr)
    then obtain q where q: "cl1 = cl\<lparr>oc_pending := q\<rparr>" using context_keeps(1) by blast
    obtain rc' mo s' where s': "OeJclNet_read_msg s = Inr (rc', mo, s')"
      using r s p c cl1 sp by (auto simp: on_response_def client_session_def c_bind_Inr q speaks_jcl_def)
    have k: "conn_only s s'" using jcl.read_keeps [OF s'] by (simp add: conn_only_def)
    have "same_client cl cl' \<and> oc_session cl' = Some s'"
      using r s p c cl1 s' sp
      by (auto simp: on_response_def client_session_def c_bind_Inr q speaks_jcl_def Let_def same_client_def
          split: if_splits option.splits dest!: context_keeps take_response_keeps)
    then show ?thesis using s k by (auto simp: on_session_def)
  qed
qed

lemma client_on_read_keeps:
  "speaks_jcl cl \<Longrightarrow> \<not> closing cl \<Longrightarrow> client_on_read n cl = Inr cl' \<Longrightarrow> on_session conn_only cl cl'"
proof (induction n arbitrary: cl)
  case (Suc n)
  obtain again cl1 where r: "on_response cl = Inr (again, cl1)" "(if again then client_on_read n cl1 else Inr cl1) = Inr cl'"
    using Suc.prems by (auto simp: closing_def client_session_def c_bind_Inr split: option.splits if_splits)
  note k = on_response_keeps [OF Suc.prems(1) r(1)]
  have "speaks_jcl cl1" "\<not> closing cl1"
    using k Suc.prems(1,2) speaks_same conn_onlyD by (fastforce simp: on_session_def closing_def OeSession_state_is_set_def)+
  then show ?case using Suc.IH r(2) k by (auto split: if_splits intro: on_session_trans)
qed simp

section \<open>The task count of a client\<close>

text \<open>A session that has less than \<open>n\<close> tasks, and is known to the network.\<close>

definition tasks_below :: "int \<Rightarrow> ('e, 'k, 'w) OepClient \<Rightarrow> bool" where
  "tasks_below n cl = (speaks_jcl cl \<and> client_ok cl \<and>
     (\<exists>s. oc_session cl = Some s \<and> sint (s_outstanding_task_count s) < n \<and> Oec_IdSet_member (oc_sessions cl) (s_sid s)))"

definition kept_waiting :: "('e, 'k, 'w) OepClient \<Rightarrow> ('e, 'k, 'w) OepClient \<Rightarrow> bool" where
  "kept_waiting cl cl' = (closing cl' \<and> oc_answers cl' = oc_answers cl \<and> dom (waiting cl) \<subseteq> dom (waiting cl'))"

lemma tasks_below_mono: "tasks_below m cl \<Longrightarrow> m \<le> n \<Longrightarrow> tasks_below n cl"
  by (force simp: tasks_below_def)

lemma send_step:
  assumes "tasks_below n cl" "OepClient_send ctx cl = Inr cl'"
  shows "tasks_below (n - 1) cl' \<and> (closing cl \<longrightarrow> kept_waiting cl cl')"
proof -
  obtain s where s: "oc_session cl = Some s" "sint (s_outstanding_task_count s) < n" "Oec_IdSet_member (oc_sessions cl) (s_sid s)"
      "speaks_jcl cl" "client_ok cl"
    using assms(1) by (auto simp: tasks_below_def)
  let ?pc = "\<lparr>ac_context = ctx, ac_sid = s_sid s\<rparr>"
  obtain cmd where cmd: "cx_cmd_msg ctx = Some cmd"
    using assms(2) s(1) by (cases "cx_cmd_msg ctx")
      (auto simp: OepClient_send_def create_ac_context_def client_session_def write_to_server_cb_def OeSession_get_id_def)
  let ?cid = "OekMsg_get_cid cmd"
  have cid: "?cid \<noteq> 0"
    using assms(2) s(1,5) cmd by (auto simp: OepClient_send_def create_ac_context_def client_session_def write_to_server_cb_def
        OeSession_get_id_def save_context_def client_pending_def client_ok_def Let_def)
  obtain cl1 where cl1: "save_context ?cid ?pc cl = Inr cl1" "client_ok cl1" "waiting cl1 = (waiting cl)(?cid := Some ?pc)"
      "cl1 = cl\<lparr>oc_pending := oc_pending cl1\<rparr>"
    using save_waiting [OF s(5) cid] by blast
  have k: "oc_session cl1 = Some s" "oc_sessions cl1 = oc_sessions cl" "oc_answers cl1 = oc_answers cl" "speaks_jcl cl1"
    using s(1,4) by (subst cl1(4), simp add: speaks_jcl_def)+
  let ?s1 = "s\<lparr>s_outstanding_task_count := s_outstanding_task_count s - 1\<rparr>"
  obtain rc s2 where s2: "sint (s_outstanding_task_count s) \<noteq> - (2 ^ 31)" "OeJclNet_write_msg ?s1 cmd = Inr (rc, s2)"
      "cl' = cl1\<lparr>oc_session := Some s2\<rparr>"
    using assms(2) s(1,3,4) cmd cl1(1) k
    by (auto simp: OepClient_send_def create_ac_context_def client_session_def write_to_server_cb_def OeSession_get_id_def
        Let_def c_bind_Inr OeSession_decr_task_count_def speaks_jcl_def split: if_splits)
  obtain c where c: "s2 = ?s1\<lparr>s_conn := c\<rparr>" using jcl.write_keeps [OF s2(2)] by blast
  have "s_sid s2 = s_sid s" "s_state s2 = s_state s" "sint (s_outstanding_task_count s2) < n - 1"
    using sint_decr [OF s2(1)] s(2) by (simp_all add: c)
  then show ?thesis
    using s cl1 k s2(3) by (auto simp: tasks_below_def kept_waiting_def closing_def speaks_jcl_def OeSession_state_is_set_def)
qed

lemma context_ok:
  "restore_context cid cl = Inr (pc, cl') \<Longrightarrow> client_ok cl \<Longrightarrow> client_ok cl'"
  "save_context cid pc cl = Inr cl' \<Longrightarrow> client_ok cl \<Longrightarrow> client_ok cl'"
  "write_response ctx cl = Inr cl' \<Longrightarrow> client_ok cl \<Longrightarrow> client_ok cl'"
proof -
  show "client_ok cl'" if r: "restore_context cid cl = Inr (pc, cl')" and ok: "client_ok cl"
  proof -
    obtain c where "waiting cl cid = Some c" using r restore_unknown [OF ok, of cid] by fastforce
    then show ?thesis by (rule restore_waiting [OF ok]) (use r in auto)
  qed
  show "client_ok cl'" if "save_context cid pc cl = Inr cl'" "client_ok cl"
  proof -
    have "cid \<noteq> 0" using that by (auto simp: save_context_def client_ok_def client_pending_def)
    then show ?thesis by (rule save_waiting [OF that(2), where ?pc = pc]) (use that(1) in auto)
  qed
qed (auto simp: write_response_def split: if_splits)

lemma take_response_ok: "take_response cid pc msg cl = Inr cl' \<Longrightarrow> client_ok cl \<Longrightarrow> client_ok cl'"
  by (auto simp: take_response_def Let_def c_bind_Inr split: if_splits dest: context_ok)

lemma on_response_ok: "on_response cl = Inr (again, cl') \<Longrightarrow> client_ok cl \<Longrightarrow> client_ok cl'"
  by (auto simp: on_response_def c_bind_Inr Let_def split: if_splits option.splits dest!: context_ok take_response_ok)

lemma client_on_read_ok:
  "speaks_jcl cl \<Longrightarrow> \<not> closing cl \<Longrightarrow> client_on_read n cl = Inr cl' \<Longrightarrow> client_ok cl \<Longrightarrow> client_ok cl'"
proof (induction n arbitrary: cl)
  case (Suc n)
  obtain again cl1 where r: "on_response cl = Inr (again, cl1)" "(if again then client_on_read n cl1 else Inr cl1) = Inr cl'"
    using Suc.prems by (auto simp: closing_def client_session_def c_bind_Inr split: option.splits if_splits)
  have "speaks_jcl cl1" "\<not> closing cl1"
    using on_response_keeps [OF Suc.prems(1) r(1)] Suc.prems(1,2) speaks_same conn_onlyD
    by (fastforce simp: on_session_def closing_def OeSession_state_is_set_def)+
  then show ?case using Suc.IH r Suc.prems(4) on_response_ok by (auto split: if_splits)
qed simp

lemma read_step:
  assumes "tasks_below n cl" "\<not> closing cl" "client_on_read fuel cl = Inr cl'"
  shows "tasks_below n cl'"
proof -
  have sp: "speaks_jcl cl" "client_ok cl" using assms(1) by (simp_all add: tasks_below_def)
  have k: "on_session conn_only cl cl'" by (rule client_on_read_keeps [OF sp(1) assms(2,3)])
  then have "oc_sessions cl' = oc_sessions cl" by (cases cl; cases cl') (simp add: on_session_def same_client_def)
  then show ?thesis
    using k assms(1) speaks_same [of cl cl'] client_on_read_ok [OF sp(1) assms(2,3) sp(2)] conn_onlyD
    by (fastforce simp: on_session_def tasks_below_def)
qed

lemma closing_flag: "OeSession_state_is_set (OeSession_state_set s f) f \<longleftrightarrow> f \<noteq> 0"
  by (simp add: OeSession_state_is_set_def OeSession_state_set_def OEC_FLAG_ISSET_def OEC_FLAG_SET_def bit_eq_iff bit_simps)

lemma cleanup_step:
  assumes "tasks_below 0 cl"
  shows "\<exists>cl'. client_cleanup_conn cl = Inr cl' \<and> tasks_below 0 cl' \<and> kept_waiting cl cl'"
proof -
  obtain s where s: "oc_session cl = Some s" "sint (s_outstanding_task_count s) < 0" "Oec_IdSet_member (oc_sessions cl) (s_sid s)"
      "speaks_jcl cl" "client_ok cl"
    using assms by (auto simp: tasks_below_def)
  let ?s1 = "OeSession_state_set (OeSession_state_clear s OENET_CLIENT_CONNECTED) OENET_CLIENT_CLOSING"
  let ?s2 = "?s1\<lparr>s_conn := OeNetConn_clear_timeout (s_conn ?s1)\<rparr>"
  have f: "s_outstanding_task_count ?s2 = s_outstanding_task_count s" "s_sid ?s2 = s_sid s"
      "OeSession_state_is_set ?s2 OENET_CLIENT_CLOSING"
    using closing_flag [of "OeSession_state_clear s OENET_CLIENT_CONNECTED" OENET_CLIENT_CLOSING]
    by (simp_all add: OeSession_state_set_def OeSession_state_clear_def OeSession_state_is_set_def OENET_CLIENT_CLOSING_def)
  have "s_outstanding_task_count s \<noteq> 0" using s(2) by auto
  then have "client_cleanup_conn cl = Inr (cl\<lparr>oc_session := Some ?s2\<rparr>)"
    using s(1) f(1) by (simp add: client_cleanup_conn_def client_session_def Let_def OeSession_get_task_count_def)
  then show ?thesis using s f by (auto simp: tasks_below_def kept_waiting_def closing_def speaks_jcl_def)
qed

lemma client_step_adrift:
  assumes "client_step cl cl'" "tasks_below 0 cl"
  shows "tasks_below 0 cl' \<and> (closing cl \<longrightarrow> kept_waiting cl cl')"
  using assms
proof (cases rule: client_step.cases)
  case (Sends ctx)
  then show ?thesis using send_step [OF assms(2)] tasks_below_mono [of "- 1" cl' 0] by simp
next
  case (Reads n)
  then show ?thesis using read_step [OF assms(2)] by simp
next
  case Loses
  then show ?thesis using cleanup_step [OF assms(2)] by auto
qed

lemma kept_waiting_trans: "kept_waiting a b \<Longrightarrow> kept_waiting b c \<Longrightarrow> kept_waiting a c"
  by (auto simp: kept_waiting_def)

lemma client_steps_adrift:
  assumes "client_step\<^sup>*\<^sup>* cl cl'" "tasks_below 0 cl"
  shows "tasks_below 0 cl'"
  using assms by (induction rule: rtranclp_induct) (auto dest: client_step_adrift)

lemma client_steps_closing:
  assumes "client_step\<^sup>*\<^sup>* cl cl'" "tasks_below 0 cl" "closing cl"
  shows "kept_waiting cl cl'"
  using assms(1)
proof (induction rule: rtranclp_induct)
  case base
  then show ?case using assms(3) by (simp add: kept_waiting_def)
next
  case (step a b)
  then have "kept_waiting a b"
    using client_step_adrift [OF step(2)] client_steps_adrift [OF step(1) assms(2)] by (simp add: kept_waiting_def)
  then show ?case using step.IH kept_waiting_trans by blast
qed

text \<open>The session that a client gets for a connection on a network of its own.\<close>

definition client_listen :: "'g OeNet \<Rightarrow> 'e OeNetConn \<Rightarrow> oe_time \<Rightarrow> 'e \<Rightarrow> ('e, 'k, 'w) srv_session \<times> Oec_IdSet" where
  "client_listen net new_conn now e =
     (let st = fst (listen_for_bytes net new_conn e None now) in (sv_session st, sv_sessions st))"

lemma listen_first:
  assumes "OeNet_new arg = Inr net"
  shows "s_outstanding_task_count (fst (client_listen net new_conn now e)) = 0"
    "Oec_IdSet_member (snd (client_listen net new_conn now e)) 1"
proof -
  obtain ids where ids: "Oec_IdSet_new 100 = Inr ids" "net_sessions net = ids" "net_create_id net = None" "net_lastid net = 0"
    using assms by (auto simp: OeNet_new_def c_bind_Inr)
  have "idset_ok ids" using ids(1) Set_new_ok [of 100 itemcmp itemhash] by (auto simp: Oec_IdSet_new_def idset_ok_def)
  then have "Oec_IdSet_member (Oec_IdSet_put ids 1) 1" using idset_put [of ids 1] idset_member by auto
  then show "s_outstanding_task_count (fst (client_listen net new_conn now e)) = 0"
      "Oec_IdSet_member (snd (client_listen net new_conn now e)) 1"
    using ids by (simp_all add: client_listen_def listen_for_bytes_def OeNet_create_id_def OeNet_get_sessions_def oesession_new_def
        OeSession_set_id_def OeSession_get_id_def oenetconn_set_conn_obj_def Let_def)
qed

lemma client_new_ok:
  assumes "OepClient_new user pwd spec ids OeJclNet_peek_cid OeJclNet_read_msg OeJclNet_write_msg = Inr cl"
  shows "speaks_jcl cl" "client_ok cl" "waiting cl = (\<lambda>cid. None)" "oc_answers cl = []"
proof -
  obtain t where t: "Table_new 100 cidcmp cidhash = Inr t" "oc_pending cl = Some t"
    using assms by (auto simp: OepClient_new_def c_bind_Inr)
  obtain t' :: "(oe_id, ACContext) table_T" where t': "ArenaTable_new False 100 cidcmp cidhash = Inr t'" "cidkey.tgood t'" "ArenaTable_toArray t' = []"
    using ArenaTable_new_ok [of 100 False cidcmp cidhash] by (auto simp: cidkey.tgood_def)
  have "t = t'" using t(1) t'(1) by (simp add: Table_new_def)
  then have g: "Table_get t k = None" for k
    using t'(3) cidkey.get_iff [OF t'(2), of k] by (cases "Table_get t k") (auto simp: Table_get_def)
  show "client_ok cl" "waiting cl = (\<lambda>cid. None)" using t t'(2) \<open>t = t'\<close> g by (simp_all add: client_ok_def waiting_def fun_eq_iff)
  show "speaks_jcl cl" "oc_answers cl = []" using assms by (auto simp: OepClient_new_def c_bind_Inr speaks_jcl_def)
qed

lemma connect_sends:
  assumes "connect_begin dial new_session cl0 = Inr (Some cl1)"
  shows "\<exists>e ctx. OepClient_send ctx (cl0\<lparr>oc_session := Some (OeSession_set_id (fst (new_session e)) 1),
    oc_sessions := snd (new_session e)\<rparr>) = Inr cl1"
  using assms by (auto simp: connect_begin_def c_bind_Inr Let_def case_prod_beta split: option.splits if_splits) blast

lemma connected_adrift:
  assumes "OeNet_new arg = Inr net"
    "OepClient_new user pwd spec (net_sessions net) OeJclNet_peek_cid OeJclNet_read_msg OeJclNet_write_msg = Inr cl0"
    "connect_begin dial (client_listen net new_conn now) (cl0 :: ('a, 'b, 'c) OepClient) = Inr (Some cl1)"
  shows "tasks_below 0 cl1"
proof -
  obtain e ctx where s: "OepClient_send ctx (cl0\<lparr>oc_session := Some (OeSession_set_id (fst (client_listen net new_conn now e)) 1),
      oc_sessions := snd (client_listen net new_conn now e :: ('a, 'b, 'c) srv_session \<times> Oec_IdSet)\<rparr>) = Inr cl1"
      (is "OepClient_send ctx ?cl = Inr cl1")
    using connect_sends [OF assms(3)] by blast
  have "tasks_below 1 ?cl"
    using client_new_ok [OF assms(2)]
    by (auto simp: listen_first [OF assms(1)] tasks_below_def OeSession_set_id_def speaks_jcl_def client_ok_def)
  then show ?thesis using send_step [OF _ s] by fastforce
qed

text \<open>C36: when the connection of a client is lost, nobody is told: whatever the client has done since it connected, the commands
  that wait then wait forever, and no callback is called any more, whatever is sent afterwards.  The client counts every command
  as a task that is done, so that its session never has the task count 0 at which its end is noticed.\<close>

theorem lost_connection:
  assumes "OeNet_new arg = Inr net"
    "OepClient_new user pwd spec (net_sessions net) OeJclNet_peek_cid OeJclNet_read_msg OeJclNet_write_msg = Inr cl0"
    "connect_begin dial (client_listen net new_conn now) cl0 = Inr (Some cl1)" "client_step\<^sup>*\<^sup>* cl1 cl2"
  shows "\<exists>cl3. client_cleanup_conn cl2 = Inr cl3 \<and>
    (\<forall>cl4. client_step\<^sup>*\<^sup>* cl3 cl4 \<longrightarrow> oc_answers cl4 = oc_answers cl2 \<and> dom (waiting cl2) \<subseteq> dom (waiting cl4))"
proof -
  obtain cl3 where "client_cleanup_conn cl2 = Inr cl3" "tasks_below 0 cl3" "kept_waiting cl2 cl3"
    using cleanup_step [OF client_steps_adrift [OF assms(4) connected_adrift [OF assms(1-3)]]] by blast
  then show ?thesis using client_steps_closing kept_waiting_trans unfolding kept_waiting_def by metis
qed

section \<open>Sample clients\<close>

definition sample_ac :: ACContext where
  "sample_ac = \<lparr>ac_context = OEK_Context_new\<lparr>cx_write_response_cb := True\<rparr>, ac_sid = 1\<rparr>"

definition sample_session :: "string \<Rightarrow> (string \<times> string, nat, nat) srv_session" where
  "sample_session input = (oesession_new (sample_conn input) 0)\<lparr>s_state := 4\<rparr>"

lemma new_client_exists:
  "\<exists>cl. OepClient_new user pwd spec ids OeJclNet_peek_cid OeJclNet_read_msg OeJclNet_write_msg = Inr cl"
proof -
  obtain t :: "(oe_id, ACContext) table_T" where "ArenaTable_new False 100 cidcmp cidhash = Inr t"
    using ArenaTable_new_ok [of 100 False cidcmp cidhash] by auto
  then show ?thesis by (simp add: OepClient_new_def Table_new_def)
qed

lemma sample_reading: "oc_session cl = Some (sample_session input) \<Longrightarrow> reading queue_events (\<lambda>_. NUL) fst cl input"
  using made_by_create [of queue_events "\<lambda>_. NUL" "(input, [])"]
  by (simp add: reading_def sample_session_def oesession_new_def OeSession_state_is_set_def OEC_FLAG_ISSET_def
      OENET_CLIENT_CONNECTED_def OENET_CLIENT_CLOSING_def) (simp add: OeLibeventConnFactory_create_def)

lemma sample_client:
  assumes "cid \<noteq> 0"
  obtains cl :: "(string \<times> string, nat, nat) OepClient" where "speaks_jcl cl" "client_ok cl" "waiting cl = [cid \<mapsto> sample_ac]"
    "oc_answers cl = []" "reading queue_events (\<lambda>_. NUL) fst cl input" "oc_sessions cl = ids"
    "oc_session cl = Some (sample_session input)"
proof -
  obtain cl0 :: "(string \<times> string, nat, nat) OepClient"
    where n: "OepClient_new None None [] ids OeJclNet_peek_cid OeJclNet_read_msg OeJclNet_write_msg = Inr cl0"
    using new_client_exists by blast
  note ok = client_new_ok [OF n]
  obtain cl1 where cl1: "save_context cid sample_ac cl0 = Inr cl1" "client_ok cl1" "waiting cl1 = (waiting cl0)(cid := Some sample_ac)"
      "cl1 = cl0\<lparr>oc_pending := oc_pending cl1\<rparr>"
    using save_waiting [OF ok(2) assms] by blast
  let ?cl = "cl1\<lparr>oc_session := Some (sample_session input)\<rparr>"
  have "oc_sessions cl0 = ids" using n by (auto simp: OepClient_new_def c_bind_Inr)
  then have "oc_answers cl1 = []" "speaks_jcl cl1" "oc_sessions cl1 = ids"
    using ok(1,4) by (subst cl1(4), simp add: speaks_jcl_def)+
  moreover have "reading queue_events (\<lambda>_. NUL) fst ?cl input" by (simp add: sample_reading)
  ultimately show ?thesis
    using that [of ?cl] cl1(2,3) ok(3) by (auto simp: speaks_jcl_def fun_eq_iff)
qed

lemma sample_written: "is_response (Written 42 5)" "mtype (message (Written 42 5)) = PUT_RES" "cor_id (message (Written 42 5)) = 42"
  by (auto simp: is_response_def small_id_def envelope_def NUL_def lld_def)

theorem client_batch_witness:
  "\<exists>cl cl' :: (string \<times> string, nat, nat) OepClient. waiting cl 42 = Some sample_ac \<and> client_on_read 2 cl = Inr cl' \<and>
     waiting cl' 42 = None \<and>
     oc_answers cl' = [(ac_context sample_ac)\<lparr>cx_res_msgs := Some [message (Written 42 5)]\<rparr>]"
proof -
  obtain cl :: "(string \<times> string, nat, nat) OepClient" where cl: "speaks_jcl cl" "client_ok cl" "waiting cl = [42 \<mapsto> sample_ac]"
      "oc_answers cl = []" "reading queue_events (\<lambda>_. NUL) fst cl (batch [Written 42 5] @ [])"
    by (rule sample_client [of 42 _ undefined]) auto
  have d: "deliver_all [Written 42 5] (waiting cl, oc_answers cl) =
      Some (Map.empty, [(ac_context sample_ac)\<lparr>cx_res_msgs := Some [message (Written 42 5)]\<rparr>])"
    using cl(3,4) by (simp add: deliver_def with_response_def got_def sample_ac_def OEK_Context_new_def sample_written
        del: message.simps)
  have "incomplete P []" for P by (simp add: incomplete_def CID_TAG_def oe_memmem.simps)
  then obtain cl' where "client_on_read 2 cl = Inr cl'" "waiting cl' = Map.empty"
      "oc_answers cl' = [(ac_context sample_ac)\<lparr>cx_res_msgs := Some [message (Written 42 5)]\<rparr>]"
    using client_batch [OF queue_buffers cl(1,2,5), of 2] sample_written(1) unfolding d by auto
  then show ?thesis using cl(3) by (intro exI [of _ cl] exI [of _ cl']) simp
qed

theorem client_split_witness:
  "\<exists>cl :: (string \<times> string, nat, nat) OepClient. waiting cl 42 = Some sample_ac \<and>
     reading queue_events (\<lambda>_. NUL) fst cl (''response(cmd=write cid=42'') \<and> client_on_read 1 cl = Inl Assert_Failed"
proof -
  let ?part = "cid_prefix (Written 42 5) @ CID_TAG @ dec_nat 42"
  obtain cl :: "(string \<times> string, nat, nat) OepClient" where cl: "speaks_jcl cl" "client_ok cl" "waiting cl = [42 \<mapsto> sample_ac]"
      "reading queue_events (\<lambda>_. NUL) fst cl ?part"
    by (rule sample_client [of 42 _ undefined]) auto
  have "dec_nat 42 = ''42''" by code_simp
  then have "?part = ''response(cmd=write cid=42''" by (simp add: CID_TAG_def)
  moreover have "client_on_read (Suc 0) cl = Inl Assert_Failed"
    using client_split [OF queue_buffers cl(1,2) sample_written(1), of 42 0] cl(3,4) sample_written(3) by simp
  ultimately show ?thesis using cl(3,4) by (intro exI [of _ cl]) simp
qed

lemma sample_spec:
  "oepu_get_hostname_from_spec ''oejcl://h:7/e'' = Inr (Some ''h'')" "oepu_get_port_from_spec ''oejcl://h:7/e'' = Inr 7"
  "oepu_get_extentname_from_spec ''oejcl://h:7/e'' = Inr (Some ''e'')"
  by code_simp+

lemma connect_message_text:
  assumes "Subject_get_username subject = Some user" "Subject_get_pwd subject = Some pwd"
  shows "\<exists>m. connect_message (Some ext) subject = Inr m \<and> cor_id m = 1 \<and>
    OeJclEncoder_msg_serialize m = Inr (Some (jcl_text (Connect 1 ext user pwd)))"
  using assms length_lld_id [of 1]
  by (simp add: connect_message_def OekMsg_new_def OekMsg_settype_def Let_def OekMsg_set_cid_def print_simps ConCmd_set_rollback_on_disconnect_def
      ConCmd_set_version_upt_def ConCmd_set_version_min_def ConCmd_set_version_maj_def ConCmd_set_pwd_def ConCmd_set_username_def
      ConCmd_set_extentname_def small_id_def)

theorem lost_connection_witness:
  "\<exists>(cl1 :: (string \<times> string, nat, nat) OepClient) cl3. waiting cl1 1 \<noteq> None \<and> client_cleanup_conn cl1 = Inr cl3 \<and>
     waiting cl3 1 \<noteq> None \<and> oc_answers cl3 = []"
proof -
  obtain net :: "nat OeNet" where net: "OeNet_new (0 :: nat) = Inr net"
    using Set_new_ok [of 100 itemcmp itemhash] by (auto simp: OeNet_new_def Oec_IdSet_new_def)
  obtain cl0 :: "(string \<times> string, nat, nat) OepClient"
    where n: "OepClient_new (Some ''u'') (Some ''p'') ''oejcl://h:7/e'' (net_sessions net) OeJclNet_peek_cid OeJclNet_read_msg
        OeJclNet_write_msg = Inr cl0"
    using new_client_exists by blast
  have sb: "Subject_get_username (oc_subject cl0) = Some ''u''" "Subject_get_pwd (oc_subject cl0) = Some ''p''"
      "oc_spec cl0 = ''oejcl://h:7/e''"
    using n by (auto simp: OepClient_new_def c_bind_Inr Subject_get_username_def Subject_set_username_def Subject_set_pwd_def
        Subject_get_pwd_def)
  obtain m where m: "connect_message (Some ''e'') (oc_subject cl0) = Inr m" "cor_id m = 1"
      "OeJclEncoder_msg_serialize m = Inr (Some (jcl_text (Connect 1 ''e'' ''u'' ''p'')))"
    using connect_message_text [OF sb(1,2)] by blast
  let ?l = "client_listen net (sample_conn []) 0 ([], []) :: (string \<times> string, nat, nat) srv_session \<times> Oec_IdSet"
  let ?cl = "cl0\<lparr>oc_session := Some (OeSession_set_id (fst ?l) 1), oc_sessions := snd ?l\<rparr>"
  let ?ctx = "OEK_Context_new\<lparr>cx_kernel := True, cx_write_response_cb := True, cx_cmd_msg := Some m\<rparr>"
  note ok = client_new_ok [OF n]
  have "made_by queue_events (\<lambda>_. NUL) (s_conn (OeSession_set_id (fst ?l) 1))"
    using made_by_create [of queue_events "\<lambda>_. NUL" "([], [])"]
    by (simp add: client_listen_def listen_for_bytes_def Let_def case_prod_beta OeSession_set_id_def oesession_new_def
        oenetconn_set_conn_obj_def made_by_def)
  moreover have "speaks_jcl ?cl" "client_ok ?cl" "waiting ?cl = Map.empty" "oc_answers ?cl = []"
    using ok by (simp_all add: speaks_jcl_def client_ok_def waiting_def fun_eq_iff)
  moreover have "Oec_IdSet_member (oc_sessions ?cl) (s_sid (OeSession_set_id (fst ?l) 1))"
      "sint (s_outstanding_task_count (OeSession_set_id (fst ?l) 1)) \<noteq> - (2 ^ 31)"
    by (simp_all add: listen_first [OF net] OeSession_set_id_def)
  ultimately obtain cl1 where cl1: "OepClient_send ?ctx ?cl = Inr cl1" "waiting cl1 1 \<noteq> None" "oc_answers cl1 = []"
    using OepClient_send_writes [OF queue_buffers, of ?cl "OeSession_set_id (fst ?l) 1" "\<lambda>_. NUL" ?ctx m, OF _ _ _ _ _ _ _ _ m(3)] m(2)
    by (auto simp: OekMsg_get_cid_def)
  have "connect_begin (\<lambda>h p. Some ([], [])) (client_listen net (sample_conn []) 0) cl0 = Inr (Some cl1)"
    using cl1(1) by (simp add: connect_begin_def sb(3) sample_spec m(1) Let_def case_prod_beta)
  from lost_connection [OF net n this rtranclp.rtrancl_refl] obtain cl3 where
    "client_cleanup_conn cl1 = Inr cl3" "\<forall>cl4. client_step\<^sup>*\<^sup>* cl3 cl4 \<longrightarrow> oc_answers cl4 = oc_answers cl1 \<and>
      dom (waiting cl1) \<subseteq> dom (waiting cl4)" by blast
  then show ?thesis using cl1(2,3) by (intro exI [of _ cl1] exI [of _ cl3]) (auto dest: spec [of _ cl3])
qed

end
