(* ===== verification/Client_Server.thy ===== *)
theory Client_Server
  imports Client_Props
begin

text \<open>
  A client and a server on the two ends of a connection: a command that a client sends reaches the kernel, and the responses of the
  kernel reach the callback of the command.
\<close>

section \<open>The server's side\<close>

text \<open>Messages whose texts a client reads as these responses; the client does not see all that is in the messages.\<close>

definition printed_as :: "OekMsg list \<Rightarrow> jcl_msg list \<Rightarrow> bool" where
  "printed_as ms rs = list_all2 (\<lambda>m r. OeJclEncoder_msg_serialize m = Inr (Some (jcl_text r))) ms rs"

lemma srv_write_sends:
  assumes sp: "speaks srv OeJclNet_read_msg OeJclNet_write_msg"
    and ev: "buffers ev received sent" "made_by ev stack (s_conn (sv_session st))"
    and t: "OeJclEncoder_msg_serialize msg = Inr (Some t)"
  shows "\<exists>st'. srv_write srv msg st = Inr st' \<and> made_by ev stack (s_conn (sv_session st')) \<and>
    on_conn sent (sv_session st') = on_conn sent (sv_session st) @ t @ MSG_END_BYTES"
proof -
  obtain a' where "OeJclNet_write_msg (sv_session st) msg = Inr (0, a')" "made_by ev stack (s_conn a')"
      "on_conn sent a' = on_conn sent (sv_session st) @ t @ MSG_END_BYTES"
    using write_text_sends [OF ev t] by blast
  then show ?thesis using sp by (simp add: srv_write_def speaks_def log_effect_def)
qed

lemma write_all_sends:
  assumes sp: "speaks srv OeJclNet_read_msg OeJclNet_write_msg" and ev: "buffers ev received sent"
    and "printed_as ms rs" "made_by ev stack (s_conn (sv_session st))"
  shows "\<exists>st'. write_all srv ms st = Inr st' \<and> on_conn sent (sv_session st') = on_conn sent (sv_session st) @ batch rs"
  using assms(3,4) unfolding printed_as_def
proof (induction ms rs arbitrary: st rule: list_all2_induct)
  case (Cons m ms r rs)
  obtain st1 where st1: "srv_write srv m st = Inr st1" "made_by ev stack (s_conn (sv_session st1))"
      "on_conn sent (sv_session st1) = on_conn sent (sv_session st) @ jcl_text r @ MSG_END_BYTES"
    using srv_write_sends [OF sp ev Cons.prems Cons.hyps(1)] by blast
  then show ?case using Cons.IH [OF st1(2)] by (auto simp: batch_def)
qed (simp add: batch_def)

text \<open>A response of the kernel that ends or begins a transaction names it.\<close>

definition names_txn :: "OekMsg \<Rightarrow> bool" where
  "names_txn m = ((mtype m = STA_RES \<longrightarrow> txn_id m \<noteq> 0) \<and> (mtype m = UPT_RES \<longrightarrow> txn_id m \<noteq> 0 \<and> (\<exists>r. data m = D_upt_res r)))"

lemma update_pending_works:
  assumes "cx_res_msgs ctx = Some (m # ms)" "names_txn m" "txns_ok (sv_session st)" "\<not> sv_txns_freed st"
  shows "\<exists>p. update_pending_txns ctx st = Inr (st\<lparr>sv_session := (sv_session st)\<lparr>s_pending_txns := p\<rparr>\<rparr>)"
proof (cases "mtype m = STA_RES")
  case True
  then obtain p where "OeSession_save_tid (sv_session st) (txn_id m) = Inr ((sv_session st)\<lparr>s_pending_txns := p\<rparr>)"
    using save_tid_ok [OF assms(3), of "txn_id m"] assms(2) by (auto simp: names_txn_def)
  then show ?thesis using assms True by (auto simp: update_pending_txns_def OekMsg_get_type_def OekMsg_get_tid_def)
next
  case False
  show ?thesis
  proof (cases "mtype m = UPT_RES")
    case True
    then obtain r q p where r: "data m = D_upt_res r"
        "OeSession_clear_tid (sv_session st) (txn_id m) = Inr (q, (sv_session st)\<lparr>s_pending_txns := p\<rparr>)"
      using clear_tid_ok [OF assms(3), of "txn_id m"] assms(2) by (auto simp: names_txn_def)
    have "sv_session st = (sv_session st)\<lparr>s_pending_txns := s_pending_txns (sv_session st)\<rparr>" by simp
    then have "\<exists>p. st = st\<lparr>sv_session := (sv_session st)\<lparr>s_pending_txns := p\<rparr>\<rparr>" by (metis serving.surjective serving.update_convs(1))
    then show ?thesis
      using assms False True r
      by (auto simp: update_pending_txns_def OekMsg_get_type_def OekMsg_get_tid_def OekMsg_get_upt_res_def)
  next
    case no: False
    then show ?thesis using assms False by (auto simp: update_pending_txns_def OekMsg_get_type_def intro!: exI [of _ "s_pending_txns (sv_session st)"])
  qed
qed

lemma answer_sends:
  assumes sp: "speaks srv OeJclNet_read_msg OeJclNet_write_msg"
    and ev: "buffers ev received sent" "made_by ev stack (s_conn (sv_session st))"
    and st: "OeSession_state_is_set (sv_session st) OENET_CLIENT_CONNECTED" "txns_ok (sv_session st)" "\<not> sv_txns_freed st"
      "sint (s_outstanding_task_count (sv_session st)) \<noteq> - (2 ^ 31)"
    and ctx: "cx_res_msgs ctx = Some (m # ms)" "cx_err_msg ctx = None" "names_txn m" and p: "printed_as (m # ms) rs"
  shows "\<exists>st'. write_to_client_cb srv ctx st = Inr st' \<and>
    on_conn sent (sv_session st') = on_conn sent (sv_session st) @ batch rs"
proof -
  let ?s = "\<lambda>p. (sv_session st)\<lparr>s_pending_txns := p, s_outstanding_task_count := s_outstanding_task_count (sv_session st) - 1\<rparr>"
  obtain q where q: "update_pending_txns ctx st = Inr (st\<lparr>sv_session := (sv_session st)\<lparr>s_pending_txns := q\<rparr>\<rparr>)"
    using update_pending_works [OF ctx(1,3) st(2,3)] by blast
  have c: "OeSession_state_is_set (?s q) OENET_CLIENT_CONNECTED" using st(1) by (simp add: OeSession_state_is_set_def)
  obtain st' where "write_all srv (m # ms) (st\<lparr>sv_session := ?s q\<rparr>) = Inr st'"
      "on_conn sent (sv_session st') = on_conn sent (sv_session st) @ batch rs"
    using write_all_sends [OF sp ev(1) p, of stack "st\<lparr>sv_session := ?s q\<rparr>"] ev(2) by auto
  then show ?thesis
    using st(4) c ctx(1,2) by (simp add: write_to_client_cb_def q OeSession_decr_task_count_def Let_def)
qed

section \<open>The client's side\<close>

text \<open>The responses to one command: a single one, or as many results as each of them announces.\<close>

definition complete_answer :: "oe_id \<Rightarrow> jcl_msg list \<Rightarrow> bool" where
  "complete_answer cid rs =
     (rs \<noteq> [] \<and> length rs < 2 ^ 31 \<and>
      (\<forall>r \<in> set rs. is_response r \<and> cor_id (message r) = cid \<and> mtype (message r) \<noteq> OEK_ERR \<and>
         (if length rs = 1 then mtype (message r) = GET_RES \<longrightarrow> announced (message r) \<le> 1
          else mtype (message r) = GET_RES \<and> announced (message r) = of_nat (length rs))))"

lemma of_nat_less_64: "a < 2 ^ 31 \<Longrightarrow> b < 2 ^ 31 \<Longrightarrow> (of_nat a :: 64 word) < of_nat b \<longleftrightarrow> a < b"
  by (simp add: word_less_nat_alt unsigned_of_nat take_bit_nat_eq_self)

lemma deliver_rest:
  assumes "P cid = Some pc" "cx_write_response_cb (ac_context pc)" "got (ac_context pc) = map message xs" "ys \<noteq> []"
    and n: "length xs + length ys = n" "n < 2 ^ 31"
    and ys: "\<forall>r \<in> set ys. cor_id (message r) = cid \<and> mtype (message r) \<noteq> OEK_ERR \<and>
      (if n = 1 then mtype (message r) = GET_RES \<longrightarrow> announced (message r) \<le> 1
       else mtype (message r) = GET_RES \<and> announced (message r) = of_nat n)"
  shows "deliver_all ys (P, A) =
    Some (P(cid := None), A @ [(ac_context pc)\<lparr>cx_res_msgs := Some (map message (xs @ ys))\<rparr>])"
  using assms
proof (induction ys arbitrary: P pc xs)
  case (Cons r ys)
  let ?ctx = "(ac_context pc)\<lparr>cx_res_msgs := Some (map message (xs @ [r]))\<rparr>"
  have r: "cor_id (message r) = cid" "mtype (message r) \<noteq> OEK_ERR" using Cons.prems(7) by auto
  have w: "with_response (message r) (ac_context pc) = ?ctx" "got ?ctx = map message (xs @ [r])"
    using r(2) Cons.prems(3) by (simp_all add: with_response_def got_def)
  show ?case
  proof (cases "ys = []")
    case True
    have "\<not> (mtype (message r) = GET_RES \<and> of_nat (length (got ?ctx)) < announced (message r))"
      using Cons.prems(5-7) True w(2) of_nat_less_64 [of n n] by (auto split: if_splits)
    then show ?thesis using Cons.prems(1,2) r(1) True w by (auto simp: deliver_def Let_def)
  next
    case False
    then have "n \<noteq> 1" using Cons.prems(5) by (cases ys) auto
    then have "mtype (message r) = GET_RES" "of_nat (length (got ?ctx)) < announced (message r)"
      using Cons.prems(5-7) False w(2) of_nat_less_64 [of "Suc (length xs)" n] by (cases ys, auto)+
    then have d: "deliver (cor_id (message r)) (message r) (P, A) = Some (P(cid \<mapsto> pc\<lparr>ac_context := ?ctx\<rparr>), A)"
      using Cons.prems(1,2) r(1) w by (simp add: deliver_def Let_def)
    let ?P = "P(cid \<mapsto> pc\<lparr>ac_context := ?ctx\<rparr>)"
    have prem: "?P cid = Some (pc\<lparr>ac_context := ?ctx\<rparr>)" "cx_write_response_cb (ac_context (pc\<lparr>ac_context := ?ctx\<rparr>))"
        "got (ac_context (pc\<lparr>ac_context := ?ctx\<rparr>)) = map message (xs @ [r])" "length (xs @ [r]) + length ys = n"
      using Cons.prems(2,5) w(2) by simp_all
    have all: "\<forall>r \<in> set ys. cor_id (message r) = cid \<and> mtype (message r) \<noteq> OEK_ERR \<and>
      (if n = 1 then mtype (message r) = GET_RES \<longrightarrow> announced (message r) \<le> 1
       else mtype (message r) = GET_RES \<and> announced (message r) = of_nat n)"
      using Cons.prems(7) by (meson list.set_intros(2))
    have "deliver_all ys (?P, A) = Some (?P(cid := None), A @ [(ac_context (pc\<lparr>ac_context := ?ctx\<rparr>))\<lparr>
        cx_res_msgs := Some (map message ((xs @ [r]) @ ys))\<rparr>])"
      by (rule Cons.IH [of ?P, OF prem(1-3) False prem(4) Cons.prems(6) all])
    then show ?thesis using d by (simp add: fun_eq_iff)
  qed
qed simp

lemma deliver_complete:
  assumes "complete_answer cid rs" "P cid = Some pc" "cx_write_response_cb (ac_context pc)" "cx_res_msgs (ac_context pc) = None"
  shows "deliver_all rs (P, A) = Some (P(cid := None), A @ [(ac_context pc)\<lparr>cx_res_msgs := Some (map message rs)\<rparr>])"
  using deliver_rest [of P cid pc "[]" rs "length rs" A] assms by (simp add: complete_answer_def got_def)

section \<open>Both sides\<close>

definition client_sent :: "('e \<Rightarrow> string) \<Rightarrow> ('e, 'k, 'w) OepClient \<Rightarrow> string" where
  "client_sent sent cl = (case oc_session cl of None \<Rightarrow> [] | Some s \<Rightarrow> on_conn sent s)"

text \<open>A client that is ready to send, and a server that is ready to read.\<close>

definition client_ready ::
  "'e libevent \<Rightarrow> (nat \<Rightarrow> char) \<Rightarrow> ('e \<Rightarrow> string) \<Rightarrow> ('e, 'k, 'w) OepClient \<Rightarrow> bool" where
  "client_ready ev stack received cl =
     (speaks_jcl cl \<and> client_ok cl \<and> reading ev stack received cl [] \<and>
      (\<forall>s. oc_session cl = Some s \<longrightarrow> Oec_IdSet_member (oc_sessions cl) (s_sid s) \<and>
         sint (s_outstanding_task_count s) \<noteq> - (2 ^ 31)))"

definition server_ready ::
  "'e libevent \<Rightarrow> (nat \<Rightarrow> char) \<Rightarrow> ('e, 'k, 'w) OepServer \<Rightarrow> 'k \<Rightarrow> ('e, 'k, 'w) serving \<Rightarrow> bool" where
  "server_ready ev stack srv k st =
     (speaks srv OeJclNet_read_msg OeJclNet_write_msg \<and> os_security_context srv = None \<and> \<not> sv_txns_freed st \<and>
      (let s = sv_session st in made_by ev stack (s_conn s) \<and> OeSession_state_is_set s OENET_CLIENT_CONNECTED \<and>
         \<not> OeSession_state_is_set s OENET_CLIENT_CLOSING \<and> s_sess_context s = Some k \<and> s_appl_context s = None \<and> txns_ok s \<and>
         0 \<le> sint (s_outstanding_task_count s) \<and> sint (s_outstanding_task_count s) < 2 ^ 31 - 1))"

lemma cid_of_command: "is_command j \<Longrightarrow> OekMsg_get_cid (message j) = cor_id (message j)"
  by (simp add: OekMsg_get_cid_def)

lemma server_takes_command:
  assumes ev: "buffers ev received sent" and st: "server_ready ev stack srv k st"
    and j: "is_command j" "printable_msg j" "framed (jcl_text j)"
    and r: "on_conn received (sv_session st) = jcl_text j @ MSG_END_BYTES"
  shows "\<exists>st'. buffered_on_read (Suc n) srv w now st = Inr st' \<and> sv_out st' = sv_out st @ [Command k (command_context now (message j))] \<and>
    made_by ev stack (s_conn (sv_session st')) \<and> on_conn sent (sv_session st') = on_conn sent (sv_session st) \<and>
    OeSession_state_is_set (sv_session st') OENET_CLIENT_CONNECTED \<and> txns_ok (sv_session st') \<and> \<not> sv_txns_freed st' \<and>
    sint (s_outstanding_task_count (sv_session st')) \<noteq> - (2 ^ 31)"
proof -
  let ?s = "sv_session st" and ?n = "s_outstanding_task_count (sv_session st)"
  have s: "speaks srv OeJclNet_read_msg OeJclNet_write_msg" "os_security_context srv = None" "\<not> sv_txns_freed st"
      "made_by ev stack (s_conn ?s)" "OeSession_state_is_set ?s OENET_CLIENT_CONNECTED"
      "\<not> OeSession_state_is_set ?s OENET_CLIENT_CLOSING" "s_sess_context ?s = Some k" "s_appl_context ?s = None" "txns_ok ?s"
      "0 \<le> sint ?n" "sint ?n \<noteq> 2 ^ 31 - 1"
    using st by (auto simp: server_ready_def Let_def)
  obtain c where c: "on_message srv w now st = Inr (False, st\<lparr>sv_session := ?s\<lparr>s_conn := c, s_outstanding_task_count := ?n + 1\<rparr>,
         sv_out := sv_out st @ [Command k (command_context now (message j))]\<rparr>)" "made_by ev stack c"
      "sent (conn_obj c) = on_conn sent ?s"
    using on_message_command [OF s(1) ev s(4,2,5,7,8) j, of "[]"] r s(11) by auto
  have "sint (?n + 1) \<noteq> - (2 ^ 31)" using sint_incr [OF s(11)] s(10) by simp
  then show ?thesis using c s by (simp add: OeSession_state_is_set_def txns_ok_def)
qed

text \<open>C34: a command of a client goes to the server as a text from which the server gets exactly this command, which it hands to the
  kernel of the session in a context of its own.  If the kernel answers in this context with messages, the server sends texts
  from which the client gets the responses to its command; its callback is called once, with all of them in order, and the command
  does not wait any longer.\<close>

theorem request_response:
  assumes ev: "buffers ev received sent" and cl: "client_ready ev stack received cl" and st: "server_ready ev stack srv k st"
    and j: "is_command j" "printable_msg j" "framed (jcl_text j)" "cor_id (message j) \<noteq> 0"
    and ctx: "cx_cmd_msg ctx = Some (message j)" "cx_write_response_cb ctx" "cx_res_msgs ctx = None"
    and ms: "printed_as ms rs" "complete_answer (cor_id (message j)) rs" "names_txn (hd ms)"
  shows "\<exists>cl1. OepClient_send ctx cl = Inr cl1 \<and> client_sent sent cl1 = client_sent sent cl @ jcl_text j @ MSG_END_BYTES \<and>
    (on_conn received (sv_session st) = jcl_text j @ MSG_END_BYTES \<longrightarrow>
     (\<exists>st1 kctx st2 u. buffered_on_read 1 srv w now st = Inr st1 \<and> sv_out st1 = sv_out st @ [Command k kctx] \<and>
        cx_cmd_msg kctx = Some (message j) \<and> write_to_client_cb srv (kctx\<lparr>cx_res_msgs := Some ms\<rparr>) st1 = Inr st2 \<and>
        on_conn sent (sv_session st2) = on_conn sent (sv_session st) @ u \<and>
        (\<forall>cl2. cl2 = cl1\<lparr>oc_session := oc_session cl2\<rparr> \<and> reading ev stack received cl2 u \<longrightarrow>
           (\<exists>cl3. client_on_read (Suc (length rs)) cl2 = Inr cl3 \<and>
              oc_answers cl3 = oc_answers cl @ [ctx\<lparr>cx_res_msgs := Some (map message rs)\<rparr>] \<and>
              waiting cl3 = (waiting cl)(cor_id (message j) := None)))))"
proof -
  obtain s where s: "oc_session cl = Some s" "made_by ev stack (s_conn s)" "Oec_IdSet_member (oc_sessions cl) (s_sid s)"
      "sint (s_outstanding_task_count s) \<noteq> - (2 ^ 31)" "speaks_jcl cl" "client_ok cl"
    using cl by (auto simp: client_ready_def reading_def)
  let ?cid = "cor_id (message j)" and ?v = "jcl_text j @ MSG_END_BYTES" and ?u = "batch rs"
  obtain cl1 s1 where cl1: "OepClient_send ctx cl = Inr cl1" "client_ok cl1" "same_client cl cl1" "oc_answers cl1 = oc_answers cl"
      "waiting cl1 = (waiting cl)(?cid \<mapsto> \<lparr>ac_context = ctx, ac_sid = s_sid s\<rparr>)" "oc_session cl1 = Some s1"
      "on_conn sent s1 = on_conn sent s @ ?v"
    using OepClient_send_writes [OF ev s(5,6,1-4) ctx(1) _ encodes [OF j(2)]] j(4) by (auto simp: OekMsg_get_cid_def)
  obtain m ms' where m: "ms = m # ms'"
    using ms(1,2) by (cases ms) (auto simp: printed_as_def complete_answer_def)
  have server: "\<exists>st1 st2. buffered_on_read 1 srv w now st = Inr st1 \<and>
      sv_out st1 = sv_out st @ [Command k (command_context now (message j))] \<and>
      write_to_client_cb srv ((command_context now (message j))\<lparr>cx_res_msgs := Some ms\<rparr>) st1 = Inr st2 \<and>
      on_conn sent (sv_session st2) = on_conn sent (sv_session st) @ ?u"
    if rv: "on_conn received (sv_session st) = ?v"
  proof -
    obtain st1 where st1: "buffered_on_read 1 srv w now st = Inr st1"
        "sv_out st1 = sv_out st @ [Command k (command_context now (message j))]"
        "made_by ev stack (s_conn (sv_session st1))" "on_conn sent (sv_session st1) = on_conn sent (sv_session st)"
        "OeSession_state_is_set (sv_session st1) OENET_CLIENT_CONNECTED" "txns_ok (sv_session st1)" "\<not> sv_txns_freed st1"
        "sint (s_outstanding_task_count (sv_session st1)) \<noteq> - (2 ^ 31)"
      using server_takes_command [OF ev st j(1-3) rv, of 0 w now] by auto
    have sp: "speaks srv OeJclNet_read_msg OeJclNet_write_msg" using st by (simp add: server_ready_def)
    show ?thesis
      using answer_sends [OF sp ev st1(3,5-8), of "(command_context now (message j))\<lparr>cx_res_msgs := Some ms\<rparr>" m ms' rs]
        st1(1,2,4) m ms(1,3)
      by (auto simp: command_context_def create_context_def OEK_Context_new_def)
  qed
  have client: "\<exists>cl3. client_on_read (Suc (length rs)) cl2 = Inr cl3 \<and>
      oc_answers cl3 = oc_answers cl @ [ctx\<lparr>cx_res_msgs := Some (map message rs)\<rparr>] \<and> waiting cl3 = (waiting cl)(?cid := None)"
    if c: "cl2 = cl1\<lparr>oc_session := oc_session cl2\<rparr>" "reading ev stack received cl2 ?u" for cl2
  proof -
    have cl2: "waiting cl2 = waiting cl1" "oc_answers cl2 = oc_answers cl1" "client_ok cl2" "same_client cl1 cl2"
      using cl1(2) by (subst c(1), simp)+
    have d: "deliver_all rs (waiting cl2, oc_answers cl2) =
        Some ((waiting cl1)(?cid := None), oc_answers cl @ [ctx\<lparr>cx_res_msgs := Some (map message rs)\<rparr>])"
      using deliver_complete [OF ms(2), of "waiting cl1" _ "oc_answers cl"] cl1(4,5) cl2(1,2) ctx(2,3) by simp
    have "speaks_jcl cl2" using speaks_same [OF cl2(4)] speaks_same [OF cl1(3) s(5)] by blast
    moreover have "\<forall>r \<in> set rs. is_response r" using ms(2) by (simp add: complete_answer_def)
    moreover have "incomplete P []" for P by (simp add: incomplete_def CID_TAG_def oe_memmem.simps)
    ultimately show ?thesis
      using client_on_read_batch [OF ev _ cl2(3), of stack rs "[]" "Suc (length rs)"] c(2) cl1(5) unfolding d by auto
  qed
  show ?thesis
    using cl1(1,6,7) s(1) server client
    by (intro exI [of _ cl1]) (auto simp: client_sent_def command_context_def)
qed

definition sample_request :: OEK_Context where
  "sample_request = OEK_Context_new\<lparr>cx_write_response_cb := True, cx_cmd_msg := Some (message sample_job)\<rparr>"

lemma sample_answer: "printed_as [message (Written 8 5)] [Written 8 5]" "complete_answer 8 [Written 8 5]"
    "names_txn (message (Written 8 5))" "cor_id (message sample_job) = 8"
proof -
  have p: "printable_msg (Written 8 5)" by (simp add: small_id_def)
  show "printed_as [message (Written 8 5)] [Written 8 5]" using encodes [OF p] by (simp add: printed_as_def del: message.simps jcl_text.simps)
  have "framed (jcl_text (Written 8 5))" by (simp add: NUL_def)
  then show "complete_answer 8 [Written 8 5]" using p by (simp add: complete_answer_def is_response_def envelope_def)
  show "names_txn (message (Written 8 5))" "cor_id (message sample_job) = 8"
    by (simp_all add: names_txn_def envelope_def sample_job_def)
qed

lemma sample_sides:
  "\<exists>(cl :: (string \<times> string, nat, nat) OepClient) srv st. client_ready queue_events (\<lambda>_. NUL) fst cl \<and> oc_answers cl = [] \<and>
     client_sent snd cl = [] \<and> server_ready queue_events (\<lambda>_. NUL) srv (7 :: nat) st \<and>
     on_conn fst (sv_session (st :: (string \<times> string, nat, nat) serving)) = jcl_text sample_job @ MSG_END_BYTES"
proof -
  obtain ids where ids: "idset_ok ids"
    using Set_new_ok [of 100 itemcmp itemhash] by (auto simp: idset_ok_def)
  then have m0: "Oec_IdSet_member (Oec_IdSet_put ids 0) 0" using idset_put [of ids 0] idset_member by auto
  obtain cl :: "(string \<times> string, nat, nat) OepClient" where cl: "speaks_jcl cl" "client_ok cl" "oc_answers cl = []"
      "reading queue_events (\<lambda>_. NUL) fst cl []" "oc_sessions cl = Oec_IdSet_put ids 0" "oc_session cl = Some (sample_session [])"
    by (rule sample_client [of 1 "[]" "Oec_IdSet_put ids 0"]) auto
  have ready: "client_ready queue_events (\<lambda>_. NUL) fst cl" "client_sent snd cl = []"
    using cl m0 by (simp_all add: client_ready_def client_sent_def sample_session_def oesession_new_def OeLibeventConnFactory_create_def)
  obtain srv :: "(string \<times> string, nat, nat) OepServer" and st0 where s: "speaks srv OeJclNet_read_msg OeJclNet_write_msg"
      "os_security_context srv = None" "ready_session 7 st0"
    using sample_run by blast
  define st where "st = st0\<lparr>sv_session := (sv_session st0)\<lparr>s_pending_txns := None\<rparr>, sv_txns_freed := False\<rparr>"
  have conn: "s_conn (sv_session st) = sample_conn (batch [sample_job])" using s(3) by (simp add: st_def ready_session_def)
  have "server_ready queue_events (\<lambda>_. NUL) srv 7 st"
    using s by (simp add: server_ready_def Let_def st_def ready_session_def txns_ok_def made_by_create OeSession_state_is_set_def)
  moreover have "on_conn fst (sv_session st) = jcl_text sample_job @ MSG_END_BYTES"
    by (simp add: conn batch_def OeLibeventConnFactory_create_def)
  ultimately show ?thesis using ready cl(3) by blast
qed

theorem request_response_witness:
  "\<exists>(cl :: (string \<times> string, nat, nat) OepClient) (srv :: (string \<times> string, nat, nat) OepServer) st cl1 st1 kctx st2 cl2 cl3. OepClient_send sample_request cl = Inr cl1 \<and>
     client_sent snd cl1 = on_conn fst (sv_session st) \<and> buffered_on_read 1 srv 0 0 st = Inr st1 \<and>
     write_to_client_cb srv (kctx\<lparr>cx_res_msgs := Some [message (Written 8 5)]\<rparr>) st1 = Inr st2 \<and>
     cl2 = cl1\<lparr>oc_session := oc_session cl2\<rparr> \<and> client_on_read 2 cl2 = Inr cl3 \<and>
     oc_answers cl3 = [sample_request\<lparr>cx_res_msgs := Some [message (Written 8 5)]\<rparr>]"
proof -
  obtain cl :: "(string \<times> string, nat, nat) OepClient" and srv :: "(string \<times> string, nat, nat) OepServer" and st where s: "client_ready queue_events (\<lambda>_. NUL) fst cl"
      "server_ready queue_events (\<lambda>_. NUL) srv 7 st" "oc_answers cl = []" "client_sent snd cl = []"
      "on_conn fst (sv_session st) = jcl_text sample_job @ MSG_END_BYTES"
    using sample_sides by blast
  have ctx: "cx_cmd_msg sample_request = Some (message sample_job)" "cx_write_response_cb sample_request"
      "cx_res_msgs sample_request = None"
    by (simp_all add: sample_request_def OEK_Context_new_def)
  have ans: "complete_answer (cor_id (message sample_job)) [Written 8 5]" "cor_id (message sample_job) \<noteq> 0"
      "names_txn (hd [message (Written 8 5)])"
    using sample_answer by (simp_all del: message.simps)
  note rr = request_response [OF queue_buffers s(1,2) sample_msgs(3,1,2) ans(2) ctx sample_answer(1) ans(1,3), of 0 0]
  obtain cl1 st1 kctx st2 u where r: "OepClient_send sample_request cl = Inr cl1" "client_sent snd cl1 = jcl_text sample_job @ MSG_END_BYTES"
      "buffered_on_read 1 srv 0 0 st = Inr st1"
      "write_to_client_cb srv (kctx\<lparr>cx_res_msgs := Some [message (Written 8 5)]\<rparr>) st1 = Inr st2"
      "\<forall>cl2. cl2 = cl1\<lparr>oc_session := oc_session cl2\<rparr> \<and> reading queue_events (\<lambda>_. NUL) fst cl2 u \<longrightarrow>
         (\<exists>cl3. client_on_read (Suc (length [Written 8 5])) cl2 = Inr cl3 \<and>
            oc_answers cl3 = oc_answers cl @ [sample_request\<lparr>cx_res_msgs := Some (map message [Written 8 5])\<rparr>] \<and>
            waiting cl3 = (waiting cl)(cor_id (message sample_job) := None))"
    using rr s(5) unfolding s(4) append_Nil by blast
  let ?cl2 = "cl1\<lparr>oc_session := Some (sample_session u)\<rparr>"
  have "reading queue_events (\<lambda>_. NUL) fst ?cl2 u" by (simp add: sample_reading)
  then obtain cl3 where "client_on_read (Suc (length [Written 8 5])) ?cl2 = Inr cl3"
      "oc_answers cl3 = oc_answers cl @ [sample_request\<lparr>cx_res_msgs := Some (map message [Written 8 5])\<rparr>]"
    using spec [OF r(5), of ?cl2] by auto
  then have "client_on_read 2 ?cl2 = Inr cl3" "oc_answers cl3 = [sample_request\<lparr>cx_res_msgs := Some [message (Written 8 5)]\<rparr>]"
    using s(3) by (simp_all only: list.size list.map append_Nil) (simp only: numeral_2_eq_2 One_nat_def add_0 plus_1_eq_Suc)
  moreover have "?cl2 = cl1\<lparr>oc_session := oc_session ?cl2\<rparr>" by simp
  ultimately show ?thesis using r(1-4) s(5) by metis
qed

end
