(* ===== verification/Json_Kernel.thy ===== *)
theory Json_Kernel
  imports Json_Roundtrip Kernel
begin

text \<open>
  A kernel that is spoken to in JSON, without a network (\<^verbatim>\<open>corelib/JsonKernel.c\<close>): the text of a command is executed, and the
  callback gets the texts of its responses, one below the other.
\<close>

text \<open>The context of a command: a get has until its timeout.\<close>

definition json_context :: "oe_time \<Rightarrow> OekMsg \<Rightarrow> OEK_Context c_result" where
  "json_context start_time msg =
     (let context = OEK_Context_new\<lparr>cx_write_response_cb := True, cx_kernel := True, cx_start_time := start_time\<rparr> in
      c_bind (case OekMsg_get_type msg of
                GET_CMD \<Rightarrow> c_bind (OekMsg_get_get_cmd msg) (\<lambda>cmd.
                  Inr (context\<lparr>cx_expire_time := start_time + GetCmd_get_timeout cmd\<rparr>))
              | OEK_NON \<Rightarrow> Inl Assert_Failed
              | _ \<Rightarrow> Inr context) (\<lambda>context. Inr (context\<lparr>cx_cmd_msg := Some msg\<rparr>)))"

definition JsonKernel_exec :: "oe_time \<Rightarrow> 'k OEK \<Rightarrow> string \<Rightarrow> (int \<times> 'k OEK) c_result" where
  "JsonKernel_exec start_time K json_cmd =
     c_bind (json_msg_create json_cmd) (\<lambda>r.
       case r of
         Inl code \<Rightarrow> Inr (- 1, K)
       | Inr msg \<Rightarrow> c_bind (json_context start_time msg) (\<lambda>context. c_bind (OEK_exec K context) (\<lambda>K'. Inr (0, K'))))"

definition serialized :: "OekMsg \<Rightarrow> string c_result" where
  "serialized msg = c_bind (json_msg_serialize msg) (\<lambda>(rc, buff). if rc \<noteq> 0 then Inl Assert_Failed else Inr buff)"

fun write_responses :: "string option \<Rightarrow> OekMsg list \<Rightarrow> string option c_result" where
  "write_responses jbuff [] = Inr jbuff"
| "write_responses jbuff (res # ms) =
     c_bind (serialized res) (\<lambda>ibuff.
     c_bind (case jbuff of None \<Rightarrow> Inr ibuff | Some b \<Rightarrow> oec_str_concat [b, [CHR 0x0A], ibuff]) (\<lambda>b. write_responses (Some b) ms))"

text \<open>What the callback is called with; NULL if there is no response.\<close>

definition json_write_to_client :: "OEK_Context \<Rightarrow> string option c_result" where
  "json_write_to_client context =
     (case cx_err_msg context of
        Some msg \<Rightarrow> c_bind (serialized msg) (\<lambda>jbuff. Inr (Some jbuff))
      | None \<Rightarrow> write_responses None (case cx_res_msgs context of None \<Rightarrow> [] | Some ms \<Rightarrow> ms))"

section \<open>Commands and responses\<close>

lemma serialized_ok: "json_ok m \<Longrightarrow> serialized m = Inr (json_of m)"
  by (simp add: serialized_def json_msg_serialize_ok)

lemma write_responses_ok:
  "\<forall>m \<in> set ms. json_ok m \<Longrightarrow> write_responses (Some b) ms = Inr (Some (b @ concat (map (\<lambda>m. CHR 0x0A # json_of m) ms)))"
  by (induction ms arbitrary: b) (simp_all add: serialized_ok oec_str_concat_def)

text \<open>Executing the text of a command is executing the command that its image is, with a context of its own; the callback gets
  the texts of all responses, in order and separated by line ends, from each of which a client makes the image of the response.\<close>

theorem json_kernel:
  assumes "json_ok m" "\<forall>r \<in> set (res # more_res). json_ok r" "cx_err_msg ctx = None" "cx_res_msgs ctx = Some (res # more_res)"
  shows "JsonKernel_exec now K (json_of m @ [NUL]) =
      c_bind (json_context now (json_image m)) (\<lambda>c. c_bind (OEK_exec K c) (\<lambda>K'. Inr (0, K'))) \<and>
    (\<exists>text. json_write_to_client ctx = Inr (Some text) \<and>
       text = json_of res @ concat (map (\<lambda>r. CHR 0x0A # json_of r) more_res)) \<and>
    (\<forall>r \<in> set (res # more_res). \<forall>rest. json_msg_create (json_of r @ CHR 0x0A # rest) = made_ok (json_image r))"
proof -
  have n: "ends_number NUL" "ends_number (CHR 0x0A)" by (simp_all add: ends_number_def is_digit_def NUL_def)
  have "json_msg_create (json_of m @ [NUL]) = made_ok (json_image m)" by (rule json_create [OF assms(1) n(1)])
  then have "JsonKernel_exec now K (json_of m @ [NUL]) =
      c_bind (json_context now (json_image m)) (\<lambda>c. c_bind (OEK_exec K c) (\<lambda>K'. Inr (0, K')))"
    by (simp add: JsonKernel_exec_def made_ok_def)
  moreover have "json_write_to_client ctx = Inr (Some (json_of res @ concat (map (\<lambda>r. CHR 0x0A # json_of r) more_res)))"
    using assms(2-4) write_responses_ok [of more_res "json_of res"] by (simp add: json_write_to_client_def serialized_ok)
  ultimately show ?thesis using assms(2) json_create [OF _ n(2)] by blast
qed

end
