(* ===== verification/Oep_Factory.thy ===== *)
theory Oep_Factory
  imports Server_Props Oep_Client
begin

text \<open>
  The wiring of the protocols (\<^verbatim>\<open>corelib/OepFactory.c\<close>): the address says which protocol a server or a client speaks.
\<close>

text \<open>\<^verbatim>\<open>strstr(spec, proto) == spec\<close>.\<close>

definition spec_is :: "string \<Rightarrow> string \<Rightarrow> bool" where
  "spec_is spec proto = (take (length proto) spec = proto)"

definition configure_json_server :: "('e, 'k, 'w) OepServer c_result" where
  "configure_json_server = OepServer_new JsonNet_read_msg JsonNet_write_msg"

definition configure_jcl_server :: "('e, 'k, 'w) OepServer c_result" where
  "configure_jcl_server = OepServer_new OeJclNet_read_msg OeJclNet_write_msg"

text \<open>The server, and where it listens.\<close>

definition OepFactory_new_server :: "string \<Rightarrow> (('e, 'k, 'w) OepServer \<times> string \<times> int) c_result" where
  "OepFactory_new_server spec =
     c_bind (if spec_is spec ''oejson://'' then configure_json_server
             else if spec_is spec ''oejcl://'' then configure_jcl_server
             else Inl Assert_Failed) (\<lambda>netsrv.
     c_bind (oepu_get_hostname_from_spec spec) (\<lambda>host.
       case host of
         None \<Rightarrow> Inl Assert_Failed
       | Some hostifc \<Rightarrow>
           c_bind (oepu_get_port_from_spec spec) (\<lambda>port.
             if port \<le> 0 then Inl Assert_Failed else Inr (netsrv, hostifc, port))))"

text \<open>The client up to its connect, which is \<^const>\<open>connect_begin\<close> and \<^const>\<open>connect_end\<close>.\<close>

definition OepFactory_new_client ::
  "string \<Rightarrow> Oec_IdSet \<Rightarrow> oe_scalar option \<Rightarrow> oe_scalar option \<Rightarrow> ('e, 'k, 'w) OepClient c_result" where
  "OepFactory_new_client spec sessions username pwd =
     (if spec_is spec ''oejson://''
      then OepClient_new username pwd spec sessions JsonNet_peek_cid JsonNet_read_msg JsonNet_write_msg
      else if spec_is spec ''oejcl://''
      then OepClient_new username pwd spec sessions OeJclNet_peek_cid OeJclNet_read_msg OeJclNet_write_msg
      else Inl Assert_Failed)"

lemma new_server_speaks: "OepServer_new r w = Inr srv \<Longrightarrow> speaks srv r w"
  by (auto simp: OepServer_new_def speaks_def c_bind_Inr)

lemma factory_native: "OepFactory_new_server spec = Inr (srv, host, port) \<Longrightarrow> native srv \<and> 0 < port"
  by (auto simp: OepFactory_new_server_def configure_json_server_def configure_jcl_server_def native_def c_bind_Inr
      split: if_splits option.splits dest: new_server_speaks)

text \<open>Both ends of an address speak the same protocol.\<close>

lemma factory_agrees:
  assumes "OepFactory_new_server spec = Inr (srv, host, port)" "OepFactory_new_client spec sessions username pwd = Inr cl"
  shows "(os_read_fun srv = JsonNet_read_msg \<and> os_write_fun srv = JsonNet_write_msg \<and> oc_read_fun cl = JsonNet_read_msg \<and>
      oc_write_fun cl = JsonNet_write_msg \<and> oc_peek_cid_fun cl = JsonNet_peek_cid) \<or>
    (os_read_fun srv = OeJclNet_read_msg \<and> os_write_fun srv = OeJclNet_write_msg \<and> oc_read_fun cl = OeJclNet_read_msg \<and>
      oc_write_fun cl = OeJclNet_write_msg \<and> oc_peek_cid_fun cl = OeJclNet_peek_cid)"
  using assms
  by (auto simp: OepFactory_new_server_def OepFactory_new_client_def configure_json_server_def configure_jcl_server_def OepServer_new_def
      OepClient_new_def c_bind_Inr split: if_splits option.splits)

end
