(* ===== verification/Oes_Kernel.thy ===== *)
theory Oes_Kernel
  imports Kernel Futures
begin

text \<open>
  The interface for programs (\<^verbatim>\<open>corelib/OesKernel_impl.c\<close>): writes, reads and takes return at once, with a holder whose future is
  set by a callback of the kernel; the operations between a begin and a commit belong to a transaction.

  Holders are addressed by their position.  A call that has to wait gives \<^const>\<open>Wait_More\<close> and is tried again; a wait for
  \<^verbatim>\<open>OEC_FOREVER\<close> is taken to last until its condition holds.  A field that \<^verbatim>\<open>Mem_alloc\<close> leaves uninitialised is \<^const>\<open>None\<close>.
\<close>

section \<open>Holders\<close>

datatype OES_TXN_STATUS = ACTIVE | ROLLEDBACK | COMMITTED

record OesTxn =
  tx_f :: "unit Oec_Future option"
  tx_status :: "OES_TXN_STATUS option"
  tx_tid :: "oe_id option"
  tx_enlisted :: Oec_CountdownLatch
  tx_enlisted_counter :: Oec_CountdownLatch

record OesLease =
  le_f :: "unit Oec_Future option"
  le_lid :: oe_id
  le_txn :: "nat option"

record OesDataObjectList =
  dl_f :: "unit Oec_Future option"
  dl_obj :: DataObjectList
  dl_txn :: "nat option"

record OesDataObject =
  do_arena :: bool
  do_obj :: DataObject

text \<open>The callback of a context, with the holder that \<^verbatim>\<open>p_context\<close> points to.\<close>

datatype promise = Put_Promise nat | Get_Promise nat | Begin_Promise nat | Upt_Promise nat | Upl_Promise nat

text \<open>The kernel holder with all holders made from it, the contexts that the kernel has and that are not finished, and the
  exception of the process.\<close>

record 'k OesKernel =
  ok_obj :: "'k OEK"
  ok_lastid :: oe_id
  ok_currentTxn :: "nat option"
  ok_txns :: "OesTxn list"
  ok_leases :: "OesLease list"
  ok_lists :: "OesDataObjectList list"
  ok_contexts :: "(OEK_Context \<times> promise) list"
  ok_error_message :: string
  ok_error_status :: bool

definition OesKernel_new :: "'k OEK \<Rightarrow> 'k OesKernel" where
  "OesKernel_new K = \<lparr>ok_obj = K, ok_lastid = 0, ok_currentTxn = None, ok_txns = [], ok_leases = [], ok_lists = [], ok_contexts = [],
     ok_error_message = replicate 256 NUL, ok_error_status = False\<rparr>"

text \<open>Going on once a wait is over.\<close>

definition w_bind :: "'a waiting c_result \<Rightarrow> ('a \<Rightarrow> 'b waiting c_result) \<Rightarrow> 'b waiting c_result" where
  "w_bind m f = c_bind m (\<lambda>w. case w of Wait_More \<Rightarrow> Inr Wait_More | Returns x \<Rightarrow> f x)"

lemma w_bind_Inr: "w_bind m f = Inr (Returns y) \<longleftrightarrow> (\<exists>x. m = Inr (Returns x) \<and> f x = Inr (Returns y))"
  by (cases m) (auto simp: w_bind_def split: waiting.split)

section \<open>Exceptions\<close>

text \<open>The text is copied without its NUL; the function returns to its caller, which goes on.\<close>

definition throw_exception :: "oe_scalar option \<Rightarrow> 'k OesKernel \<Rightarrow> 'k OesKernel c_result" where
  "throw_exception msg s =
     (case msg of
        None \<Rightarrow> Inl Null_Deref
      | Some m \<Rightarrow> let len = min (length m) 256
          in Inr (s\<lparr>ok_error_message := take len m @ drop len (ok_error_message s), ok_error_status := True\<rparr>))"

definition clear_exception :: "'k OesKernel \<Rightarrow> 'k OesKernel" where
  "clear_exception s = s\<lparr>ok_error_status := False\<rparr>"

text \<open>The array, read as a C string.\<close>

definition check_exception :: "'k OesKernel \<Rightarrow> oe_scalar option c_result" where
  "check_exception s =
     (if \<not> ok_error_status s then Inr None
      else if NUL \<in> set (ok_error_message s) then Inr (Some (takeWhile (\<lambda>c. c \<noteq> NUL) (ok_error_message s)))
      else Inl Out_Of_Bounds)"

section \<open>Contexts\<close>

definition new_oek_context :: "OEK_MSG_TYPE \<Rightarrow> 'k OesKernel \<Rightarrow> (OekMsg \<times> OEK_Context) c_result" where
  "new_oek_context t s =
     c_bind (OekMsg_new t) (\<lambda>msg. Inr (msg, OEK_Context_new\<lparr>cx_kernel := True, cx_write_response_cb := True\<rparr>))"

text \<open>The next correlation identifier.\<close>

definition next_cid :: "'k OesKernel \<Rightarrow> oe_id \<times> 'k OesKernel" where
  "next_cid s = (let cid = ok_lastid s + 1 in (cid, s\<lparr>ok_lastid := cid\<rparr>))"

definition send_context ::
  "('k OEK \<Rightarrow> OEK_Context \<Rightarrow> 'k OEK c_result) \<Rightarrow> promise \<Rightarrow> OEK_Context \<Rightarrow> 'k OesKernel \<Rightarrow> 'k OesKernel c_result" where
  "send_context call p context s =
     c_bind (call (ok_obj s) context) (\<lambda>K. Inr (s\<lparr>ok_obj := K, ok_contexts := ok_contexts s @ [(context, p)]\<rparr>))"

definition txn_at :: "nat \<Rightarrow> 'k OesKernel \<Rightarrow> OesTxn c_result" where
  "txn_at t s = (if t < length (ok_txns s) then Inr (ok_txns s ! t) else Inl Null_Deref)"

definition with_txn :: "nat \<Rightarrow> OesTxn \<Rightarrow> 'k OesKernel \<Rightarrow> 'k OesKernel" where
  "with_txn t x s = s\<lparr>ok_txns := (ok_txns s)[t := x]\<rparr>"

text \<open>An operation of a transaction waits until the transaction has its identifier, and puts it into the message.\<close>

definition join_txn :: "'k OesKernel \<Rightarrow> OekMsg \<Rightarrow> OekMsg waiting c_result" where
  "join_txn s msg =
     (case ok_currentTxn s of
        None \<Rightarrow> Inr (Returns msg)
      | Some t \<Rightarrow>
          c_bind (txn_at t s) (\<lambda>x.
          w_bind (getid_check (tx_f x)) (\<lambda>_.
            case tx_tid x of None \<Rightarrow> Inl Uninitialised | Some tid \<Rightarrow> Inr (Returns (OekMsg_set_tid msg tid)))))"

definition enlist :: "'k OesKernel \<Rightarrow> 'k OesKernel c_result" where
  "enlist s =
     (case ok_currentTxn s of
        None \<Rightarrow> Inr s
      | Some t \<Rightarrow>
          c_bind (txn_at t s) (\<lambda>x.
          c_bind (Oec_CountdownLatch_increment (tx_enlisted x)) (\<lambda>(enlisted, l).
            if enlisted = 0 then Inl Assert_Failed else Inr (with_txn t (x\<lparr>tx_enlisted := l\<rparr>) s))))"

section \<open>Operations\<close>

text \<open>The lease holder, and the data object without its arena.\<close>

definition OesKernel_impl_write ::
  "OesDataObject \<Rightarrow> oe_time \<Rightarrow> bool \<Rightarrow> 'k OesKernel \<Rightarrow> (nat \<times> OesDataObject \<times> 'k OesKernel) waiting c_result" where
  "OesKernel_impl_write slist dur is_tuple s =
     (if \<not> do_arena slist then Inl Assert_Failed
      else c_bind (new_oek_context PUT_CMD s) (\<lambda>(msg0, context).
        w_bind (join_txn s msg0) (\<lambda>msg1.
              c_bind (enlist s) (\<lambda>s1.
              let (cid, s2) = next_cid s1; msg2 = OekMsg_set_cid msg1 cid in
              c_bind (OekMsg_get_put_cmd msg2) (\<lambda>cmd0.
              let cmd1 = PutCmd_set_data (PutCmd_set_dur cmd0 (if 0 < sint dur then dur else OEC_FOREVER)) (Some (do_obj slist));
                  cmd = (if is_tuple then PutCmd_set_tuple cmd1 else cmd1);
                  lease = \<lparr>le_f = Oec_Future_new, le_lid = 0, le_txn = ok_currentTxn s\<rparr>
              in c_bind (send_context OEK_put (Put_Promise (length (ok_leases s2)))
                    (context\<lparr>cx_cmd_msg := Some (msg2\<lparr>data := D_put_cmd cmd\<rparr>)\<rparr>) (s2\<lparr>ok_leases := ok_leases s2 @ [lease]\<rparr>)) (\<lambda>s3.
                  Inr (Returns (length (ok_leases s2), slist\<lparr>do_arena := False\<rparr>, s3))))))))"

definition OesKernel_impl_createOesDataObjectList :: "unit Oec_Future option \<Rightarrow> nat option \<Rightarrow> OesDataObjectList" where
  "OesKernel_impl_createOesDataObjectList f txn = \<lparr>dl_f = f, dl_obj = DataObjectList_new, dl_txn = txn\<rparr>"

definition oes_get ::
  "oe_time \<Rightarrow> DataObjectList \<Rightarrow> oe_time \<Rightarrow> bool \<Rightarrow> bool \<Rightarrow> int \<Rightarrow> bool \<Rightarrow> bool \<Rightarrow> 'k OesKernel \<Rightarrow>
   (nat \<times> 'k OesKernel) waiting c_result" where
  "oes_get now templates tmo destroy is_tuple max_responses return_attrs return_bytes s =
     c_bind (new_oek_context GET_CMD s) (\<lambda>(msg0, context).
     w_bind (join_txn s msg0) (\<lambda>msg1.
           c_bind (if destroy then enlist s else Inr s) (\<lambda>s1.
           let (cid, s2) = next_cid s1; msg2 = OekMsg_set_cid msg1 cid in
           c_bind (OekMsg_get_get_cmd msg2) (\<lambda>cmd0.
           c_bind (GetCmd_set_max_responses cmd0 1) (\<lambda>cmd1.
           let cmd2 = GetCmd_set_timeout (if destroy then GetCmd_set_remove_option cmd1 else cmd1) tmo;
               cmd3 = (if is_tuple then GetCmd_set_tuple cmd2 else cmd2)
           in c_bind (GetCmd_set_data_objects cmd3 (Some templates)) (\<lambda>cmd4.
           let cmd5 = (if return_bytes then GetCmd_set_return_bytes cmd4 True else cmd4);
               cmd6 = (if return_attrs then GetCmd_set_return_attrs cmd5 True else cmd5)
           in c_bind (GetCmd_set_max_responses cmd6 (word_of_int max_responses)) (\<lambda>cmd.
           let holder = OesKernel_impl_createOesDataObjectList Oec_Future_new (ok_currentTxn s)
           in c_bind (send_context OEK_get (Get_Promise (length (ok_lists s2)))
                (context\<lparr>cx_cmd_msg := Some (msg2\<lparr>data := D_get_cmd cmd\<rparr>), cx_expire_time := now + tmo\<rparr>)
                (s2\<lparr>ok_lists := ok_lists s2 @ [holder]\<rparr>)) (\<lambda>s3. Inr (Returns (length (ok_lists s2), s3)))))))))) "

definition OesKernel_impl_read ::
  "oe_time \<Rightarrow> DataObjectList \<Rightarrow> oe_time \<Rightarrow> bool \<Rightarrow> int \<Rightarrow> bool \<Rightarrow> bool \<Rightarrow> 'k OesKernel \<Rightarrow> (nat \<times> 'k OesKernel) waiting c_result" where
  "OesKernel_impl_read now templates tmo is_tuple max_responses return_attrs return_bytes s =
     oes_get now templates tmo False is_tuple max_responses return_attrs return_bytes s"

definition OesKernel_impl_take ::
  "oe_time \<Rightarrow> DataObjectList \<Rightarrow> oe_time \<Rightarrow> bool \<Rightarrow> int \<Rightarrow> bool \<Rightarrow> bool \<Rightarrow> 'k OesKernel \<Rightarrow> (nat \<times> 'k OesKernel) waiting c_result" where
  "OesKernel_impl_take now templates tmo is_tuple max_responses return_attrs return_bytes s =
     oes_get now templates tmo True is_tuple max_responses return_attrs return_bytes s"

text \<open>The holder of a transaction is allocated without being cleared: its status and its identifier come with the answer.\<close>

definition OesKernel_impl_begin :: "oe_dur \<Rightarrow> 'k OesKernel \<Rightarrow> (nat \<times> 'k OesKernel) c_result" where
  "OesKernel_impl_begin dur s =
     (let t = length (ok_txns s);
          holder = \<lparr>tx_f = Oec_Future_new, tx_status = None, tx_tid = None, tx_enlisted = Oec_CountdownLatch_new,
            tx_enlisted_counter = Oec_CountdownLatch_new\<rparr>;
          s1 = s\<lparr>ok_txns := ok_txns s @ [holder], ok_currentTxn := Some t\<rparr>
      in c_bind (new_oek_context STA_CMD s1) (\<lambda>(msg0, context).
         let (cid, s2) = next_cid s1; msg1 = OekMsg_set_cid msg0 cid in
         c_bind (OekMsg_get_sta_cmd msg1) (\<lambda>cmd.
         c_bind (send_context OEK_sta (Begin_Promise t)
           (context\<lparr>cx_cmd_msg := Some (msg1\<lparr>data := D_sta_cmd (StaCmd_set_dur cmd dur)\<rparr>)\<rparr>) s2) (\<lambda>s3. Inr (t, s3)))))"

text \<open>\<^verbatim>\<open>_oes_upt_txn\<close> up to its wait for the latch.\<close>

definition upt_txn_start :: "nat option \<Rightarrow> OES_TXN_STATUS \<Rightarrow> 'k OesKernel \<Rightarrow> (OEK_Context \<times> 'k OesKernel) waiting c_result" where
  "upt_txn_start txn_holder status s =
     c_bind (if txn_holder = None then throw_exception (Some ''null txn_holder'') s else Inr s) (\<lambda>s0.
     case txn_holder of
       None \<Rightarrow> Inl Null_Deref
     | Some t \<Rightarrow>
         c_bind (txn_at t s0) (\<lambda>x.
         case tx_status x of
           None \<Rightarrow> Inl Uninitialised
         | Some st \<Rightarrow>
             c_bind (if st \<noteq> ACTIVE then throw_exception (Some ''null txn is not active'') s0 else Inr s0) (\<lambda>s1.
             w_bind (getid_check (tx_f x)) (\<lambda>_.
                   c_bind (Oec_Future_free (tx_f x)) (\<lambda>(rc, f).
                   c_bind (new_oek_context UPT_CMD s1) (\<lambda>(msg0, context).
                   let (cid, s2) = next_cid (with_txn t (x\<lparr>tx_f := Oec_Future_new\<rparr>) s1) in
                   c_bind (OekMsg_get_upt_cmd msg0) (\<lambda>cmd.
                   case tx_tid x of
                     None \<Rightarrow> Inl Uninitialised
                   | Some tid \<Rightarrow>
                       let msg = OekMsg_set_tid (OekMsg_set_cid msg0 cid) tid;
                           c = (if status = COMMITTED then CHR ''C'' else CHR ''R'')
                       in Inr (Returns (context\<lparr>cx_cmd_msg := Some (msg\<lparr>data := D_upt_cmd (UptCmd_set_status cmd c)\<rparr>)\<rparr>, s2)))))))))"

text \<open>The number that the server is told: all that was counted, or \<open>-1\<close>.\<close>

definition enlisted_items :: "OesTxn \<Rightarrow> 32 word" where
  "enlisted_items x =
     (let e = Oec_CountdownLatch_get_hi_water_mark (tx_enlisted_counter x) in if 0 < sint e then e else - 1)"

definition upt_txn_send :: "nat \<Rightarrow> OEK_Context \<Rightarrow> 'k OesKernel \<Rightarrow> 'k OesKernel waiting c_result" where
  "upt_txn_send t context s =
     c_bind (txn_at t s) (\<lambda>x.
     case latch_check (tx_enlisted x) of
       Wait_More \<Rightarrow> Inr Wait_More
     | Returns gotlatch \<Rightarrow>
         if gotlatch \<noteq> 1 then Inl Assert_Failed
         else c_bind (cmd_of context) (\<lambda>msg.
              c_bind (OekMsg_get_upt_cmd msg) (\<lambda>cmd.
              c_bind (send_context OEK_upt (Upt_Promise t)
                (context\<lparr>cx_cmd_msg := Some (msg\<lparr>data := D_upt_cmd (UptCmd_set_enlisted cmd (enlisted_items x))\<rparr>)\<rparr>)
                (s\<lparr>ok_currentTxn := None\<rparr>)) (\<lambda>s1. Inr (Returns s1)))))"

definition OesKernel_impl_commit :: "nat option \<Rightarrow> 'k OesKernel \<Rightarrow> (OEK_Context \<times> 'k OesKernel) waiting c_result" where
  "OesKernel_impl_commit txn_holder = upt_txn_start txn_holder COMMITTED"

definition OesKernel_impl_rollback :: "nat option \<Rightarrow> 'k OesKernel \<Rightarrow> (OEK_Context \<times> 'k OesKernel) waiting c_result" where
  "OesKernel_impl_rollback txn_holder = upt_txn_start txn_holder ROLLEDBACK"

definition lease_at :: "nat \<Rightarrow> 'k OesKernel \<Rightarrow> OesLease c_result" where
  "lease_at i s = (if i < length (ok_leases s) then Inr (ok_leases s ! i) else Inl Null_Deref)"

definition with_lease :: "nat \<Rightarrow> OesLease \<Rightarrow> 'k OesKernel \<Rightarrow> 'k OesKernel" where
  "with_lease i l s = s\<lparr>ok_leases := (ok_leases s)[i := l]\<rparr>"

definition OesKernel_impl_upl_cancel :: "nat \<Rightarrow> 'k OesKernel \<Rightarrow> 'k OesKernel waiting c_result" where
  "OesKernel_impl_upl_cancel i s =
     c_bind (lease_at i s) (\<lambda>l.
     w_bind (get_check (le_f l)) (\<lambda>_.
           c_bind (Oec_Future_free (le_f l)) (\<lambda>(rc, f).
           c_bind (new_oek_context UPL_CMD s) (\<lambda>(msg0, context).
           c_bind (OekMsg_get_upl_cmd msg0) (\<lambda>cmd0.
           let cmd = UplCmd_set_lid (UplCmd_set_dur cmd0 0) (le_lid l);
               (cid, s1) = next_cid (with_lease i (l\<lparr>le_f := Oec_Future_new\<rparr>) s);
               msg = OekMsg_set_cid msg0 cid
           in c_bind (send_context OEK_upl (Upl_Promise i) (context\<lparr>cx_cmd_msg := Some (msg\<lparr>data := D_upl_cmd cmd\<rparr>)\<rparr>) s1)
                (\<lambda>s2. Inr (Returns s2)))))))"

section \<open>Callbacks\<close>

text \<open>What has been answered: the error is thrown, or the messages are used.\<close>

definition answered :: "OEK_Context \<Rightarrow> (OekMsg list \<Rightarrow> 'k OesKernel \<Rightarrow> 'k OesKernel c_result) \<Rightarrow> 'k OesKernel \<Rightarrow> 'k OesKernel c_result" where
  "answered context use s =
     (case cx_err_msg context of
        Some e \<Rightarrow> c_bind (OekMsg_get_err e) (\<lambda>em. throw_exception (OekErr_get_message em) s)
      | None \<Rightarrow> use (case cx_res_msgs context of None \<Rightarrow> [] | Some ms \<Rightarrow> ms) s)"

definition first_msg :: "OekMsg list \<Rightarrow> OekMsg c_result" where
  "first_msg ms = (case ms of [] \<Rightarrow> Inl Null_Deref | m # _ \<Rightarrow> Inr m)"

text \<open>
  The two latches of a transaction are updated one after the other, each under its own lock: a callback is the part up to the first
  update and the rest.  \<open>leave_txn\<close> is the first update, \<open>count_items\<close> the others.
\<close>

definition leave_txn :: "nat option \<Rightarrow> 'k OesKernel \<Rightarrow> 'k OesKernel c_result" where
  "leave_txn txn s =
     (case txn of
        None \<Rightarrow> Inr s
      | Some t \<Rightarrow>
          c_bind (txn_at t s) (\<lambda>x.
          c_bind (Oec_CountdownLatch_decrement (tx_enlisted x)) (\<lambda>(n, l). Inr (with_txn t (x\<lparr>tx_enlisted := l\<rparr>) s))))"

fun increments :: "nat \<Rightarrow> Oec_CountdownLatch \<Rightarrow> Oec_CountdownLatch c_result" where
  "increments 0 l = Inr l"
| "increments (Suc n) l = c_bind (Oec_CountdownLatch_increment l) (\<lambda>(k, l1). increments n l1)"

definition count_items :: "nat \<Rightarrow> nat option \<Rightarrow> 'k OesKernel \<Rightarrow> 'k OesKernel c_result" where
  "count_items n txn s =
     (case txn of
        None \<Rightarrow> Inr s
      | Some t \<Rightarrow>
          c_bind (txn_at t s) (\<lambda>x.
          c_bind (increments n (tx_enlisted_counter x)) (\<lambda>l. Inr (with_txn t (x\<lparr>tx_enlisted_counter := l\<rparr>) s))))"

definition put_promise_cb :: "OEK_Context \<Rightarrow> nat \<Rightarrow> 'k OesKernel \<Rightarrow> 'k OesKernel c_result" where
  "put_promise_cb context i s =
     c_bind (answered context (\<lambda>ms s.
       c_bind (first_msg ms) (\<lambda>m.
       c_bind (OekMsg_get_put_res m) (\<lambda>res.
       c_bind (lease_at i s) (\<lambda>l. Inr (with_lease i (l\<lparr>le_lid := PutRes_get_lease_id res\<rparr>) s))))) s) (\<lambda>s1.
     c_bind (lease_at i s1) (\<lambda>l. leave_txn (le_txn l) s1))"

definition set_lease :: "nat \<Rightarrow> 'k OesKernel \<Rightarrow> 'k OesKernel c_result" where
  "set_lease i s =
     c_bind (lease_at i s) (\<lambda>l. c_bind (Oec_Future_set (le_f l) None) (\<lambda>f. Inr (with_lease i (l\<lparr>le_f := f\<rparr>) s)))"

definition put_promise_end :: "nat \<Rightarrow> 'k OesKernel \<Rightarrow> 'k OesKernel c_result" where
  "put_promise_end i s = c_bind (lease_at i s) (\<lambda>l. c_bind (count_items 1 (le_txn l) s) (set_lease i))"

definition list_at :: "nat \<Rightarrow> 'k OesKernel \<Rightarrow> OesDataObjectList c_result" where
  "list_at i s = (if i < length (ok_lists s) then Inr (ok_lists s ! i) else Inl Null_Deref)"

definition with_list :: "nat \<Rightarrow> OesDataObjectList \<Rightarrow> 'k OesKernel \<Rightarrow> 'k OesKernel" where
  "with_list i l s = s\<lparr>ok_lists := (ok_lists s)[i := l]\<rparr>"

text \<open>The results that have come, and the number that the last message announces, which is an \<^verbatim>\<open>int\<close>.\<close>

fun add_results :: "OekMsg list \<Rightarrow> int \<Rightarrow> DataObjectList \<Rightarrow> (int \<times> DataObjectList) c_result" where
  "add_results [] nresults l = Inr (nresults, l)"
| "add_results (m # ms) nresults l =
     c_bind (OekMsg_get_get_res m) (\<lambda>res.
       let n = sint (ucast (GetRes_get_nresults res) :: 32 word)
       in add_results ms n (if 0 < n then DataObjectList_add l (fst (GetRes_get_data res)) else l))"

text \<open>The number of results, once all are there.\<close>

definition get_results :: "OEK_Context \<Rightarrow> nat \<Rightarrow> 'k OesKernel \<Rightarrow> (int option \<times> 'k OesKernel) c_result" where
  "get_results context i s =
     (case cx_err_msg context of
        Some e \<Rightarrow> c_bind (OekMsg_get_err e) (\<lambda>em. c_bind (throw_exception (OekErr_get_message em) s) (\<lambda>s1. Inr (Some 0, s1)))
      | None \<Rightarrow>
          c_bind (list_at i s) (\<lambda>h.
          c_bind (add_results (case cx_res_msgs context of None \<Rightarrow> [] | Some ms \<Rightarrow> ms) 0 (dl_obj h)) (\<lambda>(n, l).
            Inr (if word_of_int n = (of_nat (DataObjectList_length l) :: 64 word) then Some n else None,
                 with_list i (h\<lparr>dl_obj := l\<rparr>) s))))"

definition takes :: "OEK_Context \<Rightarrow> bool" where
  "takes context = (case cx_cmd_msg context of Some m \<Rightarrow> (case data m of D_get_cmd cmd \<Rightarrow> GetCmd_remove cmd | _ \<Rightarrow> False) | None \<Rightarrow> False)"

text \<open>The transaction that counts what a get finds.\<close>

definition taking_txn :: "OEK_Context \<Rightarrow> OesDataObjectList \<Rightarrow> nat option" where
  "taking_txn context h = (if takes context then dl_txn h else None)"

definition get_promise_cb :: "OEK_Context \<Rightarrow> nat \<Rightarrow> 'k OesKernel \<Rightarrow> (int option \<times> 'k OesKernel) c_result" where
  "get_promise_cb context i s =
     c_bind (get_results context i s) (\<lambda>(r, s1).
     case r of
       None \<Rightarrow> Inr (None, s1)
     | Some n \<Rightarrow>
         c_bind (list_at i s1) (\<lambda>h. c_bind (leave_txn (taking_txn context h) s1) (\<lambda>s2. Inr (Some n, s2))))"

definition get_promise_end :: "OEK_Context \<Rightarrow> int \<Rightarrow> nat \<Rightarrow> 'k OesKernel \<Rightarrow> 'k OesKernel c_result" where
  "get_promise_end context n i s =
     c_bind (list_at i s) (\<lambda>h.
     c_bind (count_items (nat n) (taking_txn context h) s) (\<lambda>s1.
     c_bind (list_at i s1) (\<lambda>h. c_bind (Oec_Future_set (dl_f h) None) (\<lambda>f. Inr (with_list i (h\<lparr>dl_f := f\<rparr>) s1)))))"

definition set_txn :: "nat \<Rightarrow> 'k OesKernel \<Rightarrow> 'k OesKernel c_result" where
  "set_txn t s = c_bind (txn_at t s) (\<lambda>x. c_bind (Oec_Future_set (tx_f x) None) (\<lambda>f. Inr (with_txn t (x\<lparr>tx_f := f\<rparr>) s)))"

definition begin_promise_cb :: "OEK_Context \<Rightarrow> nat \<Rightarrow> 'k OesKernel \<Rightarrow> 'k OesKernel c_result" where
  "begin_promise_cb context t s =
     c_bind (answered context (\<lambda>ms s.
       c_bind (first_msg ms) (\<lambda>m.
       c_bind (OekMsg_get_sta_res m) (\<lambda>res.
       c_bind (txn_at t s) (\<lambda>x. Inr (with_txn t (x\<lparr>tx_tid := Some (OekMsg_get_tid m), tx_status := Some ACTIVE\<rparr>) s))))) s) (set_txn t)"

definition upt_promise_cb :: "OEK_Context \<Rightarrow> nat \<Rightarrow> 'k OesKernel \<Rightarrow> 'k OesKernel c_result" where
  "upt_promise_cb context t s =
     c_bind (answered context (\<lambda>ms s.
       c_bind (first_msg ms) (\<lambda>m.
       c_bind (OekMsg_get_upt_res m) (\<lambda>res.
       c_bind (txn_at t s) (\<lambda>x.
         Inr (with_txn t (x\<lparr>tx_status := Some (if UptRes_get_status res = CHR ''C'' then COMMITTED else ROLLEDBACK)\<rparr>) s))))) s) (set_txn t)"

definition upl_promise_cb :: "OEK_Context \<Rightarrow> nat \<Rightarrow> 'k OesKernel \<Rightarrow> 'k OesKernel c_result" where
  "upl_promise_cb context i s = set_lease i s"

definition OesKernel_impl_json_promise :: "string \<Rightarrow> string Oec_Future option \<Rightarrow> string Oec_Future option c_result" where
  "OesKernel_impl_json_promise json f = Oec_Future_set f (Some json)"

end
