(* ===== verification/Oes_Props.thy ===== *)
theory Oes_Props
  imports Oes_Kernel
begin

text \<open>
  Programs that use the interface of \<^verbatim>\<open>corelib/OesKernel_impl.c\<close>: one thread of the program, and the threads of the kernel that run the
  callbacks, in every interleaving of what the latches protect.
\<close>

section \<open>Runs\<close>

text \<open>A callback between its two parts.\<close>

datatype half = Put_Half nat | Get_Half OEK_Context int nat

text \<open>\<open>or_commit\<close> is the update of a transaction that waits for the latch, and \<open>or_items\<close> counts what has been put and taken in a
  transaction.\<close>

record 'k oes_run =
  or_s :: "'k OesKernel"
  or_halves :: "half list"
  or_commit :: "(nat \<times> OEK_Context) option"
  or_items :: "nat \<Rightarrow> nat"

definition oes_begin :: "'k OEK \<Rightarrow> 'k oes_run" where
  "oes_begin K = \<lparr>or_s = OesKernel_new K, or_halves = [], or_commit = None, or_items = (\<lambda>_. 0)\<rparr>"

definition plus_items :: "nat option \<Rightarrow> nat \<Rightarrow> (nat \<Rightarrow> nat) \<Rightarrow> nat \<Rightarrow> nat" where
  "plus_items txn n f = (case txn of None \<Rightarrow> f | Some t \<Rightarrow> f(t := f t + n))"

inductive oes_step :: "'k oes_run \<Rightarrow> 'k oes_run \<Rightarrow> bool" where
  Writes: "or_commit r = None \<Longrightarrow> OesKernel_impl_write slist dur tuple (or_s r) = Inr (Returns (i, slist', s)) \<Longrightarrow>
    oes_step r (r\<lparr>or_s := s\<rparr>)"
| Gets: "or_commit r = None \<Longrightarrow> oes_get now templates tmo destroy tuple n attrs bts (or_s r) = Inr (Returns (i, s)) \<Longrightarrow>
    oes_step r (r\<lparr>or_s := s\<rparr>)"
| Begins: "or_commit r = None \<Longrightarrow> OesKernel_impl_begin dur (or_s r) = Inr (t, s) \<Longrightarrow> oes_step r (r\<lparr>or_s := s\<rparr>)"
| Updates: "or_commit r = None \<Longrightarrow> upt_txn_start (Some t) status (or_s r) = Inr (Returns (ctx, s)) \<Longrightarrow>
    oes_step r (r\<lparr>or_s := s, or_commit := Some (t, ctx)\<rparr>)"
| Sends: "or_commit r = Some (t, ctx) \<Longrightarrow> upt_txn_send t ctx (or_s r) = Inr (Returns s) \<Longrightarrow>
    oes_step r (r\<lparr>or_s := s, or_commit := None\<rparr>)"
| Cancels: "or_commit r = None \<Longrightarrow> OesKernel_impl_upl_cancel i (or_s r) = Inr (Returns s) \<Longrightarrow> oes_step r (r\<lparr>or_s := s\<rparr>)"
| Put_Answered: "ok_contexts (or_s r) = us @ (ctx, Put_Promise i) # vs \<Longrightarrow>
    put_promise_cb (ctx\<lparr>cx_res_msgs := ms, cx_err_msg := e\<rparr>) i ((or_s r)\<lparr>ok_contexts := us @ vs\<rparr>) = Inr s \<Longrightarrow>
    oes_step r (r\<lparr>or_s := s, or_halves := or_halves r @ [Put_Half i], or_items := plus_items (le_txn (ok_leases s ! i)) 1 (or_items r)\<rparr>)"
| Get_Answered: "ok_contexts (or_s r) = us @ (ctx, Get_Promise i) # vs \<Longrightarrow>
    get_promise_cb (ctx\<lparr>cx_res_msgs := ms, cx_err_msg := e\<rparr>) i ((or_s r)\<lparr>ok_contexts := us @ vs\<rparr>) = Inr (Some n, s) \<Longrightarrow>
    oes_step r (r\<lparr>or_s := s, or_halves := or_halves r @ [Get_Half ctx n i],
      or_items := plus_items (taking_txn ctx (ok_lists s ! i)) (nat n) (or_items r)\<rparr>)"
| Get_Waits: "(ctx, Get_Promise i) \<in> set (ok_contexts (or_s r)) \<Longrightarrow>
    get_promise_cb (ctx\<lparr>cx_res_msgs := ms, cx_err_msg := e\<rparr>) i (or_s r) = Inr (None, s) \<Longrightarrow> oes_step r (r\<lparr>or_s := s\<rparr>)"
| Put_Ends: "or_halves r = us @ Put_Half i # vs \<Longrightarrow> put_promise_end i (or_s r) = Inr s \<Longrightarrow>
    oes_step r (r\<lparr>or_s := s, or_halves := us @ vs\<rparr>)"
| Get_Ends: "or_halves r = us @ Get_Half ctx n i # vs \<Longrightarrow> get_promise_end ctx n i (or_s r) = Inr s \<Longrightarrow>
    oes_step r (r\<lparr>or_s := s, or_halves := us @ vs\<rparr>)"
| Begin_Answered: "ok_contexts (or_s r) = us @ (ctx, Begin_Promise t) # vs \<Longrightarrow>
    begin_promise_cb (ctx\<lparr>cx_res_msgs := ms, cx_err_msg := e\<rparr>) t ((or_s r)\<lparr>ok_contexts := us @ vs\<rparr>) = Inr s \<Longrightarrow>
    oes_step r (r\<lparr>or_s := s\<rparr>)"
| Upt_Answered: "ok_contexts (or_s r) = us @ (ctx, Upt_Promise t) # vs \<Longrightarrow>
    upt_promise_cb (ctx\<lparr>cx_res_msgs := ms, cx_err_msg := e\<rparr>) t ((or_s r)\<lparr>ok_contexts := us @ vs\<rparr>) = Inr s \<Longrightarrow>
    oes_step r (r\<lparr>or_s := s\<rparr>)"
| Upl_Answered: "ok_contexts (or_s r) = us @ (ctx, Upl_Promise i) # vs \<Longrightarrow>
    upl_promise_cb (ctx\<lparr>cx_res_msgs := ms, cx_err_msg := e\<rparr>) i ((or_s r)\<lparr>ok_contexts := us @ vs\<rparr>) = Inr s \<Longrightarrow>
    oes_step r (r\<lparr>or_s := s\<rparr>)"

section \<open>What the latches count\<close>

text \<open>The part of the state that the latches are about: the transaction of every holder, and the two counts of every transaction.\<close>

definition lease_txns :: "'k OesKernel \<Rightarrow> nat option list" where
  "lease_txns s = map le_txn (ok_leases s)"

definition list_txns :: "'k OesKernel \<Rightarrow> nat option list" where
  "list_txns s = map dl_txn (ok_lists s)"

definition counts :: "'k OesKernel \<Rightarrow> int list" where
  "counts s = map (\<lambda>x. sint (la_count (tx_enlisted x))) (ok_txns s)"

definition counters :: "'k OesKernel \<Rightarrow> int list" where
  "counters s = map (\<lambda>x. sint (la_max_count (tx_enlisted_counter x))) (ok_txns s)"

definition view :: "'k OesKernel \<Rightarrow> (OEK_Context \<times> promise) list \<times> nat option list \<times> nat option list \<times> int list \<times> int list \<times> nat option" where
  "view s = (ok_contexts s, lease_txns s, list_txns s, counts s, counters s, ok_currentTxn s)"

lemmas view_defs = view_def lease_txns_def list_txns_def counts_def counters_def

definition bump :: "nat option \<Rightarrow> int \<Rightarrow> int list \<Rightarrow> int list" where
  "bump txn k xs = (case txn of None \<Rightarrow> xs | Some t \<Rightarrow> xs[t := xs ! t + k])"

definition known :: "nat option \<Rightarrow> int list \<Rightarrow> bool" where
  "known txn xs = (case txn of None \<Rightarrow> True | Some t \<Rightarrow> t < length xs)"

lemma plus_int_sint: "plus_int n v = Inr m \<Longrightarrow> sint m = sint n + v"
proof -
  assume a: "plus_int n v = Inr m"
  then have r: "- (2 ^ 31) \<le> sint n + v" "sint n + v < 2 ^ 31" and m: "m = n + word_of_int v"
    by (auto simp: plus_int_def split: if_splits)
  have "m = word_of_int (sint n + v)" by (simp add: m)
  moreover have "sint (word_of_int (sint n + v) :: 32 word) = signed_take_bit 31 (sint n + v)"
    using sint_sbintrunc' [of "sint n + v", where 'a = 32] by simp
  ultimately show ?thesis using r by (simp only: signed_take_bit_int_eq_self)
qed

lemma latch_update_sint:
  "latch_update l v = Inr (n, l') \<Longrightarrow> sint (la_count l') = sint (la_count l) + v \<and> la_count l' = n \<and>
     sint (la_max_count l') = sint (la_max_count l) + (if 0 < v then v else 0)"
  by (auto simp: latch_update_def c_bind_Inr plus_int_sint split: if_splits)

lemma update_same: "i < length xs \<Longrightarrow> y = f (xs ! i) \<Longrightarrow> (map f xs)[i := y] = map f xs"
  by (auto simp: list_eq_iff_nth_eq nth_list_update)

lemma view_enlist: "enlist s = Inr s' \<Longrightarrow> known (ok_currentTxn s) (counts s) \<and>
    view s' = (ok_contexts s, lease_txns s, list_txns s, bump (ok_currentTxn s) 1 (counts s), counters s, ok_currentTxn s) \<and>
    ok_leases s' = ok_leases s \<and> ok_lists s' = ok_lists s"
  by (auto simp: enlist_def view_defs known_def bump_def txn_at_def with_txn_def c_bind_Inr Oec_CountdownLatch_increment_def
      map_update update_same dest!: latch_update_sint split: option.splits if_splits)

lemma view_leave: "leave_txn txn s = Inr s' \<Longrightarrow> known txn (counts s) \<and>
    view s' = (ok_contexts s, lease_txns s, list_txns s, bump txn (- 1) (counts s), counters s, ok_currentTxn s) \<and>
    ok_leases s' = ok_leases s \<and> ok_lists s' = ok_lists s"
  by (auto simp: leave_txn_def view_defs known_def bump_def txn_at_def with_txn_def c_bind_Inr Oec_CountdownLatch_decrement_def
      map_update update_same dest!: latch_update_sint split: option.splits if_splits)

lemma increments_sint: "increments n l = Inr l' \<Longrightarrow> sint (la_max_count l') = sint (la_max_count l) + int n"
  by (induction n arbitrary: l) (auto simp: c_bind_Inr Oec_CountdownLatch_increment_def dest!: latch_update_sint)

lemma view_count: "count_items n txn s = Inr s' \<Longrightarrow> known txn (counts s) \<and>
    view s' = (ok_contexts s, lease_txns s, list_txns s, counts s, bump txn (int n) (counters s), ok_currentTxn s) \<and>
    ok_leases s' = ok_leases s \<and> ok_lists s' = ok_lists s"
  by (auto simp: count_items_def view_defs known_def bump_def txn_at_def with_txn_def c_bind_Inr map_update update_same
      dest!: increments_sint split: option.splits if_splits)

lemma view_send: "send_context call p c s = Inr s' \<Longrightarrow>
    view s' = (ok_contexts s @ [(c, p)], lease_txns s, list_txns s, counts s, counters s, ok_currentTxn s)"
  by (auto simp: send_context_def c_bind_Inr view_defs)

lemma view_next:
  "view (snd (next_cid s)) = view s" "ok_leases (snd (next_cid s)) = ok_leases s" "ok_lists (snd (next_cid s)) = ok_lists s"
  by (simp_all add: next_cid_def view_defs Let_def)

lemma view_write:
  assumes "OesKernel_impl_write slist dur tuple s = Inr (Returns (i, slist', s'))"
  shows "known (ok_currentTxn s) (counts s) \<and> (\<exists>ctx. view s' = (ok_contexts s @ [(ctx, Put_Promise (length (lease_txns s)))],
    lease_txns s @ [ok_currentTxn s], list_txns s, bump (ok_currentTxn s) 1 (counts s), counters s, ok_currentTxn s))"
proof -
  obtain s1 ctx s2 where e: "enlist s = Inr s1"
      and s2: "s2 = snd (next_cid s1)"
      and s': "send_context OEK_put (Put_Promise (length (ok_leases s2))) ctx
        (s2\<lparr>ok_leases := ok_leases s2 @ [\<lparr>le_f = Oec_Future_new, le_lid = 0, le_txn = ok_currentTxn s\<rparr>]\<rparr>) = Inr s'"
    using assms by (auto simp: OesKernel_impl_write_def w_bind_Inr c_bind_Inr Let_def split_beta split: if_splits)
  show ?thesis
    using view_send [OF s'] view_enlist [OF e] by (auto simp: s2 view_defs next_cid_def Let_def)
qed

lemma remove_options [simp]:
  "GetCmd_remove (GetCmd_set_remove_option c)" "GetCmd_remove (GetCmd_set_tuple c) = GetCmd_remove c"
  "GetCmd_remove (GetCmd_set_return_attrs c True) = GetCmd_remove c" "GetCmd_remove (GetCmd_set_return_bytes c True) = GetCmd_remove c"
  "GetCmd_remove (GetCmd_set_timeout c v) = GetCmd_remove c"
  "GetCmd_set_max_responses c n = Inr c' \<Longrightarrow> GetCmd_remove c' = GetCmd_remove c"
  "GetCmd_set_data_objects c l = Inr c' \<Longrightarrow> GetCmd_remove c' = GetCmd_remove c"
proof -
  have r: "GetCmd_remove c = o_destroy (gc_options c)" for c by (simp add: gc_options_def)
  show "GetCmd_remove (GetCmd_set_remove_option c)" "GetCmd_remove (GetCmd_set_tuple c) = GetCmd_remove c"
    "GetCmd_remove (GetCmd_set_return_attrs c True) = GetCmd_remove c" "GetCmd_remove (GetCmd_set_return_bytes c True) = GetCmd_remove c"
    by (simp_all add: r gc_options_set)
  show "GetCmd_remove (GetCmd_set_timeout c v) = GetCmd_remove c"
    "GetCmd_set_max_responses c n = Inr c' \<Longrightarrow> GetCmd_remove c' = GetCmd_remove c"
    "GetCmd_set_data_objects c l = Inr c' \<Longrightarrow> GetCmd_remove c' = GetCmd_remove c"
    by (auto simp: GetCmd_remove_def GetCmd_set_timeout_def GetCmd_set_max_responses_def GetCmd_set_data_objects_def split: if_splits)
qed

lemma remove_new: "OekMsg_new GET_CMD = Inr m \<Longrightarrow> data m = D_get_cmd GetCmd_new \<and> \<not> GetCmd_remove GetCmd_new"
  by (auto simp: OekMsg_new_def OekMsg_settype_def GetCmd_remove_def GetCmd_new_def OEC_FLAG_ISSET_def Let_def)

lemma join_data: "join_txn s m = Inr (Returns m') \<Longrightarrow> data m' = data m"
  by (auto simp: join_txn_def c_bind_Inr w_bind_Inr OekMsg_set_tid_def split: option.splits)

lemma view_get:
  assumes "oes_get now templates tmo destroy tuple n attrs bts s = Inr (Returns (i, s'))"
  shows "(destroy \<longrightarrow> known (ok_currentTxn s) (counts s)) \<and> (\<exists>ctx. takes ctx = destroy \<and>
    view s' = (ok_contexts s @ [(ctx, Get_Promise (length (list_txns s)))], lease_txns s, list_txns s @ [ok_currentTxn s],
      bump (if destroy then ok_currentTxn s else None) 1 (counts s), counters s, ok_currentTxn s))"
proof -
  obtain m0 m1 c0 c1 c2 c s1 where m: "OekMsg_new GET_CMD = Inr m0" "join_txn s m0 = Inr (Returns m1)"
      and s1: "(if destroy then enlist s else Inr s) = Inr s1"
      and c: "OekMsg_get_get_cmd (OekMsg_set_cid m1 (fst (next_cid s1))) = Inr c0" "GetCmd_set_max_responses c0 1 = Inr c1"
        "GetCmd_set_data_objects (let d = GetCmd_set_timeout (if destroy then GetCmd_set_remove_option c1 else c1) tmo
           in if tuple then GetCmd_set_tuple d else d) (Some templates) = Inr c2"
        "GetCmd_set_max_responses (let d = (if bts then GetCmd_set_return_bytes c2 True else c2)
           in if attrs then GetCmd_set_return_attrs d True else d) (word_of_int n) = Inr c"
      and s': "send_context OEK_get (Get_Promise (length (ok_lists (snd (next_cid s1)))))
        (OEK_Context_new\<lparr>cx_kernel := True, cx_write_response_cb := True,
          cx_cmd_msg := Some ((OekMsg_set_cid m1 (fst (next_cid s1)))\<lparr>data := D_get_cmd c\<rparr>), cx_expire_time := now + tmo\<rparr>)
        ((snd (next_cid s1))\<lparr>ok_lists := ok_lists (snd (next_cid s1)) @
          [OesKernel_impl_createOesDataObjectList Oec_Future_new (ok_currentTxn s)]\<rparr>) = Inr s'"
    using assms by (auto simp: oes_get_def w_bind_Inr c_bind_Inr Let_def split_beta new_oek_context_def)
  have "c0 = GetCmd_new" using c(1) remove_new [OF m(1)] join_data [OF m(2)]
    by (auto simp: OekMsg_get_get_cmd_def OekMsg_set_cid_def split: if_splits)
  then have "GetCmd_remove c = destroy"
    using c(2-4) remove_new [OF m(1)] by (cases destroy; cases tuple; cases bts; cases attrs) (simp_all add: Let_def)
  then show ?thesis
    using view_send [OF s'] view_enlist [of s s1] s1
    by (auto simp: view_defs next_cid_def Let_def bump_def OesKernel_impl_createOesDataObjectList_def takes_def split: if_splits)
qed

lemma view_begin:
  assumes "OesKernel_impl_begin dur s = Inr (t, s')"
  shows "\<exists>ctx. view s' = (ok_contexts s @ [(ctx, Begin_Promise (length (counts s)))], lease_txns s, list_txns s, counts s @ [0],
    counters s @ [0], Some (length (counts s)))"
  using assms
  by (auto simp: OesKernel_impl_begin_def send_context_def c_bind_Inr Let_def split_beta view_defs next_cid_def Oec_CountdownLatch_new_def)

lemma view_throw: "throw_exception m s = Inr s' \<Longrightarrow> view s' = view s \<and> ok_txns s' = ok_txns s \<and> ok_leases s' = ok_leases s \<and>
    ok_lists s' = ok_lists s"
  by (auto simp: throw_exception_def view_defs Let_def split: option.splits)

lemma view_with_txn:
  "t < length (ok_txns s) \<Longrightarrow> tx_enlisted x = tx_enlisted (ok_txns s ! t) \<Longrightarrow>
   tx_enlisted_counter x = tx_enlisted_counter (ok_txns s ! t) \<Longrightarrow> view (with_txn t x s) = view s"
  by (simp add: view_defs with_txn_def map_update update_same)

lemma view_with_lease:
  "i < length (ok_leases s) \<Longrightarrow> le_txn l = le_txn (ok_leases s ! i) \<Longrightarrow> view (with_lease i l s) = view s"
  by (simp add: view_defs with_lease_def map_update update_same)

lemma view_with_list:
  "i < length (ok_lists s) \<Longrightarrow> dl_txn l = dl_txn (ok_lists s ! i) \<Longrightarrow> view (with_list i l s) = view s"
  by (simp add: view_defs with_list_def map_update update_same)

lemma at_Inr:
  "txn_at t s = Inr x \<longleftrightarrow> t < length (ok_txns s) \<and> x = ok_txns s ! t"
  "lease_at i s = Inr l \<longleftrightarrow> i < length (ok_leases s) \<and> l = ok_leases s ! i"
  "list_at i s = Inr h \<longleftrightarrow> i < length (ok_lists s) \<and> h = ok_lists s ! i"
  by (auto simp: txn_at_def lease_at_def list_at_def)

lemma view_start:
  assumes "upt_txn_start (Some t) status s = Inr (Returns (ctx, s'))"
  shows "t < length (counts s) \<and> view s' = view s"
proof -
  obtain s1 where t: "t < length (ok_txns s)" and s1: "s1 = s \<or> (\<exists>m. throw_exception (Some m) s = Inr s1)"
      and s': "s' = snd (next_cid (with_txn t ((ok_txns s ! t)\<lparr>tx_f := Oec_Future_new\<rparr>) s1))"
    using assms
    by (auto simp: upt_txn_start_def w_bind_Inr c_bind_Inr at_Inr Let_def split_beta split: option.splits if_splits)
  have "view s1 = view s" "ok_txns s1 = ok_txns s" using s1 view_throw by auto
  then show ?thesis using t by (simp add: s' view_next view_with_txn) (simp add: counts_def)
qed

lemma view_upt_send:
  assumes "upt_txn_send t ctx s = Inr (Returns s')"
  shows "t < length (counts s) \<and> counts s ! t = 0 \<and> (\<exists>msg cmd. cx_cmd_msg ctx = Some msg \<and> OekMsg_get_upt_cmd msg = Inr cmd \<and>
    view s' = (ok_contexts s @ [(ctx\<lparr>cx_cmd_msg := Some (msg\<lparr>data := D_upt_cmd (UptCmd_set_enlisted cmd
      (enlisted_items (ok_txns s ! t)))\<rparr>)\<rparr>, Upt_Promise t)], lease_txns s, list_txns s, counts s, counters s, None))"
  using assms
  by (auto simp: upt_txn_send_def c_bind_Inr at_Inr latch_check_def cmd_of_def send_context_def view_defs
      split: waiting.splits if_splits option.splits)

lemma view_cancel:
  assumes "OesKernel_impl_upl_cancel i s = Inr (Returns s')"
  shows "i < length (lease_txns s) \<and> (\<exists>ctx. view s' = (ok_contexts s @ [(ctx, Upl_Promise i)], lease_txns s, list_txns s, counts s, counters s,
    ok_currentTxn s))"
proof -
  obtain l ctx where l: "i < length (ok_leases s)" "l = ok_leases s ! i"
      and s': "send_context OEK_upl (Upl_Promise i) ctx (snd (next_cid (with_lease i (l\<lparr>le_f := Oec_Future_new\<rparr>) s))) = Inr s'"
    using assms by (auto simp: OesKernel_impl_upl_cancel_def w_bind_Inr c_bind_Inr at_Inr Let_def split_beta)
  have "view (snd (next_cid (with_lease i (l\<lparr>le_f := Oec_Future_new\<rparr>) s))) = view s"
    using l by (simp add: view_next view_with_lease)
  then show ?thesis using view_send [OF s'] l(1) by (auto simp: view_def) (simp add: lease_txns_def)
qed

lemma view_parts:
  "view s' = view s \<Longrightarrow> ok_contexts s' = ok_contexts s \<and> lease_txns s' = lease_txns s \<and> list_txns s' = list_txns s \<and>
   counts s' = counts s \<and> counters s' = counters s \<and> ok_currentTxn s' = ok_currentTxn s"
  by (simp add: view_def)

lemma txns_nth:
  "i < length (ok_leases s) \<Longrightarrow> i < length (lease_txns s) \<and> le_txn (ok_leases s ! i) = lease_txns s ! i"
  "j < length (ok_lists s) \<Longrightarrow> j < length (list_txns s) \<and> dl_txn (ok_lists s ! j) = list_txns s ! j"
  by (simp_all add: lease_txns_def list_txns_def)

lemma view_answered:
  assumes "answered ctx use s = Inr s'" "\<And>ms s1. use ms s = Inr s1 \<Longrightarrow> view s1 = view s"
  shows "view s' = view s"
  using assms by (auto simp: answered_def c_bind_Inr dest: view_throw split: option.splits)

lemma view_put_cb:
  assumes "put_promise_cb ctx i s = Inr s'"
  shows "i < length (lease_txns s) \<and> known (lease_txns s ! i) (counts s) \<and> le_txn (ok_leases s' ! i) = lease_txns s ! i \<and>
    view s' = (ok_contexts s, lease_txns s, list_txns s, bump (lease_txns s ! i) (- 1) (counts s), counters s, ok_currentTxn s)"
proof -
  obtain s1 where a: "answered ctx (\<lambda>ms s. c_bind (first_msg ms) (\<lambda>m. c_bind (OekMsg_get_put_res m) (\<lambda>res.
       c_bind (lease_at i s) (\<lambda>l. Inr (with_lease i (l\<lparr>le_lid := PutRes_get_lease_id res\<rparr>) s))))) s = Inr s1"
      and l: "i < length (ok_leases s1)" "leave_txn (le_txn (ok_leases s1 ! i)) s1 = Inr s'"
    using assms by (auto simp: put_promise_cb_def c_bind_Inr at_Inr)
  have v: "view s1 = view s" by (rule view_answered [OF a]) (auto simp: c_bind_Inr at_Inr view_with_lease)
  then show ?thesis using view_leave [OF l(2)] txns_nth(1) [OF l(1)] view_parts [OF v] by (auto simp: view_def)
qed

lemma view_set:
  "set_lease i s = Inr s' \<Longrightarrow> view s' = view s"
  "set_txn t s = Inr s' \<Longrightarrow> view s' = view s"
  by (auto simp: set_lease_def set_txn_def c_bind_Inr at_Inr view_with_lease view_with_txn)

lemma view_put_end:
  assumes "put_promise_end i s = Inr s'"
  shows "i < length (lease_txns s) \<and> known (lease_txns s ! i) (counts s) \<and>
    view s' = (ok_contexts s, lease_txns s, list_txns s, counts s, bump (lease_txns s ! i) 1 (counters s), ok_currentTxn s)"
proof -
  obtain s1 where l: "i < length (ok_leases s)" and c: "count_items 1 (le_txn (ok_leases s ! i)) s = Inr s1"
      and s': "set_lease i s1 = Inr s'"
    using assms by (auto simp: put_promise_end_def c_bind_Inr at_Inr)
  show ?thesis using view_count [OF c] view_set(1) [OF s'] txns_nth(1) [OF l] by simp
qed

definition taken_by :: "OEK_Context \<Rightarrow> nat option \<Rightarrow> nat option" where
  "taken_by ctx txn = (if takes ctx then txn else None)"

lemma taking_txn: "taking_txn ctx h = taken_by ctx (dl_txn h)"
  by (simp add: taking_txn_def taken_by_def)

lemma takes_answer [simp]: "takes (ctx\<lparr>cx_res_msgs := ms, cx_err_msg := e\<rparr>) = takes ctx"
  by (simp add: takes_def)

lemma view_get_results: "get_results ctx i s = Inr (n, s') \<Longrightarrow> view s' = view s"
  by (auto simp: get_results_def c_bind_Inr at_Inr view_with_list dest: view_throw split: option.splits)

lemma view_get_cb:
  assumes "get_promise_cb ctx i s = Inr (Some n, s')"
  shows "i < length (list_txns s) \<and> known (taken_by ctx (list_txns s ! i)) (counts s) \<and>
    dl_txn (ok_lists s' ! i) = list_txns s ! i \<and>
    view s' = (ok_contexts s, lease_txns s, list_txns s, bump (taken_by ctx (list_txns s ! i)) (- 1) (counts s), counters s, ok_currentTxn s)"
proof -
  obtain s1 where a: "get_results ctx i s = Inr (Some n, s1)" and l: "i < length (ok_lists s1)"
      "leave_txn (taking_txn ctx (ok_lists s1 ! i)) s1 = Inr s'"
    using assms by (auto simp: get_promise_cb_def c_bind_Inr at_Inr split: option.splits)
  have v: "view s1 = view s" by (rule view_get_results [OF a])
  then show ?thesis using view_leave [OF l(2)] txns_nth(2) [OF l(1)] view_parts [OF v] by (auto simp: view_def taking_txn)
qed

lemma view_get_more: "get_promise_cb ctx i s = Inr (None, s') \<Longrightarrow> view s' = view s"
  by (auto simp: get_promise_cb_def c_bind_Inr dest: view_get_results split: option.splits)

lemma view_get_end:
  assumes "get_promise_end ctx n i s = Inr s'"
  shows "i < length (list_txns s) \<and> known (taken_by ctx (list_txns s ! i)) (counts s) \<and>
    view s' = (ok_contexts s, lease_txns s, list_txns s, counts s, bump (taken_by ctx (list_txns s ! i)) (int (nat n)) (counters s),
      ok_currentTxn s)"
proof -
  obtain s1 f where l: "i < length (ok_lists s)" and c: "count_items (nat n) (taking_txn ctx (ok_lists s ! i)) s = Inr s1"
      and s': "i < length (ok_lists s1)" "s' = with_list i ((ok_lists s1 ! i)\<lparr>dl_f := f\<rparr>) s1"
    using assms by (auto simp: get_promise_end_def c_bind_Inr at_Inr)
  have "view s' = view s1" using s' by (simp add: view_with_list)
  then show ?thesis using view_count [OF c] txns_nth(2) [OF l] by (simp add: taking_txn)
qed

lemma view_begin_upt:
  "begin_promise_cb ctx t s = Inr s' \<Longrightarrow> view s' = view s"
  "upt_promise_cb ctx t s = Inr s' \<Longrightarrow> view s' = view s"
  "upl_promise_cb ctx i s = Inr s' \<Longrightarrow> view s' = view s"
proof -
  assume "begin_promise_cb ctx t s = Inr s'"
  then obtain s1 where a: "answered ctx (\<lambda>ms s. c_bind (first_msg ms) (\<lambda>m. c_bind (OekMsg_get_sta_res m) (\<lambda>res.
      c_bind (txn_at t s) (\<lambda>x. Inr (with_txn t (x\<lparr>tx_tid := Some (OekMsg_get_tid m), tx_status := Some ACTIVE\<rparr>) s))))) s = Inr s1"
      "set_txn t s1 = Inr s'"
    by (auto simp: begin_promise_cb_def c_bind_Inr)
  have "view s1 = view s" by (rule view_answered [OF a(1)]) (auto simp: c_bind_Inr at_Inr view_with_txn)
  then show "view s' = view s" using view_set(2) [OF a(2)] by simp
next
  assume "upt_promise_cb ctx t s = Inr s'"
  then obtain s1 where a: "answered ctx (\<lambda>ms s. c_bind (first_msg ms) (\<lambda>m. c_bind (OekMsg_get_upt_res m) (\<lambda>res.
      c_bind (txn_at t s) (\<lambda>x. Inr (with_txn t (x\<lparr>tx_status := Some (if UptRes_get_status res = CHR ''C'' then COMMITTED
        else ROLLEDBACK)\<rparr>) s))))) s = Inr s1" "set_txn t s1 = Inr s'"
    by (auto simp: upt_promise_cb_def c_bind_Inr)
  have "view s1 = view s" by (rule view_answered [OF a(1)]) (auto simp: c_bind_Inr at_Inr view_with_txn)
  then show "view s' = view s" using view_set(2) [OF a(2)] by simp
qed (simp add: upl_promise_cb_def view_set)

section \<open>The invariant\<close>

text \<open>The transaction that a context or half a callback belongs to.\<close>

fun ctx_txn :: "nat option list \<Rightarrow> nat option list \<Rightarrow> OEK_Context \<times> promise \<Rightarrow> nat option" where
  "ctx_txn lt dt (ctx, Put_Promise i) = lt ! i"
| "ctx_txn lt dt (ctx, Get_Promise i) = taken_by ctx (dt ! i)"
| "ctx_txn lt dt (ctx, _) = None"

fun ctx_ok :: "nat option list \<Rightarrow> nat option list \<Rightarrow> OEK_Context \<times> promise \<Rightarrow> bool" where
  "ctx_ok lt dt (ctx, Put_Promise i) = (i < length lt)"
| "ctx_ok lt dt (ctx, Get_Promise i) = (i < length dt)"
| "ctx_ok lt dt (ctx, _) = True"

fun half_txn :: "nat option list \<Rightarrow> nat option list \<Rightarrow> half \<Rightarrow> nat option" where
  "half_txn lt dt (Put_Half i) = lt ! i"
| "half_txn lt dt (Get_Half ctx n i) = taken_by ctx (dt ! i)"

fun half_ok :: "nat option list \<Rightarrow> nat option list \<Rightarrow> half \<Rightarrow> bool" where
  "half_ok lt dt (Put_Half i) = (i < length lt)"
| "half_ok lt dt (Get_Half ctx n i) = (i < length dt)"

fun half_items :: "half \<Rightarrow> nat" where
  "half_items (Put_Half i) = 1"
| "half_items (Get_Half ctx n i) = nat n"

definition waiting_for :: "nat option list \<Rightarrow> nat option list \<Rightarrow> (OEK_Context \<times> promise) list \<Rightarrow> nat \<Rightarrow> int" where
  "waiting_for lt dt cs t = int (length (filter (\<lambda>c. ctx_txn lt dt c = Some t) cs))"

definition uncounted :: "nat option list \<Rightarrow> nat option list \<Rightarrow> half list \<Rightarrow> nat \<Rightarrow> int" where
  "uncounted lt dt hs t = int (sum_list (map half_items (filter (\<lambda>h. half_txn lt dt h = Some t) hs)))"

definition latches_inv ::
  "(OEK_Context \<times> promise) list \<times> nat option list \<times> nat option list \<times> int list \<times> int list \<times> nat option \<Rightarrow> half list \<Rightarrow>
   (nat \<Rightarrow> nat) \<Rightarrow> bool" where
  "latches_inv v hs items = (case v of (cs, lt, dt, cn, cr, cur) \<Rightarrow>
     length cr = length cn \<and> (\<forall>c \<in> set cs. ctx_ok lt dt c) \<and> (\<forall>h \<in> set hs. half_ok lt dt h) \<and>
     (\<forall>txn \<in> set lt \<union> set dt. known txn cn) \<and> known cur cn \<and> (\<forall>t. length cn \<le> t \<longrightarrow> items t = 0) \<and>
     (\<forall>t < length cn. cn ! t = waiting_for lt dt cs t \<and> cr ! t + uncounted lt dt hs t = int (items t)))"

lemma known_simps [simp]:
  "known None xs" "known (Some t) xs \<longleftrightarrow> t < length xs" "known txn (bump txn' k xs) = known txn xs" "known txn xs \<Longrightarrow> known txn (xs @ ys)"
  by (auto simp: known_def bump_def split: option.splits)

lemma length_bump [simp]: "length (bump txn k xs) = length xs"
  by (simp add: bump_def split: option.split)

lemma bump_nth: "t < length xs \<Longrightarrow> bump txn k xs ! t = xs ! t + (if txn = Some t then k else 0)"
  by (auto simp: bump_def nth_list_update split: option.split)

lemma ctx_txn_append:
  "ctx_ok lt dt c \<Longrightarrow> ctx_txn (lt @ x) (dt @ y) c = ctx_txn lt dt c \<and> ctx_ok (lt @ x) (dt @ y) c"
  "half_ok lt dt h \<Longrightarrow> half_txn (lt @ x) (dt @ y) h = half_txn lt dt h \<and> half_ok (lt @ x) (dt @ y) h"
  by (cases "(lt, dt, c)" rule: ctx_ok.cases; simp add: nth_append) (cases h; simp add: nth_append)

lemma txn_known:
  assumes "\<forall>txn \<in> set lt \<union> set dt. known txn cn"
  shows "ctx_ok lt dt c \<Longrightarrow> known (ctx_txn lt dt c) cn" "half_ok lt dt h \<Longrightarrow> known (half_txn lt dt h) cn"
proof -
  have k: "i < length lt \<Longrightarrow> known (lt ! i) cn" "j < length dt \<Longrightarrow> known (dt ! j) cn" for i j using assms nth_mem by blast+
  show "ctx_ok lt dt c \<Longrightarrow> known (ctx_txn lt dt c) cn"
    using k by (cases "(lt, dt, c)" rule: ctx_txn.cases) (simp_all add: taken_by_def)
  show "half_ok lt dt h \<Longrightarrow> known (half_txn lt dt h) cn" using k by (cases h) (simp_all add: taken_by_def)
qed

lemma waiting_append:
  "\<forall>c \<in> set cs. ctx_ok lt dt c \<Longrightarrow> waiting_for (lt @ x) (dt @ y) cs t = waiting_for lt dt cs t"
  "\<forall>h \<in> set hs. half_ok lt dt h \<Longrightarrow> uncounted (lt @ x) (dt @ y) hs t = uncounted lt dt hs t"
  by (auto simp: waiting_for_def uncounted_def ctx_txn_append intro!: arg_cong [where f = length] arg_cong [where f = sum_list]
      arg_cong [where f = "map half_items"] filter_cong)

lemma waiting_simps:
  "waiting_for lt dt (cs @ cs') t = waiting_for lt dt cs t + waiting_for lt dt cs' t"
  "waiting_for lt dt (c # cs) t = (if ctx_txn lt dt c = Some t then 1 else 0) + waiting_for lt dt cs t"
  "waiting_for lt dt [] t = 0"
  "uncounted lt dt (hs @ hs') t = uncounted lt dt hs t + uncounted lt dt hs' t"
  "uncounted lt dt (h # hs) t = (if half_txn lt dt h = Some t then int (half_items h) else 0) + uncounted lt dt hs t"
  "uncounted lt dt [] t = 0"
  by (simp_all add: waiting_for_def uncounted_def)

text \<open>A new context, with the holders that are made for it.\<close>

lemma inv_new_context:
  assumes i: "latches_inv (cs, lt, dt, cn, cr, cur) hs items"
    and c: "ctx_ok (lt @ x) (dt @ y) c" "ctx_txn (lt @ x) (dt @ y) c = txn" "\<forall>txn \<in> set x \<union> set y. known txn cn" "known cur' cn"
  shows "latches_inv (cs @ [c], lt @ x, dt @ y, bump txn 1 cn, cr, cur') hs items"
  using assms ctx_txn_append [of lt dt _ x y]
  by (auto simp: latches_inv_def waiting_append waiting_simps bump_nth)

lemma inv_new_none:
  "latches_inv (cs, lt, dt, cn, cr, cur) hs items \<Longrightarrow> ctx_ok lt dt c \<Longrightarrow> ctx_txn lt dt c = None \<Longrightarrow> known cur' cn \<Longrightarrow>
   latches_inv (cs @ [c], lt, dt, cn, cr, cur') hs items"
  by (auto simp: latches_inv_def waiting_simps)

lemma inv_begin:
  assumes "latches_inv (cs, lt, dt, cn, cr, cur) hs items"
  shows "latches_inv (cs, lt, dt, cn @ [0], cr @ [0], Some (length cn)) hs items"
proof -
  have lt: "\<forall>txn \<in> set lt \<union> set dt. known txn cn" using assms by (simp add: latches_inv_def)
  have "ctx_txn lt dt c \<noteq> Some (length cn)" if "ctx_ok lt dt c" for c using txn_known(1) [OF lt that] by auto
  then have w: "waiting_for lt dt cs (length cn) = 0"
    using assms by (auto simp: latches_inv_def waiting_for_def filter_empty_conv)
  have "half_txn lt dt h \<noteq> Some (length cn)" if "half_ok lt dt h" for h using txn_known(2) [OF lt that] by auto
  then have "filter (\<lambda>h. half_txn lt dt h = Some (length cn)) hs = []"
    using assms by (auto simp: latches_inv_def filter_empty_conv)
  then have "uncounted lt dt hs (length cn) = 0" by (simp add: uncounted_def)
  then show ?thesis using assms w by (auto simp: latches_inv_def nth_append less_Suc_eq)
qed

lemma inv_answer:
  assumes i: "latches_inv (us @ c # vs, lt, dt, cn, cr, cur) hs items"
    and c: "ctx_txn lt dt c = txn" "half_ok lt dt h" "half_txn lt dt h = txn"
  shows "latches_inv (us @ vs, lt, dt, bump txn (- 1) cn, cr, cur) (hs @ [h]) (plus_items txn (half_items h) items)"
proof -
  have "known txn cn" using txn_known(2) [of lt dt cn h] assms by (simp add: latches_inv_def)
  then show ?thesis
    using assms by (auto simp: latches_inv_def waiting_simps bump_nth plus_items_def split: option.splits)
qed

lemma inv_answer_none:
  "latches_inv (us @ c # vs, lt, dt, cn, cr, cur) hs items \<Longrightarrow> ctx_txn lt dt c = None \<Longrightarrow>
   latches_inv (us @ vs, lt, dt, cn, cr, cur) hs items"
  by (auto simp: latches_inv_def waiting_simps)

lemma inv_end:
  "latches_inv (cs, lt, dt, cn, cr, cur) (us @ h # vs) items \<Longrightarrow>
   latches_inv (cs, lt, dt, cn, bump (half_txn lt dt h) (int (half_items h)) cr, cur) (us @ vs) items"
  by (auto simp: latches_inv_def waiting_simps bump_nth)

definition oes_inv :: "'k oes_run \<Rightarrow> bool" where
  "oes_inv r = latches_inv (view (or_s r)) (or_halves r) (or_items r)"

lemma view_contexts: "view (s\<lparr>ok_contexts := cs\<rparr>) = (cs, lease_txns s, list_txns s, counts s, counters s, ok_currentTxn s)"
  by (simp add: view_defs)

lemma lookups_contexts:
  "lease_txns (s\<lparr>ok_contexts := cs\<rparr>) = lease_txns s" "list_txns (s\<lparr>ok_contexts := cs\<rparr>) = list_txns s"
  "counts (s\<lparr>ok_contexts := cs\<rparr>) = counts s" "counters (s\<lparr>ok_contexts := cs\<rparr>) = counters s"
  by (simp_all add: view_defs)

lemma bump_None [simp]: "bump None k xs = xs"
  by (simp add: bump_def)

lemma taken_by_answer [simp]: "taken_by (ctx\<lparr>cx_res_msgs := ms, cx_err_msg := e\<rparr>) = taken_by ctx"
  by (simp add: taken_by_def fun_eq_iff)

lemma current_known: "oes_inv r \<Longrightarrow> known (ok_currentTxn (or_s r)) (counts (or_s r))"
  by (simp add: oes_inv_def latches_inv_def view_def)

lemma oes_step_inv: "oes_step r r' \<Longrightarrow> oes_inv r \<Longrightarrow> oes_inv r'"
proof (induction rule: oes_step.induct)
  case (Writes r slist dur tuple i slist' s)
  let ?s = "or_s r"
  obtain ctx where v: "view s = (ok_contexts ?s @ [(ctx, Put_Promise (length (lease_txns ?s)))], lease_txns ?s @ [ok_currentTxn ?s],
      list_txns ?s, bump (ok_currentTxn ?s) 1 (counts ?s), counters ?s, ok_currentTxn ?s)"
    using view_write [OF Writes(2)] by blast
  show ?case
    using inv_new_context [of "ok_contexts ?s" "lease_txns ?s" "list_txns ?s" "counts ?s" "counters ?s" "ok_currentTxn ?s" "or_halves r"
        "or_items r" "[ok_currentTxn ?s]" "[]"] Writes(3) current_known [OF Writes(3)]
    by (simp add: oes_inv_def v) (simp add: view_def)
next
  case (Gets r now templates tmo destroy tuple n attrs bts i s)
  let ?s = "or_s r"
  obtain ctx where v: "takes ctx = destroy" "view s = (ok_contexts ?s @ [(ctx, Get_Promise (length (list_txns ?s)))], lease_txns ?s,
      list_txns ?s @ [ok_currentTxn ?s], bump (if destroy then ok_currentTxn ?s else None) 1 (counts ?s), counters ?s, ok_currentTxn ?s)"
    using view_get [OF Gets(2)] by blast
  show ?case
    using inv_new_context [of "ok_contexts ?s" "lease_txns ?s" "list_txns ?s" "counts ?s" "counters ?s" "ok_currentTxn ?s" "or_halves r"
        "or_items r" "[]" "[ok_currentTxn ?s]" "(ctx, Get_Promise (length (list_txns ?s)))"] Gets(3) current_known [OF Gets(3)]
    by (cases destroy) (simp_all add: oes_inv_def v taken_by_def, simp_all add: view_def)
next
  case (Begins r dur t s)
  let ?s = "or_s r"
  obtain ctx where v: "view s = (ok_contexts ?s @ [(ctx, Begin_Promise (length (counts ?s)))], lease_txns ?s, list_txns ?s, counts ?s @ [0],
      counters ?s @ [0], Some (length (counts ?s)))"
    using view_begin [OF Begins(2)] by blast
  show ?case
    using inv_new_none [OF inv_begin, of "ok_contexts ?s" "lease_txns ?s" "list_txns ?s" "counts ?s" "counters ?s"
        "ok_currentTxn ?s" "or_halves r" "or_items r"] Begins(3)
    by (simp add: oes_inv_def v) (simp add: view_def)
next
  case (Updates r t status ctx s)
  then show ?case using view_start [OF Updates(2)] by (simp add: oes_inv_def)
next
  case (Sends r t ctx s)
  let ?s = "or_s r"
  obtain ctx' where v: "view s = (ok_contexts ?s @ [(ctx', Upt_Promise t)], lease_txns ?s, list_txns ?s, counts ?s, counters ?s, None)"
    using view_upt_send [OF Sends(2)] by blast
  show ?case
    using inv_new_none [of "ok_contexts ?s" "lease_txns ?s" "list_txns ?s" "counts ?s" "counters ?s" "ok_currentTxn ?s" "or_halves r"
        "or_items r"] Sends(3)
    by (simp add: oes_inv_def v) (simp add: view_def)
next
  case (Cancels r i s)
  let ?s = "or_s r"
  obtain ctx where v: "view s = (ok_contexts ?s @ [(ctx, Upl_Promise i)], lease_txns ?s, list_txns ?s, counts ?s, counters ?s, ok_currentTxn ?s)"
    using view_cancel [OF Cancels(2)] by blast
  show ?case
    using inv_new_none [of "ok_contexts ?s" "lease_txns ?s" "list_txns ?s" "counts ?s" "counters ?s" "ok_currentTxn ?s" "or_halves r"
        "or_items r"] Cancels(3) current_known [OF Cancels(3)]
    by (simp add: oes_inv_def v) (simp add: view_def)
next
  case (Put_Answered r us ctx i vs ms e s)
  have v: "view (or_s r) = (us @ (ctx, Put_Promise i) # vs, lease_txns (or_s r), list_txns (or_s r), counts (or_s r), counters (or_s r),
      ok_currentTxn (or_s r))"
    using Put_Answered(1) by (simp add: view_def)
  show ?case
    using inv_answer [of us "(ctx, Put_Promise i)" vs "lease_txns (or_s r)" "list_txns (or_s r)" "counts (or_s r)" "counters (or_s r)" _ _ _ _
        "Put_Half i"] view_put_cb [OF Put_Answered(2)] Put_Answered(3)
    by (simp add: oes_inv_def v lookups_contexts)
next
  case (Get_Answered r us ctx i vs ms e n s)
  have v: "view (or_s r) = (us @ (ctx, Get_Promise i) # vs, lease_txns (or_s r), list_txns (or_s r), counts (or_s r), counters (or_s r),
      ok_currentTxn (or_s r))"
    using Get_Answered(1) by (simp add: view_def)
  show ?case
    using inv_answer [of us "(ctx, Get_Promise i)" vs "lease_txns (or_s r)" "list_txns (or_s r)" "counts (or_s r)" "counters (or_s r)" _ _ _ _
        "Get_Half ctx n i"] view_get_cb [OF Get_Answered(2)] Get_Answered(3)
    by (simp add: oes_inv_def v lookups_contexts taking_txn)
next
  case (Get_Waits ctx i r ms e s)
  then show ?case using view_get_more [OF Get_Waits(2)] by (simp add: oes_inv_def)
next
  case (Put_Ends r us i vs s)
  show ?case
    using inv_end [of "ok_contexts (or_s r)" "lease_txns (or_s r)" "list_txns (or_s r)" "counts (or_s r)" "counters (or_s r)" _ us "Put_Half i"]
      view_put_end [OF Put_Ends(2)] Put_Ends(1,3)
    by (simp add: oes_inv_def) (simp add: view_def)
next
  case (Get_Ends r us ctx n i vs s)
  show ?case
    using inv_end [of "ok_contexts (or_s r)" "lease_txns (or_s r)" "list_txns (or_s r)" "counts (or_s r)" "counters (or_s r)" _ us
        "Get_Half ctx n i"] view_get_end [OF Get_Ends(2)] Get_Ends(1,3)
    by (simp add: oes_inv_def del: int_nat_eq) (simp add: view_def del: int_nat_eq)
next
  case (Begin_Answered r us ctx t vs ms e s)
  show ?case
    using inv_answer_none [of us "(ctx, Begin_Promise t)" vs] view_begin_upt(1) [OF Begin_Answered(2)] Begin_Answered(1,3)
    by (simp add: oes_inv_def view_contexts) (simp add: view_def)
next
  case (Upt_Answered r us ctx t vs ms e s)
  show ?case
    using inv_answer_none [of us "(ctx, Upt_Promise t)" vs] view_begin_upt(2) [OF Upt_Answered(2)] Upt_Answered(1,3)
    by (simp add: oes_inv_def view_contexts) (simp add: view_def)
next
  case (Upl_Answered r us ctx i vs ms e s)
  show ?case
    using inv_answer_none [of us "(ctx, Upl_Promise i)" vs] view_begin_upt(3) [OF Upl_Answered(2)] Upl_Answered(1,3)
    by (simp add: oes_inv_def view_contexts) (simp add: view_def)
qed

lemma oes_begin_inv: "oes_inv (oes_begin K)"
  by (simp add: oes_inv_def oes_begin_def OesKernel_new_def view_defs latches_inv_def)

lemma oes_reach: "oes_step\<^sup>*\<^sup>* (oes_begin K) r \<Longrightarrow> oes_inv r"
  by (induction rule: rtranclp_induct) (auto intro: oes_begin_inv oes_step_inv)

section \<open>The end of a transaction\<close>


section \<open>Errors\<close>

text \<open>The status of a transaction is read before the wait for the answer to its begin, which sets it.\<close>

lemma commit_before_answer:
  assumes "OesKernel_impl_begin dur s = Inr (t, s')"
  shows "OesKernel_impl_commit (Some t) s' = Inl Uninitialised" "OesKernel_impl_rollback (Some t) s' = Inl Uninitialised"
  using assms
  by (auto simp: OesKernel_impl_commit_def OesKernel_impl_rollback_def upt_txn_start_def OesKernel_impl_begin_def send_context_def
      c_bind_Inr Let_def split_beta next_cid_def txn_at_def nth_append)

text \<open>No transaction: the exception is noted, and the function goes on with the null pointer.\<close>

lemma commit_null: "OesKernel_impl_commit None s = Inl Null_Deref"
  by (simp add: OesKernel_impl_commit_def upt_txn_start_def throw_exception_def Let_def)

text \<open>A transaction that has ended is updated again: the exception does not stop the caller.\<close>

lemma commit_goes_on:
  assumes "t < length (ok_txns s)" "tx_status (ok_txns s ! t) = Some st" "st \<noteq> ACTIVE" "tx_tid (ok_txns s ! t) = Some tid"
    "getid_check (tx_f (ok_txns s ! t)) = Inr (Returns v)" "Oec_Future_free (tx_f (ok_txns s ! t)) = Inr rf"
  shows "\<exists>ctx s'. OesKernel_impl_commit (Some t) s = Inr (Returns (ctx, s')) \<and> ok_error_status s'"
  using assms
  by (cases rf) (simp add: OesKernel_impl_commit_def upt_txn_start_def txn_at_def throw_exception_def Let_def w_bind_def new_oek_context_def
      OekMsg_new_def OekMsg_settype_def next_cid_def with_txn_def OekMsg_get_upt_cmd_def)

text \<open>The text of an exception: what remains of an older, longer one follows it, and a text that fills the array has no end.\<close>

lemma exception_text:
  assumes "throw_exception (Some m) s = Inr s'" "NUL \<notin> set m" "length (ok_error_message s) = 256"
  shows "check_exception s' =
    (if length m < 256 \<and> NUL \<in> set (drop (length m) (ok_error_message s))
     then Inr (Some (m @ takeWhile (\<lambda>c. c \<noteq> NUL) (drop (length m) (ok_error_message s)))) else Inl Out_Of_Bounds)"
proof -
  have no: "NUL \<notin> set (take n m)" for n using assms(2) by (meson in_set_takeD)
  show ?thesis
  proof (cases "length m < 256")
    case True
    have "takeWhile (\<lambda>c. c \<noteq> NUL) (m @ xs) = m @ takeWhile (\<lambda>c. c \<noteq> NUL) xs" for xs
      by (rule takeWhile_append2) (use assms(2) in auto)
    then show ?thesis using True assms by (auto simp: throw_exception_def check_exception_def Let_def)
  next
    case False
    then show ?thesis using assms(1,3) no by (auto simp: throw_exception_def check_exception_def Let_def)
  qed
qed

section \<open>A run\<close>

text \<open>A kernel that takes every command, and answers to a begin and to puts.\<close>

definition quiet_kernel :: "unit OEK" where
  "quiet_kernel = \<lparr>oek_client = (), oek_put = \<lambda>k c. Inr k, oek_get = \<lambda>k c. Inr k, oek_sta = \<lambda>k c. Inr k, oek_upt = \<lambda>k c. Inr k,
     oek_upl = \<lambda>k c. Inr k, oek_stop = None\<rparr>"

definition sta_answer :: OekMsg where
  "sta_answer = \<lparr>mtype = STA_RES, cor_id = 1, txn_id = 5, valid = True, data = D_sta_res StaRes_new\<rparr>"

definition put_answer :: OekMsg where
  "put_answer = \<lparr>mtype = PUT_RES, cor_id = 2, txn_id = 5, valid = True, data = D_put_res PutRes_new\<rparr>"

definition item :: OesDataObject where
  "item = \<lparr>do_arena = True, do_obj = DataObject_new\<rparr>"

lemmas oes_defs = quiet_kernel_def sta_answer_def put_answer_def item_def oes_begin_def OesKernel_new_def OesKernel_impl_begin_def
  OesKernel_impl_write_def join_txn_def enlist_def send_context_def next_cid_def w_bind_def txn_at_def with_txn_def lease_at_def
  with_lease_def new_oek_context_def OekMsg_new_def OekMsg_settype_def Let_def OEK_put_def OEK_sta_def OEK_upt_def oek_call_def
  OekMsg_get_sta_cmd_def OekMsg_get_put_cmd_def OekMsg_get_sta_res_def OekMsg_get_put_res_def OekMsg_get_upt_cmd_def
  OekMsg_set_cid_def OekMsg_set_tid_def
  OekMsg_get_tid_def put_promise_cb_def put_promise_end_def begin_promise_cb_def answered_def first_msg_def set_txn_def set_lease_def
  leave_txn_def count_items_def getid_check_def with_future_def Oec_Future_new_def Oec_Future_set_def future_set_def Oec_Future_free_def
  Oec_CountdownLatch_new_def Oec_CountdownLatch_increment_def Oec_CountdownLatch_decrement_def latch_update_def plus_int_def
  upt_txn_start_def upt_txn_send_def latch_check_def latch_got_def cmd_of_def enlisted_items_def
  Oec_CountdownLatch_get_hi_water_mark_def

abbreviation fresh :: "unit Oec_Future option" where
  "fresh \<equiv> Oec_Future_new"

abbreviation done_future :: "unit Oec_Future option" where
  "done_future \<equiv> Some ((the Oec_Future_new)\<lparr>fu_done := True\<rparr>)"

definition lease :: "unit Oec_Future option \<Rightarrow> OesLease" where
  "lease f = \<lparr>le_f = f, le_lid = 0, le_txn = Some 0\<rparr>"

text \<open>The transaction with the identifier 5, its two latches, the leases, the contexts and the last identifier.\<close>

definition active :: "unit Oec_Future option \<Rightarrow> 32 word \<Rightarrow> 32 word \<Rightarrow> 32 word \<Rightarrow> OesLease list \<Rightarrow> (OEK_Context \<times> promise) list \<Rightarrow> oe_id \<Rightarrow>
    unit OesKernel" where
  "active f n m k ls cs cid = (OesKernel_new quiet_kernel)\<lparr>ok_lastid := cid, ok_currentTxn := Some 0, ok_txns := [\<lparr>tx_f = f,
     tx_status = Some ACTIVE, tx_tid = Some 5, tx_enlisted = \<lparr>la_count = n, la_max_count = m\<rparr>,
     tx_enlisted_counter = \<lparr>la_count = k, la_max_count = k\<rparr>\<rparr>], ok_leases := ls, ok_contexts := cs\<rparr>"

lemma run_begin: "\<exists>s ctx. OesKernel_impl_begin 0 (OesKernel_new quiet_kernel) = Inr (0, s) \<and> ok_contexts s = [] @ (ctx, Begin_Promise 0) # [] \<and>
    begin_promise_cb (ctx\<lparr>cx_res_msgs := Some [sta_answer], cx_err_msg := None\<rparr>) 0 (s\<lparr>ok_contexts := [] @ []\<rparr>) =
      Inr (active done_future 0 0 0 [] [] 1)"
  by (simp add: oes_defs active_def)

lemma run_writes:
  "\<exists>x c. OesKernel_impl_write item 0 True (active done_future 0 0 0 [] [] 1) =
     Inr (Returns (0, x, active done_future 1 1 0 [lease fresh] [(c, Put_Promise 0)] 2))"
  "\<exists>x c. OesKernel_impl_write item 0 True (active done_future 1 1 0 [lease fresh] [(c0, Put_Promise 0)] 2) =
     Inr (Returns (1, x, active done_future 2 2 0 [lease fresh, lease fresh] [(c0, Put_Promise 0), (c, Put_Promise 1)] 3))"
  by (simp_all add: oes_defs active_def lease_def)

lemma run_answers:
  "put_promise_cb (c\<lparr>cx_res_msgs := Some [put_answer], cx_err_msg := None\<rparr>) 0
     (active done_future 2 2 0 [lease fresh, lease fresh] ([] @ [(c1, Put_Promise 1)]) 3) =
   Inr (active done_future 1 2 0 [lease fresh, lease fresh] [(c1, Put_Promise 1)] 3)"
  "put_promise_cb (c\<lparr>cx_res_msgs := Some [put_answer], cx_err_msg := None\<rparr>) 1
     (active done_future 1 2 0 [lease fresh, lease fresh] ([] @ []) 3) =
   Inr (active done_future 0 2 0 [lease fresh, lease fresh] [] 3)"
  "put_promise_end 0 (active done_future 0 2 0 [lease fresh, lease fresh] [] 3) =
   Inr (active done_future 0 2 1 [lease done_future, lease fresh] [] 3)"
  by (simp_all add: oes_defs active_def lease_def PutRes_new_def PutRes_get_lease_id_def)

lemma run_commit:
  "\<exists>c s. upt_txn_start (Some 0) COMMITTED (active done_future 0 2 1 ls [] 3) = Inr (Returns (c, active fresh 0 2 1 ls [] 4)) \<and>
     upt_txn_send 0 c (active fresh 0 2 1 ls [] 4) = Inr (Returns s)"
  by (simp add: oes_defs active_def)

lemma run_two_puts:
  "\<exists>r ctx s. oes_step\<^sup>*\<^sup>* (oes_begin quiet_kernel) r \<and> or_commit r = Some (0, ctx) \<and> or_items r 0 = 2 \<and> or_halves r = [Put_Half 1] \<and>
     lease_txns (or_s r) = [Some 0, Some 0] \<and> upt_txn_send 0 ctx (or_s r) = Inr (Returns s)"
proof -
  let ?run = "\<lambda>s hs c items. \<lparr>or_s = s, or_halves = hs, or_commit = c, or_items = items\<rparr> :: unit oes_run"
  let ?two = "[lease fresh, lease fresh]"
  have txn: "le_txn (lease f) = Some 0" for f by (simp add: lease_def)
  obtain s1 c where b: "OesKernel_impl_begin 0 (OesKernel_new quiet_kernel) = Inr (0, s1)" "ok_contexts s1 = [] @ (c, Begin_Promise 0) # []"
      "begin_promise_cb (c\<lparr>cx_res_msgs := Some [sta_answer], cx_err_msg := None\<rparr>) 0 (s1\<lparr>ok_contexts := [] @ []\<rparr>) =
        Inr (active done_future 0 0 0 [] [] 1)"
    using run_begin by blast
  obtain x0 c0 where w0: "OesKernel_impl_write item 0 True (active done_future 0 0 0 [] [] 1) =
      Inr (Returns (0, x0, active done_future 1 1 0 [lease fresh] [(c0, Put_Promise 0)] 2))" using run_writes(1) by blast
  obtain x1 c1 where w1: "OesKernel_impl_write item 0 True (active done_future 1 1 0 [lease fresh] [(c0, Put_Promise 0)] 2) =
      Inr (Returns (1, x1, active done_future 2 2 0 ?two [(c0, Put_Promise 0), (c1, Put_Promise 1)] 3))" using run_writes(2) by blast
  let ?ls = "[lease done_future, lease fresh]"
  obtain ctx s where u: "upt_txn_start (Some 0) COMMITTED (active done_future 0 2 1 ?ls [] 3) = Inr (Returns (ctx, active fresh 0 2 1 ?ls [] 4))"
      "upt_txn_send 0 ctx (active fresh 0 2 1 ?ls [] 4) = Inr (Returns s)" using run_commit [of ?ls] by blast
  let ?i1 = "plus_items (Some 0) 1 (\<lambda>_. 0)" let ?i2 = "plus_items (Some 0) 1 ?i1"
  have "oes_step (oes_begin quiet_kernel) (?run s1 [] None (\<lambda>_. 0))"
    using oes_step.Begins [of "oes_begin quiet_kernel" 0 0 s1] b(1) by (simp add: oes_begin_def)
  moreover have "oes_step (?run s1 [] None (\<lambda>_. 0)) (?run (active done_future 0 0 0 [] [] 1) [] None (\<lambda>_. 0))"
    using oes_step.Begin_Answered [of "?run s1 [] None (\<lambda>_. 0)" "[]" c 0 "[]" None "Some [sta_answer]"] b(2,3) by simp
  moreover have "oes_step (?run (active done_future 0 0 0 [] [] 1) [] None (\<lambda>_. 0))
      (?run (active done_future 1 1 0 [lease fresh] [(c0, Put_Promise 0)] 2) [] None (\<lambda>_. 0))"
    using oes_step.Writes [of "?run (active done_future 0 0 0 [] [] 1) [] None (\<lambda>_. 0)"] w0 by fastforce
  moreover have "oes_step (?run (active done_future 1 1 0 [lease fresh] [(c0, Put_Promise 0)] 2) [] None (\<lambda>_. 0))
      (?run (active done_future 2 2 0 ?two [(c0, Put_Promise 0), (c1, Put_Promise 1)] 3) [] None (\<lambda>_. 0))"
    using oes_step.Writes [of "?run (active done_future 1 1 0 [lease fresh] [(c0, Put_Promise 0)] 2) [] None (\<lambda>_. 0)"] w1 by fastforce
  moreover have "oes_step (?run (active done_future 2 2 0 ?two [(c0, Put_Promise 0), (c1, Put_Promise 1)] 3) [] None (\<lambda>_. 0))
      (?run (active done_future 1 2 0 ?two [(c1, Put_Promise 1)] 3) [Put_Half 0] None ?i1)"
    using oes_step.Put_Answered [of "?run (active done_future 2 2 0 ?two [(c0, Put_Promise 0), (c1, Put_Promise 1)] 3) [] None (\<lambda>_. 0)" "[]" c0 0
        "[(c1, Put_Promise 1)]" None "Some [put_answer]"] run_answers(1) [of c0 c1] txn
    by (simp add: active_def)
  moreover have "oes_step (?run (active done_future 1 2 0 ?two [(c1, Put_Promise 1)] 3) [Put_Half 0] None ?i1)
      (?run (active done_future 0 2 0 ?two [] 3) [Put_Half 0, Put_Half 1] None ?i2)"
    using oes_step.Put_Answered [of "?run (active done_future 1 2 0 ?two [(c1, Put_Promise 1)] 3) [Put_Half 0] None ?i1" "[]" c1 1 "[]"
        None "Some [put_answer]"] run_answers(2) [of c1] txn
    by (simp add: active_def)
  moreover have "oes_step (?run (active done_future 0 2 0 ?two [] 3) [Put_Half 0, Put_Half 1] None ?i2)
      (?run (active done_future 0 2 1 ?ls [] 3) [Put_Half 1] None ?i2)"
    using oes_step.Put_Ends [of "?run (active done_future 0 2 0 ?two [] 3) [Put_Half 0, Put_Half 1] None ?i2" "[]" 0 "[Put_Half 1]"]
      run_answers(3) by simp
  moreover have "oes_step (?run (active done_future 0 2 1 ?ls [] 3) [Put_Half 1] None ?i2)
      (?run (active fresh 0 2 1 ?ls [] 4) [Put_Half 1] (Some (0, ctx)) ?i2)"
    using oes_step.Updates [of "?run (active done_future 0 2 1 ?ls [] 3) [Put_Half 1] None ?i2"] u(1) by fastforce
  ultimately have "oes_step\<^sup>*\<^sup>* (oes_begin quiet_kernel) (?run (active fresh 0 2 1 ?ls [] 4) [Put_Half 1] (Some (0, ctx)) ?i2)"
    by (meson converse_rtranclp_into_rtranclp rtranclp.rtrancl_refl)
  moreover have "lease_txns (active fresh 0 2 1 ?ls [] 4) = [Some 0, Some 0]" by (simp add: lease_txns_def active_def lease_def)
  moreover have "?i2 0 = 2" by (simp add: plus_items_def)
  ultimately show ?thesis using u(2)
    by (intro exI [of _ "?run (active fresh 0 2 1 ?ls [] 4) [Put_Half 1] (Some (0, ctx)) ?i2"] exI [of _ ctx] exI [of _ s]) simp
qed


end
