(* ===== verification/Spec2Isabelle.thy ===== *)
theory Spec2Isabelle
  imports Prelude Values Hash_Set Hash_Table Containers Messages Store_Holder Bdb_Samples
    Work_Queue Thread_Dispatcher Kernel Kernel_Props Kernel_Samples
    Dispatcher Dispatcher_Props Dispatcher_Runs Wakeup
    Jcl_Parser Jcl_Encoder Jcl_Decoder Jcl_Scan Jcl_Roundtrip Jcl_Net Jcl_Props
    Net_Conn Session Security Oep_Server Server_Steps Server_Props Jcl_Frames Futures
    Oep_Utils Oep_Client Client_Steps Client_Props Client_Server
    Base64 Doubles Cjson Cjson_Props Json_Create Json_Serialize Json_Roundtrip Json_Net Json_Kernel Oep_Factory
    Oes_Kernel Oes_Props
begin

text \<open>
  \<^bold>\<open>A verification of OeScript\<close>

  OeScript is a tuple space in C: clients put records with a lease, read or take records that match a template, wait for records
  that are not there yet, and group these operations in transactions.  This development models the core of the program,
  \<^verbatim>\<open>src/corelib\<close>, from the hash tables up to a client that talks to a server.

  \<^bold>\<open>The parts and how they work together\<close>

  A client (\<^verbatim>\<open>OepClient.c\<close>) keeps the context of each command by its correlation identifier and writes the command to a
  connection (\<^verbatim>\<open>OeNetConn.c\<close> on libevent) as a text of the protocol JCL (\<^verbatim>\<open>OeJclEncoder.c\<close>) or JSON
  (\<^verbatim>\<open>json_msg_factory.c\<close>).  The server (\<^verbatim>\<open>OepServer.c\<close>) reads the
  text in the session of the connection (\<^verbatim>\<open>OeSession.c\<close>), has it parsed (\<^verbatim>\<open>oejcl_parser.l\<close>, \<^verbatim>\<open>oejcl_parser.y\<close>,
  \<^verbatim>\<open>OeJclDecoder.c\<close>), asks the security context (\<^verbatim>\<open>SecurityContext.c\<close>), and hands the command to the kernel of the extent.
  The kernel (\<^verbatim>\<open>OEK*.c\<close>) works it off on a pool of threads (\<^verbatim>\<open>Oe_Thread_Dispatcher.c\<close>) against the store (\<^verbatim>\<open>OeStore.c\<close>,
  \<^verbatim>\<open>OeBdb.c\<close> on Berkeley DB).  A get that finds nothing is registered with the template matcher (\<^verbatim>\<open>Oed_Dispatcher.c\<close>); the
  event of a put wakes it.  Answers go back through the callback of the context to the server, the connection and the client, and there
  to the futures of the program (\<^verbatim>\<open>OesKernel_impl.c\<close>).

  \<^bold>\<open>Conventions\<close>

  A run of C code that can fail has the type \<open>c_result\<close>: \<^const>\<open>Inl\<close> is a failed assertion or undefined behaviour, by its kind,
  and \<^const>\<open>Inr\<close> the result with the state after the call.  Machine integers are words where their width matters.  Pointers are
  options; where the code uses a block after its release the model has a flag or \<^const>\<open>None\<close> and the fault
  \<^const>\<open>Use_After_Free\<close>.  Definitions keep the names of the C functions without leading underscores.

  \<^bold>\<open>Theories, sources, and what is proved\<close>

  \<^item> \<^verbatim>\<open>Prelude\<close>: faults, C strings, little-endian and decimal numbers, and the lemmas shared by all theories.  \<^verbatim>\<open>Values\<close>:
    \<^verbatim>\<open>oec_values.c\<close>, \<^verbatim>\<open>arith.c\<close>.
  \<^item> \<^verbatim>\<open>Hash_Set\<close>, \<^verbatim>\<open>Hash_Table\<close>: \<^verbatim>\<open>set.c\<close>, \<^verbatim>\<open>Oec_IdSet.c\<close>, \<^verbatim>\<open>arenatable.c\<close>, \<^verbatim>\<open>table.c\<close>, \<^verbatim>\<open>SKeyTable.c\<close>.  The
    locales \<open>hash_ops\<close>, \<open>id_registry\<close> and \<open>keyed_store\<close> are the contracts of their users: a lookup answers by the history of puts
    and removes; the binary set operations are those of sets.
  \<^item> \<^verbatim>\<open>Containers\<close>, \<^verbatim>\<open>Messages\<close>: lists, iterators, data objects, and the fourteen messages with their envelope, whose tag and
    member always agree.
  \<^item> \<^verbatim>\<open>Store_Holder\<close>: records and their binary layout, with its round trip.
  \<^item> \<^verbatim>\<open>Bdb_Store\<close> (\<^verbatim>\<open>OeBdb.c\<close>, \<^verbatim>\<open>OeStore.c\<close>): every call of the store.  Berkeley DB is a record of functions; \<^verbatim>\<open>Bdb_Laws\<close> states
    what its documentation promises, and \<^verbatim>\<open>Bdb_Memory\<close> shows that a database in memory keeps these promises.  \<^verbatim>\<open>Bdb_Search\<close>:
    what a get returns is live, matches and is not locked, and a report of nothing found is right.  \<^verbatim>\<open>Bdb_Txn\<close>,
    \<^verbatim>\<open>Bdb_Calls\<close>: puts, lease updates and the end of transactions happen completely or not at all.  \<^verbatim>\<open>Bdb_Reaper\<close>: the reaper
    deletes only records that have run out, and misses some.  \<^verbatim>\<open>Bdb_Samples\<close>: the witnesses.
  \<^item> \<^verbatim>\<open>Work_Queue\<close>, \<^verbatim>\<open>Thread_Dispatcher\<close>: linked queues that refine lists; in every interleaving jobs run once and in order,
    and a stop ends.
  \<^item> \<^verbatim>\<open>Dispatcher\<close>, \<^verbatim>\<open>Dispatcher_Props\<close>, \<^verbatim>\<open>Dispatcher_Runs\<close>: the template matcher as a store of items with explicit releases;
    no run uses a released item, and an event wakes the registrations it matches.
  \<^item> \<^verbatim>\<open>Kernel\<close>, \<^verbatim>\<open>Kernel_Props\<close>, \<^verbatim>\<open>Kernel_Samples\<close>, \<^verbatim>\<open>Wakeup\<close>: the handlers of the kernel, each command answered exactly once, what
    puts and gets do to the store, and a get that waits being woken by a put, or missing it.
  \<^item> \<^verbatim>\<open>Jcl_Parser\<close>, \<^verbatim>\<open>Jcl_Encoder\<close>, \<^verbatim>\<open>Jcl_Decoder\<close>, \<^verbatim>\<open>Jcl_Scan\<close>, \<^verbatim>\<open>Jcl_Roundtrip\<close>, \<^verbatim>\<open>Jcl_Net\<close>, \<^verbatim>\<open>Jcl_Frames\<close>,
    \<^verbatim>\<open>Jcl_Props\<close>: scanner, grammar, printer and reader of JCL.  Every message that JCL can carry arrives as it was sent; the reader
    splits its input like a reference definition; blocks that are too small.
  \<^item> \<^verbatim>\<open>Net_Conn\<close>, \<^verbatim>\<open>Session\<close>, \<^verbatim>\<open>Security\<close>, \<^verbatim>\<open>Oep_Server\<close>, \<^verbatim>\<open>Server_Steps\<close>, \<^verbatim>\<open>Server_Props\<close>: connections, sessions, logins and
    privileges, and the server for one session.  The locale \<open>protocol\<close> is what the server needs of a protocol.  A command
    reaches the kernel only if the client is connected, logged in and allowed to; a session is released once and not while it has tasks.
  \<^item> \<^verbatim>\<open>Futures\<close>: \<^verbatim>\<open>Oec_Future.c\<close>, \<^verbatim>\<open>Oec_CountdownLatch.c\<close>, with the two roles of a future as a step relation.
  \<^item> \<^verbatim>\<open>Oep_Utils\<close>, \<^verbatim>\<open>Oep_Client\<close>, \<^verbatim>\<open>Client_Steps\<close>, \<^verbatim>\<open>Client_Props\<close>, \<^verbatim>\<open>Client_Server\<close>: addresses and the client.  Its reader
    refines an abstract client with a finite map; commands that wait when a connection is lost wait forever; and a command goes
    through client, connection, server, kernel and back to its callback.
  \<^item> \<^verbatim>\<open>Base64\<close> (\<^verbatim>\<open>modp_b64.c\<close>), \<^verbatim>\<open>Doubles\<close>, \<^verbatim>\<open>Cjson\<close>, \<^verbatim>\<open>Cjson_Props\<close> (\<^verbatim>\<open>cJSON.c\<close>): what the JSON protocol rests on.  A
    double is the rational number it stands for.  Every access of the parser is to a character of the block that holds the text
    and its NUL.  Printed values are parsed back; the parser always ends; a text that breaks off makes it leave the block.
  \<^item> \<^verbatim>\<open>Json_Create\<close>, \<^verbatim>\<open>Json_Serialize\<close>, \<^verbatim>\<open>Json_Roundtrip\<close> (\<^verbatim>\<open>json_msg_factory.c\<close>), \<^verbatim>\<open>Json_Net\<close> (\<^verbatim>\<open>JsonNet.c\<close>), \<^verbatim>\<open>Json_Kernel\<close>
    (\<^verbatim>\<open>JsonKernel.c\<close>): every message as a JSON object, with the code of every refusal, on a connection and for a kernel in the same
    process.  \<open>json_image\<close> is the message that arrives, which says what the protocol loses.
  \<^item> \<^verbatim>\<open>Oep_Factory\<close> (\<^verbatim>\<open>OepFactory.c\<close>): the protocol is chosen by the address; both ends of an address speak the same one.  The
    locale \<open>protocol\<close> is interpreted for JCL and for JSON, and what is proved of the life of a session and of what reaches a
    kernel holds for both.
  \<^item> \<^verbatim>\<open>Oes_Kernel\<close>, \<^verbatim>\<open>Oes_Props\<close> (\<^verbatim>\<open>OesKernel_impl.c\<close>): the interface for programs, whose calls return at once and are
    completed by callbacks of the kernel.  In every interleaving of a program with its callbacks a transaction is ended only when all its
    puts and takes have been answered; the number of records that the server is told can be too small.

  \<^bold>\<open>Bounds\<close>

  Loops that the code does not bound have fuel, and running out of it is the fault \<^const>\<open>Fuel_Spent\<close>.  The kernel retries a
  deadlock 10000 times, as the code does.  The loops of the store take the number of steps as an argument; the theorems hold for every
  number with which a call returns, and the witnesses show numbers with which it does.  The loops of the JCL parser are bounded by
  the length of the input, which is proved to be enough, and so are those of the JSON parser and its recursion.  The readers of server and client need one step more than there are
  messages, which is part of the theorems about them.

  \<^bold>\<open>Not modelled\<close>

  Berkeley DB, libevent, OpenSSL and PAM are libraries that the sources only call; the first two are parameters with named hypotheses,
  sockets, TLS and PAM are left out.  Memory is modelled where the code depends on it (releases, sizes of blocks); arenas, checked
  allocation and the exceptions of \<^verbatim>\<open>except.c\<close> are not.  Threads are interleavings of the sections that a mutex protects.  Logging,
  statistics, signals and the command line programs have no effect on the state.  The scripting bindings are
  generated.  The JSON library is modelled for memory that does not run out, with
  \<^verbatim>\<open>pow\<close> correctly rounded; its operations on references and for replacing items have no caller.
\<close>

end
